(* ===== verification/Prelude.thy ===== *)
theory Prelude
  imports Main "HOL-Library.Word"
begin

text \<open>
  Shared vocabulary of the development: the integer types of vmm/types.h, the word idioms
  the C code uses (test, set and clear a mask of bits, rounding, min and max, bit scan
  forward), the little-endian byte memory the kernel reads and writes, and the generic
  lemmas about them.  The collection \<open>mask_simps\<close> holds the bit-mask laws, the collection
  \<open>mem_simps\<close> the laws of loads after stores.
\<close>

unbundle bit_operations_syntax

section \<open>Integer types\<close>

text \<open>vmm/types.h assumes 32-bit ints and longs.\<close>

type_synonym u8 = "8 word"
type_synonym u16 = "16 word"
type_synonym u32 = "32 word"

named_theorems mask_simps \<open>laws of testing, setting and clearing a mask of bits\<close>
named_theorems mem_simps \<open>laws of loads after stores\<close>

section \<open>Bit masks\<close>

text \<open>The C idiom \<open>if (x & m)\<close>.\<close>

abbreviation test_mask :: "'a::len word \<Rightarrow> 'a word \<Rightarrow> bool" where
  "test_mask x m \<equiv> x AND m \<noteq> 0"

lemma or_and_same [mask_simps, simp]: "((x::'a::len word) OR m) AND m = m"
  by (rule bit_word_eqI) (auto simp: bit_simps)

lemma and_not_and_same [mask_simps, simp]: "((x::'a::len word) AND NOT m) AND m = 0"
  by (rule bit_word_eqI) (auto simp: bit_simps)

lemma or_and_disjoint [mask_simps]:
  "m AND k = 0 \<Longrightarrow> ((x::'a::len word) OR m) AND k = x AND k"
  by (simp add: bit.conj_disj_distrib2)

lemma and_not_and_disjoint [mask_simps]:
  assumes "m AND k = 0" shows "((x::'a::len word) AND NOT m) AND k = x AND k"
proof (rule bit_word_eqI)
  fix n assume "n < LENGTH('a)"
  have "\<not> (bit m n \<and> bit k n)"
    using assms by (metis bit_0_eq bit_and_iff bot_apply bot_bool_def)
  then show "bit ((x AND NOT m) AND k) n = bit (x AND k) n"
    using \<open>n < LENGTH('a)\<close> by (auto simp: bit_simps)
qed

lemma and_mask_or_not [mask_simps]: "((x::'a::len word) AND m) OR (x AND NOT m) = x"
  by (rule bit_word_eqI) (auto simp: bit_simps)

lemma and_or_zero [mask_simps]: "((x::'a::len word) AND (m OR k)) = 0 \<longleftrightarrow> x AND m = 0 \<and> x AND k = 0"
  by (simp add: bit.conj_disj_distrib or_eq_0_iff)

section \<open>Rounding, minimum, maximum\<close>

text \<open>\<open>round_to\<close> of vmm/types.h: round up to a multiple of a power of two.\<close>

definition round_to :: "u32 \<Rightarrow> u32 \<Rightarrow> u32" where
  "round_to val md = (val + (md - 1)) AND NOT (md - 1)"

lemma unat_and_not_mask: "unat ((w :: u32) AND NOT (mask n)) = unat w div 2 ^ n * 2 ^ n"
proof -
  have "(w AND mask n) + (w AND NOT (mask n)) = (w AND mask n) OR (w AND NOT (mask n))"
    by (rule disjunctive_add_eq_or) (rule bit_word_eqI, auto simp: bit_simps)
  also have "\<dots> = w" by (rule and_mask_or_not)
  finally have s: "(w AND mask n) + (w AND NOT (mask n)) = w" .
  have m: "unat (w AND mask n) = unat w mod 2 ^ n"
    by (simp only: take_bit_eq_mask[symmetric] unsigned_take_bit_eq) (simp add: take_bit_eq_mod)
  have "w AND NOT (mask n) = w - (w AND mask n)" using s by (metis add_diff_cancel_left')
  moreover have "unat (w AND mask n) \<le> unat w" using m by simp
  ultimately have "unat (w AND NOT (mask n)) = unat w - unat w mod 2 ^ n" using m by (simp add: unat_sub word_le_nat_alt)
  then show ?thesis by (simp add: minus_mod_eq_div_mult)
qed

lemma unat_round_to:
  assumes "unat v + (2 ^ n - 1) < 2 ^ 32" "n < 32" "md = 2 ^ n"
  shows "unat (round_to v md) = (unat v + (2 ^ n - 1)) div 2 ^ n * 2 ^ n"
proof -
  have p: "(2::nat) ^ n < 2 ^ 32" using assms(2) by (intro power_strict_increasing) simp_all
  then have m: "md - 1 = mask n" by (simp add: assms(3) mask_eq_exp_minus_1)
  have "(mask n :: u32) = of_nat (2 ^ n - 1)" by (simp add: mask_eq_exp_minus_1 of_nat_diff)
  moreover have "2 ^ n - 1 < (2::nat) ^ 32" using p by linarith
  ultimately have "unat (mask n :: u32) = 2 ^ n - 1" by (simp only: unat_of_nat) simp
  then have "unat (v + mask n) = unat v + (2 ^ n - 1)" using assms(1) by (simp add: unat_word_ariths(1))
  then show ?thesis by (simp add: round_to_def m unat_and_not_mask)
qed

text \<open>Small numbers as words, unsigned and signed.\<close>

lemma unat_u32: "n < 2 ^ 32 \<Longrightarrow> unat (of_nat n :: u32) = n"
  by (simp add: unat_of_nat)

lemma sint_u32: "n < 2 ^ 31 \<Longrightarrow> sint (of_nat n :: u32) = int n"
  using unat_u32[of n] by (simp add: sint_uint uint_nat signed_take_bit_int_eq_self del: of_nat_unat)

lemma sint_small: "unat (a :: u32) < 2 ^ 31 \<Longrightarrow> sint a = int (unat a)"
  using sint_u32[of "unat a"] by simp

text \<open>
  \<open>min\<close> and \<open>max\<close> of vmm/types.h take and return ints: the unsigned lengths
  the callers pass are compared as signed numbers.
\<close>

definition smin :: "u32 \<Rightarrow> u32 \<Rightarrow> u32" where
  "smin v1 v2 = (if sint v1 < sint v2 then v1 else v2)"

definition smax :: "u32 \<Rightarrow> u32 \<Rightarrow> u32" where
  "smax v1 v2 = (if sint v1 > sint v2 then v1 else v2)"

lemma smin_small: "unat a < 2 ^ 31 \<Longrightarrow> unat b < 2 ^ 31 \<Longrightarrow> smin a b = min a b"
  by (auto simp: smin_def min_def sint_small word_le_nat_alt word_unat_eq_iff simp del: of_nat_unat)

lemma smax_small: "unat a < 2 ^ 31 \<Longrightarrow> unat b < 2 ^ 31 \<Longrightarrow> smax a b = max a b"
  by (auto simp: smax_def max_def sint_small word_le_nat_alt word_unat_eq_iff simp del: of_nat_unat)

text \<open>A length of \<open>2 ^ 31\<close> or more is negative, and so the smaller one.\<close>

lemma smin_large: "2 ^ 31 \<le> unat (a :: u32) \<Longrightarrow> unat b < 2 ^ 31 \<Longrightarrow> smin a b = a"
proof -
  assume a: "2 ^ 31 \<le> unat a" and b: "unat b < 2 ^ 31"
  have lt: "unat a < 2 ^ 32" using unsigned_less[of a, where ?'a = nat] by simp
  have q: "int (unat a) div 2 ^ 31 = 1" using a lt by (intro div_pos_geq[THEN trans]) (simp_all del: of_nat_unat)
  have t: "take_bit 32 (int (unat a)) = int (unat a)" using lt by (simp add: take_bit_int_eq_self del: of_nat_unat)
  have "sint a = int (unat a) - 2 ^ 32"
    using q t by (simp add: sint_uint uint_nat signed_take_bit_eq_take_bit_minus bit_iff_odd del: of_nat_unat)
  then have "sint a < 0" using lt by (simp del: of_nat_unat)
  moreover have "0 \<le> sint b" using sint_small[OF b] by (simp del: of_nat_unat)
  ultimately show ?thesis by (simp add: smin_def)
qed

lemma smin_pos:
  assumes "0 < len" "0 < n" "unat n < 2 ^ 31" shows "0 < smin len n" "smin len n \<le> len"
proof -
  have "smin len n = (if unat len < 2 ^ 31 then min len n else len)"
    using assms smin_small[of len n] smin_large[of len n] by (simp add: not_less)
  then show "0 < smin len n" "smin len n \<le> len" using assms by (auto simp: min_def)
qed

section \<open>Arrays\<close>

text \<open>
  Assignment to an element of a C array.  Outside its bounds it is undefined: the model
  loses the array there, so a program that is shown to keep its arrays never does it.
\<close>

definition array_set :: "nat \<Rightarrow> 'a \<Rightarrow> 'a list \<Rightarrow> 'a list" where
  "array_set i x xs = (if i < length xs then xs[i := x] else [])"

lemma array_set_in [simp]: "i < length xs \<Longrightarrow> array_set i x xs = xs[i := x]"
  by (simp add: array_set_def)

lemma array_set_keeps: "xs \<noteq> [] \<Longrightarrow> length (array_set i x xs) = length xs \<longleftrightarrow> i < length xs"
  by (simp add: array_set_def)

text \<open>Different small numbers are different words.\<close>

lemma of_nat_u32_inj: "i < j \<Longrightarrow> j < 4294967296 \<Longrightarrow> (of_nat i :: u32) \<noteq> of_nat j"
  using word_unat_eq_iff[of "of_nat i :: u32" "of_nat j"]
  by (simp add: unsigned_of_nat take_bit_nat_eq_self)

end
