(* ===== verification/Memory.thy ===== *)
theory Memory
  imports Prelude
begin

text \<open>
  The memory the kernel addresses through logical addresses: bytes at 32-bit addresses, the
  little-endian loads and stores the C code performs through \<open>u_char *\<close>, \<open>u_short *\<close>
  and \<open>u_long *\<close> pointers, \<open>memsetl\<close> and \<open>memcpy\<close>, and the frame laws: a
  store is read back, and does not change what is read at a separate address or page.
\<close>

unbundle bit_operations_syntax

type_synonym memory = "u32 \<Rightarrow> u8"

definition load8 :: "memory \<Rightarrow> u32 \<Rightarrow> u8" where
  "load8 m a = m a"

definition load16 :: "memory \<Rightarrow> u32 \<Rightarrow> u16" where
  "load16 m a = ucast (m a) OR push_bit 8 (ucast (m (a + 1)))"

definition load32 :: "memory \<Rightarrow> u32 \<Rightarrow> u32" where
  "load32 m a = ucast (m a) OR push_bit 8 (ucast (m (a + 1)))
     OR push_bit 16 (ucast (m (a + 2))) OR push_bit 24 (ucast (m (a + 3)))"

definition store8 :: "memory \<Rightarrow> u32 \<Rightarrow> u8 \<Rightarrow> memory" where
  "store8 m a v = m(a := v)"

definition store16 :: "memory \<Rightarrow> u32 \<Rightarrow> u16 \<Rightarrow> memory" where
  "store16 m a v = m(a := ucast v, a + 1 := ucast (drop_bit 8 v))"

definition store32 :: "memory \<Rightarrow> u32 \<Rightarrow> u32 \<Rightarrow> memory" where
  "store32 m a v = m(a := ucast v, a + 1 := ucast (drop_bit 8 v),
     a + 2 := ucast (drop_bit 16 v), a + 3 := ucast (drop_bit 24 v))"

text \<open>\<open>memsetl(s, l, count)\<close> of vmm/string.h: \<open>count\<close> longs, upwards.\<close>

primrec memsetl :: "memory \<Rightarrow> u32 \<Rightarrow> u32 \<Rightarrow> nat \<Rightarrow> memory" where
  "memsetl m a v 0 = m"
| "memsetl m a v (Suc n) = memsetl (store32 m a v) (a + 4) v n"

text \<open>\<open>memcpy\<close> of \<open>count\<close> longs (the kernel copies whole page-table entries).\<close>

primrec memcpyl :: "memory \<Rightarrow> u32 \<Rightarrow> u32 \<Rightarrow> nat \<Rightarrow> memory" where
  "memcpyl m d s 0 = m"
| "memcpyl m d s (Suc n) = memcpyl (store32 m d (load32 m s)) (d + 4) (s + 4) n"

section \<open>Reading back\<close>

lemma load8_store8 [mem_simps]: "load8 (store8 m a v) b = (if b = a then v else load8 m b)"
  by (simp add: load8_def store8_def)

lemma load16_store16_same [mem_simps]: "load16 (store16 m a v) a = v"
  unfolding load16_def store16_def
  by (rule bit_word_eqI) (auto simp: bit_simps)

lemma load32_store32_same [mem_simps]: "load32 (store32 m a v) a = v"
proof (rule bit_word_eqI)
  fix n assume "n < LENGTH(32)"
  then have "n < 8 \<or> 8 \<le> n \<and> n < 16 \<or> 16 \<le> n \<and> n < 24 \<or> 24 \<le> n \<and> n < 32" by auto
  then show "bit (load32 (store32 m a v) a) n = bit v n"
    by (elim disjE conjE) (auto simp: load32_def store32_def bit_simps)
qed

section \<open>Separation\<close>

text \<open>The four bytes at two addresses do not overlap.\<close>

definition sep4 :: "u32 \<Rightarrow> u32 \<Rightarrow> bool" where
  "sep4 a b \<longleftrightarrow> {a, a + 1, a + 2, a + 3} \<inter> {b, b + 1, b + 2, b + 3} = {}"

lemma sep4_sym: "sep4 a b \<Longrightarrow> sep4 b a"
  unfolding sep4_def by blast

lemma load32_store32_sep [mem_simps]: "sep4 a b \<Longrightarrow> load32 (store32 m a v) b = load32 m b"
  by (auto simp: sep4_def load32_def store32_def)

definition aligned4 :: "u32 \<Rightarrow> bool" where
  "aligned4 a \<longleftrightarrow> 4 dvd unat a"

lemma unat_u32_lt: "unat (a::u32) < 4294967296"
  using unsigned_less[of a] by simp

lemma unat_add_small:
  "unat (a::u32) + unat i < 4294967296 \<Longrightarrow> unat (a + i) = unat a + unat i"
  by (simp add: unat_word_ariths)

lemma mult_add_less: "d * k < d * K \<Longrightarrow> i < d \<Longrightarrow> d * k + i < d * (K::nat)"
proof -
  assume "d * k < d * K" "i < d"
  then have "Suc k \<le> K" by simp
  then have "d * Suc k \<le> d * K" by (rule mult_le_mono2)
  with \<open>i < d\<close> show ?thesis by simp
qed

lemma aligned4_quot:
  assumes "aligned4 x" "unat i < 4" shows "unat (x + i) div 4 = unat x div 4"
proof -
  obtain k where k: "unat x = 4 * k" using assms(1) by (auto simp: aligned4_def)
  then have "unat (x + i) = unat x + unat i"
    using assms(2) unat_u32_lt[of x] mult_add_less[of 4 k 1073741824 "unat i"]
    by (intro unat_add_small) simp
  then show ?thesis using k assms(2) by simp
qed

lemma aligned4_sep4:
  assumes "aligned4 a" "aligned4 b" "a \<noteq> b" shows "sep4 a b"
proof -
  have *: "unat y div 4 = unat x div 4"
    if "aligned4 x" "y \<in> {x, x + 1, x + 2, x + 3}" for x y :: u32
    using that aligned4_quot[of x 1] aligned4_quot[of x 2] aligned4_quot[of x 3] by auto
  have "unat a div 4 \<noteq> unat b div 4"
    using assms by (auto simp: aligned4_def word_unat_eq_iff)
  then have "y \<notin> {b, b + 1, b + 2, b + 3}" if "y \<in> {a, a + 1, a + 2, a + 3}" for y
    using *[OF assms(1) that] *[OF assms(2), of y] by auto
  then show ?thesis
    unfolding sep4_def by (simp only: disjoint_iff) simp
qed

lemma aligned4_add: "aligned4 a \<Longrightarrow> aligned4 b \<Longrightarrow> aligned4 (a + b)"
proof -
  have "unat (a + b) = (unat a + unat b) mod 4294967296" by (simp add: unat_word_ariths)
  moreover have "(4::nat) dvd 4294967296" by simp
  ultimately show "aligned4 a \<Longrightarrow> aligned4 b \<Longrightarrow> aligned4 (a + b)"
    unfolding aligned4_def by (simp add: dvd_mod_iff)
qed

section \<open>Pages\<close>

text \<open>The page a byte lies in, as the mask \<open>PAGE_MASK\<close> of vmm/page.h computes it.\<close>

definition page_aligned :: "u32 \<Rightarrow> bool" where
  "page_aligned a \<longleftrightarrow> 4096 dvd unat a"

definition page_base :: "u32 \<Rightarrow> u32" where
  "page_base a = a AND 0xfffff000"

lemma page_aligned_aligned4: "page_aligned a \<Longrightarrow> aligned4 a"
  unfolding page_aligned_def aligned4_def by (rule dvd_trans[of _ 4096]) simp_all

lemma page_base_mask: "page_base a = push_bit 12 (drop_bit 12 a)"
proof -
  have "(0xfffff000 :: u32) = NOT (mask 12)" by (simp add: mask_eq_exp_minus_1)
  then have "page_base a = a AND NOT (mask 12)" by (simp only: page_base_def)
  also have "\<dots> = push_bit 12 (drop_bit 12 a)"
    by (rule bit_word_eqI) (auto simp: bit_simps)
  finally show ?thesis .
qed

lemma unat_page_base: "unat (page_base a) = 4096 * (unat a div 4096)"
proof -
  have "unat (drop_bit 12 a) = unat a div 4096"
    by (simp only: unat_drop_bit_eq) (simp add: drop_bit_eq_div)
  moreover have "unat a div 4096 * 4096 < 4294967296" using unat_u32_lt[of a] by simp
  ultimately show ?thesis
    by (simp add: page_base_mask push_bit_eq_mult unat_word_ariths mult.commute)
qed

lemma page_base_aligned [simp]: "page_aligned (page_base a)"
  by (simp add: page_aligned_def unat_page_base)

lemma unat_page_add:
  assumes "page_aligned p" "unat i < 4096" shows "unat (p + i) = unat p + unat i"
proof -
  obtain k where k: "unat p = 4096 * k" using assms(1) by (auto simp: page_aligned_def)
  then show ?thesis
    using assms(2) unat_u32_lt[of p] mult_add_less[of 4096 k 1048576 "unat i"]
    by (intro unat_add_small) simp
qed

lemma page_base_add: "page_aligned p \<Longrightarrow> unat i < 4096 \<Longrightarrow> page_base (p + i) = p"
  by (auto simp: word_unat_eq_iff unat_page_base unat_page_add page_aligned_def)

lemma page_base_id [simp]: "page_aligned p \<Longrightarrow> page_base p = p"
  using page_base_add[of p 0] by simp

text \<open>Longs that lie in different pages do not overlap, nor do different longs.\<close>

lemma page_base_neq: "page_base a \<noteq> page_base b \<Longrightarrow> a \<noteq> b"
  by auto

lemma load32_other_page [mem_simps]:
  assumes "aligned4 a" "aligned4 b" "page_base a \<noteq> page_base b"
  shows "load32 (store32 m a v) b = load32 m b"
  using assms by (intro load32_store32_sep aligned4_sep4) auto

lemma load32_store32_aligned [mem_simps]:
  "aligned4 a \<Longrightarrow> aligned4 b \<Longrightarrow>
     load32 (store32 m a v) b = (if a = b then v else load32 m b)"
  by (auto simp: load32_store32_same load32_store32_sep aligned4_sep4)

end
