(* ===== verification/PageAlloc.thy ===== *)
theory PageAlloc
  imports Memory
begin

text \<open>
  The page allocator of kernel/mm/page.c.  Free pages are chained through their own first
  long (\<open>union _page\<close> of vmm/page.h), so the free list lives in the memory itself:
  \<open>page_free_list\<close> holds the logical address of the first free page and each free
  page holds the address of the next.  \<open>free_chain\<close> abstracts it to a HOL list; the
  locale \<open>page_allocator\<close> is the contract the page-table code relies on.
\<close>

unbundle bit_operations_syntax

section \<open>State and address conversions\<close>

record pmem =
  mem :: memory
  page_free_list :: u32
  used_pages :: int
  available_pages :: int
  logical_kernel_pd :: u32
  kernel_brk :: u32

text \<open>\<open>TO_LOGICAL\<close> and \<open>TO_PHYSICAL\<close> of vmm/map.h.\<close>

definition to_logical :: "u32 \<Rightarrow> u32" where
  "to_logical x = x + 8 * 1024 * 1024"

definition to_physical :: "u32 \<Rightarrow> u32" where
  "to_physical x = x - 8 * 1024 * 1024"

lemma to_logical_physical [simp]: "to_logical (to_physical x) = x"
  by (simp add: to_logical_def to_physical_def)

lemma to_physical_logical [simp]: "to_physical (to_logical x) = x"
  by (simp add: to_logical_def to_physical_def)

section \<open>Single pages\<close>

text \<open>\<open>NULL\<close> is the address 0.\<close>

definition alloc_page :: "'a pmem_scheme \<Rightarrow> u32 \<times> 'a pmem_scheme" where
  "alloc_page s =
     (let p = page_free_list s in
      if p \<noteq> 0
      then (p, s\<lparr>page_free_list := load32 (mem s) p,
                  used_pages := used_pages s + 1,
                  available_pages := available_pages s - 1\<rparr>)
      else (p, s))"

definition free_page :: "u32 \<Rightarrow> 'a pmem_scheme \<Rightarrow> 'a pmem_scheme" where
  "free_page p s =
     s\<lparr>used_pages := used_pages s - 1,
       available_pages := available_pages s + 1,
       mem := store32 (mem s) p (page_free_list s),
       page_free_list := p\<rparr>"

primrec free_pages :: "u32 \<Rightarrow> nat \<Rightarrow> 'a pmem_scheme \<Rightarrow> 'a pmem_scheme" where
  "free_pages p 0 s = s"
| "free_pages p (Suc n) s = free_pages (p + 4096) n (free_page p s)"

text \<open>
  The loop of \<open>add_pages\<close>: it runs for ever when \<open>start\<close> wraps past the top of the
  address space before it reaches \<open>end\<close>, hence the option.
\<close>

partial_function (option) add_pages_loop ::
    "u32 \<Rightarrow> u32 \<Rightarrow> 'a pmem_scheme \<Rightarrow> 'a pmem_scheme option" where
  "add_pages_loop start ende s =
     (if start < ende
      then add_pages_loop (start + 4096) ende
             (s\<lparr>mem := store32 (mem s) (to_logical start) (page_free_list s),
                page_free_list := to_logical start,
                available_pages := available_pages s + 1\<rparr>)
      else Some s)"

definition add_pages :: "u32 \<Rightarrow> u32 \<Rightarrow> 'a pmem_scheme \<Rightarrow> 'a pmem_scheme option" where
  "add_pages start ende s = add_pages_loop (round_to start 4096) ende s"

definition free_page_count :: "'a pmem_scheme \<Rightarrow> u32" where
  "free_page_count s = word_of_int (available_pages s)"

section \<open>Contiguous pages for DMA\<close>

text \<open>
  \<open>alloc_pages_64\<close>: the inner loop over \<open>y\<close> that counts the free pages strictly
  between \<open>x\<close> and \<open>top\<close>; the result tells whether the count reached \<open>n\<close>.
\<close>

partial_function (option) find_run_64 ::
    "memory \<Rightarrow> u32 \<Rightarrow> u32 \<Rightarrow> u32 \<Rightarrow> u32 \<Rightarrow> u32 \<Rightarrow> bool option" where
  "find_run_64 m x lim n y found =
     (if y = 0 then Some False
      else if y > x \<and> y < lim
      then (if found + 1 \<ge> n then Some True
            else find_run_64 m x lim n (load32 m y) (found + 1))
      else find_run_64 m x lim n (load32 m y) found)"

text \<open>
  \<open>page **ptr\<close> points at the list head or at the \<open>next_free\<close> field of a page.
\<close>

datatype page_ptr = Head | NextOf u32

fun deref_page :: "page_ptr \<Rightarrow> 'a pmem_scheme \<Rightarrow> u32" where
  "deref_page Head s = page_free_list s"
| "deref_page (NextOf p) s = load32 (mem s) p"

fun assign_page :: "page_ptr \<Rightarrow> u32 \<Rightarrow> 'a pmem_scheme \<Rightarrow> 'a pmem_scheme" where
  "assign_page Head v s = s\<lparr>page_free_list := v\<rparr>"
| "assign_page (NextOf p) v s = s\<lparr>mem := store32 (mem s) p v\<rparr>"

text \<open>The loop that unlinks \<open>n\<close> pages of \<open>[x, top)\<close> from the free list.\<close>

partial_function (option) unlink_run_64 ::
    "u32 \<Rightarrow> u32 \<Rightarrow> u32 \<Rightarrow> page_ptr \<Rightarrow> 'a pmem_scheme \<Rightarrow> 'a pmem_scheme option" where
  "unlink_run_64 x lim n ptr s =
     (if n \<noteq> 0
      then (let cur = deref_page ptr s in
            if cur \<ge> x \<and> cur < lim
            then unlink_run_64 x lim (n - 1) ptr
                   (assign_page ptr (load32 (mem s) cur)
                      (s\<lparr>used_pages := used_pages s + 1,
                         available_pages := available_pages s - 1\<rparr>))
            else unlink_run_64 x lim n (NextOf cur) s)
      else Some s)"

partial_function (option) alloc_pages_64_loop ::
    "u32 \<Rightarrow> u32 \<Rightarrow> 'a pmem_scheme \<Rightarrow> (u32 \<times> 'a pmem_scheme) option" where
  "alloc_pages_64_loop n x s =
     (if x = 0 then Some (0, s)
      else if to_physical x AND 0xffff = 0 \<and> to_physical x < 16 * 1024 * 1024
      then Option.bind (find_run_64 (mem s) x (x + n * 4096) n (page_free_list s) 1)
             (\<lambda>found. if found
                then map_option (Pair x) (unlink_run_64 x (x + n * 4096) n Head s)
                else alloc_pages_64_loop n (load32 (mem s) x) s)
      else alloc_pages_64_loop n (load32 (mem s) x) s)"

definition alloc_pages_64 :: "u32 \<Rightarrow> 'a pmem_scheme \<Rightarrow> (u32 \<times> 'a pmem_scheme) option" where
  "alloc_pages_64 n s = alloc_pages_64_loop n (page_free_list s) s"

section \<open>The free list as a HOL list\<close>

primrec chain :: "memory \<Rightarrow> u32 \<Rightarrow> u32 list \<Rightarrow> bool" where
  "chain m p [] \<longleftrightarrow> p = 0"
| "chain m p (x # xs) \<longleftrightarrow> p = x \<and> x \<noteq> 0 \<and> chain m (load32 m x) xs"

definition free_chain :: "'a pmem_scheme \<Rightarrow> u32 list \<Rightarrow> bool" where
  "free_chain s xs \<longleftrightarrow> chain (mem s) (page_free_list s) xs \<and> distinct xs
     \<and> (\<forall>x\<in>set xs. page_aligned x) \<and> available_pages s = int (length xs)"

lemma chain_nonzero: "chain m p xs \<Longrightarrow> 0 \<notin> set xs"
  by (induction xs arbitrary: p) auto

lemma chain_unique: "chain m p xs \<Longrightarrow> chain m p ys \<Longrightarrow> xs = ys"
  by (induction xs arbitrary: p ys) (case_tac ys; auto)+

lemma chain_store32 [mem_simps]:
  "aligned4 a \<Longrightarrow> page_base a \<notin> set xs \<Longrightarrow> \<forall>x\<in>set xs. page_aligned x \<Longrightarrow>
     chain (store32 m a v) p xs = chain m p xs"
  by (induction xs arbitrary: p)
    (auto simp: load32_other_page page_aligned_aligned4)

lemma free_chain_unique: "free_chain s xs \<Longrightarrow> free_chain s ys \<Longrightarrow> xs = ys"
  unfolding free_chain_def using chain_unique by blast

lemma free_chain_nonzero: "free_chain s xs \<Longrightarrow> 0 \<notin> set xs"
  unfolding free_chain_def using chain_nonzero by blast


section \<open>The allocator contract\<close>

text \<open>
  What the rest of the kernel relies on: \<open>avail s ps\<close> says that exactly the pages
  \<open>ps\<close> are free, in the order in which \<open>alloc\<close> will hand them out.
\<close>

primrec alloc_many :: "('s \<Rightarrow> u32 \<times> 's) \<Rightarrow> nat \<Rightarrow> 's \<Rightarrow> u32 list \<times> 's" where
  "alloc_many alloc 0 s = ([], s)"
| "alloc_many alloc (Suc n) s =
     (let (p, s1) = alloc s; (ps, s2) = alloc_many alloc n s1 in (p # ps, s2))"

locale page_allocator =
  fixes alloc :: "'s \<Rightarrow> u32 \<times> 's"
    and free :: "u32 \<Rightarrow> 's \<Rightarrow> 's"
    and avail :: "'s \<Rightarrow> u32 list \<Rightarrow> bool"
  assumes avail_wf:
      "avail s ps \<Longrightarrow> distinct ps \<and> 0 \<notin> set ps \<and> (\<forall>p\<in>set ps. page_aligned p)"
    and alloc_empty: "avail s [] \<Longrightarrow> alloc s = (0, s)"
    and alloc_first: "avail s (p # ps) \<Longrightarrow> fst (alloc s) = p \<and> avail (snd (alloc s)) ps"
    and free_push: "avail s ps \<Longrightarrow> p \<notin> set ps \<Longrightarrow> p \<noteq> 0 \<Longrightarrow> page_aligned p \<Longrightarrow>
      avail (free p s) (p # ps)"
begin

lemma alloc_null_iff: "avail s ps \<Longrightarrow> fst (alloc s) = 0 \<longleftrightarrow> ps = []"
  using alloc_empty alloc_first avail_wf by (cases ps) fastforce+

lemma alloc_success:
  assumes "avail s ps" "fst (alloc s) \<noteq> 0"
  shows "\<exists>qs. ps = fst (alloc s) # qs \<and> avail (snd (alloc s)) qs
    \<and> fst (alloc s) \<notin> set qs \<and> page_aligned (fst (alloc s))"
proof (cases ps)
  case Nil
  then show ?thesis using assms alloc_empty by simp
next
  case (Cons p qs)
  then show ?thesis using assms(1) alloc_first[of s p qs] avail_wf[of s ps] by auto
qed

lemma alloc_after_free:
  "avail s ps \<Longrightarrow> p \<notin> set ps \<Longrightarrow> p \<noteq> 0 \<Longrightarrow> page_aligned p \<Longrightarrow>
     fst (alloc (free p s)) = p \<and> avail (snd (alloc (free p s))) ps"
  using free_push alloc_first by blast

lemma free_after_alloc:
  assumes "avail s (p # ps)"
  shows "avail (free (fst (alloc s)) (snd (alloc s))) (p # ps)"
  using assms alloc_first[of s p ps] avail_wf[of s "p # ps"]
  by (auto intro!: free_push)

lemma alloc_many_take:
  "avail s ps \<Longrightarrow> n \<le> length ps \<Longrightarrow>
     fst (alloc_many alloc n s) = take n ps \<and> avail (snd (alloc_many alloc n s)) (drop n ps)"
proof (induction n arbitrary: s ps)
  case 0
  then show ?case by simp
next
  case (Suc n)
  then obtain p qs where ps: "ps = p # qs" by (cases ps) auto
  with Suc.prems have *: "fst (alloc s) = p" "avail (snd (alloc s)) qs"
    using alloc_first by auto
  with Suc.IH[OF *(2)] Suc.prems ps show ?case
    by (auto simp: Let_def split: prod.splits)
qed

end

section \<open>The operations meet the contract\<close>

lemma alloc_page_Nil: "free_chain s [] \<Longrightarrow> alloc_page s = (0, s)"
  by (simp add: free_chain_def alloc_page_def)

lemma alloc_page_Cons:
  "free_chain s (p # ps) \<Longrightarrow> fst (alloc_page s) = p \<and> free_chain (snd (alloc_page s)) ps"
  by (auto simp: free_chain_def alloc_page_def Let_def)

lemma free_page_chain:
  "free_chain s ps \<Longrightarrow> p \<notin> set ps \<Longrightarrow> p \<noteq> 0 \<Longrightarrow> page_aligned p \<Longrightarrow>
     free_chain (free_page p s) (p # ps)"
  by (simp add: free_chain_def free_page_def mem_simps page_aligned_aligned4)

interpretation pg: page_allocator alloc_page free_page free_chain
proof unfold_locales
  fix s :: "'a pmem_scheme" and ps
  assume "free_chain s ps"
  then show "distinct ps \<and> 0 \<notin> set ps \<and> (\<forall>p\<in>set ps. page_aligned p)"
    using free_chain_nonzero by (auto simp: free_chain_def)
qed (rule alloc_page_Nil alloc_page_Cons free_page_chain; assumption)+

lemma store32_load32_same: "store32 m a (load32 m a) = m"
proof -
  have "ucast (load32 m a) = m a" "ucast (drop_bit 8 (load32 m a)) = m (a + 1)"
    "ucast (drop_bit 16 (load32 m a)) = m (a + 2)" "ucast (drop_bit 24 (load32 m a)) = m (a + 3)"
    unfolding load32_def by (rule bit_word_eqI; auto simp: bit_simps dest: bit_imp_le_length)+
  then show ?thesis by (simp add: store32_def)
qed

lemma alloc_page_nonzero:
  "page_free_list s \<noteq> 0 \<Longrightarrow> free_page (fst (alloc_page s)) (snd (alloc_page s)) = s"
  by (simp add: alloc_page_def free_page_def Let_def store32_load32_same)

section \<open>Contiguous allocation\<close>

lemmas find_run_unfold = find_run_64.simps
lemmas unlink_run_unfold = unlink_run_64.simps

text \<open>The scan terminates on a proper chain and counts the pages inside the run.\<close>

lemma find_run_chain:
  "chain m y ys \<Longrightarrow> unat found < unat n \<Longrightarrow>
   find_run_64 m x lim n y found =
     (let c = length (filter (\<lambda>p. x < p \<and> p < lim) ys) in Some (0 < c \<and> unat n \<le> unat found + c))"
proof (induction ys arbitrary: y found)
  case Nil
  then show ?case by (subst find_run_unfold) simp
next
  case (Cons p ys)
  then have y: "y = p" "p \<noteq> 0" "chain m (load32 m p) ys" by auto
  let ?c = "length (filter (\<lambda>p. x < p \<and> p < lim) ys)"
  show ?case
  proof (cases "x < p \<and> p < lim")
    case False
    then have "find_run_64 m x lim n y found = find_run_64 m x lim n (load32 m p) found"
      using y by (subst find_run_unfold) (auto simp del: unsigned_less)
    then show ?thesis
      using False Cons.IH[OF y(3) Cons.prems(2)] by auto
  next
    case True
    have un: "unat (found + 1) = unat found + 1"
      using Cons.prems(2) unat_u32_lt[of n] by (subst unat_add_small) simp_all
    have run: "find_run_64 m x lim n y found =
        (if unat n \<le> unat found + 1 then Some True
         else find_run_64 m x lim n (load32 m p) (found + 1))"
      using y True by (subst find_run_unfold) (simp add: word_le_nat_alt un)
    show ?thesis
    proof (cases "unat n \<le> unat found + 1")
      case True
      then show ?thesis using run \<open>x < p \<and> p < lim\<close> by simp
    next
      case False
      then have "unat (found + 1) < unat n" by (simp add: un)
      from Cons.IH[OF y(3) this] show ?thesis
        using False run \<open>x < p \<and> p < lim\<close> un by (auto simp: Let_def)
    qed
  qed
qed


text \<open>Reading through the pointer \<open>ptr\<close>, which is outside the rest of the chain.\<close>

definition ptr_ok :: "page_ptr \<Rightarrow> u32 list \<Rightarrow> bool" where
  "ptr_ok ptr ys \<longleftrightarrow> (\<forall>q. ptr = NextOf q \<longrightarrow> page_aligned q \<and> q \<notin> set ys)"

definition ptr_page :: "page_ptr \<Rightarrow> u32 set" where
  "ptr_page ptr = (case ptr of Head \<Rightarrow> {} | NextOf q \<Rightarrow> {q})"

lemma deref_assign [simp]: "deref_page ptr (assign_page ptr v s) = v"
  by (cases ptr) (simp_all add: load32_store32_same)

lemma assign_page_chain:
  assumes "ptr_ok ptr ys" "\<forall>y\<in>set ys. page_aligned y"
  shows "chain (mem (assign_page ptr v s)) p ys = chain (mem s) p ys"
  using assms
  by (cases ptr) (auto simp: ptr_ok_def chain_store32 page_aligned_aligned4)

lemma assign_page_frame:
  "ptr_ok ptr ys \<Longrightarrow> page_aligned a \<Longrightarrow> a \<notin> ptr_page ptr \<Longrightarrow>
     load32 (mem (assign_page ptr v s)) a = load32 (mem s) a"
  by (cases ptr)
    (auto simp: ptr_ok_def ptr_page_def load32_store32_aligned page_aligned_aligned4)

lemma assign_page_simps [simp]:
  "used_pages (assign_page ptr v s) = used_pages s"
  "available_pages (assign_page ptr v s) = available_pages s"
  "ptr \<noteq> Head \<Longrightarrow> page_free_list (assign_page ptr v s) = page_free_list s"
  by (cases ptr; simp)+

definition in_run :: "u32 \<Rightarrow> u32 \<Rightarrow> u32 \<Rightarrow> bool" where
  "in_run x lim p \<longleftrightarrow> x \<le> p \<and> p < lim"

lemma unlink_run_chain:
  assumes "chain (mem s) (deref_page ptr s) ys" "distinct ys" "\<forall>y\<in>set ys. page_aligned y"
    "ptr_ok ptr ys" "unat n = length (filter (in_run x lim) ys)"
  shows "\<exists>s'. unlink_run_64 x lim n ptr s = Some s'
    \<and> chain (mem s') (deref_page ptr s') (filter (\<lambda>p. \<not> in_run x lim p) ys)
    \<and> used_pages s' = used_pages s + int (unat n)
    \<and> available_pages s' = available_pages s - int (unat n)
    \<and> (\<forall>a. page_aligned a \<longrightarrow> a \<notin> ptr_page ptr \<union> set ys \<longrightarrow> load32 (mem s') a = load32 (mem s) a)
    \<and> (ptr \<noteq> Head \<longrightarrow> page_free_list s' = page_free_list s)"
  using assms
proof (induction ys arbitrary: ptr s n)
  case Nil
  then have "n = 0" by (simp add: unat_eq_0)
  with Nil show ?case by (subst unlink_run_unfold) simp
next
  case (Cons y ys)
  let ?cur = "deref_page ptr s"
  have y: "?cur = y" "y \<noteq> 0" "chain (mem s) (load32 (mem s) y) ys" "page_aligned y" "y \<notin> set ys"
    using Cons.prems by auto
  show ?case
  proof (cases "n = 0")
    case True
    then have "filter (in_run x lim) (y # ys) = []" using Cons.prems(5) by simp
    then have "filter (\<lambda>p. \<not> in_run x lim p) (y # ys) = y # ys"
      by (intro filter_True) (auto simp: filter_empty_conv split: if_splits)
    with True Cons.prems show ?thesis by (subst unlink_run_unfold) simp
  next
    case n0: False
    show ?thesis
    proof (cases "in_run x lim y")
      case True
      let ?s1 = "assign_page ptr (load32 (mem s) y)
        (s\<lparr>used_pages := used_pages s + 1, available_pages := available_pages s - 1\<rparr>)"
      have ok: "ptr_ok ptr ys" using Cons.prems(4) by (auto simp: ptr_ok_def)
      have "chain (mem ?s1) (deref_page ptr ?s1) ys"
        using y Cons.prems ok by (simp add: assign_page_chain)
      moreover have un: "unat (n - 1) = length (filter (in_run x lim) ys)"
        using Cons.prems(5) True n0 by (simp add: unat_minus_one)
      ultimately obtain s' where s': "unlink_run_64 x lim (n - 1) ptr ?s1 = Some s'"
        "chain (mem s') (deref_page ptr s') (filter (\<lambda>p. \<not> in_run x lim p) ys)"
        "used_pages s' = used_pages ?s1 + int (unat (n - 1))"
        "available_pages s' = available_pages ?s1 - int (unat (n - 1))"
        "\<And>a. page_aligned a \<Longrightarrow> a \<notin> ptr_page ptr \<union> set ys \<Longrightarrow>
           load32 (mem s') a = load32 (mem ?s1) a"
        "ptr \<noteq> Head \<Longrightarrow> page_free_list s' = page_free_list ?s1"
        using Cons.IH[of ?s1 ptr "n - 1"] Cons.prems ok by auto
      have "unlink_run_64 x lim n ptr s = Some s'"
        using s'(1) n0 True y(1) by (subst unlink_run_unfold) (simp add: Let_def in_run_def)
      moreover have "int (unat n) = int (unat (n - 1)) + 1"
        using un Cons.prems(5) True by simp
      ultimately show ?thesis
        using s' True ok by (auto simp: assign_page_frame[OF ok] ptr_page_def split: page_ptr.splits)
    next
      case False
      have run: "unlink_run_64 x lim n ptr s = unlink_run_64 x lim n (NextOf y) s"
        using n0 False y(1) by (subst unlink_run_unfold) (auto simp: Let_def in_run_def)
      have "ptr_ok (NextOf y) ys" using y by (simp add: ptr_ok_def)
      then obtain s' where s': "unlink_run_64 x lim n (NextOf y) s = Some s'"
        "chain (mem s') (load32 (mem s') y) (filter (\<lambda>p. \<not> in_run x lim p) ys)"
        "used_pages s' = used_pages s + int (unat n)"
        "available_pages s' = available_pages s - int (unat n)"
        "\<And>a. page_aligned a \<Longrightarrow> a \<notin> {y} \<union> set ys \<Longrightarrow> load32 (mem s') a = load32 (mem s) a"
        "page_free_list s' = page_free_list s"
        using Cons.IH[of s "NextOf y" n] Cons.prems y False by (auto simp: ptr_page_def)
      have "deref_page ptr s' = y"
        using y(1) s'(5,6) Cons.prems(4) by (cases ptr) (auto simp: ptr_ok_def)
      then show ?thesis using run s' y False by (auto simp: ptr_page_def)
    qed
  qed
qed


section \<open>Correctness of alloc_pages_64\<close>

text \<open>The \<open>n\<close> consecutive pages from \<open>x\<close>, and the DMA restrictions on \<open>x\<close>.\<close>

definition run_pages :: "u32 \<Rightarrow> nat \<Rightarrow> u32 list" where
  "run_pages x n = map (\<lambda>i. x + of_nat i * 4096) [0..<n]"

definition dma_start :: "u32 \<Rightarrow> bool" where
  "dma_start x \<longleftrightarrow> to_physical x AND 0xffff = 0 \<and> to_physical x < 16 * 1024 * 1024"

lemma dma_start_bound: "dma_start x \<Longrightarrow> unat x < 25165824"
proof -
  assume "dma_start x"
  then have "unat (to_physical x) < 16777216" by (simp add: dma_start_def word_less_nat_alt)
  then have "unat (to_physical x + 8388608) = unat (to_physical x) + 8388608"
    by (subst unat_add_small) simp_all
  moreover have "to_physical x + 8388608 = x" by (simp add: to_physical_def)
  ultimately show ?thesis using \<open>unat (to_physical x) < 16777216\<close> by simp
qed

lemma unat_run_offset: "i \<le> 16 \<Longrightarrow> unat (of_nat i * 4096 :: u32) = i * 4096"
  by (simp add: unat_word_ariths unat_of_nat)

lemma unat_run_page: "dma_start x \<Longrightarrow> i \<le> 16 \<Longrightarrow> unat (x + of_nat i * 4096) = unat x + i * 4096"
  using dma_start_bound[of x] by (subst unat_add_small) (simp_all add: unat_run_offset)

lemma in_run_iff:
  assumes x: "dma_start x" "page_aligned x" and p: "page_aligned p" and n: "n \<le> 16"
  shows "in_run x (x + of_nat n * 4096) p \<longleftrightarrow> p \<in> set (run_pages x n)"
proof
  obtain kx kp where k: "unat x = 4096 * kx" "unat p = 4096 * kp"
    using x(2) p unfolding page_aligned_def by (elim dvdE)
  assume "in_run x (x + of_nat n * 4096) p"
  then have "kx \<le> kp" "kp < kx + n"
    using k unat_run_page[OF x(1) n] by (auto simp: in_run_def word_le_nat_alt word_less_nat_alt)
  then have "kp - kx < n" "unat (x + of_nat (kp - kx) * 4096) = unat p"
    using k unat_run_page[OF x(1), of "kp - kx"] n by (auto simp: diff_mult_distrib)
  then show "p \<in> set (run_pages x n)"
    by (auto simp: run_pages_def word_unat_eq_iff intro!: image_eqI[of _ _ "kp - kx"])
next
  assume "p \<in> set (run_pages x n)"
  then obtain i where "i < n" "p = x + of_nat i * 4096" by (auto simp: run_pages_def)
  then show "in_run x (x + of_nat n * 4096) p"
    using unat_run_page[OF x(1) n] unat_run_page[OF x(1), of i] n
    by (auto simp: in_run_def word_le_nat_alt word_less_nat_alt)
qed

lemma distinct_run_pages:
  assumes "dma_start x" "n \<le> 16" shows "distinct (run_pages x n)"
proof -
  have "inj_on (\<lambda>i. x + of_nat i * 4096) {0..<n}"
  proof (rule inj_onI)
    fix i j
    assume ij: "i \<in> {0..<n}" "j \<in> {0..<n}"
      and eq: "x + of_nat i * 4096 = x + of_nat j * 4096"
    have "i \<le> 16" "j \<le> 16" using ij assms(2) by simp_all
    then have "unat x + i * 4096 = unat (x + of_nat i * 4096)"
      "unat x + j * 4096 = unat (x + of_nat j * 4096)"
      using unat_run_page[OF assms(1)] by presburger+
    then have "unat x + i * 4096 = unat x + j * 4096" unfolding eq by presburger
    then show "i = j" by simp
  qed
  then show ?thesis by (simp add: run_pages_def distinct_map)
qed

lemma run_count:
  assumes x: "dma_start x" and n: "2 \<le> n" "n \<le> 16" and ys: "distinct ys" "x \<in> set ys"
    "\<forall>y\<in>set ys. page_aligned y"
  defines "lim \<equiv> x + of_nat n * 4096"
  shows "length (filter (\<lambda>p. x < p \<and> p < lim) ys) + 1 = length (filter (in_run x lim) ys)" (is ?A)
    and "n \<le> length (filter (in_run x lim) ys) \<longleftrightarrow> set (run_pages x n) \<subseteq> set ys" (is ?B)
    and "set (run_pages x n) \<subseteq> set ys \<Longrightarrow> length (filter (in_run x lim) ys) = n"
proof -
  let ?R = "set (run_pages x n)"
  have cR: "card ?R = n"
    using distinct_card[OF distinct_run_pages[OF x n(2)]] by (simp add: run_pages_def)
  have F: "set (filter (in_run x lim) ys) = set ys \<inter> ?R"
    using in_run_iff[OF x _ _ n(2)] ys by (auto simp: lim_def)
  then have cF: "length (filter (in_run x lim) ys) = card (set ys \<inter> ?R)"
    using ys(1) by (metis distinct_card distinct_filter)
  have "x + of_nat 0 * 4096 \<in> ?R"
    using n unfolding run_pages_def set_map by (intro imageI) simp
  then have xR: "x \<in> ?R" by simp
  have strict: "(x < p \<and> p < lim) = (in_run x lim p \<and> p \<noteq> x)" for p
    unfolding in_run_def by (metis order.strict_iff_order)
  have "set (filter (\<lambda>p. x < p \<and> p < lim) ys) = set (filter (in_run x lim) ys) - {x}"
    unfolding strict by auto
  then have "set (filter (\<lambda>p. x < p \<and> p < lim) ys) = (set ys \<inter> ?R) - {x}"
    unfolding F .
  then have "length (filter (\<lambda>p. x < p \<and> p < lim) ys) = card ((set ys \<inter> ?R) - {x})"
    using distinct_card[OF distinct_filter[OF ys(1), of "\<lambda>p. x < p \<and> p < lim"]] by simp
  then show ?A
    using cF card_Suc_Diff1[of "set ys \<inter> ?R" x] xR ys(2) by (metis Int_iff Suc_eq_plus1 finite_Int finite_set)
  show ?B
  proof
    assume "n \<le> length (filter (in_run x lim) ys)"
    then have "set ys \<inter> ?R = ?R" using cF cR by (intro card_seteq) auto
    then show "?R \<subseteq> set ys" by auto
  next
    assume "?R \<subseteq> set ys"
    then have "set ys \<inter> ?R = ?R" by auto
    then show "n \<le> length (filter (in_run x lim) ys)" using cF cR by simp
  qed
  show "?R \<subseteq> set ys \<Longrightarrow> length (filter (in_run x lim) ys) = n"
    using cF cR by (metis Int_absorb1)
qed


definition good_run :: "u32 list \<Rightarrow> nat \<Rightarrow> u32 \<Rightarrow> bool" where
  "good_run xs n x \<longleftrightarrow> x \<in> set xs \<and> dma_start x \<and> set (run_pages x n) \<subseteq> set xs"

text \<open>One candidate \<open>x\<close> that starts on a 64K boundary below 16M.\<close>

lemma alloc_64_candidate:
  assumes fc: "free_chain s xs" and x: "x \<in> set xs" "dma_start x"
    and n: "2 \<le> unat n" "unat n \<le> 16"
  shows "find_run_64 (mem s) x (x + n * 4096) n (page_free_list s) 1 = Some (good_run xs (unat n) x)"
    and "good_run xs (unat n) x \<Longrightarrow> \<exists>s'. unlink_run_64 x (x + n * 4096) n Head s = Some s'
      \<and> free_chain s' (filter (\<lambda>p. p \<notin> set (run_pages x (unat n))) xs)
      \<and> used_pages s' = used_pages s + int (unat n)"
proof -
  have xs: "chain (mem s) (page_free_list s) xs" "distinct xs" "\<forall>y\<in>set xs. page_aligned y"
    using fc by (auto simp: free_chain_def)
  have lim: "x + n * 4096 = x + of_nat (unat n) * 4096" by simp
  have pa: "page_aligned x" using xs x by blast
  note rc = run_count[OF x(2) n xs(2) x(1) xs(3), folded lim]
  show "find_run_64 (mem s) x (x + n * 4096) n (page_free_list s) 1 = Some (good_run xs (unat n) x)"
    using find_run_chain[OF xs(1), of 1 n x "x + n * 4096"] rc(1,2) n x
    by (auto simp: good_run_def Let_def)
  assume "good_run xs (unat n) x"
  then have len: "unat n = length (filter (in_run x (x + n * 4096)) xs)"
    using rc(3) by (simp add: good_run_def)
  have "filter (\<lambda>p. \<not> in_run x (x + n * 4096) p) xs = filter (\<lambda>p. p \<notin> set (run_pages x (unat n))) xs"
    using xs(3) in_run_iff[OF x(2) pa _ n(2), folded lim] by (intro filter_cong) auto
  moreover have "length xs = length (filter (in_run x (x + n * 4096)) xs)
      + length (filter (\<lambda>p. \<not> in_run x (x + n * 4096) p) xs)"
    by (rule sum_length_filter_compl[symmetric])
  ultimately show "\<exists>s'. unlink_run_64 x (x + n * 4096) n Head s = Some s'
      \<and> free_chain s' (filter (\<lambda>p. p \<notin> set (run_pages x (unat n))) xs)
      \<and> used_pages s' = used_pages s + int (unat n)"
    using unlink_run_chain[of s Head xs n x "x + n * 4096"] xs fc len
    by (auto simp: free_chain_def ptr_ok_def)
qed

lemma alloc_64_loop_unfold_skip:
  "x \<noteq> 0 \<Longrightarrow> \<not> dma_start x \<Longrightarrow>
     alloc_pages_64_loop n x s = alloc_pages_64_loop n (load32 (mem s) x) s"
  by (subst alloc_pages_64_loop.simps) (auto simp: dma_start_def)

lemma alloc_64_loop_unfold_try:
  "x \<noteq> 0 \<Longrightarrow> dma_start x \<Longrightarrow>
     alloc_pages_64_loop n x s =
       Option.bind (find_run_64 (mem s) x (x + n * 4096) n (page_free_list s) 1)
         (\<lambda>found. if found
            then map_option (Pair x) (unlink_run_64 x (x + n * 4096) n Head s)
            else alloc_pages_64_loop n (load32 (mem s) x) s)"
  by (subst alloc_pages_64_loop.simps) (simp add: dma_start_def)

lemma alloc_64_loop_correct:
  assumes fc: "free_chain s xs" and n: "2 \<le> unat n" "unat n \<le> 16"
  shows "chain (mem s) x zs \<Longrightarrow> set zs \<subseteq> set xs \<Longrightarrow>
    \<exists>x' s'. alloc_pages_64_loop n x s = Some (x', s')
      \<and> (if \<exists>z\<in>set zs. good_run xs (unat n) z
         then good_run xs (unat n) x'
           \<and> free_chain s' (filter (\<lambda>p. p \<notin> set (run_pages x' (unat n))) xs)
           \<and> used_pages s' = used_pages s + int (unat n)
         else x' = 0 \<and> s' = s)"
proof (induction zs arbitrary: x)
  case Nil
  then show ?case by (subst alloc_pages_64_loop.simps) simp
next
  case (Cons z zs)
  then have z: "x = z" "z \<noteq> 0" "chain (mem s) (load32 (mem s) z) zs" "z \<in> set xs" "set zs \<subseteq> set xs"
    by auto
  show ?case
  proof (cases "good_run xs (unat n) z")
    case True
    then have "dma_start z" by (simp add: good_run_def)
    note cand = alloc_64_candidate[OF fc z(4) this n]
    from cand(2)[OF True] obtain s' where "unlink_run_64 z (z + n * 4096) n Head s = Some s'"
      "free_chain s' (filter (\<lambda>p. p \<notin> set (run_pages z (unat n))) xs)"
      "used_pages s' = used_pages s + int (unat n)" by blast
    then show ?thesis
      using cand(1) True \<open>dma_start z\<close> z(1,2) by (simp add: alloc_64_loop_unfold_try)
  next
    case False
    have "alloc_pages_64_loop n x s = alloc_pages_64_loop n (load32 (mem s) z) s"
    proof (cases "dma_start z")
      case True
      then show ?thesis
        using alloc_64_candidate(1)[OF fc z(4) True n] False z(1,2)
        by (simp add: alloc_64_loop_unfold_try)
    qed (simp add: alloc_64_loop_unfold_skip z(1,2))
    then show ?thesis using Cons.IH[OF z(3,5)] False by simp
  qed
qed

text \<open>
  No page lies strictly between the first page and the end of a run of at most one page.
\<close>

lemma find_run_none:
  "chain m y ys \<Longrightarrow> \<forall>p\<in>set ys. \<not> (x < p \<and> p < lim) \<Longrightarrow> find_run_64 m x lim n y found = Some False"
proof (induction ys arbitrary: y)
  case Nil
  then show ?case by (subst find_run_unfold) simp
next
  case (Cons p ys)
  then show ?case by (subst find_run_unfold) auto
qed

lemma page_aligned_gap:
  assumes "page_aligned x" "page_aligned p" shows "\<not> (x < p \<and> p < x + 4096)"
proof
  assume *: "x < p \<and> p < x + 4096"
  obtain kx kp where k: "unat x = 4096 * kx" "unat p = 4096 * kp"
    using assms unfolding page_aligned_def by (elim dvdE)
  have "unat (x + 4096) \<le> unat x + 4096" by (simp add: unat_word_ariths)
  then show False using * k by (simp add: word_less_nat_alt)
qed

lemma alloc_64_single_loop:
  assumes fc: "free_chain s xs" and n: "unat n \<le> 1"
  shows "chain (mem s) x zs \<Longrightarrow> set zs \<subseteq> set xs \<Longrightarrow> alloc_pages_64_loop n x s = Some (0, s)"
proof (induction zs arbitrary: x)
  case Nil
  then show ?case by (subst alloc_pages_64_loop.simps) simp
next
  case (Cons z zs)
  then have z: "x = z" "z \<noteq> 0" "chain (mem s) (load32 (mem s) z) zs" "z \<in> set xs" "set zs \<subseteq> set xs"
    by auto
  have "n = 0 \<or> n = 1" using n by (auto simp: word_unat_eq_iff)
  then have "find_run_64 (mem s) z (z + n * 4096) n (page_free_list s) 1 = Some False"
    using fc z(4) page_aligned_gap by (intro find_run_none) (auto simp: free_chain_def)
  then have "alloc_pages_64_loop n x s = alloc_pages_64_loop n (load32 (mem s) z) s"
    using z(1,2) by (cases "dma_start z") (simp_all add: alloc_64_loop_unfold_try alloc_64_loop_unfold_skip)
  then show ?case using Cons.IH[OF z(3,5)] by simp
qed

text \<open>
  C32: \<open>alloc_pages_64\<close> for up to 16 pages (a 64K DMA buffer) always terminates.  Asked for 2 to
  16 pages, it succeeds exactly if the free list holds that many consecutive pages starting on a
  64K boundary of physical memory below 16M (runs that start elsewhere are not found): it returns
  the first page of such a run and removes exactly the pages of the run from the free list.
  Otherwise it returns NULL and changes nothing.  Asked for one page it always returns NULL, as
  the count of pages is compared only when a second page has been counted.
\<close>

theorem alloc_pages_64_correct:
  assumes "free_chain s xs" and "unat n \<le> 16"
  shows "\<exists>x s'. alloc_pages_64 n s = Some (x, s')
      \<and> (if 2 \<le> unat n \<and> (\<exists>z\<in>set xs. good_run xs (unat n) z)
         then good_run xs (unat n) x
           \<and> free_chain s' (filter (\<lambda>p. p \<notin> set (run_pages x (unat n))) xs)
           \<and> used_pages s' = used_pages s + int (unat n)
         else x = 0 \<and> s' = s)"
proof (cases "2 \<le> unat n")
  case True
  then show ?thesis
    unfolding alloc_pages_64_def
    using alloc_64_loop_correct[OF assms(1) True assms(2)] assms(1) by (simp add: free_chain_def)
next
  case False
  then have "alloc_pages_64 n s = Some (0, s)"
    unfolding alloc_pages_64_def using assms(1) by (intro alloc_64_single_loop) (auto simp: free_chain_def)
  then show ?thesis using False by simp
qed

text \<open>Two free pages at the start of physical memory, the second one first in the list.\<close>

definition two_pages :: pmem where
  "two_pages = \<lparr>mem = store32 (\<lambda>_. 0) 0x801000 0x800000, page_free_list = 0x801000,
     used_pages = 0, available_pages = 2, logical_kernel_pd = 0, kernel_brk = 0\<rparr>"

lemma two_pages_chain: "free_chain two_pages [0x801000, 0x800000]"
  by (simp add: free_chain_def two_pages_def load32_def store32_def page_aligned_def)

theorem alloc_pages_64_correct_witness:
  "\<exists>s'. alloc_pages_64 2 two_pages = Some (0x800000, s') \<and> free_chain s' [] \<and> used_pages s' = 2"
proof -
  have run: "set (run_pages x 2) = {x, x + 4096}" for x :: u32
    by (simp add: run_pages_def upt_rec)
  have g: "good_run [0x801000, 0x800000] 2 z \<longleftrightarrow> z = 0x800000" for z
    by (auto simp: good_run_def run dma_start_def to_physical_def)
  from alloc_pages_64_correct[OF two_pages_chain, of 2]
  obtain x s' where "alloc_pages_64 2 two_pages = Some (x, s')" "x = 0x800000"
    "free_chain s' (filter (\<lambda>p. p \<notin> {x, x + 4096}) [0x801000, 0x800000])" "used_pages s' = 2"
    by (auto simp: g run two_pages_def)
  then show ?thesis by auto
qed

text \<open>
  Asked for one page, \<open>alloc_pages_64\<close> never succeeds: the count of pages found starts
  at one and is compared only after a second page has been counted.
\<close>

theorem alloc_pages_64_single_fails:
  assumes "free_chain s xs"
  shows "alloc_pages_64 1 s = Some (0, s)"
  unfolding alloc_pages_64_def
  using assms by (intro alloc_64_single_loop) (auto simp: free_chain_def)

theorem alloc_pages_64_single_fails_witness:
  "alloc_pages_64 1 two_pages = Some (0, two_pages) \<and> available_pages two_pages = 2"
  using alloc_pages_64_single_fails[OF two_pages_chain] by (simp add: two_pages_def)

end
