(* ===== verification/PageTable.thy ===== *)
theory PageTable
  imports PageAlloc
begin

text \<open>
  Page directories and page tables, the second half of kernel/mm/page.c, over the byte memory
  and the allocator of \<open>PageAlloc\<close>: a page directory is a page of 1024 longs whose present
  entries point at page tables, pages of 1024 longs that hold the page-table entries (ptes).
  \<open>vspace\<close> is the ownership invariant: directory, tables and freeable frames are distinct
  pages, none of them on the free list.
\<close>

unbundle bit_operations_syntax

section \<open>Entries\<close>

abbreviation PTE_PRESENT :: u32 where "PTE_PRESENT \<equiv> 1"
abbreviation PTE_READ_WRITE :: u32 where "PTE_READ_WRITE \<equiv> 2"
abbreviation PTE_USER :: u32 where "PTE_USER \<equiv> 4"
abbreviation PTE_FREEABLE :: u32 where "PTE_FREEABLE \<equiv> 0x200"

definition pte_get_addr :: "u32 \<Rightarrow> u32" where
  "pte_get_addr x = x AND 0xfffff000"

definition page_dir_offset :: "u32 \<Rightarrow> u32" where
  "page_dir_offset x = x div (4096 * 1024)"

definition page_table_offset :: "u32 \<Rightarrow> u32" where
  "page_table_offset x = (x div 4096) AND 1023"

definition page_offset :: "u32 \<Rightarrow> u32" where
  "page_offset x = x AND 0xfff"

text \<open>\<open>pd[i]\<close> and \<open>pd[i] = v\<close> for a \<open>page_dir *\<close> or \<open>page_table *\<close>.\<close>

definition entry :: "'a pmem_scheme \<Rightarrow> u32 \<Rightarrow> u32 \<Rightarrow> u32" where
  "entry s pd i = load32 (mem s) (pd + 4 * i)"

definition set_entry :: "u32 \<Rightarrow> u32 \<Rightarrow> u32 \<Rightarrow> 'a pmem_scheme \<Rightarrow> 'a pmem_scheme" where
  "set_entry pd i v s = s\<lparr>mem := store32 (mem s) (pd + 4 * i) v\<rparr>"

section \<open>Mapping\<close>

text \<open>
  The first half of \<open>map_page\<close> and \<open>set_pte\<close>: the page table for entry \<open>i\<close>,
  allocated, cleared and entered into the directory if there is none.  The result of
  \<open>alloc_page\<close> is used unchecked.
\<close>

definition get_table :: "u32 \<Rightarrow> u32 \<Rightarrow> u32 \<Rightarrow> 'a pmem_scheme \<Rightarrow> u32 \<times> 'a pmem_scheme" where
  "get_table pd i flags s =
     (if entry s pd i AND PTE_PRESENT = 0
      then (let (pt, s1) = alloc_page s;
                s2 = s1\<lparr>mem := memsetl (mem s1) pt 0 1024\<rparr>
            in (pt, set_entry pd i (to_physical pt OR flags) s2))
      else (to_logical (pte_get_addr (entry s pd i)), s))"

definition map_page :: "u32 \<Rightarrow> u32 \<Rightarrow> u32 \<Rightarrow> u32 \<Rightarrow> 'a pmem_scheme \<Rightarrow> 'a pmem_scheme" where
  "map_page pd pg addr flags s =
     (let (pt, s1) = get_table pd (page_dir_offset addr) (PTE_FREEABLE OR flags) s;
          i = page_table_offset addr;
          e = entry s1 pt i;
          s2 = (if e AND (PTE_PRESENT OR PTE_FREEABLE) = PTE_PRESENT OR PTE_FREEABLE
                then free_page (to_logical (pte_get_addr e)) s1 else s1)
      in set_entry pt i (to_physical pg OR flags) s2)"

definition set_pte :: "u32 \<Rightarrow> u32 \<Rightarrow> u32 \<Rightarrow> 'a pmem_scheme \<Rightarrow> 'a pmem_scheme" where
  "set_pte pd addr pte s =
     (let (pt, s1) = get_table pd (page_dir_offset addr)
            (PTE_PRESENT OR PTE_FREEABLE OR (pte AND (PTE_USER OR PTE_READ_WRITE))) s
      in set_entry pt (page_table_offset addr) pte s1)"

text \<open>The loop of \<open>map_pages\<close>; like \<open>add_pages\<close> it need not end if \<open>start\<close> wraps.\<close>

partial_function (option) map_pages ::
    "u32 \<Rightarrow> u32 \<Rightarrow> u32 \<Rightarrow> u32 \<Rightarrow> u32 \<Rightarrow> 'a pmem_scheme \<Rightarrow> 'a pmem_scheme option" where
  "map_pages pd start ende addr flags s =
     (if start < ende
      then map_pages pd (start + 4096) ende (addr + 4096) flags
             (map_page pd (to_logical start) addr flags s)
      else Some s)"

definition get_pte :: "'a pmem_scheme \<Rightarrow> u32 \<Rightarrow> u32 \<Rightarrow> u32" where
  "get_pte s pd addr =
     (if entry s pd (page_dir_offset addr) AND PTE_PRESENT = 0 then 0
      else entry s (to_logical (pte_get_addr (entry s pd (page_dir_offset addr))))
             (page_table_offset addr))"

definition read_page_mapping :: "'a pmem_scheme \<Rightarrow> u32 \<Rightarrow> u32 \<Rightarrow> u32" where
  "read_page_mapping s pd addr =
     (let pte = get_pte s pd addr in
      if test_mask pte PTE_PRESENT then pte_get_addr pte else 0)"

definition lin_to_phys :: "'a pmem_scheme \<Rightarrow> u32 \<Rightarrow> u32 \<Rightarrow> u32" where
  "lin_to_phys s pd linear_addr =
     (let phys = read_page_mapping s pd linear_addr in
      if phys \<noteq> 0 then phys OR page_offset linear_addr else 0)"

definition put_pd_val :: "u32 \<Rightarrow> nat \<Rightarrow> u32 \<Rightarrow> u32 \<Rightarrow> 'a pmem_scheme \<Rightarrow> 'a pmem_scheme" where
  "put_pd_val pd sz val lin_addr s =
     (let phys0 = lin_to_phys s pd lin_addr;
          (phys, s1) =
            (if phys0 = 0
             then (let (new, s') = alloc_page s;
                       s'' = map_page pd new (lin_addr AND 0xfffff000)
                               (PTE_READ_WRITE OR PTE_USER OR PTE_PRESENT) s'
                   in (to_physical new + page_offset lin_addr, s''))
             else (phys0, s))
      in if sz = 1 then s1\<lparr>mem := store8 (mem s1) (to_logical phys) (ucast val)\<rparr>
         else if sz = 2 then s1\<lparr>mem := store16 (mem s1) (to_logical phys) (ucast val)\<rparr>
         else if sz = 4 then s1\<lparr>mem := store32 (mem s1) (to_logical phys) val\<rparr>
         else s1)"

text \<open>The cases of the switch are 1, 2 and 3: size 4 is not one of them.\<close>

definition get_pd_val :: "'a pmem_scheme \<Rightarrow> u32 \<Rightarrow> nat \<Rightarrow> u32 \<Rightarrow> u32" where
  "get_pd_val s pd sz lin_addr =
     (let phys = lin_to_phys s pd lin_addr in
      if phys \<noteq> 0
      then (if sz = 1 then ucast (load8 (mem s) (to_logical phys))
            else if sz = 2 then ucast (load16 (mem s) (to_logical phys))
            else if sz = 3 then load32 (mem s) (to_logical phys)
            else 0)
      else 0)"

text \<open>\<open>NUM_KERNEL_PAGE_TABLES\<close> is 32 and \<open>KERNEL_BASE_ADDR\<close> 0xF8000000 (vmm/map.h).\<close>

definition make_task_page_dir :: "'a pmem_scheme \<Rightarrow> u32 \<times> 'a pmem_scheme" where
  "make_task_page_dir s =
     (let (pd, s1) = alloc_page s in
      if pd \<noteq> 0
      then (pd, s1\<lparr>mem := memcpyl (memsetl (mem s1) pd 0 (1024 - 32))
                    (pd + 4 * page_dir_offset 0xF8000000)
                    (logical_kernel_pd s1 + 4 * page_dir_offset 0xF8000000) 32\<rparr>)
      else (pd, s1))"

text \<open>The loop of \<open>check_area\<close>: the extent shrinks by a page in every round.\<close>

function check_area_loop :: "'a pmem_scheme \<Rightarrow> u32 \<Rightarrow> u32 \<Rightarrow> u32 \<Rightarrow> bool" where
  "check_area_loop s pd addr extent =
     (if get_pte s pd addr AND PTE_PRESENT = 0 then False
      else if extent \<le> 4096 then True
      else check_area_loop s pd (addr + 4096) (extent - 4096))"
  by pat_completeness auto
termination
proof (relation "measure (\<lambda>(s, pd, addr, extent). unat extent)")
  fix extent :: u32
  assume "\<not> extent \<le> 4096"
  then have "(4096::u32) \<le> extent" by simp
  then have "unat (extent - 4096) = unat extent - 4096" "unat extent \<ge> 4096"
    by (simp_all add: unat_sub word_le_nat_alt)
  then show "((s, pd, addr + 4096, extent - 4096), s, pd, addr, extent)
      \<in> measure (\<lambda>(s, pd, addr, extent). unat extent)" for s :: "'a pmem_scheme" and pd addr
    by simp
qed simp

definition check_area :: "'a pmem_scheme \<Rightarrow> u32 \<Rightarrow> u32 \<Rightarrow> u32 \<Rightarrow> bool" where
  "check_area s pd start extent =
     (let addr = start AND 0xfffff000 in check_area_loop s pd addr (extent + (start - addr)))"

section \<open>Releasing tables and directories\<close>

definition delete_pte :: "u32 \<Rightarrow> u32 \<Rightarrow> 'a pmem_scheme \<Rightarrow> 'a pmem_scheme" where
  "delete_pte pt i s =
     (if test_mask (entry s pt i) PTE_PRESENT \<and> test_mask (entry s pt i) PTE_FREEABLE
      then free_page (to_logical (pte_get_addr (entry s pt i))) s else s)"

definition delete_page_table :: "u32 \<Rightarrow> 'a pmem_scheme \<Rightarrow> 'a pmem_scheme" where
  "delete_page_table pt s = free_page pt (fold (\<lambda>i. delete_pte pt (of_nat i)) [0..<1024] s)"

definition delete_pde :: "u32 \<Rightarrow> u32 \<Rightarrow> 'a pmem_scheme \<Rightarrow> 'a pmem_scheme" where
  "delete_pde pd i s =
     (if test_mask (entry s pd i) PTE_PRESENT \<and> test_mask (entry s pd i) PTE_FREEABLE
      then delete_page_table (to_logical (pte_get_addr (entry s pd i))) s else s)"

definition delete_page_dir :: "u32 \<Rightarrow> 'a pmem_scheme \<Rightarrow> 'a pmem_scheme" where
  "delete_page_dir pd s = free_page pd (fold (\<lambda>i. delete_pde pd (of_nat i)) [0..<1024] s)"

section \<open>Initialisation and the kernel break\<close>

text \<open>
  \<open>kernel_page_dir\<close> (the physical address of the boot page directory) and
  \<open>logical_top_of_kernel\<close> are set by the boot loader and the linker: parameters.
\<close>

definition init_mm :: "u32 \<Rightarrow> u32 \<Rightarrow> 'a pmem_scheme \<Rightarrow> 'a pmem_scheme" where
  "init_mm kernel_page_dir logical_top_of_kernel s =
     s\<lparr>logical_kernel_pd := to_logical kernel_page_dir, kernel_brk := logical_top_of_kernel\<rparr>"

text \<open>
  \<open>kernel_sbrk\<close> of kernel/mm/sbrk.c: the loop that maps new pages up to the new break.
  \<open>None\<close> as the inner value is the jump to \<open>error\<close>.
\<close>

partial_function (option) sbrk_loop ::
    "u32 \<Rightarrow> 'a pmem_scheme \<Rightarrow> ('a pmem_scheme \<times> bool) option" where
  "sbrk_loop ptr s =
     (if ptr < kernel_brk s
      then (let (p, s1) = alloc_page s in
            if p = 0 then Some (s1, False)
            else sbrk_loop (ptr + 4096)
                   (map_page (logical_kernel_pd s1) p (ptr + 0xF8000000) PTE_PRESENT s1))
      else Some (s, True))"

definition kernel_sbrk :: "u32 \<Rightarrow> 'a pmem_scheme \<Rightarrow> (u32 \<times> 'a pmem_scheme) option" where
  "kernel_sbrk delta s =
     (let old = kernel_brk s;
          s1 = s\<lparr>kernel_brk := old + round_to delta 4\<rparr>
      in if kernel_brk s1 < 0xF8800000 - 0xF8000000
         then map_option (\<lambda>(s2, ok). if ok then (old, s2) else (-1, s2\<lparr>kernel_brk := old\<rparr>))
                (sbrk_loop (round_to old 4096) s1)
         else Some (-1, s1\<lparr>kernel_brk := old\<rparr>))"

end
