(* ===== verification/PageTableProps.thy ===== *)
theory PageTableProps
  imports PageTable
begin

text \<open>
  Correctness of the page-table code: the ownership invariant \<open>vspace\<close>, its preservation by
  \<open>map_page\<close> and \<open>set_pte\<close>, and the lookup laws of \<open>get_pte\<close> after them.
\<close>

unbundle bit_operations_syntax

section \<open>Addresses of entries\<close>

lemma page_aligned_to_logical: "page_aligned x \<Longrightarrow> page_aligned (to_logical x)"
proof -
  assume "page_aligned x"
  then obtain k where "unat x = 4096 * k" by (auto simp: page_aligned_def elim: dvdE)
  then have "unat (to_logical x) = (4096 * (k + 2048)) mod 4294967296"
    by (simp add: to_logical_def unat_word_ariths)
  moreover have "(4096::nat) dvd 4294967296" by simp
  ultimately show ?thesis by (simp add: page_aligned_def dvd_mod_iff)
qed

lemma pte_get_addr_aligned [simp]: "page_aligned (to_logical (pte_get_addr e))"
  using page_base_aligned by (auto simp: pte_get_addr_def page_base_def intro: page_aligned_to_logical)

lemma page_table_offset_less [simp]: "page_table_offset a < 1024"
proof -
  have "page_table_offset a = take_bit 10 (a div 4096)"
    by (simp add: page_table_offset_def take_bit_eq_mask mask_eq_exp_minus_1)
  then have "unat (page_table_offset a) < 1024"
    by (simp only: unsigned_take_bit_eq) (simp add: take_bit_eq_mod)
  then show ?thesis by (simp add: word_less_nat_alt)
qed

lemma page_dir_offset_less [simp]: "page_dir_offset a < 1024"
proof -
  have "unat (page_dir_offset a) = unat a div 4194304"
    by (simp add: page_dir_offset_def unat_div_distrib)
  then have "unat (page_dir_offset a) < 1024" using unat_u32_lt[of a] by simp
  then show ?thesis by (simp add: word_less_nat_alt)
qed

lemma unat_entry_offset: "i < 1024 \<Longrightarrow> unat (4 * i :: u32) = 4 * unat i"
  by (simp add: unat_word_ariths word_less_nat_alt)

lemma entry_offset_inj: "i < 1024 \<Longrightarrow> j < 1024 \<Longrightarrow> (4 * i :: u32) = 4 * j \<longleftrightarrow> i = j"
  using unat_entry_offset[of i] unat_entry_offset[of j]
  by (metis mult_cancel1 unsigned_word_eqI zero_neq_numeral)

lemma entry_addr_aligned:
  assumes "page_aligned p" "i < 1024" shows "aligned4 (p + 4 * i)"
proof -
  have "aligned4 (4 * i)" using assms(2) by (simp add: aligned4_def unat_entry_offset)
  then show ?thesis using assms(1) by (simp add: aligned4_add page_aligned_aligned4)
qed

lemma entry_addr_page: "page_aligned p \<Longrightarrow> i < 1024 \<Longrightarrow> page_base (p + 4 * i) = p"
  by (intro page_base_add) (simp_all add: unat_entry_offset word_less_nat_alt)

lemma entry_addr_eq:
  assumes "page_aligned p" "page_aligned q" "i < 1024" "j < 1024"
  shows "p + 4 * i = q + 4 * j \<longleftrightarrow> p = q \<and> i = j"
proof
  assume eq: "p + 4 * i = q + 4 * j"
  then have "p = q" using entry_addr_page assms by metis
  with eq show "p = q \<and> i = j" using entry_offset_inj[OF assms(3,4)] by simp
qed simp

section \<open>Entries after the basic steps\<close>

lemma entry_set_entry:
  "page_aligned p \<Longrightarrow> page_aligned q \<Longrightarrow> i < 1024 \<Longrightarrow> j < 1024 \<Longrightarrow>
     entry (set_entry p i v s) q j = (if p = q \<and> i = j then v else entry s q j)"
  by (simp add: entry_def set_entry_def load32_store32_aligned entry_addr_aligned entry_addr_eq)

lemma entry_free_page:
  "page_aligned p \<Longrightarrow> page_aligned q \<Longrightarrow> j < 1024 \<Longrightarrow> p \<noteq> q \<Longrightarrow>
     entry (free_page p s) q j = entry s q j"
  using entry_addr_page[of q j] entry_addr_aligned[of q j]
  by (simp add: entry_def free_page_def load32_other_page page_aligned_aligned4)

lemma mem_alloc_page [simp]: "mem (snd (alloc_page s)) = mem s"
  by (simp add: alloc_page_def Let_def)

lemma memsetl_load32:
  assumes p: "page_aligned p" and a: "aligned4 a"
  shows "n \<le> 1024 \<Longrightarrow> k \<le> n \<Longrightarrow> load32 (memsetl m (p + 4 * of_nat (n - k)) v k) a =
    (if a \<in> (\<lambda>i. p + 4 * of_nat i) ` {n - k..<n} then v else load32 m a)"
proof (induction k arbitrary: m)
  case 0
  then show ?case by auto
next
  case (Suc k)
  let ?i = "n - Suc k"
  have i: "n - k = Suc ?i" using Suc.prems by simp
  have nxt: "p + 4 * of_nat ?i + 4 = p + 4 * of_nat (n - k)"
    unfolding i by (simp add: algebra_simps)
  have "of_nat l < (1024::u32)" if "l < 1024" for l :: nat
    using that by (simp add: word_less_nat_alt unat_of_nat)
  then have "of_nat ?i < (1024::u32)" using Suc.prems by (meson diff_less le_less_trans less_le_trans zero_less_Suc)
  then have al: "aligned4 (p + 4 * of_nat ?i)" using p by (rule entry_addr_aligned[rotated])
  have "{?i..<n} = insert ?i {n - k..<n}" using Suc.prems by auto
  then show ?case
    using Suc.IH[of "store32 m (p + 4 * of_nat ?i) v"] Suc.prems al a
    by (simp add: nxt load32_store32_aligned)
qed

section \<open>The ownership invariant\<close>

text \<open>
  What a page directory owns: its own page, one page per present page table, one page per
  freeable page-table entry of a present table.
\<close>

datatype res = Dir | Table u32 | Frame u32 u32

abbreviation present :: "u32 \<Rightarrow> bool" where "present e \<equiv> e AND PTE_PRESENT \<noteq> 0"

definition owned :: "u32 \<Rightarrow> bool" where
  "owned e \<longleftrightarrow> e AND (PTE_PRESENT OR PTE_FREEABLE) = PTE_PRESENT OR PTE_FREEABLE"

lemma owned_0 [simp]: "\<not> owned 0"
  by (simp add: owned_def)

definition table_page :: "'a pmem_scheme \<Rightarrow> u32 \<Rightarrow> u32 \<Rightarrow> u32" where
  "table_page s pd i = to_logical (pte_get_addr (entry s pd i))"

definition pte_at :: "'a pmem_scheme \<Rightarrow> u32 \<Rightarrow> u32 \<Rightarrow> u32 \<Rightarrow> u32" where
  "pte_at s pd i j = entry s (table_page s pd i) j"

fun live :: "'a pmem_scheme \<Rightarrow> u32 \<Rightarrow> res \<Rightarrow> bool" where
  "live s pd Dir \<longleftrightarrow> True"
| "live s pd (Table i) \<longleftrightarrow> i < 1024 \<and> present (entry s pd i)"
| "live s pd (Frame i j) \<longleftrightarrow>
     i < 1024 \<and> j < 1024 \<and> present (entry s pd i) \<and> owned (pte_at s pd i j)"

fun res_page :: "'a pmem_scheme \<Rightarrow> u32 \<Rightarrow> res \<Rightarrow> u32" where
  "res_page s pd Dir = pd"
| "res_page s pd (Table i) = table_page s pd i"
| "res_page s pd (Frame i j) = to_logical (pte_get_addr (pte_at s pd i j))"

text \<open>
  The invariant, with a set \<open>X\<close> of resources left out while an operation is in between
  releasing a frame and overwriting its entry.
\<close>

definition vspace_ex :: "'a pmem_scheme \<Rightarrow> u32 \<Rightarrow> u32 list \<Rightarrow> res set \<Rightarrow> bool" where
  "vspace_ex s pd xs X \<longleftrightarrow> free_chain s xs \<and> page_aligned pd
     \<and> (\<forall>r. live s pd r \<and> r \<notin> X \<longrightarrow> res_page s pd r \<noteq> 0 \<and> res_page s pd r \<notin> set xs)
     \<and> inj_on (res_page s pd) {r. live s pd r \<and> r \<notin> X}"

definition vspace :: "'a pmem_scheme \<Rightarrow> u32 \<Rightarrow> u32 list \<Rightarrow> bool" where
  "vspace s pd xs \<longleftrightarrow> vspace_ex s pd xs {}"

lemma vspaceD:
  assumes "vspace_ex s pd xs X"
  shows "free_chain s xs" "page_aligned pd"
    "live s pd r \<Longrightarrow> r \<notin> X \<Longrightarrow> res_page s pd r \<noteq> 0 \<and> res_page s pd r \<notin> set xs"
    "live s pd r \<Longrightarrow> live s pd r' \<Longrightarrow> r \<notin> X \<Longrightarrow> r' \<notin> X \<Longrightarrow>
       res_page s pd r = res_page s pd r' \<longleftrightarrow> r = r'"
  using assms by (auto simp: vspace_ex_def inj_on_def)

lemma table_page_aligned [simp]: "page_aligned (table_page s pd i)"
  by (simp add: table_page_def)

lemma res_page_aligned: "page_aligned pd \<Longrightarrow> page_aligned (res_page s pd r)"
  by (cases r) simp_all

lemma get_pte_at:
  "get_pte s pd a = (if present (entry s pd (page_dir_offset a))
     then pte_at s pd (page_dir_offset a) (page_table_offset a) else 0)"
  by (simp add: get_pte_def pte_at_def table_page_def)

section \<open>The three steps of map_page\<close>

text \<open>Releasing a frame.\<close>

lemma vspace_free_frame:
  assumes v: "vspace_ex s pd xs {}" and f: "live s pd (Frame i j)"
  defines "s' \<equiv> free_page (res_page s pd (Frame i j)) s"
  shows "vspace_ex s' pd (res_page s pd (Frame i j) # xs) {Frame i j}"
    and "\<And>k. k < 1024 \<Longrightarrow> entry s' pd k = entry s pd k"
    and "\<And>k l. k < 1024 \<Longrightarrow> l < 1024 \<Longrightarrow> present (entry s pd k) \<Longrightarrow> pte_at s' pd k l = pte_at s pd k l"
proof -
  let ?f = "res_page s pd (Frame i j)"
  note D = vspaceD[OF v]
  have al: "page_aligned ?f" by simp
  have pd: "?f \<noteq> pd" using D(4)[of "Frame i j" Dir] f by simp
  show e: "entry s' pd k = entry s pd k" if "k < 1024" for k
    unfolding s'_def using that al pd D(2) by (intro entry_free_page)
  have tp: "table_page s' pd k = table_page s pd k" if "k < 1024" for k
    using that by (simp add: table_page_def e)
  show p: "pte_at s' pd k l = pte_at s pd k l"
    if "k < 1024" "l < 1024" "present (entry s pd k)" for k l
  proof -
    have "?f \<noteq> table_page s pd k" using D(4)[of "Frame i j" "Table k"] f that by simp
    then have "entry s' (table_page s pd k) l = entry s (table_page s pd k) l"
      unfolding s'_def using that al by (intro entry_free_page table_page_aligned)
    then show ?thesis by (simp add: pte_at_def tp that)
  qed
  have l: "live s' pd r = live s pd r" for r
    by (cases r) (auto simp: e p)
  have r: "res_page s' pd r = res_page s pd r" if "live s pd r" for r
    using that by (cases r) (simp_all add: tp p)
  have "free_chain s' (?f # xs)"
    unfolding s'_def using D(3)[of "Frame i j"] f D(1) al by (intro free_page_chain) simp_all
  then show "vspace_ex s' pd (?f # xs) {Frame i j}"
    unfolding vspace_ex_def inj_on_def using D(2) D(3) D(4) f
    by (auto simp: l r simp del: live.simps res_page.simps)
qed

text \<open>Writing an entry of a table that is present.\<close>

lemma vspace_set_entry:
  assumes v: "vspace_ex s pd xs X" and X: "X \<subseteq> {Frame i j}"
    and ij: "i < 1024" "j < 1024" "present (entry s pd i)"
    and noX: "owned (pte_at s pd i j) \<Longrightarrow> X = {Frame i j}"
    and new: "owned e \<Longrightarrow> to_logical (pte_get_addr e) \<noteq> 0 \<and> to_logical (pte_get_addr e) \<notin> set xs
      \<and> (\<forall>r. live s pd r \<and> r \<notin> X \<longrightarrow> res_page s pd r \<noteq> to_logical (pte_get_addr e))"
  defines "s' \<equiv> set_entry (table_page s pd i) j e s"
  shows "vspace s' pd xs"
    and "\<And>k. k < 1024 \<Longrightarrow> entry s' pd k = entry s pd k"
    and "\<And>k l. k < 1024 \<Longrightarrow> l < 1024 \<Longrightarrow> present (entry s pd k) \<Longrightarrow>
      pte_at s' pd k l = (if k = i \<and> l = j then e else pte_at s pd k l)"
proof -
  note D = vspaceD[OF v]
  have nd: "table_page s pd i \<noteq> pd" using D(4)[of "Table i" Dir] ij X by auto
  show en: "entry s' pd k = entry s pd k" if "k < 1024" for k
    unfolding s'_def using that ij D(2) nd by (simp add: entry_set_entry)
  have tp: "table_page s' pd k = table_page s pd k" if "k < 1024" for k
    using that by (simp add: table_page_def en)
  show p: "pte_at s' pd k l = (if k = i \<and> l = j then e else pte_at s pd k l)"
    if "k < 1024" "l < 1024" "present (entry s pd k)" for k l
  proof -
    have "table_page s pd i = table_page s pd k \<longleftrightarrow> i = k"
      using D(4)[of "Table i" "Table k"] ij X that by auto
    moreover have "pte_at s' pd k l = entry s' (table_page s pd k) l"
      by (simp only: pte_at_def tp[OF that(1)])
    moreover have "entry s' (table_page s pd k) l =
        (if table_page s pd i = table_page s pd k \<and> j = l then e else pte_at s pd k l)"
      unfolding s'_def pte_at_def using that ij by (intro entry_set_entry) simp_all
    ultimately show ?thesis by auto
  qed
  have l: "live s' pd r \<longleftrightarrow> (if r = Frame i j then owned e else live s pd r)" for r
    using ij by (cases r) (auto simp: en p)
  have r: "res_page s' pd r = (if r = Frame i j then to_logical (pte_get_addr e) else res_page s pd r)"
    if "live s' pd r" for r
    using that ij by (cases r) (auto simp: tp p en)
  have "X = {Frame i j} \<or> \<not> live s pd (Frame i j) \<and> X = {}" using noX X by auto
  then have lX: "live s pd r \<and> r \<notin> X \<longleftrightarrow> live s pd r \<and> r \<noteq> Frame i j" for r by auto
  have tx: "table_page s pd i \<notin> set xs" using D(3)[of "Table i"] ij X by auto
  have "page_base (table_page s pd i + 4 * j) = table_page s pd i"
    using ij by (simp add: entry_addr_page)
  moreover have "aligned4 (table_page s pd i + 4 * j)" using ij by (simp add: entry_addr_aligned)
  ultimately have fc: "free_chain s' xs"
    using D(1) tx by (auto simp: s'_def set_entry_def free_chain_def chain_store32)
  show "vspace s' pd xs"
    unfolding vspace_def vspace_ex_def
  proof (intro conjI allI impI)
    fix q assume q: "live s' pd q \<and> q \<notin> {}"
    then show "res_page s' pd q \<noteq> 0"
      using new D(3)[of q] lX[of q] by (cases "q = Frame i j") (auto simp: l r simp del: live.simps res_page.simps)
    from q show "res_page s' pd q \<notin> set xs"
      using new D(3)[of q] lX[of q] by (cases "q = Frame i j") (auto simp: l r simp del: live.simps res_page.simps)
  next
    show "inj_on (res_page s' pd) {q. live s' pd q \<and> q \<notin> {}}"
    proof (rule inj_onI)
      fix q q' assume *: "q \<in> {q. live s' pd q \<and> q \<notin> {}}" "q' \<in> {q. live s' pd q \<and> q \<notin> {}}"
        "res_page s' pd q = res_page s' pd q'"
      show "q = q'"
      proof (cases "q = Frame i j \<or> q' = Frame i j")
        case True
        then show ?thesis using * new lX[of q] lX[of q']
          by (auto simp: l r simp del: live.simps res_page.simps split: if_splits)
      next
        case False
        then show ?thesis using * D(4)[of q q'] lX[of q] lX[of q']
          by (auto simp: l r simp del: live.simps res_page.simps)
      qed
    qed
  qed (use fc D(2) in auto)
qed

text \<open>Clearing a page.\<close>

lemma entry_clear_page:
  assumes "page_aligned p" "page_aligned q" "j < 1024"
  shows "entry (s\<lparr>mem := memsetl (mem s) p v 1024\<rparr>) q j = (if p = q then v else entry s q j)"
proof -
  have j: "j = of_nat (unat j)" "unat j < 1024" using assms(3) by (simp_all add: word_less_nat_alt)
  have "q + 4 * j \<in> (\<lambda>i. p + 4 * of_nat i) ` {1024 - 1024..<1024} \<longleftrightarrow> p = q"
  proof
    assume "q + 4 * j \<in> (\<lambda>i. p + 4 * of_nat i) ` {1024 - 1024..<1024}"
    then obtain i :: nat where i: "i < 1024" "q + 4 * j = p + 4 * of_nat i" by auto
    have "of_nat i < (1024::u32)" using i(1) by (simp add: word_less_nat_alt unat_of_nat)
    then show "p = q" using i(2) assms entry_addr_eq by metis
  qed (use j in \<open>auto intro!: image_eqI[of _ _ "unat j"]\<close>)
  then show ?thesis
    using memsetl_load32[of p "q + 4 * j" 1024 1024 "mem s" v] assms
    by (simp add: entry_def entry_addr_aligned)
qed

lemma chain_clear_page:
  assumes "page_aligned p"
  shows "chain m x ys \<Longrightarrow> p \<notin> set ys \<Longrightarrow> \<forall>y\<in>set ys. page_aligned y \<Longrightarrow>
    chain (memsetl m p v 1024) x ys"
proof (induction ys arbitrary: x)
  case (Cons y ys)
  have "entry ((undefined::pmem)\<lparr>mem := memsetl m p v 1024\<rparr>) y 0 = entry ((undefined::pmem)\<lparr>mem := m\<rparr>) y 0"
    using entry_clear_page[OF assms, of y 0 "(undefined::pmem)\<lparr>mem := m\<rparr>" v] Cons.prems by auto
  then have "load32 (memsetl m p v 1024) y = load32 m y" by (simp add: entry_def)
  then show ?case using Cons by auto
qed simp

lemma entry_alloc_page [simp]: "entry (snd (alloc_page s)) q j = entry s q j"
  by (simp add: entry_def)

lemma page_base_disj: "f AND 0xfffff000 = 0 \<Longrightarrow> page_aligned p \<Longrightarrow> (p OR f) AND 0xfffff000 = p"
  using page_base_id[of p] by (simp add: page_base_def bit.conj_disj_distrib2)

lemma page_aligned_to_physical: "page_aligned x \<Longrightarrow> page_aligned (to_physical x)"
proof -
  assume "page_aligned x"
  then have "page_aligned (x + 0xff800000)"
    unfolding page_aligned_def unat_word_ariths by (auto simp: dvd_mod_iff)
  moreover have "x + 0xff800000 = to_physical x"
    using arg_cong[of "0xff800000" "- (8 * 1024 * 1024 :: u32)" "\<lambda>y. x + y"]
    by (simp add: to_physical_def del: arg_cong)
  ultimately show ?thesis by (simp only:)
qed

lemma frame_addr: "page_aligned p \<Longrightarrow> f AND 0xfffff000 = 0 \<Longrightarrow>
    to_logical (pte_get_addr (to_physical p OR f)) = p"
  by (simp add: pte_get_addr_def page_base_disj page_aligned_to_physical)

lemma or_flag: "test_mask f m \<Longrightarrow> test_mask (x OR f) (m::'a::len word)"
  by (simp add: bit.conj_disj_distrib2 or_eq_0_iff)

text \<open>Installing the page table of a directory entry.\<close>

lemma vspace_get_table:
  assumes v: "vspace s pd xs" and i: "i < 1024"
    and flags: "flags AND 0xfffff000 = 0" "present flags"
    and free: "present (entry s pd i) \<or> xs \<noteq> []"
  defines "s' \<equiv> snd (get_table pd i flags s)"
  shows "vspace s' pd (if present (entry s pd i) then xs else tl xs)"
    and "fst (get_table pd i flags s) = table_page s' pd i"
    and "present (entry s' pd i)"
    and "\<And>k. k < 1024 \<Longrightarrow> k \<noteq> i \<Longrightarrow> entry s' pd k = entry s pd k"
    and "\<And>k l. k < 1024 \<Longrightarrow> l < 1024 \<Longrightarrow> present (entry s' pd k) \<Longrightarrow>
      pte_at s' pd k l = (if present (entry s pd k) then pte_at s pd k l else 0)"
    and "\<And>r. live s' pd r \<Longrightarrow> live s pd r \<and> res_page s' pd r = res_page s pd r
      \<or> xs \<noteq> [] \<and> res_page s' pd r = hd xs"
proof -
  note D = vspaceD[OF v[unfolded vspace_def]]
  let ?P = "vspace s' pd (if present (entry s pd i) then xs else tl xs)
    \<and> fst (get_table pd i flags s) = table_page s' pd i \<and> present (entry s' pd i)
    \<and> (\<forall>k. k < 1024 \<and> k \<noteq> i \<longrightarrow> entry s' pd k = entry s pd k)
    \<and> (\<forall>k l. k < 1024 \<and> l < 1024 \<and> present (entry s' pd k) \<longrightarrow>
      pte_at s' pd k l = (if present (entry s pd k) then pte_at s pd k l else 0))
    \<and> (\<forall>r. live s' pd r \<longrightarrow> live s pd r \<and> res_page s' pd r = res_page s pd r
      \<or> xs \<noteq> [] \<and> res_page s' pd r = hd xs)"
  have ?P
  proof (cases "present (entry s pd i)")
    case True
    then have "get_table pd i flags s = (table_page s pd i, s)"
      by (simp add: get_table_def table_page_def)
    then show ?thesis using v True by (simp add: s'_def)
  next
    case False
    then obtain pt ys where xs: "xs = pt # ys" using free by (cases xs) auto
    define s1 where "s1 = snd (alloc_page s)"
    define s2 where "s2 = s1\<lparr>mem := memsetl (mem s1) pt 0 1024\<rparr>"
    have ap: "fst (alloc_page s) = pt" "free_chain s1 ys"
      using alloc_page_Cons[of s pt ys] D(1) xs by (simp_all add: s1_def)
    have pt: "page_aligned pt" "pt \<notin> set ys" "pt \<noteq> 0" "\<forall>y\<in>set ys. page_aligned y"
      using D(1) free_chain_nonzero[OF D(1)] xs by (auto simp: free_chain_def)
    have nl: "res_page s pd r \<noteq> pt" if "live s pd r" for r using D(3)[OF that] xs by auto
    have npd: "pt \<noteq> pd" using nl[of Dir] by simp
    have s': "s' = set_entry pd i (to_physical pt OR flags) s2"
      and fst: "fst (get_table pd i flags s) = pt"
      using False ap(1) by (simp_all add: s'_def get_table_def s1_def s2_def split_beta Let_def)
    have e1: "entry s1 q j = entry s q j" for q j by (simp add: s1_def)
    have e2: "entry s2 q j = (if q = pt then 0 else entry s q j)"
      if "page_aligned q" "j < 1024" for q j
      unfolding s2_def using that pt(1) by (auto simp: entry_clear_page e1)
    have en: "entry s' pd k = (if k = i then to_physical pt OR flags else entry s pd k)"
      if "k < 1024" for k
      unfolding s' using that i D(2) npd by (simp add: entry_set_entry e2)
    have tp: "table_page s' pd k = (if k = i then pt else table_page s pd k)" if "k < 1024" for k
      using that pt(1) flags(1) by (simp add: table_page_def en frame_addr)
    have pr: "present (entry s' pd i)" using i flags(2) by (simp add: en or_flag)
    have pa: "pte_at s' pd k l = (if present (entry s pd k) then pte_at s pd k l else 0)"
      if kl: "k < 1024" "l < 1024" "present (entry s' pd k)" for k l
    proof -
      have "table_page s' pd k \<noteq> pd"
        using kl D(4)[of "Table k" Dir] npd by (auto simp: tp en)
      then have "pte_at s' pd k l = entry s2 (table_page s' pd k) l"
        unfolding pte_at_def s' using kl i D(2) by (simp add: entry_set_entry)
      also have "\<dots> = (if k = i then 0 else pte_at s pd k l)"
        using kl nl[of "Table k"] e2[of pt l] pt(1) by (auto simp: e2 tp en pte_at_def)
      finally show ?thesis using kl False by (auto simp: en)
    qed
    have l: "live s' pd r \<longleftrightarrow> live s pd r \<or> r = Table i" for r
      using i pr False by (cases r) (auto simp: en pa split: if_splits)
    have r: "res_page s' pd r = (if r = Table i then pt else res_page s pd r)" if "live s' pd r" for r
      using that False by (cases r) (auto simp: tp pa split: if_splits)
    have fc: "free_chain s' ys"
      using ap(2) pt D(2) i nl[of Dir] D(3)[of Dir] xs
      by (auto simp: s' s2_def free_chain_def set_entry_def chain_clear_page chain_store32
          entry_addr_page entry_addr_aligned)
    have "vspace s' pd ys"
      unfolding vspace_def vspace_ex_def inj_on_def
      using fc D(2) D(3) D(4) nl pt xs
      by (auto simp: l r simp del: live.simps res_page.simps)
    then show ?thesis using False fst tp[OF i] pr en pa l r xs
      by (auto simp del: live.simps res_page.simps)
  qed
  then show "vspace s' pd (if present (entry s pd i) then xs else tl xs)"
    and "fst (get_table pd i flags s) = table_page s' pd i" and "present (entry s' pd i)"
    and "\<And>k. k < 1024 \<Longrightarrow> k \<noteq> i \<Longrightarrow> entry s' pd k = entry s pd k"
    and "\<And>k l. k < 1024 \<Longrightarrow> l < 1024 \<Longrightarrow> present (entry s' pd k) \<Longrightarrow>
      pte_at s' pd k l = (if present (entry s pd k) then pte_at s pd k l else 0)"
    and "\<And>r. live s' pd r \<Longrightarrow> live s pd r \<and> res_page s' pd r = res_page s pd r
      \<or> xs \<noteq> [] \<and> res_page s' pd r = hd xs"
    by blast+
qed

section \<open>map_page\<close>

text \<open>Two addresses use the same entry exactly if they lie in the same page.\<close>

lemma offsets_eq_iff:
  "page_dir_offset a = page_dir_offset b \<and> page_table_offset a = page_table_offset b
    \<longleftrightarrow> page_base a = page_base b"
proof -
  have d: "unat (page_dir_offset x) = unat x div 4096 div 1024" for x
    by (simp add: page_dir_offset_def unat_div_distrib div_mult2_eq[symmetric])
  have t: "unat (page_table_offset x) = unat x div 4096 mod 1024" for x
  proof -
    have "page_table_offset x = take_bit 10 (x div 4096)"
      by (simp add: page_table_offset_def take_bit_eq_mask mask_eq_exp_minus_1)
    then show ?thesis
      by (simp only: unsigned_take_bit_eq) (simp add: take_bit_eq_mod unat_div_distrib)
  qed
  have eq: "m div 1024 = n div 1024 \<and> m mod 1024 = n mod 1024 \<longleftrightarrow> m = (n::nat)" for m n
    using div_mult_mod_eq[of m 1024] div_mult_mod_eq[of n 1024] by metis
  show ?thesis
    by (simp only: word_unat_eq_iff d t unat_page_base eq) simp
qed

lemma vspace_ex_mono: "vspace_ex s pd xs X \<Longrightarrow> X \<subseteq> Y \<Longrightarrow> vspace_ex s pd xs Y"
  unfolding vspace_ex_def by (auto elim!: inj_on_subset)

text \<open>The allocator's free pages after \<open>map_page\<close>: one taken for a new table, the old frame back.\<close>

definition map_page_free :: "'a pmem_scheme \<Rightarrow> u32 \<Rightarrow> u32 \<Rightarrow> u32 list \<Rightarrow> u32 list" where
  "map_page_free s pd addr xs =
     (let ys = if present (entry s pd (page_dir_offset addr)) then xs else tl xs
      in if owned (get_pte s pd addr) then to_logical (pte_get_addr (get_pte s pd addr)) # ys
         else ys)"

lemma map_page_steps:
  assumes v: "vspace s pd xs"
    and free: "present (entry s pd (page_dir_offset addr)) \<or> xs \<noteq> []"
    and flags: "flags AND 0xfffff000 = 0" "present flags"
    and pg: "page_aligned pg" "owned (to_physical pg OR flags) \<Longrightarrow> pg \<noteq> 0 \<and> pg \<notin> set xs
      \<and> (\<forall>r. live s pd r \<longrightarrow> res_page s pd r \<noteq> pg)"
  defines "s' \<equiv> map_page pd pg addr flags s"
  shows "vspace s' pd (map_page_free s pd addr xs)
    \<and> (\<forall>b. get_pte s' pd b =
       (if page_base b = page_base addr then to_physical pg OR flags else get_pte s pd b))"
proof -
  define i where "i = page_dir_offset addr"
  define j where "j = page_table_offset addr"
  define s1 where "s1 = snd (get_table pd i (PTE_FREEABLE OR flags) s)"
  define ys where "ys = (if present (entry s pd i) then xs else tl xs)"
  define e where "e = to_physical pg OR flags"
  define F where "F = to_logical (pte_get_addr (pte_at s1 pd i j))"
  define s2 where "s2 = (if owned (pte_at s1 pd i j) then free_page F s1 else s1)"
  define zs where "zs = (if owned (pte_at s1 pd i j) then F # ys else ys)"
  define X where "X = (if owned (pte_at s1 pd i j) then {Frame i j} else {})"
  have ij: "i < 1024" "j < 1024" by (simp_all add: i_def j_def)
  have f2: "(PTE_FREEABLE OR flags) AND 0xfffff000 = 0" "present (PTE_FREEABLE OR flags)"
    using flags by (simp_all add: bit.conj_disj_distrib2 or_eq_0_iff)
  note G = vspace_get_table[OF v ij(1) f2 free[folded i_def], folded s1_def ys_def]
  have s': "s' = set_entry (table_page s1 pd i) j e s2"
    using G(2) by (simp add: s'_def map_page_def split_beta Let_def i_def[symmetric] j_def[symmetric]
        s1_def[symmetric] e_def[symmetric] s2_def F_def owned_def pte_at_def)
  have p1: "pte_at s1 pd i j = get_pte s pd addr"
    using G(3) G(5)[of i j] ij by (simp add: get_pte_at i_def j_def)
  have zs: "zs = map_page_free s pd addr xs"
    by (simp add: zs_def map_page_free_def ys_def F_def p1 flip: i_def)
  have s2: "vspace_ex s2 pd zs X \<and> (\<forall>k<1024. entry s2 pd k = entry s1 pd k) \<and>
      (\<forall>k l. k < 1024 \<and> l < 1024 \<and> present (entry s1 pd k) \<longrightarrow> pte_at s2 pd k l = pte_at s1 pd k l)"
  proof (cases "owned (pte_at s1 pd i j)")
    case True
    then have "live s1 pd (Frame i j)" using ij G(3) by simp
    note V = vspace_free_frame[OF G(1)[unfolded vspace_def] this]
    show ?thesis using V True by (auto simp: s2_def zs_def X_def F_def)
  qed (use G(1) in \<open>simp add: s2_def zs_def X_def vspace_def\<close>)
  have l2: "live s2 pd r = live s1 pd r \<and> (live s1 pd r \<longrightarrow> res_page s2 pd r = res_page s1 pd r)" for r
    using s2 by (cases r) (auto simp: table_page_def)
  have tp: "table_page s2 pd i = table_page s1 pd i" using s2 ij by (simp add: table_page_def)
  have al: "to_logical (pte_get_addr e) = pg" using pg(1) flags(1) by (simp add: e_def frame_addr)
  have new: "pg \<noteq> 0 \<and> pg \<notin> set zs \<and> (\<forall>r. live s2 pd r \<and> r \<notin> X \<longrightarrow> res_page s2 pd r \<noteq> pg)"
    if "owned e"
  proof -
    have P: "pg \<noteq> 0" "pg \<notin> set xs" "\<And>r. live s pd r \<Longrightarrow> res_page s pd r \<noteq> pg"
      using pg(2) that by (auto simp: e_def)
    have R: "res_page s1 pd r \<noteq> pg" if "live s1 pd r" for r
      using G(6)[OF that] P(1,2) P(3)[of r] by (cases xs) auto
    have "pg \<noteq> F" if "owned (pte_at s1 pd i j)"
      using R[of "Frame i j"] that ij G(3) by (auto simp: F_def)
    moreover have "pg \<notin> set ys" using P(2) by (cases xs) (auto simp: ys_def)
    ultimately show ?thesis using P R l2 by (auto simp: zs_def)
  qed
  note S = vspace_set_entry[of s2 pd zs X i j e, unfolded tp al, folded s']
  have "present (entry s2 pd i)" using s2 G(3) ij by simp
  moreover have "owned (pte_at s2 pd i j) \<Longrightarrow> X = {Frame i j}"
    using s2 ij G(3) by (auto simp: X_def)
  ultimately have R: "vspace s' pd zs" "\<And>k. k < 1024 \<Longrightarrow> entry s' pd k = entry s2 pd k"
    "\<And>k l. k < 1024 \<Longrightarrow> l < 1024 \<Longrightarrow> present (entry s2 pd k) \<Longrightarrow>
      pte_at s' pd k l = (if k = i \<and> l = j then e else pte_at s2 pd k l)"
    using S s2 ij new by (simp_all add: X_def)
  have "get_pte s' pd b = (if page_base b = page_base addr then e else get_pte s pd b)" for b
  proof -
    have pb: "present (entry s' pd (page_dir_offset b)) \<longleftrightarrow>
        present (entry s pd (page_dir_offset b)) \<or> page_dir_offset b = i"
      using s2 R(2) G(3) G(4)[of "page_dir_offset b"] by (cases "page_dir_offset b = i") auto
    then show ?thesis
      using s2 R G offsets_eq_iff[of b addr] ij
      by (cases "page_dir_offset b = i")
        (auto simp: get_pte_at i_def[symmetric] j_def[symmetric])
  qed
  then show ?thesis using R(1) zs e_def by auto
qed

end
