(* ===== verification/AddressSpace.thy ===== *)
theory AddressSpace
  imports PageTableProps
begin

text \<open>
  What the page-table code promises its callers: mapping a page changes the translation of
  exactly that page and keeps the ownership invariant, a value stored through a page
  directory reads back, \<open>check_area\<close> decides whether a range is mapped, and a new task
  directory shares the kernel's tables and maps nothing else.
\<close>

unbundle bit_operations_syntax

section \<open>Mapping one page\<close>

text \<open>
  C9: map_page on a well-formed address space (no page owned twice, none both owned and free)
  keeps it well-formed, takes at most the head of the free list for a new table, gives the
  frame it replaces back to the free list if it was freeable, makes get_pte return the new
  entry for every address of the mapped page, and changes the entry of no other address.
\<close>

theorem map_page_correct:
  assumes "vspace s pd xs" and "present (entry s pd (page_dir_offset addr)) \<or> xs \<noteq> []"
    and "flags AND 0xfffff000 = 0" and "present flags" and "page_aligned pg"
    and "owned (to_physical pg OR flags) \<Longrightarrow> pg \<noteq> 0 \<and> pg \<notin> set xs
      \<and> (\<forall>r. live s pd r \<longrightarrow> res_page s pd r \<noteq> pg)"
  shows "vspace (map_page pd pg addr flags s) pd (map_page_free s pd addr xs)
    \<and> (\<forall>b. get_pte (map_page pd pg addr flags s) pd b =
       (if page_base b = page_base addr then to_physical pg OR flags else get_pte s pd b))"
  using assms by (rule map_page_steps)

definition empty_space :: pmem where
  "empty_space = \<lparr>mem = \<lambda>_. 0, page_free_list = 0x800000, used_pages = 0, available_pages = 1,
     logical_kernel_pd = 0, kernel_brk = 0\<rparr>"

lemma empty_space_live: "live empty_space pd r \<longleftrightarrow> r = Dir"
  by (cases r) (simp_all add: entry_def empty_space_def load32_def)

lemma empty_space_vspace: "vspace empty_space 0x801000 [0x800000]"
  unfolding vspace_def vspace_ex_def
  by (simp add: empty_space_live free_chain_def page_aligned_def)
    (simp add: empty_space_def load32_def)

theorem map_page_correct_witness:
  "vspace (map_page 0x801000 0x802000 0x1234 7 empty_space) 0x801000 []
    \<and> get_pte (map_page 0x801000 0x802000 0x1234 7 empty_space) 0x801000 0x1ffc = 0x2007
    \<and> get_pte (map_page 0x801000 0x802000 0x1234 7 empty_space) 0x801000 0x2000 = 0"
proof -
  have z: "entry empty_space p i = 0" for p i by (simp add: entry_def empty_space_def load32_def)
  have g: "get_pte empty_space 0x801000 a = 0" for a by (simp add: get_pte_def z)
  have "map_page_free empty_space 0x801000 0x1234 [0x800000] = []"
    by (simp add: map_page_free_def z g)
  moreover have "to_physical 0x802000 OR 7 = 0x2007" by (simp add: to_physical_def)
  moreover have "page_base 0x1234 = 0x1000" "page_base 0x1ffc = 0x1000" "page_base 0x2000 = 0x2000"
    by (simp_all add: page_base_def)
  ultimately show ?thesis
    using map_page_correct[of empty_space "0x801000" "[0x800000]" "0x1234" 7 "0x802000"]
      empty_space_vspace
    by (simp add: empty_space_live page_aligned_def owned_def g)
qed

section \<open>Storing and loading through a directory\<close>

lemma load32_store8_other:
  assumes "aligned4 b" "page_base a \<noteq> page_base b"
  shows "load32 (store8 m a v) b = load32 m b"
proof -
  obtain k where k: "unat b = 4 * k" using assms(1) by (auto simp: aligned4_def)
  have "unat (b + i) div 4096 = unat b div 4096" if "unat i < 4" for i
    using aligned4_quot[OF assms(1) that] by (metis div_mult2_eq mult_numeral_left_semiring_numeral
        num_double numeral_times_numeral)
  then have "page_base (b + i) = page_base b" if "unat i < 4" for i
    using that by (simp add: word_unat_eq_iff unat_page_base)
  from this[of 0] this[of 1] this[of 2] this[of 3] have "a \<noteq> b" "a \<noteq> b + 1" "a \<noteq> b + 2" "a \<noteq> b + 3"
    using assms(2) by auto
  then show ?thesis by (simp add: load32_def store8_def)
qed

lemma mod_mod_page: "(n::nat) mod 4294967296 mod 4096 = n mod 4096"
  by (rule mod_mod_cancel) simp

lemma page_base_succ: "unat p mod 4096 \<noteq> 4095 \<Longrightarrow> page_base (p + 1) = page_base p"
proof -
  assume p: "unat p mod 4096 \<noteq> 4095"
  let ?n = "unat p"
  have "?n < 4096 * 1048576" using unat_u32_lt[of p] by simp
  then have "?n + 1 < 4294967296 \<or> ?n = 4294967295" by auto
  then have "unat (p + 1) = ?n + 1" using p by (auto intro!: unat_add_small[of p 1, simplified])
  moreover have "(?n + 1) div 4096 = ?n div 4096"
    using p by (simp add: div_Suc mod_Suc)
  ultimately show ?thesis by (simp add: word_unat_eq_iff unat_page_base)
qed

lemma page_offset_less: "unat (page_offset a) = unat a mod 4096"
proof -
  have "page_offset a = take_bit 12 a" by (simp add: page_offset_def take_bit_eq_mask mask_eq_exp_minus_1)
  then show ?thesis by (simp only: unsigned_take_bit_eq) (simp add: take_bit_eq_mod)
qed

lemma lin_to_phys_offset:
  assumes "lin_to_phys s pd a \<noteq> 0"
  shows "unat (to_logical (lin_to_phys s pd a)) mod 4096 = unat a mod 4096"
proof -
  define F where "F = read_page_mapping s pd a"
  have l: "lin_to_phys s pd a = F OR page_offset a"
    using assms by (auto simp: lin_to_phys_def F_def Let_def split: if_splits)
  have "page_aligned F"
    using page_base_aligned by (auto simp: F_def read_page_mapping_def Let_def pte_get_addr_def page_base_def page_aligned_def)
  then have F: "4096 dvd unat F" "page_base F = F" by (simp_all add: page_aligned_def)
  have "F AND page_offset a = (F AND 0xfffff000) AND (a AND 0xfff)"
    using F(2) by (simp only: page_base_def page_offset_def)
  also have "\<dots> = (F AND a) AND (0xfffff000 AND 0xfff)" by (simp only: ac_simps)
  finally have "F AND page_offset a = 0" by simp
  then have "F OR page_offset a = F + page_offset a"
    using word_plus_and_or[of F "page_offset a"] by simp
  then have "unat (to_logical (lin_to_phys s pd a)) mod 4096 = (unat F + unat (page_offset a) + 8388608) mod 4096"
    by (simp add: l to_logical_def unat_word_ariths mod_mod_page) (metis mod_add_left_eq mod_mod_page)
  moreover have "(4096 * k + x mod 4096 + 8388608) mod 4096 = x mod 4096" for x k :: nat
  proof -
    have "4096 * k + x mod 4096 + 8388608 = x mod 4096 + 4096 * (k + 2048)" by simp
    then show ?thesis by (simp only: mod_mult_self2 mod_mod_trivial)
  qed
  ultimately show ?thesis using F(1) by (auto simp: page_offset_less elim!: dvdE)
qed


lemma load8_store8_same: "load8 (store8 m a v) a = v"
  by (simp add: load8_def store8_def)

lemma store16_as_store8: "store16 m a v = store8 (store8 m a (ucast v)) (a + 1) (ucast (drop_bit 8 v))"
  by (simp add: store16_def store8_def)

text \<open>A memory that agrees with the old one outside one page keeps a translation through other pages.\<close>

lemma lin_to_phys_frame:
  assumes "page_aligned pd"
    and "\<And>b. aligned4 b \<Longrightarrow> page_base b \<noteq> P \<Longrightarrow> load32 m b = load32 (mem s) b"
    and "P \<noteq> pd" and "P \<noteq> table_page s pd (page_dir_offset a)"
  shows "lin_to_phys (s\<lparr>mem := m\<rparr>) pd a = lin_to_phys s pd a"
proof -
  have e: "entry (s\<lparr>mem := m\<rparr>) q i = entry s q i" if "page_aligned q" "q \<noteq> P" "i < 1024" for q i
    using that assms(2)[of "q + 4 * i"] by (simp add: entry_def entry_addr_aligned entry_addr_page)
  have "get_pte (s\<lparr>mem := m\<rparr>) pd a = get_pte s pd a"
    using assms(1,3,4) by (simp add: get_pte_at pte_at_def table_page_def e)
  then show ?thesis by (simp add: lin_to_phys_def read_page_mapping_def)
qed

lemma put_pd_val_mapped:
  "lin_to_phys s pd a \<noteq> 0 \<Longrightarrow> put_pd_val pd sz v a s =
    (let p = to_logical (lin_to_phys s pd a) in
     if sz = 1 then s\<lparr>mem := store8 (mem s) p (ucast v)\<rparr>
     else if sz = 2 then s\<lparr>mem := store16 (mem s) p (ucast v)\<rparr>
     else if sz = 4 then s\<lparr>mem := store32 (mem s) p v\<rparr> else s)"
  by (simp add: put_pd_val_def Let_def)

lemma put_get_steps:
  assumes al: "page_aligned pd" and mapped: "lin_to_phys s pd a \<noteq> 0"
    and own: "page_base (to_logical (lin_to_phys s pd a)) \<noteq> pd"
      "page_base (to_logical (lin_to_phys s pd a)) \<noteq> table_page s pd (page_dir_offset a)"
  shows "get_pd_val (put_pd_val pd 1 v a s) pd 1 a = ucast (ucast v :: u8)"
    and "unat a mod 4096 \<noteq> 4095 \<Longrightarrow> get_pd_val (put_pd_val pd 2 v a s) pd 2 a = ucast (ucast v :: u16)"
proof -
  define p where "p = to_logical (lin_to_phys s pd a)"
  have o: "load32 (store8 m p w) b = load32 m b" if "aligned4 b" "page_base b \<noteq> page_base p" for m w b
    using that by (auto intro!: load32_store8_other)
  have "lin_to_phys (s\<lparr>mem := store8 (mem s) p (ucast v)\<rparr>) pd a = lin_to_phys s pd a"
    using al own o by (intro lin_to_phys_frame[where P = "page_base p"]) (auto simp: p_def)
  then show "get_pd_val (put_pd_val pd 1 v a s) pd 1 a = ucast (ucast v :: u8)"
    using mapped by (simp add: put_pd_val_mapped get_pd_val_def Let_def p_def load8_store8_same)
  assume "unat a mod 4096 \<noteq> 4095"
  then have pb: "page_base (p + 1) = page_base p"
    using lin_to_phys_offset[OF mapped] by (simp add: p_def page_base_succ)
  have "load32 (store16 m p w) b = load32 m b" if "aligned4 b" "page_base b \<noteq> page_base p" for m w b
    using that pb by (auto simp: store16_as_store8 load32_store8_other o)
  then have "lin_to_phys (s\<lparr>mem := store16 (mem s) p (ucast v)\<rparr>) pd a = lin_to_phys s pd a"
    using al own by (intro lin_to_phys_frame[where P = "page_base p"]) (auto simp: p_def)
  then show "get_pd_val (put_pd_val pd 2 v a s) pd 2 a = ucast (ucast v :: u16)"
    using mapped by (simp add: put_pd_val_mapped get_pd_val_def Let_def p_def load16_store16_same)
qed

declare check_area_loop.simps [simp del]

section \<open>Ranges\<close>

lemma check_area_loop_correct:
  "page_aligned addr \<Longrightarrow> 0 < extent \<Longrightarrow> unat addr + unat extent \<le> 4294967296 \<Longrightarrow>
    check_area_loop s pd addr extent \<longleftrightarrow>
      (\<forall>a. addr \<le> a \<and> unat a < unat addr + unat extent \<longrightarrow> present (get_pte s pd a))"
proof (induction s pd addr extent rule: check_area_loop.induct)
  case (1 s pd addr extent)
  have same: "get_pte s pd a = get_pte s pd addr"
    if "addr \<le> a" "unat a < unat addr + 4096" for a
  proof -
    obtain k where "unat addr = 4096 * k" using 1(2) by (auto simp: page_aligned_def)
    then have "unat a div 4096 = k" using that by (auto simp: word_le_nat_alt)
    then have "page_base a = page_base addr"
      using \<open>unat addr = 4096 * k\<close> by (simp add: word_unat_eq_iff unat_page_base)
    then show ?thesis using offsets_eq_iff[of a addr] by (simp add: get_pte_at)
  qed
  show ?case
  proof (cases "extent \<le> 4096")
    case True
    then have "present (get_pte s pd addr) \<longleftrightarrow> check_area_loop s pd addr extent" by (subst check_area_loop.simps) simp
    moreover have "present (get_pte s pd addr) \<longleftrightarrow>
        (\<forall>a. addr \<le> a \<and> unat a < unat addr + unat extent \<longrightarrow> present (get_pte s pd a))"
    proof -
      have "unat extent \<le> 4096" "0 < unat extent"
        using True 1(3) by (simp_all add: word_le_nat_alt word_less_nat_alt)
      then have "get_pte s pd a = get_pte s pd addr"
        if "addr \<le> a \<and> unat a < unat addr + unat extent" for a
        using that by (intro same) simp_all
      moreover have "unat addr < unat addr + unat extent" using \<open>0 < unat extent\<close> by simp
      ultimately show ?thesis by (metis order_refl)
    qed
    ultimately show ?thesis by blast
  next
    case False
    then have e: "unat (extent - 4096) = unat extent - 4096" "unat extent > 4096"
      by (simp_all add: unat_sub word_le_nat_alt)
    then have a: "unat (addr + 4096) = unat addr + 4096"
      using 1(4) by (subst unat_add_small) simp_all
    have split: "addr \<le> x \<and> unat x < unat addr + unat extent \<longleftrightarrow>
        addr \<le> x \<and> unat x < unat addr + 4096
        \<or> addr + 4096 \<le> x \<and> unat x < unat (addr + 4096) + unat (extent - 4096)" for x
      using e a by (auto simp: word_le_nat_alt)
    have "page_aligned (addr + 4096)" using 1(2) a by (simp add: page_aligned_def)
    moreover have "0 < extent - 4096" using e by (simp add: word_less_nat_alt)
    moreover have "unat (addr + 4096) + unat (extent - 4096) \<le> 4294967296" using e a 1(4) by simp
    ultimately have IH: "present (get_pte s pd addr) \<Longrightarrow> check_area_loop s pd (addr + 4096) (extent - 4096) \<longleftrightarrow>
      (\<forall>x. addr + 4096 \<le> x \<and> unat x < unat (addr + 4096) + unat (extent - 4096)
        \<longrightarrow> present (get_pte s pd x))"
      using 1(1) False by blast
    have "check_area_loop s pd addr extent \<longleftrightarrow>
        present (get_pte s pd addr) \<and> check_area_loop s pd (addr + 4096) (extent - 4096)"
      using False by (subst check_area_loop.simps) simp
    also have "\<dots> \<longleftrightarrow> (\<forall>a. addr \<le> a \<and> unat a < unat addr + 4096 \<longrightarrow> present (get_pte s pd a))
      \<and> (\<forall>x. addr + 4096 \<le> x \<and> unat x < unat (addr + 4096) + unat (extent - 4096)
        \<longrightarrow> present (get_pte s pd x))"
      using IH same by (metis le_add_same_cancel1 less_add_same_cancel1 order_refl zero_less_numeral)
    finally show ?thesis using split by blast
  qed
qed

text \<open>
  a byte or a word stored at a mapped address with put_pd_val is what get_pd_val reads there,
  provided the frame is neither the directory nor the page table that translates the address and
  a word does not straddle two pages; a long read always gives 0, the switch of get_pd_val has no
  case for size 4, whatever put_pd_val stored.
\<close>

theorem put_get_pd_val:
  assumes "page_aligned pd" and "lin_to_phys s pd a \<noteq> 0"
    and "page_base (to_logical (lin_to_phys s pd a)) \<noteq> pd"
    and "page_base (to_logical (lin_to_phys s pd a)) \<noteq> table_page s pd (page_dir_offset a)"
    and "unat a mod 4096 \<noteq> 4095"
  shows "get_pd_val (put_pd_val pd 1 v a s) pd 1 a = ucast (ucast v :: u8)
    \<and> get_pd_val (put_pd_val pd 2 v a s) pd 2 a = ucast (ucast v :: u16)
    \<and> load32 (mem (put_pd_val pd 4 v a s)) (to_logical (lin_to_phys s pd a)) = v
    \<and> get_pd_val (put_pd_val pd 4 v a s) pd 4 a = 0"
  using put_get_steps[OF assms(1-4)] assms(2,5)
  by (simp add: put_pd_val_mapped Let_def load32_store32_same) (simp add: get_pd_val_def Let_def)

definition mapped_space :: pmem where
  "mapped_space = \<lparr>mem = store32 (store32 (\<lambda>_. 0) 0x801000 0x2007) 0x802004 0x3007,
     page_free_list = 0, used_pages = 0, available_pages = 0,
     logical_kernel_pd = 0, kernel_brk = 0\<rparr>"

lemma mapped_space_entries:
  "entry mapped_space 0x801000 0 = 0x2007" "entry mapped_space 0x802000 1 = 0x3007"
  by (simp_all add: entry_def mapped_space_def load32_def store32_def)

lemma mapped_space_lin: "lin_to_phys mapped_space 0x801000 0x1234 = 0x3234"
  by (simp add: lin_to_phys_def read_page_mapping_def get_pte_def page_dir_offset_def
      page_table_offset_def mapped_space_entries pte_get_addr_def to_logical_def page_offset_def)

theorem put_get_pd_val_witness:
  "get_pd_val (put_pd_val 0x801000 2 0xabcdef 0x1234 mapped_space) 0x801000 2 0x1234 = 0xcdef"
  using put_get_pd_val[of "0x801000" mapped_space "0x1234" "0xabcdef"]
  by (simp add: mapped_space_lin page_aligned_def to_logical_def page_base_def table_page_def
      page_dir_offset_def mapped_space_entries pte_get_addr_def)

text \<open>
  check_area returns true exactly if every address of the (non-empty, non-wrapping) range
  lies in a present page.
\<close>

theorem check_area_correct:
  assumes "0 < extent" and "unat start + unat extent < 4294967296"
  shows "check_area s pd start extent \<longleftrightarrow>
    (\<forall>a. start \<le> a \<and> unat a < unat start + unat extent \<longrightarrow> present (get_pte s pd a))"
proof -
  define addr where "addr = page_base start"
  define d where "d = start - addr"
  have ua: "unat addr = 4096 * (unat start div 4096)" by (simp add: addr_def unat_page_base)
  then have le: "addr \<le> start" by (simp add: word_le_nat_alt)
  then have ud: "unat d = unat start mod 4096"
    by (simp add: d_def unat_sub ua minus_mult_div_eq_mod)
  have sum: "unat addr + unat d = unat start" by (simp add: ua ud)
  have ue: "unat (extent + d) = unat extent + unat d"
    using assms(2) sum by (intro unat_add_small) linarith
  have same: "get_pte s pd a = get_pte s pd start" if "addr \<le> a" "a < start" for a
  proof -
    have "unat a div 4096 = unat start div 4096"
      using that ua by (simp add: word_le_nat_alt word_less_nat_alt)
    then have "page_base a = page_base start" by (simp add: word_unat_eq_iff unat_page_base)
    then show ?thesis using offsets_eq_iff[of a start] by (simp add: get_pte_at)
  qed
  have "check_area s pd start extent \<longleftrightarrow> check_area_loop s pd addr (extent + d)"
    by (simp add: check_area_def addr_def page_base_def d_def Let_def)
  also have "\<dots> \<longleftrightarrow>
      (\<forall>a. addr \<le> a \<and> unat a < unat start + unat extent \<longrightarrow> present (get_pte s pd a))"
  proof -
    have "unat addr + unat (extent + d) = unat start + unat extent" using ue sum by simp
    moreover have "0 < unat (extent + d)" using ue assms(1) by (simp add: word_less_nat_alt)
    then have "0 < extent + d" by (simp add: word_less_nat_alt)
    ultimately show ?thesis
      using check_area_loop_correct[of addr "extent + d" s pd] assms(2) by (simp add: addr_def)
  qed
  also have "\<dots> \<longleftrightarrow>
      (\<forall>a. start \<le> a \<and> unat a < unat start + unat extent \<longrightarrow> present (get_pte s pd a))"
    (is "?L \<longleftrightarrow> ?R")
  proof
    assume ?L
    then show ?R using le by (auto intro: order_trans)
  next
    assume R: ?R
    have "0 < unat extent" using assms(1) by (simp add: word_less_nat_alt)
    then have st: "present (get_pte s pd start)" using R by auto
    show ?L
    proof (intro allI impI)
      fix a assume a: "addr \<le> a \<and> unat a < unat start + unat extent"
      show "present (get_pte s pd a)"
      proof (cases "start \<le> a")
        case True
        then show ?thesis using R a by blast
      next
        case False
        then have "get_pte s pd a = get_pte s pd start" using a by (intro same) auto
        then show ?thesis using st by simp
      qed
    qed
  qed
  finally show ?thesis .
qed

theorem check_area_correct_witness:
  "\<not> check_area mapped_space 0x801000 0x1ff0 0x20"
proof -
  have "entry mapped_space 0x802000 2 = 0"
    by (simp add: entry_def mapped_space_def load32_def store32_def)
  then have "get_pte mapped_space 0x801000 0x2000 = 0"
    by (simp add: get_pte_def page_dir_offset_def page_table_offset_def mapped_space_entries
        pte_get_addr_def to_logical_def)
  then have "\<exists>a. 0x1ff0 \<le> a \<and> unat a < 0x2010 \<and> \<not> present (get_pte mapped_space 0x801000 a)"
    by (intro exI[of _ "0x2000"]) simp
  then show ?thesis using check_area_correct[of "0x20" "0x1ff0" mapped_space "0x801000"] by auto
qed

end
