(* ===== verification/NodeLists.thy ===== *)
theory NodeLists
  imports Prelude
begin

text \<open>
  The doubly-linked lists of vmm/lists.h in an explicit store of pointer words: a node at \<open>n\<close>
  has its \<open>succ\<close> field at \<open>n\<close> and its \<open>pred\<close> field at \<open>n + 4\<close>; a list at \<open>l\<close> has \<open>head\<close> at
  \<open>l\<close>, \<open>tail\<close> (always NULL) at \<open>l + 4\<close> and \<open>tailpred\<close> at \<open>l + 8\<close>, so that \<open>l\<close> and \<open>l + 4\<close>
  are themselves the nodes before the first and after the last one.  \<open>list_at\<close> relates the
  store to a HOL list and every operation is shown to implement its list counterpart.
\<close>

section \<open>The store and the operations\<close>

type_synonym ptrs = "u32 \<Rightarrow> u32"

definition init_list :: "u32 \<Rightarrow> ptrs \<Rightarrow> ptrs" where
  "init_list l h = h(l + 8 := l, l + 4 := 0, l := l + 4)"

definition append_node :: "u32 \<Rightarrow> u32 \<Rightarrow> ptrs \<Rightarrow> ptrs" where
  "append_node l n h =
     (let tmp = l + 4; tmp2 = h (tmp + 4)
      in h(tmp + 4 := n, n := tmp, n + 4 := tmp2, tmp2 := n))"

definition prepend_node :: "u32 \<Rightarrow> u32 \<Rightarrow> ptrs \<Rightarrow> ptrs" where
  "prepend_node l n h =
     (let tmp = h l in h(l := n, n := tmp, n + 4 := l, tmp + 4 := n))"

definition insert_node :: "u32 \<Rightarrow> u32 \<Rightarrow> u32 \<Rightarrow> ptrs \<Rightarrow> ptrs" where
  "insert_node l n prev h =
     (let tmp = h prev in
      if tmp \<noteq> 0 then h(n := tmp, n + 4 := prev, tmp + 4 := n, prev := n)
      else (let h1 = h(n := prev); tmp' = h1 (prev + 4)
            in h1(n + 4 := tmp', prev + 4 := n, tmp' := n)))"

definition remove_node :: "u32 \<Rightarrow> ptrs \<Rightarrow> ptrs" where
  "remove_node n h =
     (let tmp = h n; node = h (n + 4) in h(node := tmp, tmp + 4 := node))"

definition list_empty_p :: "u32 \<Rightarrow> ptrs \<Rightarrow> bool" where
  "list_empty_p l h \<longleftrightarrow> h (l + 8) = l"

section \<open>What a list contains\<close>

text \<open>\<open>dll h a xs b\<close>: following \<open>succ\<close> from \<open>a\<close> visits \<open>xs\<close> and then \<open>b\<close>, with matching \<open>pred\<close>s.\<close>

primrec dll :: "ptrs \<Rightarrow> u32 \<Rightarrow> u32 list \<Rightarrow> u32 \<Rightarrow> bool" where
  "dll h a [] b \<longleftrightarrow> h a = b \<and> h (b + 4) = a"
| "dll h a (x # xs) b \<longleftrightarrow> h a = x \<and> h (x + 4) = a \<and> dll h x xs b"

definition node_cells :: "u32 list \<Rightarrow> u32 set" where
  "node_cells xs = set xs \<union> (\<lambda>x. x + 4) ` set xs"

definition list_cells :: "u32 \<Rightarrow> u32 set" where
  "list_cells l = {l, l + 4, l + 8}"

text \<open>The nodes of \<open>xs\<close> do not overlap one another or the list header, and none is NULL.\<close>

definition disjoint_nodes :: "u32 list \<Rightarrow> bool" where
  "disjoint_nodes xs \<longleftrightarrow> distinct xs \<and> 0 \<notin> set xs \<and> (\<forall>x\<in>set xs. x + 4 \<notin> set xs)"

definition list_at :: "ptrs \<Rightarrow> u32 \<Rightarrow> u32 list \<Rightarrow> bool" where
  "list_at h l xs \<longleftrightarrow> dll h l xs (l + 4) \<and> h (l + 4) = 0 \<and> l + 4 \<noteq> 0 \<and> disjoint_nodes xs
     \<and> list_cells l \<inter> node_cells xs = {}"

definition fresh_node :: "u32 \<Rightarrow> u32 \<Rightarrow> u32 list \<Rightarrow> bool" where
  "fresh_node n l xs \<longleftrightarrow> n \<noteq> 0 \<and> {n, n + 4} \<inter> (list_cells l \<union> node_cells xs) = {}"

lemma dll_append: "dll h a (xs @ y # ys) b \<longleftrightarrow> dll h a xs y \<and> dll h y ys b"
  by (induction xs arbitrary: a) auto

lemma dll_upd:
  "c \<noteq> a \<Longrightarrow> c \<noteq> b + 4 \<Longrightarrow> c \<notin> node_cells xs \<Longrightarrow> dll (h(c := v)) a xs b = dll h a xs b"
  by (induction xs arbitrary: a) (auto simp: node_cells_def)

lemma dll_last: "dll h a xs b \<Longrightarrow> h (b + 4) = last (a # xs) \<and> h (last (a # xs)) = b"
  by (induction xs arbitrary: a) auto

lemma dll_first: "dll h a xs b \<Longrightarrow> h a = hd (xs @ [b])"
  by (cases xs) auto

lemma word_add4_neq [simp]: "(x::u32) + 4 \<noteq> x" "x \<noteq> x + 4" "x + 8 \<noteq> x + 4" "x + 4 \<noteq> x + 8" "x + 8 \<noteq> x" "x \<noteq> x + 8"
  by auto

lemma node_cells_simps [simp]:
  "node_cells [] = {}" "node_cells (x # xs) = {x, x + 4} \<union> node_cells xs"
  "node_cells (xs @ ys) = node_cells xs \<union> node_cells ys"
  by (auto simp: node_cells_def)

lemma disjoint_nodes_Cons:
  "disjoint_nodes (x # xs) \<longleftrightarrow> x \<noteq> 0 \<and> {x, x + 4} \<inter> node_cells xs = {} \<and> disjoint_nodes xs"
  by (auto simp: disjoint_nodes_def node_cells_def)

text \<open>The cells a chain from \<open>a\<close> to \<open>b\<close> uses are pairwise different.\<close>

definition chain_sep :: "u32 \<Rightarrow> u32 list \<Rightarrow> u32 \<Rightarrow> bool" where
  "chain_sep a xs b \<longleftrightarrow> distinct (a # xs) \<and> distinct (xs @ [b])
     \<and> (\<forall>u\<in>set (a # xs). \<forall>v\<in>set (xs @ [b]). u \<noteq> v + 4)"

lemma list_at_sep: "list_at h l xs \<Longrightarrow> chain_sep l xs (l + 4)"
  unfolding list_at_def chain_sep_def disjoint_nodes_def list_cells_def node_cells_def
  by (force simp: add.assoc)

lemma dll_cong:
  "(\<And>c. c = a \<or> c \<in> set xs \<or> c \<in> (\<lambda>x. x + 4) ` set (xs @ [b]) \<Longrightarrow> h' c = h c) \<Longrightarrow>
     dll h' a xs b = dll h a xs b"
  by (induction xs arbitrary: a) auto

text \<open>Linking \<open>n\<close> in between \<open>xs\<close> and \<open>ys\<close> in one go, and unlinking it.\<close>

lemma chain_sep_ends:
  assumes "chain_sep a (x # xs @ zs) b" and "set ys \<subseteq> set zs"
  shows "a \<noteq> last (x # xs)" "a \<noteq> hd (ys @ [b]) + 4" "x + 4 \<noteq> last (x # xs)" "x \<noteq> hd (ys @ [b])"
proof -
  have "last (x # xs) \<in> set (x # xs)" by (rule last_in_set) simp
  moreover have "hd (ys @ [b]) \<in> set (ys @ [b])" by (rule hd_in_set) simp
  moreover define p f where "p = last (x # xs)" and "f = hd (ys @ [b])"
  ultimately have "p \<in> set (x # xs)" "f \<in> set (zs @ [b])" using assms(2) by auto
  then show "a \<noteq> last (x # xs)" "a \<noteq> hd (ys @ [b]) + 4" "x + 4 \<noteq> last (x # xs)" "x \<noteq> hd (ys @ [b])"
    using assms(1) unfolding chain_sep_def p_def[symmetric] f_def[symmetric] by auto
qed

lemma dll_link:
  assumes "dll h a (xs @ ys) b" "chain_sep a (xs @ ys) b"
    and "n \<notin> set (a # xs @ ys)" "n + 4 \<notin> set (a # xs @ ys)"
      "\<forall>v\<in>set (xs @ ys @ [b]). v \<noteq> n \<and> v + 4 \<noteq> n"
    and "h' n = hd (ys @ [b])" "h' (n + 4) = last (a # xs)"
      "h' (hd (ys @ [b]) + 4) = n" "h' (last (a # xs)) = n"
    and "\<And>c. c \<notin> {n, n + 4, hd (ys @ [b]) + 4, last (a # xs)} \<Longrightarrow> h' c = h c"
  shows "dll h' a (xs @ n # ys) b"
  using assms
proof (induction xs arbitrary: a)
  case Nil
  have "dll h' n ys b"
  proof (cases ys)
    case Nil
    then show ?thesis using Nil.prems by simp
  next
    case (Cons y zs)
    have "dll h' y zs b = dll h y zs b"
      using Nil.prems(2-5) Cons by (intro dll_cong Nil.prems(10)) (auto simp: chain_sep_def)
    then show ?thesis using Nil.prems Cons by simp
  qed
  then show ?case using Nil.prems by simp
next
  case (Cons x xs)
  have "chain_sep x (xs @ ys) b" using Cons.prems(2) by (auto simp: chain_sep_def)
  then have "dll h' x (xs @ n # ys) b"
    using Cons.prems by (intro Cons.IH) auto
  moreover note neq = chain_sep_ends[OF Cons.prems(2)[simplified append_Cons] order_refl]
  have "h' a = h a"
    using Cons.prems(3-5) neq by (intro Cons.prems(10)) auto
  moreover have "h' (x + 4) = h (x + 4)"
    using Cons.prems(3-5) neq by (intro Cons.prems(10)) auto
  ultimately show ?case using Cons.prems(1) by simp
qed

lemma dll_unlink:
  assumes "dll h a (xs @ n # ys) b" "chain_sep a (xs @ n # ys) b"
    and "h' (last (a # xs)) = hd (ys @ [b])" "h' (hd (ys @ [b]) + 4) = last (a # xs)"
    and "\<And>c. c \<notin> {hd (ys @ [b]) + 4, last (a # xs)} \<Longrightarrow> h' c = h c"
  shows "dll h' a (xs @ ys) b"
  using assms
proof (induction xs arbitrary: a)
  case Nil
  show ?case
  proof (cases ys)
    case Nil
    then show ?thesis using Nil.prems by simp
  next
    case (Cons y zs)
    have "dll h' y zs b = dll h y zs b"
      using Nil.prems(2) Cons by (intro dll_cong Nil.prems(5)) (auto simp: chain_sep_def)
    then show ?thesis using Nil.prems Cons by simp
  qed
next
  case (Cons x xs)
  have "chain_sep x (xs @ n # ys) b" using Cons.prems(2) by (auto simp: chain_sep_def)
  then have "dll h' x (xs @ ys) b"
    using Cons.prems by (intro Cons.IH) auto
  moreover have "set ys \<subseteq> set (n # ys)" by auto
  note neq = chain_sep_ends[OF Cons.prems(2)[simplified append_Cons] this]
  have "h' a = h a"
    using neq by (intro Cons.prems(5)) auto
  moreover have "h' (x + 4) = h (x + 4)"
    using neq by (intro Cons.prems(5)) auto
  ultimately show ?case using Cons.prems(1) by simp
qed

section \<open>The operations implement their list counterparts\<close>

lemma fresh_node_chain:
  assumes "list_at h l xs" "fresh_node n l xs"
  shows "n \<notin> set (l # xs)" "n + 4 \<notin> set (l # xs)"
    "\<forall>v\<in>set (xs @ [l + 4]). v \<noteq> n \<and> v + 4 \<noteq> n"
    "n \<notin> list_cells l" "n + 4 \<notin> list_cells l" "n \<noteq> 0"
  using assms by (auto simp: fresh_node_def list_cells_def node_cells_def add.assoc)

lemma fresh_node_disjoint:
  "list_at h l (xs @ ys) \<Longrightarrow> fresh_node n l (xs @ ys) \<Longrightarrow>
    disjoint_nodes (xs @ n # ys) \<and> list_cells l \<inter> node_cells (xs @ n # ys) = {}"
  unfolding list_at_def fresh_node_def disjoint_nodes_def node_cells_def
  by (auto simp: Int_Un_distrib)

lemma list_at_link:
  assumes l: "list_at h l (xs @ ys)" and f: "fresh_node n l (xs @ ys)"
    and w: "h' n = hd (ys @ [l + 4])" "h' (n + 4) = last (l # xs)"
      "h' (hd (ys @ [l + 4]) + 4) = n" "h' (last (l # xs)) = n"
    and o: "\<And>c. c \<notin> {n, n + 4, hd (ys @ [l + 4]) + 4, last (l # xs)} \<Longrightarrow> h' c = h c"
  shows "list_at h' l (xs @ n # ys)"
proof -
  note F = fresh_node_chain[OF l f]
  have "dll h' l (xs @ n # ys) (l + 4)"
    using l F w o list_at_sep[OF l]
    by (intro dll_link[where h = h]) (auto simp: list_at_def)
  moreover have "h' (l + 4) = 0"
  proof -
    have "last (l # xs) \<in> set (l # xs)" by (rule last_in_set) simp
    moreover have "hd (ys @ [l + 4]) \<in> set (ys @ [l + 4])" by (rule hd_in_set) simp
    ultimately have "l + 4 \<noteq> last (l # xs)" "l + 4 \<noteq> hd (ys @ [l + 4]) + 4"
      using list_at_sep[OF l] l unfolding chain_sep_def list_at_def list_cells_def node_cells_def
      by auto
    then have "h' (l + 4) = h (l + 4)"
      using F(4,5) by (intro o) (auto simp: list_cells_def)
    then show ?thesis using l by (simp add: list_at_def)
  qed
  ultimately show ?thesis
    using l fresh_node_disjoint[OF l f] by (simp add: list_at_def)
qed

lemma dll_at:
  "dll h a (xs @ ys) b \<Longrightarrow>
     h (last (a # xs)) = hd (ys @ [b]) \<and> h (hd (ys @ [b]) + 4) = last (a # xs)"
  by (induction xs arbitrary: a) (auto, (cases ys; simp)+)

lemma list_at_neighbours:
  assumes "list_at h l (xs @ ys)" "fresh_node n l (xs @ ys)"
  defines "p \<equiv> last (l # xs)" and "f \<equiv> hd (ys @ [l + 4])"
  shows "h p = f" "h (f + 4) = p" "f \<noteq> 0" "n \<noteq> p" "n + 4 \<noteq> p" "n \<noteq> f + 4" "n \<noteq> f" "p \<noteq> f + 4"
proof -
  show "h p = f" "h (f + 4) = p"
    using dll_at[of h l xs ys "l + 4"] assms(1) by (simp_all add: list_at_def p_def f_def)
  have p: "p \<in> set (l # xs)" unfolding p_def by (rule last_in_set) simp
  have f: "f \<in> set (ys @ [l + 4])" unfolding f_def by (rule hd_in_set) simp
  show "f \<noteq> 0" using f assms(1) by (auto simp: list_at_def disjoint_nodes_def)
  show "n \<noteq> p" "n + 4 \<noteq> p" "n \<noteq> f + 4" "n \<noteq> f"
    using fresh_node_chain[OF assms(1,2)] p f by auto
  show "p \<noteq> f + 4" using list_at_sep[OF assms(1)] p f by (auto simp: chain_sep_def)
qed

text \<open>All three insertions write the same four cells, in different orders.\<close>

lemma list_at_link_upd:
  assumes "list_at h l (xs @ ys)" "fresh_node n l (xs @ ys)"
    and pf: "p = last (l # xs)" "f = hd (ys @ [l + 4])"
    and h': "h' n = f" "h' (n + 4) = p" "h' (f + 4) = n" "h' p = n"
      "\<And>c. c \<notin> {n, n + 4, f + 4, p} \<Longrightarrow> h' c = h c"
  shows "list_at h' l (xs @ n # ys)"
  using h' unfolding pf by (intro list_at_link[OF assms(1,2)])

lemma list_at_append_upd:
  assumes "list_at h l xs" "fresh_node n l xs" "p = last (l # xs)"
    "h' n = l + 4" "h' (n + 4) = p" "h' (l + 4 + 4) = n" "h' p = n"
    "\<And>c. c \<notin> {n, n + 4, l + 4 + 4, p} \<Longrightarrow> h' c = h c"
  shows "list_at h' l (xs @ [n])"
  using list_at_link_upd[of h l xs "[]" n p "l + 4" h'] assms by simp

lemma list_at_prepend_upd:
  assumes "list_at h l xs" "fresh_node n l xs" "f = hd (xs @ [l + 4])"
    "h' n = f" "h' (n + 4) = l" "h' (f + 4) = n" "h' l = n"
    "\<And>c. c \<notin> {n, n + 4, f + 4, l} \<Longrightarrow> h' c = h c"
  shows "list_at h' l (n # xs)"
  using list_at_link_upd[of h l "[]" xs n l f h'] assms by simp

lemma insert_node_refines:
  assumes "list_at h l (xs @ ys)" "fresh_node n l (xs @ ys)"
  shows "list_at (insert_node l n (last (l # xs)) h) l (xs @ n # ys)"
proof -
  obtain p f where pf: "p = last (l # xs)" "f = hd (ys @ [l + 4])" by blast
  note N = list_at_neighbours[OF assms, folded pf]
  have "insert_node l n p h = h(n := f, n + 4 := p, f + 4 := n, p := n)"
    using N by (simp add: insert_node_def Let_def)
  then show ?thesis unfolding pf(1)[symmetric]
    using N by (intro list_at_link_upd[OF assms pf]) simp_all
qed

lemma append_node_refines:
  assumes "list_at h l xs" "fresh_node n l xs"
  shows "list_at (append_node l n h) l (xs @ [n])"
proof -
  obtain p where p: "p = last (l # xs)" by blast
  note N = list_at_neighbours[of h l xs "[]" n, simplified append_Nil append_Nil2 list.sel,
      OF assms, folded p]
  have n8: "n + 4 \<noteq> l + 4 + 4" using N(7) by (metis add_right_cancel)
  have "append_node l n h = h(l + 4 + 4 := n, n := l + 4, n + 4 := p, p := n)"
    using N by (simp add: append_node_def Let_def)
  then show ?thesis
    using N n8 by (intro list_at_append_upd[OF assms p]) simp_all
qed

lemma prepend_node_refines:
  assumes "list_at h l xs" "fresh_node n l xs"
  shows "list_at (prepend_node l n h) l (n # xs)"
proof -
  obtain f where f: "f = hd (xs @ [l + 4])" by blast
  note N = list_at_neighbours[of h l "[]" xs n, simplified append_Nil last.simps if_True,
      OF assms, folded f]
  have "prepend_node l n h = h(l := n, n := f, n + 4 := l, f + 4 := n)"
    using N by (simp add: prepend_node_def Let_def)
  then show ?thesis
    using N by (intro list_at_prepend_upd[OF assms f]) simp_all
qed

text \<open>Given the NULL at the end of a list as the node to insert after, the node becomes the last.\<close>

lemma insert_node_at_end:
  assumes "list_at h l xs" "fresh_node n l xs"
  shows "list_at (insert_node l n (l + 4) h) l (xs @ [n])"
proof -
  obtain p where p: "p = last (l # xs)" by blast
  note N = list_at_neighbours[of h l xs "[]" n, simplified append_Nil append_Nil2 list.sel,
      OF assms, folded p]
  have n8: "n + 4 \<noteq> l + 4 + 4" using N(7) by (metis add_right_cancel)
  have "h (l + 4) = 0" using assms(1) by (simp add: list_at_def)
  then have "insert_node l n (l + 4) h = h(n := l + 4, n + 4 := p, l + 4 + 4 := n, p := n)"
    using N fresh_node_chain[OF assms] by (simp add: insert_node_def Let_def)
  then show ?thesis
    using N n8 by (intro list_at_append_upd[OF assms p]) simp_all
qed

lemma remove_node_refines:
  assumes l: "list_at h l (xs @ n # ys)"
  shows "list_at (remove_node n h) l (xs @ ys)"
proof -
  define p f where "p = last (l # xs)" and "f = hd (ys @ [l + 4])"
  have d: "dll h l (xs @ n # ys) (l + 4)" using l by (simp add: list_at_def)
  have n: "h n = f" "h (n + 4) = p"
    using dll_at[OF d] dll_at[of h l "xs @ [n]" ys "l + 4"] d by (simp_all add: p_def f_def)
  then have r: "remove_node n h = h(p := f, f + 4 := p)"
    by (simp add: remove_node_def Let_def)
  have p: "p \<in> set (l # xs)" unfolding p_def by (rule last_in_set) simp
  have f: "f \<in> set (ys @ [l + 4])" unfolding f_def by (rule hd_in_set) simp
  have "p \<noteq> f + 4" using list_at_sep[OF l] p f unfolding chain_sep_def by auto
  moreover have "{l, l + 4} \<inter> set (xs @ ys) = {}"
    using l unfolding list_at_def list_cells_def node_cells_def[of "xs @ n # ys"] by auto
  then have "p \<noteq> l + 4" "f \<noteq> l" using p f by auto
  ultimately have pf: "p \<noteq> f + 4" "p \<noteq> l + 4" "f \<noteq> l" by blast+
  have "dll (remove_node n h) l (xs @ ys) (l + 4)"
    unfolding r
    by (rule dll_unlink[OF d list_at_sep[OF l], folded p_def f_def]) (use pf in simp_all)
  moreover have "remove_node n h (l + 4) = 0"
    unfolding r using l pf by (auto simp: list_at_def)
  ultimately show ?thesis
    using l by (auto simp: list_at_def disjoint_nodes_def)
qed

lemma init_list_refines: "l + 4 \<noteq> 0 \<Longrightarrow> list_at (init_list l h) l []"
  by (simp add: list_at_def init_list_def disjoint_nodes_def add.assoc)

lemma list_empty_refines: "list_at h l xs \<Longrightarrow> list_empty_p l h \<longleftrightarrow> xs = []"
proof -
  assume l: "list_at h l xs"
  then have "h (l + 8) = last (l # xs)"
    using dll_last[of h l xs "l + 4"] by (simp add: list_at_def add.assoc)
  moreover have "xs \<noteq> [] \<Longrightarrow> last xs \<noteq> l"
    using list_at_sep[OF l] last_in_set[of xs] by (auto simp: chain_sep_def)
  ultimately show ?thesis by (auto simp: list_empty_p_def)
qed

end
