(* ===== verification/Sched.thy ===== *)
theory Sched
  imports PageTable NodeLists
begin

text \<open>
  Tasks and the scheduler: kernel/tasks/sched.c, \<open>reclaim_task\<close> and the task array of
  kernel/tasks/task.c, the semaphores of vmm/tasks.h.  A task is named by its index in
  \<open>TaskArray\<close>.  The three task lists are HOL lists of task indices; that the pointer lists of
  vmm/lists.h behave like this is \<open>NodeLists\<close> and, for the scheduler's own traversal,
  \<open>SchedProps.enqueue_ptr_refines\<close>.  Masking interrupts around each operation makes it atomic,
  which it is here by construction; \<open>switch_to_task\<close> is the assignment of \<open>current_task\<close>.
\<close>

unbundle bit_operations_syntax

section \<open>State\<close>

text \<open>The one function the kernel ever puts into a task's \<open>return_hook\<close>.\<close>

datatype hook_fn = vpic_return_hook_fn

record task =
  return_hook :: "hook_fn option"
  tss_sel :: u16
  t_pid :: u32
  t_ppid :: u32
  t_page_dir :: u32
  t_stack0 :: u32
  t_stack :: u32
  t_flags :: u32
  t_pri :: int
  cpu_time :: u32
  last_sched :: u32
  quantum :: u32
  time_left :: int
  sched_count :: u32
  forbid_count :: int

type_synonym tid = nat

record sched = pmem +
  tasks :: "tid \<Rightarrow> task"
  current_task :: tid
  running_tasks :: "tid list"
  suspended_tasks :: "tid list"
  zombie_tasks :: "tid list"
  zombies :: nat
  need_resched :: bool
  intr_nest_count :: int
  timer_ticks :: u32
  GDT :: "nat \<Rightarrow> u32 \<times> u32"
  TaskCount :: int

abbreviation TASK_RUNNING :: u32 where "TASK_RUNNING \<equiv> 1"
abbreviation TASK_FROZEN :: u32 where "TASK_FROZEN \<equiv> 2"
abbreviation TASK_ZOMBIE :: u32 where "TASK_ZOMBIE \<equiv> 4"
abbreviation TASK_IMMORTAL :: u32 where "TASK_IMMORTAL \<equiv> 8"
abbreviation TASK_VM :: u32 where "TASK_VM \<equiv> 16"

definition upd_task :: "tid \<Rightarrow> (task \<Rightarrow> task) \<Rightarrow> 'a sched_scheme \<Rightarrow> 'a sched_scheme" where
  "upd_task t f s = s\<lparr>tasks := (tasks s)(t := f (tasks s t))\<rparr>"

abbreviation task_running :: "'a sched_scheme \<Rightarrow> tid \<Rightarrow> bool" where
  "task_running s t \<equiv> test_mask (t_flags (tasks s t)) TASK_RUNNING"

section \<open>Queues\<close>

text \<open>
  The place \<open>enqueue_task\<close> walks to, for any list of nodes with a priority and a time-left
  value: the same function serves task indices here and node addresses in \<open>SchedProps\<close>.
\<close>

definition enqueue_place ::
    "('n \<Rightarrow> int) \<Rightarrow> ('n \<Rightarrow> int) \<Rightarrow> int \<Rightarrow> int \<Rightarrow> 'n \<Rightarrow> 'n list \<Rightarrow> 'n list" where
  "enqueue_place pri left tpri tleft t xs =
     (if tleft \<le> 0
      then takeWhile (\<lambda>x. pri x \<ge> tpri) xs @ t # dropWhile (\<lambda>x. pri x \<ge> tpri) xs
      else (let above = takeWhile (\<lambda>x. pri x > tpri) xs;
                rest = dropWhile (\<lambda>x. pri x > tpri) xs;
                band = takeWhile (\<lambda>x. pri x = tpri \<and> left x > 0) rest
            in above @ band @ t # drop (length band) rest))"

definition enqueue_task :: "tid \<Rightarrow> 'a sched_scheme \<Rightarrow> 'a sched_scheme" where
  "enqueue_task t s =
     s\<lparr>running_tasks := enqueue_place (\<lambda>x. t_pri (tasks s x)) (\<lambda>x. time_left (tasks s x))
          (t_pri (tasks s t)) (time_left (tasks s t)) t (running_tasks s)\<rparr>"

text \<open>\<open>remove_node (&task->node)\<close>: the task leaves whichever list it is in.\<close>

definition unlink_task :: "tid \<Rightarrow> 'a sched_scheme \<Rightarrow> 'a sched_scheme" where
  "unlink_task t s =
     s\<lparr>running_tasks := removeAll t (running_tasks s),
       suspended_tasks := removeAll t (suspended_tasks s),
       zombie_tasks := removeAll t (zombie_tasks s)\<rparr>"

section \<open>Reclaiming dead tasks\<close>

definition free_page_if :: "u32 \<Rightarrow> 'a pmem_scheme \<Rightarrow> 'a pmem_scheme" where
  "free_page_if p s = (if p \<noteq> 0 then free_page p s else s)"

definition reclaim_task :: "tid \<Rightarrow> 'a sched_scheme \<Rightarrow> 'a sched_scheme" where
  "reclaim_task t s =
     (let tk = tasks s t;
          s1 = s\<lparr>GDT := (GDT s)(unat (tss_sel tk div 8) := (0, 0))\<rparr>;
          s2 = free_page_if (t_stack tk) (free_page_if (t_stack0 tk) s1);
          s3 = (if t_page_dir tk \<noteq> 0 then delete_page_dir (t_page_dir tk) s2 else s2);
          s4 = upd_task t (\<lambda>tk. tk\<lparr>t_pid := 0\<rparr>) s3
      in s4\<lparr>TaskCount := TaskCount s4 - 1\<rparr>)"

text \<open>The loop \<open>while(zombies)\<close> of \<open>schedule\<close>; the zombie list has \<open>zombies\<close> elements.\<close>

primrec reclaim_zombies :: "nat \<Rightarrow> 'a sched_scheme \<Rightarrow> 'a sched_scheme" where
  "reclaim_zombies 0 s = s"
| "reclaim_zombies (Suc n) s =
     (let z = hd (zombie_tasks s);
          s1 = reclaim_task z (unlink_task z s)
      in reclaim_zombies n (s1\<lparr>zombies := n\<rparr>))"

section \<open>The scheduler\<close>

text \<open>The switch to \<open>next\<close>, with its bookkeeping.\<close>

definition switch_task :: "tid \<Rightarrow> 'a sched_scheme \<Rightarrow> 'a sched_scheme" where
  "switch_task nxt s =
     (let cur = current_task s;
          s1 = upd_task cur (\<lambda>t. t\<lparr>cpu_time := cpu_time t + (timer_ticks s - last_sched t)\<rparr>) s;
          s2 = (if test_mask (t_flags (tasks s1 cur)) TASK_ZOMBIE
                then s1\<lparr>zombie_tasks := zombie_tasks s1 @ [cur], zombies := zombies s1 + 1\<rparr>
                else s1);
          s3 = upd_task nxt (\<lambda>t. t\<lparr>sched_count := sched_count t + 1,
                                   last_sched := timer_ticks s\<rparr>) s2
      in s3\<lparr>current_task := nxt\<rparr>)"

definition schedule :: "'a sched_scheme \<Rightarrow> 'a sched_scheme" where
  "schedule s =
     (let s1 = reclaim_zombies (zombies s) s;
          cur = current_task s1
      in if forbid_count (tasks s1 cur) > 0 \<and> task_running s1 cur then s1
         else
           (let s2 = s1\<lparr>need_resched := False\<rparr>;
                s3 = (if task_running s2 cur then enqueue_task cur (unlink_task cur s2) else s2)
            in (case running_tasks s3 of
                  [] \<Rightarrow> s3
                | nxt # _ \<Rightarrow>
                    (let s4 = (if time_left (tasks s3 nxt) \<le> 0
                               then upd_task nxt (\<lambda>t. t\<lparr>time_left := sint (quantum t)\<rparr>) s3
                               else s3)
                     in if cur \<noteq> nxt then switch_task nxt s4 else s4))))"

text \<open>What \<open>append_task\<close> and \<open>wake_task\<close> do when the task they made runnable has priority.\<close>

definition preempt :: "'a sched_scheme \<Rightarrow> 'a sched_scheme" where
  "preempt s = (if intr_nest_count s = 0 then schedule s else s\<lparr>need_resched := True\<rparr>)"

definition append_task :: "tid \<Rightarrow> 'a sched_scheme \<Rightarrow> 'a sched_scheme" where
  "append_task t s =
     (if task_running s t
      then (let s1 = enqueue_task t s in
            if t_pri (tasks s1 (current_task s1)) < t_pri (tasks s1 t) then preempt s1 else s1)
      else s\<lparr>suspended_tasks := suspended_tasks s @ [t]\<rparr>)"

definition remove_task :: "tid \<Rightarrow> 'a sched_scheme \<Rightarrow> 'a sched_scheme" where
  "remove_task t s =
     unlink_task t (upd_task t (\<lambda>k. k\<lparr>t_flags := (t_flags k OR TASK_ZOMBIE) AND NOT TASK_RUNNING\<rparr>) s)"

definition suspend_task :: "tid \<Rightarrow> 'a sched_scheme \<Rightarrow> 'a sched_scheme" where
  "suspend_task t s =
     (if task_running s t
      then (let s1 = unlink_task t s;
                s2 = s1\<lparr>suspended_tasks := suspended_tasks s1 @ [t]\<rparr>;
                s3 = upd_task t (\<lambda>k. k\<lparr>t_flags := t_flags k AND NOT TASK_RUNNING\<rparr>) s2
            in s3\<lparr>need_resched := True\<rparr>)
      else s)"

definition wake_task :: "tid \<Rightarrow> 'a sched_scheme \<Rightarrow> 'a sched_scheme" where
  "wake_task t s =
     (if t_flags (tasks s t) AND (TASK_RUNNING OR TASK_FROZEN OR TASK_ZOMBIE) = 0
      then (let s1 = unlink_task t s;
                s2 = upd_task t (\<lambda>k. k\<lparr>t_flags := t_flags k OR TASK_RUNNING\<rparr>) s1;
                s3 = enqueue_task t s2
            in if t_pri (tasks s3 t) > t_pri (tasks s3 (current_task s3)) then preempt s3 else s3)
      else s)"

text \<open>The timer interrupt charges the current task for one tick (\<open>cmos_timer\<close> of kernel/misc/time.c).\<close>

definition quantum_tick :: "'a sched_scheme \<Rightarrow> 'a sched_scheme" where
  "quantum_tick s =
     (let s1 = upd_task (current_task s) (\<lambda>t. t\<lparr>time_left := time_left t - 1\<rparr>) s
      in if time_left (tasks s1 (current_task s)) \<le> 0 then s1\<lparr>need_resched := True\<rparr> else s1)"

definition forbid :: "'a sched_scheme \<Rightarrow> 'a sched_scheme" where
  "forbid s = upd_task (current_task s) (\<lambda>t. t\<lparr>forbid_count := forbid_count t + 1\<rparr>) s"

definition permit :: "'a sched_scheme \<Rightarrow> 'a sched_scheme" where
  "permit s =
     (let s1 = upd_task (current_task s) (\<lambda>t. t\<lparr>forbid_count := forbid_count t - 1\<rparr>) s
      in if forbid_count (tasks s1 (current_task s1)) = 0 \<and> need_resched s1 then schedule s1 else s1)"

text \<open>
  \<open>suspend_current_task\<close> up to the switch: its \<open>permit\<close> runs when the task is scheduled again.
\<close>

definition suspend_current_task :: "'a sched_scheme \<Rightarrow> 'a sched_scheme" where
  "suspend_current_task s =
     (let s1 = forbid s in schedule (suspend_task (current_task s1) s1))"

section \<open>Killing tasks\<close>

text \<open>
  \<open>kill_task\<close> of kernel/tasks/task.c, its result and state; closing the task's current
  directory belongs to the file system and is the argument \<open>close_dir\<close>.
\<close>

definition kill_task ::
    "(tid \<Rightarrow> 'a sched_scheme \<Rightarrow> 'a sched_scheme) \<Rightarrow> tid \<Rightarrow> 'a sched_scheme \<Rightarrow> int \<times> 'a sched_scheme" where
  "kill_task close_dir t s =
     (if test_mask (t_flags (tasks s t)) TASK_IMMORTAL then (-1, s)
      else (let s1 = remove_task t (close_dir t s)
            in (0, if current_task s1 \<noteq> t then reclaim_task t s1 else schedule s1)))"

definition kill_current_task ::
    "(tid \<Rightarrow> 'a sched_scheme \<Rightarrow> 'a sched_scheme) \<Rightarrow> 'a sched_scheme \<Rightarrow> int \<times> 'a sched_scheme" where
  "kill_current_task close_dir s =
     (let s1 = upd_task (current_task s) (\<lambda>t. t\<lparr>t_flags := t_flags t AND NOT TASK_IMMORTAL\<rparr>) s
      in kill_task close_dir (current_task s1) s1)"

section \<open>Lists of sleeping tasks and semaphores\<close>

text \<open>An element lives at an address (usually on the sleeping task's stack).\<close>

record task_list =
  tl_addr :: u32
  tl_task :: tid
  tl_pid :: u32

definition add_task_list :: "task_list \<Rightarrow> task_list list \<Rightarrow> task_list list" where
  "add_task_list elt xs = xs @ [elt]"

text \<open>The loop of \<open>remove_task_list\<close> runs off the list if the element is not on it.\<close>

fun remove_task_list :: "u32 \<Rightarrow> task_list list \<Rightarrow> task_list list option" where
  "remove_task_list a [] = None"
| "remove_task_list a (x # xs) =
     (if tl_addr x = a then Some xs else map_option (Cons x) (remove_task_list a xs))"

text \<open>
  \<open>sleep_in_task_list\<close>: the element is at \<open>addr\<close> on the stack.  The result is the state in
  which another task runs.
\<close>

definition sleep_in_task_list ::
    "u32 \<Rightarrow> task_list list \<Rightarrow> 'a sched_scheme \<Rightarrow> task_list list \<times> 'a sched_scheme" where
  "sleep_in_task_list addr xs s =
     (let cur = current_task s;
          xs' = add_task_list \<lparr>tl_addr = addr, tl_task = cur, tl_pid = t_pid (tasks s cur)\<rparr> xs
      in (xs', schedule (suspend_task cur s)))"

definition wake_elt :: "task_list \<Rightarrow> 'a sched_scheme \<Rightarrow> 'a sched_scheme" where
  "wake_elt t s = (if t_pid (tasks s (tl_task t)) = tl_pid t then wake_task (tl_task t) s else s)"

definition wake_up_task_list ::
    "task_list list \<Rightarrow> 'a sched_scheme \<Rightarrow> task_list list \<times> 'a sched_scheme" where
  "wake_up_task_list xs s =
     (let s1 = fold wake_elt xs (s\<lparr>intr_nest_count := intr_nest_count s + 1\<rparr>)
      in ([], s1\<lparr>intr_nest_count := intr_nest_count s1 - 1\<rparr>))"

definition wake_up_first_task ::
    "task_list list \<Rightarrow> 'a sched_scheme \<Rightarrow> task_list list \<times> 'a sched_scheme" where
  "wake_up_first_task xs s =
     (let s1 = s\<lparr>intr_nest_count := intr_nest_count s + 1\<rparr>;
          (xs', s2) = (case xs of [] \<Rightarrow> ([], s1) | t # ts \<Rightarrow> (ts, wake_elt t s1))
      in (xs', s2\<lparr>intr_nest_count := intr_nest_count s2 - 1\<rparr>))"

record semaphore =
  blocked :: bool
  waiting :: "task_list list"

definition set_sem_blocked :: semaphore where
  "set_sem_blocked = \<lparr>blocked = True, waiting = []\<rparr>"

definition set_sem_clear :: semaphore where
  "set_sem_clear = \<lparr>blocked = False, waiting = []\<rparr>"

definition signal :: "semaphore \<Rightarrow> 'a sched_scheme \<Rightarrow> semaphore \<times> 'a sched_scheme" where
  "signal sem s =
     (if waiting sem = [] then (sem\<lparr>blocked := False\<rparr>, s)
      else (let (ws, s') = wake_up_first_task (waiting sem) s in (sem\<lparr>waiting := ws\<rparr>, s')))"

definition wait :: "u32 \<Rightarrow> semaphore \<Rightarrow> 'a sched_scheme \<Rightarrow> semaphore \<times> 'a sched_scheme" where
  "wait addr sem s =
     (let sem1 = sem\<lparr>blocked := True\<rparr>
      in if blocked sem
         then (let (ws, s') = sleep_in_task_list addr (waiting sem1) s in (sem1\<lparr>waiting := ws\<rparr>, s'))
         else (sem1, s))"

definition init_sched :: "'a sched_scheme \<Rightarrow> 'a sched_scheme" where
  "init_sched s = s\<lparr>running_tasks := [], suspended_tasks := [], zombie_tasks := []\<rparr>"

end
