(* ===== verification/SchedCorrect.thy ===== *)
theory SchedCorrect
  imports SchedProps
begin

text \<open>
  The properties of the scheduler that its users rely on, over the well-formedness invariant
  and the reclaiming lemmas of \<open>SchedProps\<close>.
\<close>

unbundle bit_operations_syntax

section \<open>schedule\<close>

lemma clear_bit0 [simp]: "((x::u32) AND (-2)) AND 1 = 0"
  using and_not_and_same[of x 1] by simp

lemma pri_sorted_hd: "pri_sorted pri (x # xs) \<Longrightarrow> y \<in> set (x # xs) \<Longrightarrow> pri y \<le> pri x"
  by (auto simp: pri_sorted_def)

lemma sched_wf_upd_task:
  assumes "\<And>k. t_flags (f k) = t_flags k \<and> t_pri (f k) = t_pri k"
  shows "sched_wf (upd_task t f s) = sched_wf s"
proof -
  have "t_pri (tasks (upd_task t f s) x) = t_pri (tasks s x)"
    "t_flags (tasks (upd_task t f s) x) = t_flags (tasks s x)" for x
    using assms by simp_all
  then show ?thesis unfolding sched_wf_def by (simp only: upd_task_simps)
qed

text \<open>The current task's status just before the choice.\<close>

definition current_wf :: "'a sched_scheme \<Rightarrow> bool" where
  "current_wf s \<longleftrightarrow> current_ok s
     \<and> (task_running s (current_task s) \<longrightarrow> \<not> test_mask (t_flags (tasks s (current_task s))) TASK_ZOMBIE)"

definition preemptible :: "'a sched_scheme \<Rightarrow> bool" where
  "preemptible s \<longleftrightarrow> \<not> (forbid_count (tasks s (current_task s)) > 0 \<and> task_running s (current_task s))"

lemma switch_task_wf:
  assumes "sched_wf s" "nxt \<in> set (running_tasks s)" "current_task s \<notin> set (zombie_tasks s)"
    "task_running s (current_task s) \<longrightarrow> \<not> test_mask (t_flags (tasks s (current_task s))) TASK_ZOMBIE"
  shows "sched_wf (switch_task nxt s)" "current_task (switch_task nxt s) = nxt"
    "running_tasks (switch_task nxt s) = running_tasks s"
    "need_resched (switch_task nxt s) = need_resched s"
    "suspended_tasks (switch_task nxt s) = suspended_tasks s"
    "\<And>t. t_flags (tasks (switch_task nxt s) t) = t_flags (tasks s t)"
    "\<And>t. t_pri (tasks (switch_task nxt s) t) = t_pri (tasks s t)"
    "\<And>t. time_left (tasks (switch_task nxt s) t) = time_left (tasks s t)"
    "set (zombie_tasks (switch_task nxt s)) \<subseteq> insert (current_task s) (set (zombie_tasks s))"
proof -
  show g: "current_task (switch_task nxt s) = nxt"
    "running_tasks (switch_task nxt s) = running_tasks s"
    "need_resched (switch_task nxt s) = need_resched s"
    "suspended_tasks (switch_task nxt s) = suspended_tasks s"
    "t_flags (tasks (switch_task nxt s) t) = t_flags (tasks s t)"
    "t_pri (tasks (switch_task nxt s) t) = t_pri (tasks s t)"
    "time_left (tasks (switch_task nxt s) t) = time_left (tasks s t)"
    "set (zombie_tasks (switch_task nxt s)) \<subseteq> insert (current_task s) (set (zombie_tasks s))" for t
    by (auto simp: switch_task_def Let_def)
  show "sched_wf (switch_task nxt s)"
  proof (cases "test_mask (t_flags (tasks s (current_task s))) TASK_ZOMBIE")
    case True
    have "zombie_tasks (switch_task nxt s) = zombie_tasks s @ [current_task s]"
      "zombies (switch_task nxt s) = zombies s + 1"
      using True by (simp_all add: switch_task_def Let_def)
    then show ?thesis using True assms g by (auto simp: sched_wf_def)
  next
    case False
    then have "zombie_tasks (switch_task nxt s) = zombie_tasks s"
      "zombies (switch_task nxt s) = zombies s"
      by (simp_all add: switch_task_def Let_def)
    then show ?thesis using assms g by (simp add: sched_wf_def)
  qed
qed

text \<open>The choice itself: the run queue after requeueing the current task, its head, the switch.\<close>

definition requeued :: "'a sched_scheme \<Rightarrow> 'a sched_scheme" where
  "requeued s = (let s2 = s\<lparr>need_resched := False\<rparr>; cur = current_task s in
     if task_running s2 cur then enqueue_task cur (unlink_task cur s2) else s2)"

lemma schedule_requeued:
  assumes "sched_wf s" "preemptible s"
  defines "s1 \<equiv> reclaim_zombies (zombies s) s"
  shows "schedule s = (case running_tasks (requeued s1) of [] \<Rightarrow> requeued s1
    | nxt # _ \<Rightarrow>
       (let s4 = (if time_left (tasks (requeued s1) nxt) \<le> 0
                  then upd_task nxt (\<lambda>t. t\<lparr>time_left := sint (quantum t)\<rparr>) (requeued s1)
                  else requeued s1)
        in if current_task s1 \<noteq> nxt then switch_task nxt s4 else s4))"
proof -
  note R = sched_wf_reclaim[OF assms(1), folded s1_def]
  have "\<not> (forbid_count (tasks s1 (current_task s1)) > 0 \<and> task_running s1 (current_task s1))"
    using assms(2) same_sched_task[OF R(1)] R(1) by (simp add: preemptible_def same_sched_def)
  then show ?thesis
    by (simp only: schedule_def requeued_def Let_def if_False flip: s1_def)
qed

lemma requeued_props:
  assumes "sched_wf s" "current_wf s"
  shows "sched_wf (requeued s)" "\<not> need_resched (requeued s)" "tasks (requeued s) = tasks s"
    "current_task (requeued s) = current_task s" "zombie_tasks (requeued s) = zombie_tasks s"
    "suspended_tasks (requeued s) = suspended_tasks s"
    "set (running_tasks (requeued s)) = set (running_tasks s)"
proof -
  let ?c = "current_task s"
  have w: "sched_wf (s\<lparr>need_resched := False\<rparr>)" using assms(1) by (simp add: sched_wf_def)
  show "\<not> need_resched (requeued s)" "tasks (requeued s) = tasks s"
    "current_task (requeued s) = current_task s"
    by (simp_all add: requeued_def Let_def)
  have c: "task_running s ?c \<Longrightarrow> ?c \<in> set (running_tasks s) \<and> ?c \<notin> set (suspended_tasks s)
      \<and> ?c \<notin> set (zombie_tasks s)"
    using assms by (auto simp: current_wf_def current_ok_def sched_wf_def)
  show "zombie_tasks (requeued s) = zombie_tasks s" "suspended_tasks (requeued s) = suspended_tasks s"
    "set (running_tasks (requeued s)) = set (running_tasks s)"
    using c by (auto simp: requeued_def Let_def removeAll_id)
  show "sched_wf (requeued s)"
    unfolding requeued_def Let_def
    using c assms requeue_wf[OF w, of ?c] w by (auto simp: current_wf_def)
qed

lemma schedule_steps:
  assumes "sched_wf s" and "current_wf s" and "preemptible s" and "\<forall>t. 0 < sint (quantum (tasks s t))"
  shows "sched_wf (schedule s) \<and> current_wf (schedule s) \<and> \<not> need_resched (schedule s)
    \<and> set (zombie_tasks (schedule s)) \<subseteq> {current_task s}
    \<and> set (running_tasks (schedule s)) = set (running_tasks s)
    \<and> (running_tasks s = [] \<longrightarrow> current_task (schedule s) = current_task s)
    \<and> (running_tasks s \<noteq> [] \<longrightarrow>
         current_task (schedule s) = hd (running_tasks (schedule s))
         \<and> (\<forall>t\<in>set (running_tasks s). t_pri (tasks s t) \<le> t_pri (tasks s (current_task (schedule s))))
         \<and> 0 < time_left (tasks (schedule s) (current_task (schedule s)))
         \<and> (time_left (tasks s (current_task s)) \<le> 0 \<longrightarrow>
             (\<exists>t\<in>set (running_tasks s). t \<noteq> current_task s
                \<and> t_pri (tasks s t) \<ge> t_pri (tasks s (current_task s))) \<longrightarrow>
             current_task (schedule s) \<noteq> current_task s))"
proof -
  define s1 where "s1 = reclaim_zombies (zombies s) s"
  define r where "r = requeued s1"
  let ?c = "current_task s"
  note R = sched_wf_reclaim[OF assms(1), folded s1_def]
  note T = same_sched_task[OF R(1)]
  have e: "current_task s1 = ?c" "running_tasks s1 = running_tasks s" "suspended_tasks s1 = suspended_tasks s"
    using R(1) by (simp_all add: same_sched_def)
  have cw: "current_wf s1" using assms(2) e T R(2) by (simp add: current_wf_def current_ok_def)
  note Q = requeued_props[OF R(3) cw, folded r_def, unfolded e R(2)]
  note S = schedule_requeued[OF assms(1,3), folded s1_def, folded r_def, unfolded e]
  have notz: "task_running r ?c \<longrightarrow> \<not> test_mask (t_flags (tasks r ?c)) TASK_ZOMBIE"
    using cw Q(3) e by (simp add: current_wf_def)
  show ?thesis
  proof (cases "running_tasks r")
    case Nil
    then have "schedule s = r" using S by simp
    moreover have "running_tasks s = []" using Nil Q(7) by simp
    ultimately show ?thesis
      using Q cw e by (auto simp: current_wf_def current_ok_def)
  next
    case (Cons n ns)
    define s4 where "s4 = (if time_left (tasks r n) \<le> 0
      then upd_task n (\<lambda>t. t\<lparr>time_left := sint (quantum t)\<rparr>) r else r)"
    have "sched_wf s4" using Q(1) by (simp add: s4_def sched_wf_upd_task)
    then have s4: "sched_wf s4" "current_task s4 = ?c" "zombie_tasks s4 = []"
      "running_tasks s4 = n # ns" "need_resched s4 = need_resched r"
      "\<And>t. t_flags (tasks s4 t) = t_flags (tasks s t)" "\<And>t. t_pri (tasks s4 t) = t_pri (tasks s t)"
      "0 < time_left (tasks s4 n)"
      using Q(3) Q(4) Q(5) Cons T assms(4) by (auto simp: s4_def)
    define f where "f = (if ?c \<noteq> n then switch_task n s4 else s4)"
    have f: "schedule s = f" using S Cons by (simp add: f_def s4_def Let_def)
    have W: "sched_wf (switch_task n s4)" "current_task (switch_task n s4) = n"
      "running_tasks (switch_task n s4) = n # ns" "need_resched (switch_task n s4) = need_resched r"
      "\<And>t. t_flags (tasks (switch_task n s4) t) = t_flags (tasks s t)"
      "\<And>t. time_left (tasks (switch_task n s4) t) = time_left (tasks s4 t)"
      "set (zombie_tasks (switch_task n s4)) \<subseteq> {?c}"
      using switch_task_wf[OF s4(1), of n] s4 notz T Q(3) by auto
    have F: "sched_wf f" "current_task f = n" "running_tasks f = n # ns" "\<not> need_resched f"
      "\<And>t. t_flags (tasks f t) = t_flags (tasks s t)" "0 < time_left (tasks f n)"
      "set (zombie_tasks f) \<subseteq> {?c}"
      using W s4 Q(2) by (simp_all add: f_def)
    have rs: "set (running_tasks s) = set (n # ns)" using Q(7) Cons by simp
    have top: "t_pri (tasks s t) \<le> t_pri (tasks s n)" if "t \<in> set (n # ns)" for t
      using pri_sorted_hd[of "\<lambda>t. t_pri (tasks s4 t)" n ns t] s4 that by (simp add: sched_wf_def)
    have n: "task_running f n" "\<not> test_mask (t_flags (tasks f n)) TASK_ZOMBIE" "n \<notin> set (zombie_tasks f)"
      using F(1,3) by (auto simp: sched_wf_def)
    then have "current_wf f" using F(2,3) by (simp add: current_wf_def current_ok_def)
    moreover have "n \<noteq> ?c" if "time_left (tasks s ?c) \<le> 0" "t \<in> set (running_tasks s)" "t \<noteq> ?c"
      "t_pri (tasks s t) \<ge> t_pri (tasks s ?c)" for t
    proof (cases "task_running s ?c")
      case True
      then have q: "running_tasks r = enqueue_place (\<lambda>x. t_pri (tasks s x)) (\<lambda>x. time_left (tasks s x))
          (t_pri (tasks s ?c)) (time_left (tasks s ?c)) ?c (removeAll ?c (running_tasks s))"
        using e T by (simp add: r_def requeued_def Let_def enqueue_task_def)
      let ?P = "\<lambda>x. t_pri (tasks s x) \<ge> t_pri (tasks s ?c)"
      have srt: "pri_sorted (\<lambda>x. t_pri (tasks s x)) (removeAll ?c (running_tasks s))"
        using assms(1) by (auto simp: sched_wf_def intro: pri_sorted_removeAll)
      have "t \<in> set (removeAll ?c (running_tasks s))" using that by simp
      then obtain y ys where y: "removeAll ?c (running_tasks s) = y # ys"
        by (cases "removeAll ?c (running_tasks s)") auto
      then have "?P y"
        using pri_sorted_hd[of "\<lambda>x. t_pri (tasks s x)" y ys t] srt that(4)
          \<open>t \<in> set (removeAll ?c (running_tasks s))\<close> by simp
      then have "n = y" using q y that(1) Cons by (simp add: enqueue_place_def)
      moreover have "y \<noteq> ?c" using y by (metis list.set_intros(1) set_removeAll insertCI Diff_iff singletonI)
      ultimately show ?thesis by simp
    next
      case False
      then show ?thesis using n F(5) by auto
    qed
    ultimately show ?thesis
      unfolding f using F rs top by auto
  qed
qed


text \<open>Two runnable tasks of equal priority, the current one with its quantum used up.\<close>

definition demo_task :: task where
  "demo_task = \<lparr>return_hook = None, tss_sel = 40, t_pid = 1, t_ppid = 0, t_page_dir = 0, t_stack0 = 0,
     t_stack = 0, t_flags = 1, t_pri = 0, cpu_time = 0, last_sched = 0, quantum = 51, time_left = 0,
     sched_count = 0, forbid_count = 0\<rparr>"

definition demo_sched :: sched where
  "demo_sched = \<lparr>mem = \<lambda>_. 0, page_free_list = 0, used_pages = 0, available_pages = 0,
     logical_kernel_pd = 0, kernel_brk = 0, tasks = \<lambda>_. demo_task, current_task = 0,
     running_tasks = [0, 1], suspended_tasks = [], zombie_tasks = [], zombies = 0,
     need_resched = True, intr_nest_count = 0, timer_ticks = 0, GDT = \<lambda>_. (0, 0), TaskCount = 2\<rparr>"



section \<open>The operations keep the invariant\<close>

lemma enqueue_task_wf:
  assumes "sched_wf s" "t \<notin> set (running_tasks s @ suspended_tasks s @ zombie_tasks s)"
    "task_running s t" "\<not> test_mask (t_flags (tasks s t)) TASK_ZOMBIE"
  shows "sched_wf (enqueue_task t s)"
proof -
  have "pri_sorted (\<lambda>x. t_pri (tasks s x)) (running_tasks (enqueue_task t s))"
    using assms(1) pri_sorted_enqueue_place by (fastforce simp: sched_wf_def enqueue_task_def)
  moreover have "distinct (running_tasks (enqueue_task t s))"
    using assms(1,2) by (auto simp: sched_wf_def enqueue_task_def intro!: distinct_enqueue_place)
  ultimately show ?thesis
    using assms by (auto simp: sched_wf_def)
qed

lemma unlink_task_wf:
  assumes "sched_wf s" "t \<notin> set (zombie_tasks s)" shows "sched_wf (unlink_task t s)"
proof -
  have "pri_sorted (\<lambda>x. t_pri (tasks s x)) (removeAll t (running_tasks s))"
    using assms(1) by (auto simp: sched_wf_def intro: pri_sorted_removeAll)
  then show ?thesis
    using assms by (auto simp: sched_wf_def distinct_removeAll removeAll_id)
qed

lemma sched_wf_upd_outside:
  assumes "sched_wf s" "t \<notin> set (running_tasks s @ suspended_tasks s @ zombie_tasks s)"
  shows "sched_wf (upd_task t f s)"
proof -
  have "pri_sorted (\<lambda>x. t_pri (tasks (upd_task t f s) x)) (running_tasks s)
      = pri_sorted (\<lambda>x. t_pri (tasks s x)) (running_tasks s)"
  proof -
    have "sorted_wrt P xs = sorted_wrt Q xs"
      if "\<And>x y. x \<in> set xs \<Longrightarrow> y \<in> set xs \<Longrightarrow> P x y = Q x y" for P Q and xs :: "nat list"
      using that by (induction xs) auto
    note cong = this
    show ?thesis unfolding pri_sorted_def
    proof (rule cong)
      fix x y assume "x \<in> set (running_tasks s)" "y \<in> set (running_tasks s)"
      then have "x \<noteq> t" "y \<noteq> t" using assms(2) by auto
      then show "(t_pri (tasks (upd_task t f s) y) \<le> t_pri (tasks (upd_task t f s) x))
          = (t_pri (tasks s y) \<le> t_pri (tasks s x))" by simp
    qed
  qed
  then show ?thesis using assms by (auto simp: sched_wf_def)
qed

definition sched_inv :: "'a sched_scheme \<Rightarrow> bool" where
  "sched_inv s \<longleftrightarrow> sched_wf s \<and> current_wf s \<and> no_inversion s
     \<and> (\<forall>t. 0 < sint (quantum (tasks s t)))"

lemma sched_wf_flags [simp]:
  "sched_wf (s\<lparr>need_resched := b\<rparr>) = sched_wf s" "sched_wf (s\<lparr>intr_nest_count := k\<rparr>) = sched_wf s"
  "current_wf (s\<lparr>need_resched := b\<rparr>) = current_wf s" "current_wf (s\<lparr>intr_nest_count := k\<rparr>) = current_wf s"
  by (simp_all add: sched_wf_def current_wf_def current_ok_def)

lemma schedule_task_fields:
  assumes "sched_wf s"
  shows "t_flags (tasks (schedule s) t) = t_flags (tasks s t)"
    "t_pri (tasks (schedule s) t) = t_pri (tasks s t)"
    "quantum (tasks (schedule s) t) = quantum (tasks s t)"
    "forbid_count (tasks (schedule s) t) = forbid_count (tasks s t)"
  using same_sched_task[OF sched_wf_reclaim(1)[OF assms]]
  by (auto simp: schedule_def Let_def switch_task_def split: list.splits)

text \<open>While the current task forbids pre-emption \<open>schedule\<close> only reclaims zombies.\<close>

lemma schedule_forbidden:
  assumes "sched_wf s" "\<not> preemptible s"
  shows "same_sched s (schedule s)" "schedule s = reclaim_zombies (zombies s) s"
proof -
  note R = sched_wf_reclaim(1)[OF assms(1)]
  show e: "schedule s = reclaim_zombies (zombies s) s"
    using assms(2) same_sched_task[OF R] R
    by (simp add: schedule_def Let_def preemptible_def same_sched_def)
  show "same_sched s (schedule s)" using R by (simp add: e)
qed

lemma schedule_inv:
  assumes "sched_wf s" "current_wf s" "\<forall>t. 0 < sint (quantum (tasks s t))" "preemptible s \<or> no_inversion s"
  shows "sched_inv (schedule s)"
proof (cases "preemptible s")
  case True
  have S: "current_wf (schedule s)" "sched_wf (schedule s)" "\<not> need_resched (schedule s)"
    "set (running_tasks (schedule s)) = set (running_tasks s)"
    "running_tasks s \<noteq> [] \<Longrightarrow> \<forall>t\<in>set (running_tasks s).
       t_pri (tasks s t) \<le> t_pri (tasks s (current_task (schedule s)))"
    using schedule_steps[OF assms(1,2) True assms(3)] by blast+
  note F = schedule_task_fields[OF assms(1)]
  have "no_inversion (schedule s)"
    unfolding no_inversion_def using S F(2) by (cases "running_tasks s = []") auto
  then show ?thesis using S assms(3) F by (simp add: sched_inv_def)
next
  case False
  note R = sched_wf_reclaim[OF assms(1), folded schedule_forbidden(2)[OF assms(1) False]]
  note T = same_sched_task[OF R(1)]
  have e: "current_task (schedule s) = current_task s" "running_tasks (schedule s) = running_tasks s"
    "need_resched (schedule s) = need_resched s" using R(1) by (simp_all add: same_sched_def)
  have "no_inversion s" using assms(4) False by blast
  then have "no_inversion (schedule s)" by (simp add: no_inversion_def e T)
  moreover have "current_wf (schedule s)" using assms(2) by (simp add: current_wf_def current_ok_def e T R(2))
  ultimately show ?thesis using R(3) assms(3) by (simp add: sched_inv_def T)
qed

lemma sched_inv_need: "sched_wf s \<Longrightarrow> current_wf s \<Longrightarrow>
    \<forall>t. 0 < sint (quantum (tasks s t)) \<Longrightarrow>
    sched_inv (s\<lparr>need_resched := True\<rparr>)"
  by (simp add: sched_inv_def no_inversion_def)

lemma preempt_inv:
  assumes "sched_wf s" "current_wf s" "\<forall>t. 0 < sint (quantum (tasks s t))" "preemptible s \<or> intr_nest_count s \<noteq> 0"
  shows "sched_inv (preempt s)"
  using schedule_inv[OF assms(1-3)] sched_inv_need[OF assms(1-3)] assms(4) by (auto simp: preempt_def)

text \<open>A task that becomes runnable: queued, with pre-emption if it has priority.\<close>

lemma enqueue_preempt_inv:
  assumes w: "sched_wf s" and c: "current_wf s" and n: "no_inversion s"
    and q: "\<forall>t. 0 < sint (quantum (tasks s t))"
    and p: "preemptible s \<or> intr_nest_count s \<noteq> 0 \<or> t_pri (tasks s t) \<le> t_pri (tasks s (current_task s))"
    and t: "t \<notin> set (running_tasks s @ suspended_tasks s @ zombie_tasks s)"
      "task_running s t" "\<not> test_mask (t_flags (tasks s t)) TASK_ZOMBIE"
  shows "sched_inv (let s1 = enqueue_task t s in
    if t_pri (tasks s1 (current_task s1)) < t_pri (tasks s1 t) then preempt s1 else s1)"
proof -
  let ?e = "enqueue_task t s"
  have w': "sched_wf ?e" using w t by (rule enqueue_task_wf)
  have c': "current_wf ?e" using c by (auto simp: current_wf_def current_ok_def)
  have q': "\<forall>t. 0 < sint (quantum (tasks ?e t))" using q by simp
  show ?thesis
  proof (cases "t_pri (tasks s (current_task s)) < t_pri (tasks s t)")
    case True
    then have "preemptible ?e \<or> intr_nest_count ?e \<noteq> 0" using p by (simp add: preemptible_def)
    then show ?thesis using preempt_inv[OF w' c' q'] True by (simp add: Let_def)
  next
    case False
    then have "no_inversion ?e" using n by (auto simp: no_inversion_def)
    then show ?thesis using False w' c' q' by (simp add: Let_def sched_inv_def)
  qed
qed

lemma unlink_not_in: "t \<notin> set (running_tasks (unlink_task t s) @ suspended_tasks (unlink_task t s)
    @ zombie_tasks (unlink_task t s))"
  by simp

lemma wake_task_inv:
  assumes "sched_inv s" and p: "preemptible s \<or> intr_nest_count s \<noteq> 0 \<or> t_pri (tasks s t) \<le> t_pri (tasks s (current_task s))"
  shows "sched_inv (wake_task t s)"
proof (cases "t_flags (tasks s t) AND (TASK_RUNNING OR TASK_FROZEN OR TASK_ZOMBIE) = 0")
  case True
  define k where "k = (\<lambda>k::task. k\<lparr>t_flags := t_flags k OR TASK_RUNNING\<rparr>)"
  define s2 where "s2 = upd_task t k (unlink_task t s)"
  have f: "\<not> task_running s t" "\<not> test_mask (t_flags (tasks s t)) TASK_ZOMBIE"
    using True unfolding and_or_zero by simp_all
  note I = assms(1)[unfolded sched_inv_def]
  have nz: "t \<notin> set (zombie_tasks s)" and nr: "t \<notin> set (running_tasks s)"
    using f I by (auto simp: sched_wf_def)
  have w: "sched_wf s2" unfolding s2_def
    using I nz unlink_not_in by (intro sched_wf_upd_outside unlink_task_wf) auto
  have fl: "task_running s2 t" "\<not> test_mask (t_flags (tasks s2 t)) TASK_ZOMBIE"
    using f(2) by (simp_all add: s2_def k_def or_and_disjoint)
  have rs: "running_tasks s2 = running_tasks s" using nr by (simp add: s2_def removeAll_id)
  show ?thesis
  proof (cases "t = current_task s")
    case False
    then have "current_wf s2" using I nr by (simp add: s2_def current_wf_def current_ok_def)
    moreover have "no_inversion s2"
      using I False rs by (auto simp: no_inversion_def s2_def k_def)
    moreover have "\<forall>t. 0 < sint (quantum (tasks s2 t))"
      using I by (simp add: s2_def k_def)
    ultimately have "sched_inv (let s1 = enqueue_task t s2 in
        if t_pri (tasks s1 (current_task s1)) < t_pri (tasks s1 t) then preempt s1 else s1)"
      using w fl unlink_not_in[of t s] p False
      by (intro enqueue_preempt_inv) (simp_all add: s2_def k_def preemptible_def)
    then show ?thesis using True False by (simp add: wake_task_def Let_def s2_def k_def)
  next
    case True': True
    let ?e = "enqueue_task t s2"
    have "sched_wf ?e" using w fl unlink_not_in[of t s] by (intro enqueue_task_wf) (simp_all add: s2_def)
    moreover have "current_wf ?e"
      using True' fl nz by (simp add: current_wf_def current_ok_def s2_def)
    moreover have "no_inversion ?e"
      using I rs True' by (auto simp: no_inversion_def s2_def k_def)
    moreover have "\<forall>t. 0 < sint (quantum (tasks ?e t))"
      using I by (simp add: s2_def k_def)
    moreover have "wake_task t s = ?e"
      using True True' by (simp add: wake_task_def Let_def s2_def k_def)
    ultimately show ?thesis by (simp add: sched_inv_def)
  qed
qed (use assms in \<open>simp add: wake_task_def\<close>)

lemma suspended_append_wf:
  assumes "sched_wf s" "t \<notin> set (running_tasks s @ suspended_tasks s @ zombie_tasks s)"
    "\<not> task_running s t" "\<not> test_mask (t_flags (tasks s t)) TASK_ZOMBIE"
  shows "sched_wf (s\<lparr>suspended_tasks := suspended_tasks s @ [t]\<rparr>)"
  using assms by (auto simp: sched_wf_def)

lemma suspend_task_inv:
  assumes "sched_inv s" "t \<in> set (running_tasks s)" shows "sched_inv (suspend_task t s)"
proof -
  note I = assms(1)[unfolded sched_inv_def]
  define f where "f = (\<lambda>k::task. k\<lparr>t_flags := t_flags k AND NOT TASK_RUNNING\<rparr>)"
  define u where "u = upd_task t f (unlink_task t s)"
  have r: "task_running s t" "\<not> test_mask (t_flags (tasks s t)) TASK_ZOMBIE" "t \<notin> set (zombie_tasks s)"
    using I assms(2) by (auto simp: sched_wf_def)
  have u: "sched_wf u" unfolding u_def
    using I r(3) unlink_not_in by (intro sched_wf_upd_outside unlink_task_wf) auto
  have fl: "t_flags (tasks u t) = t_flags (tasks s t) AND NOT TASK_RUNNING" by (simp add: u_def f_def)
  have v: "sched_wf (u\<lparr>suspended_tasks := suspended_tasks u @ [t]\<rparr>)" (is "sched_wf ?v")
  proof (rule suspended_append_wf[OF u])
    show "\<not> task_running u t" unfolding fl and_not_and_same by simp
    have "TASK_RUNNING AND TASK_ZOMBIE = 0" by simp
    then show "\<not> test_mask (t_flags (tasks u t)) TASK_ZOMBIE"
      unfolding fl using r(2) by (simp only: and_not_and_disjoint not_False_eq_True)
  qed (simp add: u_def)
  have "suspend_task t s = ?v\<lparr>need_resched := True\<rparr>"
    using r(1) by (simp add: suspend_task_def Let_def u_def f_def upd_task_def)
  moreover have "current_wf ?v"
    using I fl by (auto simp: current_wf_def current_ok_def u_def f_def)
  moreover have "\<forall>x. 0 < sint (quantum (tasks ?v x))"
    using I by (simp add: u_def f_def)
  ultimately show ?thesis using v sched_inv_need[of ?v] by simp
qed

lemma append_task_inv:
  assumes "sched_inv s" "t \<notin> set (running_tasks s @ suspended_tasks s @ zombie_tasks s)"
    "\<not> test_mask (t_flags (tasks s t)) TASK_ZOMBIE" "t \<noteq> current_task s"
    and p: "preemptible s \<or> intr_nest_count s \<noteq> 0 \<or> t_pri (tasks s t) \<le> t_pri (tasks s (current_task s))"
  shows "sched_inv (append_task t s)"
proof (cases "task_running s t")
  case True
  note I = assms(1)[unfolded sched_inv_def]
  show ?thesis
    using enqueue_preempt_inv[of s t] I assms(2,3) p True by (simp add: append_task_def)
next
  case False
  note I = assms(1)[unfolded sched_inv_def]
  have "sched_wf (s\<lparr>suspended_tasks := suspended_tasks s @ [t]\<rparr>)"
    using I assms False by (intro suspended_append_wf) auto
  then show ?thesis
    using I False by (simp add: append_task_def sched_inv_def current_wf_def current_ok_def no_inversion_def)
qed

section \<open>Runs of the scheduler\<close>

lemma remove_task_wf:
  assumes "sched_inv s" "t \<notin> set (zombie_tasks s)"
  shows "sched_wf (remove_task t s)" "current_wf (remove_task t s)"
    "\<forall>x. 0 < sint (quantum (tasks (remove_task t s) x))"
    "no_inversion (remove_task t s)" "current_task (remove_task t s) = current_task s"
proof -
  note I = assms(1)[unfolded sched_inv_def]
  define f where "f = (\<lambda>k::task. k\<lparr>t_flags := (t_flags k OR TASK_ZOMBIE) AND NOT TASK_RUNNING\<rparr>)"
  have r: "remove_task t s = upd_task t f (unlink_task t s)"
    by (simp add: remove_task_def f_def upd_task_def unlink_task_def)
  have nr: "t_flags (f k) AND TASK_RUNNING = 0" for k
    by (simp add: f_def)
  show "sched_wf (remove_task t s)" unfolding r
    using I assms(2) unlink_not_in by (intro sched_wf_upd_outside unlink_task_wf) auto
  show "current_wf (remove_task t s)" unfolding r
    using I nr[of "tasks s t"] by (auto simp: current_wf_def current_ok_def)
  show "\<forall>x. 0 < sint (quantum (tasks (remove_task t s) x))"
    unfolding r using I by (simp add: f_def)
  show "no_inversion (remove_task t s)" "current_task (remove_task t s) = current_task s"
    unfolding r using I by (auto simp: no_inversion_def f_def)
qed

lemma same_sched_inv:
  assumes "same_sched s s'" "zombie_tasks s' = zombie_tasks s" "zombies s' = zombies s"
  shows "sched_inv s' = sched_inv s"
proof -
  have e: "current_task s' = current_task s" "running_tasks s' = running_tasks s"
    "suspended_tasks s' = suspended_tasks s" "need_resched s' = need_resched s"
    using assms(1) by (simp_all add: same_sched_def)
  show ?thesis
    unfolding sched_inv_def sched_wf_def current_wf_def current_ok_def no_inversion_def
    by (simp only: e assms(2,3) same_sched_task[OF assms(1)])
qed

lemma kill_task_inv:
  assumes "sched_inv s" "t \<notin> set (zombie_tasks s)"
  shows "sched_inv (snd (kill_task (\<lambda>_ s. s) t s))"
proof -
  note R = remove_task_wf[OF assms]
  let ?r = "remove_task t s"
  have "sched_inv (schedule ?r)" using R by (intro schedule_inv) auto
  moreover have "sched_inv ?r" using R by (simp add: sched_inv_def)
  then have "sched_inv (reclaim_task t ?r)"
    using reclaim_task_same[of ?r t] same_sched_inv by blast
  ultimately show ?thesis using assms(1) by (simp add: kill_task_def Let_def)
qed

lemma quantum_tick_inv: assumes "sched_inv s" shows "sched_inv (quantum_tick s)"
proof -
  note I = assms[unfolded sched_inv_def]
  define u where "u = upd_task (current_task s) (\<lambda>t. t\<lparr>time_left := time_left t - 1\<rparr>) s"
  have u: "sched_wf u" "current_wf u" "no_inversion u"
      "\<forall>x. 0 < sint (quantum (tasks u x))"
    using I by (auto simp: u_def sched_wf_upd_task current_wf_def current_ok_def no_inversion_def)
  then show ?thesis
    using sched_inv_need[OF u(1,2,4)] by (auto simp: quantum_tick_def Let_def sched_inv_def simp flip: u_def)
qed

lemma forbid_inv: assumes "sched_inv s" shows "sched_inv (forbid s)"
  using assms by (auto simp: sched_inv_def forbid_def sched_wf_upd_task current_wf_def current_ok_def no_inversion_def)

text \<open>The last \<open>permit\<close> leaves no task of higher priority behind, pending or not.\<close>

lemma permit_inv:
  assumes "sched_inv s"
  shows "sched_inv (permit s)"
    and "forbid_count (tasks s (current_task s)) = 1 \<Longrightarrow>
      \<forall>t\<in>set (running_tasks (permit s)). t_pri (tasks (permit s) t) \<le> t_pri (tasks (permit s) (current_task (permit s)))"
proof -
  let ?u = "upd_task (current_task s) (\<lambda>t. t\<lparr>forbid_count := forbid_count t - 1\<rparr>) s"
  have u: "sched_inv ?u"
    using assms by (auto simp: sched_inv_def sched_wf_upd_task current_wf_def current_ok_def no_inversion_def)
  note I = u[unfolded sched_inv_def]
  have S: "sched_inv (schedule ?u)" using I by (intro schedule_inv) auto
  show "sched_inv (permit s)" using u S by (simp add: permit_def Let_def)
  assume f: "forbid_count (tasks s (current_task s)) = 1"
  then have p: "preemptible ?u" by (simp add: preemptible_def)
  have n: "\<not> need_resched (schedule ?u)" using schedule_steps[OF _ _ p] I by blast
  show "\<forall>t\<in>set (running_tasks (permit s)). t_pri (tasks (permit s) t) \<le> t_pri (tasks (permit s) (current_task (permit s)))"
  proof (cases "need_resched s")
    case True
    then have "permit s = schedule ?u" using f by (simp add: permit_def Let_def)
    then show ?thesis using S n by (simp add: sched_inv_def no_inversion_def)
  next
    case False
    then have e: "permit s = ?u" by (simp add: permit_def Let_def)
    have "\<not> need_resched ?u" using False by simp
    then show ?thesis unfolding e using I unfolding no_inversion_def by blast
  qed
qed

text \<open>
  The steps.  A wake-up or a new task whose priority is above the current task's is a step
  only while pre-emption is allowed or inside an interrupt: \<open>forbidden_wake_is_lost\<close> (TaskSync)
  shows that the code loses the pre-emption when the task that forbids it wakes such a task itself.
\<close>

abbreviation may_preempt :: "'a sched_scheme \<Rightarrow> tid \<Rightarrow> bool" where
  "may_preempt s t \<equiv> preemptible s \<or> intr_nest_count s \<noteq> 0 \<or> t_pri (tasks s t) \<le> t_pri (tasks s (current_task s))"

inductive sched_step :: "'a sched_scheme \<Rightarrow> 'a sched_scheme \<Rightarrow> bool" where
  wake: "may_preempt s t \<Longrightarrow> sched_step s (wake_task t s)"
| suspend: "t \<in> set (running_tasks s) \<Longrightarrow> sched_step s (suspend_task t s)"
| append: "t \<notin> set (running_tasks s @ suspended_tasks s @ zombie_tasks s) \<Longrightarrow>
    \<not> test_mask (t_flags (tasks s t)) TASK_ZOMBIE \<Longrightarrow> t \<noteq> current_task s \<Longrightarrow> may_preempt s t \<Longrightarrow>
    sched_step s (append_task t s)"
| kill: "t \<notin> set (zombie_tasks s) \<Longrightarrow> sched_step s (snd (kill_task (\<lambda>_ s. s) t s))"
| resched: "sched_step s (schedule s)"
| tick: "sched_step s (quantum_tick s)"
| intr: "sched_step s (s\<lparr>intr_nest_count := k\<rparr>)"
| forbid: "sched_step s (forbid s)"
| permit: "sched_step s (permit s)"

inductive_cases sched_stepE: "sched_step s s'"

lemma sched_step_inv: "sched_step s s' \<Longrightarrow> sched_inv s \<Longrightarrow> sched_inv s'"
proof (induction rule: sched_step.induct)
  case (resched s)
  then show ?case by (intro schedule_inv) (simp_all add: sched_inv_def)
next
  case (intr s k)
  then show ?case by (simp add: sched_inv_def no_inversion_def)
qed (blast intro: wake_task_inv suspend_task_inv append_task_inv kill_task_inv quantum_tick_inv forbid_inv permit_inv(1))+

text \<open>
  C10: In every run of the scheduler (waking, suspending, adding and killing tasks, rescheduling,
  timer ticks, entering and leaving interrupts, forbidding and permitting pre-emption, nested in any
  way) the task lists stay well-formed, and no runnable task has a higher priority than the current
  task unless a reschedule is pending.  When the current task then permits pre-emption for the last
  time, the pending reschedule is done: no runnable task has a higher priority than the one that
  runs.  The one thing a run may not do is to wake or add a task of higher priority outside of
  interrupts while the current task forbids pre-emption.
\<close>

theorem no_priority_inversion:
  assumes "sched_step\<^sup>*\<^sup>* s s'" and "sched_inv s"
  shows "sched_wf s' \<and> (need_resched s' \<or>
    (\<forall>t\<in>set (running_tasks s'). t_pri (tasks s' t) \<le> t_pri (tasks s' (current_task s'))))
    \<and> (forbid_count (tasks s' (current_task s')) = 1 \<longrightarrow>
       (\<forall>t\<in>set (running_tasks (permit s')). t_pri (tasks (permit s') t) \<le> t_pri (tasks (permit s') (current_task (permit s')))))"
proof -
  have "sched_inv s'" using assms by (induction rule: rtranclp_induct) (auto intro: sched_step_inv)
  then show ?thesis using permit_inv(2)[of s'] by (auto simp: sched_inv_def no_inversion_def)
qed

text \<open>
  The current task forbids pre-emption, an interrupt wakes a task of higher priority, and the
  permit switches to it.
\<close>

definition sleeping :: sched where
  "sleeping = demo_sched\<lparr>need_resched := False, running_tasks := [0], suspended_tasks := [1],
     tasks := (\<lambda>_. demo_task)(1 := demo_task\<lparr>t_flags := 0, t_pri := 5\<rparr>)\<rparr>"

lemma sleeping_inv: "sched_inv sleeping"
  by (simp add: sched_inv_def no_inversion_def sleeping_def demo_sched_def demo_task_def sched_wf_def
      current_wf_def current_ok_def pri_sorted_def)

theorem no_priority_inversion_witness:
  "let s' = (wake_task 1 ((forbid sleeping)\<lparr>intr_nest_count := 1\<rparr>))\<lparr>intr_nest_count := 0\<rparr>
   in need_resched s' \<and> (\<forall>t\<in>set (running_tasks (permit s')).
        t_pri (tasks (permit s') t) \<le> t_pri (tasks (permit s') (current_task (permit s'))))"
proof -
  define a where "a = (forbid sleeping)\<lparr>intr_nest_count := 1\<rparr>"
  define s' where "s' = (wake_task 1 a)\<lparr>intr_nest_count := 0\<rparr>"
  have "sched_step sleeping (forbid sleeping)" "sched_step (forbid sleeping) a"
    unfolding a_def by (rule sched_step.forbid sched_step.intr)+
  moreover have "sched_step a (wake_task 1 a)" by (rule sched_step.wake) (simp add: a_def)
  moreover have "sched_step (wake_task 1 a) s'" unfolding s'_def by (rule sched_step.intr)
  ultimately have run: "sched_step\<^sup>*\<^sup>* sleeping s'" by (meson converse_rtranclp_into_rtranclp r_into_rtranclp)
  have "forbid_count (tasks s' (current_task s')) = 1" "need_resched s'"
    by (simp_all add: s'_def a_def forbid_def sleeping_def demo_sched_def demo_task_def wake_task_def preempt_def
        enqueue_task_def unlink_task_def upd_task_def Let_def)
  then show ?thesis
    using no_priority_inversion[OF run sleeping_inv] unfolding s'_def a_def Let_def by blast
qed

end
