(* ===== verification/TaskSync.thy ===== *)
theory TaskSync
  imports SchedCorrect
begin

text \<open>
  Waking up tasks from interrupt context, semaphores, and what \<open>forbid\<close> does to pre-emption.
\<close>

unbundle bit_operations_syntax

section \<open>Waking a task\<close>

abbreviation wakeable :: "'a sched_scheme \<Rightarrow> tid \<Rightarrow> bool" where
  "wakeable s t \<equiv> t_flags (tasks s t) AND (TASK_RUNNING OR TASK_FROZEN OR TASK_ZOMBIE) = 0"

definition woken :: "tid \<Rightarrow> 'a sched_scheme \<Rightarrow> 'a sched_scheme" where
  "woken t s = enqueue_task t (upd_task t (\<lambda>k. k\<lparr>t_flags := t_flags k OR TASK_RUNNING\<rparr>) (unlink_task t s))"

lemma wakeable_not_current:
  "wakeable s t \<Longrightarrow> task_running s (current_task s) \<Longrightarrow> t \<noteq> current_task s"
  unfolding and_or_zero by auto

lemma woken_simps [simp]:
  "current_task (woken t s) = current_task s" "need_resched (woken t s) = need_resched s"
  "intr_nest_count (woken t s) = intr_nest_count s" "zombies (woken t s) = zombies s"
  "set (running_tasks (woken t s)) = insert t (set (running_tasks s))"
  "tasks (woken t s) = (tasks s)(t := (tasks s t)\<lparr>t_flags := t_flags (tasks s t) OR TASK_RUNNING\<rparr>)"
  "zombie_tasks (woken t s) = removeAll t (zombie_tasks s)"
  "suspended_tasks (woken t s) = removeAll t (suspended_tasks s)"
  by (auto simp: woken_def)

lemma wake_task_woken:
  "wakeable s t \<Longrightarrow> t \<noteq> current_task s \<Longrightarrow> wake_task t s =
     (if t_pri (tasks s t) > t_pri (tasks s (current_task s)) then preempt (woken t s) else woken t s)"
  by (simp add: wake_task_def woken_def Let_def)

section \<open>Pre-emption while forbidden\<close>

lemma woken_wf:
  assumes "sched_wf s" "wakeable s t" shows "sched_wf (woken t s)"
proof -
  have f: "\<not> task_running s t" "\<not> test_mask (t_flags (tasks s t)) TASK_ZOMBIE"
    using assms(2) unfolding and_or_zero by simp_all
  define u where "u = upd_task t (\<lambda>k. k\<lparr>t_flags := t_flags k OR TASK_RUNNING\<rparr>) (unlink_task t s)"
  have "t \<notin> set (zombie_tasks s)" using f(2) assms(1) by (auto simp: sched_wf_def)
  then have "sched_wf u" unfolding u_def
    using assms(1) unlink_not_in by (intro sched_wf_upd_outside unlink_task_wf) auto
  moreover have "t_flags (tasks u t) = t_flags (tasks s t) OR TASK_RUNNING" by (simp add: u_def)
  moreover have "t \<notin> set (running_tasks u @ suspended_tasks u @ zombie_tasks u)" by (simp add: u_def)
  ultimately show ?thesis
    unfolding woken_def u_def[symmetric] using f by (intro enqueue_task_wf) (simp_all add: or_and_disjoint)
qed

text \<open>
  A pre-emption that falls due while the current task has pre-emption disabled (outside
  interrupts) is lost: wake_task calls schedule, which returns at once without setting
  need_resched, so the matching permit does not reschedule and the current task goes on running
  although a runnable task has a higher priority.
\<close>

theorem forbidden_wake_is_lost:
  assumes "sched_wf s" and "wakeable s t" and "task_running s (current_task s)"
    and "forbid_count (tasks s (current_task s)) = 1" and "intr_nest_count s = 0"
    and "\<not> need_resched s" and "t_pri (tasks s t) > t_pri (tasks s (current_task s))"
  shows "current_task (permit (wake_task t s)) = current_task s
    \<and> \<not> need_resched (permit (wake_task t s))
    \<and> forbid_count (tasks (permit (wake_task t s)) (current_task s)) = 0
    \<and> t \<in> set (running_tasks (permit (wake_task t s)))
    \<and> t_pri (tasks (permit (wake_task t s)) t)
        > t_pri (tasks (permit (wake_task t s)) (current_task s))"
proof -
  have t: "t \<noteq> current_task s" using assms(2,3) by (rule wakeable_not_current)
  define w where "w = woken t s"
  have "wake_task t s = schedule w"
    using wake_task_woken[OF assms(2) t] assms(5,7) by (simp add: preempt_def w_def)
  moreover have "\<not> preemptible w"
    using assms(3,4) t by (simp add: preemptible_def w_def)
  then have S: "same_sched w (schedule w)"
    using woken_wf[OF assms(1,2)] by (intro schedule_forbidden(1)) (simp_all add: w_def)
  note F = same_sched_task[OF S]
  have "current_task (schedule w) = current_task s" "\<not> need_resched (schedule w)"
    "running_tasks (schedule w) = running_tasks w"
    using S assms(6) by (simp_all add: same_sched_def w_def)
  ultimately show ?thesis
    using F t assms(4,7) by (simp add: permit_def Let_def w_def)
qed

definition forbidding :: sched where
  "forbidding = demo_sched\<lparr>need_resched := False, running_tasks := [0], suspended_tasks := [1],
     tasks := (\<lambda>_. demo_task)(0 := demo_task\<lparr>forbid_count := 1\<rparr>, 1 := demo_task\<lparr>t_flags := 0, t_pri := 5\<rparr>)\<rparr>"

theorem forbidden_wake_is_lost_witness:
  "current_task (permit (wake_task 1 forbidding)) = 0 \<and> \<not> need_resched (permit (wake_task 1 forbidding))"
proof -
  have "sched_wf forbidding"
    by (simp add: sched_wf_def forbidding_def demo_sched_def demo_task_def pri_sorted_def)
  moreover have "wakeable forbidding 1" "task_running forbidding (current_task forbidding)"
    "forbid_count (tasks forbidding (current_task forbidding)) = 1" "intr_nest_count forbidding = 0"
    "\<not> need_resched forbidding" "current_task forbidding = 0"
    "t_pri (tasks forbidding 1) > t_pri (tasks forbidding (current_task forbidding))"
    by (simp_all add: forbidding_def demo_sched_def demo_task_def)
  ultimately show ?thesis using forbidden_wake_is_lost[of forbidding 1] by simp
qed

section \<open>Semaphores\<close>

text \<open>
  signalling a semaphore with waiting tasks keeps it blocked and hands it to the task that
  has waited longest: that task becomes runnable, the others keep waiting in order, the current
  task goes on running, and a reschedule is requested if the woken task has a higher priority.
  Without waiting tasks the semaphore becomes free, and the next wait takes it without sleeping.
\<close>

theorem signal_hands_over:
  assumes "waiting sem = w # ws" and "t_pid (tasks s (tl_task w)) = tl_pid w"
    and "wakeable s (tl_task w)" and "tl_task w \<noteq> current_task s" and "0 \<le> intr_nest_count s"
  shows "fst (signal sem s) = sem\<lparr>waiting := ws\<rparr>
    \<and> tl_task w \<in> set (running_tasks (snd (signal sem s)))
    \<and> task_running (snd (signal sem s)) (tl_task w)
    \<and> current_task (snd (signal sem s)) = current_task s
    \<and> intr_nest_count (snd (signal sem s)) = intr_nest_count s
    \<and> (t_pri (tasks s (tl_task w)) > t_pri (tasks s (current_task s)) \<longrightarrow>
         need_resched (snd (signal sem s)))
    \<and> wait a (fst (signal (sem\<lparr>waiting := []\<rparr>) s)) s = (\<lparr>blocked = True, waiting = []\<rparr>, s)"
proof -
  let ?i = "s\<lparr>intr_nest_count := intr_nest_count s + 1\<rparr>"
  have "wakeable ?i (tl_task w)" using assms(3) by simp
  note W = wake_task_woken[OF this]
  have "snd (signal sem s) = (wake_task (tl_task w) ?i)\<lparr>intr_nest_count :=
      intr_nest_count (wake_task (tl_task w) ?i) - 1\<rparr>"
    using assms(1,2) by (simp add: signal_def wake_up_first_task_def Let_def wake_elt_def)
  moreover have "fst (signal sem s) = sem\<lparr>waiting := ws\<rparr>"
    using assms(1) by (simp add: signal_def wake_up_first_task_def Let_def)
  moreover have "wait a (fst (signal (sem\<lparr>waiting := []\<rparr>) s)) s = (\<lparr>blocked = True, waiting = []\<rparr>, s)"
    by (simp add: signal_def wait_def)
  ultimately show ?thesis using W assms(4,5) by (simp add: preempt_def)
qed

theorem signal_hands_over_witness:
  "1 \<in> set (running_tasks (snd (signal \<lparr>blocked = True, waiting = [\<lparr>tl_addr = 0, tl_task = 1, tl_pid = 1\<rparr>]\<rparr>
     forbidding)))"
  using signal_hands_over[of "\<lparr>blocked = True, waiting = [\<lparr>tl_addr = 0, tl_task = 1, tl_pid = 1\<rparr>]\<rparr>"
      "\<lparr>tl_addr = 0, tl_task = 1, tl_pid = 1\<rparr>" "[]" forbidding 0]
  by (simp add: forbidding_def demo_sched_def demo_task_def)

end
