(* ===== verification/Timer.thy ===== *)
theory Timer
  imports Sched
begin

text \<open>
  Timers and calendar time: kernel/misc/time.c and the timer requests of vmm/time.h.  A request
  is named by its owner; the functions timers call are a datatype of function names, run by an
  argument \<open>run\<close> of the timer interrupt that \<open>Machine\<close> instantiates with the devices' functions.
\<close>

unbundle bit_operations_syntax

section \<open>Timer requests\<close>

datatype timer_fn = vpit_timer_fn | rtc_update_fn | other_timer_fn u32

datatype timer_id = chan0_timer | rtc_timer | other_timer u32

datatype timer_action = TIMER_TASK semaphore | TIMER_FUNC timer_fn

record timer_req =
  wakeup_ticks :: u32
  action :: timer_action

record timers = sched +
  timer_reqs :: "timer_id \<Rightarrow> timer_req"
  timer_list :: "timer_id list"
  date :: u32

definition upd_req :: "timer_id \<Rightarrow> (timer_req \<Rightarrow> timer_req) \<Rightarrow> 'a timers_scheme \<Rightarrow> 'a timers_scheme" where
  "upd_req r f s = s\<lparr>timer_reqs := (timer_reqs s)(r := f (timer_reqs s r))\<rparr>"

definition set_timer_sem :: "timer_id \<Rightarrow> u32 \<Rightarrow> 'a timers_scheme \<Rightarrow> 'a timers_scheme" where
  "set_timer_sem r ticks = upd_req r (\<lambda>_. \<lparr>wakeup_ticks = ticks, action = TIMER_TASK set_sem_blocked\<rparr>)"

definition set_timer_func :: "timer_id \<Rightarrow> u32 \<Rightarrow> timer_fn \<Rightarrow> 'a timers_scheme \<Rightarrow> 'a timers_scheme" where
  "set_timer_func r ticks f = upd_req r (\<lambda>_. \<lparr>wakeup_ticks = ticks, action = TIMER_FUNC f\<rparr>)"

definition set_timer_interval :: "timer_id \<Rightarrow> u32 \<Rightarrow> 'a timers_scheme \<Rightarrow> 'a timers_scheme" where
  "set_timer_interval r ticks = upd_req r (\<lambda>q. q\<lparr>wakeup_ticks := ticks\<rparr>)"

text \<open>The request goes before the first one that is due no earlier.\<close>

definition add_timer :: "timer_id \<Rightarrow> 'a timers_scheme \<Rightarrow> 'a timers_scheme" where
  "add_timer r s =
     (let s1 = upd_req r (\<lambda>q. q\<lparr>wakeup_ticks := wakeup_ticks q + timer_ticks s\<rparr>) s;
          earlier = (\<lambda>x. wakeup_ticks (timer_reqs s1 x) < wakeup_ticks (timer_reqs s1 r))
      in s1\<lparr>timer_list := takeWhile earlier (timer_list s1) @ r # dropWhile earlier (timer_list s1)\<rparr>)"

definition remove_timer :: "timer_id \<Rightarrow> 'a timers_scheme \<Rightarrow> 'a timers_scheme" where
  "remove_timer r s = s\<lparr>timer_list := remove1 r (timer_list s)\<rparr>"

text \<open>\<open>sleep_for_ticks\<close> up to the switch to another task; the request is on the sleeper's stack.\<close>

definition sleep_for_ticks :: "u32 \<Rightarrow> u32 \<Rightarrow> 'a timers_scheme \<Rightarrow> 'a timers_scheme" where
  "sleep_for_ticks addr ticks s =
     (let r = other_timer addr;
          s1 = add_timer r (set_timer_sem r ticks s)
      in (case action (timer_reqs s1 r) of
            TIMER_TASK sem \<Rightarrow>
              (let (sem', s2) = wait addr sem s1 in upd_req r (\<lambda>q. q\<lparr>action := TIMER_TASK sem'\<rparr>) s2)
          | TIMER_FUNC _ \<Rightarrow> s1))"

definition sleep_for :: "u32 \<Rightarrow> u32 \<Rightarrow> 'a timers_scheme \<Rightarrow> 'a timers_scheme" where
  "sleep_for addr len = sleep_for_ticks addr (len * 1024)"

section \<open>The timer interrupt\<close>

type_synonym 's runner = "timer_fn \<Rightarrow> 's \<Rightarrow> 's option"

definition fire :: "'a timers_scheme runner \<Rightarrow> timer_id \<Rightarrow> 'a timers_scheme \<Rightarrow> 'a timers_scheme option" where
  "fire run r s =
     (case action (timer_reqs s r) of
        TIMER_TASK sem \<Rightarrow>
          (let (sem', s1) = signal sem s in Some (upd_req r (\<lambda>q. q\<lparr>action := TIMER_TASK sem'\<rparr>) s1))
      | TIMER_FUNC f \<Rightarrow> run f s)"

text \<open>
  The dispatch loop takes expired requests off the front; a function that adds a request that is
  due at once keeps it going, hence the option.
\<close>

partial_function (option) dispatch_timers ::
    "'a timers_scheme runner \<Rightarrow> 'a timers_scheme \<Rightarrow> 'a timers_scheme option" where
  "dispatch_timers run s =
     (case timer_list s of
        [] \<Rightarrow> Some s
      | r # rs \<Rightarrow>
          (if wakeup_ticks (timer_reqs s r) \<le> timer_ticks s
           then Option.bind (fire run r (s\<lparr>timer_list := rs\<rparr>)) (dispatch_timers run)
           else Some s))"

text \<open>
  \<open>cmos_timer\<close> for a periodic interrupt (status register C with bit 0x40), and the update of the
  date on the first update-ended interrupt (bit 0x10), whose date is read from the CMOS clock
  (argument \<open>cmos_date\<close>; \<open>got_date\<close> is the static flag).
\<close>

definition cmos_timer ::
    "'a timers_scheme runner \<Rightarrow> u8 \<Rightarrow> u32 \<Rightarrow> bool \<Rightarrow> 'a timers_scheme \<Rightarrow> (bool \<times> 'a timers_scheme) option" where
  "cmos_timer run status cmos_date got_date s =
     Option.bind
       (if test_mask status 0x40
        then (let s1 = s\<lparr>timer_ticks := timer_ticks s + 1\<rparr>;
                  s2 = (if timer_ticks s1 mod 1024 = 0 then s1\<lparr>date := date s1 + 1\<rparr> else s1)
              in map_option quantum_tick (dispatch_timers run s2))
        else Some s)
       (\<lambda>s3. if test_mask status 0x10 \<and> \<not> got_date
             then Some (True, s3\<lparr>date := cmos_date\<rparr>) else Some (got_date, s3))"

definition get_timer_ticks :: "'a timers_scheme \<Rightarrow> u32" where
  "get_timer_ticks s = timer_ticks s"

definition current_time :: "'a timers_scheme \<Rightarrow> u32" where
  "current_time s = date s"

section \<open>Calendar time\<close>

text \<open>\<open>mktime\<close>, on unsigned ints; the test is a signed one.\<close>

definition mktime :: "u32 \<Rightarrow> u32 \<Rightarrow> u32 \<Rightarrow> u32 \<Rightarrow> u32 \<Rightarrow> u32 \<Rightarrow> u32" where
  "mktime year0 mon0 day hour minu sec =
     (let m = mon0 - 2;
          (mon, year) = (if sint m \<le> 0 then (m + 12, year0 - 1) else (m, year0))
      in ((((year div 4 - year div 100 + year div 400 + 367 * mon div 12 + day)
            + year * 365 - 719499) * 24 + hour) * 60 + minu) * 60 + sec)"

text \<open>\<open>BCD_TO_BIN\<close> and \<open>BIN_TO_BCD\<close> of vmm/mc146818rtc.h on ints, and \<open>update_cmos_date\<close>'s conversion.\<close>

definition bcd_to_bin_int :: "u32 \<Rightarrow> u32" where
  "bcd_to_bin_int v = (v AND 15) + (drop_bit 4 v) * 10"

definition cmos_date_of :: "u8 \<Rightarrow> u8 \<Rightarrow> u8 \<Rightarrow> u8 \<Rightarrow> u8 \<Rightarrow> u8 \<Rightarrow> u32" where
  "cmos_date_of yr mo dy hr mi sc =
     (let f = (\<lambda>x::u8. bcd_to_bin_int (ucast x));
          y1 = f yr + 1900;
          y = (if sint y1 < 1970 then y1 + 100 else y1)
      in mktime y (f mo) (f dy) (f hr) (f mi) (f sc))"

definition leap_year :: "nat \<Rightarrow> bool" where
  "leap_year yr \<longleftrightarrow> yr mod 4 = 0 \<and> (yr mod 100 \<noteq> 0 \<or> yr mod 400 = 0)"

definition days_per_month :: "bool \<Rightarrow> nat list" where
  "days_per_month leap =
     (if leap then [31, 29, 31, 31, 30, 30, 31, 31, 30, 31, 30, 31]
      else [31, 28, 31, 31, 30, 30, 31, 31, 30, 31, 30, 31])"

record time_bits =
  tb_year :: nat
  tb_month :: nat
  tb_day :: nat
  tb_day_of_week :: nat
  tb_hour :: nat
  tb_minute :: nat
  tb_second :: nat

text \<open>The two loops of \<open>expand_time\<close>; running off the month table would need 366 days or more.\<close>

function expand_year :: "nat \<Rightarrow> nat \<Rightarrow> nat \<times> nat" where
  "expand_year year cal =
     (let nxt = (if leap_year year then 366 else 365)
      in if cal < nxt then (year, cal) else expand_year (year + 1) (cal - nxt))"
  by pat_completeness auto
termination by (relation "measure snd") (auto split: if_splits)

fun expand_month :: "nat list \<Rightarrow> nat \<Rightarrow> nat \<Rightarrow> nat \<times> nat" where
  "expand_month (nxt # rest) month cal =
     (if cal < nxt then (month, cal) else expand_month rest (month + 1) (cal - nxt))"
| "expand_month [] month cal = (month, cal)"

definition expand_time :: "u32 \<Rightarrow> time_bits" where
  "expand_time cal0 =
     (let c0 = unat cal0;
          c1 = c0 div 60; c2 = c1 div 60; c3 = c2 div 24;
          (year, c4) = expand_year 1970 c3;
          (month0, c5) = expand_month (days_per_month (leap_year year)) 0 c4;
          month = month0 + 1;
          day = c5 + 1;
          (wm, wy) = (if month \<le> 2 then (month + 12, year - 1) else (month, year))
      in \<lparr>tb_year = year, tb_month = month, tb_day = day,
          tb_day_of_week = (day + 2 * wm + 3 * (wm + 1) div 5 + wy div 4 - wy div 100 + wy div 400) mod 7,
          tb_hour = c2 mod 24, tb_minute = c1 mod 60, tb_second = c0 mod 60\<rparr>)"

end
