(* ===== verification/VmCore.thy ===== *)
theory VmCore
  imports Timer
begin

text \<open>
  The virtual machine: drivers/virtual/vm/vmach.c, the page-fault path of a virtual machine
  (kernel/mm/fault.c and \<open>vm_pfl_handler\<close> of drivers/virtual/vm/fault.c), the kernel's access to
  user memory, and the simulated interrupt.  The state holds one virtual machine, whose task is
  the current task whenever one of its traps is handled.  An operation of type option has the
  value \<open>None\<close> if it never returns (it halts the processor or loops).
\<close>

unbundle bit_operations_syntax

section \<open>State\<close>

text \<open>The interrupt and trap frame of virtual-8086 mode, \<open>struct vm86_regs\<close>.\<close>

record vm86_regs =
  eax :: u32
  ebx :: u32
  ecx :: u32
  edx :: u32
  edi :: u32
  esi :: u32
  ebp :: u32
  error_code :: u32
  eip :: u32
  cs :: u16
  eflags :: u32
  esp :: u32
  ss :: u16
  es :: u16
  ds :: u16
  fs :: u16
  gs :: u16

text \<open>I/O and service handlers are static structures of the devices, named here.\<close>

datatype io_id = master_ioh | slave_ioh | vpit_ioh | cmos_io | vdma_ioh u8 | vkbd_ioh | vide_ioh
  | printer_io nat | serial_io nat | other_ioh u32

record io_handler =
  io_name :: io_id
  low_port :: u16
  high_port :: u16

record arpl_handler =
  arpl_name :: u32
  arpl_low :: u16
  arpl_high :: u16

datatype kill_fn = kill_vpic_fn | kill_vpit_fn | delete_vcmos_fn | delete_vdma_fn
  | delete_vide_fn | delete_vprinter_fn | delete_vserial_fn | other_kill_fn u32

record vmach = timers +
  vm_task :: tid
  local_io :: "io_handler list"
  global_io :: "io_handler list"
  global_arpls :: "arpl_handler list"
  virtual_eflags :: u32
  kill_list :: "kill_fn list"
  hlted :: bool
  nmi_sts :: bool
  a20_state :: bool
  himem_ptes :: "u32 list"
  slot_bitmap :: u32
  empty_page :: u32
  base_mem :: u16
  extended_mem :: u16

abbreviation EFLAGS_VM :: u32 where "EFLAGS_VM \<equiv> 0x20000"
abbreviation FLAGS_DF :: u32 where "FLAGS_DF \<equiv> 0x400"
abbreviation FLAGS_IF :: u32 where "FLAGS_IF \<equiv> 0x200"
abbreviation FLAGS_TF :: u32 where "FLAGS_TF \<equiv> 0x100"
abbreviation FLAGS_CF :: u32 where "FLAGS_CF \<equiv> 1"
abbreviation USER_EFLAGS :: u32 where "USER_EFLAGS \<equiv> 0xcff"

definition STC :: "vm86_regs \<Rightarrow> vm86_regs" where
  "STC regs = regs\<lparr>eflags := eflags regs OR FLAGS_CF\<rparr>"

definition CLC :: "vm86_regs \<Rightarrow> vm86_regs" where
  "CLC regs = regs\<lparr>eflags := eflags regs AND NOT FLAGS_CF\<rparr>"

definition GET16 :: "u32 \<Rightarrow> u32" where "GET16 x = x AND 0xffff"
definition SET16 :: "u32 \<Rightarrow> u32 \<Rightarrow> u32" where "SET16 x v = (x AND 0xffff0000) OR (v AND 0xffff)"
definition GET8 :: "u32 \<Rightarrow> u32" where "GET8 x = x AND 0xff"
definition SET8 :: "u32 \<Rightarrow> u32 \<Rightarrow> u32" where "SET8 x v = (x AND 0xffffff00) OR (v AND 0xff)"
definition GET8H :: "u32 \<Rightarrow> u32" where "GET8H x = drop_bit 8 (x AND 0xff00)"
definition SET8H :: "u32 \<Rightarrow> u32 \<Rightarrow> u32" where
  "SET8H x v = (x AND 0xffff00ff) OR push_bit 8 (v AND 0xff)"

section \<open>Handlers\<close>

text \<open>\<open>add_io_handler (NULL, ioh)\<close> and \<open>add_io_handler (vm, ioh)\<close>.\<close>

definition add_io_handler :: "bool \<Rightarrow> io_handler \<Rightarrow> 'a vmach_scheme \<Rightarrow> 'a vmach_scheme" where
  "add_io_handler is_local ioh s =
     (if is_local then s\<lparr>local_io := ioh # local_io s\<rparr> else s\<lparr>global_io := ioh # global_io s\<rparr>)"

definition remove_io_handler :: "bool \<Rightarrow> io_handler \<Rightarrow> 'a vmach_scheme \<Rightarrow> 'a vmach_scheme" where
  "remove_io_handler is_local ioh s =
     (if is_local then s\<lparr>local_io := remove1 ioh (local_io s)\<rparr>
      else s\<lparr>global_io := remove1 ioh (global_io s)\<rparr>)"

fun find_io :: "u16 \<Rightarrow> io_handler list \<Rightarrow> io_handler option" where
  "find_io port [] = None"
| "find_io port (h # hs) = (if low_port h \<le> port \<and> port \<le> high_port h then Some h else find_io port hs)"

definition get_io_handler :: "u16 \<Rightarrow> 'a vmach_scheme \<Rightarrow> io_handler option" where
  "get_io_handler port s =
     (case find_io port (local_io s) of Some h \<Rightarrow> Some h | None \<Rightarrow> find_io port (global_io s))"

definition add_arpl_handler :: "arpl_handler \<Rightarrow> 'a vmach_scheme \<Rightarrow> 'a vmach_scheme" where
  "add_arpl_handler ah s = s\<lparr>global_arpls := ah # global_arpls s\<rparr>"

definition remove_arpl_handler :: "arpl_handler \<Rightarrow> 'a vmach_scheme \<Rightarrow> 'a vmach_scheme" where
  "remove_arpl_handler ah s = s\<lparr>global_arpls := remove1 ah (global_arpls s)\<rparr>"

definition get_arpl_handler :: "u16 \<Rightarrow> 'a vmach_scheme \<Rightarrow> arpl_handler option" where
  "get_arpl_handler svc s = find (\<lambda>ah. arpl_low ah \<le> svc \<and> svc \<le> arpl_high ah) (global_arpls s)"

definition add_vm_kill_handler :: "kill_fn \<Rightarrow> 'a vmach_scheme \<Rightarrow> 'a vmach_scheme" where
  "add_vm_kill_handler kh s = s\<lparr>kill_list := kh # kill_list s\<rparr>"

section \<open>Slots\<close>

text \<open>
  The \<open>bsf\<close> instruction: the index of the lowest set bit.  Its result is undefined for 0; the
  argument \<open>junk\<close> is what the destination register is left with.
\<close>

definition bsf :: "nat \<Rightarrow> 'a::len word \<Rightarrow> nat" where
  "bsf junk w = (case filter (bit w) [0..<LENGTH('a)] of [] \<Rightarrow> junk | i # _ \<Rightarrow> i)"

definition alloc_vm_slot :: "'a vmach_scheme \<Rightarrow> int \<times> 'a vmach_scheme" where
  "alloc_vm_slot s =
     (if slot_bitmap s \<noteq> 0xffffffff
      then (let slot = bsf 0 (NOT (slot_bitmap s))
            in (int slot, s\<lparr>slot_bitmap := slot_bitmap s OR push_bit slot 1\<rparr>))
      else (-1, s))"

definition free_vm_slot :: "int \<Rightarrow> 'a vmach_scheme \<Rightarrow> 'a vmach_scheme" where
  "free_vm_slot slot s =
     (if 0 \<le> slot \<and> slot < 32
      then s\<lparr>slot_bitmap := slot_bitmap s AND NOT (push_bit (nat slot) 1)\<rparr> else s)"

section \<open>Memory map and the A20 gate\<close>

definition vm_pd :: "'a vmach_scheme \<Rightarrow> u32" where
  "vm_pd s = t_page_dir (tasks s (vm_task s))"

text \<open>
  The three loops of \<open>fill_vm_page_dir\<close> step through kilobyte addresses 4 by 4; \<open>fill_ptes\<close> is
  such a loop, from \<open>x\<close> up to \<open>lim\<close> (both well below \<open>2 ^ 32\<close>).
\<close>

function fill_ptes :: "u32 \<Rightarrow> nat \<Rightarrow> nat \<Rightarrow> u32 \<Rightarrow> 'a vmach_scheme \<Rightarrow> 'a vmach_scheme" where
  "fill_ptes pd x lim pte s =
     (if x < lim then fill_ptes pd (x + 4) lim pte (set_pte pd (of_nat (x * 1024)) pte s) else s)"
  by pat_completeness auto
termination by (relation "measure (\<lambda>(pd, x, lim, pte, s). lim - x)") auto

definition fill_vm_page_dir :: "'a vmach_scheme \<Rightarrow> 'a vmach_scheme" where
  "fill_vm_page_dir s =
     (let pd = vm_pd s;
          ram = PTE_USER OR PTE_READ_WRITE OR PTE_FREEABLE;
          s1 = fill_ptes pd 0 (unat (base_mem s)) ram s;
          s2 = fill_ptes pd 640 1024 (to_physical (empty_page s) OR PTE_USER OR PTE_PRESENT) s1
      in fill_ptes pd 1024 (1024 + unat (extended_mem s)) ram s2)"

definition himem_addr :: "nat \<Rightarrow> u32" where
  "himem_addr i = 0x100000 + of_nat i * 4096"

definition lowmem_addr :: "nat \<Rightarrow> u32" where
  "lowmem_addr i = of_nat i * 4096"

definition set_gate_a20 :: "bool \<Rightarrow> 'a vmach_scheme \<Rightarrow> 'a vmach_scheme" where
  "set_gate_a20 state s =
     (if a20_state s = state then s
      else
        (let pd = vm_pd s;
             s1 = (if state
               then fold (\<lambda>i s. set_pte pd (himem_addr i) (himem_ptes s ! i) s) [0..<16] s
               else fold (\<lambda>i s.
                      (let s' = s\<lparr>himem_ptes := (himem_ptes s)[i := get_pte s pd (himem_addr i)]\<rparr>
                       in set_pte pd (himem_addr i)
                            (get_pte s' pd (lowmem_addr i) AND NOT PTE_FREEABLE) s')) [0..<16] s)
         in s1\<lparr>a20_state := state\<rparr>))"

section \<open>Page faults and user memory\<close>

text \<open>
  \<open>dump_regs (regs, TRUE)\<close> of kernel/traps/intrap.c, without its output: freeze and suspend the
  current task, or halt if the fault happened inside an interrupt.
\<close>

definition dump_regs :: "'a sched_scheme \<Rightarrow> 'a sched_scheme option" where
  "dump_regs s =
     (if intr_nest_count s > 1 then None
      else (let s0 = forbid s;
                cur = current_task s0;
                s1 = upd_task cur (\<lambda>t. t\<lparr>t_flags := t_flags t OR TASK_FROZEN\<rparr>) s0
            in Some (permit (suspend_task cur s1))))"

text \<open>The second half of \<open>vm_pfl_handler\<close>: map a new page in, minding the virtual A20 gate.\<close>

definition vm_pfl_missing :: "u32 \<Rightarrow> 'a vmach_scheme \<Rightarrow> 'a vmach_scheme" where
  "vm_pfl_missing lin_addr0 s =
     (let (new, s1) = alloc_page s;
          pd = t_page_dir (tasks s1 (current_task s1));
          lin_addr = (if \<not> a20_state s1 \<and> lin_addr0 \<ge> 0x100000 then lin_addr0 - 0x100000 else lin_addr0);
          pte = get_pte s1 pd lin_addr;
          s2 = map_page pd new (lin_addr AND 0xfffff000)
                 ((pte AND (PTE_USER OR PTE_READ_WRITE OR PTE_FREEABLE)) OR PTE_PRESENT) s1
      in if \<not> a20_state s2 \<and> lin_addr < 0x10000
         then map_page pd new ((lin_addr AND 0xfffff000) + 0x100000)
                ((pte AND (PTE_USER OR PTE_READ_WRITE)) OR PTE_PRESENT) s2
         else s2)"

text \<open>
  \<open>page_exception_handler\<close> of kernel/mm/fault.c for a not-present page touched by the kernel
  (error code 0) while the virtual machine's task, whose \<open>pfl_handler\<close> is \<open>vm_pfl_handler\<close>,
  is current.
\<close>

definition page_exception_missing :: "u32 \<Rightarrow> 'a vmach_scheme \<Rightarrow> 'a vmach_scheme option" where
  "page_exception_missing cr2 s =
     (let page_phys_addr = cr2 AND 0xfffff000
      in if page_phys_addr \<ge> 0xF8000000
            \<and> (page_phys_addr < 0xF8001000 \<or> page_phys_addr \<ge> kernel_brk s + 0xF8000000)
         then dump_regs s
         else Some (vm_pfl_missing cr2 s))"

text \<open>
  A byte access of the kernel to the user segment faults until the page is present, each fault
  running the handler.  \<open>get_user_byte\<close> and the others of vmm/segment.h are such accesses.
\<close>

partial_function (option) touch :: "u32 \<Rightarrow> 'a vmach_scheme \<Rightarrow> 'a vmach_scheme option" where
  "touch lin s =
     (if test_mask (get_pte s (t_page_dir (tasks s (current_task s))) lin) PTE_PRESENT then Some s
      else Option.bind (page_exception_missing lin s) (touch lin))"

definition user_addr :: "'a vmach_scheme \<Rightarrow> u32 \<Rightarrow> u32" where
  "user_addr s lin =
     to_logical (pte_get_addr (get_pte s (t_page_dir (tasks s (current_task s))) lin) OR page_offset lin)"

definition get_user_byte :: "u32 \<Rightarrow> 'a vmach_scheme \<Rightarrow> (u8 \<times> 'a vmach_scheme) option" where
  "get_user_byte lin s = map_option (\<lambda>s1. (load8 (mem s1) (user_addr s1 lin), s1)) (touch lin s)"

definition put_user_byte :: "u8 \<Rightarrow> u32 \<Rightarrow> 'a vmach_scheme \<Rightarrow> 'a vmach_scheme option" where
  "put_user_byte v lin s =
     map_option (\<lambda>s1. s1\<lparr>mem := store8 (mem s1) (user_addr s1 lin) v\<rparr>) (touch lin s)"

definition get_user_short :: "u32 \<Rightarrow> 'a vmach_scheme \<Rightarrow> (u16 \<times> 'a vmach_scheme) option" where
  "get_user_short lin s =
     Option.bind (get_user_byte lin s) (\<lambda>(lo, s1).
     map_option (\<lambda>(hi, s2). (ucast lo OR push_bit 8 (ucast hi), s2)) (get_user_byte (lin + 1) s1))"

definition put_user_short :: "u16 \<Rightarrow> u32 \<Rightarrow> 'a vmach_scheme \<Rightarrow> 'a vmach_scheme option" where
  "put_user_short v lin s =
     Option.bind (put_user_byte (ucast v) lin s) (put_user_byte (ucast (drop_bit 8 v)) (lin + 1))"

definition get_user_long :: "u32 \<Rightarrow> 'a vmach_scheme \<Rightarrow> (u32 \<times> 'a vmach_scheme) option" where
  "get_user_long lin s =
     Option.bind (get_user_short lin s) (\<lambda>(lo, s1).
     map_option (\<lambda>(hi, s2). (ucast lo OR push_bit 16 (ucast hi), s2)) (get_user_short (lin + 2) s1))"

definition put_user_long :: "u32 \<Rightarrow> u32 \<Rightarrow> 'a vmach_scheme \<Rightarrow> 'a vmach_scheme option" where
  "put_user_long v lin s =
     Option.bind (put_user_short (ucast v) lin s) (put_user_short (ucast (drop_bit 16 v)) (lin + 2))"

section \<open>Simulated interrupts\<close>

text \<open>\<open>seg_off\<close> is \<open>(seg << 4) + off\<close>.\<close>

definition seg_off :: "u16 \<Rightarrow> u32 \<Rightarrow> u32" where
  "seg_off seg off = push_bit 4 (ucast seg) + off"

definition push_far_sp :: "u32 \<Rightarrow> vm86_regs \<times> 'a vmach_scheme \<Rightarrow> vm86_regs \<times> 'a vmach_scheme" where
  "push_far_sp val = (\<lambda>(regs, s).
     (let regs' = regs\<lparr>esp := SET16 (esp regs) (GET16 (esp regs) - 2)\<rparr>
      in (regs', put_pd_val (vm_pd s) 2 val (seg_off (ss regs') (GET16 (esp regs'))) s)))"

definition simulate_vm_int :: "u32 \<Rightarrow> vm86_regs \<times> 'a vmach_scheme \<Rightarrow> vm86_regs \<times> 'a vmach_scheme" where
  "simulate_vm_int vector = (\<lambda>(regs, s).
     (let vec_phys_addr = lin_to_phys s (vm_pd s) (vector * 4);
          (r1, s1) = push_far_sp ((virtual_eflags s AND NOT USER_EFLAGS) OR (eflags regs AND USER_EFLAGS))
                       (regs, s);
          s2 = s1\<lparr>virtual_eflags := virtual_eflags s1 AND NOT (FLAGS_IF OR FLAGS_TF)\<rparr>;
          (r3, s3) = push_far_sp (ucast (cs r1)) (r1, s2);
          (r4, s4) = push_far_sp (eip r3) (r3, s3);
          r5 = r4\<lparr>cs := load16 (mem s4) (to_logical (vec_phys_addr + 2))\<rparr>;
          r6 = r5\<lparr>eip := SET16 (eip r5) (ucast (load16 (mem s4) (to_logical vec_phys_addr)))\<rparr>
      in (r6, s4)))"

end
