(* ===== verification/VPic.thy ===== *)
theory VPic
  imports VmCore
begin

text \<open>
  The virtual programmable interrupt controller, drivers/virtual/vpic/vpic.c: the pair of
  controllers in the virtual machine's slot, the port handlers, the raising of virtual
  interrupts and the return hook that delivers them.  \<open>slot_vpic s = None\<close> is a NULL slot.
\<close>

unbundle bit_operations_syntax

section \<open>State\<close>

datatype pic_state = Normal | WaitICW2 | WaitICW3 | WaitICW4 | ReadISR | ReadIRR

record vpic =
  base :: u8
  mask :: u8
  irr :: u8
  isr :: u8
  need_icw4 :: bool
  pic_state :: pic_state
  is_slave :: bool
  link :: u8

record vpic_pair =
  master :: vpic
  slave :: vpic

record vpics = vmach +
  slot_vpic :: "vpic_pair option"
  vpic_open_count :: int

definition new_vpic :: "u8 \<Rightarrow> bool \<Rightarrow> vpic" where
  "new_vpic b sl = \<lparr>base = b, mask = 0xFF, irr = 0, isr = 0, need_icw4 = False,
     pic_state = Normal, is_slave = sl, link = 0\<rparr>"

text \<open>\<open>mem_ok\<close>: whether \<open>calloc\<close> finds memory.\<close>

definition create_vpic :: "bool \<Rightarrow> 'a vpics_scheme \<Rightarrow> bool \<times> 'a vpics_scheme" where
  "create_vpic mem_ok s =
     (if mem_ok
      then (True,
        (add_vm_kill_handler kill_vpic_fn s)
          \<lparr>slot_vpic := Some \<lparr>master = new_vpic 0x08 False, slave = new_vpic 0x70 True\<rparr>,
           vpic_open_count := vpic_open_count s + 1\<rparr>)
      else (False, s))"

definition kill_vpic :: "'a vpics_scheme \<Rightarrow> 'a vpics_scheme" where
  "kill_vpic s =
     (case slot_vpic s of None \<Rightarrow> s
      | Some _ \<Rightarrow> s\<lparr>slot_vpic := None, vpic_open_count := vpic_open_count s - 1\<rparr>)"

section \<open>Delivering interrupts\<close>

definition set_return_hook :: "hook_fn option \<Rightarrow> 'a vpics_scheme \<Rightarrow> 'a vpics_scheme" where
  "set_return_hook h s = upd_task (vm_task s) (\<lambda>t. t\<lparr>return_hook := h\<rparr>) s"

abbreviation irq_bit :: "nat \<Rightarrow> u8" where "irq_bit i \<equiv> push_bit i 1"

text \<open>
  The choice \<open>vpic_return_hook\<close> makes: the new pair and the vector.  The slave's request
  register is scanned without a test for 0, \<open>junk\<close> is what \<open>bsf\<close> leaves then.
\<close>

definition deliver :: "nat \<Rightarrow> vpic_pair \<Rightarrow> vpic_pair \<times> u32" where
  "deliver junk pair =
     (let irq = bsf 0 (irr (master pair));
          m = (master pair)\<lparr>irr := irr (master pair) AND NOT (irq_bit irq), isr := irq_bit irq\<rparr>
      in if link m = irq_bit irq
         then (let sirq = bsf junk (irr (slave pair));
                   sl = (slave pair)\<lparr>irr := irr (slave pair) AND NOT (irq_bit sirq), isr := irq_bit sirq\<rparr>;
                   m' = (if irr sl \<noteq> 0
                         then m\<lparr>irr := (irr m OR irq_bit (unat (link sl))) AND NOT (mask m)\<rparr> else m)
               in (pair\<lparr>master := m', slave := sl\<rparr>, ucast (base sl) + of_nat sirq))
         else (pair\<lparr>master := m\<rparr>, ucast (base m) + of_nat irq))"

definition deliverable :: "vm86_regs \<Rightarrow> 'a vpics_scheme \<Rightarrow> bool" where
  "deliverable regs s \<longleftrightarrow> test_mask (eflags regs) EFLAGS_VM \<and> slot_vpic s \<noteq> None
     \<and> test_mask (virtual_eflags s) FLAGS_IF
     \<and> isr (master (the (slot_vpic s))) = 0 \<and> irr (master (the (slot_vpic s))) \<noteq> 0"

definition vpic_return_hook ::
    "nat \<Rightarrow> vm86_regs \<times> 'a vpics_scheme \<Rightarrow> vm86_regs \<times> 'a vpics_scheme" where
  "vpic_return_hook junk = (\<lambda>(regs, s).
     (let (r1, s1) =
            (if deliverable regs s
             then (let (pair, vector) = deliver junk (the (slot_vpic s))
                   in simulate_vm_int vector (regs, s\<lparr>slot_vpic := Some pair\<rparr>))
             else (regs, s))
      in (r1, case slot_vpic s1 of
                None \<Rightarrow> s1
              | Some pair \<Rightarrow> (if irr (master pair) = 0 then set_return_hook None s1 else s1))))"

definition install_return_hook :: "'a vpics_scheme \<Rightarrow> 'a vpics_scheme" where
  "install_return_hook s =
     (case slot_vpic s of
        None \<Rightarrow> s
      | Some pair \<Rightarrow>
          (if test_mask (virtual_eflags s) FLAGS_IF \<and> irr (master pair) \<noteq> 0
           then set_return_hook (Some vpic_return_hook_fn) s else s))"

definition IF_enabled :: "'a vpics_scheme \<Rightarrow> 'a vpics_scheme" where
  "IF_enabled = install_return_hook"

definition IF_disabled :: "'a vpics_scheme \<Rightarrow> 'a vpics_scheme" where
  "IF_disabled = set_return_hook None"

definition set_mask :: "bool \<Rightarrow> u16 \<Rightarrow> 'a vpics_scheme \<Rightarrow> 'a vpics_scheme" where
  "set_mask on m s =
     (case slot_vpic s of
        None \<Rightarrow> s
      | Some pair \<Rightarrow>
          s\<lparr>slot_vpic := Some (if on
             then pair\<lparr>master := (master pair)\<lparr>mask := mask (master pair) OR ucast (m AND 0xff)\<rparr>,
                       slave := (slave pair)\<lparr>mask := mask (slave pair) OR ucast (drop_bit 8 m)\<rparr>\<rparr>
             else pair\<lparr>master := (master pair)\<lparr>mask := mask (master pair) AND ucast (NOT m AND 0xff)\<rparr>,
                       slave := (slave pair)\<lparr>mask := mask (slave pair)
                         AND ucast (drop_bit 8 (NOT m) AND 0xff)\<rparr>\<rparr>)\<rparr>)"

text \<open>Latching a request: the controller's own register, and the master's cascade line.\<close>

definition raise_irq :: "nat \<Rightarrow> vpic_pair \<Rightarrow> vpic_pair" where
  "raise_irq irq pair =
     (if irq \<ge> 8
      then (let sl = (slave pair)\<lparr>irr := (irr (slave pair) OR irq_bit (irq - 8)) AND NOT (mask (slave pair))\<rparr>;
                p = pair\<lparr>slave := sl\<rparr>
            in if is_slave sl
               then p\<lparr>master := (master p)\<lparr>irr := (irr (master p) OR irq_bit (unat (link sl)))
                        AND NOT (mask (master p))\<rparr>\<rparr>
               else p)
      else (let m = (master pair)\<lparr>irr := (irr (master pair) OR irq_bit irq) AND NOT (mask (master pair))\<rparr>
            in if is_slave m
               then pair\<lparr>master := m\<lparr>irr := (irr m OR irq_bit (unat (link m))) AND NOT (mask m)\<rparr>\<rparr>
               else pair\<lparr>master := m\<rparr>))"

definition simulate_irq :: "nat \<Rightarrow> 'a vpics_scheme \<Rightarrow> 'a vpics_scheme" where
  "simulate_irq irq s =
     (case slot_vpic s of
        None \<Rightarrow> s
      | Some pair \<Rightarrow>
          (let s1 = s\<lparr>slot_vpic := Some (raise_irq irq pair)\<rparr>
           in if test_mask (virtual_eflags s1) FLAGS_IF
              then (let s2 = (if hlted s1 then (wake_task (vm_task s1) s1)\<lparr>hlted := False\<rparr> else s1)
                    in set_return_hook (Some vpic_return_hook_fn) s2)
              else s1))"

section \<open>The ports\<close>

text \<open>Command register (0x20, 0xA0): the new controller, and whether it was an EOI.\<close>

definition pic_command :: "u32 \<Rightarrow> vpic \<Rightarrow> vpic \<times> bool" where
  "pic_command val pic =
     (if pic_state pic = Normal
      then (if test_mask val 0x10
            then (pic\<lparr>pic_state := WaitICW2, need_icw4 := test_mask val 1\<rparr>, False)
            else if val AND 0x18 = 0
            then (if val AND 0xF8 = 0x20 \<or> val AND 0xF8 = 0x60
                  then (pic\<lparr>isr := 0\<rparr>, True) else (pic, False))
            else if val AND 0x18 = 0x08
            then (if test_mask val 2
                  then (pic\<lparr>pic_state := (if test_mask val 1 then ReadIRR else ReadISR)\<rparr>, False)
                  else (pic, False))
            else (pic, False))
      else (pic, False))"

text \<open>Data register (0x21, 0xA1): the mask, or the initialisation words.\<close>

definition pic_data :: "u32 \<Rightarrow> vpic \<Rightarrow> vpic" where
  "pic_data val pic =
     (case pic_state pic of
        Normal \<Rightarrow> pic\<lparr>mask := ucast val\<rparr>
      | WaitICW2 \<Rightarrow> pic\<lparr>base := ucast (val AND 7), pic_state := WaitICW3\<rparr>
      | WaitICW3 \<Rightarrow> pic\<lparr>link := (if is_slave pic then ucast (val AND 7) else ucast val),
                       pic_state := (if need_icw4 pic then WaitICW4 else Normal)\<rparr>
      | WaitICW4 \<Rightarrow> pic\<lparr>pic_state := Normal\<rparr>
      | _ \<Rightarrow> pic)"

definition upd_pic :: "u16 \<Rightarrow> vpic \<Rightarrow> vpic_pair \<Rightarrow> vpic_pair" where
  "upd_pic port pic pair =
     (if test_mask port 0x80 then pair\<lparr>slave := pic\<rparr> else pair\<lparr>master := pic\<rparr>)"

definition get_pic :: "u16 \<Rightarrow> vpic_pair \<Rightarrow> vpic" where
  "get_pic port pair = (if test_mask port 0x80 then slave pair else master pair)"

definition vpic_out :: "u16 \<Rightarrow> nat \<Rightarrow> u32 \<Rightarrow> 'a vpics_scheme \<Rightarrow> 'a vpics_scheme" where
  "vpic_out port sz val s =
     (case slot_vpic s of
        None \<Rightarrow> s
      | Some pair \<Rightarrow>
          (if sz = 1
           then (if port = 0x20 \<or> port = 0xA0
                 then (let (pic, eoi) = pic_command val (get_pic port pair);
                           s1 = s\<lparr>slot_vpic := Some (upd_pic port pic pair)\<rparr>
                       in if eoi then install_return_hook s1 else s1)
                 else if port = 0x21 \<or> port = 0xA1
                 then s\<lparr>slot_vpic := Some (upd_pic port (pic_data val (get_pic port pair)) pair)\<rparr>
                 else s)
           else s))"

definition pic_read :: "vpic \<Rightarrow> u32 \<times> vpic" where
  "pic_read pic =
     (case pic_state pic of ReadISR \<Rightarrow> ucast (isr pic) | ReadIRR \<Rightarrow> ucast (irr pic) | _ \<Rightarrow> -1,
      pic\<lparr>pic_state := Normal\<rparr>)"

definition vpic_in :: "u16 \<Rightarrow> nat \<Rightarrow> 'a vpics_scheme \<Rightarrow> u32 \<times> 'a vpics_scheme" where
  "vpic_in port sz s =
     (case slot_vpic s of
        None \<Rightarrow> (-1, s)
      | Some pair \<Rightarrow>
          (if sz = 1
           then (if port = 0x20 \<or> port = 0xA0
                 then (let (v, pic) = pic_read (get_pic port pair)
                       in (v, s\<lparr>slot_vpic := Some (upd_pic port pic pair)\<rparr>))
                 else if port = 0x21 \<or> port = 0xA1
                 then (ucast (mask (get_pic port pair)), s)
                 else (-1, s))
           else (-1, s)))"

text \<open>\<open>do_init\<close>: \<open>vm_ok\<close> tells whether the vm module can be opened.\<close>

definition vpic_do_init :: "bool \<Rightarrow> 'a vpics_scheme \<Rightarrow> bool \<times> 'a vpics_scheme" where
  "vpic_do_init vm_ok s =
     (if vm_ok
      then (let (slot, s1) = alloc_vm_slot s
            in if slot \<noteq> -1
               then (True, add_io_handler False \<lparr>io_name = slave_ioh, low_port = 0xA0, high_port = 0xA1\<rparr>
                      (add_io_handler False \<lparr>io_name = master_ioh, low_port = 0x20, high_port = 0x21\<rparr> s1))
               else (False, s1))
      else (False, s))"

end
