(* ===== verification/VPit.thy ===== *)
theory VPit
  imports VPic
begin

text \<open>
  The virtual programmable interval timer, drivers/virtual/vpit/vpit.c: three channels whose
  counters are derived from the kernel's 1024Hz ticks, and the timer request of channel 0 that
  raises virtual IRQ 0.
\<close>

unbundle bit_operations_syntax

datatype vpit_latch_state = counter_low | counter_high | status

record vpit_channel =
  command :: u8
  latch_state :: vpit_latch_state
  divisor :: u16
  interval_ticks :: u16
  start_ticks :: u32

text \<open>\<open>chan2_callback\<close> is set by the speaker emulation if there is one.\<close>

record vpit =
  channels :: "vpit_channel list"
  timer_ticking :: bool
  chan2_callback :: bool

record vpits = vpics +
  slot_vpit :: "vpit option"
  vpit_open_count :: int

abbreviation PIT_CMD_MODE :: u8 where "PIT_CMD_MODE \<equiv> 0x0e"
abbreviation PIT_CMD_LATCH :: u8 where "PIT_CMD_LATCH \<equiv> 0x30"
abbreviation PIT_CMD_LATCH_LSB :: u8 where "PIT_CMD_LATCH_LSB \<equiv> 0x10"
abbreviation PIT_CMD_LATCH_MSB :: u8 where "PIT_CMD_LATCH_MSB \<equiv> 0x20"

section \<open>Counters\<close>

definition get_divisor :: "u16 \<Rightarrow> u32" where
  "get_divisor d = (if d = 0 then 65536 else ucast d)"

definition calc_divisor_ticks :: "u16 \<Rightarrow> u32" where
  "calc_divisor_ticks d =
     (let ticks = (1024 * get_divisor d) div 1193180 in if ticks < 5 then 5 else ticks)"

definition cmos_to_timer_ticks :: "u32 \<Rightarrow> u32" where
  "cmos_to_timer_ticks ticks = ticks * (1193180 div 1024)"

text \<open>\<open>now\<close> is \<open>get_timer_ticks ()\<close>.\<close>

definition calc_counter :: "u32 \<Rightarrow> vpit_channel \<Rightarrow> u32" where
  "calc_counter now chan =
     (let elapsed = now - start_ticks chan;
          md = command chan AND PIT_CMD_MODE
      in if md = 0x00 \<or> md = 0x02 \<or> md = 0x08
         then (if elapsed > ucast (interval_ticks chan) then 0 else ucast (interval_ticks chan) - elapsed)
         else elapsed mod ucast (interval_ticks chan))"

definition calc_out_pin :: "u32 \<Rightarrow> vpit_channel \<Rightarrow> u32" where
  "calc_out_pin now chan =
     (let counter = calc_counter now chan;
          md = command chan AND PIT_CMD_MODE
      in if md = 0x00 \<or> md = 0x02 \<or> md = 0x04 then (if counter = 0 then 1 else 0)
         else if md = 0x06 then (if counter < get_divisor (divisor chan) div 2 then 1 else 0)
         else 0)"

section \<open>The channel 0 timer\<close>

definition set_vpit :: "vpit \<Rightarrow> 'a vpits_scheme \<Rightarrow> 'a vpits_scheme" where
  "set_vpit vp s = s\<lparr>slot_vpit := Some vp\<rparr>"

definition start_timer :: "'a vpits_scheme \<Rightarrow> 'a vpits_scheme" where
  "start_timer s =
     (case slot_vpit s of
        None \<Rightarrow> s
      | Some vp \<Rightarrow>
          (let md = command (channels vp ! 0) AND PIT_CMD_MODE
           in if md = 0x00 \<or> md = 0x04 \<or> md = 0x06
              then (let s1 = (if timer_ticking vp then remove_timer chan0_timer s else s);
                        s2 = set_timer_interval chan0_timer (ucast (interval_ticks (channels vp ! 0))) s1;
                        s3 = add_timer chan0_timer s2
                    in set_vpit (vp\<lparr>timer_ticking := True\<rparr>) s3)
              else s))"

definition kill_vpit :: "'a vpits_scheme \<Rightarrow> 'a vpits_scheme" where
  "kill_vpit s =
     (case slot_vpit s of
        None \<Rightarrow> s
      | Some vp \<Rightarrow>
          (remove_timer chan0_timer (s\<lparr>slot_vpit := None\<rparr>))\<lparr>vpit_open_count := vpit_open_count s - 1\<rparr>)"

definition new_channel :: "u8 \<Rightarrow> u16 \<Rightarrow> u32 \<Rightarrow> vpit_channel" where
  "new_channel cmd d now = \<lparr>command = cmd, latch_state = counter_low, divisor = d,
     interval_ticks = ucast (calc_divisor_ticks d), start_ticks = now\<rparr>"

definition create_vpit :: "bool \<Rightarrow> 'a vpits_scheme \<Rightarrow> bool \<times> 'a vpits_scheme" where
  "create_vpit mem_ok s =
     (if mem_ok
      then (let cmos_time = get_timer_ticks s;
                vp = \<lparr>channels = [new_channel 0x36 0 cmos_time, new_channel 0x34 18 cmos_time,
                        new_channel 0x36 1331 cmos_time],
                      timer_ticking = False, chan2_callback = False\<rparr>;
                s1 = set_timer_func chan0_timer 0 vpit_timer_fn s;
                s2 = add_vm_kill_handler kill_vpit_fn s1;
                s3 = (set_vpit vp s2)\<lparr>vpit_open_count := vpit_open_count s2 + 1\<rparr>;
                s4 = set_mask False 1 s3
            in (True, start_timer s4))
      else (False, s))"

definition vpit_timer_handler :: "'a vpits_scheme \<Rightarrow> 'a vpits_scheme" where
  "vpit_timer_handler s =
     (case slot_vpit s of
        None \<Rightarrow> s
      | Some vp \<Rightarrow> start_timer (simulate_irq 0 (set_vpit (vp\<lparr>timer_ticking := False\<rparr>) s)))"

section \<open>The ports\<close>

text \<open>
  A byte written to a counter port, on the channel and before the interval is recomputed: the new
  channel and whether the high byte completed a count.
\<close>

definition write_latch :: "u32 \<Rightarrow> vpit_channel \<Rightarrow> vpit_channel \<times> bool" where
  "write_latch val chan =
     (case latch_state chan of
        counter_low \<Rightarrow>
          (chan\<lparr>divisor := (divisor chan AND 0xff00) OR ucast (val AND 0xff),
                latch_state := (if test_mask (command chan) PIT_CMD_LATCH_MSB then counter_high
                                else counter_low)\<rparr>, False)
      | counter_high \<Rightarrow>
          (chan\<lparr>divisor := (divisor chan AND 0x00ff) OR ucast (push_bit 8 val),
                latch_state := (if test_mask (command chan) PIT_CMD_LATCH_LSB then counter_low
                                else counter_high)\<rparr>, True)
      | status \<Rightarrow> (chan, False))"

definition set_chan :: "nat \<Rightarrow> vpit_channel \<Rightarrow> vpit \<Rightarrow> vpit" where
  "set_chan i c vp = vp\<lparr>channels := array_set i c (channels vp)\<rparr>"

definition read_back_chan :: "u32 \<Rightarrow> vpit_channel \<Rightarrow> vpit_channel" where
  "read_back_chan val c = c\<lparr>latch_state := (if val AND 0x40 = 0 then status else counter_low)\<rparr>"

definition set_command :: "u32 \<Rightarrow> vpit_channel \<Rightarrow> vpit_channel" where
  "set_command val chan =
     (if val AND 0x30 = 0 then chan\<lparr>latch_state := counter_low\<rparr>
      else chan\<lparr>command := ucast val,
                latch_state := (if test_mask val 0x10 then counter_low
                                else if test_mask val 0x20 then counter_high else counter_low)\<rparr>)"

definition write_control :: "u32 \<Rightarrow> vpit \<Rightarrow> vpit" where
  "write_control val vp =
     (if val AND 0xc0 = 0xc0
      then (let f = (\<lambda>m i v. if test_mask val m then set_chan i (read_back_chan val (channels v ! i)) v else v)
            in f 0x08 2 (f 0x04 1 (f 0x02 0 vp)))
      else (let i = unat (drop_bit 6 val AND 3) in set_chan i (set_command val (channels vp ! i)) vp))"

text \<open>
  The first branch is the read-back command, 0xc0, so the channel of the second is 0, 1 or 2.
  \<open>callback\<close> is the function \<open>chan2_callback\<close> points to.  As in the code, the timer is started
  before the channel's interval is recomputed from its new divisor.
\<close>

definition vpit_out ::
    "('a vpits_scheme \<Rightarrow> 'a vpits_scheme) \<Rightarrow> u16 \<Rightarrow> nat \<Rightarrow> u32 \<Rightarrow> 'a vpits_scheme \<Rightarrow> 'a vpits_scheme" where
  "vpit_out callback port sz val s =
     (case slot_vpit s of
        None \<Rightarrow> s
      | Some vp \<Rightarrow>
          (if sz \<noteq> 1 then s
           else if port = 0x40 \<or> port = 0x41 \<or> port = 0x42
           then (let i = unat (port AND 3);
                     (chan, high) = write_latch val (channels vp ! i);
                     s1 = set_vpit (set_chan i chan vp) s;
                     s2 = (if high
                           then (if i = 0 then start_timer s1
                                 else if i = 2 \<and> chan2_callback vp then callback s1 else s1)
                           else s1)
                 in (case slot_vpit s2 of
                       None \<Rightarrow> s2
                     | Some vp2 \<Rightarrow>
                         (let c = channels vp2 ! i
                          in set_vpit (set_chan i (c\<lparr>interval_ticks := ucast (calc_divisor_ticks (divisor c)),
                                                     start_ticks := get_timer_ticks s2\<rparr>) vp2) s2)))
           else if port = 0x43 then set_vpit (write_control val vp) s
           else s))"

definition vpit_in :: "u16 \<Rightarrow> nat \<Rightarrow> 'a vpits_scheme \<Rightarrow> u32 \<times> 'a vpits_scheme" where
  "vpit_in port sz s =
     (case slot_vpit s of
        None \<Rightarrow> (-1, s)
      | Some vp \<Rightarrow>
          (if sz \<noteq> 1 then (-1, s)
           else if port = 0x40 \<or> port = 0x41 \<or> port = 0x42
           then (let i = unat (port AND 3);
                     chan = channels vp ! i;
                     now = get_timer_ticks s;
                     counter = calc_divisor_ticks (divisor chan) - calc_counter now chan;
                     upd = (\<lambda>l. set_vpit (set_chan i (chan\<lparr>latch_state := l\<rparr>) vp) s)
                 in case latch_state chan of
                      counter_low \<Rightarrow>
                        (cmos_to_timer_ticks counter AND 255,
                         upd (if test_mask (command chan) PIT_CMD_LATCH_MSB then counter_high else counter_low))
                    | counter_high \<Rightarrow>
                        (drop_bit 8 (cmos_to_timer_ticks counter),
                         upd (if test_mask (command chan) PIT_CMD_LATCH_LSB then counter_low else counter_high))
                    | status \<Rightarrow>
                        (ucast (ucast ((ucast (command chan AND 0x3f) :: u32)
                           OR push_bit 7 (calc_out_pin now chan)) :: u8),
                         upd (if test_mask (command chan) PIT_CMD_LATCH_MSB then counter_high else counter_low)))
           else if port = 0x43 then (0, s)
           else (-1, s)))"

definition get_vpit :: "'a vpits_scheme \<Rightarrow> vpit option" where
  "get_vpit s = slot_vpit s"

definition vpit_do_init :: "bool \<Rightarrow> bool \<Rightarrow> 'a vpits_scheme \<Rightarrow> bool \<times> 'a vpits_scheme" where
  "vpit_do_init vm_ok vpic_ok s =
     (if vm_ok \<and> vpic_ok
      then (let (slot, s1) = alloc_vm_slot s
            in if slot \<noteq> -1
               then (True, add_io_handler False \<lparr>io_name = vpit_ioh, low_port = 0x40, high_port = 0x43\<rparr> s1)
               else (False, s1))
      else (False, s))"

end
