(* ===== verification/VCmos.thy ===== *)
theory VCmos
  imports VPit
begin

text \<open>
  The virtual CMOS memory and real-time clock, drivers/virtual/vcmos/vcmos.c: 64 bytes of CMOS
  memory, the register port pair, the once-a-second clock update with its interrupts, and the
  BIOS time and date services.
\<close>

unbundle bit_operations_syntax

record vcmos =
  cmos_mem :: "u8 list"
  cmos_reg :: u8

record vcmoss = vpits +
  slot_vcmos :: "vcmos option"
  vcmos_open_count :: int
  got_cmos :: bool

abbreviation RTC_SECONDS :: nat where "RTC_SECONDS \<equiv> 0"
abbreviation RTC_SECONDS_ALARM :: nat where "RTC_SECONDS_ALARM \<equiv> 1"
abbreviation RTC_MINUTES :: nat where "RTC_MINUTES \<equiv> 2"
abbreviation RTC_MINUTES_ALARM :: nat where "RTC_MINUTES_ALARM \<equiv> 3"
abbreviation RTC_HOURS :: nat where "RTC_HOURS \<equiv> 4"
abbreviation RTC_HOURS_ALARM :: nat where "RTC_HOURS_ALARM \<equiv> 5"
abbreviation RTC_DAY_OF_WEEK :: nat where "RTC_DAY_OF_WEEK \<equiv> 6"
abbreviation RTC_DAY_OF_MONTH :: nat where "RTC_DAY_OF_MONTH \<equiv> 7"
abbreviation RTC_MONTH :: nat where "RTC_MONTH \<equiv> 8"
abbreviation RTC_YEAR :: nat where "RTC_YEAR \<equiv> 9"
abbreviation RTC_REG_A :: nat where "RTC_REG_A \<equiv> 10"
abbreviation RTC_CONTROL :: nat where "RTC_CONTROL \<equiv> 11"
abbreviation RTC_INTR_FLAGS :: nat where "RTC_INTR_FLAGS \<equiv> 12"
abbreviation RTC_REG_D :: nat where "RTC_REG_D \<equiv> 13"
abbreviation RTC_UIP :: u8 where "RTC_UIP \<equiv> 0x80"
abbreviation RTC_SET :: u8 where "RTC_SET \<equiv> 0x80"
abbreviation RTC_AIE :: u8 where "RTC_AIE \<equiv> 0x20"
abbreviation RTC_UIE :: u8 where "RTC_UIE \<equiv> 0x10"
abbreviation RTC_DM_BINARY :: u8 where "RTC_DM_BINARY \<equiv> 0x04"
abbreviation RTC_DST_EN :: u8 where "RTC_DST_EN \<equiv> 0x01"

section \<open>BCD\<close>

text \<open>The macros of vmm/mc146818rtc.h, on unsigned chars.\<close>

definition BCD_TO_BIN :: "u8 \<Rightarrow> u8" where
  "BCD_TO_BIN v = (v AND 15) + (drop_bit 4 v) * 10"

definition BIN_TO_BCD :: "u8 \<Rightarrow> u8" where
  "BIN_TO_BCD v = push_bit 4 (v div 10) + v mod 10"

section \<open>The clock\<close>

text \<open>
  \<open>days_per_month[l][mo]\<close>, two rows of 12 ints, indexed with the month from 1: month 12 of the
  first row is the first entry of the second, month 12 of the second row is past the array, where
  the argument \<open>beyond\<close> stands for what memory holds.
\<close>

definition days_table :: "nat list" where
  "days_table = [31, 28, 31, 31, 30, 30, 31, 31, 30, 31, 30, 31,
                 31, 29, 31, 31, 30, 30, 31, 31, 30, 31, 30, 31]"

definition days_in_month :: "(nat \<Rightarrow> int) \<Rightarrow> bool \<Rightarrow> u8 \<Rightarrow> int" where
  "days_in_month beyond leap mo =
     (let i = (if leap then 12 else 0) + unat mo
      in if i < 24 then int (days_table ! i) else beyond i)"

definition u8_leap :: "u8 \<Rightarrow> bool" where
  "u8_leap y \<longleftrightarrow> y mod 4 = 0 \<and> (y mod 100 \<noteq> 0 \<or> unat y mod 400 = 0)"

text \<open>The date part of \<open>rtc_update\<close>, at midnight.\<close>

definition rtc_date :: "(nat \<Rightarrow> int) \<Rightarrow> u8 list \<Rightarrow> u8 list" where
  "rtc_date beyond p =
     (let bcd = \<not> test_mask (p ! RTC_CONTROL) RTC_DM_BINARY;
          dec = (\<lambda>x. if bcd then BCD_TO_BIN x else x);
          enc = (\<lambda>x. if bcd then BIN_TO_BCD x else x);
          dw = (dec (p ! RTC_DAY_OF_WEEK) + 1) mod 7;
          dm = dec (p ! RTC_DAY_OF_MONTH) + 1;
          mo = dec (p ! RTC_MONTH);
          y = dec (p ! RTC_YEAR);
          (dm', mo', y', p') =
            (if uint dm \<le> days_in_month beyond (u8_leap y) mo then (dm, mo, y, p)
             else if mo + 1 \<le> 12 then (1, mo + 1, y, p)
             else if y + 1 \<le> 99 then (1, 1, y + 1, p)
             else (1, 1, 0, p[0x32 := BIN_TO_BCD (BCD_TO_BIN (p ! 0x32) + 1)]))
      in p'[RTC_DAY_OF_WEEK := enc dw, RTC_DAY_OF_MONTH := enc dm', RTC_MONTH := enc mo', RTC_YEAR := enc y'])"

text \<open>One second: the time of day, with the date when the hour wraps.\<close>

definition rtc_tick :: "(nat \<Rightarrow> int) \<Rightarrow> u8 list \<Rightarrow> u8 list" where
  "rtc_tick beyond p =
     (let bcd = \<not> test_mask (p ! RTC_CONTROL) RTC_DM_BINARY;
          dec = (\<lambda>x. if bcd then BCD_TO_BIN x else x);
          enc = (\<lambda>x. if bcd then BIN_TO_BCD x else x);
          h = dec (p ! RTC_HOURS); mi = dec (p ! RTC_MINUTES); s = dec (p ! RTC_SECONDS) + 1;
          (h', mi', s', p') =
            (if s mod 60 \<noteq> 0 then (h, mi, s, p)
             else if (mi + 1) mod 60 \<noteq> 0 then (h, mi + 1, 0, p)
             else if (h + 1) mod 24 \<noteq> 0 then (h + 1, 0, 0, p)
             else (0, 0, 0, rtc_date beyond p))
      in p'[RTC_HOURS := enc h', RTC_MINUTES := enc mi', RTC_SECONDS := enc s'])"

text \<open>The interrupt flags after a tick, and whether an interrupt is due.\<close>

definition rtc_flags :: "u8 list \<Rightarrow> u8 list \<times> bool" where
  "rtc_flags p =
     (let p0 = p[RTC_INTR_FLAGS := 0];
          uie = test_mask (p0 ! RTC_CONTROL) RTC_UIE;
          p1 = (if uie then p0[RTC_INTR_FLAGS := p0 ! RTC_INTR_FLAGS OR (0x80 OR 0x10)] else p0);
          alarm = test_mask (p1 ! RTC_CONTROL) RTC_AIE \<and> p1 ! RTC_HOURS = p1 ! RTC_HOURS_ALARM
            \<and> p1 ! RTC_MINUTES = p1 ! RTC_MINUTES_ALARM \<and> p1 ! RTC_SECONDS = p1 ! RTC_SECONDS_ALARM;
          p2 = (if alarm then p1[RTC_INTR_FLAGS := p1 ! RTC_INTR_FLAGS OR (0x80 OR 0x20)] else p1)
      in (p2, uie \<or> alarm))"

definition rtc_step :: "(nat \<Rightarrow> int) \<Rightarrow> u8 list \<Rightarrow> u8 list \<times> bool" where
  "rtc_step beyond p =
     (if test_mask (p ! RTC_CONTROL) RTC_SET then (p, False)
      else (let p1 = rtc_tick beyond (p[RTC_REG_A := p ! RTC_REG_A OR RTC_UIP]);
                (p2, doirq) = rtc_flags p1
            in (p2[RTC_REG_A := p2 ! RTC_REG_A AND NOT RTC_UIP], doirq)))"

definition set_vcmos :: "vcmos \<Rightarrow> 'a vcmoss_scheme \<Rightarrow> 'a vcmoss_scheme" where
  "set_vcmos v s = s\<lparr>slot_vcmos := Some v\<rparr>"

text \<open>\<open>vpic_ok\<close>: the vpic module was found at initialisation.  The slot is not NULL here.\<close>

definition rtc_update :: "bool \<Rightarrow> (nat \<Rightarrow> int) \<Rightarrow> 'a vcmoss_scheme \<Rightarrow> 'a vcmoss_scheme" where
  "rtc_update vpic_ok beyond s =
     (let v = the (slot_vcmos s);
          (p, doirq) = rtc_step beyond (cmos_mem v);
          s1 = set_vcmos (v\<lparr>cmos_mem := p\<rparr>) s;
          s2 = add_timer rtc_timer (set_timer_func rtc_timer 1024 rtc_update_fn (remove_timer rtc_timer s1))
      in if doirq \<and> vpic_ok then simulate_irq 8 s2 else s2)"

section \<open>The memory and the ports\<close>

definition recalc_checksum :: "vcmos \<Rightarrow> vcmos" where
  "recalc_checksum v =
     (let chksum = fold (\<lambda>i c. c + ucast (cmos_mem v ! i)) [0x10..<0x2e] (0::u16)
      in v\<lparr>cmos_mem := (cmos_mem v)[0x2E := ucast (drop_bit 8 chksum AND 0xff),
                                    0x2F := ucast (chksum AND 0xff)]\<rparr>)"

definition set_vcmos_byte :: "u32 \<Rightarrow> u8 \<Rightarrow> 'a vcmoss_scheme \<Rightarrow> 'a vcmoss_scheme" where
  "set_vcmos_byte addr val s =
     (let v = the (slot_vcmos s)
      in if addr < 0x3f
         then set_vcmos (recalc_checksum (v\<lparr>cmos_mem := array_set (unat addr) val (cmos_mem v)\<rparr>)) s
         else s)"

definition get_vcmos_byte :: "u32 \<Rightarrow> 'a vcmoss_scheme \<Rightarrow> u8" where
  "get_vcmos_byte addr s = (if addr < 0x3f then cmos_mem (the (slot_vcmos s)) ! unat addr else 0)"

definition vcmos_in :: "u16 \<Rightarrow> nat \<Rightarrow> 'a vcmoss_scheme \<Rightarrow> u32 \<times> 'a vcmoss_scheme" where
  "vcmos_in port sz s =
     (case slot_vcmos s of
        None \<Rightarrow> (-1, s)
      | Some v \<Rightarrow>
          (if unat (cmos_reg v) = RTC_INTR_FLAGS
           then (ucast (cmos_mem v ! RTC_INTR_FLAGS),
                 set_vcmos (v\<lparr>cmos_mem := (cmos_mem v)[RTC_INTR_FLAGS := 0]\<rparr>) s)
           else (ucast (cmos_mem v ! unat (cmos_reg v)), s)))"

definition vcmos_out :: "u16 \<Rightarrow> nat \<Rightarrow> u32 \<Rightarrow> 'a vcmoss_scheme \<Rightarrow> 'a vcmoss_scheme" where
  "vcmos_out port sz val s =
     (case slot_vcmos s of
        None \<Rightarrow> s
      | Some v \<Rightarrow>
          (if port = 0x70
           then set_vcmos (v\<lparr>cmos_reg := ucast (val AND 0x3f)\<rparr>) (s\<lparr>nmi_sts := test_mask val 0x80\<rparr>)
           else if port = 0x71
           then set_vcmos (v\<lparr>cmos_mem := array_set (unat (cmos_reg v)) (ucast val) (cmos_mem v)\<rparr>) s
           else s))"

section \<open>BIOS services\<close>

text \<open>The services test \<open>RTC_DM_BINARY\<close> and convert in the direction the code gives.\<close>

definition get_bcd_time :: "vm86_regs \<times> 'a vcmoss_scheme \<Rightarrow> vm86_regs \<times> 'a vcmoss_scheme" where
  "get_bcd_time = (\<lambda>(regs, s).
     (let p = cmos_mem (the (slot_vcmos s));
          f = (\<lambda>x. if test_mask (p ! RTC_CONTROL) RTC_DM_BINARY then BIN_TO_BCD x else x);
          r1 = regs\<lparr>ecx := SET8 (SET8H (ecx regs) (ucast (f (p ! RTC_HOURS)))) (ucast (f (p ! RTC_MINUTES))),
                    edx := SET8 (SET8H (edx regs) (ucast (f (p ! RTC_SECONDS))))
                             (if test_mask (p ! RTC_CONTROL) RTC_DST_EN then 0 else 1)\<rparr>
      in (if test_mask (p ! RTC_CONTROL) RTC_SET then STC r1 else CLC r1, s)))"

definition set_bcd_time :: "vm86_regs \<times> 'a vcmoss_scheme \<Rightarrow> vm86_regs \<times> 'a vcmoss_scheme" where
  "set_bcd_time = (\<lambda>(regs, s).
     (let v = the (slot_vcmos s); p = cmos_mem v;
          f = (\<lambda>x. if test_mask (p ! RTC_CONTROL) RTC_DM_BINARY then BCD_TO_BIN x else x);
          p1 = p[RTC_HOURS := f (ucast (GET8H (ecx regs))), RTC_MINUTES := f (ucast (GET8 (ecx regs))),
                 RTC_SECONDS := f (ucast (GET8H (edx regs)))];
          p2 = p1[RTC_CONTROL := (if GET8 (edx regs) \<noteq> 0 then p1 ! RTC_CONTROL OR RTC_DST_EN
                                  else p1 ! RTC_CONTROL AND NOT RTC_DST_EN)]
      in (regs, set_vcmos (v\<lparr>cmos_mem := p2\<rparr>) s)))"

definition get_bcd_date :: "vm86_regs \<times> 'a vcmoss_scheme \<Rightarrow> vm86_regs \<times> 'a vcmoss_scheme" where
  "get_bcd_date = (\<lambda>(regs, s).
     (let p = cmos_mem (the (slot_vcmos s));
          f = (\<lambda>x. if test_mask (p ! RTC_CONTROL) RTC_DM_BINARY then BCD_TO_BIN x else x);
          r1 = regs\<lparr>ecx := SET8 (SET8H (ecx regs) (ucast (p ! 0x32))) (ucast (f (p ! RTC_YEAR))),
                    edx := SET8 (SET8H (edx regs) (ucast (f (p ! RTC_MONTH)))) (ucast (f (p ! RTC_DAY_OF_MONTH)))\<rparr>
      in (if test_mask (p ! RTC_CONTROL) RTC_SET then STC r1 else CLC r1, s)))"

definition set_bcd_date :: "vm86_regs \<times> 'a vcmoss_scheme \<Rightarrow> vm86_regs \<times> 'a vcmoss_scheme" where
  "set_bcd_date = (\<lambda>(regs, s).
     (let v = the (slot_vcmos s);
          p = (cmos_mem v)[0x32 := ucast (GET8H (ecx regs))];
          f = (\<lambda>x. if test_mask (p ! RTC_CONTROL) RTC_DM_BINARY then BCD_TO_BIN x else x)
      in (regs, set_vcmos (v\<lparr>cmos_mem := p[RTC_YEAR := f (ucast (GET8 (ecx regs))),
            RTC_MONTH := f (ucast (GET8H (edx regs))), RTC_DAY_OF_MONTH := f (ucast (GET8 (edx regs)))]\<rparr>) s)))"

definition set_alarm :: "bool \<Rightarrow> vm86_regs \<times> 'a vcmoss_scheme \<Rightarrow> vm86_regs \<times> 'a vcmoss_scheme" where
  "set_alarm vpic_ok = (\<lambda>(regs, s).
     (let v = the (slot_vcmos s); p = cmos_mem v;
          f = (\<lambda>x. if test_mask (p ! RTC_CONTROL) RTC_DM_BINARY then BCD_TO_BIN x else x)
      in if test_mask (p ! RTC_CONTROL) (RTC_SET OR RTC_AIE) then (STC regs, s)
         else (let p1 = p[RTC_HOURS_ALARM := f (ucast (GET8H (ecx regs))),
                          RTC_MINUTES_ALARM := f (ucast (GET8 (ecx regs))),
                          RTC_SECONDS_ALARM := f (ucast (GET8H (edx regs))),
                          RTC_CONTROL := p ! RTC_CONTROL OR RTC_AIE];
                   s1 = set_vcmos (v\<lparr>cmos_mem := p1\<rparr>) s
               in (CLC regs, if vpic_ok then set_mask False 0x100 s1 else s1))))"

definition reset_alarm :: "'a vcmoss_scheme \<Rightarrow> 'a vcmoss_scheme" where
  "reset_alarm s =
     (let v = the (slot_vcmos s)
      in set_vcmos (v\<lparr>cmos_mem := (cmos_mem v)[RTC_CONTROL := cmos_mem v ! RTC_CONTROL AND NOT RTC_AIE]\<rparr>) s)"

section \<open>Creation and deletion\<close>

definition delete_vcmos :: "'a vcmoss_scheme \<Rightarrow> 'a vcmoss_scheme" where
  "delete_vcmos s =
     (case slot_vcmos s of
        None \<Rightarrow> s
      | Some _ \<Rightarrow>
          (remove_timer rtc_timer s)\<lparr>slot_vcmos := None, vcmos_open_count := vcmos_open_count s - 1\<rparr>)"

text \<open>
  The initial memory: \<open>hw\<close> is the physical CMOS, \<open>monitor\<close> and \<open>fpu\<close> the machine's monitor and
  coprocessor types; \<open>calloc\<close> clears all other bytes.
\<close>

definition initial_cmos :: "(nat \<Rightarrow> u8) \<Rightarrow> u8 \<Rightarrow> u8 \<Rightarrow> u16 \<Rightarrow> u16 \<Rightarrow> u8 list" where
  "initial_cmos hw monitor fpu bs ext =
     (map hw [0..<10] @ [hw RTC_REG_A, hw RTC_CONTROL AND NOT 0x70, 0, 0x80] @ replicate 50 0)
       [0x14 := push_bit 4 (monitor AND 3) OR 0x0D OR (if fpu \<noteq> 0 then 2 else 0),
        0x15 := ucast (bs AND 0xff), 0x16 := ucast (drop_bit 8 bs AND 0xff),
        0x17 := ucast (ext AND 0xff), 0x18 := ucast (drop_bit 8 ext AND 0xff),
        0x32 := hw 0x32, 0x33 := 0x80]"

definition create_vcmos ::
    "(nat \<Rightarrow> u8) \<Rightarrow> u8 \<Rightarrow> u8 \<Rightarrow> bool \<Rightarrow> 'a vcmoss_scheme \<Rightarrow> bool \<times> 'a vcmoss_scheme" where
  "create_vcmos hw monitor fpu mem_ok s =
     (if mem_ok
      then (let s1 = (add_vm_kill_handler delete_vcmos_fn s)
                       \<lparr>vcmos_open_count := vcmos_open_count s + 1, got_cmos := True\<rparr>;
                v = recalc_checksum \<lparr>cmos_mem = initial_cmos hw monitor fpu (base_mem s) (extended_mem s),
                                     cmos_reg = 0\<rparr>
            in (True, add_timer rtc_timer (set_timer_func rtc_timer 1024 rtc_update_fn (set_vcmos v s1))))
      else (False, s))"

definition vcmos_init :: "bool \<Rightarrow> 'a vcmoss_scheme \<Rightarrow> bool \<times> 'a vcmoss_scheme" where
  "vcmos_init vm_ok s =
     (if vm_ok
      then (let (slot, s1) = alloc_vm_slot s
            in if slot \<ge> 0
               then (True, add_io_handler False \<lparr>io_name = cmos_io, low_port = 0x70, high_port = 0x71\<rparr> s1)
               else (False, s1))
      else (False, s))"

end
