(* ===== verification/VDma.thy ===== *)
theory VDma
  imports VCmos
begin

text \<open>
  The virtual DMA controllers, drivers/virtual/vdma/vdma.c: two controllers of four channels, whose
  16-bit address and count registers are accessed a byte at a time under a flip-flop per register,
  and the page registers.
\<close>

unbundle bit_operations_syntax

record dma_chan =
  chan_page :: u8
  chan_address :: u16
  chan_len :: u16
  addr_l :: bool
  len_l :: bool

record dma_ctrl =
  chan :: "dma_chan list"
  stscmd :: u8
  dma_req :: u8
  dma_mask :: u8
  dma_mode :: u8
  clr_ff :: u8
  dma_temp :: u8
  clr_mask :: u8
  multi_reg :: u8

record vdma =
  dmac :: "dma_ctrl list"

record vdmas = vcmoss +
  slot_vdma :: "vdma option"
  vdma_open_count :: int
  got_dma :: bool

definition new_dma_chan :: dma_chan where
  "new_dma_chan = \<lparr>chan_page = 0, chan_address = 0, chan_len = 0, addr_l = False, len_l = False\<rparr>"

definition new_dma_ctrl :: dma_ctrl where
  "new_dma_ctrl = \<lparr>chan = replicate 4 new_dma_chan, stscmd = 0, dma_req = 0, dma_mask = 0,
     dma_mode = 0, clr_ff = 0, dma_temp = 0, clr_mask = 0, multi_reg = 0\<rparr>"

definition create_vdma :: "bool \<Rightarrow> 'a vdmas_scheme \<Rightarrow> bool \<times> 'a vdmas_scheme" where
  "create_vdma mem_ok s =
     (if mem_ok
      then (True, (add_vm_kill_handler (delete_vdma_fn) s)
              \<lparr>vdma_open_count := vdma_open_count s + 1,
               slot_vdma := Some \<lparr>dmac = [new_dma_ctrl, new_dma_ctrl]\<rparr>, got_dma := True\<rparr>)
      else (False, s))"

definition delete_vdma :: "'a vdmas_scheme \<Rightarrow> 'a vdmas_scheme" where
  "delete_vdma s =
     (case slot_vdma s of None \<Rightarrow> s
      | Some _ \<Rightarrow> s\<lparr>slot_vdma := None, vdma_open_count := vdma_open_count s - 1\<rparr>)"

section \<open>Registers\<close>

text \<open>
  The register a port names: a page register (controller, channel), or register \<open>r\<close> (0 to 15) of
  a controller; the second controller's ports are two apart.
\<close>

datatype dma_port = PageReg nat nat | CtrlReg nat u16 | NoReg

definition dma_port_of :: "u16 \<Rightarrow> dma_port" where
  "dma_port_of port =
     (if port \<le> 0x0F then CtrlReg 0 port
      else if port \<ge> 0xC0 then CtrlReg 1 (drop_bit 1 (port - 0xC0))
      else if port = 0x81 then PageReg 0 0
      else if port = 0x82 then PageReg 0 1
      else if port = 0x83 then PageReg 0 2
      else if port = 0x87 then PageReg 0 3
      else if port = 0x89 then PageReg 1 0
      else if port = 0x8A then PageReg 1 1
      else if port = 0x8B then PageReg 1 2
      else if port = 0x8F then PageReg 1 3
      else NoReg)"

text \<open>A read of an address or count register: the byte and the flipped flip-flop.\<close>

definition read_half :: "bool \<Rightarrow> u16 \<Rightarrow> u32" where
  "read_half low v = (if low then ucast (v AND 0xFF) else ucast (drop_bit 8 v AND 0xFF))"

definition write_half :: "bool \<Rightarrow> u32 \<Rightarrow> u16 \<Rightarrow> u16" where
  "write_half low val v =
     (if low then (v AND 0xFF00) OR ucast (val AND 0xFF)
      else (v AND 0x00FF) OR ucast (push_bit 8 val AND 0xFF00))"

definition upd_chan :: "nat \<Rightarrow> (dma_chan \<Rightarrow> dma_chan) \<Rightarrow> dma_ctrl \<Rightarrow> dma_ctrl" where
  "upd_chan i f d = d\<lparr>chan := array_set i (f (chan d ! i)) (chan d)\<rparr>"

text \<open>Registers 0 to 7 are address (even) and count (odd) of channel \<open>r div 2\<close>.\<close>

definition dma_read :: "u16 \<Rightarrow> dma_ctrl \<Rightarrow> u32 \<times> dma_ctrl" where
  "dma_read r d =
     (if r < 8
      then (let i = unat (r div 2); c = chan d ! i
            in if r mod 2 = 0
               then (read_half (addr_l c) (chan_address c), upd_chan i (\<lambda>c. c\<lparr>addr_l := \<not> addr_l c\<rparr>) d)
               else (read_half (len_l c) (chan_len c), upd_chan i (\<lambda>c. c\<lparr>len_l := \<not> len_l c\<rparr>) d))
      else (if r = 8 then ucast (stscmd d)
            else if r = 9 then ucast (dma_req d)
            else if r = 10 then ucast (dma_mask d)
            else if r = 11 then ucast (dma_mode d)
            else if r = 12 then ucast (clr_ff d)
            else if r = 13 then ucast (dma_temp d)
            else if r = 14 then ucast (clr_mask d)
            else if r = 15 then ucast (multi_reg d)
            else -1, d))"

definition dma_write :: "u16 \<Rightarrow> u32 \<Rightarrow> dma_ctrl \<Rightarrow> dma_ctrl" where
  "dma_write r val d =
     (if r < 8
      then upd_chan (unat (r div 2))
             (\<lambda>c. if r mod 2 = 0
                  then c\<lparr>chan_address := write_half (addr_l c) val (chan_address c), addr_l := \<not> addr_l c\<rparr>
                  else c\<lparr>chan_len := write_half (len_l c) val (chan_len c), len_l := \<not> len_l c\<rparr>) d
      else if r = 8 then d\<lparr>stscmd := ucast val\<rparr>
      else if r = 9 then d\<lparr>dma_req := ucast val\<rparr>
      else if r = 10 then d\<lparr>dma_mask := ucast val\<rparr>
      else if r = 11 then d\<lparr>dma_mode := ucast val\<rparr>
      else if r = 12 then d\<lparr>clr_ff := ucast val\<rparr>
      else if r = 13 then d\<lparr>dma_temp := ucast val\<rparr>
      else if r = 14 then d\<lparr>clr_mask := ucast val\<rparr>
      else if r = 15 then d\<lparr>multi_reg := ucast val\<rparr>
      else d)"

section \<open>The ports\<close>

definition upd_dmac :: "nat \<Rightarrow> dma_ctrl \<Rightarrow> vdma \<Rightarrow> vdma" where
  "upd_dmac k d v = v\<lparr>dmac := array_set k d (dmac v)\<rparr>"

definition vdma_in :: "u16 \<Rightarrow> nat \<Rightarrow> 'a vdmas_scheme \<Rightarrow> u32 \<times> 'a vdmas_scheme" where
  "vdma_in port sz s =
     (case slot_vdma s of
        None \<Rightarrow> (-1, s)
      | Some v \<Rightarrow>
          (case dma_port_of port of
             PageReg k c \<Rightarrow> (ucast (chan_page (chan (dmac v ! k) ! c)), s)
           | CtrlReg k r \<Rightarrow> (let (x, d) = dma_read r (dmac v ! k) in (x, s\<lparr>slot_vdma := Some (upd_dmac k d v)\<rparr>))
           | NoReg \<Rightarrow> (-1, s)))"

definition vdma_out :: "u16 \<Rightarrow> nat \<Rightarrow> u32 \<Rightarrow> 'a vdmas_scheme \<Rightarrow> 'a vdmas_scheme" where
  "vdma_out port sz val s =
     (case slot_vdma s of
        None \<Rightarrow> s
      | Some v \<Rightarrow>
          (case dma_port_of port of
             PageReg k c \<Rightarrow>
               s\<lparr>slot_vdma := Some (upd_dmac k (upd_chan c (\<lambda>c. c\<lparr>chan_page := ucast val\<rparr>) (dmac v ! k)) v)\<rparr>
           | CtrlReg k r \<Rightarrow> s\<lparr>slot_vdma := Some (upd_dmac k (dma_write r val (dmac v ! k)) v)\<rparr>
           | NoReg \<Rightarrow> s))"

definition vdma_init :: "bool \<Rightarrow> 'a vdmas_scheme \<Rightarrow> bool \<times> 'a vdmas_scheme" where
  "vdma_init vm_ok s =
     (if vm_ok
      then (let (slot, s1) = alloc_vm_slot s
            in if slot \<ge> 0
               then (True, add_io_handler False \<lparr>io_name = vdma_ioh 2, low_port = 0x80, high_port = 0x90\<rparr>
                      (add_io_handler False \<lparr>io_name = vdma_ioh 1, low_port = 0xC0, high_port = 0xDF\<rparr>
                        (add_io_handler False \<lparr>io_name = vdma_ioh 0, low_port = 0x00, high_port = 0x0F\<rparr> s1)))
               else (False, s1))
      else (False, s))"

end
