(* ===== verification/Keymap.thy ===== *)
theory Keymap
  imports Prelude
begin

text \<open>
  Keycodes: the table of keyboard layouts drivers/physical/kbd/keymaps/gb.h (an entry is a C
  string, a list of bytes without its terminating 0, or NULL), the lookup of
  drivers/physical/kbd/cooked.c, and the decoder of scan codes of drivers/physical/kbd/kbd.c.
\<close>

unbundle bit_operations_syntax

section \<open>Key maps\<close>

definition plain_keymap :: "u8 list option list" where
  "plain_keymap = [
     None, Some [27], Some [49], Some [50], Some [51], Some [52], Some [53], Some [54],
     Some [55], Some [56], Some [57], Some [48], Some [45], Some [61], Some [127], Some [9],
     Some [113], Some [119], Some [101], Some [114], Some [116], Some [121], Some [117], Some [105],
     Some [111], Some [112], Some [91], Some [93], Some [13], None, Some [97], Some [115],
     Some [100], Some [102], Some [103], Some [104], Some [106], Some [107], Some [108], Some [59],
     Some [39], Some [96], None, Some [35], Some [122], Some [120], Some [99], Some [118],
     Some [98], Some [110], Some [109], Some [44], Some [46], Some [47], None, Some [42],
     None, Some [32], None, Some [27, 91, 49, 49, 126], Some [27, 91, 49, 50, 126], Some [27, 91, 49, 51, 126], Some [27, 91, 49, 52, 126], Some [27, 91, 49, 53, 126],
     Some [27, 91, 49, 55, 126], Some [27, 91, 49, 56, 126], Some [27, 91, 49, 57, 126], Some [27, 91, 50, 48, 126], Some [27, 91, 50, 49, 126], None, None, Some [27, 91, 72],
     Some [27, 91, 65], Some [27, 91, 53, 126], Some [45], Some [27, 91, 68], None, Some [27, 91, 67], Some [43], Some [27, 79, 119],
     Some [27, 91, 66], Some [27, 91, 54, 126], Some [27, 91, 50, 126], Some [8], None, None, Some [92], Some [27, 91, 50, 51, 126],
     Some [27, 91, 50, 52, 126], None, None, None, None, None, None, None,
     Some [13], None, Some [47], None, None, None, Some [27, 91, 72], Some [27, 91, 65],
     Some [27, 91, 53, 126], Some [27, 91, 68], Some [27, 91, 67], Some [27, 91, 79, 119], Some [27, 91, 66], Some [27, 91, 54, 126], Some [27, 91, 50, 126], Some [8],
     None, None, None, None, None, None, None, None,
     None, None, None, None, None, None, None, None]"

definition numlock_keymap :: "u8 list option list" where
  "numlock_keymap = [
     None, Some [27], Some [49], Some [50], Some [51], Some [52], Some [53], Some [54],
     Some [55], Some [56], Some [57], Some [48], Some [45], Some [61], Some [127], Some [9],
     Some [113], Some [119], Some [101], Some [114], Some [116], Some [121], Some [117], Some [105],
     Some [111], Some [112], Some [91], Some [93], Some [13], None, Some [97], Some [115],
     Some [100], Some [102], Some [103], Some [104], Some [106], Some [107], Some [108], Some [59],
     Some [39], Some [96], None, Some [35], Some [122], Some [120], Some [99], Some [118],
     Some [98], Some [110], Some [109], Some [44], Some [46], Some [47], None, Some [42],
     None, Some [32], None, Some [27, 91, 49, 49, 126], Some [27, 91, 49, 50, 126], Some [27, 91, 49, 51, 126], Some [27, 91, 49, 52, 126], Some [27, 91, 49, 53, 126],
     Some [27, 91, 49, 55, 126], Some [27, 91, 49, 56, 126], Some [27, 91, 49, 57, 126], Some [27, 91, 50, 48, 126], Some [27, 91, 50, 49, 126], None, None, Some [55],
     Some [56], Some [57], Some [45], Some [52], Some [53], Some [54], Some [43], Some [49],
     Some [50], Some [51], Some [48], Some [46], None, None, Some [92], Some [27, 91, 50, 51, 126],
     Some [27, 91, 50, 52, 126], None, None, None, None, None, None, None,
     Some [13], None, Some [47], None, None, None, Some [27, 91, 72], Some [27, 91, 65],
     Some [27, 91, 53, 126], Some [27, 91, 68], Some [27, 91, 67], Some [27, 91, 79, 119], Some [27, 91, 66], Some [27, 91, 54, 126], Some [27, 91, 50, 126], Some [8],
     None, None, None, None, None, None, None, None,
     None, None, None, None, None, None, None, None]"

definition shift_keymap :: "u8 list option list" where
  "shift_keymap = [
     None, Some [27], Some [33], Some [34], Some [163], Some [36], Some [37], Some [94],
     Some [38], Some [42], Some [40], Some [41], Some [95], Some [43], Some [127], Some [9],
     Some [81], Some [87], Some [69], Some [82], Some [84], Some [89], Some [85], Some [73],
     Some [79], Some [80], Some [123], Some [125], Some [13], None, Some [65], Some [83],
     Some [68], Some [70], Some [71], Some [72], Some [74], Some [75], Some [76], Some [58],
     Some [64], Some [126], None, Some [126], Some [90], Some [88], Some [67], Some [86],
     Some [66], Some [78], Some [77], Some [60], Some [62], Some [63], None, Some [42],
     None, Some [32], None, Some [27, 91, 49, 49, 126], Some [27, 91, 49, 50, 126], Some [27, 91, 49, 51, 126], Some [27, 91, 49, 52, 126], Some [27, 91, 49, 53, 126],
     Some [27, 91, 49, 55, 126], Some [27, 91, 49, 56, 126], Some [27, 91, 49, 57, 126], Some [27, 91, 50, 48, 126], Some [27, 91, 50, 49, 126], None, None, Some [55],
     Some [56], Some [57], Some [45], Some [52], Some [53], Some [54], Some [43], Some [49],
     Some [50], Some [51], Some [48], Some [46], None, None, Some [124], Some [27, 91, 50, 51, 126],
     Some [27, 91, 50, 52, 126], None, None, None, None, None, None, None,
     Some [13], None, Some [47], None, None, None, Some [27, 91, 72], Some [27, 91, 65],
     Some [27, 91, 53, 126], Some [27, 91, 68], Some [27, 91, 67], Some [27, 91, 79, 119], Some [27, 91, 66], Some [27, 91, 54, 126], Some [27, 91, 50, 126], Some [8],
     None, None, None, None, None, None, None, None,
     None, None, None, None, None, None, None, None]"

definition shift_numlock_keymap :: "u8 list option list" where
  "shift_numlock_keymap = [
     None, Some [27], Some [33], Some [64], Some [35], Some [36], Some [37], Some [94],
     Some [38], Some [42], Some [40], Some [41], Some [95], Some [43], Some [127], Some [9],
     Some [81], Some [87], Some [69], Some [82], Some [84], Some [89], Some [85], Some [73],
     Some [79], Some [80], Some [123], Some [125], Some [13], None, Some [65], Some [83],
     Some [68], Some [70], Some [71], Some [72], Some [74], Some [75], Some [76], Some [58],
     Some [34], Some [126], None, Some [126], Some [90], Some [88], Some [67], Some [86],
     Some [66], Some [78], Some [77], Some [60], Some [62], Some [63], None, Some [42],
     None, Some [32], None, Some [27, 91, 49, 49, 126], Some [27, 91, 49, 50, 126], Some [27, 91, 49, 51, 126], Some [27, 91, 49, 52, 126], Some [27, 91, 49, 53, 126],
     Some [27, 91, 49, 55, 126], Some [27, 91, 49, 56, 126], Some [27, 91, 49, 57, 126], Some [27, 91, 50, 48, 126], Some [27, 91, 50, 49, 126], None, None, Some [27, 91, 72],
     Some [27, 91, 65], Some [27, 91, 53, 126], Some [45], Some [27, 91, 68], None, Some [27, 91, 67], Some [43], Some [27, 79, 119],
     Some [27, 91, 66], Some [27, 91, 54, 126], Some [27, 91, 50, 126], Some [8], None, None, Some [124], Some [27, 91, 50, 51, 126],
     Some [27, 91, 50, 52, 126], None, None, None, None, None, None, None,
     Some [13], None, Some [47], None, None, None, Some [27, 91, 72], Some [27, 91, 65],
     Some [27, 91, 53, 126], Some [27, 91, 68], Some [27, 91, 67], Some [27, 91, 79, 119], Some [27, 91, 66], Some [27, 91, 54, 126], Some [27, 91, 50, 126], Some [8],
     None, None, None, None, None, None, None, None,
     None, None, None, None, None, None, None, None]"

definition ctrl_keymap :: "u8 list option list" where
  "ctrl_keymap = [
     None, Some [27], Some [49], Some [50], Some [51], Some [52], Some [53], Some [54],
     Some [55], Some [56], Some [57], Some [48], Some [45], Some [61], Some [127], Some [8],
     Some [17], Some [23], Some [5], Some [18], Some [20], Some [25], Some [21], Some [9],
     Some [15], Some [16], Some [27], Some [29], Some [13], None, Some [1], Some [19],
     Some [4], Some [6], Some [7], Some [8], Some [10], Some [11], Some [12], Some [59],
     Some [39], Some [96], None, Some [35], Some [26], Some [24], Some [3], Some [22],
     Some [2], Some [14], Some [13], Some [44], Some [46], Some [31], None, Some [42],
     None, Some [], None, Some [27, 91, 49, 49, 126], Some [27, 91, 49, 50, 126], Some [27, 91, 49, 51, 126], Some [27, 91, 49, 52, 126], Some [27, 91, 49, 53, 126],
     Some [27, 91, 49, 55, 126], Some [27, 91, 49, 56, 126], Some [27, 91, 49, 57, 126], Some [27, 91, 50, 48, 126], Some [27, 91, 50, 49, 126], None, None, Some [27, 91, 72],
     Some [27, 91, 65], Some [27, 91, 53, 126], Some [45], Some [27, 91, 68], None, Some [27, 91, 67], Some [43], Some [27, 79, 119],
     Some [27, 91, 66], Some [27, 91, 54, 126], Some [27, 91, 50, 126], Some [8], None, None, Some [28], Some [27, 91, 50, 51, 126],
     Some [27, 91, 50, 52, 126], None, None, None, None, None, None, None,
     Some [13], None, Some [47], None, None, None, Some [27, 91, 72], Some [27, 91, 65],
     Some [27, 91, 53, 126], Some [27, 91, 68], Some [27, 91, 67], Some [27, 91, 79, 119], Some [27, 91, 66], Some [27, 91, 54, 126], Some [27, 91, 50, 126], Some [8],
     None, None, None, None, None, None, None, None,
     None, None, None, None, None, None, None, None]"

definition keymap :: "u8 list option list option list" where
  "keymap = [Some plain_keymap, Some shift_keymap, None, None,
             Some ctrl_keymap, Some ctrl_keymap, None, None,
             Some numlock_keymap, Some shift_numlock_keymap, None, None,
             Some ctrl_keymap, Some ctrl_keymap, None, None]"

abbreviation S_LEFT_SHIFT :: u32 where "S_LEFT_SHIFT \<equiv> 0x01"
abbreviation S_RIGHT_SHIFT :: u32 where "S_RIGHT_SHIFT \<equiv> 0x02"
abbreviation S_LEFT_CTRL :: u32 where "S_LEFT_CTRL \<equiv> 0x04"
abbreviation S_RIGHT_CTRL :: u32 where "S_RIGHT_CTRL \<equiv> 0x08"
abbreviation S_LEFT_ALT :: u32 where "S_LEFT_ALT \<equiv> 0x10"
abbreviation S_RIGHT_ALT :: u32 where "S_RIGHT_ALT \<equiv> 0x20"
abbreviation S_SHIFT :: u32 where "S_SHIFT \<equiv> 0x03"
abbreviation S_CTRL :: u32 where "S_CTRL \<equiv> 0x0c"
abbreviation S_ALT :: u32 where "S_ALT \<equiv> 0x30"
abbreviation L_SCROLL_LOCK :: u8 where "L_SCROLL_LOCK \<equiv> 1"
abbreviation L_NUM_LOCK :: u8 where "L_NUM_LOCK \<equiv> 2"
abbreviation L_CAPS_LOCK :: u8 where "L_CAPS_LOCK \<equiv> 4"

definition find_keymap :: "u32 \<Rightarrow> u8 \<Rightarrow> u8 list option list option" where
  "find_keymap shift lock =
     (let k0 = (if test_mask lock L_CAPS_LOCK then 1 else 0 :: u32);
          k1 = (if test_mask lock L_NUM_LOCK then k0 OR 8 else k0);
          k2 = (if test_mask shift S_SHIFT then k1 XOR 1 else k1);
          k3 = (if test_mask shift S_ALT then k2 OR 2 else k2);
          k4 = (if test_mask shift S_CTRL then k3 OR 4 else k3)
      in keymap ! unat k4)"

definition cook_keycode :: "u8 \<Rightarrow> u32 \<Rightarrow> u8 \<Rightarrow> u8 list option" where
  "cook_keycode key_code shift lock =
     (case find_keymap shift lock of None \<Rightarrow> None | Some km \<Rightarrow> km ! unat key_code)"

section \<open>Decoding scan codes\<close>

definition e0_key_codes :: "u8 list" where
  "e0_key_codes = [
     0, 0, 0, 0, 0, 0, 0, 0, 0, 0, 0, 0, 0, 0, 0, 0,
     0, 0, 0, 0, 0, 0, 0, 0, 0, 0, 0, 0, 0x60, 0x61, 0, 0,
     0, 0, 0, 0, 0, 0, 0, 0, 0, 0, 0, 0, 0, 0, 0, 0,
     0, 0, 0, 0, 0, 0x62, 0, 0x63, 0x64, 0, 0, 0, 0, 0, 0, 0,
     0, 0, 0, 0, 0, 0, 0x65, 0x66, 0x67, 0x68, 0, 0x69, 0, 0x6a, 0, 0x6b,
     0x6c, 0x6d, 0x6e, 0x6f, 0, 0, 0, 0, 0, 0, 0, 0, 0, 0, 0, 0,
     0, 0, 0, 0, 0, 0, 0, 0, 0, 0, 0, 0, 0, 0, 0, 0,
     0, 0, 0, 0, 0, 0, 0, 0, 0, 0, 0, 0, 0, 0, 0, 0]"

text \<open>
  The decoder's static variables, and what it does with a key: \<open>Use_key\<close> is the call of the
  focused keyboard's \<open>use_key\<close>; the others are the calls of the shell, tty and reset code.
\<close>

record kbd_decoder =
  dec_shift_state :: u32
  prev_scancode :: u32

datatype kbd_action = Use_key u32 u8 u8 | Hard_reset | Shell_to_front | Spawn_subshell
  | Next_tty | Prev_tty

definition set_shift_state :: "u32 \<Rightarrow> u8 \<Rightarrow> kbd_decoder \<Rightarrow> kbd_decoder" where
  "set_shift_state shift_mask up_code d =
     d\<lparr>dec_shift_state := (if up_code \<noteq> 0 then dec_shift_state d AND NOT shift_mask
                          else dec_shift_state d OR shift_mask)\<rparr>"

text \<open>The key code of a scan code that is not a prefix, 0 for none.\<close>

definition scan_key :: "u8 \<Rightarrow> kbd_decoder \<Rightarrow> u8 \<times> kbd_decoder" where
  "scan_key scan_code d =
     (let key_code = scan_code AND 0x7f
      in if prev_scancode d = 0xe0
         then (if key_code \<noteq> 0x2a \<and> key_code \<noteq> 0x36 then e0_key_codes ! unat key_code else 0,
               d\<lparr>prev_scancode := 0\<rparr>)
         else if prev_scancode d = 0xe1 \<and> key_code = 0x1d then (0, d\<lparr>prev_scancode := 0x100\<rparr>)
         else if prev_scancode d = 0x100 \<and> key_code = 0x45 then (0x77, d\<lparr>prev_scancode := 0\<rparr>)
         else (key_code, d))"

definition handle_key :: "u8 \<Rightarrow> u8 \<Rightarrow> kbd_decoder \<Rightarrow> kbd_action list \<times> kbd_decoder" where
  "handle_key key_code up_code d =
     (if key_code = 0 then ([], d)
      else if key_code = 0x6f \<and> test_mask (dec_shift_state d) S_ALT
              \<and> test_mask (dec_shift_state d) S_CTRL
      then ([Hard_reset], d)
      else if ((key_code = 0x4e \<or> key_code = 0x4a \<or> key_code = 0x01)
               \<and> test_mask (dec_shift_state d) S_ALT) \<or> key_code = 0x54
      then (if up_code = 0
            then ([if key_code = 0x54 then Shell_to_front
                   else if key_code = 0x01 then Spawn_subshell
                   else if key_code = 0x4e then Next_tty else Prev_tty], d)
            else ([], d))
      else (let d' = (if key_code = 0x38 then set_shift_state S_LEFT_ALT up_code d
                      else if key_code = 0x64 then set_shift_state S_RIGHT_ALT up_code d
                      else if key_code = 0x2a then set_shift_state S_LEFT_SHIFT up_code d
                      else if key_code = 0x36 then set_shift_state S_RIGHT_SHIFT up_code d
                      else if key_code = 0x1d then set_shift_state S_LEFT_CTRL up_code d
                      else if key_code = 0x61 then set_shift_state S_RIGHT_CTRL up_code d
                      else d)
            in ([Use_key (dec_shift_state d') key_code up_code], d')))"

definition kbd_scan :: "u8 \<Rightarrow> kbd_decoder \<Rightarrow> kbd_action list \<times> kbd_decoder" where
  "kbd_scan scan_code d =
     (if scan_code = 0xe0 \<or> scan_code = 0xe1 then ([], d\<lparr>prev_scancode := ucast scan_code\<rparr>)
      else (let (key_code, d1) = scan_key scan_code d in handle_key key_code (scan_code AND 0x80) d1))"

text \<open>
  \<open>kbd_handler\<close> on the bytes the controller has for it.  A hard reset does not return, so
  nothing follows it.
\<close>

fun kbd_handler :: "u8 list \<Rightarrow> kbd_decoder \<Rightarrow> kbd_action list \<times> kbd_decoder" where
  "kbd_handler [] d = ([], d)"
| "kbd_handler (c # codes) d =
     (let (as, d1) = kbd_scan c d
      in if as = [Hard_reset] then (as, d1)
         else (let (bs, d2) = kbd_handler codes d1 in (as @ bs, d2)))"

end
