(* ===== verification/VKbd.thy ===== *)
theory VKbd
  imports VDma Keymap
begin

text \<open>
  The virtual keyboard, drivers/virtual/vkbd/vkbd.c: the 8042 controller, the keyboard's command
  processor, the 8255 port, the ring buffer between them, the generation of scan codes from the
  console's key codes, and the BIOS keyboard interrupt.  \<open>slot_vkbd s\<close> is \<open>vm->tty->kbd.virtual\<close>,
  \<open>None\<close> if the tty's keyboard is not a virtual one.  Calls of the tty and kbd modules that touch
  only the console's hardware are events, listed in \<open>tty_events\<close>.
\<close>

unbundle bit_operations_syntax

section \<open>State\<close>

datatype tty_event = To_front | Speaker_on u32 | Speaker_off | Beep | Set_leds u8

record vkbd =
  in_focus :: bool
  status_byte :: u8
  command_byte :: u8
  input_port :: u8
  output_port :: u8
  this_8042_command :: u8
  mem_before :: "int \<Rightarrow> u32"
  kbuf :: "u32 list"
  in_pos :: int
  out_pos :: int
  this_kbd_command :: u8
  lock_state :: u8
  led_state :: u8
  output_8255 :: u8
  shift_state :: u32

record vkbds = vdmas +
  slot_vkbd :: "vkbd option"
  tty_events :: "tty_event list"

abbreviation VK_BUF_UP_KEY :: u32 where "VK_BUF_UP_KEY \<equiv> 0x00010000"
abbreviation VK_BUF_SHIFT :: u32 where "VK_BUF_SHIFT \<equiv> 0x00020000"

text \<open>
  \<open>buf\<close> and \<open>shift\<close> are what the memory of the structure held before; \<open>before\<close> is the memory in
  front of the 8042's registers as words indexed from \<open>buf\<close>: the vm pointer (-3), the flag and the
  function pointers of \<open>struct kbd\<close> (-4 to -7), and what precedes the structure.
\<close>

definition init_vkbd :: "(int \<Rightarrow> u32) \<Rightarrow> u32 list \<Rightarrow> u32 \<Rightarrow> bool \<Rightarrow> vkbd" where
  "init_vkbd before buf shift display_is_mda =
     \<lparr>in_focus = False, status_byte = 0x04, command_byte = 0x01 OR 0x04 OR 0x40,
      input_port = 0x10 OR (if display_is_mda then 0x40 else 0), output_port = 0x20,
      this_8042_command = 0, mem_before = before, kbuf = buf, in_pos = 0, out_pos = 0, this_kbd_command = 0,
      lock_state = 0, led_state = 0, output_8255 = 0x40, shift_state = shift\<rparr>"

definition upd_vkbd :: "(vkbd \<Rightarrow> vkbd) \<Rightarrow> 'a vkbds_scheme \<Rightarrow> 'a vkbds_scheme" where
  "upd_vkbd f s = s\<lparr>slot_vkbd := map_option f (slot_vkbd s)\<rparr>"

definition tty_event :: "tty_event \<Rightarrow> 'a vkbds_scheme \<Rightarrow> 'a vkbds_scheme" where
  "tty_event e s = s\<lparr>tty_events := tty_events s @ [e]\<rparr>"

abbreviation the_vkbd :: "'a vkbds_scheme \<Rightarrow> vkbd" where "the_vkbd s \<equiv> the (slot_vkbd s)"

section \<open>The ring buffer\<close>

text \<open>The remainder of the C language, truncated towards 0.\<close>

definition rem16 :: "int \<Rightarrow> int" where
  "rem16 x = (if x < 0 then - ((- x) mod 16) else x mod 16)"

definition vkbd_is_empty :: "vkbd \<Rightarrow> bool" where
  "vkbd_is_empty vk \<longleftrightarrow> in_pos vk = out_pos vk"

text \<open>
  \<open>buf[i]\<close>, also in front of the array: \<open>buf[-1]\<close> is \<open>this_8042_command\<close> and three bytes of padding
  (taken to be 0), \<open>buf[-2]\<close> the other four registers of the 8042.
\<close>

definition buf_at :: "vkbd \<Rightarrow> int \<Rightarrow> u32" where
  "buf_at vk i =
     (if i \<ge> 0 then kbuf vk ! nat i
      else if i = -1 then ucast (this_8042_command vk)
      else if i = -2
      then ucast (status_byte vk) OR push_bit 8 (ucast (command_byte vk))
           OR push_bit 16 (ucast (input_port vk)) OR push_bit 24 (ucast (output_port vk))
      else mem_before vk i)"

definition make_vkbd_irq :: "'a vkbds_scheme \<Rightarrow> 'a vkbds_scheme" where
  "make_vkbd_irq s =
     (if test_mask (command_byte (the_vkbd s)) 0x01 then simulate_irq 1 s else s)"

definition buf_put :: "u32 \<Rightarrow> vkbd \<Rightarrow> vkbd" where
  "buf_put val vk = vk\<lparr>kbuf := array_set (nat (in_pos vk)) val (kbuf vk), in_pos := rem16 (in_pos vk + 1),
     status_byte := status_byte vk OR 0x01, output_port := output_port vk OR 0x10\<rparr>"

definition vkbd_in :: "u32 \<Rightarrow> 'a vkbds_scheme \<Rightarrow> 'a vkbds_scheme" where
  "vkbd_in val s =
     (if rem16 (in_pos (the_vkbd s) + 1) = out_pos (the_vkbd s) then s
      else make_vkbd_irq (upd_vkbd (buf_put val) s))"

definition clear_full :: "vkbd \<Rightarrow> vkbd" where
  "clear_full vk = vk\<lparr>status_byte := status_byte vk AND NOT 0x01,
     output_port := output_port vk AND NOT 0x10\<rparr>"

definition vkbd_out :: "'a vkbds_scheme \<Rightarrow> u32 \<times> 'a vkbds_scheme" where
  "vkbd_out s =
     (let vk = the_vkbd s;
          c = buf_at vk (out_pos vk);
          s1 = upd_vkbd (\<lambda>vk. vk\<lparr>out_pos := rem16 (out_pos vk + 1)\<rparr>) s
      in (c, if vkbd_is_empty (the_vkbd s1) then upd_vkbd clear_full s1 else make_vkbd_irq s1))"

definition vkbd_empty :: "'a vkbds_scheme \<Rightarrow> 'a vkbds_scheme" where
  "vkbd_empty = upd_vkbd (\<lambda>vk. clear_full (vk\<lparr>out_pos := in_pos vk\<rparr>))"

definition vkbd_unout :: "'a vkbds_scheme \<Rightarrow> 'a vkbds_scheme" where
  "vkbd_unout s =
     (let new_pos = rem16 (out_pos (the_vkbd s) - 1)
      in if new_pos = in_pos (the_vkbd s) then vkbd_in 0x00 s
         else upd_vkbd (\<lambda>vk. vk\<lparr>out_pos := new_pos\<rparr>) s)"

section \<open>The ports\<close>

definition vkbd_read_port :: "u16 \<Rightarrow> nat \<Rightarrow> 'a vkbds_scheme \<Rightarrow> u32 \<times> 'a vkbds_scheme" where
  "vkbd_read_port port sz s =
     (case slot_vkbd s of
        None \<Rightarrow> (-1, s)
      | Some vk \<Rightarrow>
          (if sz \<noteq> 1 then (-1, s)
           else if port = 0x60
           then (if vkbd_is_empty vk then (0, s)
                 else (let (c, s1) = vkbd_out s in (c AND 0xff, s1)))
           else if port = 0x61
           then (ucast (output_8255 vk XOR 0x10), upd_vkbd (\<lambda>vk. vk\<lparr>output_8255 := output_8255 vk XOR 0x10\<rparr>) s)
           else if port = 0x64 then (ucast (status_byte vk), s)
           else (-1, s)))"

definition enable_vkbd :: "vkbd \<Rightarrow> vkbd" where
  "enable_vkbd vk = vk\<lparr>command_byte := command_byte vk AND NOT 0x10,
     output_8255 := output_8255 vk OR 0x40\<rparr>"

definition disable_vkbd :: "vkbd \<Rightarrow> vkbd" where
  "disable_vkbd vk = vk\<lparr>command_byte := command_byte vk OR 0x10,
     output_8255 := output_8255 vk AND NOT 0x40\<rparr>"

definition start_speaker :: "'a vkbds_scheme \<Rightarrow> 'a vkbds_scheme" where
  "start_speaker s =
     (case get_vpit s of
        None \<Rightarrow> s
      | Some vp \<Rightarrow> tty_event (Speaker_on (1193180 div get_divisor (divisor (channels vp ! 2)))) s)"

definition speaker_callback :: "'a vkbds_scheme \<Rightarrow> 'a vkbds_scheme" where
  "speaker_callback = start_speaker"

definition set_callback :: "bool \<Rightarrow> 'a vkbds_scheme \<Rightarrow> 'a vkbds_scheme" where
  "set_callback on s =
     (case get_vpit s of None \<Rightarrow> s | Some vp \<Rightarrow> set_vpit (vp\<lparr>chan2_callback := on\<rparr>) s)"

text \<open>Port 0x61.\<close>

definition write_8255 :: "u32 \<Rightarrow> 'a vkbds_scheme \<Rightarrow> 'a vkbds_scheme" where
  "write_8255 val s =
     (let old = (ucast (output_8255 (the_vkbd s)) :: u32);
          s1 = upd_vkbd (\<lambda>vk. vk\<lparr>output_8255 := ucast val\<rparr>) s;
          s2 = (if val AND 0x40 \<noteq> old AND 0x40
                then upd_vkbd (if test_mask val 0x40 then enable_vkbd else disable_vkbd) s1 else s1)
      in if val AND 0x02 \<noteq> old AND 0x02
         then (if test_mask val 0x02
               then (let s3 = tty_event To_front s2
                     in if test_mask val 0x01 then set_callback True (start_speaker s3)
                        else tty_event (Speaker_on 2000) s3)
               else tty_event Speaker_off (set_callback False s2))
         else s2)"

text \<open>Port 0x64: a command for the 8042.\<close>

definition command_8042 :: "u32 \<Rightarrow> 'a vkbds_scheme \<Rightarrow> 'a vkbds_scheme" where
  "command_8042 val s =
     (let s1 = upd_vkbd (\<lambda>vk. vk\<lparr>status_byte := status_byte vk OR 0x08, this_8042_command := 0\<rparr>) s;
          vk = the_vkbd s1
      in if val = 0x20 then vkbd_in (ucast (command_byte vk)) s1
         else if val = 0x60 \<or> val = 0xD1
         then upd_vkbd (\<lambda>vk. vk\<lparr>this_8042_command := ucast val\<rparr>) s1
         else if val = 0xAA then vkbd_in 0x55 s1
         else if val = 0xAB then vkbd_in 0x00 s1
         else if val = 0xAD then upd_vkbd disable_vkbd s1
         else if val = 0xAE then upd_vkbd enable_vkbd s1
         else if val = 0xC0 then vkbd_in (ucast (input_port vk)) s1
         else if val = 0xD0 then vkbd_in (ucast (output_port vk)) s1
         else s1)"

text \<open>The label \<open>do_kbd_cmd\<close>: a command for the keyboard.\<close>

definition do_kbd_cmd :: "u32 \<Rightarrow> 'a vkbds_scheme \<Rightarrow> 'a vkbds_scheme" where
  "do_kbd_cmd val s =
     (let s1 = upd_vkbd (\<lambda>vk. vk\<lparr>this_kbd_command := 0\<rparr>) s
      in if val = 0xED \<or> val = 0xF3
         then upd_vkbd (\<lambda>vk. vk\<lparr>this_kbd_command := ucast val\<rparr>) (vkbd_in 0xFA s1)
         else if val = 0xEE then vkbd_in 0xEE s1
         else if val = 0xF2 then vkbd_in 0xAB (vkbd_in 0x83 s1)
         else if val = 0xF4 \<or> val = 0xF5 \<or> val = 0xF6 then vkbd_in 0xFA (vkbd_empty s1)
         else if val = 0xFE then vkbd_unout s1
         else if val = 0xFF then vkbd_in 0xAA (vkbd_in 0xFA (vkbd_empty s1))
         else s1)"

text \<open>The second half of a command for the 8042, and of one for the keyboard.\<close>

definition argument_8042 :: "u32 \<Rightarrow> 'a vkbds_scheme \<Rightarrow> 'a vkbds_scheme" where
  "argument_8042 val s =
     (let vk = the_vkbd s;
          s1 = (if this_8042_command vk = 0x60 then upd_vkbd (\<lambda>vk. vk\<lparr>command_byte := ucast val\<rparr>) s
                else if this_8042_command vk = 0xD1
                then upd_vkbd (\<lambda>vk. vk\<lparr>output_port := ucast val\<rparr>)
                       (if val AND 0x02 \<noteq> ucast (output_port vk) AND 0x02
                        then set_gate_a20 (test_mask val 0x02) s else s)
                else s)
      in upd_vkbd (\<lambda>vk. vk\<lparr>this_8042_command := 0\<rparr>) s1)"

definition argument_kbd :: "u32 \<Rightarrow> 'a vkbds_scheme \<Rightarrow> 'a vkbds_scheme" where
  "argument_kbd val s =
     (let vk = the_vkbd s
      in if this_kbd_command vk = 0xED \<and> test_mask val 0x80 then do_kbd_cmd val s
         else upd_vkbd (\<lambda>vk. vk\<lparr>this_kbd_command := 0\<rparr>)
           (if this_kbd_command vk = 0xED
            then (let s1 = upd_vkbd (\<lambda>vk. vk\<lparr>led_state := ucast val\<rparr>) s
                  in vkbd_in 0xFA (if in_focus vk then tty_event (Set_leds (ucast val)) s1 else s1))
            else if this_kbd_command vk = 0xF3 then vkbd_in 0xFA s
            else s))"

definition vkbd_write_port :: "u16 \<Rightarrow> nat \<Rightarrow> u32 \<Rightarrow> 'a vkbds_scheme \<Rightarrow> 'a vkbds_scheme" where
  "vkbd_write_port port sz val s =
     (case slot_vkbd s of
        None \<Rightarrow> s
      | Some _ \<Rightarrow>
          (if sz \<noteq> 1 then s
           else if port = 0x61 then write_8255 val s
           else if port = 0x64 then command_8042 val s
           else if port = 0x60
           then (let s1 = upd_vkbd (\<lambda>vk. vk\<lparr>status_byte := status_byte vk AND NOT 0x08\<rparr>) s
                 in if this_8042_command (the_vkbd s1) \<noteq> 0 then argument_8042 val s1
                    else if this_kbd_command (the_vkbd s1) \<noteq> 0 then argument_kbd val s1
                    else do_kbd_cmd val s1)
           else s))"

section \<open>Scan codes\<close>

text \<open>
  The strings of scan codes of the key codes from 0x60, by the state of Num Lock and the shift
  keys; an entry is the bytes of the C string, \<open>None\<close> for NULL.
\<close>

definition plain_e0_down_remap :: "u8 list option list" where
  "plain_e0_down_remap = [
     Some [0xE0, 0x1C], Some [0xE0, 0x1D], Some [0xE0, 0x35], Some [0xE0, 0x2A, 0xE0, 0x37],
     Some [0xE0, 0x38], Some [0xE0, 0x46, 0xE0, 0xC6], Some [0xE0, 0x47], Some [0xE0, 0x48],
     Some [0xE0, 0x49], Some [0xE0, 0x4B], Some [0xE0, 0x4D], Some [0xE0, 0x4F],
     Some [0xE0, 0x50], Some [0xE0, 0x51], Some [0xE0, 0x52], Some [0xE0, 0x53],
     None, None, None, None, None, None, None, None,
     None, None, None, Some [0xE1, 0x1D, 0x45, 0xE1, 0x9D, 0xC5], None, None, None, None]"

definition plain_e0_up_remap :: "u8 list option list" where
  "plain_e0_up_remap = [
     Some [0xE0, 0x9C], Some [0xE0, 0x9D], Some [0xE0, 0xB5], Some [0xE0, 0xAA, 0xE0, 0xB7],
     Some [0xE0, 0xB8], None, Some [0xE0, 0xC7], Some [0xE0, 0xC8],
     Some [0xE0, 0xC9], Some [0xE0, 0xCB], Some [0xE0, 0xCD], Some [0xE0, 0xCF],
     Some [0xE0, 0xD0], Some [0xE0, 0xD1], Some [0xE0, 0xD2], Some [0xE0, 0xD3],
     None, None, None, None, None, None, None, None,
     None, None, None, None, None, None, None, None]"

definition num_lock_e0_down_remap :: "u8 list option list" where
  "num_lock_e0_down_remap = [
     Some [0xE0, 0x1C], Some [0xE0, 0x1D], Some [0xE0, 0x35], Some [0xE0, 0x2A, 0xE0, 0x37],
     Some [0xE0, 0x38], Some [0xE0, 0x46, 0xE0, 0xC6], Some [0xE0, 0x2A, 0xE0, 0x47], Some [0x2A, 0x48, 0xE0, 0x48],
     Some [0xE0, 0x2A, 0xE0, 0x49], Some [0xE0, 0x2A, 0xE0, 0x4B], Some [0xE0, 0x2A, 0xE0, 0x4D], Some [0xE0, 0x2A, 0xE0, 0x4F],
     Some [0xE0, 0x2A, 0xE0, 0x50], Some [0xE0, 0x2A, 0xE0, 0x51], Some [0xE0, 0x2A, 0xE0, 0x52], Some [0xE0, 0x2A, 0xE0, 0x53],
     None, None, None, None, None, None, None, None,
     None, None, None, Some [0xE1, 0x1D, 0x45, 0xE1, 0x9D, 0xC5], None, None, None, None]"

definition num_lock_e0_up_remap :: "u8 list option list" where
  "num_lock_e0_up_remap = [
     Some [0xE0, 0x9C], Some [0xE0, 0x9D], Some [0xE0, 0xB5], Some [0xE0, 0xAA, 0xE0, 0xB7],
     Some [0xE0, 0xB8], None, Some [0xE0, 0xC7, 0xE0, 0xAA], Some [0xE0, 0xC8, 0xE0, 0xAA],
     Some [0xE0, 0xC9, 0xE0, 0xAA], Some [0xE0, 0xCB, 0xE0, 0xAA], Some [0xE0, 0xCD, 0xE0, 0xAA], Some [0xE0, 0xCF, 0xE0, 0xAA],
     Some [0xE0, 0xD0, 0xE0, 0xAA], Some [0xE0, 0xD1, 0xE0, 0xAA], Some [0xE0, 0xD2, 0xE0, 0xAA], Some [0xE0, 0xD3, 0xE0, 0xAA],
     None, None, None, None, None, None, None, None,
     None, None, None, None, None, None, None, None]"

definition left_shift_e0_down_remap :: "u8 list option list" where
  "left_shift_e0_down_remap = [
     Some [0xE0, 0x1C], Some [0xE0, 0x1D], Some [0xE0, 0xAA, 0xE0, 0x35], Some [0xE0, 0x2A, 0xE0, 0x37],
     Some [0xE0, 0x38], Some [0xE0, 0x46, 0xE0, 0xC6], Some [0xE0, 0xAA, 0xE0, 0x47], Some [0xAA, 0x48, 0xE0, 0x48],
     Some [0xE0, 0xAA, 0xE0, 0x49], Some [0xE0, 0xAA, 0xE0, 0x4B], Some [0xE0, 0xAA, 0xE0, 0x4D], Some [0xE0, 0xAA, 0xE0, 0x4F],
     Some [0xE0, 0xAA, 0xE0, 0x50], Some [0xE0, 0xAA, 0xE0, 0x51], Some [0xE0, 0xAA, 0xE0, 0x52], Some [0xE0, 0xAA, 0xE0, 0x53],
     None, None, None, None, None, None, None, None,
     None, None, None, Some [0xE1, 0x1D, 0x45, 0xE1, 0x9D, 0xC5], None, None, None, None]"

definition left_shift_e0_up_remap :: "u8 list option list" where
  "left_shift_e0_up_remap = [
     Some [0xE0, 0x9C], Some [0xE0, 0x9D], Some [0xE0, 0xB5, 0xE0, 0x2A], Some [0xE0, 0xAA, 0xE0, 0xB7],
     Some [0xE0, 0xB8], None, Some [0xE0, 0xC7, 0xE0, 0x2A], Some [0xE0, 0xC8, 0xE0, 0x2A],
     Some [0xE0, 0xC9, 0xE0, 0x2A], Some [0xE0, 0xCB, 0xE0, 0x2A], Some [0xE0, 0xCD, 0xE0, 0x2A], Some [0xE0, 0xCF, 0xE0, 0x2A],
     Some [0xE0, 0xD0, 0xE0, 0x2A], Some [0xE0, 0xD1, 0xE0, 0x2A], Some [0xE0, 0xD2, 0xE0, 0x2A], Some [0xE0, 0xD3, 0xE0, 0x2A],
     None, None, None, None, None, None, None, None,
     None, None, None, None, None, None, None, None]"

definition right_shift_e0_down_remap :: "u8 list option list" where
  "right_shift_e0_down_remap = [
     Some [0xE0, 0x1C], Some [0xE0, 0x1D], Some [0xE0, 0xB6, 0xE0, 0x35], Some [0xE0, 0x2A, 0xE0, 0x37],
     Some [0xE0, 0x38], Some [0xE0, 0x46, 0xE0, 0xC6], Some [0xE0, 0xB6, 0xE0, 0x47], Some [0xB6, 0x48, 0xE0, 0x48],
     Some [0xE0, 0xB6, 0xE0, 0x49], Some [0xE0, 0xB6, 0xE0, 0x4B], Some [0xE0, 0xB6, 0xE0, 0x4D], Some [0xE0, 0xB6, 0xE0, 0x4F],
     Some [0xE0, 0xB6, 0xE0, 0x50], Some [0xE0, 0xB6, 0xE0, 0x51], Some [0xE0, 0xB6, 0xE0, 0x52], Some [0xE0, 0xB6, 0xE0, 0x53],
     None, None, None, None, None, None, None, None,
     None, None, None, Some [0xE1, 0x1D, 0x45, 0xE1, 0x9D, 0xC5], None, None, None, None]"

definition right_shift_e0_up_remap :: "u8 list option list" where
  "right_shift_e0_up_remap = [
     Some [0xE0, 0x9C], Some [0xE0, 0x9D], Some [0xE0, 0xB5, 0xE0, 0x36], Some [0xE0, 0xAA, 0xE0, 0xB7],
     Some [0xE0, 0xB8], None, Some [0xE0, 0xC7, 0xE0, 0x36], Some [0xE0, 0xC8, 0xE0, 0x36],
     Some [0xE0, 0xC9, 0xE0, 0x36], Some [0xE0, 0xCB, 0xE0, 0x36], Some [0xE0, 0xCD, 0xE0, 0x36], Some [0xE0, 0xCF, 0xE0, 0x36],
     Some [0xE0, 0xD0, 0xE0, 0x36], Some [0xE0, 0xD1, 0xE0, 0x36], Some [0xE0, 0xD2, 0xE0, 0x36], Some [0xE0, 0xD3, 0xE0, 0x36],
     None, None, None, None, None, None, None, None,
     None, None, None, None, None, None, None, None]"


definition remap_table :: "u32 \<Rightarrow> u8 \<Rightarrow> u8 \<Rightarrow> u8 list option list" where
  "remap_table shift lock up_code =
     (if test_mask shift S_SHIFT \<and> test_mask lock L_NUM_LOCK
      then (if up_code \<noteq> 0 then plain_e0_up_remap else plain_e0_down_remap)
      else if test_mask lock L_NUM_LOCK
      then (if up_code \<noteq> 0 then num_lock_e0_up_remap else num_lock_e0_down_remap)
      else if test_mask shift S_LEFT_SHIFT
      then (if up_code \<noteq> 0 then left_shift_e0_up_remap else left_shift_e0_down_remap)
      else if test_mask shift S_RIGHT_SHIFT
      then (if up_code \<noteq> 0 then right_shift_e0_up_remap else right_shift_e0_down_remap)
      else (if up_code \<noteq> 0 then plain_e0_up_remap else plain_e0_down_remap))"

text \<open>\<open>cooked ? *cooked << 8 : 0\<close>; a C char is signed and a C string ends with a 0.\<close>

definition cooked_bits :: "u8 list option \<Rightarrow> u32" where
  "cooked_bits cooked =
     (case cooked of None \<Rightarrow> 0 | Some [] \<Rightarrow> 0 | Some (c # _) \<Rightarrow> push_bit 8 (scast c))"

text \<open>The loop over a string of scan codes: only the first carries the character.\<close>

fun put_scan_codes :: "u32 \<Rightarrow> u8 list option \<Rightarrow> u8 list \<Rightarrow> 'a vkbds_scheme \<Rightarrow> 'a vkbds_scheme" where
  "put_scan_codes vk_flags cooked [] s = s"
| "put_scan_codes vk_flags cooked (c # codes) s =
     put_scan_codes vk_flags None codes (vkbd_in (vk_flags OR cooked_bits cooked OR scast c) s)"

definition lock_bit :: "u8 \<Rightarrow> u8" where
  "lock_bit key_code = (if key_code = 0x3a then L_CAPS_LOCK else if key_code = 0x45 then L_NUM_LOCK
     else if key_code = 0x46 then L_SCROLL_LOCK else 0)"

definition is_shift_key :: "u8 \<Rightarrow> bool" where
  "is_shift_key key_code \<longleftrightarrow> key_code \<in> {0x3a, 0x45, 0x46, 0x1d, 0x2a, 0x36, 0x38, 0x61, 0x64}"

definition vkbd_use_key :: "u32 \<Rightarrow> u8 \<Rightarrow> u8 \<Rightarrow> 'a vkbds_scheme \<Rightarrow> 'a vkbds_scheme" where
  "vkbd_use_key shift key_code up_code s =
     (let s1 = upd_vkbd (\<lambda>vk. vk\<lparr>shift_state := shift\<rparr>) s;
          s2 = (if up_code = 0
                then upd_vkbd (\<lambda>vk. vk\<lparr>lock_state := lock_state vk XOR lock_bit key_code\<rparr>) s1 else s1);
          vk_flags = (if up_code \<noteq> 0 then VK_BUF_UP_KEY
                      else if is_shift_key key_code then VK_BUF_SHIFT else 0);
          lock = lock_state (the_vkbd s2);
          cooked = (if up_code = 0 then cook_keycode key_code shift lock else None)
      in if key_code < 0x60
         then vkbd_in (vk_flags OR cooked_bits cooked OR ucast key_code OR ucast up_code) s2
         else (case remap_table shift lock up_code ! unat (key_code - 0x60) of
                 None \<Rightarrow> s2
               | Some scan_codes \<Rightarrow> put_scan_codes vk_flags cooked scan_codes s2))"

definition put_codes :: "u32 list \<Rightarrow> 'a vkbds_scheme \<Rightarrow> 'a vkbds_scheme" where
  "put_codes codes s = fold vkbd_in codes s"

definition vkbd_switch_from :: "u32 \<Rightarrow> 'a vkbds_scheme \<Rightarrow> 'a vkbds_scheme" where
  "vkbd_switch_from shift s =
     put_codes ((if test_mask shift S_LEFT_SHIFT then [0x2a OR 0x80] else [])
              @ (if test_mask shift S_RIGHT_SHIFT then [0x36 OR 0x80] else [])
              @ (if test_mask shift S_LEFT_ALT then [0x38 OR 0x80] else [])
              @ (if test_mask shift S_RIGHT_ALT then [0xE0, 0xB8] else [])
              @ (if test_mask shift S_LEFT_CTRL then [0x1d OR 0x80] else [])
              @ (if test_mask shift S_RIGHT_CTRL then [0xE0, 0x9D] else [])) s"

definition vkbd_switch_to :: "u32 \<Rightarrow> 'a vkbds_scheme \<Rightarrow> 'a vkbds_scheme" where
  "vkbd_switch_to shift s =
     (let s1 = put_codes ((if test_mask shift S_LEFT_SHIFT then [0x2a] else [])
              @ (if test_mask shift S_RIGHT_SHIFT then [0x36] else [])
              @ (if test_mask shift S_LEFT_ALT then [0x38] else [])
              @ (if test_mask shift S_RIGHT_ALT then [0xE0, 0x18] else [])
              @ (if test_mask shift S_LEFT_CTRL then [0x1d] else [])
              @ (if test_mask shift S_RIGHT_CTRL then [0xE0, 0x1D] else [])) s
      in tty_event (Set_leds (led_state (the_vkbd s1))) s1)"

section \<open>The BIOS keyboard interrupt\<close>

text \<open>
  The loop of service 0x09: every make code of the buffer goes to the BIOS's own ring buffer, at
  0x400 plus the offsets kept in the BIOS data area.
\<close>

partial_function (option) bios_kbd_loop :: "'a vkbds_scheme \<Rightarrow> 'a vkbds_scheme option" where
  "bios_kbd_loop s =
     (if vkbd_is_empty (the_vkbd s) then Some s
      else (let (c, s1) = vkbd_out s
            in if c AND (VK_BUF_UP_KEY OR VK_BUF_SHIFT) \<noteq> 0 then bios_kbd_loop s1
               else Option.bind (get_user_short 0x41a s1) (\<lambda>(hd, s2).
                    Option.bind (get_user_short 0x41c s2) (\<lambda>(tail, s3).
                    Option.bind (get_user_short 0x482 s3) (\<lambda>(buf_end, s4).
                    Option.bind (if tail + 2 = buf_end then get_user_short 0x480 s4
                                 else Some (tail + 2, s4)) (\<lambda>(new_tail, s5).
                    if new_tail = hd then Some (tty_event Beep s5)
                    else Option.bind
                      (put_user_short (ucast (push_bit 8 (c AND 0xff) OR drop_bit 8 (c AND 0xff00)))
                         (ucast tail + 0x400) s5) (\<lambda>s6.
                      Option.bind (put_user_short new_tail 0x41c s6) bios_kbd_loop)))))))"

definition flag_if :: "bool \<Rightarrow> u8 \<Rightarrow> u8" where "flag_if b v = (if b then v else 0)"

definition bios_flags0 :: "vkbd \<Rightarrow> u8" where
  "bios_flags0 vk =
     flag_if (test_mask (shift_state vk) S_RIGHT_SHIFT) 1 OR flag_if (test_mask (shift_state vk) S_LEFT_SHIFT) 2
     OR flag_if (test_mask (shift_state vk) S_CTRL) 4 OR flag_if (test_mask (shift_state vk) S_ALT) 8
     OR flag_if (test_mask (lock_state vk) L_SCROLL_LOCK) 16 OR flag_if (test_mask (lock_state vk) L_NUM_LOCK) 32
     OR flag_if (test_mask (lock_state vk) L_CAPS_LOCK) 64"

definition bios_flags1 :: "vkbd \<Rightarrow> u8" where
  "bios_flags1 vk =
     flag_if (test_mask (shift_state vk) S_LEFT_CTRL) 1 OR flag_if (test_mask (shift_state vk) S_LEFT_ALT) 2
     OR flag_if (test_mask (lock_state vk) L_SCROLL_LOCK) 16 OR flag_if (test_mask (lock_state vk) L_NUM_LOCK) 32
     OR flag_if (test_mask (lock_state vk) L_CAPS_LOCK) 64"

definition sync_leds :: "'a vkbds_scheme \<Rightarrow> 'a vkbds_scheme" where
  "sync_leds s =
     (if led_state (the_vkbd s) \<noteq> lock_state (the_vkbd s)
      then (let s1 = upd_vkbd (\<lambda>vk. vk\<lparr>led_state := lock_state vk\<rparr>) s
            in if in_focus (the_vkbd s1) then tty_event (Set_leds (led_state (the_vkbd s1))) s1 else s1)
      else s)"

definition vkbd_arpl_handler :: "u16 \<Rightarrow> 'a vkbds_scheme \<Rightarrow> 'a vkbds_scheme option" where
  "vkbd_arpl_handler arpl s =
     (if arpl = 0x09
      then Option.bind (bios_kbd_loop s) (\<lambda>s1.
           Option.bind (put_user_byte (bios_flags0 (the_vkbd s1)) 0x417 s1) (\<lambda>s2.
           map_option sync_leds (put_user_byte (bios_flags1 (the_vkbd s2)) 0x418 s2)))
      else Some s)"

text \<open>The arguments of \<open>vkbd_init\<close> and \<open>vkbd_expunge\<close>: the modules that open, the open count.\<close>

definition vkbd_init :: "bool \<Rightarrow> bool \<Rightarrow> bool \<Rightarrow> bool \<Rightarrow> bool \<Rightarrow> 'a vkbds_scheme \<Rightarrow> bool \<times> 'a vkbds_scheme" where
  "vkbd_init vm_ok kbd_ok tty_ok vpic_ok vpit_ok s =
     (if vm_ok \<and> kbd_ok \<and> tty_ok \<and> vpic_ok \<and> vpit_ok
      then (True, add_arpl_handler \<lparr>arpl_name = 9, arpl_low = 0x09, arpl_high = 0x09\<rparr>
             (add_io_handler False \<lparr>io_name = vkbd_ioh, low_port = 0x64, high_port = 0x64\<rparr>
             (add_io_handler False \<lparr>io_name = vkbd_ioh, low_port = 0x60, high_port = 0x61\<rparr> s)))
      else (False, s))"

definition vkbd_expunge :: "int \<Rightarrow> 'a vkbds_scheme \<Rightarrow> bool \<times> 'a vkbds_scheme" where
  "vkbd_expunge opens s =
     (if opens = 0
      then (True, remove_io_handler False \<lparr>io_name = vkbd_ioh, low_port = 0x60, high_port = 0x61\<rparr>
             (remove_io_handler False \<lparr>io_name = vkbd_ioh, low_port = 0x64, high_port = 0x64\<rparr>
             (remove_arpl_handler \<lparr>arpl_name = 9, arpl_low = 0x09, arpl_high = 0x09\<rparr> s)))
      else (False, s))"

end
