(* ===== verification/VIde.thy ===== *)
theory VIde
  imports VKbd
begin

text \<open>
  The virtual IDE disk, drivers/virtual/vide/vide.c.  \<open>ide_buf\<close> is the memory from the start of the
  512-byte sector buffer on, addressed from 0: what lies at 512 and above is the kernel's memory
  behind the buffer.  The backing file or partition is \<open>vdisk\<close>, the contents of its blocks, and
  \<open>vdisk_ok\<close>, whether an access of a block succeeds.
\<close>

unbundle bit_operations_syntax

section \<open>State\<close>

record vide =
  is_file :: bool
  vdisk :: "u32 \<Rightarrow> u8 list"
  vdisk_ok :: "u32 \<Rightarrow> bool"
  ide_blocks :: u32
  cylinders :: u32
  heads :: u32
  sectors :: u32
  ide_irq :: nat
  ide_error :: u8
  features :: u8
  num_sectors :: u8
  sector_reg :: u8
  low_cyl :: u8
  high_cyl :: u8
  sel_reg :: u8
  ide_status :: u8
  ide_command :: u8
  devctrl :: u8
  intrq :: bool
  buf_index :: u32
  blk :: u32
  blocks_left :: u32
  ide_buf :: memory

record vides = vkbds +
  slot_vide :: "vide option"
  vide_open_count :: int
  total_hdisks :: nat
  hdisk0 :: "u32 \<times> u32 \<times> u32"

abbreviation RDY_STAT :: u8 where "RDY_STAT \<equiv> 0x50"
abbreviation DATA_RDY_STAT :: u8 where "DATA_RDY_STAT \<equiv> 0x50 OR 0x40"
abbreviation ERR_STAT :: u8 where "ERR_STAT \<equiv> 0x01"
abbreviation WERR_STAT :: u8 where "WERR_STAT \<equiv> 0x21"
abbreviation BUSY_STAT :: u8 where "BUSY_STAT \<equiv> 0x80"
abbreviation HD_ERR_UNK :: u8 where "HD_ERR_UNK \<equiv> 0x40"
abbreviation HD_ERR_BBK :: u8 where "HD_ERR_BBK \<equiv> 0x80"
abbreviation HD_ERR_ABRT :: u8 where "HD_ERR_ABRT \<equiv> 0x04"
abbreviation HD_ERR_IDNF :: u8 where "HD_ERR_IDNF \<equiv> 0x10"

abbreviation the_vide :: "'a vides_scheme \<Rightarrow> vide" where "the_vide s \<equiv> the (slot_vide s)"

definition upd_vide :: "(vide \<Rightarrow> vide) \<Rightarrow> 'a vides_scheme \<Rightarrow> 'a vides_scheme" where
  "upd_vide f s = s\<lparr>slot_vide := map_option f (slot_vide s)\<rparr>"

section \<open>Creation and deletion\<close>

definition delete_vide :: "'a vides_scheme \<Rightarrow> 'a vides_scheme" where
  "delete_vide s =
     (case slot_vide s of None \<Rightarrow> s
      | Some _ \<Rightarrow> s\<lparr>slot_vide := None, vide_open_count := vide_open_count s - 1\<rparr>)"

text \<open>The loop that looks for a number of heads.\<close>

function derive_heads :: "nat \<Rightarrow> nat \<Rightarrow> nat" where
  "derive_heads blocks h = (if blocks div h \<ge> 1024 then derive_heads blocks (h + 2) else h)"
  by pat_completeness auto
termination
proof (relation "measure (\<lambda>(blocks, h). blocks + 1 - 1024 * h)")
  fix blocks h :: nat assume "1024 \<le> blocks div h"
  then have "1024 * h \<le> blocks" by (metis div_le_mono le_trans mult_le_mono1 div_times_less_eq_dividend)
  then show "((blocks, h + 2), blocks, h) \<in> measure (\<lambda>(blocks, h). blocks + 1 - 1024 * h)" by simp
qed simp

declare derive_heads.simps [simp del]

text \<open>
  Cylinders, heads and sectors of a disk of the given size; \<open>whole\<close> is the geometry of the
  physical disk if the whole of one is used.
\<close>

definition derive_geometry :: "(u32 \<times> u32 \<times> u32) option \<Rightarrow> u32 \<Rightarrow> u32 \<times> u32 \<times> u32" where
  "derive_geometry whole disk_size =
     (case whole of
        Some chs \<Rightarrow> chs
      | None \<Rightarrow>
          (let blocks = unat disk_size div 62; h = derive_heads blocks 2
           in (of_nat (blocks div h), of_nat h, 62)))"

text \<open>
  \<open>create_vide\<close>: \<open>args_ok\<close> that a name was given, \<open>disk\<close> the opened file or partition (its kind,
  contents, accessibility, geometry and size in blocks) or \<open>None\<close>, \<open>buf\<close> the cleared memory of the
  structure and what follows it.
\<close>

definition create_vide ::
    "bool \<Rightarrow> (bool \<times> (u32 \<Rightarrow> u8 list) \<times> (u32 \<Rightarrow> bool) \<times> (u32 \<times> u32 \<times> u32) option \<times> u32) option \<Rightarrow> memory
     \<Rightarrow> bool \<Rightarrow> bool \<Rightarrow> 'a vides_scheme \<Rightarrow> bool \<times> 'a vides_scheme" where
  "create_vide args_ok disk buf vcmos_ok mem_ok s =
     (if \<not> args_ok \<or> \<not> mem_ok then (False, s)
      else (case disk of
              None \<Rightarrow> (False, s)
            | Some (file, data, ok, whole, disk_size) \<Rightarrow>
                (let (c, h, sec) = derive_geometry whole disk_size;
                     v = \<lparr>is_file = file, vdisk = data, vdisk_ok = ok, ide_blocks = c * h * sec,
                          cylinders = c, heads = h, sectors = sec, ide_irq = 14, ide_error = 0,
                          features = 0, num_sectors = 0, sector_reg = 0, low_cyl = 0, high_cyl = 0,
                          sel_reg = 0xA0, ide_status = RDY_STAT, ide_command = 0, devctrl = 0,
                          intrq = False, buf_index = 0, blk = 0, blocks_left = 0, ide_buf = buf\<rparr>;
                     s1 = (add_vm_kill_handler delete_vide_fn s)
                            \<lparr>slot_vide := Some v, total_hdisks := 1, hdisk0 := (c, h, sec)\<rparr>;
                     s2 = (if got_cmos s1 \<and> vcmos_ok
                           then set_vcmos_byte 0x1A 0 (set_vcmos_byte 0x19 47 (set_vcmos_byte 0x12 0xF0 s1))
                           else s1);
                     s3 = s2\<lparr>vide_open_count := vide_open_count s2 + 1\<rparr>
                 in (True, set_mask False (push_bit 14 1) s3))))"

section \<open>Blocks\<close>

definition read_one_block :: "vide \<Rightarrow> u32 \<Rightarrow> u8 list option" where
  "read_one_block v blkno = (if vdisk_ok v blkno then Some (vdisk v blkno) else None)"

definition write_one_block :: "u32 \<Rightarrow> u8 list \<Rightarrow> vide \<Rightarrow> vide option" where
  "write_one_block blkno data v =
     (if vdisk_ok v blkno then Some (v\<lparr>vdisk := (vdisk v)(blkno := data)\<rparr>) else None)"

text \<open>The 512 bytes of the buffer, and storing them.\<close>

definition buf_bytes :: "memory \<Rightarrow> u8 list" where
  "buf_bytes m = map (\<lambda>i. m (of_nat i)) [0..<512]"

definition buf_fill :: "u8 list \<Rightarrow> memory \<Rightarrow> memory" where
  "buf_fill data m = (\<lambda>a. if a < 512 then data ! unat a else m a)"

definition make_irq :: "'a vides_scheme \<Rightarrow> 'a vides_scheme" where
  "make_irq s =
     (let s1 = upd_vide (\<lambda>v. v\<lparr>intrq := True\<rparr>) s
      in if devctrl (the_vide s1) AND 0x02 = 0 then simulate_irq (ide_irq (the_vide s1)) s1 else s1)"

definition read_next_block :: "'a vides_scheme \<Rightarrow> 'a vides_scheme" where
  "read_next_block s =
     (let v = the_vide s
      in if blk v \<ge> ide_blocks v
         then upd_vide (\<lambda>v. v\<lparr>ide_error := HD_ERR_UNK, ide_status := ERR_STAT\<rparr>) s
         else (case read_one_block v (blk v) of
                 None \<Rightarrow> upd_vide (\<lambda>v. v\<lparr>ide_error := HD_ERR_UNK, ide_status := ERR_STAT\<rparr>) s
               | Some data \<Rightarrow>
                   make_irq (upd_vide (\<lambda>v. v\<lparr>ide_buf := buf_fill data (ide_buf v), ide_status := DATA_RDY_STAT,
                     blk := blk v + 1, blocks_left := blocks_left v - 1, buf_index := 0\<rparr>) s)))"

definition write_block :: "'a vides_scheme \<Rightarrow> 'a vides_scheme" where
  "write_block s =
     (let v = the_vide s
      in if blk v \<ge> ide_blocks v
         then upd_vide (\<lambda>v. v\<lparr>ide_error := HD_ERR_UNK, ide_status := WERR_STAT\<rparr>) s
         else (case write_one_block (blk v) (buf_bytes (ide_buf v)) v of
                 None \<Rightarrow> upd_vide (\<lambda>v. v\<lparr>ide_error := HD_ERR_BBK, ide_status := WERR_STAT\<rparr>) s
               | Some v1 \<Rightarrow>
                   (let v2 = v1\<lparr>blk := blk v1 + 1, blocks_left := blocks_left v1 - 1\<rparr>;
                        s2 = s\<lparr>slot_vide := Some v2\<rparr>;
                        s3 = (if blocks_left v2 > 0
                              then make_irq (upd_vide (\<lambda>v. v\<lparr>ide_status := DATA_RDY_STAT\<rparr>) s2) else s2)
                    in upd_vide (\<lambda>v. v\<lparr>buf_index := 0\<rparr>) s3)))"

section \<open>The ports\<close>

definition read_data :: "nat \<Rightarrow> vide \<Rightarrow> u32 \<times> vide" where
  "read_data sz v =
     (let i = buf_index v
      in if sz = 1 then (ucast (load8 (ide_buf v) i), v\<lparr>buf_index := i + 1\<rparr>)
         else if sz = 2 then (ucast (load16 (ide_buf v) i), v\<lparr>buf_index := i + 2\<rparr>)
         else (load32 (ide_buf v) i, v\<lparr>buf_index := i + 4\<rparr>))"

definition write_data :: "nat \<Rightarrow> u32 \<Rightarrow> vide \<Rightarrow> vide" where
  "write_data sz val v =
     (let i = buf_index v
      in if sz = 1 then v\<lparr>ide_buf := store8 (ide_buf v) i (ucast val), buf_index := i + 1\<rparr>
         else if sz = 2 then v\<lparr>ide_buf := store16 (ide_buf v) i (ucast val), buf_index := i + 2\<rparr>
         else if sz = 4 then v\<lparr>ide_buf := store32 (ide_buf v) i val, buf_index := i + 4\<rparr>
         else v)"

definition vide_in :: "u16 \<Rightarrow> nat \<Rightarrow> 'a vides_scheme \<Rightarrow> u32 \<times> 'a vides_scheme" where
  "vide_in port sz s =
     (case slot_vide s of
        None \<Rightarrow> (-1, s)
      | Some v \<Rightarrow>
          (if port = 0x1f0
           then (let (val, v1) = read_data sz v;
                     s1 = s\<lparr>slot_vide := Some v1\<rparr>;
                     s2 = (if buf_index v1 \<ge> 256
                           then (let s2 = upd_vide (\<lambda>v. v\<lparr>ide_status := RDY_STAT\<rparr>) s1
                                 in if blocks_left v1 > 0 then read_next_block s2 else s2)
                           else s1)
                 in (val, s2))
           else if port = 0x1f1 then (ucast (ide_error v), s)
           else if port = 0x1f2 then (ucast (num_sectors v), s)
           else if port = 0x1f3 then (ucast (sector_reg v), s)
           else if port = 0x1f4 then (ucast (low_cyl v), s)
           else if port = 0x1f5 then (ucast (high_cyl v), s)
           else if port = 0x1f6 then (ucast (sel_reg v), s)
           else if port = 0x1f7 then (ucast (ide_status v), s\<lparr>slot_vide := Some (v\<lparr>intrq := False\<rparr>)\<rparr>)
           else if port = 0x3f6 then (ucast (ide_status v), s)
           else (-1, s)))"

definition make_blkno :: "vide \<Rightarrow> vide" where
  "make_blkno v = v\<lparr>blk := (ucast (sector_reg v) - 1) + (ucast (sel_reg v AND 0x0f) * sectors v)
     + ((push_bit 8 (ucast (high_cyl v)) + ucast (low_cyl v)) * heads v * sectors v)\<rparr>"

definition ide_cmd :: "u32 \<Rightarrow> 'a vides_scheme \<Rightarrow> 'a vides_scheme" where
  "ide_cmd val s =
     (let s1 = upd_vide (\<lambda>v. v\<lparr>ide_command := ucast val\<rparr>) s;
          setup = (\<lambda>v. (make_blkno v)\<lparr>blocks_left := ucast (num_sectors v)\<rparr>)
      in if val = 0x10 \<or> val = 0x70 then make_irq s1
         else if val = 0x20 then read_next_block (upd_vide setup s1)
         else if val = 0x30 then make_irq (upd_vide (\<lambda>v. (setup v)\<lparr>ide_status := DATA_RDY_STAT\<rparr>) s1)
         else upd_vide (\<lambda>v. v\<lparr>ide_status := ERR_STAT, ide_error := HD_ERR_ABRT\<rparr>) s1)"

definition write_devctrl :: "u32 \<Rightarrow> vide \<Rightarrow> vide" where
  "write_devctrl val v =
     (let v1 = v\<lparr>devctrl := ucast val\<rparr>
      in if test_mask val 0x04
         then v1\<lparr>ide_error := 1, num_sectors := 1, sector_reg := 1, low_cyl := 0, high_cyl := 0,
                 sel_reg := 0, ide_status := RDY_STAT, devctrl := devctrl v1 AND NOT 0x04\<rparr>
         else v1)"

definition vide_out :: "u16 \<Rightarrow> nat \<Rightarrow> u32 \<Rightarrow> 'a vides_scheme \<Rightarrow> 'a vides_scheme" where
  "vide_out port sz val s =
     (case slot_vide s of
        None \<Rightarrow> s
      | Some v \<Rightarrow>
          (if port = 0x1f0
           then (let v1 = write_data sz val v
                 in if buf_index v1 \<ge> 256
                    then write_block (s\<lparr>slot_vide := Some (v1\<lparr>ide_status := RDY_STAT\<rparr>)\<rparr>)
                    else s\<lparr>slot_vide := Some v1\<rparr>)
           else if port = 0x1f1 then upd_vide (\<lambda>v. v\<lparr>features := ucast val\<rparr>) s
           else if port = 0x1f2 then upd_vide (\<lambda>v. v\<lparr>num_sectors := ucast val\<rparr>) s
           else if port = 0x1f3 then upd_vide (\<lambda>v. v\<lparr>sector_reg := ucast val\<rparr>) s
           else if port = 0x1f4 then upd_vide (\<lambda>v. v\<lparr>low_cyl := ucast val\<rparr>) s
           else if port = 0x1f5 then upd_vide (\<lambda>v. v\<lparr>high_cyl := ucast val\<rparr>) s
           else if port = 0x1f6
           then upd_vide (\<lambda>v. v\<lparr>sel_reg := ucast val,
                  ide_status := (if test_mask val 0x10 then BUSY_STAT else RDY_STAT)\<rparr>) s
           else if port = 0x1f7 then ide_cmd val s
           else if port = 0x3f6 then upd_vide (write_devctrl val) s
           else s))"

section \<open>Block access for the BIOS\<close>

text \<open>
  \<open>RDY_STAT | ok ? 0 : (write ? WERR_STAT : ERR_STAT)\<close> parses as a choice on
  \<open>RDY_STAT | ok\<close>, which is never 0.
\<close>

definition set_stat :: "bool \<Rightarrow> bool \<Rightarrow> u8 \<Rightarrow> vide \<Rightarrow> vide" where
  "set_stat ok wr err v =
     v\<lparr>ide_status := (if RDY_STAT OR (if ok then 1 else 0) \<noteq> 0 then 0
                     else if wr then WERR_STAT else ERR_STAT),
       ide_error := (if ok then 0 else err)\<rparr>"

text \<open>\<open>memcpy_to_user\<close> and \<open>memcpy_from_user\<close> of vmm/segment.h, byte by byte.\<close>

fun memcpy_to_user :: "u32 \<Rightarrow> u8 list \<Rightarrow> 'a vmach_scheme \<Rightarrow> 'a vmach_scheme option" where
  "memcpy_to_user buf [] s = Some s"
| "memcpy_to_user buf (b # bs) s = Option.bind (put_user_byte b buf s) (memcpy_to_user (buf + 1) bs)"

fun memcpy_from_user :: "u32 \<Rightarrow> nat \<Rightarrow> 'a vmach_scheme \<Rightarrow> (u8 list \<times> 'a vmach_scheme) option" where
  "memcpy_from_user buf 0 s = Some ([], s)"
| "memcpy_from_user buf (Suc n) s =
     Option.bind (get_user_byte buf s) (\<lambda>(b, s1).
     map_option (\<lambda>(bs, s2). (b # bs, s2)) (memcpy_from_user (buf + 1) n s1))"

definition bad_request :: "vide \<Rightarrow> u32 \<Rightarrow> u32 \<Rightarrow> u32 \<Rightarrow> u32 \<Rightarrow> int \<Rightarrow> bool" where
  "bad_request v drvno hdno cyl sec count \<longleftrightarrow>
     drvno \<noteq> 0 \<or> hdno \<ge> heads v \<or> cyl \<ge> cylinders v \<or> sec > sectors v
     \<or> (sec - 1) + hdno * sectors v + cyl * heads v * sectors v + of_int count \<ge> ide_blocks v"

fun read_loop :: "nat \<Rightarrow> u32 \<Rightarrow> u32 \<Rightarrow> int \<Rightarrow> 'a vides_scheme \<Rightarrow> (int \<times> 'a vides_scheme) option" where
  "read_loop 0 blkno buf actual s = Some (actual, s)"
| "read_loop (Suc n) blkno buf actual s =
     (case read_one_block (the_vide s) blkno of
        None \<Rightarrow> Some (actual, s)
      | Some data \<Rightarrow>
          Option.bind (memcpy_to_user buf data s) (read_loop n (blkno + 1) (buf + 512) (actual + 1)))"

text \<open>The result is the number of blocks transferred, or -1.\<close>

definition read_user_blocks ::
    "u32 \<Rightarrow> u32 \<Rightarrow> u32 \<Rightarrow> u32 \<Rightarrow> int \<Rightarrow> u32 \<Rightarrow> 'a vides_scheme \<Rightarrow> (int \<times> 'a vides_scheme) option" where
  "read_user_blocks drvno hdno cyl sec count buf s =
     (case slot_vide s of
        None \<Rightarrow> Some (-1, s)
      | Some v \<Rightarrow>
          (if bad_request v drvno hdno cyl sec count
           then Some (-1, upd_vide (set_stat False False HD_ERR_IDNF) s)
           else map_option (\<lambda>(actual, s1). (actual, upd_vide (set_stat (actual = count) False HD_ERR_UNK) s1))
             (read_loop (nat count) ((sec - 1) + hdno * sectors v + cyl * heads v * sectors v) buf 0 s)))"

text \<open>The loop of \<open>write_user_blocks\<close> runs its body before it tests; \<open>n\<close> is the blocks still to do.\<close>

fun write_loop :: "nat \<Rightarrow> u32 \<Rightarrow> u32 \<Rightarrow> int \<Rightarrow> 'a vides_scheme \<Rightarrow> (int \<times> 'a vides_scheme) option" where
  "write_loop n blkno buf actual s =
     Option.bind (memcpy_from_user buf 512 s) (\<lambda>(data, s1).
       case write_one_block blkno data (the_vide s1) of
         None \<Rightarrow> Some (actual, s1)
       | Some v1 \<Rightarrow>
           (case n of
              Suc (Suc m) \<Rightarrow> write_loop (Suc m) (blkno + 1) (buf + 512) (actual + 1) (s1\<lparr>slot_vide := Some v1\<rparr>)
            | _ \<Rightarrow> Some (actual + 1, s1\<lparr>slot_vide := Some v1\<rparr>)))"

declare write_loop.simps [simp del]

definition write_user_blocks ::
    "u32 \<Rightarrow> u32 \<Rightarrow> u32 \<Rightarrow> u32 \<Rightarrow> int \<Rightarrow> u32 \<Rightarrow> 'a vides_scheme \<Rightarrow> (int \<times> 'a vides_scheme) option" where
  "write_user_blocks drvno hdno cyl sec count buf s =
     (case slot_vide s of
        None \<Rightarrow> Some (-1, s)
      | Some v \<Rightarrow>
          (if bad_request v drvno hdno cyl sec count
           then Some (-1, upd_vide (set_stat False False HD_ERR_IDNF) s)
           else map_option (\<lambda>(actual, s1). (actual, upd_vide (set_stat (actual = count) True HD_ERR_UNK) s1))
             (write_loop (nat count) ((sec - 1) + hdno * sectors v + cyl * heads v * sectors v) buf 0 s)))"

definition vide_get_status :: "'a vides_scheme \<Rightarrow> (u8 \<times> u8) option" where
  "vide_get_status s = map_option (\<lambda>v. (ide_status v, ide_error v)) (slot_vide s)"

definition vide_get_geom :: "'a vides_scheme \<Rightarrow> (u32 \<times> u32 \<times> u32) option" where
  "vide_get_geom s = map_option (\<lambda>v. (heads v, cylinders v, sectors v)) (slot_vide s)"

definition vide_init :: "bool \<Rightarrow> bool \<Rightarrow> bool \<Rightarrow> bool \<Rightarrow> 'a vides_scheme \<Rightarrow> bool \<times> 'a vides_scheme" where
  "vide_init fs_ok hd_ok vm_ok vpic_ok s =
     (if fs_ok \<and> hd_ok \<and> vm_ok \<and> vpic_ok
      then (let (slot, s1) = alloc_vm_slot s
            in if slot \<ge> 0
               then (True, add_io_handler False \<lparr>io_name = vide_ioh, low_port = 0x3f6, high_port = 0x3f6\<rparr>
                      (add_io_handler False \<lparr>io_name = vide_ioh, low_port = 0x1f0, high_port = 0x1f7\<rparr> s1))
               else (False, s1))
      else (False, s))"

definition vide_expunge :: "int \<Rightarrow> int \<Rightarrow> 'a vides_scheme \<Rightarrow> bool \<times> 'a vides_scheme" where
  "vide_expunge slot opens s =
     (if opens = 0
      then (True, free_vm_slot slot
             (remove_io_handler False \<lparr>io_name = vide_ioh, low_port = 0x1f0, high_port = 0x1f7\<rparr>
             (remove_io_handler False \<lparr>io_name = vide_ioh, low_port = 0x3f6, high_port = 0x3f6\<rparr> s)))
      else (False, s))"

end
