(* ===== verification/VPorts.thy ===== *)
theory VPorts
  imports VIde
begin

text \<open>
  The virtual printer and serial ports, drivers/virtual/vprinter/vprinter.c and
  drivers/virtual/vserial/vserial.c: up to four ports of three registers each, whose base
  addresses are the arguments of the configuration line.
\<close>

unbundle bit_operations_syntax

record vport =
  total_ports :: nat
  base_addr :: "u16 list"
  ports :: "io_handler option list"
  last_data_val :: "u16 list"

record vports = vides +
  slot_vprinter :: "vport option"
  slot_vserial :: "vport option"
  vprinter_open_count :: int
  vserial_open_count :: int
  lprports :: "u16 list"

definition empty_vport :: vport where
  "empty_vport = \<lparr>total_ports = 0, base_addr = [0, 0, 0, 0], ports = [None, None, None, None],
     last_data_val = [0, 0, 0, 0]\<rparr>"

text \<open>One port of the configuration: the structure, the local I/O handlers and the BIOS's table.\<close>

definition add_port ::
    "(nat \<Rightarrow> io_id) \<Rightarrow> nat \<Rightarrow> u16 \<Rightarrow> vport \<times> 'a vports_scheme \<Rightarrow> vport \<times> 'a vports_scheme" where
  "add_port name i bs = (\<lambda>(v, s).
     (if bs \<noteq> 0
      then (let ioh = \<lparr>io_name = name i, low_port = bs, high_port = bs + 2\<rparr>
            in (v\<lparr>total_ports := total_ports v + 1, base_addr := array_set i bs (base_addr v),
                  ports := array_set i (Some ioh) (ports v), last_data_val := array_set i 0 (last_data_val v)\<rparr>,
                (add_io_handler True ioh s)\<lparr>lprports := (lprports s)[i := bs]\<rparr>))
      else (v, s)))"

text \<open>\<open>argv i\<close> is what \<open>strtoul\<close> reads from the i-th argument; four are read whatever \<open>argc\<close> is.\<close>

definition create_vprinter :: "bool \<Rightarrow> nat \<Rightarrow> (nat \<Rightarrow> u16) \<Rightarrow> 'a vports_scheme \<Rightarrow> bool \<times> 'a vports_scheme" where
  "create_vprinter mem_ok argc argv s =
     (if argc = 0 \<or> \<not> mem_ok then (False, s)
      else (let s1 = (add_vm_kill_handler delete_vprinter_fn s)\<lparr>vprinter_open_count := vprinter_open_count s + 1\<rparr>;
                (v, s2) = fold (\<lambda>i. add_port printer_io i (argv i)) [0..<4] (empty_vport, s1)
            in (True, s2\<lparr>slot_vprinter := Some v\<rparr>)))"

definition create_vserial :: "bool \<Rightarrow> nat \<Rightarrow> (nat \<Rightarrow> u16) \<Rightarrow> 'a vports_scheme \<Rightarrow> bool \<times> 'a vports_scheme" where
  "create_vserial mem_ok argc argv s =
     (if argc = 0 \<or> \<not> mem_ok then (False, s)
      else (let s1 = (add_vm_kill_handler delete_vserial_fn s)\<lparr>vserial_open_count := vserial_open_count s + 1\<rparr>;
                (v, s2) = fold (\<lambda>i. add_port serial_io i (argv i)) [0..<4] (empty_vport, s1)
            in (True, s2\<lparr>slot_vserial := Some v\<rparr>)))"

text \<open>No spool file is ever opened, so none is closed.\<close>

definition remove_ports :: "vport \<Rightarrow> 'a vports_scheme \<Rightarrow> 'a vports_scheme" where
  "remove_ports v s =
     fold (\<lambda>i s. if base_addr v ! i \<noteq> 0
                  then (case ports v ! i of Some ioh \<Rightarrow> remove_io_handler True ioh s | None \<Rightarrow> s) else s)
       [0..<4] s"

definition delete_vprinter :: "'a vports_scheme \<Rightarrow> 'a vports_scheme" where
  "delete_vprinter s =
     (case slot_vprinter s of None \<Rightarrow> s
      | Some v \<Rightarrow> (remove_ports v s)\<lparr>slot_vprinter := None, vprinter_open_count := vprinter_open_count s - 1\<rparr>)"

definition delete_vserial :: "'a vports_scheme \<Rightarrow> 'a vports_scheme" where
  "delete_vserial s =
     (case slot_vserial s of None \<Rightarrow> s
      | Some v \<Rightarrow> (remove_ports v s)\<lparr>slot_vserial := None, vserial_open_count := vserial_open_count s - 1\<rparr>)"

text \<open>The index of the port an access goes to: the first of the first \<open>total_ports\<close> that holds it.\<close>

definition port_index :: "vport \<Rightarrow> u16 \<Rightarrow> nat option" where
  "port_index v port =
     find (\<lambda>i. unat (base_addr v ! i) \<le> unat port \<and> unat port \<le> unat (base_addr v ! i) + 2) [0..<total_ports v]"

definition vprinter_in :: "u16 \<Rightarrow> nat \<Rightarrow> 'a vports_scheme \<Rightarrow> u32 \<times> 'a vports_scheme" where
  "vprinter_in port sz s =
     (case slot_vprinter s of
        None \<Rightarrow> (-1, s)
      | Some v \<Rightarrow>
          (case port_index v port of
             None \<Rightarrow> (-1, s)
           | Some i \<Rightarrow>
               (let offset = unat port - unat (base_addr v ! i)
                in (if offset = 0 then ucast (last_data_val v ! i) else if offset = 1 then 8 else 0, s))))"

definition vprinter_out :: "u16 \<Rightarrow> nat \<Rightarrow> u32 \<Rightarrow> 'a vports_scheme \<Rightarrow> 'a vports_scheme" where
  "vprinter_out port sz val s =
     (case slot_vprinter s of
        None \<Rightarrow> s
      | Some v \<Rightarrow>
          (case port_index v port of
             None \<Rightarrow> s
           | Some i \<Rightarrow>
               (if port = base_addr v ! i
                then s\<lparr>slot_vprinter := Some (v\<lparr>last_data_val := array_set i (ucast val) (last_data_val v)\<rparr>)\<rparr>
                else s)))"

definition vserial_in :: "u16 \<Rightarrow> nat \<Rightarrow> 'a vports_scheme \<Rightarrow> u32 \<times> 'a vports_scheme" where
  "vserial_in port sz s =
     (case slot_vserial s of
        None \<Rightarrow> (-1, s)
      | Some v \<Rightarrow>
          (case port_index v port of
             None \<Rightarrow> (-1, s)
           | Some i \<Rightarrow>
               (let offset = unat port - unat (base_addr v ! i)
                in (if offset = 0 then ucast (last_data_val v ! i) else if offset = 1 then 8 else 0, s))))"

definition vserial_out :: "u16 \<Rightarrow> nat \<Rightarrow> u32 \<Rightarrow> 'a vports_scheme \<Rightarrow> 'a vports_scheme" where
  "vserial_out port sz val s =
     (case slot_vserial s of
        None \<Rightarrow> s
      | Some v \<Rightarrow>
          (case port_index v port of
             None \<Rightarrow> s
           | Some i \<Rightarrow>
               (if port = base_addr v ! i
                then s\<lparr>slot_vserial := Some (v\<lparr>last_data_val := array_set i (ucast val) (last_data_val v)\<rparr>)\<rparr>
                else s)))"

definition vprinter_init :: "bool \<Rightarrow> bool \<Rightarrow> 'a vports_scheme \<Rightarrow> bool \<times> 'a vports_scheme" where
  "vprinter_init vm_ok fs_ok s =
     (if vm_ok \<and> fs_ok then (let (slot, s1) = alloc_vm_slot s in (slot \<ge> 0, s1)) else (False, s))"

definition vprinter_expunge :: "int \<Rightarrow> 'a vports_scheme \<Rightarrow> bool \<times> 'a vports_scheme" where
  "vprinter_expunge slot s =
     (if vprinter_open_count s = 0 then (True, free_vm_slot slot s) else (False, s))"

end
