(* ===== verification/InsLen.thy ===== *)
theory InsLen
  imports VmCore "HOL-Library.Monad_Syntax"
begin

text \<open>
  The length of an instruction, drivers/virtual/vm/inslen.c: the two opcode tables and their
  walk.  The bytes come from \<open>fetch\<close>, a function of the address and the state (a read of user
  memory may fault and change the state, or never return).
\<close>

unbundle bit_operations_syntax

abbreviation OT_MOD_RM :: u8 where "OT_MOD_RM \<equiv> 0x01"
abbreviation OT_WORD :: u8 where "OT_WORD \<equiv> 0x02"
abbreviation OT_EXT :: u8 where "OT_EXT \<equiv> 0x04"
abbreviation OT_TAIL_BYTE :: u8 where "OT_TAIL_BYTE \<equiv> 0x10"
abbreviation OT_TAIL_WIDTH :: u8 where "OT_TAIL_WIDTH \<equiv> 0x20"
abbreviation OT_TAIL_PTR :: u8 where "OT_TAIL_PTR \<equiv> 0x80"

definition opcode_table :: "u8 list" where
  "opcode_table = [
     0x01, 0x03, 0x01, 0x03, 0x10, 0x12, 0x00, 0x00, 0x01, 0x03, 0x01, 0x03, 0x10, 0x12, 0x00, 0x04,
     0x01, 0x03, 0x01, 0x03, 0x10, 0x12, 0x00, 0x00, 0x01, 0x03, 0x01, 0x03, 0x10, 0x12, 0x00, 0x00,
     0x01, 0x03, 0x01, 0x03, 0x10, 0x12, 0x08, 0x00, 0x01, 0x03, 0x01, 0x03, 0x10, 0x12, 0x08, 0x00,
     0x01, 0x03, 0x01, 0x03, 0x10, 0x12, 0x08, 0x00, 0x01, 0x03, 0x01, 0x03, 0x10, 0x12, 0x08, 0x00,
     0x00, 0x00, 0x00, 0x00, 0x00, 0x00, 0x00, 0x00, 0x00, 0x00, 0x00, 0x00, 0x00, 0x00, 0x00, 0x00,
     0x00, 0x00, 0x00, 0x00, 0x00, 0x00, 0x00, 0x00, 0x00, 0x00, 0x00, 0x00, 0x00, 0x00, 0x00, 0x00,
     0x00, 0x00, 0x01, 0x01, 0x08, 0x08, 0x08, 0x08, 0x10, 0x81, 0x10, 0x11, 0x00, 0x00, 0x00, 0x00,
     0x10, 0x10, 0x10, 0x10, 0x10, 0x10, 0x10, 0x10, 0x10, 0x10, 0x10, 0x10, 0x10, 0x10, 0x10, 0x10,
     0x11, 0x23, 0x00, 0x13, 0x01, 0x03, 0x01, 0x03, 0x01, 0x03, 0x01, 0x03, 0x03, 0x01, 0x03, 0x03,
     0x00, 0x00, 0x00, 0x00, 0x00, 0x00, 0x00, 0x00, 0x00, 0x00, 0x80, 0x00, 0x00, 0x00, 0x00, 0x00,
     0x10, 0x20, 0x10, 0x20, 0x00, 0x00, 0x00, 0x00, 0x10, 0x20, 0x00, 0x00, 0x00, 0x00, 0x00, 0x00,
     0x10, 0x10, 0x10, 0x10, 0x10, 0x10, 0x10, 0x10, 0x20, 0x20, 0x20, 0x20, 0x20, 0x20, 0x20, 0x20,
     0x11, 0x13, 0x20, 0x00, 0x80, 0x80, 0x11, 0x23, 0x30, 0x00, 0x20, 0x00, 0x00, 0x10, 0x00, 0x00,
     0x00, 0x02, 0x00, 0x02, 0x00, 0x00, 0x00, 0x00, 0x00, 0x00, 0x00, 0x00, 0x00, 0x00, 0x00, 0x00,
     0x10, 0x10, 0x10, 0x10, 0x10, 0x10, 0x10, 0x10, 0x20, 0x20, 0x80, 0x10, 0x00, 0x00, 0x00, 0x00,
     0x00, 0x00, 0x00, 0x00, 0x00, 0x00, 0x01, 0x03, 0x00, 0x00, 0x00, 0x00, 0x00, 0x00, 0x00, 0x0B]"

definition opcode_ext_table :: "u8 list" where
  "opcode_ext_table = [
     0x00, 0x00, 0x03, 0x03, 0x00, 0x00, 0x00, 0x00, 0x00, 0x00, 0x00, 0x00, 0x00, 0x00, 0x00, 0x00,
     0x00, 0x00, 0x00, 0x00, 0x00, 0x00, 0x00, 0x00, 0x00, 0x00, 0x00, 0x00, 0x00, 0x00, 0x00, 0x00,
     0x00, 0x00, 0x00, 0x00, 0x00, 0x00, 0x00, 0x00, 0x00, 0x00, 0x00, 0x00, 0x00, 0x00, 0x00, 0x00,
     0x00, 0x00, 0x00, 0x00, 0x00, 0x00, 0x00, 0x00, 0x00, 0x00, 0x00, 0x00, 0x00, 0x00, 0x00, 0x00,
     0x00, 0x00, 0x00, 0x00, 0x00, 0x00, 0x00, 0x00, 0x00, 0x00, 0x00, 0x00, 0x00, 0x00, 0x00, 0x00,
     0x00, 0x00, 0x00, 0x00, 0x00, 0x00, 0x00, 0x00, 0x00, 0x00, 0x00, 0x00, 0x00, 0x00, 0x00, 0x00,
     0x00, 0x00, 0x00, 0x00, 0x00, 0x00, 0x00, 0x00, 0x00, 0x00, 0x00, 0x00, 0x00, 0x00, 0x00, 0x00,
     0x00, 0x00, 0x00, 0x00, 0x00, 0x00, 0x00, 0x00, 0x00, 0x00, 0x00, 0x00, 0x00, 0x00, 0x00, 0x00,
     0x20, 0x20, 0x20, 0x20, 0x20, 0x20, 0x20, 0x20, 0x20, 0x20, 0x20, 0x20, 0x20, 0x20, 0x20, 0x20,
     0x01, 0x01, 0x01, 0x01, 0x01, 0x01, 0x01, 0x01, 0x01, 0x01, 0x01, 0x01, 0x01, 0x01, 0x01, 0x01,
     0x00, 0x00, 0x00, 0x03, 0x13, 0x03, 0x00, 0x00, 0x00, 0x00, 0x00, 0x03, 0x13, 0x03, 0x00, 0x03,
     0x00, 0x00, 0x81, 0x03, 0x81, 0x81, 0x00, 0x00, 0x00, 0x00, 0x13, 0x03, 0x03, 0x03, 0x00, 0x00,
     0x00, 0x00, 0x00, 0x00, 0x00, 0x00, 0x00, 0x00, 0x00, 0x00, 0x00, 0x00, 0x00, 0x00, 0x00, 0x00,
     0x00, 0x00, 0x00, 0x00, 0x00, 0x00, 0x00, 0x00, 0x00, 0x00, 0x00, 0x00, 0x00, 0x00, 0x00, 0x00,
     0x00, 0x00, 0x00, 0x00, 0x00, 0x00, 0x00, 0x00, 0x00, 0x00, 0x00, 0x00, 0x00, 0x00, 0x00, 0x00,
     0x00, 0x00, 0x00, 0x00, 0x00, 0x00, 0x00, 0x00, 0x00, 0x00, 0x00, 0x00, 0x00, 0x00, 0x00, 0x00]"

text \<open>The displacement bytes a mod r/m byte asks for, in 16-bit and in 32-bit addressing.\<close>

definition modrm_skip :: "bool \<Rightarrow> u8 \<Rightarrow> u32" where
  "modrm_skip mode_32 byte =
     (let md = drop_bit 6 (byte AND 0xc0); r_m = byte AND 7
      in if \<not> mode_32
         then (if md = 0 then (if r_m = 6 then 2 else 0) else if md = 1 then 1 else if md = 2 then 2 else 0)
         else if md \<noteq> 3
         then (if r_m = 4 then (if md = 1 then 1 else if md = 2 then 4 else 0)
               else if md = 0 then (if r_m = 5 then 4 else 0)
               else if md = 1 then 1 else 4)
         else 0)"

text \<open>The immediate bytes an entry of the tables asks for.\<close>

definition tail_skip :: "bool \<Rightarrow> bool \<Rightarrow> u8 \<Rightarrow> u32" where
  "tail_skip op_pfx is_32bit ty =
     (if test_mask ty OT_TAIL_BYTE then 1 else 0)
     + (if test_mask ty OT_TAIL_WIDTH
        then (if op_pfx then (if is_32bit then 2 else 4) else (if is_32bit then 4 else 2)) else 0)
     + (if test_mask ty OT_TAIL_PTR then (if op_pfx then 6 else 4) else 0)"

text \<open>The loop \<open>again\<close>: the entry found, the prefixes seen, and where the walk is.\<close>

partial_function (option) scan_opcode ::
    "(u32 \<Rightarrow> 's \<Rightarrow> (u8 \<times> 's) option) \<Rightarrow> bool \<Rightarrow> bool \<Rightarrow> bool \<Rightarrow> u32 \<Rightarrow> 's \<Rightarrow> ((u8 \<times> bool \<times> bool \<times> u32) \<times> 's) option"
  where
  "scan_opcode fetch ext addr_pfx op_pfx pc s =
     do { (byte, s1) \<leftarrow> fetch pc s;
          if byte \<in> {0x80, 0x2e, 0x3e, 0x26, 0x64, 0x65, 0x36}
          then scan_opcode fetch ext addr_pfx op_pfx (pc + 1) s1
          else if byte = 0x67 then scan_opcode fetch ext True op_pfx (pc + 1) s1
          else if byte = 0x66 then scan_opcode fetch ext addr_pfx True (pc + 1) s1
          else (let ty = (if ext then opcode_ext_table else opcode_table) ! unat byte
                in if test_mask ty OT_EXT then scan_opcode fetch True addr_pfx op_pfx (pc + 1) s1
                   else Some ((ty, addr_pfx, op_pfx, pc + 1), s1)) }"

definition get_inslen ::
    "(u32 \<Rightarrow> 's \<Rightarrow> (u8 \<times> 's) option) \<Rightarrow> u32 \<Rightarrow> bool \<Rightarrow> 's \<Rightarrow> (u32 \<times> 's) option" where
  "get_inslen fetch orig_pc is_32bit s =
     do { ((ty, addr_pfx, op_pfx, pc), s1) \<leftarrow> scan_opcode fetch False False False orig_pc s;
          (pc2, s2) \<leftarrow>
            (if test_mask ty OT_MOD_RM
             then do { (r_m, s2) \<leftarrow> fetch pc s1;
                       Some (pc + 1 + modrm_skip (test_mask ty OT_WORD \<and> is_32bit \<noteq> addr_pfx) r_m, s2) }
             else Some (pc, s1));
          Some (pc2 + tail_skip op_pfx is_32bit ty - orig_pc, s2) }"

end
