(* ===== verification/VmFault.thy ===== *)
theory VmFault
  imports VPic InsLen
begin

text \<open>
  The traps of a virtual machine, drivers/virtual/vm/fault.c: the general-protection handler that
  interprets the sensitive instructions, and the other exception handlers.  A handler maps the trap
  frame and the state to the new frame and state, or to \<open>None\<close> if it never returns.  \<open>inp\<close> and
  \<open>outp\<close> are the functions the I/O handlers point to, \<open>serve\<close> those of the ARPL services.
\<close>

unbundle bit_operations_syntax

type_synonym 's inp = "io_id \<Rightarrow> u16 \<Rightarrow> nat \<Rightarrow> 's \<Rightarrow> u32 \<times> 's"
type_synonym 's outp = "io_id \<Rightarrow> u16 \<Rightarrow> nat \<Rightarrow> u32 \<Rightarrow> 's \<Rightarrow> 's"
type_synonym 's serve = "u32 \<Rightarrow> u16 \<Rightarrow> vm86_regs \<times> 's \<Rightarrow> (vm86_regs \<times> 's) option"

abbreviation PFX_ADDR :: u32 where "PFX_ADDR \<equiv> 1"
abbreviation PFX_LOCK :: u32 where "PFX_LOCK \<equiv> 2"
abbreviation PFX_OP :: u32 where "PFX_OP \<equiv> 4"
abbreviation PFX_CS :: u32 where "PFX_CS \<equiv> 8"
abbreviation PFX_DS :: u32 where "PFX_DS \<equiv> 16"
abbreviation PFX_ES :: u32 where "PFX_ES \<equiv> 32"
abbreviation PFX_FS :: u32 where "PFX_FS \<equiv> 64"
abbreviation PFX_GS :: u32 where "PFX_GS \<equiv> 128"
abbreviation PFX_SS :: u32 where "PFX_SS \<equiv> 256"

section \<open>Code, data and stack of the virtual machine\<close>

definition read_cs :: "vm86_regs \<times> 'a vmach_scheme \<Rightarrow> (u8 \<times> vm86_regs \<times> 'a vmach_scheme) option" where
  "read_cs = (\<lambda>(regs, s).
     do { (c, s1) \<leftarrow> get_user_byte (seg_off (cs regs) (GET16 (eip regs))) s; Some (c, regs, s1) })"

definition pop_cs :: "vm86_regs \<times> 'a vmach_scheme \<Rightarrow> (u8 \<times> vm86_regs \<times> 'a vmach_scheme) option" where
  "pop_cs rs =
     do { (c, regs, s) \<leftarrow> read_cs rs; Some (c, regs\<lparr>eip := SET16 (eip regs) (eip regs + 1)\<rparr>, s) }"

definition get_data_seg :: "vm86_regs \<Rightarrow> u32 \<Rightarrow> u16" where
  "get_data_seg regs prefixes =
     (if prefixes AND (PFX_CS OR PFX_ES OR PFX_FS OR PFX_GS OR PFX_SS) = 0 then ds regs
      else if test_mask prefixes PFX_CS then cs regs
      else if test_mask prefixes PFX_ES then es regs
      else if test_mask prefixes PFX_FS then fs regs
      else if test_mask prefixes PFX_GS then gs regs
      else if test_mask prefixes PFX_SS then ss regs
      else ds regs)"

text \<open>A put or get of 1, 2 or 4 bytes; other sizes do nothing and read 0.\<close>

definition put_user :: "nat \<Rightarrow> u32 \<Rightarrow> u32 \<Rightarrow> 'a vmach_scheme \<Rightarrow> 'a vmach_scheme option" where
  "put_user sz val lin s =
     (if sz = 1 then put_user_byte (ucast val) lin s
      else if sz = 2 then put_user_short (ucast val) lin s
      else if sz = 4 then put_user_long val lin s
      else Some s)"

definition get_user :: "nat \<Rightarrow> u32 \<Rightarrow> 'a vmach_scheme \<Rightarrow> (u32 \<times> 'a vmach_scheme) option" where
  "get_user sz lin s =
     (if sz = 1 then map_option (\<lambda>(v, s1). (ucast v, s1)) (get_user_byte lin s)
      else if sz = 2 then map_option (\<lambda>(v, s1). (ucast v, s1)) (get_user_short lin s)
      else if sz = 4 then get_user_long lin s
      else Some (0, s))"

text \<open>The index register after a string operation.\<close>

definition step_index :: "vm86_regs \<Rightarrow> u32 \<Rightarrow> nat \<Rightarrow> u32 \<Rightarrow> u32" where
  "step_index regs prefixes sz x =
     (let y = (if test_mask (eflags regs) FLAGS_DF then x - of_nat sz else x + of_nat sz)
      in if test_mask prefixes PFX_ADDR then y else SET16 x y)"

definition push_di ::
    "u32 \<Rightarrow> nat \<Rightarrow> u32 \<Rightarrow> vm86_regs \<times> 'a vmach_scheme \<Rightarrow> (vm86_regs \<times> 'a vmach_scheme) option" where
  "push_di prefixes sz val = (\<lambda>(regs, s).
     (let di = (if test_mask prefixes PFX_ADDR then edi regs else edi regs AND 0xffff)
      in do { s1 \<leftarrow> put_user sz val (seg_off (es regs) di) s;
              Some (regs\<lparr>edi := step_index regs prefixes sz (edi regs)\<rparr>, s1) }))"

definition pop_si ::
    "u32 \<Rightarrow> nat \<Rightarrow> vm86_regs \<times> 'a vmach_scheme \<Rightarrow> (u32 \<times> vm86_regs \<times> 'a vmach_scheme) option" where
  "pop_si prefixes sz = (\<lambda>(regs, s).
     (let si = (if test_mask prefixes PFX_ADDR then esi regs else esi regs AND 0xffff)
      in do { (res, s1) \<leftarrow> get_user sz (seg_off (get_data_seg regs prefixes) si) s;
              Some (res, regs\<lparr>esi := step_index regs prefixes sz (esi regs)\<rparr>, s1) }))"

definition pop_sp :: "nat \<Rightarrow> vm86_regs \<times> 'a vmach_scheme \<Rightarrow> (u32 \<times> vm86_regs \<times> 'a vmach_scheme) option" where
  "pop_sp sz = (\<lambda>(regs, s).
     (if sz = 2 \<or> sz = 4
      then do { (res, s1) \<leftarrow> get_user sz (seg_off (ss regs) (GET16 (esp regs))) s;
                Some (res, regs\<lparr>esp := SET16 (esp regs) (GET16 (esp regs) + of_nat sz)\<rparr>, s1) }
      else Some (0, regs, s)))"

definition push_sp :: "nat \<Rightarrow> u32 \<Rightarrow> vm86_regs \<times> 'a vmach_scheme \<Rightarrow> (vm86_regs \<times> 'a vmach_scheme) option" where
  "push_sp sz val = (\<lambda>(regs, s).
     (if sz = 2 \<or> sz = 4
      then (let regs' = regs\<lparr>esp := SET16 (esp regs) (GET16 (esp regs) - of_nat sz)\<rparr>
            in do { s1 \<leftarrow> put_user sz val (seg_off (ss regs') (GET16 (esp regs'))) s; Some (regs', s1) })
      else Some (regs, s)))"

section \<open>Prefixes\<close>

definition prefix_bit :: "u8 \<Rightarrow> u32 option" where
  "prefix_bit c =
     (if c = 0x67 then Some PFX_ADDR else if c = 0x80 then Some PFX_LOCK
      else if c = 0x66 then Some PFX_OP else if c = 0x2e then Some PFX_CS
      else if c = 0x3e then Some PFX_DS else if c = 0x26 then Some PFX_ES
      else if c = 0x64 then Some PFX_FS else if c = 0x65 then Some PFX_GS
      else if c = 0x36 then Some PFX_SS else None)"

partial_function (option) prefix_loop ::
    "u32 \<Rightarrow> vm86_regs \<times> 'a vmach_scheme \<Rightarrow> (u32 \<times> vm86_regs \<times> 'a vmach_scheme) option" where
  "prefix_loop prefixes rs =
     do { (c, regs, s) \<leftarrow> pop_cs rs;
          case prefix_bit c of
            Some b \<Rightarrow> prefix_loop (prefixes OR b) (regs, s)
          | None \<Rightarrow> Some (prefixes, regs\<lparr>eip := SET16 (eip regs) (GET16 (eip regs) - 1)\<rparr>, s) }"

definition get_prefixes ::
    "vm86_regs \<times> 'a vmach_scheme \<Rightarrow> (u32 \<times> vm86_regs \<times> 'a vmach_scheme) option" where
  "get_prefixes = prefix_loop 0"

section \<open>The instructions of the general-protection handler\<close>

definition op_size :: "u8 \<Rightarrow> u32 \<Rightarrow> nat" where
  "op_size byte prefixes = (if test_mask byte 1 then (if test_mask prefixes PFX_OP then 4 else 2) else 1)"

definition size_mask :: "nat \<Rightarrow> u32" where
  "size_mask sz = (if sz = 4 then 0xffffffff else if sz = 2 then 0xffff else 0xff)"

definition port_of :: "u8 \<Rightarrow> vm86_regs \<times> 'a vmach_scheme \<Rightarrow> (u16 \<times> vm86_regs \<times> 'a vmach_scheme) option" where
  "port_of byte = (\<lambda>(regs, s).
     (if test_mask byte 0x08 then Some (ucast (GET16 (edx regs)), regs, s)
      else do { (c, rs) \<leftarrow> pop_cs (regs, s); Some (ucast c, rs) }))"

text \<open>\<open>val\<close> is an unsigned short, so a 32-bit IN loses its high half.\<close>

definition gpe_in :: "'a vmach_scheme inp \<Rightarrow> u8 \<Rightarrow> u32 \<Rightarrow> vm86_regs \<times> 'a vmach_scheme
    \<Rightarrow> (vm86_regs \<times> 'a vmach_scheme) option" where
  "gpe_in inp byte prefixes rs =
     do { (port, regs, s) \<leftarrow> port_of byte rs;
          let sz = op_size byte prefixes;
          let m = size_mask sz;
          let (v, s1) = (case get_io_handler port s of
                           Some ioh \<Rightarrow> inp (io_name ioh) port sz s | None \<Rightarrow> (-1, s));
          let val = (ucast (v AND m) :: u16);
          if test_mask byte 0x80
          then Some (regs\<lparr>eax := (eax regs AND NOT m) OR ucast val\<rparr>, s1)
          else push_di prefixes sz (ucast val) (regs, s1) }"

definition gpe_out :: "'a vmach_scheme outp \<Rightarrow> u8 \<Rightarrow> u32 \<Rightarrow> vm86_regs \<times> 'a vmach_scheme
    \<Rightarrow> (vm86_regs \<times> 'a vmach_scheme) option" where
  "gpe_out outp byte prefixes rs =
     do { (port, regs, s) \<leftarrow> port_of byte rs;
          case get_io_handler port s of
            None \<Rightarrow> Some (regs, s)
          | Some ioh \<Rightarrow>
              (let sz = op_size byte prefixes; m = size_mask sz
               in if test_mask byte 0x80
                  then Some (regs, outp (io_name ioh) port sz (eax regs AND m) s)
                  else do { (val, regs1, s1) \<leftarrow> pop_si prefixes sz (regs, s);
                            Some (regs1, outp (io_name ioh) port sz val s1) }) }"

definition gpe_cli :: "vm86_regs \<times> 'a vpics_scheme \<Rightarrow> (vm86_regs \<times> 'a vpics_scheme) option" where
  "gpe_cli = (\<lambda>(regs, s).
     Some (regs, IF_disabled (s\<lparr>virtual_eflags := virtual_eflags s AND NOT FLAGS_IF\<rparr>)))"

definition do_hlt :: "'a vpics_scheme \<Rightarrow> 'a vpics_scheme" where
  "do_hlt s = suspend_task (vm_task s) (s\<lparr>hlted := True\<rparr>)"

definition gpe_sti :: "vm86_regs \<times> 'a vpics_scheme \<Rightarrow> (vm86_regs \<times> 'a vpics_scheme) option" where
  "gpe_sti = (\<lambda>(regs0, s0).
     do { (c, regs, s) \<leftarrow> read_cs (regs0, s0\<lparr>virtual_eflags := virtual_eflags s0 OR FLAGS_IF\<rparr>);
          (regs1, s1) \<leftarrow>
            (if c = 0xf4 then do { (c', r, s') \<leftarrow> pop_cs (regs, s); Some (r, do_hlt s') } else Some (regs, s));
          Some (regs1, IF_enabled s1) })"

definition gpe_pushf :: "u32 \<Rightarrow> vm86_regs \<times> 'a vmach_scheme \<Rightarrow> (vm86_regs \<times> 'a vmach_scheme) option" where
  "gpe_pushf prefixes = (\<lambda>(regs, s).
     push_sp (if test_mask prefixes PFX_OP then 4 else 2)
       ((virtual_eflags s AND NOT USER_EFLAGS) OR (eflags regs AND USER_EFLAGS)) (regs, s))"

text \<open>The common end of POPF and IRET: reload the flags and tell the PIC.\<close>

definition load_flags :: "vm86_regs \<times> 'a vpics_scheme \<Rightarrow> vm86_regs \<times> 'a vpics_scheme" where
  "load_flags = (\<lambda>(regs, s).
     (regs\<lparr>eflags := (virtual_eflags s AND USER_EFLAGS) OR FLAGS_IF OR EFLAGS_VM\<rparr>,
      if test_mask (virtual_eflags s) FLAGS_IF then IF_enabled s else IF_disabled s))"

definition pop_flags ::
    "u32 \<Rightarrow> vm86_regs \<times> 'a vpics_scheme \<Rightarrow> (vm86_regs \<times> 'a vpics_scheme) option" where
  "pop_flags prefixes rs =
     (if test_mask prefixes PFX_OP
      then do { (v, regs, s) \<leftarrow> pop_sp 4 rs; Some (regs, s\<lparr>virtual_eflags := v\<rparr>) }
      else do { (v, regs, s) \<leftarrow> pop_sp 2 rs;
                Some (regs, s\<lparr>virtual_eflags := SET16 (virtual_eflags s) v\<rparr>) })"

definition gpe_popf :: "u32 \<Rightarrow> vm86_regs \<times> 'a vpics_scheme \<Rightarrow> (vm86_regs \<times> 'a vpics_scheme) option" where
  "gpe_popf prefixes rs = do { rs1 \<leftarrow> pop_flags prefixes rs; Some (load_flags rs1) }"

definition gpe_iret :: "u32 \<Rightarrow> vm86_regs \<times> 'a vpics_scheme \<Rightarrow> (vm86_regs \<times> 'a vpics_scheme) option" where
  "gpe_iret prefixes rs =
     do { (regs1, s1) \<leftarrow>
            (if test_mask prefixes PFX_OP
             then do { (v, regs, s) \<leftarrow> pop_sp 4 rs; Some (regs\<lparr>eip := v\<rparr>, s) }
             else do { (v, regs, s) \<leftarrow> pop_sp 2 rs; Some (regs\<lparr>eip := SET16 (eip regs) v\<rparr>, s) });
          (v, regs2, s2) \<leftarrow> pop_sp 2 (regs1, s1);
          rs3 \<leftarrow> pop_flags prefixes (regs2\<lparr>cs := ucast v\<rparr>, s2);
          Some (load_flags rs3) }"

section \<open>Repeated string I/O\<close>

definition rep_mask :: "u8 \<Rightarrow> u32 \<Rightarrow> u32" where
  "rep_mask byte prefixes =
     (if test_mask byte 1 then (if test_mask prefixes PFX_ADDR then 0xffffffff else 0xffff) else 0xff)"

definition rep_count :: "u32 \<Rightarrow> vm86_regs \<Rightarrow> nat" where
  "rep_count prefixes regs =
     unat (ecx regs AND (if test_mask prefixes PFX_ADDR then 0xffffffff else 0xffff))"

fun rep_ins_loop ::
    "('s \<Rightarrow> u32 \<times> 's) \<Rightarrow> (u32 \<Rightarrow> u32 \<Rightarrow> 's \<Rightarrow> 's option) \<Rightarrow> u32 \<Rightarrow> u32 \<Rightarrow> u32 \<Rightarrow> nat \<Rightarrow> u32 \<Rightarrow> 's \<Rightarrow> 's option" where
  "rep_ins_loop input put bs step m 0 addr s = Some s"
| "rep_ins_loop input put bs step m (Suc n) addr s =
     (let (val, s1) = input s
      in do { s2 \<leftarrow> put val (bs + addr) s1; rep_ins_loop input put bs step m n ((addr + step) AND m) s2 })"

fun rep_outs_loop ::
    "(u32 \<Rightarrow> 's \<Rightarrow> 's) \<Rightarrow> (u32 \<Rightarrow> 's \<Rightarrow> (u32 \<times> 's) option) \<Rightarrow> u32 \<Rightarrow> u32 \<Rightarrow> u32 \<Rightarrow> nat \<Rightarrow> u32 \<Rightarrow> 's \<Rightarrow> 's option" where
  "rep_outs_loop output get bs step m 0 addr s = Some s"
| "rep_outs_loop output get bs step m (Suc n) addr s =
     do { (val, s1) \<leftarrow> get (bs + addr) s;
          rep_outs_loop output get bs step m n ((addr + step) AND m) (output val s1) }"

definition gpe_rep_ins :: "'a vmach_scheme inp \<Rightarrow> u8 \<Rightarrow> u32 \<Rightarrow> vm86_regs \<times> 'a vmach_scheme
    \<Rightarrow> (vm86_regs \<times> 'a vmach_scheme) option" where
  "gpe_rep_ins inp byte prefixes = (\<lambda>(regs, s).
     (let port = ucast (GET16 (edx regs)); m = rep_mask byte prefixes; sz = op_size byte prefixes;
          input = (case get_io_handler port s of
                     Some ioh \<Rightarrow> inp (io_name ioh) port sz | None \<Rightarrow> (\<lambda>s. (-1, s)))
      in do { s1 \<leftarrow> rep_ins_loop input (put_user sz) (push_bit 4 (ucast (es regs))) (of_nat sz) m
                      (rep_count prefixes regs) (edi regs AND m) s;
              Some (regs\<lparr>ecx := ecx regs AND NOT m\<rparr>, s1) }))"

definition gpe_rep_outs :: "'a vmach_scheme outp \<Rightarrow> u8 \<Rightarrow> u32 \<Rightarrow> vm86_regs \<times> 'a vmach_scheme
    \<Rightarrow> (vm86_regs \<times> 'a vmach_scheme) option" where
  "gpe_rep_outs outp byte prefixes = (\<lambda>(regs, s).
     (let port = ucast (GET16 (edx regs)); m = rep_mask byte prefixes; sz = op_size byte prefixes
      in do { s1 \<leftarrow> (case get_io_handler port s of
                       None \<Rightarrow> Some s
                     | Some ioh \<Rightarrow>
                         rep_outs_loop (outp (io_name ioh) port sz) (get_user sz)
                           (push_bit 4 (ucast (get_data_seg regs prefixes))) (of_nat sz) m
                           (rep_count prefixes regs) (esi regs AND m) s);
              Some (regs\<lparr>ecx := ecx regs AND NOT m\<rparr>, s1) }))"

section \<open>The handlers\<close>

text \<open>The label \<open>stop\<close>.\<close>

definition gpe_stop :: "u32 \<Rightarrow> vm86_regs \<times> 'a vpics_scheme \<Rightarrow> (vm86_regs \<times> 'a vpics_scheme) option" where
  "gpe_stop orig_eip = (\<lambda>(regs, s). do { s1 \<leftarrow> dump_regs s; Some (regs\<lparr>eip := orig_eip\<rparr>, s1) })"

text \<open>
  The case of the two-byte escape 0x0f, which falls through to \<open>stop\<close> after every second byte, and
  the case of the prefix 0xf3, which falls through to the one of 0x0f.
\<close>

definition gpe_escape :: "u32 \<Rightarrow> vm86_regs \<times> 'a vpics_scheme \<Rightarrow> (vm86_regs \<times> 'a vpics_scheme) option" where
  "gpe_escape orig_eip rs =
     do { (byte, regs, s) \<leftarrow> pop_cs rs;
          gpe_stop orig_eip
            (if byte = 0x00 \<or> byte = 0x01 then simulate_vm_int 6 (regs\<lparr>eip := orig_eip\<rparr>, s)
             else (regs, s)) }"

definition gpe_rep :: "'a vpics_scheme inp \<Rightarrow> 'a vpics_scheme outp \<Rightarrow> u32 \<Rightarrow> u32
    \<Rightarrow> vm86_regs \<times> 'a vpics_scheme \<Rightarrow> (vm86_regs \<times> 'a vpics_scheme) option" where
  "gpe_rep inp outp orig_eip prefixes rs =
     do { (byte, regs, s) \<leftarrow> pop_cs rs;
          if byte = 0x6c \<or> byte = 0x6d
          then do { rs1 \<leftarrow> gpe_rep_ins inp byte prefixes (regs, s); gpe_escape orig_eip rs1 }
          else if byte = 0x6e \<or> byte = 0x6f
          then do { rs1 \<leftarrow> gpe_rep_outs outp byte prefixes (regs, s); gpe_escape orig_eip rs1 }
          else gpe_stop orig_eip (regs, s) }"

definition gpe_dispatch :: "'a vpics_scheme inp \<Rightarrow> 'a vpics_scheme outp \<Rightarrow> u32 \<Rightarrow> u32 \<Rightarrow> u8
    \<Rightarrow> vm86_regs \<times> 'a vpics_scheme \<Rightarrow> (vm86_regs \<times> 'a vpics_scheme) option" where
  "gpe_dispatch inp outp orig_eip prefixes byte rs =
     (if byte \<in> {0xe4, 0xe5, 0xec, 0xed, 0x6c, 0x6d} then gpe_in inp byte prefixes rs
      else if byte \<in> {0xe6, 0xe7, 0xee, 0xef, 0x6e, 0x6f} then gpe_out outp byte prefixes rs
      else if byte = 0xfa then gpe_cli rs
      else if byte = 0xfb then gpe_sti rs
      else if byte = 0x9c then gpe_pushf prefixes rs
      else if byte = 0x9d then gpe_popf prefixes rs
      else if byte = 0xcc then Some (simulate_vm_int 3 rs)
      else if byte = 0xcd
      then do { (vec, rs1) \<leftarrow> pop_cs rs; Some (simulate_vm_int (ucast vec) rs1) }
      else if byte = 0xcf then gpe_iret prefixes rs
      else if byte = 0xf4 then (case rs of (regs, s) \<Rightarrow> Some (regs, do_hlt s))
      else if byte = 0xf3 then gpe_rep inp outp orig_eip prefixes rs
      else if byte = 0x0f then gpe_escape orig_eip rs
      else gpe_stop orig_eip rs)"

text \<open>A trap from outside virtual-8086 mode freezes the task first; if it runs again, it goes on.\<close>

definition check_vm :: "vm86_regs \<times> 'a vpics_scheme \<Rightarrow> (vm86_regs \<times> 'a vpics_scheme) option" where
  "check_vm = (\<lambda>(regs, s).
     (if eflags regs AND EFLAGS_VM = 0 then do { s1 \<leftarrow> dump_regs s; Some (regs, s1) } else Some (regs, s)))"

definition vm_gpe_handler :: "'a vpics_scheme inp \<Rightarrow> 'a vpics_scheme outp
    \<Rightarrow> vm86_regs \<times> 'a vpics_scheme \<Rightarrow> (vm86_regs \<times> 'a vpics_scheme) option" where
  "vm_gpe_handler inp outp rs =
     do { rs1 \<leftarrow> check_vm rs;
          (prefixes, rs2) \<leftarrow> get_prefixes rs1;
          (byte, rs3) \<leftarrow> pop_cs rs2;
          gpe_dispatch inp outp (eip (fst rs)) prefixes byte rs3 }"

definition vm_invl_handler :: "'a vpics_scheme serve
    \<Rightarrow> vm86_regs \<times> 'a vpics_scheme \<Rightarrow> (vm86_regs \<times> 'a vpics_scheme) option" where
  "vm_invl_handler serve rs =
     do { rs1 \<leftarrow> check_vm rs;
          (byte, rs2) \<leftarrow> pop_cs rs1;
          if byte = 0x63
          then do { (c, regs, s) \<leftarrow> pop_cs rs2;
                    case get_arpl_handler (ucast c) s of
                      Some ah \<Rightarrow> serve (arpl_name ah) (ucast c) (regs, s)
                    | None \<Rightarrow> Some (regs, s) }
          else Some (simulate_vm_int 6 rs2) }"

text \<open>\<open>vm_div_handler\<close> and its like: an exception with vector \<open>n\<close>.\<close>

definition vm_exception ::
    "u32 \<Rightarrow> vm86_regs \<times> 'a vpics_scheme \<Rightarrow> (vm86_regs \<times> 'a vpics_scheme) option" where
  "vm_exception n = (\<lambda>(regs, s).
     (if eflags regs AND EFLAGS_VM = 0 then do { s1 \<leftarrow> dump_regs s; Some (regs, s1) }
      else Some (simulate_vm_int n (regs, s))))"

definition vm_div_handler :: "vm86_regs \<times> 'a vpics_scheme \<Rightarrow> (vm86_regs \<times> 'a vpics_scheme) option" where
  "vm_div_handler = vm_exception 0"
definition vm_debug_handler :: "vm86_regs \<times> 'a vpics_scheme \<Rightarrow> (vm86_regs \<times> 'a vpics_scheme) option" where
  "vm_debug_handler = vm_exception 1"
definition vm_breakpoint_handler :: "vm86_regs \<times> 'a vpics_scheme \<Rightarrow> (vm86_regs \<times> 'a vpics_scheme) option" where
  "vm_breakpoint_handler = vm_exception 3"
definition vm_ovfl_handler :: "vm86_regs \<times> 'a vpics_scheme \<Rightarrow> (vm86_regs \<times> 'a vpics_scheme) option" where
  "vm_ovfl_handler = vm_exception 4"

text \<open>The result's flag tells whether the fault was dealt with.\<close>

definition vm_pfl_handler ::
    "u32 \<Rightarrow> vm86_regs \<times> 'a vpics_scheme \<Rightarrow> (bool \<times> vm86_regs \<times> 'a vpics_scheme) option" where
  "vm_pfl_handler lin_addr = (\<lambda>(regs, s).
     (if test_mask (error_code regs) 1
      then (if lin_addr < 0xa0000 \<or> lin_addr > 0xfffff then Some (False, regs, s)
            else do { (len, s1) \<leftarrow> get_inslen get_user_byte (GET16 (eip regs)) False s;
                      Some (True, regs\<lparr>eip := SET16 (eip regs) (GET16 (eip regs) + len)\<rparr>, s1) })
      else Some (True, regs, vm_pfl_missing lin_addr s)))"

end
