(* ===== verification/Machine.thy ===== *)
theory Machine
  imports VPorts VmFault
begin

text \<open>
  The machine put together: the functions the I/O handlers, the kill handlers, the timer requests
  and the ARPL services point to are the devices' operations.  Handlers of devices outside the
  development (\<open>other_ioh\<close>, \<open>other_kill_fn\<close>, \<open>other_timer_fn\<close>, services other than the
  keyboard's) are arguments.
\<close>

unbundle bit_operations_syntax

definition machine_in :: "(u32 \<Rightarrow> u16 \<Rightarrow> nat \<Rightarrow> 'a vports_scheme \<Rightarrow> u32 \<times> 'a vports_scheme)
    \<Rightarrow> 'a vports_scheme inp" where
  "machine_in other dev port sz s =
     (case dev of
        master_ioh \<Rightarrow> vpic_in port sz s
      | slave_ioh \<Rightarrow> vpic_in port sz s
      | vpit_ioh \<Rightarrow> vpit_in port sz s
      | cmos_io \<Rightarrow> vcmos_in port sz s
      | vdma_ioh _ \<Rightarrow> vdma_in port sz s
      | vkbd_ioh \<Rightarrow> vkbd_read_port port sz s
      | vide_ioh \<Rightarrow> vide_in port sz s
      | printer_io _ \<Rightarrow> vprinter_in port sz s
      | serial_io _ \<Rightarrow> vserial_in port sz s
      | other_ioh n \<Rightarrow> other n port sz s)"

definition machine_out :: "(u32 \<Rightarrow> u16 \<Rightarrow> nat \<Rightarrow> u32 \<Rightarrow> 'a vports_scheme \<Rightarrow> 'a vports_scheme)
    \<Rightarrow> 'a vports_scheme outp" where
  "machine_out other dev port sz val s =
     (case dev of
        master_ioh \<Rightarrow> vpic_out port sz val s
      | slave_ioh \<Rightarrow> vpic_out port sz val s
      | vpit_ioh \<Rightarrow> vpit_out speaker_callback port sz val s
      | cmos_io \<Rightarrow> vcmos_out port sz val s
      | vdma_ioh _ \<Rightarrow> vdma_out port sz val s
      | vkbd_ioh \<Rightarrow> vkbd_write_port port sz val s
      | vide_ioh \<Rightarrow> vide_out port sz val s
      | printer_io _ \<Rightarrow> vprinter_out port sz val s
      | serial_io _ \<Rightarrow> vserial_out port sz val s
      | other_ioh n \<Rightarrow> other n port sz val s)"

text \<open>\<open>vpic_ok\<close> and \<open>beyond\<close> are the arguments of \<open>rtc_update\<close>.\<close>

definition machine_timer :: "(u32 \<Rightarrow> 'a vports_scheme \<Rightarrow> 'a vports_scheme option) \<Rightarrow> bool \<Rightarrow> (nat \<Rightarrow> int)
    \<Rightarrow> 'a vports_scheme runner" where
  "machine_timer other vpic_ok beyond f s =
     (case f of
        vpit_timer_fn \<Rightarrow> Some (vpit_timer_handler s)
      | rtc_update_fn \<Rightarrow> Some (rtc_update vpic_ok beyond s)
      | other_timer_fn n \<Rightarrow> other n s)"

definition machine_serve :: "'a vports_scheme serve \<Rightarrow> 'a vports_scheme serve" where
  "machine_serve other name svc rs =
     (if name = 9 then (case rs of (regs, s) \<Rightarrow> map_option (Pair regs) (vkbd_arpl_handler svc s))
      else other name svc rs)"

definition run_kill_fn :: "(u32 \<Rightarrow> 'a vports_scheme \<Rightarrow> 'a vports_scheme) \<Rightarrow> kill_fn
    \<Rightarrow> 'a vports_scheme \<Rightarrow> 'a vports_scheme" where
  "run_kill_fn other f s =
     (case f of
        kill_vpic_fn \<Rightarrow> kill_vpic s
      | kill_vpit_fn \<Rightarrow> kill_vpit s
      | delete_vcmos_fn \<Rightarrow> delete_vcmos s
      | delete_vdma_fn \<Rightarrow> delete_vdma s
      | delete_vide_fn \<Rightarrow> delete_vide s
      | delete_vprinter_fn \<Rightarrow> delete_vprinter s
      | delete_vserial_fn \<Rightarrow> delete_vserial s
      | other_kill_fn n \<Rightarrow> other n s)"

text \<open>\<open>kill_vm\<close>: freeze the task, run the kill handlers, close the tty, kill the task.\<close>

definition kill_vm :: "(u32 \<Rightarrow> 'a vports_scheme \<Rightarrow> 'a vports_scheme)
    \<Rightarrow> (tid \<Rightarrow> 'a vports_scheme \<Rightarrow> 'a vports_scheme) \<Rightarrow> 'a vports_scheme \<Rightarrow> 'a vports_scheme" where
  "kill_vm other close_dir s =
     (let s0 = forbid s;
          s1 = suspend_task (vm_task s0)
                 (upd_task (vm_task s0) (\<lambda>t. t\<lparr>t_flags := t_flags t OR TASK_FROZEN\<rparr>) s0);
          s2 = fold (run_kill_fn other) (kill_list s1) s1;
          s3 = s2\<lparr>slot_vkbd := None\<rparr>
      in permit (snd (kill_task close_dir (vm_task s3) s3)))"

text \<open>The traps of a virtual machine on this machine.\<close>

definition machine_gpe ::
    "(u32 \<Rightarrow> u16 \<Rightarrow> nat \<Rightarrow> 'a vports_scheme \<Rightarrow> u32 \<times> 'a vports_scheme)
     \<Rightarrow> (u32 \<Rightarrow> u16 \<Rightarrow> nat \<Rightarrow> u32 \<Rightarrow> 'a vports_scheme \<Rightarrow> 'a vports_scheme)
     \<Rightarrow> vm86_regs \<times> 'a vports_scheme \<Rightarrow> (vm86_regs \<times> 'a vports_scheme) option" where
  "machine_gpe oin oout = vm_gpe_handler (machine_in oin) (machine_out oout)"

end
