(* ===== verification/Frames.thy ===== *)
theory Frames
  imports Machine
begin

text \<open>
  Frames: which part of the machine's state an operation leaves alone.  The state is a chain of
  record extensions, so an operation of one layer keeps the \<open>more\<close> part of that layer, and with
  it every field of the layers above.  The collection \<open>frame_simps\<close> holds these laws.
\<close>

unbundle bit_operations_syntax

named_theorems frame_simps \<open>parts of the state an operation keeps\<close>

section \<open>From layer to layer\<close>

lemma more_sched_timers: "sched.more s' = sched.more s \<Longrightarrow> timers.more s' = timers.more s"
  by (cases s, cases s') simp

lemma more_timers_vmach: "timers.more s' = timers.more s \<Longrightarrow> vmach.more s' = vmach.more s"
  by (cases s, cases s') simp

lemma more_vmach_vpics: "vmach.more s' = vmach.more s \<Longrightarrow> vpics.more s' = vpics.more s"
  by (cases s, cases s') simp

lemma more_vpics_vpits: "vpics.more s' = vpics.more s \<Longrightarrow> vpits.more s' = vpits.more s"
  by (cases s, cases s') simp

lemma more_vpits_vcmoss: "vpits.more s' = vpits.more s \<Longrightarrow> vcmoss.more s' = vcmoss.more s"
  by (cases s, cases s') simp

lemma more_vcmoss_vdmas: "vcmoss.more s' = vcmoss.more s \<Longrightarrow> vdmas.more s' = vdmas.more s"
  by (cases s, cases s') simp

lemma more_vdmas_vkbds: "vdmas.more s' = vdmas.more s \<Longrightarrow> vkbds.more s' = vkbds.more s"
  by (cases s, cases s') simp

lemma more_vkbds_vides: "vkbds.more s' = vkbds.more s \<Longrightarrow> vides.more s' = vides.more s"
  by (cases s, cases s') simp

lemma timers_of_more: "sched.more s' = sched.more s \<Longrightarrow>
    timer_list s' = timer_list s \<and> timer_reqs s' = timer_reqs s \<and> date s' = date s"
  by (cases s, cases s') simp

lemma vmach_of_more: "timers.more s' = timers.more s \<Longrightarrow>
    vm_task s' = vm_task s \<and> virtual_eflags s' = virtual_eflags s \<and> hlted s' = hlted s
    \<and> a20_state s' = a20_state s \<and> local_io s' = local_io s \<and> global_io s' = global_io s
    \<and> himem_ptes s' = himem_ptes s \<and> global_arpls s' = global_arpls s \<and> kill_list s' = kill_list s
    \<and> slot_bitmap s' = slot_bitmap s \<and> base_mem s' = base_mem s \<and> extended_mem s' = extended_mem s
    \<and> empty_page s' = empty_page s \<and> nmi_sts s' = nmi_sts s"
  by (cases s, cases s') simp

lemma vpic_of_more: "vmach.more s' = vmach.more s \<Longrightarrow> slot_vpic s' = slot_vpic s"
  by (cases s, cases s') simp

lemma vpit_of_more: "vpics.more s' = vpics.more s \<Longrightarrow> slot_vpit s' = slot_vpit s"
  by (cases s, cases s') simp

lemma vcmos_of_more: "vpits.more s' = vpits.more s \<Longrightarrow> slot_vcmos s' = slot_vcmos s"
  by (cases s, cases s') simp

lemma vdma_of_more: "vcmoss.more s' = vcmoss.more s \<Longrightarrow> slot_vdma s' = slot_vdma s"
  by (cases s, cases s') simp

lemma vkbd_of_more: "vdmas.more s' = vdmas.more s \<Longrightarrow> slot_vkbd s' = slot_vkbd s \<and> tty_events s' = tty_events s"
  by (cases s, cases s') simp

lemma vide_of_more: "vkbds.more s' = vkbds.more s \<Longrightarrow> slot_vide s' = slot_vide s"
  by (cases s, cases s') simp

lemma vports_of_more: "vides.more s' = vides.more s \<Longrightarrow>
    slot_vprinter s' = slot_vprinter s \<and> slot_vserial s' = slot_vserial s"
  by (cases s, cases s') simp

section \<open>Pages and tasks\<close>

lemma pmem_more_alloc [frame_simps]: "pmem.more (snd (alloc_page s)) = pmem.more s"
  by (simp add: alloc_page_def Let_def)

lemma pmem_more_free [frame_simps]: "pmem.more (free_page p s) = pmem.more s"
  by (simp add: free_page_def)

lemma sched_of_pmem_more: "pmem.more s' = pmem.more s \<Longrightarrow> sched.more s' = sched.more s"
  by (cases s, cases s') simp


lemma pmem_more_set_entry [frame_simps]: "pmem.more (set_entry pd i v s) = pmem.more s"
  by (simp add: set_entry_def)

lemma pmem_more_get_table [frame_simps]: "pmem.more (snd (get_table pd i fl s)) = pmem.more s"
  by (auto simp: get_table_def Let_def split_beta frame_simps)

lemma pmem_more_set_pte [frame_simps]: "pmem.more (set_pte pd a e s) = pmem.more s"
  by (simp add: set_pte_def Let_def split_beta frame_simps)

lemma pmem_more_map_page [frame_simps]: "pmem.more (map_page pd pg a fl s) = pmem.more s"
  by (simp add: map_page_def Let_def split_beta frame_simps)

lemma frame_of_fold:
  assumes "\<And>x s. f (g x s) = f s" shows "f (fold g xs s) = f s"
  using assms by (induction xs arbitrary: s) auto

lemma pmem_more_delete_page_table [frame_simps]: "pmem.more (delete_page_table pt s) = pmem.more s"
proof -
  have "pmem.more (delete_pte pt i s) = pmem.more s" for i and s :: "'a pmem_scheme"
    by (simp add: delete_pte_def frame_simps)
  then show ?thesis by (simp add: delete_page_table_def frame_simps frame_of_fold)
qed

lemma pmem_more_delete_page_dir [frame_simps]: "pmem.more (delete_page_dir pd s) = pmem.more s"
proof -
  have "pmem.more (delete_pde pd i s) = pmem.more s" for i and s :: "'a pmem_scheme"
    by (simp add: delete_pde_def frame_simps)
  then show ?thesis by (simp add: delete_page_dir_def frame_simps frame_of_fold)
qed

lemma sched_more_upd_task [frame_simps]: "sched.more (upd_task t f s) = sched.more s"
  by (simp add: upd_task_def)

lemma sched_more_unlink_task [frame_simps]: "sched.more (unlink_task t s) = sched.more s"
  by (simp add: unlink_task_def)

lemma sched_more_enqueue_task [frame_simps]: "sched.more (enqueue_task t s) = sched.more s"
  by (simp add: enqueue_task_def)

lemma sched_more_free_page_if [frame_simps]: "sched.more (free_page_if p s) = sched.more s"
  by (simp add: free_page_if_def sched_of_pmem_more[OF pmem_more_free])

lemma sched_more_reclaim_task [frame_simps]: "sched.more (reclaim_task t s) = sched.more s"
  by (simp add: reclaim_task_def Let_def frame_simps sched_of_pmem_more[OF pmem_more_delete_page_dir])

lemma sched_more_reclaim_zombies [frame_simps]: "sched.more (reclaim_zombies n s) = sched.more s"
  by (induction n arbitrary: s) (simp_all add: Let_def frame_simps)

lemma sched_more_switch_task [frame_simps]: "sched.more (switch_task t s) = sched.more s"
  by (simp add: switch_task_def Let_def frame_simps)

lemma sched_more_schedule [frame_simps]: "sched.more (schedule s) = sched.more s"
  by (simp add: schedule_def Let_def frame_simps split: list.split)

lemma sched_more_preempt [frame_simps]: "sched.more (preempt s) = sched.more s"
  by (simp add: preempt_def frame_simps)

lemma sched_more_wake_task [frame_simps]: "sched.more (wake_task t s) = sched.more s"
  by (simp add: wake_task_def Let_def frame_simps)

lemma sched_more_suspend_task [frame_simps]: "sched.more (suspend_task t s) = sched.more s"
  by (simp add: suspend_task_def Let_def frame_simps)

lemma sched_more_permit [frame_simps]: "sched.more (permit s) = sched.more s"
  by (simp add: permit_def Let_def frame_simps)

lemma sched_more_forbid [frame_simps]: "sched.more (forbid s) = sched.more s"
  by (simp add: forbid_def frame_simps)

lemma sched_more_remove_task [frame_simps]: "sched.more (remove_task t s) = sched.more s"
  by (simp add: remove_task_def frame_simps)

section \<open>Timers and the virtual machine\<close>

lemma timers_more_upd_req [frame_simps]: "timers.more (upd_req r f s) = timers.more s"
  by (simp add: upd_req_def)

lemma timers_more_set_timer [frame_simps]:
  "timers.more (set_timer_func r n f s) = timers.more s"
  "timers.more (set_timer_interval r n s) = timers.more s"
  "timers.more (set_timer_sem r n s) = timers.more s"
  by (simp_all add: set_timer_func_def set_timer_interval_def set_timer_sem_def frame_simps)

lemma timers_more_add_timer [frame_simps]: "timers.more (add_timer r s) = timers.more s"
  by (simp add: add_timer_def Let_def frame_simps)

lemma timers_more_remove_timer [frame_simps]: "timers.more (remove_timer r s) = timers.more s"
  by (simp add: remove_timer_def)

lemma vmach_more_of_pmem: "pmem.more s' = pmem.more s \<Longrightarrow> vmach.more s' = vmach.more s"
  by (cases s, cases s') simp

lemma vmach_more_set_gate_a20 [frame_simps]: "vmach.more (set_gate_a20 b s) = vmach.more s"
proof -
  have set: "vmach.more (set_pte pd a e t) = vmach.more t" for pd a e and t :: "'a vmach_scheme"
    by (rule vmach_more_of_pmem) (simp add: frame_simps)
  show ?thesis
    by (auto simp: set_gate_a20_def Let_def set frame_of_fold)
qed

lemma vmach_more_handlers [frame_simps]:
  "vmach.more (add_io_handler l h s) = vmach.more s"
  "vmach.more (remove_io_handler l h s) = vmach.more s"
  "vmach.more (add_arpl_handler ah s) = vmach.more s"
  "vmach.more (remove_arpl_handler ah s) = vmach.more s"
  "vmach.more (add_vm_kill_handler k s) = vmach.more s"
  by (simp_all add: add_io_handler_def remove_io_handler_def add_arpl_handler_def
      remove_arpl_handler_def add_vm_kill_handler_def)

section \<open>The interrupt controller\<close>

lemma sched_more_set_return_hook [frame_simps]: "sched.more (set_return_hook h s) = sched.more s"
  by (simp add: set_return_hook_def frame_simps)

lemmas vpics_more_of_sched = more_sched_timers [THEN more_timers_vmach, THEN more_vmach_vpics]

lemma vpics_more_set_return_hook [frame_simps]: "vpics.more (set_return_hook h s) = vpics.more s"
  by (rule vpics_more_of_sched) (simp add: frame_simps)

lemma vpics_more_install_return_hook [frame_simps]: "vpics.more (install_return_hook s) = vpics.more s"
  by (simp add: install_return_hook_def frame_simps split: option.split)

lemma vpics_more_wake_task [frame_simps]: "vpics.more (wake_task t s) = vpics.more s"
  by (rule vpics_more_of_sched) (simp add: frame_simps)

lemma vpics_more_simulate_irq [frame_simps]: "vpics.more (simulate_irq irq s) = vpics.more s"
  by (simp add: simulate_irq_def Let_def frame_simps split: option.split)

lemma vpics_more_set_mask [frame_simps]: "vpics.more (set_mask b m s) = vpics.more s"
  by (simp add: set_mask_def split: option.split)

lemma vpics_more_vpic_out [frame_simps]: "vpics.more (vpic_out p n v s) = vpics.more s"
  by (auto simp: vpic_out_def Let_def split_beta frame_simps split: option.split)

lemma vpics_more_vpic_in [frame_simps]: "vpics.more (snd (vpic_in p n s)) = vpics.more s"
  by (auto simp: vpic_in_def Let_def split_beta frame_simps split: option.split)

lemma vpics_more_kill_vpic [frame_simps]: "vpics.more (kill_vpic s) = vpics.more s"
  by (simp add: kill_vpic_def split: option.split)

lemmas vpics_more_of_timers = more_timers_vmach [THEN more_vmach_vpics]

lemma vpics_more_timer_ops [frame_simps]:
  "vpics.more (set_timer_func r n f s) = vpics.more s"
  "vpics.more (set_timer_interval r n s) = vpics.more s"
  "vpics.more (add_timer r s) = vpics.more s"
  "vpics.more (remove_timer r s) = vpics.more s"
  by (rule vpics_more_of_timers, simp add: frame_simps)+

lemma vpics_more_set_gate_a20 [frame_simps]: "vpics.more (set_gate_a20 b s) = vpics.more s"
  by (rule more_vmach_vpics) (simp add: frame_simps)

lemma vpics_more_handlers [frame_simps]:
  "vpics.more (add_io_handler l h s) = vpics.more s"
  "vpics.more (remove_io_handler l h s) = vpics.more s"
  "vpics.more (add_vm_kill_handler k s) = vpics.more s"
  by (rule more_vmach_vpics, simp add: frame_simps)+

end
