(* ===== verification/DeviceSafety.thy ===== *)
theory DeviceSafety
  imports Frames
begin

text \<open>
  What the guest can and cannot do to the devices' structures through their ports.  Every device
  has an invariant that keeps its array indices in bounds and its divisors nonzero; the locale
  \<open>port_device\<close> is the contract of a device's port functions, interpreted for each device on its
  own functions.  The steps of the whole machine keep all invariants.
\<close>

unbundle bit_operations_syntax

section \<open>Port accesses\<close>

datatype port_access = PortIn u16 nat | PortOut u16 nat u32

definition do_access ::
    "(u16 \<Rightarrow> nat \<Rightarrow> 's \<Rightarrow> u32 \<times> 's) \<Rightarrow> (u16 \<Rightarrow> nat \<Rightarrow> u32 \<Rightarrow> 's \<Rightarrow> 's) \<Rightarrow> port_access \<Rightarrow> 's \<Rightarrow> 's" where
  "do_access inp outp a s =
     (case a of PortIn p n \<Rightarrow> snd (inp p n s) | PortOut p n v \<Rightarrow> outp p n v s)"

locale port_device =
  fixes ok :: "'s \<Rightarrow> bool"
    and inp :: "u16 \<Rightarrow> nat \<Rightarrow> 's \<Rightarrow> u32 \<times> 's"
    and outp :: "u16 \<Rightarrow> nat \<Rightarrow> u32 \<Rightarrow> 's \<Rightarrow> 's"
  assumes in_ok: "ok s \<Longrightarrow> ok (snd (inp p n s))"
    and out_ok: "ok s \<Longrightarrow> ok (outp p n v s)"
begin

lemma access_ok: "ok s \<Longrightarrow> ok (do_access inp outp a s)"
  by (simp add: do_access_def in_ok out_ok split: port_access.split)

lemma accesses_ok: "ok s \<Longrightarrow> ok (fold (do_access inp outp) as s)"
  by (induction as arbitrary: s) (simp_all add: access_ok)

end

section \<open>The interval timer\<close>

definition chan_ok :: "vpit_channel \<Rightarrow> bool" where
  "chan_ok c \<longleftrightarrow> 5 \<le> interval_ticks c \<and> interval_ticks c \<le> 56"

definition pit_ok :: "vpit option \<Rightarrow> bool" where
  "pit_ok v \<longleftrightarrow> (\<forall>vp. v = Some vp \<longrightarrow> length (channels vp) = 3 \<and> (\<forall>c\<in>set (channels vp). chan_ok c))"

lemma pit_ok_None [simp]: "pit_ok None"
  by (simp add: pit_ok_def)

lemma pit_ok_Some: "pit_ok (Some vp) \<longleftrightarrow> length (channels vp) = 3 \<and> (\<forall>c\<in>set (channels vp). chan_ok c)"
  by (simp add: pit_ok_def)

lemma get_divisor_bounds: "1 \<le> unat (get_divisor d)" "unat (get_divisor d) \<le> 65536"
proof -
  have "unat d < 65536" using unsigned_less[of d, where 'a = nat] by simp
  moreover from this have "unat (ucast d :: u32) = unat d"
    by (simp add: unsigned_ucast_eq unsigned_take_bit_eq take_bit_nat_eq_self)
  moreover have "d \<noteq> 0 \<Longrightarrow> unat d \<noteq> 0" by (simp add: unat_eq_zero)
  ultimately show "1 \<le> unat (get_divisor d)" "unat (get_divisor d) \<le> 65536"
    by (auto simp: get_divisor_def)
qed

text \<open>Multiplication by 1024 does not wrap: the interval is the exact quotient, at least 5.\<close>

lemma calc_divisor_ticks_unat:
  "unat (calc_divisor_ticks d) = max 5 (1024 * unat (get_divisor d) div 1193180)"
proof -
  have "1024 * unat (get_divisor d) < 2 ^ LENGTH(32)" using get_divisor_bounds(2)[of d] by simp
  then have "unat (1024 * get_divisor d) = 1024 * unat (get_divisor d)"
    by (simp add: unat_word_ariths)
  then have "unat ((1024 * get_divisor d) div 1193180) = 1024 * unat (get_divisor d) div 1193180"
    by (simp add: unat_div)
  then show ?thesis
    by (auto simp: calc_divisor_ticks_def Let_def word_less_nat_alt max_def)
qed

lemma calc_divisor_ticks_bounds:
  "5 \<le> (ucast (calc_divisor_ticks d) :: u16)" "(ucast (calc_divisor_ticks d) :: u16) \<le> 56"
proof -
  have "unat (calc_divisor_ticks d) \<le> 56"
  proof -
    have "1024 * unat (get_divisor d) div 1193180 \<le> 1024 * 65536 div 1193180"
      using get_divisor_bounds(2)[of d] by (intro div_le_mono) simp
    then show ?thesis by (simp add: calc_divisor_ticks_unat)
  qed
  moreover have "5 \<le> unat (calc_divisor_ticks d)" by (simp add: calc_divisor_ticks_unat)
  ultimately show "5 \<le> (ucast (calc_divisor_ticks d) :: u16)" "(ucast (calc_divisor_ticks d) :: u16) \<le> 56"
    by (auto simp: word_le_nat_alt unsigned_ucast_eq unsigned_take_bit_eq take_bit_nat_eq_self)
qed

lemma chan_ok_update [simp]:
  "chan_ok (c\<lparr>latch_state := l\<rparr>) = chan_ok c"
  "chan_ok (c\<lparr>divisor := d\<rparr>) = chan_ok c"
  "chan_ok (c\<lparr>command := k\<rparr>) = chan_ok c"
  "chan_ok (c\<lparr>interval_ticks := ucast (calc_divisor_ticks d), start_ticks := t\<rparr>)"
  by (simp_all add: chan_ok_def calc_divisor_ticks_bounds)

lemma chan_ok_new [simp]: "chan_ok (new_channel cmd d now)"
  by (simp add: chan_ok_def new_channel_def calc_divisor_ticks_bounds)

lemma chan_ok_write_latch: "chan_ok c \<Longrightarrow> chan_ok (fst (write_latch val c))"
  by (simp add: write_latch_def split: vpit_latch_state.split)

lemma chan_ok_read_back: "chan_ok c \<Longrightarrow> chan_ok (read_back_chan val c)"
  by (simp add: read_back_chan_def)

lemma chan_ok_set_command: "chan_ok c \<Longrightarrow> chan_ok (set_command val c)"
  by (simp add: set_command_def chan_ok_def)

lemma pit_ok_set_chan:
  assumes "pit_ok (Some vp)" "i < 3" "chan_ok c" shows "pit_ok (Some (set_chan i c vp))"
  using assms set_update_subset_insert[of "channels vp" i c] by (auto simp: pit_ok_Some set_chan_def)

text \<open>The channel of a data port, and of a control word that is not the read-back command.\<close>

lemma pit_port_channel: "port = 0x40 \<or> port = 0x41 \<or> port = 0x42 \<Longrightarrow> unat (port AND 3 :: u16) < 3"
  by auto

lemma pit_control_channel:
  assumes "(val :: u32) AND 0xc0 \<noteq> 0xc0" shows "unat (drop_bit 6 val AND 3) < 3"
proof -
  have "drop_bit 6 val AND 3 \<noteq> 3"
  proof
    assume e: "drop_bit 6 val AND 3 = 3"
    have "bit val 6 \<and> bit val 7"
      using arg_cong[OF e, of "\<lambda>x. bit x 0"] arg_cong[OF e, of "\<lambda>x. bit x 1"] by (simp add: bit_simps)
    then have "val AND 0xc0 = 0xc0" by (intro bit_word_eqI) (auto simp: bit_simps bit_numeral_rec numeral_eq_Suc less_Suc_eq)
    then show False using assms by simp
  qed
  moreover have "drop_bit 6 val AND 3 = take_bit 2 (drop_bit 6 val)" by (simp add: take_bit_eq_mask mask_eq_exp_minus_1)
  then have "unat (drop_bit 6 val AND 3) < 4" by (simp add: unsigned_take_bit_eq take_bit_nat_less_exp[of 2, simplified])
  ultimately show ?thesis by (auto simp: word_unat_eq_iff)
qed

lemma pit_ok_nth: "pit_ok (Some vp) \<Longrightarrow> i < 3 \<Longrightarrow> chan_ok (channels vp ! i)"
  by (simp add: pit_ok_Some)

lemma slot_vpit_set_vpit [simp]: "slot_vpit (set_vpit vp s) = Some vp"
  by (simp add: set_vpit_def)

lemma slot_vpit_frame [frame_simps]:
  "slot_vpit (simulate_irq i s) = slot_vpit s"
  "slot_vpit (set_mask b m s) = slot_vpit s"
  "slot_vpit (add_timer r s) = slot_vpit s"
  "slot_vpit (remove_timer r s) = slot_vpit s"
  "slot_vpit (set_timer_interval r n s) = slot_vpit s"
  "slot_vpit (set_timer_func r n f s) = slot_vpit s"
  "slot_vpit (set_gate_a20 b s) = slot_vpit s"
  "slot_vpit (set_return_hook h s) = slot_vpit s"
  "slot_vpit (add_vm_kill_handler k s) = slot_vpit s"
  by (rule vpit_of_more, simp add: frame_simps)+

lemma slot_vpit_start_timer:
  "slot_vpit (start_timer s) = slot_vpit s
   \<or> (\<exists>vp. slot_vpit s = Some vp \<and> slot_vpit (start_timer s) = Some (vp\<lparr>timer_ticking := True\<rparr>))"
  by (simp add: start_timer_def Let_def split: option.split)

lemma pit_ok_start_timer: "pit_ok (slot_vpit s) \<Longrightarrow> pit_ok (slot_vpit (start_timer s))"
  using slot_vpit_start_timer[of s] by (auto simp: pit_ok_Some)

lemma pit_ok_write_control:
  assumes "pit_ok (Some vp)" shows "pit_ok (Some (write_control val vp))"
proof (cases "val AND 0xc0 = 0xc0")
  case True
  define f where "f m i v = (if test_mask val m then set_chan i (read_back_chan val (channels v ! i)) v else v)"
    for m i v
  have f: "pit_ok (Some (f m i v))" if "pit_ok (Some v)" "i < 3" for m i v
    using that by (simp add: f_def pit_ok_set_chan chan_ok_read_back pit_ok_nth)
  have "write_control val vp = f 0x08 2 (f 0x04 1 (f 0x02 0 vp))"
    using True by (simp only: write_control_def Let_def f_def if_True refl)
  then show ?thesis using f assms by simp
next
  case False
  then show ?thesis
    using assms
    by (simp only: write_control_def Let_def if_False) (intro pit_ok_set_chan pit_control_channel, auto simp: pit_ok_nth chan_ok_set_command pit_control_channel)
qed

lemma pit_ok_vpit_out:
  assumes "pit_ok (slot_vpit s)" "\<And>s. pit_ok (slot_vpit s) \<Longrightarrow> pit_ok (slot_vpit (callback s))"
  shows "pit_ok (slot_vpit (vpit_out callback port sz val s))"
proof (cases "slot_vpit s")
  case None
  then show ?thesis by (simp add: vpit_out_def)
next
  case (Some vp)
  note ok = assms(1)[unfolded Some]
  show ?thesis
  proof (cases "sz = 1 \<and> (port = 0x40 \<or> port = 0x41 \<or> port = 0x42)")
    case True
    define i where "i = unat (port AND 3)"
    have i: "i < 3" using True by (auto simp: i_def)
    obtain chan high where wl: "write_latch val (channels vp ! i) = (chan, high)" by fastforce
    define s1 where "s1 = set_vpit (set_chan i chan vp) s"
    define s2 where "s2 = (if high then (if i = 0 then start_timer s1
        else if i = 2 \<and> chan2_callback vp then callback s1 else s1) else s1)"
    have "chan_ok chan" using chan_ok_write_latch[of "channels vp ! i" val] wl pit_ok_nth[OF ok i] by simp
    then have "pit_ok (slot_vpit s1)" using ok i by (simp add: s1_def pit_ok_set_chan)
    then have "pit_ok (slot_vpit s2)" using assms(2) by (simp add: s2_def pit_ok_start_timer)
    moreover have "vpit_out callback port sz val s =
      (case slot_vpit s2 of None \<Rightarrow> s2
       | Some vp2 \<Rightarrow> (let c = channels vp2 ! i
           in set_vpit (set_chan i (c\<lparr>interval_ticks := ucast (calc_divisor_ticks (divisor c)),
                                      start_ticks := get_timer_ticks s2\<rparr>) vp2) s2))"
      using True wl unfolding i_def s1_def s2_def
      by (simp only: vpit_out_def Some option.case Let_def prod.case if_True if_False simp_thms)
    ultimately show ?thesis
      using i by (auto simp: Let_def split: option.split intro!: pit_ok_set_chan)
  next
    case False
    then show ?thesis using ok Some by (auto simp: vpit_out_def pit_ok_write_control)
  qed
qed

lemma pit_ok_vpit_in:
  assumes "pit_ok (slot_vpit s)" shows "pit_ok (slot_vpit (snd (vpit_in port sz s)))"
proof (cases "slot_vpit s")
  case None
  then show ?thesis by (simp add: vpit_in_def)
next
  case (Some vp)
  have "pit_ok (Some (set_chan i ((channels vp ! i)\<lparr>latch_state := l\<rparr>) vp))" if "i < 3" for i l
    using assms[unfolded Some] that by (intro pit_ok_set_chan) (simp_all add: pit_ok_nth)
  then show ?thesis
    using assms Some pit_port_channel[of port] by (simp add: vpit_in_def Let_def split: vpit_latch_state.split)
qed

lemma pit_ok_vpit_timer_handler: "pit_ok (slot_vpit s) \<Longrightarrow> pit_ok (slot_vpit (vpit_timer_handler s))"
  by (auto simp: vpit_timer_handler_def pit_ok_Some frame_simps split: option.split
      intro!: pit_ok_start_timer)

section \<open>The clock\<close>

definition cmos_ok :: "vcmos option \<Rightarrow> bool" where
  "cmos_ok v \<longleftrightarrow> (\<forall>c. v = Some c \<longrightarrow> length (cmos_mem c) = 64 \<and> unat (cmos_reg c) < 64)"

lemma cmos_ok_simps [simp]:
  "cmos_ok None"
  "cmos_ok (Some c) \<longleftrightarrow> length (cmos_mem c) = 64 \<and> unat (cmos_reg c) < 64"
  by (simp_all add: cmos_ok_def)

lemma and_3f_less: "unat (ucast (val AND 0x3f :: u32) :: u8) < 64"
proof -
  have "val AND 0x3f = take_bit 6 val" by (simp add: take_bit_eq_mask mask_eq_exp_minus_1)
  then have "unat (val AND 0x3f) < 64" by (simp add: unsigned_take_bit_eq take_bit_nat_less_exp[of 6, simplified])
  then show ?thesis by (simp add: unsigned_ucast_eq unsigned_take_bit_eq take_bit_nat_eq_self)
qed

lemma length_recalc_checksum [simp]: "length (cmos_mem (recalc_checksum v)) = length (cmos_mem v)"
  "cmos_reg (recalc_checksum v) = cmos_reg v"
  by (simp_all add: recalc_checksum_def Let_def)

lemma length_rtc_date [simp]: "length (rtc_date beyond p) = length p"
  by (simp add: rtc_date_def Let_def split_beta)

lemma length_rtc_tick [simp]: "length (rtc_tick beyond p) = length p"
  by (simp add: rtc_tick_def Let_def split_beta)

lemma length_rtc_step [simp]: "length (fst (rtc_step beyond p)) = length p"
  by (simp add: rtc_step_def rtc_flags_def Let_def split_beta)

lemma slot_vcmos_set_vcmos [simp]: "slot_vcmos (set_vcmos v s) = Some v"
  by (simp add: set_vcmos_def)

lemma slot_vcmos_frame [frame_simps]:
  "slot_vcmos (simulate_irq i s) = slot_vcmos s"
  "slot_vcmos (set_mask b m s) = slot_vcmos s"
  "slot_vcmos (add_timer r s) = slot_vcmos s"
  "slot_vcmos (remove_timer r s) = slot_vcmos s"
  "slot_vcmos (set_timer_interval r n s) = slot_vcmos s"
  "slot_vcmos (set_timer_func r n f s) = slot_vcmos s"
  "slot_vcmos (set_gate_a20 b s) = slot_vcmos s"
  "slot_vcmos (set_return_hook h s) = slot_vcmos s"
  "slot_vcmos (add_vm_kill_handler k s) = slot_vcmos s"
  by (rule vcmos_of_more [OF more_vpics_vpits], simp add: frame_simps)+

lemma cmos_ok_vcmos_out: "cmos_ok (slot_vcmos s) \<Longrightarrow> cmos_ok (slot_vcmos (vcmos_out port sz val s))"
  by (auto simp: vcmos_out_def and_3f_less split: option.split)

lemma cmos_ok_vcmos_in: "cmos_ok (slot_vcmos s) \<Longrightarrow> cmos_ok (slot_vcmos (snd (vcmos_in port sz s)))"
  by (auto simp: vcmos_in_def split: option.split)

lemma cmos_ok_rtc_update:
  assumes "slot_vcmos s = Some v" "cmos_ok (slot_vcmos s)"
  shows "cmos_ok (slot_vcmos (rtc_update vpic_ok beyond s))"
proof -
  obtain p irq where st: "rtc_step beyond (cmos_mem v) = (p, irq)" by fastforce
  then have "length p = 64" using length_rtc_step[of beyond "cmos_mem v"] assms by simp
  then show ?thesis using assms st by (simp add: rtc_update_def Let_def frame_simps)
qed

lemma cmos_ok_set_vcmos_byte:
  assumes "slot_vcmos s \<noteq> None" "cmos_ok (slot_vcmos s)"
  shows "cmos_ok (slot_vcmos (set_vcmos_byte a v s))"
  using assms by (auto simp: set_vcmos_byte_def Let_def word_less_nat_alt)

section \<open>The DMA controllers\<close>

definition dma_ok :: "vdma option \<Rightarrow> bool" where
  "dma_ok v \<longleftrightarrow> (\<forall>d. v = Some d \<longrightarrow> length (dmac d) = 2 \<and> (\<forall>c\<in>set (dmac d). length (chan c) = 4))"

lemma dma_ok_simps [simp]:
  "dma_ok None"
  "dma_ok (Some d) \<longleftrightarrow> length (dmac d) = 2 \<and> (\<forall>c\<in>set (dmac d). length (chan c) = 4)"
  by (simp_all add: dma_ok_def)

lemma dma_reg_chan: "(r :: u16) < 8 \<Longrightarrow> unat (r div 2) < 4"
  by (simp add: word_less_nat_alt unat_div) 

lemma length_upd_chan [simp]: "i < length (chan d) \<Longrightarrow> length (chan (upd_chan i f d)) = length (chan d)"
  by (simp add: upd_chan_def)

lemma length_dma_write [simp]: "length (chan d) = 4 \<Longrightarrow> length (chan (dma_write r val d)) = 4"
  by (simp add: dma_write_def dma_reg_chan)

lemma length_dma_read [simp]: "length (chan d) = 4 \<Longrightarrow> length (chan (snd (dma_read r d))) = 4"
  by (simp add: dma_read_def Let_def dma_reg_chan)

lemma dma_ok_upd_dmac:
  assumes "dma_ok (Some v)" "k < 2" "length (chan d) = 4" shows "dma_ok (Some (upd_dmac k d v))"
  using assms set_update_subset_insert[of "dmac v" k d] by (auto simp: upd_dmac_def)

lemma dma_port_of_bounds:
  "dma_port_of port = PageReg k c \<Longrightarrow> k < 2 \<and> c < 4"
  "dma_port_of port = CtrlReg k r \<Longrightarrow> k < 2"
  by (auto simp: dma_port_of_def split: if_splits)

lemma dma_nth: "dma_ok (Some v) \<Longrightarrow> k < 2 \<Longrightarrow> length (chan (dmac v ! k)) = 4"
  by simp

lemma dma_ok_vdma_out:
  assumes "dma_ok (slot_vdma s)" shows "dma_ok (slot_vdma (vdma_out port sz val s))"
proof (cases "slot_vdma s")
  case None
  then show ?thesis by (simp add: vdma_out_def)
next
  case (Some v)
  note ok = assms[unfolded Some]
  show ?thesis
  proof (cases "dma_port_of port")
    case (PageReg k c)
    then show ?thesis
      using Some dma_ok_upd_dmac[OF ok] dma_port_of_bounds(1)[OF PageReg] dma_nth[OF ok]
      by (simp add: vdma_out_def del: dma_ok_simps)
  next
    case (CtrlReg k r)
    then show ?thesis
      using Some dma_ok_upd_dmac[OF ok] dma_port_of_bounds(2)[OF CtrlReg] dma_nth[OF ok]
      by (simp add: vdma_out_def del: dma_ok_simps)
  next
    case NoReg
    then show ?thesis using Some ok by (simp add: vdma_out_def)
  qed
qed

lemma dma_ok_vdma_in:
  assumes "dma_ok (slot_vdma s)" shows "dma_ok (slot_vdma (snd (vdma_in port sz s)))"
proof (cases "slot_vdma s")
  case None
  then show ?thesis by (simp add: vdma_in_def)
next
  case (Some v)
  note ok = assms[unfolded Some]
  show ?thesis
  proof (cases "dma_port_of port")
    case (CtrlReg k r)
    obtain x d where rd: "dma_read r (dmac v ! k) = (x, d)" by fastforce
    have "length (chan d) = 4"
      using length_dma_read[of "dmac v ! k" r] rd dma_nth[OF ok dma_port_of_bounds(2)[OF CtrlReg]] by simp
    then show ?thesis
      using Some CtrlReg rd dma_ok_upd_dmac[OF ok dma_port_of_bounds(2)[OF CtrlReg]]
      by (simp add: vdma_in_def del: dma_ok_simps)
  qed (use Some ok in \<open>simp_all add: vdma_in_def\<close>)
qed

section \<open>The keyboard\<close>

text \<open>
  The out position may leave the array downwards, by repeated resend commands: it is only known to
  be above -16.
\<close>

definition kbd_ok :: "vkbd option \<Rightarrow> bool" where
  "kbd_ok v \<longleftrightarrow> (\<forall>vk. v = Some vk \<longrightarrow> length (kbuf vk) = 16 \<and> 0 \<le> in_pos vk \<and> in_pos vk < 16
     \<and> -16 < out_pos vk \<and> out_pos vk < 16)"

lemma kbd_ok_None [simp]: "kbd_ok None"
  by (simp add: kbd_ok_def)

lemma kbd_ok_Some: "kbd_ok (Some vk) \<longleftrightarrow> length (kbuf vk) = 16 \<and> 0 \<le> in_pos vk \<and> in_pos vk < 16
     \<and> -16 < out_pos vk \<and> out_pos vk < 16"
  by (simp add: kbd_ok_def)

lemma rem16_bounds: "-16 < rem16 x" "rem16 x < 16" "0 \<le> x \<Longrightarrow> 0 \<le> rem16 x"
  using pos_mod_bound[of 16 "- x"] pos_mod_sign[of 16 "- x"] pos_mod_bound[of 16 x] pos_mod_sign[of 16 x]
  by (auto simp: rem16_def)

lemma slot_vkbd_upd [simp]: "slot_vkbd (upd_vkbd f s) = map_option f (slot_vkbd s)"
  by (simp add: upd_vkbd_def)

lemma slot_vkbd_event [simp]: "slot_vkbd (tty_event e s) = slot_vkbd s"
  by (simp add: tty_event_def)

lemmas more_vpics_vdmas = more_vpics_vpits [THEN more_vpits_vcmoss, THEN more_vcmoss_vdmas]

lemma slot_vkbd_frame [frame_simps]:
  "slot_vkbd (simulate_irq i s) = slot_vkbd s"
  "slot_vkbd (set_gate_a20 b s) = slot_vkbd s"
  by (rule conjunct1 [OF vkbd_of_more [OF more_vpics_vdmas]], simp add: frame_simps)+

lemma slot_vkbd_make_irq [simp]: "slot_vkbd (make_vkbd_irq s) = slot_vkbd s"
  by (simp add: make_vkbd_irq_def frame_simps)

lemma kbd_ok_upd:
  assumes "kbd_ok (slot_vkbd s)" "\<And>vk. kbd_ok (Some vk) \<Longrightarrow> kbd_ok (Some (f vk))"
  shows "kbd_ok (slot_vkbd (upd_vkbd f s))"
  using assms by (cases "slot_vkbd s") simp_all

lemma kbd_ok_vkbd_in: "kbd_ok (slot_vkbd s) \<Longrightarrow> kbd_ok (slot_vkbd (vkbd_in val s))"
  by (cases "slot_vkbd s") (auto simp: vkbd_in_def kbd_ok_Some buf_put_def rem16_bounds)

lemma kbd_ok_clear_full: "kbd_ok (Some vk) \<Longrightarrow> kbd_ok (Some (clear_full vk))"
  by (simp add: kbd_ok_Some clear_full_def)

lemma kbd_ok_vkbd_out:
  assumes "kbd_ok (slot_vkbd s)" shows "kbd_ok (slot_vkbd (snd (vkbd_out s)))"
proof -
  define s1 where "s1 = upd_vkbd (\<lambda>vk. vk\<lparr>out_pos := rem16 (out_pos vk + 1)\<rparr>) s"
  have "kbd_ok (slot_vkbd s1)" unfolding s1_def
    by (rule kbd_ok_upd[OF assms]) (simp add: kbd_ok_Some rem16_bounds)
  then show ?thesis
    using kbd_ok_upd[of s1 clear_full] kbd_ok_clear_full by (simp add: vkbd_out_def Let_def s1_def[symmetric])
qed

lemma kbd_ok_vkbd_empty: "kbd_ok (slot_vkbd s) \<Longrightarrow> kbd_ok (slot_vkbd (vkbd_empty s))"
  unfolding vkbd_empty_def by (rule kbd_ok_upd) (auto simp: kbd_ok_Some clear_full_def)

lemma kbd_ok_vkbd_unout: "kbd_ok (slot_vkbd s) \<Longrightarrow> kbd_ok (slot_vkbd (vkbd_unout s))"
  by (cases "slot_vkbd s") (auto simp: vkbd_unout_def Let_def kbd_ok_vkbd_in kbd_ok_Some rem16_bounds)

lemma slot_vkbd_set_callback [simp]: "slot_vkbd (set_callback b s) = slot_vkbd s"
  by (simp add: set_callback_def set_vpit_def split: option.split)

lemma slot_vkbd_start_speaker [simp]: "slot_vkbd (start_speaker s) = slot_vkbd s"
  by (simp add: start_speaker_def split: option.split)

lemma kbd_ok_registers [simp]:
  "kbd_ok (Some (enable_vkbd vk)) = kbd_ok (Some vk)"
  "kbd_ok (Some (disable_vkbd vk)) = kbd_ok (Some vk)"
  "kbd_ok (Some (vk\<lparr>output_8255 := b\<rparr>)) = kbd_ok (Some vk)"
  "kbd_ok (Some (vk\<lparr>this_8042_command := b\<rparr>)) = kbd_ok (Some vk)"
  "kbd_ok (Some (vk\<lparr>this_kbd_command := b\<rparr>)) = kbd_ok (Some vk)"
  "kbd_ok (Some (vk\<lparr>command_byte := b\<rparr>)) = kbd_ok (Some vk)"
  "kbd_ok (Some (vk\<lparr>output_port := b\<rparr>)) = kbd_ok (Some vk)"
  "kbd_ok (Some (vk\<lparr>led_state := b\<rparr>)) = kbd_ok (Some vk)"
  "kbd_ok (Some (vk\<lparr>lock_state := b\<rparr>)) = kbd_ok (Some vk)"
  "kbd_ok (Some (vk\<lparr>shift_state := w\<rparr>)) = kbd_ok (Some vk)"
  "kbd_ok (Some (vk\<lparr>status_byte := b\<rparr>)) = kbd_ok (Some vk)"
  "kbd_ok (Some (vk\<lparr>status_byte := b, this_8042_command := c\<rparr>)) = kbd_ok (Some vk)"
  by (simp_all add: kbd_ok_Some enable_vkbd_def disable_vkbd_def)

lemma kbd_ok_write_8255:
  assumes "kbd_ok (slot_vkbd s)" shows "kbd_ok (slot_vkbd (write_8255 val s))"
proof -
  define s1 where "s1 = upd_vkbd (\<lambda>vk. vk\<lparr>output_8255 := ucast val\<rparr>) s"
  define s2 where "s2 = (if val AND 0x40 \<noteq> ucast (output_8255 (the_vkbd s)) AND 0x40
     then upd_vkbd (if test_mask val 0x40 then enable_vkbd else disable_vkbd) s1 else s1)"
  have "kbd_ok (slot_vkbd s1)" unfolding s1_def by (rule kbd_ok_upd[OF assms]) simp
  then have "kbd_ok (slot_vkbd s2)" by (simp add: s2_def kbd_ok_upd del: slot_vkbd_upd)
  then show ?thesis
    by (simp add: write_8255_def Let_def s1_def[symmetric] s2_def[symmetric])
qed

lemma kbd_ok_command_8042:
  assumes "kbd_ok (slot_vkbd s)" shows "kbd_ok (slot_vkbd (command_8042 val s))"
proof -
  define s1 where "s1 = upd_vkbd (\<lambda>vk. vk\<lparr>status_byte := status_byte vk OR 0x08, this_8042_command := 0\<rparr>) s"
  have "kbd_ok (slot_vkbd s1)" unfolding s1_def by (rule kbd_ok_upd[OF assms]) simp
  then show ?thesis
    by (simp add: command_8042_def Let_def s1_def[symmetric] kbd_ok_vkbd_in kbd_ok_upd del: slot_vkbd_upd)
qed

lemma kbd_ok_do_kbd_cmd:
  assumes "kbd_ok (slot_vkbd s)" shows "kbd_ok (slot_vkbd (do_kbd_cmd val s))"
proof -
  define s1 where "s1 = upd_vkbd (\<lambda>vk. vk\<lparr>this_kbd_command := 0\<rparr>) s"
  have "kbd_ok (slot_vkbd s1)" unfolding s1_def by (rule kbd_ok_upd[OF assms]) simp
  then show ?thesis
    by (simp add: do_kbd_cmd_def Let_def s1_def[symmetric] kbd_ok_vkbd_in kbd_ok_vkbd_empty
        kbd_ok_vkbd_unout kbd_ok_upd del: slot_vkbd_upd)
qed

lemma kbd_ok_argument_8042:
  assumes "kbd_ok (slot_vkbd s)" shows "kbd_ok (slot_vkbd (argument_8042 val s))"
  unfolding argument_8042_def Let_def
  using assms by (intro kbd_ok_upd) (simp_all add: kbd_ok_upd frame_simps del: slot_vkbd_upd)

lemma kbd_ok_argument_kbd:
  assumes "kbd_ok (slot_vkbd s)" shows "kbd_ok (slot_vkbd (argument_kbd val s))"
proof (cases "this_kbd_command (the_vkbd s) = 0xED \<and> test_mask val 0x80")
  case True
  then show ?thesis using assms by (simp add: argument_kbd_def kbd_ok_do_kbd_cmd)
next
  case False
  have "kbd_ok (slot_vkbd (vkbd_in 0xFA (if b then tty_event e s1 else s1)))"
    if "kbd_ok (slot_vkbd s1)" for b e and s1 :: "'a vkbds_scheme"
    using that by (simp add: kbd_ok_vkbd_in)
  then show ?thesis
    using assms False unfolding argument_kbd_def Let_def
    by (simp only: if_False) (intro kbd_ok_upd, simp_all add: kbd_ok_upd kbd_ok_vkbd_in del: slot_vkbd_upd)
qed

lemma kbd_ok_vkbd_write_port:
  assumes "kbd_ok (slot_vkbd s)" shows "kbd_ok (slot_vkbd (vkbd_write_port port sz val s))"
proof (cases "slot_vkbd s")
  case None
  then show ?thesis by (simp add: vkbd_write_port_def)
next
  case (Some vk)
  define s1 where "s1 = upd_vkbd (\<lambda>vk. vk\<lparr>status_byte := status_byte vk AND NOT 0x08\<rparr>) s"
  have s1: "kbd_ok (slot_vkbd s1)" unfolding s1_def by (rule kbd_ok_upd[OF assms]) simp
  have "vkbd_write_port port sz val s =
     (if sz \<noteq> 1 then s
      else if port = 0x61 then write_8255 val s
      else if port = 0x64 then command_8042 val s
      else if port = 0x60
      then (if this_8042_command (the_vkbd s1) \<noteq> 0 then argument_8042 val s1
            else if this_kbd_command (the_vkbd s1) \<noteq> 0 then argument_kbd val s1
            else do_kbd_cmd val s1)
      else s)"
    by (simp only: vkbd_write_port_def Some option.case Let_def s1_def)
  then show ?thesis
    using assms s1 by (simp add: kbd_ok_write_8255 kbd_ok_command_8042 kbd_ok_argument_8042
        kbd_ok_argument_kbd kbd_ok_do_kbd_cmd)
qed

lemma kbd_ok_vkbd_read_port:
  assumes "kbd_ok (slot_vkbd s)" shows "kbd_ok (slot_vkbd (snd (vkbd_read_port port sz s)))"
proof (cases "slot_vkbd s")
  case None
  then show ?thesis by (simp add: vkbd_read_port_def)
next
  case (Some vk)
  have "kbd_ok (slot_vkbd (upd_vkbd (\<lambda>vk. vk\<lparr>output_8255 := output_8255 vk XOR 0x10\<rparr>) s))"
    by (rule kbd_ok_upd[OF assms]) simp
  then show ?thesis
    using assms kbd_ok_vkbd_out[OF assms] Some
    by (simp add: vkbd_read_port_def Let_def split_beta)
qed

end
