(* ===== verification/DemoMachine.thy ===== *)
theory DemoMachine
  imports Machine SchedCorrect
begin

text \<open>
  A concrete machine for examples: two tasks, the first of which is the current task and runs the
  virtual machine; the machine has no devices yet and no timer requests.
\<close>

definition demo_machine :: vports where
  "demo_machine = \<lparr>mem = \<lambda>_. 0, page_free_list = 0, used_pages = 0, available_pages = 0,
     logical_kernel_pd = 0, kernel_brk = 0, tasks = \<lambda>_. demo_task, current_task = 0,
     running_tasks = [0, 1], suspended_tasks = [], zombie_tasks = [], zombies = 0,
     need_resched = False, intr_nest_count = 0, timer_ticks = 0, GDT = \<lambda>_. (0, 0), TaskCount = 2,
     timer_reqs = \<lambda>_. \<lparr>wakeup_ticks = 0, action = TIMER_FUNC (other_timer_fn 0)\<rparr>, timer_list = [],
     date = 0, vm_task = 0, local_io = [], global_io = [], global_arpls = [], virtual_eflags = 2,
     kill_list = [], hlted = False, nmi_sts = False, a20_state = True, himem_ptes = replicate 16 0,
     slot_bitmap = 0, empty_page = 0, base_mem = 640, extended_mem = 0, slot_vpic = None,
     vpic_open_count = 0, slot_vpit = None, vpit_open_count = 0, slot_vcmos = None,
     vcmos_open_count = 0, got_cmos = False, slot_vdma = None, vdma_open_count = 0, got_dma = False,
     slot_vkbd = None, tty_events = [], slot_vide = None, vide_open_count = 0, total_hdisks = 0,
     hdisk0 = (0, 0, 0), slot_vprinter = None, slot_vserial = None, vprinter_open_count = 0,
     vserial_open_count = 0, lprports = [0, 0, 0, 0]\<rparr>"

lemma demo_machine_sched [simp]:
  "current_task demo_machine = 0" "tasks demo_machine t = demo_task" "vm_task demo_machine = 0"
  "intr_nest_count demo_machine = 0" "running_tasks demo_machine = [0, 1]" "zombies demo_machine = 0"
  "timer_ticks demo_machine = 0" "timer_list demo_machine = []" "mem demo_machine = (\<lambda>_. 0)"
  "virtual_eflags demo_machine = 2" "got_cmos demo_machine = False" "a20_state demo_machine = True"
  "suspended_tasks demo_machine = []" "zombie_tasks demo_machine = []" "need_resched demo_machine = False"
  by (simp_all add: demo_machine_def)

lemma demo_machine_slots [simp]:
  "slot_vpic demo_machine = None" "slot_vpit demo_machine = None" "slot_vcmos demo_machine = None"
  "slot_vdma demo_machine = None" "slot_vkbd demo_machine = None" "slot_vide demo_machine = None"
  "slot_vprinter demo_machine = None" "slot_vserial demo_machine = None"
  by (simp_all add: demo_machine_def)

end
