(* ===== verification/MachineSafety.thy ===== *)
theory MachineSafety
  imports DeviceSafety DemoMachine
begin

text \<open>
  The devices together: the steps of the virtual machine that run device code (port accesses of the
  guest, timer requests, key presses, interrupt delivery, the BIOS keyboard service) and the
  invariant of all the devices' structures.
\<close>

unbundle bit_operations_syntax

section \<open>The invariant of the machine\<close>

definition vport_ok :: "vport option \<Rightarrow> bool" where
  "vport_ok v \<longleftrightarrow> (\<forall>p. v = Some p \<longrightarrow> length (base_addr p) = 4 \<and> length (last_data_val p) = 4
     \<and> length (ports p) = 4 \<and> total_ports p \<le> 4)"

lemma vport_ok_simps [simp]:
  "vport_ok None"
  "vport_ok (Some p) \<longleftrightarrow> length (base_addr p) = 4 \<and> length (last_data_val p) = 4
     \<and> length (ports p) = 4 \<and> total_ports p \<le> 4"
  by (simp_all add: vport_ok_def)



lemmas slots_of_vides = vports_of_more
lemmas slots_of_vkbds = slots_of_vides [OF more_vkbds_vides]
lemmas slots_of_vdmas = slots_of_vkbds [OF more_vdmas_vkbds]
lemmas slots_of_vcmoss = slots_of_vdmas [OF more_vcmoss_vdmas]
lemmas slots_of_vpits = slots_of_vcmoss [OF more_vpits_vcmoss]
lemmas slots_of_vpics = slots_of_vpits [OF more_vpics_vpits]







section \<open>Timer and clock\<close>

lemma vpits_more_simple [frame_simps]:
  "vpits.more (set_vpit vp s) = vpits.more s"
  by (simp add: set_vpit_def)

lemma vpits_more_of_vpics [frame_simps]:
  "vpits.more (simulate_irq i s) = vpits.more s"
  "vpits.more (set_mask b m s) = vpits.more s"
  "vpits.more (add_timer r s) = vpits.more s"
  "vpits.more (remove_timer r s) = vpits.more s"
  "vpits.more (set_timer_interval r n s) = vpits.more s"
  "vpits.more (set_timer_func r n f s) = vpits.more s"
  "vpits.more (set_gate_a20 b s) = vpits.more s"
  by (rule more_vpics_vpits, simp add: frame_simps)+

lemma vpits_more_start_timer [frame_simps]: "vpits.more (start_timer s) = vpits.more s"
  by (simp add: start_timer_def Let_def frame_simps split: option.split)

lemma vpits_more_vpit_timer_handler [frame_simps]: "vpits.more (vpit_timer_handler s) = vpits.more s"
  by (simp add: vpit_timer_handler_def frame_simps split: option.split)

lemma vpits_more_vpit_in [frame_simps]: "vpits.more (snd (vpit_in p n s)) = vpits.more s"
  by (simp add: vpit_in_def Let_def frame_simps split: option.split vpit_latch_state.split)

lemma vcmoss_more_simple [frame_simps]: "vcmoss.more (set_vcmos v s) = vcmoss.more s"
  by (simp add: set_vcmos_def)

lemma vcmoss_more_of_vpits [frame_simps]:
  "vcmoss.more (simulate_irq i s) = vcmoss.more s"
  "vcmoss.more (add_timer r s) = vcmoss.more s"
  "vcmoss.more (remove_timer r s) = vcmoss.more s"
  "vcmoss.more (set_timer_func r n f s) = vcmoss.more s"
  by (rule more_vpits_vcmoss, simp add: frame_simps)+

lemma slot_vpit_set_vcmos [frame_simps]: "slot_vpit (set_vcmos v s) = slot_vpit s"
  by (simp add: set_vcmos_def)

lemma vcmos_out_frame [frame_simps]:
  "vcmoss.more (vcmos_out p n v s) = vcmoss.more s" "slot_vpit (vcmos_out p n v s) = slot_vpit s"
  by (simp_all add: vcmos_out_def set_vcmos_def split: option.split)

lemma vcmos_in_frame [frame_simps]:
  "vcmoss.more (snd (vcmos_in p n s)) = vcmoss.more s" "slot_vpit (snd (vcmos_in p n s)) = slot_vpit s"
  by (simp_all add: vcmos_in_def set_vcmos_def split: option.split)

lemma rtc_update_frame [frame_simps]:
  "vcmoss.more (rtc_update ok beyond s) = vcmoss.more s"
  "slot_vpit (rtc_update ok beyond s) = slot_vpit s"
  by (simp_all add: rtc_update_def Let_def split_beta frame_simps)

lemma vdma_frame [frame_simps]:
  "vdmas.more (vdma_out p n v s) = vdmas.more s" "vdmas.more (snd (vdma_in p n s)) = vdmas.more s"
  "slot_vpit (vdma_out p n v s) = slot_vpit s" "slot_vpit (snd (vdma_in p n s)) = slot_vpit s"
  "slot_vcmos (vdma_out p n v s) = slot_vcmos s" "slot_vcmos (snd (vdma_in p n s)) = slot_vcmos s"
  by (simp_all add: vdma_out_def vdma_in_def split_beta Let_def split: option.split dma_port.split)

section \<open>Keyboard\<close>

text \<open>What the keyboard's operations keep of the rest of the machine.\<close>

definition kbd_frame :: "'a vkbds_scheme \<Rightarrow> 'a vkbds_scheme \<Rightarrow> bool" where
  "kbd_frame s s' \<longleftrightarrow> slot_vcmos s' = slot_vcmos s \<and> slot_vdma s' = slot_vdma s
     \<and> vkbds.more s' = vkbds.more s \<and> (pit_ok (slot_vpit s) \<longrightarrow> pit_ok (slot_vpit s'))"


lemma kbd_frame_trans: "kbd_frame s s' \<Longrightarrow> kbd_frame s' s'' \<Longrightarrow> kbd_frame s s''"
  by (simp add: kbd_frame_def)









text \<open>An operation framed after another one.\<close>

lemma kbd_frame_comp: "kbd_frame s s' \<Longrightarrow> (\<And>t. kbd_frame t (f t)) \<Longrightarrow> kbd_frame s (f s')"
  using kbd_frame_trans by blast



















section \<open>The interval timer with the speaker\<close>

lemma speaker_frame [frame_simps]:
  "slot_vpit (speaker_callback s) = slot_vpit s" "slot_vcmos (speaker_callback s) = slot_vcmos s"
  "slot_vdma (speaker_callback s) = slot_vdma s" "slot_vkbd (speaker_callback s) = slot_vkbd s"
  "vkbds.more (speaker_callback s) = vkbds.more s"
  by (simp_all add: speaker_callback_def start_speaker_def tty_event_def split: option.split)

lemmas more_vpits_vdmas = more_vpits_vcmoss [THEN more_vcmoss_vdmas]
lemmas more_vpits_vkbds = more_vpits_vdmas [THEN more_vdmas_vkbds]

lemma vpits_ops_slots [frame_simps]:
  "slot_vcmos (set_vpit vp s) = slot_vcmos s" "slot_vcmos (start_timer s) = slot_vcmos s"
  "slot_vdma (set_vpit vp t) = slot_vdma t" "slot_vdma (start_timer t) = slot_vdma t"
  "slot_vkbd (set_vpit vp u) = slot_vkbd u" "slot_vkbd (start_timer u) = slot_vkbd u"
  "vkbds.more (set_vpit vp u) = vkbds.more u" "vkbds.more (start_timer u) = vkbds.more u"
  by (rule vcmos_of_more vdma_of_more[OF more_vpits_vcmoss] conjunct1[OF vkbd_of_more[OF more_vpits_vdmas]]
      more_vpits_vkbds, simp add: frame_simps)+

lemma vpit_out_frame [frame_simps]:
  "slot_vcmos (vpit_out speaker_callback p n v s) = slot_vcmos s"
  "slot_vdma (vpit_out speaker_callback p n v s) = slot_vdma s"
  "slot_vkbd (vpit_out speaker_callback p n v s) = slot_vkbd s"
  "vkbds.more (vpit_out speaker_callback p n v s) = vkbds.more s"
  by (simp_all add: vpit_out_def Let_def split_beta frame_simps split: option.split)


section \<open>Disk, printer and serial ports\<close>

lemma vides_more_upd [frame_simps]: "vides.more (upd_vide f s) = vides.more s"
  by (simp add: upd_vide_def)
















section \<open>Interrupt delivery and user memory\<close>


lemma pmem_more_put_pd_val [frame_simps]: "pmem.more (put_pd_val pd n v a s) = pmem.more s"
  by (simp add: put_pd_val_def Let_def split_beta frame_simps)
















section \<open>Every device honours the contract\<close>









section \<open>Creating and deleting devices\<close>



lemma length_initial_cmos [simp]: "length (initial_cmos hw monitor fpu bs ext) = 64"
  by (simp add: initial_cmos_def)


lemma vdmas_more_kill_handler [frame_simps]: "vdmas.more (add_vm_kill_handler k s) = vdmas.more s"
  by (rule more_vpics_vdmas) (simp add: frame_simps)












section \<open>The steps of the machine\<close>








section \<open>Indices stay in bounds\<close>




end
