(* ===== verification/TimerProps.thy ===== *)
theory TimerProps
  imports Timer "HOL-Library.Multiset"
begin

text \<open>
  The timer list of kernel/misc/time.c: requests are kept in the order they fall due, and the
  dispatch loop of the timer interrupt fires exactly the expired ones, in that order, whenever the
  functions it calls only add requests that are not due yet.  The locale \<open>timer_client\<close> states that
  contract; TimerMachine interprets it on the timer functions of the virtual devices.
\<close>

section \<open>The list of requests\<close>

definition due :: "'a timers_scheme \<Rightarrow> timer_id \<Rightarrow> u32" where
  "due s r = wakeup_ticks (timer_reqs s r)"

definition expired :: "'a timers_scheme \<Rightarrow> timer_id \<Rightarrow> bool" where
  "expired s r \<longleftrightarrow> due s r \<le> timer_ticks s"

definition timers_wf :: "'a timers_scheme \<Rightarrow> bool" where
  "timers_wf s \<longleftrightarrow> sorted (map (due s) (timer_list s)) \<and> distinct (timer_list s)"

lemma due_cong: "timer_reqs s' = timer_reqs s \<Longrightarrow> due s' = due s"
  by (rule ext) (simp add: due_def)

lemma due_cong': "timer_reqs s' = timer_reqs s \<Longrightarrow> timer_ticks s' = timer_ticks s \<Longrightarrow> expired s' = expired s"
  by (rule ext) (simp add: expired_def due_def)

text \<open>Inserting before the first element that is not smaller.\<close>

lemma mset_insert_before: "mset (takeWhile P xs @ r # dropWhile P xs) = add_mset r (mset xs)"
proof -
  have "mset (takeWhile P xs) + mset (dropWhile P xs) = mset xs"
    by (metis mset_append takeWhile_dropWhile_id)
  then show ?thesis by simp
qed

lemma set_insert_before: "set (takeWhile P xs @ r # dropWhile P xs) = insert r (set xs)"
  using mset_insert_before[of P xs r] by (metis set_mset_mset set_mset_add_mset_insert)

lemma distinct_insert_before: "distinct (takeWhile P xs @ r # dropWhile P xs) \<longleftrightarrow> r \<notin> set xs \<and> distinct xs"
  using mset_insert_before[of P xs r] by (metis distinct.simps(2) mset.simps(2) mset_eq_imp_distinct_iff)

lemma sorted_insert_before:
  "sorted (map f xs) \<Longrightarrow> sorted (map f (takeWhile (\<lambda>x. f x < f r) xs @ r # dropWhile (\<lambda>x. f x < f r) xs))"
  for f :: "'a \<Rightarrow> 'b::linorder"
proof (induction xs)
  case (Cons x xs)
  show ?case
  proof (cases "f x < f r")
    case True
    have "\<forall>y\<in>set (takeWhile (\<lambda>x. f x < f r) xs @ r # dropWhile (\<lambda>x. f x < f r) xs). f x \<le> f y"
      using Cons.prems True by (auto simp: set_insert_before simp del: set_append)
    then show ?thesis using True Cons by (auto simp: ball_Un)
  next
    case False
    then have "\<forall>y\<in>set xs. f r \<le> f y" using Cons.prems by (auto intro: order_trans[of "f r" "f x"])
    then show ?thesis using False Cons.prems by simp
  qed
qed simp

lemma filter_insert_before:
  assumes "\<not> Q r" shows "filter Q (takeWhile P xs @ r # dropWhile P xs) = filter Q xs"
  using assms by (metis filter.simps(2) filter_append takeWhile_dropWhile_id)

text \<open>Adding a request that is not in the list.\<close>

lemma add_timer_simps [simp]:
  "timer_ticks (add_timer r s) = timer_ticks s"
  "due (add_timer r s) x = (if x = r then due s r + timer_ticks s else due s x)"
  by (simp_all add: add_timer_def Let_def due_def upd_req_def)

lemma add_timer_list:
  "timer_list (add_timer r s) =
    takeWhile (\<lambda>x. due (add_timer r s) x < due (add_timer r s) r) (timer_list s) @ r #
    dropWhile (\<lambda>x. due (add_timer r s) x < due (add_timer r s) r) (timer_list s)"
  by (simp add: add_timer_def Let_def due_def upd_req_def)

lemma set_add_timer [simp]: "set (timer_list (add_timer r s)) = insert r (set (timer_list s))"
  by (simp only: add_timer_list set_insert_before)

lemma add_timer_wf:
  assumes "timers_wf s" and "r \<notin> set (timer_list s)"
  shows "timers_wf (add_timer r s)"
proof -
  have "map (due (add_timer r s)) (timer_list s) = map (due s) (timer_list s)"
    using assms(2) by (auto simp: add_timer_simps)
  then have "sorted (map (due (add_timer r s)) (timer_list s))" using assms(1) by (simp only: timers_wf_def)
  then have "sorted (map (due (add_timer r s)) (timer_list (add_timer r s)))"
    unfolding add_timer_list[of r s] by (rule sorted_insert_before)
  moreover have "distinct (timer_list (add_timer r s))"
    unfolding add_timer_list[of r s] using assms by (simp add: distinct_insert_before timers_wf_def del: distinct_append)
  ultimately show ?thesis by (simp only: timers_wf_def)
qed

lemma add_timer_expired:
  assumes "r \<notin> set (timer_list s)" and "\<not> expired (add_timer r s) r"
  shows "filter (expired (add_timer r s)) (timer_list (add_timer r s)) = filter (expired s) (timer_list s)"
proof -
  have "filter (expired (add_timer r s)) (timer_list (add_timer r s))
      = filter (expired (add_timer r s)) (timer_list s)"
    unfolding add_timer_list[of r s] using assms(2) by (rule filter_insert_before)
  also have "\<dots> = filter (expired s) (timer_list s)"
    using assms(1) by (auto intro!: filter_cong simp: expired_def split: if_splits)
  finally show ?thesis .
qed


section \<open>The dispatch loop\<close>

text \<open>
  What a timer function may do to the list it is called with (its own request is off it): add
  requests that are not due yet.
\<close>

definition rearmed :: "'a timers_scheme \<Rightarrow> 'a timers_scheme \<Rightarrow> bool" where
  "rearmed s s' \<longleftrightarrow> timer_ticks s' = timer_ticks s \<and> timers_wf s'
     \<and> filter (expired s') (timer_list s') = filter (expired s) (timer_list s)
     \<and> (\<forall>r\<in>set (timer_list s). r \<in> set (timer_list s') \<and> due s' r = due s r)"

lemma rearmed_refl: "timers_wf s \<Longrightarrow> rearmed s s"
  by (simp add: rearmed_def)

lemma rearmed_same:
  "timers_wf s \<Longrightarrow> timer_reqs s' = timer_reqs s \<Longrightarrow> timer_list s' = timer_list s \<Longrightarrow> timer_ticks s' = timer_ticks s
    \<Longrightarrow> rearmed s s'"
  by (simp add: rearmed_def timers_wf_def due_cong[of s' s] due_cong'[of s' s])

lemma rearmed_trans: "rearmed s s' \<Longrightarrow> rearmed s' s'' \<Longrightarrow> rearmed s s''"
  by (simp add: rearmed_def)

lemma rearmed_add_timer:
  assumes "timers_wf s" and "r \<notin> set (timer_list s)" and "\<not> expired (add_timer r s) r"
  shows "rearmed s (add_timer r s)"
  using assms by (auto simp: rearmed_def add_timer_wf add_timer_expired)

text \<open>Firing a list of requests, each taken off the timer list first.\<close>

fun fire_all :: "'a timers_scheme runner \<Rightarrow> timer_id list \<Rightarrow> 'a timers_scheme \<Rightarrow> 'a timers_scheme option" where
  "fire_all run [] s = Some s"
| "fire_all run (r # rs) s =
     Option.bind (fire run r (s\<lparr>timer_list := remove1 r (timer_list s)\<rparr>)) (fire_all run rs)"

locale timer_client =
  fixes run :: "'a timers_scheme runner" and inv :: "'a timers_scheme \<Rightarrow> bool"
  assumes fire_rearms: "inv s \<Longrightarrow> timers_wf s \<Longrightarrow> timer_list s = r # rs \<Longrightarrow> expired s r \<Longrightarrow>
    \<exists>s'. fire run r (s\<lparr>timer_list := rs\<rparr>) = Some s' \<and> inv s' \<and> rearmed (s\<lparr>timer_list := rs\<rparr>) s'"
begin

lemma popped_wf: "timers_wf s \<Longrightarrow> timer_list s = r # rs \<Longrightarrow> timers_wf (s\<lparr>timer_list := rs\<rparr>)"
  using due_cong[of "s\<lparr>timer_list := rs\<rparr>" s] by (simp add: timers_wf_def)

lemma dispatch_fires_expired:
  assumes "inv s" and "timers_wf s"
  shows "\<exists>s'. dispatch_timers run s = Some s' \<and> fire_all run (filter (expired s) (timer_list s)) s = Some s'
    \<and> inv s' \<and> timers_wf s' \<and> timer_ticks s' = timer_ticks s \<and> (\<forall>r\<in>set (timer_list s'). \<not> expired s' r)
    \<and> (\<forall>r\<in>set (timer_list s). \<not> expired s r \<longrightarrow> r \<in> set (timer_list s') \<and> due s' r = due s r)"
  using assms
proof (induction "length (filter (expired s) (timer_list s))" arbitrary: s rule: less_induct)
  case less
  show ?case
  proof (cases "timer_list s")
    case Nil
    then show ?thesis using less.prems by (simp add: dispatch_timers.simps)
  next
    case (Cons r rs)
    let ?p = "s\<lparr>timer_list := rs\<rparr>"
    have due_p: "due ?p = due s" and exp_p: "expired ?p = expired s"
      by (rule due_cong, simp) (rule due_cong', simp_all)
    show ?thesis
    proof (cases "expired s r")
      case True
      obtain s1 where s1: "fire run r ?p = Some s1" "inv s1" "rearmed ?p s1"
        using fire_rearms[OF less.prems Cons True] by blast
      then have filt: "filter (expired s1) (timer_list s1) = filter (expired s) rs"
        and wf1: "timers_wf s1" and tick: "timer_ticks s1 = timer_ticks s"
        and keep: "\<forall>x\<in>set rs. x \<in> set (timer_list s1) \<and> due s1 x = due s x"
        by (simp_all add: rearmed_def exp_p due_p)
      have smaller: "length (filter (expired s1) (timer_list s1)) < length (filter (expired s) (timer_list s))"
        using True Cons by (simp add: filt)
      obtain s' where s': "dispatch_timers run s1 = Some s'"
        "fire_all run (filter (expired s1) (timer_list s1)) s1 = Some s'" "inv s'" "timers_wf s'"
        "timer_ticks s' = timer_ticks s1" "\<forall>x\<in>set (timer_list s'). \<not> expired s' x"
        "\<forall>x\<in>set (timer_list s1). \<not> expired s1 x \<longrightarrow> x \<in> set (timer_list s') \<and> due s' x = due s1 x"
        using less.hyps[OF smaller s1(2) wf1] by blast
      have step: "dispatch_timers run s = dispatch_timers run s1"
        using True Cons s1(1) by (subst dispatch_timers.simps) (simp add: expired_def due_def)
      have fire: "fire_all run (filter (expired s) (timer_list s)) s = Some s'"
        using True Cons s1(1) s'(2) filt by simp
      have "\<forall>x\<in>set (timer_list s). \<not> expired s x \<longrightarrow> x \<in> set (timer_list s') \<and> due s' x = due s x"
      proof (intro ballI impI)
        fix x assume x: "x \<in> set (timer_list s)" "\<not> expired s x"
        then have "x \<in> set rs" using True Cons by auto
        then have "x \<in> set (timer_list s1)" "due s1 x = due s x" using keep by auto
        then show "x \<in> set (timer_list s') \<and> due s' x = due s x"
          using s'(7) x(2) tick by (simp add: expired_def)
      qed
      then show ?thesis using s' step fire tick by (intro exI[of _ s']) simp
    next
      case False
      then have none: "\<forall>x\<in>set (timer_list s). \<not> expired s x"
        using less.prems(2) Cons by (auto simp: timers_wf_def expired_def intro: order_trans)
      then have "filter (expired s) (timer_list s) = []" by (simp add: filter_empty_conv)
      moreover have "dispatch_timers run s = Some s"
        using False Cons by (subst dispatch_timers.simps) (simp add: expired_def due_def)
      ultimately show ?thesis using less.prems none by simp
    qed
  qed
qed

end

end
