(* ===== verification/TimerMachine.thy ===== *)
theory TimerMachine
  imports MachineSafety TimerProps
begin

text \<open>
  The timer interrupt of the composed machine.  While the tick counter is not within a second of
  its 32-bit end, the interval timer and the clock re-arm themselves for later ticks, so the
  dispatch loop fires exactly the expired requests and returns; at the end of the counter a re-armed
  request is due at once and the loop never returns.
\<close>

unbundle bit_operations_syntax

section \<open>The tick counter is the interrupt's alone\<close>

named_theorems tick_simps \<open>operations that keep the tick counter\<close>

lemma ticks_upd_task [tick_simps]: "timer_ticks (upd_task t f s) = timer_ticks s"
  by (simp add: upd_task_def)

lemma ticks_reclaim_zombies [tick_simps]: "timer_ticks (reclaim_zombies n s) = timer_ticks s"
proof (induction n arbitrary: s)
  case (Suc n)
  have "timer_ticks (reclaim_task t u) = timer_ticks u" for t and u :: "'a sched_scheme"
    using reclaim_task_same[of u t] by (simp add: same_sched_def)
  then show ?case using Suc by (simp add: Let_def unlink_task_simps)
qed simp

lemma ticks_schedule [tick_simps]: "timer_ticks (schedule s) = timer_ticks s"
proof -
  have sw: "timer_ticks (switch_task t s) = timer_ticks s" for t and s :: "'b sched_scheme"
    by (simp add: switch_task_def Let_def tick_simps)
  show ?thesis
    by (simp add: schedule_def Let_def tick_simps sw enqueue_task_simps unlink_task_simps split: list.split)
qed

lemma ticks_preempt [tick_simps]: "timer_ticks (preempt s) = timer_ticks s"
  by (simp add: preempt_def tick_simps)

lemma ticks_wake_task [tick_simps]: "timer_ticks (wake_task t s) = timer_ticks s"
  by (simp add: wake_task_def Let_def tick_simps enqueue_task_simps unlink_task_simps)

lemma ticks_signal [tick_simps]: "timer_ticks (snd (signal sem s)) = timer_ticks s"
  by (simp add: signal_def wake_up_first_task_def wake_elt_def Let_def split_beta tick_simps
      split: list.split)

lemma ticks_simulate_irq [tick_simps]: "timer_ticks (simulate_irq irq s) = timer_ticks s"
  by (simp add: simulate_irq_def Let_def set_return_hook_def tick_simps split: option.split)

lemma sched_more_signal: "sched.more (snd (signal sem s)) = sched.more s"
  by (simp add: signal_def wake_up_first_task_def wake_elt_def Let_def split_beta frame_simps
      split: list.split)

lemma timers_signal:
  "timer_list (snd (signal sem s)) = timer_list s" "timer_reqs (snd (signal sem s)) = timer_reqs s"
  using timers_of_more[OF sched_more_signal[of sem s]] by simp_all

lemma timers_simulate_irq:
  "timer_list (simulate_irq irq s) = timer_list s" "timer_reqs (simulate_irq irq s) = timer_reqs s"
proof -
  have w: "timer_list (wake_task t u) = timer_list u" "timer_reqs (wake_task t u) = timer_reqs u"
    for t and u :: "'b timers_scheme"
    using timers_of_more[OF sched_more_wake_task[of t u]] by simp_all
  have h: "timer_list (upd_task t f u) = timer_list u" "timer_reqs (upd_task t f u) = timer_reqs u"
    for t f and u :: "'b timers_scheme"
    by (simp_all add: upd_task_def)
  show "timer_list (simulate_irq irq s) = timer_list s" "timer_reqs (simulate_irq irq s) = timer_reqs s"
    by (simp_all add: simulate_irq_def Let_def set_return_hook_def w h split: option.split)
qed


section \<open>The devices' timers\<close>

text \<open>
  The requests of the machine: the two devices' and semaphores other tasks sleep on; and a tick
  counter that does not wrap within the longest interval.
\<close>

definition modelled_timer :: "'a timers_scheme \<Rightarrow> timer_id \<Rightarrow> bool" where
  "modelled_timer s r \<longleftrightarrow>
     (case action (timer_reqs s r) of
        TIMER_TASK _ \<Rightarrow> True
      | TIMER_FUNC f \<Rightarrow> (r = chan0_timer \<and> f = vpit_timer_fn) \<or> (r = rtc_timer \<and> f = rtc_update_fn))"

definition machine_timers :: "'a vports_scheme \<Rightarrow> bool" where
  "machine_timers s \<longleftrightarrow> pit_ok (slot_vpit s) \<and> (\<forall>r\<in>set (timer_list s). modelled_timer s r)
     \<and> unat (timer_ticks s) + 1024 < 2 ^ 32"

lemma not_expired_ahead:
  fixes t d :: u32
  assumes "unat t + 1024 < 2 ^ 32" and "0 < d" and "d \<le> 1024"
  shows "\<not> d + t \<le> t"
proof -
  have "unat d \<le> 1024" "0 < unat d" using assms(2,3) by (simp_all add: word_le_nat_alt unat_gt_0)
  then have "unat (d + t) = unat d + unat t" using assms(1) by (simp add: unat_word_ariths)
  then show ?thesis using \<open>0 < unat d\<close> by (simp add: word_le_nat_alt)
qed

lemma due_set_timer [simp]:
  "due (set_timer_interval r n s) x = (if x = r then n else due s x)"
  "due (set_timer_func r n f s) x = (if x = r then n else due s x)"
  by (simp_all add: due_def set_timer_interval_def set_timer_func_def upd_req_def)

lemma set_timer_simps [simp]:
  "timer_list (set_timer_interval r n s) = timer_list s" "timer_ticks (set_timer_interval r n s) = timer_ticks s"
  "timer_list (set_timer_func r n f s) = timer_list s" "timer_ticks (set_timer_func r n f s) = timer_ticks s"
  by (simp_all add: set_timer_interval_def set_timer_func_def upd_req_def)

lemma modelled_set_add_timer:
  "modelled_timer (add_timer r s) x = modelled_timer s x"
  "modelled_timer (set_timer_interval r n s) x = modelled_timer s x"
  "modelled_timer (set_timer_func r n f s) x = (if x = r
     then (r = chan0_timer \<and> f = vpit_timer_fn) \<or> (r = rtc_timer \<and> f = rtc_update_fn) else modelled_timer s x)"
  by (simp_all add: modelled_timer_def add_timer_def set_timer_interval_def set_timer_func_def Let_def upd_req_def)

text \<open>A request set again that was off the list, for a later tick.\<close>

lemma rearmed_set_timer:
  assumes "timers_wf s" "r \<notin> set (timer_list s)"
    and "timer_list s1 = timer_list s" "timer_ticks s1 = timer_ticks s" "\<forall>x. x \<noteq> r \<longrightarrow> due s1 x = due s x"
    and "\<not> due s1 r + timer_ticks s \<le> timer_ticks s"
  shows "rearmed s (add_timer r s1)"
proof -
  have wf1: "timers_wf s1"
  proof -
    have "map (due s1) (timer_list s) = map (due s) (timer_list s)" using assms(2,5) by auto
    then show ?thesis using assms(1,3) by (simp only: timers_wf_def)
  qed
  have "rearmed s1 (add_timer r s1)"
    by (rule rearmed_add_timer) (use wf1 assms in \<open>simp_all add: expired_def\<close>)
  moreover have "rearmed s s1"
  proof -
    have "filter (expired s1) (timer_list s) = filter (expired s) (timer_list s)"
      using assms(2,4,5) by (auto intro!: filter_cong simp: expired_def)
    then show ?thesis using wf1 assms(2-5) by (auto simp: rearmed_def)
  qed
  ultimately show ?thesis by (rule rearmed_trans[rotated])
qed

lemma rearmed_start_timer:
  assumes wf: "timers_wf s" and off: "chan0_timer \<notin> set (timer_list s)" and vp: "slot_vpit s = Some vp"
    and "\<not> timer_ticking vp" "chan_ok (channels vp ! 0)" "unat (timer_ticks s) + 1024 < 2 ^ 32"
  shows "rearmed s (start_timer s)" "\<forall>r\<in>set (timer_list s). modelled_timer s r \<Longrightarrow> modelled_timer s chan0_timer
    \<Longrightarrow> \<forall>r\<in>set (timer_list (start_timer s)). modelled_timer (start_timer s) r"
proof -
  let ?n = "ucast (interval_ticks (channels vp ! 0)) :: u32"
  let ?a = "add_timer chan0_timer (set_timer_interval chan0_timer ?n s)"
  have start: "start_timer s = s \<or> start_timer s = set_vpit (vp\<lparr>timer_ticking := True\<rparr>) ?a"
    using assms(3,4) by (simp add: start_timer_def Let_def)
  have n: "5 \<le> unat (interval_ticks (channels vp ! 0))" "unat (interval_ticks (channels vp ! 0)) \<le> 56"
    using assms(5) by (auto simp: chan_ok_def word_le_nat_alt)
  have un: "unat ?n = unat (interval_ticks (channels vp ! 0))"
    using n by (simp add: unsigned_ucast_eq unsigned_take_bit_eq take_bit_nat_eq_self)
  have "0 < ?n" "?n \<le> 1024" using un n by (simp_all add: word_less_nat_alt word_le_nat_alt)
  then have "rearmed s ?a"
    using assms(6) not_expired_ahead[of "timer_ticks s" ?n]
    by (intro rearmed_set_timer[OF wf off]) auto
  then have "rearmed s (set_vpit (vp\<lparr>timer_ticking := True\<rparr>) ?a)"
    by (rule rearmed_trans, intro rearmed_same) (use \<open>rearmed s ?a\<close> in \<open>simp_all add: set_vpit_def rearmed_def\<close>)
  then show "rearmed s (start_timer s)" using start rearmed_refl[OF wf] by auto
  assume ml: "\<forall>r\<in>set (timer_list s). modelled_timer s r" "modelled_timer s chan0_timer"
  have cong: "modelled_timer (set_vpit v u) r = modelled_timer u r" "timer_list (set_vpit v u) = timer_list u"
    for v r and u :: "'b vpits_scheme" by (simp_all add: modelled_timer_def set_vpit_def)
  show "\<forall>r\<in>set (timer_list (start_timer s)). modelled_timer (start_timer s) r"
    using start ml by (auto simp: cong modelled_set_add_timer)
qed


lemma modelled_cong: "timer_reqs s' = timer_reqs s \<Longrightarrow> modelled_timer s' r = modelled_timer s r"
  by (simp add: modelled_timer_def)

lemma rearmed_vpit_timer:
  assumes wf: "timers_wf s" and off: "chan0_timer \<notin> set (timer_list s)" and ok: "pit_ok (slot_vpit s)"
    and room: "unat (timer_ticks s) + 1024 < 2 ^ 32"
    and ml: "\<forall>r\<in>set (timer_list s). modelled_timer s r" "modelled_timer s chan0_timer"
  shows "rearmed s (vpit_timer_handler s)
    \<and> (\<forall>r\<in>set (timer_list (vpit_timer_handler s)). modelled_timer (vpit_timer_handler s) r)"
proof (cases "slot_vpit s")
  case None
  then show ?thesis using rearmed_refl[OF wf] ml by (simp add: vpit_timer_handler_def)
next
  case (Some vp)
  define q where "q = simulate_irq 0 (set_vpit (vp\<lparr>timer_ticking := False\<rparr>) s)"
  have eq: "vpit_timer_handler s = start_timer q" using Some by (simp add: vpit_timer_handler_def q_def)
  have q: "timer_list q = timer_list s" "timer_reqs q = timer_reqs s" "timer_ticks q = timer_ticks s"
    "slot_vpit q = Some (vp\<lparr>timer_ticking := False\<rparr>)"
    by (simp_all add: q_def timers_simulate_irq tick_simps frame_simps) (simp_all add: set_vpit_def)
  have sq: "rearmed s q" using rearmed_same[OF wf q(2,1,3)] .
  have c0: "chan_ok (channels vp ! 0)" using pit_ok_nth[of vp 0] ok Some by simp
  have wq: "timers_wf q" using sq by (simp add: rearmed_def)
  note st = rearmed_start_timer[OF wq _ q(4)]
  have "rearmed q (start_timer q)" by (rule st) (use off room c0 q in simp_all)
  moreover have "\<forall>r\<in>set (timer_list (start_timer q)). modelled_timer (start_timer q) r"
    by (rule st) (use off room c0 q ml modelled_cong[OF q(2)] in simp_all)
  ultimately show ?thesis using rearmed_trans[OF sq] eq by simp
qed

lemma rearmed_rtc_update:
  assumes wf: "timers_wf s" and off: "rtc_timer \<notin> set (timer_list s)"
    and room: "unat (timer_ticks s) + 1024 < 2 ^ 32" and ml: "\<forall>r\<in>set (timer_list s). modelled_timer s r"
  shows "rearmed s (rtc_update vpic_ok beyond s)
    \<and> (\<forall>r\<in>set (timer_list (rtc_update vpic_ok beyond s)). modelled_timer (rtc_update vpic_ok beyond s) r)"
proof -
  obtain mem' irq where step: "rtc_step beyond (cmos_mem (the (slot_vcmos s))) = (mem', irq)" by fastforce
  define s1 where "s1 = set_timer_func rtc_timer 1024 rtc_update_fn
    (remove_timer rtc_timer (set_vcmos ((the (slot_vcmos s))\<lparr>cmos_mem := mem'\<rparr>) s))"
  define s2 where "s2 = add_timer rtc_timer s1"
  define s3 where "s3 = (if irq \<and> vpic_ok then simulate_irq 8 s2 else s2)"
  have eq: "rtc_update vpic_ok beyond s = s3"
    by (simp only: rtc_update_def Let_def step prod.case s1_def[symmetric] s2_def[symmetric] s3_def[symmetric])
  have s1: "timer_list s1 = timer_list s" "timer_ticks s1 = timer_ticks s" "due s1 rtc_timer = 1024"
    "\<forall>x. x \<noteq> rtc_timer \<longrightarrow> due s1 x = due s x"
    using off by (auto simp: s1_def remove_timer_def set_vcmos_def remove1_idem due_def set_timer_func_def upd_req_def)
  have "rearmed s s2"
    unfolding s2_def
    by (rule rearmed_set_timer[OF wf off s1(1,2,4)]) (use s1(3) not_expired_ahead[OF room] in simp)
  moreover from this have wf2: "timers_wf s2" by (simp add: rearmed_def)
  moreover have s3: "timer_list s3 = timer_list s2" "timer_reqs s3 = timer_reqs s2" "timer_ticks s3 = timer_ticks s2"
    by (simp_all add: s3_def timers_simulate_irq tick_simps)
  ultimately have "rearmed s s3" using rearmed_trans rearmed_same[OF wf2 s3(2,1,3)] by blast
  moreover have "\<forall>r\<in>set (timer_list s3). modelled_timer s3 r"
  proof -
    have base: "modelled_timer (remove_timer rtc_timer (set_vcmos v s)) r = modelled_timer s r" for v r
      by (simp add: modelled_timer_def remove_timer_def set_vcmos_def)
    show ?thesis
      using ml s1(1) by (auto simp: s3 modelled_cong[OF s3(2)] s2_def modelled_set_add_timer s1_def base)
  qed
  ultimately show ?thesis using eq by simp
qed

lemma rearmed_sem:
  assumes wf: "timers_wf s" and off: "r \<notin> set (timer_list s)" and "timers_wf s1"
    and "timer_list s1 = timer_list s" "timer_reqs s1 = timer_reqs s" "timer_ticks s1 = timer_ticks s"
  shows "rearmed s (upd_req r (\<lambda>q. q\<lparr>action := a\<rparr>) s1)"
proof -
  have due: "due (upd_req r (\<lambda>q. q\<lparr>action := a\<rparr>) s1) = due s"
    using assms(5) by (auto simp: due_def upd_req_def)
  then have "expired (upd_req r (\<lambda>q. q\<lparr>action := a\<rparr>) s1) = expired s"
    using assms(6) by (auto simp: expired_def upd_req_def)
  then show ?thesis
    using wf due assms by (simp add: rearmed_def timers_wf_def upd_req_def)
qed

interpretation mt: timer_client "machine_timer other vpic_ok beyond" machine_timers
proof unfold_locales
  fix s :: "'a vports_scheme" and r rs
  assume inv: "machine_timers s" and wf: "timers_wf s" and hd: "timer_list s = r # rs" and "expired s r"
  let ?p = "s\<lparr>timer_list := rs\<rparr>" and ?run = "machine_timer other vpic_ok beyond"
  have p: "timers_wf ?p" "r \<notin> set rs" "pit_ok (slot_vpit ?p)" "unat (timer_ticks ?p) + 1024 < 2 ^ 32"
    "\<forall>x\<in>set rs. modelled_timer ?p x" "modelled_timer ?p r"
    using inv wf hd due_cong[of ?p s] by (auto simp: timers_wf_def machine_timers_def modelled_timer_def)
  show "\<exists>s'. fire ?run r ?p = Some s' \<and> machine_timers s' \<and> rearmed ?p s'"
  proof (cases "action (timer_reqs s r)")
    case (TIMER_TASK sem)
    define s1 where "s1 = snd (signal sem ?p)"
    let ?s' = "upd_req r (\<lambda>q. q\<lparr>action := TIMER_TASK (fst (signal sem ?p))\<rparr>) s1"
    have s1: "timer_list s1 = rs" "timer_reqs s1 = timer_reqs ?p" "timer_ticks s1 = timer_ticks ?p"
      "slot_vpit s1 = slot_vpit s"
      using timers_signal[of sem ?p] ticks_signal[of sem ?p]
        vpit_of_more[OF vpics_more_of_sched[OF sched_more_signal[of sem ?p]]]
      by (simp_all add: s1_def)
    have "timers_wf s1" using p(1) rearmed_same[OF p(1) s1(2) _ s1(3)] s1(1) by (simp add: rearmed_def)
    then have re: "rearmed ?p ?s'" using p(1,2) s1 by (intro rearmed_sem) simp_all
    have "machine_timers ?s'"
      using p s1 re by (auto simp: machine_timers_def modelled_timer_def upd_req_def rearmed_def)
    then show ?thesis
      using re TIMER_TASK by (intro exI[of _ ?s']) (simp add: fire_def s1_def split_beta)
  next
    case (TIMER_FUNC f)
    then consider "r = chan0_timer" "f = vpit_timer_fn" | "r = rtc_timer" "f = rtc_update_fn"
      using p(6) by (auto simp: modelled_timer_def)
    then show ?thesis
    proof cases
      case 1
      then have h: "rearmed ?p (vpit_timer_handler ?p)
        \<and> (\<forall>x\<in>set (timer_list (vpit_timer_handler ?p)). modelled_timer (vpit_timer_handler ?p) x)"
        using p by (intro rearmed_vpit_timer) simp_all
      moreover from h p(3,4) have "machine_timers (vpit_timer_handler ?p)"
        by (simp add: machine_timers_def pit_ok_vpit_timer_handler rearmed_def)
      ultimately show ?thesis using 1 TIMER_FUNC by (simp add: fire_def machine_timer_def)
    next
      case 2
      then have h: "rearmed ?p (rtc_update vpic_ok beyond ?p)
        \<and> (\<forall>x\<in>set (timer_list (rtc_update vpic_ok beyond ?p)). modelled_timer (rtc_update vpic_ok beyond ?p) x)"
        using p by (intro rearmed_rtc_update) simp_all
      moreover from h p(3,4) have "machine_timers (rtc_update vpic_ok beyond ?p)"
        by (simp add: machine_timers_def rearmed_def frame_simps)
      ultimately show ?thesis using 2 TIMER_FUNC by (simp add: fire_def machine_timer_def)
    qed
  qed
qed


text \<open>
  C11: As long as the tick counter is more than 1024 ticks from its end, the dispatch of the
  machine's timers by the timer interrupt terminates.  It fires exactly the requests that have
  expired, one after the other in the order they fell due; afterwards the list is sorted again, every
  request in it (the interval timer and the clock have re-armed themselves) is due later than now,
  and a request that had not expired is still there, due when it was.
\<close>

theorem timer_dispatch_terminates:
  assumes "machine_timers s" and "timers_wf s"
  shows "\<exists>s'. dispatch_timers (machine_timer other vpic_ok beyond) s = Some s'
    \<and> fire_all (machine_timer other vpic_ok beyond) (filter (expired s) (timer_list s)) s = Some s'
    \<and> timers_wf s' \<and> (\<forall>r\<in>set (timer_list s'). timer_ticks s < due s' r)
    \<and> (\<forall>r\<in>set (timer_list s). timer_ticks s < due s r \<longrightarrow> r \<in> set (timer_list s') \<and> due s' r = due s r)"
  using mt.dispatch_fires_expired[OF assms, of other vpic_ok beyond]
  by (auto simp: expired_def not_le)

definition demo_ticking :: "u32 \<Rightarrow> vports" where
  "demo_ticking now = (snd (create_vpit True demo_machine))\<lparr>timer_ticks := now\<rparr>"

lemma demo_ticking_simps [simp]:
  "timer_list (demo_ticking now) = [chan0_timer]" "timer_ticks (demo_ticking now) = now"
  "timer_reqs (demo_ticking now) chan0_timer = \<lparr>wakeup_ticks = 56, action = TIMER_FUNC vpit_timer_fn\<rparr>"
  "slot_vpit (demo_ticking now) = Some \<lparr>channels = [new_channel 0x36 0 0, new_channel 0x34 18 0,
      new_channel 0x36 1331 0], timer_ticking = True, chan2_callback = False\<rparr>"
proof -
  have n: "interval_ticks (new_channel 0x36 0 0) = 56" "command (new_channel 0x36 0 0) = 0x36"
    by (simp_all add: new_channel_def calc_divisor_ticks_def get_divisor_def)
  show "timer_list (demo_ticking now) = [chan0_timer]" "timer_ticks (demo_ticking now) = now"
    "timer_reqs (demo_ticking now) chan0_timer = \<lparr>wakeup_ticks = 56, action = TIMER_FUNC vpit_timer_fn\<rparr>"
    "slot_vpit (demo_ticking now) = Some \<lparr>channels = [new_channel 0x36 0 0, new_channel 0x34 18 0,
      new_channel 0x36 1331 0], timer_ticking = True, chan2_callback = False\<rparr>"
    by (simp_all add: demo_ticking_def create_vpit_def Let_def set_mask_def start_timer_def set_vpit_def n
        set_timer_func_def set_timer_interval_def upd_req_def add_timer_def add_vm_kill_handler_def
        get_timer_ticks_def demo_machine_def)
qed

lemma demo_ticking_ok: "unat now + 1024 < 2 ^ 32 \<Longrightarrow> machine_timers (demo_ticking now) \<and> timers_wf (demo_ticking now)"
  by (simp add: machine_timers_def timers_wf_def modelled_timer_def pit_ok_Some)

theorem timer_dispatch_terminates_witness:
  "\<exists>s'. dispatch_timers (machine_timer (\<lambda>_. Some) True (\<lambda>_. 0)) (demo_ticking 100) = Some s'
    \<and> (\<forall>r\<in>set (timer_list s'). 100 < due s' r)"
  using timer_dispatch_terminates[of "demo_ticking 100" "\<lambda>_. Some" True "\<lambda>_. 0"] demo_ticking_ok[of 100]
  by auto

section \<open>The end of the tick counter\<close>

text \<open>The states in which the interval timer's request is due at once, however often it is set again.\<close>

definition stuck_pit :: "u32 \<Rightarrow> vpit_channel \<Rightarrow> 'a vports_scheme \<Rightarrow> bool" where
  "stuck_pit now c s \<longleftrightarrow> timer_list s = [chan0_timer] \<and> timer_ticks s = now
     \<and> due s chan0_timer \<le> now \<and> action (timer_reqs s chan0_timer) = TIMER_FUNC vpit_timer_fn
     \<and> (\<exists>vp. slot_vpit s = Some vp \<and> channels vp ! 0 = c)"

definition mode_ticks :: "vpit_channel \<Rightarrow> bool" where
  "mode_ticks c \<longleftrightarrow> command c AND PIT_CMD_MODE \<in> {0x00, 0x04, 0x06}"

lemma stuck_pit_again:
  assumes "stuck_pit now c s" "mode_ticks c" and "ucast (interval_ticks c) + now \<le> now"
  shows "stuck_pit now c (vpit_timer_handler (s\<lparr>timer_list := []\<rparr>))"
proof -
  let ?p = "s\<lparr>timer_list := []\<rparr>"
  obtain vp where vp: "slot_vpit ?p = Some vp" "channels vp ! 0 = c" using assms(1) by (auto simp: stuck_pit_def)
  define q where "q = simulate_irq 0 (set_vpit (vp\<lparr>timer_ticking := False\<rparr>) ?p)"
  have q: "timer_list q = []" "timer_reqs q = timer_reqs s" "timer_ticks q = now"
    "slot_vpit q = Some (vp\<lparr>timer_ticking := False\<rparr>)"
    using assms(1)
    by (simp_all add: q_def timers_simulate_irq tick_simps frame_simps stuck_pit_def) (simp_all add: set_vpit_def)
  have "vpit_timer_handler ?p = start_timer q" using vp by (simp add: vpit_timer_handler_def q_def)
  also have "\<dots> = set_vpit (vp\<lparr>timer_ticking := True\<rparr>)
      (add_timer chan0_timer (set_timer_interval chan0_timer (ucast (interval_ticks c)) q))"
    using assms(2) vp q by (auto simp: start_timer_def mode_ticks_def Let_def)
  finally show ?thesis
    using assms q vp
    by (simp add: stuck_pit_def set_vpit_def add_timer_def set_timer_interval_def upd_req_def due_def)
qed

lemma stuck_pit_never:
  assumes "mode_ticks c" and "ucast (interval_ticks c) + now \<le> now" and "stuck_pit now c s"
  shows "dispatch_timers (machine_timer other vpic_ok beyond) s = None"
proof -
  let ?run = "machine_timer other vpic_ok beyond"
  have "?run = ?run \<longrightarrow> \<not> stuck_pit now c s" if "dispatch_timers ?run s = Some s'" for s'
  proof (rule dispatch_timers.raw_induct[where P = "\<lambda>run s s'. run = ?run \<longrightarrow> \<not> stuck_pit now c s", OF _ that])
    fix disp and run :: "'a vports_scheme runner" and t t'
    assume IH: "\<And>run s s'. disp run s = Some s' \<Longrightarrow> run = ?run \<longrightarrow> \<not> stuck_pit now c s"
      and eq: "(case timer_list t of [] \<Rightarrow> Some t
        | r # rs \<Rightarrow> if wakeup_ticks (timer_reqs t r) \<le> timer_ticks t
                    then Option.bind (fire run r (t\<lparr>timer_list := rs\<rparr>)) (disp run) else Some t) = Some t'"
    show "run = ?run \<longrightarrow> \<not> stuck_pit now c t"
    proof (intro impI notI)
      assume run: "run = ?run" and st: "stuck_pit now c t"
      then have "disp ?run (vpit_timer_handler (t\<lparr>timer_list := []\<rparr>)) = Some t'"
        using eq by (simp add: stuck_pit_def due_def fire_def machine_timer_def)
      then show False using IH stuck_pit_again[OF st assms(1,2)] by blast
    qed
  qed
  then show ?thesis using assms(3) by (cases "dispatch_timers (machine_timer other vpic_ok beyond) s") auto
qed


text \<open>
  Once the tick counter is so near its 32-bit end that adding the interval timer's interval to it
  wraps around (after 48 days), the timer interrupt that serves a machine whose running interval
  timer is due never returns: the request re-armed for tick \<open>now + interval\<close> is compared with
  \<open>now\<close> without regard to the wrap-around, so it is due again at once, for ever.
\<close>

theorem timer_wrap_hangs:
  assumes "slot_vpit s = Some vp" and "command (channels vp ! 0) AND PIT_CMD_MODE \<in> {0x00, 0x04, 0x06}"
    and "timer_list s = [chan0_timer]" and "action (timer_reqs s chan0_timer) = TIMER_FUNC vpit_timer_fn"
    and "due s chan0_timer \<le> timer_ticks s + 1"
    and "ucast (interval_ticks (channels vp ! 0)) + (timer_ticks s + 1) \<le> timer_ticks s + 1"
  shows "cmos_timer (machine_timer other vpic_ok beyond) 0x40 cmos_date got_date s = None"
proof -
  let ?s1 = "s\<lparr>timer_ticks := timer_ticks s + 1\<rparr>"
  let ?s2 = "if timer_ticks ?s1 mod 1024 = 0 then ?s1\<lparr>date := date ?s1 + 1\<rparr> else ?s1"
  have "stuck_pit (timer_ticks s + 1) (channels vp ! 0) ?s2"
    using assms(1,3,4,5) by (simp add: stuck_pit_def due_def)
  then have "dispatch_timers (machine_timer other vpic_ok beyond) ?s2 = None"
    using assms(2,6) by (intro stuck_pit_never) (auto simp: mode_ticks_def)
  then show ?thesis by (simp add: cmos_timer_def Let_def)
qed

theorem timer_wrap_hangs_witness:
  "cmos_timer (machine_timer (\<lambda>_. Some) True (\<lambda>_. 0)) 0x40 0 False (demo_ticking 0xFFFFFFD0) = None"
proof -
  have n: "interval_ticks (new_channel 0x36 0 0) = 56" "command (new_channel 0x36 0 0) = 0x36"
    by (simp_all add: new_channel_def calc_divisor_ticks_def get_divisor_def)
  show ?thesis
    by (rule timer_wrap_hangs[where vp = "the (slot_vpit (demo_ticking 0xFFFFFFD0))"])
      (simp_all add: due_def n)
qed

end
