(* ===== verification/Calendar.thy ===== *)
theory Calendar
  imports Timer
begin

text \<open>
  Calendar time of kernel/misc/time.c against the proleptic Gregorian calendar: the number of days
  from 1 January 1970 to a date, counted month by month, is what \<open>mktime\<close> computes, and
  \<open>expand_time\<close> inverts it except for the two months its table confuses.
\<close>

section \<open>The calendar\<close>

definition month_days :: "nat \<Rightarrow> nat list" where
  "month_days y = [31, if leap_year y then 29 else 28, 31, 30, 31, 30, 31, 31, 30, 31, 30, 31]"

definition year_days :: "nat \<Rightarrow> nat" where
  "year_days y = (if leap_year y then 366 else 365)"

fun days_to_year :: "nat \<Rightarrow> nat" where
  "days_to_year 0 = 0"
| "days_to_year (Suc n) = days_to_year n + year_days (1970 + n)"

text \<open>Days from 1 January 1970 to a date.\<close>

definition days_to :: "nat \<Rightarrow> nat \<Rightarrow> nat \<Rightarrow> nat" where
  "days_to y m d = days_to_year (y - 1970) + sum_list (take (m - 1) (month_days y)) + (d - 1)"

definition valid_date :: "nat \<Rightarrow> nat \<Rightarrow> nat \<Rightarrow> bool" where
  "valid_date y m d \<longleftrightarrow> 1970 \<le> y \<and> y \<le> 2105 \<and> 1 \<le> m \<and> m \<le> 12 \<and> 1 \<le> d \<and> d \<le> month_days y ! (m - 1)"

lemma month_cases:
  "1 \<le> m \<Longrightarrow> m \<le> 12 \<Longrightarrow>
    m = 1 \<or> m = 2 \<or> m = 3 \<or> m = 4 \<or> m = 5 \<or> m = 6 \<or> m = 7 \<or> m = 8 \<or> m = 9 \<or> m = 10 \<or> m = 11 \<or> m = 12"
  for m :: nat by presburger

lemma valid_dateD:
  assumes "valid_date y m d"
  shows "1970 \<le> y" "y \<le> 2105" "1 \<le> m" "m \<le> 12" "1 \<le> d" "d \<le> month_days y ! (m - 1)"
  using assms by (simp_all add: valid_date_def)

section \<open>Leap days\<close>

definition leap_days :: "nat \<Rightarrow> nat" where
  "leap_days y = y div 4 + y div 400 - y div 100"

lemma leap_days_le: "y div 100 \<le> y div (4::nat)"
  by (rule div_le_mono2) simp_all

lemma days_to_year_mono: "j \<le> k \<Longrightarrow> days_to_year j \<le> days_to_year k"
  by (rule lift_Suc_mono_le[of days_to_year]) simp_all

lemma leap_arith:
  fixes a b c :: nat
  assumes "b \<le> a" "r \<longrightarrow> q" "q \<longrightarrow> p"
  shows "(a + (if p then 1 else 0)) + (c + (if r then 1 else 0)) - (b + (if q then 1 else 0))
    = a + c - b + (if p \<and> (\<not> q \<or> r) then 1 else 0)"
  using assms by (cases p; cases q; cases r) simp_all

lemma leap_days_Suc: "leap_days (Suc y) = leap_days y + (if leap_year (Suc y) then 1 else 0)"
proof -
  have s: "Suc y div k = y div k + (if k dvd Suc y then 1 else 0)" if "0 < k" for k :: nat
    using that by (simp add: div_Suc mod_eq_0_iff_dvd)
  have d: "400 dvd Suc y \<longrightarrow> 100 dvd Suc y" "100 dvd Suc y \<longrightarrow> 4 dvd Suc y"
    by (auto intro: dvd_trans[of "100::nat" 400 "Suc y"] dvd_trans[of "4::nat" 100 "Suc y"])
  have l: "leap_year (Suc y) \<longleftrightarrow> 4 dvd Suc y \<and> (\<not> 100 dvd Suc y \<or> 400 dvd Suc y)"
    by (simp only: leap_year_def dvd_eq_mod_eq_0)
  show ?thesis
    unfolding leap_days_def l s[of 4, simplified] s[of 100, simplified] s[of 400, simplified]
    by (rule leap_arith[OF leap_days_le d])
qed

lemma days_to_year_closed: "days_to_year n + 365 * 1970 + leap_days 1969 = 365 * (1970 + n) + leap_days (1969 + n)"
proof (induction n)
  case (Suc n)
  have "leap_days (1969 + Suc n) = leap_days (1969 + n) + (if leap_year (1970 + n) then 1 else 0)"
    using leap_days_Suc[of "1969 + n"] by simp
  then show ?case using Suc by (simp add: year_days_def)
qed simp

section \<open>mktime\<close>

lemma of_nat_div_u32:
  assumes "a < 2 ^ 32" "b < 2 ^ 32" shows "(of_nat a :: u32) div of_nat b = of_nat (a div b)"
proof (rule word_unat_eq_iff[THEN iffD2])
  have "a div b < 2 ^ 32" using assms(1) by (meson div_le_dividend le_less_trans)
  then show "unat ((of_nat a :: u32) div of_nat b) = unat (of_nat (a div b) :: u32)"
    using assms by (simp add: unat_div unat_of_nat take_bit_nat_eq_self)
qed

text \<open>The days the formula of \<open>mktime\<close> counts, with March as the first month.\<close>

definition gauss_days :: "nat \<Rightarrow> nat \<Rightarrow> nat \<Rightarrow> nat" where
  "gauss_days y m d = (y div 4 + y div 400 + 367 * m div 12 + d + y * 365) - (y div 100 + 719499)"

lemma gauss_days_word:
  assumes "y < 10000" "m \<le> 12" "d < 1000" "y div 100 + 719499 \<le> y div 4 + y div 400 + 367 * m div 12 + d + y * 365"
  shows "((of_nat y :: u32) div 4 - of_nat y div 100 + of_nat y div 400 + 367 * of_nat m div 12 + of_nat d
      + of_nat y * 365 - 719499) = of_nat (gauss_days y m d)"
proof -
  have y: "(of_nat y :: u32) div 4 = of_nat (y div 4)" "(of_nat y :: u32) div 100 = of_nat (y div 100)"
    "(of_nat y :: u32) div 400 = of_nat (y div 400)"
    using of_nat_div_u32[of y 4] of_nat_div_u32[of y 100] of_nat_div_u32[of y 400] assms(1) by simp_all
  have "367 * m < 2 ^ 32" using assms(2) by simp
  then have m: "367 * (of_nat m :: u32) div 12 = of_nat (367 * m div 12)"
    using of_nat_div_u32[of "367 * m" 12] by simp
  show ?thesis
    using assms(4) by (simp only: y m gauss_days_def) (simp add: of_nat_diff)
qed


lemma gauss_days_correct:
  assumes "valid_date y m d"
  defines "wm \<equiv> if m \<le> 2 then m + 10 else m - 2" and "wy \<equiv> if m \<le> 2 then y - 1 else y"
  shows "gauss_days wy wm d = days_to y m d"
    and "wy div 100 + 719499 \<le> wy div 4 + wy div 400 + 367 * wm div 12 + d + wy * 365"
proof -
  have y: "1970 \<le> y" "1 \<le> d" and m: "m \<in> {1..12}" using assms(1) by (auto simp: valid_date_def)
  define k where "k = y - 1970"
  have yk: "y = 1970 + k" using y(1) by (simp add: k_def)
  have l69: "leap_days 1969 = 477" by (simp add: leap_days_def)
  have dy: "days_to_year k + 719527 = 365 * y + leap_days (1969 + k)"
    using days_to_year_closed[of k] by (simp add: l69 yk)
  have lw: "wy div 4 + wy div 400 = leap_days wy + wy div 100"
    using leap_days_le[of wy] by (simp add: leap_days_def)
  have ly: "leap_days y = leap_days (1969 + k) + (if leap_year y then 1 else 0)"
    using leap_days_Suc[of "1969 + k"] by (simp add: yk)
  have lm: "leap_days 1969 \<le> leap_days (1969 + k)"
  proof (induction k)
    case (Suc k) then show ?case using leap_days_Suc[of "1969 + k"] by simp
  qed simp
  have "leap_days wy + 367 * wm div 12 + d + wy * 365 = days_to y m d + 719499"
  proof (cases "m \<le> 2")
    case True
    then have w: "wy = 1969 + k" "wm = m + 10" by (simp_all add: wy_def wm_def yk)
    have "m = 1 \<or> m = 2" using True m by auto
    then show ?thesis
      using dy y(2) by (auto simp: w days_to_def k_def[symmetric] month_days_def yk)
  next
    case False
    then have w: "wy = y" "wm = m - 2" by (simp_all add: wy_def wm_def)
    have "m = 3 \<or> m = 4 \<or> m = 5 \<or> m = 6 \<or> m = 7 \<or> m = 8 \<or> m = 9 \<or> m = 10 \<or> m = 11 \<or> m = 12"
      using False m unfolding atLeastAtMost_iff by presburger
    then show ?thesis
      using dy y(2) ly by (elim disjE) (simp_all add: w days_to_def k_def[symmetric] month_days_def)
  qed
  then show "gauss_days wy wm d = days_to y m d"
    and "wy div 100 + 719499 \<le> wy div 4 + wy div 400 + 367 * wm div 12 + d + wy * 365"
    using lw by (simp_all add: gauss_days_def)
qed

text \<open>The seconds \<open>mktime\<close> computes.\<close>

lemma mktime_word:
  assumes date: "valid_date y m d" and "h < 24" "mi < 60" "sc < 60"
  shows "mktime (of_nat y) (of_nat m) (of_nat d) (of_nat h) (of_nat mi) (of_nat sc)
    = of_nat (((days_to y m d * 24 + h) * 60 + mi) * 60 + sc)"
proof -
  define wm where "wm = (if m \<le> 2 then m + 10 else m - 2)"
  define wy where "wy = (if m \<le> 2 then y - 1 else y)"
  have y: "1970 \<le> y" "y \<le> 2105" and m: "m \<in> {1..12}" using date by (auto simp: valid_date_def)
  have d: "d < 1000"
  proof -
    have "month_days y ! (m - 1) \<le> 31"
      using m by (auto simp: month_days_def nth_Cons split: nat.split)
    then show ?thesis using date by (auto simp: valid_date_def)
  qed
  have shift: "(if sint ((of_nat m :: u32) - 2) \<le> 0 then ((of_nat m :: u32) - 2 + 12, (of_nat y :: u32) - 1)
      else (of_nat m - 2, of_nat y)) = (of_nat wm, of_nat wy)"
    using month_cases[OF valid_dateD(3,4)[OF date]] y by (elim disjE) (simp_all add: wm_def wy_def of_nat_diff)
  have "wy < 10000" "wm \<le> 12" using y m by (auto simp: wy_def wm_def)
  then have "((of_nat wy :: u32) div 4 - of_nat wy div 100 + of_nat wy div 400 + 367 * of_nat wm div 12 + of_nat d
      + of_nat wy * 365 - 719499) = of_nat (days_to y m d)"
    using gauss_days_word[of wy wm d] gauss_days_correct[OF date] d unfolding wm_def wy_def by metis
  then show ?thesis
    unfolding mktime_def Let_def shift prod.case by simp
qed


section \<open>expand_time\<close>

declare expand_year.simps [simp del]

lemma expand_year_days:
  assumes "j \<le> k" and "r < year_days (1970 + k)"
  shows "expand_year (1970 + j) (days_to_year k - days_to_year j + r) = (1970 + k, r)"
  using assms(1)
proof (induction j rule: inc_induct)
  case base
  then show ?case using assms(2) by (subst expand_year.simps) (simp add: year_days_def)
next
  case (step j)
  have mono: "days_to_year (Suc j) \<le> days_to_year k"
    using step.hyps by (intro days_to_year_mono) simp
  have split: "days_to_year k - days_to_year j + r
      = year_days (1970 + j) + (days_to_year k - days_to_year (Suc j) + r)"
    using mono unfolding days_to_year.simps by linarith
  have "expand_year (1970 + j) (year_days (1970 + j) + c) = expand_year (1970 + Suc j) c" for c
    by (subst expand_year.simps) (simp add: year_days_def)
  then show ?case unfolding split using step.IH by metis
qed

text \<open>What the month loop makes of a date: the month table gives April 31 days and May 30.\<close>

definition table_date :: "nat \<Rightarrow> nat \<Rightarrow> nat \<times> nat" where
  "table_date m d = (if m = 5 then (if d = 1 then (4, 31) else (5, d - 1)) else (m, d))"

lemma expand_month_table:
  assumes "valid_date y m d"
  shows "(let (mo, r) = expand_month (days_per_month (leap_year y)) 0
            (sum_list (take (m - 1) (month_days y)) + (d - 1)) in (mo + 1, r + 1)) = table_date m d"
proof -
  note d = valid_dateD(5,6)[OF assms]
  from month_cases[OF valid_dateD(3,4)[OF assms]] d show ?thesis
    by - (elim disjE; cases "leap_year y"; auto simp: month_days_def days_per_month_def table_date_def)
qed

lemma days_in_year:
  assumes "valid_date y m d" shows "sum_list (take (m - 1) (month_days y)) + (d - 1) < year_days y"
proof -
  note d = valid_dateD(5,6)[OF assms]
  from month_cases[OF valid_dateD(3,4)[OF assms]] d show ?thesis
    by - (elim disjE; cases "leap_year y"; simp add: month_days_def year_days_def)
qed

lemma days_to_bound:
  assumes "valid_date y m d" shows "days_to y m d < 49710"
proof -
  have "days_to_year (y - 1970) \<le> days_to_year 135"
    using valid_dateD(2)[OF assms] by (intro days_to_year_mono) simp
  moreover have "days_to_year 135 = 49308"
    using days_to_year_closed[of 135] by (simp add: leap_days_def)
  moreover have "year_days y \<le> 366" by (simp add: year_days_def)
  ultimately show ?thesis using days_in_year[OF assms] by (simp add: days_to_def)
qed

lemma expand_time_seconds:
  assumes date: "valid_date y m d" and t: "h < 24" "mi < 60" "sc < 60"
  defines "c \<equiv> ((days_to y m d * 24 + h) * 60 + mi) * 60 + sc"
  shows "\<exists>w. expand_time (of_nat c) = \<lparr>tb_year = y, tb_month = fst (table_date m d), tb_day = snd (table_date m d),
      tb_day_of_week = w, tb_hour = h, tb_minute = mi, tb_second = sc\<rparr>
    \<and> w = (let (mo, dy) = table_date m d; (wm, wy) = (if mo \<le> 2 then (mo + 12, y - 1) else (mo, y))
           in (dy + 2 * wm + 3 * (wm + 1) div 5 + wy div 4 - wy div 100 + wy div 400) mod 7)"
proof -
  have "c < 49710 * 86400 - 86400 + 86400" using days_to_bound[OF date] t by (simp add: c_def)
  then have un: "unat (of_nat c :: u32) = c" by (simp add: unat_of_nat take_bit_nat_eq_self)
  have div: "c div 60 = (days_to y m d * 24 + h) * 60 + mi" "c mod 60 = sc"
    "((days_to y m d * 24 + h) * 60 + mi) div 60 = days_to y m d * 24 + h"
    "((days_to y m d * 24 + h) * 60 + mi) mod 60 = mi"
    "(days_to y m d * 24 + h) div 24 = days_to y m d" "(days_to y m d * 24 + h) mod 24 = h"
    using t by (simp_all add: c_def del: mult_Suc_right add_mult_distrib add_mult_distrib2 distrib_right_numeral distrib_left_numeral)
  let ?r = "sum_list (take (m - 1) (month_days y)) + (d - 1)"
  have ey: "expand_year 1970 (days_to y m d) = (y, ?r)"
    using expand_year_days[of 0 "y - 1970" ?r] days_in_year[OF date] valid_dateD(1)[OF date]
    by (simp add: days_to_def add.assoc)
  obtain mo r where em: "expand_month (days_per_month (leap_year y)) 0 ?r = (mo, r)" by fastforce
  then have td: "table_date m d = (mo + 1, r + 1)" using expand_month_table[OF date] by simp
  show ?thesis
    unfolding expand_time_def Let_def un div ey prod.case em td fst_conv snd_conv
    by (cases "mo + 1 \<le> 2"; simp only: if_True if_False prod.case; intro exI conjI; rule refl)
qed


section \<open>Properties\<close>

text \<open>
  C31: expand_time is the inverse of mktime on every date from 1970 to 2105 and every time of day,
  outside May: the year, hour, minute and second always come back, the month and day do for every
  month but May.  The table of \<open>expand_time\<close> has the lengths of April and May swapped, so 1 May comes
  back as "31 April" and every later day of May as the day before.
\<close>

theorem calendar_round_trip:
  assumes "valid_date y m d" and "h < 24" and "mi < 60" and "sc < 60"
  defines "tb \<equiv> expand_time (mktime (of_nat y) (of_nat m) (of_nat d) (of_nat h) (of_nat mi) (of_nat sc))"
  shows "tb_year tb = y \<and> tb_hour tb = h \<and> tb_minute tb = mi \<and> tb_second tb = sc
    \<and> (tb_month tb, tb_day tb) = (if m \<noteq> 5 then (m, d) else if d = 1 then (4, 31) else (5, d - 1))"
  using expand_time_seconds[OF assms(1-4)]
  unfolding tb_def mktime_word[OF assms(1-4)] by (auto simp: table_date_def)

theorem calendar_round_trip_witness:
  "(let tb = expand_time (mktime 1996 2 29 23 59 58) in (tb_year tb, tb_month tb, tb_day tb)) = (1996, 2, 29)
   \<and> (let tb = expand_time (mktime 1996 5 1 0 0 0) in (tb_month tb, tb_day tb)) = (4, 31)"
  using calendar_round_trip[of 1996 2 29 23 59 58] calendar_round_trip[of 1996 5 1 0 0 0]
  by (simp add: valid_date_def month_days_def leap_year_def Let_def)

lemma weekday_arith:
  fixes days leap d wy :: nat
  assumes "days + 719499 = leap + 367 * (wm - 2) div 12 + d + wy * 365" and "3 \<le> wm" "wm \<le> 14"
  shows "(d + 2 * wm + 3 * (wm + 1) div 5 + leap + wy) mod 7 = (days + 3) mod 7"
proof -
  define k where "k = (367 * (wm - 2) div 12 - (2 * wm + 3 * (wm + 1) div 5)) div 7"
  have "wm = 3 \<or> wm = 4 \<or> wm = 5 \<or> wm = 6 \<or> wm = 7 \<or> wm = 8 \<or> wm = 9 \<or> wm = 10 \<or> wm = 11 \<or> wm = 12
    \<or> wm = 13 \<or> wm = 14" using assms(2,3) by presburger
  then have "367 * (wm - 2) div 12 = 2 * wm + 3 * (wm + 1) div 5 + 7 * k + 1"
    by (elim disjE) (simp_all add: k_def)
  moreover have "(d + 2 * wm + c2 + leap + wy) + 7 * (52 * wy + k) = (days + 3) + 7 * 102785"
    if "c1 = 2 * wm + c2 + 7 * k + 1" "days + 719499 = leap + c1 + d + wy * 365" for c1 c2
    using that by simp
  ultimately have "(d + 2 * wm + 3 * (wm + 1) div 5 + leap + wy) + 7 * (52 * wy + k) = (days + 3) + 7 * 102785"
    using assms(1) by blast
  then show ?thesis by (metis mod_mult_self2)
qed

lemma weekday_right:
  fixes w y :: nat
  assumes "w < 7" shows "w = (w + y) mod 7 \<longleftrightarrow> 7 dvd y"
proof
  assume "w = (w + y) mod 7"
  then have "(w + y) mod 7 = (w + 0) mod 7" using assms by simp
  then show "7 dvd y" unfolding nat_mod_eq_iff by (auto simp: dvd_def) presburger
next
  assume "7 dvd y" then show "w = (w + y) mod 7" using assms by (auto elim!: dvdE)
qed

text \<open>
  the day of the week expand_time reports (0 is Monday) is wrong by the year: its formula leaves
  out the term for the year itself, so outside May the reported day lags the true one by the year
  (the year before in January and February) modulo 7, and is right exactly if that year is a
  multiple of 7.
\<close>

theorem weekday_lacks_year:
  assumes "valid_date y m d" and "m \<noteq> 5" and "h < 24" and "mi < 60" and "sc < 60"
  defines "w \<equiv> tb_day_of_week (expand_time (mktime (of_nat y) (of_nat m) (of_nat d) (of_nat h) (of_nat mi) (of_nat sc)))"
    and "wy \<equiv> if m \<le> 2 then y - 1 else y"
  shows "(w + wy) mod 7 = (days_to y m d + 3) mod 7 \<and> (w = (days_to y m d + 3) mod 7 \<longleftrightarrow> 7 dvd wy)"
proof -
  define wm where "wm = (if m \<le> 2 then m + 12 else m)"
  let ?g = "if m \<le> 2 then m + 10 else m - 2"
  have w: "w = (d + 2 * wm + 3 * (wm + 1) div 5 + wy div 4 - wy div 100 + wy div 400) mod 7"
    using expand_time_seconds[OF assms(1,3-5)] assms(2)
    unfolding w_def mktime_word[OF assms(1,3-5)] wm_def wy_def by (auto simp: table_date_def)
  note g = gauss_days_correct[OF assms(1), folded wy_def]
  have leap: "wy div 4 + wy div 400 = leap_days wy + wy div 100" "wy div 100 \<le> wy div 4"
    using leap_days_le[of wy] by (simp_all add: leap_days_def)
  have wm: "?g = wm - 2" "3 \<le> wm" "wm \<le> 14"
    using valid_dateD(3,4)[OF assms(1)] by (auto simp: wm_def)
  have "days_to y m d + 719499 = leap_days wy + 367 * (wm - 2) div 12 + d + wy * 365"
  proof -
    have "D + 719499 = l + c + d + f" if "a + b = l + h" "D = (a + b + c + d + f) - (h + 719499)"
      "h + 719499 \<le> a + b + c + d + f" for D a b c f h l :: nat using that by simp
    then show ?thesis using leap(1) g[unfolded wm(1) gauss_days_def] by metis
  qed
  then have A: "(d + 2 * wm + 3 * (wm + 1) div 5 + leap_days wy + wy) mod 7 = (days_to y m d + 3) mod 7"
    by (rule weekday_arith) (use wm in simp_all)
  have w': "w = (d + 2 * wm + 3 * (wm + 1) div 5 + leap_days wy) mod 7"
    unfolding w using leap by (intro arg_cong[where f = "\<lambda>x. x mod 7"]) linarith
  have B: "(w + wy) mod 7 = (days_to y m d + 3) mod 7" unfolding w' using A by (simp add: mod_add_left_eq)
  have "w < 7" unfolding w' by simp
  then have "w = (days_to y m d + 3) mod 7 \<longleftrightarrow> 7 dvd wy" unfolding B[symmetric] by (rule weekday_right)
  then show ?thesis using B by blast
qed

theorem weekday_lacks_year_witness:
  "(tb_day_of_week (expand_time (mktime 1996 2 29 0 0 0)) + 1995) mod 7 = (days_to 1996 2 29 + 3) mod 7
   \<and> (tb_day_of_week (expand_time (mktime 1996 2 29 0 0 0)) = (days_to 1996 2 29 + 3) mod 7 \<longleftrightarrow> 7 dvd (1995::nat))"
proof -
  have "valid_date 1996 2 29" by (simp add: valid_date_def month_days_def leap_year_def)
  moreover have "(2::nat) \<noteq> 5" "(0::nat) < 24" "(0::nat) < 60" by simp_all
  moreover have "(if (2::nat) \<le> 2 then 1996 - 1 else 1996) = (1995::nat)" by simp
  ultimately show ?thesis
    using weekday_lacks_year[of 1996 2 29 0 0 0] by (simp only: HOL.simp_thms of_nat_numeral semiring_1_class.of_nat_0)
qed

end
