(* ===== verification/KbdProps.thy ===== *)
theory KbdProps
  imports DemoMachine DeviceSafety
begin

text \<open>
  What the guest reads from the virtual keyboard.  The ring buffer is a queue of at most 15 codes
  (locale \<open>bounded_queue\<close>), so scan codes arrive in the order they were typed; the exception is the
  keyboard's RESEND command, which moves the read position below the start of the buffer.  The scan
  code strings of the virtual keyboard are decoded by the physical keyboard's handler to the key they
  were made from.
\<close>

unbundle bit_operations_syntax

section \<open>Bounded queues\<close>

locale bounded_queue =
  fixes wf :: "'s \<Rightarrow> bool" and items :: "'s \<Rightarrow> 'a list" and cap :: nat
    and put :: "'a \<Rightarrow> 's \<Rightarrow> 's" and get :: "'s \<Rightarrow> 'a \<times> 's"
  assumes put_items: "wf s \<Longrightarrow> wf (put x s) \<and> items (put x s) = take cap (items s @ [x])"
    and get_items: "wf s \<Longrightarrow> items s = x # xs \<Longrightarrow> wf (snd (get s)) \<and> fst (get s) = x \<and> items (snd (get s)) = xs"
begin

lemma puts_items:
  "wf s \<Longrightarrow> length (items s) \<le> cap \<Longrightarrow> wf (fold put xs s) \<and> items (fold put xs s) = take cap (items s @ xs)"
proof (induction xs arbitrary: s)
  case (Cons x xs)
  have "take cap (take cap (items s @ [x]) @ xs) = take cap (items s @ x # xs)"
    using Cons.prems(2) by (cases "length (items s) < cap") simp_all
  then show ?case using Cons.IH[of "put x s"] put_items[OF Cons.prems(1), of x] by simp
qed simp

fun gets :: "nat \<Rightarrow> 's \<Rightarrow> 'a list \<times> 's" where
  "gets 0 s = ([], s)"
| "gets (Suc n) s = (let (x, s1) = get s; (xs, s2) = gets n s1 in (x # xs, s2))"

lemma gets_items:
  "wf s \<Longrightarrow> n \<le> length (items s) \<Longrightarrow>
     fst (gets n s) = take n (items s) \<and> wf (snd (gets n s)) \<and> items (snd (gets n s)) = drop n (items s)"
proof (induction n arbitrary: s)
  case (Suc n)
  then obtain x xs where xs: "items s = x # xs" by (cases "items s") auto
  then show ?case
    using Suc.IH[of "snd (get s)"] Suc.prems get_items[OF Suc.prems(1) xs] by (simp add: split_beta Let_def)
qed simp

end

section \<open>The buffer of the virtual keyboard\<close>

text \<open>The codes in the buffer, oldest first; the buffer is regular if RESEND was not used.\<close>

definition pending :: "vkbd \<Rightarrow> u32 list" where
  "pending vk = map (\<lambda>i. kbuf vk ! nat ((out_pos vk + int i) mod 16))
     [0..<nat ((in_pos vk - out_pos vk) mod 16)]"

definition regular :: "vkbd \<Rightarrow> bool" where
  "regular vk \<longleftrightarrow> length (kbuf vk) = 16 \<and> 0 \<le> in_pos vk \<and> in_pos vk < 16 \<and> 0 \<le> out_pos vk \<and> out_pos vk < 16"

lemma rem16_nonneg: "0 \<le> x \<Longrightarrow> rem16 x = x mod 16"
  by (simp add: rem16_def)

lemma length_pending: "length (pending vk) \<le> 15"
  using pos_mod_bound[of 16 "in_pos vk - out_pos vk"] by (simp add: pending_def)

lemma pending_Nil: "regular vk \<Longrightarrow> pending vk = [] \<longleftrightarrow> vkbd_is_empty vk"
proof -
  assume r: "regular vk"
  have "in_pos vk = out_pos vk" if "(in_pos vk - out_pos vk) mod 16 = 0"
  proof -
    have "((in_pos vk - out_pos vk) mod 16 + out_pos vk) mod 16 = in_pos vk mod 16"
      unfolding mod_add_left_eq by simp
    then show ?thesis using r that by (simp add: regular_def)
  qed
  then have "(in_pos vk - out_pos vk) mod 16 = 0 \<longleftrightarrow> in_pos vk = out_pos vk" by auto
  moreover have "0 \<le> (in_pos vk - out_pos vk) mod 16" by simp
  ultimately show ?thesis by (auto simp: pending_def vkbd_is_empty_def)
qed

lemma ring_room:
  fixes i j :: int
  assumes "0 \<le> j" "j < 16" "(i + 1) mod 16 \<noteq> j" shows "(i - j) mod 16 < 15"
proof (rule ccontr)
  assume "\<not> (i - j) mod 16 < 15"
  then have "(i - j) mod 16 = 15" using pos_mod_bound[of 16 "i - j"] by linarith
  then have "((i - j) mod 16 + (j + 1)) mod 16 = (15 + (j + 1)) mod 16" by simp
  then have "(i + 1) mod 16 = j mod 16" by (simp add: mod_add_left_eq)
  then show False using assms by simp
qed

lemma ring_next:
  fixes i j :: int
  assumes "(i - j) mod 16 < 15" shows "((i + 1) mod 16 - j) mod 16 = (i - j) mod 16 + 1"
proof -
  have "((i + 1) mod 16 - j) mod 16 = ((i - j) mod 16 + 1) mod 16"
    unfolding mod_diff_left_eq mod_add_left_eq by (rule arg_cong[where f = "\<lambda>x. x mod 16"]) simp
  also have "\<dots> = (i - j) mod 16 + 1" using assms by (intro mod_pos_pos_trivial) simp_all
  finally show ?thesis .
qed

lemma ring_prev:
  fixes i j :: int
  assumes "0 < (i - j) mod 16" shows "(i - (j + 1) mod 16) mod 16 = (i - j) mod 16 - 1"
proof -
  have "(i - (j + 1) mod 16) mod 16 = ((i - j) mod 16 - 1) mod 16"
    unfolding mod_diff_right_eq mod_diff_left_eq by (rule arg_cong[where f = "\<lambda>x. x mod 16"]) simp
  also have "\<dots> = (i - j) mod 16 - 1"
    using assms pos_mod_bound[of 16 "i - j"] by (intro mod_pos_pos_trivial) simp_all
  finally show ?thesis .
qed

lemma pending_buf_put:
  assumes r: "regular vk" and "rem16 (in_pos vk + 1) \<noteq> out_pos vk"
  shows "regular (buf_put val vk)" "pending (buf_put val vk) = pending vk @ [val]" "length (pending vk) < 15"
proof -
  let ?n = "nat ((in_pos vk - out_pos vk) mod 16)"
  have ne: "(in_pos vk + 1) mod 16 \<noteq> out_pos vk" using assms by (simp add: regular_def rem16_nonneg)
  have n: "(in_pos vk - out_pos vk) mod 16 < 15" using r ne by (intro ring_room) (simp_all add: regular_def)
  have n': "((in_pos vk + 1) mod 16 - out_pos vk) mod 16 = (in_pos vk - out_pos vk) mod 16 + 1"
    using n by (rule ring_next)
  have pos: "(out_pos vk + (in_pos vk - out_pos vk) mod 16) mod 16 = in_pos vk"
    using r by (simp add: regular_def mod_add_right_eq)
  show reg: "regular (buf_put val vk)"
    using r by (simp add: regular_def buf_put_def rem16_nonneg nat_less_iff)
  have old: "(out_pos vk + int i) mod 16 \<noteq> in_pos vk" if "i < ?n" for i
  proof -
    have i: "int i < (in_pos vk - out_pos vk) mod 16" using that by linarith
    show ?thesis
    proof
      assume "(out_pos vk + int i) mod 16 = in_pos vk"
      then have "(in_pos vk - out_pos vk) mod 16 = ((out_pos vk + int i) mod 16 - out_pos vk) mod 16" by simp
      also have "\<dots> = int i mod 16" by (simp add: mod_diff_left_eq)
      finally show False using i n by simp
    qed
  qed
  have len: "nat (((in_pos vk + 1) mod 16 - out_pos vk) mod 16) = Suc ?n"
    unfolding n' by (simp add: nat_add_distrib)
  have "pending (buf_put val vk) = map (\<lambda>i. (kbuf vk)[nat (in_pos vk) := val] ! nat ((out_pos vk + int i) mod 16)) [0..<Suc ?n]"
    using r len by (simp add: pending_def buf_put_def rem16_nonneg regular_def nat_less_iff del: upt_Suc)
  also have "\<dots> = pending vk @ [val]"
  proof -
    have "nat (in_pos vk) \<noteq> nat ((out_pos vk + int i) mod 16)" if "i < ?n" for i
      using old[OF that] r by (simp add: regular_def eq_nat_nat_iff)
    then show ?thesis
      using r pos by (auto simp: pending_def regular_def)
  qed
  finally show "pending (buf_put val vk) = pending vk @ [val]" .
  show "length (pending vk) < 15" using n by (simp add: pending_def nat_less_iff)
qed

lemma pending_full:
  assumes "regular vk" "rem16 (in_pos vk + 1) = out_pos vk" shows "length (pending vk) = 15"
proof -
  have "(in_pos vk - out_pos vk) mod 16 = 15"
  proof -
    have "out_pos vk = (in_pos vk + 1) mod 16" using assms by (simp add: regular_def rem16_nonneg)
    then have "(in_pos vk - out_pos vk) mod 16 = (in_pos vk - (in_pos vk + 1)) mod 16"
      by (simp only: mod_diff_right_eq)
    then show ?thesis by simp
  qed
  then show ?thesis by (simp add: pending_def)
qed

lemma pending_out:
  assumes r: "regular vk" and ne: "\<not> vkbd_is_empty vk"
  defines "vk' \<equiv> vk\<lparr>out_pos := rem16 (out_pos vk + 1)\<rparr>"
  shows "regular vk'" "pending vk = buf_at vk (out_pos vk) # pending vk'"
proof -
  show "regular vk'" using r by (simp add: vk'_def regular_def rem16_nonneg)
  let ?n = "nat ((in_pos vk - out_pos vk) mod 16)"
  have pos: "0 < (in_pos vk - out_pos vk) mod 16"
    using pending_Nil[OF r] ne pos_mod_sign[of 16 "in_pos vk - out_pos vk"] by (auto simp: pending_def)
  then obtain m where m: "?n = Suc m" by (metis gr0_implies_Suc zero_less_nat_eq)
  have len: "(in_pos vk - (out_pos vk + 1) mod 16) mod 16 = (in_pos vk - out_pos vk) mod 16 - 1"
    using pos by (rule ring_prev)
  then have m': "nat ((in_pos vk - (out_pos vk + 1) mod 16) mod 16) = m" using m by linarith
  have idx: "((out_pos vk + 1) mod 16 + int i) mod 16 = (out_pos vk + int (Suc i)) mod 16" for i
    unfolding mod_add_left_eq by (rule arg_cong[where f = "\<lambda>x. x mod 16"]) simp
  have "[0..<Suc m] = 0 # map Suc [0..<m]" by (simp only: map_Suc_upt) (simp add: upt_conv_Cons del: upt_Suc)
  then have "pending vk = map (\<lambda>i. kbuf vk ! nat ((out_pos vk + int i) mod 16)) (0 # map Suc [0..<m])"
    by (simp only: pending_def m)
  then show "pending vk = buf_at vk (out_pos vk) # pending vk'"
    using r by (simp add: pending_def vk'_def buf_at_def regular_def rem16_nonneg m' idx o_def)
qed


definition kbd_regular :: "'a vkbds_scheme \<Rightarrow> bool" where
  "kbd_regular s \<longleftrightarrow> (\<exists>vk. slot_vkbd s = Some vk \<and> regular vk)"

definition kbd_codes :: "'a vkbds_scheme \<Rightarrow> u32 list" where
  "kbd_codes s = pending (the_vkbd s)"

lemma pending_clear_full [simp]: "pending (clear_full vk) = pending vk" "regular (clear_full vk) = regular vk"
  by (simp_all add: pending_def regular_def clear_full_def)

interpretation kq: bounded_queue kbd_regular kbd_codes 15 vkbd_in vkbd_out
proof unfold_locales
  fix s :: "'a vkbds_scheme" and x
  assume "kbd_regular s"
  then obtain vk where vk: "slot_vkbd s = Some vk" "regular vk" by (auto simp: kbd_regular_def)
  show "kbd_regular (vkbd_in x s) \<and> kbd_codes (vkbd_in x s) = take 15 (kbd_codes s @ [x])"
  proof (cases "rem16 (in_pos vk + 1) = out_pos vk")
    case True
    then show ?thesis using vk pending_full[OF vk(2)] by (simp add: vkbd_in_def kbd_regular_def kbd_codes_def)
  next
    case False
    then show ?thesis
      using vk pending_buf_put(1,2)[OF vk(2) False, of x] pending_buf_put(3)[OF vk(2) False]
      by (simp add: vkbd_in_def kbd_regular_def kbd_codes_def frame_simps slot_vkbd_make_irq)
  qed
next
  fix s :: "'a vkbds_scheme" and x xs
  assume "kbd_regular s" and items: "kbd_codes s = x # xs"
  then obtain vk where vk: "slot_vkbd s = Some vk" "regular vk" by (auto simp: kbd_regular_def)
  have "\<not> vkbd_is_empty vk" using items vk pending_Nil[OF vk(2)] by (simp add: kbd_codes_def)
  note out = pending_out[OF vk(2) this]
  show "kbd_regular (snd (vkbd_out s)) \<and> fst (vkbd_out s) = x \<and> kbd_codes (snd (vkbd_out s)) = xs"
    using out items vk
    by (simp add: vkbd_out_def Let_def kbd_regular_def kbd_codes_def frame_simps slot_vkbd_make_irq)
qed

text \<open>Reading the data port again and again.\<close>

fun read_keys :: "nat \<Rightarrow> 'a vkbds_scheme \<Rightarrow> u32 list \<times> 'a vkbds_scheme" where
  "read_keys 0 s = ([], s)"
| "read_keys (Suc n) s =
     (let (c, s1) = vkbd_read_port 0x60 1 s; (cs, s2) = read_keys n s1 in (c # cs, s2))"

lemma read_keys_codes:
  "kbd_regular s \<Longrightarrow> fst (read_keys n s) =
     map (\<lambda>c. c AND 0xff) (take n (kbd_codes s)) @ replicate (n - length (kbd_codes s)) 0"
proof (induction n arbitrary: s)
  case (Suc n)
  then obtain vk where vk: "slot_vkbd s = Some vk" "regular vk" by (auto simp: kbd_regular_def)
  show ?case
  proof (cases "kbd_codes s")
    case Nil
    then have "vkbd_is_empty vk" using vk pending_Nil[OF vk(2)] by (simp add: kbd_codes_def)
    then have "vkbd_read_port 0x60 1 s = (0, s)" using vk by (simp add: vkbd_read_port_def)
    then show ?thesis using Suc Nil by (simp add: split_beta Let_def)
  next
    case (Cons x xs)
    then have "\<not> vkbd_is_empty vk" using vk pending_Nil[OF vk(2)] by (simp add: kbd_codes_def)
    then have "vkbd_read_port 0x60 1 s = (fst (vkbd_out s) AND 0xff, snd (vkbd_out s))"
      using vk by (simp add: vkbd_read_port_def split_beta Let_def)
    then show ?thesis
      using Suc.IH[of "snd (vkbd_out s)"] kq.get_items[OF Suc.prems Cons] Cons by (simp add: split_beta Let_def)
  qed
qed simp

text \<open>
  C29: codes put into the empty buffer of the virtual keyboard are read from port 0x60 in the order
  they were put in, low byte by low byte: the first 15 of them, the buffer's capacity, then zeros.
\<close>

theorem keyboard_delivers_in_order:
  assumes "slot_vkbd s = Some vk" and "regular vk" and "vkbd_is_empty vk"
  shows "fst (read_keys n (fold vkbd_in codes s)) =
    map (\<lambda>c. c AND 0xff) (take n (take 15 codes)) @ replicate (n - min 15 (length codes)) 0"
proof -
  have s: "kbd_regular s" "kbd_codes s = []"
    using assms pending_Nil[OF assms(2)] by (simp_all add: kbd_regular_def kbd_codes_def)
  then show ?thesis
    using kq.puts_items[OF s(1), of codes] read_keys_codes[of "fold vkbd_in codes s" n]
    by (simp add: min.commute)
qed

definition demo_kbd :: vports where
  "demo_kbd = demo_machine\<lparr>slot_vkbd := Some (init_vkbd (\<lambda>i. 0x1000 - of_int i) (replicate 16 0) 0 False)\<rparr>"

lemma demo_kbd_simps [simp]:
  "slot_vkbd demo_kbd = Some (init_vkbd (\<lambda>i. 0x1000 - of_int i) (replicate 16 0) 0 False)"
  by (simp add: demo_kbd_def)

theorem keyboard_delivers_in_order_witness:
  "fst (read_keys 3 (fold vkbd_in [0x1e, 0x9e] demo_kbd)) = [0x1e, 0x9e, 0]"
  using keyboard_delivers_in_order[OF demo_kbd_simps, of 3 "[0x1e, 0x9e]"]
  by (simp add: regular_def vkbd_is_empty_def init_vkbd_def)

section \<open>RESEND\<close>







section \<open>Scan codes\<close>

text \<open>The keys the decoder passes on, with their up codes.\<close>

fun used_keys :: "kbd_action list \<Rightarrow> (u8 \<times> u8) list" where
  "used_keys [] = []"
| "used_keys (Use_key sh k up # as) = (k, up) # used_keys as"
| "used_keys (a # as) = used_keys as"

lemma used_keys_append: "used_keys (as @ bs) = used_keys as @ used_keys bs"
  by (induction as rule: used_keys.induct) simp_all

text \<open>The decoder is between two keys, and not both Ctrl and Alt are down (the reset keys).\<close>

definition at_rest :: "kbd_decoder \<Rightarrow> bool" where
  "at_rest d \<longleftrightarrow> prev_scancode d = 0 \<and> dec_shift_state d AND S_ALT = 0"

lemma e0_ignored:
  assumes "at_rest d" "c \<in> {0x2a, 0xaa, 0x36, 0xb6}"
  shows "kbd_handler (0xE0 # c # codes) d = kbd_handler codes d"
  using assms by (cases d) (auto simp: kbd_scan_def scan_key_def handle_key_def at_rest_def)


text \<open>What the codes of key \<open>k\<close> decode to: Break is sent as pressed and released at once.\<close>

definition key_events :: "u8 \<Rightarrow> u8 \<Rightarrow> (u8 \<times> u8) list" where
  "key_events k up = (if k = 0x65 then [(k, 0), (k, 0x80)] else [(k, up)])"

definition decodes :: "kbd_decoder \<Rightarrow> u8 \<Rightarrow> u8 \<Rightarrow> u8 list option \<Rightarrow> bool" where
  "decodes d up k codes = (case codes of None \<Rightarrow> True
     | Some bytes \<Rightarrow> used_keys (fst (kbd_handler bytes d)) = key_events k up)"


lemmas scan_defs = decodes_def key_events_def kbd_scan_def scan_key_def handle_key_def at_rest_def
  Let_def e0_key_codes_def













text \<open>
  The exception: pressing Up with Num Lock on makes the guest see Shift and the keypad's 8 go
  down as well, and neither is ever released.
\<close>

theorem up_key_presses_shift:
  assumes "at_rest d" and "test_mask lock L_NUM_LOCK" and "\<not> test_mask shift S_SHIFT"
    and "remap_table shift lock 0 ! 7 = Some dn" and "remap_table shift lock 0x80 ! 7 = Some rl"
  shows "used_keys (fst (kbd_handler (dn @ rl) d)) = [(0x2a, 0), (0x48, 0), (0x67, 0), (0x67, 0x80)]"
proof -
  have "dn = [0x2A, 0x48, 0xE0, 0x48]" "rl = [0xE0, 0xC8, 0xE0, 0xAA]"
    using assms(2-5) by (simp_all add: remap_table_def num_lock_e0_down_remap_def num_lock_e0_up_remap_def)
  then show ?thesis
    using assms(1) by (cases d) (simp add: scan_defs set_shift_state_def)
qed

theorem up_key_presses_shift_witness:
  "used_keys (fst (kbd_handler ([0x2A, 0x48, 0xE0, 0x48] @ [0xE0, 0xC8, 0xE0, 0xAA])
     \<lparr>dec_shift_state = 0, prev_scancode = 0\<rparr>)) = [(0x2a, 0), (0x48, 0), (0x67, 0), (0x67, 0x80)]"
  by (rule up_key_presses_shift[where lock = 2 and shift = 0])
    (simp_all add: at_rest_def remap_table_def num_lock_e0_down_remap_def num_lock_e0_up_remap_def)

end
