(* ===== verification/IdeProps.thy ===== *)
theory IdeProps
  imports DemoMachine DeviceSafety
begin

text \<open>
  What the virtual IDE disk delivers.  The sector buffer holds 512 bytes, but the data port moves on
  to the next block after 256: a sequence of reads yields the first half of every block, a sequence of
  writes that the disk refuses runs through the buffer into the memory behind it.  Then the
  geometry a disk of a given size is given and the block range the BIOS services accept.
\<close>

unbundle bit_operations_syntax

section \<open>Frames\<close>

lemma slot_vide_upd [simp]: "slot_vide (upd_vide f s) = map_option f (slot_vide s)"
  by (simp add: upd_vide_def)

lemma slot_vide_simulate_irq [simp]: "slot_vide (simulate_irq n s) = slot_vide s"
  by (intro vide_of_more more_vdmas_vkbds more_vpics_vdmas vpics_more_simulate_irq)

lemma slot_vide_make_irq [simp]:
  "slot_vide (make_irq s) = map_option (\<lambda>v. v\<lparr>intrq := True\<rparr>) (slot_vide s)"
  by (simp add: make_irq_def Let_def)

section \<open>Reading\<close>

text \<open>The guest reads \<open>n\<close> bytes from the data port.\<close>

fun read_bytes :: "nat \<Rightarrow> 'a vides_scheme \<Rightarrow> u32 list \<times> 'a vides_scheme" where
  "read_bytes 0 s = ([], s)"
| "read_bytes (Suc n) s =
     (let (b, s1) = vide_in 0x1f0 1 s; (bs, s2) = read_bytes n s1 in (b # bs, s2))"

lemma read_bytes_add:
  "read_bytes (m + n) s = (let (as, s1) = read_bytes m s; (bs, s2) = read_bytes n s1 in (as @ bs, s2))"
  by (induction m arbitrary: s) (simp_all add: split_beta Let_def)

text \<open>A disk whose blocks can all be read, and hold 512 bytes.\<close>

definition good_disk :: "vide \<Rightarrow> bool" where
  "good_disk v \<longleftrightarrow> (\<forall>b. vdisk_ok v b \<and> length (vdisk v b) = 512)"

text \<open>
  The transfer state: block \<open>b\<close> is in the buffer, \<open>left\<close> more are to follow, the index is at
  \<open>i\<close>, and the disk is that of \<open>v\<close>.
\<close>

definition transferring :: "vide \<Rightarrow> u32 \<Rightarrow> nat \<Rightarrow> nat \<Rightarrow> 'a vides_scheme \<Rightarrow> bool" where
  "transferring v b left i s \<longleftrightarrow> (\<exists>w. slot_vide s = Some w \<and> vdisk w = vdisk v \<and> vdisk_ok w = vdisk_ok v
     \<and> ide_blocks w = ide_blocks v \<and> blk w = b + 1 \<and> blocks_left w = of_nat left \<and> buf_index w = of_nat i
     \<and> (\<forall>a<512. ide_buf w a = vdisk v b ! unat a))"

lemma read_next_block_transfers:
  assumes "slot_vide s = Some w" and "good_disk w" and "blk w < ide_blocks w"
    and "blocks_left w = of_nat (Suc left)"
  shows "transferring w (blk w) left 0 (read_next_block s)"
  using assms
  by (auto simp: read_next_block_def read_one_block_def good_disk_def transferring_def buf_fill_def)

lemma vide_in_byte:
  assumes "transferring v b left i s" and "i < 255"
  shows "fst (vide_in 0x1f0 1 s) = ucast (vdisk v b ! i) \<and> transferring v b left (Suc i) (snd (vide_in 0x1f0 1 s))"
proof -
  obtain w where w: "slot_vide s = Some w" "buf_index w = of_nat i" "\<forall>a<512. ide_buf w a = vdisk v b ! unat a"
    using assms(1) by (auto simp: transferring_def)
  have i: "(of_nat i :: u32) < 255" "unat (of_nat i :: u32) = i"
    using assms(2) by (simp_all add: word_less_nat_alt take_bit_nat_eq_self unsigned_of_nat)
  then have lt: "(of_nat i :: u32) < 512" "\<not> 256 \<le> (of_nat i :: u32) + 1"
    by (simp_all add: word_less_nat_alt word_le_nat_alt unat_add_small)
  then have "ide_buf w (of_nat i) = vdisk v b ! i" using w(3) i(2) by simp
  then show ?thesis
    using w assms(1) lt by (auto simp: vide_in_def read_data_def load8_def transferring_def add.commute)
qed

lemma read_bytes_part:
  assumes "transferring v b left i s" and "i + n \<le> 255" and "length (vdisk v b) = 512"
  shows "fst (read_bytes n s) = map ucast (take n (drop i (vdisk v b)))
    \<and> transferring v b left (i + n) (snd (read_bytes n s))"
  using assms
proof (induction n arbitrary: i s)
  case (Suc n)
  have step: "fst (vide_in 0x1f0 1 s) = ucast (vdisk v b ! i)" "transferring v b left (Suc i) (snd (vide_in 0x1f0 1 s))"
    using vide_in_byte[OF Suc.prems(1)] Suc.prems(2) by simp_all
  have "drop i (vdisk v b) = vdisk v b ! i # drop (Suc i) (vdisk v b)"
    using Suc.prems by (simp add: Cons_nth_drop_Suc)
  then show ?case using Suc.IH[OF step(2)] step(1) Suc.prems by (simp add: split_beta Let_def)
qed simp

lemma vide_in_last_byte:
  assumes "transferring v b left 255 s" and "good_disk v" and "left < 256"
    and "left > 0 \<Longrightarrow> b + 1 < ide_blocks v"
  shows "fst (vide_in 0x1f0 1 s) = ucast (vdisk v b ! 255)"
    and "left > 0 \<Longrightarrow> transferring v (b + 1) (left - 1) 0 (snd (vide_in 0x1f0 1 s))"
proof -
  obtain w where w: "slot_vide s = Some w" "buf_index w = 255" "\<forall>a<512. ide_buf w a = vdisk v b ! unat a"
    "vdisk w = vdisk v" "vdisk_ok w = vdisk_ok v" "ide_blocks w = ide_blocks v" "blk w = b + 1" "blocks_left w = of_nat left"
    using assms(1) by (auto simp: transferring_def)
  show "fst (vide_in 0x1f0 1 s) = ucast (vdisk v b ! 255)"
    using w by (simp add: vide_in_def read_data_def load8_def split_beta Let_def)
  assume left: "left > 0"
  then have lw: "(of_nat left :: u32) > 0" "of_nat left = (of_nat (Suc (left - 1)) :: u32)"
    using assms(3) by (simp_all add: word_less_nat_alt unsigned_of_nat take_bit_nat_eq_self)
  then have bl: "blocks_left w > 0" unfolding w(8) by simp
  let ?w = "w\<lparr>buf_index := 256, ide_status := RDY_STAT\<rparr>"
  have s': "snd (vide_in 0x1f0 1 s) = read_next_block (upd_vide (\<lambda>v. v\<lparr>ide_status := RDY_STAT\<rparr>)
      (s\<lparr>slot_vide := Some (w\<lparr>buf_index := 256\<rparr>)\<rparr>))"
    using w(1,2) bl by (simp add: vide_in_def read_data_def split_beta Let_def upd_vide_def)
  have "transferring ?w (blk ?w) (left - 1) 0 (snd (vide_in 0x1f0 1 s))"
    unfolding s'
  proof (rule read_next_block_transfers)
    show "blocks_left ?w = of_nat (Suc (left - 1))" unfolding lw(2)[symmetric] using w(8) by simp
    show "blk ?w < ide_blocks ?w" using w(6,7) assms(4)[OF left] by simp
  qed (use w assms(2) in \<open>auto simp: upd_vide_def good_disk_def\<close>)
  then show "transferring v (b + 1) (left - 1) 0 (snd (vide_in 0x1f0 1 s))"
    using w by (simp add: transferring_def)
qed

lemma read_block_half:
  assumes "transferring v b left 0 s" and "good_disk v" and "left < 256"
    and "left > 0 \<Longrightarrow> b + 1 < ide_blocks v"
  shows "fst (read_bytes 256 s) = map ucast (take 256 (vdisk v b))"
    and "left > 0 \<Longrightarrow> transferring v (b + 1) (left - 1) 0 (snd (read_bytes 256 s))"
proof -
  have len: "length (vdisk v b) = 512" using assms(2) by (simp add: good_disk_def)
  note p = read_bytes_part[OF assms(1) _ len, of 255]
  have "transferring v b left 255 (snd (read_bytes 255 s))" using p by simp
  note l = vide_in_last_byte[OF this assms(2-4)]
  have rb: "read_bytes 256 s = (let (as, s1) = read_bytes 255 s; (bs, s2) = read_bytes 1 s1 in (as @ bs, s2))"
    using read_bytes_add[of 255 1 s] by simp
  have "take 256 (vdisk v b) = take 255 (vdisk v b) @ [vdisk v b ! 255]"
    using take_Suc_conv_app_nth[of 255 "vdisk v b"] len by simp
  then show "fst (read_bytes 256 s) = map ucast (take 256 (vdisk v b))"
    using p l(1) by (simp add: rb split_beta Let_def)
  assume "left > 0"
  then show "transferring v (b + 1) (left - 1) 0 (snd (read_bytes 256 s))"
    using l(2) by (simp add: rb split_beta Let_def)
qed

lemma concat_upt_Suc: "concat (map g [0..<Suc n]) = g 0 @ concat (map (\<lambda>i. g (Suc i)) [0..<n])"
  by (induction n) simp_all

lemma read_blocks_half:
  assumes "transferring v b left 0 s" and "good_disk v" and "left < 256" and "unat b + left < unat (ide_blocks v)"
  shows "fst (read_bytes (256 * Suc left) s) =
    concat (map (\<lambda>i. map ucast (take 256 (vdisk v (b + of_nat i)))) [0..<Suc left])"
  using assms
proof (induction left arbitrary: b s)
  case 0
  then show ?case using read_block_half(1)[OF 0(1,2)] by simp
next
  case (Suc left)
  have b1: "unat (b + 1) = unat b + 1"
    using Suc.prems(4) unat_u32_lt[of "ide_blocks v"] by (simp add: unat_add_small)
  then have lt: "b + 1 < ide_blocks v" using Suc.prems(4) by (simp add: word_less_nat_alt)
  note h = read_block_half[OF Suc.prems(1-3) lt]
  have nxt: "transferring v (b + 1) left 0 (snd (read_bytes 256 s))" using h(2) by simp
  have "fst (read_bytes (256 * Suc left) (snd (read_bytes 256 s))) =
      concat (map (\<lambda>i. map ucast (take 256 (vdisk v (b + 1 + of_nat i)))) [0..<Suc left])"
    using Suc.IH[OF nxt Suc.prems(2)] Suc.prems(3,4) b1 by simp
  moreover have "256 * Suc (Suc left) = 256 + 256 * Suc left" by simp
  ultimately show ?case
    using h(1) by (simp only: read_bytes_add concat_upt_Suc[of _ "Suc left"])
      (simp add: split_beta Let_def add.assoc del: upt_Suc)
qed


text \<open>
  a READ command for \<open>n\<close> blocks starting at block \<open>b\<close> delivers, over the next \<open>256 * n\<close>
  byte reads of the data port, the first 256 bytes of each of the blocks \<open>b, ..., b + n - 1\<close>: the device
  takes its 512-byte buffer for exhausted after 256 bytes, and the second half of no block but
  the last can ever be read.
\<close>

theorem ide_read_delivers_halves:
  assumes "slot_vide s = Some v" and "good_disk v" and "num_sectors v \<noteq> 0"
    and "unat (blk (make_blkno v)) + unat (num_sectors v) \<le> unat (ide_blocks v)"
  shows "fst (read_bytes (256 * unat (num_sectors v)) (vide_out 0x1f7 1 0x20 s)) =
    concat (map (\<lambda>i. map ucast (take 256 (vdisk v (blk (make_blkno v) + of_nat i)))) [0..<unat (num_sectors v)])"
proof -
  let ?v = "(make_blkno (v\<lparr>ide_command := 0x20\<rparr>))\<lparr>blocks_left := ucast (num_sectors v)\<rparr>"
  obtain left where n: "unat (num_sectors v) = Suc left"
    using assms(3) by (metis not0_implies_Suc unsigned_eq_0_iff)
  have "unat (num_sectors v) < 256" using unsigned_less[of "num_sectors v"] by simp
  then have left: "left < 256" using n by simp
  have cnt: "ucast (num_sectors v) = (of_nat (Suc left) :: u32)"
    unfolding n[symmetric] by simp
  have b: "blk ?v = blk (make_blkno v)" by (simp add: make_blkno_def)
  have "vide_out 0x1f7 1 0x20 s = read_next_block (upd_vide (\<lambda>_. ?v) s)"
    using assms(1) by (simp add: vide_out_def ide_cmd_def upd_vide_def Let_def make_blkno_def)
  moreover have "transferring ?v (blk ?v) left 0 (read_next_block (upd_vide (\<lambda>_. ?v) s))"
  proof (rule read_next_block_transfers)
    show "blocks_left ?v = of_nat (Suc left)" using cnt by simp
    show "blk ?v < ide_blocks ?v" unfolding b using assms(4) n by (simp add: word_less_nat_alt make_blkno_def)
    show "good_disk ?v" using assms(2) by (simp add: good_disk_def make_blkno_def)
  qed (simp add: assms(1))
  ultimately have "transferring v (blk (make_blkno v)) left 0 (vide_out 0x1f7 1 0x20 s)"
    by (simp add: transferring_def make_blkno_def)
  from read_blocks_half[OF this assms(2) left] show ?thesis
    using assms(4) unfolding n by simp
qed

text \<open>A 40-block disk with distinguishable blocks, and the command registers set to its block 3.\<close>

definition demo_vide :: vide where
  "demo_vide = \<lparr>is_file = True, vdisk = (\<lambda>b. replicate 256 (ucast b) @ replicate 256 0xEE), vdisk_ok = (\<lambda>_. True),
     ide_blocks = 40, cylinders = 2, heads = 2, sectors = 10, ide_irq = 14, ide_error = 0, features = 0,
     num_sectors = 2, sector_reg = 4, low_cyl = 0, high_cyl = 0, sel_reg = 0xA0, ide_status = RDY_STAT,
     ide_command = 0, devctrl = 0, intrq = False, buf_index = 0, blk = 0, blocks_left = 0, ide_buf = (\<lambda>_. 0)\<rparr>"

definition demo_ide :: vports where
  "demo_ide = demo_machine\<lparr>slot_vide := Some demo_vide\<rparr>"

lemma demo_ide_simps [simp]:
  "slot_vide demo_ide = Some demo_vide" "good_disk demo_vide" "num_sectors demo_vide = 2"
  "blk (make_blkno demo_vide) = 3" "ide_blocks demo_vide = 40" "buf_index demo_vide = 0"
  by (simp_all add: demo_ide_def demo_vide_def good_disk_def make_blkno_def)

theorem ide_read_delivers_halves_witness:
  "fst (read_bytes 512 (vide_out 0x1f7 1 0x20 demo_ide)) = replicate 256 3 @ replicate 256 4"
proof -
  have "[0..<2] = [0, 1 :: nat]" by (simp add: upt_rec)
  moreover have "vdisk demo_vide b = replicate 256 (ucast b) @ replicate 256 0xEE" for b
    by (simp add: demo_vide_def)
  ultimately show ?thesis
    using ide_read_delivers_halves[OF demo_ide_simps(1,2)] by simp
qed

section \<open>Writing\<close>

text \<open>A byte written while the disk refuses the block: stored, and the index moves on.\<close>

lemma refused_byte:
  assumes "slot_vide s = Some v" and "ide_blocks v \<le> blk v"
  shows "\<exists>v'. slot_vide (vide_out 0x1f0 1 val s) = Some v' \<and> blk v' = blk v \<and> ide_blocks v' = ide_blocks v
    \<and> ide_buf v' = (ide_buf v)(buf_index v := ucast val) \<and> buf_index v' = buf_index v + 1 \<and> vdisk v' = vdisk v"
proof -
  let ?v = "v\<lparr>ide_buf := (ide_buf v)(buf_index v := ucast val), buf_index := buf_index v + 1\<rparr>"
  have "slot_vide (vide_out 0x1f0 1 val s) =
      Some (if buf_index ?v \<ge> 256 then ?v\<lparr>ide_status := WERR_STAT, ide_error := HD_ERR_UNK\<rparr> else ?v)"
    using assms by (simp add: vide_out_def write_data_def store8_def Let_def write_block_def)
  then show ?thesis by (auto split: if_splits)
qed

lemma refused_bytes:
  assumes "slot_vide s = Some v" and "ide_blocks v \<le> blk v" and "length ws \<le> 4294967296"
  shows "\<exists>v'. slot_vide (fold (vide_out 0x1f0 1) ws s) = Some v' \<and> vdisk v' = vdisk v
    \<and> blk v' = blk v \<and> ide_blocks v' = ide_blocks v \<and> buf_index v' = buf_index v + of_nat (length ws)
    \<and> (\<forall>j<length ws. ide_buf v' (buf_index v + of_nat j) = ucast (ws ! j))"
  using assms(3)
proof (induction ws rule: rev_induct)
  case (snoc w ws)
  then obtain v1 where v1: "slot_vide (fold (vide_out 0x1f0 1) ws s) = Some v1" "vdisk v1 = vdisk v"
    "blk v1 = blk v" "ide_blocks v1 = ide_blocks v" "buf_index v1 = buf_index v + of_nat (length ws)"
    "\<forall>j<length ws. ide_buf v1 (buf_index v + of_nat j) = ucast (ws ! j)" by auto
  have "ide_blocks v1 \<le> blk v1" using assms(2) v1 by simp
  from refused_byte[OF v1(1) this, of w] obtain v2 where v2:
    "slot_vide (vide_out 0x1f0 1 w (fold (vide_out 0x1f0 1) ws s)) = Some v2" "blk v2 = blk v1"
    "ide_blocks v2 = ide_blocks v1" "ide_buf v2 = (ide_buf v1)(buf_index v1 := ucast w)"
    "buf_index v2 = buf_index v1 + 1" "vdisk v2 = vdisk v1" by auto
  have "ide_buf v2 (buf_index v + of_nat j) = ucast ((ws @ [w]) ! j)" if "j < Suc (length ws)" for j
  proof (cases "j = length ws")
    case False
    then show ?thesis using that v1(5,6) v2(4) of_nat_u32_inj[of j "length ws"] snoc.prems
      by (simp add: nth_append)
  qed (simp add: v1(5) v2(4))
  then show ?case using v1 v2 by (simp add: add.assoc)
qed (simp add: assms)

text \<open>
  C39: the guest writes kernel memory through the disk.  After a WRITE command for a block behind the
  end of the disk, every byte written to the data port is stored and the index is never reset: byte
  number \<open>j\<close> of any run of byte writes lands \<open>j\<close> bytes behind the start of the 512-byte buffer, with
  the disk itself unchanged, so from the 513th on the guest overwrites the memory behind the buffer.
\<close>

theorem ide_write_overruns_buffer:
  assumes "slot_vide s = Some v" and "ide_blocks v \<le> blk (make_blkno v)" and "buf_index v = 0"
    and "length ws \<le> 4294967296"
  shows "\<exists>v'. slot_vide (fold (vide_out 0x1f0 1) ws (vide_out 0x1f7 1 0x30 s)) = Some v' \<and> vdisk v' = vdisk v
    \<and> (\<forall>j<length ws. ide_buf v' (of_nat j) = ucast (ws ! j))"
proof -
  let ?v = "(make_blkno (v\<lparr>ide_command := 0x30\<rparr>))\<lparr>blocks_left := ucast (num_sectors v), ide_status := DATA_RDY_STAT, intrq := True\<rparr>"
  have "slot_vide (vide_out 0x1f7 1 0x30 s) = Some ?v"
    using assms(1) by (simp add: vide_out_def ide_cmd_def Let_def make_blkno_def)
  moreover have "ide_blocks ?v \<le> blk ?v" using assms(2) by (simp add: make_blkno_def)
  moreover have "buf_index ?v = 0" "vdisk ?v = vdisk v" using assms(3) by (simp_all add: make_blkno_def)
  ultimately show ?thesis using refused_bytes[of "vide_out 0x1f7 1 0x30 s" ?v ws] assms(4) by auto
qed

theorem ide_write_overruns_buffer_witness:
  "\<exists>v'. slot_vide (fold (vide_out 0x1f0 1) (replicate 600 0xCC)
       (vide_out 0x1f7 1 0x30 (demo_machine\<lparr>slot_vide := Some (demo_vide\<lparr>sector_reg := 41\<rparr>)\<rparr>))) = Some v'
     \<and> ide_buf v' 599 = 0xCC"
proof -
  have "(blk (make_blkno (demo_vide\<lparr>sector_reg := 41\<rparr>)) :: u32) = 40" "buf_index (demo_vide\<lparr>sector_reg := 41\<rparr>) = 0"
    "ide_blocks (demo_vide\<lparr>sector_reg := 41\<rparr>) = 40" by (simp_all add: demo_vide_def make_blkno_def)
  then obtain v' where v': "slot_vide (fold (vide_out 0x1f0 1) (replicate 600 0xCC)
       (vide_out 0x1f7 1 0x30 (demo_machine\<lparr>slot_vide := Some (demo_vide\<lparr>sector_reg := 41\<rparr>)\<rparr>))) = Some v'"
    and "\<forall>j<length (replicate 600 (0xCC :: u32)). ide_buf v' (of_nat j) = ucast (replicate 600 (0xCC :: u32) ! j)"
    using ide_write_overruns_buffer[of "demo_machine\<lparr>slot_vide := Some (demo_vide\<lparr>sector_reg := 41\<rparr>)\<rparr>"
      "demo_vide\<lparr>sector_reg := 41\<rparr>" "replicate 600 0xCC"] by auto
  then have "\<forall>j<600. ide_buf v' (of_nat j) = 0xCC" by simp
  then have "ide_buf v' (of_nat 599) = 0xCC" by (rule allE[of _ 599]) simp
  then show ?thesis using v' by auto
qed

section \<open>Geometry\<close>

lemma derive_heads_fits:
  "even h \<Longrightarrow> 0 < h \<Longrightarrow> h \<le> derive_heads b h \<and> even (derive_heads b h) \<and> b div derive_heads b h < 1024
    \<and> (derive_heads b h = h \<or> 1024 \<le> b div (derive_heads b h - 2))"
proof (induction b h rule: derive_heads.induct)
  case (1 b h)
  show ?case
  proof (cases "1024 \<le> b div h")
    case True
    then have "derive_heads b h = derive_heads b (h + 2)" by (simp add: derive_heads.simps[of b h])
    then show ?thesis using 1 True by fastforce
  qed (use 1(2,3) in \<open>simp add: derive_heads.simps[of b h]\<close>)
qed

text \<open>
  the geometry a file-backed disk of \<open>n\<close> blocks is given has 62 sectors, fewer than 1024 cylinders
  and an even number of heads, the smallest that allows so few cylinders; its capacity is at most
  \<open>n\<close> and falls short of it by less than one cylinder and one track.  The number of heads is not kept
  below 16, as the comment there asks: it is 16 or more exactly from 888832 blocks (434 MB) on.
\<close>

theorem derive_geometry_fits:
  assumes "derive_geometry None n = (c, h, sec)"
  shows "sec = 62 \<and> c < 1024 \<and> even (unat h) \<and> 2 \<le> unat h
    \<and> unat c * unat h * 62 \<le> unat n \<and> unat n < unat c * unat h * 62 + 62 * unat h + 62
    \<and> (unat h = 2 \<or> 1024 \<le> unat n div 62 div (unat h - 2))
    \<and> (16 \<le> h \<longleftrightarrow> 888832 \<le> n)"
proof -
  define b where "b = unat n div 62"
  define g where "g = derive_heads b 2"
  have f: "2 \<le> g" "even g" "b div g < 1024" "g = 2 \<or> 1024 \<le> b div (g - 2)"
    using derive_heads_fits[of 2 b] by (simp_all add: g_def)
  have b: "b < 69273667" "b * 62 \<le> unat n" "unat n < b * 62 + 62"
    using unat_u32_lt[of n] dividend_less_div_times[of 62 "unat n"]
    by (simp_all add: b_def div_less_iff_less_mult)
  have big: "1024 * (g - 2) \<le> b" if "g \<noteq> 2"
  proof -
    have "1024 \<le> b div (g - 2)" using f(4) that by simp
    then have "1024 * (g - 2) \<le> b div (g - 2) * (g - 2)" by (rule mult_le_mono1)
    also have "\<dots> \<le> b" by (rule div_times_less_eq_dividend)
    finally show ?thesis .
  qed
  have g: "g < 70000"
  proof (rule ccontr)
    assume "\<not> g < 70000"
    then have "1024 * (g - 2) \<le> b" using big by simp
    then show False using b(1) \<open>\<not> g < 70000\<close> by simp
  qed
  have ug: "unat (of_nat g :: u32) = g" and uc: "unat (of_nat (b div g) :: u32) = b div g"
    using g f(3) by (simp_all add: unsigned_of_nat take_bit_nat_eq_self)
  have res: "c = of_nat (b div g)" "h = of_nat g" "sec = 62"
    using assms by (simp_all add: derive_geometry_def Let_def b_def g_def)
  have cap: "b div g * g \<le> b" "b < b div g * g + g"
    using f(1) dividend_less_div_times[of g b] by simp_all
  have h16: "16 \<le> g \<longleftrightarrow> 14336 \<le> b"
  proof
    assume "16 \<le> g"
    then have "1024 * (g - 2) \<le> b" using big by simp
    then show "14336 \<le> b" using \<open>16 \<le> g\<close> by simp
  next
    assume "14336 \<le> b"
    have "b < 1024 * g" using f(1,3) by (simp add: div_less_iff_less_mult)
    then have "14 < g" using \<open>14336 \<le> b\<close> by simp
    then show "16 \<le> g" using f(2) by (cases "g = 15") auto
  qed
  have n: "888832 \<le> n \<longleftrightarrow> 14336 \<le> b" using b(2,3) by (simp add: word_le_nat_alt) linarith
  have "unat (of_nat (b div g) :: u32) * unat (of_nat g :: u32) * 62 \<le> unat n"
    "unat n < unat (of_nat (b div g) :: u32) * unat (of_nat g :: u32) * 62 + 62 * unat (of_nat g :: u32) + 62"
    unfolding ug uc using cap b(2,3) by linarith+
  moreover have "(of_nat (b div g) :: u32) < 1024" "16 \<le> (of_nat g :: u32) \<longleftrightarrow> 888832 \<le> n"
    using f(3) n h16 by (simp_all add: word_less_nat_alt word_le_nat_alt ug uc)
  ultimately show ?thesis using f res by (simp add: ug b_def)
qed

theorem derive_geometry_fits_witness:
  "16 \<le> fst (snd (derive_geometry None 1000000))"
  using derive_geometry_fits[of 1000000] by (cases "derive_geometry None 1000000") auto


section \<open>The range of the BIOS services\<close>

text \<open>The number of a block from its cylinder, head and sector.\<close>

definition chs_block :: "nat \<Rightarrow> nat \<Rightarrow> nat \<Rightarrow> nat \<Rightarrow> nat \<Rightarrow> nat" where
  "chs_block nh ns c h sec = (sec - 1) + h * ns + c * nh * ns"

lemma chs_block_less:
  assumes "c < nc" "h < nh" "1 \<le> sec" "sec \<le> ns"
  shows "chs_block nh ns c h sec + 1 \<le> nc * nh * ns"
    and "chs_block nh ns c h sec + 1 = nc * nh * ns \<longleftrightarrow> c = nc - 1 \<and> h = nh - 1 \<and> sec = ns"
proof -
  obtain s0 where s0: "sec = s0 + 1" using assms(3) by (metis add.commute le_iff_add)
  obtain c' where c: "nc = c + 1 + c'" using assms(1) by (metis Suc_eq_plus1 Suc_leI le_iff_add)
  obtain h' where h: "nh = h + 1 + h'" using assms(2) by (metis Suc_eq_plus1 Suc_leI le_iff_add)
  obtain s' where s: "ns = sec + s'" using assms(4) by (metis le_iff_add)
  note e = c h s
  have "(c + 1 + c') * nh * ns = s0 + h * ns + c * nh * ns + 1 + (c' * nh * ns + h' * ns + s')"
    unfolding h s s0 by (simp add: algebra_simps)
  then have eq: "nc * nh * ns = chs_block nh ns c h sec + 1 + (c' * nh * ns + h' * ns + s')"
    by (simp add: c chs_block_def s0)
  then show "chs_block nh ns c h sec + 1 \<le> nc * nh * ns" by simp
  have "chs_block nh ns c h sec + 1 = nc * nh * ns \<longleftrightarrow> c' * nh * ns + h' * ns + s' = 0" unfolding eq by simp
  also have "\<dots> \<longleftrightarrow> c' = 0 \<and> h' = 0 \<and> s' = 0" using assms by auto
  also have "\<dots> \<longleftrightarrow> c = nc - 1 \<and> h = nh - 1 \<and> sec = ns" using e by auto
  finally show "chs_block nh ns c h sec + 1 = nc * nh * ns \<longleftrightarrow> c = nc - 1 \<and> h = nh - 1 \<and> sec = ns" .
qed

text \<open>
  of the blocks that exist, the BIOS read and write services refuse exactly one single-block
  request: that for the last sector of the last head of the last cylinder.  The range test asks
  for one block more than is transferred.
\<close>

theorem bios_refuses_last_block:
  assumes "ide_blocks v = cylinders v * heads v * sectors v"
    and "unat (cylinders v) * unat (heads v) * unat (sectors v) < 4294967296"
    and "cyl < cylinders v" and "hno < heads v" and "1 \<le> sec" and "sec \<le> sectors v"
  shows "bad_request v 0 hno cyl sec 1 \<longleftrightarrow>
    cyl = cylinders v - 1 \<and> hno = heads v - 1 \<and> sec = sectors v"
proof -
  let ?b = "chs_block (unat (heads v)) (unat (sectors v)) (unat cyl) (unat hno) (unat sec)"
  let ?n = "unat (cylinders v) * unat (heads v) * unat (sectors v)"
  have lt: "unat cyl < unat (cylinders v)" "unat hno < unat (heads v)" "1 \<le> unat sec" "unat sec \<le> unat (sectors v)"
    using assms(3-6) by (simp_all add: word_less_nat_alt word_le_nat_alt)
  note cb = chs_block_less[OF lt]
  have "(of_nat ?b :: u32) + 1 = (sec - 1) + hno * sectors v + cyl * heads v * sectors v + 1"
    using lt(3) by (simp add: chs_block_def of_nat_diff)
  then have w: "(sec - 1) + hno * sectors v + cyl * heads v * sectors v + of_int 1 = (of_nat (?b + 1) :: u32)" by (simp add: add.commute)
  have n: "ide_blocks v = of_nat ?n" using assms(1) by simp
  have "ide_blocks v \<le> of_nat (?b + 1) \<longleftrightarrow> ?b + 1 = ?n"
    using cb(1) assms(2) unfolding n by (simp add: word_le_nat_alt unsigned_of_nat take_bit_nat_eq_self del: of_nat_add of_nat_Suc of_nat_mult) linarith
  moreover have "unat (cylinders v - 1) = unat (cylinders v) - 1" "unat (heads v - 1) = unat (heads v) - 1"
    using lt by (simp_all add: unat_sub word_le_nat_alt)
  ultimately show ?thesis
    unfolding bad_request_def w using assms(4-6) assms(3) cb(2) by (auto simp: word_unat_eq_iff not_less not_le)
qed

theorem bios_refuses_last_block_witness:
  "bad_request demo_vide 0 1 1 10 1 \<and> \<not> bad_request demo_vide 0 1 1 9 1"
  using bios_refuses_last_block[of demo_vide 1 1 10] bios_refuses_last_block[of demo_vide 1 1 9]
  by (simp add: demo_vide_def)

end
