(* ===== verification/CmosProps.thy ===== *)
theory CmosProps
  imports DemoMachine DeviceSafety
begin

text \<open>
  The virtual CMOS memory and clock: the clock's time of day counts seconds modulo a day, in BCD and in
  binary, and a byte stored by the devices keeps the checksum the BIOS tests.
\<close>

unbundle bit_operations_syntax

section \<open>BCD\<close>

lemma bcd_round_trip_all: "list_all (\<lambda>n. BCD_TO_BIN (BIN_TO_BCD (of_nat n)) = of_nat n) [0..<100]"
  by code_simp

lemma bcd_round_trip: "x < 100 \<Longrightarrow> BCD_TO_BIN (BIN_TO_BCD x) = x"
  using bcd_round_trip_all by (auto simp: list_all_iff word_less_nat_alt dest!: bspec[of _ _ "unat x"])

section \<open>The time of day\<close>

text \<open>A register as the control register says it is encoded.\<close>

definition rtc_value :: "u8 list \<Rightarrow> u8 \<Rightarrow> u8" where
  "rtc_value p x = (if test_mask (p ! RTC_CONTROL) RTC_DM_BINARY then x else BCD_TO_BIN x)"

definition valid_time :: "u8 list \<Rightarrow> bool" where
  "valid_time p \<longleftrightarrow> length p = 64 \<and> \<not> test_mask (p ! RTC_CONTROL) RTC_SET
     \<and> rtc_value p (p ! RTC_HOURS) < 24 \<and> rtc_value p (p ! RTC_MINUTES) < 60 \<and> rtc_value p (p ! RTC_SECONDS) < 60"

definition time_of_day :: "u8 list \<Rightarrow> nat" where
  "time_of_day p = (unat (rtc_value p (p ! RTC_HOURS)) * 60 + unat (rtc_value p (p ! RTC_MINUTES))) * 60
     + unat (rtc_value p (p ! RTC_SECONDS))"

definition date_regs :: "u8 list \<Rightarrow> u8 list" where
  "date_regs p = map ((!) p) [RTC_DAY_OF_WEEK, RTC_DAY_OF_MONTH, RTC_MONTH, RTC_YEAR, 0x32]"

text \<open>Only some registers matter to the time.\<close>

lemma time_cong:
  assumes "length q = length p" and "\<And>i. i \<in> {RTC_SECONDS, RTC_MINUTES, RTC_HOURS, RTC_CONTROL} \<Longrightarrow> q ! i = p ! i"
  shows "valid_time q = valid_time p" and "time_of_day q = time_of_day p"
  using assms by (simp_all add: valid_time_def time_of_day_def rtc_value_def)

lemma time_list_update:
  assumes "i \<notin> {RTC_SECONDS, RTC_MINUTES, RTC_HOURS, RTC_CONTROL}"
  shows "valid_time (p[i := x]) = valid_time p" and "time_of_day (p[i := x]) = time_of_day p"
proof -
  have n: "p[i := x] ! j = p ! j" if "j \<in> {RTC_SECONDS, RTC_MINUTES, RTC_HOURS, RTC_CONTROL}" for j
    by (rule nth_list_update_neq) (use assms that in blast)
  show "valid_time (p[i := x]) = valid_time p" "time_of_day (p[i := x]) = time_of_day p"
    using time_cong[of "p[i := x]" p, OF _ n] by simp_all
qed

lemma rtc_date_time: "j \<in> {RTC_SECONDS, RTC_MINUTES, RTC_HOURS, RTC_CONTROL} \<Longrightarrow> rtc_date beyond p ! j = p ! j"
proof -
  assume j: "j \<in> {RTC_SECONDS, RTC_MINUTES, RTC_HOURS, RTC_CONTROL}"
  have if4: "snd (snd (snd (if a then (x1, x2, x3, p) else if b then (y1, y2, y3, p)
      else if c then (z1, z2, z3, p) else (w1, w2, w3, p[0x32 := v])))) ! j = p ! j"
    for a b c x1 x2 x3 y1 y2 y3 z1 z2 z3 w1 w2 w3 v using j by auto
  have upd: "q[6 := a, 7 := b, 8 := c, 9 := d] ! j = q ! j" for q :: "u8 list" and a b c d using j by auto
  show ?thesis unfolding rtc_date_def Let_def split_beta upd by (rule if4)
qed

lemma time_set:
  assumes "length p = 64" and "\<not> test_mask (p ! RTC_CONTROL) RTC_SET" and "h < 24" "mi < 60" "s < 60"
  defines "enc \<equiv> \<lambda>x. if \<not> test_mask (p ! RTC_CONTROL) RTC_DM_BINARY then BIN_TO_BCD x else x"
  defines "q \<equiv> p[RTC_HOURS := enc h, RTC_MINUTES := enc mi, RTC_SECONDS := enc s]"
  shows "valid_time q \<and> time_of_day q = (unat h * 60 + unat mi) * 60 + unat s \<and> q ! RTC_CONTROL = p ! RTC_CONTROL"
proof -
  have v: "(if test_mask (p ! RTC_CONTROL) RTC_DM_BINARY then enc x else BCD_TO_BIN (enc x)) = x" if "x < 100" for x
    using that by (simp add: enc_def bcd_round_trip)
  have "h < 100" "mi < 100" "s < 100" using assms(3-5) by (auto simp: word_less_nat_alt)
  then show ?thesis
    using assms(1-5) v by (simp add: q_def valid_time_def time_of_day_def rtc_value_def)
qed

lemma rtc_tick_time:
  assumes "valid_time p"
  shows "valid_time (rtc_tick beyond p) \<and> time_of_day (rtc_tick beyond p) = (time_of_day p + 1) mod 86400
    \<and> rtc_tick beyond p ! RTC_CONTROL = p ! RTC_CONTROL \<and> (time_of_day p \<noteq> 86399 \<longrightarrow> date_regs (rtc_tick beyond p) = date_regs p)"
proof -
  define enc where "enc = (\<lambda>x. if \<not> test_mask (p ! RTC_CONTROL) RTC_DM_BINARY then BIN_TO_BCD x else x)"
  define h where "h = rtc_value p (p ! RTC_HOURS)"
  define mi where "mi = rtc_value p (p ! RTC_MINUTES)"
  define s where "s = rtc_value p (p ! RTC_SECONDS)"
  have b: "unat h < 24" "unat mi < 60" "unat s < 60" and len: "length p = 64" "\<not> test_mask (p ! RTC_CONTROL) RTC_SET"
    using assms by (simp_all add: valid_time_def h_def mi_def s_def word_less_nat_alt)
  have inc: "unat (s + 1) = unat s + 1" "unat (mi + 1) = unat mi + 1" "unat (h + 1) = unat h + 1"
    using b by (simp_all add: unat_word_ariths)
  have m: "(s + 1) mod 60 = 0 \<longleftrightarrow> unat s = 59" "(mi + 1) mod 60 = 0 \<longleftrightarrow> unat mi = 59" "(h + 1) mod 24 = 0 \<longleftrightarrow> unat h = 23"
    using b inc by (auto simp: word_unat_eq_iff unat_mod_distrib dest!: dvd_imp_le)
  have t: "time_of_day p = (unat h * 60 + unat mi) * 60 + unat s" by (simp add: time_of_day_def h_def mi_def s_def)
  define X where "X = (if unat s \<noteq> 59 then (h, mi, s + 1, p) else if unat mi \<noteq> 59 then (h, mi + 1, 0, p)
    else if unat h \<noteq> 23 then (h + 1, 0, 0, p) else (0, 0, 0, rtc_date beyond p))"
  obtain h' mi' s' q where X: "X = (h', mi', s', q)" by (cases X)
  have tick: "rtc_tick beyond p = q[RTC_HOURS := enc h', RTC_MINUTES := enc mi', RTC_SECONDS := enc s']"
  proof -
    have d: "(if \<not> test_mask (p ! RTC_CONTROL) RTC_DM_BINARY then BCD_TO_BIN x else x) = rtc_value p x" for x
      by (simp add: rtc_value_def)
    have "rtc_tick beyond p = (case X of (h', mi', s', q) \<Rightarrow> q[RTC_HOURS := enc h', RTC_MINUTES := enc mi', RTC_SECONDS := enc s'])"
      unfolding rtc_tick_def Let_def by (simp only: d h_def[symmetric] mi_def[symmetric] s_def[symmetric] m X_def enc_def)
    then show ?thesis by (simp add: X)
  qed
  have q: "length q = 64" "q ! RTC_CONTROL = p ! RTC_CONTROL"
    using X len(1) rtc_date_time[of RTC_CONTROL] by (auto simp: X_def split: if_splits)
  have b': "h' < 24" "mi' < 60" "s' < 60"
    using X b inc by (auto simp: X_def word_less_nat_alt split: if_splits)
  have "(unat h' * 60 + unat mi') * 60 + unat s' = (time_of_day p + 1) mod 86400"
    using X b inc t by (auto simp: X_def split: if_splits)
  moreover have "time_of_day p \<noteq> 86399 \<longrightarrow> q = p"
    using X b t by (auto simp: X_def split: if_splits)
  moreover have "valid_time (rtc_tick beyond p) \<and> time_of_day (rtc_tick beyond p) = (unat h' * 60 + unat mi') * 60 + unat s'
      \<and> rtc_tick beyond p ! RTC_CONTROL = p ! RTC_CONTROL"
    unfolding tick using time_set[OF q(1) _ b'] len(2) q(2) by (simp add: enc_def)
  ultimately show ?thesis by (auto simp: date_regs_def tick)
qed


lemma rtc_step_time:
  assumes "valid_time p"
  shows "valid_time (fst (rtc_step beyond p)) \<and> time_of_day (fst (rtc_step beyond p)) = (time_of_day p + 1) mod 86400
    \<and> (time_of_day p \<noteq> 86399 \<longrightarrow> date_regs (fst (rtc_step beyond p)) = date_regs p)"
proof -
  let ?p = "p[RTC_REG_A := p ! RTC_REG_A OR RTC_UIP]"
  have keep: "valid_time (q[i := x]) = valid_time q" "time_of_day (q[i := x]) = time_of_day q"
    "date_regs (q[i := x]) = date_regs q" if "i \<in> {RTC_REG_A, RTC_INTR_FLAGS}" for q i x
    using that time_list_update[of i q x] by (auto simp: date_regs_def)
  have flags: "valid_time (fst (rtc_flags q)) = valid_time q" "time_of_day (fst (rtc_flags q)) = time_of_day q"
    "date_regs (fst (rtc_flags q)) = date_regs q" for q
    by (simp_all add: rtc_flags_def Let_def keep)
  have "fst (rtc_step beyond p) = (let p2 = fst (rtc_flags (rtc_tick beyond ?p)) in p2[RTC_REG_A := p2 ! RTC_REG_A AND NOT RTC_UIP])"
    using assms by (simp add: rtc_step_def valid_time_def Let_def split_beta)
  then show ?thesis using rtc_tick_time[of ?p beyond] assms by (simp add: Let_def keep flags)
qed

text \<open>The memory after \<open>n\<close> updates.\<close>

definition rtc_run :: "(nat \<Rightarrow> int) \<Rightarrow> nat \<Rightarrow> u8 list \<Rightarrow> u8 list" where
  "rtc_run beyond n = (\<lambda>p. fst (rtc_step beyond p)) ^^ n"

text \<open>
  the clock keeps time.  Started from a valid time in either encoding, \<open>n\<close> updates advance the time
  of day by \<open>n\<close> seconds modulo a day and leave it valid; the date registers stay as they are unless
  midnight is passed.
\<close>

theorem clock_counts_seconds:
  assumes "valid_time p"
  shows "valid_time (rtc_run beyond n p) \<and> time_of_day (rtc_run beyond n p) = (time_of_day p + n) mod 86400
    \<and> (time_of_day p + n < 86400 \<longrightarrow> date_regs (rtc_run beyond n p) = date_regs p)"
proof -
  have day: "time_of_day p < 86400" if "valid_time p" for p
    using that by (auto simp: valid_time_def time_of_day_def word_less_nat_alt)
  show ?thesis
  proof (induction n)
    case (Suc n)
    then have v: "valid_time (rtc_run beyond n p)" by simp
    have "rtc_run beyond (Suc n) p = fst (rtc_step beyond (rtc_run beyond n p))" by (simp add: rtc_run_def)
    with rtc_step_time[OF v, of beyond] Suc show ?case by (auto simp: mod_Suc_eq)
  qed (use assms day in \<open>simp add: rtc_run_def\<close>)
qed

definition demo_cmos :: "u8 list" where
  "demo_cmos = (replicate 64 0)[RTC_HOURS := 0x23, RTC_MINUTES := 0x59, RTC_SECONDS := 0x58, RTC_CONTROL := 2]"

theorem clock_counts_seconds_witness:
  "time_of_day (rtc_run (\<lambda>_. 31) 86403 demo_cmos) = 1"
proof -
  have "valid_time demo_cmos" "time_of_day demo_cmos = 86398"
    by (simp_all add: demo_cmos_def valid_time_def time_of_day_def rtc_value_def BCD_TO_BIN_def)
  then show ?thesis using clock_counts_seconds[of demo_cmos "\<lambda>_. 31" 86403] by simp
qed


section \<open>The checksum\<close>

text \<open>The word the BIOS expects at 0x2E and 0x2F, high byte first.\<close>

definition checksum_ok :: "u8 list \<Rightarrow> bool" where
  "checksum_ok p \<longleftrightarrow> 256 * unat (p ! 0x2E) + unat (p ! 0x2F) = sum_list (map (\<lambda>i. unat (p ! i)) [0x10..<0x2e])"

lemma fold_plus_map: "fold (\<lambda>i c. c + f i) xs a = a + sum_list (map f xs)" for a :: "'a :: comm_monoid_add"
  by (induction xs arbitrary: a) (simp_all add: ac_simps)

lemma and_ff: "(x :: u16) AND 0xff = take_bit 8 x"
  by (simp add: take_bit_eq_mask mask_eq_exp_minus_1)

lemma checksum_recalc:
  assumes "length (cmos_mem v) = 64"
  shows "checksum_ok (cmos_mem (recalc_checksum v))"
proof -
  let ?p = "cmos_mem v"
  define n where "n = sum_list (map (\<lambda>i. unat (?p ! i)) [0x10..<0x2e])"
  have "sum_list (map (\<lambda>i. unat (?p ! i)) xs) \<le> 255 * length xs" for xs
  proof (induction xs)
    case (Cons x xs)
    have "unat (?p ! x) < 2 ^ LENGTH(8)" by (rule unsigned_less)
    then show ?case using Cons by simp
  qed simp
  from this[of "[0x10..<0x2e]"] have n: "n \<le> 7650" unfolding n_def by simp
  have "sum_list (map (\<lambda>i. ucast (?p ! i) :: u16) xs) = of_nat (sum_list (map (\<lambda>i. unat (?p ! i)) xs))" for xs
    by (induction xs) simp_all
  then have c: "fold (\<lambda>i c. c + ucast (?p ! i)) [0x10..<0x2e] (0::u16) = of_nat n"
    unfolding fold_plus_map n_def by simp
  have hi: "unat (ucast (drop_bit 8 (of_nat n :: u16) AND 0xff) :: u8) = n div 256"
    and lo: "unat (ucast ((of_nat n :: u16) AND 0xff) :: u8) = n mod 256"
    using n by (simp_all add: and_ff unsigned_ucast_eq unsigned_take_bit_eq unat_drop_bit_eq unsigned_of_nat
        take_bit_nat_eq_self take_bit_eq_mod drop_bit_eq_div unat_div_distrib unat_mod_distrib)
  have same: "map (\<lambda>i. unat (cmos_mem (recalc_checksum v) ! i)) [0x10..<0x2e] = map (\<lambda>i. unat (?p ! i)) [0x10..<0x2e]"
    by (rule map_cong) (auto simp: recalc_checksum_def Let_def)
  have "cmos_mem (recalc_checksum v) ! 0x2E = ucast (drop_bit 8 (of_nat n :: u16) AND 0xff)"
    "cmos_mem (recalc_checksum v) ! 0x2F = ucast ((of_nat n :: u16) AND 0xff)"
    using assms c by (simp_all add: recalc_checksum_def Let_def)
  then show ?thesis using hi lo unfolding checksum_ok_def same n_def[symmetric] by simp
qed


text \<open>
  a device that stores a configuration byte reads it back, changes no other byte but the two of the
  checksum, and leaves the checksum right: the 16-bit sum of the bytes 0x10 to 0x2D.
\<close>

theorem set_byte_keeps_checksum:
  assumes "slot_vcmos s = Some v" and "length (cmos_mem v) = 64" and "addr < 0x3f" and "addr \<noteq> 0x2e" "addr \<noteq> 0x2f"
  shows "get_vcmos_byte addr (set_vcmos_byte addr val s) = val
    \<and> (\<forall>a. a \<notin> {addr, 0x2e, 0x2f} \<longrightarrow> get_vcmos_byte a (set_vcmos_byte addr val s) = get_vcmos_byte a s)
    \<and> checksum_ok (cmos_mem (the (slot_vcmos (set_vcmos_byte addr val s))))"
proof -
  let ?v = "v\<lparr>cmos_mem := (cmos_mem v)[unat addr := val]\<rparr>"
  have a: "unat addr < 63" "unat addr \<noteq> 0x2E" "unat addr \<noteq> 0x2F"
    using assms(3-5) by (auto simp: word_less_nat_alt word_unat_eq_iff)
  then have slot: "slot_vcmos (set_vcmos_byte addr val s) = Some (recalc_checksum ?v)"
    using assms(1-3) by (simp add: set_vcmos_byte_def)
  have r: "cmos_mem (recalc_checksum w) ! i = cmos_mem w ! i" if "i \<noteq> 0x2E" "i \<noteq> 0x2F" for w i
    using that by (simp add: recalc_checksum_def Let_def)
  have b: "get_vcmos_byte b (set_vcmos_byte addr val s) = get_vcmos_byte b s" if "b \<notin> {addr, 0x2e, 0x2f}" for b
    using that r[of "unat b" ?v] by (simp add: get_vcmos_byte_def slot assms(1) word_unat_eq_iff)
  show ?thesis
    using a assms(2,3) r[of "unat addr" ?v] b checksum_recalc[of ?v] by (simp add: get_vcmos_byte_def slot)
qed

theorem set_byte_keeps_checksum_witness:
  "get_vcmos_byte 0x12 (set_vcmos_byte 0x12 0xF0 (demo_machine\<lparr>slot_vcmos := Some \<lparr>cmos_mem = demo_cmos, cmos_reg = 0\<rparr>\<rparr>)) = 0xF0"
proof -
  have "length demo_cmos = 64" by (simp add: demo_cmos_def)
  then show ?thesis
    using set_byte_keeps_checksum[where s = "demo_machine\<lparr>slot_vcmos := Some \<lparr>cmos_mem = demo_cmos, cmos_reg = 0\<rparr>\<rparr>"
      and addr = "0x12" and val = "0xF0"] by simp
qed

end
