(* ===== verification/DmaProps.thy ===== *)
theory DmaProps
  imports DemoMachine DeviceSafety
begin

text \<open>
  The address registers of the virtual DMA controllers: what the guest writes in two bytes it reads
  back, but the first byte is taken for the high one.
\<close>

unbundle bit_operations_syntax

text \<open>The port of the address register of channel \<open>i\<close> of controller \<open>k\<close>, and that register.\<close>

definition addr_port :: "nat \<Rightarrow> nat \<Rightarrow> u16" where
  "addr_port k i = (if k = 0 then of_nat (2 * i) else 0xC0 + of_nat (4 * i))"

definition addr_chan :: "nat \<Rightarrow> nat \<Rightarrow> 'a vdmas_scheme \<Rightarrow> dma_chan" where
  "addr_chan k i s = chan (dmac (the (slot_vdma s)) ! k) ! i"

lemma addr_port_reg:
  assumes "k < 2" and "i < 4"
  shows "dma_port_of (addr_port k i) = CtrlReg k (of_nat (2 * i))"
    and "(of_nat (2 * i) :: u16) < 8" "(of_nat (2 * i) :: u16) mod 2 = 0" "unat ((of_nat (2 * i) :: u16) div 2) = i"
proof -
  have "k = 0 \<or> k = 1" "i = 0 \<or> i = 1 \<or> i = 2 \<or> i = 3" using assms by auto
  then show "dma_port_of (addr_port k i) = CtrlReg k (of_nat (2 * i))"
    and "(of_nat (2 * i) :: u16) < 8" "(of_nat (2 * i) :: u16) mod 2 = 0" "unat ((of_nat (2 * i) :: u16) div 2) = i"
    by (auto simp: dma_port_of_def addr_port_def)
qed

text \<open>One write and one read of the register.\<close>

lemma addr_out:
  assumes "dma_ok (slot_vdma s)" and "slot_vdma s \<noteq> None" and "k < 2" and "i < 4"
  shows "addr_chan k i (vdma_out (addr_port k i) 1 val s) =
      (addr_chan k i s)\<lparr>chan_address := write_half (addr_l (addr_chan k i s)) val (chan_address (addr_chan k i s)),
                        addr_l := \<not> addr_l (addr_chan k i s)\<rparr>"
    and "slot_vdma (vdma_out (addr_port k i) 1 val s) \<noteq> None" "dma_ok (slot_vdma (vdma_out (addr_port k i) 1 val s))"
proof -
  obtain v where v: "slot_vdma s = Some v" using assms(2) by auto
  have len: "k < length (dmac v)" "i < length (chan (dmac v ! k))"
    using assms(1,3,4) v dma_nth by (auto simp: dma_ok_def)
  note p = addr_port_reg[OF assms(3,4)]
  show "addr_chan k i (vdma_out (addr_port k i) 1 val s) =
      (addr_chan k i s)\<lparr>chan_address := write_half (addr_l (addr_chan k i s)) val (chan_address (addr_chan k i s)),
                        addr_l := \<not> addr_l (addr_chan k i s)\<rparr>"
    using v len p by (simp add: addr_chan_def vdma_out_def dma_write_def upd_dmac_def upd_chan_def)
  show "slot_vdma (vdma_out (addr_port k i) 1 val s) \<noteq> None"
    using v p by (simp add: vdma_out_def)
  show "dma_ok (slot_vdma (vdma_out (addr_port k i) 1 val s))" by (rule dma_ok_vdma_out) (rule assms(1))
qed

lemma addr_in:
  assumes "dma_ok (slot_vdma s)" and "slot_vdma s \<noteq> None" and "k < 2" and "i < 4"
  shows "fst (vdma_in (addr_port k i) 1 s) = read_half (addr_l (addr_chan k i s)) (chan_address (addr_chan k i s))"
    and "addr_chan k i (snd (vdma_in (addr_port k i) 1 s)) = (addr_chan k i s)\<lparr>addr_l := \<not> addr_l (addr_chan k i s)\<rparr>"
    and "slot_vdma (snd (vdma_in (addr_port k i) 1 s)) \<noteq> None" "dma_ok (slot_vdma (snd (vdma_in (addr_port k i) 1 s)))"
proof -
  obtain v where v: "slot_vdma s = Some v" using assms(2) by auto
  have len: "k < length (dmac v)" "i < length (chan (dmac v ! k))"
    using assms(1,3,4) v dma_nth by (auto simp: dma_ok_def)
  note p = addr_port_reg[OF assms(3,4)]
  show "fst (vdma_in (addr_port k i) 1 s) = read_half (addr_l (addr_chan k i s)) (chan_address (addr_chan k i s))"
    and "addr_chan k i (snd (vdma_in (addr_port k i) 1 s)) = (addr_chan k i s)\<lparr>addr_l := \<not> addr_l (addr_chan k i s)\<rparr>"
    using v len p by (simp_all add: addr_chan_def vdma_in_def dma_read_def Let_def upd_dmac_def upd_chan_def)
  show "slot_vdma (snd (vdma_in (addr_port k i) 1 s)) \<noteq> None"
    using v p by (simp add: vdma_in_def split_beta Let_def)
  show "dma_ok (slot_vdma (snd (vdma_in (addr_port k i) 1 s)))" by (rule dma_ok_vdma_in) (rule assms(1))
qed

lemma bit_ff: "bit (0xff :: int) n \<longleftrightarrow> n < 8" "bit (0xff00 :: int) n \<longleftrightarrow> 8 \<le> n \<and> n < 16"
proof -
  have eq: "(0xff :: int) = take_bit 8 (-1)" "(0xff00 :: int) = push_bit 8 (take_bit 8 (-1))"
    by (simp_all add: mask_eq_exp_minus_1)
  show "bit (0xff :: int) n \<longleftrightarrow> n < 8" "bit (0xff00 :: int) n \<longleftrightarrow> 8 \<le> n \<and> n < 16"
    unfolding eq by (auto simp only: bit_simps) (auto simp: bit_simps)
qed

lemma halves:
  "write_half True b (write_half False a x) = push_bit 8 (ucast (a AND 0xff)) OR ucast (b AND 0xff)"
  "read_half False (push_bit 8 (ucast (a AND 0xff)) OR ucast (b AND 0xff)) = a AND 0xff"
  "read_half True (push_bit 8 (ucast (a AND 0xff)) OR ucast (b AND 0xff)) = b AND 0xff"
  unfolding write_half_def read_half_def
  by (rule bit_word_eqI; auto simp: bit_simps bit_ff)+

text \<open>
  two bytes written to the address register of a channel, its flip-flop clear, are read back in the
  order they were written.  The register holds the first byte as the high one, while the 8237 the
  code stands for, and the guests that program it, take the low byte first.
\<close>

theorem dma_address_high_byte_first:
  fixes a b :: u32
  assumes "dma_ok (slot_vdma s)" and "slot_vdma s \<noteq> None" and "k < 2" and "i < 4"
    and "\<not> addr_l (addr_chan k i s)"
  defines "p \<equiv> addr_port k i"
  defines "s' \<equiv> vdma_out p 1 b (vdma_out p 1 a s)"
  shows "chan_address (addr_chan k i s') = push_bit 8 (ucast (a AND 0xff)) OR ucast (b AND 0xff)
    \<and> fst (vdma_in p 1 s') = a AND 0xff \<and> fst (vdma_in p 1 (snd (vdma_in p 1 s'))) = b AND 0xff"
proof -
  note o1 = addr_out[OF assms(1-4), of a, folded p_def]
  note o2 = addr_out[OF o1(3,2) assms(3,4), of b, folded p_def, folded s'_def]
  note i1 = addr_in[OF o2(3,2) assms(3,4), folded p_def]
  note i2 = addr_in[OF i1(4,3) assms(3,4), folded p_def]
  have c: "addr_chan k i s' = (addr_chan k i s)\<lparr>chan_address := push_bit 8 (ucast (a AND 0xff)) OR ucast (b AND 0xff), addr_l := False\<rparr>"
    using assms(5) unfolding o2(1) o1(1) by (simp add: halves)
  have "fst (vdma_in p 1 s') = a AND 0xff" unfolding i1(1) c by (simp add: halves del: or.commute)
  moreover have "fst (vdma_in p 1 (snd (vdma_in p 1 s'))) = b AND 0xff" unfolding i2(1) i1(2) c by (simp add: halves)
  ultimately show ?thesis by (simp add: c)
qed

definition demo_dma :: vports where
  "demo_dma = demo_machine\<lparr>slot_vdma := Some \<lparr>dmac = [new_dma_ctrl, new_dma_ctrl]\<rparr>\<rparr>"

theorem dma_address_high_byte_first_witness:
  "chan_address (addr_chan 0 2 (vdma_out 4 1 0x12 (vdma_out 4 1 0x34 demo_dma))) = 0x3412"
proof -
  have d: "dma_ok (slot_vdma demo_dma)" "slot_vdma demo_dma \<noteq> None" "\<not> addr_l (addr_chan 0 2 demo_dma)"
    by (simp_all add: demo_dma_def new_dma_ctrl_def new_dma_chan_def addr_chan_def)
  show ?thesis
    using dma_address_high_byte_first[OF d(1,2) _ _ d(3), of "0x12" "0x34"] by (simp add: addr_port_def)
qed

end
