(* ===== verification/VPicProps.thy ===== *)
theory VPicProps
  imports DemoMachine MachineSafety
begin

text \<open>
  Virtual interrupts: the return hook delivers the pending request of the lowest number, and while
  interrupts are enabled and a request is pending the hook is armed, whatever the guest and the
  devices do.  Two defects: initialising a controller loses its vector base, and a request the
  slave masks still reaches the master.
\<close>

unbundle bit_operations_syntax

section \<open>Bit scan forward\<close>

lemma bsf_least:
  fixes w :: "'a::len word"
  assumes "w \<noteq> 0"
  shows "bit w (bsf j w)" "bsf j w < LENGTH('a)" "\<And>k. k < bsf j w \<Longrightarrow> \<not> bit w k"
proof -
  let ?xs = "filter (bit w) [0..<LENGTH('a)]"
  have "?xs \<noteq> []"
  proof
    assume "?xs = []"
    then have "w = 0" by (intro bit_word_eqI) (auto simp: filter_empty_conv)
    then show False using assms by simp
  qed
  then obtain i rest where xs: "?xs = i # rest" by (cases ?xs) auto
  then have b: "bsf j w = i" by (simp add: bsf_def)
  have "i \<in> set ?xs" unfolding xs by simp
  then show "bit w (bsf j w)" "bsf j w < LENGTH('a)" unfolding b by auto
  have s: "sorted ?xs" by (rule sorted_wrt_filter) simp
  fix k assume "k < bsf j w"
  show "\<not> bit w k"
  proof
    assume "bit w k"
    then have "k \<in> set ?xs" by (auto simp: bit_imp_le_length)
    then have "i \<le> k" using s unfolding xs by auto
    then show False using \<open>k < bsf j w\<close> b by simp
  qed
qed

lemma bsf_eq:
  assumes "bit w i" and "\<And>k. k < i \<Longrightarrow> \<not> bit w k" shows "bsf j w = i"
proof -
  have "w \<noteq> 0" using assms(1) by auto
  from bsf_least[OF this] show ?thesis using assms by (metis linorder_neqE_nat)
qed

section \<open>The armed hook\<close>

definition hook_armed :: "'a vpics_scheme \<Rightarrow> bool" where
  "hook_armed s \<longleftrightarrow> return_hook (tasks s (vm_task s)) = Some vpic_return_hook_fn"

definition irq_pending :: "'a vpics_scheme \<Rightarrow> bool" where
  "irq_pending s \<longleftrightarrow> test_mask (virtual_eflags s) FLAGS_IF
     \<and> (\<exists>pair. slot_vpic s = Some pair \<and> irr (master pair) \<noteq> 0)"

inductive irq_step :: "'a vpics_scheme \<Rightarrow> 'a vpics_scheme \<Rightarrow> bool" where
  step_in: "irq_step s (snd (vpic_in port sz s))"
| step_out: "irq_step s (vpic_out port sz val s)"
| step_raise: "irq_step s (simulate_irq irq s)"
| step_mask: "irq_step s (set_mask on m s)"
| step_hook: "irq_step s (snd (vpic_return_hook junk (regs, s)))"
| step_int: "irq_step s (snd (simulate_vm_int vec (regs, s)))"
| step_cli: "gpe_cli (regs, s) = Some (regs', s') \<Longrightarrow> irq_step s s'"
| step_flags: "irq_step s (snd (load_flags (regs, s\<lparr>virtual_eflags := fl\<rparr>)))"
| step_other: "slot_vpic s' = slot_vpic s \<Longrightarrow> virtual_eflags s' = virtual_eflags s \<Longrightarrow> hook_armed s' = hook_armed s
    \<Longrightarrow> irq_step s s'"

lemma hook_set [simp]:
  "hook_armed (set_return_hook (Some vpic_return_hook_fn) s)" "\<not> hook_armed (set_return_hook None s)"
  "slot_vpic (set_return_hook h s) = slot_vpic s" "virtual_eflags (set_return_hook h s) = virtual_eflags s"
  by (simp_all add: hook_armed_def set_return_hook_def upd_task_def)

lemma hook_slot [simp]: "hook_armed (s\<lparr>slot_vpic := p\<rparr>) = hook_armed s"
  by (simp add: hook_armed_def)

lemma pic_irr_kept:
  "irr (fst (pic_command val pic)) = irr pic" "irr (pic_data val pic) = irr pic" "irr (snd (pic_read pic)) = irr pic"
  by (simp_all add: pic_command_def pic_data_def pic_read_def split: pic_state.split)

lemma master_upd_pic: "irr pic = irr (get_pic port pair) \<Longrightarrow> irr (master (upd_pic port pic pair)) = irr (master pair)"
  by (simp add: upd_pic_def get_pic_def)

lemma pending_slot: "irr (master p') = irr (master p) \<Longrightarrow> slot_vpic s = Some p \<Longrightarrow>
    irq_pending (s\<lparr>slot_vpic := Some p'\<rparr>) = irq_pending s"
  by (simp add: irq_pending_def)

lemma simulate_vm_int_IF: "\<not> test_mask (virtual_eflags (snd (simulate_vm_int vec (regs, s)))) FLAGS_IF"
proof -
  have put: "virtual_eflags (put_pd_val pd n v a u) = virtual_eflags u" for pd n v a and u :: "'b vmach_scheme"
  proof -
    have "pmem.more (put_pd_val pd n v a u) = pmem.more u" by (rule pmem_more_put_pd_val)
    then show ?thesis by (cases u, cases "put_pd_val pd n v a u") simp
  qed
  have push: "virtual_eflags (snd (push_far_sp v rs)) = virtual_eflags (snd rs)"
    for v and rs :: "vm86_regs \<times> 'b vmach_scheme"
    by (cases rs) (simp add: push_far_sp_def Let_def put)
  have "(v AND NOT (FLAGS_IF OR FLAGS_TF)) AND FLAGS_IF = 0" for v :: u32
    by (simp add: and.assoc)
  then show ?thesis
    by (simp only: simulate_vm_int_def Let_def split_beta push snd_conv fst_conv vmach.simps) (simp add: push)
qed

lemma install_armed: "irq_pending s \<Longrightarrow> hook_armed (install_return_hook s)"
  by (auto simp: irq_pending_def install_return_hook_def)

lemma irq_step_inv:
  assumes "irq_step s s'" and inv: "irq_pending s \<longrightarrow> hook_armed s"
  shows "irq_pending s' \<longrightarrow> hook_armed s'"
  using assms(1)
proof (cases rule: irq_step.cases)
  case (step_hook junk regs)
  define rs1 where "rs1 = (if deliverable regs s
      then (let (pair, vector) = deliver junk (the (slot_vpic s))
            in simulate_vm_int vector (regs, s\<lparr>slot_vpic := Some pair\<rparr>)) else (regs, s))"
  have eq: "s' = (case slot_vpic (snd rs1) of None \<Rightarrow> snd rs1
       | Some pair \<Rightarrow> (if irr (master pair) = 0 then set_return_hook None (snd rs1) else snd rs1))"
    unfolding step_hook vpic_return_hook_def rs1_def by (simp only: prod.case Let_def split_beta snd_conv fst_conv)
  have "irq_pending (snd rs1) \<longrightarrow> hook_armed (snd rs1)"
    using inv simulate_vm_int_IF by (auto simp: rs1_def split_beta irq_pending_def)
  then show ?thesis
    unfolding eq by (auto simp: irq_pending_def split: option.splits)
next
  case (step_out port sz val)
  show ?thesis
    using inv unfolding step_out vpic_out_def
    by (auto simp: Let_def split_beta install_armed pending_slot master_upd_pic pic_irr_kept split: option.split)
      (auto simp: install_return_hook_def irq_pending_def split: option.splits if_splits)
next
  case (step_raise irq)
  show ?thesis unfolding step_raise simulate_irq_def by (auto simp: Let_def irq_pending_def inv split: option.split)
next
  case (step_cli regs regs')
  then show ?thesis by (auto simp: gpe_cli_def IF_disabled_def irq_pending_def and.assoc)
next
  case (step_flags regs fl)
  show ?thesis
    unfolding step_flags load_flags_def
    by (auto simp: IF_enabled_def IF_disabled_def install_return_hook_def irq_pending_def split: option.splits)
qed (use inv simulate_vm_int_IF in \<open>auto simp: irq_pending_def vpic_in_def set_mask_def Let_def split_beta
      master_upd_pic pic_irr_kept split: option.splits\<close>)


text \<open>
  C14: no interrupt is forgotten.  Along every sequence of port accesses, raised requests, mask changes,
  deliveries, simulated interrupts, CLI, and reloads of the flags (STI's flag change, POPF, IRET),
  whenever the guest has interrupts enabled and the master has a pending request, the hook that
  delivers it on the way back to the guest is armed.
\<close>

theorem pending_irq_keeps_hook:
  assumes "irq_step\<^sup>*\<^sup>* s s'" and "irq_pending s \<longrightarrow> hook_armed s"
    and "slot_vpic s' = Some pair" and "irr (master pair) \<noteq> 0" and "test_mask (virtual_eflags s') FLAGS_IF"
  shows "return_hook (tasks s' (vm_task s')) = Some vpic_return_hook_fn"
proof -
  have "irq_pending s' \<longrightarrow> hook_armed s'"
    using assms(1,2) by (induction rule: rtranclp_induct) (auto dest: irq_step_inv)
  then show ?thesis using assms(3-5) by (auto simp: irq_pending_def hook_armed_def)
qed

definition demo_pic :: vports where
  "demo_pic = demo_machine\<lparr>virtual_eflags := 0x202,
     slot_vpic := Some \<lparr>master = (new_vpic 8 False)\<lparr>mask := 0, link := 4\<rparr>,
                        slave = (new_vpic 0x70 True)\<lparr>link := 2\<rparr>\<rparr>\<rparr>"

lemma demo_pic_simps [simp]:
  "slot_vpic demo_pic = Some \<lparr>master = (new_vpic 8 False)\<lparr>mask := 0, link := 4\<rparr>,
     slave = (new_vpic 0x70 True)\<lparr>link := 2\<rparr>\<rparr>"
  "virtual_eflags demo_pic = 0x202" "hlted demo_pic = False"
  by (simp_all add: demo_pic_def) (simp add: demo_machine_def)

lemma slot_simulate_irq: "slot_vpic (simulate_irq irq s) = map_option (raise_irq irq) (slot_vpic s)"
proof -
  have "slot_vpic (wake_task t u) = slot_vpic u" for t and u :: "'a vpics_scheme"
    by (rule vpic_of_more, rule more_timers_vmach, rule more_sched_timers, rule sched_more_wake_task)
  then show ?thesis by (simp add: simulate_irq_def Let_def split: option.split)
qed

lemma eflags_simulate_irq: "virtual_eflags (simulate_irq irq s) = virtual_eflags s"
proof -
  have "virtual_eflags (wake_task t u) = virtual_eflags u" for t and u :: "'a vpics_scheme"
    using vmach_of_more[OF more_sched_timers[OF sched_more_wake_task[of t u]]] by simp
  then show ?thesis by (simp add: simulate_irq_def Let_def split: option.split)
qed

theorem pending_irq_keeps_hook_witness:
  "return_hook (tasks (simulate_irq 1 demo_pic) (vm_task (simulate_irq 1 demo_pic))) = Some vpic_return_hook_fn"
proof (rule pending_irq_keeps_hook[where s = demo_pic], rule r_into_rtranclp, rule step_raise)
  show "irq_pending demo_pic \<longrightarrow> hook_armed demo_pic" by (simp add: irq_pending_def new_vpic_def)
  show "slot_vpic (simulate_irq 1 demo_pic) = Some (raise_irq 1 (the (slot_vpic demo_pic)))"
    by (simp add: slot_simulate_irq)
  show "irr (master (raise_irq 1 (the (slot_vpic demo_pic)))) \<noteq> 0"
    by (simp add: raise_irq_def new_vpic_def)
  show "test_mask (virtual_eflags (simulate_irq 1 demo_pic)) FLAGS_IF" by (simp add: eflags_simulate_irq)
qed

section \<open>Delivery\<close>

lemma vmach_more_simulate_vm_int: "vmach.more (snd (simulate_vm_int vec (r, s))) = vmach.more s"
proof -
  have p: "vmach.more (snd (push_far_sp v rs)) = vmach.more (snd rs)" for v and rs :: "vm86_regs \<times> 'a vmach_scheme"
    by (cases rs) (simp add: push_far_sp_def Let_def vmach_more_of_pmem[OF pmem_more_put_pd_val])
  show ?thesis
    by (simp add: simulate_vm_int_def Let_def split_beta p)
qed

lemma slot_simulate_vm_int [simp]: "slot_vpic (snd (simulate_vm_int vec (r, s))) = slot_vpic s"
  by (rule vpic_of_more) (rule vmach_more_simulate_vm_int)

lemma hook_delivers:
  assumes "deliverable regs s" "slot_vpic s = Some pair" "deliver junk pair = (pair', vec)"
  defines "s' \<equiv> s\<lparr>slot_vpic := Some pair'\<rparr>"
  shows "fst (vpic_return_hook junk (regs, s)) = fst (simulate_vm_int vec (regs, s'))"
    and "slot_vpic (snd (vpic_return_hook junk (regs, s))) = Some pair'"
    and "\<not> test_mask (virtual_eflags (snd (vpic_return_hook junk (regs, s)))) FLAGS_IF"
proof -
  let ?t = "snd (simulate_vm_int vec (regs, s'))"
  have "vpic_return_hook junk (regs, s) = (fst (simulate_vm_int vec (regs, s')),
      if irr (master pair') = 0 then set_return_hook None ?t else ?t)"
    using assms by (simp add: vpic_return_hook_def split_beta Let_def)
  then show "fst (vpic_return_hook junk (regs, s)) = fst (simulate_vm_int vec (regs, s'))"
    and "slot_vpic (snd (vpic_return_hook junk (regs, s))) = Some pair'"
    and "\<not> test_mask (virtual_eflags (snd (vpic_return_hook junk (regs, s)))) FLAGS_IF"
    using simulate_vm_int_IF[of vec regs s'] by (simp_all add: s'_def)
qed

text \<open>
  C28: On the way back to a guest with interrupts enabled and none in service, the hook delivers the
  pending request of the lowest number.  For a line of the master other than the cascade the guest
  continues at the handler of vector base + i with interrupts disabled, request i moves from the
  request to the in-service register, and every other request stays pending.  When the line is the
  one the slave hangs on and the slave has a request (IRQ 8 to 15), the slave's request of the lowest
  number is delivered with the slave's base: both controllers have theirs in service, the slave's
  other requests stay pending, and while there are any the master's line for the slave is requested
  again (with the requests the master masks dropped).  The cascade line without a request of the
  slave is not covered: \<open>masked_slave_irq_spurious\<close> shows what happens then.
\<close>

theorem hook_delivers_lowest:
  assumes "deliverable regs s" and "slot_vpic s = Some pair"
    and "bit (irr (master pair)) i" and "\<And>k. k < i \<Longrightarrow> \<not> bit (irr (master pair)) k"
    and "link (master pair) = irq_bit i \<Longrightarrow> bit (irr (slave pair)) j \<and> (\<forall>k<j. \<not> bit (irr (slave pair)) k)"
  shows "\<exists>pair'. fst (vpic_return_hook junk (regs, s)) =
      fst (simulate_vm_int (if link (master pair) = irq_bit i then ucast (base (slave pair)) + of_nat j
        else ucast (base (master pair)) + of_nat i) (regs, s\<lparr>slot_vpic := Some pair'\<rparr>))
    \<and> slot_vpic (snd (vpic_return_hook junk (regs, s))) = Some pair'
    \<and> \<not> test_mask (virtual_eflags (snd (vpic_return_hook junk (regs, s)))) FLAGS_IF
    \<and> isr (master pair') = irq_bit i
    \<and> (if link (master pair) = irq_bit i
       then isr (slave pair') = irq_bit j
         \<and> (\<forall>k. bit (irr (slave pair')) k \<longleftrightarrow> k \<noteq> j \<and> bit (irr (slave pair)) k)
         \<and> (\<forall>k. bit (irr (master pair')) k \<longleftrightarrow>
              (if irr (slave pair') = 0 then k \<noteq> i \<and> bit (irr (master pair)) k
               else (k \<noteq> i \<and> bit (irr (master pair)) k \<or> k = unat (link (slave pair)) \<and> k < 8) \<and> \<not> bit (mask (master pair)) k))
       else slave pair' = slave pair \<and> (\<forall>k. bit (irr (master pair')) k \<longleftrightarrow> k \<noteq> i \<and> bit (irr (master pair)) k))"
proof -
  let ?m = "(master pair)\<lparr>irr := irr (master pair) AND NOT (irq_bit i), isr := irq_bit i\<rparr>"
  let ?sl = "(slave pair)\<lparr>irr := irr (slave pair) AND NOT (irq_bit j), isr := irq_bit j\<rparr>"
  have mb: "bsf 0 (irr (master pair)) = i" by (rule bsf_eq[OF assms(3,4)])
  have cl: "bit (r AND NOT (irq_bit n)) k \<longleftrightarrow> k \<noteq> n \<and> bit r k" for r :: u8 and n k
    by (auto simp: bit_simps dest: bit_imp_le_length)
  show ?thesis
  proof (cases "link (master pair) = irq_bit i")
    case False
    then have "deliver junk pair = (pair\<lparr>master := ?m\<rparr>, ucast (base (master pair)) + of_nat i)"
      using mb by (simp add: deliver_def Let_def)
    from hook_delivers[OF assms(1,2) this] show ?thesis
      using False cl by (intro exI[of _ "pair\<lparr>master := ?m\<rparr>"]) simp
  next
    case True
    have sb: "bsf junk (irr (slave pair)) = j" by (rule bsf_eq) (use assms(5)[OF True] in auto)
    define m' where "m' = (if irr ?sl \<noteq> 0 then ?m\<lparr>irr := (irr ?m OR irq_bit (unat (link ?sl))) AND NOT (mask ?m)\<rparr> else ?m)"
    have "deliver junk pair = (pair\<lparr>master := m', slave := ?sl\<rparr>, ucast (base (slave pair)) + of_nat j)"
      using True mb sb by (simp add: deliver_def Let_def m'_def)
    note h = hook_delivers[OF assms(1,2) this]
    have "isr m' = irq_bit i" by (simp add: m'_def)
    moreover have "bit (irr m') k \<longleftrightarrow> (if irr ?sl = 0 then k \<noteq> i \<and> bit (irr (master pair)) k
        else (k \<noteq> i \<and> bit (irr (master pair)) k \<or> k = unat (link (slave pair)) \<and> k < 8) \<and> \<not> bit (mask (master pair)) k)" for k
      using cl[of "irr (master pair)" i k]
      by (auto simp: m'_def bit_simps dest: bit_imp_le_length)
    ultimately show ?thesis
      using True h cl by (intro exI[of _ "pair\<lparr>master := m', slave := ?sl\<rparr>"]) simp
  qed
qed

definition demo_regs :: vm86_regs where
  "demo_regs = \<lparr>eax = 0, ebx = 0, ecx = 0, edx = 0, edi = 0, esi = 0, ebp = 0, error_code = 0, eip = 0x100,
     cs = 0, eflags = 0x20202, esp = 0x800, ss = 0, es = 0, ds = 0, fs = 0, gs = 0\<rparr>"

definition demo_pic_irq :: vports where
  "demo_pic_irq = demo_pic\<lparr>slot_vpic := Some \<lparr>master = (new_vpic 8 False)\<lparr>mask := 0, link := 4, irr := 0x0C\<rparr>,
                        slave = (new_vpic 0x70 True)\<lparr>link := 2, irr := 0x12\<rparr>\<rparr>\<rparr>"

theorem hook_delivers_lowest_witness:
  "\<exists>pair'. slot_vpic (snd (vpic_return_hook 0 (demo_regs, demo_pic_irq))) = Some pair'
     \<and> isr (master pair') = 4 \<and> isr (slave pair') = 2 \<and> bit (irr (slave pair')) 4"
proof -
  let ?pair = "\<lparr>master = (new_vpic 8 False)\<lparr>mask := 0, link := 4, irr := 0x0C\<rparr>,
    slave = (new_vpic 0x70 True)\<lparr>link := 2, irr := 0x12\<rparr>\<rparr>"
  have d: "deliverable demo_regs demo_pic_irq"
    by (simp add: deliverable_def demo_regs_def demo_pic_irq_def new_vpic_def)
  have "\<not> bit (0x0C :: u8) k" if "k < 2" for k using that by (auto simp: less_2_cases_iff bit_iff_odd)
  moreover have "bit (0x0C :: u8) 2" "bit (0x12 :: u8) 1" "\<not> bit (0x12 :: u8) 0" "bit (0x12 :: u8) 4" by (simp_all add: bit_iff_odd)
  ultimately show ?thesis
    using hook_delivers_lowest[OF d, of ?pair 2 1 0] by (auto simp: demo_pic_irq_def)
qed

text \<open>
  A request the slave controller has masked still reaches the master: with nothing pending, raising
  IRQ 8 + k while the slave masks it leaves the slave without a request but the master with one for
  the cascade line, and delivering that one scans the slave's empty register, so the guest is
  interrupted at the slave's base plus whatever number the scan of 0 leaves behind.
\<close>

theorem masked_slave_irq_spurious:
  assumes "is_slave (slave pair)" and "irr (slave pair) = 0" and "irr (master pair) = 0"
    and "k < 8" and "bit (mask (slave pair)) k"
    and "c < 8" and "unat (link (slave pair)) = c" and "link (master pair) = irq_bit c" and "\<not> bit (mask (master pair)) c"
  shows "irr (slave (raise_irq (8 + k) pair)) = 0
    \<and> irr (master (raise_irq (8 + k) pair)) = irq_bit c
    \<and> snd (deliver junk (raise_irq (8 + k) pair)) = ucast (base (slave pair)) + of_nat junk"
proof -
  have a: "irq_bit k AND NOT (mask (slave pair)) = 0"
    using assms(5) by (intro bit_word_eqI) (auto simp: bit_simps)
  have b: "irq_bit c AND NOT (mask (master pair)) = irq_bit c"
    using assms(9) by (intro bit_word_eqI) (auto simp: bit_simps)
  have r: "raise_irq (8 + k) pair = pair\<lparr>slave := (slave pair)\<lparr>irr := 0\<rparr>,
      master := (master pair)\<lparr>irr := irq_bit c\<rparr>\<rparr>"
    using assms a b by (simp add: raise_irq_def Let_def)
  have "bsf 0 (irq_bit c) = c" by (rule bsf_eq) (use assms(6) in \<open>auto simp: bit_simps\<close>)
  moreover have "bsf junk (0 :: u8) = junk" by (simp add: bsf_def)
  ultimately show ?thesis using assms(8) by (simp add: r deliver_def Let_def)
qed

theorem masked_slave_irq_spurious_witness:
  "snd (deliver 5 (raise_irq 8 \<lparr>master = (new_vpic 8 False)\<lparr>mask := 0xFB, link := 4\<rparr>,
     slave = (new_vpic 0x70 True)\<lparr>link := 2\<rparr>\<rparr>)) = 0x75"
  using masked_slave_irq_spurious[where k = 0 and c = 2 and junk = 5 and
      pair = "\<lparr>master = (new_vpic 8 False)\<lparr>mask := 0xFB, link := 4\<rparr>, slave = (new_vpic 0x70 True)\<lparr>link := 2\<rparr>\<rparr>"]
  by (simp add: new_vpic_def bit_iff_odd)

text \<open>
  Initialising a controller loses its vector base.  The standard sequence ICW1, ICW2 = v, ICW3,
  ICW4 leaves the base v AND 7, the low bits the hardware ignores, instead of v AND 0xF8: a guest
  that sets the usual base 8 or 0x70 has its IRQ 0 delivered as a divide error.
\<close>

theorem icw2_loses_base:
  assumes "slot_vpic s = Some pair" and "pic_state (get_pic port pair) = Normal" and "port = 0x20 \<or> port = 0xA0"
  shows "\<exists>pair'. slot_vpic (vpic_out (port + 1) 1 fin (vpic_out (port + 1) 1 lk (vpic_out (port + 1) 1 v
      (vpic_out port 1 0x11 s)))) = Some pair'
    \<and> base (get_pic port pair') = ucast (v AND 7) \<and> pic_state (get_pic port pair') = Normal"
proof -
  have gu: "get_pic port (upd_pic port pic p) = pic" for pic p
    by (simp add: get_pic_def upd_pic_def)
  have one: "slot_vpic (vpic_out (port + 1) 1 w t) = Some (upd_pic port (pic_data w (get_pic port p)) p)"
    if "slot_vpic t = Some p" for w p and t :: "'a vpics_scheme"
    using that assms(3) by (auto simp: vpic_out_def upd_pic_def get_pic_def)
  let ?c1 = "(get_pic port pair)\<lparr>pic_state := WaitICW2, need_icw4 := True\<rparr>"
  have "slot_vpic (vpic_out port 1 0x11 s) = Some (upd_pic port ?c1 pair)"
    using assms by (auto simp: vpic_out_def pic_command_def)
  note w = one[OF one[OF one[OF this]]]
  show ?thesis
    unfolding w by (intro exI conjI, rule refl) (simp_all only: gu, simp_all add: pic_data_def)
qed

theorem icw2_loses_base_witness:
  "\<exists>pair'. slot_vpic (vpic_out 0x21 1 1 (vpic_out 0x21 1 4 (vpic_out 0x21 1 8 (vpic_out 0x20 1 0x11 demo_pic)))) = Some pair'
    \<and> base (master pair') = 0"
  using icw2_loses_base[OF demo_pic_simps(1), where port = "0x20" and v = 8 and lk = 4 and fin = 1] by (auto simp: get_pic_def new_vpic_def)

end
