(* ===== verification/VmTraps.thy ===== *)
theory VmTraps
  imports VPicProps AddressSpace
begin

text \<open>
  Round trips and failures of the virtual machine's traps: an interrupt simulated on a mapped stack
  and the IRET that ends its handler restore the interrupted state; the two-byte escapes and the
  repeated string I/O always end with the task frozen.
\<close>

unbundle bit_operations_syntax

section \<open>A mapped page of the guest\<close>

text \<open>
  Page \<open>B\<close> of the linear addresses is present, in the logical page \<open>P\<close>, and writing to it changes
  neither the page directory nor the table that maps it.
\<close>

definition window :: "'a pmem_scheme \<Rightarrow> u32 \<Rightarrow> u32 \<Rightarrow> u32 \<Rightarrow> bool" where
  "window s pd B P \<longleftrightarrow> page_aligned pd \<and> page_aligned B \<and> present (get_pte s pd B)
     \<and> pte_get_addr (get_pte s pd B) \<noteq> 0 \<and> P = to_logical (pte_get_addr (get_pte s pd B))
     \<and> P \<noteq> pd \<and> P \<noteq> table_page s pd (page_dir_offset B)"

lemma page_dir_offset_base: "page_base a = page_base b \<Longrightarrow> page_dir_offset a = page_dir_offset b"
proof -
  assume "page_base a = page_base b"
  then have "unat a div 4096 = unat b div 4096" by (metis unat_page_base nonzero_mult_div_cancel_left zero_neq_numeral)
  then have "unat a div 4096 div 1024 = unat b div 4096 div 1024" by simp
  then have "unat a div 4194304 = unat b div 4194304" by (simp add: div_mult2_eq[symmetric])
  then show ?thesis by (simp add: page_dir_offset_def word_unat_eq_iff unat_div_distrib)
qed

lemma page_table_offset_base: "page_base a = page_base b \<Longrightarrow> page_table_offset a = page_table_offset b"
proof -
  assume "page_base a = page_base b"
  then have "unat a div 4096 = unat b div 4096" by (metis unat_page_base nonzero_mult_div_cancel_left zero_neq_numeral)
  then have "a div 4096 = b div 4096" by (simp add: word_unat_eq_iff unat_div_distrib)
  then show ?thesis by (simp add: page_table_offset_def)
qed

lemma get_pte_base: "page_base a = page_base b \<Longrightarrow> get_pte s pd a = get_pte s pd b"
  using page_dir_offset_base[of a b] page_table_offset_base[of a b] by (simp add: get_pte_def)

lemma word_page_split: "(a :: u32) = page_base a + page_offset a"
proof -
  have "page_base a AND page_offset a = (a AND a) AND (0xfffff000 AND 0xfff)"
    unfolding page_base_def page_offset_def by (simp only: ac_simps)
  then have "page_base a + page_offset a = page_base a OR page_offset a"
    using word_plus_and_or[of "page_base a" "page_offset a"] by simp
  also have "\<dots> = a AND (0xfffff000 OR 0xfff)"
    unfolding page_base_def page_offset_def by (simp only: bit.conj_disj_distrib)
  also have "(0xfffff000 OR 0xfff :: u32) = -1" by simp
  also have "a AND -1 = a" by (rule and.right_neutral)
  finally show ?thesis by simp
qed

lemma pte_or_offset: "pte_get_addr e OR page_offset a = pte_get_addr e + page_offset a"
proof -
  have "pte_get_addr e AND page_offset a = (e AND a) AND (0xfffff000 AND 0xfff)"
    unfolding pte_get_addr_def page_offset_def by (simp only: ac_simps)
  then show ?thesis using word_plus_and_or[of "pte_get_addr e" "page_offset a"] by simp
qed

text \<open>An address of the page is at the same distance from \<open>P\<close> as from \<open>B\<close>.\<close>

lemma window_phys:
  assumes "window s pd B P" and "page_base a = B"
  shows "to_logical (lin_to_phys s pd a) = P + (a - B)" and "lin_to_phys s pd a \<noteq> 0"
    and "to_logical (pte_get_addr (get_pte s pd a) OR page_offset a) = P + (a - B)"
    and "present (get_pte s pd a)" and "page_base (P + (a - B)) = P"
proof -
  have B: "page_base B = B" "page_aligned B" using assms(1) by (simp_all add: window_def)
  have g: "get_pte s pd a = get_pte s pd B" using get_pte_base[of a B] assms(2) B(1) by simp
  have off: "page_offset a = a - B" using word_page_split[of a] assms(2) by (simp add: algebra_simps)
  have P: "P = pte_get_addr (get_pte s pd B) + 0x800000" "pte_get_addr (get_pte s pd B) \<noteq> 0"
    using assms(1) by (simp_all add: window_def to_logical_def)
  show "present (get_pte s pd a)" using assms(1) g by (simp add: window_def)
  then have l: "lin_to_phys s pd a = pte_get_addr (get_pte s pd B) OR page_offset a"
    using g P(2) by (simp add: lin_to_phys_def read_page_mapping_def Let_def)
  show p: "to_logical (pte_get_addr (get_pte s pd a) OR page_offset a) = P + (a - B)"
    unfolding g pte_or_offset unfolding off using P(1) by (simp add: to_logical_def)
  show "to_logical (lin_to_phys s pd a) = P + (a - B)" using p unfolding l g .
  show "lin_to_phys s pd a \<noteq> 0" unfolding l using P(2) by (simp add: or_eq_0_iff)
  have al: "page_aligned P" using assms(1) pte_get_addr_aligned by (auto simp: window_def)
  have "unat (a - B) < 4096" unfolding off[symmetric] page_offset_less by simp
  then show "page_base (P + (a - B)) = P" by (rule page_base_add[OF al])
qed


text \<open>A store into the page changes no translation.\<close>

lemma window_mem:
  assumes "window s pd B P" and "\<And>b. aligned4 b \<Longrightarrow> page_base b \<noteq> P \<Longrightarrow> load32 m b = load32 (mem s) b"
  shows "window (s\<lparr>mem := m\<rparr>) pd B P" and "get_pte (s\<lparr>mem := m\<rparr>) pd B = get_pte s pd B"
proof -
  note w = assms(1)[unfolded window_def]
  have e: "entry (s\<lparr>mem := m\<rparr>) q i = entry s q i" if "page_aligned q" "q \<noteq> P" "i < 1024" for q i
    using that assms(2)[of "q + 4 * i"] by (simp add: entry_def entry_addr_aligned entry_addr_page)
  have d: "entry (s\<lparr>mem := m\<rparr>) pd (page_dir_offset B) = entry s pd (page_dir_offset B)" using w by (intro e) auto
  then have t: "table_page (s\<lparr>mem := m\<rparr>) pd (page_dir_offset B) = table_page s pd (page_dir_offset B)"
    by (simp add: table_page_def)
  show g: "get_pte (s\<lparr>mem := m\<rparr>) pd B = get_pte s pd B"
    using w by (auto simp: get_pte_at pte_at_def d t e)
  show "window (s\<lparr>mem := m\<rparr>) pd B P" unfolding window_def g t using w by blast
qed

lemma window_store16:
  assumes w: "window s pd B P" and "page_base a = B" and "page_base (a + 1) = B"
  shows "window (s\<lparr>mem := store16 (mem s) (P + (a - B)) v\<rparr>) pd B P"
proof (rule window_mem(1)[OF w])
  have q: "page_base (P + (a - B)) = P" "page_base (P + (a - B) + 1) = P"
    using window_phys(5)[OF w assms(2)] window_phys(5)[OF w assms(3)] by (simp_all add: algebra_simps)
  fix b assume "aligned4 b" "page_base b \<noteq> P"
  then show "load32 (store16 (mem s) (P + (a - B)) v) b = load32 (mem s) b"
    using q by (simp add: store16_as_store8 load32_store8_other)
qed

lemma window_put16:
  assumes "window s pd B P" and "page_base a = B"
  shows "put_pd_val pd 2 v a s = s\<lparr>mem := store16 (mem s) (P + (a - B)) (ucast v)\<rparr>"
  using window_phys(1,2)[OF assms] by (simp add: put_pd_val_mapped Let_def)

lemma window_touch:
  assumes "window s pd B P" and "page_base a = B" and "pd = t_page_dir (tasks s (current_task s))"
  shows "touch a s = Some s"
  using window_phys(4)[OF assms(1,2)] assms(3) by (subst touch.simps) simp

lemma window_get16:
  fixes s :: "'a vmach_scheme"
  assumes "window s pd B P" and "page_base a = B" and "page_base (a + 1) = B"
    and "pd = t_page_dir (tasks s (current_task s))"
  shows "get_user_short a s = Some (load16 (mem s) (P + (a - B)), s)"
proof -
  have "user_addr s a = P + (a - B)" "user_addr s (a + 1) = P + (a - B) + 1"
    using window_phys(3)[OF assms(1,2)] window_phys(3)[OF assms(1,3)] assms(4)
    by (simp_all add: user_addr_def algebra_simps)
  then show ?thesis
    using window_touch[OF assms(1,2,4)] window_touch[OF assms(1,3,4)]
    by (simp add: get_user_short_def get_user_byte_def load16_def load8_def)
qed

section \<open>Interrupt and return\<close>

lemma load16_store16_other:
  "p \<noteq> q \<Longrightarrow> p + 1 \<noteq> q \<Longrightarrow> p \<noteq> q + 1 \<Longrightarrow> load16 (store16 m p v) q = load16 m q"
  by (simp add: load16_def store16_def)

lemma load16_store16_at:
  "load16 (store16 m (a + 2) v) a = load16 m a" "load16 (store16 m (a + 4) v) a = load16 m a"
  "load16 (store16 m a v) (a + 2) = load16 m (a + 2)" "load16 (store16 m a v) (a + 4) = load16 m (a + 4)"
  "load16 (store16 m (a + 2) v) (a + 4) = load16 m (a + 4)"
  by (rule load16_store16_other; simp add: add.assoc)+

lemma and_ffff: "x AND 0xffff = (take_bit 16 x :: u32)"
  by (simp add: take_bit_eq_mask mask_eq_exp_minus_1)

lemma low_high: "(0xffff0000 OR 0xffff :: u32) = -1"
  by simp

lemma GET16_SET16 [simp]: "GET16 (SET16 x v) = v AND 0xffff"
  unfolding GET16_def SET16_def by (simp add: bit.conj_disj_distrib2 and.assoc)

lemma SET16_SET16 [simp]: "SET16 (SET16 x v) w = SET16 x w"
  unfolding SET16_def by (simp add: bit.conj_disj_distrib2 and.assoc)

lemma SET16_low: "SET16 x (ucast (ucast v :: u16)) = SET16 x v"
  unfolding SET16_def and_ffff by (intro arg_cong[where f = "(OR) _"], rule bit_word_eqI) (auto simp: bit_simps)

lemma SET16_self: "SET16 x x = x"
  unfolding SET16_def by (simp only: bit.conj_disj_distrib[symmetric] low_high and.right_neutral)

lemma SET16_GET16: "SET16 x (GET16 x) = x"
proof -
  have "SET16 x (GET16 x) = SET16 x x" unfolding SET16_def GET16_def by (simp add: and.assoc)
  then show ?thesis by (simp add: SET16_self)
qed

text \<open>The flags INT pushes, put back by IRET into the cleared ones, are the flags before.\<close>

lemma flags_restored:
  assumes "fl = (v AND NOT USER_EFLAGS) OR (e AND USER_EFLAGS)"
  shows "SET16 (v AND NOT (FLAGS_IF OR FLAGS_TF)) fl = (v AND NOT USER_EFLAGS) OR (e AND USER_EFLAGS)"
proof -
  have "(v AND NOT (FLAGS_IF OR FLAGS_TF)) AND 0xffff0000 = v AND 0xffff0000" by (simp add: and.assoc)
  moreover have "fl AND 0xffff0000 = v AND 0xffff0000"
    unfolding assms by (simp add: bit.conj_disj_distrib2 and.assoc)
  ultimately have "SET16 (v AND NOT (FLAGS_IF OR FLAGS_TF)) fl = SET16 fl fl" unfolding SET16_def by simp
  then show ?thesis using assms by (simp add: SET16_self)
qed

text \<open>The six bytes below \<open>ss:sp\<close>, in one mapped page: the three addresses the pushes use.\<close>

definition stack_ready :: "vm86_regs \<Rightarrow> 'a vmach_scheme \<Rightarrow> u32 \<Rightarrow> bool" where
  "stack_ready regs s P \<longleftrightarrow> current_task s = vm_task s \<and> 6 \<le> GET16 (esp regs)
     \<and> window s (vm_pd s) (page_base (seg_off (ss regs) (GET16 (esp regs) - 6))) P
     \<and> (\<forall>i<6. page_base (seg_off (ss regs) (GET16 (esp regs) - 6) + of_nat i)
             = page_base (seg_off (ss regs) (GET16 (esp regs) - 6)))"


lemma GET16_le: "GET16 x \<le> 0xffff"
  unfolding GET16_def by (rule word_and_le1)

lemma low16: "x \<le> 0xffff \<Longrightarrow> x AND 0xffff = (x :: u32)"
  unfolding and_ffff word_unat_eq_iff unsigned_take_bit_eq
  by (simp add: word_le_nat_alt take_bit_nat_eq_self)

lemma stack_offsets:
  assumes "6 \<le> g" and "g \<le> (0xffff :: u32)"
  shows "(g - 2) AND 0xffff = g - 2" "(g - 4) AND 0xffff = g - 4" "(g - 6) AND 0xffff = g - 6"
proof -
  have "g - k \<le> 0xffff" if "k \<le> 6" for k
    using that assms by (simp add: word_le_nat_alt unat_sub)
  then show "(g - 2) AND 0xffff = g - 2" "(g - 4) AND 0xffff = g - 4" "(g - 6) AND 0xffff = g - 6"
    by (simp_all add: low16)
qed

lemma stack_words:
  assumes "stack_ready regs s P"
  defines "g \<equiv> GET16 (esp regs)"
  defines "A \<equiv> seg_off (ss regs) (g - 6)"
  defines "B \<equiv> page_base A"
  shows "current_task s = vm_task s" and "window s (vm_pd s) B P"
    and "seg_off (ss regs) (g - 2) = A + 4" "seg_off (ss regs) (g - 4) = A + 2"
    and "\<And>k. k \<in> {0, 2, 4} \<Longrightarrow> page_base (A + k) = B \<and> page_base (A + k + 1) = B"
proof -
  show "current_task s = vm_task s" "window s (vm_pd s) B P"
    using assms(1) by (simp_all add: stack_ready_def A_def g_def B_def)
  show "seg_off (ss regs) (g - 2) = A + 4" "seg_off (ss regs) (g - 4) = A + 2"
    by (simp_all add: A_def seg_off_def)
  have b: "page_base (A + of_nat i) = B" if "i < 6" for i
    using assms(1) that by (simp add: stack_ready_def A_def g_def B_def)
  show "page_base (A + k) = B \<and> page_base (A + k + 1) = B" if "k \<in> {0, 2, 4}" for k
    using that b[of 0] b[of 1] b[of 2] b[of 3] b[of 4] b[of 5] by (auto simp: add.assoc)
qed

lemma window_eflags: "window (t\<lparr>virtual_eflags := v\<rparr>) pd B P = window (t :: 'a vmach_scheme) pd B P"
  by (simp add: window_def get_pte_def entry_def table_page_def)

lemma eflags_mem_commute:
  "s\<lparr>virtual_eflags := v, mem := m\<rparr> = (s\<lparr>mem := m, virtual_eflags := v\<rparr> :: 'a vmach_scheme)"
  by (cases s) simp

lemma ucast_16_32_16 [simp]: "ucast (ucast (x :: u16) :: u32) = x"
  by (rule bit_word_eqI) (simp add: bit_simps)

text \<open>The six bytes after the three pushes.\<close>

lemma int_pushes:
  assumes "stack_ready regs s P"
  defines "A \<equiv> seg_off (ss regs) (GET16 (esp regs) - 6)"
  defines "p \<equiv> P + (A - page_base A)"
    and "fl \<equiv> (virtual_eflags s AND NOT USER_EFLAGS) OR (eflags regs AND USER_EFLAGS)"
  defines "m \<equiv> store16 (store16 (store16 (mem s) (p + 4) (ucast fl)) (p + 2) (cs regs)) p (ucast (eip regs))"
  shows "\<exists>c i. simulate_vm_int vec (regs, s) =
      (regs\<lparr>esp := SET16 (esp regs) (GET16 (esp regs) - 6), cs := c, eip := SET16 (eip regs) i\<rparr>,
       s\<lparr>mem := m, virtual_eflags := virtual_eflags s AND NOT (FLAGS_IF OR FLAGS_TF)\<rparr>)"
    and "window (s\<lparr>mem := m\<rparr>) (vm_pd s) (page_base A) P"
    and "load16 m p = ucast (eip regs)" "load16 m (p + 2) = cs regs" "load16 m (p + 4) = ucast fl"
proof -
  let ?B = "page_base A" and ?pd = "vm_pd s" and ?g = "GET16 (esp regs)"
  note st = stack_words[OF assms(1), folded A_def]
  have g: "6 \<le> ?g" "?g \<le> 0xffff" using assms(1) GET16_le by (auto simp: stack_ready_def)
  note off = stack_offsets[OF g]
  have q: "P + (A + k - ?B) = p + k" for k by (simp add: p_def)
  define m1 where "m1 = store16 (mem s) (p + 4) (ucast fl)"
  define m2 where "m2 = store16 m1 (p + 2) (cs regs)"
  note pb = st(5)[of 4] st(5)[of 2] st(5)[of 0]
  have w1: "window (s\<lparr>mem := m1\<rparr>) ?pd ?B P"
    using window_store16[OF st(2), of "A + 4" "ucast fl"] pb by (simp add: q m1_def)
  have w2: "window (s\<lparr>mem := m2\<rparr>) ?pd ?B P"
    using window_store16[OF w1, of "A + 2" "cs regs"] pb by (simp add: q m2_def)
  show "window (s\<lparr>mem := m\<rparr>) ?pd ?B P"
    using window_store16[OF w2, of A "ucast (eip regs)"] pb q[of 0] by (simp add: m_def m1_def m2_def)
  show "load16 m p = ucast (eip regs)" "load16 m (p + 2) = cs regs" "load16 m (p + 4) = ucast fl"
    unfolding m_def by (simp_all add: load16_store16_at load16_store16_same)
  let ?v = "virtual_eflags s AND NOT (FLAGS_IF OR FLAGS_TF)"
  have p1: "put_pd_val ?pd 2 fl (A + 4) s = s\<lparr>mem := m1\<rparr>"
    using window_put16[OF st(2), of "A + 4" fl] pb by (simp add: q m1_def)
  have p2: "put_pd_val ?pd 2 (ucast (cs regs)) (A + 2) (s\<lparr>mem := m1, virtual_eflags := ?v\<rparr>) = s\<lparr>mem := m2, virtual_eflags := ?v\<rparr>"
    using window_put16[of "s\<lparr>mem := m1, virtual_eflags := ?v\<rparr>" ?pd ?B P "A + 2" "ucast (cs regs)"] w1 pb
    by (simp add: q m2_def window_eflags eflags_mem_commute)
  have p3: "put_pd_val ?pd 2 (eip regs) A (s\<lparr>mem := m2, virtual_eflags := ?v\<rparr>) = s\<lparr>mem := m, virtual_eflags := ?v\<rparr>"
    using window_put16[of "s\<lparr>mem := m2, virtual_eflags := ?v\<rparr>" ?pd ?B P A "eip regs"] w2 pb q[of 0]
    by (simp add: m_def m2_def m1_def window_eflags eflags_mem_commute)
  have pd: "vm_pd (s\<lparr>mem := a\<rparr>) = ?pd" "vm_pd (s\<lparr>mem := a, virtual_eflags := b\<rparr>) = ?pd" for a b
    by (simp_all add: vm_pd_def)
  let ?r = "\<lambda>k. regs\<lparr>esp := SET16 (esp regs) (?g - k)\<rparr>"
  have f: "push_far_sp fl (regs, s) = (?r 2, s\<lparr>mem := m1\<rparr>)"
    "push_far_sp (ucast (cs regs)) (?r 2, s\<lparr>mem := m1, virtual_eflags := ?v\<rparr>) = (?r 4, s\<lparr>mem := m2, virtual_eflags := ?v\<rparr>)"
    "push_far_sp (eip regs) (?r 4, s\<lparr>mem := m2, virtual_eflags := ?v\<rparr>) = (?r 6, s\<lparr>mem := m, virtual_eflags := ?v\<rparr>)"
    using st(3,4) p1 p2 p3 off by (simp_all add: push_far_sp_def pd A_def)
  have c: "cs (?r 2) = cs regs" "eip (?r 4) = eip regs" "virtual_eflags (s\<lparr>mem := m1\<rparr>) = virtual_eflags s"
    "eip ((?r 6)\<lparr>cs := x\<rparr>) = eip regs" for x by simp_all
  show "\<exists>c i. simulate_vm_int vec (regs, s) =
      (regs\<lparr>esp := SET16 (esp regs) (?g - 6), cs := c, eip := SET16 (eip regs) i\<rparr>,
       s\<lparr>mem := m, virtual_eflags := ?v\<rparr>)"
    unfolding simulate_vm_int_def Let_def prod.case fl_def[symmetric] f(1)
    by (simp only: c f(2,3) prod.case) (intro exI, rule refl)
qed


text \<open>
  C40: a simulated interrupt is undone by the IRET that ends its handler.  On a stack whose six bytes
  below ss:sp are mapped, INT n followed by IRET puts back every register of the interrupted
  program and the virtual flags, the interrupt flag among them, with the changed bits of the user
  flags taken over; the real flags keep interrupts and virtual mode on.
\<close>

theorem int_iret_round_trip:
  assumes "stack_ready regs s P"
  shows "\<exists>s'. gpe_iret 0 (simulate_vm_int vec (regs, s)) =
      Some (regs\<lparr>eflags := (eflags regs AND USER_EFLAGS) OR FLAGS_IF OR EFLAGS_VM\<rparr>, s')
    \<and> virtual_eflags s' = (virtual_eflags s AND NOT USER_EFLAGS) OR (eflags regs AND USER_EFLAGS)"
proof -
  let ?g = "GET16 (esp regs)" and ?pd = "vm_pd s"
  define A where "A = seg_off (ss regs) (?g - 6)"
  let ?B = "page_base A"
  define p where "p = P + (A - ?B)"
  define fl where "fl = (virtual_eflags s AND NOT USER_EFLAGS) OR (eflags regs AND USER_EFLAGS)"
  define m where "m = store16 (store16 (store16 (mem s) (p + 4) (ucast fl)) (p + 2) (cs regs)) p (ucast (eip regs))"
  let ?v = "virtual_eflags s AND NOT (FLAGS_IF OR FLAGS_TF)"
  note st = stack_words[OF assms, folded A_def]
  note pu = int_pushes[OF assms, folded A_def, folded p_def fl_def, folded m_def]
  have g: "6 \<le> ?g" "?g \<le> 0xffff" using assms GET16_le by (auto simp: stack_ready_def)
  note off = stack_offsets[OF g]
  define t where "t = s\<lparr>mem := m, virtual_eflags := ?v\<rparr>"
  obtain c i where int: "simulate_vm_int vec (regs, s) =
      (regs\<lparr>esp := SET16 (esp regs) (?g - 6), cs := c, eip := SET16 (eip regs) i\<rparr>, t)"
    using pu(1) t_def by blast
  have w: "window t ?pd ?B P"
    using pu(2) by (simp add: t_def window_eflags)
  have pdt: "?pd = t_page_dir (tasks t (current_task t))" using st(1) by (simp add: t_def vm_pd_def)
  have q: "P + (A + k - ?B) = p + k" for k by (simp add: p_def)
  have "get_user_short (A + k) t = Some (load16 m (p + k), t)" if "k \<in> {0, 2, 4}" for k
    using window_get16[OF w conjunct1[OF st(5)[OF that]] conjunct2[OF st(5)[OF that]] pdt] q[of k] by (simp add: t_def)
  from this[of 0] this[of 2] this[of 4] have r:
    "get_user_short A t = Some (ucast (eip regs), t)" "get_user_short (A + 2) t = Some (cs regs, t)"
    "get_user_short (A + 4) t = Some (ucast fl, t)" using pu(3-5) by simp_all
  have pop: "pop_sp 2 (r, t) = map_option (\<lambda>(v, u). (ucast v, r\<lparr>esp := SET16 (esp regs) (?g - k + 2)\<rparr>, u))
      (get_user_short (seg_off (ss regs) (?g - k)) t)"
    if "esp r = SET16 (esp regs) (?g - k)" "ss r = ss regs" "(?g - k) AND 0xffff = ?g - k" for r k
    using that by (cases "get_user_short (seg_off (ss regs) (?g - k)) t") (auto simp: pop_sp_def get_user_def)
  let ?r = "\<lambda>k. regs\<lparr>esp := SET16 (esp regs) (?g - k)\<rparr>"
  have pop1: "pop_sp 2 ((?r 6)\<lparr>cs := c, eip := SET16 (eip regs) i\<rparr>, t) =
      Some (ucast (ucast (eip regs) :: u16), (?r 4)\<lparr>cs := c, eip := SET16 (eip regs) i\<rparr>, t)"
    using pop[of "(?r 6)\<lparr>cs := c, eip := SET16 (eip regs) i\<rparr>" 6] r(1) off by (simp add: A_def)
  have eip: "SET16 (SET16 (eip regs) i) (ucast (ucast (eip regs) :: u16)) = eip regs"
    by (simp add: SET16_low SET16_self)
  have pop2: "pop_sp 2 ((?r 4)\<lparr>cs := c, eip := eip regs\<rparr>, t) = Some (ucast (cs regs), (?r 2)\<lparr>cs := c\<rparr>, t)"
    using pop[of "(?r 4)\<lparr>cs := c, eip := eip regs\<rparr>" 4] r(2) off st(4) by simp
  have pop3: "pop_sp 2 (?r 2, t) = Some (ucast (ucast fl :: u16), regs, t)"
    using pop[of "?r 2" 2] r(3) off st(3) by (simp add: SET16_GET16)
  have fl: "SET16 ?v (ucast (ucast fl :: u16)) = fl"
    unfolding SET16_low flags_restored[OF fl_def] fl_def[symmetric] ..
  have user: "fl AND USER_EFLAGS = eflags regs AND USER_EFLAGS"
    by (simp add: fl_def bit.conj_disj_distrib2 and.assoc)
  let ?t = "t\<lparr>virtual_eflags := fl\<rparr>"
  have flags: "pop_flags 0 (?r 2, t) = Some (regs, ?t)"
    using pop3 fl by (simp add: pop_flags_def t_def)
  have "gpe_iret 0 (simulate_vm_int vec (regs, s)) = Some (load_flags (regs, ?t))"
    using pop1 pop2 eip flags by (simp add: int gpe_iret_def)
  moreover have "fst (load_flags (regs, ?t)) = regs\<lparr>eflags := (eflags regs AND USER_EFLAGS) OR FLAGS_IF OR EFLAGS_VM\<rparr>"
    by (simp add: load_flags_def user)
  moreover have "virtual_eflags (snd (load_flags (regs, ?t))) = fl"
    by (simp add: load_flags_def IF_enabled_def IF_disabled_def install_return_hook_def split: option.split)
  ultimately show ?thesis unfolding fl_def by (metis prod.collapse)
qed


text \<open>A machine whose linear page 0x1000 is mapped to the logical page 0x803000.\<close>

definition demo_stack :: vports where
  "demo_stack = demo_machine\<lparr>mem := store32 (store32 (\<lambda>_. 0) 0x801000 0x2007) 0x802004 0x3007,
     tasks := \<lambda>_. demo_task\<lparr>t_page_dir := 0x801000\<rparr>\<rparr>"

lemma demo_stack_entries:
  "entry demo_stack 0x801000 0 = 0x2007" "entry demo_stack 0x802000 1 = 0x3007"
  by (simp_all add: entry_def demo_stack_def load32_def store32_def)

lemma demo_stack_window: "window demo_stack 0x801000 0x1000 0x803000"
proof -
  have "get_pte demo_stack 0x801000 0x1000 = 0x3007"
    by (simp add: get_pte_def page_dir_offset_def page_table_offset_def demo_stack_entries pte_get_addr_def to_logical_def)
  then show ?thesis
    by (simp add: window_def page_aligned_def pte_get_addr_def to_logical_def table_page_def
        page_dir_offset_def demo_stack_entries)
qed

lemma demo_stack_ready: "stack_ready (demo_regs\<lparr>esp := 0x1800\<rparr>) demo_stack 0x803000"
proof -
  have "vm_pd demo_stack = 0x801000" "current_task demo_stack = vm_task demo_stack" "ss demo_regs = 0"
    by (simp_all add: demo_stack_def vm_pd_def demo_regs_def)
  moreover have "page_base (0x17fa + of_nat i) = 0x1000" if "i < 6" for i
  proof -
    from that have "i = 0 \<or> i = 1 \<or> i = 2 \<or> i = 3 \<or> i = 4 \<or> i = 5" by auto
    then show ?thesis by (elim disjE) (simp_all add: page_base_def)
  qed
  ultimately show ?thesis
    using demo_stack_window by (simp add: stack_ready_def GET16_def seg_off_def page_base_def)
qed

theorem int_iret_round_trip_witness:
  "\<exists>s'. gpe_iret 0 (simulate_vm_int 8 (demo_regs\<lparr>esp := 0x1800\<rparr>, demo_stack)) =
      Some (demo_regs\<lparr>esp := 0x1800, eflags := 0x20202\<rparr>, s') \<and> virtual_eflags s' = 2"
  using int_iret_round_trip[OF demo_stack_ready, of 8] by (simp add: demo_regs_def demo_stack_def demo_machine_def)


section \<open>Instructions that freeze the machine\<close>

lemma flags_reclaim_task: "t_flags (tasks (reclaim_task z s) t) = t_flags (tasks s t)"
proof -
  have m: "pmem.more u' = pmem.more u \<Longrightarrow> tasks u' = tasks u" for u u' :: "'a sched_scheme"
    by (cases u, cases u') simp
  have f: "tasks (free_page_if p u) = tasks u" for p and u :: "'a sched_scheme"
    by (simp add: free_page_if_def m[OF pmem_more_free])
  have d: "tasks (delete_page_dir p u) = tasks u" for p and u :: "'a sched_scheme"
    by (rule m[OF pmem_more_delete_page_dir])
  have k: "tasks (u\<lparr>TaskCount := c\<rparr>) = tasks u" for u :: "'a sched_scheme" and c by simp
  define s2 where "s2 = free_page_if (t_stack (tasks s z)) (free_page_if (t_stack0 (tasks s z))
    (s\<lparr>GDT := (GDT s)(unat (tss_sel (tasks s z) div 8) := (0, 0))\<rparr>))"
  define s3 where "s3 = (if t_page_dir (tasks s z) \<noteq> 0 then delete_page_dir (t_page_dir (tasks s z)) s2 else s2)"
  have "tasks s3 = tasks s" by (simp add: s3_def s2_def f d)
  moreover have "tasks (reclaim_task z s) = tasks (upd_task z (\<lambda>tk. tk\<lparr>t_pid := 0\<rparr>) s3)"
    unfolding reclaim_task_def Let_def s3_def s2_def by (rule k)
  ultimately show ?thesis by (simp add: upd_task_def)
qed

lemma flags_schedule: "t_flags (tasks (schedule s) t) = t_flags (tasks s t)"
proof -
  have rec: "t_flags (tasks (reclaim_zombies n s) t) = t_flags (tasks s t)" for n and s :: "'a sched_scheme"
    by (induction n arbitrary: s) (simp_all add: Let_def flags_reclaim_task)
  have sw: "t_flags (tasks (switch_task n u) t) = t_flags (tasks u t)" for n and u :: "'a sched_scheme"
    by (simp add: switch_task_def Let_def)
  have en: "t_flags (tasks (if c then enqueue_task x (unlink_task x u) else u) t) = t_flags (tasks u t)"
    and tl: "t_flags (tasks (if c then upd_task x (\<lambda>t. t\<lparr>time_left := l t\<rparr>) u else u) t) = t_flags (tasks u t)"
    for c x l and u :: "'a sched_scheme"
    by simp_all
  have nr: "tasks (u\<lparr>need_resched := b\<rparr>) = tasks u" for u :: "'a sched_scheme" and b by simp
  have br: "t_flags (tasks (case xs of [] \<Rightarrow> u | n # _ \<Rightarrow>
      (if c n then switch_task n (g n) else g n)) t) = t_flags (tasks u t)"
    if "\<And>n. t_flags (tasks (g n) t) = t_flags (tasks u t)" for xs c g and u :: "'a sched_scheme"
    using that by (simp add: sw split: list.split)
  have if_flags: "t_flags (tasks (if c then a else b) t) = F"
    if "t_flags (tasks a t) = F" "t_flags (tasks b t) = F" for c F and a b :: "'a sched_scheme" using that by simp
  show ?thesis
    unfolding schedule_def Let_def
    by (rule if_flags, rule rec, subst br, rule tl) (simp only: en nr rec)
qed

text \<open>What the code at \<open>stop\<close> leaves: the task frozen and not running, at the trapped instruction.\<close>

definition frozen_at :: "tid \<Rightarrow> u32 \<Rightarrow> vm86_regs \<times> 'a vpics_scheme \<Rightarrow> bool" where
  "frozen_at t e rs \<longleftrightarrow> eip (fst rs) = e \<and> test_mask (t_flags (tasks (snd rs) t)) TASK_FROZEN
     \<and> \<not> task_running (snd rs) t"

lemma dump_regs_freezes:
  assumes "intr_nest_count s \<le> 1"
  shows "\<exists>s'. dump_regs s = Some s' \<and> test_mask (t_flags (tasks s' (current_task s))) TASK_FROZEN
    \<and> \<not> task_running s' (current_task s)"
proof -
  have p: "t_flags (tasks (permit u) t) = t_flags (tasks u t)" for u :: "'a sched_scheme" and t
    by (simp add: permit_def Let_def flags_schedule)
  show ?thesis
    using assms by (simp add: dump_regs_def Let_def p forbid_def suspend_task_def
      bit.conj_disj_distrib2 and.assoc)
qed

lemma gpe_stop_freezes:
  "intr_nest_count s \<le> 1 \<Longrightarrow> \<exists>rs'. gpe_stop e (regs, s) = Some rs' \<and> frozen_at (current_task s) e rs'"
  using dump_regs_freezes[of s] by (auto simp: gpe_stop_def frozen_at_def)

text \<open>The byte at the instruction pointer lies in a present page.\<close>

abbreviation code_present :: "vm86_regs \<Rightarrow> 'a vmach_scheme \<Rightarrow> bool" where
  "code_present regs s \<equiv>
     present (get_pte s (t_page_dir (tasks s (current_task s))) (seg_off (cs regs) (GET16 (eip regs))))"

lemma pop_cs_present:
  "code_present regs s \<Longrightarrow> pop_cs (regs, s) =
    Some (load8 (mem s) (user_addr s (seg_off (cs regs) (GET16 (eip regs)))), regs\<lparr>eip := SET16 (eip regs) (eip regs + 1)\<rparr>, s)"
  by (simp add: pop_cs_def read_cs_def get_user_byte_def) (subst touch.simps, simp)

lemma gpe_escape_freezes:
  assumes "code_present regs s" and "intr_nest_count s \<le> 1"
  shows "\<exists>rs'. gpe_escape e (regs, s) = Some rs' \<and> frozen_at (current_task s) e rs'"
proof -
  have m: "current_task (snd (simulate_vm_int n (r, s))) = current_task s"
    "intr_nest_count (snd (simulate_vm_int n (r, s))) = intr_nest_count s" for n r
  proof -
    have put: "current_task (put_pd_val pd k v a u) = current_task u" "intr_nest_count (put_pd_val pd k v a u) = intr_nest_count u"
      for pd k v a and u :: "'a vpics_scheme"
      using pmem_more_put_pd_val[of pd k v a u] by (cases u, cases "put_pd_val pd k v a u", simp)+
    have push: "current_task (snd (push_far_sp v rs)) = current_task (snd rs)"
      "intr_nest_count (snd (push_far_sp v rs)) = intr_nest_count (snd rs)" for v and rs :: "vm86_regs \<times> 'a vpics_scheme"
      by (cases rs; simp add: push_far_sp_def Let_def put)+
    show "current_task (snd (simulate_vm_int n (r, s))) = current_task s"
      "intr_nest_count (snd (simulate_vm_int n (r, s))) = intr_nest_count s"
      by (simp_all add: simulate_vm_int_def Let_def split_beta push)
  qed
  define r where "r = regs\<lparr>eip := SET16 (eip regs) (eip regs + 1)\<rparr>"
  define b where "b = load8 (mem s) (user_addr s (seg_off (cs regs) (GET16 (eip regs))))"
  let ?rs = "if b = 0x00 \<or> b = 0x01 then simulate_vm_int 6 (r\<lparr>eip := e\<rparr>, s) else (r, s)"
  have "gpe_escape e (regs, s) = gpe_stop e ?rs"
    using pop_cs_present[OF assms(1)] by (simp add: gpe_escape_def r_def b_def)
  moreover have "current_task (snd ?rs) = current_task s" "intr_nest_count (snd ?rs) \<le> 1" using m assms(2) by simp_all
  ultimately show ?thesis using gpe_stop_freezes[of "snd ?rs" e "fst ?rs"] by (metis prod.collapse)
qed


lemma gpe_rep_empty:
  assumes "rep_count prefixes regs = 0"
  shows "\<exists>c. gpe_rep_ins inp b prefixes (regs, s) = Some (regs\<lparr>ecx := c\<rparr>, s)"
    and "\<exists>c. gpe_rep_outs outp b prefixes (regs, s) = Some (regs\<lparr>ecx := c\<rparr>, s)"
  using assms by (auto simp: gpe_rep_ins_def gpe_rep_outs_def Let_def split: option.split)

lemma gpe_rep_freezes:
  assumes "code_present regs s" and "code_present (regs\<lparr>eip := SET16 (eip regs) (eip regs + 1)\<rparr>) s"
    and "intr_nest_count s \<le> 1" and "rep_count prefixes regs = 0"
  shows "\<exists>rs'. gpe_rep inp outp e prefixes (regs, s) = Some rs' \<and> frozen_at (current_task s) e rs'"
proof -
  define r where "r = regs\<lparr>eip := SET16 (eip regs) (eip regs + 1)\<rparr>"
  define b where "b = load8 (mem s) (user_addr s (seg_off (cs regs) (GET16 (eip regs))))"
  have rc: "rep_count prefixes r = 0" using assms(4) by (simp add: r_def rep_count_def)
  obtain c c' where io: "gpe_rep_ins inp b prefixes (r, s) = Some (r\<lparr>ecx := c\<rparr>, s)"
    "gpe_rep_outs outp b prefixes (r, s) = Some (r\<lparr>ecx := c'\<rparr>, s)"
    using gpe_rep_empty[OF rc] by blast
  have esc: "\<exists>rs'. gpe_escape e (r\<lparr>ecx := x\<rparr>, s) = Some rs' \<and> frozen_at (current_task s) e rs'" for x
    by (rule gpe_escape_freezes) (use assms(2,3) in \<open>simp_all add: r_def\<close>)
  have "gpe_rep inp outp e prefixes (regs, s) =
      (if b = 0x6c \<or> b = 0x6d then gpe_escape e (r\<lparr>ecx := c\<rparr>, s)
       else if b = 0x6e \<or> b = 0x6f then gpe_escape e (r\<lparr>ecx := c'\<rparr>, s) else gpe_stop e (r, s))"
    using pop_cs_present[OF assms(1)] io by (simp add: gpe_rep_def r_def[symmetric] b_def[symmetric])
  then show ?thesis using esc gpe_stop_freezes[OF assms(3)] by simp
qed

text \<open>
  two instructions always stop the machine, whatever follows them: after the escape byte 0x0f, and
  after a REP prefix (shown where the count is 0, when the processor would do nothing at all), the
  handler freezes the task and leaves it at the instruction: their cases fall through to the end.
  A guest that uses a repeated string I/O instruction, which the handler carries out, never goes on.
\<close>

theorem rep_and_escape_freeze:
  assumes "code_present regs s" and "code_present (regs\<lparr>eip := SET16 (eip regs) (eip regs + 1)\<rparr>) s"
    and "intr_nest_count s \<le> 1" and "byte = 0x0f \<or> byte = 0xf3 \<and> rep_count prefixes regs = 0"
  shows "\<exists>rs'. gpe_dispatch inp outp orig_eip prefixes byte (regs, s) = Some rs'
    \<and> frozen_at (current_task s) orig_eip rs'"
  using assms gpe_rep_freezes[OF assms(1-3)] gpe_escape_freezes[OF assms(1,3)]
  by (auto simp: gpe_dispatch_def)

theorem rep_and_escape_freeze_witness:
  "\<exists>rs'. gpe_dispatch (\<lambda>_ _ _ s. (0, s)) (\<lambda>_ _ _ _ s. s) 0x1000 0 0xf3 (demo_regs\<lparr>eip := 0x1001\<rparr>, demo_stack) = Some rs'
    \<and> frozen_at 0 0x1000 rs'"
proof -
  have g: "present (get_pte demo_stack 0x801000 a)" if "page_base a = 0x1000" for a
    using window_phys(4)[OF demo_stack_window that] .
  have e: "GET16 0x1001 = 0x1001" "GET16 (SET16 0x1001 0x1002) = 0x1002" by (simp_all add: GET16_def SET16_def)
  have d: "t_page_dir (tasks demo_stack (current_task demo_stack)) = 0x801000" "current_task demo_stack = 0"
    "intr_nest_count demo_stack \<le> 1" by (simp_all add: demo_stack_def)
  have r: "cs demo_regs = 0" "rep_count 0 (demo_regs\<lparr>eip := 0x1001\<rparr>) = 0"
    by (simp_all add: demo_regs_def rep_count_def)
  have "code_present (demo_regs\<lparr>eip := 0x1001\<rparr>) demo_stack"
    "code_present ((demo_regs\<lparr>eip := 0x1001\<rparr>)\<lparr>eip := SET16 0x1001 0x1002\<rparr>) demo_stack"
    using d r e by (simp_all add: seg_off_def g page_base_def)
  then show ?thesis
    using rep_and_escape_freeze[where regs = "demo_regs\<lparr>eip := 0x1001\<rparr>" and s = demo_stack and byte = "0xf3" and prefixes = 0] d r by simp
qed

end
