(* ===== verification/VmProps.thy ===== *)
theory VmProps
  imports VmTraps
begin

text \<open>
  The virtual machine structure: the A20 gate is a round trip on the page table of the first
  megabytes, and a slot handed out by alloc_vm_slot was free.
\<close>

unbundle bit_operations_syntax

section \<open>The A20 gate\<close>

text \<open>The table of the first four megabytes is present, in page \<open>pt\<close>, which is not the directory.\<close>

definition low_table :: "'a pmem_scheme \<Rightarrow> u32 \<Rightarrow> u32 \<Rightarrow> bool" where
  "low_table s pd pt \<longleftrightarrow> page_aligned pd \<and> present (entry s pd 0) \<and> table_page s pd 0 = pt \<and> pt \<noteq> pd"

lemma low_table_aligned: "low_table s pd pt \<Longrightarrow> page_aligned pt"
  unfolding low_table_def using table_page_aligned by metis

lemma low_table_set_entry: "low_table s pd pt \<Longrightarrow> i < 1024 \<Longrightarrow> low_table (set_entry pt i v s) pd pt"
  using low_table_aligned[of s pd pt] by (auto simp: low_table_def table_page_def entry_set_entry)

lemma low_get_pte: "low_table s pd pt \<Longrightarrow> page_dir_offset a = 0 \<Longrightarrow> get_pte s pd a = entry s pt (page_table_offset a)"
  by (auto simp: low_table_def get_pte_at pte_at_def)

lemma low_set_pte: "low_table s pd pt \<Longrightarrow> page_dir_offset a = 0 \<Longrightarrow> set_pte pd a v s = set_entry pt (page_table_offset a) v s"
  by (auto simp: low_table_def set_pte_def get_table_def table_page_def)

lemma gate_offsets:
  assumes "i < 16"
  shows "page_dir_offset (himem_addr i) = 0" "page_dir_offset (lowmem_addr i) = 0"
    "page_table_offset (himem_addr i) = 256 + of_nat i" "page_table_offset (lowmem_addr i) = of_nat i"
proof -
  have "i \<in> {0, 1, 2, 3, 4, 5, 6, 7, 8, 9, 10, 11, 12, 13, 14, 15}"
    using assms by (auto simp: numeral_eq_Suc less_Suc_eq)
  then show "page_dir_offset (himem_addr i) = 0" "page_dir_offset (lowmem_addr i) = 0"
    "page_table_offset (himem_addr i) = 256 + of_nat i" "page_table_offset (lowmem_addr i) = of_nat i"
    by (auto simp: page_dir_offset_def page_table_offset_def himem_addr_def lowmem_addr_def)
qed

lemma low_table_himem: "low_table (s\<lparr>himem_ptes := h\<rparr> :: 'a vmach_scheme) pd pt = low_table s pd pt"
  by (simp add: low_table_def entry_def table_page_def)

text \<open>The entries of the table, by number.\<close>

abbreviation tab :: "u32 \<Rightarrow> 'a pmem_scheme \<Rightarrow> nat \<Rightarrow> u32" where "tab pt s j \<equiv> entry s pt (of_nat j)"

lemma tab_set_entry:
  assumes "page_aligned pt" "i < 1024" "j < 1024"
  shows "tab pt (set_entry pt (of_nat i) v s) j = (if i = j then v else tab pt s j)"
proof -
  have w: "(of_nat k :: u32) < 1024" "unat (of_nat k :: u32) = k" if "k < 1024" for k
    using that by (simp_all add: word_less_nat_alt unsigned_of_nat take_bit_nat_eq_self)
  have "(of_nat i :: u32) = of_nat j \<longleftrightarrow> i = j" using w(2) assms(2,3) by metis
  then show ?thesis using assms w by (simp add: entry_set_entry)
qed

text \<open>The loop that closes the gate, and the one that opens it.\<close>

definition close_step :: "u32 \<Rightarrow> nat \<Rightarrow> 'a vmach_scheme \<Rightarrow> 'a vmach_scheme" where
  "close_step pd i s =
     (let s' = s\<lparr>himem_ptes := (himem_ptes s)[i := get_pte s pd (himem_addr i)]\<rparr>
      in set_pte pd (himem_addr i) (get_pte s' pd (lowmem_addr i) AND NOT PTE_FREEABLE) s')"

lemma close_step:
  assumes "low_table s pd pt" and "i < 16"
  shows "close_step pd i s = set_entry pt (of_nat (256 + i)) (tab pt s i AND NOT PTE_FREEABLE)
      (s\<lparr>himem_ptes := (himem_ptes s)[i := tab pt s (256 + i)]\<rparr>)"
  using assms by (simp add: close_step_def Let_def low_get_pte low_set_pte low_table_himem gate_offsets)
    (simp add: entry_def)

lemma himem_set_entry [simp]: "himem_ptes (set_entry pt i v s) = himem_ptes (s :: 'a vmach_scheme)"
  by (simp add: set_entry_def)

lemma vm_pd_close: "vm_pd (close_step pd i s) = vm_pd s"
proof -
  have "vm_pd u' = vm_pd u" if "pmem.more u' = pmem.more u" for u u' :: "'a vmach_scheme"
    using that by (cases u, cases u') (simp add: vm_pd_def)
  note m = this[OF pmem_more_set_pte]
  show ?thesis by (simp add: close_step_def Let_def m) (simp add: vm_pd_def)
qed

lemma close_loop:
  assumes "low_table s pd pt" and "length (himem_ptes s) = 16" and "n \<le> 16"
  defines "t \<equiv> fold (close_step pd) [0..<n] s"
  shows "low_table t pd pt \<and> length (himem_ptes t) = 16 \<and> (\<forall>i<n. himem_ptes t ! i = tab pt s (256 + i))
    \<and> (\<forall>j<1024. tab pt t j = (if 256 \<le> j \<and> j < 256 + n then tab pt s (j - 256) AND NOT PTE_FREEABLE else tab pt s j))"
  using assms(3) unfolding t_def
proof (induction n)
  case (Suc n)
  let ?t = "fold (close_step pd) [0..<n] s"
  from Suc have IH: "low_table ?t pd pt" "length (himem_ptes ?t) = 16" "\<forall>i<n. himem_ptes ?t ! i = tab pt s (256 + i)"
    "\<forall>j<1024. tab pt ?t j = (if 256 \<le> j \<and> j < 256 + n then tab pt s (j - 256) AND NOT PTE_FREEABLE else tab pt s j)"
    by auto
  have st: "fold (close_step pd) [0..<Suc n] s = set_entry pt (of_nat (256 + n)) (tab pt ?t n AND NOT PTE_FREEABLE)
      (?t\<lparr>himem_ptes := (himem_ptes ?t)[n := tab pt ?t (256 + n)]\<rparr>)"
    using close_step[OF IH(1), of n] Suc.prems by simp
  have idx: "(of_nat (256 + n) :: u32) < 1024"
    using Suc.prems by (simp add: word_less_nat_alt unat_word_ariths unsigned_of_nat take_bit_nat_eq_self del: of_nat_add)
  have e: "tab pt (set_entry pt (of_nat (256 + n)) v (u\<lparr>himem_ptes := h\<rparr>)) j = (if 256 + n = j then v else tab pt u j)"
    if "j < 1024" for j v h and u :: "'a vmach_scheme"
    using tab_set_entry[OF low_table_aligned[OF assms(1)], of "256 + n" j v "u\<lparr>himem_ptes := h\<rparr>"] that Suc.prems
    by (simp add: entry_def)
  have "low_table (fold (close_step pd) [0..<Suc n] s) pd pt"
    unfolding st by (rule low_table_set_entry) (use IH(1) idx low_table_himem in auto)
  moreover have "tab pt (fold (close_step pd) [0..<Suc n] s) j =
      (if 256 \<le> j \<and> j < 256 + Suc n then tab pt s (j - 256) AND NOT PTE_FREEABLE else tab pt s j)" if "j < 1024" for j
    unfolding st e[OF that] using IH(4) that Suc.prems by auto
  moreover have "\<forall>i<Suc n. himem_ptes (fold (close_step pd) [0..<Suc n] s) ! i = tab pt s (256 + i)"
    unfolding st using IH(2,3) IH(4)[rule_format, of "256 + n"] Suc.prems by (auto simp: nth_list_update less_Suc_eq)
  moreover have "length (himem_ptes (fold (close_step pd) [0..<Suc n] s)) = 16" unfolding st using IH(2) by simp
  ultimately show ?case by blast
qed (use assms(1,2) in auto)

definition open_step :: "u32 \<Rightarrow> nat \<Rightarrow> 'a vmach_scheme \<Rightarrow> 'a vmach_scheme" where
  "open_step pd i s = set_pte pd (himem_addr i) (himem_ptes s ! i) s"

lemma open_loop:
  assumes "low_table s pd pt" and "n \<le> 16"
  defines "t \<equiv> fold (open_step pd) [0..<n] s"
  shows "low_table t pd pt \<and> himem_ptes t = himem_ptes s
    \<and> (\<forall>j<1024. tab pt t j = (if 256 \<le> j \<and> j < 256 + n then himem_ptes s ! (j - 256) else tab pt s j))"
  using assms(2) unfolding t_def
proof (induction n)
  case (Suc n)
  let ?t = "fold (open_step pd) [0..<n] s"
  from Suc have IH: "low_table ?t pd pt" "himem_ptes ?t = himem_ptes s"
    "\<forall>j<1024. tab pt ?t j = (if 256 \<le> j \<and> j < 256 + n then himem_ptes s ! (j - 256) else tab pt s j)" by auto
  have idx: "(of_nat (256 + n) :: u32) < 1024"
    using Suc.prems by (simp add: word_less_nat_alt unat_word_ariths unsigned_of_nat take_bit_nat_eq_self del: of_nat_add)
  have st: "fold (open_step pd) [0..<Suc n] s = set_entry pt (of_nat (256 + n)) (himem_ptes s ! n) ?t"
    using low_set_pte[OF IH(1)] Suc.prems IH(2) by (simp add: open_step_def gate_offsets)
  have "tab pt (set_entry pt (of_nat (256 + n)) v u) j = (if 256 + n = j then v else tab pt u j)"
    if "j < 1024" for j v and u :: "'a vmach_scheme"
    by (rule tab_set_entry[OF low_table_aligned[OF assms(1)]]) (use that Suc.prems in simp_all)
  then have "tab pt (fold (open_step pd) [0..<Suc n] s) j =
      (if 256 \<le> j \<and> j < 256 + Suc n then himem_ptes s ! (j - 256) else tab pt s j)" if "j < 1024" for j
    unfolding st using that IH(3) Suc.prems by auto
  moreover have "low_table (fold (open_step pd) [0..<Suc n] s) pd pt"
    unfolding st by (rule low_table_set_entry[OF IH(1) idx])
  moreover have "himem_ptes (fold (open_step pd) [0..<Suc n] s) = himem_ptes s" unfolding st using IH(2) by simp
  ultimately show ?case by blast
qed (use assms(1) in auto)

lemma table_index: "\<exists>j<1024. page_table_offset a = of_nat j"
proof (intro exI conjI)
  show "unat (page_table_offset a) < 1024" using page_table_offset_less[of a] by (simp add: word_less_nat_alt)
qed simp

text \<open>
  the A20 gate is a round trip.  With the gate closed, each of the 16 pages from 1M on shows what the
  page 1M below it shows (without the right to free it), and every other page of the first four
  megabytes what it did; opening the gate again restores the mapping of all of them.
\<close>

theorem a20_gate_round_trip:
  fixes s :: "'a vmach_scheme"
  assumes "low_table s (vm_pd s) pt" and "a20_state s" and "length (himem_ptes s) = 16"
  shows "(\<forall>i<16. get_pte (set_gate_a20 False s) (vm_pd s) (himem_addr i) =
        get_pte s (vm_pd s) (lowmem_addr i) AND NOT PTE_FREEABLE)
    \<and> (\<forall>a. page_dir_offset a = 0 \<longrightarrow> (\<forall>i<16. page_table_offset a \<noteq> page_table_offset (himem_addr i)) \<longrightarrow>
        get_pte (set_gate_a20 False s) (vm_pd s) a = get_pte s (vm_pd s) a)
    \<and> (\<forall>a. page_dir_offset a = 0 \<longrightarrow>
        get_pte (set_gate_a20 True (set_gate_a20 False s)) (vm_pd s) a = get_pte s (vm_pd s) a)"
proof -
  let ?pd = "vm_pd s"
  define t where "t = fold (close_step ?pd) [0..<16] s"
  let ?t = "t\<lparr>a20_state := False\<rparr>"
  define u where "u = fold (open_step ?pd) [0..<16] ?t"
  have c: "low_table t ?pd pt" "\<And>i. i < 16 \<Longrightarrow> himem_ptes t ! i = tab pt s (256 + i)"
    "\<And>j. j < 1024 \<Longrightarrow> tab pt t j = (if 256 \<le> j \<and> j < 272 then tab pt s (j - 256) AND NOT PTE_FREEABLE else tab pt s j)"
    using close_loop[OF assms(1,3), of 16] by (auto simp: t_def)
  have t': "low_table ?t ?pd pt" "himem_ptes ?t = himem_ptes t" "tab pt ?t j = tab pt t j" for j
    using c(1) by (simp_all add: low_table_def entry_def table_page_def)
  have o: "low_table u ?pd pt" "\<And>j. j < 1024 \<Longrightarrow> tab pt u j = (if 256 \<le> j \<and> j < 272 then himem_ptes t ! (j - 256) else tab pt t j)"
    using open_loop[OF t'(1), of 16] by (auto simp: u_def t'(2,3))
  have closed: "set_gate_a20 False s = ?t"
    using assms(2) by (simp add: set_gate_a20_def t_def close_step_def[abs_def] Let_def)
  have "vm_pd ?t = ?pd"
    using frame_of_fold[of vm_pd "close_step ?pd" "[0..<16]" s, OF vm_pd_close] by (simp add: t_def vm_pd_def)
  then have opened: "set_gate_a20 True ?t = u\<lparr>a20_state := True\<rparr>"
    by (simp add: set_gate_a20_def u_def open_step_def[abs_def] Let_def)
  have u': "low_table (u\<lparr>a20_state := True\<rparr>) ?pd pt" "tab pt (u\<lparr>a20_state := True\<rparr>) j = tab pt u j" for j
    using o(1) by (simp_all add: low_table_def entry_def table_page_def)
  have "get_pte ?t ?pd (himem_addr i) = get_pte s ?pd (lowmem_addr i) AND NOT PTE_FREEABLE" if "i < 16" for i
    using that c(3)[of "256 + i"] t'(3)[of "256 + i"]
    by (simp add: low_get_pte[OF t'(1)] low_get_pte[OF assms(1)] gate_offsets)
  moreover have "get_pte ?t ?pd a = get_pte s ?pd a"
    if "page_dir_offset a = 0" "\<forall>i<16. page_table_offset a \<noteq> page_table_offset (himem_addr i)" for a
  proof -
    obtain j where j: "j < 1024" "page_table_offset a = of_nat j" using table_index by blast
    have notin: "\<not> (256 \<le> j \<and> j < 272)"
    proof
      assume *: "256 \<le> j \<and> j < 272"
      then have lt: "j - 256 < 16" by linarith
      then have "page_table_offset a = page_table_offset (himem_addr (j - 256))"
        using * j(2) gate_offsets(3)[OF lt] by (simp add: of_nat_diff)
      then show False using that(2)[rule_format, OF lt] by simp
    qed
    have "tab pt t j = tab pt s j" unfolding c(3)[OF j(1)] if_not_P[OF notin] ..
    then show ?thesis using that(1) t'(3) by (simp add: low_get_pte[OF t'(1)] low_get_pte[OF assms(1)] j(2))
  qed
  moreover have "get_pte (u\<lparr>a20_state := True\<rparr>) ?pd a = get_pte s ?pd a" if "page_dir_offset a = 0" for a
  proof -
    obtain j where j: "j < 1024" "page_table_offset a = of_nat j" using table_index by blast
    have "tab pt u j = tab pt s j"
      using o(2)[OF j(1)] c(3)[OF j(1)] c(2)[of "j - 256"] by (auto simp del: of_nat_add split: if_splits)
    then show ?thesis using that u' by (simp add: low_get_pte[OF u'(1)] low_get_pte[OF assms(1)] j(2))
  qed
  ultimately show ?thesis unfolding closed opened by blast
qed


lemma demo_stack_low_table: "low_table demo_stack (vm_pd demo_stack) 0x802000"
proof -
  have "vm_pd demo_stack = 0x801000" by (simp add: demo_stack_def vm_pd_def)
  then show ?thesis
    by (simp add: low_table_def page_aligned_def demo_stack_entries table_page_def pte_get_addr_def to_logical_def)
qed

theorem a20_gate_round_trip_witness:
  "get_pte (set_gate_a20 False demo_stack) (vm_pd demo_stack) (himem_addr 1) = 0x3007
   \<and> get_pte (set_gate_a20 True (set_gate_a20 False demo_stack)) (vm_pd demo_stack) (himem_addr 1) = 0"
proof -
  have "a20_state demo_stack" "length (himem_ptes demo_stack) = 16" by (simp_all add: demo_stack_def demo_machine_def)
  note t = a20_gate_round_trip[OF demo_stack_low_table this]
  have "get_pte demo_stack (vm_pd demo_stack) (lowmem_addr 1) = 0x3007"
    using low_get_pte[OF demo_stack_low_table, of "lowmem_addr 1"] by (simp add: gate_offsets demo_stack_entries)
  moreover have "get_pte demo_stack (vm_pd demo_stack) (himem_addr 1) = 0"
    using low_get_pte[OF demo_stack_low_table, of "himem_addr 1"]
    by (simp add: gate_offsets) (simp add: entry_def demo_stack_def load32_def store32_def)
  moreover have "page_dir_offset (himem_addr 1) = 0" by (simp add: gate_offsets)
  ultimately show ?thesis using t by simp
qed

section \<open>Slots\<close>

text \<open>
  while fewer than 32 slots are in use, alloc_vm_slot hands out the lowest free one and marks it, and
  freeing that slot restores the map; with all in use it returns -1 and changes nothing.
\<close>

theorem slot_alloc_free:
  "(if slot_bitmap s = 0xffffffff then alloc_vm_slot s = (-1, s)
    else \<exists>k<32. alloc_vm_slot s = (int k, s\<lparr>slot_bitmap := slot_bitmap s OR push_bit k 1\<rparr>)
      \<and> \<not> bit (slot_bitmap s) k \<and> (\<forall>j<k. bit (slot_bitmap s) j)
      \<and> slot_bitmap (free_vm_slot (int k) (snd (alloc_vm_slot s))) = slot_bitmap s)"
proof (cases "slot_bitmap s = 0xffffffff")
  case False
  let ?k = "bsf 0 (NOT (slot_bitmap s))"
  have "NOT (slot_bitmap s) \<noteq> 0"
  proof
    assume "NOT (slot_bitmap s) = 0"
    then have "slot_bitmap s = NOT 0" by (metis bit.double_compl)
    then show False using False by simp
  qed
  note b = bsf_least[OF this, where j = 0]
  have k: "?k < 32" "\<not> bit (slot_bitmap s) ?k" using b(1,2) by (simp_all add: bit_not_iff)
  have "\<forall>j<?k. bit (slot_bitmap s) j"
  proof (intro allI impI)
    fix j assume "j < ?k"
    then show "bit (slot_bitmap s) j" using b(3)[OF \<open>j < ?k\<close>] k(1) by (simp add: bit_not_iff)
  qed
  moreover have "(slot_bitmap s OR push_bit ?k 1) AND NOT (push_bit ?k 1) = slot_bitmap s"
    using k(2) by (intro bit_word_eqI) (auto simp: bit_simps)
  ultimately show ?thesis using False k by (simp add: alloc_vm_slot_def free_vm_slot_def Let_def)
qed (simp add: alloc_vm_slot_def)


theorem slot_alloc_free_witness: "fst (alloc_vm_slot (demo_machine\<lparr>slot_bitmap := 0xB\<rparr>)) = 2"
proof -
  obtain k where k: "fst (alloc_vm_slot (demo_machine\<lparr>slot_bitmap := 0xB\<rparr>)) = int k"
    "\<not> bit (0xB :: u32) k" "\<forall>j<k. bit (0xB :: u32) j"
    using slot_alloc_free[of "demo_machine\<lparr>slot_bitmap := 0xB\<rparr>"] by auto
  have b: "bit (0xB :: u32) 0" "bit (0xB :: u32) 1" "\<not> bit (0xB :: u32) 2" by simp_all
  have "k \<noteq> 0" "k \<noteq> 1" using k(2) b(1,2) by metis+
  moreover have "\<not> 2 < k" using k(3) b(3) by blast
  ultimately show ?thesis using k(1) by simp
qed

end
