(* ===== verification/FsState.thy ===== *)
theory FsState
  imports Memory
begin

text \<open>
  The data of the file system (vmm/fs.h): the structures kept on the disk as views of the
  bytes of a block, the in-core structures as records, the state of the module as one
  record, and the bit-string operations of vmm/bits.h.  A pointer into one of the pools is
  the index of its element.  The module runs in one task at a time here: the
  \<open>FORBID\<close> brackets and the \<open>locked\<close> flags that make other tasks wait
  are left out.
\<close>

unbundle bit_operations_syntax

section \<open>Bytes of a block\<close>

definition FS_BLKSIZ :: nat where "FS_BLKSIZ = 1024"

definition get_long :: "u8 list \<Rightarrow> nat \<Rightarrow> u32" where
  "get_long bs off = ucast (bs ! off) OR push_bit 8 (ucast (bs ! (off + 1)))
     OR push_bit 16 (ucast (bs ! (off + 2))) OR push_bit 24 (ucast (bs ! (off + 3)))"

definition long_bytes :: "u32 \<Rightarrow> u8 list" where
  "long_bytes v = [ucast v, ucast (drop_bit 8 v), ucast (drop_bit 16 v), ucast (drop_bit 24 v)]"

text \<open>\<open>memcpy(dst + off, src, n)\<close> inside an object.\<close>

definition put_bytes :: "u8 list \<Rightarrow> nat \<Rightarrow> u8 list \<Rightarrow> u8 list" where
  "put_bytes dst off src = take off dst @ src @ drop (off + length src) dst"

definition get_bytes :: "u8 list \<Rightarrow> nat \<Rightarrow> nat \<Rightarrow> u8 list" where
  "get_bytes src off n = take n (drop off src)"

definition set_long :: "u8 list \<Rightarrow> nat \<Rightarrow> u32 \<Rightarrow> u8 list" where
  "set_long bs off v = put_bytes bs off (long_bytes v)"

section \<open>Structures on the disk\<close>

record super_data =
  total_blocks :: u32
  inode_bitmap :: u32
  inodes :: u32
  num_inodes :: u32
  data_bitmap :: u32
  data_start :: u32
  data_size :: u32

text \<open>The boot block: 480 bytes of code, the super block, the magic number.\<close>

definition SUP_OFFSET :: nat where "SUP_OFFSET = 480"
definition MAGIC_OFFSET :: nat where "MAGIC_OFFSET = 508"
definition FS_BOOT_MAGIC :: u32 where "FS_BOOT_MAGIC = 0xAA554d57"
definition FS_NOBOOT_MAGIC :: u32 where "FS_NOBOOT_MAGIC = 0x00004d57"

definition get_super :: "u8 list \<Rightarrow> super_data" where
  "get_super bs = \<lparr>total_blocks = get_long bs SUP_OFFSET, inode_bitmap = get_long bs (SUP_OFFSET + 4),
     inodes = get_long bs (SUP_OFFSET + 8), num_inodes = get_long bs (SUP_OFFSET + 12),
     data_bitmap = get_long bs (SUP_OFFSET + 16), data_start = get_long bs (SUP_OFFSET + 20),
     data_size = get_long bs (SUP_OFFSET + 24)\<rparr>"

definition super_bytes :: "super_data \<Rightarrow> u8 list" where
  "super_bytes sd = long_bytes (total_blocks sd) @ long_bytes (inode_bitmap sd) @ long_bytes (inodes sd) @
     long_bytes (num_inodes sd) @ long_bytes (data_bitmap sd) @ long_bytes (data_start sd) @
     long_bytes (data_size sd)"

text \<open>\<open>struct inode\<close>: 64 bytes, sixteen to a block, twelve block pointers.\<close>

record inode =
  attr :: u32
  fsize :: u32
  modtime :: u32
  nlinks :: u32
  blocks :: "u32 list"

definition INODE_SIZE :: nat where "INODE_SIZE = 64"
definition INODES_PER_BLOCK :: u32 where "INODES_PER_BLOCK = 16"
definition PTRS_PER_INDIRECT :: u32 where "PTRS_PER_INDIRECT = 256"
definition SINGLE_INDIRECT :: u32 where "SINGLE_INDIRECT = 9"
definition DOUBLE_INDIRECT :: u32 where "DOUBLE_INDIRECT = 10"
definition TRIPLE_INDIRECT :: u32 where "TRIPLE_INDIRECT = 11"

definition get_inode :: "u8 list \<Rightarrow> nat \<Rightarrow> inode" where
  "get_inode bs off = \<lparr>attr = get_long bs off, fsize = get_long bs (off + 4), modtime = get_long bs (off + 8),
     nlinks = get_long bs (off + 12), blocks = map (\<lambda>i. get_long bs (off + 16 + 4 * i)) [0..<12]\<rparr>"

definition inode_bytes :: "inode \<Rightarrow> u8 list" where
  "inode_bytes i = long_bytes (attr i) @ long_bytes (fsize i) @ long_bytes (modtime i) @
     long_bytes (nlinks i) @ concat (map long_bytes (blocks i))"

definition ATTR_NO_READ :: u32 where "ATTR_NO_READ = 1"
definition ATTR_NO_WRITE :: u32 where "ATTR_NO_WRITE = 2"
definition ATTR_MODE_MASK :: u32 where "ATTR_MODE_MASK = 0xff"
definition ATTR_DIRECTORY :: u32 where "ATTR_DIRECTORY = 0x10000"
definition ATTR_SYMLINK :: u32 where "ATTR_SYMLINK = 0x20000"

section \<open>Structures in memory\<close>

text \<open>
  A device: the driver's part is the contents of the medium, the blocks it can transfer and
  what \<open>test_media\<close> will answer (\<open>None\<close> when the function pointer is NULL).
\<close>

record fs_device =
  dev_name :: "u8 list"
  medium :: "u32 \<Rightarrow> u8 list"
  good_block :: "u32 \<Rightarrow> bool"
  media_code :: "int option"
  sup :: super_data
  root :: "nat option"
  dev_use :: int
  read_only :: bool
  dev_invalid :: bool

record buf_head =
  b_dev :: "nat option"
  b_blkno :: u32
  b_use :: int
  b_dirty :: bool
  b_invalid :: bool
  b_data :: "u8 list"

record core_inode =
  i_use :: int
  i_dev :: nat
  i_inode :: inode
  inum :: u32
  i_dirty :: bool
  i_invalid :: bool

record fs_file =
  f_inode :: nat
  f_mode :: u32
  f_pos :: u32

definition NR_DEVICES :: nat where "NR_DEVICES = 20"
definition NR_BUFFERS :: nat where "NR_BUFFERS = 20"
definition BUFFER_BUCKETS :: nat where "BUFFER_BUCKETS = 4"
definition NR_INODES :: nat where "NR_INODES = 30"
definition NR_FILES :: nat where "NR_FILES = 50"

definition F_READ :: u32 where "F_READ = 1"
definition F_WRITE :: u32 where "F_WRITE = 2"
definition F_CREATE :: u32 where "F_CREATE = 4"
definition F_TRUNCATE :: u32 where "F_TRUNCATE = 8"
definition F_ALLOW_DIR :: u32 where "F_ALLOW_DIR = 16"
definition F_DONT_LINK :: u32 where "F_DONT_LINK = 32"

definition E_NOEXIST :: int where "E_NOEXIST = 1"
definition E_NODEV :: int where "E_NODEV = 2"
definition E_EXISTS :: int where "E_EXISTS = 3"
definition E_PERM :: int where "E_PERM = 4"
definition E_NOTDIR :: int where "E_NOTDIR = 5"
definition E_ISDIR :: int where "E_ISDIR = 6"
definition E_NOSPC :: int where "E_NOSPC = 7"
definition E_BADMAGIC :: int where "E_BADMAGIC = 10"
definition E_DISKCHANGE :: int where "E_DISKCHANGE = 12"
definition E_IO :: int where "E_IO = 13"
definition E_NODISK :: int where "E_NODISK = 14"
definition E_BADARG :: int where "E_BADARG = 15"
definition E_XDEV :: int where "E_XDEV = 16"
definition E_NOMEM :: int where "E_NOMEM = 17"
definition E_INVALID :: int where "E_INVALID = 18"
definition E_NOTLINK :: int where "E_NOTLINK = 20"
definition E_MAXLINKS :: int where "E_MAXLINKS = 21"

text \<open>
  The module's variables, with the part of the current task it uses (\<open>ERRNO\<close> and the
  current directory), the clock, and four facts no variable holds: \<open>junk\<close> is the byte an uninitialised
  \<open>char\<close> has, \<open>overrun\<close> tells that a copy or a search has left
  the memory it belongs to, a buffer of the cache or the 1024 bytes of \<open>tmp_dir_blk\<close>,
  after which C promises nothing more of the run, \<open>stack_overrun\<close> that it has left a name
  buffer on the stack, and \<open>hung\<close> that a call would not have returned.
\<close>

record fsys =
  devices :: "nat \<Rightarrow> fs_device"
  device_list :: "nat list"
  dev_free_list :: "nat list"
  buffer_pool :: "nat \<Rightarrow> buf_head"
  buffer_table :: "nat \<Rightarrow> nat list"
  bh_free_list :: "nat list"
  last_bucket :: nat
  total_accessed :: u32
  cached_accesses :: u32
  dirty_accesses :: u32
  inode_pool :: "nat \<Rightarrow> core_inode"
  inode_open_list :: "nat list"
  inode_free_list :: "nat list"
  file_pool :: "nat \<Rightarrow> fs_file"
  file_free_list :: "nat list"
  root_dir :: "u8 list"
  symlink_nesting :: int
  current_dir :: "nat option"
  errno :: int
  now :: u32
  tmp_bb :: "u8 list"
  tmp_dir_blk :: "u8 list"
  junk :: u8
  overrun :: bool
  stack_overrun :: bool
  hung :: bool

definition note_overrun :: "bool \<Rightarrow> fsys \<Rightarrow> fsys" where
  "note_overrun b s = (if b then s\<lparr>overrun := True\<rparr> else s)"

lemma no_overrun [simp]: "\<not> b \<Longrightarrow> note_overrun b s = s"
  by (simp add: note_overrun_def)

text \<open>Assignment to one field of an element of a pool.\<close>

definition dev_upd :: "nat \<Rightarrow> (fs_device \<Rightarrow> fs_device) \<Rightarrow> fsys \<Rightarrow> fsys" where
  "dev_upd d f s = s\<lparr>devices := (devices s)(d := f (devices s d))\<rparr>"

definition buf_upd :: "nat \<Rightarrow> (buf_head \<Rightarrow> buf_head) \<Rightarrow> fsys \<Rightarrow> fsys" where
  "buf_upd x f s = s\<lparr>buffer_pool := (buffer_pool s)(x := f (buffer_pool s x))\<rparr>"

definition ino_upd :: "nat \<Rightarrow> (core_inode \<Rightarrow> core_inode) \<Rightarrow> fsys \<Rightarrow> fsys" where
  "ino_upd i f s = s\<lparr>inode_pool := (inode_pool s)(i := f (inode_pool s i))\<rparr>"

definition file_upd :: "nat \<Rightarrow> (fs_file \<Rightarrow> fs_file) \<Rightarrow> fsys \<Rightarrow> fsys" where
  "file_upd f g s = s\<lparr>file_pool := (file_pool s)(f := g (file_pool s f))\<rparr>"

abbreviation dev_of :: "fsys \<Rightarrow> nat \<Rightarrow> nat" where
  "dev_of s i \<equiv> i_dev (inode_pool s i)"

section \<open>Bit strings\<close>

text \<open>vmm/bits.h works on the bytes of the string.\<close>

definition set_bit_at :: "u8 list \<Rightarrow> nat \<Rightarrow> u8 list" where
  "set_bit_at bits n = bits[n div 8 := (bits ! (n div 8)) OR push_bit (n mod 8) 1]"

definition clear_bit_at :: "u8 list \<Rightarrow> nat \<Rightarrow> u8 list" where
  "clear_bit_at bits n = bits[n div 8 := (bits ! (n div 8)) AND NOT (push_bit (n mod 8) 1)]"

definition test_bit_at :: "u8 list \<Rightarrow> nat \<Rightarrow> bool" where
  "test_bit_at bits n \<longleftrightarrow> (bits ! (n div 8)) AND push_bit (n mod 8) 1 \<noteq> 0"

text \<open>
  \<open>find_zero_bit\<close>: \<open>repe scasl\<close> finds the first of the \<open>(len + 31) / 32\<close>
  words that is not all ones, \<open>bsfl\<close> the first zero bit in it; the result is -1 when
  there is none.
\<close>

definition find_zero_bit :: "u8 list \<Rightarrow> nat \<Rightarrow> int" where
  "find_zero_bit bits len =
     (case List.find (\<lambda>k. get_long bits (4 * k) \<noteq> 0xffffffff) [0..<(len + 31) div 32] of
        None \<Rightarrow> -1
      | Some k \<Rightarrow> (case List.find (\<lambda>n. \<not> bit (get_long bits (4 * k)) n) [0..<32] of
          None \<Rightarrow> -1
        | Some n \<Rightarrow> int (32 * k + n)))"

end
