(* ===== verification/FsCache.thy ===== *)
theory FsCache
  imports FsState
begin

text \<open>
  fs/dev.c, fs/buffer.c and the part of fs/inode.c they call: the list of devices, the
  buffer cache, reading an inode into memory.  The calls form a circle (testing the medium
  may re-validate the device, which reads its root inode through the buffer cache, which
  tests the medium), so the operations inside it take the operation that closes the circle
  as an argument (\<open>..._with\<close>).  The circle is run through at most twice, because a
  driver reports a changed disk once: the inner operations are those of \<open>test_media0\<close>.
\<close>

section \<open>The driver\<close>

text \<open>
  The drivers return 1 for a block that was transferred and \<open>E_IO\<close> for one that was
  not (\<open>hd_fs_read_blocks\<close>, \<open>ramdisk_fs_read_blocks\<close>, \<open>floppy_read_block\<close>);
  a block that was not read leaves the caller's memory as it was.  The macros call the driver
  through the device's function pointers; these definitions are what those calls amount to
  for every driver of the source, with the medium and the blocks that can be transferred as
  fields of the device.
\<close>

definition fs_read_blocks :: "nat \<Rightarrow> u32 \<Rightarrow> fsys \<Rightarrow> int \<times> u8 list option" where
  "fs_read_blocks d blk s =
     (if good_block (devices s d) blk then (1, Some (medium (devices s d) blk)) else (E_IO, None))"

definition fs_write_blocks :: "nat \<Rightarrow> u32 \<Rightarrow> u8 list \<Rightarrow> fsys \<Rightarrow> int \<times> fsys" where
  "fs_write_blocks d blk bs s =
     (if good_block (devices s d) blk
      then (1, dev_upd d (\<lambda>v. v\<lparr>medium := (medium v)(blk := bs)\<rparr>) s) else (E_IO, s))"

section \<open>Devices\<close>

definition init_devices :: "fsys \<Rightarrow> fsys" where
  "init_devices s = s\<lparr>dev_free_list := [0..<NR_DEVICES]\<rparr>"

definition alloc_device :: "fsys \<Rightarrow> nat option \<times> fsys" where
  "alloc_device s = (case dev_free_list s of [] \<Rightarrow> (None, s)
     | d # ds \<Rightarrow> (Some d, s\<lparr>dev_free_list := ds\<rparr>))"

definition free_device :: "nat \<Rightarrow> fsys \<Rightarrow> fsys" where
  "free_device d s = s\<lparr>dev_free_list := d # dev_free_list s\<rparr>"

text \<open>\<open>TO_UPPER\<close> adds 0x20 to a lower-case letter.\<close>

definition TO_UPPER :: "u8 \<Rightarrow> u8" where
  "TO_UPPER c = (if c \<ge> 0x61 \<and> c \<le> 0x7a then c + 0x20 else c)"

definition devcmp :: "u8 list \<Rightarrow> u8 list \<Rightarrow> bool" where
  "devcmp p q \<longleftrightarrow> map TO_UPPER p = map TO_UPPER q"

definition get_device :: "u8 list \<Rightarrow> fsys \<Rightarrow> nat option \<times> fsys" where
  "get_device name s =
     (case List.find (\<lambda>d. devcmp name (dev_name (devices s d))) (device_list s) of
        None \<Rightarrow> (None, s)
      | Some d \<Rightarrow> (Some d, dev_upd d (\<lambda>v. v\<lparr>dev_use := dev_use v + 1\<rparr>) s))"

section \<open>Invalidating a device\<close>

definition flush_device_cache :: "nat \<Rightarrow> bool \<Rightarrow> fsys \<Rightarrow> fsys" where
  "flush_device_cache d dont_write s =
     fold (\<lambda>x s.
       if b_dev (buffer_pool s x) = Some d
       then (let s1 = buf_upd x (\<lambda>b. b\<lparr>b_invalid := True\<rparr>) s in
             if b_dirty (buffer_pool s1 x) \<and> \<not> dont_write
             then snd (fs_write_blocks d (b_blkno (buffer_pool s1 x)) (b_data (buffer_pool s1 x))
                    (buf_upd x (\<lambda>b. b\<lparr>b_dirty := False\<rparr>) s1))
             else s1)
       else s) [0..<NR_BUFFERS] s"

definition invalidate_device_inodes :: "nat \<Rightarrow> fsys \<Rightarrow> bool \<times> fsys" where
  "invalidate_device_inodes d s =
     (\<forall>i\<in>set (inode_open_list s). dev_of s i \<noteq> d,
      s\<lparr>inode_pool := (\<lambda>i. if i \<in> set (inode_open_list s) \<and> dev_of s i = d
          then (inode_pool s i)\<lparr>i_invalid := True\<rparr> else inode_pool s i)\<rparr>)"

text \<open>
  \<open>close_inode\<close>, over the functions that write an inode, that delete the data of an
  unlinked one and that release the device.
\<close>

definition close_inode_with ::
  "(nat \<Rightarrow> fsys \<Rightarrow> fsys) \<Rightarrow> (nat \<Rightarrow> fsys \<Rightarrow> fsys) \<Rightarrow> (nat \<Rightarrow> fsys \<Rightarrow> fsys) \<Rightarrow> nat \<Rightarrow> fsys \<Rightarrow> fsys" where
  "close_inode_with wr del rel i s =
     (let s1 = (if \<not> i_invalid (inode_pool s i) then wr i s else s);
          s2 = ino_upd i (\<lambda>v. v\<lparr>i_use := i_use v - 1\<rparr>) s1
      in if i_use (inode_pool s2 i) = 0
         then (let s3 = s2\<lparr>inode_open_list := remove1 i (inode_open_list s2)\<rparr>;
                   s4 = (if \<not> i_invalid (inode_pool s3 i) \<and> nlinks (i_inode (inode_pool s3 i)) = 0
                         then del i s3 else s3);
                   s5 = rel (dev_of s4 i) s4
               in s5\<lparr>inode_free_list := i # inode_free_list s5\<rparr>)
         else s2)"

definition release_device_with :: "(nat \<Rightarrow> fsys \<Rightarrow> fsys) \<Rightarrow> nat \<Rightarrow> fsys \<Rightarrow> fsys" where
  "release_device_with invd d s =
     (let s1 = dev_upd d (\<lambda>v. v\<lparr>dev_use := dev_use v - 1\<rparr>) s
      in if dev_use (devices s1 d) \<le> 0 then free_device d (invd d s1) else s1)"

text \<open>
  \<open>invalidate_device\<close> marks the root inode invalid before it closes it, so that the
  close writes and deletes nothing; but it may release the device, and that invalidates it
  again.  The argument \<open>n\<close> bounds this nesting; two levels are enough
  (\<open>invalidate_device_depth\<close>).
\<close>

primrec invalidate_device_n :: "nat \<Rightarrow> nat \<Rightarrow> fsys \<Rightarrow> fsys" where
  "invalidate_device_n 0 d s = s"
| "invalidate_device_n (Suc n) d s =
     (if dev_invalid (devices s d) then s
      else (let s1 = (case root (devices s d) of None \<Rightarrow> s
                | Some r \<Rightarrow> close_inode_with (\<lambda>i s. s) (\<lambda>i s. s) (release_device_with (invalidate_device_n n)) r
                    (ino_upd r (\<lambda>v. v\<lparr>i_invalid := True\<rparr>) s));
                s2 = dev_upd d (\<lambda>v. v\<lparr>root := None, dev_invalid := True\<rparr>) s1
            in snd (invalidate_device_inodes d (flush_device_cache d True s2))))"

definition invalidate_device :: "nat \<Rightarrow> fsys \<Rightarrow> fsys" where
  "invalidate_device = invalidate_device_n 2"

text \<open>
  The second run finds the root inode with a use count of zero already and only takes one off
  it, so it does not come to a third.
\<close>

lemma invalidate_device_depth:
  assumes "\<And>r. root (devices s d) = Some r \<Longrightarrow> dev_of s r = d"
  shows "invalidate_device_n (Suc (Suc n)) d s = invalidate_device d s"
proof (cases "root (devices s d)")
  case None then show ?thesis by (simp add: invalidate_device_def numeral_2_eq_2)
next
  case (Some r)
  note d = assms[OF Some]
  define t where "t = ino_upd r (\<lambda>v. v\<lparr>i_invalid := True\<rparr>) s"
  define u where "u = (ino_upd r (\<lambda>v. v\<lparr>i_use := i_use v - 1\<rparr>) t)\<lparr>inode_open_list := remove1 r (inode_open_list t)\<rparr>"
  have t: "i_invalid (inode_pool t r)" "root (devices u d) = Some r" "dev_of u r = d"
    "i_use (inode_pool u r) = i_use (inode_pool t r) - 1"
    using Some d by (simp_all add: t_def u_def ino_upd_def)
  have inner: "invalidate_device_n (Suc m) d w = invalidate_device_n (Suc 0) d w"
    if "root (devices w d) = Some r" "i_use (inode_pool w r) = 0" for m w
    using that by (simp add: close_inode_with_def Let_def) (simp add: ino_upd_def)
  have rel: "release_device_with (invalidate_device_n (Suc n)) d u = release_device_with (invalidate_device_n (Suc 0)) d u"
    if "i_use (inode_pool u r) = 0"
  proof -
    let ?w = "dev_upd d (\<lambda>v. v\<lparr>dev_use := dev_use v - 1\<rparr>) u"
    have "root (devices ?w d) = Some r" "i_use (inode_pool ?w r) = 0" using t(2) that by (simp_all add: dev_upd_def)
    from inner[OF this, of n] show ?thesis by (simp add: release_device_with_def Let_def del: invalidate_device_n.simps)
  qed
  have close: "close_inode_with (\<lambda>i s. s) (\<lambda>i s. s) (release_device_with (invalidate_device_n m)) r t =
      (if i_use (inode_pool u r) = 0
       then (let v = release_device_with (invalidate_device_n m) d u in v\<lparr>inode_free_list := r # inode_free_list v\<rparr>)
       else ino_upd r (\<lambda>v. v\<lparr>i_use := i_use v - 1\<rparr>) t)" for m
    using t(1,3) by (simp add: close_inode_with_def Let_def u_def) (simp add: ino_upd_def)
  have "close_inode_with (\<lambda>i s. s) (\<lambda>i s. s) (release_device_with (invalidate_device_n (Suc n))) r t =
      close_inode_with (\<lambda>i s. s) (\<lambda>i s. s) (release_device_with (invalidate_device_n (Suc 0))) r t"
    unfolding close using rel by (cases "i_use (inode_pool u r) = 0") simp_all
  then show ?thesis
    unfolding invalidate_device_def numeral_2_eq_2 invalidate_device_n.simps(2)[of "Suc n" d s]
      invalidate_device_n.simps(2)[of "Suc 0" d s] Some option.case t_def[symmetric] by (simp only:)
qed

definition release_device :: "nat \<Rightarrow> fsys \<Rightarrow> fsys" where
  "release_device = release_device_with invalidate_device"

text \<open>\<open>handle_device_error\<close> always answers FALSE.\<close>

definition handle_device_error :: "nat \<Rightarrow> fsys \<Rightarrow> bool \<times> fsys" where
  "handle_device_error x s =
     (False, if errno s = E_NODISK then
        (case b_dev (buffer_pool s x) of Some d \<Rightarrow> invalidate_device d s | None \<Rightarrow> s) else s)"

text \<open>
  \<open>test_media\<close>, over the function that validates the device again.  A driver that has
  reported a changed disk answers 0 from then on.
\<close>

definition test_media_with :: "(nat \<Rightarrow> fsys \<Rightarrow> bool \<times> fsys) \<Rightarrow> nat \<Rightarrow> fsys \<Rightarrow> bool \<times> fsys" where
  "test_media_with validate d s =
     (case media_code (devices s d) of None \<Rightarrow> (True, s)
      | Some c \<Rightarrow>
          if c = E_NODISK then
            (False, (if \<not> dev_invalid (devices s d) then invalidate_device d s else s)\<lparr>errno := E_NODISK\<rparr>)
          else if c = E_DISKCHANGE then
            (let s1 = dev_upd d (\<lambda>v. v\<lparr>media_code := Some 0\<rparr>) s;
                 s2 = (if \<not> dev_invalid (devices s1 d) then invalidate_device d s1 else s1)
             in validate d (s2\<lparr>errno := E_DISKCHANGE\<rparr>))
          else (\<not> dev_invalid (devices s d), s))"

definition read_meta_data :: "nat \<Rightarrow> fsys \<Rightarrow> bool \<times> fsys" where
  "read_meta_data d s =
     (let (rc, bs) = fs_read_blocks d 0 s;
          s1 = s\<lparr>tmp_bb := (case bs of Some b \<Rightarrow> b | None \<Rightarrow> tmp_bb s), errno := rc\<rparr>
      in if rc < 0 then (False, s1)
         else if get_long (tmp_bb s1) MAGIC_OFFSET \<noteq> FS_BOOT_MAGIC
               \<and> get_long (tmp_bb s1) MAGIC_OFFSET \<noteq> FS_NOBOOT_MAGIC
         then (False, s1\<lparr>errno := E_BADMAGIC\<rparr>)
         else (True, dev_upd d (\<lambda>v. v\<lparr>sup := get_super (tmp_bb s1), read_only := False\<rparr>) s1))"

definition validate_device_with ::
  "(nat \<Rightarrow> u32 \<Rightarrow> fsys \<Rightarrow> nat option \<times> fsys) \<Rightarrow> nat \<Rightarrow> fsys \<Rightarrow> bool \<times> fsys" where
  "validate_device_with mk d s =
     (if \<not> dev_invalid (devices s d) then (True, s)
      else (case read_meta_data d s of (False, s1) \<Rightarrow> (False, s1)
        | (True, s1) \<Rightarrow>
            (let (r, s2) = mk d 0 (dev_upd d (\<lambda>v. v\<lparr>dev_invalid := False\<rparr>) s1);
                 s3 = dev_upd d (\<lambda>v. v\<lparr>root := r\<rparr>) s2
             in (r \<noteq> None, s3))))"

section \<open>Buffers\<close>

definition BUFFER_HASH :: "u32 \<Rightarrow> nat" where
  "BUFFER_HASH blk = unat (blk mod 4)"

definition init_buffers :: "fsys \<Rightarrow> fsys" where
  "init_buffers s = s\<lparr>buffer_table := (\<lambda>_. []), bh_free_list := [0..<NR_BUFFERS]\<rparr>"

definition kill_buffers :: "fsys \<Rightarrow> fsys" where
  "kill_buffers s = fold (\<lambda>x s.
     if b_dirty (buffer_pool s x)
     then (case b_dev (buffer_pool s x) of None \<Rightarrow> s
       | Some d \<Rightarrow> snd (fs_write_blocks d (b_blkno (buffer_pool s x)) (b_data (buffer_pool s x)) s))
     else s) [0..<NR_BUFFERS] s"

definition find_buffer :: "nat \<Rightarrow> u32 \<Rightarrow> fsys \<Rightarrow> nat option" where
  "find_buffer d blk s = List.find (\<lambda>x. b_blkno (buffer_pool s x) = blk \<and> b_dev (buffer_pool s x) = Some d
       \<and> \<not> b_invalid (buffer_pool s x)) (buffer_table s (BUFFER_HASH blk))"

text \<open>\<open>remove_node\<close> and \<open>prepend_node\<close> on the chain of a block.\<close>

definition unchain :: "nat \<Rightarrow> fsys \<Rightarrow> fsys" where
  "unchain x s = (let h = BUFFER_HASH (b_blkno (buffer_pool s x)) in
     s\<lparr>buffer_table := (buffer_table s)(h := remove1 x (buffer_table s h))\<rparr>)"

definition chain_buffer :: "u32 \<Rightarrow> nat \<Rightarrow> fsys \<Rightarrow> fsys" where
  "chain_buffer blk x s = s\<lparr>buffer_table := (buffer_table s)(BUFFER_HASH blk := x # buffer_table s (BUFFER_HASH blk))\<rparr>"

definition free_buffer :: "nat \<Rightarrow> fsys \<Rightarrow> fsys" where
  "free_buffer x s = s\<lparr>bh_free_list := x # bh_free_list s\<rparr>"

text \<open>The write of a buffer to its device; the result goes to \<open>ERRNO\<close>.\<close>

definition write_buffer :: "nat \<Rightarrow> fsys \<Rightarrow> fsys" where
  "write_buffer x s = (case b_dev (buffer_pool s x) of None \<Rightarrow> s
     | Some d \<Rightarrow> (let (rc, s1) = fs_write_blocks d (b_blkno (buffer_pool s x)) (b_data (buffer_pool s x)) s
                  in s1\<lparr>errno := rc\<rparr>))"

text \<open>
  \<open>make_free_buffer\<close>: up to four chains are searched from their tails for a buffer
  nobody uses, beginning behind the chain of the last search.  \<open>last_bucket\<close> is a
  static variable.
\<close>

primrec make_free_buffer_n :: "nat \<Rightarrow> fsys \<Rightarrow> bool \<times> fsys" where
  "make_free_buffer_n 0 s = (False, s\<lparr>errno := E_NOMEM\<rparr>)"
| "make_free_buffer_n (Suc n) s =
     (let s1 = s\<lparr>last_bucket := (last_bucket s + 1) mod BUFFER_BUCKETS\<rparr>
      in case List.find (\<lambda>x. b_use (buffer_pool s1 x) = 0) (rev (buffer_table s1 (last_bucket s1))) of
           None \<Rightarrow> make_free_buffer_n n s1
         | Some x \<Rightarrow>
             (let s2 = s1\<lparr>buffer_table := (buffer_table s1)(last_bucket s1 := remove1 x (buffer_table s1 (last_bucket s1)))\<rparr>;
                  s3 = (if b_dirty (buffer_pool s2 x) then
                          (let s4 = write_buffer x s2;
                               s5 = (if errno s4 < 0 then s4 else snd (handle_device_error x s4))
                           in s5\<lparr>dirty_accesses := dirty_accesses s5 + 1\<rparr>)
                        else s2)
              in (True, free_buffer x s3)))"

definition make_free_buffer :: "fsys \<Rightarrow> bool \<times> fsys" where
  "make_free_buffer = make_free_buffer_n BUFFER_BUCKETS"

text \<open>
  The part \<open>bread\<close> and \<open>bwrite\<close> share: a cached buffer moves to the head of
  its chain; otherwise a free buffer is taken, made free if there is none.  The second
  search of the chains after \<open>make_free_buffer\<close> finds nothing either.
\<close>

definition touch_buffer :: "u32 \<Rightarrow> nat \<Rightarrow> fsys \<Rightarrow> fsys" where
  "touch_buffer blk x s =
     (let s1 = buf_upd x (\<lambda>b. b\<lparr>b_use := b_use b + 1\<rparr>) s;
          s2 = chain_buffer blk x (unchain x s1)
      in s2\<lparr>cached_accesses := cached_accesses s2 + 1\<rparr>)"

definition take_free_buffer :: "fsys \<Rightarrow> nat option \<times> fsys" where
  "take_free_buffer s =
     (let s1 = (if bh_free_list s = [] then snd (make_free_buffer s) else s)
      in case bh_free_list s1 of [] \<Rightarrow> (None, s1)
         | x # xs \<Rightarrow> (Some x, s1\<lparr>bh_free_list := xs\<rparr>))"

definition bread_with :: "(nat \<Rightarrow> fsys \<Rightarrow> bool \<times> fsys) \<Rightarrow> nat \<Rightarrow> u32 \<Rightarrow> fsys \<Rightarrow> nat option \<times> fsys" where
  "bread_with tm d blk s =
     (case tm d s of (False, s1) \<Rightarrow> (None, s1)
      | (True, s1) \<Rightarrow>
          (let s2 = s1\<lparr>total_accessed := total_accessed s1 + 1\<rparr>
           in case find_buffer d blk s2 of Some x \<Rightarrow> (Some x, touch_buffer blk x s2)
            | None \<Rightarrow>
                (case take_free_buffer s2 of (None, s3) \<Rightarrow> (None, s3)
                 | (Some x, s3) \<Rightarrow>
                     (let s4 = chain_buffer blk x s3;
                          (rc, bs) = fs_read_blocks d blk s4;
                          s5 = buf_upd x (\<lambda>b. b\<lparr>b_dev := Some d, b_blkno := blk, b_use := 1, b_dirty := False,
                                 b_invalid := False, b_data := (case bs of Some c \<Rightarrow> c | None \<Rightarrow> b_data b)\<rparr>) s4;
                          s6 = s5\<lparr>errno := rc\<rparr>
                      in if rc < 0
                         then (None, free_buffer x (unchain x (snd (handle_device_error x s6))))
                         else (Some x, s6)))))"

definition brelse_with :: "(nat \<Rightarrow> fsys \<Rightarrow> bool \<times> fsys) \<Rightarrow> nat \<Rightarrow> fsys \<Rightarrow> fsys" where
  "brelse_with tm x s =
     (let s1 = (case b_dev (buffer_pool s x) of Some d \<Rightarrow> snd (tm d s) | None \<Rightarrow> s)
      in if b_use (buffer_pool s1 x) = 1 \<and> b_invalid (buffer_pool s1 x)
         then free_buffer x (unchain x s1)
         else (let s2 = (if b_dirty (buffer_pool s1 x)
                 then (let s3 = write_buffer x (buf_upd x (\<lambda>b. b\<lparr>b_dirty := False\<rparr>) s1)
                       in if errno s3 < 0
                          then buf_upd x (\<lambda>b. b\<lparr>b_dirty := True\<rparr>) (snd (handle_device_error x s3)) else s3)
                 else s1)
               in buf_upd x (\<lambda>b. b\<lparr>b_use := b_use b - 1\<rparr>) s2))"

section \<open>Inodes in memory\<close>

definition init_inodes :: "fsys \<Rightarrow> fsys" where
  "init_inodes s = s\<lparr>inode_free_list := [0..<NR_INODES], inode_open_list := []\<rparr>"

definition inode_blkno :: "nat \<Rightarrow> fsys \<Rightarrow> u32" where
  "inode_blkno i s = inum (inode_pool s i) div INODES_PER_BLOCK + inodes (sup (devices s (dev_of s i)))"

definition inode_offset :: "nat \<Rightarrow> fsys \<Rightarrow> nat" where
  "inode_offset i s = INODE_SIZE * unat (inum (inode_pool s i) mod INODES_PER_BLOCK)"

definition read_inode_with :: "(nat \<Rightarrow> fsys \<Rightarrow> bool \<times> fsys) \<Rightarrow> nat \<Rightarrow> fsys \<Rightarrow> bool \<times> fsys" where
  "read_inode_with tm i s =
     (let s1 = snd (tm (dev_of s i) s)
      in if i_invalid (inode_pool s1 i) then (False, s1\<lparr>errno := E_INVALID\<rparr>)
         else (case bread_with tm (dev_of s1 i) (inode_blkno i s1) s1 of (None, s2) \<Rightarrow> (False, s2)
           | (Some x, s2) \<Rightarrow>
               (True, brelse_with tm x (ino_upd i (\<lambda>v. v\<lparr>i_dirty := False,
                  i_inode := get_inode (b_data (buffer_pool s2 x)) (inode_offset i s2)\<rparr>) s2))))"

text \<open>
  \<open>make_inode\<close>.  When the inode cannot be read, the head of the list of open inodes is
  set to its successor.
\<close>

definition make_inode_with :: "(nat \<Rightarrow> fsys \<Rightarrow> bool \<times> fsys) \<Rightarrow> nat \<Rightarrow> u32 \<Rightarrow> fsys \<Rightarrow> nat option \<times> fsys" where
  "make_inode_with tm d n s =
     (case tm d s of (False, s1) \<Rightarrow> (None, s1)
      | (True, s1) \<Rightarrow>
          (case List.find (\<lambda>i. inum (inode_pool s1 i) = n \<and> dev_of s1 i = d \<and> \<not> i_invalid (inode_pool s1 i))
                  (inode_open_list s1) of
             Some i \<Rightarrow> (Some i, ino_upd i (\<lambda>v. v\<lparr>i_use := i_use v + 1\<rparr>) s1)
           | None \<Rightarrow>
               (case inode_free_list s1 of [] \<Rightarrow> (None, s1\<lparr>errno := E_NOMEM\<rparr>)
                | i # is \<Rightarrow>
                    (let s2 = s1\<lparr>inode_free_list := is, inode_open_list := i # inode_open_list s1\<rparr>;
                         s3 = ino_upd i (\<lambda>v. v\<lparr>i_use := 1, i_dev := d, inum := n, i_invalid := False\<rparr>) s2;
                         s4 = dev_upd d (\<lambda>v. v\<lparr>dev_use := dev_use v + 1\<rparr>) s3
                     in case read_inode_with tm i s4 of
                          (True, s5) \<Rightarrow> (Some i, s5)
                        | (False, s5) \<Rightarrow>
                            (let s6 = s5\<lparr>inode_open_list := tl (dropWhile (\<lambda>j. j \<noteq> i) (inode_open_list s5)),
                                         inode_free_list := i # inode_free_list s5\<rparr>
                             in (None, release_device d s6))))))"

section \<open>Closing the circle\<close>

definition test_media0 :: "nat \<Rightarrow> fsys \<Rightarrow> bool \<times> fsys" where
  "test_media0 = test_media_with (\<lambda>d s. (False, s))"

definition test_media :: "nat \<Rightarrow> fsys \<Rightarrow> bool \<times> fsys" where
  "test_media = test_media_with (validate_device_with (make_inode_with test_media0))"

definition bread :: "nat \<Rightarrow> u32 \<Rightarrow> fsys \<Rightarrow> nat option \<times> fsys" where
  "bread = bread_with test_media"

definition brelse :: "nat \<Rightarrow> fsys \<Rightarrow> fsys" where
  "brelse = brelse_with test_media"

definition read_inode :: "nat \<Rightarrow> fsys \<Rightarrow> bool \<times> fsys" where
  "read_inode = read_inode_with test_media"

definition make_inode :: "nat \<Rightarrow> u32 \<Rightarrow> fsys \<Rightarrow> nat option \<times> fsys" where
  "make_inode = make_inode_with test_media"

definition validate_device :: "nat \<Rightarrow> fsys \<Rightarrow> bool \<times> fsys" where
  "validate_device = validate_device_with make_inode"

definition bwrite :: "nat \<Rightarrow> u32 \<Rightarrow> u8 list \<Rightarrow> fsys \<Rightarrow> bool \<times> fsys" where
  "bwrite d blk bs s =
     (case test_media d s of (False, s1) \<Rightarrow> (False, s1)
      | (True, s1) \<Rightarrow>
          (let s2 = s1\<lparr>total_accessed := total_accessed s1 + 1\<rparr>;
               (r, s5) = (case find_buffer d blk s2 of Some x \<Rightarrow> (Some x, touch_buffer blk x s2)
                 | None \<Rightarrow>
                     (case take_free_buffer s2 of (None, s3) \<Rightarrow> (None, s3)
                      | (Some x, s3) \<Rightarrow> (Some x, buf_upd x (\<lambda>b. b\<lparr>b_dev := Some d, b_blkno := blk, b_use := 1,
                           b_invalid := False\<rparr>) (chain_buffer blk x s3))))
           in case r of None \<Rightarrow> (False, s5)
              | Some x \<Rightarrow> (True, brelse x (buf_upd x (\<lambda>b. b\<lparr>b_data := bs, b_dirty := True\<rparr>) s5))))"

definition bdirty :: "nat \<Rightarrow> bool \<Rightarrow> fsys \<Rightarrow> fsys" where
  "bdirty x write_now s =
     (let s1 = (case b_dev (buffer_pool s x) of Some d \<Rightarrow> snd (test_media d s) | None \<Rightarrow> s)
      in if b_invalid (buffer_pool s1 x) then s1
         else (let s2 = buf_upd x (\<lambda>b. b\<lparr>b_dirty := True\<rparr>) s1
               in if write_now
                  then (let s3 = write_buffer x (buf_upd x (\<lambda>b. b\<lparr>b_dirty := False\<rparr>) s2)
                        in if errno s3 < 0
                           then buf_upd x (\<lambda>b. b\<lparr>b_dirty := True\<rparr>) (snd (handle_device_error x s3)) else s3)
                  else s2))"

definition add_device :: "nat \<Rightarrow> fsys \<Rightarrow> bool \<times> fsys" where
  "add_device d s =
     (let s1 = dev_upd d (\<lambda>v. v\<lparr>root := None, dev_use := 1, dev_invalid := True\<rparr>) s
      in (True, snd (validate_device d (s1\<lparr>device_list := d # device_list s1\<rparr>))))"

definition remove_device :: "nat \<Rightarrow> fsys \<Rightarrow> bool \<times> fsys" where
  "remove_device d s = (True, release_device d (s\<lparr>device_list := remove1 d (device_list s)\<rparr>))"

end
