(* ===== verification/FsBitmap.thy ===== *)
theory FsBitmap
  imports FsCache
begin

text \<open>
  fs/bitmap.c: the bitmaps of blocks and of inodes on the disk, reached through the buffer
  cache.
\<close>

unbundle bit_operations_syntax

definition BITS_PER_BLOCK :: u32 where "BITS_PER_BLOCK = 8192"

lemma cut_measure: "len \<noteq> 0 \<Longrightarrow> unat (len - smin len BITS_PER_BLOCK) < unat len"
  using smin_pos[of len BITS_PER_BLOCK]
  by (simp add: BITS_PER_BLOCK_def word_less_nat_alt word_le_nat_alt unat_sub unat_gt_0)

text \<open>Changing the contents of a buffer in place.\<close>

definition edit_buffer :: "nat \<Rightarrow> (u8 list \<Rightarrow> u8 list) \<Rightarrow> fsys \<Rightarrow> fsys" where
  "edit_buffer x f s = buf_upd x (\<lambda>b. b\<lparr>b_data := f (b_data b)\<rparr>) s"

text \<open>
  \<open>bmap_alloc\<close> returns the number of the bit it sets, or -1.  The loop runs over the
  blocks of the bitmap, at most \<open>2^19\<close> of them.  A length of \<open>2^31\<close> bits or more
  is negative as an int: \<open>len\<close> is not cut to a block, and the search for a bit, which then
  has no bound, leaves the block when the block has none.
\<close>

function bmap_alloc_loop :: "nat \<Rightarrow> u32 \<Rightarrow> u32 \<Rightarrow> u32 \<Rightarrow> fsys \<Rightarrow> int \<times> fsys" where
  "bmap_alloc_loop d start bmap_blk bmap_len s =
     (if bmap_len = 0 then (-1, s\<lparr>errno := E_NOSPC\<rparr>)
      else (case bread d bmap_blk s of (None, s1) \<Rightarrow> (-1, s1)
        | (Some x, s1) \<Rightarrow>
            (let len = smin bmap_len BITS_PER_BLOCK;
                 n = find_zero_bit (b_data (buffer_pool s1 x)) (if sint len < 0 then 8192 else unat len)
             in if n \<noteq> -1
                then (let s2 = brelse x (bdirty x True (edit_buffer x (\<lambda>bs. set_bit_at bs (nat n)) s1))
                      in (sint ((bmap_blk - start) * BITS_PER_BLOCK + of_int n), s2))
                else bmap_alloc_loop d start (bmap_blk + 1) (bmap_len - len)
                  (brelse x (note_overrun (sint len < 0) s1)))))"
  by pat_completeness auto
termination
  by (relation "measure (\<lambda>(d, start, blk, len, s). unat len)") (auto simp: cut_measure)

declare bmap_alloc_loop.simps [simp del]

definition bmap_alloc :: "nat \<Rightarrow> u32 \<Rightarrow> u32 \<Rightarrow> fsys \<Rightarrow> int \<times> fsys" where
  "bmap_alloc d bmap_start bmap_len s = bmap_alloc_loop d bmap_start bmap_start bmap_len s"

definition bmap_free :: "nat \<Rightarrow> u32 \<Rightarrow> u32 \<Rightarrow> fsys \<Rightarrow> bool \<times> fsys" where
  "bmap_free d bmap_start bt s =
     (case bread d (bt div BITS_PER_BLOCK + bmap_start) s of (None, s1) \<Rightarrow> (False, s1)
      | (Some x, s1) \<Rightarrow>
          (let n = unat (bt mod BITS_PER_BLOCK);
               s2 = (if \<not> test_bit_at (b_data (buffer_pool s1 x)) n then s1
                     else bdirty x True (edit_buffer x (\<lambda>bs. clear_bit_at bs n) s1))
           in (True, brelse x s2)))"

text \<open>\<open>alloc_block\<close> ignores the block its result should be near to.\<close>

definition alloc_block :: "nat \<Rightarrow> u32 \<Rightarrow> fsys \<Rightarrow> u32 \<times> fsys" where
  "alloc_block d locality s =
     (let (n, s1) = bmap_alloc d (data_bitmap (sup (devices s d))) (data_size (sup (devices s d))) s
      in (if n = -1 then 0 else data_start (sup (devices s1 d)) + of_int n, s1))"

definition free_block :: "nat \<Rightarrow> u32 \<Rightarrow> fsys \<Rightarrow> bool \<times> fsys" where
  "free_block d blk s = bmap_free d (data_bitmap (sup (devices s d))) (blk - data_start (sup (devices s d))) s"

text \<open>\<open>used_blocks\<close> counts the bits that are set; 0 stands for an error.\<close>

function used_blocks_loop :: "nat \<Rightarrow> u32 \<Rightarrow> u32 \<Rightarrow> u32 \<Rightarrow> fsys \<Rightarrow> u32 option \<times> fsys" where
  "used_blocks_loop d bmap_blk bmap_len cnt s =
     (if bmap_len = 0 then (Some cnt, s)
      else (case bread d bmap_blk s of (None, s1) \<Rightarrow> (None, s1)
        | (Some x, s1) \<Rightarrow>
            (let len = smin bmap_len BITS_PER_BLOCK;
                 k = length (filter (test_bit_at (b_data (buffer_pool s1 x))) [0..<nat (sint len)])
             in used_blocks_loop d (bmap_blk + 1) (bmap_len - len) (cnt + of_nat k) (brelse x s1))))"
  by pat_completeness auto
termination
  by (relation "measure (\<lambda>(d, blk, len, cnt, s). unat len)") (auto simp: cut_measure)

declare used_blocks_loop.simps [simp del]

definition used_blocks :: "nat \<Rightarrow> fsys \<Rightarrow> u32 \<times> fsys" where
  "used_blocks d s =
     (case used_blocks_loop d (data_bitmap (sup (devices s d))) (data_size (sup (devices s d))) 0 s of
        (None, s1) \<Rightarrow> (0, s1)
      | (Some cnt, s1) \<Rightarrow>
          (let sd = sup (devices s1 d)
           in (cnt + 1 + num_inodes sd div BITS_PER_BLOCK + num_inodes sd div INODES_PER_BLOCK
               + data_size sd div BITS_PER_BLOCK, s1)))"

text \<open>Inode numbers are allocated in the other bitmap.\<close>

definition alloc_inode :: "nat \<Rightarrow> fsys \<Rightarrow> int \<times> fsys" where
  "alloc_inode d s = bmap_alloc d (inode_bitmap (sup (devices s d))) (num_inodes (sup (devices s d))) s"

definition free_inode :: "nat \<Rightarrow> u32 \<Rightarrow> fsys \<Rightarrow> bool \<times> fsys" where
  "free_inode d n s = bmap_free d (inode_bitmap (sup (devices s d))) n s"

end
