(* ===== verification/FsInode.thy ===== *)
theory FsInode
  imports FsBitmap
begin

text \<open>
  The rest of fs/inode.c, with the deletion of a file's data from fs/file.c that closing an
  inode calls: writing inodes back, the map from the logical blocks of a file to the blocks
  of the disk through up to three levels of indirection.
\<close>

unbundle bit_operations_syntax

definition write_inode :: "nat \<Rightarrow> fsys \<Rightarrow> bool \<times> fsys" where
  "write_inode i s =
     (let s1 = snd (test_media (dev_of s i) s)
      in if i_invalid (inode_pool s1 i) then (False, s1\<lparr>errno := E_INVALID\<rparr>)
         else if i_dirty (inode_pool s1 i)
         then (case bread (dev_of s1 i) (inode_blkno i s1) s1 of (None, s2) \<Rightarrow> (False, s2)
           | (Some x, s2) \<Rightarrow>
               (let s3 = edit_buffer x (\<lambda>bs. put_bytes bs (inode_offset i s2)
                           (inode_bytes (i_inode (inode_pool s2 i)))) s2;
                    s4 = brelse x (bdirty x True s3)
                in (True, ino_upd i (\<lambda>v. v\<lparr>i_dirty := False\<rparr>) s4)))
         else (True, s1))"

definition kill_inodes :: "fsys \<Rightarrow> fsys" where
  "kill_inodes s = fold (\<lambda>i s. if \<not> i_invalid (inode_pool s i) then snd (write_inode i s) else s)
     (inode_open_list s) s"

definition dup_inode :: "nat \<Rightarrow> fsys \<Rightarrow> nat \<times> fsys" where
  "dup_inode i s = (i, ino_upd i (\<lambda>v. v\<lparr>i_use := i_use v + 1\<rparr>) s)"

section \<open>Logical blocks\<close>

text \<open>
  \<open>get_inode_blkno\<close> and \<open>get_indirect_blkno\<close> return the block number, 0 for
  none, and whether it was created (the C code leaves \<open>*created\<close> unset when there is no
  block, and then does not look at it).
\<close>

definition set_block :: "nat \<Rightarrow> nat \<Rightarrow> u32 \<Rightarrow> fsys \<Rightarrow> fsys" where
  "set_block i k blk s = ino_upd i (\<lambda>v. v\<lparr>i_inode := (i_inode v)\<lparr>blocks := (blocks (i_inode v))[k := blk]\<rparr>,
     i_dirty := True\<rparr>) s"

definition get_inode_blkno :: "nat \<Rightarrow> nat \<Rightarrow> bool \<Rightarrow> fsys \<Rightarrow> u32 \<times> bool \<times> fsys" where
  "get_inode_blkno i offset create s =
     (let blks = blocks (i_inode (inode_pool s i)); blk = blks ! offset
      in if blk = 0
         then if create
              then (let (b, s1) = alloc_block (dev_of s i) (if offset > 0 then blks ! (offset - 1) else 0) s
                    in if b \<noteq> 0 then (b, True, set_block i offset b s1) else (0, False, s1))
              else (0, False, s\<lparr>errno := E_NOEXIST\<rparr>)
         else (blk, False, s))"

definition clear_buffer :: "nat \<Rightarrow> fsys \<Rightarrow> fsys" where
  "clear_buffer x s = bdirty x False (edit_buffer x (\<lambda>_. replicate FS_BLKSIZ 0) s)"

text \<open>A pointer block that was just created is cleared.\<close>

definition read_ptr_block :: "nat \<Rightarrow> u32 \<times> bool \<times> fsys \<Rightarrow> nat option \<times> fsys" where
  "read_ptr_block i r =
     (case r of (blk, created, s) \<Rightarrow>
        if blk = 0 then (None, s)
        else (case bread (dev_of s i) blk s of (None, s1) \<Rightarrow> (None, s1)
          | (Some x, s1) \<Rightarrow> (Some x, if created then clear_buffer x s1 else s1)))"

definition get_inode_blk :: "nat \<Rightarrow> nat \<Rightarrow> bool \<Rightarrow> fsys \<Rightarrow> nat option \<times> fsys" where
  "get_inode_blk i offset create s = read_ptr_block i (get_inode_blkno i offset create s)"

definition get_indirect_blkno :: "nat \<Rightarrow> nat \<Rightarrow> nat \<Rightarrow> bool \<Rightarrow> fsys \<Rightarrow> u32 \<times> bool \<times> fsys" where
  "get_indirect_blkno i x offset create s =
     (let ptr = (\<lambda>k. get_long (b_data (buffer_pool s x)) (4 * k)); blk = ptr offset
      in if blk = 0
         then if create
              then (let (b, s1) = alloc_block (dev_of s i) (if offset > 0 then ptr (offset - 1) else 0) s
                    in if b \<noteq> 0
                       then (b, True, brelse x (bdirty x True (edit_buffer x (\<lambda>bs. set_long bs (4 * offset) b) s1)))
                       else (0, False, brelse x s1))
              else (0, False, brelse x (s\<lparr>errno := E_NOEXIST\<rparr>))
         else (blk, False, brelse x s))"

definition get_indirect_blk :: "nat \<Rightarrow> nat \<Rightarrow> nat \<Rightarrow> bool \<Rightarrow> fsys \<Rightarrow> nat option \<times> fsys" where
  "get_indirect_blk i x offset create s = read_ptr_block i (get_indirect_blkno i x offset create s)"

text \<open>The block number of an entry of a pointer block, and the next pointer block.\<close>

definition last_ptr :: "nat \<Rightarrow> u32 \<Rightarrow> bool \<Rightarrow> nat option \<times> fsys \<Rightarrow> u32 \<times> fsys" where
  "last_ptr i k create r = (case r of (None, s) \<Rightarrow> (0, s)
     | (Some x, s) \<Rightarrow> (case get_indirect_blkno i x (unat k) create s of (b, _, s1) \<Rightarrow> (b, s1)))"

definition next_ptr :: "nat \<Rightarrow> u32 \<Rightarrow> bool \<Rightarrow> nat option \<times> fsys \<Rightarrow> nat option \<times> fsys" where
  "next_ptr i k create r = (case r of (None, s) \<Rightarrow> (None, s)
     | (Some x, s) \<Rightarrow> get_indirect_blk i x (unat k) create s)"

definition get_data_blkno :: "nat \<Rightarrow> u32 \<Rightarrow> bool \<Rightarrow> fsys \<Rightarrow> u32 \<times> fsys" where
  "get_data_blkno i blk create s0 =
     (let s = snd (test_media (dev_of s0 i) s0); P = PTRS_PER_INDIRECT
      in if i_invalid (inode_pool s i) then (0, s\<lparr>errno := E_INVALID\<rparr>)
         else if blk < SINGLE_INDIRECT
         then (case get_inode_blkno i (unat blk) create s of (b, _, s1) \<Rightarrow> (b, s1))
         else (let blk1 = blk - SINGLE_INDIRECT in
           if blk1 < P then last_ptr i blk1 create (get_inode_blk i (unat SINGLE_INDIRECT) create s)
           else (let blk2 = blk1 - P in
             if blk2 < P * P
             then last_ptr i (blk2 mod P) create
                    (next_ptr i (blk2 div P) create (get_inode_blk i (unat DOUBLE_INDIRECT) create s))
             else (let blk3 = blk2 - P * P in
               if blk3 < P * P * P
               then last_ptr i (blk3 mod P) create
                      (next_ptr i (blk3 div P mod P) create
                        (next_ptr i (blk3 div (P * P)) create (get_inode_blk i (unat TRIPLE_INDIRECT) create s)))
               else (0, s\<lparr>errno := E_BADARG\<rparr>)))))"

definition get_data_block :: "nat \<Rightarrow> u32 \<Rightarrow> bool \<Rightarrow> fsys \<Rightarrow> nat option \<times> fsys" where
  "get_data_block i blk create s =
     (case get_data_blkno i blk create s of (b, s1) \<Rightarrow>
        if b \<noteq> 0 then bread (dev_of s1 i) b s1 else (None, s1))"

section \<open>Deleting the data of a file\<close>

text \<open>
  \<open>delete_indirect_blocks\<close>: the loop over the 256 entries with what it does for one
  entry (free the block, or go down one level); an entry that fails ends it.
\<close>

primrec del_entries :: "(u32 \<Rightarrow> fsys \<Rightarrow> bool \<times> fsys) \<Rightarrow> nat \<Rightarrow> nat list \<Rightarrow> fsys \<Rightarrow> bool \<times> fsys" where
  "del_entries f x [] s = (True, s)"
| "del_entries f x (k # ks) s =
     (let e = get_long (b_data (buffer_pool s x)) (4 * k)
      in if e \<noteq> 0
         then (case f e s of (False, s1) \<Rightarrow> (False, s1)
           | (True, s1) \<Rightarrow> del_entries f x ks (bdirty x False (edit_buffer x (\<lambda>bs. set_long bs (4 * k) 0) s1)))
         else del_entries f x ks s)"

definition del_block :: "(u32 \<Rightarrow> fsys \<Rightarrow> bool \<times> fsys) \<Rightarrow> nat \<Rightarrow> u32 \<Rightarrow> fsys \<Rightarrow> bool \<times> fsys" where
  "del_block f i blk s =
     (case bread (dev_of s i) blk s of (None, s1) \<Rightarrow> (False, s1)
      | (Some x, s1) \<Rightarrow>
          if i_invalid (inode_pool s1 i) then (False, s1\<lparr>errno := E_INVALID\<rparr>)
          else (case del_entries f x [0..<unat PTRS_PER_INDIRECT] s1 of (rc, s2) \<Rightarrow> (rc, brelse x s2)))"

primrec delete_indirect_blocks :: "nat \<Rightarrow> nat \<Rightarrow> u32 \<Rightarrow> fsys \<Rightarrow> bool \<times> fsys" where
  "delete_indirect_blocks 0 i blk s = del_block (\<lambda>e s. (True, snd (free_block (dev_of s i) e s))) i blk s"
| "delete_indirect_blocks (Suc depth) i blk s = del_block (delete_indirect_blocks depth i) i blk s"

definition clear_ptr :: "nat \<Rightarrow> u32 \<Rightarrow> fsys \<Rightarrow> fsys" where
  "clear_ptr i k s = ino_upd i (\<lambda>v. v\<lparr>i_inode := (i_inode v)\<lparr>blocks := (blocks (i_inode v))[unat k := 0]\<rparr>\<rparr>) s"

definition delete_tree :: "nat \<Rightarrow> u32 \<Rightarrow> nat \<Rightarrow> bool \<times> fsys \<Rightarrow> bool \<times> fsys" where
  "delete_tree i k depth r = (case r of (rc, s) \<Rightarrow>
     let blk = blocks (i_inode (inode_pool s i)) ! unat k
     in if rc \<and> blk \<noteq> 0
        then (case delete_indirect_blocks depth i blk s of (rc1, s1) \<Rightarrow> (rc1, clear_ptr i k s1))
        else (rc, s))"

definition delete_inode_data :: "nat \<Rightarrow> fsys \<Rightarrow> bool \<times> fsys" where
  "delete_inode_data i s0 =
     (case test_media (dev_of s0 i) s0 of (False, s) \<Rightarrow> (False, s)
      | (True, s) \<Rightarrow>
          if i_invalid (inode_pool s i) then (False, s\<lparr>errno := E_INVALID\<rparr>)
          else (let s1 = fold (\<lambda>k s. let blk = blocks (i_inode (inode_pool s i)) ! k
                      in if blk \<noteq> 0 then set_block i k 0 (snd (free_block (dev_of s i) blk s)) else s)
                      [0..<unat SINGLE_INDIRECT] s;
                    (rc, s2) = delete_tree i TRIPLE_INDIRECT 2 (delete_tree i DOUBLE_INDIRECT 1
                      (delete_tree i SINGLE_INDIRECT 0 (True, s1)))
                in (rc, ino_upd i (\<lambda>v. v\<lparr>i_inode := (i_inode v)\<lparr>fsize := 0, modtime := now s2\<rparr>, i_dirty := True\<rparr>) s2)))"

section \<open>Closing an inode\<close>

definition close_inode :: "nat \<Rightarrow> fsys \<Rightarrow> fsys" where
  "close_inode = close_inode_with (\<lambda>i s. snd (write_inode i s))
     (\<lambda>i s. let s1 = snd (delete_inode_data i s) in snd (free_inode (dev_of s1 i) (inum (inode_pool s1 i)) s1))
     release_device"

end
