(* ===== verification/FsCacheProps.thy ===== *)
theory FsCacheProps
  imports FsInode
begin

text \<open>
  The buffer cache as an abstract store of blocks.  For devices with a fixed medium,
  \<open>view\<close> is what a block holds: the contents of its cached copy if there is one, of the
  medium otherwise.  \<open>cache_ok\<close> is the invariant of the cache; every operation keeps
  it, reading leaves the view alone and writing changes it at one block.
\<close>

unbundle bit_operations_syntax

section \<open>Definitions\<close>

definition cached :: "fsys \<Rightarrow> nat set" where
  "cached s = (\<Union>h. set (buffer_table s h))"

definition holds :: "fsys \<Rightarrow> nat \<Rightarrow> nat \<Rightarrow> u32 \<Rightarrow> bool" where
  "holds s x d blk \<longleftrightarrow> x \<in> cached s \<and> b_dev (buffer_pool s x) = Some d \<and> b_blkno (buffer_pool s x) = blk"

definition fixed_medium :: "fsys \<Rightarrow> nat \<Rightarrow> bool" where
  "fixed_medium s d \<longleftrightarrow> media_code (devices s d) = None"

definition buf_ok :: "fsys \<Rightarrow> nat \<Rightarrow> bool" where
  "buf_ok s x \<longleftrightarrow> \<not> b_invalid (buffer_pool s x) \<and> 0 \<le> b_use (buffer_pool s x) \<and>
     (\<exists>d. b_dev (buffer_pool s x) = Some d \<and> fixed_medium s d \<and>
       (good_block (devices s d) (b_blkno (buffer_pool s x)) \<and> \<not> b_dirty (buffer_pool s x) \<longrightarrow>
          b_data (buffer_pool s x) = medium (devices s d) (b_blkno (buffer_pool s x))))"

definition cache_ok :: "fsys \<Rightarrow> bool" where
  "cache_ok s \<longleftrightarrow>
     (\<forall>h. distinct (buffer_table s h)) \<and>
     (\<forall>h. \<forall>x\<in>set (buffer_table s h). BUFFER_HASH (b_blkno (buffer_pool s x)) = h) \<and>
     distinct (bh_free_list s) \<and> (\<forall>x\<in>set (bh_free_list s). x \<notin> cached s) \<and>
     (\<forall>x y d blk. holds s x d blk \<longrightarrow> holds s y d blk \<longrightarrow> x = y) \<and>
     (\<forall>x\<in>cached s. buf_ok s x)"

definition view :: "fsys \<Rightarrow> nat \<Rightarrow> u32 \<Rightarrow> u8 list option" where
  "view s d blk =
     (if good_block (devices s d) blk
      then Some (case find_buffer d blk s of Some x \<Rightarrow> b_data (buffer_pool s x) | None \<Rightarrow> medium (devices s d) blk)
      else None)"

text \<open>What the cache does not touch.\<close>

definition rest :: "fsys \<Rightarrow> fsys" where
  "rest s = s\<lparr>devices := (\<lambda>d. (devices s d)\<lparr>medium := (\<lambda>_. [])\<rparr>), buffer_pool := (\<lambda>_. undefined),
     buffer_table := (\<lambda>_. []), bh_free_list := [], last_bucket := 0, total_accessed := 0, cached_accesses := 0,
     dirty_accesses := 0, errno := 0\<rparr>"

definition avail :: "fsys \<Rightarrow> bool" where
  "avail s \<longleftrightarrow> bh_free_list s \<noteq> [] \<or> (\<exists>x\<in>cached s. b_use (buffer_pool s x) = 0)"

text \<open>The buffers on the free list and on the chains.\<close>

definition own :: "fsys \<Rightarrow> nat set" where
  "own s = set (bh_free_list s) \<union> cached s"

text \<open>Buffers other than \<open>z\<close> that are in use stay what they are.\<close>

definition keeps :: "nat \<Rightarrow> fsys \<Rightarrow> fsys \<Rightarrow> bool" where
  "keeps z s t \<longleftrightarrow> (\<forall>y. y \<noteq> z \<longrightarrow> y \<in> cached s \<longrightarrow> b_use (buffer_pool s y) > 0 \<longrightarrow>
     y \<in> cached t \<and> buffer_pool t y = buffer_pool s y)"

section \<open>Basic facts\<close>

lemma find_in: "List.find P xs = Some x \<Longrightarrow> x \<in> set xs \<and> P x"
  by (auto simp: find_Some_iff)

lemma fixed_test_media [simp]: "fixed_medium s d \<Longrightarrow> test_media d s = (True, s)"
  by (simp add: fixed_medium_def test_media_def test_media_with_def)

lemma rest_dev:
  assumes "rest s = rest t"
  shows "media_code (devices s d) = media_code (devices t d)" "good_block (devices s d) = good_block (devices t d)"
    "sup (devices s d) = sup (devices t d)" "root (devices s d) = root (devices t d)"
proof -
  have e: "(devices s d)\<lparr>medium := (\<lambda>_. [])\<rparr> = (devices t d)\<lparr>medium := (\<lambda>_. [])\<rparr>"
    using fun_cong[OF arg_cong[OF assms, of devices], of d] by (simp add: rest_def)
  show "media_code (devices s d) = media_code (devices t d)" using arg_cong[OF e, of media_code] by simp
  show "good_block (devices s d) = good_block (devices t d)" using arg_cong[OF e, of good_block] by simp
  show "sup (devices s d) = sup (devices t d)" using arg_cong[OF e, of sup] by simp
  show "root (devices s d) = root (devices t d)" using arg_cong[OF e, of root] by simp
qed

lemma rest_fields:
  assumes "rest s = rest t"
  shows "inode_pool s = inode_pool t" "file_pool s = file_pool t" "now s = now t"
    "tmp_dir_blk s = tmp_dir_blk t" "overrun s = overrun t" "hung s = hung t"
    "file_free_list s = file_free_list t" "inode_open_list s = inode_open_list t"
    "symlink_nesting s = symlink_nesting t" "root_dir s = root_dir t"
  using arg_cong[OF assms, of inode_pool] arg_cong[OF assms, of file_pool] arg_cong[OF assms, of now]
    arg_cong[OF assms, of tmp_dir_blk] arg_cong[OF assms, of overrun] arg_cong[OF assms, of hung]
    arg_cong[OF assms, of file_free_list] arg_cong[OF assms, of inode_open_list]
    arg_cong[OF assms, of symlink_nesting] arg_cong[OF assms, of root_dir]
  by (simp_all add: rest_def)

lemma find_buffer_eq:
  assumes "cache_ok s"
  shows "find_buffer d blk s = Some x \<longleftrightarrow> holds s x d blk"
proof
  assume "find_buffer d blk s = Some x"
  then show "holds s x d blk"
    by (auto simp: find_buffer_def find_Some_iff holds_def cached_def dest: nth_mem)
next
  assume h: "holds s x d blk"
  then have "x \<in> set (buffer_table s (BUFFER_HASH blk))" "\<not> b_invalid (buffer_pool s x)"
    using assms by (auto simp: cache_ok_def holds_def cached_def buf_ok_def)
  then obtain y where y: "find_buffer d blk s = Some y"
    using h by (cases "find_buffer d blk s") (auto simp: find_buffer_def find_None_iff holds_def)
  then have "holds s y d blk"
    by (auto simp: find_buffer_def find_Some_iff holds_def cached_def dest: nth_mem)
  then show "find_buffer d blk s = Some x" using assms h y by (auto simp: cache_ok_def)
qed

lemma find_buffer_none:
  "cache_ok s \<Longrightarrow> find_buffer d blk s = None \<longleftrightarrow> (\<forall>x. \<not> holds s x d blk)"
  by (metis find_buffer_eq option.exhaust option.distinct(1))

lemma view_in: "\<lbrakk>cache_ok s; holds s x d blk; good_block (devices s d) blk\<rbrakk> \<Longrightarrow> view s d blk = Some (b_data (buffer_pool s x))"
  by (simp add: view_def find_buffer_eq[THEN iffD2])

lemma view_out: "\<lbrakk>cache_ok s; \<forall>x. \<not> holds s x d blk; good_block (devices s d) blk\<rbrakk> \<Longrightarrow> view s d blk = Some (medium (devices s d) blk)"
  by (simp add: view_def find_buffer_none[THEN iffD2])

lemma view_bad: "\<not> good_block (devices s d) blk \<Longrightarrow> view s d blk = None"
  by (simp add: view_def)

text \<open>Two states with the same cached copies and media show the same blocks.\<close>

lemma view_same:
  assumes "cache_ok s" "cache_ok t"
    and "\<And>d. good_block (devices t d) = good_block (devices s d)"
    and "\<And>x d blk. holds s x d blk \<Longrightarrow> good_block (devices s d) blk \<Longrightarrow>
       holds t x d blk \<and> b_data (buffer_pool t x) = b_data (buffer_pool s x)
       \<or> (\<forall>y. \<not> holds t y d blk) \<and> medium (devices t d) blk = b_data (buffer_pool s x)"
    and "\<And>d blk. (\<forall>x. \<not> holds s x d blk) \<Longrightarrow> good_block (devices s d) blk \<Longrightarrow>
       (\<forall>x. \<not> holds t x d blk) \<and> medium (devices t d) blk = medium (devices s d) blk
       \<or> (\<exists>x. holds t x d blk \<and> b_data (buffer_pool t x) = medium (devices s d) blk)"
  shows "view t = view s"
proof (intro ext)
  fix d blk
  show "view t d blk = view s d blk"
  proof (cases "good_block (devices s d) blk")
    case False then show ?thesis using assms(3)[of d] by (simp add: view_bad)
  next
    case g: True
    show ?thesis
    proof (cases "\<exists>x. holds s x d blk")
      case True
      then obtain x where x: "holds s x d blk" by blast
      then show ?thesis using assms(4)[OF x g] assms(1-3) g
        by (auto simp: view_in[OF assms(1) x g] intro: view_in view_out dest: view_in view_out)
    next
      case False
      then show ?thesis using assms(5)[of d blk] assms(1-3) g
        by (auto simp: view_out[OF assms(1)] dest: view_in view_out)
    qed
  qed
qed

section \<open>The driver and the statistics\<close>

text \<open>Assignments to the fields that no definition above looks at.\<close>

lemma aux_cached [simp]:
  "cached (s\<lparr>errno := e\<rparr>) = cached s" "cached (s\<lparr>total_accessed := n\<rparr>) = cached s"
  "cached (s\<lparr>cached_accesses := n\<rparr>) = cached s" "cached (s\<lparr>dirty_accesses := n\<rparr>) = cached s"
  "cached (s\<lparr>last_bucket := k\<rparr>) = cached s" "cached (s\<lparr>bh_free_list := xs\<rparr>) = cached s"
  "cached (s\<lparr>devices := ds\<rparr>) = cached s" "cached (s\<lparr>buffer_pool := bp\<rparr>) = cached s"
  by (simp_all add: cached_def)

lemma cached_upd [simp]: "cached (dev_upd d f s) = cached s" "cached (buf_upd x g s) = cached s"
  by (simp_all add: cached_def dev_upd_def buf_upd_def)

lemma find_buffer_cong:
  "\<lbrakk>buffer_table s = buffer_table t; buffer_pool s = buffer_pool t\<rbrakk> \<Longrightarrow> find_buffer d blk s = find_buffer d blk t"
  by (simp add: find_buffer_def)

lemma cache_ok_cong:
  assumes "buffer_table s = buffer_table t" "buffer_pool s = buffer_pool t" "bh_free_list s = bh_free_list t" "devices s = devices t"
  shows "cache_ok s \<longleftrightarrow> cache_ok t" "view s = view t" "cached s = cached t" "holds s = holds t" "avail s = avail t"
    "keeps z r s = keeps z r t" "keeps z s r = keeps z t r"
proof -
  show c: "cached s = cached t" using assms by (simp add: cached_def)
  show h: "holds s = holds t" using assms c by (intro ext) (simp add: holds_def)
  show "view s = view t" using assms by (intro ext) (simp add: view_def find_buffer_def cong: option.case_cong)
  show "cache_ok s \<longleftrightarrow> cache_ok t" using assms c h by (simp add: cache_ok_def buf_ok_def fixed_medium_def)
  show "avail s = avail t" "keeps z r s = keeps z r t" "keeps z s r = keeps z t r"
    using assms c by (simp_all add: avail_def keeps_def)
qed

lemma fixed_medium_cong: "devices s = devices t \<Longrightarrow> fixed_medium s = fixed_medium t"
  by (simp add: fixed_medium_def fun_eq_iff)

text \<open>Writing a cached buffer to its device: afterwards the medium agrees with it.\<close>

definition written :: "nat \<Rightarrow> fsys \<Rightarrow> nat \<Rightarrow> fs_device" where
  "written x s = (case b_dev (buffer_pool s x) of None \<Rightarrow> devices s
     | Some d \<Rightarrow> if good_block (devices s d) (b_blkno (buffer_pool s x))
         then (devices s)(d := (devices s d)\<lparr>medium := (medium (devices s d))(b_blkno (buffer_pool s x) := b_data (buffer_pool s x))\<rparr>)
         else devices s)"

lemma write_buffer_eq:
  "b_dev (buffer_pool s x) = Some d \<Longrightarrow>
     write_buffer x s = s\<lparr>devices := written x s,
        errno := (if good_block (devices s d) (b_blkno (buffer_pool s x)) then 1 else E_IO)\<rparr>"
  by (simp add: write_buffer_def fs_write_blocks_def written_def dev_upd_def)

lemma write_buffer_errno: "b_dev (buffer_pool s x) = Some d \<Longrightarrow> 0 < errno (write_buffer x s) \<and> errno (write_buffer x s) \<noteq> E_NODISK"
  by (simp add: write_buffer_eq E_IO_def E_NODISK_def)

lemma no_disk_error [simp]: "errno s \<noteq> E_NODISK \<Longrightarrow> handle_device_error x s = (False, s)"
  by (simp add: handle_device_error_def)

lemma written_other [simp]:
  "good_block (written x s d) = good_block (devices s d)" "media_code (written x s d) = media_code (devices s d)"
  by (simp_all add: written_def split: option.split)

lemma written_rest: "(\<lambda>d. (written x s d)\<lparr>medium := (\<lambda>_. [])\<rparr>) = (\<lambda>d. (devices s d)\<lparr>medium := (\<lambda>_. [])\<rparr>)"
  by (auto simp: written_def fun_eq_iff split: option.split)

lemma medium_written:
  "medium (written x s d) blk = (if b_dev (buffer_pool s x) = Some d \<and> b_blkno (buffer_pool s x) = blk \<and> good_block (devices s d) blk
     then b_data (buffer_pool s x) else medium (devices s d) blk)"
  by (auto simp: written_def split: option.split)

lemma keeps_refl [simp]: "keeps z s s" by (simp add: keeps_def)

lemma keeps_trans: "\<lbrakk>keeps z s t; keeps z t u\<rbrakk> \<Longrightarrow> keeps z s u"
  unfolding keeps_def by metis

section \<open>Making a buffer free\<close>

text \<open>Taking the buffer \<open>x\<close> off its chain, with its contents on the medium if it is dirty.\<close>

lemma evict:
  assumes ok: "cache_ok s" and x: "x \<in> set (buffer_table s h)" and use: "b_use (buffer_pool s x) = 0"
    and tb: "buffer_table t = (buffer_table s)(h := remove1 x (buffer_table s h))"
    and fr: "bh_free_list t = x # bh_free_list s" and po: "buffer_pool t = buffer_pool s"
    and de: "devices t = (if b_dirty (buffer_pool s x) then written x s else devices s)"
  shows "cache_ok t \<and> view t = view s \<and> cached t = cached s - {x} \<and> keeps z s t \<and> own t = own s"
proof -
  have xc: "x \<in> cached s" using x by (auto simp: cached_def)
  have hx: "BUFFER_HASH (b_blkno (buffer_pool s x)) = h" using ok x by (auto simp: cache_ok_def)
  have ct: "cached t = cached s - {x}"
  proof -
    have "x \<notin> set (buffer_table s k)" if "k \<noteq> h" for k using ok hx that by (auto simp: cache_ok_def)
    moreover have "distinct (buffer_table s h)" using ok by (simp add: cache_ok_def)
    ultimately show ?thesis by (auto simp: cached_def tb split: if_splits)
  qed
  have ho: "holds t y d blk \<longleftrightarrow> holds s y d blk \<and> y \<noteq> x" for y d blk by (auto simp: holds_def ct po)
  have gd: "good_block (devices t d) = good_block (devices s d)" for d using de by simp
  have okt: "cache_ok t"
    unfolding cache_ok_def
  proof (intro conjI)
    show "\<forall>h. distinct (buffer_table t h)" using ok by (simp add: cache_ok_def tb)
    show "\<forall>h. \<forall>x\<in>set (buffer_table t h). BUFFER_HASH (b_blkno (buffer_pool t x)) = h"
      using ok by (auto simp: cache_ok_def tb po dest: notin_set_remove1 split: if_splits)
    show "distinct (bh_free_list t)" "\<forall>x\<in>set (bh_free_list t). x \<notin> cached t"
      using ok xc by (auto simp: cache_ok_def fr ct)
    show "\<forall>x y d blk. holds t x d blk \<longrightarrow> holds t y d blk \<longrightarrow> x = y" using ok by (auto simp: ho cache_ok_def)
    show "\<forall>y\<in>cached t. buf_ok t y"
    proof
      fix y assume y: "y \<in> cached t"
      then have yc: "y \<in> cached s" "y \<noteq> x" by (simp_all add: ct)
      then have b: "buf_ok s y" using ok by (simp add: cache_ok_def)
      have "\<not> (b_dev (buffer_pool s x) = b_dev (buffer_pool s y) \<and> b_blkno (buffer_pool s x) = b_blkno (buffer_pool s y))"
        using ok yc xc b unfolding cache_ok_def holds_def buf_ok_def by metis
      then show "buf_ok t y" using b by (auto simp: buf_ok_def po fixed_medium_def de medium_written split: if_splits)
    qed
  qed
  moreover have "view t = view s"
  proof (rule view_same[OF ok okt gd])
    fix y d blk assume y: "holds s y d blk" and g: "good_block (devices s d) blk"
    have b: "buf_ok s x" using ok xc by (simp add: cache_ok_def)
    show "holds t y d blk \<and> b_data (buffer_pool t y) = b_data (buffer_pool s y)
       \<or> (\<forall>y. \<not> holds t y d blk) \<and> medium (devices t d) blk = b_data (buffer_pool s y)"
    proof (cases "y = x")
      case False then show ?thesis using y by (simp add: ho po)
    next
      case True
      then have "\<forall>z. \<not> holds t z d blk" using ok y by (auto simp: ho cache_ok_def)
      moreover have "medium (devices t d) blk = b_data (buffer_pool s y)"
        using True y g b by (auto simp: de medium_written holds_def buf_ok_def)
      ultimately show ?thesis by simp
    qed
  next
    fix d blk assume n: "\<forall>y. \<not> holds s y d blk" and g: "good_block (devices s d) blk"
    then have "\<not> holds s x d blk" by blast
    then have "medium (devices t d) blk = medium (devices s d) blk"
      using xc by (auto simp: de medium_written holds_def)
    then show "(\<forall>y. \<not> holds t y d blk) \<and> medium (devices t d) blk = medium (devices s d) blk
       \<or> (\<exists>y. holds t y d blk \<and> b_data (buffer_pool t y) = medium (devices s d) blk)" using n by (simp add: ho)
  qed
  moreover have "keeps z s t" using use by (auto simp: keeps_def ct po)
  moreover have "own t = own s" using xc by (auto simp: own_def ct fr)
  ultimately show ?thesis using ct by simp
qed

text \<open>What all steps inside the cache have in common.\<close>

definition steady :: "nat \<Rightarrow> fsys \<Rightarrow> fsys \<Rightarrow> bool" where
  "steady z s t \<longleftrightarrow> cache_ok t \<and> view t = view s \<and> rest t = rest s \<and> keeps z s t"

lemma steady_refl: "cache_ok s \<Longrightarrow> steady z s s" by (simp add: steady_def)

lemma steady_trans: "\<lbrakk>steady z s t; steady z t u\<rbrakk> \<Longrightarrow> steady z s u"
  by (auto simp: steady_def intro: keeps_trans)

lemma make_free_buffer_n_steady:
  assumes "cache_ok s" "make_free_buffer_n n s = (r, t)"
  shows "steady z s t \<and> (r \<longrightarrow> bh_free_list t \<noteq> []) \<and> buffer_pool t = buffer_pool s \<and> cached t \<subseteq> cached s
    \<and> own t = own s \<and> (\<not> r \<longrightarrow> cached t = cached s \<and> bh_free_list t = bh_free_list s)"
  using assms
proof (induction n arbitrary: s)
  case 0
  then have t: "t = s\<lparr>errno := E_NOMEM\<rparr>" and r: "\<not> r" by auto
  have "cache_ok t" "view t = view s" "cached t = cached s" "keeps z s t"
    using 0(1) cache_ok_cong[of t s] by (simp_all add: t)
  then show ?case using r by (simp add: steady_def t rest_def own_def)
next
  case (Suc n)
  let ?s1 = "s\<lparr>last_bucket := (last_bucket s + 1) mod BUFFER_BUCKETS\<rparr>"
  let ?h = "last_bucket ?s1"
  have s1: "cache_ok ?s1" "view ?s1 = view s" "cached ?s1 = cached s" "keeps z s ?s1" "rest ?s1 = rest s"
    "own ?s1 = own s"
    using Suc.prems(1) cache_ok_cong[of ?s1 s] by (simp_all add: rest_def own_def)
  show ?case
  proof (cases "List.find (\<lambda>x. b_use (buffer_pool ?s1 x) = 0) (rev (buffer_table ?s1 ?h))")
    case None
    then have "make_free_buffer_n n ?s1 = (r, t)" using Suc.prems(2) by (simp add: Let_def)
    from Suc.IH[OF s1(1) this] show ?thesis using s1 by (auto simp: steady_def intro: keeps_trans)
  next
    case (Some x)
    let ?s2 = "?s1\<lparr>buffer_table := (buffer_table ?s1)(?h := remove1 x (buffer_table ?s1 ?h))\<rparr>"
    have x: "x \<in> set (buffer_table ?s1 ?h)" and u: "b_use (buffer_pool ?s1 x) = 0"
      using find_in[OF Some] by auto
    then have "buf_ok ?s1 x" using s1(1) unfolding cache_ok_def cached_def by blast
    then obtain d where d: "b_dev (buffer_pool ?s2 x) = Some d" by (auto simp: buf_ok_def)
    define s3 where "s3 = (if b_dirty (buffer_pool ?s2 x)
      then (write_buffer x ?s2)\<lparr>dirty_accesses := dirty_accesses ?s2 + 1\<rparr> else ?s2)"
    have "errno (write_buffer x ?s2) \<noteq> E_NODISK" "\<not> errno (write_buffer x ?s2) < 0"
      using write_buffer_errno[of ?s2 x, OF d] by auto
    then have t: "t = free_buffer x s3" and r: r
      using Suc.prems(2) d unfolding s3_def make_free_buffer_n.simps Let_def Some option.case
      by (auto simp: write_buffer_eq)
    have f: "buffer_table t = (buffer_table ?s1)(?h := remove1 x (buffer_table ?s1 ?h))"
      "bh_free_list t = x # bh_free_list ?s1" "buffer_pool t = buffer_pool ?s1"
      "devices t = (if b_dirty (buffer_pool ?s1 x) then written x ?s1 else devices ?s1)" "rest t = rest ?s1"
      using d by (simp_all add: t s3_def free_buffer_def write_buffer_eq rest_def written_rest cong: if_cong)
        (auto simp: written_def)
    from evict[OF s1(1) x u f(1) f(2) f(3) f(4), of z] show ?thesis
      using s1 r f(2,3,5) by (auto simp: steady_def intro: keeps_trans)
  qed
qed

lemma make_free_buffer_n_finds:
  assumes "x \<in> set (buffer_table s ((last_bucket s + k) mod 4))" "b_use (buffer_pool s x) = 0" "1 \<le> k" "k \<le> n"
  shows "fst (make_free_buffer_n n s)"
  using assms
proof (induction n arbitrary: s k)
  case 0 then show ?case by simp
next
  case (Suc n)
  let ?s1 = "s\<lparr>last_bucket := (last_bucket s + 1) mod BUFFER_BUCKETS\<rparr>"
  show ?case
  proof (cases "List.find (\<lambda>x. b_use (buffer_pool ?s1 x) = 0) (rev (buffer_table ?s1 (last_bucket ?s1)))")
    case None
    have "k \<noteq> 1" using None Suc.prems(1,2) by (auto simp: find_None_iff BUFFER_BUCKETS_def)
    then have "1 \<le> k - 1" "k - 1 \<le> n" using Suc.prems by auto
    moreover have "(last_bucket ?s1 + (k - 1)) mod 4 = (last_bucket s + k) mod 4"
    proof -
      obtain j where "k = Suc j" using Suc.prems(3) by (cases k) auto
      then show ?thesis using mod_add_left_eq[of "last_bucket s + 1" 4 j] by (simp add: BUFFER_BUCKETS_def)
    qed
    ultimately have "fst (make_free_buffer_n n ?s1)"
      using Suc.prems(1,2) by (intro Suc.IH[of ?s1 "k - 1"]) simp_all
    then show ?thesis using None by (simp add: Let_def)
  next
    case (Some y) then show ?thesis unfolding make_free_buffer_n.simps Let_def Some by simp
  qed
qed

lemma BUFFER_HASH_less: "BUFFER_HASH blk < 4"
  by (simp add: BUFFER_HASH_def unat_mod)

lemma make_free_buffer_succeeds:
  assumes ok: "cache_ok s" and x: "x \<in> cached s" "b_use (buffer_pool s x) = 0"
  shows "fst (make_free_buffer s)"
proof -
  obtain h where h: "x \<in> set (buffer_table s h)" using x(1) by (auto simp: cached_def)
  then have "BUFFER_HASH (b_blkno (buffer_pool s x)) = h" using ok by (simp add: cache_ok_def)
  then have h4: "h < 4" using BUFFER_HASH_less by metis
  define l where "l = last_bucket s mod 4"
  define k where "k = (if l < h then h - l else h + 4 - l)"
  have "l < 4" by (simp add: l_def)
  then have "(l + k) mod 4 = h" "1 \<le> k" "k \<le> BUFFER_BUCKETS" using h4 by (auto simp: k_def BUFFER_BUCKETS_def)
  moreover have "(last_bucket s + k) mod 4 = (l + k) mod 4" by (simp add: l_def mod_add_left_eq)
  ultimately have "1 \<le> k" "k \<le> BUFFER_BUCKETS" "(last_bucket s + k) mod 4 = h" by simp_all
  then show ?thesis unfolding make_free_buffer_def
    using make_free_buffer_n_finds[of x s k] h x(2) by simp
qed

section \<open>Reading, changing and releasing a buffer\<close>

lemma take_free_buffer_law:
  assumes ok: "cache_ok s" and t: "take_free_buffer s = (r, t)"
  shows "steady z s t \<and> buffer_pool t = buffer_pool s \<and> cached t \<subseteq> cached s \<and> own s = own t \<union> set_option r \<and>
    (case r of None \<Rightarrow> \<not> avail s | Some x \<Rightarrow> x \<notin> cached t \<and> x \<notin> set (bh_free_list t))"
proof -
  define s1 where "s1 = (if bh_free_list s = [] then snd (make_free_buffer s) else s)"
  obtain b u where bu: "make_free_buffer s = (b, u)" by force
  have m: "steady z s u" "b \<longrightarrow> bh_free_list u \<noteq> []" "buffer_pool u = buffer_pool s" "cached u \<subseteq> cached s"
    "\<not> b \<longrightarrow> bh_free_list u = bh_free_list s" "own u = own s"
    using make_free_buffer_n_steady[OF ok bu[unfolded make_free_buffer_def], of z] by auto
  have s1: "steady z s s1" "buffer_pool s1 = buffer_pool s" "cached s1 \<subseteq> cached s" "own s1 = own s"
    using m bu ok by (auto simp: s1_def steady_refl)
  have e: "bh_free_list s1 = [] \<Longrightarrow> \<not> avail s"
    using m bu make_free_buffer_succeeds[OF ok] by (auto simp: s1_def avail_def split: if_splits)
  show ?thesis
  proof (cases "bh_free_list s1")
    case Nil
    then have "r = None" "t = s1" using t by (simp_all add: take_free_buffer_def s1_def[symmetric])
    then show ?thesis using s1 e Nil by simp
  next
    case (Cons x xs)
    then have r: "r = Some x" and tt: "t = s1\<lparr>bh_free_list := xs\<rparr>"
      using t by (simp_all add: take_free_buffer_def s1_def[symmetric])
    have f: "cached t = cached s1" "buffer_pool t = buffer_pool s1" "holds t = holds s1" "view t = view s1"
      by (auto simp: tt holds_def view_def find_buffer_def fun_eq_iff cong: option.case_cong)
    have ok1: "cache_ok s1" using s1(1) by (simp add: steady_def)
    then have "cache_ok t" using Cons f by (simp add: cache_ok_def buf_ok_def fixed_medium_def) (simp add: tt)
    moreover have "x \<notin> cached t" "x \<notin> set (bh_free_list t)" using ok1 Cons f by (auto simp: cache_ok_def tt)
    moreover have "rest t = rest s" using s1(1) by (simp add: steady_def tt rest_def)
    moreover have "keeps z s t" using s1(1) f by (simp add: steady_def keeps_def)
    moreover have "own s = insert x (own t)" using s1(4) f Cons by (auto simp: own_def tt)
    ultimately show ?thesis using s1 f r by (simp add: steady_def)
  qed
qed

lemma touch_buffer_law:
  assumes ok: "cache_ok s" and x: "holds s x d blk" and t: "t = touch_buffer blk x s"
  shows "cache_ok t \<and> view t = view s \<and> rest t = rest s \<and> cached t = cached s \<and> bh_free_list t = bh_free_list s
    \<and> buffer_pool t = (buffer_pool s)(x := (buffer_pool s x)\<lparr>b_use := b_use (buffer_pool s x) + 1\<rparr>)"
proof -
  let ?h = "BUFFER_HASH blk"
  have xh: "x \<in> set (buffer_table s ?h)" using ok x by (auto simp: cache_ok_def holds_def cached_def)
  have tb: "buffer_table t = (buffer_table s)(?h := x # remove1 x (buffer_table s ?h))"
    using x by (simp add: t touch_buffer_def chain_buffer_def unchain_def buf_upd_def Let_def holds_def)
  have po: "buffer_pool t = (buffer_pool s)(x := (buffer_pool s x)\<lparr>b_use := b_use (buffer_pool s x) + 1\<rparr>)"
    and de: "devices t = devices s" and fr: "bh_free_list t = bh_free_list s" and re: "rest t = rest s"
    by (simp_all add: t touch_buffer_def chain_buffer_def unchain_def buf_upd_def Let_def rest_def)
  have set_tb: "set (buffer_table t h) = set (buffer_table s h)" for h
    using xh ok by (auto simp: tb cache_ok_def)
  have c: "cached t = cached s" by (simp add: cached_def set_tb)
  have h: "holds t = holds s" using c by (auto simp: holds_def po fun_eq_iff)
  have okt: "cache_ok t" unfolding cache_ok_def
  proof (intro conjI)
    show "\<forall>h. distinct (buffer_table t h)" using ok by (simp add: cache_ok_def tb)
    show "\<forall>h. \<forall>x\<in>set (buffer_table t h). BUFFER_HASH (b_blkno (buffer_pool t x)) = h"
      using ok by (simp add: set_tb po cache_ok_def)
    show "distinct (bh_free_list t)" "\<forall>x\<in>set (bh_free_list t). x \<notin> cached t"
      using ok by (simp_all add: cache_ok_def fr c)
    show "\<forall>x y d blk. holds t x d blk \<longrightarrow> holds t y d blk \<longrightarrow> x = y" using ok by (simp add: h cache_ok_def)
    show "\<forall>y\<in>cached t. buf_ok t y" using ok by (auto simp: c cache_ok_def buf_ok_def fixed_medium_def po de)
  qed
  moreover have "view t = view s"
    by (rule view_same[OF ok okt]) (auto simp: h de po)
  ultimately show ?thesis using c fr po re by simp
qed

text \<open>A free buffer is given a block and its contents; \<open>bs\<close> is the medium's or, unread, anything.\<close>

lemma load_law:
  assumes ok: "cache_ok s" and x: "x \<notin> cached s" "x \<notin> set (bh_free_list s)" and n: "\<forall>y. \<not> holds s y d blk"
    and fm: "fixed_medium s d" and v: "\<not> b_invalid b" "b_use b = 1" "b_dev b = Some d" "b_blkno b = blk"
    and dat: "good_block (devices s d) blk \<longrightarrow> \<not> b_dirty b \<longrightarrow> b_data b = medium (devices s d) blk"
    and tb: "buffer_table t = (buffer_table s)(BUFFER_HASH blk := x # buffer_table s (BUFFER_HASH blk))"
    and fr: "bh_free_list t = bh_free_list s" and po: "buffer_pool t = (buffer_pool s)(x := b)"
    and de: "devices t = devices s"
  shows "cache_ok t \<and> cached t = insert x (cached s) \<and> holds t x d blk \<and>
    (\<forall>e c. (e, c) \<noteq> (d, blk) \<longrightarrow> view t e c = view s e c) \<and> (good_block (devices s d) blk \<longrightarrow> view t d blk = Some (b_data b))"
proof -
  have c: "cached t = insert x (cached s)" by (auto simp: cached_def tb split: if_splits)
  have h: "holds t y e a \<longleftrightarrow> (if y = x then e = d \<and> a = blk else holds s y e a)" for y e a
    using x(1) v by (auto simp: holds_def c po)
  have okt: "cache_ok t" unfolding cache_ok_def
  proof (intro conjI)
    have "x \<notin> set (buffer_table s k)" for k using x(1) by (auto simp: cached_def)
    then show "\<forall>h. distinct (buffer_table t h)" using ok by (simp add: cache_ok_def tb)
    show "\<forall>h. \<forall>x\<in>set (buffer_table t h). BUFFER_HASH (b_blkno (buffer_pool t x)) = h"
      using ok v x(1) by (auto simp: tb po cache_ok_def cached_def split: if_splits)
    show "distinct (bh_free_list t)" "\<forall>x\<in>set (bh_free_list t). x \<notin> cached t"
      using ok x by (auto simp: cache_ok_def fr c)
    show "\<forall>x y d blk. holds t x d blk \<longrightarrow> holds t y d blk \<longrightarrow> x = y" using ok n by (auto simp: h cache_ok_def)
    have "buf_ok t y" if "y \<in> cached s" for y
      using ok that x(1) by (auto simp: cache_ok_def buf_ok_def fixed_medium_def po de)
    moreover have "buf_ok t x" using v fm dat by (simp add: buf_ok_def fixed_medium_def po de)
    ultimately show "\<forall>y\<in>cached t. buf_ok t y" by (simp add: c)
  qed
  have "view t e a = view s e a" if "(e, a) \<noteq> (d, blk)" for e a
  proof (cases "good_block (devices s e) a")
    case False then show ?thesis by (simp add: view_bad de)
  next
    case g: True
    show ?thesis
    proof (cases "\<exists>y. holds s y e a")
      case True
      then obtain y where y: "holds s y e a" by blast
      then have "y \<noteq> x" using x(1) by (auto simp: holds_def)
      then have "holds t y e a" using y by (simp add: h)
      note \<open>y \<noteq> x\<close> this
      then show ?thesis using view_in[OF ok y g] view_in[OF okt, of y e a] g by (simp add: de po)
    next
      case False
      then have "\<forall>y. \<not> holds t y e a" using that by (auto simp: h)
      then show ?thesis using view_out[OF ok _ g] view_out[OF okt, of e a] False g by (simp add: de)
    qed
  qed
  moreover have "view t d blk = Some (b_data b)" if "good_block (devices s d) blk"
    using view_in[OF okt, of x d blk] that by (simp add: h de po)
  ultimately show ?thesis using okt c h by simp
qed

lemma rest_buf_upd [simp]: "rest (buf_upd x f s) = rest s" by (simp add: rest_def buf_upd_def)

lemma rest_aux [simp]:
  "rest (s\<lparr>errno := e\<rparr>) = rest s" "rest (s\<lparr>total_accessed := n\<rparr>) = rest s"
  "rest (s\<lparr>cached_accesses := n\<rparr>) = rest s" "rest (s\<lparr>buffer_table := tb\<rparr>) = rest s"
  "rest (s\<lparr>bh_free_list := fl\<rparr>) = rest s" "rest (s\<lparr>buffer_pool := bp\<rparr>) = rest s"
  by (simp_all add: rest_def)

text \<open>
  \<open>bread\<close> on a fixed medium: it fails only if every buffer is in use, and otherwise
  returns a buffer that holds the block, with what the block shows.
\<close>

lemma bread_law:
  assumes ok: "cache_ok s" and fm: "fixed_medium s d" and t: "bread d blk s = (r, t)"
  shows "case r of None \<Rightarrow> steady z s t \<and> \<not> avail s
    | Some x \<Rightarrow> steady x s t \<and> holds t x d blk \<and> 0 < b_use (buffer_pool t x)
        \<and> (good_block (devices s d) blk \<longrightarrow> view s d blk = Some (b_data (buffer_pool t x)))
        \<and> (x \<in> cached s \<and> 0 < b_use (buffer_pool s x) \<longrightarrow>
             buffer_pool t x = (buffer_pool s x)\<lparr>b_use := b_use (buffer_pool s x) + 1\<rparr>)
        \<and> (avail s \<longrightarrow> b_use (buffer_pool t x) = 1 \<or> bh_free_list t \<noteq> [] \<or> (\<exists>y\<in>cached t. y \<noteq> x \<and> b_use (buffer_pool t y) = 0))
        \<and> own t = own s \<and> (\<forall>y\<in>cached t. b_dirty (buffer_pool t y) \<longrightarrow> y \<in> cached s \<and> b_dirty (buffer_pool s y))"
proof -
  define s2 where "s2 = s\<lparr>total_accessed := total_accessed s + 1\<rparr>"
  have a: "cache_ok s2" "view s2 = view s" "cached s2 = cached s" "holds s2 = holds s" "avail s2 = avail s" "rest s2 = rest s"
    "buffer_pool s2 = buffer_pool s" "devices s2 = devices s" "bh_free_list s2 = bh_free_list s"
    using ok cache_ok_cong[of s2 s] by (simp_all add: s2_def)
  have b: "bread d blk s = (case find_buffer d blk s2 of Some x \<Rightarrow> (Some x, touch_buffer blk x s2)
      | None \<Rightarrow> (case take_free_buffer s2 of (None, s3) \<Rightarrow> (None, s3)
         | (Some x, s3) \<Rightarrow> (let s4 = chain_buffer blk x s3; (rc, bs) = fs_read_blocks d blk s4;
              s5 = buf_upd x (\<lambda>b. b\<lparr>b_dev := Some d, b_blkno := blk, b_use := 1, b_dirty := False,
                     b_invalid := False, b_data := (case bs of Some c \<Rightarrow> c | None \<Rightarrow> b_data b)\<rparr>) s4
              in (Some x, s5\<lparr>errno := rc\<rparr>))))"
    using fm by (simp add: bread_def bread_with_def s2_def Let_def fs_read_blocks_def E_IO_def split: option.split prod.split if_split)
  show ?thesis
  proof (cases "find_buffer d blk s2")
    case (Some x)
    then have x: "holds s2 x d blk" using a(1) by (simp add: find_buffer_eq)
    then have xc: "x \<in> cached s" "buf_ok s x" using ok a(3) by (auto simp: holds_def cache_ok_def)
    define u where "u = touch_buffer blk x s2"
    have r: "r = Some x" "t = u" using t b Some by (simp_all add: u_def)
    note l = touch_buffer_law[OF a(1) x u_def]
    have "steady x s u" using l a by (simp add: steady_def keeps_def)
    moreover have "holds u x d blk" "0 < b_use (buffer_pool u x)" using l x xc by (auto simp: holds_def buf_ok_def a)
    moreover have "view s d blk = Some (b_data (buffer_pool u x))" if "good_block (devices s d) blk"
      using view_in[OF a(1) x] l that a by simp
    moreover have "b_use (buffer_pool u x) = 1 \<or> bh_free_list u \<noteq> [] \<or> (\<exists>y\<in>cached u. y \<noteq> x \<and> b_use (buffer_pool u y) = 0)" if "avail s"
      using that l a xc by (cases "b_use (buffer_pool s x) = 0") (auto simp: avail_def)
    moreover have "own u = own s" using l a by (simp add: own_def)
    moreover have "\<forall>y\<in>cached u. b_dirty (buffer_pool u y) \<longrightarrow> y \<in> cached s \<and> b_dirty (buffer_pool s y)"
      using l a by auto
    ultimately show ?thesis using r l a by simp
  next
    case None
    then have n: "\<forall>y. \<not> holds s2 y d blk" using a(1) by (simp add: find_buffer_none)
    obtain q s3 where q: "take_free_buffer s2 = (q, s3)" by force
    note l = take_free_buffer_law[OF a(1) q]
    show ?thesis
    proof (cases q)
      case None
      then have "r = None" "t = s3" using t b \<open>find_buffer d blk s2 = None\<close> q by simp_all
      then show ?thesis using l[of z] None a by (simp add: steady_def keeps_def)
    next
      case (Some x)
      have st: "steady x s2 s3" and xn: "x \<notin> cached s3" "x \<notin> set (bh_free_list s3)"
        and po3: "buffer_pool s3 = buffer_pool s2" and cs3: "cached s3 \<subseteq> cached s2" using l[of x] Some by auto
      have ok3: "cache_ok s3" using st by (simp add: steady_def)
      have dev3: "good_block (devices s3 d) = good_block (devices s d)" "fixed_medium s3 d"
        using rest_dev[of s3 s d] st fm a by (simp_all add: steady_def fixed_medium_def)
      have n3: "\<forall>y. \<not> holds s3 y d blk" using n cs3 po3 by (auto simp: holds_def)
      define bb where "bb = (buffer_pool s3 x)\<lparr>b_dev := Some d, b_blkno := blk, b_use := 1, b_dirty := False,
         b_invalid := False, b_data := (if good_block (devices s d) blk then medium (devices s3 d) blk else b_data (buffer_pool s3 x))\<rparr>"
      have r: "r = Some x" and tf: "buffer_table t = (buffer_table s3)(BUFFER_HASH blk := x # buffer_table s3 (BUFFER_HASH blk))"
        "bh_free_list t = bh_free_list s3" "buffer_pool t = (buffer_pool s3)(x := bb)" "devices t = devices s3" "rest t = rest s3"
        using t b \<open>find_buffer d blk s2 = None\<close> q Some dev3
        by (auto simp: fs_read_blocks_def chain_buffer_def buf_upd_def bb_def Let_def split: if_splits)
      have bv: "\<not> b_invalid bb" "b_use bb = 1" "b_dev bb = Some d" "b_blkno bb = blk"
        "good_block (devices s3 d) blk \<longrightarrow> \<not> b_dirty bb \<longrightarrow> b_data bb = medium (devices s3 d) blk"
        by (simp_all add: bb_def dev3)
      note ld = load_law[OF ok3 xn n3 dev3(2) bv tf(1-4)]
      have v3: "view s3 = view s" using st a by (simp add: steady_def)
      have vt: "view t = view s3"
      proof (intro ext)
        fix e c
        show "view t e c = view s3 e c"
        proof (cases "(e, c) = (d, blk)")
          case True
          then show ?thesis using ld view_out[OF ok3 n3] tf(4) by (cases "good_block (devices s3 d) blk") (auto simp: view_bad bb_def dev3)
        qed (use ld in auto)
      qed
      have kt: "keeps x s t"
      proof -
        have "keeps x s s3" using st a by (simp add: steady_def keeps_def)
        moreover have "keeps x s3 t" using ld tf by (simp add: keeps_def)
        ultimately show ?thesis by (rule keeps_trans)
      qed
      have xs: "x \<notin> cached s \<or> b_use (buffer_pool s x) \<le> 0"
      proof (rule ccontr)
        assume "\<not> ?thesis"
        moreover obtain y where "y \<noteq> x" by (metis n_not_Suc_n)
        ultimately have "x \<in> cached s3"
          using l[of y] Some a by (auto simp: steady_def keeps_def)
        then show False using xn by simp
      qed
      have "steady x s t" using ld vt v3 kt tf(5) st a by (simp add: steady_def)
      moreover have "\<forall>y\<in>cached t. b_dirty (buffer_pool t y) \<longrightarrow> y \<in> cached s \<and> b_dirty (buffer_pool s y)"
        using ld tf cs3 po3 a by (auto simp: bb_def)
      moreover have "own t = own s" using ld tf l[of z] Some a by (auto simp: own_def)
      ultimately show ?thesis using r ld tf bv xs vt v3 dev3 by auto
    qed
  qed
qed

text \<open>The contents change in place and the buffer becomes dirty: the view changes at its block.\<close>

definition mark :: "(u8 list \<Rightarrow> u8 list) \<Rightarrow> nat \<Rightarrow> fsys \<Rightarrow> fsys" where
  "mark f x s = buf_upd x (\<lambda>b. b\<lparr>b_data := f (b_data b), b_dirty := True\<rparr>) s"

definition view_upd :: "fsys \<Rightarrow> nat \<Rightarrow> u32 \<Rightarrow> u8 list \<Rightarrow> nat \<Rightarrow> u32 \<Rightarrow> u8 list option" where
  "view_upd s d blk bs = (view s)(d := (view s d)(blk := (if good_block (devices s d) blk then Some bs else None)))"

lemma mark_law:
  assumes ok: "cache_ok s" and x: "holds s x d blk" and t: "t = mark f x s"
  shows "cache_ok t \<and> view t = view_upd s d blk (f (b_data (buffer_pool s x))) \<and> rest t = rest s \<and> holds t = holds s
    \<and> cached t = cached s \<and> bh_free_list t = bh_free_list s \<and> devices t = devices s \<and> buffer_pool t = (buffer_pool s)(x :=
        (buffer_pool s x)\<lparr>b_data := f (b_data (buffer_pool s x)), b_dirty := True\<rparr>)"
proof -
  have po: "buffer_pool t = (buffer_pool s)(x := (buffer_pool s x)\<lparr>b_data := f (b_data (buffer_pool s x)), b_dirty := True\<rparr>)"
    and o: "buffer_table t = buffer_table s" "bh_free_list t = bh_free_list s" "devices t = devices s" "rest t = rest s"
    by (simp_all add: t mark_def) (simp_all add: buf_upd_def)
  have c: "cached t = cached s" by (simp add: cached_def o)
  have h: "holds t = holds s" by (auto simp: holds_def c po fun_eq_iff)
  have okt: "cache_ok t" using ok by (auto simp: cache_ok_def c h o po buf_ok_def fixed_medium_def)
  have "view t e a = view_upd s d blk (f (b_data (buffer_pool s x))) e a" for e a
  proof (cases "good_block (devices s e) a")
    case False then show ?thesis by (auto simp: view_bad o view_upd_def)
  next
    case g: True
    show ?thesis
    proof (cases "\<exists>y. holds s y e a")
      case True
      then obtain y where y: "holds s y e a" by blast
      then have "y = x \<longleftrightarrow> e = d \<and> a = blk" using x ok by (auto simp: cache_ok_def holds_def)
      then show ?thesis using view_in[OF ok y g] view_in[OF okt, of y e a] y g by (auto simp: h o po view_upd_def)
    next
      case False
      then have "\<not> (e = d \<and> a = blk)" using x by blast
      then show ?thesis using view_out[OF ok _ g] view_out[OF okt, of e a] False g by (auto simp: h o view_upd_def)
    qed
  qed
  then show ?thesis using okt c h o po by (simp add: fun_eq_iff)
qed

lemma brelse_law:
  assumes ok: "cache_ok s" and x: "x \<in> cached s" and t: "t = brelse x s" and u: "0 < b_use (buffer_pool s x)"
  shows "steady x s t \<and> cached t = cached s \<and> bh_free_list t = bh_free_list s \<and> buffer_pool t = (buffer_pool s)(x :=
     (buffer_pool s x)\<lparr>b_dirty := False, b_use := b_use (buffer_pool s x) - 1\<rparr>)"
proof -
  obtain d where d: "b_dev (buffer_pool s x) = Some d" "fixed_medium s d" "\<not> b_invalid (buffer_pool s x)"
    using ok x by (auto simp: cache_ok_def buf_ok_def)
  let ?s1 = "buf_upd x (\<lambda>b. b\<lparr>b_dirty := False\<rparr>) s"
  have e: "\<not> errno (write_buffer x ?s1) < 0" using write_buffer_errno[of ?s1 x d] d by (simp add: buf_upd_def)
  have t': "t = buf_upd x (\<lambda>b. b\<lparr>b_use := b_use b - 1\<rparr>) (if b_dirty (buffer_pool s x) then write_buffer x ?s1 else s)"
    using d e by (simp add: t brelse_def brelse_with_def Let_def)
  have w: "write_buffer x ?s1 = ?s1\<lparr>devices := written x s,
      errno := (if good_block (devices s d) (b_blkno (buffer_pool s x)) then 1 else E_IO)\<rparr>"
    using write_buffer_eq[of ?s1 x d] d by (simp add: buf_upd_def written_def cong: option.case_cong)
  note t' = t'[unfolded w]
  have po: "buffer_pool t = (buffer_pool s)(x := (buffer_pool s x)\<lparr>b_dirty := False, b_use := b_use (buffer_pool s x) - 1\<rparr>)"
    by (cases "b_dirty (buffer_pool s x)") (auto simp: t' buf_upd_def fun_eq_iff)
  have o: "buffer_table t = buffer_table s" "bh_free_list t = bh_free_list s"
    and de: "devices t = (if b_dirty (buffer_pool s x) then written x s else devices s)"
    by (simp_all add: t' buf_upd_def)
  have re: "rest t = rest s" by (simp add: t' rest_def buf_upd_def written_rest)
  have c: "cached t = cached s" by (simp add: cached_def o)
  have h: "holds t = holds s" by (auto simp: holds_def c po fun_eq_iff)
  have same: "b_dev (buffer_pool s y) = b_dev (buffer_pool s x) \<Longrightarrow> b_blkno (buffer_pool s y) = b_blkno (buffer_pool s x) \<Longrightarrow> y = x"
    if "y \<in> cached s" for y using ok that x d unfolding cache_ok_def holds_def by metis
  have okt: "cache_ok t" unfolding cache_ok_def
  proof (intro conjI)
    show "\<forall>h. distinct (buffer_table t h)" "\<forall>h. \<forall>x\<in>set (buffer_table t h). BUFFER_HASH (b_blkno (buffer_pool t x)) = h"
      "distinct (bh_free_list t)" "\<forall>x\<in>set (bh_free_list t). x \<notin> cached t"
      "\<forall>x y d blk. holds t x d blk \<longrightarrow> holds t y d blk \<longrightarrow> x = y"
      using ok by (auto simp: cache_ok_def o c h po)
    show "\<forall>y\<in>cached t. buf_ok t y"
    proof
      fix y assume "y \<in> cached t"
      then have y: "y \<in> cached s" "buf_ok s y" using ok by (simp_all add: c cache_ok_def)
      show "buf_ok t y"
      proof (cases "y = x")
        case True then show ?thesis using y u d by (auto simp: buf_ok_def po de fixed_medium_def medium_written)
      next
        case False then show ?thesis using y same[OF y(1)] by (auto simp: buf_ok_def po de fixed_medium_def medium_written)
      qed
    qed
  qed
  moreover have "view t = view s"
  proof (rule view_same[OF ok okt])
    show "good_block (devices t e) = good_block (devices s e)" for e by (simp add: de)
    fix e blk assume n: "\<forall>y. \<not> holds s y e blk"
    then have "\<not> (b_dev (buffer_pool s x) = Some e \<and> b_blkno (buffer_pool s x) = blk)" using x by (auto simp: holds_def)
    then show "(\<forall>y. \<not> holds t y e blk) \<and> medium (devices t e) blk = medium (devices s e) blk
       \<or> (\<exists>y. holds t y e blk \<and> b_data (buffer_pool t y) = medium (devices s e) blk)"
      using n by (auto simp: h de medium_written)
  qed (auto simp: h po)
  moreover have "keeps x s t" by (auto simp: keeps_def c po)
  ultimately show ?thesis using re c o po by (simp add: steady_def)
qed

text \<open>Editing, marking and releasing a buffer is the same with and without an immediate write.\<close>

lemma store_eq:
  assumes ok: "cache_ok s" and x: "x \<in> cached s"
  shows "brelse x (bdirty x w (edit_buffer x f s)) = brelse x (mark f x s)"
proof -
  obtain d where d: "b_dev (buffer_pool s x) = Some d" "media_code (devices s d) = None" "\<not> b_invalid (buffer_pool s x)"
    using ok x by (auto simp: cache_ok_def buf_ok_def fixed_medium_def)
  have tm: "test_media d t = (True, t)" if "devices t = devices s" for t
    using that d by (simp add: fixed_medium_def)
  show ?thesis
  proof (cases w)
    case False
    have "bdirty x False (edit_buffer x f s) = mark f x s"
      using d tm by (simp add: bdirty_def edit_buffer_def mark_def buf_upd_def)
    then show ?thesis using False by simp
  next
    case True
    let ?c = "(buffer_pool s x)\<lparr>b_data := f (b_data (buffer_pool s x))\<rparr>"
    let ?n = "s\<lparr>buffer_pool := (buffer_pool s)(x := ?c\<lparr>b_dirty := False\<rparr>)\<rparr>"
    have wn: "write_buffer x ?n = ?n\<lparr>devices := written x ?n,
        errno := (if good_block (devices s d) (b_blkno (buffer_pool s x)) then 1 else E_IO)\<rparr>"
      using write_buffer_eq[of ?n x d] d by simp
    then have en: "\<not> errno (write_buffer x ?n) < 0" by (simp add: E_IO_def)
    have m: "mark f x s = s\<lparr>buffer_pool := (buffer_pool s)(x := ?c\<lparr>b_dirty := True\<rparr>)\<rparr>"
      by (simp add: mark_def buf_upd_def)
    have bd: "bdirty x True (edit_buffer x f s) = write_buffer x ?n"
      using d tm en by (simp add: bdirty_def edit_buffer_def buf_upd_def Let_def)
    have tw: "test_media d (write_buffer x ?n) = (True, write_buffer x ?n)"
      using d by (simp add: wn fixed_medium_def)
    have "brelse x (mark f x s) = buf_upd x (\<lambda>b. b\<lparr>b_use := b_use b - 1\<rparr>) (write_buffer x ?n)"
      using d tm en unfolding brelse_def brelse_with_def m by (simp add: buf_upd_def Let_def)
    moreover have "brelse x (write_buffer x ?n) = buf_upd x (\<lambda>b. b\<lparr>b_use := b_use b - 1\<rparr>) (write_buffer x ?n)"
      unfolding brelse_def brelse_with_def using d tw by (simp add: wn Let_def)
    ultimately show ?thesis using True bd by simp
  qed
qed

text \<open>\<open>bwrite\<close> puts a whole block.\<close>

lemma bwrite_law:
  assumes ok: "cache_ok s" and fm: "fixed_medium s d" and av: "avail s" and t: "bwrite d blk bs s = (r, t)"
  shows "r \<and> cache_ok t \<and> view t = view_upd s d blk bs \<and> rest t = rest s \<and> avail t \<and> own t = own s
     \<and> (\<forall>y\<in>cached t. b_dirty (buffer_pool t y) \<longrightarrow> y \<in> cached s \<and> b_dirty (buffer_pool s y))"
proof -
  define s2 where "s2 = s\<lparr>total_accessed := total_accessed s + 1\<rparr>"
  have a: "cache_ok s2" "view s2 = view s" "cached s2 = cached s" "holds s2 = holds s" "avail s2" "rest s2 = rest s"
    "buffer_pool s2 = buffer_pool s" "devices s2 = devices s" "fixed_medium s2 d" "bh_free_list s2 = bh_free_list s"
    using ok av fm cache_ok_cong[of s2 s] fixed_medium_cong[of s2 s] by (simp_all add: s2_def)
  let ?w = "\<lambda>b. b\<lparr>b_data := bs, b_dirty := True\<rparr>"
  have fin: "cache_ok (brelse x u) \<and> view (brelse x u) = view u \<and> rest (brelse x u) = rest u \<and>
      cached (brelse x u) = cached u \<and> bh_free_list (brelse x u) = bh_free_list u \<and> buffer_pool (brelse x u) =
      (buffer_pool u)(x := (buffer_pool u x)\<lparr>b_dirty := False, b_use := b_use (buffer_pool u x) - 1\<rparr>)"
    if "cache_ok u" "x \<in> cached u" "0 < b_use (buffer_pool u x)" for x u
    using brelse_law[OF that(1,2) refl that(3)] by (simp add: steady_def)
  show ?thesis
  proof (cases "find_buffer d blk s2")
    case (Some x)
    then have x: "holds s2 x d blk" using a(1) by (simp add: find_buffer_eq)
    then have xc: "x \<in> cached s" "buf_ok s x" using ok a(3) by (auto simp: holds_def cache_ok_def)
    define u where "u = touch_buffer blk x s2"
    define v where "v = mark (\<lambda>_. bs) x u"
    note l = touch_buffer_law[OF a(1) x u_def]
    have xu: "holds u x d blk" using l x by (auto simp: holds_def)
    have oku: "cache_ok u" using l by simp
    note m = mark_law[OF oku xu v_def]
    have rt: "r" "t = brelse x v"
      using t Some fm by (simp_all add: bwrite_def s2_def[symmetric] Let_def u_def v_def mark_def)
    have "devices u = devices s" using a by (simp add: u_def touch_buffer_def chain_buffer_def unchain_def buf_upd_def Let_def)
    then have vu: "view v = view_upd s d blk bs" using m l a by (simp add: view_upd_def)
    have "0 < b_use (buffer_pool v x)" using m l xc a by (simp add: buf_ok_def)
    note f = fin[of v x, OF _ _ this]
    have "avail t"
      using av f m l a xu rt xc by (cases "b_use (buffer_pool s x) = 0") (auto simp: avail_def holds_def)
    moreover have "own t = own s" using rt f m l a xu by (simp add: own_def holds_def)
    ultimately show ?thesis using rt f m l a vu xu by (auto simp: holds_def)
  next
    case None
    then have n: "\<forall>y. \<not> holds s2 y d blk" using a(1) by (simp add: find_buffer_none)
    obtain q s3 where q: "take_free_buffer s2 = (q, s3)" by force
    note l = take_free_buffer_law[OF a(1) q]
    obtain x where x: "q = Some x" using l a by (cases q) auto
    have st: "steady x s2 s3" and xn: "x \<notin> cached s3" "x \<notin> set (bh_free_list s3)"
      and po3: "buffer_pool s3 = buffer_pool s2" and cs3: "cached s3 \<subseteq> cached s2" using l[of x] x by auto
    have ok3: "cache_ok s3" using st by (simp add: steady_def)
    have dev3: "good_block (devices s3 d) = good_block (devices s d)" "fixed_medium s3 d"
      using rest_dev[of s3 s d] st fm a by (simp_all add: steady_def fixed_medium_def)
    have n3: "\<forall>y. \<not> holds s3 y d blk" using n cs3 po3 by (auto simp: holds_def)
    define bb where "bb = (buffer_pool s3 x)\<lparr>b_dev := Some d, b_blkno := blk, b_use := 1, b_invalid := False,
         b_data := bs, b_dirty := True\<rparr>"
    define v where "v = buf_upd x ?w (buf_upd x (\<lambda>b. b\<lparr>b_dev := Some d, b_blkno := blk, b_use := 1, b_invalid := False\<rparr>) (chain_buffer blk x s3))"
    have rt: "r" "t = brelse x v"
      using t None fm q x by (simp_all add: bwrite_def s2_def[symmetric] Let_def v_def)
    have tf: "buffer_table v = (buffer_table s3)(BUFFER_HASH blk := x # buffer_table s3 (BUFFER_HASH blk))"
      "bh_free_list v = bh_free_list s3" "buffer_pool v = (buffer_pool s3)(x := bb)" "devices v = devices s3" "rest v = rest s3"
      by (simp_all add: v_def) (simp_all add: chain_buffer_def buf_upd_def bb_def)
    have bv: "\<not> b_invalid bb" "b_use bb = 1" "b_dev bb = Some d" "b_blkno bb = blk"
      "good_block (devices s3 d) blk \<longrightarrow> \<not> b_dirty bb \<longrightarrow> b_data bb = medium (devices s3 d) blk"
      by (simp_all add: bb_def)
    note ld = load_law[OF ok3 xn n3 dev3(2) bv tf(1-4)]
    have "view v = view_upd s d blk bs"
    proof (intro ext)
      fix e c
      show "view v e c = view_upd s d blk bs e c"
        using ld dev3 st a tf(4) by (cases "(e, c) = (d, blk)") (auto simp: view_upd_def view_bad steady_def bb_def)
    qed
    moreover have "0 < b_use (buffer_pool v x)" using tf bv by simp
    note f = fin[of v x, OF _ _ this]
    have "avail t" using f ld tf bv rt by (auto simp: avail_def)
    moreover have "rest t = rest s" using f ld tf rt st a by (simp add: steady_def)
    moreover have "\<forall>y\<in>cached t. b_dirty (buffer_pool t y) \<longrightarrow> y \<in> cached s \<and> b_dirty (buffer_pool s y)"
      using f ld tf rt cs3 po3 a by auto
    moreover have "own t = own s" using f ld tf rt l[of x] x a by (auto simp: own_def)
    ultimately show ?thesis using rt f ld by auto
  qed
qed

section \<open>The cache as a store of blocks\<close>

text \<open>
  The interface its clients use: \<open>get\<close> a block into a buffer, look at it, and either
  \<open>put\<close> it back or \<open>edit\<close> it and put it back.  \<open>ready\<close> is what the
  provider needs and keeps, \<open>frame\<close> what it leaves alone.
\<close>

locale block_store =
  fixes ready :: "'s \<Rightarrow> bool" and content :: "'s \<Rightarrow> 'b \<Rightarrow> 'c option" and frame :: "'s \<Rightarrow> 'f"
    and get :: "'b \<Rightarrow> 's \<Rightarrow> nat option \<times> 's" and buf :: "'s \<Rightarrow> nat \<Rightarrow> 'c"
    and put :: "nat \<Rightarrow> 's \<Rightarrow> 's" and edit :: "('c \<Rightarrow> 'c) \<Rightarrow> nat \<Rightarrow> 's \<Rightarrow> 's"
  assumes get_ready: "ready s \<Longrightarrow> \<exists>x t. get b s = (Some x, t)"
    and put_ready: "\<lbrakk>ready s; get b s = (Some x, t)\<rbrakk> \<Longrightarrow> ready (put x t)"
    and put_content: "\<lbrakk>ready s; get b s = (Some x, t)\<rbrakk> \<Longrightarrow> content (put x t) = content s"
    and put_frame: "\<lbrakk>ready s; get b s = (Some x, t)\<rbrakk> \<Longrightarrow> frame (put x t) = frame s"
    and get_frame: "\<lbrakk>ready s; get b s = (Some x, t)\<rbrakk> \<Longrightarrow> frame t = frame s"
    and get_content: "\<lbrakk>ready s; get b s = (Some x, t); content s b = Some c\<rbrakk> \<Longrightarrow> buf t x = c"
    and edit_ready: "\<lbrakk>ready s; get b s = (Some x, t)\<rbrakk> \<Longrightarrow> ready (edit f x t)"
    and edit_content: "\<lbrakk>ready s; get b s = (Some x, t)\<rbrakk> \<Longrightarrow> content (edit f x t) = (content s)(b := map_option f (content s b))"
    and edit_frame: "\<lbrakk>ready s; get b s = (Some x, t)\<rbrakk> \<Longrightarrow> frame (edit f x t) = frame s"
begin

text \<open>A block that is read, and a block that is changed by \<open>f\<close>.\<close>

lemma read_block:
  assumes "ready s" "content s b = Some c"
  obtains x t where "get b s = (Some x, t)" "buf t x = c" "frame t = frame s"
    "ready (put x t)" "content (put x t) = content s" "frame (put x t) = frame s"
  using get_ready[OF assms(1), of b] get_content[OF assms(1) _ assms(2)] get_frame[OF assms(1)]
    put_ready[OF assms(1)] put_content[OF assms(1)] put_frame[OF assms(1)] by blast

lemma change_block:
  assumes "ready s" "content s b = Some c"
  obtains x t where "get b s = (Some x, t)" "buf t x = c" "frame t = frame s"
    "ready (edit f x t)" "content (edit f x t) = (content s)(b \<mapsto> f c)" "frame (edit f x t) = frame s"
  using get_ready[OF assms(1), of b] get_content[OF assms(1) _ assms(2)] get_frame[OF assms(1)] edit_ready[OF assms(1)]
    edit_content[OF assms(1)] edit_frame[OF assms(1)] assms(2) by (metis option.map(2))

text \<open>What was put by a change is what the next \<open>get\<close> of the block sees, and other blocks keep theirs.\<close>

lemma get_after_edit:
  assumes "ready s" "get b s = (Some x, t)" "content s b = Some c" "get b (edit f x t) = (Some y, u)"
  shows "buf u y = f c"
  using get_content[OF edit_ready[OF assms(1,2), of f] assms(4)] edit_content[OF assms(1,2), of f] assms(3) by simp

lemma get_after_edit_other:
  assumes "ready s" "get b s = (Some x, t)" "get b' (edit f x t) = (Some y, u)" "b' \<noteq> b" "content s b' = Some c"
  shows "buf u y = c"
  using get_content[OF edit_ready[OF assms(1,2), of f] assms(3)] edit_content[OF assms(1,2), of f] assms(4,5) by simp

end

definition ready :: "nat \<Rightarrow> fsys \<Rightarrow> bool" where
  "ready d s \<longleftrightarrow> cache_ok s \<and> fixed_medium s d \<and> avail s"

text \<open>Everything but the contents of the blocks of \<open>d\<close>.\<close>

definition others :: "nat \<Rightarrow> fsys \<Rightarrow> fsys \<times> (nat \<Rightarrow> u32 \<Rightarrow> u8 list option)" where
  "others d s = (rest s, (view s)(d := (\<lambda>_. None)))"

definition clean :: "fsys \<Rightarrow> bool" where
  "clean s \<longleftrightarrow> (\<forall>x\<in>cached s. \<not> b_dirty (buffer_pool s x))"

lemma held_release:
  assumes rd: "ready d s" and t: "bread d b s = (Some x, t)"
  shows "ready d (brelse x t) \<and> view (brelse x t) = view s \<and> rest (brelse x t) = rest s \<and> (clean s \<longrightarrow> clean (brelse x t))
    \<and> own (brelse x t) = own s"
proof -
  have s: "cache_ok s" "fixed_medium s d" "avail s" using rd by (simp_all add: ready_def)
  note b = bread_law[OF s(1,2) t, simplified]
  have xt: "x \<in> cached t" "cache_ok t" "0 < b_use (buffer_pool t x)" using b by (auto simp: holds_def steady_def)
  note l = brelse_law[OF xt(2) xt(1) refl xt(3)]
  have "avail (brelse x t)" using b s(3) l xt(1) by (auto simp: avail_def)
  moreover have "rest (brelse x t) = rest s" using b l by (simp add: steady_def)
  moreover have "clean s \<longrightarrow> clean (brelse x t)" using b l by (auto simp: clean_def)
  moreover have "own (brelse x t) = own s" using b l by (simp add: own_def)
  moreover have "fixed_medium (brelse x t) d" using rest_dev[OF \<open>rest (brelse x t) = rest s\<close>] s(2) by (simp add: fixed_medium_def)
  ultimately show ?thesis using b l by (simp add: ready_def steady_def)
qed

lemma held_edit:
  assumes rd: "ready d s" and t: "bread d b s = (Some x, t)" and u: "u = brelse x (bdirty x w (edit_buffer x f t))"
  shows "ready d u \<and> view u = view_upd s d b (f (b_data (buffer_pool t x))) \<and> rest u = rest s \<and> (clean s \<longrightarrow> clean u)
    \<and> own u = own s"
proof -
  have s: "cache_ok s" "fixed_medium s d" "avail s" using rd by (simp_all add: ready_def)
  note b = bread_law[OF s(1,2) t, simplified]
  have xt: "holds t x d b" "cache_ok t" "0 < b_use (buffer_pool t x)" "view t = view s" "rest t = rest s"
    using b by (auto simp: steady_def)
  then have xc: "x \<in> cached t" by (simp add: holds_def)
  note m = mark_law[OF xt(2,1) refl, of f]
  have um: "u = brelse x (mark f x t)" using store_eq[OF xt(2) xc] u by simp
  have xm: "x \<in> cached (mark f x t)" "cache_ok (mark f x t)" "0 < b_use (buffer_pool (mark f x t) x)" using m xc xt by auto
  note l = brelse_law[OF xm(2) xm(1) um xm(3)]
  have "avail u" using b s(3) l m xc by (auto simp: avail_def)
  moreover have r: "rest u = rest s" using xt l m by (simp add: steady_def)
  moreover have "fixed_medium u d" using rest_dev[OF r] s(2) by (simp add: fixed_medium_def)
  moreover have "view u = view_upd s d b (f (b_data (buffer_pool t x)))"
    using l m xt rest_dev[OF xt(5), of d] by (simp add: steady_def view_upd_def)
  moreover have "clean s \<longrightarrow> clean u" using b l m by (auto simp: clean_def)
  moreover have "own u = own s" using b l m by (simp add: own_def)
  ultimately show ?thesis using l by (simp add: ready_def steady_def)
qed

lemma bread_ready:
  assumes "ready d s" shows "\<exists>x t. bread d b s = (Some x, t)"
proof -
  obtain r t where rt: "bread d b s = (r, t)" by force
  then show ?thesis using bread_law[OF _ _ rt] assms by (cases r) (auto simp: ready_def)
qed

lemma bread_content:
  assumes "ready d s" "bread d b s = (Some x, t)"
  shows "rest t = rest s" "view t = view s" "good_block (devices s d) b \<longrightarrow> view s d b = Some (b_data (buffer_pool t x))"
  using bread_law[OF _ _ assms(2)] assms(1) by (auto simp: ready_def steady_def)

interpretation fs: block_store "ready d" "\<lambda>s. view s d" "others d" "bread d" "\<lambda>s x. b_data (buffer_pool s x)"
  brelse "\<lambda>f x s. brelse x (bdirty x w (edit_buffer x f s))" for d w
proof
  fix s b x t f and c :: "u8 list"
  assume r: "ready d s"
  show "\<exists>x t. bread d b s = (Some x, t)" by (rule bread_ready[OF r])
  assume t: "bread d b s = (Some x, t)"
  note h = held_release[OF r t]
  show "ready d (brelse x t)" "view (brelse x t) d = view s d" "others d (brelse x t) = others d s"
    using h by (simp_all add: others_def)
  show "others d t = others d s" using bread_content[OF r t] by (simp add: others_def)
  show "b_data (buffer_pool t x) = c" if "view s d b = Some c"
    using bread_content(3)[OF r t] that by (auto simp: view_def split: if_splits)
  note e = held_edit[OF r t refl, of w f]
  show "ready d (brelse x (bdirty x w (edit_buffer x f t)))" using e by simp
  show "view (brelse x (bdirty x w (edit_buffer x f t))) d = (view s d)(b := map_option f (view s d b))"
    using e bread_content(3)[OF r t] by (auto simp: view_upd_def view_bad)
  show "others d (brelse x (bdirty x w (edit_buffer x f t))) = others d s"
    using e by (simp add: others_def view_upd_def)
qed

section \<open>A module that has just started\<close>

definition blank_fs :: "fs_device \<Rightarrow> fsys" where
  "blank_fs dev = \<lparr>devices = (\<lambda>_. dev), device_list = [0], dev_free_list = [1..<NR_DEVICES],
     buffer_pool = (\<lambda>_. \<lparr>b_dev = None, b_blkno = 0, b_use = 0, b_dirty = False, b_invalid = False, b_data = []\<rparr>),
     buffer_table = (\<lambda>_. []), bh_free_list = [0..<NR_BUFFERS], last_bucket = 0,
     total_accessed = 0, cached_accesses = 0, dirty_accesses = 0,
     inode_pool = (\<lambda>_. \<lparr>i_use = 0, i_dev = 0, i_inode = \<lparr>attr = 0, fsize = 0, modtime = 0, nlinks = 0, blocks = replicate 12 0\<rparr>,
        inum = 0, i_dirty = False, i_invalid = False\<rparr>),
     inode_open_list = [], inode_free_list = [0..<NR_INODES],
     file_pool = (\<lambda>_. \<lparr>f_inode = 0, f_mode = 0, f_pos = 0\<rparr>), file_free_list = [0..<NR_FILES],
     root_dir = [], symlink_nesting = 0, current_dir = None, errno = 0, now = 0, tmp_bb = [], tmp_dir_blk = [],
     junk = 0, overrun = False, stack_overrun = False, hung = False\<rparr>"

definition disk_dev :: "(u32 \<Rightarrow> u8 list) \<Rightarrow> u32 \<Rightarrow> fs_device" where
  "disk_dev m n = \<lparr>dev_name = [], medium = m, good_block = (\<lambda>b. b < n), media_code = None,
     sup = \<lparr>total_blocks = n, inode_bitmap = 1, inodes = 2, num_inodes = 16, data_bitmap = 3, data_start = 4, data_size = n - 4\<rparr>,
     root = None, dev_use = 1, read_only = False, dev_invalid = False\<rparr>"

lemma blank_ready: "media_code dev = None \<Longrightarrow> ready d (blank_fs dev) \<and> clean (blank_fs dev)"
  by (simp add: ready_def cache_ok_def clean_def avail_def cached_def fixed_medium_def blank_fs_def holds_def NR_BUFFERS_def)

lemma blank_devices [simp]: "devices (blank_fs dev) d = dev" by (simp add: blank_fs_def)

lemma blank_view: "media_code dev = None \<Longrightarrow> good_block dev b \<Longrightarrow> view (blank_fs dev) d b = Some (medium dev b)"
  by (simp add: view_def find_buffer_def blank_fs_def)

lemma disk_dev_simps [simp]: "media_code (disk_dev m n) = None" "medium (disk_dev m n) = m"
  "good_block (disk_dev m n) b \<longleftrightarrow> b < n"
  by (simp_all add: disk_dev_def)

end
