(* ===== verification/FsBitmapProps.thy ===== *)
theory FsBitmapProps
  imports FsCacheProps
begin

text \<open>
  Clients of the block store: a sequence of block operations against an array of blocks, and
  the bitmaps of fs/bitmap.c against the sets of numbers they stand for.
\<close>

unbundle bit_operations_syntax

section \<open>A sequence of block operations\<close>

datatype block_op = ReadBlk u32 | WriteBlk u32 "u8 list" | EditBlk u32 nat "u8 list"

primrec op_blk :: "block_op \<Rightarrow> u32" where
  "op_blk (ReadBlk b) = b" | "op_blk (WriteBlk b bs) = b" | "op_blk (EditBlk b off bs) = b"

text \<open>What the callers of the cache do, and the same on an array of blocks.\<close>

definition run_op :: "nat \<Rightarrow> block_op \<Rightarrow> fsys \<Rightarrow> u8 list list \<times> fsys" where
  "run_op d bop s = (case bop of
     ReadBlk b \<Rightarrow> (case bread d b s of (None, t) \<Rightarrow> ([], t) | (Some x, t) \<Rightarrow> ([b_data (buffer_pool t x)], brelse x t))
   | WriteBlk b bs \<Rightarrow> ([], snd (bwrite d b bs s))
   | EditBlk b off bs \<Rightarrow> (case bread d b s of (None, t) \<Rightarrow> ([], t)
       | (Some x, t) \<Rightarrow> ([], brelse x (bdirty x False (edit_buffer x (\<lambda>c. put_bytes c off bs) t)))))"

primrec run_ops :: "nat \<Rightarrow> block_op list \<Rightarrow> fsys \<Rightarrow> u8 list list \<times> fsys" where
  "run_ops d [] s = ([], s)"
| "run_ops d (p # ps) s = (case run_op d p s of (out, t) \<Rightarrow> (case run_ops d ps t of (outs, u) \<Rightarrow> (out @ outs, u)))"

primrec spec_ops :: "block_op list \<Rightarrow> (u32 \<Rightarrow> u8 list) \<Rightarrow> u8 list list \<times> (u32 \<Rightarrow> u8 list)" where
  "spec_ops [] A = ([], A)"
| "spec_ops (p # ps) A = (case p of
     ReadBlk b \<Rightarrow> (case spec_ops ps A of (outs, B) \<Rightarrow> (A b # outs, B))
   | WriteBlk b bs \<Rightarrow> spec_ops ps (A(b := bs))
   | EditBlk b off bs \<Rightarrow> spec_ops ps (A(b := put_bytes (A b) off bs)))"

text \<open>\<open>A\<close> is what the good blocks of \<open>d\<close> show.\<close>

definition shows_array :: "fsys \<Rightarrow> nat \<Rightarrow> (u32 \<Rightarrow> u8 list) \<Rightarrow> bool" where
  "shows_array s d A \<longleftrightarrow> (\<forall>b. good_block (devices s d) b \<longrightarrow> view s d b = Some (A b))"

lemma ready_rest: "rest t = rest s \<Longrightarrow> good_block (devices t d) = good_block (devices s d)"
  using rest_dev(2)[of t s d] by simp

lemma run_op_refines:
  assumes rd: "ready d s" and cl: "clean s" and g: "good_block (devices s d) (op_blk p)" and A: "shows_array s d A"
    and r: "run_op d p s = (out, t)"
  shows "ready d t \<and> clean t \<and> good_block (devices t d) = good_block (devices s d) \<and>
    (case p of ReadBlk b \<Rightarrow> out = [A b] \<and> shows_array t d A | WriteBlk b bs \<Rightarrow> out = [] \<and> shows_array t d (A(b := bs))
     | EditBlk b off bs \<Rightarrow> out = [] \<and> shows_array t d (A(b := put_bytes (A b) off bs)))"
proof (cases p)
  case (ReadBlk b)
  obtain x u where u: "bread d b s = (Some x, u)" using bread_ready[OF rd] by blast
  have v: "view s d b = Some (A b)" using A g ReadBlk by (simp add: shows_array_def)
  have "b_data (buffer_pool u x) = A b" by (rule fs.get_content[OF rd u v])
  then show ?thesis using ReadBlk r u held_release[OF rd u] cl A ready_rest[of t s d] by (auto simp: run_op_def shows_array_def)
next
  case (WriteBlk b bs)
  obtain q u where q: "bwrite d b bs s = (q, u)" by force
  have w: "cache_ok u" "view u = view_upd s d b bs" "rest u = rest s" "avail u" "clean s \<longrightarrow> clean u"
    using bwrite_law[OF _ _ _ q] rd by (auto simp: ready_def clean_def)
  have "fixed_medium u d" using rd rest_dev(1)[OF w(3), of d] by (simp add: ready_def fixed_medium_def)
  then show ?thesis using WriteBlk r q w cl A ready_rest[OF w(3), of d]
    by (auto simp: run_op_def shows_array_def view_upd_def ready_def)
next
  case (EditBlk b off bs)
  obtain x u where u: "bread d b s = (Some x, u)" using bread_ready[OF rd] by blast
  have v: "view s d b = Some (A b)" using A g EditBlk by (simp add: shows_array_def)
  have "b_data (buffer_pool u x) = A b" by (rule fs.get_content[OF rd u v])
  then show ?thesis using EditBlk r u held_edit[OF rd u refl, of False "\<lambda>c. put_bytes c off bs"] cl A ready_rest[of t s d]
    by (auto simp: run_op_def shows_array_def view_upd_def)
qed

lemma clean_medium:
  assumes "cache_ok s" "clean s" "good_block (devices s d) b" shows "view s d b = Some (medium (devices s d) b)"
proof (cases "\<exists>x. holds s x d b")
  case True
  then obtain x where x: "holds s x d b" by blast
  then have "b_data (buffer_pool s x) = medium (devices s d) b"
    using assms by (auto simp: cache_ok_def clean_def buf_ok_def holds_def)
  then show ?thesis using view_in[OF assms(1) x assms(3)] by simp
next
  case False then show ?thesis using view_out[OF assms(1) _ assms(3)] by blast
qed

lemma run_ops_refines:
  assumes "ready d s" "clean s" "\<forall>p\<in>set ps. good_block (devices s d) (op_blk p)" "shows_array s d A"
    "run_ops d ps s = (outs, t)" "spec_ops ps A = (souts, B)"
  shows "outs = souts \<and> ready d t \<and> clean t \<and> good_block (devices t d) = good_block (devices s d) \<and> shows_array t d B"
  using assms
proof (induction ps arbitrary: s A outs souts)
  case Nil then show ?case by simp
next
  case (Cons p ps)
  obtain out u where u: "run_op d p s = (out, u)" by force
  have g: "good_block (devices s d) (op_blk p)" using Cons.prems(3) by simp
  note l = run_op_refines[OF Cons.prems(1,2) g Cons.prems(4) u]
  obtain os where os: "run_ops d ps u = (os, t)" "outs = out @ os" using Cons.prems(5) u by (auto split: prod.splits)
  show ?case
    using l Cons.IH[of u _ os] Cons.prems(3,6) os by (cases p) (auto split: prod.splits)
qed

text \<open>
  C2: The buffer cache refines a disk.  On a fixed medium, with at least one buffer free or
  unused and nothing dirty, every sequence of block reads, whole-block writes and in-place
  changes of good blocks returns what an array of blocks would, and leaves the medium itself
  with the contents of the array: however the blocks fall on the chains and whatever is
  evicted on the way, nothing is lost and nothing waits to be written.
\<close>

theorem cache_refines_disk:
  assumes "ready d s" "clean s" "\<forall>p\<in>set ps. good_block (devices s d) (op_blk p)"
    "run_ops d ps s = (outs, t)" "spec_ops ps (medium (devices s d)) = (souts, B)"
  shows "outs = souts \<and> (\<forall>b. good_block (devices s d) b \<longrightarrow> medium (devices t d) b = B b)"
proof -
  have "shows_array s d (medium (devices s d))"
    using assms(1,2) by (auto simp: shows_array_def ready_def intro: clean_medium)
  from run_ops_refines[OF assms(1-3) this assms(4,5)] have
    l: "outs = souts" "ready d t" "clean t" "good_block (devices t d) = good_block (devices s d)" "shows_array t d B" by auto
  then show ?thesis using clean_medium[of t d] by (auto simp: ready_def shows_array_def)
qed

lemma cache_refines_disk_witness:
  "fst (run_ops 0 [WriteBlk 5 [1, 2, 3], EditBlk 5 1 [9], ReadBlk 5] (blank_fs (disk_dev (\<lambda>_. [0]) 10))) = [[1, 9, 3]]"
proof -
  obtain outs t where r: "run_ops 0 [WriteBlk 5 [1, 2, 3], EditBlk 5 1 [9], ReadBlk 5] (blank_fs (disk_dev (\<lambda>_. [0]) 10)) = (outs, t)"
    by force
  obtain souts B where sp: "spec_ops [WriteBlk 5 [1, 2, 3], EditBlk 5 1 [9], ReadBlk 5]
      (medium (devices (blank_fs (disk_dev (\<lambda>_. [0]) 10)) 0)) = (souts, B)" by force
  have "outs = souts" using cache_refines_disk[OF _ _ _ r sp] blank_ready[of "disk_dev (\<lambda>_. [0]) 10" 0] by simp
  then show ?thesis using r sp by (auto simp: put_bytes_def)
qed

lemma run_op_own: "ready d s \<Longrightarrow> run_op d p s = (out, t) \<Longrightarrow> ready d t \<and> own t = own s"
proof -
  assume rd: "ready d s" and r: "run_op d p s = (out, t)"
  show ?thesis
  proof (cases p)
    case (ReadBlk b)
    obtain x u where u: "bread d b s = (Some x, u)" using bread_ready[OF rd] by blast
    then show ?thesis using ReadBlk r held_release[OF rd u] by (simp add: run_op_def)
  next
    case (WriteBlk b bs)
    obtain q u where q: "bwrite d b bs s = (q, u)" by force
    have w: "cache_ok u" "rest u = rest s" "avail u" "own u = own s"
      using bwrite_law[OF _ _ _ q] rd by (auto simp: ready_def)
    have "fixed_medium u d" using rd rest_dev(1)[OF w(2), of d] by (simp add: ready_def fixed_medium_def)
    then show ?thesis using WriteBlk r q w by (simp add: run_op_def ready_def)
  next
    case (EditBlk b off bs)
    obtain x u where u: "bread d b s = (Some x, u)" using bread_ready[OF rd] by blast
    then show ?thesis using EditBlk r held_edit[OF rd u refl, of False "\<lambda>c. put_bytes c off bs"] by (simp add: run_op_def)
  qed
qed

text \<open>
  C12: No buffer is ever lost or in two places.  Along every sequence of block operations, of
  good blocks and bad ones, each of the twenty buffers is either on the free list or on the
  chain of its block, once, and two buffers never hold the same block.
\<close>

theorem buffers_conserved:
  assumes "ready d s" "own s = {..<NR_BUFFERS}" "run_ops d ps s = (outs, t)"
  shows "cache_ok t \<and> set (bh_free_list t) \<union> cached t = {..<NR_BUFFERS}"
proof -
  have "ready d t \<and> own t = own s"
    using assms(1,3)
  proof (induction ps arbitrary: s outs)
    case Nil then show ?case by simp
  next
    case (Cons p ps)
    obtain out u where u: "run_op d p s = (out, u)" by force
    obtain os where os: "run_ops d ps u = (os, t)" using Cons.prems(2) u by (auto split: prod.splits)
    show ?case using Cons.IH[OF _ os] run_op_own[OF Cons.prems(1) u] by simp
  qed
  then show ?thesis using assms(2) by (simp add: ready_def own_def)
qed

lemma buffers_conserved_witness:
  "set (bh_free_list (snd (run_ops 0 [WriteBlk 5 [1], ReadBlk 77] (blank_fs (disk_dev (\<lambda>_. [0]) 10)))))
     \<union> cached (snd (run_ops 0 [WriteBlk 5 [1], ReadBlk 77] (blank_fs (disk_dev (\<lambda>_. [0]) 10)))) = {..<20}"
proof -
  have o1: "own (blank_fs (disk_dev (\<lambda>_. [0]) 10)) = {..<NR_BUFFERS}"
    by (auto simp: own_def cached_def blank_fs_def)
  have rd: "ready 0 (blank_fs (disk_dev (\<lambda>_. [0]) 10))" using blank_ready by simp
  obtain outs t where r: "run_ops 0 [WriteBlk 5 [1], ReadBlk 77] (blank_fs (disk_dev (\<lambda>_. [0]) 10)) = (outs, t)" by force
  show ?thesis using buffers_conserved[OF rd o1 r] unfolding r by (simp add: NR_BUFFERS_def)
qed

section \<open>Bits\<close>

lemma test_bit_at_eq: "test_bit_at bs n \<longleftrightarrow> bit (bs ! (n div 8)) (n mod 8)"
  by (simp add: test_bit_at_def bit_iff_and_push_bit_not_eq_0)

lemma bit_set_cell: "i < 8 \<Longrightarrow> bit (w OR 2 ^ j) i \<longleftrightarrow> i = j \<or> bit w i" for w :: u8
  by (auto simp: bit_or_iff bit_exp_iff)

lemma bit_clear_cell: "i < 8 \<Longrightarrow> bit (w AND NOT (2 ^ j)) i \<longleftrightarrow> i \<noteq> j \<and> bit w i" for w :: u8
  by (auto simp: bit_and_iff bit_not_iff bit_exp_iff)

lemma bit_same_cell: "n div 8 = m div 8 \<Longrightarrow> n mod 8 = m mod 8 \<Longrightarrow> n = m" for n m :: nat
  by (metis div_mult_mod_eq)

lemma test_set_bit:
  assumes "n < 8 * length bs" shows "test_bit_at (set_bit_at bs n) m \<longleftrightarrow> m = n \<or> test_bit_at bs m"
proof -
  have l: "n div 8 < length bs" using assms by auto
  show ?thesis
  proof (cases "m div 8 = n div 8")
    case True
    then have e: "m = n \<longleftrightarrow> m mod 8 = n mod 8" using bit_same_cell by metis
    show ?thesis unfolding test_bit_at_eq set_bit_at_def True e using l by (simp add: bit_set_cell)
  next
    case False
    then show ?thesis using l by (auto simp: test_bit_at_eq set_bit_at_def)
  qed
qed

lemma test_clear_bit:
  assumes "n < 8 * length bs" shows "test_bit_at (clear_bit_at bs n) m \<longleftrightarrow> m \<noteq> n \<and> test_bit_at bs m"
proof -
  have l: "n div 8 < length bs" using assms by auto
  show ?thesis
  proof (cases "m div 8 = n div 8")
    case True
    then have e: "m = n \<longleftrightarrow> m mod 8 = n mod 8" using bit_same_cell by metis
    show ?thesis unfolding test_bit_at_eq clear_bit_at_def True e using l by (simp add: bit_clear_cell)
  next
    case False
    then show ?thesis using l by (auto simp: test_bit_at_eq clear_bit_at_def)
  qed
qed

lemma clear_set_bit:
  assumes "n < 8 * length bs" "\<not> test_bit_at bs n" shows "clear_bit_at (set_bit_at bs n) n = bs"
proof -
  have l: "n div 8 < length bs" using assms(1) by auto
  have "\<not> bit (bs ! (n div 8)) (n mod 8)" using assms(2) by (simp add: test_bit_at_eq)
  then have "(bs ! (n div 8) OR push_bit (n mod 8) 1) AND NOT (push_bit (n mod 8) 1) = bs ! (n div 8)"
    by (intro bit_word_eqI) (auto simp: bit_simps)
  then show ?thesis using l by (simp add: clear_bit_at_def set_bit_at_def)
qed

lemma length_set_bit [simp]: "length (set_bit_at bs n) = length bs" "length (clear_bit_at bs n) = length bs"
  by (simp_all add: set_bit_at_def clear_bit_at_def)

lemma byte_high: "8 \<le> n \<Longrightarrow> \<not> bit w n" for w :: u8
  by (auto dest: bit_imp_le_length)

lemma bit_get_long:
  assumes "n < 32" shows "bit (get_long bs (4 * k)) n \<longleftrightarrow> test_bit_at bs (32 * k + n)"
proof -
  have "n < 8 \<or> 8 \<le> n \<and> n < 16 \<or> 16 \<le> n \<and> n < 24 \<or> 24 \<le> n \<and> n < 32" using assms by auto
  moreover have e: "(32 * k + n) div 8 = 4 * k + n div 8" "(32 * k + n) mod 8 = n mod 8"
    using div_mult_self4[of 8 "4 * k" n] mod_mult_self4[of 8 "4 * k" n] by (simp_all add: mult.assoc[symmetric])
  ultimately show ?thesis
  proof (elim disjE)
    assume "n < 8" then show ?thesis using e by (simp add: get_long_def test_bit_at_eq bit_simps)
  next
    assume "8 \<le> n \<and> n < 16"
    then obtain j where j: "n = 8 + j" "j < 8" by (auto dest: le_Suc_ex)
    then have "n div 8 = 1" "n mod 8 = j" by simp_all
    then show ?thesis unfolding test_bit_at_eq e using j by (simp add: get_long_def bit_simps byte_high)
  next
    assume "16 \<le> n \<and> n < 24"
    then obtain j where j: "n = 16 + j" "j < 8" by (auto dest: le_Suc_ex)
    then have "n div 8 = 2" "n mod 8 = j" using div_mult_self4[of 8 2 j] mod_mult_self4[of 8 2 j] by simp_all
    then show ?thesis unfolding test_bit_at_eq e using j by (simp add: get_long_def bit_simps byte_high)
  next
    assume "24 \<le> n \<and> n < 32"
    then obtain j where j: "n = 24 + j" "j < 8" by (auto dest: le_Suc_ex)
    then have "n div 8 = 3" "n mod 8 = j" using div_mult_self4[of 8 3 j] mod_mult_self4[of 8 3 j] by simp_all
    then show ?thesis unfolding test_bit_at_eq e using j by (simp add: get_long_def bit_simps byte_high)
  qed
qed

lemma all_ones: "(w :: u32) = 0xffffffff \<longleftrightarrow> (\<forall>n<32. bit w n)"
proof -
  have m: "(0xffffffff :: u32) = Bit_Operations.mask 32" by (simp add: mask_eq_exp_minus_1)
  show ?thesis unfolding m by (auto simp: bit_eq_iff bit_mask_iff)
qed

lemma find_upt:
  "List.find P [0..<n] = Some k \<longleftrightarrow> k < n \<and> P k \<and> (\<forall>j<k. \<not> P j)"
  "List.find P [0..<n] = None \<longleftrightarrow> (\<forall>j<n. \<not> P j)"
  by (auto simp: find_Some_iff find_None_iff)

text \<open>
  \<open>find_zero_bit\<close> finds the first zero bit of the string, in which the last word
  counts as a whole.
\<close>

lemma find_zero_bit_some:
  assumes "n < 32 * ((len + 31) div 32)" "\<not> test_bit_at bs n" "\<forall>m<n. test_bit_at bs m"
  shows "find_zero_bit bs len = int n"
proof -
  let ?k = "n div 32" and ?j = "n mod 32"
  have n: "n = 32 * ?k + ?j" by simp
  have k: "List.find (\<lambda>k. get_long bs (4 * k) \<noteq> 0xffffffff) [0..<(len + 31) div 32] = Some ?k"
    unfolding find_upt
  proof (intro conjI allI impI)
    show "?k < (len + 31) div 32" using assms(1) by (simp add: less_mult_imp_div_less mult.commute)
    have "\<not> bit (get_long bs (4 * ?k)) ?j" using assms(2) n bit_get_long[of ?j bs ?k] by simp
    then show "get_long bs (4 * ?k) \<noteq> 0xffffffff" unfolding all_ones by force
    fix i assume "i < ?k"
    then have "32 * i + j < n" if "j < 32" for j using that n by linarith
    then have "\<forall>j<32. bit (get_long bs (4 * i)) j" using assms(3) bit_get_long by blast
    then show "\<not> get_long bs (4 * i) \<noteq> 0xffffffff" unfolding all_ones by simp
  qed
  have j: "List.find (\<lambda>n. \<not> bit (get_long bs (4 * ?k)) n) [0..<32] = Some ?j"
    unfolding find_upt
  proof (intro conjI allI impI)
    show "?j < 32" by simp
    show "\<not> bit (get_long bs (4 * ?k)) ?j" using assms(2) n bit_get_long[of ?j bs ?k] by simp
    fix i assume i: "i < ?j"
    then have "i < 32" "32 * ?k + i < n" using n by (simp, linarith)
    then show "\<not> \<not> bit (get_long bs (4 * ?k)) i" using assms(3) bit_get_long by blast
  qed
  show ?thesis using k j n by (simp add: find_zero_bit_def)
qed

lemma find_zero_bit_none:
  assumes "\<forall>m < 32 * ((len + 31) div 32). test_bit_at bs m" shows "find_zero_bit bs len = -1"
proof -
  have "get_long bs (4 * k) = 0xffffffff" if "k < (len + 31) div 32" for k
    unfolding all_ones
  proof (intro allI impI)
    fix n :: nat assume "n < 32"
    then have "32 * k + n < 32 * ((len + 31) div 32)" using that by linarith
    then show "bit (get_long bs (4 * k)) n" using assms bit_get_long[OF \<open>n < 32\<close>] by blast
  qed
  then have "List.find (\<lambda>k. get_long bs (4 * k) \<noteq> 0xffffffff) [0..<(len + 31) div 32] = None"
    unfolding find_upt by simp
  then show ?thesis by (simp add: find_zero_bit_def)
qed

section \<open>A bitmap on the disk\<close>

definition bitmap_bit :: "fsys \<Rightarrow> nat \<Rightarrow> u32 \<Rightarrow> nat \<Rightarrow> bool" where
  "bitmap_bit s d start n \<longleftrightarrow> test_bit_at (the (view s d (start + of_nat (n div 8192)))) (n mod 8192)"

text \<open>
  \<open>len\<close> bits from block \<open>start\<close> on; the bits that fill the last word are taken, as
  \<open>mkfs\<close> leaves them.
\<close>

definition bitmap_ok :: "fsys \<Rightarrow> nat \<Rightarrow> u32 \<Rightarrow> nat \<Rightarrow> bool" where
  "bitmap_ok s d start len \<longleftrightarrow> len < 2 ^ 30 \<and>
     (\<forall>k. k * 8192 < len \<longrightarrow> (\<exists>bs. view s d (start + of_nat k) = Some bs \<and> length bs = FS_BLKSIZ)) \<and>
     (\<forall>n. len \<le> n \<and> n < 32 * ((len + 31) div 32) \<longrightarrow> bitmap_bit s d start n)"

definition first_free :: "fsys \<Rightarrow> nat \<Rightarrow> u32 \<Rightarrow> nat \<Rightarrow> nat option" where
  "first_free s d start len = List.find (\<lambda>n. \<not> bitmap_bit s d start n) [0..<len]"

lemma bitmap_cong: "view t = view s \<Longrightarrow> bitmap_bit t d start = bitmap_bit s d start"
  "view t = view s \<Longrightarrow> bitmap_ok t d start len = bitmap_ok s d start len"
  "view t = view s \<Longrightarrow> first_free t d start len = first_free s d start len"
proof -
  assume v: "view t = view s"
  show b: "bitmap_bit t d start = bitmap_bit s d start" using v by (simp add: bitmap_bit_def fun_eq_iff)
  show "bitmap_ok t d start len = bitmap_ok s d start len" using v b by (simp add: bitmap_ok_def)
  show "first_free t d start len = first_free s d start len" using b by (simp add: first_free_def)
qed

lemma ready_errno: "ready d s \<Longrightarrow> ready d (s\<lparr>errno := e\<rparr>) \<and> view (s\<lparr>errno := e\<rparr>) = view s \<and> rest (s\<lparr>errno := e\<rparr>) = rest s"
  using cache_ok_cong[of "s\<lparr>errno := e\<rparr>" s] fixed_medium_cong[of "s\<lparr>errno := e\<rparr>" s] by (simp add: ready_def)

lemma block_bits: "m < 8192 \<Longrightarrow> view s d (start + of_nat k) = Some bs \<Longrightarrow>
   bitmap_bit s d start (8192 * k + m) \<longleftrightarrow> test_bit_at bs m"
  by (simp add: bitmap_bit_def)

lemma bmap_alloc_loop_spec:
  assumes "ready d s" "bitmap_ok s d start len" "\<forall>m < min len (8192 * k). bitmap_bit s d start m"
    "bmap_alloc_loop d start (start + of_nat k) (of_nat (len - 8192 * k)) s = (r, t)"
  shows "ready d t \<and> rest t = rest s \<and> (case first_free s d start len of
      None \<Rightarrow> r = -1 \<and> errno t = E_NOSPC \<and> view t = view s
    | Some n \<Rightarrow> r = int n \<and> view t = view_upd s d (start + of_nat (n div 8192))
         (set_bit_at (the (view s d (start + of_nat (n div 8192)))) (n mod 8192)))"
  using assms
proof (induction "len - 8192 * k" arbitrary: s k rule: less_induct)
  case less
  let ?rem = "len - 8192 * k" and ?blk = "start + of_nat k" and ?L = "min (len - 8192 * k) 8192"
  have small: "len < 2 ^ 30" using less.prems(2) by (simp add: bitmap_ok_def)
  then have ur: "unat (of_nat ?rem :: u32) = ?rem" by (simp add: unat_u32)
  note step = less.prems(4)[unfolded bmap_alloc_loop.simps[of d start ?blk "of_nat ?rem" s]]
  show ?case
  proof (cases "?rem = 0")
    case True
    then have "(of_nat ?rem :: u32) = 0" by simp
    then have r: "r = -1" "t = s\<lparr>errno := E_NOSPC\<rparr>" using step by auto
    have "first_free s d start len = None" using less.prems(3) True by (simp add: first_free_def find_upt)
    then show ?thesis using r ready_errno[OF less.prems(1), of E_NOSPC] by simp
  next
    case False
    then have nz: "(of_nat ?rem :: u32) \<noteq> 0" using ur by (metis unat_0)
    have kl: "k * 8192 < len" using False by simp
    then obtain bs where bs: "view s d ?blk = Some bs" "length bs = FS_BLKSIZ"
      using less.prems(2) by (auto simp: bitmap_ok_def)
    obtain x u where u: "bread d ?blk s = (Some x, u)" using bread_ready[OF less.prems(1)] by blast
    have dat: "b_data (buffer_pool u x) = bs" by (rule fs.get_content[OF less.prems(1) u bs(1)])
    have "unat (of_nat ?rem :: u32) < 2 ^ 31" using small ur by simp
    then have mn: "smin (of_nat ?rem :: u32) BITS_PER_BLOCK = of_nat ?L"
      using ur by (auto simp: smin_small min_def word_le_nat_alt BITS_PER_BLOCK_def)
    have nn: "\<not> sint (of_nat ?L :: u32) < 0" by (simp add: sint_u32 min_def)
    have uL: "unat (of_nat ?L :: u32) = ?L" by (simp add: unat_u32 min_def)
    define z where "z = find_zero_bit bs ?L"
    have W: "32 * ((?L + 31) div 32) \<le> 8192" by (simp add: min_def) linarith
    have pad: "test_bit_at bs m" if "?L \<le> m" "m < 32 * ((?L + 31) div 32)" for m
    proof -
      have "?L = ?rem" using that by (simp add: min_def split: if_splits)
      then have le: "len \<le> 8192 * k + m" and e: "len + 31 = 32 * (256 * k) + (?L + 31)" using that(1) kl by linarith+
      have "(len + 31) div 32 = 256 * k + (?L + 31) div 32" unfolding e by (rule div_mult_self4) simp
      then have "8192 * k + m < 32 * ((len + 31) div 32)" "m < 8192" using that(2) W by linarith+
      then show ?thesis using le less.prems(2) block_bits[of m s d start k bs] bs(1) unfolding bitmap_ok_def by blast
    qed
    have z: "(if z \<noteq> -1 then (sint ((?blk - start) * BITS_PER_BLOCK + of_int z),
          brelse x (bdirty x True (edit_buffer x (\<lambda>c. set_bit_at c (nat z)) u)))
        else bmap_alloc_loop d start (?blk + 1) (of_nat ?rem - of_nat ?L) (brelse x u)) = (r, t)"
      using step unfolding if_not_P[OF nz] u prod.case option.case Let_def mn if_not_P[OF nn] no_overrun[OF nn] uL dat z_def[symmetric] .
    show ?thesis
    proof (cases "\<exists>m<?L. \<not> test_bit_at bs m")
      case True
      define m where "m = (LEAST m. \<not> test_bit_at bs m)"
      obtain m0 where m0: "m0 < ?L" "\<not> test_bit_at bs m0" using True by blast
      have m: "\<not> test_bit_at bs m" unfolding m_def by (rule LeastI) (rule m0(2))
      have lt: "\<forall>i<m. test_bit_at bs i" unfolding m_def using not_less_Least by blast
      have "m \<le> m0" unfolding m_def by (rule Least_le) (rule m0(2))
      then have mL: "m < ?L" using m0 by simp
      have zm: "z = int m" unfolding z_def using mL m lt by (intro find_zero_bit_some) auto
      define n where "n = 8192 * k + m"
      have m8: "m < 8192" and nl: "n < len" using mL by (auto simp: n_def)
      have bn: "\<not> bitmap_bit s d start n" using block_bits[OF m8 bs(1)] m by (simp add: n_def)
      have below: "bitmap_bit s d start j" if "j < n" for j
      proof (cases "j < 8192 * k")
        case True then show ?thesis using less.prems(3) that nl by simp
      next
        case False
        then obtain i where "j = 8192 * k + i" by (metis le_Suc_ex not_less)
        then show ?thesis using block_bits[of i s d start k bs] bs(1) lt that m8 by (simp add: n_def)
      qed
      have ff: "first_free s d start len = Some n" unfolding first_free_def find_upt using nl bn below by simp
      have "(?blk - start) * BITS_PER_BLOCK + of_int z = of_nat n"
        by (simp add: zm n_def BITS_PER_BLOCK_def mult.commute)
      moreover have "sint (of_nat n :: u32) = int n" using nl small by (simp add: sint_u32) 
      ultimately have r: "r = int n" "t = brelse x (bdirty x True (edit_buffer x (\<lambda>c. set_bit_at c m) u))"
        using z zm by simp_all
      have "n div 8192 = k" "n mod 8192 = m" using m8 by (simp_all add: n_def)
      then show ?thesis using held_edit[OF less.prems(1) u r(2)] dat bs(1) ff r(1) by simp
    next
      case False
      have "z = -1" unfolding z_def
      proof (rule find_zero_bit_none, intro allI impI)
        fix m assume "m < 32 * ((?L + 31) div 32)"
        then show "test_bit_at bs m" using False pad[of m] by (meson not_less)
      qed
      moreover have "(of_nat ?rem :: u32) - of_nat ?L = of_nat (len - 8192 * Suc k)"
        by (simp add: of_nat_diff[symmetric] min_def)
      ultimately have rt: "bmap_alloc_loop d start (start + of_nat (Suc k)) (of_nat (len - 8192 * Suc k)) (brelse x u) = (r, t)"
        using z by (simp add: add.assoc add.commute[of 1])
      note h = held_release[OF less.prems(1) u]
      have "bitmap_bit s d start j" if "j < min len (8192 * Suc k)" for j
      proof (cases "j < 8192 * k")
        case True then show ?thesis using less.prems(3) that by simp
      next
        case F: False
        then obtain i where i: "j = 8192 * k + i" by (metis le_Suc_ex not_less)
        then have "i < ?L" using that by simp linarith
        then show ?thesis using block_bits[of i s d start k bs] bs(1) False i by (simp add: min_def split: if_splits)
      qed
      then have "\<forall>j<min len (8192 * Suc k). bitmap_bit (brelse x u) d start j" using h bitmap_cong(1) by metis
      from less.hyps[OF _ _ _ this rt] show ?thesis
        using False kl h less.prems(2) bitmap_cong(2,3)[of "brelse x u" s] rest_dev[of "brelse x u" s d]
        by (auto simp: view_upd_def split: option.splits)
    qed
  qed
qed

text \<open>
  C13: \<open>bmap_alloc\<close> returns the lowest number that is free in the bitmap and sets exactly
  its bit; when every bit is set it returns -1 with \<open>E_NOSPC\<close> in \<open>ERRNO\<close>, and no block
  of the disk changes its contents.
\<close>

theorem bmap_alloc_correct:
  assumes "ready d s" "bitmap_ok s d start (unat len)" "bmap_alloc d start len s = (r, t)"
  shows "ready d t \<and> rest t = rest s \<and> (case first_free s d start (unat len) of
      None \<Rightarrow> r = -1 \<and> errno t = E_NOSPC \<and> view t = view s
    | Some n \<Rightarrow> r = int n \<and> (\<forall>m < unat len. bitmap_bit t d start m \<longleftrightarrow> m = n \<or> bitmap_bit s d start m))"
proof -
  have l: "ready d t \<and> rest t = rest s \<and> (case first_free s d start (unat len) of
      None \<Rightarrow> r = -1 \<and> errno t = E_NOSPC \<and> view t = view s
    | Some n \<Rightarrow> r = int n \<and> view t = view_upd s d (start + of_nat (n div 8192))
         (set_bit_at (the (view s d (start + of_nat (n div 8192)))) (n mod 8192)))"
    using bmap_alloc_loop_spec[OF assms(1,2), of 0 r t] assms(3) by (simp add: bmap_alloc_def)
  show ?thesis
  proof (cases "first_free s d start (unat len)")
    case None then show ?thesis using l by simp
  next
    case (Some n)
    let ?b = "start + of_nat (n div 8192)"
    have n: "n < unat len" using Some by (simp add: first_free_def find_upt)
    have small: "unat len < 2 ^ 30" using assms(2) by (simp add: bitmap_ok_def)
    have "n div 8192 * 8192 < unat len" using n by linarith
    then obtain bs where bs: "view s d ?b = Some bs" "length bs = FS_BLKSIZ" using assms(2) by (auto simp: bitmap_ok_def)
    have g: "good_block (devices s d) ?b" using bs by (auto simp: view_def split: if_splits)
    have "bitmap_bit t d start m \<longleftrightarrow> m = n \<or> bitmap_bit s d start m" if m: "m < unat len" for m
    proof (cases "m div 8192 = n div 8192")
      case True
      then have "m = n \<longleftrightarrow> m mod 8192 = n mod 8192" by (metis div_mult_mod_eq)
      then show ?thesis using l Some bs g True test_set_bit[of "n mod 8192" bs "m mod 8192"]
        by (simp add: bitmap_bit_def view_upd_def FS_BLKSIZ_def)
    next
      case False
      have "(of_nat (m div 8192) :: u32) \<noteq> of_nat (n div 8192)"
      proof
        assume "(of_nat (m div 8192) :: u32) = of_nat (n div 8192)"
        then have "unat (of_nat (m div 8192) :: u32) = unat (of_nat (n div 8192) :: u32)" by simp
        moreover have "m div 8192 < 2 ^ 32" "n div 8192 < 2 ^ 32" using m n small by (simp_all add: div_less_iff_less_mult)
        ultimately show False using False by (simp add: unat_u32)
      qed
      then show ?thesis using l Some False by (auto simp: bitmap_bit_def view_upd_def)
    qed
    then show ?thesis using l Some by simp
  qed
qed

text \<open>A bitmap of 32 bits whose first three are set.\<close>

definition demo_bitmap :: fsys where
  "demo_bitmap = blank_fs (disk_dev (\<lambda>_. 7 # replicate 1023 0) 10)"

lemma demo_bitmap: "ready 0 demo_bitmap" "bitmap_ok demo_bitmap 0 3 (unat (32 :: u32))"
  "first_free demo_bitmap 0 3 (unat (32 :: u32)) = Some 3" "bitmap_bit demo_bitmap 0 3 4 = False"
proof -
  have v: "view demo_bitmap 0 b = Some (7 # replicate 1023 0)" if "b < 10" for b
    using that blank_view[of "disk_dev (\<lambda>_. 7 # replicate 1023 0) 10"] by (simp add: demo_bitmap_def)
  have b: "bitmap_bit demo_bitmap 0 3 n = (n < 3)" if "n < 32" for n
  proof -
    have c: "(7 # replicate 1023 0 :: u8 list) ! (n div 8) = (if n < 8 then Bit_Operations.mask 3 else 0)"
      using that by (auto simp: nth_Cons' mask_eq_exp_minus_1)
    have "bitmap_bit demo_bitmap 0 3 n = test_bit_at (7 # replicate 1023 0) n"
      using that v[of 3] by (simp add: bitmap_bit_def)
    then show ?thesis unfolding test_bit_at_eq c by (auto simp: bit_mask_iff)
  qed
  show "ready 0 demo_bitmap" using blank_ready[of "disk_dev (\<lambda>_. 7 # replicate 1023 0) 10"] by (simp add: demo_bitmap_def)
  have "k = 0" if "k * 8192 < (32::nat)" for k using that by (cases k) auto
  then show "bitmap_ok demo_bitmap 0 3 (unat (32 :: u32))" using v[of 3] by (auto simp: bitmap_ok_def FS_BLKSIZ_def)
  show "first_free demo_bitmap 0 3 (unat (32 :: u32)) = Some 3" using b by (simp add: first_free_def find_upt)
  show "bitmap_bit demo_bitmap 0 3 4 = False" using b[of 4] by simp
qed

lemma bmap_alloc_correct_witness: "fst (bmap_alloc 0 3 32 demo_bitmap) = 3"
proof -
  obtain r t where r: "bmap_alloc 0 3 32 demo_bitmap = (r, t)" by force
  show ?thesis using bmap_alloc_correct[OF demo_bitmap(1,2) r] demo_bitmap(3) r by simp
qed

text \<open>
  \<open>bmap_free\<close> undoes \<open>bmap_alloc\<close>: freeing the number just allocated leaves
  every block of every device with the contents it had before.
\<close>

theorem bmap_free_undoes_alloc:
  assumes "ready d s" "bitmap_ok s d start (unat len)" "bmap_alloc d start len s = (r, t)" "r \<ge> 0"
  shows "fst (bmap_free d start (of_int r) t) \<and> view (snd (bmap_free d start (of_int r) t)) = view s"
proof -
  have l: "ready d t" "rest t = rest s" "case first_free s d start (unat len) of
      None \<Rightarrow> r = -1 \<and> errno t = E_NOSPC \<and> view t = view s
    | Some n \<Rightarrow> r = int n \<and> view t = view_upd s d (start + of_nat (n div 8192))
         (set_bit_at (the (view s d (start + of_nat (n div 8192)))) (n mod 8192))"
    using bmap_alloc_loop_spec[OF assms(1,2), of 0 r t] assms(3) by (simp_all add: bmap_alloc_def)
  then obtain n where n: "first_free s d start (unat len) = Some n" "r = int n" using assms(4) by (auto split: option.splits)
  define k where "k = n div 8192"
  define m where "m = n mod 8192"
  let ?b = "start + of_nat k"
  have nl: "n < unat len" "\<not> bitmap_bit s d start n" using n(1) by (auto simp: first_free_def find_upt)
  have small: "n < 2 ^ 30" using assms(2) nl by (simp add: bitmap_ok_def)
  have "k * 8192 < unat len" using nl by (simp add: k_def)
  then obtain bs where bs: "view s d ?b = Some bs" "length bs = FS_BLKSIZ" using assms(2) by (auto simp: bitmap_ok_def)
  have vt: "view t = view_upd s d ?b (set_bit_at bs m)" using l(3) n bs by (simp add: k_def m_def)
  have g: "good_block (devices s d) ?b" using bs by (auto simp: view_def split: if_splits)
  then have gt: "good_block (devices t d) ?b" using ready_rest[OF l(2)] by simp
  have tb: "\<not> test_bit_at bs m" using nl(2) bs by (simp add: bitmap_bit_def k_def m_def)
  have m8: "m < 8 * length bs" using bs(2) by (simp add: m_def FS_BLKSIZ_def)
  have un: "unat (of_nat n :: u32) = n" using small by (simp add: unat_u32)
  have bk: "(of_nat n :: u32) div BITS_PER_BLOCK + start = ?b"
    by (simp add: word_arith_nat_div un BITS_PER_BLOCK_def k_def)
  have bm: "unat ((of_nat n :: u32) mod BITS_PER_BLOCK) = m" by (simp add: unat_mod un BITS_PER_BLOCK_def m_def)
  obtain x u where u: "bread d ?b t = (Some x, u)" using bread_ready[OF l(1)] by blast
  have "view t d ?b = Some (set_bit_at bs m)" using vt g by (simp add: view_upd_def)
  from fs.get_content[OF l(1) u this] have dat: "b_data (buffer_pool u x) = set_bit_at bs m" .
  have "test_bit_at (set_bit_at bs m) m" using test_set_bit[OF m8] by simp
  then have e: "bmap_free d start (of_int r) t = (True, brelse x (bdirty x True (edit_buffer x (\<lambda>c. clear_bit_at c m) u)))"
    using u dat by (simp add: bmap_free_def n(2) bk bm)
  have "view (brelse x (bdirty x True (edit_buffer x (\<lambda>c. clear_bit_at c m) u))) = view s"
    using held_edit[OF l(1) u refl, of True "\<lambda>c. clear_bit_at c m"] dat clear_set_bit[OF m8 tb] vt gt bs
    by (auto simp: view_upd_def fun_eq_iff)
  then show ?thesis using e by simp
qed

lemma bmap_free_undoes_alloc_witness:
  "view (snd (bmap_free 0 3 3 (snd (bmap_alloc 0 3 32 demo_bitmap)))) = view demo_bitmap"
proof -
  obtain r t where r: "bmap_alloc 0 3 32 demo_bitmap = (r, t)" by force
  have "r = 3" using bmap_alloc_loop_spec[OF demo_bitmap(1,2), of 0 r t] r demo_bitmap(3) by (simp add: bmap_alloc_def)
  then show ?thesis using bmap_free_undoes_alloc[OF demo_bitmap(1,2) r] r by simp
qed

end
