(* ===== verification/FsFile.thy ===== *)
theory FsFile
  imports FsInode
begin

text \<open>
  fs/file.c and fs/lib.c: file handles, their positions, reading and writing through the
  logical blocks of the inode.  A handle that may be NULL is an option.
\<close>

unbundle bit_operations_syntax

definition init_files :: "fsys \<Rightarrow> fsys" where
  "init_files s = s\<lparr>file_free_list := [0..<NR_FILES]\<rparr>"

abbreviation ino_of :: "fsys \<Rightarrow> nat \<Rightarrow> nat" where
  "ino_of s f \<equiv> f_inode (file_pool s f)"

abbreviation fdev :: "fsys \<Rightarrow> nat \<Rightarrow> nat" where
  "fdev s f \<equiv> dev_of s (ino_of s f)"

abbreviation file_inode :: "fsys \<Rightarrow> nat \<Rightarrow> inode" where
  "file_inode s f \<equiv> i_inode (inode_pool s (ino_of s f))"

abbreviation file_invalid :: "fsys \<Rightarrow> nat \<Rightarrow> bool" where
  "file_invalid s f \<equiv> i_invalid (inode_pool s (ino_of s f))"

definition make_file :: "nat \<Rightarrow> fsys \<Rightarrow> nat option \<times> fsys" where
  "make_file i s =
     (case test_media (dev_of s i) s of (False, s1) \<Rightarrow> (None, s1)
      | (True, s1) \<Rightarrow>
          if i_invalid (inode_pool s1 i) then (None, s1\<lparr>errno := E_INVALID\<rparr>)
          else (case file_free_list s1 of [] \<Rightarrow> (None, s1\<lparr>errno := E_NOMEM\<rparr>)
            | f # fs \<Rightarrow>
                (let (j, s2) = dup_inode i (s1\<lparr>file_free_list := fs\<rparr>)
                 in (Some f, file_upd f (\<lambda>_. \<lparr>f_inode = j, f_mode = F_READ OR F_WRITE, f_pos = 0\<rparr>) s2))))"

definition close_file :: "nat option \<Rightarrow> fsys \<Rightarrow> fsys" where
  "close_file file s = (case file of None \<Rightarrow> s
     | Some f \<Rightarrow>
         (let s1 = snd (test_media (fdev s f) s); s2 = close_inode (ino_of s1 f) s1
          in s2\<lparr>file_free_list := f # file_free_list s2\<rparr>))"

definition dup_file :: "nat option \<Rightarrow> fsys \<Rightarrow> nat option \<times> fsys" where
  "dup_file file s = (case file of None \<Rightarrow> (None, s\<lparr>errno := E_BADARG\<rparr>)
     | Some f \<Rightarrow>
         (case make_file (ino_of s f) s of (None, s1) \<Rightarrow> (None, s1)
          | (Some n, s1) \<Rightarrow> (Some n, file_upd n (\<lambda>v. v\<lparr>f_mode := f_mode (file_pool s1 f)\<rparr>) s1)))"

section \<open>Seeking\<close>

definition SEEK_ABS :: nat where "SEEK_ABS = 0"
definition SEEK_REL :: nat where "SEEK_REL = 1"
definition SEEK_EOF :: nat where "SEEK_EOF = 2"

text \<open>\<open>return -(ERRNO = e)\<close>.\<close>

definition fail :: "int \<Rightarrow> fsys \<Rightarrow> int \<times> fsys" where
  "fail e s = (- e, s\<lparr>errno := e\<rparr>)"

definition seek_file :: "nat option \<Rightarrow> u32 \<Rightarrow> nat \<Rightarrow> fsys \<Rightarrow> int \<times> fsys" where
  "seek_file file arg ty s = (case file of None \<Rightarrow> fail E_BADARG s
     | Some f \<Rightarrow>
         (case test_media (fdev s f) s of (False, s1) \<Rightarrow> (- errno s1, s1)
          | (True, s1) \<Rightarrow>
              if file_invalid s1 f then fail E_INVALID s1
              else if ty > SEEK_EOF then fail E_BADARG s1
              else (let sz = fsize (file_inode s1 f);
                        new_pos = (if ty = SEEK_ABS then arg
                          else if ty = SEEK_REL then f_pos (file_pool s1 f) + arg else sz - arg)
                    in if sint new_pos < 0 \<or> new_pos > sz then fail E_BADARG s1
                       else (sint new_pos, file_upd f (\<lambda>v. v\<lparr>f_pos := new_pos\<rparr>) s1))))"

section \<open>Reading\<close>

text \<open>
  The length of one transfer: to the end of the block, of the request, of the file.  A
  request of \<open>2 ^ 31\<close> bytes or more is negative for \<open>min\<close>, so it is not cut at
  the end of the block, and the copy out of the buffer of the cache leaves it.
\<close>

definition this_read :: "u32 \<Rightarrow> u32 \<Rightarrow> u32 \<Rightarrow> u32" where
  "this_read len pos sz =
     (let n = smin len (1024 - pos mod 1024) in if pos + n > sz then sz - pos else n)"

lemma this_read_bounds:
  assumes "len \<noteq> 0" "pos < sz"
  shows "0 < this_read len pos sz" "this_read len pos sz \<le> len"
proof -
  let ?n = "smin len (1024 - pos mod 1024)"
  have "unat pos mod 1024 < 1024" by simp
  then have m: "unat (1024 - pos mod 1024) = 1024 - unat pos mod 1024"
    by (simp add: unat_sub word_le_nat_alt unat_mod)
  have "0 < 1024 - pos mod 1024" using m by (simp add: word_less_nat_alt)
  then have n: "0 < ?n" "?n \<le> len" using assms(1) m smin_pos[of len "1024 - pos mod 1024"]
    by (simp_all add: word_neq_0_conv)
  have lt: "sz - pos \<le> ?n" if "pos + ?n > sz"
  proof (rule ccontr)
    assume "\<not> ?thesis"
    then have "unat ?n < unat (sz - pos)" by (simp add: word_less_nat_alt word_le_nat_alt)
    then have "unat pos + unat ?n < unat sz" using assms(2) by (simp add: unat_sub word_less_nat_alt word_le_nat_alt)
    then have "unat (pos + ?n) < unat sz"
      by (simp add: unat_word_ariths(1) le_less_trans[OF mod_less_eq_dividend])
    then show False using that by (simp add: word_less_nat_alt)
  qed
  have "0 < sz - pos" using assms(2) by (simp add: word_less_nat_alt unat_sub word_le_nat_alt unat_sub_if')
  then show "0 < this_read len pos sz" using n by (simp add: this_read_def Let_def)
  show "this_read len pos sz \<le> len" using n lt by (auto simp: this_read_def Let_def intro: order_trans)
qed

function file_read_loop :: "nat \<Rightarrow> u32 \<Rightarrow> int \<Rightarrow> u8 list \<Rightarrow> fsys \<Rightarrow> int \<times> u8 list \<times> fsys" where
  "file_read_loop f len actual out s =
     (if len \<noteq> 0 \<and> f_pos (file_pool s f) < fsize (file_inode s f)
      then (let pos = f_pos (file_pool s f);
                n = this_read len pos (fsize (file_inode s f));
                more = (\<lambda>bs s. file_read_loop f (len - n) (actual + sint n) (out @ bs)
                          (file_upd f (\<lambda>v. v\<lparr>f_pos := f_pos v + n\<rparr>) s))
            in (case get_data_block (ino_of s f) (pos div 1024) False s of
                  (None, s1) \<Rightarrow>
                    if errno s1 = E_NOEXIST then more (replicate (unat n) 0) s1
                    else (if actual > 0 then actual else - errno s1, out, s1)
                | (Some x, s1) \<Rightarrow>
                    more (get_bytes (b_data (buffer_pool s1 x)) (unat (pos mod 1024)) (unat n))
                      (brelse x (note_overrun (unat (pos mod 1024) + unat n > FS_BLKSIZ) s1))))
      else (actual, out, s))"
  by pat_completeness auto
termination
proof (relation "measure (\<lambda>(f, len, actual, out, s). unat len)")
  show "wf (measure (\<lambda>(f::nat, len::u32, actual::int, out::u8 list, s::fsys). unat len))" by simp
next
  fix f and len :: u32 and actual :: int and out :: "u8 list" and s :: fsys and pos n bs s'
  assume "len \<noteq> 0 \<and> f_pos (file_pool s f) < fsize (file_inode s f)" "pos = f_pos (file_pool s f)"
    "n = this_read len pos (fsize (file_inode s f))"
  then have "unat (len - n) < unat len"
    using this_read_bounds[of len pos "fsize (file_inode s f)"]
    by (simp add: word_le_nat_alt word_less_nat_alt unat_sub)
  then show "((f, len - n, actual + sint n, out @ bs, file_upd f (\<lambda>v. v\<lparr>f_pos := f_pos v + n\<rparr>) s'),
      f, len, actual, out, s) \<in> measure (\<lambda>(f, len, actual, out, s). unat len)" by simp
qed

declare file_read_loop.simps [simp del]

definition read_file :: "u32 \<Rightarrow> nat option \<Rightarrow> fsys \<Rightarrow> int \<times> u8 list \<times> fsys" where
  "read_file len file s = (case file of None \<Rightarrow> (- E_BADARG, [], s\<lparr>errno := E_BADARG\<rparr>)
     | Some f \<Rightarrow>
         if f_mode (file_pool s f) AND F_READ = 0 then (- E_PERM, [], s\<lparr>errno := E_PERM\<rparr>)
         else (case test_media (fdev s f) s of (False, s1) \<Rightarrow> (- errno s1, [], s1)
           | (True, s1) \<Rightarrow>
               if file_invalid s1 f then (- E_INVALID, [], s1\<lparr>errno := E_INVALID\<rparr>)
               else file_read_loop f len 0 [] s1))"

section \<open>Writing\<close>

text \<open>
  \<open>write_chunk\<close> is one round of the loop of \<open>write_file\<close>, with \<open>bs\<close> the
  bytes it transfers.
\<close>

definition write_chunk :: "nat \<Rightarrow> u32 \<Rightarrow> u8 list \<Rightarrow> fsys \<Rightarrow> bool \<times> fsys" where
  "write_chunk i pos bs s =
     (if length bs = FS_BLKSIZ
      then (case get_data_blkno i (pos div 1024) True s of (b, s1) \<Rightarrow>
              if b = 0 then (False, s1) else bwrite (dev_of s1 i) b bs s1)
      else (case get_data_block i (pos div 1024) True s of (None, s1) \<Rightarrow> (False, s1)
        | (Some x, s1) \<Rightarrow>
            (True, brelse x (bdirty x False (edit_buffer x (\<lambda>c. put_bytes c (unat (pos mod 1024)) bs)
               (note_overrun (unat (pos mod 1024) + length bs > FS_BLKSIZ) s1))))))"

text \<open>
  \<open>min\<close> as it cuts a request of \<open>len\<close> bytes at the end of the block: not at all when
  \<open>len\<close> is negative as an int.
\<close>

definition this_write :: "nat \<Rightarrow> u32 \<Rightarrow> nat" where
  "this_write len pos = (if len < 2 ^ 31 then min len (FS_BLKSIZ - unat (pos mod 1024)) else len)"

function file_write_loop :: "nat \<Rightarrow> u8 list \<Rightarrow> int \<Rightarrow> fsys \<Rightarrow> int \<times> fsys" where
  "file_write_loop f bs actual s =
     (if bs = [] then (actual, s)
      else (let pos = f_pos (file_pool s f); n = this_write (length bs) pos
            in case write_chunk (ino_of s f) pos (take n bs) s of
                 (True, s1) \<Rightarrow> file_write_loop f (drop n bs) (actual + int n)
                   (file_upd f (\<lambda>v. v\<lparr>f_pos := f_pos v + of_nat n\<rparr>) s1)
               | (False, s1) \<Rightarrow> (if actual = 0 then - errno s1 else actual, s1)))"
  by pat_completeness auto
termination
proof (relation "measure (\<lambda>(f, bs, actual, s). length bs)")
  show "wf (measure (\<lambda>(f::nat, bs::u8 list, actual::int, s::fsys). length bs))" by simp
next
  fix f :: nat and bs :: "u8 list" and actual :: int and s :: fsys and pos :: u32 and n s'
  assume "bs \<noteq> []" "n = this_write (length bs) pos"
  moreover have "unat (pos mod 1024) < FS_BLKSIZ" by (simp add: unat_mod FS_BLKSIZ_def)
  ultimately show "((f, drop n bs, actual + int n, file_upd f (\<lambda>v. v\<lparr>f_pos := f_pos v + of_nat n\<rparr>) s'),
      f, bs, actual, s) \<in> measure (\<lambda>(f, bs, actual, s). length bs)" by (auto simp: this_write_def)
qed

declare file_write_loop.simps [simp del]

definition write_end :: "nat \<Rightarrow> int \<Rightarrow> fsys \<Rightarrow> fsys" where
  "write_end f actual s =
     (let i = ino_of s f;
          s1 = (if f_pos (file_pool s f) > fsize (file_inode s f)
                then ino_upd i (\<lambda>v. v\<lparr>i_inode := (i_inode v)\<lparr>fsize := f_pos (file_pool s f)\<rparr>, i_dirty := True\<rparr>) s else s)
      in if actual > 0
         then ino_upd i (\<lambda>v. v\<lparr>i_inode := (i_inode v)\<lparr>modtime := now s1\<rparr>, i_dirty := True\<rparr>) s1 else s1)"

definition write_file :: "u8 list \<Rightarrow> nat option \<Rightarrow> fsys \<Rightarrow> int \<times> fsys" where
  "write_file bs file s = (case file of None \<Rightarrow> fail E_BADARG s
     | Some f \<Rightarrow>
         if f_mode (file_pool s f) AND F_WRITE = 0 then fail E_PERM s
         else (case test_media (fdev s f) s of (False, s1) \<Rightarrow> (- errno s1, s1)
           | (True, s1) \<Rightarrow>
               if file_invalid s1 f then fail E_INVALID s1
               else (case file_write_loop f bs 0 s1 of (actual, s2) \<Rightarrow> (actual, write_end f actual s2))))"

section \<open>Sizes\<close>

text \<open>A NULL handle makes these return the error code as a \<open>bool\<close>, that is TRUE.\<close>

definition truncate_file :: "nat option \<Rightarrow> fsys \<Rightarrow> bool \<times> fsys" where
  "truncate_file file s = (case file of None \<Rightarrow> (True, s\<lparr>errno := E_BADARG\<rparr>)
     | Some f \<Rightarrow> delete_inode_data (ino_of s f) s)"

definition set_file_size :: "nat option \<Rightarrow> u32 \<Rightarrow> fsys \<Rightarrow> bool \<times> fsys" where
  "set_file_size file sz s = (case file of None \<Rightarrow> (True, s\<lparr>errno := E_BADARG\<rparr>)
     | Some f \<Rightarrow> (True, snd (write_inode (ino_of s f)
         (ino_upd (ino_of s f) (\<lambda>v. v\<lparr>i_inode := (i_inode v)\<lparr>fsize := sz\<rparr>, i_dirty := True\<rparr>) s))))"

section \<open>Characters and lines\<close>

definition fs_putc :: "u8 \<Rightarrow> nat option \<Rightarrow> fsys \<Rightarrow> int \<times> fsys" where
  "fs_putc c file s = write_file [c] file s"

definition fs_getc :: "nat option \<Rightarrow> fsys \<Rightarrow> int \<times> fsys" where
  "fs_getc file s = (case read_file 1 file s of (val, bs, s1) \<Rightarrow>
     (if val \<noteq> 1 then (if val = 0 then -1 else val) else uint (bs ! 0), s1))"

text \<open>\<open>fs_read_line\<close> stores at most \<open>bufsiz - 1\<close> characters.\<close>

lemma pred_measure: "n \<noteq> 1 \<Longrightarrow> unat (n - 2) < unat (n - 1)" for n :: u32
  using measure_unat [of "n - 1"] by simp

function read_line_loop :: "u32 \<Rightarrow> u8 list \<Rightarrow> nat option \<Rightarrow> fsys \<Rightarrow> u8 list \<times> fsys" where
  "read_line_loop bufsiz acc file s =
     (if bufsiz - 1 = 0 then (acc, s)
      else (case fs_getc file s of (c, s1) \<Rightarrow>
        if c < 0 then (acc, s1)
        else if c = 10 then (acc @ [of_int c], s1)
        else read_line_loop (bufsiz - 1) (acc @ [of_int c]) file s1))"
  by pat_completeness auto
termination
  by (relation "measure (\<lambda>(n, acc, file, s). unat (n - 1))") (auto simp: pred_measure)

declare read_line_loop.simps [simp del]

definition fs_read_line :: "u32 \<Rightarrow> nat option \<Rightarrow> fsys \<Rightarrow> u8 list option \<times> fsys" where
  "fs_read_line bufsiz file s = (case read_line_loop bufsiz [] file s of (bs, s1) \<Rightarrow>
     (if bs = [] then None else Some bs, s1))"

definition fs_write_string :: "u8 list \<Rightarrow> nat option \<Rightarrow> fsys \<Rightarrow> int \<times> fsys" where
  "fs_write_string str file s = write_file str file s"

end
