(* ===== verification/FsReadProps.thy ===== *)
theory FsReadProps
  imports FsBitmapProps FsFile
begin

text \<open>
  Reading a file.  \<open>block_at\<close> is the map from the logical blocks of an inode to the
  blocks of the disk, as a function of what the blocks show; \<open>byte_at\<close> is the byte
  string a file stands for, with zeros in the blocks that do not exist.  \<open>get_data_blkno\<close>
  computes the first, \<open>read_file\<close> returns pieces of the second.
\<close>

unbundle bit_operations_syntax

section \<open>The contents of a file\<close>

type_synonym blocks_view = "u32 \<Rightarrow> u8 list option"

fun chase :: "blocks_view \<Rightarrow> u32 \<Rightarrow> u32 list \<Rightarrow> u32 option" where
  "chase V b [] = Some b"
| "chase V b (k # ks) =
     (if b = 0 then Some 0
      else (case V b of None \<Rightarrow> None | Some bs \<Rightarrow> chase V (get_long bs (4 * unat k)) ks))"

definition block_path :: "u32 \<Rightarrow> (nat \<times> u32 list) option" where
  "block_path blk =
     (if blk < 9 then Some (unat blk, [])
      else if blk - 9 < 256 then Some (9, [blk - 9])
      else if blk - 265 < 65536 then Some (10, [(blk - 265) div 256, (blk - 265) mod 256])
      else if blk - 65801 < 16777216
      then Some (11, [(blk - 65801) div 65536, (blk - 65801) div 256 mod 256, (blk - 65801) mod 256])
      else None)"

definition block_at :: "blocks_view \<Rightarrow> inode \<Rightarrow> u32 \<Rightarrow> u32 option" where
  "block_at V ino blk = (case block_path blk of None \<Rightarrow> None | Some (k, ks) \<Rightarrow> chase V (blocks ino ! k) ks)"

definition byte_at :: "blocks_view \<Rightarrow> inode \<Rightarrow> nat \<Rightarrow> u8" where
  "byte_at V ino p = (case block_at V ino (of_nat (p div 1024)) of None \<Rightarrow> 0
     | Some b \<Rightarrow> if b = 0 then 0 else the (V b) ! (p mod 1024))"

text \<open>Every block in front of the end of the file can be reached and read.\<close>

definition readable :: "blocks_view \<Rightarrow> inode \<Rightarrow> bool" where
  "readable V ino \<longleftrightarrow> unat (fsize ino) < 2 ^ 31 \<and>
     (\<forall>k. k * 1024 < unat (fsize ino) \<longrightarrow> (\<exists>b. block_at V ino (of_nat k) = Some b \<and>
        (b \<noteq> 0 \<longrightarrow> (\<exists>bs. V b = Some bs \<and> length bs = FS_BLKSIZ))))"

section \<open>Steps that only read\<close>

definition quiet :: "nat \<Rightarrow> fsys \<Rightarrow> fsys \<Rightarrow> bool" where
  "quiet d s t \<longleftrightarrow> ready d t \<and> clean t \<and> view t = view s \<and> rest t = rest s"

lemma quiet_refl: "ready d s \<Longrightarrow> clean s \<Longrightarrow> quiet d s s" by (simp add: quiet_def)

lemma quiet_trans: "quiet d s t \<Longrightarrow> quiet d t u \<Longrightarrow> quiet d s u" by (simp add: quiet_def)

lemma clean_errno [simp]: "clean (s\<lparr>errno := e\<rparr>) = clean s" by (simp add: clean_def)

lemma quiet_errno: "quiet d s t \<Longrightarrow> quiet d s (t\<lparr>errno := e\<rparr>)"
  using ready_errno[of d t e] by (simp add: quiet_def)

lemma bread_clean:
  assumes "ready d s" "clean s" "bread d b s = (Some x, t)"
  shows "\<not> b_dirty (buffer_pool t x)" "\<not> b_invalid (buffer_pool t x)" "b_dev (buffer_pool t x) = Some d" "fixed_medium t d"
proof -
  have s: "cache_ok s" "fixed_medium s d" using assms(1) by (simp_all add: ready_def)
  note l = bread_law[OF s assms(3), simplified]
  then have x: "x \<in> cached t" "cache_ok t" "b_dev (buffer_pool t x) = Some d" by (auto simp: holds_def steady_def)
  show "\<not> b_dirty (buffer_pool t x)" using l x assms(2) by (auto simp: clean_def)
  have b: "buf_ok t x" using x by (simp add: cache_ok_def)
  then show "\<not> b_invalid (buffer_pool t x)" "fixed_medium t d" using x(3) by (auto simp: buf_ok_def)
  show "b_dev (buffer_pool t x) = Some d" by (rule x(3))
qed

text \<open>A clean buffer is released without a write, and \<open>ERRNO\<close> survives.\<close>

lemma brelse_clean:
  assumes "\<not> b_dirty (buffer_pool t x)" "\<not> b_invalid (buffer_pool t x)" "b_dev (buffer_pool t x) = Some d" "fixed_medium t d"
  shows "brelse x t = buf_upd x (\<lambda>b. b\<lparr>b_use := b_use b - 1\<rparr>) t"
  using assms by (simp add: brelse_def brelse_with_def)

lemma brelse_errno:
  assumes "\<not> b_dirty (buffer_pool t x)" "\<not> b_invalid (buffer_pool t x)" "b_dev (buffer_pool t x) = Some d" "fixed_medium t d"
  shows "brelse x (t\<lparr>errno := e\<rparr>) = (brelse x t)\<lparr>errno := e\<rparr>"
proof -
  have "fixed_medium (t\<lparr>errno := e\<rparr>) d" using assms(4) by (simp add: fixed_medium_def)
  then show ?thesis using assms by (simp add: brelse_clean) (simp add: buf_upd_def)
qed

text \<open>The result of looking for pointer block \<open>b\<close>: nothing for 0, otherwise a buffer just read.\<close>

definition ptr_result :: "nat \<Rightarrow> fsys \<Rightarrow> u32 \<Rightarrow> nat option \<times> fsys \<Rightarrow> bool" where
  "ptr_result d s b r \<longleftrightarrow> (if b = 0 then \<exists>t. r = (None, t) \<and> quiet d s t \<and> errno t = E_NOEXIST
     else \<exists>x t u. quiet d s u \<and> bread d b u = (Some x, t) \<and> r = (Some x, t))"

definition blkno_result :: "nat \<Rightarrow> fsys \<Rightarrow> u32 \<Rightarrow> u32 \<times> fsys \<Rightarrow> bool" where
  "blkno_result d s b r \<longleftrightarrow> fst r = b \<and> quiet d s (snd r) \<and> (b = 0 \<longrightarrow> errno (snd r) = E_NOEXIST)"

lemma quiet_dev: "quiet d s t \<Longrightarrow> dev_of t i = dev_of s i"
  using rest_fields(1)[of t s] by (simp add: quiet_def)

text \<open>
  Looking up a block that exists is the same with and without creating the ones that do not
  (\<open>cr\<close>).
\<close>

lemma indirect_result:
  assumes q: "quiet d s u" and x: "bread d b u = (Some x, t)" and V: "view s d b = Some bs"
    and z: "cr \<Longrightarrow> get_long bs (4 * k) \<noteq> 0" and r: "get_indirect_blkno i x k cr t = (n, c, w)"
  shows "blkno_result d s (get_long bs (4 * k)) (n, w) \<and> \<not> c"
proof -
  have rd: "ready d u" "clean u" "view u = view s" using q by (simp_all add: quiet_def)
  have "b_data (buffer_pool t x) = bs" using fs.get_content[OF rd(1) x] V rd(3) by simp
  note cl = bread_clean[OF rd(1,2) x]
  have q': "quiet d s (brelse x t)" using held_release[OF rd(1) x] q by (simp add: quiet_def)
  show ?thesis
    using r \<open>b_data _ = bs\<close> z q' quiet_errno[OF q', of E_NOEXIST]
    by (auto simp: get_indirect_blkno_def Let_def blkno_result_def brelse_errno[OF cl] split: if_splits)
qed

lemma last_ptr_result:
  assumes p: "ptr_result d s b r" and V: "b \<noteq> 0 \<Longrightarrow> view s d b = Some bs"
    and z: "cr \<Longrightarrow> b \<noteq> 0 \<Longrightarrow> get_long bs (4 * unat k) \<noteq> 0"
  shows "blkno_result d s (if b = 0 then 0 else get_long bs (4 * unat k)) (last_ptr i k cr r)"
proof (cases "b = 0")
  case True then show ?thesis using p by (auto simp: ptr_result_def last_ptr_def blkno_result_def)
next
  case False
  then obtain x t u where u: "quiet d s u" "bread d b u = (Some x, t)" "r = (Some x, t)" using p by (auto simp: ptr_result_def)
  obtain n c w where g: "get_indirect_blkno i x (unat k) cr t = (n, c, w)" using prod_cases3 by blast
  show ?thesis using indirect_result[OF u(1,2) V[OF False] z g] False u(3) g by (simp add: last_ptr_def)
qed

lemma read_ptr_result:
  assumes "blkno_result d s b (n, w)" "dev_of s i = d"
  shows "ptr_result d s b (read_ptr_block i (n, False, w))"
proof (cases "b = 0")
  case True then show ?thesis using assms by (auto simp: ptr_result_def read_ptr_block_def blkno_result_def)
next
  case False
  have q: "quiet d s w" "n = b" using assms(1) by (simp_all add: blkno_result_def)
  obtain x t where "bread d b w = (Some x, t)" using bread_ready[of d w b] q by (auto simp: quiet_def)
  then show ?thesis using False q quiet_dev[OF q(1)] assms(2) by (auto simp: ptr_result_def read_ptr_block_def)
qed

lemma next_ptr_result:
  assumes p: "ptr_result d s b r" and V: "b \<noteq> 0 \<Longrightarrow> view s d b = Some bs" and d: "dev_of s i = d"
    and z: "cr \<Longrightarrow> b \<noteq> 0 \<Longrightarrow> get_long bs (4 * unat k) \<noteq> 0"
  shows "ptr_result d s (if b = 0 then 0 else get_long bs (4 * unat k)) (next_ptr i k cr r)"
proof (cases "b = 0")
  case True then show ?thesis using p by (auto simp: ptr_result_def next_ptr_def)
next
  case False
  then obtain x t u where u: "quiet d s u" "bread d b u = (Some x, t)" "r = (Some x, t)" using p by (auto simp: ptr_result_def)
  obtain n c w where g: "get_indirect_blkno i x (unat k) cr t = (n, c, w)" using prod_cases3 by blast
  note ir = indirect_result[OF u(1,2) V[OF False] z g]
  then show ?thesis using read_ptr_result[of d s _ n w i] d False u(3) g by (simp add: next_ptr_def get_indirect_blk_def)
qed

lemma inode_ptr_result:
  assumes "ready d s" "clean s" "dev_of s i = d" and z: "cr \<Longrightarrow> blocks (i_inode (inode_pool s i)) ! k \<noteq> 0"
  shows "ptr_result d s (blocks (i_inode (inode_pool s i)) ! k) (get_inode_blk i k cr s)"
proof -
  let ?b = "blocks (i_inode (inode_pool s i)) ! k"
  define w where "w = (if ?b = 0 then s\<lparr>errno := E_NOEXIST\<rparr> else s)"
  have "blkno_result d s ?b (?b, w)" using assms quiet_refl[OF assms(1,2)] quiet_errno by (auto simp: blkno_result_def w_def)
  moreover have "get_inode_blkno i k cr s = (?b, False, w)" using z by (simp add: get_inode_blkno_def w_def Let_def)
  ultimately show ?thesis using read_ptr_result[of d s ?b ?b w i] assms(3) by (simp add: get_inode_blk_def)
qed

lemma get_data_blkno_finds:
  assumes rd: "ready d s" "clean s" and d: "dev_of s i = d" and val: "\<not> i_invalid (inode_pool s i)"
    and b: "block_at (view s d) (i_inode (inode_pool s i)) blk = Some b" and z: "cr \<Longrightarrow> b \<noteq> 0"
  shows "blkno_result d s b (get_data_blkno i blk cr s)"
proof -
  let ?V = "view s d" and ?B = "blocks (i_inode (inode_pool s i))"
  have fm: "test_media (dev_of s i) s = (True, s)" using rd d by (simp add: ready_def)
  note g = get_data_blkno_def[of i blk cr s, unfolded fm prod.sel Let_def if_not_P[OF val]]
  have c: "PTRS_PER_INDIRECT = 256" "SINGLE_INDIRECT = 9" "DOUBLE_INDIRECT = 10" "TRIPLE_INDIRECT = 11"
    by (simp_all add: PTRS_PER_INDIRECT_def SINGLE_INDIRECT_def DOUBLE_INDIRECT_def TRIPLE_INDIRECT_def)
  have n: "blk - 9 - 256 = blk - 265" "blk - 265 - 65536 = blk - 65801" by simp_all
  note ip = inode_ptr_result[OF rd d]
  consider "blk < 9" | "\<not> blk < 9" "blk - 9 < 256" | "\<not> blk < 9" "\<not> blk - 9 < 256" "blk - 265 < 65536"
    | "\<not> blk < 9" "\<not> blk - 9 < 256" "\<not> blk - 265 < 65536" "blk - 65801 < 16777216"
    using b by (auto simp: block_at_def block_path_def split: if_splits)
  then show ?thesis
  proof cases
    case 1
    then have "b = ?B ! unat blk" using b by (simp add: block_at_def block_path_def)
    then show ?thesis using 1 z quiet_refl[OF rd] quiet_errno by (auto simp: g c get_inode_blkno_def Let_def blkno_result_def)
  next
    case 2
    then have bb: "chase ?V (?B ! 9) [blk - 9] = Some b" using b by (simp add: block_at_def block_path_def)
    obtain bs where bs: "?B ! 9 \<noteq> 0 \<Longrightarrow> ?V (?B ! 9) = Some bs" using bb by (auto split: if_splits option.splits)
    have e: "b = (if ?B ! 9 = 0 then 0 else get_long bs (4 * unat (blk - 9)))" using bb bs by (auto split: if_splits)
    have "blkno_result d s b (last_ptr i (blk - 9) cr (get_inode_blk i 9 cr s))"
      unfolding e by (rule last_ptr_result[OF ip bs]) (use e z in auto)
    then show ?thesis using 2 by (simp add: g c)
  next
    case 3
    let ?k = "(blk - 265) div 256" and ?l = "(blk - 265) mod 256"
    have bb: "chase ?V (?B ! 10) [?k, ?l] = Some b" using b 3 by (simp add: block_at_def block_path_def)
    obtain bs where bs: "?B ! 10 \<noteq> 0 \<Longrightarrow> ?V (?B ! 10) = Some bs" using bb by (auto split: if_splits option.splits)
    define b1 where "b1 = (if ?B ! 10 = 0 then 0 else get_long bs (4 * unat ?k))"
    have ch: "chase ?V b1 [?l] = Some b" using bb bs by (auto simp: b1_def split: if_splits)
    obtain cs where cs: "b1 \<noteq> 0 \<Longrightarrow> ?V b1 = Some cs" using ch by (auto split: if_splits option.splits)
    have e: "b = (if b1 = 0 then 0 else get_long cs (4 * unat ?l))" using ch cs by (auto split: if_splits)
    have nz: "b1 \<noteq> 0 \<and> ?B ! 10 \<noteq> 0 \<and> get_long bs (4 * unat ?k) \<noteq> 0 \<and> get_long cs (4 * unat ?l) \<noteq> 0" if cr
      using z[OF that] e by (auto simp: b1_def split: if_splits)
    have p1: "ptr_result d s b1 (next_ptr i ?k cr (get_inode_blk i 10 cr s))"
      unfolding b1_def by (rule next_ptr_result[OF ip bs d]) (use nz in auto)
    have "blkno_result d s b (last_ptr i ?l cr (next_ptr i ?k cr (get_inode_blk i 10 cr s)))"
      unfolding e by (rule last_ptr_result[OF p1 cs]) (use nz in auto)
    then show ?thesis using 3 by (simp add: g c n)
  next
    case 4
    let ?k = "(blk - 65801) div 65536" and ?l = "(blk - 65801) div 256 mod 256" and ?m = "(blk - 65801) mod 256"
    have bb: "chase ?V (?B ! 11) [?k, ?l, ?m] = Some b" using b 4 by (simp add: block_at_def block_path_def)
    obtain bs where bs: "?B ! 11 \<noteq> 0 \<Longrightarrow> ?V (?B ! 11) = Some bs" using bb by (auto split: if_splits option.splits)
    define b1 where "b1 = (if ?B ! 11 = 0 then 0 else get_long bs (4 * unat ?k))"
    have ch: "chase ?V b1 [?l, ?m] = Some b" using bb bs by (auto simp: b1_def split: if_splits)
    obtain cs where cs: "b1 \<noteq> 0 \<Longrightarrow> ?V b1 = Some cs" using ch by (auto split: if_splits option.splits)
    define b2 where "b2 = (if b1 = 0 then 0 else get_long cs (4 * unat ?l))"
    have ch2: "chase ?V b2 [?m] = Some b" using ch cs by (auto simp: b2_def split: if_splits)
    obtain es where es: "b2 \<noteq> 0 \<Longrightarrow> ?V b2 = Some es" using ch2 by (auto split: if_splits option.splits)
    have e: "b = (if b2 = 0 then 0 else get_long es (4 * unat ?m))" using ch2 es by (auto split: if_splits)
    have nz: "b2 \<noteq> 0 \<and> b1 \<noteq> 0 \<and> ?B ! 11 \<noteq> 0 \<and> get_long bs (4 * unat ?k) \<noteq> 0 \<and> get_long cs (4 * unat ?l) \<noteq> 0
        \<and> get_long es (4 * unat ?m) \<noteq> 0" if cr
      using z[OF that] e by (auto simp: b1_def b2_def split: if_splits)
    have p1: "ptr_result d s b1 (next_ptr i ?k cr (get_inode_blk i 11 cr s))"
      unfolding b1_def by (rule next_ptr_result[OF ip bs d]) (use nz in auto)
    have p2: "ptr_result d s b2 (next_ptr i ?l cr (next_ptr i ?k cr (get_inode_blk i 11 cr s)))"
      unfolding b2_def by (rule next_ptr_result[OF p1 cs d]) (use nz in auto)
    have "blkno_result d s b (last_ptr i ?m cr (next_ptr i ?l cr (next_ptr i ?k cr (get_inode_blk i 11 cr s))))"
      unfolding e by (rule last_ptr_result[OF p2 es]) (use nz in auto)
    then show ?thesis using 4 by (simp add: g c n)
  qed
qed

section \<open>Reading\<close>

text \<open>Moving the position of a handle disturbs nothing else.\<close>

abbreviation at_pos :: "nat \<Rightarrow> u32 \<Rightarrow> fsys \<Rightarrow> fsys" where
  "at_pos f p s \<equiv> file_upd f (\<lambda>v. v\<lparr>f_pos := p\<rparr>) s"

lemma at_pos_frame:
  "view (at_pos f p s) = view s" "ready d (at_pos f p s) = ready d s" "clean (at_pos f p s) = clean s"
  "inode_pool (at_pos f p s) = inode_pool s" "errno (at_pos f p s) = errno s" "rest (at_pos f p s) = at_pos f p (rest s)"
proof -
  have f: "buffer_table (at_pos f p s) = buffer_table s" "buffer_pool (at_pos f p s) = buffer_pool s"
    "bh_free_list (at_pos f p s) = bh_free_list s" "devices (at_pos f p s) = devices s"
    by (simp_all add: file_upd_def)
  note c = cache_ok_cong[OF f]
  show "view (at_pos f p s) = view s" by (rule c(2))
  show "ready d (at_pos f p s) = ready d s" using c fixed_medium_cong[OF f(4)] by (simp add: ready_def)
  show "clean (at_pos f p s) = clean s" by (simp add: clean_def f c(3))
  show "inode_pool (at_pos f p s) = inode_pool s" "errno (at_pos f p s) = errno s" "rest (at_pos f p s) = at_pos f p (rest s)"
    by (simp_all add: file_upd_def rest_def)
qed

lemma file_upd_pos: "f_pos (file_pool s f) = p \<Longrightarrow> file_upd f (\<lambda>v. v\<lparr>f_pos := f_pos v + n\<rparr>) s = at_pos f (p + n) s"
  by (simp add: file_upd_def)

lemma same_block:
  fixes p K i :: nat
  assumes "p mod K + i < K"
  shows "(p + i) div K = p div K" "(p + i) mod K = p mod K + i"
proof -
  have e: "p + i = K * (p div K) + (p mod K + i)" by (simp add: add.assoc[symmetric])
  have K: "K \<noteq> 0" using assms by auto
  have "(p + i) div K = (K * (p div K) + (p mod K + i)) div K" by (rule arg_cong[OF e])
  also have "\<dots> = p div K + (p mod K + i) div K" by (rule div_mult_self4[OF K])
  finally show "(p + i) div K = p div K" using assms by simp
  have "(p + i) mod K = (K * (p div K) + (p mod K + i)) mod K" by (rule arg_cong[OF e])
  also have "\<dots> = (p mod K + i) mod K" by (rule mod_mult_self4)
  finally show "(p + i) mod K = p mod K + i" using assms by simp
qed

text \<open>The piece of a block that one transfer takes.\<close>

lemma piece:
  assumes b: "block_at V ino (of_nat (p div 1024)) = Some b"
    and bs: "if b = 0 then bs = replicate n 0 else \<exists>c. V b = Some c \<and> length c = FS_BLKSIZ \<and> bs = get_bytes c (p mod 1024) n"
    and n: "p mod 1024 + n \<le> 1024"
  shows "bs = map (byte_at V ino) [p..<p + n]"
proof (rule nth_equalityI)
  have l: "length bs = n" using bs n by (auto simp: get_bytes_def FS_BLKSIZ_def split: if_splits)
  then show "length bs = length (map (byte_at V ino) [p..<p + n])" by simp
  fix i assume "i < length bs"
  then have i: "i < n" using l by simp
  have "p mod 1024 + i < 1024" using i n by simp
  note sb = same_block[OF this]
  then show "bs ! i = map (byte_at V ino) [p..<p + n] ! i"
    using i b bs n by (auto simp: byte_at_def get_bytes_def FS_BLKSIZ_def split: if_splits)
qed

lemma transfer_bounds:
  fixes n l r z p :: nat
  assumes "n = min (min l (1024 - r)) (z - p)" "r < 1024" "0 < l" "p < z"
  shows "0 < n" "n \<le> l" "n \<le> 1024" "r + n \<le> 1024" "p + n \<le> z"
  using assms by (auto simp: min_def split: if_splits)

lemma cut_at: "p < z \<Longrightarrow> (if z < p + n then z - p else n) = min n (z - p)" for p z n :: nat
  by (auto simp: min_def)

lemma rest_of_transfer: "n \<le> l \<Longrightarrow> p + n \<le> z \<Longrightarrow> n + min (l - n) (z - (p + n)) = min l (z - p)" for n l p z :: nat
  by (auto simp: min_def)

lemma unat_this_read:
  assumes "len \<noteq> 0" "pos < sz" "unat sz < 2 ^ 31" "unat len < 2 ^ 31"
  shows "unat (this_read len pos sz) = min (min (unat len) (1024 - unat pos mod 1024)) (unat sz - unat pos)"
proof -
  let ?n = "smin len (1024 - pos mod 1024)"
  have m: "unat (pos mod 1024) = unat pos mod 1024" by (simp add: unat_mod)
  then have k: "unat (1024 - pos mod 1024) = 1024 - unat pos mod 1024"
    using mod_less_divisor[of 1024 "unat pos"] by (simp add: unat_sub word_le_nat_alt del: mod_less_divisor)
  then have n: "unat ?n = min (unat len) (1024 - unat pos mod 1024)"
    using assms(4) by (simp add: smin_small min_def word_le_nat_alt k)
  have lt: "unat pos < unat sz" using assms(2) by (simp add: word_less_nat_alt)
  then have d: "unat (sz - pos) = unat sz - unat pos" by (simp add: unat_sub word_le_nat_alt)
  have "unat (pos + ?n) = unat pos + unat ?n"
    using n lt assms(3) by (simp add: unat_word_ariths(1))
  then have "pos + ?n > sz \<longleftrightarrow> unat sz < unat pos + unat ?n" by (simp add: word_less_nat_alt)
  then have "unat (this_read len pos sz) = (if unat sz < unat pos + unat ?n then unat sz - unat pos else unat ?n)"
    unfolding this_read_def Let_def using d by simp
  also have "\<dots> = min (unat ?n) (unat sz - unat pos)" by (rule cut_at[OF lt])
  finally show ?thesis using n by simp
qed

lemma file_read_loop_spec:
  assumes "ready (fdev s f) s" "clean s" "\<not> file_invalid s f" "readable (view s (fdev s f)) (file_inode s f)"
    "file_read_loop f len act out s = (r, bs, t)" "unat len < 2 ^ 31"
  shows "\<exists>n p. n = min (unat len) (unat (fsize (file_inode s f)) - unat (f_pos (file_pool s f)))
    \<and> unat p = unat (f_pos (file_pool s f)) + n \<and> r = act + int n
    \<and> bs = out @ map (byte_at (view s (fdev s f)) (file_inode s f)) [unat (f_pos (file_pool s f))..<unat p]
    \<and> ready (fdev s f) t \<and> clean t \<and> view t = view s \<and> rest t = at_pos f p (rest s)"
  using assms
proof (induction "unat len" arbitrary: len act out s rule: less_induct)
  case less
  let ?d = "fdev s f" and ?ino = "file_inode s f" and ?pos = "f_pos (file_pool s f)"
  let ?V = "view s ?d" and ?sz = "fsize (file_inode s f)"
  show ?case
  proof (cases "len \<noteq> 0 \<and> ?pos < ?sz")
    case False
    have e: "(r, bs, t) = (act, out, s)"
      using less.prems(5)[unfolded file_read_loop.simps[of f len act out s] if_not_P[OF False]] by simp
    have z: "min (unat len) (unat ?sz - unat ?pos) = 0" using False by (auto simp: word_less_nat_alt)
    have "at_pos f ?pos (rest s) = rest s" by (simp add: file_upd_def rest_def)
    then show ?thesis using e z less.prems(1,2) by (intro exI[of _ 0] exI[of _ ?pos]) simp
  next
    case True
    define n where "n = this_read len ?pos ?sz"
    have sz: "unat ?sz < 2 ^ 31" using less.prems(4) by (simp add: readable_def)
    have lt: "unat ?pos < unat ?sz" using True by (simp add: word_less_nat_alt)
    have un: "unat n = min (min (unat len) (1024 - unat ?pos mod 1024)) (unat ?sz - unat ?pos)"
      unfolding n_def using True sz less.prems(6) by (intro unat_this_read) auto
    have "unat ?pos mod 1024 < 1024" "0 < unat len" using True by (simp_all add: unat_gt_0)
    note n1 = transfer_bounds[OF un this lt]
    have sn: "sint n = int (unat n)" using n1(3) sint_u32[of "unat n"] by simp
    have ln: "unat (len - n) = unat len - unat n" using n1(2) by (simp add: unat_sub word_le_nat_alt)
    have pn: "unat (?pos + n) = unat ?pos + unat n" using n1(5) sz by (simp add: unat_word_ariths(1))
    have kb: "unat (?pos div 1024) = unat ?pos div 1024" "?pos div 1024 = of_nat (unat ?pos div 1024)"
      "unat (?pos mod 1024) = unat ?pos mod 1024"
      by (simp add: unat_div, simp add: word_arith_nat_div, simp add: unat_mod)
    have "unat ?pos div 1024 * 1024 < unat ?sz" using lt by (meson div_times_less_eq_dividend le_less_trans)
    then obtain b where b: "block_at ?V ?ino (of_nat (unat ?pos div 1024)) = Some b"
      and bc: "b \<noteq> 0 \<Longrightarrow> \<exists>c. ?V b = Some c \<and> length c = FS_BLKSIZ" using less.prems(4) by (auto simp: readable_def)
    obtain b' w where gw: "get_data_blkno (ino_of s f) (?pos div 1024) False s = (b', w)" by force
    have br: "blkno_result ?d s b (b', w)"
      using get_data_blkno_finds[OF less.prems(1,2) refl less.prems(3), of "?pos div 1024" b False] b gw kb(2) by simp
    then have q: "b' = b" "quiet ?d s w" "b = 0 \<Longrightarrow> errno w = E_NOEXIST" by (simp_all add: blkno_result_def)
    define chunk where "chunk = map (byte_at ?V ?ino) [unat ?pos..<unat ?pos + unat n]"
    \<comment> \<open>one transfer\<close>
    have step: "\<exists>u. quiet ?d s u \<and> (r, bs, t) = file_read_loop f (len - n) (act + int (unat n)) (out @ chunk)
        (file_upd f (\<lambda>v. v\<lparr>f_pos := f_pos v + n\<rparr>) u)"
    proof (cases "b = 0")
      case z: True
      then have "get_data_block (ino_of s f) (?pos div 1024) False s = (None, w)" using gw q by (simp add: get_data_block_def)
      then have "(r, bs, t) = file_read_loop f (len - n) (act + int (unat n)) (out @ replicate (unat n) 0)
          (file_upd f (\<lambda>v. v\<lparr>f_pos := f_pos v + n\<rparr>) w)"
        using less.prems(5)[unfolded file_read_loop.simps[of f len act out s] if_P[OF True] Let_def n_def[symmetric]] q(3)[OF z] sn
        by simp
      moreover have "replicate (unat n) 0 = chunk"
        unfolding chunk_def using z n1(4) by (intro piece[OF b]) auto
      ultimately show ?thesis using q(2) by auto
    next
      case nz: False
      obtain c where c: "?V b = Some c" "length c = FS_BLKSIZ" using bc nz by blast
      have rw: "ready ?d w" "view w = view s" using q(2) by (simp_all add: quiet_def)
      obtain x u where u: "bread ?d b w = (Some x, u)" using bread_ready[OF rw(1)] by blast
      have dat: "b_data (buffer_pool u x) = c" using fs.get_content[OF rw(1) u] c rw(2) by simp
      have "dev_of w (ino_of s f) = ?d" by (rule quiet_dev[OF q(2)])
      then have "get_data_block (ino_of s f) (?pos div 1024) False s = (Some x, u)"
        using gw q nz u by (simp add: get_data_block_def)
      then have "(r, bs, t) = file_read_loop f (len - n) (act + int (unat n)) (out @ get_bytes c (unat ?pos mod 1024) (unat n))
          (file_upd f (\<lambda>v. v\<lparr>f_pos := f_pos v + n\<rparr>) (brelse x u))"
        using less.prems(5)[unfolded file_read_loop.simps[of f len act out s] if_P[OF True] Let_def n_def[symmetric]] sn dat kb(3)
          n1(4) by (simp add: FS_BLKSIZ_def)
      moreover have "get_bytes c (unat ?pos mod 1024) (unat n) = chunk"
        unfolding chunk_def using nz c n1(4) by (intro piece[OF b]) auto
      moreover have "quiet ?d s (brelse x u)" using held_release[OF rw(1) u] q(2) by (simp add: quiet_def)
      ultimately show ?thesis by auto
    qed
    then obtain u where u: "quiet ?d s u" and rec: "file_read_loop f (len - n) (act + int (unat n)) (out @ chunk)
        (file_upd f (\<lambda>v. v\<lparr>f_pos := f_pos v + n\<rparr>) u) = (r, bs, t)" by auto
    define v where "v = at_pos f (?pos + n) u"
    have ru: "rest u = rest s" "view u = view s" "ready ?d u" "clean u" using u by (simp_all add: quiet_def)
    have fu: "inode_pool u = inode_pool s" "file_pool u = file_pool s" using rest_fields[OF ru(1)] by simp_all
    have v: "view v = view s" "ready ?d v" "clean v" "inode_pool v = inode_pool s" "ino_of v f = ino_of s f" "f_pos (file_pool v f) = ?pos + n"
      "rest v = at_pos f (?pos + n) (rest s)"
      using ru fu by (simp_all add: v_def at_pos_frame) (simp_all add: file_upd_def)
    have rec': "file_read_loop f (len - n) (act + int (unat n)) (out @ chunk) v = (r, bs, t)"
      using rec fu file_upd_pos[of u f ?pos n] by (simp add: v_def)
    have "unat (len - n) < unat len" using ln n1 by simp
    moreover from this have "unat (len - n) < 2 ^ 31" using less.prems(6) by linarith
    ultimately obtain m p where
      m: "m = min (unat (len - n)) (unat ?sz - unat (?pos + n))" "unat p = unat (?pos + n) + m"
        "r = act + int (unat n) + int m"
        "bs = (out @ chunk) @ map (byte_at ?V ?ino) [unat (?pos + n)..<unat p]"
        "ready ?d t" "clean t" "view t = view s" "rest t = at_pos f p (rest v)"
      using less.hyps[OF _ _ v(3) _ _ rec'] v less.prems(1,3,4) by auto
    have tot: "unat n + m = min (unat len) (unat ?sz - unat ?pos)"
      unfolding m(1) ln pn by (rule rest_of_transfer[OF n1(2,5)])
    have "bs = out @ map (byte_at ?V ?ino) [unat ?pos..<unat p]"
      using m(2,4) pn by (simp add: chunk_def upt_add_eq_append[symmetric] map_append[symmetric] del: map_append)
    moreover have "at_pos f p (rest v) = at_pos f p (rest s)" by (simp add: v(7)) (simp add: file_upd_def)
    moreover have "unat p = unat ?pos + (unat n + m)" using m(2) pn by simp
    moreover have "r = act + int (unat n + m)" using m(3) by simp
    ultimately show ?thesis using tot m(5-8) by metis
  qed
qed

text \<open>
  C4: Reading refines the file's byte string.  On a fixed medium, for an open handle on a
  valid inode whose blocks can be read, and for a request of less than \<open>2 ^ 31\<close> bytes (a larger
  one is negative for the code's \<open>min\<close>), \<open>read_file\<close> returns as many bytes as were asked
  for or remain in front of the end, and they are the bytes of the file from the handle's
  position on: through direct blocks and one, two and three levels of pointer blocks, with
  zeros where a block or a pointer block does not exist.  The position moves behind them, and
  nothing else of the module changes.
\<close>

theorem read_file_correct:
  assumes "ready (fdev s f) s" "clean s" "\<not> file_invalid s f" "readable (view s (fdev s f)) (file_inode s f)"
    "test_mask (f_mode (file_pool s f)) F_READ" "read_file len (Some f) s = (r, bs, t)" "unat len < 2 ^ 31"
  shows "\<exists>n p. n = min (unat len) (unat (fsize (file_inode s f)) - unat (f_pos (file_pool s f)))
    \<and> unat p = unat (f_pos (file_pool s f)) + n \<and> r = int n
    \<and> bs = map (byte_at (view s (fdev s f)) (file_inode s f)) [unat (f_pos (file_pool s f))..<unat p]
    \<and> view t = view s \<and> rest t = at_pos f p (rest s)"
proof -
  have "test_media (fdev s f) s = (True, s)" using assms(1) by (simp add: ready_def)
  then have "file_read_loop f len 0 [] s = (r, bs, t)" using assms(3,5,6) by (simp add: read_file_def)
  from file_read_loop_spec[OF assms(1-4) this assms(7)] show ?thesis by simp blast
qed

text \<open>A file of 2100 bytes whose second block does not exist.\<close>

definition sparse_inode :: inode where
  "sparse_inode = \<lparr>attr = 0, fsize = 2100, modtime = 0, nlinks = 1, blocks = [5, 0, 6, 0, 0, 0, 0, 0, 0, 0, 0, 0]\<rparr>"

definition sparse_fs :: fsys where
  "sparse_fs = (blank_fs (disk_dev (\<lambda>b. replicate 1024 (ucast b)) 10))\<lparr>
     inode_pool := (\<lambda>_. \<lparr>i_use = 1, i_dev = 0, i_inode = sparse_inode, inum = 1, i_dirty = False, i_invalid = False\<rparr>),
     file_pool := (\<lambda>_. \<lparr>f_inode = 0, f_mode = F_READ, f_pos = 1000\<rparr>)\<rparr>"

lemma sparse_fs:
  "ready 0 sparse_fs" "clean sparse_fs" "\<And>b. b < 10 \<Longrightarrow> view sparse_fs 0 b = Some (replicate 1024 (ucast b))"
  "readable (view sparse_fs 0) sparse_inode" "p < 2048 \<Longrightarrow> byte_at (view sparse_fs 0) sparse_inode p = (if p < 1024 then 5 else 0)"
proof -
  let ?s = "blank_fs (disk_dev (\<lambda>b. replicate 1024 (ucast b)) 10)"
  have f: "buffer_table sparse_fs = buffer_table ?s" "buffer_pool sparse_fs = buffer_pool ?s"
    "bh_free_list sparse_fs = bh_free_list ?s" "devices sparse_fs = devices ?s"
    by (simp_all add: sparse_fs_def)
  note c = cache_ok_cong[OF f]
  have b: "ready 0 ?s" "clean ?s" using blank_ready[of "disk_dev (\<lambda>b. replicate 1024 (ucast b)) 10"] by simp_all
  show "ready 0 sparse_fs" using b(1) c fixed_medium_cong[OF f(4)] by (simp add: ready_def)
  show "clean sparse_fs" using b(2) c(3) by (simp add: clean_def f)
  show v: "view sparse_fs 0 b = Some (replicate 1024 (ucast b))" if "b < 10" for b
    using that blank_view[of "disk_dev (\<lambda>b. replicate 1024 (ucast b)) 10"] by (simp add: c(2))
  have k: "k = 0 \<or> k = 1 \<or> k = 2" if "k * 1024 < 2100" for k :: nat using that by linarith
  have b0: "block_at V sparse_inode 0 = Some 5" "block_at V sparse_inode 1 = Some 0" "block_at V sparse_inode 2 = Some 6" for V
    by (simp_all add: block_at_def block_path_def sparse_inode_def)
  show "readable (view sparse_fs 0) sparse_inode"
    unfolding readable_def
  proof (intro conjI allI impI)
    fix k :: nat assume "k * 1024 < unat (fsize sparse_inode)"
    then have "k = 0 \<or> k = 1 \<or> k = 2" using k by (simp add: sparse_inode_def)
    then show "\<exists>b. block_at (view sparse_fs 0) sparse_inode (of_nat k) = Some b \<and>
        (b \<noteq> 0 \<longrightarrow> (\<exists>bs. view sparse_fs 0 b = Some bs \<and> length bs = FS_BLKSIZ))"
      using b0 v[of 5] v[of 6] by (auto simp: FS_BLKSIZ_def)
  qed (simp add: sparse_inode_def)
  show "byte_at (view sparse_fs 0) sparse_inode p = (if p < 1024 then 5 else 0)" if "p < 2048"
  proof (cases "p < 1024")
    case True then show ?thesis using b0 v[of 5] by (simp add: byte_at_def)
  next
    case False
    then have "p div 1024 = 1" using that by simp
    then show ?thesis using False b0 by (simp add: byte_at_def)
  qed
qed

lemma read_file_correct_witness:
  "fst (read_file 100 (Some 0) sparse_fs) = 100 \<and> (\<exists>bs. fst (snd (read_file 100 (Some 0) sparse_fs)) = bs \<and> length bs = 100 \<and> bs ! 23 = 5 \<and> bs ! 24 = 0)"
proof -
  have fi: "ino_of sparse_fs 0 = 0" "file_inode sparse_fs 0 = sparse_inode" "fdev sparse_fs 0 = 0" "\<not> file_invalid sparse_fs 0"
    "f_pos (file_pool sparse_fs 0) = 1000" "f_mode (file_pool sparse_fs 0) = F_READ"
    by (simp_all add: sparse_fs_def)
  obtain r bs t where r: "read_file 100 (Some 0) sparse_fs = (r, bs, t)" by (metis prod_cases3)
  have "\<exists>n p. n = min (unat (100::u32)) (unat (fsize sparse_inode) - unat (1000::u32)) \<and> unat p = unat (1000::u32) + n \<and> r = int n
      \<and> bs = map (byte_at (view sparse_fs 0) sparse_inode) [unat (1000::u32)..<unat p]
      \<and> view t = view sparse_fs \<and> rest t = at_pos 0 p (rest sparse_fs)"
    using read_file_correct[of sparse_fs 0 100 r bs t] sparse_fs(1,2,4) fi r by (simp add: F_READ_def)
  then have rb: "r = 100" "bs = map (byte_at (view sparse_fs 0) sparse_inode) [1000..<1100]" by (auto simp: sparse_inode_def)
  then show ?thesis using r sparse_fs(5) by (simp del: upt_rec_numeral)
qed

end
