(* ===== verification/FsInodeProps.thy ===== *)
theory FsInodeProps
  imports FsReadProps
begin

text \<open>
  The structures on the disk: longs and inodes written to a block are read back, and the
  other inodes of the block stay; writing an inode back and reading it in.
\<close>

unbundle bit_operations_syntax

section \<open>Longs in a block\<close>

lemma length_long_bytes [simp]: "length (long_bytes v) = 4"
  by (simp add: long_bytes_def)

lemma get_long_of_bytes:
  assumes "\<And>j. j < 4 \<Longrightarrow> bs ! (off + j) = long_bytes v ! j"
  shows "get_long bs off = v"
proof -
  have b: "bs ! off = ucast v" "bs ! (off + 1) = ucast (drop_bit 8 v)" "bs ! (off + 2) = ucast (drop_bit 16 v)"
    "bs ! (off + 3) = ucast (drop_bit 24 v)"
    using assms[of 0] assms[of 1] assms[of 2] assms[of 3] by (simp_all add: long_bytes_def)
  show ?thesis
  proof (rule bit_word_eqI)
    fix n assume "n < LENGTH(32)"
    then have "n < 8 \<or> 8 \<le> n \<and> n < 16 \<or> 16 \<le> n \<and> n < 24 \<or> 24 \<le> n \<and> n < 32" by auto
    then show "bit (get_long bs off) n = bit v n" unfolding get_long_def b by (elim disjE conjE) (auto simp: bit_simps)
  qed
qed

lemma length_put_bytes [simp]: "off + length src \<le> length bs \<Longrightarrow> length (put_bytes bs off src) = length bs"
  by (simp add: put_bytes_def)

lemma nth_put_bytes:
  assumes "off + length src \<le> length bs" "n < length bs"
  shows "put_bytes bs off src ! n = (if off \<le> n \<and> n < off + length src then src ! (n - off) else bs ! n)"
  using assms by (auto simp: put_bytes_def nth_append min_def)

lemma nth_longs: "k < length L \<Longrightarrow> j < 4 \<Longrightarrow> concat (map long_bytes L) ! (4 * k + j) = long_bytes (L ! k) ! j"
proof (induction L arbitrary: k)
  case Nil then show ?case by simp
next
  case (Cons v L) then show ?case by (cases k) (auto simp: nth_append)
qed

lemma length_longs [simp]: "length (concat (map long_bytes L)) = 4 * length L"
  by (induction L) simp_all

lemma get_long_put_longs:
  assumes "off + 4 * length L \<le> length bs" "k < length L"
  shows "get_long (put_bytes bs off (concat (map long_bytes L))) (off + 4 * k) = L ! k"
proof (rule get_long_of_bytes)
  fix j :: nat assume j: "j < 4"
  have "off + 4 * k + j < length bs" "4 * k + j < 4 * length L" using assms j by linarith+
  then show "put_bytes bs off (concat (map long_bytes L)) ! (off + 4 * k + j) = long_bytes (L ! k) ! j"
    using assms nth_longs[OF assms(2) j] by (simp add: nth_put_bytes)
qed

lemma get_long_put_other:
  assumes "off + length src \<le> length bs" "o2 + 4 \<le> length bs" "o2 + 4 \<le> off \<or> off + length src \<le> o2"
  shows "get_long (put_bytes bs off src) o2 = get_long bs o2"
  using assms by (auto simp: get_long_def nth_put_bytes)

section \<open>Inodes in a block\<close>

definition inode_longs :: "inode \<Rightarrow> u32 list" where
  "inode_longs i = [attr i, fsize i, modtime i, nlinks i] @ blocks i"

lemma inode_bytes_longs: "inode_bytes i = concat (map long_bytes (inode_longs i))"
  by (simp add: inode_bytes_def inode_longs_def)

definition inode_wf :: "inode \<Rightarrow> bool" where
  "inode_wf i \<longleftrightarrow> length (blocks i) = 12"

lemma length_inode_bytes [simp]: "inode_wf i \<Longrightarrow> length (inode_bytes i) = INODE_SIZE"
  by (simp add: inode_bytes_longs inode_longs_def inode_wf_def INODE_SIZE_def)

lemma get_put_inode:
  assumes "inode_wf i" "off + INODE_SIZE \<le> length bs"
  shows "get_inode (put_bytes bs off (inode_bytes i)) off = i"
proof -
  let ?B = "put_bytes bs off (inode_bytes i)"
  have l: "length (inode_longs i) = 16" using assms(1) by (simp add: inode_longs_def inode_wf_def)
  have g: "get_long ?B (off + 4 * k) = inode_longs i ! k" if "k < 16" for k
    unfolding inode_bytes_longs using assms(2) l that by (intro get_long_put_longs) (simp_all add: INODE_SIZE_def)
  have "get_long ?B off = attr i" "get_long ?B (off + 4) = fsize i" "get_long ?B (off + 8) = modtime i" "get_long ?B (off + 12) = nlinks i"
    using g[of 0] g[of 1] g[of 2] g[of 3] by (simp_all add: inode_longs_def)
  moreover have "map (\<lambda>k. get_long ?B (off + 16 + 4 * k)) [0..<12] = blocks i"
  proof (rule nth_equalityI)
    show "length (map (\<lambda>k. get_long ?B (off + 16 + 4 * k)) [0..<12]) = length (blocks i)" using assms(1) by (simp add: inode_wf_def)
    fix k assume "k < length (map (\<lambda>k. get_long ?B (off + 16 + 4 * k)) [0..<12])"
    then have k: "k < 12" by simp
    then have "get_long ?B (off + 16 + 4 * k) = inode_longs i ! (4 + k)" using g[of "4 + k"] by (simp add: add.assoc)
    then show "map (\<lambda>k. get_long ?B (off + 16 + 4 * k)) [0..<12] ! k = blocks i ! k" using k by (simp add: inode_longs_def del: upt_rec_numeral)
  qed
  ultimately show ?thesis by (simp add: get_inode_def del: upt_rec_numeral)
qed

lemma get_put_inode_other:
  assumes "inode_wf i" "off + INODE_SIZE \<le> length bs" "o2 + INODE_SIZE \<le> length bs"
    "o2 + INODE_SIZE \<le> off \<or> off + INODE_SIZE \<le> o2"
  shows "get_inode (put_bytes bs off (inode_bytes i)) o2 = get_inode bs o2"
proof -
  have "get_long (put_bytes bs off (inode_bytes i)) (o2 + k) = get_long bs (o2 + k)" if "k + 4 \<le> INODE_SIZE" for k
    using assms that by (intro get_long_put_other) auto
  note this this[of 0, simplified]
  then show ?thesis by (auto simp: get_inode_def INODE_SIZE_def add.assoc)
qed

section \<open>Writing an inode back\<close>

lemma inode_blkno_cong: "rest t = rest s \<Longrightarrow> inode_blkno i t = inode_blkno i s \<and> inode_offset i t = inode_offset i s"
  using rest_fields(1)[of t s] rest_dev(3)[of t s] by (simp add: inode_blkno_def inode_offset_def)

lemma inode_offset_bound: "inode_offset i s + INODE_SIZE \<le> FS_BLKSIZ"
proof -
  have "unat (inum (inode_pool s i) mod 16) < 16" by (simp add: unat_mod)
  then show ?thesis by (simp add: inode_offset_def INODE_SIZE_def INODES_PER_BLOCK_def FS_BLKSIZ_def)
qed

lemma ino_upd_frame: "ready d (ino_upd i f s) = ready d s" "clean (ino_upd i f s) = clean s" "view (ino_upd i f s) = view s"
proof -
  have f: "buffer_table (ino_upd i f s) = buffer_table s" "buffer_pool (ino_upd i f s) = buffer_pool s"
    "bh_free_list (ino_upd i f s) = bh_free_list s" "devices (ino_upd i f s) = devices s"
    by (simp_all add: ino_upd_def)
  note c = cache_ok_cong[OF f]
  show "ready d (ino_upd i f s) = ready d s" using c fixed_medium_cong[OF f(4)] by (simp add: ready_def)
  show "clean (ino_upd i f s) = clean s" "view (ino_upd i f s) = view s" using c(2,3) by (simp_all add: clean_def f)
qed

text \<open>
  C18: An inode that was changed in memory and written back is what a later read of the same
  inode number delivers, field by field with its twelve block pointers; the other fifteen
  inodes of its block and all other blocks are untouched, and nothing stays dirty.
\<close>

theorem inode_round_trip:
  fixes i :: nat and s :: fsys
  defines "d \<equiv> dev_of s i" and "blk \<equiv> inode_blkno i s" and "slot \<equiv> inode_offset i s"
  assumes "ready d s" "clean s" "\<not> i_invalid (inode_pool s i)" "i_dirty (inode_pool s i)" "inode_wf (i_inode (inode_pool s i))"
    "view s d blk = Some bs" "length bs = FS_BLKSIZ" "write_inode i s = (r, t)"
  shows "r \<and> \<not> i_dirty (inode_pool t i) \<and> clean t
    \<and> (\<forall>b. b \<noteq> blk \<longrightarrow> view t d b = view s d b)
    \<and> (\<exists>cs. view t d blk = Some cs \<and> (\<forall>k<16. INODE_SIZE * k \<noteq> slot \<longrightarrow> get_inode cs (INODE_SIZE * k) = get_inode bs (INODE_SIZE * k)))
    \<and> (\<forall>j. dev_of t j = d \<longrightarrow> inum (inode_pool t j) = inum (inode_pool s i) \<longrightarrow> \<not> i_invalid (inode_pool t j) \<longrightarrow>
         fst (read_inode j t) \<and> i_inode (inode_pool (snd (read_inode j t)) j) = i_inode (inode_pool s i))"
proof -
  let ?ino = "i_inode (inode_pool s i)"
  let ?f = "\<lambda>c. put_bytes c slot (inode_bytes ?ino)"
  have fm: "test_media (dev_of s i) s = (True, s)" using assms(4) by (simp add: ready_def d_def)
  obtain x u where u: "bread d blk s = (Some x, u)" using bread_ready[OF assms(4)] by blast
  have dat: "b_data (buffer_pool u x) = bs" by (rule fs.get_content[OF assms(4) u assms(9)])
  have ru: "rest u = rest s" using bread_content(1)[OF assms(4) u] .
  have iu: "inode_pool u = inode_pool s" "inode_offset i u = slot" using rest_fields(1)[OF ru] inode_blkno_cong[OF ru] by (simp_all add: slot_def)
  define v where "v = brelse x (bdirty x True (edit_buffer x ?f u))"
  note e = held_edit[OF assms(4) u v_def]
  have wt: "r" "t = ino_upd i (\<lambda>w. w\<lparr>i_dirty := False\<rparr>) v"
    using assms(11) assms(6,7) fm u iu unfolding d_def blk_def by (simp_all add: write_inode_def v_def)
  have rv: "rest v = rest s" "ready d v" "clean v" using e assms(5) by simp_all
  have pv: "inode_pool v = inode_pool s" "devices v d = devices v d" using rest_fields(1)[OF rv(1)] by simp_all
  have g: "good_block (devices s d) blk" using assms(9) by (auto simp: view_def split: if_splits)
  have vt: "view t = view_upd s d blk (?f bs)" using e dat by (simp add: wt ino_upd_frame)
  have off: "slot + INODE_SIZE \<le> length bs" using inode_offset_bound[of i s] assms(10) by (simp add: slot_def)
  have vb: "view t d blk = Some (?f bs)" using vt g by (simp add: view_upd_def)
  have rt: "ready d t" "clean t" using rv by (simp_all add: wt ino_upd_frame)
  have others: "get_inode (?f bs) (INODE_SIZE * k) = get_inode bs (INODE_SIZE * k)" if k: "k < 16" "INODE_SIZE * k \<noteq> slot" for k
  proof (rule get_put_inode_other[OF assms(8) off])
    show "INODE_SIZE * k + INODE_SIZE \<le> length bs" using k assms(10) by (simp add: INODE_SIZE_def FS_BLKSIZ_def)
    have m: "slot = INODE_SIZE * unat (inum (inode_pool s i) mod INODES_PER_BLOCK)" (is "_ = _ * ?m")
      by (simp add: slot_def inode_offset_def)
    then have "k < ?m \<or> ?m < k" using k by (metis linorder_neqE_nat)
    then show "INODE_SIZE * k + INODE_SIZE \<le> slot \<or> slot + INODE_SIZE \<le> INODE_SIZE * k" by (auto simp: m INODE_SIZE_def)
  qed
  have again: "fst (read_inode j t) \<and> i_inode (inode_pool (snd (read_inode j t)) j) = ?ino"
    if j: "dev_of t j = d" "inum (inode_pool t j) = inum (inode_pool s i)" "\<not> i_invalid (inode_pool t j)" for j
  proof -
    have dt: "devices t = devices v" by (simp add: wt ino_upd_def)
    have sp: "sup (devices t d) = sup (devices s d)" using rest_dev(3)[OF rv(1), of d] by (simp add: dt)
    have jb: "inode_blkno j t = blk" "inode_offset j t = slot"
      using j sp by (simp_all add: inode_blkno_def inode_offset_def blk_def slot_def d_def)
    have fmt: "test_media d t = (True, t)" using rt by (simp add: ready_def)
    obtain y w where w: "bread d blk t = (Some y, w)" using bread_ready[OF rt(1)] by blast
    have dw: "b_data (buffer_pool w y) = ?f bs" by (rule fs.get_content[OF rt(1) w vb])
    have rw: "rest w = rest t" by (rule bread_content(1)[OF rt(1) w])
    have jo: "inode_offset j w = slot" using inode_blkno_cong[OF rw] jb by simp
    define z where "z = ino_upd j (\<lambda>v. v\<lparr>i_dirty := False, i_inode := get_inode (?f bs) slot\<rparr>) w"
    have rd: "read_inode j t = (True, brelse y z)"
      using fmt j w jb jo dw by (simp add: read_inode_def read_inode_with_def brelse_def bread_def z_def)
    note cl = bread_clean[OF rt w]
    have "brelse y z = buf_upd y (\<lambda>b. b\<lparr>b_use := b_use b - 1\<rparr>) z"
      using cl by (intro brelse_clean) (simp_all add: z_def ino_upd_def fixed_medium_def)
    then show ?thesis using rd get_put_inode[OF assms(8) off] by (simp add: buf_upd_def z_def ino_upd_def)
  qed
  have "\<not> i_dirty (inode_pool t i)" by (simp add: wt ino_upd_def)
  moreover have "\<forall>b. b \<noteq> blk \<longrightarrow> view t d b = view s d b" using vt by (simp add: view_upd_def)
  ultimately show ?thesis using wt(1) rt(2) vb others again by blast
qed

lemma inode_round_trip_witness:
  "fst (write_inode 0 (ino_upd 0 (\<lambda>v. v\<lparr>i_dirty := True\<rparr>) sparse_fs))
   \<and> clean (snd (write_inode 0 (ino_upd 0 (\<lambda>v. v\<lparr>i_dirty := True\<rparr>) sparse_fs)))"
proof -
  let ?s = "ino_upd 0 (\<lambda>v. v\<lparr>i_dirty := True\<rparr>) sparse_fs"
  have p: "inode_pool ?s 0 = \<lparr>i_use = 1, i_dev = 0, i_inode = sparse_inode, inum = 1, i_dirty = True, i_invalid = False\<rparr>"
    "devices ?s 0 = disk_dev (\<lambda>b. replicate 1024 (ucast b)) 10"
    by (simp_all add: ino_upd_def sparse_fs_def)
  have b: "inode_blkno 0 ?s = 2"
    by (simp add: inode_blkno_def p INODES_PER_BLOCK_def) (simp add: disk_dev_def)
  obtain r t where r: "write_inode 0 ?s = (r, t)" by force
  have "ready (dev_of ?s 0) ?s" "clean ?s" using sparse_fs(1,2) by (simp_all add: ino_upd_frame p)
  moreover have "view ?s (dev_of ?s 0) (inode_blkno 0 ?s) = Some (replicate 1024 2)"
    using sparse_fs(3)[of 2] by (simp add: ino_upd_frame p b)
  ultimately show ?thesis
    using inode_round_trip[of ?s 0 "replicate 1024 2" r t] r by (simp add: p FS_BLKSIZ_def inode_wf_def sparse_inode_def)
qed

section \<open>Getting an inode\<close>

text \<open>The cache looks at the media of the devices only where it has buffers of them.\<close>

lemma same_buffers:
  assumes b: "buffer_table t = buffer_table s" "buffer_pool t = buffer_pool s" "bh_free_list t = bh_free_list s"
    and m: "\<And>e. media_code (devices t e) = media_code (devices s e)" "\<And>e. good_block (devices t e) = good_block (devices s e)"
      "\<And>x e. x \<in> cached s \<Longrightarrow> b_dev (buffer_pool s x) = Some e \<Longrightarrow> medium (devices t e) = medium (devices s e)"
  shows "cached t = cached s" "holds t = holds s" "ready d t = ready d s" "clean t = clean s"
proof -
  show c: "cached t = cached s" by (simp add: cached_def b)
  show h: "holds t = holds s" by (intro ext) (simp add: holds_def c b)
  have "buf_ok t x = buf_ok s x" if "x \<in> cached s" for x
    using m(3)[OF that] by (auto simp: buf_ok_def fixed_medium_def b m(1,2))
  then have "cache_ok t = cache_ok s" by (simp add: cache_ok_def h b c)
  then show "ready d t = ready d s" by (simp add: ready_def fixed_medium_def m avail_def b c)
  show "clean t = clean s" by (simp add: clean_def b c)
qed

lemma same_view:
  assumes "buffer_table t = buffer_table s" "buffer_pool t = buffer_pool s"
    "\<And>e. good_block (devices t e) = good_block (devices s e)" "\<And>e. medium (devices t e) = medium (devices s e)"
  shows "view t = view s"
  by (intro ext) (simp add: view_def assms find_buffer_def cong: option.case_cong)

lemma rest_ino_upd: "rest (ino_upd i f s) = ino_upd i f (rest s)"
  by (simp add: ino_upd_def rest_def)

text \<open>
  \<open>make_inode\<close> on a device with a fixed medium: an inode that is not open yet is read
  into the first free slot, and nothing but the list of the inodes and the slot changes.
\<close>

lemma read_inode_ready:
  assumes rd: "ready d s" "clean s" and i: "dev_of s i = d" "\<not> i_invalid (inode_pool s i)"
  shows "\<exists>t bs. read_inode i s = (True, t) \<and> (\<forall>c. view s d (inode_blkno i s) = Some c \<longrightarrow> bs = c) \<and> ready d t \<and> clean t \<and> view t = view s
    \<and> rest t = ino_upd i (\<lambda>v. v\<lparr>i_dirty := False, i_inode := get_inode bs (inode_offset i s)\<rparr>) (rest s)"
proof -
  have fm: "test_media d s = (True, s)" using rd by (simp add: ready_def)
  obtain y w where w: "bread d (inode_blkno i s) s = (Some y, w)" using bread_ready[OF rd(1)] by blast
  define bs where "bs = b_data (buffer_pool w y)"
  let ?f = "\<lambda>v. v\<lparr>i_dirty := False, i_inode := get_inode bs (inode_offset i s)\<rparr>"
  have V: "\<forall>c. view s d (inode_blkno i s) = Some c \<longrightarrow> bs = c" using fs.get_content[OF rd(1) w] by (simp add: bs_def)
  have rw: "rest w = rest s" by (rule bread_content(1)[OF rd(1) w])
  have jo: "inode_offset i w = inode_offset i s" using inode_blkno_cong[OF rw] by simp
  have "read_inode i s = (True, brelse y (ino_upd i ?f w))"
    using fm i w jo by (simp add: read_inode_def read_inode_with_def brelse_def bread_def bs_def)
  note cl = bread_clean[OF rd w]
  have "brelse y (ino_upd i ?f w) = buf_upd y (\<lambda>b. b\<lparr>b_use := b_use b - 1\<rparr>) (ino_upd i ?f w)"
    using cl by (intro brelse_clean) (simp_all add: ino_upd_def fixed_medium_def)
  moreover have "brelse y w = buf_upd y (\<lambda>b. b\<lparr>b_use := b_use b - 1\<rparr>) w" using cl by (rule brelse_clean)
  ultimately have c: "brelse y (ino_upd i ?f w) = ino_upd i ?f (brelse y w)" by (simp add: buf_upd_def ino_upd_def)
  note h = held_release[OF rd(1) w]
  have "rest (ino_upd i ?f (brelse y w)) = ino_upd i ?f (rest s)" using h by (simp add: rest_ino_upd)
  then show ?thesis
    using \<open>read_inode i s = _\<close> V c h rd(2) by (intro exI[of _ "brelse y (ino_upd i ?f w)"] exI[of _ bs]) (simp add: ino_upd_frame)
qed

definition is_open :: "nat \<Rightarrow> u32 \<Rightarrow> fsys \<Rightarrow> bool" where
  "is_open d n s \<longleftrightarrow> (\<exists>i\<in>set (inode_open_list s). inum (inode_pool s i) = n \<and> dev_of s i = d \<and> \<not> i_invalid (inode_pool s i))"

lemma make_inode_fresh:
  assumes rd: "ready d s" "clean s" and n: "\<not> is_open d n s" "inode_free_list s = i # is"
  shows "\<exists>t bs. make_inode d n s = (Some i, t)
    \<and> (\<forall>c. view s d (n div INODES_PER_BLOCK + inodes (sup (devices s d))) = Some c \<longrightarrow> bs = c) \<and> ready d t \<and> clean t \<and> view t = view s
    \<and> inode_pool t i = \<lparr>i_use = 1, i_dev = d, i_inode = get_inode bs (INODE_SIZE * unat (n mod INODES_PER_BLOCK)),
         inum = n, i_dirty = False, i_invalid = False\<rparr>
    \<and> rest t = (rest s)\<lparr>inode_free_list := is, inode_open_list := i # inode_open_list s, inode_pool := inode_pool t,
         devices := devices (rest (dev_upd d (\<lambda>v. v\<lparr>dev_use := dev_use v + 1\<rparr>) s))\<rparr>"
proof -
  define s2 where "s2 = s\<lparr>inode_free_list := is, inode_open_list := i # inode_open_list s\<rparr>"
  define s3 where "s3 = ino_upd i (\<lambda>v. v\<lparr>i_use := 1, i_dev := d, inum := n, i_invalid := False\<rparr>) s2"
  define s4 where "s4 = dev_upd d (\<lambda>v. v\<lparr>dev_use := dev_use v + 1\<rparr>) s3"
  have b: "buffer_table s4 = buffer_table s" "buffer_pool s4 = buffer_pool s" "bh_free_list s4 = bh_free_list s"
    "\<And>e. media_code (devices s4 e) = media_code (devices s e)" "\<And>e. good_block (devices s4 e) = good_block (devices s e)"
    "\<And>e. medium (devices s4 e) = medium (devices s e)"
    by (simp_all add: s4_def s3_def s2_def dev_upd_def ino_upd_def)
  have rd4: "ready d s4" "clean s4" "view s4 = view s" using same_buffers(3,4)[OF b] same_view[OF b(1,2,5,6)] rd by simp_all
  have p: "dev_of s4 i = d" "\<not> i_invalid (inode_pool s4 i)" "inum (inode_pool s4 i) = n" "i_use (inode_pool s4 i) = 1"
    "sup (devices s4 d) = sup (devices s d)"
    by (simp_all add: s4_def s3_def s2_def dev_upd_def ino_upd_def)
  have ib: "inode_blkno i s4 = n div INODES_PER_BLOCK + inodes (sup (devices s d))" by (simp add: inode_blkno_def p)
  from read_inode_ready[OF rd4(1,2) p(1,2)] obtain t bs where
    V: "\<forall>c. view s4 d (inode_blkno i s4) = Some c \<longrightarrow> bs = c" and t: "read_inode i s4 = (True, t)" "ready d t" "clean t" "view t = view s4"
    "rest t = ino_upd i (\<lambda>v. v\<lparr>i_dirty := False, i_inode := get_inode bs (inode_offset i s4)\<rparr>) (rest s4)" by blast
  have it: "inode_pool t = inode_pool (rest t)" by (simp add: rest_def)
  have "List.find (\<lambda>i. inum (inode_pool s i) = n \<and> dev_of s i = d \<and> \<not> i_invalid (inode_pool s i)) (inode_open_list s) = None"
    using n(1) by (auto simp: find_None_iff is_open_def)
  moreover have "test_media d s = (True, s)" using rd by (simp add: ready_def)
  ultimately have m: "make_inode d n s = (Some i, t)"
    using n(2) t(1) by (simp add: make_inode_def make_inode_with_def read_inode_def s4_def s3_def s2_def)
  have "inode_pool t i = \<lparr>i_use = 1, i_dev = d, i_inode = get_inode bs (INODE_SIZE * unat (n mod INODES_PER_BLOCK)),
         inum = n, i_dirty = False, i_invalid = False\<rparr>"
    unfolding it t(5) by (rule core_inode.equality) (use p in \<open>simp_all add: ino_upd_def rest_def inode_offset_def\<close>)
  moreover have "rest t = (rest s)\<lparr>inode_free_list := is, inode_open_list := i # inode_open_list s, inode_pool := inode_pool t,
         devices := devices (rest (dev_upd d (\<lambda>v. v\<lparr>dev_use := dev_use v + 1\<rparr>) s))\<rparr>"
    unfolding it t(5) by (simp add: s4_def s3_def s2_def ino_upd_def rest_def dev_upd_def)
  ultimately show ?thesis using m V t(2-4) rd4(3) unfolding ib by (intro exI[of _ t] exI[of _ bs]) simp
qed

lemma make_inode_keeps:
  assumes "ready d s" "clean s" "make_inode d n s = (r, t)"
  shows "overrun t = overrun s \<and> tmp_dir_blk t = tmp_dir_blk s"
proof (cases "is_open d n s \<or> inode_free_list s = []")
  case True
  have "test_media d s = (True, s)" using assms(1) by (simp add: ready_def)
  moreover have "List.find (\<lambda>i. inum (inode_pool s i) = n \<and> dev_of s i = d \<and> \<not> i_invalid (inode_pool s i)) (inode_open_list s) = None
      \<longleftrightarrow> \<not> is_open d n s" by (auto simp: find_None_iff is_open_def)
  ultimately show ?thesis
    using True assms(3) by (auto simp: make_inode_def make_inode_with_def ino_upd_def split: option.splits list.splits)
next
  case False
  then obtain i l where "inode_free_list s = i # l" by (cases "inode_free_list s") auto
  then obtain b where "rest t = (rest s)\<lparr>inode_free_list := l, inode_open_list := i # inode_open_list s, inode_pool := inode_pool t,
      devices := b\<rparr>" using make_inode_fresh[OF assms(1,2)] False assms(3) by fastforce
  from arg_cong[OF this, of overrun] arg_cong[OF this, of tmp_dir_blk] show ?thesis by (simp add: rest_def)
qed

end
