(* ===== verification/FsDir.thy ===== *)
theory FsDir
  imports FsFile
begin

text \<open>
  fs/dir.c (and \<open>set_file_modes\<close> of fs/file.c): directories as files of 32-byte
  entries, path names, symbolic links.  A name is the list of its characters, without the
  final zero.  Opening a file follows symbolic links and the path of the root directory by
  opening another file, so the operations are stated over the \<open>open_file\<close> of the
  next level and closed at the end.
\<close>

unbundle bit_operations_syntax

definition NAME_MAX :: nat where "NAME_MAX = 27"
definition DIR_ENTRY_SIZE :: nat where "DIR_ENTRY_SIZE = 32"
definition SLASH :: u8 where "SLASH = 0x2f"
definition COLON :: u8 where "COLON = 0x3a"

abbreviation f_is_dir :: "fsys \<Rightarrow> nat \<Rightarrow> bool" where
  "f_is_dir s f \<equiv> test_mask (attr (file_inode s f)) ATTR_DIRECTORY"

section \<open>Entries of a directory\<close>

definition entry_name :: "u8 list \<Rightarrow> nat \<Rightarrow> u8 list" where
  "entry_name bs k = takeWhile (\<lambda>c. c \<noteq> 0) (drop (DIR_ENTRY_SIZE * k) bs)"

definition entry_inum :: "u8 list \<Rightarrow> nat \<Rightarrow> u32" where
  "entry_inum bs k = get_long bs (DIR_ENTRY_SIZE * k + 28)"

definition entry_bytes :: "u8 list \<Rightarrow> u32 \<Rightarrow> fsys \<Rightarrow> u8 list" where
  "entry_bytes name n s = take NAME_MAX (name @ replicate NAME_MAX 0) @ [junk s] @ long_bytes n"

text \<open>
  One read into \<open>tmp_dir_blk\<close>: the length asked for is the larger of what is left of
  the directory and the size of a block, where the buffer has one block.  What does not fit
  is written over the variables behind it; the model keeps it behind the bytes of the buffer,
  where the loop over the entries finds it as the code does, and notes the overrun.
\<close>

definition read_dir_blk :: "nat \<Rightarrow> u32 \<Rightarrow> fsys \<Rightarrow> int \<times> fsys" where
  "read_dir_blk f dir_len s =
     (case read_file (smax dir_len 1024) (Some f) s of (tmp, bs, s1) \<Rightarrow>
        (tmp, note_overrun (length bs > FS_BLKSIZ) (s1\<lparr>tmp_dir_blk := put_bytes (tmp_dir_blk s1) 0 bs\<rparr>)))"

text \<open>
  The loop over a directory that the functions below share.  \<open>body\<close> looks at the
  entries read (their bytes, how many) and may end the loop with a result; \<open>acc\<close>
  is what it passes on.  \<open>n\<close> bounds the number of reads; as each read returns at
  least one byte of those left, the length of the directory is enough, and a loop that goes
  on for longer never ends.
\<close>

datatype ('r, 'a) scan = ReadError int | Found 'r | AtEnd 'a

primrec scan_dir :: "nat \<Rightarrow> (int \<Rightarrow> 'a \<Rightarrow> fsys \<Rightarrow> 'r option \<times> 'a \<times> fsys) \<Rightarrow> nat \<Rightarrow> u32 \<Rightarrow> 'a \<Rightarrow> fsys \<Rightarrow> ('r, 'a) scan \<times> fsys" where
  "scan_dir 0 body f dir_len acc s = (AtEnd acc, s\<lparr>hung := True\<rparr>)"
| "scan_dir (Suc n) body f dir_len acc s =
     (if dir_len = 0 then (AtEnd acc, s)
      else (case read_dir_blk f dir_len s of (tmp, s1) \<Rightarrow>
        if tmp < 0 then (ReadError tmp, s1)
        else (case body tmp acc s1 of (Some r, a, s2) \<Rightarrow> (Found r, s2)
          | (None, a, s2) \<Rightarrow> scan_dir n body f (dir_len - of_int tmp) a s2)))"

definition scan_entries ::
  "(int \<Rightarrow> 'a \<Rightarrow> fsys \<Rightarrow> 'r option \<times> 'a \<times> fsys) \<Rightarrow> nat \<Rightarrow> 'a \<Rightarrow> fsys \<Rightarrow> ('r, 'a) scan \<times> fsys" where
  "scan_entries body f acc s =
     (let dir_len = fsize (file_inode s f); s1 = snd (seek_file (Some f) 0 SEEK_ABS s)
      in scan_dir (unat dir_len + 2) body f dir_len acc s1)"

definition find_entry :: "u8 list \<Rightarrow> int \<Rightarrow> u8 list \<Rightarrow> nat option" where
  "find_entry name tmp bs =
     List.find (\<lambda>k. entry_name bs k \<noteq> [] \<and> name = entry_name bs k) [0..<nat tmp div DIR_ENTRY_SIZE]"

definition find_file_entry :: "nat \<Rightarrow> u8 list \<Rightarrow> fsys \<Rightarrow> nat option \<times> fsys" where
  "find_file_entry dir name s =
     (if \<not> f_is_dir s dir then (None, s\<lparr>errno := E_NOTDIR\<rparr>)
      else (case scan_entries (\<lambda>tmp (_::unit) s. (find_entry name tmp (tmp_dir_blk s), (), s)) dir () s of
              (ReadError _, s1) \<Rightarrow> (None, s1)
            | (Found k, s1) \<Rightarrow> make_inode (fdev s1 dir) (entry_inum (tmp_dir_blk s1) k) s1
            | (AtEnd _, s1) \<Rightarrow> (None, s1\<lparr>errno := E_NOEXIST\<rparr>)))"

text \<open>
  \<open>create_file_entry\<close>: the last free slot of the directory is used, or its end.  When
  the directory cannot be read the negative error code is returned as a \<open>bool\<close>.
\<close>

definition create_file_entry :: "nat \<Rightarrow> u8 list \<Rightarrow> u32 \<Rightarrow> fsys \<Rightarrow> bool \<times> fsys" where
  "create_file_entry dir name n s =
     (if \<not> f_is_dir s dir then (False, s\<lparr>errno := E_NOTDIR\<rparr>)
      else (case scan_entries (\<lambda>tmp acc s.
               let bs = tmp_dir_blk s; ks = [0..<nat tmp div DIR_ENTRY_SIZE];
                   free = filter (\<lambda>k. entry_name bs k = []) ks
               in if \<exists>k\<in>set ks. name = entry_name bs k then (Some (), acc, s)
                  else (None, if free = [] then acc
                     else Some (f_pos (file_pool s dir) - of_int tmp + of_nat (DIR_ENTRY_SIZE * last free)), s)) dir None s of
              (ReadError _, s1) \<Rightarrow> (True, s1)
            | (Found _, s1) \<Rightarrow> (False, s1\<lparr>errno := E_EXISTS\<rparr>)
            | (AtEnd acc, s1) \<Rightarrow>
                (let s2 = snd (seek_file (Some dir) (case acc of Some p \<Rightarrow> p | None \<Rightarrow> fsize (file_inode s1 dir)) SEEK_ABS s1);
                     (r, s3) = write_file (entry_bytes name n s2) (Some dir) s2
                 in (\<not> r < 0, s3))))"

definition delete_file_entry :: "nat \<Rightarrow> u8 list \<Rightarrow> fsys \<Rightarrow> int \<times> fsys" where
  "delete_file_entry dir name s =
     (if \<not> f_is_dir s dir then (-1, s\<lparr>errno := E_NOTDIR\<rparr>)
      else (case scan_entries (\<lambda>tmp (_::unit) s.
               (map_option (\<lambda>k. (tmp, k)) (find_entry name tmp (tmp_dir_blk s)), (), s)) dir () s of
              (ReadError e, s1) \<Rightarrow> (e, s1)
            | (Found (tmp, k), s1) \<Rightarrow>
                (let o1 = DIR_ENTRY_SIZE * k; n = entry_inum (tmp_dir_blk s1) k;
                     s2 = snd (seek_file (Some dir) (- (of_int tmp - of_nat o1)) SEEK_REL s1);
                     s3 = s2\<lparr>tmp_dir_blk := set_long (put_bytes (tmp_dir_blk s2) o1 [0]) (o1 + 28) 0\<rparr>;
                     (r, s4) = write_file (get_bytes (tmp_dir_blk s3) o1 DIR_ENTRY_SIZE) (Some dir) s3
                 in (if r < 0 then -1 else sint n, s4))
            | (AtEnd _, s1) \<Rightarrow> (-1, s1\<lparr>errno := E_NOEXIST\<rparr>)))"

definition directory_empty_p :: "nat \<Rightarrow> fsys \<Rightarrow> bool \<times> fsys" where
  "directory_empty_p dir s =
     (let dir_len = fsize (file_inode s dir) in
      case test_media (fdev s dir) s of (False, s1) \<Rightarrow> (False, s1)
      | (True, s1) \<Rightarrow>
          if \<not> f_is_dir s1 dir then (False, s1\<lparr>errno := E_NOTDIR\<rparr>)
          else (case scan_dir (unat dir_len + 2) (\<lambda>tmp (_::unit) s.
                   (let bs = tmp_dir_blk s in
                    if \<exists>k\<in>set [0..<nat tmp div DIR_ENTRY_SIZE].
                         entry_name bs k \<noteq> [] \<and> entry_name bs k \<noteq> [0x2e] \<and> entry_name bs k \<noteq> [0x2e, 0x2e]
                    then Some () else None, (), s)) dir dir_len () (snd (seek_file (Some dir) 0 SEEK_ABS s1)) of
                  (AtEnd _, s2) \<Rightarrow> (True, s2)
                | (_, s2) \<Rightarrow> (False, s2)))"

section \<open>The current directory\<close>

definition get_current_dir :: "fsys \<Rightarrow> nat option \<times> fsys" where
  "get_current_dir s = (case current_dir s of None \<Rightarrow> (None, s\<lparr>errno := E_INVALID\<rparr>)
     | Some f \<Rightarrow> (case test_media (fdev s f) s of (False, s1) \<Rightarrow> (None, s1)
        | (True, s1) \<Rightarrow> dup_file (current_dir s1) s1))"

definition swap_current_dir :: "nat option \<Rightarrow> fsys \<Rightarrow> nat option \<times> fsys" where
  "swap_current_dir dir s =
     (let old = current_dir s in
      case dir of None \<Rightarrow> (old, s\<lparr>current_dir := None\<rparr>)
      | Some f \<Rightarrow> (case test_media (fdev s f) s of (False, s1) \<Rightarrow> (None, s1)
         | (True, s1) \<Rightarrow>
             if \<not> f_is_dir s1 f then (None, s1\<lparr>errno := E_NOTDIR\<rparr>)
             else (old, s1\<lparr>current_dir := dir\<rparr>)))"

section \<open>Paths\<close>

type_synonym opener = "u8 list \<Rightarrow> u32 \<Rightarrow> fsys \<Rightarrow> nat option \<times> fsys"

definition MAX_SYMLINK_DEPTH :: int where "MAX_SYMLINK_DEPTH = 8"

text \<open>The contents of a link are a C string in a buffer on the stack.\<close>

definition read_symlink_with :: "opener \<Rightarrow> nat \<Rightarrow> fsys \<Rightarrow> nat option \<times> fsys" where
  "read_symlink_with op link s0 =
     (let s = s0\<lparr>symlink_nesting := symlink_nesting s0 + 1\<rparr>; ino = file_inode s link;
          (r, s3) =
            (if symlink_nesting s > MAX_SYMLINK_DEPTH then (None, s\<lparr>errno := E_MAXLINKS\<rparr>)
             else if \<not> test_mask (attr ino) ATTR_SYMLINK then (None, s\<lparr>errno := E_NOTLINK\<rparr>)
             else if fsize ino \<ge> 256 then (None, s\<lparr>errno := E_NOMEM\<rparr>)
             else (case read_file (fsize ino) (Some link) s of (n, bs, s1) \<Rightarrow>
               if n > 0
               then op (takeWhile (\<lambda>c. c \<noteq> 0) bs) (f_mode (file_pool s1 link))
                      (s1\<lparr>stack_overrun := stack_overrun s1 \<or> 0 \<notin> set bs\<rparr>)
               else (None, s1)))
      in (r, s3\<lparr>symlink_nesting := symlink_nesting s3 - 1\<rparr>))"

text \<open>\<open>memcpy\<close> of a component of the path into \<open>char buf[40]\<close>.\<close>

definition copy_name :: "u8 list \<Rightarrow> fsys \<Rightarrow> fsys" where
  "copy_name name s = s\<lparr>stack_overrun := stack_overrun s \<or> length name \<ge> 40\<rparr>"

text \<open>One component of a path: from the directory \<open>dir\<close> to the entry \<open>name\<close>.\<close>

definition walk_step :: "opener \<Rightarrow> nat \<Rightarrow> u8 list \<Rightarrow> fsys \<Rightarrow> nat option \<times> fsys" where
  "walk_step op dir name s =
     (case find_file_entry dir name (copy_name name s) of (child, s1) \<Rightarrow>
        (let s2 = close_file (Some dir) s1 in
         case child of None \<Rightarrow> (None, s2)
         | Some c \<Rightarrow>
             if \<not> test_mask (attr (i_inode (inode_pool s2 c))) ATTR_SYMLINK
             then (case make_file c s2 of (d, s3) \<Rightarrow> (d, close_inode c s3))
             else (case make_file c s2 of (fh, s3) \<Rightarrow>
               (let s4 = close_inode c s3 in
                case fh of None \<Rightarrow> (None, s4)
                | Some l \<Rightarrow>
                    (case read_symlink_with op l (file_upd l (\<lambda>v. v\<lparr>f_mode := f_mode v OR F_ALLOW_DIR\<rparr>) s4) of
                       (d, s5) \<Rightarrow> (d, close_file (Some l) s5))))))"

lemma after_slash_shorter:
  assumes "c \<in> set xs" shows "length (tl (dropWhile (\<lambda>d. d \<noteq> c) xs)) < length xs"
proof -
  have "dropWhile (\<lambda>d. d \<noteq> c) xs \<noteq> []" using assms by (auto simp: dropWhile_eq_Nil_conv)
  moreover have "length (dropWhile (\<lambda>d. d \<noteq> c) xs) \<le> length xs" by (rule length_dropWhile_le)
  ultimately show ?thesis by (cases "dropWhile (\<lambda>d. d \<noteq> c) xs") auto
qed

function walk :: "opener \<Rightarrow> nat option \<Rightarrow> u8 list \<Rightarrow> fsys \<Rightarrow> nat option \<times> u8 list \<times> fsys" where
  "walk op dir name s =
     (case dir of None \<Rightarrow> (None, name, s)
      | Some d \<Rightarrow>
          if f_is_dir s d \<and> SLASH \<in> set name
          then (case walk_step op d (takeWhile (\<lambda>c. c \<noteq> SLASH) name) s of (dir1, s1) \<Rightarrow>
                  walk op dir1 (tl (dropWhile (\<lambda>c. c \<noteq> SLASH) name)) s1)
          else (dir, name, s))"
  by pat_completeness auto

termination
  by (relation "measure (\<lambda>(op, dir, name, s). length name)") (auto dest: after_slash_shorter)

declare walk.simps [simp del]

definition find_parent_with :: "opener \<Rightarrow> u8 list \<Rightarrow> fsys \<Rightarrow> nat option \<times> u8 list \<times> fsys" where
  "find_parent_with op name s =
     (if name \<noteq> [] \<and> name ! 0 = SLASH
      then (case op (root_dir s) (F_READ OR F_WRITE OR F_ALLOW_DIR) s of (dir, s1) \<Rightarrow> walk op dir (tl name) s1)
      else if COLON \<in> set name
      then (let dn = takeWhile (\<lambda>c. c \<noteq> COLON) name; rest = tl (dropWhile (\<lambda>c. c \<noteq> COLON) name) in
        if dn = []
        then (case current_dir s of
                Some f \<Rightarrow> (case root (devices s (fdev s f)) of
                    Some r \<Rightarrow> (case make_file r s of (dir, s1) \<Rightarrow> walk op dir rest s1)
                  | None \<Rightarrow> (None, rest, s\<lparr>errno := E_INVALID\<rparr>))
              | None \<Rightarrow> (None, rest, s\<lparr>errno := E_INVALID\<rparr>))
        else (case get_device dn (copy_name dn s) of
                (None, s1) \<Rightarrow> (None, name, s1\<lparr>errno := E_NODEV\<rparr>)
              | (Some d, s1) \<Rightarrow> (case root (devices s1 d) of
                    None \<Rightarrow> (None, name, release_device d (s1\<lparr>errno := E_INVALID\<rparr>))
                  | Some r \<Rightarrow> (case make_file r s1 of (dir, s2) \<Rightarrow> walk op dir rest (release_device d s2)))))
      else (case dup_file (current_dir s) s of (dir, s1) \<Rightarrow> walk op dir name s1))"

definition file_exists_with :: "opener \<Rightarrow> nat option \<Rightarrow> u8 list \<Rightarrow> fsys \<Rightarrow> bool \<times> fsys" where
  "file_exists_with op dir name s =
     (let check = (\<lambda>d name s. case find_file_entry d name s of
            (None, s1) \<Rightarrow> (False, s1) | (Some i, s1) \<Rightarrow> (True, close_inode i s1))
      in case dir of Some d \<Rightarrow> check d name s
         | None \<Rightarrow> (case find_parent_with op name s of (None, _, s1) \<Rightarrow> (False, s1)
             | (Some d, nm, s1) \<Rightarrow> (case check d nm s1 of (rc, s2) \<Rightarrow> (rc, close_file (Some d) s2))))"

section \<open>Creating and opening files\<close>

definition empty_inode :: "fsys \<Rightarrow> inode" where
  "empty_inode s = \<lparr>attr = 0, fsize = 0, modtime = now s, nlinks = 0, blocks = replicate 12 0\<rparr>"

text \<open>
  The new inode and its directory entry; the handle is returned even when the entry could
  not be made and the handle was closed.
\<close>

definition create_in :: "nat \<Rightarrow> u8 list \<Rightarrow> u32 \<Rightarrow> u32 \<Rightarrow> fsys \<Rightarrow> nat option \<times> fsys" where
  "create_in dir name at n s =
     (case make_inode (fdev s dir) n s of (None, s1) \<Rightarrow> (None, s1)
      | (Some t, s1) \<Rightarrow>
          (let s2 = ino_upd t (\<lambda>v. v\<lparr>i_inode := empty_inode s1, i_dirty := True\<rparr>) s1 in
           case make_file t s2 of (file, s3) \<Rightarrow>
             (let s4 = close_inode t s3 in
              case file of None \<Rightarrow> (None, s4)
              | Some f \<Rightarrow>
                  (case create_file_entry dir name n s4 of
                     (True, s5) \<Rightarrow> (Some f, snd (write_inode (ino_of s5 f) (ino_upd (ino_of s5 f) (\<lambda>v. v\<lparr>i_inode :=
                        (i_inode v)\<lparr>nlinks := nlinks (i_inode v) + 1, attr := at\<rparr>, i_dirty := True\<rparr>) s5)))
                   | (False, s5) \<Rightarrow> (Some f, close_file (Some f) s5)))))"

definition create_file_with :: "opener \<Rightarrow> u8 list \<Rightarrow> u32 \<Rightarrow> fsys \<Rightarrow> nat option \<times> fsys" where
  "create_file_with op name at s =
     (case find_parent_with op name s of (None, _, s1) \<Rightarrow> (None, s1)
      | (Some dir, nm, s1) \<Rightarrow>
          (case (if nm = [] then (None, s1)
                 else (case file_exists_with op (Some dir) nm s1 of
                     (True, s2) \<Rightarrow> (None, s2\<lparr>errno := E_EXISTS\<rparr>)
                   | (False, s2) \<Rightarrow>
                       (case alloc_inode (fdev s2 dir) s2 of (n, s3) \<Rightarrow>
                          if n \<ge> 0
                          then (case create_in dir nm at (of_int n) s3 of
                                  (None, s4) \<Rightarrow> (None, snd (free_inode (fdev s4 dir) (of_int n) s4))
                                | (Some f, s4) \<Rightarrow> (Some f, s4))
                          else (None, s3)))) of
             (file, s5) \<Rightarrow> (file, close_file (Some dir) s5)))"

text \<open>An entry that exists: links are followed, then the attributes are checked.\<close>

definition open_entry :: "opener \<Rightarrow> nat \<Rightarrow> u32 \<Rightarrow> fsys \<Rightarrow> nat option \<times> fsys" where
  "open_entry op i mode s =
     (let at = attr (i_inode (inode_pool s i)) in
      if mode AND F_DONT_LINK = 0 \<and> test_mask at ATTR_SYMLINK
      then (case make_file i s of (None, s1) \<Rightarrow> (None, s1)
        | (Some l, s1) \<Rightarrow>
            (case read_symlink_with op l (file_upd l (\<lambda>v. v\<lparr>f_mode := F_READ OR mode\<rparr>) s1) of
               (file, s2) \<Rightarrow> (file, close_file (Some l) s2)))
      else if test_mask mode F_READ \<and> test_mask at ATTR_NO_READ \<or> test_mask mode F_WRITE \<and> test_mask at ATTR_NO_WRITE
      then (None, s\<lparr>errno := E_PERM\<rparr>)
      else if test_mask at ATTR_DIRECTORY \<and> \<not> test_mask mode F_ALLOW_DIR
      then (None, s\<lparr>errno := E_ISDIR\<rparr>)
      else make_file i s)"

definition open_file_with :: "opener \<Rightarrow> u8 list \<Rightarrow> u32 \<Rightarrow> fsys \<Rightarrow> nat option \<times> fsys" where
  "open_file_with op name mode s =
     (case find_parent_with op name s of (None, _, s1) \<Rightarrow> (None, s1)
      | (Some dir, nm, s1) \<Rightarrow>
          if nm = [] then (Some dir, s1)
          else (case find_file_entry dir nm s1 of (ino, s2) \<Rightarrow>
            (let (file, s3) = (case ino of
                   None \<Rightarrow>
                     if test_mask mode F_CREATE
                     then (case swap_current_dir (Some dir) s2 of (old, s4) \<Rightarrow>
                             (case create_file_with op nm 0 s4 of (fl, s5) \<Rightarrow> (fl, snd (swap_current_dir old s5))))
                     else (None, s2)
                 | Some i \<Rightarrow> (case open_entry op i mode s2 of (fl, s4) \<Rightarrow> (fl, close_inode i s4)));
                 s6 = (case file of None \<Rightarrow> s3
                   | Some f \<Rightarrow>
                       (let s7 = (if test_mask mode F_TRUNCATE then snd (truncate_file (Some f) s3) else s3);
                            s8 = file_upd f (\<lambda>v. v\<lparr>f_mode := mode\<rparr>) s7
                        in snd (write_inode (ino_of s8 f) s8)))
             in (file, close_file (Some dir) s6))))"

text \<open>
  The nesting is bounded by \<open>MAX_SYMLINK_DEPTH\<close>, with one opening of the root
  directory per level; a path of the root directory that itself begins with a slash makes
  the recursion endless.
\<close>

definition OPEN_DEPTH :: nat where "OPEN_DEPTH = 20"

primrec open_file_n :: "nat \<Rightarrow> opener" where
  "open_file_n 0 = (\<lambda>name mode s. (None, s\<lparr>hung := True\<rparr>))"
| "open_file_n (Suc n) = open_file_with (open_file_n n)"

definition open_file :: opener where
  "open_file = open_file_n OPEN_DEPTH"

definition find_parent :: "u8 list \<Rightarrow> fsys \<Rightarrow> nat option \<times> u8 list \<times> fsys" where
  "find_parent = find_parent_with open_file"

definition file_exists_p :: "nat option \<Rightarrow> u8 list \<Rightarrow> fsys \<Rightarrow> bool \<times> fsys" where
  "file_exists_p = file_exists_with open_file"

definition create_file :: "u8 list \<Rightarrow> u32 \<Rightarrow> fsys \<Rightarrow> nat option \<times> fsys" where
  "create_file = create_file_with open_file"

definition read_symlink :: "nat \<Rightarrow> fsys \<Rightarrow> nat option \<times> fsys" where
  "read_symlink = read_symlink_with open_file"

definition set_file_modes :: "u8 list \<Rightarrow> u32 \<Rightarrow> fsys \<Rightarrow> bool \<times> fsys" where
  "set_file_modes name mode s =
     (case open_file name F_READ s of (None, s1) \<Rightarrow> (False, s1\<lparr>errno := E_BADARG\<rparr>)
      | (Some f, s1) \<Rightarrow>
          (True, close_file (Some f) (ino_upd (ino_of s1 f) (\<lambda>v. v\<lparr>i_inode := (i_inode v)\<lparr>attr :=
             (attr (i_inode v) AND NOT ATTR_MODE_MASK) OR (mode AND NOT ATTR_MODE_MASK)\<rparr>, i_dirty := True\<rparr>) s1)))"

section \<open>Links and directories\<close>

text \<open>\<open>make_link\<close> leaves the directory open when the devices differ.\<close>

definition make_link :: "u8 list \<Rightarrow> nat option \<Rightarrow> fsys \<Rightarrow> bool \<times> fsys" where
  "make_link name src s = (case src of None \<Rightarrow> (True, s\<lparr>errno := E_BADARG\<rparr>)
     | Some f \<Rightarrow>
         (case test_media (fdev s f) s of (False, s1) \<Rightarrow> (False, s1)
          | (True, s1) \<Rightarrow>
              (case find_parent name s1 of (None, _, s2) \<Rightarrow> (False, s2)
               | (Some dir, nm, s2) \<Rightarrow>
                   if nm = [] then (False, s2)
                   else if fdev s2 dir \<noteq> fdev s2 f then (False, s2\<lparr>errno := E_XDEV\<rparr>)
                   else (case create_file_entry dir nm (inum (inode_pool s2 (ino_of s2 f))) s2 of (rc, s3) \<Rightarrow>
                     (let s4 = close_file (Some dir) s3 in
                      (rc, if rc then snd (write_inode (ino_of s4 f) (ino_upd (ino_of s4 f) (\<lambda>v. v\<lparr>i_inode :=
                             (i_inode v)\<lparr>nlinks := nlinks (i_inode v) + 1\<rparr>, i_dirty := True\<rparr>) s4)) else s4))))))"

definition make_directory :: "u8 list \<Rightarrow> u32 \<Rightarrow> fsys \<Rightarrow> bool \<times> fsys" where
  "make_directory name at s =
     (case create_file name (at OR ATTR_DIRECTORY) s of (None, s1) \<Rightarrow> (False, s1)
      | (Some d, s1) \<Rightarrow>
          (case find_parent name s1 of (parent, _, s2) \<Rightarrow>
             (case swap_current_dir (Some d) s2 of (old, s3) \<Rightarrow>
                (let s4 = (case parent of None \<Rightarrow> s3
                       | Some p \<Rightarrow> close_file (Some p) (snd (make_link [0x2e, 0x2e] (Some p)
                            (snd (make_link [0x2e] (current_dir s3) s3)))))
                 in (True, close_file (Some d) (snd (swap_current_dir old s4)))))))"

definition make_symlink :: "u8 list \<Rightarrow> u8 list \<Rightarrow> fsys \<Rightarrow> bool \<times> fsys" where
  "make_symlink name link s =
     (case create_file name ATTR_SYMLINK s of (None, s1) \<Rightarrow> (False, s1)
      | (Some f, s1) \<Rightarrow> (True, close_file (Some f) (snd (write_file (link @ [0]) (Some f) s1))))"

definition remove_link :: "u8 list \<Rightarrow> fsys \<Rightarrow> bool \<times> fsys" where
  "remove_link name s =
     (case find_parent name s of (None, _, s1) \<Rightarrow> (False, s1)
      | (Some dir, nm, s1) \<Rightarrow>
          if nm = [] then (False, s1)
          else (case delete_file_entry dir nm s1 of (n, s2) \<Rightarrow>
            (let (rc, s3) =
                (if n \<ge> 0
                 then (case make_inode (fdev s2 dir) (of_int n) s2 of (None, s4) \<Rightarrow> (False, s4)
                   | (Some i, s4) \<Rightarrow> (True, close_inode i (ino_upd i (\<lambda>v. v\<lparr>i_inode :=
                        (i_inode v)\<lparr>nlinks := nlinks (i_inode v) - 1\<rparr>, i_dirty := True\<rparr>) s4)))
                 else (False, s2))
             in (rc, close_file (Some dir) s3))))"

text \<open>
  \<open>remove_directory\<close> makes the directory the current one to remove its two links.  The
  old current directory is restored only when the directory could be opened.
\<close>

definition remove_directory :: "u8 list \<Rightarrow> fsys \<Rightarrow> bool \<times> fsys" where
  "remove_directory name s =
     (case find_parent name s of (None, _, s1) \<Rightarrow> (False, s1)
      | (Some parent, nm, s1) \<Rightarrow>
          if nm = [] then (False, s1)
          else (case swap_current_dir (Some parent) s1 of (old, s2) \<Rightarrow>
            (case open_file nm (F_READ OR F_ALLOW_DIR) s2 of (None, s3) \<Rightarrow> (False, close_file (Some parent) s3)
             | (Some dir, s3) \<Rightarrow>
                 (let (rc, s8) = (case directory_empty_p dir s3 of
                        (False, s4) \<Rightarrow> (False, s4\<lparr>errno := E_EXISTS\<rparr>)
                      | (True, s4) \<Rightarrow>
                          (let s5 = snd (swap_current_dir (Some dir) s4);
                               s6 = snd (remove_link [0x2e, 0x2e] (snd (remove_link [0x2e] s5)));
                               (n, s7) = delete_file_entry parent nm (snd (swap_current_dir (Some parent) s6))
                           in if n \<ge> 0
                              then (True, ino_upd (ino_of s7 dir) (\<lambda>v. v\<lparr>i_inode := (i_inode v)\<lparr>nlinks :=
                                 nlinks (i_inode v) - 1\<rparr>, i_dirty := True\<rparr>) s7)
                              else (False, s7)));
                      s9 = snd (swap_current_dir old (close_file (Some dir) s8))
                  in (rc, close_file (Some parent) s9)))))"

end
