(* ===== verification/FsModule.thy ===== *)
theory FsModule
  imports FsDir
begin

text \<open>
  fs/mkfs.c, which lays down an empty file system without the buffer cache, and the start
  and end of the module (fs/fs_mod.c).  The boot code is a parameter: it is generated by the
  build.
\<close>

unbundle bit_operations_syntax

section \<open>Dimensions of a file system\<close>

definition mkfs_super :: "u32 \<Rightarrow> u32 \<Rightarrow> super_data" where
  "mkfs_super nblocks reserved =
     (let blocks1 = nblocks - 1 - reserved;
          ninodes = round_to (blocks1 div 10) INODES_PER_BLOCK;
          ibmap = 1 + reserved;
          ino = ibmap + ninodes div BITS_PER_BLOCK + 1;
          blocks2 = blocks1 - ((ninodes div BITS_PER_BLOCK + 1) + ninodes div INODES_PER_BLOCK);
          dbmap = ino + ninodes div INODES_PER_BLOCK;
          tmp = blocks2 div BITS_PER_BLOCK + 1
      in \<lparr>total_blocks = nblocks, inode_bitmap = ibmap, inodes = ino, num_inodes = ninodes,
          data_bitmap = dbmap, data_start = dbmap + tmp, data_size = blocks2 - tmp\<rparr>)"

section \<open>Writing the areas\<close>

definition mkfs_write :: "nat \<Rightarrow> u32 \<Rightarrow> u8 list \<Rightarrow> fsys \<Rightarrow> bool \<times> fsys" where
  "mkfs_write d blk bs s = (case fs_write_blocks d blk bs s of (rc, s1) \<Rightarrow> (\<not> rc < 0, s1\<lparr>errno := rc\<rparr>))"

text \<open>
  A block of a bitmap: the first bit of the first block is taken (by the root directory or
  its block), and so are the bits from \<open>tmp\<close> on, behind the end.
\<close>

definition bitmap_blk :: "bool \<Rightarrow> nat \<Rightarrow> u8 list" where
  "bitmap_blk first tmp =
     (let bs = fold (\<lambda>k bs. set_bit_at bs k) [tmp..<8192] (replicate FS_BLKSIZ 0)
      in if first then set_bit_at bs 0 else bs)"

function mkfs_bitmap :: "nat \<Rightarrow> u32 \<Rightarrow> u32 \<Rightarrow> u32 \<Rightarrow> nat \<Rightarrow> fsys \<Rightarrow> bool \<times> u32 \<times> fsys" where
  "mkfs_bitmap d start stop block tmp s =
     (if tmp > 8192
      then (case mkfs_write d block (bitmap_blk (block = start) 8192) s of (False, s1) \<Rightarrow> (False, block, s1)
        | (True, s1) \<Rightarrow> mkfs_bitmap d start stop (block + 1) (tmp - 8192) s1)
      else if block \<noteq> stop
      then (case mkfs_write d block (bitmap_blk (block = start) tmp) s of (rc, s1) \<Rightarrow> (rc, block + 1, s1))
      else (True, block, s))"
  by pat_completeness auto
termination by (relation "measure (\<lambda>(d, start, stop, block, tmp, s). tmp)") auto

declare mkfs_bitmap.simps [simp del]

definition root_inode :: "super_data \<Rightarrow> fsys \<Rightarrow> inode" where
  "root_inode sd s = \<lparr>attr = ATTR_DIRECTORY, fsize = 64, modtime = now s, nlinks = 2,
     blocks = data_start sd # replicate 11 0\<rparr>"

lemma succ_closer:
  fixes a b :: u32 assumes "a < b" shows "unat (b - (a + 1)) < unat (b - a)"
proof -
  have "b - a \<noteq> 0" using assms by auto
  then have "unat (b - a - 1) < unat (b - a)" by (rule measure_unat)
  then show ?thesis by (simp add: diff_diff_add)
qed

function mkfs_inodes :: "nat \<Rightarrow> super_data \<Rightarrow> u32 \<Rightarrow> fsys \<Rightarrow> bool \<times> u32 \<times> fsys" where
  "mkfs_inodes d sd block s =
     (if block < data_bitmap sd
      then (let z = replicate FS_BLKSIZ 0;
                bs = (if block = inodes sd then put_bytes z 0 (inode_bytes (root_inode sd s)) else z)
            in case mkfs_write d block bs s of (False, s1) \<Rightarrow> (False, block, s1)
               | (True, s1) \<Rightarrow> mkfs_inodes d sd (block + 1) s1)
      else (True, block, s))"
  by pat_completeness auto

termination
  by (relation "measure (\<lambda>(d, sd, block, s). unat (data_bitmap sd - block))") (auto simp: succ_closer)

declare mkfs_inodes.simps [simp del]

definition root_entries :: "u8 list" where
  "root_entries = put_bytes (put_bytes (replicate FS_BLKSIZ 0) 0 [0x2e]) DIR_ENTRY_SIZE [0x2e, 0x2e]"

definition boot_block :: "u8 list \<Rightarrow> super_data \<Rightarrow> u8 list \<Rightarrow> u8 list" where
  "boot_block boot_code sd bs = put_bytes (set_long (put_bytes bs SUP_OFFSET (super_bytes sd))
      MAGIC_OFFSET FS_BOOT_MAGIC) 0 (take SUP_OFFSET boot_code)"

definition mkfs :: "u8 list \<Rightarrow> nat \<Rightarrow> u32 \<Rightarrow> u32 \<Rightarrow> fsys \<Rightarrow> bool \<times> fsys" where
  "mkfs boot_code d nblocks reserved s =
     (let sd = mkfs_super nblocks reserved in
      case mkfs_bitmap d (inode_bitmap sd) (inodes sd) (inode_bitmap sd) (unat (num_inodes sd)) s of
        (False, _, s1) \<Rightarrow> (False, s1)
      | (True, blk1, s1) \<Rightarrow>
          (case mkfs_inodes d sd blk1 s1 of (False, _, s2) \<Rightarrow> (False, s2)
           | (True, _, s2) \<Rightarrow>
               (case mkfs_bitmap d (data_bitmap sd) (data_start sd) (data_bitmap sd) (unat (data_size sd)) s2 of
                  (False, _, s3) \<Rightarrow> (False, s3)
                | (True, _, s3) \<Rightarrow>
                    (case mkfs_write d (data_start sd) root_entries s3 of (False, s4) \<Rightarrow> (False, s4)
                     | (True, s4) \<Rightarrow>
                         (let (rc, bs) = fs_read_blocks d 0 s4;
                              s5 = s4\<lparr>errno := rc\<rparr>
                          in if rc < 0 then (False, s5)
                             else mkfs_write d 0 (boot_block boot_code sd
                                    (case bs of Some b \<Rightarrow> b | None \<Rightarrow> root_entries)) s5)))))"

section \<open>The module\<close>

definition fs_init :: "u8 list \<Rightarrow> fsys \<Rightarrow> bool \<times> fsys" where
  "fs_init root_dev s =
     (True, init_files (init_inodes (init_buffers (init_devices
        (s\<lparr>root_dir := (if root_dev = [] then [COLON] else root_dev)\<rparr>)))))"

definition kill_files :: "fsys \<Rightarrow> fsys" where
  "kill_files s = s"

definition fs_kill :: "fsys \<Rightarrow> fsys" where
  "fs_kill s = kill_buffers (kill_inodes (kill_files s))"

end
