(* ===== verification/FsMkfsProps.thy ===== *)
theory FsMkfsProps
  imports FsInodeProps FsModule
begin

text \<open>
  Laying down a file system: the areas \<open>mkfs\<close> divides a disk into, what the blocks hold
  that a mount looks at, and that adding the device afterwards mounts it: super block, root
  inode and root directory.
\<close>

unbundle bit_operations_syntax

section \<open>The areas\<close>

lemma unat_round_to_16: "unat v + 15 < 2 ^ 32 \<Longrightarrow> unat (round_to v 16) = (unat v + 15) div 16 * 16" for v :: u32
  using unat_round_to[of v 4 16] by simp

lemma unat_plus: "unat a = m \<Longrightarrow> unat b = n \<Longrightarrow> m + n < 2 ^ 32 \<Longrightarrow> unat (a + b) = m + n" for a b :: u32
  by (simp add: unat_word_ariths(1))

lemma unat_minus: "unat a = m \<Longrightarrow> unat b = n \<Longrightarrow> n \<le> m \<Longrightarrow> unat (a - b) = m - n" for a b :: u32
  by (simp add: unat_sub word_le_nat_alt)

text \<open>The areas, for the lemmas below.\<close>

lemma mkfs_areas:
  assumes "unat nblocks < 2 ^ 31" "unat reserved + 40 \<le> unat nblocks"
  shows "let sd = mkfs_super nblocks reserved in
      unat (inode_bitmap sd) = 1 + unat reserved \<and> inode_bitmap sd < inodes sd \<and> inodes sd < data_bitmap sd
    \<and> data_bitmap sd < data_start sd \<and> unat (data_start sd) + unat (data_size sd) = unat nblocks \<and> 0 < data_size sd
    \<and> unat (num_inodes sd) \<le> 8192 * (unat (inodes sd) - unat (inode_bitmap sd))
    \<and> unat (num_inodes sd) = 16 * (unat (data_bitmap sd) - unat (inodes sd))
    \<and> unat (data_size sd) \<le> 8192 * (unat (data_start sd) - unat (data_bitmap sd))"
proof -
  define N where "N = unat nblocks"
  define R where "R = unat reserved"
  define B where "B = N - 1 - R"
  define I where "I = (B div 10 + 15) div 16 * 16"
  have NR: "N < 2 ^ 31" "R + 40 \<le> N" using assms by (simp_all add: N_def R_def)
  have B: "39 \<le> B" "B < 2 ^ 31" using NR by (simp_all add: B_def)
  have b1: "unat (nblocks - 1 - reserved) = B"
  proof -
    have "unat (nblocks - 1) = N - 1" using NR by (simp add: N_def unat_sub word_le_nat_alt)
    then show ?thesis using NR by (simp add: B_def R_def unat_sub word_le_nat_alt)
  qed
  have "unat ((nblocks - 1 - reserved) div 10) = B div 10" using b1 by (simp add: unat_div)
  then have ni: "unat (round_to ((nblocks - 1 - reserved) div 10) 16) = I"
    using B unat_round_to_16[of "(nblocks - 1 - reserved) div 10"] by (simp add: I_def)
  have I16: "I div 16 * 16 = I" "16 \<le> I" by (simp_all add: I_def) (use B in linarith)
  have Iu: "I \<le> B div 10 + 15" by (simp add: I_def)
  define J where "J = I div 8192 + 1"
  define K where "K = I div 16"
  define C where "C = B - (J + K)"
  define T where "T = C div 8192 + 1"
  have small: "J + K + T + 2 \<le> B" "J + K \<le> B" "T \<le> C" 
  proof -
    have "K * 16 \<le> B div 10 + 15" using Iu I16 by (simp add: K_def)
    moreover have "J * 8192 \<le> B div 10 + 15 + 8192" using Iu by (simp add: J_def)
    moreover have "T * 8192 \<le> B + 8192" by (simp add: T_def C_def)
    moreover have "B div 10 * 10 \<le> B" by simp
    ultimately show "J + K + T + 2 \<le> B" using B(1) by linarith
    then show "J + K \<le> B" "T \<le> C" by (simp_all add: C_def)
  qed
  let ?ni = "round_to ((nblocks - 1 - reserved) div 10) 16 :: u32"
  let ?b1 = "nblocks - 1 - reserved"
  have d: "unat (?ni div 8192) = I div 8192" "unat (?ni div 16) = K" using ni by (simp_all add: unat_div K_def)
  have ib: "unat (1 + reserved) = 1 + R" by (rule unat_plus) (use NR in \<open>simp_all add: R_def\<close>)
  have j: "unat (?ni div 8192 + 1) = J"
    unfolding J_def by (rule unat_plus) (use d NR B small in \<open>simp_all add: J_def\<close>)
  have io: "unat (1 + reserved + ?ni div 8192 + 1) = 1 + R + J"
    unfolding add.assoc[of "1 + reserved"] by (rule unat_plus[OF ib j]) (use small NR in \<open>simp add: B_def\<close>)
  have jk: "unat (?ni div 8192 + 1 + ?ni div 16) = J + K"
    by (rule unat_plus[OF j d(2)]) (use small B in simp)
  have c: "unat (?b1 - (?ni div 8192 + 1 + ?ni div 16)) = C"
    unfolding C_def by (rule unat_minus[OF b1 jk]) (use small in simp)
  have db: "unat (1 + reserved + ?ni div 8192 + 1 + ?ni div 16) = 1 + R + J + K"
    by (rule unat_plus[OF io d(2)]) (use small NR in \<open>simp add: B_def\<close>)
  let ?c = "?b1 - (?ni div 8192 + 1 + ?ni div 16)"
  have c8: "unat (?c div 8192) = C div 8192" using c by (simp add: unat_div)
  have t: "unat (?c div 8192 + 1) = T"
    unfolding T_def by (rule unat_plus[OF c8]) (use small B in \<open>simp_all add: T_def\<close>)
  have ds: "unat (1 + reserved + ?ni div 8192 + 1 + ?ni div 16 + (?c div 8192 + 1)) = 1 + R + J + K + T"
    by (rule unat_plus[OF db t]) (use small NR in \<open>simp add: B_def\<close>)
  have sz: "unat (?c - (?c div 8192 + 1)) = C - T" by (rule unat_minus[OF c t]) (use small in simp)
  define sd where "sd = mkfs_super nblocks reserved"
  have f: "unat (inode_bitmap sd) = 1 + R" "unat (inodes sd) = 1 + R + J" "unat (num_inodes sd) = I"
    "unat (data_bitmap sd) = 1 + R + J + K" "unat (data_start sd) = 1 + R + J + K + T" "unat (data_size sd) = C - T"
    unfolding sd_def mkfs_super_def Let_def BITS_PER_BLOCK_def INODES_PER_BLOCK_def super_data.select_convs
    using ib io ni db ds sz by (simp_all only:)
  have "I \<le> 8192 * J" by (simp add: J_def)
  moreover have "I = 16 * K" "0 < K" using I16 by (simp_all add: K_def)
  moreover have "C - T \<le> 8192 * T" by (simp add: T_def)
  moreover have "1 + R + J + K + T + (C - T) = N" "0 < C - T" using small NR by (simp_all add: C_def B_def)
  ultimately show ?thesis
    unfolding sd_def[symmetric] Let_def word_less_nat_alt f N_def[symmetric] R_def[symmetric] by (simp add: J_def T_def)
qed

text \<open>
  C16: The areas of a new file system follow each other without a gap from behind the reserved
  blocks to the end of the disk, and each is large enough: a bit for every inode and for every
  data block, a sixteenth of a block for every inode.
\<close>

theorem mkfs_layout:
  assumes "unat nblocks < 2 ^ 31" "unat reserved + 40 \<le> unat nblocks"
  shows "let sd = mkfs_super nblocks reserved in
      unat (inode_bitmap sd) = 1 + unat reserved \<and> inode_bitmap sd < inodes sd \<and> inodes sd < data_bitmap sd
    \<and> data_bitmap sd < data_start sd \<and> unat (data_start sd) + unat (data_size sd) = unat nblocks \<and> 0 < data_size sd
    \<and> unat (num_inodes sd) \<le> 8192 * (unat (inodes sd) - unat (inode_bitmap sd))
    \<and> unat (num_inodes sd) = 16 * (unat (data_bitmap sd) - unat (inodes sd))
    \<and> unat (data_size sd) \<le> 8192 * (unat (data_start sd) - unat (data_bitmap sd))"
  by (rule mkfs_areas[OF assms])

lemma mkfs_layout_witness: "data_start (mkfs_super 1440 0) < 1440"
  using mkfs_layout[of 1440 0] by (simp add: Let_def word_less_nat_alt)

section \<open>The writes of mkfs\<close>

text \<open>Every write of \<open>mkfs\<close> puts a whole block; none of them is seen to fail.\<close>

definition whole :: "nat \<Rightarrow> fsys \<Rightarrow> bool" where
  "whole d s \<longleftrightarrow> (\<forall>b. length (medium (devices s d) b) = FS_BLKSIZ)"

lemma mkfs_write_whole:
  assumes "whole d s" "length bs = FS_BLKSIZ"
  shows "\<exists>t. mkfs_write d blk bs s = (True, t) \<and> whole d t \<and> good_block (devices t d) = good_block (devices s d)
     \<and> (good_block (devices s d) blk \<longrightarrow> medium (devices t d) blk = bs)"
  using assms by (auto simp: mkfs_write_def fs_write_blocks_def dev_upd_def whole_def E_IO_def)

lemma length_bitmap_blk [simp]: "length (bitmap_blk f n) = FS_BLKSIZ"
proof -
  have "length (fold (\<lambda>k bs. set_bit_at bs k) ks bs) = length bs" for ks bs by (induction ks arbitrary: bs) simp_all
  then show ?thesis by (simp add: bitmap_blk_def Let_def)
qed

lemma mkfs_bitmap_whole:
  "whole d s \<Longrightarrow> \<exists>b t. mkfs_bitmap d start stop block tmp s = (True, b, t) \<and> whole d t \<and> good_block (devices t d) = good_block (devices s d)"
proof (induction d start stop block tmp s rule: mkfs_bitmap.induct)
  case (1 d start stop block tmp s)
  show ?case
  proof (cases "tmp > 8192")
    case True
    obtain t where t: "mkfs_write d block (bitmap_blk (block = start) 8192) s = (True, t)" "whole d t"
      "good_block (devices t d) = good_block (devices s d)" using mkfs_write_whole[OF "1.prems" length_bitmap_blk] by blast
    then show ?thesis using "1.IH"[OF True t(1)[symmetric] refl t(2)] True by (subst mkfs_bitmap.simps) simp
  next
    case False
    then show ?thesis using mkfs_write_whole[OF "1.prems" length_bitmap_blk, of block "block = start" tmp] "1.prems"
      by (subst mkfs_bitmap.simps) auto
  qed
qed

lemma root_inode_bytes [simp]: "length (inode_bytes (root_inode sd s)) = INODE_SIZE"
  by (rule length_inode_bytes) (simp add: inode_wf_def root_inode_def)

lemma mkfs_inodes_whole:
  "whole d s \<Longrightarrow> \<exists>b t. mkfs_inodes d sd block s = (True, b, t) \<and> whole d t \<and> good_block (devices t d) = good_block (devices s d)"
proof (induction d sd block s rule: mkfs_inodes.induct)
  case (1 d sd block s)
  show ?case
  proof (cases "block < data_bitmap sd")
    case True
    let ?bs = "if block = inodes sd then put_bytes (replicate FS_BLKSIZ 0) 0 (inode_bytes (root_inode sd s)) else replicate FS_BLKSIZ 0"
    have "length ?bs = FS_BLKSIZ" by (simp add: INODE_SIZE_def FS_BLKSIZ_def)
    from mkfs_write_whole[OF "1.prems" this, of block] obtain t where t: "mkfs_write d block ?bs s = (True, t)" "whole d t"
      "good_block (devices t d) = good_block (devices s d)" by blast
    show ?thesis using "1.IH"[OF True refl refl t(1)[symmetric] refl t(2)] t True by (subst mkfs_inodes.simps) (simp add: Let_def)
  next
    case False then show ?thesis using "1.prems" by (subst mkfs_inodes.simps) simp
  qed
qed

lemma super_bytes_longs: "super_bytes sd = concat (map long_bytes [total_blocks sd, inode_bitmap sd, inodes sd, num_inodes sd,
    data_bitmap sd, data_start sd, data_size sd])"
  by (simp add: super_bytes_def)

lemma boot_block_reads:
  assumes "length bs = FS_BLKSIZ"
  shows "length (boot_block code sd bs) = FS_BLKSIZ" "get_long (boot_block code sd bs) MAGIC_OFFSET = FS_BOOT_MAGIC"
    "get_super (boot_block code sd bs) = sd"
proof -
  let ?L = "[total_blocks sd, inode_bitmap sd, inodes sd, num_inodes sd, data_bitmap sd, data_start sd, data_size sd]"
  let ?c = "take SUP_OFFSET code" and ?s = "put_bytes bs SUP_OFFSET (super_bytes sd)"
  let ?m = "put_bytes ?s MAGIC_OFFSET (long_bytes FS_BOOT_MAGIC)"
  have sl: "length (super_bytes sd) = 28" by (simp add: super_bytes_longs)
  have l: "length ?s = FS_BLKSIZ" "length ?m = FS_BLKSIZ" "length ?c \<le> SUP_OFFSET"
    using assms sl by (simp_all add: SUP_OFFSET_def MAGIC_OFFSET_def FS_BLKSIZ_def)
  have b: "boot_block code sd bs = put_bytes ?m 0 ?c" by (simp add: boot_block_def set_long_def)
  show "length (boot_block code sd bs) = FS_BLKSIZ" using l by (simp add: b SUP_OFFSET_def FS_BLKSIZ_def)
  have g: "get_long (put_bytes ?m 0 ?c) o2 = get_long ?m o2" if "SUP_OFFSET \<le> o2" "o2 + 4 \<le> FS_BLKSIZ" for o2
    using that l by (intro get_long_put_other) (auto simp: FS_BLKSIZ_def SUP_OFFSET_def)
  have "get_long ?m (MAGIC_OFFSET + 4 * 0) = [FS_BOOT_MAGIC] ! 0"
    using get_long_put_longs[of MAGIC_OFFSET "[FS_BOOT_MAGIC]" ?s 0] l by (simp add: MAGIC_OFFSET_def FS_BLKSIZ_def)
  then show "get_long (boot_block code sd bs) MAGIC_OFFSET = FS_BOOT_MAGIC"
    unfolding b using g[of MAGIC_OFFSET] by (simp add: SUP_OFFSET_def MAGIC_OFFSET_def FS_BLKSIZ_def)
  have sp: "get_long (boot_block code sd bs) (SUP_OFFSET + 4 * k) = ?L ! k" if "k < 7" for k
  proof -
    have "get_long (boot_block code sd bs) (SUP_OFFSET + 4 * k) = get_long ?m (SUP_OFFSET + 4 * k)"
      unfolding b using that by (intro g) (simp_all add: SUP_OFFSET_def FS_BLKSIZ_def)
    also have "\<dots> = get_long ?s (SUP_OFFSET + 4 * k)"
      using that l by (intro get_long_put_other) (auto simp: SUP_OFFSET_def MAGIC_OFFSET_def FS_BLKSIZ_def)
    also have "\<dots> = ?L ! k"
      unfolding super_bytes_longs using that assms by (intro get_long_put_longs) (simp_all add: SUP_OFFSET_def FS_BLKSIZ_def)
    finally show ?thesis .
  qed
  show "get_super (boot_block code sd bs) = sd"
    using sp[of 0] sp[of 1] sp[of 2] sp[of 3] sp[of 4] sp[of 5] sp[of 6] by (simp add: get_super_def)
qed

section \<open>What a new file system holds\<close>

text \<open>A state that differs from \<open>s\<close> in \<open>ERRNO\<close> and in the blocks \<open>B\<close> of the medium of \<open>d\<close> only.\<close>

definition wrote :: "nat \<Rightarrow> u32 set \<Rightarrow> fsys \<Rightarrow> fsys \<Rightarrow> bool" where
  "wrote d B s t \<longleftrightarrow> (\<exists>m e. t = dev_upd d (\<lambda>v. v\<lparr>medium := m\<rparr>) (s\<lparr>errno := e\<rparr>) \<and> (\<forall>b. b \<notin> B \<longrightarrow> m b = medium (devices s d) b))"

lemma wrote_id: "wrote d B s s"
proof -
  have "s = dev_upd d (\<lambda>v. v\<lparr>medium := medium (devices s d)\<rparr>) (s\<lparr>errno := errno s\<rparr>)" by (simp add: dev_upd_def)
  then show ?thesis unfolding wrote_def by (intro exI[of _ "medium (devices s d)"] exI[of _ "errno s"]) simp
qed

lemma wrote_errno: "wrote d B s t \<Longrightarrow> wrote d B s (t\<lparr>errno := e\<rparr>)"
proof -
  assume "wrote d B s t"
  then obtain m k where m: "t = dev_upd d (\<lambda>v. v\<lparr>medium := m\<rparr>) (s\<lparr>errno := k\<rparr>)" "\<forall>b. b \<notin> B \<longrightarrow> m b = medium (devices s d) b"
    unfolding wrote_def by blast
  show ?thesis unfolding wrote_def by (intro exI[of _ m] exI[of _ e]) (use m in \<open>simp add: dev_upd_def\<close>)
qed

lemma wrote_trans: "\<lbrakk>wrote d B s t; wrote d C t u\<rbrakk> \<Longrightarrow> wrote d (B \<union> C) s u"
proof -
  assume "wrote d B s t" "wrote d C t u"
  then obtain m e n k where m: "t = dev_upd d (\<lambda>v. v\<lparr>medium := m\<rparr>) (s\<lparr>errno := e\<rparr>)" "\<forall>b. b \<notin> B \<longrightarrow> m b = medium (devices s d) b"
    and n: "u = dev_upd d (\<lambda>v. v\<lparr>medium := n\<rparr>) (t\<lparr>errno := k\<rparr>)" "\<forall>b. b \<notin> C \<longrightarrow> n b = medium (devices t d) b"
    unfolding wrote_def by blast
  have "u = dev_upd d (\<lambda>v. v\<lparr>medium := n\<rparr>) (s\<lparr>errno := k\<rparr>)" using m(1) n(1) by (simp add: dev_upd_def)
  moreover have "\<forall>b. b \<notin> B \<union> C \<longrightarrow> n b = medium (devices s d) b" using m n(2) by (simp add: dev_upd_def)
  ultimately show ?thesis unfolding wrote_def by blast
qed

lemma wrote_mono: "\<lbrakk>wrote d B s t; B \<subseteq> C\<rbrakk> \<Longrightarrow> wrote d C s t"
  by (auto simp: wrote_def)

lemma wrote_medium: "wrote d B s t \<Longrightarrow> b \<notin> B \<Longrightarrow> medium (devices t d) b = medium (devices s d) b"
  by (auto simp: wrote_def dev_upd_def)

lemma rest_medium: "rest (dev_upd d (\<lambda>v. v\<lparr>medium := m\<rparr>) (s\<lparr>errno := e\<rparr>)) = rest s" (is "rest ?t = _")
proof -
  have "(\<lambda>x. (devices ?t x)\<lparr>medium := (\<lambda>_. [])\<rparr>) = (\<lambda>x. (devices s x)\<lparr>medium := (\<lambda>_. [])\<rparr>)"
    by (auto simp: dev_upd_def)
  then show ?thesis unfolding rest_def by (simp only:) (simp add: dev_upd_def)
qed

lemma wrote_fields:
  assumes "wrote d B s t"
  shows "now t = now s" "buffer_table t = buffer_table s" "buffer_pool t = buffer_pool s" "bh_free_list t = bh_free_list s"
    "media_code (devices t e) = media_code (devices s e)" "good_block (devices t e) = good_block (devices s e)"
    "e \<noteq> d \<Longrightarrow> devices t e = devices s e" "inode_open_list t = inode_open_list s" "inode_pool t = inode_pool s"
    "inode_free_list t = inode_free_list s" "device_list t = device_list s" "rest t = rest s"
  using assms by (auto simp: wrote_def rest_medium) (simp_all add: dev_upd_def)

lemma mkfs_write_wrote: "mkfs_write d blk bs s = (r, t) \<Longrightarrow> wrote d {blk} s t"
proof -
  assume a: "mkfs_write d blk bs s = (r, t)"
  let ?m = "(medium (devices s d))(blk := bs)"
  show ?thesis
  proof (cases "good_block (devices s d) blk")
    case True
    then have "t = dev_upd d (\<lambda>v. v\<lparr>medium := ?m\<rparr>) (s\<lparr>errno := 1\<rparr>)"
      using a by (auto simp: mkfs_write_def fs_write_blocks_def dev_upd_def)
    then show ?thesis unfolding wrote_def by (intro exI[of _ ?m] exI[of _ 1]) simp
  next
    case False
    then have "t = s\<lparr>errno := E_IO\<rparr>" using a by (auto simp: mkfs_write_def fs_write_blocks_def)
    then show ?thesis using wrote_errno[OF wrote_id] by simp
  qed
qed

lemma u32_range: "unat (a :: u32) < e \<Longrightarrow> e < 2 ^ 32 \<Longrightarrow> unat (a + 1) = unat a + 1"
  by (simp add: unat_word_ariths(1))

lemma mkfs_bitmap_wrote:
  assumes "mkfs_bitmap d start stop block tmp s = (r, b, t)" "0 < tmp" "tmp \<le> 8192 * (e - unat block)" "e < 2 ^ 32"
  shows "wrote d {x. unat block \<le> unat x \<and> unat x < e} s t \<and> unat b \<le> e"
  using assms
proof (induction d start stop block tmp s rule: mkfs_bitmap.induct)
  case (1 d start stop block tmp s)
  have lt: "unat block < e" using "1.prems"(2,3) by (cases "unat block < e") auto
  note b1 = u32_range[OF lt "1.prems"(4)]
  obtain q w where w: "mkfs_write d block (bitmap_blk (block = start) (min tmp 8192)) s = (q, w)" by force
  have ww: "wrote d {x. unat block \<le> unat x \<and> unat x < e} s w"
    using mkfs_write_wrote[OF w] by (rule wrote_mono) (use lt in auto)
  show ?case
  proof (cases "tmp > 8192")
    case True
    show ?thesis
    proof (cases q)
      case False
      then show ?thesis using w True "1.prems"(1) ww lt by (auto simp: mkfs_bitmap.simps[of d start stop block tmp s] min_def)
    next
      case q: True
      then have w': "(True, w) = mkfs_write d block (bitmap_blk (block = start) 8192) s" using w True by (simp add: min_def)
      have "mkfs_bitmap d start stop (block + 1) (tmp - 8192) w = (r, b, t)"
        using "1.prems"(1) True w'[symmetric] by (simp add: mkfs_bitmap.simps[of d start stop block tmp s])
      moreover have "tmp - 8192 \<le> 8192 * (e - unat (block + 1))" using "1.prems"(3) b1 by simp
      ultimately have "wrote d {x. unat (block + 1) \<le> unat x \<and> unat x < e} w t \<and> unat b \<le> e"
        using "1.IH"[OF True w' refl] "1.prems"(4) True by simp
      then show ?thesis using wrote_trans[OF ww] wrote_mono b1 by (metis (no_types, lifting) Suc_eq_plus1 Suc_leD Un_iff mem_Collect_eq subsetI)
    qed
  next
    case False
    then have m: "min tmp 8192 = tmp" by simp
    show ?thesis
    proof (cases "block = stop")
      case True
      then have "t = s" "b = block" using "1.prems"(1)[unfolded mkfs_bitmap.simps[of d start stop block tmp s]] False by simp_all
      then show ?thesis using lt wrote_id by simp
    next
      case ne: False
      then have "t = w" "b = block + 1" using "1.prems"(1) False w m by (simp_all add: mkfs_bitmap.simps[of d start stop block tmp s])
      then show ?thesis using ww b1 lt by simp
    qed
  qed
qed

lemma mkfs_inodes_wrote:
  assumes "mkfs_inodes d sd block s = (r, b, t)"
  shows "wrote d {x. block \<le> x \<and> x < data_bitmap sd} s t"
  using assms
proof (induction d sd block s rule: mkfs_inodes.induct)
  case (1 d sd block s)
  show ?case
  proof (cases "block < data_bitmap sd")
    case False
    then have "t = s" using "1.prems" by (simp add: mkfs_inodes.simps[of d sd block s])
    then show ?thesis using wrote_id by simp
  next
    case True
    let ?bs = "if block = inodes sd then put_bytes (replicate FS_BLKSIZ 0) 0 (inode_bytes (root_inode sd s)) else replicate FS_BLKSIZ 0"
    obtain q w where w: "mkfs_write d block ?bs s = (q, w)" by force
    have ww: "wrote d {x. block \<le> x \<and> x < data_bitmap sd} s w"
      using mkfs_write_wrote[OF w] by (rule wrote_mono) (use True in auto)
    have b1: "unat (block + 1) = unat block + 1"
      using True unsigned_less[of "data_bitmap sd", where ?'a = nat] by (intro u32_range[of _ "unat (data_bitmap sd)"]) (simp_all add: word_less_nat_alt)
    show ?thesis
    proof (cases q)
      case False then show ?thesis using "1.prems" w True ww by (simp add: mkfs_inodes.simps[of d sd block s] Let_def)
    next
      case q: True
      then have "mkfs_inodes d sd (block + 1) w = (r, b, t)"
        using "1.prems" w True by (simp add: mkfs_inodes.simps[of d sd block s] Let_def)
      from "1.IH"[OF True refl refl _ refl this] w q have "wrote d {x. block + 1 \<le> x \<and> x < data_bitmap sd} w t" by simp
      then have "wrote d ({x. block \<le> x \<and> x < data_bitmap sd} \<union> {x. block + 1 \<le> x \<and> x < data_bitmap sd}) s t"
        by (rule wrote_trans[OF ww])
      then show ?thesis by (rule wrote_mono) (use b1 in \<open>auto simp: word_le_nat_alt\<close>)
    qed
  qed
qed

lemma mkfs_write_content: "\<lbrakk>mkfs_write d blk bs s = (r, t); good_block (devices s d) blk\<rbrakk> \<Longrightarrow> medium (devices t d) blk = bs"
  by (auto simp: mkfs_write_def fs_write_blocks_def dev_upd_def)

lemma mkfs_inodes_root:
  assumes "mkfs_inodes d sd block s = (True, b, t)" "block \<le> inodes sd" "inodes sd < data_bitmap sd"
    "good_block (devices s d) (inodes sd)"
  shows "medium (devices t d) (inodes sd) = put_bytes (replicate FS_BLKSIZ 0) 0 (inode_bytes (root_inode sd s))"
  using assms
proof (induction d sd block s rule: mkfs_inodes.induct)
  case (1 d sd block s)
  have lt: "block < data_bitmap sd" using "1.prems"(2,3) by simp
  let ?bs = "if block = inodes sd then put_bytes (replicate FS_BLKSIZ 0) 0 (inode_bytes (root_inode sd s)) else replicate FS_BLKSIZ 0"
  obtain q w where w: "mkfs_write d block ?bs s = (q, w)" by force
  then have q: q and rec: "mkfs_inodes d sd (block + 1) w = (True, b, t)"
    using "1.prems"(1) lt by (auto simp: mkfs_inodes.simps[of d sd block s] Let_def split: bool.splits)
  note ww = mkfs_write_wrote[OF w]
  have b1: "unat (block + 1) = unat block + 1"
    using lt unsigned_less[of "data_bitmap sd", where ?'a = nat] by (intro u32_range[of _ "unat (data_bitmap sd)"]) (simp_all add: word_less_nat_alt)
  show ?case
  proof (cases "block = inodes sd")
    case True
    have "medium (devices t d) block = medium (devices w d) block"
      using mkfs_inodes_wrote[OF rec] by (rule wrote_medium) (use b1 in \<open>simp add: word_le_nat_alt\<close>)
    then show ?thesis using mkfs_write_content[OF w] "1.prems"(4) True by simp
  next
    case False
    then have "block + 1 \<le> inodes sd" using "1.prems"(2) b1 by (simp add: word_le_nat_alt word_unat_eq_iff)
    moreover have "good_block (devices w d) (inodes sd)" using "1.prems"(4) by (simp add: wrote_fields(6)[OF ww])
    ultimately show ?thesis using "1.IH"[OF lt refl refl _ refl rec] w q "1.prems"(3) wrote_fields(1)[OF ww] by (simp add: root_inode_def)
  qed
qed

text \<open>
  The four blocks a mount looks at: the super block, the block of the first inodes, and the
  block of the root directory.
\<close>

lemma mkfs_contents:
  fixes d :: nat and s :: fsys and nblocks reserved :: u32
  defines "sd \<equiv> mkfs_super nblocks reserved"
  assumes "unat nblocks < 2 ^ 31" "unat reserved + 40 \<le> unat nblocks" "\<forall>b. length (medium (devices s d) b) = FS_BLKSIZ"
    "\<forall>b < nblocks. good_block (devices s d) b" "mkfs code d nblocks reserved s = (r, t)"
  shows "r \<and> wrote d UNIV s t \<and> get_long (medium (devices t d) 0) MAGIC_OFFSET = FS_BOOT_MAGIC \<and> get_super (medium (devices t d) 0) = sd
    \<and> medium (devices t d) (inodes sd) = put_bytes (replicate FS_BLKSIZ 0) 0 (inode_bytes (root_inode sd s))
    \<and> medium (devices t d) (data_start sd) = root_entries"
proof -
  have lay: "unat (inode_bitmap sd) = 1 + unat reserved" "unat (inode_bitmap sd) < unat (inodes sd)" "unat (inodes sd) < unat (data_bitmap sd)"
    "unat (data_bitmap sd) < unat (data_start sd)" "unat (data_start sd) + unat (data_size sd) = unat nblocks" "0 < unat (data_size sd)"
    "unat (num_inodes sd) \<le> 8192 * (unat (inodes sd) - unat (inode_bitmap sd))"
    "unat (num_inodes sd) = 16 * (unat (data_bitmap sd) - unat (inodes sd))"
    "unat (data_size sd) \<le> 8192 * (unat (data_start sd) - unat (data_bitmap sd))"
    using mkfs_areas[OF assms(2,3), unfolded Let_def, folded sd_def, unfolded word_less_nat_alt unsigned_0] by blast+
  have gd: "good_block (devices s d) b" if "unat b < unat nblocks" for b using assms(5) that by (simp add: word_less_nat_alt)
  have w: "whole d s" using assms(4) by (simp add: whole_def)
  obtain b1 s1 where s1: "mkfs_bitmap d (inode_bitmap sd) (inodes sd) (inode_bitmap sd) (unat (num_inodes sd)) s = (True, b1, s1)"
    "whole d s1" using mkfs_bitmap_whole[OF w] by blast
  obtain b2 s2 where s2: "mkfs_inodes d sd b1 s1 = (True, b2, s2)" "whole d s2" using mkfs_inodes_whole[OF s1(2)] by blast
  obtain b3 s3 where s3: "mkfs_bitmap d (data_bitmap sd) (data_start sd) (data_bitmap sd) (unat (data_size sd)) s2 = (True, b3, s3)"
    "whole d s3" using mkfs_bitmap_whole[OF s2(2)] by blast
  have rl: "length root_entries = FS_BLKSIZ" by (simp add: root_entries_def DIR_ENTRY_SIZE_def FS_BLKSIZ_def)
  obtain s4 where s4: "mkfs_write d (data_start sd) root_entries s3 = (True, s4)" "whole d s4"
    using mkfs_write_whole[OF s3(2) rl] by blast
  have w1: "wrote d {x. unat (inode_bitmap sd) \<le> unat x \<and> unat x < unat (inodes sd)} s s1 \<and> unat b1 \<le> unat (inodes sd)"
    by (rule mkfs_bitmap_wrote[OF s1(1)]) (use lay in \<open>simp_all add: unat_u32_lt\<close>)
  note w2 = mkfs_inodes_wrote[OF s2(1)]
  have w3: "wrote d {x. unat (data_bitmap sd) \<le> unat x \<and> unat x < unat (data_start sd)} s2 s3"
    using mkfs_bitmap_wrote[OF s3(1), of "unat (data_start sd)"] lay by (simp add: unat_u32_lt)
  note w4 = mkfs_write_wrote[OF s4(1)]
  have g: "good_block (devices s4 d) = good_block (devices s d)" "good_block (devices s3 d) = good_block (devices s d)"
    "good_block (devices s1 d) = good_block (devices s d)"
    using wrote_fields(6)[OF conjunct1[OF w1], of d] wrote_fields(6)[OF w2, of d] wrote_fields(6)[OF w3, of d]
      wrote_fields(6)[OF w4, of d] by simp_all
  have ri: "root_inode sd s1 = root_inode sd s" using wrote_fields(1)[OF conjunct1[OF w1]] by (simp add: root_inode_def)
  let ?m = "medium (devices s4 d) 0"
  have ml: "length ?m = FS_BLKSIZ" and w5: "whole d (s4\<lparr>errno := 1\<rparr>)" using s4(2) by (simp_all add: whole_def)
  obtain s5 where s5: "mkfs_write d 0 (boot_block code sd ?m) (s4\<lparr>errno := 1\<rparr>) = (True, s5)"
    using mkfs_write_whole[OF w5 boot_block_reads(1)[OF ml], of 0] by auto
  have g0: "good_block (devices s4 d) 0" using gd[of 0] lay by (simp add: g)
  have rt: "r" "t = s5"
    using assms(6) s1 s2 s3 s4 s5 g0 unfolding sd_def by (simp_all add: mkfs_def Let_def fs_read_blocks_def)
  note w6 = mkfs_write_wrote[OF s5]
  have all: "wrote d UNIV s t"
    using wrote_trans[OF conjunct1[OF w1] wrote_trans[OF w2 wrote_trans[OF w3 wrote_trans[OF w4 wrote_trans[OF wrote_errno[OF wrote_id] w6]]]]]
      wrote_mono unfolding rt(2) by (meson subset_UNIV)
  have m0: "medium (devices s5 d) 0 = boot_block code sd ?m" using mkfs_write_content[OF s5] g0 by simp
  have md: "medium (devices s5 d) (data_start sd) = root_entries"
  proof -
    have "data_start sd \<noteq> 0" using lay by auto
    then have "medium (devices s5 d) (data_start sd) = medium (devices s4 d) (data_start sd)" using wrote_medium[OF w6, of "data_start sd"] by simp
    also have "\<dots> = root_entries" by (rule mkfs_write_content[OF s4(1)]) (use gd[of "data_start sd"] lay in \<open>simp add: g\<close>)
    finally show ?thesis .
  qed
  have mi: "medium (devices s5 d) (inodes sd) = put_bytes (replicate FS_BLKSIZ 0) 0 (inode_bytes (root_inode sd s))"
  proof -
    have "inodes sd \<noteq> 0" "inodes sd \<noteq> data_start sd" using lay by auto
    then have "medium (devices s5 d) (inodes sd) = medium (devices s4 d) (inodes sd)"
      "medium (devices s4 d) (inodes sd) = medium (devices s3 d) (inodes sd)"
      using wrote_medium[OF w6, of "inodes sd"] wrote_medium[OF w4, of "inodes sd"] by simp_all
    moreover have "medium (devices s3 d) (inodes sd) = medium (devices s2 d) (inodes sd)"
      using w3 by (rule wrote_medium) (use lay in simp)
    moreover have "medium (devices s2 d) (inodes sd) = put_bytes (replicate FS_BLKSIZ 0) 0 (inode_bytes (root_inode sd s1))"
      by (rule mkfs_inodes_root[OF s2(1)]) (use w1 lay gd[of "inodes sd"] in \<open>simp_all add: word_le_nat_alt word_less_nat_alt g\<close>)
    ultimately show ?thesis using ri by simp
  qed
  show ?thesis using rt all m0 md mi boot_block_reads[OF ml] by simp
qed

lemma root_entries_read:
  "entry_name (take 64 root_entries) 0 = [0x2e]" "entry_inum (take 64 root_entries) 0 = 0"
  "entry_name (take 64 root_entries) 1 = [0x2e, 0x2e]" "entry_inum (take 64 root_entries) 1 = 0"
  by (simp_all add: root_entries_def put_bytes_def entry_name_def entry_inum_def DIR_ENTRY_SIZE_def FS_BLKSIZ_def
       get_long_def nth_append)

lemma root_dir_bytes:
  assumes "V (data_start sd) = Some root_entries" "data_start sd \<noteq> 0"
  shows "map (byte_at V (root_inode sd s)) [0..<64] = take 64 root_entries"
proof (rule nth_equalityI)
  have l: "length root_entries = 1024" by (simp add: root_entries_def DIR_ENTRY_SIZE_def FS_BLKSIZ_def)
  then show "length (map (byte_at V (root_inode sd s)) [0..<64]) = length (take 64 root_entries)" by simp
  fix k assume "k < length (map (byte_at V (root_inode sd s)) [0..<64])"
  then have k: "k < 64" by simp
  then have "block_at V (root_inode sd s) (of_nat (k div 1024)) = Some (data_start sd)"
    by (simp add: block_at_def block_path_def root_inode_def)
  then have "byte_at V (root_inode sd s) k = root_entries ! k" using assms k by (simp add: byte_at_def)
  then show "map (byte_at V (root_inode sd s)) [0..<64] ! k = take 64 root_entries ! k" using k l by (simp del: upt_rec_numeral)
qed

section \<open>Mounting\<close>

text \<open>
  C17: A disk that was just formatted can be mounted.  \<open>mkfs\<close> writes past the buffer cache,
  so the cache must hold no block of the device; then, whatever the disk held before, adding
  the device after \<open>mkfs\<close> finds the super block \<open>mkfs\<close> computed, makes the device valid,
  and opens inode 0 as its root: a directory of 64 bytes with two links, whose bytes, read
  through the cache, are the two entries for the directory itself and its parent, both with
  inode number 0.
\<close>

theorem mkfs_then_mount:
  assumes "unat nblocks < 2 ^ 31" "unat reserved + 40 \<le> unat nblocks"
    "\<forall>b. length (medium (devices s d) b) = FS_BLKSIZ" "\<forall>b < nblocks. good_block (devices s d) b"
    "ready d s" "clean s" "\<forall>x\<in>cached s. b_dev (buffer_pool s x) \<noteq> Some d" "\<not> is_open d 0 s" "inode_free_list s = i # is"
    "mkfs code d nblocks reserved s = (r, t)" "add_device d t = (q, u)"
  shows "r \<and> q \<and> device_list u = d # device_list s \<and> \<not> dev_invalid (devices u d)
    \<and> sup (devices u d) = mkfs_super nblocks reserved \<and> root (devices u d) = Some i
    \<and> inode_pool u i = \<lparr>i_use = 1, i_dev = d, i_inode = root_inode (mkfs_super nblocks reserved) s,
         inum = 0, i_dirty = False, i_invalid = False\<rparr>
    \<and> (let bs = map (byte_at (view u d) (i_inode (inode_pool u i))) [0..<64] in
         entry_name bs 0 = [0x2e] \<and> entry_inum bs 0 = 0 \<and> entry_name bs 1 = [0x2e, 0x2e] \<and> entry_inum bs 1 = 0)"
proof -
  define sd where "sd = mkfs_super nblocks reserved"
  have lay: "unat (inodes sd) < unat nblocks" "unat (data_start sd) < unat nblocks" "0 < unat (data_start sd)"
    using mkfs_areas[OF assms(1,2), unfolded Let_def, folded sd_def, unfolded word_less_nat_alt unsigned_0] by linarith+
  have c: r "wrote d UNIV s t" "get_long (medium (devices t d) 0) MAGIC_OFFSET = FS_BOOT_MAGIC" "get_super (medium (devices t d) 0) = sd"
    "medium (devices t d) (inodes sd) = put_bytes (replicate FS_BLKSIZ 0) 0 (inode_bytes (root_inode sd s))"
    "medium (devices t d) (data_start sd) = root_entries"
    using mkfs_contents[OF assms(1-4,10)] unfolding sd_def by blast+
  note wf = wrote_fields[OF c(2)]
  have gd: "good_block (devices t d) b" if "unat b < unat nblocks" for b
    using assms(4) that wf(6)[of d] by (simp add: word_less_nat_alt)
  have g0: "good_block (devices t d) 0" using gd[of 0] lay by simp
  \<comment> \<open>the state in which the root inode is read\<close>
  define t1 where "t1 = (dev_upd d (\<lambda>v. v\<lparr>root := None, dev_use := 1, dev_invalid := True\<rparr>) t)\<lparr>device_list := d # device_list t\<rparr>"
  define t3 where "t3 = dev_upd d (\<lambda>v. v\<lparr>dev_invalid := False\<rparr>)
    (dev_upd d (\<lambda>v. v\<lparr>sup := sd, read_only := False\<rparr>) (t1\<lparr>tmp_bb := medium (devices t d) 0, errno := 1\<rparr>))"
  have rm: "read_meta_data d t1 = (True, dev_upd d (\<lambda>v. v\<lparr>sup := sd, read_only := False\<rparr>) (t1\<lparr>tmp_bb := medium (devices t d) 0, errno := 1\<rparr>))"
    using g0 c(3,4) by (simp add: read_meta_data_def fs_read_blocks_def t1_def dev_upd_def)
  have b: "buffer_table t3 = buffer_table s" "buffer_pool t3 = buffer_pool s" "bh_free_list t3 = bh_free_list s"
    "\<And>e. media_code (devices t3 e) = media_code (devices s e)" "\<And>e. good_block (devices t3 e) = good_block (devices s e)"
    "\<And>e. e \<noteq> d \<Longrightarrow> medium (devices t3 e) = medium (devices s e)" "medium (devices t3 d) = medium (devices t d)"
    using wf by (simp_all add: t3_def t1_def dev_upd_def)
  have "medium (devices t3 e) = medium (devices s e)" if "x \<in> cached s" "b_dev (buffer_pool s x) = Some e" for x e
    using assms(7) that by (intro b(6)) auto
  note sb = same_buffers[OF b(1-5) this]
  have rd: "ready d t3" "clean t3" using sb(3,4) assms(5,6) by simp_all
  have none: "\<forall>x. \<not> holds t3 x d b" for b using assms(7) sb(2) by (auto simp: holds_def)
  have vw: "view t3 d b = Some (medium (devices t d) b)" if "unat b < unat nblocks" for b
    using view_out[OF _ none, of b] rd(1) gd[OF that] by (simp add: ready_def b wf(6))
  have op: "\<not> is_open d 0 t3" "inode_free_list t3 = i # is" "sup (devices t3 d) = sd" "\<not> dev_invalid (devices t3 d)"
    "device_list t3 = d # device_list s"
    using assms(8,9) wf by (simp_all add: t3_def t1_def dev_upd_def is_open_def)
  obtain w where w: "make_inode d 0 t3 = (Some i, w)" "view w = view t3"
    "inode_pool w i = \<lparr>i_use = 1, i_dev = d, i_inode = get_inode (medium (devices t d) (inodes sd)) 0, inum = 0, i_dirty = False, i_invalid = False\<rparr>"
    "rest w = (rest t3)\<lparr>inode_free_list := is, inode_open_list := i # inode_open_list t3, inode_pool := inode_pool w,
         devices := devices (rest (dev_upd d (\<lambda>v. v\<lparr>dev_use := dev_use v + 1\<rparr>) t3))\<rparr>"
    using make_inode_fresh[OF rd op(1,2)] vw[of "inodes sd"] lay op(3) by (auto simp: INODES_PER_BLOCK_def)
  have dw: "sup (devices w d) = sd" "\<not> dev_invalid (devices w d)" "device_list w = d # device_list s"
    using arg_cong[OF w(4), of "\<lambda>w. sup (devices w d)"] arg_cong[OF w(4), of "\<lambda>w. dev_invalid (devices w d)"]
      arg_cong[OF w(4), of device_list] op(3-5) by (simp_all add: rest_def dev_upd_def)
  have "t1 = (dev_upd d (\<lambda>v. v\<lparr>root := None, dev_use := 1, dev_invalid := True\<rparr>) t)\<lparr>device_list := d # device_list t\<rparr>"
    "dev_invalid (devices t1 d)" by (simp_all add: t1_def dev_upd_def)
  then have u: q "u = dev_upd d (\<lambda>v. v\<lparr>root := Some i\<rparr>) w"
    using assms(11) rm w(1) by (auto simp: add_device_def validate_device_def validate_device_with_def t3_def dev_upd_def)
  have vu: "view u = view w" by (rule same_view) (simp_all add: u dev_upd_def)
  have ri: "i_inode (inode_pool w i) = root_inode sd s"
    using get_put_inode[of "root_inode sd s" 0 "replicate FS_BLKSIZ 0"]
    by (simp add: w(3) c(5) inode_wf_def root_inode_def INODE_SIZE_def FS_BLKSIZ_def)
  have "view u d (data_start sd) = Some root_entries" using vw[of "data_start sd"] lay(2) by (simp add: vu w(2) c(6))
  then have bytes: "map (byte_at (view u d) (root_inode sd s)) [0..<64] = take 64 root_entries"
    using lay(3) by (intro root_dir_bytes) auto
  have iu: "inode_pool u = inode_pool w" "device_list u = device_list w" "devices u d = (devices w d)\<lparr>root := Some i\<rparr>"
    by (simp_all add: u dev_upd_def)
  have e: "inode_pool u i = \<lparr>i_use = 1, i_dev = d, i_inode = root_inode sd s, inum = 0, i_dirty = False, i_invalid = False\<rparr>"
    using w(3) ri by (simp add: iu)
  show ?thesis
    unfolding sd_def[symmetric] e core_inode.select_convs bytes Let_def
    using c(1) u(1) dw root_entries_read by (simp add: iu)
qed

lemma mkfs_then_mount_witness:
  "let t = snd (mkfs [] 0 1440 0 (blank_fs (disk_dev (\<lambda>_. replicate 1024 0) 1440)))
   in root (devices (snd (add_device 0 t)) 0) = Some 0"
proof -
  let ?s = "blank_fs (disk_dev (\<lambda>_. replicate 1024 0) 1440)"
  obtain r t where t: "mkfs [] 0 1440 0 ?s = (r, t)" by force
  obtain q u where u: "add_device 0 t = (q, u)" by force
  have s: "ready 0 ?s" "clean ?s" "cached ?s = {}" "\<not> is_open 0 0 ?s" "inode_free_list ?s = 0 # [1..<NR_INODES]"
    using blank_ready[of "disk_dev (\<lambda>_. replicate 1024 0) 1440"]
    by (simp_all add: cached_def is_open_def) (simp_all add: blank_fs_def NR_INODES_def upt_conv_Cons)
  show ?thesis
    using mkfs_then_mount[of 1440 0 ?s 0 0 "[1..<NR_INODES]" "[]" r t q u] s t u by (simp add: FS_BLKSIZ_def)
qed

end
