(* ===== verification/FsErrorProps.thy ===== *)
theory FsErrorProps
  imports FsMkfsProps
begin

text \<open>
  What goes wrong: transfer errors, which no caller sees because the drivers return positive
  codes, and directories of more than one block, which are read into a buffer of one block.
\<close>

unbundle bit_operations_syntax

text \<open>
  C33: Transfer errors are not noticed.  Reading a block that the drive cannot read returns a
  buffer all the same, with whatever its last user left in it and not marked invalid; writing
  a block that the drive cannot write reports success and leaves the buffer clean, so the data
  is dropped when the buffer is used again.
\<close>

theorem transfer_errors_unnoticed:
  assumes "cache_ok s" "fixed_medium s d" "\<not> good_block (devices s d) blk" "\<forall>y. \<not> holds s y d blk" "bh_free_list s = x # xs"
  shows "(\<exists>t. bread d blk s = (Some x, t) \<and> b_data (buffer_pool t x) = b_data (buffer_pool s x) \<and> \<not> b_invalid (buffer_pool t x))
    \<and> fst (bwrite d blk bs s) \<and> (clean s \<longrightarrow> clean (snd (bwrite d blk bs s)))"
proof -
  have "find_buffer d blk s = None" using assms(1,4) by (simp add: find_buffer_none)
  then have "find_buffer d blk (s\<lparr>total_accessed := total_accessed s + 1\<rparr>) = None" by (simp add: find_buffer_def)
  then have r: "\<exists>t. bread d blk s = (Some x, t) \<and> b_data (buffer_pool t x) = b_data (buffer_pool s x) \<and> \<not> b_invalid (buffer_pool t x)"
    using assms(2,3,5)
    by (simp add: bread_def bread_with_def Let_def take_free_buffer_def fs_read_blocks_def E_IO_def chain_buffer_def buf_upd_def)
  have "avail s" using assms(5) by (simp add: avail_def)
  moreover obtain q t where "bwrite d blk bs s = (q, t)" by force
  ultimately show ?thesis using r bwrite_law[OF assms(1,2), of blk bs q t] by (auto simp: clean_def)
qed

lemma transfer_errors_unnoticed_witness: "fst (bwrite 0 77 [1] (blank_fs (disk_dev (\<lambda>_. [0]) 10)))"
proof -
  let ?s = "blank_fs (disk_dev (\<lambda>_. [0]) 10)"
  have "ready 0 ?s" using blank_ready by simp
  moreover have "bh_free_list ?s = 0 # [1..<NR_BUFFERS]" by (simp add: blank_fs_def NR_BUFFERS_def upt_conv_Cons)
  moreover have "\<forall>y. \<not> holds ?s y 0 77" by (simp add: holds_def cached_def blank_fs_def)
  ultimately show ?thesis
    using transfer_errors_unnoticed[of ?s 0 77 0 "[1..<NR_BUFFERS]" "[1]"] by (simp add: ready_def)
qed

section \<open>Long directories\<close>

lemma length_put_bytes_0: "length (put_bytes dst 0 src) = max (length dst) (length src)"
  by (simp add: put_bytes_def)

text \<open>One read of the whole of a directory into \<open>tmp_dir_blk\<close>.\<close>

lemma read_dir_blk_spec:
  assumes "ready (fdev s f) s" "clean s" "\<not> file_invalid s f" "readable (view s (fdev s f)) (file_inode s f)"
    "test_mask (f_mode (file_pool s f)) F_READ" "f_pos (file_pool s f) = 0"
    "read_dir_blk f (fsize (file_inode s f)) s = (n, t)"
  shows "n = int (unat (fsize (file_inode s f))) \<and> fdev t f = fdev s f \<and> ready (fdev s f) t \<and> clean t
    \<and> length (tmp_dir_blk t) = max (length (tmp_dir_blk s)) (unat (fsize (file_inode s f)))
    \<and> (overrun t \<longleftrightarrow> overrun s \<or> unat (fsize (file_inode s f)) > FS_BLKSIZ)"
proof -
  let ?sz = "fsize (file_inode s f)"
  have sz: "unat ?sz < 2 ^ 31" using assms(4) by (simp add: readable_def)
  then have mx: "smax ?sz 1024 = max ?sz 1024" by (simp add: smax_small)
  have fm: "test_media (fdev s f) s = (True, s)" using assms(1) by (simp add: ready_def)
  obtain r bs u where rf: "read_file (max ?sz 1024) (Some f) s = (r, bs, u)" by (metis prod_cases3)
  then have rl: "file_read_loop f (max ?sz 1024) 0 [] s = (r, bs, u)" using assms(3,5) fm by (simp add: read_file_def)
  have lim: "unat (max ?sz 1024) < 2 ^ 31" using sz by (simp add: max_def)
  have "unat ?sz \<le> unat (max ?sz 1024)" by (simp add: max_def word_le_nat_alt)
  then have mn: "min (unat (max ?sz 1024)) (unat ?sz - unat (0 :: u32)) = unat ?sz" by simp
  obtain p where p: "unat p = unat ?sz" "r = int (unat ?sz)" "length bs = unat ?sz" "rest u = at_pos f p (rest s)"
    "ready (fdev s f) u" "clean u"
    using file_read_loop_spec[OF assms(1-4) rl lim] unfolding assms(6) mn by auto
  have du: "tmp_dir_blk u = tmp_dir_blk s" "overrun u = overrun s" "fdev u f = fdev s f"
    using arg_cong[OF p(4), of tmp_dir_blk] arg_cong[OF p(4), of overrun] arg_cong[OF p(4), of "\<lambda>w. fdev w f"]
    by (simp_all add: rest_def file_upd_def)
  define v where "v = u\<lparr>tmp_dir_blk := put_bytes (tmp_dir_blk u) 0 bs\<rparr>"
  have t: "n = r" "t = note_overrun (length bs > FS_BLKSIZ) v" using assms(7) rf mx by (simp_all add: read_dir_blk_def v_def)
  have b: "buffer_table t = buffer_table u" "buffer_pool t = buffer_pool u" "bh_free_list t = bh_free_list u"
    "devices t = devices u" by (simp_all add: t v_def note_overrun_def)
  have "ready (fdev s f) t" "clean t" using p(5,6) same_buffers(3,4)[OF b(1-3)] b(4) by simp_all
  then show ?thesis using p(1-3) du by (auto simp: t v_def note_overrun_def length_put_bytes_0)
qed

lemma rewind:
  assumes "ready (fdev s f) s" "\<not> file_invalid s f" shows "seek_file (Some f) 0 SEEK_ABS s = (0, at_pos f 0 s)"
  using assms by (simp add: seek_file_def ready_def SEEK_ABS_def SEEK_EOF_def)

text \<open>
  C36: Looking up any name in a directory that can be read overruns \<open>tmp_dir_blk\<close> exactly
  when the directory is longer than one block, that is from the thirty-third entry on: the
  first read asks for the whole of the directory, not for one block, and the bytes that do
  not fit are written behind the buffer.  So \<open>find_file_entry\<close> leaves its array whether or
  not the name exists.
\<close>

theorem lookup_overruns_buffer:
  assumes "ready (fdev s f) s" "clean s" "\<not> file_invalid s f" "readable (view s (fdev s f)) (file_inode s f)"
    "test_mask (f_mode (file_pool s f)) F_READ" "f_is_dir s f" "length (tmp_dir_blk s) = FS_BLKSIZ"
    "find_file_entry f name s = (r, t)"
  shows "length (tmp_dir_blk t) = max FS_BLKSIZ (unat (fsize (file_inode s f)))
    \<and> (overrun t \<longleftrightarrow> overrun s \<or> unat (fsize (file_inode s f)) > FS_BLKSIZ)"
proof -
  let ?sz = "fsize (file_inode s f)" and ?s = "at_pos f 0 s"
  define body where "body = (\<lambda>tmp (_::unit) (s::fsys). (find_entry name tmp (tmp_dir_blk s), (), s))"
  have same: "ino_of ?s f = ino_of s f" "fdev ?s f = fdev s f" "file_inode ?s f = file_inode s f" "file_invalid ?s f = file_invalid s f"
    "f_pos (file_pool ?s f) = 0" "f_mode (file_pool ?s f) = f_mode (file_pool s f)" "tmp_dir_blk ?s = tmp_dir_blk s" "overrun ?s = overrun s"
    by (simp_all add: file_upd_def)
  have sc: "scan_entries body f () s = scan_dir (Suc (Suc (unat ?sz))) body f ?sz () ?s"
    using rewind[OF assms(1,3)] by (simp add: scan_entries_def Let_def del: scan_dir.simps)
  have ff: "(r, t) = (case scan_dir (Suc (Suc (unat ?sz))) body f ?sz () ?s of
      (ReadError _, s1) \<Rightarrow> (None, s1)
    | (Found k, s1) \<Rightarrow> make_inode (fdev s1 f) (entry_inum (tmp_dir_blk s1) k) s1
    | (AtEnd _, s1) \<Rightarrow> (None, s1\<lparr>errno := E_NOEXIST\<rparr>))"
    using assms(6,8) sc by (simp add: find_file_entry_def body_def)
  show ?thesis
  proof (cases "?sz = 0")
    case True
    then show ?thesis using ff assms(7) same by simp
  next
    case False
    obtain n u where u: "read_dir_blk f ?sz ?s = (n, u)" by force
    have "n = int (unat ?sz) \<and> fdev u f = fdev s f \<and> ready (fdev s f) u \<and> clean u
        \<and> length (tmp_dir_blk u) = max FS_BLKSIZ (unat ?sz) \<and> (overrun u \<longleftrightarrow> overrun s \<or> unat ?sz > FS_BLKSIZ)"
      using read_dir_blk_spec[of ?s f n u] u assms(1-5,7) unfolding same at_pos_frame by simp
    then have p: "n = int (unat ?sz)" "fdev u f = fdev s f" "ready (fdev s f) u" "clean u"
      "length (tmp_dir_blk u) = max FS_BLKSIZ (unat ?sz)" "overrun u \<longleftrightarrow> overrun s \<or> unat ?sz > FS_BLKSIZ" by blast+
    have z: "?sz - of_int n = 0" by (simp add: p(1))
    show ?thesis
    proof (cases "find_entry name n (tmp_dir_blk u)")
      case None
      then have "t = u\<lparr>errno := E_NOEXIST\<rparr>" using ff False u z p(1) by (simp add: body_def)
      then show ?thesis using p by simp
    next
      case (Some k)
      then have "make_inode (fdev u f) (entry_inum (tmp_dir_blk u) k) u = (r, t)" using ff False u p(1) by (simp add: body_def)
      then show ?thesis using make_inode_keeps p by metis
    qed
  qed
qed

lemma lookup_overruns_buffer_witness:
  "overrun (snd (find_file_entry 0 [0x61] (ino_upd 0 (\<lambda>v. v\<lparr>i_inode := sparse_inode\<lparr>attr := ATTR_DIRECTORY\<rparr>\<rparr>)
     (sparse_fs\<lparr>tmp_dir_blk := replicate 1024 0\<rparr>))))"
proof -
  let ?t = "sparse_fs\<lparr>tmp_dir_blk := replicate 1024 0\<rparr>"
  let ?ino = "sparse_inode\<lparr>attr := ATTR_DIRECTORY\<rparr>"
  let ?s = "ino_upd 0 (\<lambda>v. v\<lparr>i_inode := ?ino\<rparr>) ?t"
  have f: "buffer_table ?t = buffer_table sparse_fs" "buffer_pool ?t = buffer_pool sparse_fs"
    "bh_free_list ?t = bh_free_list sparse_fs" "devices ?t = devices sparse_fs" by simp_all
  have rt: "ready 0 ?s" "clean ?s" "view ?s = view sparse_fs"
    using sparse_fs(1,2) same_buffers(3,4)[OF f(1-3)] same_view[OF f(1,2)] f(4) by (simp_all add: ino_upd_frame)
  have fi: "ino_of ?s 0 = 0" "file_inode ?s 0 = ?ino" "fdev ?s 0 = 0" "\<not> file_invalid ?s 0"
    "f_mode (file_pool ?s 0) = F_READ" "tmp_dir_blk ?s = replicate 1024 0"
    by (simp_all add: ino_upd_def) (simp_all add: sparse_fs_def)
  have "readable (view sparse_fs 0) ?ino"
    using sparse_fs(4) by (simp add: readable_def block_at_def cong: option.case_cong)
  moreover have "fsize ?ino = 2100" by (simp add: sparse_inode_def)
  moreover obtain r u where "find_file_entry 0 [0x61] ?s = (r, u)" by force
  ultimately show ?thesis
    using lookup_overruns_buffer[of ?s 0 "[0x61]" r u] rt fi
    by (simp add: F_READ_def FS_BLKSIZ_def ATTR_DIRECTORY_def)
qed

end
