(* ===== verification/FsWriteProps.thy ===== *)
theory FsWriteProps
  imports FsInodeProps
begin

text \<open>
  Writing over the blocks a file has.  The data blocks of the file must be its own: no block
  twice, none of them also a pointer block on the way to another.
\<close>

unbundle bit_operations_syntax

section \<open>Files that own their blocks\<close>

fun visited :: "blocks_view \<Rightarrow> u32 \<Rightarrow> u32 list \<Rightarrow> u32 set" where
  "visited V b [] = {}"
| "visited V b (k # ks) =
     (if b = 0 then {} else insert b (case V b of None \<Rightarrow> {} | Some bs \<Rightarrow> visited V (get_long bs (4 * unat k)) ks))"

definition pointers_to :: "blocks_view \<Rightarrow> inode \<Rightarrow> u32 \<Rightarrow> u32 set" where
  "pointers_to V ino blk = (case block_path blk of None \<Rightarrow> {} | Some (k, ks) \<Rightarrow> visited V (blocks ino ! k) ks)"

definition blocks_of :: "inode \<Rightarrow> nat set" where
  "blocks_of ino = {k. k * 1024 < unat (fsize ino)}"

definition dense :: "blocks_view \<Rightarrow> inode \<Rightarrow> bool" where
  "dense V ino \<longleftrightarrow> unat (fsize ino) < 2 ^ 31 \<and>
     (\<forall>k\<in>blocks_of ino. \<exists>b c. block_at V ino (of_nat k) = Some b \<and> b \<noteq> 0 \<and> V b = Some c \<and> length c = FS_BLKSIZ) \<and>
     (\<forall>k\<in>blocks_of ino. \<forall>j\<in>blocks_of ino. block_at V ino (of_nat j) = block_at V ino (of_nat k) \<longrightarrow> j = k) \<and>
     (\<forall>k\<in>blocks_of ino. \<forall>j\<in>blocks_of ino. the (block_at V ino (of_nat k)) \<notin> pointers_to V ino (of_nat j))"

lemma chase_frame:
  assumes "b \<notin> visited V a ks"
  shows "chase (V(b := x)) a ks = chase V a ks" "visited (V(b := x)) a ks = visited V a ks"
  using assms by (induction V a ks rule: chase.induct) (auto split: option.splits if_splits)

lemma block_at_frame:
  assumes "b \<notin> pointers_to V ino blk"
  shows "block_at (V(b := x)) ino blk = block_at V ino blk" "pointers_to (V(b := x)) ino blk = pointers_to V ino blk"
  using assms chase_frame[of b V] by (auto simp: block_at_def pointers_to_def split: option.splits)

lemma block_at_cong: "blocks i = blocks j \<Longrightarrow> block_at V i = block_at V j"
  by (intro ext) (simp add: block_at_def cong: option.case_cong)

lemma byte_at_cong: "blocks i = blocks j \<Longrightarrow> byte_at V i = byte_at V j"
  using block_at_cong[of i j V] by (simp add: byte_at_def fun_eq_iff)

text \<open>A data block that gets new contents leaves the file dense and its block map alone.\<close>

lemma dense_update:
  assumes "dense V ino" "k \<in> blocks_of ino" "block_at V ino (of_nat k) = Some b" "length x = FS_BLKSIZ"
  shows "dense (V(b \<mapsto> x)) ino" "\<And>j. j \<in> blocks_of ino \<Longrightarrow> block_at (V(b \<mapsto> x)) ino (of_nat j) = block_at V ino (of_nat j)"
proof -
  have np: "b \<notin> pointers_to V ino (of_nat j)" if "j \<in> blocks_of ino" for j
    using assms(1-3) that unfolding dense_def by (metis option.sel)
  note fr = block_at_frame[OF np]
  show bf: "\<And>j. j \<in> blocks_of ino \<Longrightarrow> block_at (V(b \<mapsto> x)) ino (of_nat j) = block_at V ino (of_nat j)" by (rule fr(1))
  show "dense (V(b \<mapsto> x)) ino"
    unfolding dense_def
  proof (intro conjI ballI impI)
    show "unat (fsize ino) < 2 ^ 31" using assms(1) by (simp add: dense_def)
    fix i assume i: "i \<in> blocks_of ino"
    obtain a c where "block_at V ino (of_nat i) = Some a" "a \<noteq> 0" "V a = Some c" "length c = FS_BLKSIZ"
      using assms(1) i unfolding dense_def by blast
    then show "\<exists>b' c. block_at (V(b \<mapsto> x)) ino (of_nat i) = Some b' \<and> b' \<noteq> 0 \<and> (V(b \<mapsto> x)) b' = Some c \<and> length c = FS_BLKSIZ"
      using fr(1)[OF i] assms(4) by auto
    fix j assume j: "j \<in> blocks_of ino"
    show "j = i" if "block_at (V(b \<mapsto> x)) ino (of_nat j) = block_at (V(b \<mapsto> x)) ino (of_nat i)"
      using that fr(1)[OF i] fr(1)[OF j] assms(1) i j unfolding dense_def by metis
    show "the (block_at (V(b \<mapsto> x)) ino (of_nat i)) \<notin> pointers_to (V(b \<mapsto> x)) ino (of_nat j)"
      using fr(1)[OF i] fr(2)[OF j] assms(1) i j unfolding dense_def by metis
  qed
qed

lemma byte_at_update:
  assumes "dense V ino" "p < unat (fsize ino)" "q < unat (fsize ino)" "block_at V ino (of_nat (p div 1024)) = Some b"
    "V b = Some c" "length c = FS_BLKSIZ" "p mod 1024 + length bs \<le> 1024"
  shows "byte_at (V(b \<mapsto> put_bytes c (p mod 1024) bs)) ino q =
    (if p \<le> q \<and> q < p + length bs then bs ! (q - p) else byte_at V ino q)"
proof -
  let ?x = "put_bytes c (p mod 1024) bs"
  have P: "p div 1024 \<in> blocks_of ino" "q div 1024 \<in> blocks_of ino"
    using assms(2,3) by (simp_all add: blocks_of_def)
  have lx: "length ?x = FS_BLKSIZ" using assms(6,7) by (simp add: FS_BLKSIZ_def)
  note u = dense_update[OF assms(1) P(1) assms(4) lx]
  obtain a e where a: "block_at V ino (of_nat (q div 1024)) = Some a" "a \<noteq> 0" "V a = Some e"
    using assms(1) P(2) unfolding dense_def by blast
  have b0: "b \<noteq> 0" using assms(1,4) P(1) unfolding dense_def by fastforce
  have ba: "byte_at (V(b \<mapsto> ?x)) ino q = (if a = b then ?x else e) ! (q mod 1024)" "byte_at V ino q = e ! (q mod 1024)"
    using u(2)[OF P(2)] a by (auto simp: byte_at_def)
  show ?thesis
  proof (cases "q div 1024 = p div 1024")
    case True
    then have ab: "a = b" "e = c" using a assms(4,5) by auto
    have m: "q mod 1024 < 1024" by simp
    have "p \<le> q \<longleftrightarrow> p mod 1024 \<le> q mod 1024" "q - p = q mod 1024 - p mod 1024"
      "q < p + length bs \<longleftrightarrow> q mod 1024 < p mod 1024 + length bs"
      using True div_mult_mod_eq[of p 1024] div_mult_mod_eq[of q 1024] by linarith+
    then show ?thesis using ba ab assms(6,7) m by (simp add: nth_put_bytes FS_BLKSIZ_def)
  next
    case False
    have "a \<noteq> b"
    proof
      assume "a = b"
      then have "block_at V ino (of_nat (q div 1024)) = block_at V ino (of_nat (p div 1024))" using a assms(4) by simp
      then show False using assms(1) P False unfolding dense_def by metis
    qed
    moreover have "\<not> (p \<le> q \<and> q < p + length bs)"
    proof
      assume h: "p \<le> q \<and> q < p + length bs"
      then have "p mod 1024 + (q - p) < 1024" using assms(7) by linarith
      from same_block(1)[OF this] show False using False h by simp
    qed
    ultimately show ?thesis using ba by auto
  qed
qed

section \<open>Writing\<close>

text \<open>One piece of the data: a whole block or a part of one.\<close>

lemma write_chunk_spec:
  assumes rd: "ready d s" "clean s" and d: "dev_of s i = d" and val: "\<not> i_invalid (inode_pool s i)"
    and b: "block_at (view s d) (i_inode (inode_pool s i)) (pos div 1024) = Some b" "b \<noteq> 0" "view s d b = Some c" "length c = FS_BLKSIZ"
    and l: "unat (pos mod 1024) + length bs \<le> FS_BLKSIZ"
  shows "\<exists>t. write_chunk i pos bs s = (True, t) \<and> ready d t \<and> clean t \<and> rest t = rest s
     \<and> view t = (view s)(d := (view s d)(b \<mapsto> put_bytes c (unat (pos mod 1024)) bs))"
proof -
  obtain b' w where g: "get_data_blkno i (pos div 1024) True s = (b', w)" by force
  have "blkno_result d s b (get_data_blkno i (pos div 1024) True s)"
    by (rule get_data_blkno_finds[OF rd d val b(1)]) (rule b(2))
  then have q: "b' = b" "quiet d s w" using g by (simp_all add: blkno_result_def)
  then have w: "ready d w" "clean w" "view w = view s" "rest w = rest s" by (simp_all add: quiet_def)
  have dw: "dev_of w i = d" using quiet_dev[OF q(2)] d by simp
  have gb: "good_block (devices w d) b" using b(3) w(3) by (simp add: view_def split: if_splits)
      (metis option.distinct(1) view_bad view_def b(3) w(3))
  show ?thesis
  proof (cases "length bs = FS_BLKSIZ")
    case True
    have off: "unat (pos mod 1024) = 0" using l True by simp
    obtain r t where t: "bwrite d b bs w = (r, t)" by force
    have bl: "r" "cache_ok t" "view t = view_upd w d b bs" "rest t = rest w" "avail t" "clean w \<longrightarrow> clean t"
      using bwrite_law[OF _ _ _ t] w(1) by (auto simp: ready_def clean_def)
    have "fixed_medium t d" using w(1) rest_dev(1)[OF bl(4), of d] by (simp add: ready_def fixed_medium_def)
    moreover have "put_bytes c 0 bs = bs" using True b(4) by (simp add: put_bytes_def)
    ultimately show ?thesis using True g q b(2) dw t bl w gb off by (simp add: write_chunk_def ready_def view_upd_def)
  next
    case False
    obtain x u where u: "bread d b w = (Some x, u)" using bread_ready[OF w(1)] by blast
    have dat: "b_data (buffer_pool u x) = c" using fs.get_content[OF w(1) u] b(3) w(3) by simp
    note e = held_edit[OF w(1) u refl, of False "\<lambda>c. put_bytes c (unat (pos mod 1024)) bs"]
    have no: "note_overrun (unat (pos mod 1024) + length bs > FS_BLKSIZ) u = u" using l by simp
    show ?thesis using e False g q b(2) dw u w gb dat by (simp add: write_chunk_def get_data_block_def view_upd_def no)
  qed
qed

text \<open>Two pieces written one behind the other.\<close>

lemma patch_twice:
  fixes p q z :: nat
  assumes "n \<le> length bs" "q < z"
    "\<forall>q<z. g q = (if p \<le> q \<and> q < p + n then take n bs ! (q - p) else f q)"
    "\<forall>q<z. h q = (if p + n \<le> q \<and> q < p + n + length (drop n bs) then drop n bs ! (q - (p + n)) else g q)"
  shows "h q = (if p \<le> q \<and> q < p + length bs then bs ! (q - p) else f q)"
proof -
  have "drop n bs ! (q - (p + n)) = bs ! (q - p)" if "p + n \<le> q" using that assms(1) by simp
  then show ?thesis using assms by auto
qed

lemma chunk_bounds:
  fixes n l m p z :: nat
  assumes "n = min l (1024 - m)" "m < 1024" "0 < l" "p + l \<le> z"
  shows "0 < n" "n \<le> l" "m + n \<le> 1024" "p < z" "p + n + (l - n) \<le> z" "p + n \<le> z"
  using assms by (auto simp: min_def split: if_splits)

lemma file_write_loop_spec:
  assumes "ready (fdev s f) s" "clean s" "\<not> file_invalid s f" "dense (view s (fdev s f)) (file_inode s f)"
    "unat (f_pos (file_pool s f)) + length bs \<le> unat (fsize (file_inode s f))" "file_write_loop f bs act s = (r, t)"
  shows "\<exists>p V. r = act + int (length bs) \<and> unat p = unat (f_pos (file_pool s f)) + length bs
    \<and> ready (fdev s f) t \<and> clean t \<and> view t = (view s)(fdev s f := V) \<and> rest t = at_pos f p (rest s)
    \<and> dense V (file_inode s f)
    \<and> (\<forall>q<unat (fsize (file_inode s f)). byte_at V (file_inode s f) q =
         (if unat (f_pos (file_pool s f)) \<le> q \<and> q < unat (f_pos (file_pool s f)) + length bs
          then bs ! (q - unat (f_pos (file_pool s f))) else byte_at (view s (fdev s f)) (file_inode s f) q))"
  using assms
proof (induction "length bs" arbitrary: bs act s rule: less_induct)
  case less
  let ?d = "fdev s f" and ?ino = "file_inode s f" and ?pos = "f_pos (file_pool s f)"
  let ?V = "view s ?d" and ?sz = "fsize (file_inode s f)"
  show ?case
  proof (cases "bs = []")
    case True
    have e: "(r, t) = (act, s)" using less.prems(6)[unfolded file_write_loop.simps[of f bs act s] if_P[OF True]] by simp
    have "at_pos f ?pos (rest s) = rest s" by (simp add: file_upd_def rest_def)
    then show ?thesis using e True less.prems(1,2,4) by (intro exI[of _ ?pos] exI[of _ ?V]) auto
  next
    case False
    define n where "n = this_write (length bs) ?pos"
    have sz: "unat ?sz < 2 ^ 31" using less.prems(4) by (simp add: dense_def)
    have um: "unat (?pos mod 1024) = unat ?pos mod 1024" by (simp add: unat_mod)
    have "length bs < 2 ^ 31" using less.prems(5) sz by linarith
    then have "n = min (length bs) (1024 - unat ?pos mod 1024)" by (simp add: n_def this_write_def um FS_BLKSIZ_def)
    note nb = chunk_bounds[OF this _ _ less.prems(5)]
    have lt: "unat ?pos mod 1024 < 1024" "0 < length bs" using False by simp_all
    note n1 = nb[OF lt]
    have k: "unat ?pos div 1024 \<in> blocks_of ?ino" using n1(4) by (simp add: blocks_of_def)
    have kb: "?pos div 1024 = of_nat (unat ?pos div 1024)" by (simp add: word_arith_nat_div)
    obtain b c where b: "block_at ?V ?ino (of_nat (unat ?pos div 1024)) = Some b" "b \<noteq> 0" "?V b = Some c" "length c = FS_BLKSIZ"
      using less.prems(4) k unfolding dense_def by blast
    have lc: "length (take n bs) = n" using n1(2) by simp
    have le: "unat (?pos mod 1024) + length (take n bs) \<le> FS_BLKSIZ" using n1(3) um lc by (simp add: FS_BLKSIZ_def)
    have b': "block_at ?V (i_inode (inode_pool s (ino_of s f))) (?pos div 1024) = Some b" using b(1) kb by simp
    define V1 where "V1 = ?V(b \<mapsto> put_bytes c (unat ?pos mod 1024) (take n bs))"
    obtain w where w: "write_chunk (ino_of s f) ?pos (take n bs) s = (True, w)" "ready ?d w" "clean w" "rest w = rest s"
        "view w = (view s)(?d := V1)"
      using write_chunk_spec[OF less.prems(1,2) refl less.prems(3) b' b(2-4) le] um by (auto simp: V1_def)
    define v where "v = at_pos f (?pos + of_nat n) w"
    have fu: "inode_pool w = inode_pool s" "file_pool w = file_pool s" using rest_fields[OF w(4)] by simp_all
    have nn: "unat (of_nat n :: u32) = n" using n1(6) sz by (intro unat_u32) simp
    have pn: "unat (?pos + of_nat n) = unat ?pos + n" using n1(6) sz nn by (simp add: unat_word_ariths(1))
    have v: "view v = (view s)(?d := V1)" "ready ?d v" "clean v" "inode_pool v = inode_pool s" "ino_of v f = ino_of s f"
      "f_pos (file_pool v f) = ?pos + of_nat n" "rest v = at_pos f (?pos + of_nat n) (rest s)"
      using w fu by (simp_all add: v_def at_pos_frame) (simp_all add: file_upd_def)
    have rec: "file_write_loop f (drop n bs) (act + int n) v = (r, t)"
      using less.prems(6)[unfolded file_write_loop.simps[of f bs act s] if_not_P[OF False] Let_def n_def[symmetric] w(1)]
        fu file_upd_pos[of w f ?pos "of_nat n"] by (simp add: v_def)
    have lx: "length (put_bytes c (unat ?pos mod 1024) (take n bs)) = FS_BLKSIZ"
      using b(4) n1(3) lc by (simp add: FS_BLKSIZ_def)
    have dn: "dense V1 ?ino" unfolding V1_def by (rule dense_update(1)[OF less.prems(4) k b(1) lx])
    have one: "\<forall>q<unat ?sz. byte_at V1 ?ino q = (if unat ?pos \<le> q \<and> q < unat ?pos + n then take n bs ! (q - unat ?pos) else byte_at ?V ?ino q)"
      using byte_at_update[OF less.prems(4) n1(4) _ b(1,3,4), of _ "take n bs"] n1(3) unfolding V1_def lc by blast
    have "length (drop n bs) < length bs" using n1(1,2) by simp
    moreover have "unat (f_pos (file_pool v f)) + length (drop n bs) \<le> unat (fsize (file_inode v f))"
      using n1(5) pn v(4-6) by simp
    moreover have "\<not> file_invalid v f" "dense (view v (fdev v f)) (file_inode v f)" "ready (fdev v f) v"
      using v less.prems(3) dn by simp_all
    ultimately obtain p V where m: "r = act + int n + int (length (drop n bs))" "unat p = unat ?pos + n + length (drop n bs)"
        "ready ?d t" "clean t" "view t = (view v)(?d := V)" "rest t = at_pos f p (rest v)" "dense V ?ino"
        "\<forall>q<unat ?sz. byte_at V ?ino q = (if unat ?pos + n \<le> q \<and> q < unat ?pos + n + length (drop n bs)
           then drop n bs ! (q - (unat ?pos + n)) else byte_at V1 ?ino q)"
      using less.hyps[OF _ _ v(3) _ _ _ rec] v pn by auto
    have "\<forall>q<unat ?sz. byte_at V ?ino q = (if unat ?pos \<le> q \<and> q < unat ?pos + length bs then bs ! (q - unat ?pos) else byte_at ?V ?ino q)"
      using patch_twice[OF n1(2) _ one m(8)] by blast
    moreover have "at_pos f p (rest v) = at_pos f p (rest s)" by (simp add: v(7)) (simp add: file_upd_def)
    moreover have "r = act + int (length bs)" "unat p = unat ?pos + length bs" using m(1,2) n1(2) by simp_all
    moreover have "view t = (view s)(?d := V)" using m(5) v(1) by simp
    ultimately show ?thesis using m(3,4,6,7) by metis
  qed
qed

text \<open>
  C3: Writing refines the update of the file's byte string.  On a fixed medium, for an open
  handle that may write on a valid inode whose blocks are its own, a write that stays in front
  of the end takes all its bytes: afterwards the file reads the new bytes where they were
  written and the old ones everywhere else, through all levels of pointer blocks.  The
  position moves behind the data, the inode gets the time and keeps its blocks and its size,
  and no other device, inode or handle changes.
\<close>

theorem write_file_correct:
  assumes "ready (fdev s f) s" "clean s" "\<not> file_invalid s f" "dense (view s (fdev s f)) (file_inode s f)"
    "unat (f_pos (file_pool s f)) + length bs \<le> unat (fsize (file_inode s f))"
    "f_mode (file_pool s f) AND F_WRITE \<noteq> 0" "write_file bs (Some f) s = (r, t)"
  shows "\<exists>p V. r = int (length bs) \<and> unat p = unat (f_pos (file_pool s f)) + length bs
    \<and> view t = (view s)(fdev s f := V)
    \<and> (\<forall>q<unat (fsize (file_inode s f)). byte_at V (file_inode s f) q =
         (if unat (f_pos (file_pool s f)) \<le> q \<and> q < unat p
          then bs ! (q - unat (f_pos (file_pool s f))) else byte_at (view s (fdev s f)) (file_inode s f) q))
    \<and> rest t = (if bs = [] then at_pos f p (rest s)
        else ino_upd (ino_of s f) (\<lambda>v. v\<lparr>i_inode := (i_inode v)\<lparr>modtime := now s\<rparr>, i_dirty := True\<rparr>) (at_pos f p (rest s)))"
proof -
  have "test_media (fdev s f) s = (True, s)" using assms(1) by (simp add: ready_def)
  obtain a u where w: "file_write_loop f bs 0 s = (a, u)" by force
  from file_write_loop_spec[OF assms(1-5) w] obtain p V where
    l: "a = int (length bs)" "unat p = unat (f_pos (file_pool s f)) + length bs"
      "view u = (view s)(fdev s f := V)" "rest u = at_pos f p (rest s)"
      "\<forall>q<unat (fsize (file_inode s f)). byte_at V (file_inode s f) q =
         (if unat (f_pos (file_pool s f)) \<le> q \<and> q < unat (f_pos (file_pool s f)) + length bs
          then bs ! (q - unat (f_pos (file_pool s f))) else byte_at (view s (fdev s f)) (file_inode s f) q)"
    by auto
  have "write_file bs (Some f) s = (a, write_end f a u)"
    using assms(3,6) w \<open>test_media _ _ = _\<close> by (simp add: write_file_def)
  then have rt: "r = a" "t = write_end f a u" using assms(7) by simp_all
  have iu: "inode_pool u = inode_pool s" "file_pool u f = (file_pool s f)\<lparr>f_pos := p\<rparr>" "now u = now s"
    using rest_fields[of u "at_pos f p s"] l(4) by (simp_all add: at_pos_frame) (simp_all add: file_upd_def)
  have "\<not> f_pos (file_pool u f) > fsize (file_inode u f)" using l(2) assms(5) iu by (simp add: word_less_nat_alt)
  then have t: "t = (if bs = [] then u else ino_upd (ino_of s f) (\<lambda>v. v\<lparr>i_inode := (i_inode v)\<lparr>modtime := now s\<rparr>, i_dirty := True\<rparr>) u)"
    using rt l(1) iu by (simp add: write_end_def Let_def)
  have "view t = view u" by (simp add: t ino_upd_frame)
  moreover have "rest t = (if bs = [] then rest u else ino_upd (ino_of s f) (\<lambda>v. v\<lparr>i_inode := (i_inode v)\<lparr>modtime := now s\<rparr>, i_dirty := True\<rparr>) (rest u))"
    by (simp add: t) (simp add: ino_upd_def rest_def)
  ultimately show ?thesis using rt(1) l by (metis (no_types, lifting))
qed

text \<open>A file of two blocks, written across their border.\<close>

definition two_inode :: inode where
  "two_inode = \<lparr>attr = 0, fsize = 2048, modtime = 0, nlinks = 1, blocks = [5, 7, 0, 0, 0, 0, 0, 0, 0, 0, 0, 0]\<rparr>"

definition two_fs :: fsys where
  "two_fs = (blank_fs (disk_dev (\<lambda>b. replicate 1024 (ucast b)) 10))\<lparr>
     inode_pool := (\<lambda>_. \<lparr>i_use = 1, i_dev = 0, i_inode = two_inode, inum = 1, i_dirty = False, i_invalid = False\<rparr>),
     file_pool := (\<lambda>_. \<lparr>f_inode = 0, f_mode = F_WRITE, f_pos = 1022\<rparr>)\<rparr>"

lemma two_fs:
  "ready 0 two_fs" "clean two_fs" "dense (view two_fs 0) two_inode"
  "p < 2048 \<Longrightarrow> byte_at (view two_fs 0) two_inode p = (if p < 1024 then 5 else 7)"
proof -
  let ?s = "blank_fs (disk_dev (\<lambda>b. replicate 1024 (ucast b)) 10)"
  have f: "buffer_table two_fs = buffer_table ?s" "buffer_pool two_fs = buffer_pool ?s"
    "bh_free_list two_fs = bh_free_list ?s" "devices two_fs = devices ?s"
    by (simp_all add: two_fs_def)
  note c = cache_ok_cong[OF f]
  have b: "ready 0 ?s" "clean ?s" using blank_ready[of "disk_dev (\<lambda>b. replicate 1024 (ucast b)) 10"] by simp_all
  show "ready 0 two_fs" using b(1) c fixed_medium_cong[OF f(4)] by (simp add: ready_def)
  show "clean two_fs" using b(2) c(3) by (simp add: clean_def f)
  have v: "view two_fs 0 b = Some (replicate 1024 (ucast b))" if "b < 10" for b
    using that blank_view[of "disk_dev (\<lambda>b. replicate 1024 (ucast b)) 10"] by (simp add: c(2))
  have b0: "block_at V two_inode 0 = Some 5" "block_at V two_inode 1 = Some 7"
    "pointers_to V two_inode 0 = {}" "pointers_to V two_inode 1 = {}" for V
    by (simp_all add: block_at_def block_path_def pointers_to_def two_inode_def)
  have bo: "blocks_of two_inode = {0, 1}" by (auto simp: blocks_of_def two_inode_def)
  show "dense (view two_fs 0) two_inode"
    unfolding dense_def bo using b0 v[of 5] v[of 7] by (simp add: two_inode_def FS_BLKSIZ_def)
  show "byte_at (view two_fs 0) two_inode p = (if p < 1024 then 5 else 7)" if "p < 2048"
  proof (cases "p < 1024")
    case True then show ?thesis using b0 v[of 5] by (simp add: byte_at_def)
  next
    case False
    then have "p div 1024 = 1" using that by simp
    then show ?thesis using False b0 v[of 7] by (simp add: byte_at_def)
  qed
qed

lemma write_file_correct_witness:
  "\<exists>t V. write_file [1, 2, 3] (Some 0) two_fs = (3, t) \<and> view t 0 = V
     \<and> map (byte_at V two_inode) [1021, 1022, 1023, 1024, 1025] = [5, 1, 2, 3, 7]"
proof -
  have fi: "ino_of two_fs 0 = 0" "file_inode two_fs 0 = two_inode" "fdev two_fs 0 = 0" "\<not> file_invalid two_fs 0"
    "f_pos (file_pool two_fs 0) = 1022" "f_mode (file_pool two_fs 0) = F_WRITE" "fsize two_inode = 2048"
    by (simp_all add: two_fs_def two_inode_def)
  obtain r t where r: "write_file [1, 2, 3] (Some 0) two_fs = (r, t)" by force
  obtain p V where w: "r = int (length [1, 2, 3 :: u8])" "unat (p::u32) = 1022 + 3" "view t = (view two_fs)(0 := V)"
    "\<forall>q<2048. byte_at V two_inode q = (if 1022 \<le> q \<and> q < unat p then [1, 2, 3] ! (q - 1022) else byte_at (view two_fs 0) two_inode q)"
    using write_file_correct[of two_fs 0 "[1, 2, 3]" r t] two_fs(1-3) fi r by (auto simp: F_WRITE_def)
  have "map (byte_at V two_inode) [1021, 1022, 1023, 1024, 1025] = [5, 1, 2, 3, 7]"
    using w(2,4) two_fs(4) by simp
  then show ?thesis using r w(1,3) by simp
qed

end
