(* ===== verification/KernelLib.thy ===== *)
theory KernelLib
  imports Memory
begin

text \<open>
  The kernel's library: memory and string operations of vmm/string.h, number parsing of
  kernel/misc/lib.c and formatted output of kernel/misc/printf.c.  A C string is the list of
  its bytes without the final zero.
\<close>

unbundle bit_operations_syntax

type_synonym cstr = "u8 list"

section \<open>Memory\<close>

text \<open>\<open>rep movsb\<close>, upwards (\<open>cld\<close>) and downwards (\<open>std\<close>).\<close>

primrec movsb_up :: "memory \<Rightarrow> u32 \<Rightarrow> u32 \<Rightarrow> nat \<Rightarrow> memory" where
  "movsb_up m d s 0 = m"
| "movsb_up m d s (Suc n) = movsb_up (store8 m d (load8 m s)) (d + 1) (s + 1) n"

primrec movsb_down :: "memory \<Rightarrow> u32 \<Rightarrow> u32 \<Rightarrow> nat \<Rightarrow> memory" where
  "movsb_down m d s 0 = m"
| "movsb_down m d s (Suc n) = movsb_down (store8 m d (load8 m s)) (d - 1) (s - 1) n"

definition memmove :: "memory \<Rightarrow> u32 \<Rightarrow> u32 \<Rightarrow> u32 \<Rightarrow> memory" where
  "memmove m d s n =
     (if d < s then movsb_up m d s (unat n)
      else movsb_down m (n - 1 + d) (n - 1 + s) (unat n))"

text \<open>
  \<open>memcpy\<close>: \<open>n / 4\<close> longs, then a byte if \<open>n\<close> is odd, then a word if
  bit 1 of \<open>n\<close> is set.
\<close>

definition memcpy :: "memory \<Rightarrow> u32 \<Rightarrow> u32 \<Rightarrow> u32 \<Rightarrow> memory" where
  "memcpy m d s n =
     (let k = n div 4;
          m1 = memcpyl m d s (unat k); d1 = d + 4 * k; s1 = s + 4 * k;
          (m2, d2, s2) = (if bit n 0 then (store8 m1 d1 (load8 m1 s1), d1 + 1, s1 + 1) else (m1, d1, s1))
      in if bit n 1 then store16 m2 d2 (load16 m2 s2) else m2)"

primrec memset :: "memory \<Rightarrow> u32 \<Rightarrow> u8 \<Rightarrow> nat \<Rightarrow> memory" where
  "memset m a c 0 = m"
| "memset m a c (Suc n) = memset (store8 m a c) (a + 1) c n"

primrec memsetw :: "memory \<Rightarrow> u32 \<Rightarrow> u16 \<Rightarrow> nat \<Rightarrow> memory" where
  "memsetw m a w 0 = m"
| "memsetw m a w (Suc n) = memsetw (store16 m a w) (a + 2) w n"

text \<open>Storing the bytes of a string, without its final zero.\<close>

primrec store_bytes :: "memory \<Rightarrow> u32 \<Rightarrow> u8 list \<Rightarrow> memory" where
  "store_bytes m a [] = m"
| "store_bytes m a (c # cs) = store_bytes (store8 m a c) (a + 1) cs"

section \<open>Strings\<close>

definition tolower :: "u8 \<Rightarrow> u8" where
  "tolower c = (if c < 0x41 \<or> c > 0x5a then c else c + 0x20)"

text \<open>\<open>strcasecmp\<close> returns 0 on equality up to the case.\<close>

definition strcaseeq :: "cstr \<Rightarrow> cstr \<Rightarrow> bool" where
  "strcaseeq p q \<longleftrightarrow> map tolower p = map tolower q"

section \<open>Reading numbers\<close>

definition digit_of :: "u8 \<Rightarrow> u32 option" where
  "digit_of c =
     (if c \<ge> 0x30 \<and> c \<le> 0x39 then Some (ucast c - 0x30)
      else if c \<ge> 0x61 \<and> c \<le> 0x66 then Some (10 + (ucast c - 0x61))
      else if c \<ge> 0x41 \<and> c \<le> 0x46 then Some (10 + (ucast c - 0x41))
      else None)"

text \<open>
  A digit is taken whatever the base is.  The rest is where \<open>*ptr\<close> points; when the
  digits go to the end of the string the code leaves it behind the final zero.
\<close>

primrec read_digits :: "u32 \<Rightarrow> u32 \<Rightarrow> cstr \<Rightarrow> u32 \<times> cstr" where
  "read_digits base res [] = (res, [])"
| "read_digits base res (c # cs) = (case digit_of c of
      None \<Rightarrow> (res, c # cs)
    | Some d \<Rightarrow> read_digits base (res * base + d) cs)"

definition strtoul :: "cstr \<Rightarrow> u32 \<Rightarrow> u32 \<times> cstr" where
  "strtoul str base =
     (let s = dropWhile (\<lambda>c. c = 0x20 \<or> c = 9) str
      in if str = [] then (0, [])
         else case s of
           [] \<Rightarrow> read_digits (if base = 0 then 10 else base) 0 []
         | c # cs \<Rightarrow>
             if c = 0x30
             then (case cs of [] \<Rightarrow> read_digits 8 0 []
               | x # xs \<Rightarrow> if x = 0x78 \<or> x = 0x58 then read_digits 16 0 xs
                           else if x = 0x62 then read_digits 2 0 xs
                           else read_digits 8 0 (x # xs))
             else read_digits (if base = 0 then 10 else base) 0 (c # cs))"

end
