(* ===== verification/Printf.thy ===== *)
theory Printf
  imports KernelLib
begin

text \<open>
  \<open>kvsprintf\<close> of kernel/misc/printf.c.  The arguments are the longs on the stack;
  \<open>str\<close> gives the string at an address.  The result is \<open>None\<close> where the code
  reads behind the format or the arguments or writes behind the buffer of the digits.
\<close>

unbundle bit_operations_syntax

section \<open>Format specifiers\<close>

definition PF_MINUS :: nat where "PF_MINUS = 1"
definition PF_PLUS :: nat where "PF_PLUS = 2"
definition PF_SPC :: nat where "PF_SPC = 4"
definition PF_HASH :: nat where "PF_HASH = 8"
definition PF_ZERO :: nat where "PF_ZERO = 16"
definition PF_SHORT :: nat where "PF_SHORT = 32"
definition PF_LONG :: nat where "PF_LONG = 64"

definition IS_DIGIT :: "u8 \<Rightarrow> bool" where
  "IS_DIGIT c \<longleftrightarrow> c \<ge> 0x30 \<and> c \<le> 0x39"

text \<open>
  The flags seen so far, the field width and the precision (both \<open>int\<close>), the conversion
  character, the arguments that remain.
\<close>

record pf_spec =
  pf_flags :: "nat set"
  pf_width :: u32
  pf_prec :: u32

definition flag_of :: "u8 \<Rightarrow> nat option" where
  "flag_of c =
     (if c = 0x2d then Some PF_MINUS else if c = 0x2b then Some PF_PLUS
      else if c = 0x20 then Some PF_SPC else if c = 0x23 then Some PF_HASH
      else if c = 0x30 then Some PF_ZERO else if c = 0x68 then Some PF_SHORT
      else if c = 0x6c then Some PF_LONG else None)"

definition decimal :: "u32 \<Rightarrow> cstr \<Rightarrow> u32" where
  "decimal n ds = fold (\<lambda>c n. n * 10 + (ucast c - 0x30)) ds n"

text \<open>The \<open>again\<close> loop: it ends with the conversion character and the rest of the format.\<close>

function parse_spec :: "cstr \<Rightarrow> pf_spec \<Rightarrow> u32 list \<Rightarrow> (u8 \<times> pf_spec \<times> cstr \<times> u32 list) option" where
  "parse_spec [] sp args = None"
| "parse_spec (c # fmt) sp args =
     (case flag_of c of
        Some f \<Rightarrow> parse_spec fmt (sp\<lparr>pf_flags := insert f (pf_flags sp)\<rparr>) args
      | None \<Rightarrow>
          if c = 0x2a
          then (case args of [] \<Rightarrow> None | a # as \<Rightarrow> parse_spec fmt (sp\<lparr>pf_width := a\<rparr>) as)
          else if IS_DIGIT c
          then parse_spec (dropWhile IS_DIGIT fmt)
                 (sp\<lparr>pf_width := decimal (pf_width sp) (c # takeWhile IS_DIGIT fmt)\<rparr>) args
          else if c = 0x2e
          then (case fmt of
              [] \<Rightarrow> None
            | x # xs \<Rightarrow>
                if x = 0x2a
                then (case args of [] \<Rightarrow> None | a # as \<Rightarrow> parse_spec xs (sp\<lparr>pf_prec := a\<rparr>) as)
                else parse_spec (dropWhile IS_DIGIT fmt)
                       (sp\<lparr>pf_prec := decimal (pf_prec sp) (takeWhile IS_DIGIT fmt)\<rparr>) args)
          else Some (c, sp, fmt, args))"
  by pat_completeness auto
termination
  by (relation "measure (\<lambda>(fmt, sp, args). length fmt)")
     (auto simp: less_Suc_eq_le intro: le_trans[OF length_dropWhile_le])

declare parse_spec.simps(2) [simp del]

section \<open>Conversions\<close>

definition ascii :: "char list \<Rightarrow> cstr" where
  "ascii s = map (\<lambda>c. of_nat (of_char c)) s"

lemma div_radix_less: "arg \<noteq> 0 \<Longrightarrow> \<not> radix < 2 \<Longrightarrow> unat (arg div radix) < unat arg" for arg radix :: u32
  by (simp add: unat_div word_less_nat_alt unat_gt_0)

text \<open>The digits of a number as they are put into \<open>tmpbuf\<close>: the last one first.\<close>

function digits_rev :: "cstr \<Rightarrow> u32 \<Rightarrow> u32 \<Rightarrow> cstr" where
  "digits_rev digits radix arg =
     (if arg = 0 \<or> radix < 2 then []
      else digits ! unat (arg mod radix) # digits_rev digits radix (arg div radix))"
  by pat_completeness auto

termination
  by (relation "measure (\<lambda>(digits, radix, arg). unat arg)") (auto simp: div_radix_less)

declare digits_rev.simps [simp del]

definition has :: "nat \<Rightarrow> pf_spec \<Rightarrow> bool" where
  "has f sp \<longleftrightarrow> f \<in> pf_flags sp"

definition fill :: "pf_spec \<Rightarrow> u8" where
  "fill sp = (if has PF_ZERO sp then 0x30 else 0x20)"

text \<open>
  \<open>do_number\<close>: the sign, the digits, as many zeros again when the precision asks for more
  digits than there are, the padding.  \<open>len\<close> counts the prefix already written.  The
  digits are collected in \<open>tmpbuf\<close>, an array of 40 bytes on the stack: what does not fit
  is written behind it, and the result is then \<open>None\<close>.
\<close>

definition TMPBUF_SIZE :: nat where "TMPBUF_SIZE = 40"

definition do_number :: "cstr \<Rightarrow> u32 \<Rightarrow> bool \<Rightarrow> nat \<Rightarrow> pf_spec \<Rightarrow> u32 \<Rightarrow> cstr option" where
  "do_number digits radix is_signed len sp arg =
     (let (sign, v) = (if is_signed
            then if sint arg < 0 then ([0x2d], - arg)
                 else if has PF_PLUS sp then ([0x2b], arg)
                 else if has PF_SPC sp then ([0x20], arg) else ([], arg)
            else ([], arg));
          ds = (if v = 0 then [digits ! 0] else digits_rev digits radix v);
          ds' = (if sint (pf_prec sp) \<noteq> 0 \<and> int (length ds) < sint (pf_prec sp)
                 then ds @ replicate (length ds) (digits ! 0) else ds);
          n = len + length sign + length ds';
          pad = nat (sint (pf_width sp)) - n
      in if length ds' > TMPBUF_SIZE then None
         else Some (sign @ (if has PF_MINUS sp then rev ds' @ replicate pad 0x20
                            else replicate pad (fill sp) @ rev ds')))"

text \<open>
  \<open>do_string\<close>: the precision limits the string only when there is no width.
\<close>

definition do_string :: "pf_spec \<Rightarrow> cstr \<Rightarrow> cstr" where
  "do_string sp s =
     (let len = (if sint (pf_prec sp) > 0 \<and> int (length s) > sint (pf_prec sp) then nat (sint (pf_prec sp)) else length s);
          width = sint (pf_width sp); pad = nat width - len
      in if width > 0
         then if width \<le> int len then s
              else if has PF_MINUS sp then s @ replicate pad 0x20
              else replicate pad (fill sp) @ s
         else take len s)"

text \<open>
  \<open>%c\<close> with a width prints the letter c; right justified it is stored over the last byte
  of the output (\<open>buf[-1]\<close>), in front of the buffer when there is none, and the output
  does not grow.
\<close>

definition do_char :: "pf_spec \<Rightarrow> cstr \<Rightarrow> u32 \<Rightarrow> cstr option" where
  "do_char sp out arg =
     (if sint (pf_width sp) > 1
      then if has PF_MINUS sp then Some (out @ 0x63 # replicate (nat (sint (pf_width sp)) - 1) 0x20)
           else if out = [] then None else Some (butlast out @ [0x63])
      else Some (out @ [ucast arg]))"

definition convert :: "(u32 \<Rightarrow> cstr) \<Rightarrow> u8 \<Rightarrow> pf_spec \<Rightarrow> cstr \<Rightarrow> u32 \<Rightarrow> cstr option" where
  "convert str c sp out arg =
     (let num = (\<lambda>pre digits radix sg sp. map_option (\<lambda>ds. out @ pre @ ds) (do_number (ascii digits) radix sg (length pre) sp arg));
          hash = (\<lambda>pre sp. if has PF_HASH sp then ascii pre else [])
      in if c = 0x69 \<or> c = 0x64 then num [] ''0123456789'' 10 True sp
         else if c = 0x75 \<or> c = 0x5a then num [] ''0123456789'' 10 False sp
         else if c = 0x6f then num (hash ''0'' sp) ''01234567'' 8 True sp
         else if c = 0x62 then num (hash ''0b'' sp) ''01'' 2 False sp
         else if c = 0x70 then
           if arg = 0 then Some (out @ do_string sp (ascii ''(nil)''))
           else num (ascii ''0x'') ''0123456789abcdef'' 16 False (sp\<lparr>pf_flags := insert PF_HASH (pf_flags sp)\<rparr>)
         else if c = 0x78 then num (hash ''0x'' sp) ''0123456789abcdef'' 16 False sp
         else if c = 0x58 then num (hash ''0X'' sp) ''0123456789ABCDEF'' 16 False sp
         else if c = 0x63 then do_char sp out arg
         else if c = 0x73 then Some (out @ do_string sp (if arg = 0 then ascii ''(nil)'' else str arg))
         else Some out)"

section \<open>The loop over the format\<close>

lemma parse_spec_shorter: "parse_spec fmt sp args = Some r \<Longrightarrow> length (fst (snd (snd r))) < length fmt"
proof (induction fmt sp args arbitrary: r rule: parse_spec.induct)
  case (2 x fmt sp args)
  have d: "n < length (dropWhile IS_DIGIT fmt) \<Longrightarrow> n < Suc (length fmt)" for n
    using length_dropWhile_le[of IS_DIGIT fmt] by linarith
  note e = 2(6)[unfolded parse_spec.simps(2)]
  note star = 2(1) and width = 2(2) and prec_star = 2(3) and prec = 2(4) and flag = 2(5)
  show ?case
  proof (cases "flag_of x")
    case (Some f) then show ?thesis using flag[OF Some, of r] e by simp
  next
    case n: None
    consider "x = 0x2a" | "x \<noteq> 0x2a" "IS_DIGIT x" | "x \<noteq> 0x2a" "\<not> IS_DIGIT x" "x = 0x2e" | "x \<noteq> 0x2a" "\<not> IS_DIGIT x" "x \<noteq> 0x2e" by blast
    then show ?thesis
    proof cases
      case 1
      then obtain a as where a: "args = a # as" using e n by (cases args) auto
      then show ?thesis using star[OF n 1 a, of r] e n 1 by simp
    next
      case 2
      then show ?thesis using width[OF n 2, of r] e n 2 d by simp
    next
      case 3
      then obtain y ys where f: "fmt = y # ys" using e n by (cases fmt) auto
      show ?thesis
      proof (cases "y = 0x2a")
        case True
        then obtain a as where a: "args = a # as" using e n 3 f by (cases args) auto
        then show ?thesis using prec_star[OF n 3 f True a, of r] e n 3 f True by simp
      next
        case False
        then show ?thesis using prec[OF n 3 f False, of r] e n 3 f d by simp
      qed
    next
      case 4 then show ?thesis using e n by auto
    qed
  qed
qed simp

text \<open>
  \<open>%n\<close> stores the number of characters so far through a pointer; the stores are
  collected as pairs of an address and a number.
\<close>

function kvsprintf_loop :: "(u32 \<Rightarrow> cstr) \<Rightarrow> cstr \<Rightarrow> u32 list \<Rightarrow> cstr \<Rightarrow> (u32 \<times> nat) list \<Rightarrow> (cstr \<times> (u32 \<times> nat) list) option" where
  "kvsprintf_loop str [] args out ns = Some (out, ns)"
| "kvsprintf_loop str (c # fmt) args out ns =
     (if c \<noteq> 0x25 then kvsprintf_loop str fmt args (out @ [c]) ns
      else case fmt of
        [] \<Rightarrow> None
      | x # xs \<Rightarrow>
          if x = 0x25 then kvsprintf_loop str xs args (out @ [0x25]) ns
          else (case parse_spec fmt \<lparr>pf_flags = {}, pf_width = 0, pf_prec = 0\<rparr> args of
              None \<Rightarrow> None
            | Some (cv, sp, rest, args1) \<Rightarrow>
                (case args1 of [] \<Rightarrow> None
                 | a # as \<Rightarrow>
                     (let arg = (if has PF_LONG sp then a else if has PF_SHORT sp then a AND 0xffff else a)
                      in if cv = 0x6e then kvsprintf_loop str rest as out (ns @ [(arg, length out)])
                         else (case convert str cv sp out arg of
                             None \<Rightarrow> None
                           | Some out1 \<Rightarrow> kvsprintf_loop str rest as out1 ns)))))"
  by pat_completeness auto
termination
  by (relation "measure (\<lambda>(str, fmt, args, out, ns). length fmt)") (auto dest!: parse_spec_shorter)

declare kvsprintf_loop.simps(2) [simp del]

definition kvsprintf :: "(u32 \<Rightarrow> cstr) \<Rightarrow> cstr \<Rightarrow> u32 list \<Rightarrow> cstr option" where
  "kvsprintf str fmt args = map_option fst (kvsprintf_loop str fmt args [] [])"

definition ksprintf :: "(u32 \<Rightarrow> cstr) \<Rightarrow> cstr \<Rightarrow> u32 list \<Rightarrow> cstr option" where
  "ksprintf = kvsprintf"

end
