(* ===== verification/KernelLibProps.thy ===== *)
theory KernelLibProps
  imports Printf
begin

text \<open>
  The library functions against what they stand for: \<open>memmove\<close> copies through
  overlapping ranges, and the numbers that \<open>kvsprintf\<close> prints, the negative ones apart,
  are read back by \<open>strtoul\<close>.
\<close>

section \<open>Moving memory\<close>

lemma unat_succ: "unat (a::u32) < unat (b::u32) \<Longrightarrow> unat (a + 1) = unat a + 1"
  using unat_u32_lt[of b] by (simp add: unat_word_ariths(1))

lemma load8_at [simp]: "load8 m a = m a" by (simp add: load8_def)

lemma movsb_up_eq:
  assumes "unat d < unat s" "unat s + n \<le> 2 ^ 32"
  shows "movsb_up m d s n a = (if unat d \<le> unat a \<and> unat a < unat d + n then m (s + (a - d)) else m a)"
  using assms
proof (induction n arbitrary: m d s)
  case (Suc n)
  show ?case
  proof (cases n)
    case 0
    have "unat d \<le> unat a \<and> unat a < unat d + 1 \<longleftrightarrow> a = d" by (auto simp: word_unat_eq_iff)
    then show ?thesis using 0 by (simp add: store8_def)
  next
    case (Suc k)
    have s: "unat (s + 1) = unat s + 1" using Suc.prems(2) Suc by (simp add: unat_word_ariths(1))
    have d: "unat (d + 1) = unat d + 1" by (rule unat_succ[OF Suc.prems(1)])
    have ds: "d \<noteq> s" using Suc.prems(1) by auto
    have ih: "movsb_up (store8 m d (m s)) (d + 1) (s + 1) n a =
        (if unat d + 1 \<le> unat a \<and> unat a < unat d + 1 + n then (store8 m d (m s)) (s + (a - d)) else (store8 m d (m s)) a)"
      using Suc.IH[of "d + 1" "s + 1" "store8 m d (m s)"] Suc.prems s d by simp
    consider "a = d" | "unat d < unat a" "unat a < unat d + 1 + n" | "\<not> unat d \<le> unat a \<or> \<not> unat a < unat d + 1 + n" "a \<noteq> d"
      by (metis le_neq_implies_less word_unat_eq_iff)
    then show ?thesis
    proof cases
      case 1 then show ?thesis using ih by (simp add: store8_def)
    next
      case 2
      have "unat (a - d) = unat a - unat d" using 2 by (simp add: unat_sub word_le_nat_alt)
      then have "unat (s + (a - d)) = unat s + (unat a - unat d)"
        using 2 Suc.prems(2) by (simp add: unat_word_ariths(1))
      then have "unat (s + (a - d)) \<noteq> unat d" using Suc.prems(1) by linarith
      then have "s + (a - d) \<noteq> d" by (rule contrapos_nn) (rule arg_cong)
      then show ?thesis using ih 2 by (simp add: store8_def)
    next
      case 3 then show ?thesis using ih by (auto simp: store8_def)
    qed
  qed
qed auto

lemma movsb_down_eq:
  assumes "unat f \<le> unat e" "n \<le> unat f + 1"
  shows "movsb_down m e f n a = (if unat e + 1 \<le> unat a + n \<and> unat a \<le> unat e then m (f - (e - a)) else m a)"
  using assms
proof (induction n arbitrary: m e f)
  case (Suc n)
  show ?case
  proof (cases n)
    case 0
    have "unat e + 1 \<le> unat a + 1 \<and> unat a \<le> unat e \<longleftrightarrow> a = e" by (auto simp: word_unat_eq_iff)
    then show ?thesis using 0 by (simp add: store8_def)
  next
    case (Suc k)
    have f: "unat (f - 1) = unat f - 1" "0 < unat f" using Suc.prems(2) Suc by (simp_all add: unat_sub word_le_nat_alt)
    then have e: "unat (e - 1) = unat e - 1" "0 < unat e" using Suc.prems(1) by (simp_all add: unat_sub word_le_nat_alt)
    have pre: "unat (f - 1) \<le> unat (e - 1)" "n \<le> unat (f - 1) + 1" using f e Suc.prems by linarith+
    have g: "f - 1 - (e - 1 - a) = f - (e - a)" by simp
    have ih: "movsb_down (store8 m e (m f)) (e - 1) (f - 1) n a =
        (if unat e \<le> unat a + n \<and> unat a \<le> unat e - 1 then (store8 m e (m f)) (f - (e - a)) else (store8 m e (m f)) a)"
      using Suc.IH[OF pre, of "store8 m e (m f)"] e f unfolding g by simp
    consider "a = e" | "unat a < unat e" "unat e + 1 \<le> unat a + Suc n" | "\<not> unat a \<le> unat e \<or> \<not> unat e + 1 \<le> unat a + Suc n" "a \<noteq> e"
      by (metis le_neq_implies_less word_unat_eq_iff)
    then show ?thesis
    proof cases
      case 1 then show ?thesis using ih e by (simp add: store8_def)
    next
      case 2
      have "unat (e - a) = unat e - unat a" using 2 by (simp add: unat_sub word_le_nat_alt)
      then have "unat (f - (e - a)) = unat f - (unat e - unat a)"
        using 2 Suc.prems(2) by (simp add: unat_sub word_le_nat_alt)
      then have "unat (f - (e - a)) \<noteq> unat e" using 2 Suc.prems by linarith
      then have "f - (e - a) \<noteq> e" by (rule contrapos_nn) (rule arg_cong)
      moreover have "unat a \<le> unat e - 1" using 2 by linarith
      ultimately show ?thesis using ih 2 e by (simp add: store8_def)
    next
      case 3 then show ?thesis using ih e by (auto simp: store8_def)
    qed
  qed
qed auto

text \<open>
  C26: \<open>memmove\<close> moves the bytes as if through a second buffer, whichever way the two
  ranges overlap, and touches nothing else (for ranges that do not go over the end of the
  address space).
\<close>

theorem memmove_correct:
  assumes "unat d + unat n \<le> 2 ^ 32" "unat s + unat n \<le> 2 ^ 32"
  shows "load8 (memmove m d s n) a =
    (if unat d \<le> unat a \<and> unat a < unat d + unat n then load8 m (s + (a - d)) else load8 m a)"
proof (cases "d < s")
  case True
  then show ?thesis using movsb_up_eq[of d s "unat n" m a] assms(2) by (simp add: memmove_def word_less_nat_alt)
next
  case False
  show ?thesis
  proof (cases "n = 0")
    case True then show ?thesis using False by (auto simp: memmove_def)
  next
    case nz: False
    have le: "unat s \<le> unat d" using False by (simp add: word_less_nat_alt)
    have n: "0 < unat n" "unat (n - 1) = unat n - 1" using nz by (simp_all add: unat_gt_0 unat_sub word_le_nat_alt Suc_leI)
    have e: "unat (n - 1 + d) = unat n - 1 + unat d" "unat (n - 1 + s) = unat n - 1 + unat s"
      using n assms by (simp_all add: unat_word_ariths(1))
    have "n - 1 + s - (n - 1 + d - a) = s + (a - d)" by simp
    then show ?thesis
      using movsb_down_eq[of "n - 1 + s" "n - 1 + d" "unat n" m a] False e n(1) le
      by (auto simp: memmove_def)
  qed
qed

lemma memmove_correct_witness:
  "load8 (memmove (\<lambda>a. ucast a) 101 100 4) 103 = 102"
  using memmove_correct[of 101 4 100 "\<lambda>a. ucast a" 103] by simp

section \<open>Printing and reading numbers\<close>

text \<open>A table of digits that \<open>strtoul\<close> knows.\<close>

definition table_ok :: "cstr \<Rightarrow> u32 \<Rightarrow> bool" where
  "table_ok D radix \<longleftrightarrow> 2 \<le> radix \<and> (\<forall>d<radix. digit_of (D ! unat d) = Some d)"

lemma word_div_mod: "a div r * r + a mod r = (a::u32)"
  by (rule div_mult_mod_eq)

lemma mod_less_radix: "2 \<le> r \<Longrightarrow> a mod r < (r::u32)"
  by (simp add: word_less_nat_alt unat_mod word_le_nat_alt)

lemma read_digits_rev:
  assumes "table_ok D radix"
  shows "read_digits radix 0 (rev (digits_rev D radix n) @ ys) = read_digits radix n ys"
  using assms
proof (induction D radix n arbitrary: ys rule: digits_rev.induct)
  case (1 D radix n)
  show ?case
  proof (cases "n = 0")
    case True then show ?thesis by (simp add: digits_rev.simps)
  next
    case False
    have r: "\<not> radix < 2" using 1(2) by (auto simp: table_ok_def not_less)
    have "digit_of (D ! unat (n mod radix)) = Some (n mod radix)"
      using 1(2) mod_less_radix[of radix n] by (simp add: table_ok_def)
    then show ?thesis
      using 1(1)[OF _ 1(2)] False r word_div_mod[of n radix] by (subst digits_rev.simps) simp
  qed
qed

lemma digits_rev_last:
  assumes "table_ok D radix" "n \<noteq> 0"
  shows "\<exists>d ds. 0 < d \<and> d < radix \<and> rev (digits_rev D radix n) = D ! unat d # ds"
  using assms
proof (induction D radix n rule: digits_rev.induct)
  case (1 D radix n)
  have r: "\<not> radix < 2" using 1(2) by (auto simp: table_ok_def not_less)
  have e: "digits_rev D radix n = D ! unat (n mod radix) # digits_rev D radix (n div radix)"
    using 1(3) r by (subst digits_rev.simps) simp
  show ?case
  proof (cases "n div radix = 0")
    case True
    then have "digits_rev D radix n = [D ! unat (n mod radix)]" using e by (simp add: digits_rev.simps[of D radix 0])
    moreover have "n mod radix \<noteq> 0" using word_div_mod[of n radix] True 1(3) by auto
    ultimately show ?thesis using mod_less_radix[of radix n] r by (auto simp: word_gt_0 intro!: exI[of _ "n mod radix"])
  next
    case False
    then show ?thesis using 1(1)[OF _ 1(2) False] 1(3) r e by auto
  qed
qed

lemma tables:
  "table_ok (ascii ''0123456789'') 10" "table_ok (ascii ''0123456789abcdef'') 16" "table_ok (ascii ''0123456789ABCDEF'') 16"
  "table_ok (ascii ''01'') 2" "table_ok (ascii ''01234567'') 8"
proof -
  have *: "table_ok D (of_nat k)" if "k < 100" "2 \<le> k" "\<forall>i\<in>set [0..<k]. digit_of (D ! i) = Some (of_nat i)" for D k
    unfolding table_ok_def
  proof (intro conjI allI impI)
    show "2 \<le> (of_nat k :: u32)" using that by (simp add: word_le_nat_alt unat_of_nat)
    fix d :: u32 assume "d < of_nat k"
    then have "unat d < k" using that(1) by (simp add: word_less_nat_alt unat_of_nat)
    then have "digit_of (D ! unat d) = Some (of_nat (unat d))" using that(3) by auto
    then show "digit_of (D ! unat d) = Some d" by simp
  qed
  show "table_ok (ascii ''0123456789'') 10" using *[of 10 "ascii ''0123456789''"] by (simp add: ascii_def digit_of_def upt_rec)
  show "table_ok (ascii ''0123456789abcdef'') 16" using *[of 16 "ascii ''0123456789abcdef''"] by (simp add: ascii_def digit_of_def upt_rec)
  show "table_ok (ascii ''0123456789ABCDEF'') 16" using *[of 16 "ascii ''0123456789ABCDEF''"] by (simp add: ascii_def digit_of_def upt_rec)
  show "table_ok (ascii ''01'') 2" using *[of 2 "ascii ''01''"] by (simp add: ascii_def digit_of_def upt_rec)
  show "table_ok (ascii ''01234567'') 8" using *[of 8 "ascii ''01234567''"] by (simp add: ascii_def digit_of_def upt_rec)
qed

text \<open>What a conversion of one number without a width or a precision prints.\<close>

lemma length_digits_rev: "unat arg < 2 ^ k \<Longrightarrow> length (digits_rev D radix arg) \<le> k"
proof (induction k arbitrary: arg)
  case 0
  then have "arg = 0" by (simp add: unat_eq_zero)
  then show ?case by (simp add: digits_rev.simps[of D radix 0])
next
  case (Suc k)
  show ?case
  proof (cases "arg = 0 \<or> radix < 2")
    case True then show ?thesis by (auto simp: digits_rev.simps[of D radix arg])
  next
    case False
    then have "2 \<le> unat radix" by (simp add: word_less_nat_alt)
    then have "unat arg div unat radix \<le> unat arg div 2" by (intro div_le_mono2) auto
    then have "unat (arg div radix) < 2 ^ k" using Suc.prems by (simp add: unat_div)
    then show ?thesis using Suc.IH False by (auto simp: digits_rev.simps[of D radix arg])
  qed
qed

text \<open>Without a precision the 40 bytes of \<open>tmpbuf\<close> are enough for every number.\<close>

lemma digits_fit: "length (digits_rev D radix n) \<le> TMPBUF_SIZE"
proof -
  have "unat n < 2 ^ 32" using unsigned_less[of n, where ?'a = nat] by simp
  then have "length (digits_rev D radix n) \<le> 32" by (rule length_digits_rev)
  then show ?thesis by (simp add: TMPBUF_SIZE_def)
qed

lemma one_fits: "Suc 0 \<le> TMPBUF_SIZE" by (simp add: TMPBUF_SIZE_def)

lemma do_number_plain:
  assumes "pf_width sp = 0" "pf_prec sp = 0" "\<not> sg"
  shows "do_number D radix sg len sp n = Some (if n = 0 then [D ! 0] else rev (digits_rev D radix n))"
  using assms digits_fit[of D radix n] one_fits by (simp add: do_number_def Let_def not_less)

lemma do_number_signed:
  assumes "pf_width sp = 0" "pf_prec sp = 0" "pf_flags sp \<subseteq> {PF_HASH}"
  shows "do_number D radix True len sp n = Some
    (if sint n < 0 then 0x2d # rev (digits_rev D radix (- n)) else if n = 0 then [D ! 0] else rev (digits_rev D radix n))"
proof -
  have "\<not> has PF_PLUS sp" "\<not> has PF_SPC sp" using assms(3) by (auto simp: has_def PF_PLUS_def PF_SPC_def PF_HASH_def)
  moreover have "- n \<noteq> 0" if "sint n < 0" using that by auto
  ultimately show ?thesis
    using assms(1,2) digits_fit[of D radix n] digits_fit[of D radix "- n"] one_fits by (simp add: do_number_def Let_def not_less)
qed

text \<open>Reading a number that stands alone, after the prefix that fixes its base.\<close>

lemma read_number:
  assumes "table_ok D radix"
  shows "read_digits radix 0 (if n = 0 then [D ! 0] else rev (digits_rev D radix n)) = (n, [])"
proof (cases "n = 0")
  case True
  have "0 < radix" using assms by (auto simp: table_ok_def word_gt_0)
  then have "digit_of (D ! 0) = Some 0" using assms by (auto simp: table_ok_def dest!: spec[of _ 0])
  then show ?thesis using True by simp
next
  case False then show ?thesis using read_digits_rev[OF assms, of n "[]"] by simp
qed

lemmas run_format = ksprintf_def kvsprintf_def kvsprintf_loop.simps(2) parse_spec.simps(2) flag_of_def IS_DIGIT_def
  convert_def PF_HASH_def PF_LONG_def PF_SHORT_def has_def Let_def

abbreviation plain_digits :: "cstr \<Rightarrow> u32 \<Rightarrow> u32 \<Rightarrow> cstr" where
  "plain_digits D radix n \<equiv> (if n = 0 then [D ! 0] else rev (digits_rev D radix n))"

lemma formats:
  "ascii ''%u'' = [0x25, 0x75]" "ascii ''%d'' = [0x25, 0x64]" "ascii ''%#x'' = [0x25, 0x23, 0x78]"
  "ascii ''%#X'' = [0x25, 0x23, 0x58]" "ascii ''%#b'' = [0x25, 0x23, 0x62]" "ascii ''%#o'' = [0x25, 0x23, 0x6f]"
  "ascii ''0x'' = [0x30, 0x78]" "ascii ''0X'' = [0x30, 0x58]" "ascii ''0b'' = [0x30, 0x62]" "ascii ''0'' = [0x30]"
  by (simp_all add: ascii_def)

lemma printed:
  "ksprintf str (ascii ''%u'') [n] = Some (plain_digits (ascii ''0123456789'') 10 n)"
  "ksprintf str (ascii ''%#x'') [n] = Some (0x30 # 0x78 # plain_digits (ascii ''0123456789abcdef'') 16 n)"
  "ksprintf str (ascii ''%#X'') [n] = Some (0x30 # 0x58 # plain_digits (ascii ''0123456789ABCDEF'') 16 n)"
  "ksprintf str (ascii ''%#b'') [n] = Some (0x30 # 0x62 # plain_digits (ascii ''01'') 2 n)"
  "ksprintf str (ascii ''%d'') [n] = Some (if sint n < 0 then 0x2d # rev (digits_rev (ascii ''0123456789'') 10 (- n))
     else plain_digits (ascii ''0123456789'') 10 n)"
  "ksprintf str (ascii ''%#o'') [n] = Some (0x30 # (if sint n < 0 then 0x2d # rev (digits_rev (ascii ''01234567'') 8 (- n))
     else plain_digits (ascii ''01234567'') 8 n))"
  unfolding formats by (simp_all add: run_format formats do_number_plain do_number_signed)

text \<open>
  A precision that asks for more digits doubles their number instead of filling up to it, and
  a binary number of more than 20 digits then does not fit in \<open>tmpbuf\<close>.
\<close>

lemma binary_precision_overruns_tmpbuf: "ksprintf str (ascii ''%.33b'') [0xffffffff] = None"
proof -
  have "length (digits_rev D 2 0xffffffff) = 32" for D by (simp add: digits_rev.simps)
  then show ?thesis
    by (simp add: ascii_def run_format decimal_def do_number_def TMPBUF_SIZE_def PF_PLUS_def PF_SPC_def)
qed

text \<open>
  C27: What \<open>kvsprintf\<close> prints for a number without width and precision, and what
  \<open>strtoul\<close> makes of it.  The unsigned conversions, decimal \<open>%u\<close> and, with the prefix
  the \<open>#\<close> flag puts in front, hexadecimal and binary \<open>%#x\<close>, \<open>%#X\<close>, \<open>%#b\<close>,
  are read back as the number for every number.  The signed ones \<open>%d\<close> and \<open>%#o\<close> are
  read back when the number is not negative as a long; a negative one is read as 0, because
  \<open>strtoul\<close> does not know a minus sign.
\<close>

theorem print_parse_round_trip:
  "map_option (\<lambda>s. strtoul s 0) (ksprintf str (ascii ''%u'') [n]) = Some (n, [])
   \<and> map_option (\<lambda>s. strtoul s 0) (ksprintf str (ascii ''%#x'') [n]) = Some (n, [])
   \<and> map_option (\<lambda>s. strtoul s 0) (ksprintf str (ascii ''%#X'') [n]) = Some (n, [])
   \<and> map_option (\<lambda>s. strtoul s 0) (ksprintf str (ascii ''%#b'') [n]) = Some (n, [])
   \<and> map_option (\<lambda>s. fst (strtoul s 0)) (ksprintf str (ascii ''%d'') [n]) = Some (if sint n < 0 then 0 else n)
   \<and> map_option (\<lambda>s. fst (strtoul s 0)) (ksprintf str (ascii ''%#o'') [n]) = Some (if sint n < 0 then 0 else n)"
proof -
  let ?D = "ascii ''0123456789''"
  have dec: "strtoul (plain_digits ?D 10 n) 0 = (n, [])"
  proof (cases "n = 0")
    case True then show ?thesis by (simp add: strtoul_def ascii_def)
  next
    case False
    obtain d :: u32 and ds where d: "0 < d" "d < 10" "rev (digits_rev ?D 10 n) = ?D ! unat d # ds"
      using digits_rev_last[OF tables(1) False] by blast
    have "digit_of (?D ! unat d) = Some d" using d(2) tables(1) by (simp add: table_ok_def)
    moreover have "digit_of 0x30 = Some 0" "digit_of 0x20 = None" "digit_of 9 = None" by (simp_all add: digit_of_def)
    ultimately have ne: "?D ! unat d \<noteq> 0x30" "?D ! unat d \<noteq> 0x20" "?D ! unat d \<noteq> 9" using d(1) by auto
    have "read_digits 10 0 (?D ! unat d # ds) = (n, [])" using read_number[OF tables(1), of n] False d(3) by simp
    then show ?thesis using False d(3) ne by (simp add: strtoul_def Let_def)
  qed
  have minus: "digit_of 0x2d = None" by (simp add: digit_of_def)
  have neg: "fst (strtoul (0x2d # xs) 0) = 0" "fst (strtoul (0x30 # 0x2d # xs) 0) = 0" for xs
    by (simp_all add: strtoul_def Let_def minus)
  have oct: "strtoul (0x30 # plain_digits (ascii ''01234567'') 8 n) 0 = (n, [])"
  proof -
    have "\<exists>x xs. plain_digits (ascii ''01234567'') 8 n = x # xs \<and> digit_of x \<noteq> None \<and> x \<noteq> 0x62"
    proof (cases "n = 0")
      case True then show ?thesis by (simp add: ascii_def digit_of_def)
    next
      case False
      obtain d :: u32 and ds where d: "d < 8" "rev (digits_rev (ascii ''01234567'') 8 n) = ascii ''01234567'' ! unat d # ds"
        using digits_rev_last[OF tables(5) False] by blast
      have dd: "digit_of (ascii ''01234567'' ! unat d) = Some d" using d(1) tables(5) by (simp add: table_ok_def)
      have "digit_of 0x62 = Some 11" by (simp add: digit_of_def)
      then have "ascii ''01234567'' ! unat d \<noteq> 0x62" using dd d(1) by auto
      then show ?thesis using d(2) dd False by simp
    qed
    then obtain x xs where x: "plain_digits (ascii ''01234567'') 8 n = x # xs" "digit_of x \<noteq> None" "x \<noteq> 0x62" by blast
    have "digit_of 0x78 = None" "digit_of 0x58 = None" by (simp_all add: digit_of_def)
    then have "x \<noteq> 0x78" "x \<noteq> 0x58" using x(2) by auto
    then show ?thesis using x read_number[OF tables(5), of n] by (simp add: strtoul_def Let_def)
  qed
  have pre: "strtoul (0x30 # 0x78 # cs) 0 = read_digits 16 0 cs" "strtoul (0x30 # 0x58 # cs) 0 = read_digits 16 0 cs"
    "strtoul (0x30 # 0x62 # cs) 0 = read_digits 2 0 cs" for cs
    by (simp_all add: strtoul_def Let_def)
  show ?thesis
    unfolding printed using dec oct neg read_number[OF tables(2), of n] read_number[OF tables(3), of n] read_number[OF tables(4), of n]
    by (simp add: pre)
qed

end
