(* ===== verification/Video.thy ===== *)
theory Video
  imports VPorts KernelLib
begin

text \<open>
  The video module (drivers/virtual/video): the register sets of the BIOS modes and the
  programming of the VGA (vga.c), the virtual MDA and CGA (mda.c, cga.c) and the switching of
  the hardware between virtual displays (video.c).  The hardware is reached through its ports:
  \<open>port_log\<close> lists all accesses, the last one first, and \<open>port_read\<close> is what
  the hardware answers, a parameter that may depend on all accesses before.
\<close>

unbundle bit_operations_syntax

section \<open>The state\<close>

datatype port_access = PIn u16 | POut u16 u8

record mode_info =
  mi_cols :: u32
  mi_rows :: u32
  mi_buffer :: u32
  mi_page_size :: u32
  mi_pages :: u32
  mi_text_mode :: bool
  mi_colour :: bool

text \<open>Indexes of the register sets in the 60 bytes of a mode.\<close>

definition VGA_CRT_COUNT :: nat where "VGA_CRT_COUNT = 24"
definition VGA_ATTR_COUNT :: nat where "VGA_ATTR_COUNT = 21"
definition VGA_GRAPH_COUNT :: nat where "VGA_GRAPH_COUNT = 9"
definition VGA_SEQ_COUNT :: nat where "VGA_SEQ_COUNT = 5"
definition VGA_CRT_REGS :: nat where "VGA_CRT_REGS = 0"
definition VGA_ATTR_REGS :: nat where "VGA_ATTR_REGS = 24"
definition VGA_GRAPH_REGS :: nat where "VGA_GRAPH_REGS = 45"
definition VGA_SEQ_REGS :: nat where "VGA_SEQ_REGS = 54"
definition VGA_MISC_REG :: nat where "VGA_MISC_REG = 59"

record vga_info =
  vga_regs :: "u8 list"
  crt_i :: u16
  crt_d :: u16
  is1_r :: u16

record mda_data =
  mda_buffer :: u32
  mda_control :: u8
  mda_status :: u8
  mda_index :: u8
  mda_data_reg :: u8
  mda_mc6845 :: "u8 list"

record cga_data =
  cga_buffer :: "u32 list"
  cga_mode_select :: u8
  cga_color_select :: u8
  cga_status :: u8
  cga_index :: u8
  cga_data_reg :: u8
  cga_mc6845 :: "u8 list"

datatype video_ops = Mda | Cga

text \<open>The two members of the union \<open>data\<close>; a display uses the one of its kind.\<close>

record video =
  v_ops :: video_ops
  v_task :: tid
  v_vga :: vga_info
  v_mi :: mode_info
  v_mode :: u8
  in_view :: bool
  v_mda :: mda_data
  v_cga :: cga_data

record vids = vports +
  videos :: "nat \<Rightarrow> video"
  viewed_video :: "nat option"
  video_list :: "video_ops list"
  vm_video :: nat
  port_log :: "port_access list"
  port_read :: "port_access list \<Rightarrow> u16 \<Rightarrow> u8"

definition vid_upd :: "nat \<Rightarrow> (video \<Rightarrow> video) \<Rightarrow> 'a vids_scheme \<Rightarrow> 'a vids_scheme" where
  "vid_upd v f s = s\<lparr>videos := (videos s)(v := f (videos s v))\<rparr>"

definition outb :: "u8 \<Rightarrow> u16 \<Rightarrow> 'a vids_scheme \<Rightarrow> 'a vids_scheme" where
  "outb b port s = s\<lparr>port_log := POut port b # port_log s\<rparr>"

definition inb :: "u16 \<Rightarrow> 'a vids_scheme \<Rightarrow> u8 \<times> 'a vids_scheme" where
  "inb port s = (port_read s (port_log s) port, s\<lparr>port_log := PIn port # port_log s\<rparr>)"

section \<open>Register sets of the BIOS modes\<close>

definition mode0_regs :: "u8 list" where
  "mode0_regs =
    [0x2d, 0x27, 0x28, 0x90, 0x2b, 0xa0, 0xbf, 0x1f, 0x00, 0x4f, 0x0d, 0x0e, 0x00, 0x00, 0x00,
     0x00, 0x9c, 0x8e, 0x8f, 0x14, 0x1f, 0x96, 0xb9, 0xa3, 0x00, 0x01, 0x02, 0x03, 0x04, 0x05,
     0x14, 0x07, 0x38, 0x39, 0x3a, 0x3b, 0x3c, 0x3d, 0x3e, 0x3f, 0x0c, 0x00, 0x0f, 0x08, 0x00,
     0x00, 0x00, 0x00, 0x00, 0x00, 0x10, 0x0e, 0x00, 0xff, 0x03, 0x08, 0x03, 0x00, 0x02, 0x67]"

definition mode1_regs :: "u8 list" where
  "mode1_regs =
    [0x2d, 0x27, 0x28, 0x90, 0x2b, 0xa0, 0xbf, 0x1f, 0x00, 0x4f, 0x0d, 0x0e, 0x00, 0x00, 0x00,
     0x00, 0x9c, 0x8e, 0x8f, 0x14, 0x1f, 0x96, 0xb9, 0xa3, 0x00, 0x01, 0x02, 0x03, 0x04, 0x05,
     0x14, 0x07, 0x38, 0x39, 0x3a, 0x3b, 0x3c, 0x3d, 0x3e, 0x3f, 0x0c, 0x00, 0x0f, 0x08, 0x00,
     0x00, 0x00, 0x00, 0x00, 0x00, 0x10, 0x0e, 0x00, 0xff, 0x03, 0x08, 0x03, 0x00, 0x02, 0x67]"

definition mode2_regs :: "u8 list" where
  "mode2_regs =
    [0x5f, 0x4f, 0x50, 0x82, 0x55, 0x81, 0xbf, 0x1f, 0x00, 0x4f, 0x0d, 0x0e, 0x00, 0x00, 0x00,
     0x00, 0x9c, 0x8e, 0x8f, 0x28, 0x1f, 0x96, 0xb9, 0xa3, 0x00, 0x01, 0x02, 0x03, 0x04, 0x05,
     0x14, 0x07, 0x38, 0x39, 0x3a, 0x3b, 0x3c, 0x3d, 0x3e, 0x3f, 0x0c, 0x00, 0x0f, 0x08, 0x00,
     0x00, 0x00, 0x00, 0x00, 0x00, 0x10, 0x0e, 0x00, 0xff, 0x03, 0x00, 0x03, 0x00, 0x02, 0x67]"

definition mode3_regs :: "u8 list" where
  "mode3_regs =
    [0x5f, 0x4f, 0x50, 0x82, 0x55, 0x81, 0xbf, 0x1f, 0x00, 0x4f, 0x0d, 0x0e, 0x00, 0x00, 0x00,
     0x00, 0x9c, 0x8e, 0x8f, 0x28, 0x1f, 0x96, 0xb9, 0xa3, 0x00, 0x01, 0x02, 0x03, 0x04, 0x05,
     0x14, 0x07, 0x38, 0x39, 0x3a, 0x3b, 0x3c, 0x3d, 0x3e, 0x3f, 0x0c, 0x00, 0x0f, 0x08, 0x00,
     0x00, 0x00, 0x00, 0x00, 0x00, 0x10, 0x0e, 0x00, 0xff, 0x03, 0x00, 0x03, 0x00, 0x02, 0x67]"

definition mode4_regs :: "u8 list" where
  "mode4_regs =
    [0x2d, 0x27, 0x28, 0x90, 0x2b, 0x80, 0xbf, 0x1f, 0x00, 0xc1, 0x00, 0x00, 0x00, 0x00, 0x00,
     0x00, 0x9c, 0x8e, 0x8f, 0x14, 0x00, 0x96, 0xb9, 0xa2, 0x00, 0x13, 0x15, 0x17, 0x02, 0x04,
     0x06, 0x07, 0x10, 0x11, 0x12, 0x13, 0x14, 0x15, 0x16, 0x17, 0x01, 0x00, 0x03, 0x00, 0x00,
     0x00, 0x00, 0x00, 0x00, 0x00, 0x30, 0x0f, 0x00, 0xff, 0x03, 0x09, 0x03, 0x00, 0x02, 0x63]"

definition mode5_regs :: "u8 list" where
  "mode5_regs =
    [0x2d, 0x27, 0x28, 0x90, 0x2b, 0x80, 0xbf, 0x1f, 0x00, 0xc1, 0x00, 0x00, 0x00, 0x00, 0x00,
     0x00, 0x9c, 0x8e, 0x8f, 0x14, 0x00, 0x96, 0xb9, 0xa2, 0x00, 0x13, 0x15, 0x17, 0x02, 0x04,
     0x06, 0x07, 0x10, 0x11, 0x12, 0x13, 0x14, 0x15, 0x16, 0x17, 0x01, 0x00, 0x03, 0x00, 0x00,
     0x00, 0x00, 0x00, 0x00, 0x00, 0x30, 0x0f, 0x00, 0xff, 0x03, 0x09, 0x03, 0x00, 0x02, 0x63]"

definition mode6_regs :: "u8 list" where
  "mode6_regs =
    [0x5f, 0x4f, 0x50, 0x82, 0x54, 0x80, 0xbf, 0x1f, 0x00, 0xc1, 0x00, 0x00, 0x00, 0x00, 0x00,
     0x00, 0x9c, 0x8e, 0x8f, 0x28, 0x00, 0x96, 0xb9, 0xc2, 0x00, 0x17, 0x17, 0x17, 0x17, 0x17,
     0x17, 0x17, 0x17, 0x17, 0x17, 0x17, 0x17, 0x17, 0x17, 0x17, 0x01, 0x00, 0x01, 0x00, 0x00,
     0x00, 0x00, 0x00, 0x00, 0x00, 0x00, 0x0d, 0x00, 0xff, 0x03, 0x01, 0x01, 0x00, 0x06, 0x63]"

definition mode7_regs :: "u8 list" where
  "mode7_regs =
    [0x5f, 0x4f, 0x50, 0x82, 0x55, 0x81, 0xbf, 0x1f, 0x00, 0x4f, 0x0d, 0x0e, 0x00, 0x00, 0x00,
     0x00, 0x9c, 0x8e, 0x8f, 0x28, 0x0f, 0x96, 0xb9, 0xa3, 0x00, 0x01, 0x08, 0x03, 0x08, 0x05,
     0x08, 0x07, 0x10, 0x09, 0x18, 0x0b, 0x18, 0x0d, 0x18, 0x0f, 0x0e, 0x00, 0x0f, 0x08, 0x00,
     0x00, 0x00, 0x00, 0x00, 0x00, 0x10, 0x0a, 0x00, 0xff, 0x03, 0x00, 0x03, 0x00, 0x02, 0x66]"

definition mode13_regs :: "u8 list" where
  "mode13_regs =
    [0x2d, 0x27, 0x28, 0x90, 0x2b, 0x80, 0xbf, 0x1f, 0x00, 0xc0, 0x00, 0x00, 0x00, 0x00, 0x00,
     0x00, 0x9c, 0x8e, 0x8f, 0x14, 0x00, 0x96, 0xb9, 0xe3, 0x00, 0x01, 0x02, 0x03, 0x04, 0x05,
     0x06, 0x07, 0x10, 0x11, 0x12, 0x13, 0x14, 0x15, 0x16, 0x17, 0x01, 0x00, 0x0f, 0x00, 0x00,
     0x00, 0x00, 0x00, 0x00, 0x00, 0x00, 0x05, 0x0f, 0xff, 0x03, 0x09, 0x0f, 0x00, 0x06, 0x63]"

definition mode14_regs :: "u8 list" where
  "mode14_regs =
    [0x5f, 0x4f, 0x50, 0x82, 0x54, 0x80, 0xbf, 0x1f, 0x00, 0xc0, 0x00, 0x00, 0x00, 0x00, 0x00,
     0x00, 0x9c, 0x8e, 0x8f, 0x28, 0x00, 0x96, 0xb9, 0xe3, 0x00, 0x01, 0x02, 0x03, 0x04, 0x05,
     0x06, 0x07, 0x10, 0x11, 0x12, 0x13, 0x14, 0x15, 0x16, 0x17, 0x01, 0x00, 0x0f, 0x00, 0x00,
     0x00, 0x00, 0x00, 0x00, 0x00, 0x00, 0x05, 0x0f, 0xff, 0x03, 0x01, 0x0f, 0x00, 0x06, 0x63]"

definition mode15_regs :: "u8 list" where
  "mode15_regs =
    [0x5f, 0x4f, 0x50, 0x82, 0x54, 0x80, 0xbf, 0x1f, 0x00, 0x40, 0x00, 0x00, 0x00, 0x00, 0x00,
     0x00, 0x83, 0x85, 0x5d, 0x28, 0x0f, 0x63, 0xba, 0xe3, 0x00, 0x01, 0x00, 0x03, 0x18, 0x05,
     0x00, 0x07, 0x00, 0x09, 0x00, 0x0b, 0x00, 0x0d, 0x00, 0x0f, 0x0b, 0x00, 0x05, 0x00, 0x00,
     0x00, 0x00, 0x00, 0x00, 0x00, 0x00, 0x05, 0x05, 0xff, 0x03, 0x01, 0x0f, 0x00, 0x06, 0xa2]"

definition mode16_regs :: "u8 list" where
  "mode16_regs =
    [0x5f, 0x4f, 0x50, 0x82, 0x54, 0x80, 0xbf, 0x1f, 0x00, 0x40, 0x00, 0x00, 0x00, 0x00, 0x00,
     0x00, 0x83, 0x85, 0x5d, 0x28, 0x0f, 0x63, 0xba, 0xe3, 0x00, 0x01, 0x02, 0x03, 0x04, 0x05,
     0x14, 0x07, 0x38, 0x39, 0x3a, 0x3b, 0x3c, 0x3d, 0x3e, 0x3f, 0x01, 0x00, 0x0f, 0x00, 0x00,
     0x00, 0x00, 0x00, 0x00, 0x00, 0x00, 0x05, 0x0f, 0xff, 0x03, 0x01, 0x0f, 0x00, 0x06, 0xa3]"

definition mode17_regs :: "u8 list" where
  "mode17_regs =
    [0x5f, 0x4f, 0x50, 0x82, 0x54, 0x80, 0x0b, 0x3e, 0x00, 0x40, 0x00, 0x00, 0x00, 0x00, 0x00,
     0x00, 0xea, 0x8c, 0xdf, 0x28, 0x00, 0xe7, 0x04, 0xc3, 0x00, 0x3f, 0x3f, 0x3f, 0x3f, 0x3f,
     0x3f, 0x3f, 0x3f, 0x3f, 0x3f, 0x3f, 0x3f, 0x3f, 0x3f, 0x3f, 0x01, 0x00, 0x0f, 0x00, 0x00,
     0x00, 0x00, 0x00, 0x00, 0x00, 0x00, 0x05, 0x01, 0xff, 0x03, 0x01, 0x0f, 0x00, 0x06, 0xe3]"

definition mode18_regs :: "u8 list" where
  "mode18_regs =
    [0x5f, 0x4f, 0x50, 0x82, 0x54, 0x80, 0x0b, 0x3e, 0x00, 0x40, 0x00, 0x00, 0x00, 0x00, 0x00,
     0x00, 0xea, 0x8c, 0xdf, 0x28, 0x00, 0xe7, 0x04, 0xe3, 0x00, 0x01, 0x02, 0x03, 0x04, 0x05,
     0x14, 0x07, 0x38, 0x39, 0x3a, 0x3b, 0x3c, 0x3d, 0x3e, 0x3f, 0x01, 0x00, 0x0f, 0x00, 0x00,
     0x00, 0x00, 0x00, 0x00, 0x00, 0x00, 0x05, 0x0f, 0xff, 0x03, 0x01, 0x0f, 0x00, 0x06, 0xe3]"

definition mode19_regs :: "u8 list" where
  "mode19_regs =
    [0x5f, 0x4f, 0x50, 0x82, 0x54, 0x80, 0xbf, 0x1f, 0x00, 0x41, 0x00, 0x00, 0x00, 0x00, 0x00,
     0x00, 0x9c, 0x8e, 0x8f, 0x28, 0x40, 0x96, 0xb9, 0xa3, 0x00, 0x01, 0x02, 0x03, 0x04, 0x05,
     0x06, 0x07, 0x08, 0x09, 0x0a, 0x0b, 0x0c, 0x0d, 0x0e, 0x0f, 0x41, 0x00, 0x0f, 0x00, 0x00,
     0x00, 0x00, 0x00, 0x00, 0x00, 0x40, 0x05, 0x0f, 0xff, 0x03, 0x01, 0x0f, 0x00, 0x0e, 0x63]"

definition mode0_info :: mode_info where
  "mode0_info = \<lparr>mi_cols = 40, mi_rows = 25, mi_buffer = 0xb8000, mi_page_size = 2048, mi_pages = 8,
     mi_text_mode = True, mi_colour = False\<rparr>"

definition mode1_info :: mode_info where
  "mode1_info = \<lparr>mi_cols = 40, mi_rows = 25, mi_buffer = 0xb8000, mi_page_size = 2048, mi_pages = 8,
     mi_text_mode = True, mi_colour = True\<rparr>"

definition mode2_info :: mode_info where
  "mode2_info = \<lparr>mi_cols = 80, mi_rows = 25, mi_buffer = 0xb8000, mi_page_size = 2048, mi_pages = 4,
     mi_text_mode = True, mi_colour = False\<rparr>"

definition mode3_info :: mode_info where
  "mode3_info = \<lparr>mi_cols = 80, mi_rows = 25, mi_buffer = 0xb8000, mi_page_size = 4096, mi_pages = 4,
     mi_text_mode = True, mi_colour = True\<rparr>"

definition mode4_info :: mode_info where
  "mode4_info = \<lparr>mi_cols = 320, mi_rows = 200, mi_buffer = 0xb8000, mi_page_size = 8192, mi_pages = 4,
     mi_text_mode = False, mi_colour = True\<rparr>"

definition mode5_info :: mode_info where
  "mode5_info = \<lparr>mi_cols = 320, mi_rows = 200, mi_buffer = 0xb8000, mi_page_size = 8192, mi_pages = 4,
     mi_text_mode = False, mi_colour = False\<rparr>"

definition mode6_info :: mode_info where
  "mode6_info = \<lparr>mi_cols = 640, mi_rows = 200, mi_buffer = 0xb8000, mi_page_size = 16384, mi_pages = 1,
     mi_text_mode = False, mi_colour = False\<rparr>"

definition mode7_info :: mode_info where
  "mode7_info = \<lparr>mi_cols = 80, mi_rows = 25, mi_buffer = 0xb0000, mi_page_size = 4096, mi_pages = 1,
     mi_text_mode = True, mi_colour = False\<rparr>"

definition mode13_info :: mode_info where
  "mode13_info = \<lparr>mi_cols = 320, mi_rows = 200, mi_buffer = 0xa0000, mi_page_size = 8192, mi_pages = 8,
     mi_text_mode = False, mi_colour = True\<rparr>"

definition mode14_info :: mode_info where
  "mode14_info = \<lparr>mi_cols = 640, mi_rows = 200, mi_buffer = 0xa0000, mi_page_size = 16384, mi_pages = 4,
     mi_text_mode = False, mi_colour = True\<rparr>"

definition mode15_info :: mode_info where
  "mode15_info = \<lparr>mi_cols = 640, mi_rows = 350, mi_buffer = 0xa0000, mi_page_size = 28672, mi_pages = 2,
     mi_text_mode = False, mi_colour = False\<rparr>"

definition mode16_info :: mode_info where
  "mode16_info = \<lparr>mi_cols = 640, mi_rows = 350, mi_buffer = 0xa0000, mi_page_size = 28672, mi_pages = 2,
     mi_text_mode = False, mi_colour = True\<rparr>"

definition mode17_info :: mode_info where
  "mode17_info = \<lparr>mi_cols = 640, mi_rows = 480, mi_buffer = 0xa0000, mi_page_size = 38912, mi_pages = 1,
     mi_text_mode = False, mi_colour = True\<rparr>"

definition mode18_info :: mode_info where
  "mode18_info = \<lparr>mi_cols = 640, mi_rows = 480, mi_buffer = 0xa0000, mi_page_size = 38912, mi_pages = 1,
     mi_text_mode = False, mi_colour = True\<rparr>"

definition mode19_info :: mode_info where
  "mode19_info = \<lparr>mi_cols = 640, mi_rows = 480, mi_buffer = 0xa0000, mi_page_size = 38912, mi_pages = 1,
     mi_text_mode = False, mi_colour = True\<rparr>"

definition LAST_MODE :: u32 where "LAST_MODE = 19"

definition bios_modes :: "u8 list option list" where
  "bios_modes =
    [Some mode0_regs, Some mode1_regs, Some mode2_regs, Some mode3_regs,
     Some mode4_regs, Some mode5_regs, Some mode6_regs, Some mode7_regs,
     None, None, None, None,
     None, Some mode13_regs, Some mode14_regs, Some mode15_regs,
     Some mode16_regs, Some mode17_regs, Some mode18_regs, Some mode19_regs]"

definition bios_mode_infos :: "mode_info option list" where
  "bios_mode_infos =
    [Some mode0_info, Some mode1_info, Some mode2_info, Some mode3_info,
     Some mode4_info, Some mode5_info, Some mode6_info, Some mode7_info,
     None, None, None, None,
     None, Some mode13_info, Some mode14_info, Some mode15_info,
     Some mode16_info, Some mode17_info, Some mode18_info, Some mode19_info]"

definition vga_get_mode :: "u32 \<Rightarrow> (u8 list \<times> mode_info) option" where
  "vga_get_mode mode =
     (if mode > LAST_MODE then None
      else (case (bios_modes ! unat mode, bios_mode_infos ! unat mode) of
              (Some rs, Some vi) \<Rightarrow> Some (rs, vi) | _ \<Rightarrow> None))"

section \<open>The VGA\<close>

definition VGA_ATTR_IW :: u16 where "VGA_ATTR_IW = 0x3c0"
definition VGA_ATTR_R :: u16 where "VGA_ATTR_R = 0x3c1"
definition VGA_GRAPH_I :: u16 where "VGA_GRAPH_I = 0x3ce"
definition VGA_GRAPH_D :: u16 where "VGA_GRAPH_D = 0x3cf"
definition VGA_SEQ_I :: u16 where "VGA_SEQ_I = 0x3c4"
definition VGA_SEQ_D :: u16 where "VGA_SEQ_D = 0x3c5"
definition VGA_MISC_R :: u16 where "VGA_MISC_R = 0x3cc"
definition VGA_MISC_W :: u16 where "VGA_MISC_W = 0x3c2"

definition vga_disable_video :: "vga_info \<Rightarrow> 'a vids_scheme \<Rightarrow> 'a vids_scheme" where
  "vga_disable_video vi s = outb 0 VGA_ATTR_IW (snd (inb (is1_r vi) s))"

definition vga_enable_video :: "vga_info \<Rightarrow> 'a vids_scheme \<Rightarrow> 'a vids_scheme" where
  "vga_enable_video vi s = outb 0x20 VGA_ATTR_IW (snd (inb (is1_r vi) s))"

text \<open>
  The loops over a set of registers: \<open>save_set\<close> reads them (\<open>first\<close> precedes
  each access, the attribute registers need it), \<open>load_set\<close> writes them.
\<close>

definition save_set :: "('a vids_scheme \<Rightarrow> 'a vids_scheme) \<Rightarrow> u16 \<Rightarrow> u16 \<Rightarrow> nat \<Rightarrow> nat \<Rightarrow>
    u8 list \<times> 'a vids_scheme \<Rightarrow> u8 list \<times> 'a vids_scheme" where
  "save_set first ip dp at0 count =
     fold (\<lambda>i (rs, s). case inb dp (outb (of_nat i) ip (first s)) of (b, s1) \<Rightarrow> (rs[at0 + i := b], s1)) [0..<count]"

definition load_set :: "('a vids_scheme \<Rightarrow> 'a vids_scheme) \<Rightarrow> u16 \<Rightarrow> u16 \<Rightarrow> nat \<Rightarrow> nat \<Rightarrow> u8 list \<Rightarrow>
    'a vids_scheme \<Rightarrow> 'a vids_scheme" where
  "load_set first ip dp at0 count rs = fold (\<lambda>i s. outb (rs ! (at0 + i)) dp (outb (of_nat i) ip (first s))) [0..<count]"

definition vga_save_regs :: "vga_info \<Rightarrow> 'a vids_scheme \<Rightarrow> vga_info \<times> 'a vids_scheme" where
  "vga_save_regs vi s =
     (case save_set (\<lambda>s. s) VGA_SEQ_I VGA_SEQ_D VGA_SEQ_REGS VGA_SEQ_COUNT
             (save_set (\<lambda>s. s) VGA_GRAPH_I VGA_GRAPH_D VGA_GRAPH_REGS VGA_GRAPH_COUNT
               (save_set (\<lambda>s. snd (inb (is1_r vi) s)) VGA_ATTR_IW VGA_ATTR_R VGA_ATTR_REGS VGA_ATTR_COUNT
                 (save_set (\<lambda>s. s) (crt_i vi) (crt_d vi) VGA_CRT_REGS VGA_CRT_COUNT (vga_regs vi, s)))) of
        (rs, s1) \<Rightarrow> (case inb VGA_MISC_R s1 of (b, s2) \<Rightarrow> (vi\<lparr>vga_regs := rs[VGA_MISC_REG := b]\<rparr>, s2)))"

definition vga_load_regs :: "vga_info \<Rightarrow> 'a vids_scheme \<Rightarrow> 'a vids_scheme" where
  "vga_load_regs vi s =
     (let rs = vga_regs vi;
          s1 = outb 1 VGA_SEQ_D (outb 0 VGA_SEQ_I (outb (rs ! VGA_MISC_REG) VGA_MISC_W s));
          s2 = load_set (\<lambda>s. s) VGA_SEQ_I VGA_SEQ_D VGA_SEQ_REGS VGA_SEQ_COUNT rs s1;
          s3 = outb 0x11 (crt_i vi) (outb 3 VGA_SEQ_D (outb 0 VGA_SEQ_I s2));
          (b, s4) = inb (crt_d vi) s3;
          s5 = load_set (\<lambda>s. s) (crt_i vi) (crt_d vi) VGA_CRT_REGS VGA_CRT_COUNT rs (outb (b AND 0x7f) (crt_d vi) s4);
          s6 = load_set (\<lambda>s. s) VGA_GRAPH_I VGA_GRAPH_D VGA_GRAPH_REGS VGA_GRAPH_COUNT rs s5
      in load_set (\<lambda>s. snd (inb (is1_r vi) s)) VGA_ATTR_IW VGA_ATTR_IW VGA_ATTR_REGS VGA_ATTR_COUNT rs s6)"

definition vga_set_mode :: "nat \<Rightarrow> u32 \<Rightarrow> 'a vids_scheme \<Rightarrow> bool \<times> 'a vids_scheme" where
  "vga_set_mode v mode s = (case vga_get_mode mode of None \<Rightarrow> (False, s)
     | Some (rs, vi) \<Rightarrow>
         (let s1 = (if in_view (videos s v) then vga_disable_video (v_vga (videos s v)) s else s);
              vg = (if bit (rs ! VGA_MISC_REG) 0
                    then \<lparr>vga_regs = rs, crt_i = 0x3d4, crt_d = 0x3d5, is1_r = 0x3da\<rparr>
                    else \<lparr>vga_regs = rs, crt_i = 0x3b4, crt_d = 0x3b5, is1_r = 0x3ba\<rparr>);
              s2 = vid_upd v (\<lambda>x. x\<lparr>v_vga := vg, v_mi := vi, v_mode := ucast mode\<rparr>) s1
          in (True, if in_view (videos s v) then vga_enable_video vg (vga_load_regs vg s2) else s2)))"

text \<open>The map of the 6845 registers to those of the VGA: 10 to 15 are the same, the others have none.\<close>

definition mc6845_to_vga_regs :: "nat list" where
  "mc6845_to_vga_regs = [255, 255, 255, 255, 255, 255, 255, 255, 255, 255, 10, 11, 12, 13, 14, 15, 255, 255]"

definition set_crt_reg :: "nat \<Rightarrow> u8 \<Rightarrow> u8 \<Rightarrow> 'a vids_scheme \<Rightarrow> 'a vids_scheme" where
  "set_crt_reg v index b s =
     (let reg = mc6845_to_vga_regs ! unat index in
      if reg = 255 then s
      else (let vg = v_vga (videos s v);
                s1 = (if in_view (videos s v) then outb b (crt_d vg) (outb (of_nat reg) (crt_i vg) s) else s)
            in vid_upd v (\<lambda>x. x\<lparr>v_vga := (v_vga x)\<lparr>vga_regs := (vga_regs (v_vga x))[VGA_CRT_REGS + reg := b]\<rparr>\<rparr>) s1))"

section \<open>The virtual MDA\<close>

definition MDA_VIDEO_MEM :: u32 where "MDA_VIDEO_MEM = 0xb0000"
definition EGA_VIDEO_MEM :: u32 where "EGA_VIDEO_MEM = 0xb8000"
definition INIT_MDA_KEEP :: u32 where "INIT_MDA_KEEP = 1"
definition DEFAULT_MDA_CONTROL :: u8 where "DEFAULT_MDA_CONTROL = 1 OR 8 OR 32"

definition mda_default_regs :: "u8 list" where
  "mda_default_regs = [0x61, 0x50, 0x52, 0x0f, 0x19, 0x06, 0x19, 0x19, 0x02, 0x0d, 0x0b, 0x0c, 0, 0, 0, 0, 0, 0]"

definition upd_mda :: "nat \<Rightarrow> (mda_data \<Rightarrow> mda_data) \<Rightarrow> 'a vids_scheme \<Rightarrow> 'a vids_scheme" where
  "upd_mda v f s = vid_upd v (\<lambda>x. x\<lparr>v_mda := f (v_mda x)\<rparr>) s"

definition mda_inb :: "nat \<Rightarrow> u16 \<Rightarrow> 'a vids_scheme \<Rightarrow> u8 \<times> 'a vids_scheme" where
  "mda_inb v port s =
     (let d = v_mda (videos s v) in
      if port = 0x3b0 \<or> port = 0x3b2 \<or> port = 0x3b4 \<or> port = 0x3b6 then (mda_index d, s)
      else if port = 0x3b1 \<or> port = 0x3b3 \<or> port = 0x3b5 \<or> port = 0x3b7
      then (if mda_index d \<le> 15 then mda_mc6845 d ! unat (mda_index d) else 0, s)
      else if port = 0x3b8 then (mda_control d, s)
      else if port = 0x3ba then (0, s) else (0xff, s))"

definition mda_outb :: "nat \<Rightarrow> u8 \<Rightarrow> u16 \<Rightarrow> 'a vids_scheme \<Rightarrow> 'a vids_scheme" where
  "mda_outb v b port s =
     (if port = 0x3b0 \<or> port = 0x3b2 \<or> port = 0x3b4 \<or> port = 0x3b6 then upd_mda v (\<lambda>d. d\<lparr>mda_index := b\<rparr>) s
      else if port = 0x3b1 \<or> port = 0x3b3 \<or> port = 0x3b5 \<or> port = 0x3b7
      then (let s1 = upd_mda v (\<lambda>d. d\<lparr>mda_data_reg := b\<rparr>) s; i = mda_index (v_mda (videos s v))
            in if i \<le> 15 then set_crt_reg v i b (upd_mda v (\<lambda>d. d\<lparr>mda_mc6845 := (mda_mc6845 d)[unat i := b]\<rparr>) s1)
               else s1)
      else if port = 0x3b8 then upd_mda v (\<lambda>d. d\<lparr>mda_control := b\<rparr>) s else s)"

definition video_pd :: "nat \<Rightarrow> 'a vids_scheme \<Rightarrow> u32" where
  "video_pd v s = t_page_dir (tasks s (v_task (videos s v)))"

definition map_mda_buffer :: "nat \<Rightarrow> u32 \<Rightarrow> 'a vids_scheme \<Rightarrow> 'a vids_scheme" where
  "map_mda_buffer v phys_buffer s =
     set_pte (video_pd v s) MDA_VIDEO_MEM (phys_buffer OR PTE_USER OR PTE_READ_WRITE OR PTE_PRESENT) s"

definition init_mda :: "nat \<Rightarrow> u32 \<Rightarrow> 'a vids_scheme \<Rightarrow> bool \<times> 'a vids_scheme" where
  "init_mda v flags s =
     (let (pg, s0) = alloc_page s; keep = flags AND INIT_MDA_KEEP \<noteq> 0;
          s1 = s0\<lparr>mem := (if keep then memcpy (mem s0) pg (to_logical EGA_VIDEO_MEM) 4096 else memsetw (mem s0) pg 0x0720 2048)\<rparr>;
          s2 = upd_mda v (\<lambda>d. d\<lparr>mda_buffer := pg, mda_control := DEFAULT_MDA_CONTROL, mda_status := 0, mda_mc6845 := mda_default_regs\<rparr>) s1;
          s3 = snd (vga_set_mode v 7 s2);
          s4 = (if keep
                then fold (\<lambda>k s. case inb 0x3d5 (outb (of_nat k) 0x3d4 s) of (b, s1) \<Rightarrow>
                       upd_mda v (\<lambda>d. d\<lparr>mda_mc6845 := (mda_mc6845 d)[k := b]\<rparr>)
                         (vid_upd v (\<lambda>x. x\<lparr>v_vga := (v_vga x)\<lparr>vga_regs := (vga_regs (v_vga x))[VGA_CRT_REGS + k := b]\<rparr>\<rparr>) s1))
                       [14, 15] s3
                else s3)
      in (True, map_mda_buffer v (to_physical (mda_buffer (v_mda (videos s4 v)))) s4))"

definition mda_kill :: "nat \<Rightarrow> 'a vids_scheme \<Rightarrow> 'a vids_scheme" where
  "mda_kill v s = free_page (mda_buffer (v_mda (videos s v))) s"

definition mda_switch_from :: "nat \<Rightarrow> 'a vids_scheme \<Rightarrow> 'a vids_scheme" where
  "mda_switch_from v s =
     (let b = mda_buffer (v_mda (videos s v)); s1 = map_mda_buffer v (to_physical b) s
      in s1\<lparr>mem := memcpy (mem s1) b (to_logical MDA_VIDEO_MEM) 4096\<rparr>)"

definition mda_switch_to :: "nat \<Rightarrow> 'a vids_scheme \<Rightarrow> 'a vids_scheme" where
  "mda_switch_to v s =
     map_mda_buffer v MDA_VIDEO_MEM
       (s\<lparr>mem := memcpy (mem s) (to_logical MDA_VIDEO_MEM) (mda_buffer (v_mda (videos s v))) 4096\<rparr>)"

definition mda_find_page :: "nat \<Rightarrow> u32 \<Rightarrow> 'a vids_scheme \<Rightarrow> u32" where
  "mda_find_page v pg s =
     (if pg = 0 then if in_view (videos s v) then to_logical MDA_VIDEO_MEM else mda_buffer (v_mda (videos s v)) else 0)"

definition mda_set_mode :: "nat \<Rightarrow> u32 \<Rightarrow> 'a vids_scheme \<Rightarrow> bool \<times> 'a vids_scheme" where
  "mda_set_mode v mode s = (mode = 7, s)"

section \<open>The virtual CGA\<close>

definition CGA_VIDEO_MEM :: u32 where "CGA_VIDEO_MEM = 0xb8000"
definition CGA_MODE_80 :: u8 where "CGA_MODE_80 = 0x01"
definition CGA_MODE_320_APA :: u8 where "CGA_MODE_320_APA = 0x02"
definition CGA_MODE_COLOR :: u8 where "CGA_MODE_COLOR = 0x04"
definition CGA_MODE_VIDEO_ON :: u8 where "CGA_MODE_VIDEO_ON = 0x08"
definition CGA_MODE_640_APA :: u8 where "CGA_MODE_640_APA = 0x10"
definition CGA_STAT_ACCESS_OK :: u8 where "CGA_STAT_ACCESS_OK = 0x01"
definition CGA_STAT_VBLANK :: u8 where "CGA_STAT_VBLANK = 0x08"
definition CGA_DEF_MODE :: u8 where "CGA_DEF_MODE = CGA_MODE_80 OR CGA_MODE_COLOR OR CGA_MODE_VIDEO_ON"
definition CGA_DEF_STAT :: u8 where "CGA_DEF_STAT = CGA_STAT_ACCESS_OK OR CGA_STAT_VBLANK"

definition cga_default_regs :: "u8 list" where
  "cga_default_regs = [0x71, 0x50, 0x5a, 0x0a, 0x1f, 0x06, 0x19, 0x1c, 0x02, 0x07, 0x06, 0x07, 0, 0, 0, 0, 0, 0]"

definition upd_cga :: "nat \<Rightarrow> (cga_data \<Rightarrow> cga_data) \<Rightarrow> 'a vids_scheme \<Rightarrow> 'a vids_scheme" where
  "upd_cga v f s = vid_upd v (\<lambda>x. x\<lparr>v_cga := f (v_cga x)\<rparr>) s"

text \<open>The BIOS mode for a mode select byte.\<close>

definition cga_mode_of :: "u8 \<Rightarrow> u32" where
  "cga_mode_of b =
     (let mode = (if test_mask b CGA_MODE_320_APA then 4 else if test_mask b CGA_MODE_640_APA then 6
                  else if test_mask b CGA_MODE_80 then 2 else 4)
      in if mode \<noteq> 6 \<and> \<not> test_mask b CGA_MODE_COLOR then mode OR 1 else mode)"

definition set_mode_select :: "nat \<Rightarrow> u8 \<Rightarrow> 'a vids_scheme \<Rightarrow> 'a vids_scheme" where
  "set_mode_select v b s =
     (if b \<noteq> cga_mode_select (v_cga (videos s v))
      then upd_cga v (\<lambda>d. d\<lparr>cga_mode_select := b\<rparr>) (snd (vga_set_mode v (cga_mode_of b) s)) else s)"

definition set_color_select :: "nat \<Rightarrow> u8 \<Rightarrow> 'a vids_scheme \<Rightarrow> 'a vids_scheme" where
  "set_color_select v b s =
     (if b \<noteq> cga_color_select (v_cga (videos s v))
      then (let pal = (if test_mask b 0x20 then [0x00, 0x03, 0x05, 0x07] else [0x00, 0x02, 0x04, 0x0e]);
                s1 = vid_upd v (\<lambda>x. x\<lparr>v_vga := (v_vga x)\<lparr>vga_regs :=
                       fold (\<lambda>k rs. rs[VGA_ATTR_REGS + k := pal ! k]) [0..<4]
                         ((vga_regs (v_vga x))[VGA_ATTR_REGS + 0x11 := b AND 15])\<rparr>\<rparr>) s;
                s2 = upd_cga v (\<lambda>d. d\<lparr>cga_color_select := b\<rparr>) s1
            in if in_view (videos s2 v) then vga_load_regs (v_vga (videos s2 v)) s2 else s2)
      else s)"

definition cga_inb :: "nat \<Rightarrow> u16 \<Rightarrow> 'a vids_scheme \<Rightarrow> u8 \<times> 'a vids_scheme" where
  "cga_inb v port s =
     (let d = v_cga (videos s v) in
      if port = 0x3d0 \<or> port = 0x3d2 \<or> port = 0x3d4 \<or> port = 0x3d6 then (cga_index d, s)
      else if port = 0x3d1 \<or> port = 0x3d3 \<or> port = 0x3d5 \<or> port = 0x3d7
      then (if cga_index d \<le> 15 then cga_mc6845 d ! unat (cga_index d) else 0, s)
      else if port = 0x3d8 then (cga_mode_select d, s)
      else if port = 0x3d9 then (cga_color_select d, s)
      else if port = 0x3da
      then (let st = cga_status d XOR (CGA_STAT_ACCESS_OK OR CGA_STAT_VBLANK) in (st, upd_cga v (\<lambda>d. d\<lparr>cga_status := st\<rparr>) s))
      else (0xff, s))"

definition cga_outb :: "nat \<Rightarrow> u8 \<Rightarrow> u16 \<Rightarrow> 'a vids_scheme \<Rightarrow> 'a vids_scheme" where
  "cga_outb v b port s =
     (if port = 0x3d0 \<or> port = 0x3d2 \<or> port = 0x3d4 \<or> port = 0x3d6 then upd_cga v (\<lambda>d. d\<lparr>cga_index := b\<rparr>) s
      else if port = 0x3d1 \<or> port = 0x3d3 \<or> port = 0x3d5 \<or> port = 0x3d7
      then (let s1 = upd_cga v (\<lambda>d. d\<lparr>cga_data_reg := b\<rparr>) s; i = cga_index (v_cga (videos s v))
            in if i \<le> 15 then set_crt_reg v i b (upd_cga v (\<lambda>d. d\<lparr>cga_mc6845 := (cga_mc6845 d)[unat i := b]\<rparr>) s1)
               else s1)
      else if port = 0x3d8 then set_mode_select v b s
      else if port = 0x3d9 then set_color_select v b s else s)"

definition map_cga_buffer :: "nat \<Rightarrow> bool \<Rightarrow> 'a vids_scheme \<Rightarrow> 'a vids_scheme" where
  "map_cga_buffer v phys_buf s =
     fold (\<lambda>i s. set_pte (video_pd v s) (CGA_VIDEO_MEM + of_nat i * 4096)
        ((if phys_buf then CGA_VIDEO_MEM + of_nat i * 4096 else to_physical (cga_buffer (v_cga (videos s v)) ! i))
           OR PTE_USER OR PTE_READ_WRITE OR PTE_PRESENT) s) [0..<4] s"

definition init_cga :: "nat \<Rightarrow> u32 \<Rightarrow> 'a vids_scheme \<Rightarrow> bool \<times> 'a vids_scheme" where
  "init_cga v flags s =
     (let (pgs, s1) = fold (\<lambda>i (pgs, s). case alloc_page s of (pg, s1) \<Rightarrow>
             (pgs @ [pg], s1\<lparr>mem := memsetw (mem s1) pg 0x720 2048\<rparr>)) [0..<4] ([], s);
          s2 = upd_cga v (\<lambda>d. d\<lparr>cga_buffer := pgs, cga_mode_select := CGA_DEF_MODE, cga_color_select := 0,
                 cga_status := CGA_DEF_STAT, cga_mc6845 := cga_default_regs\<rparr>) s1
      in (True, map_cga_buffer v False (snd (vga_set_mode v 3 s2))))"

definition cga_kill :: "nat \<Rightarrow> 'a vids_scheme \<Rightarrow> 'a vids_scheme" where
  "cga_kill v s = fold (\<lambda>i s. free_page (cga_buffer (v_cga (videos s v)) ! i) s) [0..<4] s"

definition cga_switch_from :: "nat \<Rightarrow> 'a vids_scheme \<Rightarrow> 'a vids_scheme" where
  "cga_switch_from v s =
     map_cga_buffer v False (fold (\<lambda>i s. s\<lparr>mem := memcpy (mem s) (cga_buffer (v_cga (videos s v)) ! i)
        (to_logical (CGA_VIDEO_MEM + of_nat i * 4096)) 4096\<rparr>) [0..<4] s)"

definition cga_switch_to :: "nat \<Rightarrow> 'a vids_scheme \<Rightarrow> 'a vids_scheme" where
  "cga_switch_to v s =
     map_cga_buffer v True (fold (\<lambda>i s. s\<lparr>mem := memcpy (mem s) (to_logical (CGA_VIDEO_MEM + of_nat i * 4096))
        (cga_buffer (v_cga (videos s v)) ! i) 4096\<rparr>) [0..<4] s)"

definition cga_find_page :: "nat \<Rightarrow> u32 \<Rightarrow> 'a vids_scheme \<Rightarrow> u32" where
  "cga_find_page v pg s =
     (if pg < 4 then if in_view (videos s v) then to_logical (CGA_VIDEO_MEM + pg * 4096)
                     else cga_buffer (v_cga (videos s v)) ! unat pg
      else 0)"

definition cga_set_mode :: "nat \<Rightarrow> u32 \<Rightarrow> 'a vids_scheme \<Rightarrow> bool \<times> 'a vids_scheme" where
  "cga_set_mode v mode s = (if mode \<ge> 7 then (False, s) else vga_set_mode v mode s)"

section \<open>Displays\<close>

definition ops_name :: "video_ops \<Rightarrow> cstr" where
  "ops_name ops = (case ops of Mda \<Rightarrow> [0x6d, 0x64, 0x61] | Cga \<Rightarrow> [0x63, 0x67, 0x61])"

definition add_video :: "video_ops \<Rightarrow> 'a vids_scheme \<Rightarrow> 'a vids_scheme" where
  "add_video new s = s\<lparr>video_list := new # video_list s\<rparr>"

definition video_mda_io :: io_handler where
  "video_mda_io = \<lparr>io_name = other_ioh 0x3b0, low_port = 0x3b0, high_port = 0x3bb\<rparr>"

definition video_io :: io_handler where
  "video_io = \<lparr>io_name = other_ioh 0x3c0, low_port = 0x3c0, high_port = 0x3df\<rparr>"

text \<open>\<open>vm_ok\<close>: the \<open>vm\<close> module could be opened.\<close>

definition video_init :: "bool \<Rightarrow> 'a vids_scheme \<Rightarrow> bool \<times> 'a vids_scheme" where
  "video_init vm_ok s =
     (let s1 = s\<lparr>viewed_video := None, video_list := []\<rparr> in
      if \<not> vm_ok then (False, s1)
      else (True, add_io_handler False video_io (add_io_handler False video_mda_io (add_video Cga (add_video Mda s1)))))"

definition video_expunge :: "int \<Rightarrow> 'a vids_scheme \<Rightarrow> bool \<times> 'a vids_scheme" where
  "video_expunge open_count s =
     (if open_count = 0 then (True, remove_io_handler False video_mda_io (remove_io_handler False video_io s)) else (False, s))"

definition init_video :: "nat \<Rightarrow> tid \<Rightarrow> cstr \<Rightarrow> u32 \<Rightarrow> 'a vids_scheme \<Rightarrow> bool \<times> 'a vids_scheme" where
  "init_video v t ty flags s =
     (case List.find (\<lambda>ops. strcaseeq (ops_name ops) ty) (video_list s) of None \<Rightarrow> (False, s)
      | Some ops \<Rightarrow>
          (let s1 = vid_upd v (\<lambda>x. x\<lparr>v_ops := ops, v_task := t, in_view := False\<rparr>) s
           in case ops of Mda \<Rightarrow> init_mda v flags s1 | Cga \<Rightarrow> init_cga v flags s1))"

definition video_inb :: "nat \<Rightarrow> u16 \<Rightarrow> 'a vids_scheme \<Rightarrow> u8 \<times> 'a vids_scheme" where
  "video_inb v port s = (case v_ops (videos s v) of Mda \<Rightarrow> mda_inb v port s | Cga \<Rightarrow> cga_inb v port s)"

definition video_outb :: "nat \<Rightarrow> u8 \<Rightarrow> u16 \<Rightarrow> 'a vids_scheme \<Rightarrow> 'a vids_scheme" where
  "video_outb v b port s = (case v_ops (videos s v) of Mda \<Rightarrow> mda_outb v b port s | Cga \<Rightarrow> cga_outb v b port s)"

definition video_find_page :: "nat \<Rightarrow> u32 \<Rightarrow> 'a vids_scheme \<Rightarrow> u32" where
  "video_find_page v pg s = (case v_ops (videos s v) of Mda \<Rightarrow> mda_find_page v pg s | Cga \<Rightarrow> cga_find_page v pg s)"

definition video_set_mode :: "nat \<Rightarrow> u32 \<Rightarrow> 'a vids_scheme \<Rightarrow> bool \<times> 'a vids_scheme" where
  "video_set_mode v mode s = (case v_ops (videos s v) of Mda \<Rightarrow> mda_set_mode v mode s | Cga \<Rightarrow> cga_set_mode v mode s)"

text \<open>The port handlers of the guest's accesses.\<close>

definition video_in :: "u16 \<Rightarrow> nat \<Rightarrow> 'a vids_scheme \<Rightarrow> u32 \<times> 'a vids_scheme" where
  "video_in port sz s =
     (if sz \<noteq> 1 then (0, s) else (case video_inb (vm_video s) port s of (b, s1) \<Rightarrow> (ucast b, s1)))"

definition video_out :: "u16 \<Rightarrow> nat \<Rightarrow> u32 \<Rightarrow> 'a vids_scheme \<Rightarrow> 'a vids_scheme" where
  "video_out port sz val s = (if sz = 1 then video_outb (vm_video s) (ucast val) port s else s)"

definition switch_from :: "nat \<Rightarrow> 'a vids_scheme \<Rightarrow> 'a vids_scheme" where
  "switch_from v s = (case v_ops (videos s v) of Mda \<Rightarrow> mda_switch_from v s | Cga \<Rightarrow> cga_switch_from v s)"

definition switch_to :: "nat \<Rightarrow> 'a vids_scheme \<Rightarrow> 'a vids_scheme" where
  "switch_to v s = (case v_ops (videos s v) of Mda \<Rightarrow> mda_switch_to v s | Cga \<Rightarrow> cga_switch_to v s)"

definition switch_video :: "nat option \<Rightarrow> 'a vids_scheme \<Rightarrow> 'a vids_scheme" where
  "switch_video v s =
     (if viewed_video s = v then s
      else (let s1 = (case viewed_video s of None \<Rightarrow> s
                | Some o1 \<Rightarrow> vid_upd o1 (\<lambda>x. x\<lparr>in_view := False\<rparr>)
                    (switch_from o1 (vga_disable_video (v_vga (videos s o1)) s)));
                s2 = s1\<lparr>viewed_video := v\<rparr>
            in case v of None \<Rightarrow> s2
               | Some n \<Rightarrow>
                   (let s3 = vid_upd n (\<lambda>x. x\<lparr>in_view := True\<rparr>) s2;
                        s4 = switch_to n (vga_load_regs (v_vga (videos s3 n)) s3)
                    in vga_enable_video (v_vga (videos s4 n)) s4)))"

definition kill_video :: "nat \<Rightarrow> 'a vids_scheme \<Rightarrow> 'a vids_scheme" where
  "kill_video v s =
     (let s1 = (if viewed_video s = Some v then switch_video None s else s)
      in case v_ops (videos s1 v) of Mda \<Rightarrow> mda_kill v s1 | Cga \<Rightarrow> cga_kill v s1)"

end
