(* ===== verification/Tty.thy ===== *)
theory Tty
  imports Video Printf
begin

text \<open>
  The terminals (drivers/physical/tty/tty.c): output to the text page of a display, the cursor, the
  speaker and the switching between terminals.  A terminal and the display that is part of its
  structure have the same number.  The keyboards are those of the keyboard driver: here only which
  terminal has the focus is kept.  While the speaker sounds the task sleeps and other tasks run;
  the model goes on with its own state.
\<close>

unbundle bit_operations_syntax

section \<open>The state\<close>

datatype tty_kbd_type = Raw | Cooked | Virtual

record tty =
  t_owner :: tid
  kbd_type :: tty_kbd_type
  current_page :: u8
  tty_x :: int
  tty_y :: int
  rl_history :: "nat list"
  rl_history_size :: int

record ttys = vids +
  ttys :: "nat \<Rightarrow> tty"
  tty_list :: "nat list"
  current_tty :: "nat option"
  kbd_focus :: "nat option"

text \<open>Conversion to \<open>short\<close>.\<close>

definition short :: "int \<Rightarrow> int" where
  "short i = signed_take_bit 15 i"

definition tty_upd :: "nat \<Rightarrow> (tty \<Rightarrow> tty) \<Rightarrow> 'a ttys_scheme \<Rightarrow> 'a ttys_scheme" where
  "tty_upd t f s = s\<lparr>ttys := (ttys s)(t := f (ttys s t))\<rparr>"

definition TTY_COLS :: "nat \<Rightarrow> 'a ttys_scheme \<Rightarrow> int" where "TTY_COLS t s = uint (mi_cols (v_mi (videos s t)))"
definition TTY_ROWS :: "nat \<Rightarrow> 'a ttys_scheme \<Rightarrow> int" where "TTY_ROWS t s = uint (mi_rows (v_mi (videos s t)))"
definition TTY_PAGE_SIZE :: "nat \<Rightarrow> 'a ttys_scheme \<Rightarrow> u32" where "TTY_PAGE_SIZE t s = mi_page_size (v_mi (videos s t))"
definition TTY_NUM_PAGES :: "nat \<Rightarrow> 'a ttys_scheme \<Rightarrow> u32" where "TTY_NUM_PAGES t s = mi_pages (v_mi (videos s t))"
definition TTY_CRT_I :: "nat \<Rightarrow> 'a ttys_scheme \<Rightarrow> u16" where "TTY_CRT_I t s = crt_i (v_vga (videos s t))"
definition TTY_CRT_D :: "nat \<Rightarrow> 'a ttys_scheme \<Rightarrow> u16" where "TTY_CRT_D t s = crt_d (v_vga (videos s t))"

text \<open>\<open>video->find_page (&tty->video, tty->current_page)\<close>\<close>

definition tty_buf :: "nat \<Rightarrow> 'a ttys_scheme \<Rightarrow> u32" where
  "tty_buf t s = video_find_page t (ucast (current_page (ttys s t))) s"

section \<open>Output\<close>

definition tty_scroll_up :: "nat \<Rightarrow> 'a ttys_scheme \<Rightarrow> 'a ttys_scheme" where
  "tty_scroll_up t s =
     (let buf = tty_buf t s; c = TTY_COLS t s; r = TTY_ROWS t s;
          m = memcpy (mem s) buf (buf + of_int (c * 2)) (of_int (c * 2 * (r - 1)))
      in s\<lparr>mem := memsetw m (buf + of_int (c * 2 * (r - 1))) 0x0720 (nat c)\<rparr>)"

text \<open>One register of the CRT controller: the index, then the value.\<close>

definition put_crt :: "nat \<Rightarrow> u8 \<Rightarrow> u8 \<Rightarrow> 'a ttys_scheme \<Rightarrow> 'a ttys_scheme" where
  "put_crt t i b s = (let s1 = video_outb t i (TTY_CRT_I t s) s in video_outb t b (TTY_CRT_D t s1) s1)"

definition tty_set_cursor :: "nat \<Rightarrow> int \<Rightarrow> int \<Rightarrow> 'a ttys_scheme \<Rightarrow> 'a ttys_scheme" where
  "tty_set_cursor t x y s =
     (if x > TTY_COLS t s \<or> y > TTY_ROWS t s then s
      else (let s1 = tty_upd t (\<lambda>r. r\<lparr>tty_x := x, tty_y := y\<rparr>) s;
                offset = (of_int (x + y * TTY_COLS t s) :: u16)
            in put_crt t 15 (ucast (offset AND 255)) (put_crt t 14 (ucast (drop_bit 8 offset)) s1)))"

definition get_crt :: "nat \<Rightarrow> u8 \<Rightarrow> 'a ttys_scheme \<Rightarrow> u8 \<times> 'a ttys_scheme" where
  "get_crt t i s = (let s1 = video_outb t i (TTY_CRT_I t s) s in video_inb t (TTY_CRT_D t s1) s1)"

definition tty_read_cursor :: "nat \<Rightarrow> 'a ttys_scheme \<Rightarrow> 'a ttys_scheme" where
  "tty_read_cursor t s =
     (case get_crt t 14 s of (h, s1) \<Rightarrow> (case get_crt t 15 s1 of (l, s2) \<Rightarrow>
        (let offset = (push_bit 8 (ucast h) OR ucast l :: u16)
         in tty_upd t (\<lambda>r. r\<lparr>tty_x := short (uint offset mod TTY_COLS t s2), tty_y := short (uint offset div TTY_COLS t s2)\<rparr>) s2)))"

definition tty_clear :: "nat \<Rightarrow> 'a ttys_scheme \<Rightarrow> 'a ttys_scheme" where
  "tty_clear t s =
     tty_set_cursor t 0 0 (s\<lparr>mem := memsetw (mem s) (tty_buf t s) 0x0720 (nat (TTY_COLS t s * TTY_ROWS t s))\<rparr>)"

definition char_offset :: "nat \<Rightarrow> 'a ttys_scheme \<Rightarrow> int" where
  "char_offset t s = tty_y (ttys s t) * TTY_COLS t s * 2 + tty_x (ttys s t) * 2"

text \<open>The length is counted in characters, the limit in bytes.\<close>

definition tty_clear_chars :: "nat \<Rightarrow> u32 \<Rightarrow> 'a ttys_scheme \<Rightarrow> 'a ttys_scheme" where
  "tty_clear_chars t len s =
     (let offset = of_int (char_offset t s);
          n = (if offset + len \<ge> TTY_PAGE_SIZE t s then TTY_PAGE_SIZE t s - offset else len)
      in s\<lparr>mem := memsetw (mem s) (tty_buf t s + offset) 0x0720 (unat n)\<rparr>)"

section \<open>The speaker\<close>

definition speaker_on :: "u32 \<Rightarrow> 'a ttys_scheme \<Rightarrow> 'a ttys_scheme" where
  "speaker_on freq s =
     (let divisor = (ucast (1193180 div freq :: u32) :: u16);
          s1 = outb (ucast (drop_bit 8 divisor AND 0xff)) 0x42 (outb (ucast (divisor AND 0xff)) 0x42 (outb 0xb6 0x43 s));
          (b, s2) = inb 0x61 s1
      in outb (b OR 3) 0x61 s2)"

definition speaker_off :: "'a ttys_scheme \<Rightarrow> 'a ttys_scheme" where
  "speaker_off s = (case inb 0x61 s of (b, s1) \<Rightarrow> outb (b AND 0xfc) 0x61 s1)"

definition mksound :: "u32 \<Rightarrow> 'a ttys_scheme \<Rightarrow> 'a ttys_scheme" where
  "mksound freq s = speaker_off (speaker_on freq s)"

definition tty_beep :: "'a ttys_scheme \<Rightarrow> 'a ttys_scheme" where
  "tty_beep s = mksound 600 s"

section \<open>Printing\<close>

text \<open>
  The loop of \<open>tty_printn\<close>; \<open>cc\<close> is the pointer \<open>cursor_char\<close>.  A TAB
  or BEL in the column behind the last one is not recognised: the line is wrapped and the code
  printed as it is.
\<close>

definition curs :: "nat \<Rightarrow> u32 \<Rightarrow> 'a ttys_scheme \<Rightarrow> u32" where
  "curs t buf s = buf + of_int (char_offset t s)"

definition put_glyph :: "nat \<Rightarrow> u8 \<Rightarrow> u32 \<times> 'a ttys_scheme \<Rightarrow> u32 \<times> 'a ttys_scheme" where
  "put_glyph t c = (\<lambda>(cc, s). (cc + 2,
     tty_upd t (\<lambda>r. r\<lparr>tty_x := short (tty_x r + 1)\<rparr>) (s\<lparr>mem := store8 (store8 (mem s) cc c) (cc + 1) 7\<rparr>)))"

definition new_line :: "nat \<Rightarrow> u32 \<Rightarrow> 'a ttys_scheme \<Rightarrow> u32 \<times> 'a ttys_scheme" where
  "new_line t buf s =
     (let s1 = tty_upd t (\<lambda>r. r\<lparr>tty_x := 0, tty_y := short (tty_y r + 1)\<rparr>) s;
          s2 = (if tty_y (ttys s1 t) = TTY_ROWS t s1
                then tty_upd t (\<lambda>r. r\<lparr>tty_y := short (tty_y r - 1)\<rparr>) (tty_scroll_up t s1) else s1)
      in (curs t buf s2, s2))"

definition print_char :: "nat \<Rightarrow> u32 \<Rightarrow> u8 \<Rightarrow> u32 \<times> 'a ttys_scheme \<Rightarrow> u32 \<times> 'a ttys_scheme" where
  "print_char t buf c = (\<lambda>(cc, s).
     (if c = 10 \<or> tty_x (ttys s t) \<ge> TTY_COLS t s
      then (if c = 10 then new_line t buf s else put_glyph t c (new_line t buf s))
      else if c = 9
      then (let x = tty_x (ttys s t); new_x = (x + 8) AND NOT 7;
                s1 = tty_upd t (\<lambda>r. r\<lparr>tty_x := short new_x\<rparr>) (s\<lparr>mem := memsetw (mem s) cc 0x0720 (nat (new_x - x))\<rparr>)
            in (curs t buf s1, s1))
      else if c = 7 then (cc, tty_beep s)
      else put_glyph t c (cc, s)))"

definition tty_printn :: "nat \<Rightarrow> u8 list \<Rightarrow> 'a ttys_scheme \<Rightarrow> 'a ttys_scheme" where
  "tty_printn t txt s =
     (let buf = tty_buf t s;
          s1 = snd (fold (print_char t buf) txt (curs t buf s, s))
      in tty_set_cursor t (tty_x (ttys s1 t)) (tty_y (ttys s1 t)) s1)"

definition tty_print :: "nat \<Rightarrow> cstr \<Rightarrow> 'a ttys_scheme \<Rightarrow> 'a ttys_scheme" where
  "tty_print t buf s = tty_printn t (takeWhile (\<lambda>c. c \<noteq> 0) buf) s"

text \<open>Formatted output, as long as it fits into the buffer of 1024 bytes.\<close>

definition tty_vprintf :: "(u32 \<Rightarrow> cstr) \<Rightarrow> nat \<Rightarrow> cstr \<Rightarrow> u32 list \<Rightarrow> 'a ttys_scheme \<Rightarrow> 'a ttys_scheme option" where
  "tty_vprintf str t fmt args s =
     (case kvsprintf str fmt args of None \<Rightarrow> None
      | Some out \<Rightarrow> if length out < 1024 then Some (tty_print t out s) else None)"

definition tty_printf :: "(u32 \<Rightarrow> cstr) \<Rightarrow> nat \<Rightarrow> cstr \<Rightarrow> u32 list \<Rightarrow> 'a ttys_scheme \<Rightarrow> 'a ttys_scheme option" where
  "tty_printf = tty_vprintf"

text \<open>The page that is shown changes, \<open>current_page\<close> does not.\<close>

definition tty_set_page :: "nat \<Rightarrow> u32 \<Rightarrow> 'a ttys_scheme \<Rightarrow> 'a ttys_scheme" where
  "tty_set_page t pageno s =
     (if pageno < TTY_NUM_PAGES t s
      then (let bufstart = pageno * (TTY_PAGE_SIZE t s div 2)
            in put_crt t 13 (ucast (bufstart AND 255)) (put_crt t 12 (ucast (drop_bit 8 bufstart)) s))
      else s)"

section \<open>Switching\<close>

definition tty_to_front :: "nat \<Rightarrow> 'a ttys_scheme \<Rightarrow> 'a ttys_scheme" where
  "tty_to_front t s =
     (if current_tty s = Some t then s
      else switch_video (Some t) (s\<lparr>tty_list := t # remove1 t (tty_list s), current_tty := Some t, kbd_focus := Some t\<rparr>))"

definition next_tty :: "'a ttys_scheme \<Rightarrow> 'a ttys_scheme" where
  "next_tty s =
     (case tty_list s of
        _ # t # _ \<Rightarrow> tty_to_front t
           (case current_tty s of None \<Rightarrow> s | Some c \<Rightarrow> s\<lparr>tty_list := remove1 c (tty_list s) @ [c]\<rparr>)
      | _ \<Rightarrow> s)"

definition prev_tty :: "'a ttys_scheme \<Rightarrow> 'a ttys_scheme" where
  "prev_tty s = (if tty_list s = [] then s else tty_to_front (last (tty_list s)) s)"

text \<open>
  \<open>open_tty\<close> for a structure \<open>t\<close> that \<open>calloc\<close> has delivered;
  \<open>vkbd_ok\<close>: the module of the virtual keyboards could be opened.
\<close>

definition open_tty :: "bool \<Rightarrow> nat \<Rightarrow> tid \<Rightarrow> tty_kbd_type \<Rightarrow> cstr \<Rightarrow> u32 \<Rightarrow> 'a ttys_scheme \<Rightarrow> bool \<times> 'a ttys_scheme" where
  "open_tty vkbd_ok t owner kt video_type video_flags s =
     (if kt = Virtual \<and> \<not> vkbd_ok then (False, s)
      else (let s1 = tty_upd t (\<lambda>r. \<lparr>t_owner = owner, kbd_type = kt, current_page = 0, tty_x = 0, tty_y = 0,
                       rl_history = [], rl_history_size = 0\<rparr>) s
            in case init_video t owner video_type video_flags s1 of (ok, s2) \<Rightarrow>
              if \<not> ok then (False, s2)
              else (let s3 = tty_read_cursor t s2
                    in (True, tty_to_front t (s3\<lparr>tty_list := tty_list s3 @ [t]\<rparr>)))))"

text \<open>The history is freed and forgotten with the terminal.\<close>

definition close_tty :: "nat \<Rightarrow> 'a ttys_scheme \<Rightarrow> 'a ttys_scheme" where
  "close_tty t s =
     (let s1 = s\<lparr>tty_list := remove1 t (tty_list s)\<rparr>;
          s2 = (if current_tty s1 = Some t
                then (case tty_list s1 of [] \<Rightarrow> s1\<lparr>current_tty := None\<rparr> | f # _ \<Rightarrow> tty_to_front f s1) else s1)
      in tty_upd t (\<lambda>r. r\<lparr>rl_history := []\<rparr>) (kill_video t s2))"

definition db_print :: "cstr \<Rightarrow> 'a ttys_scheme \<Rightarrow> 'a ttys_scheme option" where
  "db_print str s = map_option (\<lambda>t. tty_printn t str s) (current_tty s)"

end
