(* ===== verification/Readline.thy ===== *)
theory Readline
  imports Tty "HOL-Library.Monad_Syntax"
begin

text \<open>
  The line editor of the terminals (drivers/physical/tty/readline.c).  The history of a terminal is
  a list of nodes in the kernel's heap: \<open>hist_store\<close> maps the address of a node to its
  contents and a freed or never allocated address to None.  An operation that follows a freed or a
  null pointer, or that moves memory outside the line's buffer, has the result None.  Of the
  buffer the model holds the first \<open>line_len\<close> bytes (\<open>rl_line\<close>) and the size
  (\<open>buf_len\<close>); \<open>buf_null\<close> says that a failed \<open>realloc\<close> has left a null
  pointer.  \<open>alloc_ok n\<close> is the success of the n-th allocation and \<open>keys\<close> what the
  keyboard delivers.
\<close>

unbundle bit_operations_syntax

section \<open>The state\<close>

record rl_hist =
  h_line :: "u8 list"
  h_cursor :: int

record rls = ttys +
  hist_store :: "nat \<Rightarrow> rl_hist option"
  hist_next :: nat
  alloc_ok :: "nat \<Rightarrow> bool"
  alloc_count :: nat
  keys :: "u8 list"

record rl_info =
  rl_tty :: nat
  rl_cursor :: int
  rl_cursor_x :: int
  rl_cursor_y :: int
  mark_pos :: int
  prompt_end_x :: int
  prompt_end_y :: int
  rl_line :: "u8 list"
  buf_len :: nat
  buf_null :: bool
  current_prefix_arg :: int
  next_prefix_arg :: int
  valid_current_arg :: bool
  valid_next_arg :: bool
  had_esc :: bool
  had_ctrl_x :: bool
  in_cursor :: bool
  current_item :: "nat option"

type_synonym 'a rl_state = "rl_info \<times> 'a rls_scheme"

definition PREFIX_ARG :: "rl_info \<Rightarrow> int" where
  "PREFIX_ARG rl = (if valid_current_arg rl then current_prefix_arg rl else 1)"

definition rl_history_max :: int where "rl_history_max = 50"
definition rl_no_duplicates :: bool where "rl_no_duplicates = True"

abbreviation line_len :: "rl_info \<Rightarrow> int" where "line_len rl \<equiv> int (length (rl_line rl))"

definition try_alloc :: "'a rls_scheme \<Rightarrow> bool \<times> 'a rls_scheme" where
  "try_alloc s = (alloc_ok s (alloc_count s), s\<lparr>alloc_count := alloc_count s + 1\<rparr>)"

definition hist :: "rl_info \<Rightarrow> 'a rls_scheme \<Rightarrow> nat list" where
  "hist rl s = rl_history (ttys s (rl_tty rl))"

definition set_hist :: "rl_info \<Rightarrow> nat list \<Rightarrow> 'a rls_scheme \<Rightarrow> 'a rls_scheme" where
  "set_hist rl h s = tty_upd (rl_tty rl) (\<lambda>r. r\<lparr>rl_history := h\<rparr>) s"

definition add_hist_size :: "rl_info \<Rightarrow> int \<Rightarrow> 'a rls_scheme \<Rightarrow> 'a rls_scheme" where
  "add_hist_size rl d s = tty_upd (rl_tty rl) (\<lambda>r. r\<lparr>rl_history_size := rl_history_size r + d\<rparr>) s"

section \<open>The screen\<close>

text \<open>\<open>pos\<close> is unsigned, the row is the unsigned sum read as a \<open>long\<close>.\<close>

definition rl_find_pos :: "rl_info \<Rightarrow> int \<Rightarrow> 'a rls_scheme \<Rightarrow> int \<times> int" where
  "rl_find_pos rl pos s =
     (let u = (pos + prompt_end_x rl) mod 2 ^ 32; c = TTY_COLS (rl_tty rl) s
      in (u mod c, signed_take_bit 31 (prompt_end_y rl + u div c)))"

text \<open>The loop of \<open>rl_find_cursor\<close>, for a screen of \<open>rows\<close> rows.\<close>

function rl_scroll :: "int \<Rightarrow> 'a rl_state \<Rightarrow> 'a rl_state" where
  "rl_scroll rows (rl, s) =
     (if rl_cursor_y rl \<ge> rows
      then rl_scroll rows (rl\<lparr>prompt_end_y := prompt_end_y rl - 1, rl_cursor_y := rl_cursor_y rl - 1\<rparr>, tty_scroll_up (rl_tty rl) s)
      else (rl, s))"
  by pat_completeness auto
termination
  by (relation "measure (\<lambda>(rows, rl, s). nat (rl_cursor_y rl - rows + 1))") auto

declare rl_scroll.simps [simp del]

definition rl_find_cursor :: "'a rl_state \<Rightarrow> 'a rl_state" where
  "rl_find_cursor = (\<lambda>(rl, s). case rl_find_pos rl (rl_cursor rl) s of (x, y) \<Rightarrow>
     rl_scroll (TTY_ROWS (rl_tty rl) s) (rl\<lparr>rl_cursor_x := x, rl_cursor_y := y\<rparr>, s))"

definition rl_set_cursor :: "rl_info \<Rightarrow> 'a rls_scheme \<Rightarrow> 'a rls_scheme" where
  "rl_set_cursor rl s = tty_set_cursor (rl_tty rl) (short (rl_cursor_x rl)) (short (rl_cursor_y rl)) s"

definition move_to :: "rl_info \<Rightarrow> int \<Rightarrow> int \<Rightarrow> 'a rls_scheme \<Rightarrow> 'a rls_scheme" where
  "move_to rl x y s = tty_upd (rl_tty rl) (\<lambda>r. r\<lparr>tty_x := short x, tty_y := short y\<rparr>) s"

definition rl_redisplay_from :: "rl_info \<Rightarrow> nat \<Rightarrow> 'a rls_scheme \<Rightarrow> 'a rls_scheme option" where
  "rl_redisplay_from rl start s =
     (if start \<ge> length (rl_line rl) then Some s
      else case rl_find_pos rl (int start) s of (x, y) \<Rightarrow>
        if y \<ge> TTY_ROWS (rl_tty rl) s then Some s
        else if buf_null rl then None
        else Some (rl_set_cursor rl (tty_printn (rl_tty rl) (drop start (rl_line rl)) (move_to rl x y s))))"

definition rl_redisplay :: "rl_info \<Rightarrow> 'a rls_scheme \<Rightarrow> 'a rls_scheme option" where
  "rl_redisplay rl s =
     (if buf_null rl \<and> rl_line rl \<noteq> [] then None
      else Some (rl_set_cursor rl (tty_printn (rl_tty rl) (rl_line rl) (move_to rl (prompt_end_x rl) (prompt_end_y rl) s))))"

section \<open>The line\<close>

definition rl_realloc_buf :: "nat \<Rightarrow> 'a rl_state \<Rightarrow> bool \<times> 'a rl_state" where
  "rl_realloc_buf min_len = (\<lambda>(rl, s). case try_alloc s of (ok, s1) \<Rightarrow>
     (ok, rl\<lparr>buf_len := unat (round_to (of_nat min_len + 8) 256 - 8), buf_null := \<not> ok\<rparr>, s1))"

text \<open>Insertion at the cursor; without memory for it nothing is inserted.\<close>

definition rl_insert :: "u8 list \<Rightarrow> 'a rl_state \<Rightarrow> (bool \<times> 'a rl_state) option" where
  "rl_insert str = (\<lambda>(rl, s).
     let n = length str; (ok, rl1, s1) = (if length (rl_line rl) + n \<ge> buf_len rl
           then rl_realloc_buf (length (rl_line rl) + n + 2) (rl, s) else (True, rl, s))
     in if \<not> ok then Some (False, rl1, s1)
        else if buf_null rl1 \<or> rl_cursor rl1 < 0 \<or> rl_cursor rl1 > line_len rl1 then None
        else (let c = nat (rl_cursor rl1);
                  rl2 = rl1\<lparr>rl_line := take c (rl_line rl1) @ str @ drop c (rl_line rl1),
                            mark_pos := (if mark_pos rl1 \<ge> rl_cursor rl1 then mark_pos rl1 + int n else mark_pos rl1),
                            rl_cursor := rl_cursor rl1 + int n\<rparr>;
                  (rl3, s3) = rl_find_cursor (rl2, s1)
              in do { s4 \<leftarrow> rl_redisplay_from rl3 c s3; Some (True, rl3, s4) }))"

text \<open>
  Deletion.  A position behind the end of the line only ends up with nothing to delete; the extent
  is not limited to the rest of the line, so \<open>memmove\<close> may be asked for a negative number
  of bytes, and it may be negative itself, which makes the line longer.
\<close>

definition moved_pos :: "int \<Rightarrow> int \<Rightarrow> int \<Rightarrow> int" where
  "moved_pos start extent p =
     (if p mod 2 ^ 32 \<ge> start then if p mod 2 ^ 32 < start + extent then start else p - extent else p)"

definition rl_delete_at :: "int \<Rightarrow> int \<Rightarrow> 'a rl_state \<Rightarrow> 'a rl_state option" where
  "rl_delete_at start extent = (\<lambda>(rl, s).
     if (buf_null rl \<and> start + extent < line_len rl) \<or> start + extent < 0 \<or> start + extent > line_len rl \<or> line_len rl - extent > int (buf_len rl) then None
     else (let rl1 = rl\<lparr>rl_line := take (nat start) (rl_line rl) @ drop (nat (start + extent)) (rl_line rl),
                        rl_cursor := moved_pos start extent (rl_cursor rl), mark_pos := moved_pos start extent (mark_pos rl)\<rparr>;
               (x, y) = rl_find_pos rl1 (line_len rl1) s;
               s1 = tty_clear_chars (rl_tty rl) (of_int extent) (move_to rl1 x y s);
               (rl2, s2) = rl_find_cursor (rl1, s1)
           in do { s3 \<leftarrow> rl_redisplay_from rl2 (nat (rl_cursor rl2)) s2; Some (rl2, s3) }))"

definition rl_delete :: "int \<Rightarrow> int \<Rightarrow> 'a rl_state \<Rightarrow> 'a rl_state option" where
  "rl_delete start extent = (\<lambda>(rl, s).
     if start < 0 \<or> start > line_len rl
     then (let e = extent - (line_len rl - start) in
           if e \<le> 0 then Some (rl, s) else rl_delete_at (line_len rl) e (rl, s))
     else rl_delete_at start extent (rl, s))"

section \<open>The history\<close>

definition rl_alloc_history :: "rl_info \<Rightarrow> 'a rls_scheme \<Rightarrow> nat option \<times> 'a rls_scheme" where
  "rl_alloc_history rl s =
     (case try_alloc s of (ok, s1) \<Rightarrow>
        if ok then (Some (hist_next s1),
            s1\<lparr>hist_store := (hist_store s1)(hist_next s1 \<mapsto> \<lparr>h_line = rl_line rl, h_cursor = rl_cursor rl\<rparr>), hist_next := hist_next s1 + 1\<rparr>)
        else (None, s1))"

definition rl_free_history :: "rl_info \<Rightarrow> nat \<Rightarrow> 'a rls_scheme \<Rightarrow> 'a rls_scheme option" where
  "rl_free_history rl p s =
     (if hist_store s p = None \<or> p \<notin> List.set (hist rl s) then None
      else Some ((set_hist rl (removeAll p (hist rl s)) s)\<lparr>hist_store := (hist_store s)(p := None)\<rparr>))"

text \<open>The list is emptied node by node (\<open>close_tty\<close>).\<close>

definition rl_free_history_list :: "nat \<Rightarrow> 'a rls_scheme \<Rightarrow> 'a rls_scheme" where
  "rl_free_history_list t s =
     (tty_upd t (\<lambda>r. r\<lparr>rl_history := []\<rparr>) s)\<lparr>hist_store := (\<lambda>p. if p \<in> List.set (rl_history (ttys s t)) then None else hist_store s p)\<rparr>"

text \<open>The loop that makes room: it goes by the counter, so it may reach the end of the list.\<close>

function rl_trim_history :: "nat option \<Rightarrow> 'a rl_state \<Rightarrow> (nat option \<times> 'a rl_state) option" where
  "rl_trim_history item (rl, s) =
     (if rl_history_size (ttys s (rl_tty rl)) \<ge> rl_history_max
      then if hist rl s = [] then None
        else (let p = last (hist rl s) in
          case rl_free_history rl p s of None \<Rightarrow> None
          | Some s1 \<Rightarrow> rl_trim_history (if item = Some p then None else item)
              (if current_item rl = Some p then rl\<lparr>current_item := None\<rparr> else rl, add_hist_size rl (- 1) s1))
      else Some (item, rl, s))"
  by pat_completeness auto
termination
  by (relation "measure (\<lambda>(item, rl, s). nat (rl_history_size (ttys s (rl_tty rl)) - rl_history_max + 1))")
    (auto simp: rl_free_history_def set_hist_def add_hist_size_def tty_upd_def split: if_splits)

declare rl_trim_history.simps [simp del]

definition rl_add_history :: "nat option \<Rightarrow> 'a rl_state \<Rightarrow> (bool \<times> 'a rl_state) option" where
  "rl_add_history item0 st = do {
     (item, rl, s) \<leftarrow> rl_trim_history item0 st;
     if buf_null rl \<and> rl_line rl \<noteq> [] then None
     else case item of
       None \<Rightarrow> (case rl_alloc_history rl s of
           (None, s1) \<Rightarrow> Some (False, rl, s1)
         | (Some p, s1) \<Rightarrow> Some (True, rl, add_hist_size rl 1 (set_hist rl (p # hist rl s1) s1)))
     | Some q \<Rightarrow> do {
         old \<leftarrow> hist_store s q;
         if length (h_line old) = length (rl_line rl)
         then Some (True, rl, s\<lparr>hist_store := (hist_store s)(q \<mapsto> \<lparr>h_line = rl_line rl, h_cursor = rl_cursor rl\<rparr>)\<rparr>)
         else (case rl_alloc_history rl s of
             (None, s1) \<Rightarrow> Some (False, rl, s1)
           | (Some p, s1) \<Rightarrow> do {
               s2 \<leftarrow> rl_free_history rl q (set_hist rl (concat (map (\<lambda>x. if x = q then [q, p] else [x]) (hist rl s1))) s1);
               Some (True, rl, s2) }) } }"

definition rl_load_history :: "nat \<Rightarrow> 'a rl_state \<Rightarrow> (bool \<times> 'a rl_state) option" where
  "rl_load_history p = (\<lambda>(rl0, s0). do {
     item \<leftarrow> hist_store s0 p;
     let (ok, rl, s) = (if length (h_line item) \<ge> buf_len rl0
           then rl_realloc_buf (length (h_line item) + 1) (rl0, s0) else (True, rl0, s0));
     if \<not> ok then Some (False, rl, s)
     else if buf_null rl \<and> h_line item \<noteq> [] then None
     else (let s1 = tty_clear_chars (rl_tty rl) (of_int (line_len rl)) (move_to rl (prompt_end_x rl) (prompt_end_y rl) s);
               rl1 = rl\<lparr>rl_line := h_line item, rl_cursor := h_cursor item, mark_pos := 0\<rparr>
           in do {
             (rl2, s2) \<leftarrow> (if hist rl1 s1 \<noteq> [] \<and> hd (hist rl1 s1) = p
                then do { s2 \<leftarrow> rl_free_history rl1 p s1; Some (rl1\<lparr>current_item := None\<rparr>, add_hist_size rl1 (- 1) s2) }
                else Some (rl1\<lparr>current_item := Some p\<rparr>, s1));
             let (rl3, s3) = rl_find_cursor (rl2, s2);
             s4 \<leftarrow> rl_redisplay rl3 s3;
             Some (True, rl3, s4) }) })"

definition rl_use_history :: "nat \<Rightarrow> 'a rl_state \<Rightarrow> 'a rl_state option" where
  "rl_use_history p st = do {
     (ok, st1) \<leftarrow> rl_add_history (current_item (fst st)) st;
     if \<not> ok then Some st1 else map_option snd (rl_load_history p st1) }"

text \<open>
  \<open>rl_enter_history\<close>: the line is compared with the last one entered; with a history item
  in use the head of the list is the line that was being edited when the history was entered, and the
  last one is the node behind it, a null pointer when there is none.
\<close>

definition rl_enter_history :: "'a rl_state \<Rightarrow> 'a rl_state option" where
  "rl_enter_history = (\<lambda>(rl, s).
     if rl_line rl = [] then Some (rl, s)
     else if current_item rl \<noteq> None \<and> hist rl s = [] then None
     else (let item = (if current_item rl = None then None else Some (hd (hist rl s))) in
       if rl_no_duplicates \<and> hist rl s \<noteq> []
       then do {
         l \<leftarrow> (if current_item rl = None then Some (hd (hist rl s))
                else case tl (hist rl s) of [] \<Rightarrow> None | x # _ \<Rightarrow> Some x);
         old \<leftarrow> hist_store s l;
         if buf_null rl then None
         else if h_line old \<noteq> rl_line rl then map_option snd (rl_add_history item (rl, s))
         else (case item of None \<Rightarrow> Some (rl, s) | Some q \<Rightarrow> do { s1 \<leftarrow> rl_free_history rl q s; Some (rl, s1) }) }
       else map_option snd (rl_add_history item (rl, s))))"

section \<open>Commands\<close>

text \<open>The commands return whether the cursor has moved.\<close>

definition rl_forward_char :: "int \<Rightarrow> 'a rl_state \<Rightarrow> bool \<times> 'a rl_state" where
  "rl_forward_char count = (\<lambda>(rl, s).
     let c = rl_cursor rl + count in
     if c < 0 then (True, rl\<lparr>rl_cursor := 0\<rparr>, tty_beep s)
     else if c > line_len rl then (True, rl\<lparr>rl_cursor := line_len rl\<rparr>, tty_beep s)
     else (True, rl\<lparr>rl_cursor := c\<rparr>, s))"

definition rl_beginning_of_line :: "'a rl_state \<Rightarrow> bool \<times> 'a rl_state" where
  "rl_beginning_of_line = (\<lambda>(rl, s). (True, rl\<lparr>rl_cursor := 0\<rparr>, s))"

definition rl_end_of_line :: "'a rl_state \<Rightarrow> bool \<times> 'a rl_state" where
  "rl_end_of_line = (\<lambda>(rl, s). (True, rl\<lparr>rl_cursor := line_len rl\<rparr>, s))"

definition rl_backward_delete_char :: "'a rl_state \<Rightarrow> (bool \<times> 'a rl_state) option" where
  "rl_backward_delete_char = (\<lambda>(rl, s).
     let length0 = PREFIX_ARG rl; start0 = rl_cursor rl - length0;
         (start, extent) = (if start0 < 0 then (0, length0 + start0) else (start0, length0))
     in do { st \<leftarrow> rl_delete start extent (rl, s); Some (True, st) })"

text \<open>\<open>rl_set_mark\<close> lacks a return statement: what it returns is a parameter, \<open>moved\<close>.\<close>

definition rl_set_mark :: "bool \<Rightarrow> 'a rl_state \<Rightarrow> bool \<times> 'a rl_state" where
  "rl_set_mark moved = (\<lambda>(rl, s). (moved, rl\<lparr>mark_pos := rl_cursor rl\<rparr>, s))"

definition rl_self_insert :: "u8 \<Rightarrow> 'a rl_state \<Rightarrow> (bool \<times> 'a rl_state) option" where
  "rl_self_insert c st = map_option (\<lambda>(ok, st1). (True, st1)) (rl_insert [c] st)"

definition rl_exchange_point_and_mark :: "'a rl_state \<Rightarrow> bool \<times> 'a rl_state" where
  "rl_exchange_point_and_mark = (\<lambda>(rl, s). (True, rl\<lparr>rl_cursor := mark_pos rl, mark_pos := rl_cursor rl\<rparr>, s))"

definition rl_beginning_of_history :: "'a rl_state \<Rightarrow> 'a rl_state option" where
  "rl_beginning_of_history = (\<lambda>(rl, s).
     if hist rl s \<noteq> [] then rl_use_history (last (hist rl s)) (rl, s) else Some (rl, tty_beep s))"

definition rl_end_of_history :: "'a rl_state \<Rightarrow> 'a rl_state option" where
  "rl_end_of_history = (\<lambda>(rl, s).
     if current_item rl = None then Some (rl, s)
     else if hist rl s \<noteq> [] then rl_use_history (hd (hist rl s)) (rl, s) else Some (rl, tty_beep s))"

text \<open>Index of an item in the list; the walk over \<open>count\<close> nodes beeps at either end.\<close>

primrec index_of :: "nat \<Rightarrow> nat list \<Rightarrow> nat option" where
  "index_of x [] = None"
| "index_of x (y # ys) = (if x = y then Some 0 else map_option Suc (index_of x ys))"

definition rl_next_history :: "int \<Rightarrow> 'a rl_state \<Rightarrow> 'a rl_state option" where
  "rl_next_history count = (\<lambda>(rl, s).
     case (case current_item rl of
             Some p \<Rightarrow> map_option (\<lambda>i. Some (int i, count)) (index_of p (hist rl s))
           | None \<Rightarrow> Some (if hist rl s = [] then None else Some (0, count + 1))) of
       None \<Rightarrow> None
     | Some None \<Rightarrow> Some (rl, tty_beep s)
     | Some (Some (i, n)) \<Rightarrow>
         if 0 \<le> i - n \<and> i - n < int (length (hist rl s)) then rl_use_history (hist rl s ! nat (i - n)) (rl, s)
         else Some (rl, tty_beep s))"

section \<open>The key loop\<close>

text \<open>
  The control keys: A, B, D, E, F, L, M, N, P, X, ESC and DEL.  \<open>Edit\<close>: go on with the next
  key; \<open>Finished\<close>: the loop ends, with or without a line.
\<close>

datatype 'a rl_step = Edit bool "'a rl_state" | Finished bool "'a rl_state"

definition rl_enter :: "'a rl_state \<Rightarrow> 'a rl_step option" where
  "rl_enter st = do {
     (rl1, s1) \<leftarrow> rl_enter_history st;
     let (rl2, s2) = rl_find_cursor (rl1\<lparr>rl_cursor := line_len rl1\<rparr>, s1);
     let s3 = tty_printn (rl_tty rl2) [10] (rl_set_cursor rl2 s2);
     if buf_null rl2 \<or> length (rl_line rl2) \<ge> buf_len rl2 then None
     else Some (Finished False (rl2\<lparr>rl_line := rl_line rl2 @ [10]\<rparr>, s3)) }"

definition rl_plain_key :: "bool \<Rightarrow> u8 \<Rightarrow> 'a rl_state \<Rightarrow> 'a rl_step option" where
  "rl_plain_key mark_ret c = (\<lambda>(rl, s).
     let cmd = (\<lambda>(m, st). Edit m st); arg = PREFIX_ARG rl
     in if c = 0x1b then Some (Edit False (rl\<lparr>had_esc := True\<rparr>, s))
        else if c = 0x18 then Some (Edit False (rl\<lparr>had_ctrl_x := True\<rparr>, s))
        else if c = 0x06 then Some (cmd (rl_forward_char arg (rl, s)))
        else if c = 0x02 then Some (cmd (rl_forward_char (- arg) (rl, s)))
        else if c = 0x01 then Some (cmd (rl_beginning_of_line (rl, s)))
        else if c = 0x05 then Some (cmd (rl_end_of_line (rl, s)))
        else if c = 0x04
        then (if rl_cursor rl = line_len rl then Some (Finished (rl_cursor rl = 0) (rl, s))
              else map_option (Edit False) (rl_delete (rl_cursor rl) arg (rl, s)))
        else if c = 0x7f then map_option cmd (rl_backward_delete_char (rl, s))
        else if c = 0x0d \<or> c = 0x0a then rl_enter (rl, s)
        else if c = 0x0c then map_option (\<lambda>s1. Edit False (rl, s1)) (rl_redisplay rl s)
        else if c = 0x00 then Some (cmd (rl_set_mark mark_ret (rl, s)))
        else if c = 0x0e then map_option (Edit False) (rl_next_history arg (rl, s))
        else if c = 0x10 then map_option (Edit False) (rl_next_history (- arg) (rl, s))
        else map_option cmd (rl_self_insert c (rl, s)))"

definition rl_ctrl_x_key :: "u8 \<Rightarrow> 'a rl_state \<Rightarrow> 'a rl_step" where
  "rl_ctrl_x_key c = (\<lambda>(rl0, s).
     let rl = rl0\<lparr>had_ctrl_x := False\<rparr> in
     if c = 0x1b then Edit False (rl\<lparr>had_esc := True\<rparr>, s)
     else if c = 0x18 then (case rl_exchange_point_and_mark (rl, s) of (m, st) \<Rightarrow> Edit m st)
     else Edit False (rl, tty_beep s))"

text \<open>\<open>int\<close> arithmetic on the prefix argument.\<close>

definition next_arg :: "rl_info \<Rightarrow> u8 \<Rightarrow> int" where
  "next_arg rl c =
     (let a = current_prefix_arg rl; d = uint c - 0x30 in
      if valid_current_arg rl then signed_take_bit 31 (if a \<ge> 0 then a * 10 + d else a * 10 - d) else d)"

definition rl_esc_key :: "u8 \<Rightarrow> 'a rl_state \<Rightarrow> 'a rl_step option" where
  "rl_esc_key c = (\<lambda>(rl0, s).
     let rl = rl0\<lparr>had_esc := False\<rparr> in
     if 0x30 \<le> c \<and> c \<le> 0x39 then Some (Edit False (rl\<lparr>next_prefix_arg := next_arg rl c, valid_next_arg := True\<rparr>, s))
     else if c = 0x2d
     then Some (Edit False (rl\<lparr>next_prefix_arg := (if valid_current_arg rl then - current_prefix_arg rl else -1), valid_next_arg := True\<rparr>, s))
     else if c = 0x5b then Some (Edit False (rl\<lparr>in_cursor := True, had_esc := True\<rparr>, s))
     else if c = 0x3c then map_option (Edit False) (rl_beginning_of_history (rl, s))
     else if c = 0x3e then map_option (Edit False) (rl_end_of_history (rl, s))
     else Some (Edit False (rl, tty_beep s)))"

definition rl_cursor_key :: "u8 \<Rightarrow> 'a rl_state \<Rightarrow> 'a rl_step option" where
  "rl_cursor_key c = (\<lambda>(rl0, s).
     let rl = rl0\<lparr>had_esc := False, in_cursor := False\<rparr>; arg = PREFIX_ARG rl; cmd = (\<lambda>(m, st). Edit m st) in
     if c = 0x41 then map_option (Edit False) (rl_next_history (- arg) (rl, s))
     else if c = 0x42 then map_option (Edit False) (rl_next_history arg (rl, s))
     else if c = 0x43 then Some (cmd (rl_forward_char arg (rl, s)))
     else if c = 0x44 then Some (cmd (rl_forward_char (- arg) (rl, s)))
     else Some (Edit False (rl, tty_beep s)))"

definition rl_dispatch :: "bool \<Rightarrow> u8 \<Rightarrow> 'a rl_state \<Rightarrow> 'a rl_step option" where
  "rl_dispatch mark_ret c = (\<lambda>(rl, s).
     if \<not> had_esc rl \<and> \<not> had_ctrl_x rl then rl_plain_key mark_ret c (rl, s)
     else if \<not> had_esc rl then Some (rl_ctrl_x_key c (rl, s))
     else if \<not> had_ctrl_x rl then (if \<not> in_cursor rl then rl_esc_key c (rl, s) else rl_cursor_key c (rl, s))
     else Some (Edit False (rl\<lparr>had_esc := False, had_ctrl_x := False\<rparr>, tty_beep s)))"

definition rl_key :: "bool \<Rightarrow> u8 \<Rightarrow> 'a rl_state \<Rightarrow> 'a rl_step option" where
  "rl_key mark_ret c = (\<lambda>(rl, s). do {
     step \<leftarrow> rl_dispatch mark_ret c (rl\<lparr>current_prefix_arg := next_prefix_arg rl,
        valid_current_arg := valid_next_arg rl, valid_next_arg := False\<rparr>, s);
     Some (case step of
         Finished q st \<Rightarrow> Finished q st
       | Edit m st \<Rightarrow> (if m then case rl_find_cursor st of (rl1, s1) \<Rightarrow> Edit False (rl1, rl_set_cursor rl1 s1)
                    else Edit False st)) })"

text \<open>
  The loop over the keys: Waiting, for the next key, when they are used up.  A terminal without a
  cooked keyboard delivers -1, which ends the loop.
\<close>

datatype 'a rl_outcome = Waiting "'a rl_state" | Stopped bool "'a rl_state"

primrec rl_loop :: "bool \<Rightarrow> u8 list \<Rightarrow> 'a rl_state \<Rightarrow> 'a rl_outcome option" where
  "rl_loop mark_ret [] st = Some (Waiting (fst st, (snd st)\<lparr>keys := []\<rparr>))"
| "rl_loop mark_ret (c # ks) st =
     (case rl_key mark_ret c st of None \<Rightarrow> None
      | Some (Edit m st1) \<Rightarrow> rl_loop mark_ret ks st1
      | Some (Finished q st1) \<Rightarrow> Some (Stopped q (fst st1, (snd st1)\<lparr>keys := ks\<rparr>)))"

definition rl_start :: "nat \<Rightarrow> int \<Rightarrow> 'a rls_scheme \<Rightarrow> 'a rl_state" where
  "rl_start t mark s =
     (\<lparr>rl_tty = t, rl_cursor = 0, rl_cursor_x = 0, rl_cursor_y = 0, mark_pos = mark, prompt_end_x = tty_x (ttys s t),
       prompt_end_y = tty_y (ttys s t), rl_line = [], buf_len = 0, buf_null = True, current_prefix_arg = 0,
       next_prefix_arg = 0, valid_current_arg = False, valid_next_arg = False, had_esc = False, had_ctrl_x = False,
       in_cursor = False, current_item = None\<rparr>, s)"

text \<open>
  \<open>readline\<close>; \<open>mark\<close> is the uninitialised \<open>mark_pos\<close>.  The outcomes: the
  keys are used up, or the line and its length are returned, the line None for a null pointer (no
  length is stored if there was no memory for the buffer).
\<close>

datatype 'a rl_result = Reading "'a rl_state" | Line "u8 list option" nat "'a rls_scheme"

definition rl_finish :: "bool \<Rightarrow> 'a rl_state \<Rightarrow> 'a rl_result option" where
  "rl_finish no_output = (\<lambda>(rl, s).
     if no_output then Some (Line None 0 s)
     else if buf_null rl \<and> rl_line rl \<noteq> [] then None
     else case try_alloc s of (ok, s1) \<Rightarrow> Some (Line (if ok then Some (rl_line rl) else None) (length (rl_line rl)) s1))"

definition readline :: "bool \<Rightarrow> int \<Rightarrow> nat \<Rightarrow> 'a rls_scheme \<Rightarrow> 'a rl_result option" where
  "readline mark_ret mark t s =
     (case rl_realloc_buf 0 (rl_start t mark s) of (ok, st) \<Rightarrow>
        if \<not> ok then Some (Line None 0 (snd st))
        else (case rl_find_cursor st of (rl, s1) \<Rightarrow>
          (let s2 = rl_set_cursor rl s1 in
           if kbd_type (ttys s2 t) \<noteq> Cooked then rl_finish False (rl, s2)
           else (case rl_loop mark_ret (keys s2) (rl, s2) of None \<Rightarrow> None
              | Some (Waiting st1) \<Rightarrow> Some (Reading st1)
              | Some (Stopped q st1) \<Rightarrow> rl_finish q st1))))"

end
