(* ===== verification/VideoProps.thy ===== *)
theory VideoProps
  imports Video PageTableProps DemoMachine
begin

text \<open>
  Correctness of the display switching and isolation of the displays: copying of pages, the
  mapping of a display's buffer, the contents a display shows.
\<close>

unbundle bit_operations_syntax

section \<open>Copying pages\<close>

lemma long_bytes_of:
  "ucast (load32 m s) = m s" "ucast (drop_bit 8 (load32 m s)) = m (s + 1)"
  "ucast (drop_bit 16 (load32 m s)) = m (s + 2)" "ucast (drop_bit 24 (load32 m s)) = m (s + 3)"
proof -
  have b: "\<not> bit (m x) (8 + n)" "\<not> bit (m x) (16 + n)" "\<not> bit (m x) (24 + n)" for x n
    using bit_imp_le_length[of "m x" "8 + n"] bit_imp_le_length[of "m x" "16 + n"] bit_imp_le_length[of "m x" "24 + n"] by auto
  show "ucast (load32 m s) = m s" by (rule bit_word_eqI) (simp add: load32_def bit_simps)
  show "ucast (drop_bit 8 (load32 m s)) = m (s + 1)" by (rule bit_word_eqI) (simp add: load32_def bit_simps b)
  show "ucast (drop_bit 16 (load32 m s)) = m (s + 2)" by (rule bit_word_eqI) (simp add: load32_def bit_simps b)
  show "ucast (drop_bit 24 (load32 m s)) = m (s + 3)" by (rule bit_word_eqI) (simp add: load32_def bit_simps b)
qed

lemma word_lt4: "(x::u32) < 4 \<longleftrightarrow> x = 0 \<or> x = 1 \<or> x = 2 \<or> x = 3"
proof -
  have "unat x < 4 \<longleftrightarrow> unat x = 0 \<or> unat x = 1 \<or> unat x = 2 \<or> unat x = 3" by linarith
  then show ?thesis by (auto simp: word_less_nat_alt word_unat_eq_iff)
qed

lemma copy32: "store32 m d (load32 m s) a = (if a - d < 4 then m (s + (a - d)) else m a)"
proof -
  have "a - d = k \<longleftrightarrow> a = d + k" for k by (auto simp: algebra_simps)
  then have "a - d < 4 \<longleftrightarrow> a = d \<or> a = d + 1 \<or> a = d + 2 \<or> a = d + 3" by (simp add: word_lt4)
  then show ?thesis by (auto simp: store32_def long_bytes_of)
qed

lemma page_offset_of:
  assumes "page_aligned d" "page_base a = d"
  shows "unat (a - d) < 4096" "a = d + (a - d)"
proof -
  have u: "unat d = 4096 * (unat a div 4096)" using assms(2) unat_page_base[of a] by simp
  then have "unat d \<le> unat a" by simp
  then have "unat (a - d) = unat a - unat d" by (simp add: unat_sub word_le_nat_alt)
  then show "unat (a - d) < 4096" using u by simp
qed simp

lemma in_long:
  assumes "page_aligned d" "k < 1024"
  shows "a - (d + 4 * of_nat k) < 4 \<longleftrightarrow> page_base a = d \<and> 4 * k \<le> unat (a - d) \<and> unat (a - d) < 4 * k + 4"
proof -
  have k: "unat (4 * of_nat k :: u32) = 4 * k" using assms(2) by (simp add: unat_word_ariths unat_of_nat)
  show ?thesis
  proof
    assume h: "a - (d + 4 * of_nat k) < 4"
    define j where "j = a - (d + 4 * of_nat k)"
    have j: "unat j < 4" using h by (simp add: j_def word_less_nat_alt)
    have u: "unat (4 * of_nat k + j) = 4 * k + unat j"
      using k j assms(2) by (simp add: unat_word_ariths(1))
    have a: "a = d + (4 * of_nat k + j)" by (simp add: j_def)
    have "page_base a = d" unfolding a by (rule page_base_add[OF assms(1)]) (use u j assms(2) in simp)
    moreover have "a - d = 4 * of_nat k + j" unfolding a by simp
    ultimately show "page_base a = d \<and> 4 * k \<le> unat (a - d) \<and> unat (a - d) < 4 * k + 4" using u j by simp
  next
    assume h: "page_base a = d \<and> 4 * k \<le> unat (a - d) \<and> unat (a - d) < 4 * k + 4"
    have "unat (a - d - 4 * of_nat k) = unat (a - d) - 4 * k" using h k by (simp add: unat_sub word_le_nat_alt)
    then have "unat (a - d - 4 * of_nat k) < 4" using h by linarith
    then show "a - (d + 4 * of_nat k) < 4" by (simp add: word_less_nat_alt diff_diff_add)
  qed
qed

lemma memcpyl_page:
  assumes "page_aligned d" "page_aligned s" "d \<noteq> s" "k + n \<le> 1024"
  shows "memcpyl m (d + 4 * of_nat k) (s + 4 * of_nat k) n a =
    (if page_base a = d \<and> 4 * k \<le> unat (a - d) \<and> unat (a - d) < 4 * (k + n) then m (s + (a - d)) else m a)"
  using assms(4)
proof (induction n arbitrary: m k)
  case (Suc n)
  let ?m = "store32 m (d + 4 * of_nat k) (load32 m (s + 4 * of_nat k))"
  have ih: "memcpyl ?m (d + 4 * of_nat (Suc k)) (s + 4 * of_nat (Suc k)) n a =
    (if page_base a = d \<and> 4 * Suc k \<le> unat (a - d) \<and> unat (a - d) < 4 * (Suc k + n) then ?m (s + (a - d)) else ?m a)"
    using Suc.IH[of "Suc k" ?m] Suc.prems by simp
  have st: "memcpyl m (d + 4 * of_nat k) (s + 4 * of_nat k) (Suc n) = memcpyl ?m (d + 4 * of_nat (Suc k)) (s + 4 * of_nat (Suc k)) n"
    by (simp add: algebra_simps)
  have src: "?m (s + (a - d)) = m (s + (a - d))" if "page_base a = d"
  proof -
    have "page_base (s + (a - d)) = s" using page_base_add[OF assms(2)] page_offset_of(1)[OF assms(1) that] by simp
    then show ?thesis using in_long[OF assms(1), of k "s + (a - d)"] Suc.prems assms(3) by (simp add: copy32)
  qed
  have own: "?m a = (if page_base a = d \<and> 4 * k \<le> unat (a - d) \<and> unat (a - d) < 4 * k + 4 then m (s + (a - d)) else m a)"
  proof -
    have "s + 4 * of_nat k + (a - (d + 4 * of_nat k)) = s + (a - d)" by simp
    then show ?thesis using in_long[OF assms(1), of k a] Suc.prems by (simp add: copy32)
  qed
  show ?case unfolding st ih using src own by auto
qed auto

lemma memcpy_page:
  assumes "page_aligned d" "page_aligned s" "d \<noteq> s"
  shows "memcpy m d s 4096 a = (if page_base a = d then m (s + (a - d)) else m a)"
proof -
  have "memcpy m d s 4096 = memcpyl m (d + 4 * of_nat 0) (s + 4 * of_nat 0) 1024" by (simp add: memcpy_def)
  then show ?thesis using memcpyl_page[OF assms, of 0 1024 m a] page_offset_of(1)[OF assms(1), of a] by auto
qed

text \<open>Several pages one after the other.\<close>

lemma copies:
  assumes "\<And>i. i < n \<Longrightarrow> page_aligned (dst i) \<and> page_aligned (sp i)" "\<And>i j. i < n \<Longrightarrow> j < n \<Longrightarrow> dst i \<noteq> sp j"
    "\<And>i j. i < n \<Longrightarrow> j < n \<Longrightarrow> dst i = dst j \<Longrightarrow> i = j"
  shows "(\<And>i. i < n \<Longrightarrow> page_base a \<noteq> dst i) \<Longrightarrow> fold (\<lambda>i m. memcpy m (dst i) (sp i) 4096) [0..<n] m a = m a"
    "k < n \<Longrightarrow> page_base a = dst k \<Longrightarrow> fold (\<lambda>i m. memcpy m (dst i) (sp i) 4096) [0..<n] m a = m (sp k + (a - dst k))"
proof -
  let ?F = "\<lambda>n. fold (\<lambda>i m. memcpy m (dst i) (sp i) 4096) [0..<n] m"
  have other: "?F l b = m b" if "l \<le> n" "\<And>i. i < l \<Longrightarrow> page_base b \<noteq> dst i" for l b
    using that
  proof (induction l)
    case (Suc l)
    have "dst l \<noteq> sp l" "page_aligned (dst l)" "page_aligned (sp l)" using assms(1,2)[of l] Suc.prems(1) by auto
    then show ?case using Suc memcpy_page[of "dst l" "sp l" "?F l" b] by simp
  qed simp
  show "?F n a = m a" if "\<And>i. i < n \<Longrightarrow> page_base a \<noteq> dst i" using other[of n a] that by simp
  have "?F l a = m (sp k + (a - dst k))" if "page_base a = dst k" "k < l" "l \<le> n" for l
    using that
  proof (induction l)
    case (Suc l)
    have al: "dst l \<noteq> sp l" "page_aligned (dst l)" "page_aligned (sp l)" using assms(1,2)[of l] Suc.prems(3) by auto
    note c = memcpy_page[OF al(2,3,1), of "?F l" a]
    show ?case
    proof (cases "k = l")
      case True
      have pb: "page_base (sp l + (a - dst l)) = sp l"
        using page_base_add[OF al(3)] page_offset_of(1)[OF al(2)] Suc.prems(1) True by simp
      have "?F l (sp l + (a - dst l)) = m (sp l + (a - dst l))"
      proof (rule other)
        show "l \<le> n" using Suc.prems(3) by simp
        fix i assume "i < l"
        then show "page_base (sp l + (a - dst l)) \<noteq> dst i" using pb assms(2)[of i l] Suc.prems(3) by auto
      qed
      then show ?thesis using c Suc.prems(1) True by simp
    next
      case False
      then have "dst l \<noteq> dst k" using assms(3)[of l k] Suc.prems(2,3) by auto
      then show ?thesis using c Suc False by simp
    qed
  qed simp
  then show "k < n \<Longrightarrow> page_base a = dst k \<Longrightarrow> ?F n a = m (sp k + (a - dst k))" by simp
qed

section \<open>The layout of the displays\<close>

definition n_pages :: "video_ops \<Rightarrow> nat" where
  "n_pages ops = (case ops of Mda \<Rightarrow> 1 | Cga \<Rightarrow> 4)"

text \<open>Physical address, index in the page table and buffer of page \<open>i\<close> of a display.\<close>

definition hw_page :: "video_ops \<Rightarrow> nat \<Rightarrow> u32" where
  "hw_page ops i = (case ops of Mda \<Rightarrow> MDA_VIDEO_MEM | Cga \<Rightarrow> CGA_VIDEO_MEM) + of_nat i * 4096"

definition buf_page :: "nat \<Rightarrow> nat \<Rightarrow> 'a vids_scheme \<Rightarrow> u32" where
  "buf_page v i s = (case v_ops (videos s v) of Mda \<Rightarrow> mda_buffer (v_mda (videos s v)) | Cga \<Rightarrow> cga_buffer (v_cga (videos s v)) ! i)"

abbreviation np :: "nat \<Rightarrow> 'a vids_scheme \<Rightarrow> nat" where
  "np v s \<equiv> n_pages (v_ops (videos s v))"

abbreviation hw :: "nat \<Rightarrow> nat \<Rightarrow> 'a vids_scheme \<Rightarrow> u32" where
  "hw v i s \<equiv> hw_page (v_ops (videos s v)) i"

definition hw_pages :: "u32 set" where
  "hw_pages = to_logical ` {0xb0000, 0xb8000, 0xb9000, 0xba000, 0xbb000}"

text \<open>The page that display \<open>v\<close> shows as its page \<open>i\<close>.\<close>

definition shown :: "nat \<Rightarrow> nat \<Rightarrow> 'a vids_scheme \<Rightarrow> u32" where
  "shown v i s = (if in_view (videos s v) then to_logical (hw v i s) else buf_page v i s)"

definition table_of :: "nat \<Rightarrow> 'a vids_scheme \<Rightarrow> u32" where
  "table_of v s = to_logical (pte_get_addr (entry s (video_pd v s) 0))"

definition layout :: "nat set \<Rightarrow> 'a vids_scheme \<Rightarrow> bool" where
  "layout V s \<longleftrightarrow>
     (\<forall>v\<in>V. page_aligned (video_pd v s) \<and> entry s (video_pd v s) 0 AND PTE_PRESENT \<noteq> 0
        \<and> (\<forall>u\<in>V. table_of v s \<noteq> video_pd u s) \<and> (\<forall>u\<in>V. v \<noteq> u \<longrightarrow> table_of v s \<noteq> table_of u s)
        \<and> video_pd v s \<notin> hw_pages \<and> table_of v s \<notin> hw_pages
        \<and> (\<forall>i<np v s. page_aligned (buf_page v i s) \<and> buf_page v i s \<notin> hw_pages
             \<and> (\<forall>u\<in>V. buf_page v i s \<noteq> video_pd u s \<and> buf_page v i s \<noteq> table_of u s
                  \<and> (\<forall>j<np u s. buf_page v i s = buf_page u j s \<longrightarrow> v = u \<and> i = j))))"

definition mapped :: "nat set \<Rightarrow> 'a vids_scheme \<Rightarrow> bool" where
  "mapped V s \<longleftrightarrow> (\<forall>v\<in>V. \<forall>i<np v s. get_pte s (video_pd v s) (hw v i s) = to_physical (shown v i s) OR PTE_USER OR PTE_READ_WRITE OR PTE_PRESENT)"

definition displays :: "nat set \<Rightarrow> 'a vids_scheme \<Rightarrow> bool" where
  "displays V s \<longleftrightarrow> layout V s \<and> mapped V s \<and> (\<forall>v\<in>V. in_view (videos s v) \<longleftrightarrow> viewed_video s = Some v)
     \<and> (\<forall>v. viewed_video s = Some v \<longrightarrow> v \<in> V)"

lemma hw_facts:
  "i < n_pages ops \<Longrightarrow> to_logical (hw_page ops i) \<in> hw_pages"
  "i < n_pages ops \<Longrightarrow> page_dir_offset (hw_page ops i) = 0"
  "i < n_pages ops \<Longrightarrow> page_table_offset (hw_page ops i) = (case ops of Mda \<Rightarrow> 0xb0 | Cga \<Rightarrow> 0xb8) + of_nat i"
  "p \<in> hw_pages \<Longrightarrow> page_aligned p"
  "i < n_pages ops \<Longrightarrow> j < n_pages ops \<Longrightarrow> hw_page ops i = hw_page ops j \<Longrightarrow> i = j"
proof -
  have c: "i = 0 \<or> i = 1 \<or> i = 2 \<or> i = 3" if "i < 4" for i :: nat using that by linarith
  show "i < n_pages ops \<Longrightarrow> to_logical (hw_page ops i) \<in> hw_pages"
    by (cases ops) (auto simp: n_pages_def hw_page_def hw_pages_def MDA_VIDEO_MEM_def CGA_VIDEO_MEM_def dest!: c)
  show "i < n_pages ops \<Longrightarrow> page_dir_offset (hw_page ops i) = 0"
    by (cases ops) (auto simp: n_pages_def hw_page_def page_dir_offset_def MDA_VIDEO_MEM_def CGA_VIDEO_MEM_def dest!: c)
  show "i < n_pages ops \<Longrightarrow> page_table_offset (hw_page ops i) = (case ops of Mda \<Rightarrow> 0xb0 | Cga \<Rightarrow> 0xb8) + of_nat i"
    by (cases ops) (auto simp: n_pages_def hw_page_def page_table_offset_def MDA_VIDEO_MEM_def CGA_VIDEO_MEM_def dest!: c)
  show "p \<in> hw_pages \<Longrightarrow> page_aligned p" by (auto simp: hw_pages_def page_aligned_def to_logical_def)
  show "i < n_pages ops \<Longrightarrow> j < n_pages ops \<Longrightarrow> hw_page ops i = hw_page ops j \<Longrightarrow> i = j"
    by (cases ops) (auto simp: n_pages_def hw_page_def MDA_VIDEO_MEM_def CGA_VIDEO_MEM_def dest!: c)
qed

lemma video_find_page_shown:
  "i < np v s \<Longrightarrow> video_find_page v (of_nat i) s = shown v i s"
proof -
  assume i: "i < np v s"
  then have "i < 4" by (cases "v_ops (videos s v)") (simp_all add: n_pages_def)
  then have "of_nat i < (4::u32)" "unat (of_nat i :: u32) = i" by (simp_all add: word_less_nat_alt unat_of_nat)
  then show ?thesis using i
    by (cases "v_ops (videos s v)") (simp_all add: video_find_page_def shown_def mda_find_page_def cga_find_page_def n_pages_def hw_page_def buf_page_def)
qed

section \<open>Mapping the pages of a display\<close>

lemma store32_other_page:
  assumes "page_aligned p" "i < 1024" "page_base a \<noteq> p"
  shows "store32 m (p + 4 * i) v a = m a"
proof -
  have "a \<noteq> p + 4 * i + k" if "k < 4" for k
  proof -
    have "unat (4 * i + k) < 4096"
      using assms(2) that unat_entry_offset[OF assms(2)] by (simp add: unat_word_ariths(1) word_less_nat_alt)
    then have "page_base (p + (4 * i + k)) = p" by (rule page_base_add[OF assms(1)])
    then show ?thesis using assms(3) by (auto simp: add.assoc)
  qed
  from this[of 0] this[of 1] this[of 2] this[of 3] show ?thesis by (simp add: store32_def word_less_nat_alt)
qed

lemma entry_page_cong:
  assumes "page_aligned q" "j < 1024" "\<And>a. page_base a = q \<Longrightarrow> mem s' a = mem s a"
  shows "entry s' q j = entry s q j"
proof -
  have "mem s' (q + 4 * j + k) = mem s (q + 4 * j + k)" if "k < 4" for k
  proof -
    have "unat (4 * j + k) < 4096"
      using assms(2) that unat_entry_offset[OF assms(2)] by (simp add: unat_word_ariths(1) word_less_nat_alt)
    then have "page_base (q + (4 * j + k)) = q" by (rule page_base_add[OF assms(1)])
    then show ?thesis using assms(3) by (simp add: add.assoc)
  qed
  from this[of 0] this[of 1] this[of 2] this[of 3] show ?thesis by (simp add: entry_def load32_def word_less_nat_alt)
qed

lemma set_pte_present:
  "page_dir_offset a = 0 \<Longrightarrow> entry s pd 0 AND PTE_PRESENT \<noteq> 0 \<Longrightarrow>
     set_pte pd a pte s = set_entry (to_logical (pte_get_addr (entry s pd 0))) (page_table_offset a) pte s"
  by (simp add: set_pte_def get_table_def)

lemma map_steps:
  assumes al: "page_aligned pd" "page_aligned T" "T \<noteq> pd"
    and sl: "\<And>i. i < n \<Longrightarrow> slot i < (1024 :: u32)" "\<And>i j. i < n \<Longrightarrow> j < n \<Longrightarrow> slot i = slot j \<Longrightarrow> i = j"
    and st: "\<And>i m. i < n \<Longrightarrow> entry (s\<lparr>mem := m\<rparr>) pd 0 = entry s pd 0 \<Longrightarrow>
      f i (s\<lparr>mem := m\<rparr>) = set_entry T (slot i) (pte i) (s\<lparr>mem := m\<rparr>)"
  shows "l \<le> n \<Longrightarrow> \<exists>m. fold f [0..<l] s = s\<lparr>mem := m\<rparr> \<and> (\<forall>i<l. entry (s\<lparr>mem := m\<rparr>) T (slot i) = pte i)
    \<and> (\<forall>a. page_base a \<noteq> T \<longrightarrow> m a = mem s a)"
proof (induction l)
  case 0
  show ?case by (rule exI[of _ "mem s"]) simp
next
  case (Suc l)
  then obtain m where m: "fold f [0..<l] s = s\<lparr>mem := m\<rparr>" "\<And>i. i < l \<Longrightarrow> entry (s\<lparr>mem := m\<rparr>) T (slot i) = pte i"
      "\<And>a. page_base a \<noteq> T \<Longrightarrow> m a = mem s a"
    by auto
  have "entry (s\<lparr>mem := m\<rparr>) pd 0 = entry s pd 0"
    by (rule entry_page_cong[OF al(1)]) (use m(3) al(3) in auto)
  then have f: "f l (s\<lparr>mem := m\<rparr>) = set_entry T (slot l) (pte l) (s\<lparr>mem := m\<rparr>)" using st[of l] Suc.prems by simp
  define m2 where "m2 = store32 m (T + 4 * slot l) (pte l)"
  have s2: "s\<lparr>mem := m2\<rparr> = set_entry T (slot l) (pte l) (s\<lparr>mem := m\<rparr>)" by (simp add: set_entry_def m2_def)
  have "entry (s\<lparr>mem := m2\<rparr>) T (slot i) = pte i" if "i < Suc l" for i
  proof (cases "i = l")
    case True
    then show ?thesis unfolding s2 using entry_set_entry[OF al(2) al(2), of "slot l" "slot l"] sl(1)[of l] Suc.prems by simp
  next
    case False
    then show ?thesis unfolding s2
      using sl(1)[of l] sl(1)[of i] sl(2)[of l i] Suc.prems m(2)[of i] that by (auto simp: entry_set_entry al)
  qed
  moreover have "m2 a = mem s a" if "page_base a \<noteq> T" for a
    unfolding m2_def using store32_other_page[OF al(2) _ that, of "slot l"] sl(1)[of l] m(3) that Suc.prems by simp
  moreover have "fold f [0..<Suc l] s = s\<lparr>mem := m2\<rparr>" using m(1) f s2 by simp
  ultimately show ?case by blast
qed

section \<open>One switch\<close>

text \<open>
  \<open>moved\<close>: display \<open>v\<close> goes into view (\<open>b\<close>) or out of it; its pages are
  copied and its table entries point to the new pages.
\<close>

definition place :: "bool \<Rightarrow> nat \<Rightarrow> nat \<Rightarrow> 'a vids_scheme \<Rightarrow> u32" where
  "place b v i s = (if b then to_logical (hw v i s) else buf_page v i s)"

abbreviation FLAGS_PTE :: u32 where "FLAGS_PTE \<equiv> PTE_USER OR (PTE_READ_WRITE OR PTE_PRESENT)"

definition moved :: "nat \<Rightarrow> bool \<Rightarrow> 'a vids_scheme \<Rightarrow> memory \<Rightarrow> bool" where
  "moved v b s m \<longleftrightarrow>
     (\<forall>i<np v s. entry (s\<lparr>mem := m\<rparr>) (table_of v s) (page_table_offset (hw v i s)) = to_physical (place b v i s) OR FLAGS_PTE)
   \<and> (\<forall>i<np v s. \<forall>a. page_base a = place b v i s \<longrightarrow> m a = mem s (place (\<not> b) v i s + (a - place b v i s)))
   \<and> (\<forall>a. page_base a \<noteq> table_of v s \<and> (\<forall>i<np v s. page_base a \<noteq> place b v i s) \<longrightarrow> m a = mem s a)"

lemma layout_place:
  assumes "layout V s" "v \<in> V" "i < np v s"
  shows "page_aligned (place b v i s)" "u \<in> V \<Longrightarrow> place b v i s \<noteq> table_of u s" "u \<in> V \<Longrightarrow> place b v i s \<noteq> video_pd u s"
    "j < np v s \<Longrightarrow> place b v i s \<noteq> place (\<not> b) v j s" "j < np v s \<Longrightarrow> place b v i s = place b v j s \<Longrightarrow> i = j"
    "u \<in> V \<Longrightarrow> u \<noteq> v \<Longrightarrow> j < np u s \<Longrightarrow> place b v i s \<noteq> buf_page u j s"
proof -
  have D: "page_aligned (buf_page w j s)" "buf_page w j s \<notin> hw_pages" "u \<in> V \<Longrightarrow> buf_page w j s \<noteq> video_pd u s"
      "u \<in> V \<Longrightarrow> buf_page w j s \<noteq> table_of u s" "u \<in> V \<Longrightarrow> l < np u s \<Longrightarrow> buf_page w j s = buf_page u l s \<Longrightarrow> w = u \<and> j = l"
    if "w \<in> V" "j < np w s" for w j u l
    using assms(1) that unfolding layout_def by blast+
  have H: "to_logical (hw v j s) \<in> hw_pages" if "j < np v s" for j by (rule hw_facts(1)[OF that])
  have P: "video_pd u s \<notin> hw_pages" "table_of u s \<notin> hw_pages" if "u \<in> V" for u
    using assms(1) that unfolding layout_def by blast+
  show "page_aligned (place b v i s)" using D(1)[OF assms(2,3)] hw_facts(4)[OF H[OF assms(3)]] by (simp add: place_def)
  show "place b v i s \<noteq> table_of u s" if "u \<in> V"
    using D(4)[OF assms(2,3) that] H[OF assms(3)] P(2)[OF that] by (auto simp: place_def)
  show "place b v i s \<noteq> video_pd u s" if "u \<in> V"
    using D(3)[OF assms(2,3) that] H[OF assms(3)] P(1)[OF that] by (auto simp: place_def)
  show "place b v i s \<noteq> place (\<not> b) v j s" if "j < np v s"
    using D(2)[OF assms(2,3)] D(2)[OF assms(2) that] H[OF assms(3)] H[OF that] by (auto simp: place_def)
  show "i = j" if "j < np v s" "place b v i s = place b v j s"
    using that(2) D(5)[OF assms(2,3,2) that(1)] hw_facts(5)[OF assms(3) that(1)]
    by (auto simp: place_def to_logical_def split: if_splits)
  show "place b v i s \<noteq> buf_page u j s" if "u \<in> V" "u \<noteq> v" "j < np u s"
    using D(5)[OF assms(2,3) that(1,3)] D(2)[OF that(1,3)] H[OF assms(3)] that(2) by (auto simp: place_def)
qed

text \<open>The two orders in which the code copies and maps.\<close>

definition copy_pages :: "nat \<Rightarrow> bool \<Rightarrow> 'a vids_scheme \<Rightarrow> memory \<Rightarrow> memory" where
  "copy_pages v b s m = fold (\<lambda>i m. memcpy m (place b v i s) (place (\<not> b) v i s) 4096) [0..<np v s] m"

definition map_display :: "nat \<Rightarrow> bool \<Rightarrow> 'a vids_scheme \<Rightarrow> 'a vids_scheme" where
  "map_display v b s = fold (\<lambda>i s. set_pte (video_pd v s) (hw v i s) (to_physical (place b v i s) OR FLAGS_PTE) s) [0..<np v s] s"

lemma mem_upd_simps:
  "place b v i (s\<lparr>mem := m\<rparr>) = place b v i s" "video_pd v (s\<lparr>mem := m\<rparr>) = video_pd v s"
  by (simp_all add: place_def buf_page_def video_pd_def cong: video_ops.case_cong)

lemma copy_pages_facts:
  assumes "layout V s" "v \<in> V"
  shows "(\<And>i. i < np v s \<Longrightarrow> page_base a \<noteq> place b v i s) \<Longrightarrow> copy_pages v b s m a = m a"
    "i < np v s \<Longrightarrow> page_base a = place b v i s \<Longrightarrow> copy_pages v b s m a = m (place (\<not> b) v i s + (a - place b v i s))"
proof -
  note c = copies[of "np v s" "\<lambda>i. place b v i s" "\<lambda>i. place (\<not> b) v i s"]
  show "(\<And>i. i < np v s \<Longrightarrow> page_base a \<noteq> place b v i s) \<Longrightarrow> copy_pages v b s m a = m a"
    unfolding copy_pages_def by (rule c(1)) (use layout_place[OF assms] in blast)+
  show "i < np v s \<Longrightarrow> page_base a = place b v i s \<Longrightarrow> copy_pages v b s m a = m (place (\<not> b) v i s + (a - place b v i s))"
    unfolding copy_pages_def by (rule c(2)) (use layout_place[OF assms] in blast)+
qed

lemma map_display_facts:
  assumes "layout V s" "v \<in> V"
  shows "\<exists>m. map_display v b s = s\<lparr>mem := m\<rparr>
    \<and> (\<forall>i<np v s. entry (s\<lparr>mem := m\<rparr>) (table_of v s) (page_table_offset (hw v i s)) = to_physical (place b v i s) OR FLAGS_PTE)
    \<and> (\<forall>a. page_base a \<noteq> table_of v s \<longrightarrow> m a = mem s a)"
  unfolding map_display_def
proof (rule map_steps[where pd = "video_pd v s" and n = "np v s"])
  show "page_aligned (video_pd v s)" "table_of v s \<noteq> video_pd v s" using assms unfolding layout_def by blast+
  show "page_aligned (table_of v s)" by (simp add: table_of_def)
  show "page_table_offset (hw v i s) < 1024" for i by simp
  show "i = j" if "i < np v s" "j < np v s" "page_table_offset (hw v i s) = page_table_offset (hw v j s)" for i j
  proof -
    have "(of_nat i :: u32) = of_nat j" using that(3) hw_facts(3)[OF that(1)] hw_facts(3)[OF that(2)] by (simp split: video_ops.splits)
    moreover have "i < 4" "j < 4" using that(1,2) by (simp_all add: n_pages_def split: video_ops.splits)
    ultimately show ?thesis by (auto simp: unat_of_nat dest: arg_cong[where f = unat])
  qed
  show "set_pte (video_pd v (s\<lparr>mem := m\<rparr>)) (hw v i (s\<lparr>mem := m\<rparr>)) (to_physical (place b v i (s\<lparr>mem := m\<rparr>)) OR FLAGS_PTE) (s\<lparr>mem := m\<rparr>)
      = set_entry (table_of v s) (page_table_offset (hw v i s)) (to_physical (place b v i s) OR FLAGS_PTE) (s\<lparr>mem := m\<rparr>)"
    if "i < np v s" "entry (s\<lparr>mem := m\<rparr>) (video_pd v s) 0 = entry s (video_pd v s) 0" for i m
  proof -
    have "entry s (video_pd v s) 0 AND PTE_PRESENT \<noteq> 0" using assms unfolding layout_def by blast
    then show ?thesis using that hw_facts(2)[OF that(1)] by (simp add: mem_upd_simps set_pte_present table_of_def)
  qed
qed simp

lemma layout_mem:
  assumes "layout V s" "\<And>u. u \<in> V \<Longrightarrow> entry (s\<lparr>mem := m\<rparr>) (video_pd u s) 0 = entry s (video_pd u s) 0"
  shows "layout V (s\<lparr>mem := m\<rparr>)" "v \<in> V \<Longrightarrow> table_of v (s\<lparr>mem := m\<rparr>) = table_of v s"
proof -
  have b: "buf_page v i (s\<lparr>mem := m\<rparr>) = buf_page v i s" for v i by (simp add: buf_page_def cong: video_ops.case_cong)
  show t: "table_of v (s\<lparr>mem := m\<rparr>) = table_of v s" if "v \<in> V" for v
    using assms(2)[OF that] by (simp add: table_of_def mem_upd_simps)
  show "layout V (s\<lparr>mem := m\<rparr>)" using assms unfolding layout_def by (simp add: t b mem_upd_simps)
qed

lemma moved_map_copy:
  assumes "layout V s" "v \<in> V" "map_display v b s = s\<lparr>mem := m\<rparr>"
  shows "moved v b s (copy_pages v b s m)"
proof -
  obtain m' where m': "map_display v b s = s\<lparr>mem := m'\<rparr>"
      "\<And>i. i < np v s \<Longrightarrow> entry (s\<lparr>mem := m'\<rparr>) (table_of v s) (page_table_offset (hw v i s)) = to_physical (place b v i s) OR FLAGS_PTE"
      "\<And>a. page_base a \<noteq> table_of v s \<Longrightarrow> m' a = mem s a"
    using map_display_facts[OF assms(1,2), of b] by blast
  have "m' = m" using arg_cong[OF trans[OF m'(1)[symmetric] assms(3)], of mem] by simp
  note m = m'(2,3)[unfolded this]
  note P = layout_place[OF assms(1,2)]
  have "entry (s\<lparr>mem := copy_pages v b s m\<rparr>) (table_of v s) j = entry (s\<lparr>mem := m\<rparr>) (table_of v s) j" if "j < 1024" for j
  proof (rule entry_page_cong[OF _ that])
    fix a assume "page_base a = table_of v s"
    then have "page_base a \<noteq> place b v i s" if "i < np v s" for i using P(2)[OF that assms(2), of b] by simp
    then show "mem (s\<lparr>mem := copy_pages v b s m\<rparr>) a = mem (s\<lparr>mem := m\<rparr>) a" using copy_pages_facts(1)[OF assms(1,2)] by simp
  qed (simp add: table_of_def)
  then have "entry (s\<lparr>mem := copy_pages v b s m\<rparr>) (table_of v s) (page_table_offset (hw v i s)) = to_physical (place b v i s) OR FLAGS_PTE"
    if "i < np v s" for i using m(1)[OF that] by simp
  moreover have "copy_pages v b s m a = mem s (place (\<not> b) v i s + (a - place b v i s))"
    if i: "i < np v s" "page_base a = place b v i s" for i a
  proof -
    have "page_base (place (\<not> b) v i s + (a - place b v i s)) = place (\<not> b) v i s"
      by (rule page_base_add[OF P(1)[OF i(1)] page_offset_of(1)[OF P(1)[OF i(1)] i(2)]])
    then show ?thesis using copy_pages_facts(2)[OF assms(1,2) i] m(2) P(2)[OF i(1) assms(2), of "\<not> b"] by simp
  qed
  moreover have "copy_pages v b s m a = mem s a" if "page_base a \<noteq> table_of v s" "\<forall>i<np v s. page_base a \<noteq> place b v i s" for a
    using copy_pages_facts(1)[OF assms(1,2), of a b m] m(2) that by simp
  ultimately show ?thesis unfolding moved_def by blast
qed

lemma moved_copy_map:
  assumes "layout V s" "v \<in> V"
  shows "\<exists>m. map_display v b (s\<lparr>mem := copy_pages v b s (mem s)\<rparr>) = s\<lparr>mem := m\<rparr> \<and> moved v b s m"
proof -
  let ?s = "s\<lparr>mem := copy_pages v b s (mem s)\<rparr>"
  note P = layout_place[OF assms]
  have e: "entry ?s (video_pd u s) 0 = entry s (video_pd u s) 0" if "u \<in> V" for u
  proof (rule entry_page_cong)
    show "page_aligned (video_pd u s)" using assms(1) that unfolding layout_def by blast
    fix a assume "page_base a = video_pd u s"
    then have "page_base a \<noteq> place b v i s" if "i < np v s" for i using P(3)[OF that \<open>u \<in> V\<close>, of b] by simp
    then show "mem ?s a = mem s a" using copy_pages_facts(1)[OF assms] by simp
  qed simp
  have l: "layout V ?s" by (rule layout_mem(1)[OF assms(1) e])
  have t: "table_of v ?s = table_of v s" by (rule layout_mem(2)[OF assms(1) e assms(2)])
  obtain m where m: "map_display v b ?s = ?s\<lparr>mem := m\<rparr>"
      "\<And>i. i < np v s \<Longrightarrow> entry (s\<lparr>mem := m\<rparr>) (table_of v s) (page_table_offset (hw v i s)) = to_physical (place b v i s) OR FLAGS_PTE"
      "\<And>a. page_base a \<noteq> table_of v s \<Longrightarrow> m a = copy_pages v b s (mem s) a"
    using map_display_facts[OF l assms(2), of b] t by (auto simp: mem_upd_simps)
  have "m a = mem s (place (\<not> b) v i s + (a - place b v i s))" if i: "i < np v s" "page_base a = place b v i s" for i a
    using copy_pages_facts(2)[OF assms i] m(3)[of a] P(2)[OF i(1) assms(2), of b] i(2) by simp
  moreover have "m a = mem s a" if "page_base a \<noteq> table_of v s" "\<forall>i<np v s. page_base a \<noteq> place b v i s" for a
    using copy_pages_facts(1)[OF assms, of a b "mem s"] m(3) that by simp
  ultimately have "moved v b s m" using m(2) unfolding moved_def by blast
  then show ?thesis using m(1) by auto
qed

lemma videos_set_pte [simp]: "videos (set_pte pd a pte s) = videos s"
  by (simp add: set_pte_def get_table_def set_entry_def alloc_page_def Let_def split: prod.split if_splits)

lemma map_cga_display: "v_ops (videos s v) = Cga \<Longrightarrow> map_cga_buffer v b s = map_display v b s"
proof -
  have "fold (\<lambda>i s. set_pte (video_pd v s) (CGA_VIDEO_MEM + of_nat i * 4096)
        ((if b then CGA_VIDEO_MEM + of_nat i * 4096 else to_physical (cga_buffer (v_cga (videos s v)) ! i))
           OR PTE_USER OR PTE_READ_WRITE OR PTE_PRESENT) s) is s =
      fold (\<lambda>i s. set_pte (video_pd v s) (hw v i s) (to_physical (place b v i s) OR FLAGS_PTE) s) is s"
    if "v_ops (videos s v) = Cga" for "is" s
    using that
  proof (induction "is" arbitrary: s)
    case (Cons i "is")
    have "set_pte (video_pd v s) (CGA_VIDEO_MEM + of_nat i * 4096)
        ((if b then CGA_VIDEO_MEM + of_nat i * 4096 else to_physical (cga_buffer (v_cga (videos s v)) ! i))
           OR PTE_USER OR PTE_READ_WRITE OR PTE_PRESENT) s =
      set_pte (video_pd v s) (hw v i s) (to_physical (place b v i s) OR FLAGS_PTE) s"
      using Cons.prems by (simp add: place_def buf_page_def hw_page_def to_physical_def to_logical_def)
    then show ?case using Cons by (simp del: fun_upd_apply)
  qed simp
  from this[of s "[0..<4]"] show "v_ops (videos s v) = Cga \<Longrightarrow> map_cga_buffer v b s = map_display v b s"
    by (simp add: map_cga_buffer_def map_display_def n_pages_def)
qed

lemma switch_from_moved:
  assumes "layout V s" "v \<in> V"
  shows "\<exists>m. switch_from v s = s\<lparr>mem := m\<rparr> \<and> moved v False s m"
proof (cases "v_ops (videos s v)")
  case Mda
  then have "map_mda_buffer v (to_physical (mda_buffer (v_mda (videos s v)))) s = map_display v False s"
    by (simp add: map_mda_buffer_def map_display_def n_pages_def place_def buf_page_def hw_page_def)
  moreover obtain m where m: "map_display v False s = s\<lparr>mem := m\<rparr>" using map_display_facts[OF assms] by blast
  moreover have "memcpy m (mda_buffer (v_mda (videos s v))) (to_logical MDA_VIDEO_MEM) 4096 = copy_pages v False s m"
    using Mda by (simp add: copy_pages_def n_pages_def place_def buf_page_def hw_page_def)
  ultimately have "switch_from v s = s\<lparr>mem := copy_pages v False s m\<rparr>" using Mda by (simp add: switch_from_def mda_switch_from_def)
  then show ?thesis using moved_map_copy[OF assms m] by blast
next
  case Cga
  have f: "fold (\<lambda>i s. s\<lparr>mem := memcpy (mem s) (cga_buffer (v_cga (videos s v)) ! i) (to_logical (CGA_VIDEO_MEM + of_nat i * 4096)) 4096\<rparr>) is s
      = s\<lparr>mem := fold (\<lambda>i m. memcpy m (place False v i s) (place True v i s) 4096) is (mem s)\<rparr>" for "is"
    using Cga
  proof (induction "is" arbitrary: s)
    case (Cons i "is")
    show ?case using Cons.prems Cons.IH[of "s\<lparr>mem := memcpy (mem s) (place False v i s) (place True v i s) 4096\<rparr>"]
      by (simp add: mem_upd_simps) (simp add: place_def buf_page_def hw_page_def)
  qed simp
  have "switch_from v s = map_display v False (s\<lparr>mem := copy_pages v False s (mem s)\<rparr>)"
    using Cga by (simp add: switch_from_def cga_switch_from_def f copy_pages_def n_pages_def map_cga_display)
  then show ?thesis using moved_copy_map[OF assms] by simp
qed

lemma switch_to_moved:
  assumes "layout V s" "v \<in> V"
  shows "\<exists>m. switch_to v s = s\<lparr>mem := m\<rparr> \<and> moved v True s m"
proof -
  have "switch_to v s = map_display v True (s\<lparr>mem := copy_pages v True s (mem s)\<rparr>)"
  proof (cases "v_ops (videos s v)")
    case Mda
    then show ?thesis
      by (simp add: switch_to_def mda_switch_to_def copy_pages_def n_pages_def map_display_def map_mda_buffer_def mem_upd_simps)
        (simp add: place_def buf_page_def hw_page_def to_physical_def to_logical_def)
  next
    case Cga
    have "fold (\<lambda>i s. s\<lparr>mem := memcpy (mem s) (to_logical (CGA_VIDEO_MEM + of_nat i * 4096)) (cga_buffer (v_cga (videos s v)) ! i) 4096\<rparr>) is s
        = s\<lparr>mem := fold (\<lambda>i m. memcpy m (place True v i s) (place False v i s) 4096) is (mem s)\<rparr>" for "is"
      using Cga
    proof (induction "is" arbitrary: s)
      case (Cons i "is")
      show ?case using Cons.prems Cons.IH[of "s\<lparr>mem := memcpy (mem s) (place True v i s) (place False v i s) 4096\<rparr>"]
        by (simp add: mem_upd_simps) (simp add: place_def buf_page_def hw_page_def)
    qed simp
    then show ?thesis using Cga by (simp add: switch_to_def cga_switch_to_def copy_pages_def n_pages_def map_cga_display)
  qed
  then show ?thesis using moved_copy_map[OF assms] by simp
qed

section \<open>The displays after a switch\<close>

lemma place_shown: "shown v i s = place (in_view (videos s v)) v i s"
  by (simp add: shown_def place_def)

lemma page_base_shown: "page_aligned p \<Longrightarrow> k < 4096 \<Longrightarrow> page_base (p + of_nat k) = p"
  by (rule page_base_add) (simp_all add: unat_of_nat)

text \<open>
  The state after a switch of \<open>v\<close>: other ports accesses do not matter, the memory is that
  of \<open>moved\<close>.
\<close>

lemma moved_displays:
  fixes s s' :: "'a vids_scheme"
  assumes d: "layout V s" "mapped V s" "v \<in> V" "moved v b s (mem s')"
    and o: "\<And>u. u \<in> V \<Longrightarrow> u \<noteq> v \<Longrightarrow> \<not> in_view (videos s u)" "in_view (videos s v) \<longleftrightarrow> \<not> b"
    and s': "tasks s' = tasks s" "videos s' = (videos s)(v := (videos s v)\<lparr>in_view := b\<rparr>)"
  shows "layout V s'" "mapped V s'"
    "u \<in> V \<Longrightarrow> i < np u s \<Longrightarrow> k < 4096 \<Longrightarrow> mem s' (shown u i s' + of_nat k) = mem s (shown u i s + of_nat k)"
proof -
  note P = layout_place[OF d(1,3)]
  have M: "\<And>i. i < np v s \<Longrightarrow> entry (s\<lparr>mem := mem s'\<rparr>) (table_of v s) (page_table_offset (hw v i s)) = to_physical (place b v i s) OR FLAGS_PTE"
    "\<And>i a. i < np v s \<Longrightarrow> page_base a = place b v i s \<Longrightarrow> mem s' a = mem s (place (\<not> b) v i s + (a - place b v i s))"
    "\<And>a. page_base a \<noteq> table_of v s \<Longrightarrow> (\<And>i. i < np v s \<Longrightarrow> page_base a \<noteq> place b v i s) \<Longrightarrow> mem s' a = mem s a"
    using d(4) unfolding moved_def by blast+
  have eq: "entry s' q j = entry (s\<lparr>mem := mem s'\<rparr>) q j" for q j by (simp add: entry_def)
  have sv: "v_ops (videos s' u) = v_ops (videos s u)" "video_pd u s' = video_pd u s" "buf_page u i s' = buf_page u i s"
      "place c u i s' = place c u i s" for u i c
    using s' by (simp_all add: video_pd_def buf_page_def place_def cong: video_ops.case_cong)
  have keep: "entry s' q j = entry s q j"
    if "page_aligned q" "j < 1024" "q \<noteq> table_of v s" "\<And>i. i < np v s \<Longrightarrow> q \<noteq> place b v i s" for q j
    by (rule entry_page_cong[OF that(1,2)]) (use M(3) that(3,4) in blast)
  have pd: "entry s' (video_pd u s) 0 = entry s (video_pd u s) 0" if "u \<in> V" for u
  proof (rule keep)
    show "page_aligned (video_pd u s)" "video_pd u s \<noteq> table_of v s" using d(1,3) that unfolding layout_def by metis+
    show "video_pd u s \<noteq> place b v i s" if "i < np v s" for i using P(3)[OF that \<open>u \<in> V\<close>, of b] by simp
  qed simp
  have tab: "table_of u s' = table_of u s" if "u \<in> V" for u using pd[OF that] by (simp add: table_of_def sv)
  show l: "layout V s'" using d(1) unfolding layout_def by (simp add: sv tab pd)
  have dir: "get_pte t (video_pd u t) (hw u i t) = entry t (table_of u t) (page_table_offset (hw u i t))"
    if "layout V t" "u \<in> V" "i < np u t" for t :: "'a vids_scheme" and u i
    using that hw_facts(2)[OF that(3)] unfolding layout_def get_pte_def table_of_def by auto
  have other: "shown u i s' = buf_page u i s" "shown u i s = buf_page u i s" if "u \<in> V" "u \<noteq> v" for u i
    using o(1)[OF that] s'(2) that(2) by (simp_all add: shown_def sv)
  have own: "shown v i s' = place b v i s" "shown v i s = place (\<not> b) v i s" for i
    using s'(2) o(2) by (simp_all add: place_shown sv)
  show "mapped V s'"
    unfolding mapped_def
  proof (intro ballI allI impI)
    fix u i assume u: "u \<in> V" and i: "i < np u s'"
    have i': "i < np u s" using i by (simp add: sv)
    show "get_pte s' (video_pd u s') (hw u i s') = to_physical (shown u i s') OR FLAGS_PTE"
    proof (cases "u = v")
      case True
      then show ?thesis using M(1) i' dir[OF l u i] tab[OF u] by (simp add: eq own sv)
    next
      case False
      have "entry s' (table_of u s) (page_table_offset (hw u i s)) = entry s (table_of u s) (page_table_offset (hw u i s))"
      proof (rule keep)
        show "table_of u s \<noteq> table_of v s" using d(1,3) u False unfolding layout_def by blast
        show "table_of u s \<noteq> place b v j s" if "j < np v s" for j using P(2)[OF that u, of b] by simp
      qed (simp_all add: table_of_def)
      then show ?thesis
        using d(2)[unfolded mapped_def, rule_format, OF u i'] dir[OF l u i] dir[OF d(1) u i'] tab[OF u] other[OF u False] by (simp add: sv)
    qed
  qed
  show "mem s' (shown u i s' + of_nat k) = mem s (shown u i s + of_nat k)" if u: "u \<in> V" and i: "i < np u s" and k: "k < 4096" for u i k
  proof (cases "u = v")
    case True
    then show ?thesis using M(2)[OF i[unfolded True] page_base_shown[OF P(1)[OF i[unfolded True]] k]] by (simp add: own)
  next
    case False
    have b: "page_aligned (buf_page u i s)" "buf_page u i s \<noteq> table_of v s"
      using d(1,3) u i unfolding layout_def by blast+
    have "mem s' (buf_page u i s + of_nat k) = mem s (buf_page u i s + of_nat k)"
    proof (rule M(3))
      show "page_base (buf_page u i s + of_nat k) \<noteq> table_of v s" using b(2) page_base_shown[OF b(1) k] by simp
      show "page_base (buf_page u i s + of_nat k) \<noteq> place b v j s" if "j < np v s" for j
        using P(6)[OF that u False i, of b] page_base_shown[OF b(1) k] by simp
    qed
    then show ?thesis using other[OF u False] by simp
  qed
qed

section \<open>Switching\<close>

definition ports_only :: "'a vids_scheme \<Rightarrow> 'a vids_scheme \<Rightarrow> bool" where
  "ports_only s s' \<longleftrightarrow> (\<exists>l. s' = s\<lparr>port_log := l\<rparr>)"

lemma ports_only_refl: "ports_only s s"
  unfolding ports_only_def by (rule exI[of _ "port_log s"]) simp

lemma ports_only_trans: "ports_only s s1 \<Longrightarrow> ports_only s1 s2 \<Longrightarrow> ports_only s s2"
  unfolding ports_only_def by auto

lemma ports_only_step: "ports_only s s1 \<Longrightarrow> ports_only s (outb b p s1)" "ports_only s s1 \<Longrightarrow> ports_only s (snd (inb p s1))"
  unfolding ports_only_def outb_def inb_def by auto

lemma ports_only_fold:
  "(\<And>i s s1. ports_only s s1 \<Longrightarrow> ports_only s (f i s1)) \<Longrightarrow> ports_only s s1 \<Longrightarrow> ports_only s (fold f is s1)"
  by (induction "is" arbitrary: s1) auto

lemma ports_only_load_set:
  "(\<And>s s1. ports_only s s1 \<Longrightarrow> ports_only s (first s1)) \<Longrightarrow> ports_only s s1 \<Longrightarrow> ports_only s (load_set first ip dp a n rs s1)"
  unfolding load_set_def by (rule ports_only_fold) (simp_all add: ports_only_step)

lemma ports_only_vga:
  "ports_only s s1 \<Longrightarrow> ports_only s (vga_disable_video vi s1)" "ports_only s s1 \<Longrightarrow> ports_only s (vga_enable_video vi s1)"
  "ports_only s s1 \<Longrightarrow> ports_only s (vga_load_regs vi s1)"
  unfolding vga_disable_video_def vga_enable_video_def vga_load_regs_def Let_def case_prod_beta
  by (simp_all add: ports_only_step ports_only_load_set)

lemma port_log_simps:
  "layout V (s\<lparr>port_log := l\<rparr>) = layout V s" "mapped V (s\<lparr>port_log := l\<rparr>) = mapped V s"
  "moved v b (s\<lparr>port_log := l\<rparr>) m = moved v b s m" "shown u i (s\<lparr>port_log := l\<rparr>) = shown u i s"
  "layout V (s\<lparr>viewed_video := w\<rparr>) = layout V s" "mapped V (s\<lparr>viewed_video := w\<rparr>) = mapped V s"
  "shown u i (s\<lparr>viewed_video := w\<rparr>) = shown u i s"
  by (simp_all add: layout_def mapped_def moved_def shown_def buf_page_def video_pd_def table_of_def entry_def get_pte_def place_def
      cong: video_ops.case_cong)

abbreviation same_screens :: "nat set \<Rightarrow> 'a vids_scheme \<Rightarrow> 'a vids_scheme \<Rightarrow> bool" where
  "same_screens V s s' \<equiv> \<forall>u\<in>V. \<forall>i<np u s. \<forall>k<4096. mem s' (shown u i s' + of_nat k) = mem s (shown u i s + of_nat k)"

definition leave_video :: "nat \<Rightarrow> 'a vids_scheme \<Rightarrow> 'a vids_scheme" where
  "leave_video v s = (vid_upd v (\<lambda>x. x\<lparr>in_view := False\<rparr>) (switch_from v (vga_disable_video (v_vga (videos s v)) s)))\<lparr>viewed_video := None\<rparr>"

definition enter_video :: "nat \<Rightarrow> 'a vids_scheme \<Rightarrow> 'a vids_scheme" where
  "enter_video n s =
     (let s3 = vid_upd n (\<lambda>x. x\<lparr>in_view := True\<rparr>) (s\<lparr>viewed_video := Some n\<rparr>);
          s4 = switch_to n (vga_load_regs (v_vga (videos s3 n)) s3)
      in vga_enable_video (v_vga (videos s4 n)) s4)"

lemma switch_video_parts:
  "switch_video v s = (if viewed_video s = v then s
     else (let s1 = (case viewed_video s of None \<Rightarrow> s | Some w \<Rightarrow> leave_video w s)
           in case v of None \<Rightarrow> s1 | Some n \<Rightarrow> enter_video n s1))"
  by (auto simp: switch_video_def leave_video_def enter_video_def Let_def vid_upd_def split: option.splits)

lemma leave_video_displays:
  assumes "displays V s" "viewed_video s = Some v"
  shows "displays V (leave_video v s)" "viewed_video (leave_video v s) = None" "same_screens V s (leave_video v s)"
    "np u (leave_video v s) = np u s"
proof -
  note d = assms(1)[unfolded displays_def]
  obtain l where l: "vga_disable_video (v_vga (videos s v)) s = s\<lparr>port_log := l\<rparr>"
    using ports_only_vga(1)[OF ports_only_refl] unfolding ports_only_def by blast
  have v: "v \<in> V" using d assms(2) by blast
  obtain m where m: "switch_from v (s\<lparr>port_log := l\<rparr>) = s\<lparr>port_log := l, mem := m\<rparr>" "moved v False s m"
    using switch_from_moved[of V "s\<lparr>port_log := l\<rparr>" v] d v by (auto simp: port_log_simps)
  have s': "leave_video v s = (vid_upd v (\<lambda>x. x\<lparr>in_view := False\<rparr>) (s\<lparr>port_log := l, mem := m\<rparr>))\<lparr>viewed_video := None\<rparr>"
    by (simp add: leave_video_def l m(1))
  have f: "tasks (leave_video v s) = tasks s" "videos (leave_video v s) = (videos s)(v := (videos s v)\<lparr>in_view := False\<rparr>)"
      "mem (leave_video v s) = m" "viewed_video (leave_video v s) = None"
    by (simp_all add: s' vid_upd_def)
  have L: "layout V s" "mapped V s" and I: "\<And>u. u \<in> V \<Longrightarrow> in_view (videos s u) \<longleftrightarrow> viewed_video s = Some u" using d by blast+
  have mv: "moved v False s (mem (leave_video v s))" using m(2) f(3) by simp
  have o: "\<And>u. u \<in> V \<Longrightarrow> u \<noteq> v \<Longrightarrow> \<not> in_view (videos s u)" "in_view (videos s v) \<longleftrightarrow> \<not> False"
    using I v assms(2) by auto
  note M = moved_displays[OF L v mv o f(1,2)]
  show "viewed_video (leave_video v s) = None" by (rule f(4))
  show "displays V (leave_video v s)" unfolding displays_def using M(1,2) I assms(2) by (auto simp: f(2,4))
  show "same_screens V s (leave_video v s)" using M(3) by blast
  show "np u (leave_video v s) = np u s" by (simp add: f(2))
qed

lemma enter_video_displays:
  assumes "displays V s" "viewed_video s = None" "v \<in> V"
  shows "displays V (enter_video v s)" "viewed_video (enter_video v s) = Some v" "same_screens V s (enter_video v s)"
proof -
  note d = assms(1)[unfolded displays_def]
  let ?t = "s\<lparr>viewed_video := Some v\<rparr>"
  let ?u = "vid_upd v (\<lambda>x. x\<lparr>in_view := True\<rparr>) ?t"
  have L: "layout V s" "mapped V s" and I: "\<And>u. u \<in> V \<Longrightarrow> \<not> in_view (videos s u)" using d assms(2) by auto
  obtain l where l: "vga_load_regs (v_vga (videos ?u v)) ?u = ?u\<lparr>port_log := l\<rparr>"
    using ports_only_vga(3)[OF ports_only_refl] unfolding ports_only_def by blast
  have pl: "place b w i ?u = place b w i s" "table_of w ?u = table_of w s" "v_ops (videos ?u w) = v_ops (videos s w)"
      "video_pd w ?u = video_pd w s" "buf_page w i ?u = buf_page w i s" "entry ?u q j = entry s q j" for b w i q j
    by (simp_all add: place_def vid_upd_def buf_page_def table_of_def video_pd_def entry_def cong: video_ops.case_cong)
  have "layout V ?u" using L(1) unfolding layout_def pl .
  then obtain m where m: "switch_to v (?u\<lparr>port_log := l\<rparr>) = ?u\<lparr>port_log := l, mem := m\<rparr>" "moved v True ?u m"
    using switch_to_moved[of V "?u\<lparr>port_log := l\<rparr>" v] assms(3) by (auto simp: port_log_simps)
  obtain l2 where "vga_enable_video (v_vga (videos ?u v)) (?u\<lparr>port_log := l, mem := m\<rparr>) = ?u\<lparr>port_log := l, mem := m, port_log := l2\<rparr>"
    using ports_only_vga(2)[OF ports_only_refl] unfolding ports_only_def by blast
  then have l2: "enter_video v s = ?u\<lparr>port_log := l, mem := m, port_log := l2\<rparr>" by (simp add: enter_video_def Let_def l m(1))
  have f: "tasks (enter_video v s) = tasks s" "videos (enter_video v s) = (videos s)(v := (videos s v)\<lparr>in_view := True\<rparr>)"
      "mem (enter_video v s) = m" "viewed_video (enter_video v s) = Some v"
    by (simp_all add: l2 vid_upd_def)
  have mv: "moved v True s (mem (enter_video v s))"
    using m(2) f(3) unfolding moved_def pl by (simp add: entry_def vid_upd_def)
  have o: "\<And>u. u \<in> V \<Longrightarrow> u \<noteq> v \<Longrightarrow> \<not> in_view (videos s u)" "in_view (videos s v) \<longleftrightarrow> \<not> True" using I assms(3) by auto
  note M = moved_displays[OF L assms(3) mv o f(1,2)]
  show "viewed_video (enter_video v s) = Some v" by (rule f(4))
  show "displays V (enter_video v s)" unfolding displays_def using M(1,2) I assms(3) by (auto simp: f(2,4))
  show "same_screens V s (enter_video v s)" using M(3) by blast
qed

text \<open>
  C23: Switching the hardware to another display (or to none) keeps every display's picture: if the
  displays are laid out in separate pages and mapped where their tasks write, then afterwards they
  still are, the requested display is the one in view, and every byte that a display shows, be it
  in the video memory or in its buffer, is the byte it showed before.
\<close>
theorem switch_video_keeps_screens:
  assumes "displays V s" "\<forall>n. v = Some n \<longrightarrow> n \<in> V"
  shows "displays V (switch_video v s) \<and> viewed_video (switch_video v s) = v \<and> same_screens V s (switch_video v s)"
proof (cases "viewed_video s = v")
  case False
  define s1 where "s1 = (case viewed_video s of None \<Rightarrow> s | Some w \<Rightarrow> leave_video w s)"
  have s1: "displays V s1" "viewed_video s1 = None" "same_screens V s s1" "\<And>u. np u s1 = np u s"
    using assms(1) leave_video_displays[OF assms(1)] by (auto simp: s1_def split: option.split)
  have sw: "switch_video v s = (case v of None \<Rightarrow> s1 | Some n \<Rightarrow> enter_video n s1)"
    unfolding s1_def using False by (simp add: switch_video_parts Let_def)
  show ?thesis
  proof (cases v)
    case (Some n)
    note e = enter_video_displays[OF s1(1,2), of n]
    have "same_screens V s (enter_video n s1)" using e(3) s1(3,4) assms(2) Some by simp
    then show ?thesis using e(1,2) assms(2) Some sw by simp
  qed (use s1 sw in simp)
qed (use assms in \<open>simp add: switch_video_def\<close>)

section \<open>Two displays over a concrete memory\<close>

definition demo_pages :: memory where
  "demo_pages = fold (\<lambda>(a, v) m. store32 m a v)
     [(0x900000, 0x101007), (0x910000, 0x111007), (0x9012c0, 0x120007), (0x9112e0, 0x121007),
      (0x9112e4, 0x122007), (0x9112e8, 0x123007), (0x9112ec, 0x124007)] (\<lambda>_. 0)"

definition demo_video :: "video_ops \<Rightarrow> tid \<Rightarrow> video" where
  "demo_video ops t = \<lparr>v_ops = ops, v_task = t, v_vga = \<lparr>vga_regs = mode7_regs, crt_i = 0x3b4, crt_d = 0x3b5, is1_r = 0x3ba\<rparr>,
     v_mi = mode7_info, v_mode = 7, in_view = False,
     v_mda = \<lparr>mda_buffer = 0x920000, mda_control = 0, mda_status = 0, mda_index = 0, mda_data_reg = 0, mda_mc6845 = mda_default_regs\<rparr>,
     v_cga = \<lparr>cga_buffer = [0x921000, 0x922000, 0x923000, 0x924000], cga_mode_select = 0, cga_color_select = 0,
       cga_status = 0, cga_index = 0, cga_data_reg = 0, cga_mc6845 = cga_default_regs\<rparr>\<rparr>"

definition demo_vids :: vids where
  "demo_vids = vports.extend (demo_machine\<lparr>mem := demo_pages,
       tasks := (\<lambda>t. demo_task\<lparr>t_page_dir := if t = 0 then 0x900000 else 0x910000\<rparr>)\<rparr>)
     \<lparr>videos = (\<lambda>v. if v = 0 then demo_video Mda 0 else demo_video Cga 1), viewed_video = None,
      video_list = [Cga, Mda], vm_video = 0, port_log = [], port_read = (\<lambda>l p. 0)\<rparr>"

lemma demo_vids_simps [simp]:
  "videos demo_vids 0 = demo_video Mda 0" "videos demo_vids (Suc 0) = demo_video Cga 1" "viewed_video demo_vids = None"
  "video_pd 0 demo_vids = 0x900000" "video_pd (Suc 0) demo_vids = 0x910000" "vm_video demo_vids = 0"
  by (simp_all add: demo_vids_def vports.defs demo_video_def video_pd_def)

lemma demo_entry:
  "entry demo_vids pd i = load32 demo_pages (pd + 4 * i)"
  by (simp add: entry_def demo_vids_def vports.defs)

lemma demo_displays: "displays {0, 1} demo_vids"
proof -
  have b: "i < 4 \<Longrightarrow> i = 0 \<or> i = 1 \<or> i = 2 \<or> i = 3" for i :: nat by linarith
  have e: "entry demo_vids 0x900000 0 = 0x101007" "entry demo_vids 0x910000 0 = 0x111007"
     "entry demo_vids 0x901000 0xb0 = 0x120007" "entry demo_vids 0x911000 0xb8 = 0x121007"
     "entry demo_vids 0x911000 0xb9 = 0x122007" "entry demo_vids 0x911000 0xba = 0x123007"
     "entry demo_vids 0x911000 0xbb = 0x124007"
    by (simp_all add: demo_entry demo_pages_def load32_store32_aligned aligned4_def)
  have t: "table_of 0 demo_vids = 0x901000" "table_of (Suc 0) demo_vids = 0x911000"
    by (simp_all add: table_of_def e pte_get_addr_def to_logical_def)
  have bp: "buf_page 0 0 demo_vids = 0x920000" "i < 4 \<Longrightarrow> buf_page (Suc 0) i demo_vids = 0x921000 + of_nat i * 4096" for i
    by (auto simp: buf_page_def demo_video_def dest!: b)
  have n: "v_ops (demo_video ops t) = ops" "n_pages Mda = 1" "n_pages Cga = 4" for ops t by (simp_all add: demo_video_def n_pages_def)
  have "layout {0, 1} demo_vids"
    by (auto simp: layout_def n t e bp hw_pages_def to_logical_def page_aligned_def dest!: b)
  moreover have "mapped {0, 1} demo_vids"
    by (auto simp: mapped_def n get_pte_def e shown_def bp hw_page_def demo_video_def page_dir_offset_def page_table_offset_def
        MDA_VIDEO_MEM_def CGA_VIDEO_MEM_def pte_get_addr_def to_logical_def to_physical_def dest!: b)
  ultimately show ?thesis by (simp add: displays_def demo_video_def)
qed

lemma switch_video_keeps_screens_witness:
  "displays {0, 1} (switch_video (Some 1) demo_vids) \<and> viewed_video (switch_video (Some 1) demo_vids) = Some 1"
  using switch_video_keeps_screens[OF demo_displays, of "Some 1"] by simp

section \<open>A display that is not in view\<close>

text \<open>
  \<open>device_only\<close>: the state has changed in the registers of display \<open>v\<close> alone, its
  buffers, its task and its being in view excepted; so the ports of the hardware, the memory and
  the other displays are as before.
\<close>

definition device_only :: "nat \<Rightarrow> 'a vids_scheme \<Rightarrow> 'a vids_scheme \<Rightarrow> bool" where
  "device_only v s s' \<longleftrightarrow> (\<exists>x. s' = s\<lparr>videos := (videos s)(v := x)\<rparr> \<and> in_view x = in_view (videos s v)
     \<and> v_ops x = v_ops (videos s v) \<and> v_task x = v_task (videos s v)
     \<and> mda_buffer (v_mda x) = mda_buffer (v_mda (videos s v)) \<and> cga_buffer (v_cga x) = cga_buffer (v_cga (videos s v)))"

lemma device_only_refl: "device_only v s s"
  unfolding device_only_def by (rule exI[of _ "videos s v"]) simp

lemma device_only_in_view: "device_only v s s1 \<Longrightarrow> in_view (videos s1 v) = in_view (videos s v)"
  unfolding device_only_def by auto

lemma device_only_upd:
  "device_only v s s1 \<Longrightarrow> (\<And>x. in_view (f x) = in_view x \<and> v_ops (f x) = v_ops x \<and> v_task (f x) = v_task x
      \<and> mda_buffer (v_mda (f x)) = mda_buffer (v_mda x) \<and> cga_buffer (v_cga (f x)) = cga_buffer (v_cga x)) \<Longrightarrow>
   device_only v s (vid_upd v f s1)"
  unfolding device_only_def vid_upd_def by auto

lemma device_only_vga_set_mode:
  "\<not> in_view (videos s v) \<Longrightarrow> device_only v s s1 \<Longrightarrow> device_only v s (snd (vga_set_mode v mode s1))"
  using device_only_in_view[of v s s1] by (auto simp: vga_set_mode_def Let_def intro: device_only_upd split: option.split)

lemma device_only_set_crt_reg:
  "\<not> in_view (videos s v) \<Longrightarrow> device_only v s s1 \<Longrightarrow> device_only v s (set_crt_reg v i b s1)"
  using device_only_in_view[of v s s1] by (auto simp: set_crt_reg_def Let_def intro: device_only_upd)

lemma device_only_cga:
  assumes "\<not> in_view (videos s v)"
  shows "device_only v s (set_mode_select v b s)" "device_only v s (set_color_select v b s)"
proof -
  show "device_only v s (set_mode_select v b s)"
    unfolding set_mode_select_def upd_cga_def
    using device_only_vga_set_mode[OF assms device_only_refl] by (simp add: device_only_refl device_only_upd)
  define t where "t = vid_upd v (\<lambda>x. x\<lparr>v_vga := (v_vga x)\<lparr>vga_regs :=
       fold (\<lambda>k rs. rs[VGA_ATTR_REGS + k := (if test_mask b 0x20 then [0x00, 0x03, 0x05, 0x07] else [0x00, 0x02, 0x04, 0x0e]) ! k]) [0..<4]
         ((vga_regs (v_vga x))[VGA_ATTR_REGS + 0x11 := b AND 15])\<rparr>\<rparr>) s"
  define u where "u = vid_upd v (\<lambda>x. x\<lparr>v_cga := (v_cga x)\<lparr>cga_color_select := b\<rparr>\<rparr>) t"
  have u: "device_only v s u" unfolding u_def t_def by (intro device_only_upd device_only_refl) simp_all
  then have "\<not> in_view (videos u v)" using device_only_in_view[OF u] assms by simp
  then have "set_color_select v b s = (if b \<noteq> cga_color_select (v_cga (videos s v)) then u else s)"
    unfolding set_color_select_def Let_def upd_cga_def t_def[symmetric] u_def[symmetric] by simp
  then show "device_only v s (set_color_select v b s)" using u by (simp add: device_only_refl)
qed

lemma device_only_outb:
  assumes "\<not> in_view (videos s v)" shows "device_only v s (video_outb v b port s)"
proof -
  have "device_only v s (mda_outb v b port s)"
    unfolding mda_outb_def Let_def upd_mda_def
    by (auto intro!: device_only_upd device_only_set_crt_reg[OF assms] device_only_refl)
  moreover have "device_only v s (cga_outb v b port s)"
    unfolding cga_outb_def Let_def upd_cga_def
    by (auto intro!: device_only_upd device_only_set_crt_reg[OF assms] device_only_refl device_only_cga[OF assms])
  ultimately show ?thesis by (simp add: video_outb_def split: video_ops.split)
qed

lemma device_only_inb: "device_only v s (snd (video_inb v port s))"
  by (simp add: video_inb_def mda_inb_def cga_inb_def upd_cga_def Let_def device_only_refl device_only_upd split: video_ops.split)

text \<open>
  C24: A guest whose display is not in view cannot reach the hardware or another guest's screen
  through the display's ports: a read or a write of any port leaves the hardware's ports, the
  memory and every other display as they are, and of its own display only the emulated registers
  change.
\<close>
theorem hidden_display_isolated:
  assumes "\<not> in_view (videos s (vm_video s))"
  shows "device_only (vm_video s) s (video_out port sz val s) \<and> device_only (vm_video s) s (snd (video_in port sz s))"
  using device_only_outb[OF assms] by (simp add: device_only_inb video_out_def video_in_def device_only_refl case_prod_beta)

lemma hidden_display_isolated_witness:
  "device_only 0 demo_vids (video_out 0x3b8 1 0x1e demo_vids)"
  using hidden_display_isolated[of demo_vids "0x3b8" 1 "0x1e"] by (simp add: demo_video_def)

end
