(* ===== verification/TtyProps.thy ===== *)
theory TtyProps
  imports Tty VideoProps
begin

text \<open>
  Printing on a terminal refines an abstract text screen: a grid of characters and attributes with
  a cursor.  The first part is about blocks of memory addressed from the start of the page.
\<close>

unbundle bit_operations_syntax

section \<open>Blocks of memory\<close>

lemma at_inj: "i < 2 ^ 32 \<Longrightarrow> j < 2 ^ 32 \<Longrightarrow> buf + (of_nat i :: u32) = buf + of_nat j \<longleftrightarrow> i = j"
proof -
  assume ij: "i < 2 ^ 32" "j < 2 ^ 32"
  have "unat (of_nat i :: u32) = i" "unat (of_nat j :: u32) = j" using ij by (simp_all add: unat_of_nat)
  then show ?thesis by (metis add_left_cancel)
qed

lemma at_offset: "a = buf + of_nat (unat (a - buf))" for a :: u32
  by simp

lemma memsetw_at:
  "k + 2 * j \<le> 2 ^ 32 \<Longrightarrow> i < 2 ^ 32 \<Longrightarrow>
   memsetw m (buf + of_nat k) w j (buf + of_nat i) =
     (if k \<le> i \<and> i < k + 2 * j then if even (i - k) then ucast w else ucast (drop_bit 8 w) else m (buf + of_nat i))"
proof (induction j arbitrary: k m)
  case (Suc j)
  let ?m = "store16 m (buf + of_nat k) w"
  have st: "memsetw m (buf + of_nat k) w (Suc j) = memsetw ?m (buf + of_nat (k + 2)) w j"
    by (simp add: algebra_simps)
  have b1: "buf + of_nat k + 1 = buf + of_nat (k + 1)" by (simp add: algebra_simps)
  have own: "?m (buf + of_nat i) = (if i = k then ucast w else if i = k + 1 then ucast (drop_bit 8 w) else m (buf + of_nat i))"
    unfolding store16_def b1 using Suc.prems at_inj[of i k buf] at_inj[of i "k + 1" buf] at_inj[of k "k + 1" buf] by auto
  have ih: "memsetw ?m (buf + of_nat (k + 2)) w j (buf + of_nat i) =
     (if k + 2 \<le> i \<and> i < k + 2 + 2 * j then if even (i - (k + 2)) then ucast w else ucast (drop_bit 8 w) else ?m (buf + of_nat i))"
    using Suc.prems by (intro Suc.IH) simp_all
  consider "i < k" | "i = k" | "i = k + 1" | "k + 2 \<le> i" by linarith
  then show ?case
  proof cases
    case 4
    then have "even (i - (k + 2)) \<longleftrightarrow> even (i - k)" by auto
    then show ?thesis unfolding st ih own using 4 by auto
  next
    case 1 then show ?thesis unfolding st ih own by simp
  next
    case 2 then show ?thesis unfolding st ih own by simp
  next
    case 3 then show ?thesis unfolding st ih own by simp
  qed
qed auto

lemma copy32_at:
  assumes j: "j < 2 ^ 32" and k: "k + 4 \<le> 2 ^ 32"
  shows "store32 m (buf + of_nat k) (load32 m b) (buf + of_nat j) =
     (if k \<le> j \<and> j < k + 4 then m (b + of_nat (j - k)) else m (buf + of_nat j))"
proof (cases "k \<le> j")
  case True
  then have e: "buf + of_nat j - (buf + of_nat k) = (of_nat (j - k) :: u32)" by (simp add: of_nat_diff)
  moreover have "unat (of_nat (j - k) :: u32) = j - k" using j by (simp add: unat_of_nat)
  then have "(of_nat (j - k) :: u32) < 4 \<longleftrightarrow> j < k + 4" unfolding word_less_nat_alt using True by auto
  ultimately show ?thesis unfolding copy32 e using True by simp
next
  case False
  have "\<not> buf + of_nat j - (buf + of_nat k) < 4"
  proof
    assume "buf + of_nat j - (buf + of_nat k) < 4"
    moreover define x where "x = buf + of_nat j - (buf + of_nat k)"
    ultimately have x: "unat x < 4" by (simp add: word_less_nat_alt)
    have "of_nat j = (of_nat (k + unat x) :: u32)" by (simp add: x_def)
    then have "j = k + unat x" using at_inj[of j "k + unat x" 0] j k x by simp
    then show False using False by simp
  qed
  then show ?thesis unfolding copy32 using False by simp
qed

lemma memcpyl_up:
  "4 \<le> d \<Longrightarrow> k + d + 4 * n \<le> 2 ^ 32 \<Longrightarrow> i < 2 ^ 32 \<Longrightarrow>
   memcpyl m (buf + of_nat k) (buf + of_nat (k + d)) n (buf + of_nat i) =
     (if k \<le> i \<and> i < k + 4 * n then m (buf + of_nat (i + d)) else m (buf + of_nat i))"
proof (induction n arbitrary: k m)
  case (Suc n)
  let ?m = "store32 m (buf + of_nat k) (load32 m (buf + of_nat (k + d)))"
  have st: "memcpyl m (buf + of_nat k) (buf + of_nat (k + d)) (Suc n) = memcpyl ?m (buf + of_nat (k + 4)) (buf + of_nat (k + 4 + d)) n"
    by (simp add: algebra_simps)
  have own: "?m (buf + of_nat j) = (if k \<le> j \<and> j < k + 4 then m (buf + of_nat (j + d)) else m (buf + of_nat j))"
    if j: "j < 2 ^ 32" for j
  proof -
    have e: "buf + of_nat (k + d) + of_nat (j - k) = buf + (of_nat (j + d) :: u32)" if "k \<le> j \<and> j < k + 4"
      using that by (simp add: of_nat_diff)
    have k: "k + 4 \<le> 2 ^ 32" using Suc.prems(2) by simp
    show ?thesis unfolding copy32_at[OF j k] by (rule if_cong[OF refl _ refl]) (simp only: e)
  qed
  have ih: "memcpyl ?m (buf + of_nat (k + 4)) (buf + of_nat (k + 4 + d)) n (buf + of_nat i) =
     (if k + 4 \<le> i \<and> i < k + 4 + 4 * n then ?m (buf + of_nat (i + d)) else ?m (buf + of_nat i))"
    using Suc.prems by (intro Suc.IH) simp_all
  consider "i < k" | "k \<le> i" "i < k + 4" | "k + 4 \<le> i" "i < k + 4 + 4 * n" | "k + 4 + 4 * n \<le> i" by linarith
  then show ?case
  proof cases
    case 3
    then have "i + d < 2 ^ 32" using Suc.prems by simp
    then show ?thesis unfolding st ih using own[of "i + d"] 3 Suc.prems(1) by simp
  next
    case 1 then show ?thesis unfolding st ih own[OF Suc.prems(3)] by simp
  next
    case 2 then show ?thesis unfolding st ih own[OF Suc.prems(3)] by simp
  next
    case 4 then show ?thesis unfolding st ih own[OF Suc.prems(3)] by simp
  qed
qed auto

text \<open>Copying upwards from a block below.\<close>

lemma memcpyl_down:
  "p + 4 * n \<le> d \<Longrightarrow> d + 4 * n \<le> 2 ^ 32 \<Longrightarrow> i < 2 ^ 32 \<Longrightarrow>
   memcpyl m (buf + of_nat d) (buf + of_nat p) n (buf + of_nat i) =
     (if d \<le> i \<and> i < d + 4 * n then m (buf + of_nat (i - d + p)) else m (buf + of_nat i))"
proof (induction n arbitrary: d p m)
  case (Suc n)
  let ?m = "store32 m (buf + of_nat d) (load32 m (buf + of_nat p))"
  have st: "memcpyl m (buf + of_nat d) (buf + of_nat p) (Suc n) = memcpyl ?m (buf + of_nat (d + 4)) (buf + of_nat (p + 4)) n"
    by (simp add: algebra_simps)
  have own: "?m (buf + of_nat j) = (if d \<le> j \<and> j < d + 4 then m (buf + of_nat (j - d + p)) else m (buf + of_nat j))"
    if "j < 2 ^ 32" for j
  proof -
    have e: "buf + of_nat p + of_nat (j - d) = buf + (of_nat (j - d + p) :: u32)" by (simp only: of_nat_add ac_simps)
    have d: "d + 4 \<le> 2 ^ 32" using Suc.prems(2) by simp
    show ?thesis unfolding copy32_at[OF that d] e ..
  qed
  have ih: "memcpyl ?m (buf + of_nat (d + 4)) (buf + of_nat (p + 4)) n (buf + of_nat i) =
     (if d + 4 \<le> i \<and> i < d + 4 + 4 * n then ?m (buf + of_nat (i - (d + 4) + (p + 4))) else ?m (buf + of_nat i))"
    using Suc.prems by (intro Suc.IH) simp_all
  consider "i < d" | "d \<le> i" "i < d + 4" | "d + 4 \<le> i" "i < d + 4 + 4 * n" | "d + 4 + 4 * n \<le> i" by linarith
  then show ?case
  proof cases
    case 3
    have "p + 4 * n + 4 \<le> d" "d + 4 * n + 4 \<le> 2 ^ 32" using Suc.prems by simp_all
    then have "i - (d + 4) + (p + 4) = i - d + p" "i - d + p < d" "i - d + p < 2 ^ 32" using 3 by linarith+
    then show ?thesis unfolding st ih using own[of "i - d + p"] 3 by simp
  next
    case 1 then show ?thesis unfolding st ih own[OF Suc.prems(3)] by simp
  next
    case 2 then show ?thesis unfolding st ih own[OF Suc.prems(3)] by simp
  next
    case 4 then show ?thesis unfolding st ih own[OF Suc.prems(3)] by simp
  qed
qed auto

lemma memcpy_up:
  assumes "4 \<le> d" "d + 4 * n < 2 ^ 32" "i < 2 ^ 32"
  shows "memcpy m buf (buf + of_nat d) (of_nat (4 * n)) (buf + of_nat i) =
     (if i < 4 * n then m (buf + of_nat (i + d)) else m (buf + of_nat i))"
proof -
  have n: "unat (of_nat (4 * n) :: u32) = 4 * n" using assms(2) by (simp add: unat_of_nat del: of_nat_mult)
  then have q: "unat (of_nat (4 * n) div 4 :: u32) = n" by (simp add: unat_div)
  have "(of_nat (4 * n) :: u32) = push_bit 2 (of_nat n)" by (simp add: push_bit_eq_mult)
  then have "\<not> bit (of_nat (4 * n) :: u32) 0" "\<not> bit (of_nat (4 * n) :: u32) 1" by (simp_all only: bit_push_bit_iff) simp_all
  then have "memcpy m buf (buf + of_nat d) (of_nat (4 * n)) = memcpyl m buf (buf + of_nat d) n"
    unfolding memcpy_def Let_def using q by simp
  then show ?thesis using memcpyl_up[of d 0 n i m buf] assms by simp
qed

section \<open>The screen in memory\<close>

definition screen_at :: "u32 \<Rightarrow> nat \<Rightarrow> memory \<Rightarrow> (u8 \<times> u8) list" where
  "screen_at buf n m = map (\<lambda>i. (m (buf + of_nat (2 * i)), m (buf + of_nat (2 * i + 1)))) [0..<n]"

lemma length_screen_at [simp]: "length (screen_at buf n m) = n"
  by (simp add: screen_at_def)

lemma nth_screen_at: "i < n \<Longrightarrow> screen_at buf n m ! i = (m (buf + of_nat (2 * i)), m (buf + of_nat (2 * i + 1)))"
  by (simp add: screen_at_def)

definition blanks :: "nat \<Rightarrow> (u8 \<times> u8) list" where
  "blanks k = replicate k (0x20, 7)"

lemma screen_glyph:
  assumes "p < n" "2 * n \<le> 2 ^ 32"
  shows "screen_at buf n (store8 (store8 m (buf + of_nat (2 * p)) c) (buf + of_nat (2 * p) + 1) 7) = (screen_at buf n m)[p := (c, 7)]"
proof (rule nth_equalityI)
  fix i assume "i < length (screen_at buf n (store8 (store8 m (buf + of_nat (2 * p)) c) (buf + of_nat (2 * p) + 1) 7))"
  then have i: "i < n" by simp
  have b: "buf + of_nat (2 * p) + 1 = buf + of_nat (2 * p + 1)" by (simp add: algebra_simps)
  have "2 * i + 1 < 2 ^ 32" "2 * p + 1 < 2 ^ 32" using i assms by linarith+
  moreover have "2 * i \<noteq> 2 * p + 1" "2 * i + 1 \<noteq> 2 * p" by presburger+
  ultimately show "screen_at buf n (store8 (store8 m (buf + of_nat (2 * p)) c) (buf + of_nat (2 * p) + 1) 7) ! i = (screen_at buf n m)[p := (c, 7)] ! i"
    unfolding b using i assms(1) at_inj[of "2 * i" "2 * p" buf] at_inj[of "2 * i + 1" "2 * p" buf]
      at_inj[of "2 * i" "2 * p + 1" buf] at_inj[of "2 * i + 1" "2 * p + 1" buf]
    by (simp add: nth_screen_at nth_list_update store8_def del: of_nat_add of_nat_mult of_nat_Suc)
qed simp

lemma screen_fill:
  assumes "p + k \<le> n" "2 * n \<le> 2 ^ 32"
  shows "screen_at buf n (memsetw m (buf + of_nat (2 * p)) 0x0720 k) = take p (screen_at buf n m) @ blanks k @ drop (p + k) (screen_at buf n m)"
proof (rule nth_equalityI)
  fix i assume "i < length (screen_at buf n (memsetw m (buf + of_nat (2 * p)) 0x0720 k))"
  then have i: "i < n" by simp
  have "2 * p + 2 * k \<le> 2 ^ 32" "2 * i < 2 ^ 32" "2 * i + 1 < 2 ^ 32" using i assms by linarith+
  note e = memsetw_at[OF this(1,2), of m buf "0x0720"] memsetw_at[OF this(1,3), of m buf "0x0720"]
  have d: "drop_bit 8 (0x720 :: u16) = 7" by simp
  consider "i < p" | "p \<le> i" "i < p + k" | "p + k \<le> i" by linarith
  then show "screen_at buf n (memsetw m (buf + of_nat (2 * p)) 0x0720 k) ! i = (take p (screen_at buf n m) @ blanks k @ drop (p + k) (screen_at buf n m)) ! i"
  proof cases
    case 2
    then have "even (2 * i - 2 * p)" "odd (2 * i + 1 - 2 * p)" by auto
    moreover have "i - p < k" "(ucast (0x720 :: u16) :: u8) = 0x20" using 2 by simp_all
    ultimately show ?thesis using 2 i assms(1) e by (simp add: nth_screen_at nth_append blanks_def d del: of_nat_add of_nat_mult of_nat_Suc)
  next
    case 1
    then show ?thesis using i assms(1) e by (simp add: nth_screen_at nth_append del: of_nat_add of_nat_mult of_nat_Suc)
  next
    case 3
    then have "\<not> i - p < k" by linarith
    then show ?thesis using 3 i assms(1) e
      by (simp add: nth_screen_at nth_append blanks_def del: of_nat_add of_nat_mult of_nat_Suc)
  qed
qed (use assms in \<open>simp add: blanks_def\<close>)

lemma screen_scroll:
  assumes "2 \<le> C" "even C" "1 \<le> R" "2 * (C * R) < 2 ^ 32"
  shows "screen_at buf (C * R) (memsetw (memcpy m buf (buf + of_nat (2 * C)) (of_nat (2 * C * (R - 1)))) (buf + of_nat (2 * (C * (R - 1)))) 0x0720 C)
    = drop C (screen_at buf (C * R) m) @ blanks C"
proof -
  obtain h where h: "C = 2 * h" using assms(2) by (elim evenE)
  obtain r where r: "R = Suc r" using assms(3) by (cases R) auto
  define n where "n = h * r"
  have cn: "C * r = 2 * n" by (simp add: h n_def)
  have N: "C * R = 2 * n + C" using cn by (simp add: r)
  have len: "2 * C * (R - 1) = 4 * n" by (simp add: r h n_def)
  let ?m = "memcpy m buf (buf + of_nat (2 * C)) (of_nat (4 * n))"
  have bound: "2 * C + 4 * n < 2 ^ 32" "4 \<le> 2 * C" using assms(1,4) N by linarith+
  have cp: "?m (buf + of_nat j) = (if j < 4 * n then m (buf + of_nat (j + 2 * C)) else m (buf + of_nat j))" if "j < 2 ^ 32" for j
    by (rule memcpy_up[OF bound(2,1) that])
  have fill: "screen_at buf (C * R) (memsetw ?m (buf + of_nat (2 * (2 * n))) 0x0720 C)
      = take (2 * n) (screen_at buf (C * R) ?m) @ blanks C @ drop (2 * n + C) (screen_at buf (C * R) ?m)"
    by (rule screen_fill) (use N assms(4) in auto)
  have "take (2 * n) (screen_at buf (C * R) ?m) = drop C (screen_at buf (C * R) m)"
  proof (rule nth_equalityI)
    fix i assume "i < length (take (2 * n) (screen_at buf (C * R) ?m))"
    then have i: "i < 2 * n" by simp
    have e: "2 * i + 2 * C = 2 * (C + i)" "2 * i + 1 + 2 * C = 2 * (C + i) + 1" by simp_all
    have "2 * i < 2 ^ 32" "2 * i + 1 < 2 ^ 32" "2 * i < 4 * n" "2 * i + 1 < 4 * n" using i bound by linarith+
    note c = cp[OF this(1)] cp[OF this(2)] and lt = this(3,4)
    have "screen_at buf (C * R) ?m ! i = screen_at buf (C * R) m ! (C + i)"
      using i N lt unfolding nth_screen_at[of i "C * R", OF trans_less_add1[OF i, of C, folded N]]
        nth_screen_at[of "C + i" "C * R", OF add_strict_left_mono[OF i, of C, unfolded add.commute[of C "2 * n"], folded N]] c e
      by (simp only: if_True)
    then show "take (2 * n) (screen_at buf (C * R) ?m) ! i = drop C (screen_at buf (C * R) m) ! i" using i N by simp
  qed (simp add: N)
  moreover have "C * (R - 1) = 2 * n" using cn r by simp
  ultimately show ?thesis unfolding len using fill N by simp
qed

section \<open>The abstract text screen\<close>

text \<open>
  A grid of \<open>R\<close> rows of \<open>C\<close> cells, one row after the other, and a cursor, which may
  stand behind the last column.
\<close>

type_synonym term_state = "nat \<times> nat \<times> (u8 \<times> u8) list"

fun term_line :: "nat \<Rightarrow> nat \<Rightarrow> term_state \<Rightarrow> term_state" where
  "term_line C R (x, y, cells) = (if Suc y = R then (0, y, drop C cells @ blanks C) else (0, Suc y, cells))"

fun term_glyph :: "nat \<Rightarrow> u8 \<Rightarrow> term_state \<Rightarrow> term_state" where
  "term_glyph C c (x, y, cells) = (Suc x, y, cells[y * C + x := (c, 7)])"

fun term_tab :: "nat \<Rightarrow> term_state \<Rightarrow> term_state" where
  "term_tab C (x, y, cells) =
     (let x1 = 8 * (x div 8 + 1); p = y * C + x in (x1, y, take p cells @ blanks (x1 - x) @ drop (p + (x1 - x)) cells))"

definition term_char :: "nat \<Rightarrow> nat \<Rightarrow> u8 \<Rightarrow> term_state \<Rightarrow> term_state" where
  "term_char C R c st =
     (if c = 10 then term_line C R st
      else if fst st \<ge> C then term_glyph C c (term_line C R st)
      else if c = 9 then term_tab C st
      else if c = 7 then st
      else term_glyph C c st)"

section \<open>One character\<close>

definition text_tty :: "nat \<Rightarrow> nat \<Rightarrow> nat \<Rightarrow> 'a ttys_scheme \<Rightarrow> bool" where
  "text_tty C R t s \<longleftrightarrow> TTY_COLS t s = int C \<and> TTY_ROWS t s = int R \<and> 2 \<le> C \<and> 8 dvd C \<and> 1 \<le> R \<and> C < 2 ^ 14 \<and> R < 2 ^ 14
     \<and> 0 \<le> tty_x (ttys s t) \<and> tty_x (ttys s t) \<le> int C \<and> 0 \<le> tty_y (ttys s t) \<and> tty_y (ttys s t) < int R"

definition term_of :: "nat \<Rightarrow> nat \<Rightarrow> nat \<Rightarrow> 'a ttys_scheme \<Rightarrow> term_state" where
  "term_of C R t s = (nat (tty_x (ttys s t)), nat (tty_y (ttys s t)), screen_at (tty_buf t s) (C * R) (mem s))"

text \<open>The effects of printing: cursor, cells and nothing outside the cells.\<close>

definition prints :: "nat \<Rightarrow> nat \<Rightarrow> nat \<Rightarrow> 'a ttys_scheme \<Rightarrow> 'a ttys_scheme \<Rightarrow> term_state \<Rightarrow> bool" where
  "prints C R t s s' st \<longleftrightarrow> videos s' = videos s \<and> current_page (ttys s' t) = current_page (ttys s t)
     \<and> text_tty C R t s' \<and> term_of C R t s' = st
     \<and> (\<forall>a. unat (a - tty_buf t s) \<ge> 2 * (C * R) \<longrightarrow> mem s' a = mem s a)"

lemma tty_buf_cong:
  "videos s' = videos s \<Longrightarrow> current_page (ttys s' t) = current_page (ttys s t) \<Longrightarrow> tty_buf t s' = tty_buf t s"
  by (simp add: tty_buf_def video_find_page_def mda_find_page_def cga_find_page_def cong: video_ops.case_cong)

lemma prints_trans:
  "prints C R t s s1 st1 \<Longrightarrow> prints C R t s1 s2 st2 \<Longrightarrow> prints C R t s s2 st2"
  unfolding prints_def using tty_buf_cong[of s1 s t] by auto

lemma text_tty_cells: "text_tty C R t s \<Longrightarrow> 2 * (C * R) < 2 ^ 32"
proof -
  assume "text_tty C R t s"
  then have "C < 2 ^ 14" "R < 2 ^ 14" by (simp_all add: text_tty_def)
  then have "C * R \<le> 2 ^ 14 * 2 ^ 14" by (intro mult_le_mono) simp_all
  then show ?thesis by simp
qed

lemma text_tty_mod:
  "text_tty C R t s \<Longrightarrow> even C"
  unfolding text_tty_def by auto

lemma cell_less: "x < C \<Longrightarrow> y < R \<Longrightarrow> y * C + x < C * (R::nat)"
proof -
  assume h: "x < C" "y < R"
  then have "y * C + x < Suc y * C" by simp
  also have "\<dots> \<le> R * C" using h(2) by (intro mult_le_mono1) simp
  finally show ?thesis by (simp add: mult.commute)
qed

lemma short_small: "0 \<le> i \<Longrightarrow> i < 2 ^ 15 \<Longrightarrow> short i = i"
  by (simp add: short_def signed_take_bit_int_eq_self)

lemma curs_cell:
  "TTY_COLS t s = int C \<Longrightarrow> tty_x (ttys s t) = int x \<Longrightarrow> tty_y (ttys s t) = int y \<Longrightarrow>
     curs t buf s = buf + of_nat (2 * (y * C + x))"
  by (simp add: curs_def char_offset_def algebra_simps)

text \<open>Reading off the cells: \<open>tty_upd\<close> of the cursor and an update of the memory.\<close>

lemma prints_upd:
  assumes "text_tty C R t s" "x1 \<le> C" "y1 < R"
    "\<And>a. unat (a - tty_buf t s) \<ge> 2 * (C * R) \<Longrightarrow> m a = mem s a"
    "s' = tty_upd t f (s\<lparr>mem := m\<rparr>)" "tty_x (f (ttys s t)) = int x1" "tty_y (f (ttys s t)) = int y1"
    "current_page (f (ttys s t)) = current_page (ttys s t)"
  shows "prints C R t s s' (x1, y1, screen_at (tty_buf t s) (C * R) m)"
proof -
  have "tty_buf t s' = tty_buf t s" by (rule tty_buf_cong) (simp_all add: assms(5,8) tty_upd_def)
  then show ?thesis using assms(1-4,6-8)
    by (simp add: prints_def term_of_def text_tty_def assms(5) tty_upd_def TTY_COLS_def TTY_ROWS_def)
qed

lemma outside_store:
  assumes "p < n" "2 * n < 2 ^ 32" "unat (a - buf) \<ge> 2 * n"
  shows "store8 (store8 m (buf + of_nat (2 * p)) c) (buf + of_nat (2 * p) + 1) d a = m a"
proof -
  have b: "buf + of_nat (2 * p) + 1 = buf + of_nat (2 * p + 1)" by (simp add: algebra_simps)
  define i where "i = unat (a - buf)"
  have a: "a = buf + of_nat i" and i: "i < 2 ^ 32" "2 * n \<le> i" using assms(3) unat_u32_lt[of "a - buf"] by (simp_all add: i_def)
  have "i \<noteq> 2 * p" "i \<noteq> 2 * p + 1" "2 * p < 2 ^ 32" "2 * p + 1 < 2 ^ 32" using i assms(1,2) by linarith+
  then show ?thesis unfolding b a using at_inj[OF i(1), of "2 * p" buf] at_inj[OF i(1), of "2 * p + 1" buf]
    by (simp add: store8_def del: of_nat_add of_nat_mult of_nat_Suc)
qed

lemma outside_fill:
  assumes "p + k \<le> n" "2 * n < 2 ^ 32" "unat (a - buf) \<ge> 2 * n"
  shows "memsetw m (buf + of_nat (2 * p)) w k a = m a"
proof -
  define i where "i = unat (a - buf)"
  have a: "a = buf + of_nat i" and i: "i < 2 ^ 32" "2 * n \<le> i" using assms(3) unat_u32_lt[of "a - buf"] by (simp_all add: i_def)
  have "2 * p + 2 * k \<le> 2 ^ 32" "\<not> i < 2 * p + 2 * k" using i assms(1,2) by linarith+
  then show ?thesis unfolding a using memsetw_at[of "2 * p" k i m buf w] i by simp
qed

lemma put_glyph_prints:
  assumes "text_tty C R t s" "tty_x (ttys s t) < int C"
  shows "prints C R t s (snd (put_glyph t c (curs t (tty_buf t s) s, s))) (term_glyph C c (term_of C R t s))
    \<and> fst (put_glyph t c (curs t (tty_buf t s) s, s)) = curs t (tty_buf t s) (snd (put_glyph t c (curs t (tty_buf t s) s, s)))"
proof -
  let ?b = "tty_buf t s"
  obtain x y where xy: "tty_x (ttys s t) = int x" "tty_y (ttys s t) = int y"
    using assms(1) unfolding text_tty_def by (metis nonneg_int_cases)
  have b: "x < C" "y < R" "TTY_COLS t s = int C" "C < 2 ^ 14" using assms xy by (simp_all add: text_tty_def)
  note N = text_tty_cells[OF assms(1)] and p = cell_less[OF b(1,2)]
  have cc: "curs t ?b s = ?b + of_nat (2 * (y * C + x))" by (rule curs_cell[OF b(3) xy])
  let ?m = "store8 (store8 (mem s) (curs t ?b s) c) (curs t ?b s + 1) 7"
  let ?s = "tty_upd t (\<lambda>r. r\<lparr>tty_x := short (tty_x r + 1)\<rparr>) (s\<lparr>mem := ?m\<rparr>)"
  have sh: "short (int x + 1) = int (Suc x)" using b by (simp add: short_small)
  have "prints C R t s ?s (Suc x, y, screen_at ?b (C * R) ?m)"
    by (rule prints_upd[OF assms(1) _ b(2) _ refl])
      (use b xy sh outside_store[OF p N] in \<open>simp_all add: cc del: of_nat_mult of_nat_add\<close>)
  moreover have "screen_at ?b (C * R) ?m = (screen_at ?b (C * R) (mem s))[y * C + x := (c, 7)]"
    unfolding cc by (rule screen_glyph[OF p less_imp_le[OF N]])
  moreover have "curs t ?b s + 2 = curs t ?b ?s"
    using b xy sh by (simp add: curs_def char_offset_def tty_upd_def TTY_COLS_def algebra_simps)
  ultimately show ?thesis by (simp add: put_glyph_def term_of_def xy)
qed

lemma tty_scroll_up_mem:
  assumes "TTY_COLS t s = int C" "TTY_ROWS t s = int R" "1 \<le> R"
  shows "tty_scroll_up t s = s\<lparr>mem := memsetw (memcpy (mem s) (tty_buf t s) (tty_buf t s + of_nat (2 * C)) (of_nat (2 * C * (R - 1))))
    (tty_buf t s + of_nat (2 * (C * (R - 1)))) 0x0720 C\<rparr>"
proof -
  have i: "int C * 2 = int (2 * C)" "int C * 2 * (int R - 1) = int (2 * C * (R - 1))" using assms(3) by (cases R; simp)+
  have w: "(of_int (int n) :: u32) = of_nat n" for n by simp
  have e: "2 * (C * (R - 1)) = 2 * C * (R - 1)" by simp
  show ?thesis unfolding tty_scroll_up_def Let_def assms(1,2) i(2) e unfolding i(1) w nat_int ..
qed

lemma new_line_prints:
  assumes "text_tty C R t s"
  shows "prints C R t s (snd (new_line t (tty_buf t s) s)) (term_line C R (term_of C R t s))
    \<and> fst (new_line t (tty_buf t s) s) = curs t (tty_buf t s) (snd (new_line t (tty_buf t s) s))"
proof -
  let ?b = "tty_buf t s"
  obtain x y where xy: "tty_x (ttys s t) = int x" "tty_y (ttys s t) = int y"
    using assms unfolding text_tty_def by (metis nonneg_int_cases)
  have b: "y < R" "TTY_COLS t s = int C" "TTY_ROWS t s = int R" "R < 2 ^ 14" "1 \<le> R" "2 \<le> C" using assms xy by (simp_all add: text_tty_def)
  note N = text_tty_cells[OF assms]
  have sh: "short (int y + 1) = int (Suc y)" "short (int (Suc y) - 1) = int y" using b by (simp_all add: short_small)
  let ?s1 = "tty_upd t (\<lambda>r. r\<lparr>tty_x := 0, tty_y := short (tty_y r + 1)\<rparr>) s"
  have s1: "TTY_COLS t ?s1 = int C" "TTY_ROWS t ?s1 = int R" "tty_y (ttys ?s1 t) = int (Suc y)" "tty_buf t ?s1 = ?b" "mem ?s1 = mem s"
    using b xy sh tty_buf_cong[of ?s1 s t] by (simp_all add: tty_upd_def TTY_COLS_def TTY_ROWS_def)
  show ?thesis
  proof (cases "Suc y = R")
    case True
    let ?c = "memcpy (mem s) ?b (?b + of_nat (2 * C)) (of_nat (2 * C * (R - 1)))"
    let ?m = "memsetw ?c (?b + of_nat (2 * (C * (R - 1)))) 0x0720 C"
    have up: "tty_scroll_up t ?s1 = ?s1\<lparr>mem := ?m\<rparr>"
      using tty_scroll_up_mem[OF s1(1,2) b(5)] s1(4,5) by simp
    have nl: "new_line t ?b s = (curs t ?b (tty_upd t (\<lambda>r. r\<lparr>tty_y := short (tty_y r - 1)\<rparr>) (?s1\<lparr>mem := ?m\<rparr>)),
        tty_upd t (\<lambda>r. r\<lparr>tty_y := short (tty_y r - 1)\<rparr>) (?s1\<lparr>mem := ?m\<rparr>))"
      unfolding new_line_def Let_def using s1(2,3) True up by simp
    have "tty_upd t (\<lambda>r. r\<lparr>tty_y := short (tty_y r - 1)\<rparr>) (?s1\<lparr>mem := ?m\<rparr>) =
        tty_upd t (\<lambda>r. r\<lparr>tty_x := 0, tty_y := int y\<rparr>) (s\<lparr>mem := ?m\<rparr>)"
      using xy sh by (simp add: tty_upd_def fun_eq_iff)
    note nl = nl[unfolded this]
    have cr: "C * R = C * (R - 1) + C" using b(5) by (cases R) simp_all
    obtain h where h: "C = 2 * h" using text_tty_mod[OF assms] by (elim evenE)
    have frame: "?m a = mem s a" if "2 * (C * R) \<le> unat (a - ?b)" for a
    proof -
      define i where "i = unat (a - ?b)"
      have a: "a = ?b + of_nat i" and i: "i < 2 ^ 32" "2 * (C * R) \<le> i" using that unat_u32_lt[of "a - ?b"] by (simp_all add: i_def)
      have len: "2 * C * (R - 1) = 4 * (h * (R - 1))" by (simp add: h)
      have le: "2 * C + 4 * (h * (R - 1)) < 2 ^ 32" "4 \<le> 2 * C" "\<not> i < 4 * (h * (R - 1))" using N i cr b(6) h by simp_all
      have "?c a = mem s a" unfolding a len using memcpy_up[OF le(2,1) i(1), of "mem s" ?b] le(3) by simp
      moreover have "?m a = ?c a" by (rule outside_fill[OF _ N that]) (simp add: cr)
      ultimately show ?thesis by simp
    qed
    have "prints C R t s (tty_upd t (\<lambda>r. r\<lparr>tty_x := 0, tty_y := int y\<rparr>) (s\<lparr>mem := ?m\<rparr>)) (0, y, screen_at ?b (C * R) ?m)"
      by (rule prints_upd[OF assms _ b(1) frame refl]) simp_all
    moreover have "screen_at ?b (C * R) ?m = drop C (screen_at ?b (C * R) (mem s)) @ blanks C"
      by (rule screen_scroll[OF b(6) text_tty_mod[OF assms] b(5) N])
    ultimately show ?thesis unfolding nl using True by (simp add: term_of_def xy)
  next
    case False
    then have nl: "new_line t ?b s = (curs t ?b ?s1, ?s1)" unfolding new_line_def Let_def using s1(2,3) by simp
    have "prints C R t s ?s1 (0, Suc y, screen_at ?b (C * R) (mem s))"
      by (rule prints_upd[OF assms, where m = "mem s" and f = "\<lambda>r. r\<lparr>tty_x := 0, tty_y := short (tty_y r + 1)\<rparr>"])
        (use False b xy sh in simp_all)
    then show ?thesis unfolding nl using False by (simp add: term_of_def xy)
  qed
qed

lemma and_not_7: "(k::int) AND NOT 7 = 8 * (k div 8)"
proof -
  have "k AND NOT (Bit_Operations.mask 3) = push_bit 3 (drop_bit 3 k)" by (rule bit_eqI) (auto simp: bit_simps)
  then show ?thesis by (simp add: mask_eq_exp_minus_1 push_bit_eq_mult drop_bit_eq_div)
qed

lemma tab_stop: "x < C \<Longrightarrow> 8 dvd C \<Longrightarrow> 8 * (x div 8 + 1) \<le> (C::nat)"
proof -
  assume h: "x < C" "8 dvd C"
  then obtain k where k: "C = 8 * k" by (elim dvdE)
  then have "x div 8 < k" using h(1) by (simp add: less_mult_imp_div_less mult.commute)
  then show ?thesis using k by simp
qed

lemma tty_beep_ports: "ports_only (s::'a ttys_scheme) (tty_beep s)"
  unfolding tty_beep_def mksound_def speaker_on_def speaker_off_def Let_def case_prod_beta
  by (intro ports_only_step ports_only_refl)

lemma tab_prints:
  assumes "text_tty C R t s" "tty_x (ttys s t) < int C"
  shows "prints C R t s (snd (print_char t (tty_buf t s) 9 (curs t (tty_buf t s) s, s))) (term_tab C (term_of C R t s))
    \<and> fst (print_char t (tty_buf t s) 9 (curs t (tty_buf t s) s, s)) = curs t (tty_buf t s) (snd (print_char t (tty_buf t s) 9 (curs t (tty_buf t s) s, s)))"
proof -
  let ?b = "tty_buf t s"
  obtain x y where xy: "tty_x (ttys s t) = int x" "tty_y (ttys s t) = int y"
    using assms(1) unfolding text_tty_def by (metis nonneg_int_cases)
  have b: "x < C" "y < R" "TTY_COLS t s = int C" "C < 2 ^ 14" "8 dvd C" using assms xy by (simp_all add: text_tty_def)
  note N = text_tty_cells[OF assms(1)]
  define x1 where "x1 = 8 * (x div 8 + 1)"
  have x1: "x < x1" "x1 \<le> C" using tab_stop[OF b(1,5)] by (simp_all add: x1_def)
  have nx: "(int x + 8) AND NOT 7 = int x1" unfolding and_not_7 x1_def using div_add_self2[of "8::int" "int x"] by (simp add: zdiv_int)
  have cc: "curs t ?b s = ?b + of_nat (2 * (y * C + x))" by (rule curs_cell[OF b(3) xy])
  let ?m = "memsetw (mem s) (curs t ?b s) 0x0720 (x1 - x)"
  let ?s = "tty_upd t (\<lambda>r. r\<lparr>tty_x := short (int x1)\<rparr>) (s\<lparr>mem := ?m\<rparr>)"
  have row: "y * C + x + (x1 - x) \<le> C * R"
  proof -
    have "y * C + x + (x1 - x) \<le> Suc y * C" using x1 by simp
    also have "\<dots> \<le> R * C" using b(2) by (intro mult_le_mono1) simp
    finally show ?thesis by (simp add: mult.commute)
  qed
  have pc: "print_char t ?b 9 (curs t ?b s, s) = (curs t ?b ?s, ?s)"
    using assms(2) b(3) xy nx x1 by (simp add: print_char_def Let_def nat_diff_distrib)
  have "prints C R t s ?s (x1, y, screen_at ?b (C * R) ?m)"
    by (rule prints_upd[OF assms(1) x1(2) b(2) _ refl])
      (use b xy x1 outside_fill[OF row N] in \<open>simp_all add: cc short_small del: of_nat_mult of_nat_add\<close>)
  moreover have "screen_at ?b (C * R) ?m = take (y * C + x) (screen_at ?b (C * R) (mem s)) @ blanks (x1 - x)
      @ drop (y * C + x + (x1 - x)) (screen_at ?b (C * R) (mem s))"
    unfolding cc by (rule screen_fill[OF row less_imp_le[OF N]])
  ultimately show ?thesis unfolding pc by (simp add: term_of_def xy x1_def Let_def)
qed

lemma print_char_prints:
  assumes "text_tty C R t s"
  shows "prints C R t s (snd (print_char t (tty_buf t s) c (curs t (tty_buf t s) s, s))) (term_char C R c (term_of C R t s))
    \<and> fst (print_char t (tty_buf t s) c (curs t (tty_buf t s) s, s)) = curs t (tty_buf t s) (snd (print_char t (tty_buf t s) c (curs t (tty_buf t s) s, s)))"
proof -
  let ?b = "tty_buf t s"
  have x: "fst (term_of C R t s) \<ge> C \<longleftrightarrow> tty_x (ttys s t) \<ge> TTY_COLS t s" "TTY_COLS t s = int C"
    using assms by (auto simp: term_of_def text_tty_def)
  note nl = new_line_prints[OF assms]
  consider "c = 10" | "c \<noteq> 10" "tty_x (ttys s t) \<ge> TTY_COLS t s" | "tty_x (ttys s t) < TTY_COLS t s" "c = 9"
    | "tty_x (ttys s t) < TTY_COLS t s" "c = 7" | "tty_x (ttys s t) < TTY_COLS t s" "c \<noteq> 10" "c \<noteq> 9" "c \<noteq> 7" by fastforce
  then show ?thesis
  proof cases
    case 1 then show ?thesis using nl by (simp add: print_char_def term_char_def)
  next
    case 2
    define s1 where "s1 = snd (new_line t ?b s)"
    have p1: "prints C R t s s1 (term_line C R (term_of C R t s))" and n1: "new_line t ?b s = (curs t ?b s1, s1)"
      using nl by (simp_all add: s1_def prod_eq_iff)
    have t1: "text_tty C R t s1" "tty_buf t s1 = ?b" "term_of C R t s1 = term_line C R (term_of C R t s)"
      using p1 tty_buf_cong[of s1 s t] by (simp_all add: prints_def)
    have "fst (term_line C R (term_of C R t s)) = 0" by (cases "term_of C R t s") simp
    then have "nat (tty_x (ttys s1 t)) = 0" using t1(3) by (metis term_of_def fst_conv)
    then have "tty_x (ttys s1 t) < int C" using t1(1) by (simp add: text_tty_def)
    from put_glyph_prints[OF t1(1) this, of c]
    have "prints C R t s1 (snd (put_glyph t c (new_line t ?b s))) (term_glyph C c (term_line C R (term_of C R t s)))"
        "fst (put_glyph t c (new_line t ?b s)) = curs t ?b (snd (put_glyph t c (new_line t ?b s)))"
      by (simp_all add: t1 n1)
    moreover have "print_char t ?b c (curs t ?b s, s) = put_glyph t c (new_line t ?b s)" using 2 by (simp add: print_char_def)
    ultimately show ?thesis using prints_trans[OF p1] 2 x by (simp add: term_char_def)
  next
    case 3 then show ?thesis using tab_prints[OF assms] x by (simp add: term_char_def)
  next
    case 4
    obtain l where l: "tty_beep s = s\<lparr>port_log := l\<rparr>" using tty_beep_ports[of s] unfolding ports_only_def by blast
    have "tty_buf t (s\<lparr>port_log := l\<rparr>) = ?b" by (rule tty_buf_cong) simp_all
    then have "prints C R t s (s\<lparr>port_log := l\<rparr>) (term_of C R t s)" "curs t ?b (s\<lparr>port_log := l\<rparr>) = curs t ?b s"
      using assms by (simp_all add: prints_def text_tty_def term_of_def TTY_COLS_def TTY_ROWS_def curs_def char_offset_def)
    then show ?thesis using 4 x l by (simp add: print_char_def term_char_def)
  next
    case 5
    then show ?thesis using put_glyph_prints[OF assms, of c] x by (simp add: print_char_def term_char_def)
  qed
qed

lemma print_loop_prints:
  assumes "text_tty C R t s"
  shows "prints C R t s (snd (fold (print_char t (tty_buf t s)) us (curs t (tty_buf t s) s, s))) (fold (term_char C R) us (term_of C R t s))"
  using assms
proof (induction us arbitrary: s)
  case Nil then show ?case by (simp add: prints_def)
next
  case (Cons c us)
  define s1 where "s1 = snd (print_char t (tty_buf t s) c (curs t (tty_buf t s) s, s))"
  have p: "prints C R t s s1 (term_char C R c (term_of C R t s))"
    and e: "print_char t (tty_buf t s) c (curs t (tty_buf t s) s, s) = (curs t (tty_buf t s) s1, s1)"
    using print_char_prints[OF Cons.prems, of c] by (simp_all add: s1_def prod_eq_iff)
  have t1: "text_tty C R t s1" "tty_buf t s1 = tty_buf t s" "term_of C R t s1 = term_char C R c (term_of C R t s)"
    using p tty_buf_cong[of s1 s t] by (simp_all add: prints_def)
  show ?case using prints_trans[OF p Cons.IH[OF t1(1), unfolded t1(2,3)]] by (simp add: e)
qed

section \<open>The cursor registers\<close>

definition crt_ports :: "nat \<Rightarrow> 'a vids_scheme \<Rightarrow> bool" where
  "crt_ports t s \<longleftrightarrow> (crt_i (v_vga (videos s t)) = 0x3b4 \<and> crt_d (v_vga (videos s t)) = 0x3b5)
     \<or> (crt_i (v_vga (videos s t)) = 0x3d4 \<and> crt_d (v_vga (videos s t)) = 0x3d5)"

text \<open>What an access of the CRT controller leaves alone.\<close>

definition same_page :: "nat \<Rightarrow> 'a ttys_scheme \<Rightarrow> 'a ttys_scheme \<Rightarrow> bool" where
  "same_page t s s' \<longleftrightarrow> mem s' = mem s \<and> ttys s' = ttys s \<and> v_mi (videos s' t) = v_mi (videos s t)
     \<and> tty_buf t s' = tty_buf t s \<and> crt_i (v_vga (videos s' t)) = crt_i (v_vga (videos s t))
     \<and> crt_d (v_vga (videos s' t)) = crt_d (v_vga (videos s t))"

lemma same_page_trans: "same_page t s s1 \<Longrightarrow> same_page t s1 s2 \<Longrightarrow> same_page t s s2"
  unfolding same_page_def by simp

lemma same_page_set_crt_reg: "same_page t s (set_crt_reg t i b s)"
  unfolding same_page_def set_crt_reg_def Let_def outb_def
  by (simp add: vid_upd_def tty_buf_def video_find_page_def mda_find_page_def cga_find_page_def cong: video_ops.case_cong)

lemma same_page_upd:
  "same_page t s (upd_mda t (\<lambda>d. d\<lparr>mda_index := b\<rparr>) s)" "same_page t s (upd_mda t (\<lambda>d. d\<lparr>mda_data_reg := b\<rparr>) s)"
  "same_page t s (upd_mda t (\<lambda>d. d\<lparr>mda_mc6845 := (mda_mc6845 d)[i := b]\<rparr>) s)"
  "same_page t s (upd_cga t (\<lambda>d. d\<lparr>cga_index := b\<rparr>) s)" "same_page t s (upd_cga t (\<lambda>d. d\<lparr>cga_data_reg := b\<rparr>) s)"
  "same_page t s (upd_cga t (\<lambda>d. d\<lparr>cga_mc6845 := (cga_mc6845 d)[i := b]\<rparr>) s)"
  unfolding same_page_def upd_mda_def upd_cga_def
  by (simp_all add: vid_upd_def tty_buf_def video_find_page_def mda_find_page_def cga_find_page_def cong: video_ops.case_cong)

lemma same_page_refl: "same_page t s s"
  by (simp add: same_page_def)

lemma same_page_outb:
  assumes "port = 0x3b4 \<or> port = 0x3b5 \<or> port = 0x3d4 \<or> port = 0x3d5"
  shows "same_page t s (video_outb t b port s)"
proof -
  have "same_page t s (mda_outb t b port s)"
    unfolding mda_outb_def Let_def using assms
    by (auto intro: same_page_refl same_page_upd same_page_trans[OF same_page_trans[OF same_page_upd(2) same_page_upd(3)] same_page_set_crt_reg])
  moreover have "same_page t s (cga_outb t b port s)"
    unfolding cga_outb_def Let_def using assms
    by (auto intro: same_page_refl same_page_upd same_page_trans[OF same_page_trans[OF same_page_upd(5) same_page_upd(6)] same_page_set_crt_reg])
  ultimately show ?thesis by (simp add: video_outb_def split: video_ops.split)
qed

lemma same_page_put_crt:
  assumes "crt_ports t s" shows "same_page t s (put_crt t i b s)"
proof -
  have "same_page t s (video_outb t i (TTY_CRT_I t s) s)"
    by (rule same_page_outb) (use assms in \<open>auto simp: crt_ports_def TTY_CRT_I_def\<close>)
  moreover from this have "same_page t (video_outb t i (TTY_CRT_I t s) s) (put_crt t i b s)"
    unfolding put_crt_def Let_def
    by (intro same_page_outb) (use assms in \<open>auto simp: crt_ports_def same_page_def TTY_CRT_D_def\<close>)
  ultimately show ?thesis by (rule same_page_trans)
qed

section \<open>Printing\<close>

lemma set_cursor_page:
  assumes "text_tty C R t s" "crt_ports t s"
  shows "same_page t s (tty_set_cursor t (tty_x (ttys s t)) (tty_y (ttys s t)) s)"
proof -
  let ?x = "tty_x (ttys s t)" and ?y = "tty_y (ttys s t)"
  have "tty_upd t (\<lambda>r. r\<lparr>tty_x := ?x, tty_y := ?y\<rparr>) s = s" by (simp add: tty_upd_def)
  moreover have "\<not> (?x > TTY_COLS t s \<or> ?y > TTY_ROWS t s)" using assms(1) by (simp add: text_tty_def)
  ultimately have e: "tty_set_cursor t ?x ?y s = put_crt t 15 (ucast ((of_int (?x + ?y * TTY_COLS t s) :: u16) AND 255))
      (put_crt t 14 (ucast (drop_bit 8 (of_int (?x + ?y * TTY_COLS t s) :: u16))) s)"
    unfolding tty_set_cursor_def by (simp add: Let_def)
  have "crt_ports t s1" if "same_page t s s1" for s1 using that assms(2) by (simp add: same_page_def crt_ports_def)
  then show ?thesis unfolding e using same_page_put_crt[OF assms(2)] same_page_put_crt same_page_trans by blast
qed

text \<open>
  C20: Printing on a terminal refines an abstract text screen: the cells of the page and the cursor
  afterwards are those of the grid after the same characters (line feeds with scrolling, tab stops,
  wrapping at the right margin), the cursor stays on the page, and no byte of memory outside the
  page's cells has changed.
\<close>
theorem tty_printn_refines:
  assumes "text_tty C R t s" "crt_ports t s"
  shows "term_of C R t (tty_printn t us s) = fold (term_char C R) us (term_of C R t s)
    \<and> text_tty C R t (tty_printn t us s)
    \<and> (\<forall>a. 2 * (C * R) \<le> unat (a - tty_buf t s) \<longrightarrow> mem (tty_printn t us s) a = mem s a)"
proof -
  define s1 where "s1 = snd (fold (print_char t (tty_buf t s)) us (curs t (tty_buf t s) s, s))"
  have p: "prints C R t s s1 (fold (term_char C R) us (term_of C R t s))"
    unfolding s1_def by (rule print_loop_prints[OF assms(1)])
  have "tty_printn t us s = tty_set_cursor t (tty_x (ttys s1 t)) (tty_y (ttys s1 t)) s1"
    by (simp add: tty_printn_def s1_def Let_def)
  moreover have "same_page t s1 (tty_set_cursor t (tty_x (ttys s1 t)) (tty_y (ttys s1 t)) s1)"
    by (rule set_cursor_page[where C = C and R = R]) (use p assms(2) in \<open>simp_all add: prints_def crt_ports_def\<close>)
  ultimately have q: "same_page t s1 (tty_printn t us s)" by simp
  have "text_tty C R t s1" using p by (simp add: prints_def)
  then have "text_tty C R t (tty_printn t us s)" using q by (simp add: same_page_def text_tty_def TTY_COLS_def TTY_ROWS_def)
  moreover have "term_of C R t (tty_printn t us s) = term_of C R t s1" using q by (simp add: same_page_def term_of_def)
  ultimately show ?thesis using p q by (simp add: prints_def same_page_def)
qed

text \<open>A terminal on the first of the two example displays.\<close>

definition demo_tty :: tty where
  "demo_tty = \<lparr>t_owner = 0, kbd_type = Cooked, current_page = 0, tty_x = 78, tty_y = 24, rl_history = [], rl_history_size = 0\<rparr>"

definition demo_ttys :: ttys where
  "demo_ttys = vids.extend demo_vids \<lparr>ttys = (\<lambda>_. demo_tty), tty_list = [0, 1], current_tty = None, kbd_focus = None\<rparr>"

lemma demo_ttys_simps [simp]:
  "videos demo_ttys = videos demo_vids" "ttys demo_ttys t = demo_tty" "mem demo_ttys = mem demo_vids"
  by (simp_all add: demo_ttys_def vids.defs)

lemma demo_text_tty: "text_tty 80 25 0 demo_ttys" "crt_ports 0 demo_ttys"
  by (simp_all add: text_tty_def crt_ports_def TTY_COLS_def TTY_ROWS_def demo_tty_def demo_video_def mode7_info_def)

lemma tty_printn_refines_witness:
  "text_tty 80 25 0 (tty_printn 0 [0x48, 9, 0x49, 10] demo_ttys)"
  using tty_printn_refines[OF demo_text_tty, of "[0x48, 9, 0x49, 10]"] by simp

end
