(* ===== verification/ReadlineProps.thy ===== *)
theory ReadlineProps
  imports Readline TtyProps
begin

text \<open>
  Correctness of the line editor: with the plain editing keys it is an abstract editor on the text
  before and behind the cursor, whatever the terminal shows.
\<close>

unbundle bit_operations_syntax

section \<open>What the screen operations leave alone\<close>

text \<open>The part of the state that the line editor works on.\<close>

definition kept :: "'a ttys_scheme \<Rightarrow> 'a ttys_scheme \<Rightarrow> bool" where
  "kept s s' \<longleftrightarrow> ttys.more s' = ttys.more s \<and> (\<forall>t. rl_history (ttys s' t) = rl_history (ttys s t)
     \<and> rl_history_size (ttys s' t) = rl_history_size (ttys s t) \<and> kbd_type (ttys s' t) = kbd_type (ttys s t))"

lemma kept_refl: "kept s s"
  by (simp add: kept_def)

lemma kept_trans: "kept s s1 \<Longrightarrow> kept s1 s2 \<Longrightarrow> kept s s2"
  by (simp add: kept_def)

lemma kept_vids_more: "vids.more s' = vids.more s \<Longrightarrow> kept s (s' :: 'a ttys_scheme)"
  by (cases s; cases s') (simp add: kept_def)

lemma kept_mem: "kept s s1 \<Longrightarrow> kept s (s1\<lparr>mem := m\<rparr>)"
  by (simp add: kept_def)

lemma kept_upd:
  "kept s s1 \<Longrightarrow> (\<And>r. rl_history (f r) = rl_history r \<and> rl_history_size (f r) = rl_history_size r \<and> kbd_type (f r) = kbd_type r) \<Longrightarrow>
   kept s (tty_upd t f s1)"
  by (simp add: kept_def tty_upd_def)

lemma kept_ports: "kept s s1 \<Longrightarrow> kept s (outb b p s1)" "kept s s1 \<Longrightarrow> kept s (snd (inb p s1))"
  by (simp_all add: kept_def outb_def inb_def)

lemma kept_beep: "kept s s1 \<Longrightarrow> kept s (tty_beep s1)"
  by (simp add: tty_beep_def mksound_def speaker_on_def speaker_off_def Let_def case_prod_beta kept_ports)

lemma vids_more_vid_upd [simp]: "vids.more (vid_upd v f s) = vids.more s"
  by (simp add: vid_upd_def)

lemma vids_more_ports: "ports_only s s' \<Longrightarrow> vids.more s' = vids.more s"
  unfolding ports_only_def by auto

lemma vids_more_vga_load [simp]: "vids.more (vga_load_regs vi s) = vids.more s"
  "vids.more (vga_enable_video vi s) = vids.more s" "vids.more (vga_disable_video vi s) = vids.more s"
  by (rule vids_more_ports, rule ports_only_vga, rule ports_only_refl)+

lemma vids_more_set_mode [simp]: "vids.more (snd (vga_set_mode v mode s)) = vids.more s"
  by (simp add: vga_set_mode_def Let_def split: option.split)

lemma vids_more_set_crt_reg [simp]: "vids.more (set_crt_reg v i b s) = vids.more s"
  by (simp add: set_crt_reg_def Let_def outb_def)

lemma vids_more_outb [simp]: "vids.more (video_outb v b p s) = vids.more s"
  by (simp add: video_outb_def mda_outb_def cga_outb_def upd_mda_def upd_cga_def Let_def set_mode_select_def set_color_select_def
      split: video_ops.split)

lemma kept_put_crt: "kept s s1 \<Longrightarrow> kept s (put_crt t i b s1)"
  by (rule kept_trans[of s s1]) (simp_all add: put_crt_def Let_def kept_vids_more)

lemma kept_set_cursor: "kept s s1 \<Longrightarrow> kept s (tty_set_cursor t x y s1)"
  by (simp add: tty_set_cursor_def Let_def kept_put_crt kept_upd)

lemma kept_scroll: "kept s s1 \<Longrightarrow> kept s (tty_scroll_up t s1)"
  by (simp add: tty_scroll_up_def Let_def kept_mem)

lemma kept_clear_chars: "kept s s1 \<Longrightarrow> kept s (tty_clear_chars t n s1)"
  by (simp add: tty_clear_chars_def Let_def kept_mem)

lemma kept_print_char: "kept s (snd st) \<Longrightarrow> kept s (snd (print_char t buf c st))"
  by (simp add: print_char_def put_glyph_def new_line_def Let_def case_prod_beta kept_mem kept_upd kept_scroll kept_beep)

lemma kept_print_loop: "kept s (snd st) \<Longrightarrow> kept s (snd (fold (print_char t buf) us st))"
  by (induction us arbitrary: st) (simp_all add: kept_print_char)

lemma kept_printn: "kept s s1 \<Longrightarrow> kept s (tty_printn t us s1)"
  by (simp add: tty_printn_def Let_def kept_set_cursor kept_print_loop)

lemma kept_move_to: "kept s s1 \<Longrightarrow> kept s (move_to rl x y s1)"
  by (simp add: move_to_def kept_upd)

lemma kept_rl_set_cursor: "kept s s1 \<Longrightarrow> kept s (rl_set_cursor rl s1)"
  by (simp add: rl_set_cursor_def kept_set_cursor)

text \<open>The fields of the editor that \<open>rl_find_cursor\<close> changes.\<close>

definition same_line :: "rl_info \<Rightarrow> rl_info \<Rightarrow> bool" where
  "same_line rl rl' \<longleftrightarrow> (\<exists>x y p. rl' = rl\<lparr>rl_cursor_x := x, rl_cursor_y := y, prompt_end_y := p\<rparr>)"

lemma rl_scroll_same:
  "same_line rl rl1 \<Longrightarrow> kept s s1 \<Longrightarrow> same_line rl (fst (rl_scroll rows (rl1, s1))) \<and> kept s (snd (rl_scroll rows (rl1, s1)))"
proof (induction rows "(rl1, s1)" arbitrary: rl1 s1 rule: rl_scroll.induct)
  case (1 rows rl1 s1)
  show ?case
  proof (cases "rl_cursor_y rl1 \<ge> rows")
    case True
    have "same_line rl (rl1\<lparr>prompt_end_y := prompt_end_y rl1 - 1, rl_cursor_y := rl_cursor_y rl1 - 1\<rparr>)"
    proof -
      obtain x y p where e: "rl1 = rl\<lparr>rl_cursor_x := x, rl_cursor_y := y, prompt_end_y := p\<rparr>"
        using 1(2) unfolding same_line_def by blast
      show ?thesis unfolding same_line_def by (rule exI[of _ x], rule exI[of _ "y - 1"], rule exI[of _ "p - 1"]) (simp add: e)
    qed
    from 1(1)[OF True this kept_scroll[OF 1(3)]] True show ?thesis by (simp add: rl_scroll.simps[of rows rl1])
  qed (use 1 in \<open>simp add: rl_scroll.simps[of rows rl1]\<close>)
qed

lemma rl_find_cursor_same:
  assumes "rl_find_cursor (rl, s) = (rl', s')"
  shows "same_line rl rl'" "kept s s'"
proof -
  have "same_line rl (rl\<lparr>rl_cursor_x := x, rl_cursor_y := y\<rparr>)" for x y
    unfolding same_line_def by (rule exI[of _ x], rule exI[of _ y], rule exI[of _ "prompt_end_y rl"]) simp
  then have "same_line rl (fst (rl_find_cursor (rl, s))) \<and> kept s (snd (rl_find_cursor (rl, s)))"
    unfolding rl_find_cursor_def by (auto simp: case_prod_beta intro!: rl_scroll_same[THEN conjunct1] rl_scroll_same[THEN conjunct2] kept_refl)
  then show "same_line rl rl'" "kept s s'" using assms by simp_all
qed

lemma rl_redisplay_from_some:
  "\<not> buf_null rl \<Longrightarrow> \<exists>s'. rl_redisplay_from rl i s = Some s' \<and> kept s s'"
  by (auto simp: rl_redisplay_from_def case_prod_beta intro: kept_refl kept_rl_set_cursor kept_printn kept_move_to)

lemma rl_redisplay_some:
  "\<not> buf_null rl \<Longrightarrow> \<exists>s'. rl_redisplay rl s = Some s' \<and> kept s s'"
  by (auto simp: rl_redisplay_def intro: kept_refl kept_rl_set_cursor kept_printn kept_move_to)

section \<open>The abstract editor\<close>

text \<open>The text before and the text behind the cursor.\<close>

datatype ed_step = Ed "u8 list" "u8 list" | EdLine "u8 list" | EdQuit

definition ed_key :: "u8 \<Rightarrow> u8 list \<Rightarrow> u8 list \<Rightarrow> ed_step" where
  "ed_key c l r =
     (if c = 0x06 then if r = [] then Ed l r else Ed (l @ [hd r]) (tl r)
      else if c = 0x02 then if l = [] then Ed l r else Ed (butlast l) (last l # r)
      else if c = 0x01 then Ed [] (l @ r)
      else if c = 0x05 then Ed (l @ r) []
      else if c = 0x04 then if r = [] then if l = [] then EdQuit else EdLine l else Ed l (tl r)
      else if c = 0x7f then if l = [] then Ed l r else Ed (butlast l) r
      else if c = 0x0d \<or> c = 0x0a then EdLine (l @ r @ [0x0a])
      else if c = 0x0c \<or> c = 0 then Ed l r
      else Ed (l @ [c]) r)"

datatype ed_result = Typing "u8 list" "u8 list" | Entered "u8 list" "u8 list" | Abandoned "u8 list"

text \<open>The result carries the keys that are not read.\<close>

fun edit :: "u8 list \<Rightarrow> u8 list \<Rightarrow> u8 list \<Rightarrow> ed_result" where
  "edit [] l r = Typing l r"
| "edit (c # ks) l r = (case ed_key c l r of Ed l1 r1 \<Rightarrow> edit ks l1 r1 | EdLine u \<Rightarrow> Entered u ks | EdQuit \<Rightarrow> Abandoned ks)"

definition plain_key :: "u8 \<Rightarrow> bool" where
  "plain_key c \<longleftrightarrow> c \<noteq> 0x1b \<and> c \<noteq> 0x18 \<and> c \<noteq> 0x0e \<and> c \<noteq> 0x10"

section \<open>The simulation\<close>

definition hist_ok :: "nat \<Rightarrow> 'a rls_scheme \<Rightarrow> bool" where
  "hist_ok t s \<longleftrightarrow> (\<forall>p\<in>List.set (rl_history (ttys s t)). hist_store s p \<noteq> None)
     \<and> distinct (rl_history (ttys s t)) \<and> rl_history_size (ttys s t) \<le> int (length (rl_history (ttys s t)))"

definition ready :: "nat \<Rightarrow> 'a rls_scheme \<Rightarrow> bool" where
  "ready t s \<longleftrightarrow> hist_ok t s \<and> alloc_ok s = (\<lambda>_. True)"

lemma ready_kept: "kept s s' \<Longrightarrow> ready t s \<Longrightarrow> ready t s'"
proof -
  assume k: "kept s s'" and r: "ready t s"
  have "ttys.more s' = ttys.more s" using k by (simp add: kept_def)
  then have "hist_store s' = hist_store s" "alloc_ok s' = alloc_ok s" by (cases s; cases s'; simp)+
  then show "ready t s'" using k r by (simp add: ready_def hist_ok_def kept_def)
qed

definition editing :: "nat \<Rightarrow> u8 list \<Rightarrow> u8 list \<Rightarrow> 'a rl_state \<Rightarrow> bool" where
  "editing t l r st \<longleftrightarrow> (case st of (rl, s) \<Rightarrow> rl_tty rl = t \<and> rl_line rl = l @ r \<and> rl_cursor rl = int (length l)
     \<and> \<not> buf_null rl \<and> length (l @ r) < buf_len rl \<and> \<not> valid_next_arg rl \<and> \<not> valid_current_arg rl \<and> \<not> had_esc rl \<and> \<not> had_ctrl_x rl
     \<and> current_item rl = None \<and> ready t s)"

lemma editing_kept: "editing t l r (rl, s) \<Longrightarrow> kept s s' \<Longrightarrow> editing t l r (rl, s')"
  by (auto simp: editing_def ready_kept)

lemma editing_same: "editing t l r (rl, s) \<Longrightarrow> same_line rl rl' \<Longrightarrow> editing t l r (rl', s)"
  unfolding same_line_def by (auto simp: editing_def)

lemma editing_find:
  "editing t l r st \<Longrightarrow> editing t l r (rl_find_cursor st)"
  by (cases st; cases "rl_find_cursor st") (auto dest: rl_find_cursor_same intro: editing_kept editing_same)

lemma realloc_size: "n + 300 < 2 ^ 31 \<Longrightarrow> n \<le> unat (round_to (of_nat n + 8) 256 - 8 :: u32)"
proof -
  assume n: "n + 300 < 2 ^ 31"
  have v: "unat (of_nat n + 8 :: u32) = n + 8" using n by (simp add: unat_word_ariths(1) unat_of_nat)
  have "unat (round_to (of_nat n + 8) 256 :: u32) = (n + 8 + 255) div 256 * 256"
    using unat_round_to[of "of_nat n + 8" 8 256] v n by simp
  moreover have "n + 8 \<le> (n + 8 + 255) div 256 * 256" by linarith
  ultimately show ?thesis by (simp add: unat_sub word_le_nat_alt)
qed

lemma redisplay_editing:
  assumes "editing t l r (rl, s)"
  shows "\<exists>s'. rl_redisplay_from rl i s = Some s' \<and> editing t l r (rl, s')"
proof -
  have "\<not> buf_null rl" using assms by (simp add: editing_def)
  from rl_redisplay_from_some[OF this] show ?thesis using editing_kept[OF assms] by blast
qed

lemma insert_editing:
  assumes "editing t l r (rl, s)" "length (l @ r) + 400 < 2 ^ 31"
  shows "\<exists>st. rl_insert [c] (rl, s) = Some (True, st) \<and> editing t (l @ [c]) r st"
proof -
  note e = assms(1)[unfolded editing_def prod.case]
  define full where "full \<longleftrightarrow> length (rl_line rl) + 1 \<ge> buf_len rl"
  define st1 where "st1 = (if full then snd (rl_realloc_buf (length (rl_line rl) + 1 + 2) (rl, s)) else (rl, s))"
  obtain rl1 s1 where st1: "st1 = (rl1, s1)" by force
  have "ready t (s\<lparr>alloc_count := alloc_count s + 1\<rparr>)" "alloc_ok s (alloc_count s)" using e by (simp_all add: ready_def hist_ok_def)
  then have ed: "editing t l r (rl1, s1)" "length (l @ r) + 1 < buf_len rl1"
    using e st1 realloc_size[of "length (rl_line rl) + 1 + 2"] assms(2)
    by (auto simp: st1_def full_def editing_def rl_realloc_buf_def try_alloc_def split: if_splits)
  have ok: "(if full then rl_realloc_buf (length (rl_line rl) + 1 + 2) (rl, s) else (True, rl, s)) = (True, rl1, s1)"
  proof (cases full)
    case True
    have "fst (rl_realloc_buf (length (rl_line rl) + 1 + 2) (rl, s))" using e by (simp add: rl_realloc_buf_def try_alloc_def ready_def)
    then show ?thesis using True st1 by (simp add: st1_def prod_eq_iff)
  qed (use st1 in \<open>simp add: st1_def\<close>)
  let ?rl2 = "rl1\<lparr>rl_line := l @ [c] @ r, mark_pos := (if mark_pos rl1 \<ge> rl_cursor rl1 then mark_pos rl1 + 1 else mark_pos rl1),
      rl_cursor := rl_cursor rl1 + 1\<rparr>"
  obtain rl3 s3 where f: "rl_find_cursor (?rl2, s1) = (rl3, s3)" by force
  have "editing t (l @ [c]) r (?rl2, s1)" using ed by (simp add: editing_def)
  then have e3: "editing t (l @ [c]) r (rl3, s3)" using editing_find[of t "l @ [c]" r "(?rl2, s1)"] f by simp
  obtain s4 where s4: "rl_redisplay_from rl3 (length l) s3 = Some s4" "editing t (l @ [c]) r (rl3, s4)"
    using redisplay_editing[OF e3] by blast
  have g: "rl_cursor rl1 = int (length l)" "rl_line rl1 = l @ r" "\<not> buf_null rl1" using ed(1) by (simp_all add: editing_def)
  have "rl_insert [c] (rl, s) = Some (True, rl3, s4)"
  proof -
    have ok': "(if length (rl_line rl) + length [c] \<ge> buf_len rl then rl_realloc_buf (length (rl_line rl) + length [c] + 2) (rl, s) else (True, rl, s))
        = (True, rl1, s1)"
    proof -
      have "length [c] = 1" by simp
      then show ?thesis using ok unfolding full_def by (simp only:)
    qed
    show ?thesis unfolding rl_insert_def prod.case Let_def ok' using f s4(1) g by (cases "int (length l) \<le> mark_pos rl1") simp_all
  qed
  then show ?thesis using s4(2) by blast
qed

lemma delete_editing:
  assumes "editing t l r (rl, s)" "(l = a \<and> r = x # b) \<or> (l = a @ [x] \<and> r = b)" "length (l @ r) < 2 ^ 31"
  shows "\<exists>st. rl_delete (int (length a)) 1 (rl, s) = Some st \<and> editing t a b st"
proof -
  note e = assms(1)[unfolded editing_def prod.case]
  have line: "rl_line rl = a @ x # b" "length a + 1 \<le> length (rl_line rl)" using e assms(2) by auto
  have cur: "moved_pos (int (length a)) 1 (rl_cursor rl) = int (length a)"
    using e assms(2,3) by (auto simp: moved_pos_def mod_pos_pos_trivial)
  let ?rl1 = "rl\<lparr>rl_line := a @ b, rl_cursor := int (length a), mark_pos := moved_pos (int (length a)) 1 (mark_pos rl)\<rparr>"
  obtain px py where pos: "rl_find_pos ?rl1 (line_len ?rl1) s = (px, py)" by force
  let ?s1 = "tty_clear_chars (rl_tty rl) (of_int 1) (move_to ?rl1 px py s)"
  have "editing t a b (?rl1, s)" using e assms(2) by (auto simp: editing_def)
  then have e1: "editing t a b (?rl1, ?s1)" by (rule editing_kept) (intro kept_clear_chars kept_move_to kept_refl)
  obtain rl2 s2 where f: "rl_find_cursor (?rl1, ?s1) = (rl2, s2)" by force
  have e2: "editing t a b (rl2, s2)" using editing_find[OF e1] f by simp
  obtain s3 where s3: "rl_redisplay_from rl2 (nat (rl_cursor rl2)) s2 = Some s3" "editing t a b (rl2, s3)"
    using redisplay_editing[OF e2] by blast
  have drop: "take (nat (int (length a))) (rl_line rl) @ drop (nat (int (length a) + 1)) (rl_line rl) = a @ b"
    using line(1) by (simp add: nat_add_distrib)
  have "rl_delete_at (int (length a)) 1 (rl, s) = Some (rl2, s3)"
    unfolding rl_delete_at_def prod.case Let_def cur drop
    using line e pos f s3(1) by simp
  then show ?thesis using s3(2) line by (simp add: rl_delete_def)
qed

lemma delete_nothing:
  assumes "editing t l r (rl, s)" "l = []"
  shows "\<exists>st. rl_delete 0 0 (rl, s) = Some st \<and> editing t l r st"
proof -
  note e = assms(1)[unfolded editing_def prod.case]
  have cur: "moved_pos 0 0 (rl_cursor rl) = 0" using e assms(2) by (simp add: moved_pos_def)
  let ?rl1 = "rl\<lparr>rl_line := l @ r, rl_cursor := 0, mark_pos := moved_pos 0 0 (mark_pos rl)\<rparr>"
  obtain px py where pos: "rl_find_pos ?rl1 (line_len ?rl1) s = (px, py)" by force
  let ?s1 = "tty_clear_chars (rl_tty rl) (of_int 0) (move_to ?rl1 px py s)"
  have "editing t l r (?rl1, s)" using e assms(2) by (simp add: editing_def)
  then have e1: "editing t l r (?rl1, ?s1)" by (rule editing_kept) (intro kept_clear_chars kept_move_to kept_refl)
  obtain rl2 s2 where f: "rl_find_cursor (?rl1, ?s1) = (rl2, s2)" by force
  have e2: "editing t l r (rl2, s2)" using editing_find[OF e1] f by simp
  obtain s3 where s3: "rl_redisplay_from rl2 (nat (rl_cursor rl2)) s2 = Some s3" "editing t l r (rl2, s3)"
    using redisplay_editing[OF e2] by blast
  have "rl_delete_at 0 0 (rl, s) = Some (rl2, s3)"
    unfolding rl_delete_at_def prod.case Let_def cur using e pos f s3(1) by simp
  then show ?thesis using s3(2) by (simp add: rl_delete_def)
qed

lemma trim_history:
  "current_item rl = None \<Longrightarrow> ready (rl_tty rl) s \<Longrightarrow>
   \<exists>s'. rl_trim_history None (rl, s) = Some (None, rl, s') \<and> ready (rl_tty rl) s'"
proof (induction "nat (rl_history_size (ttys s (rl_tty rl)))" arbitrary: s rule: less_induct)
  case less
  let ?n = "rl_history_size (ttys s (rl_tty rl))"
  show ?case
  proof (cases "?n \<ge> rl_history_max")
    case True
    let ?h = "hist rl s"
    have h: "?h \<noteq> []" "distinct ?h" "?n \<le> int (length ?h)" "\<forall>p\<in>List.set ?h. hist_store s p \<noteq> None" "?n > 0"
      using less.prems(2) True by (auto simp: ready_def hist_ok_def hist_def rl_history_max_def)
    let ?p = "last ?h"
    let ?s = "add_hist_size rl (- 1) ((set_hist rl (removeAll ?p ?h) s)\<lparr>hist_store := (hist_store s)(?p := None)\<rparr>)"
    have f: "rl_free_history rl ?p s = Some ((set_hist rl (removeAll ?p ?h) s)\<lparr>hist_store := (hist_store s)(?p := None)\<rparr>)"
      using h by (simp add: rl_free_history_def)
    have "length (removeAll ?p ?h) = length ?h - 1" using h by (metis distinct_remove1_removeAll length_remove1 last_in_set)
    then have "ready (rl_tty rl) ?s"
      using less.prems(2) h by (auto simp: ready_def hist_ok_def hist_def add_hist_size_def set_hist_def tty_upd_def distinct_removeAll)
    moreover have "nat (rl_history_size (ttys ?s (rl_tty rl))) < nat ?n" using h(5) by (simp add: add_hist_size_def set_hist_def tty_upd_def)
    ultimately obtain s' where "rl_trim_history None (rl, ?s) = Some (None, rl, s')" "ready (rl_tty rl) s'"
      using less.hyps[of ?s] less.prems(1) by blast
    then show ?thesis using True h(1) f less.prems(1) by (simp add: rl_trim_history.simps[of None rl s] Let_def)
  qed (use less.prems in \<open>simp add: rl_trim_history.simps[of None rl s]\<close>)
qed

lemma add_history:
  assumes "editing t l r (rl, s)"
  shows "\<exists>s'. rl_add_history None (rl, s) = Some (True, rl, s') \<and> alloc_ok s' = (\<lambda>_. True)"
proof -
  have e: "current_item rl = None" "\<not> buf_null rl" "rl_tty rl = t" "ready (rl_tty rl) s" using assms by (auto simp: editing_def)
  obtain s1 where s1: "rl_trim_history None (rl, s) = Some (None, rl, s1)" "ready (rl_tty rl) s1" using trim_history[OF e(1,4)] by blast
  show ?thesis using s1 e(2)
    by (simp add: rl_add_history_def rl_alloc_history_def try_alloc_def ready_def add_hist_size_def set_hist_def tty_upd_def)
qed

lemma enter_history:
  assumes "editing t l r (rl, s)"
  shows "\<exists>s'. rl_enter_history (rl, s) = Some (rl, s') \<and> alloc_ok s' = (\<lambda>_. True)"
proof -
  have e: "current_item rl = None" "\<not> buf_null rl" "hist_ok t s" "alloc_ok s = (\<lambda>_. True)" "rl_tty rl = t" using assms by (auto simp: editing_def ready_def)
  obtain s' where s': "rl_add_history None (rl, s) = Some (True, rl, s')" "alloc_ok s' = (\<lambda>_. True)" using add_history[OF assms] by blast
  show ?thesis
  proof (cases "hist rl s")
    case Nil
    then show ?thesis using e s' by (simp add: rl_enter_history_def)
  next
    case (Cons p h)
    then obtain old where "hist_store s p = Some old" using e(3,5) by (auto simp: hist_ok_def hist_def)
    then show ?thesis using Cons e s' by (simp add: rl_enter_history_def)
  qed
qed

lemma enter_editing:
  assumes "editing t l r (rl, s)"
  shows "\<exists>rl' s'. rl_enter (rl, s) = Some (Finished False (rl', s')) \<and> rl_line rl' = l @ r @ [10] \<and> \<not> buf_null rl' \<and> alloc_ok s' = (\<lambda>_. True)"
proof -
  obtain s1 where s1: "rl_enter_history (rl, s) = Some (rl, s1)" "alloc_ok s1 = (\<lambda>_. True)" using enter_history[OF assms] by blast
  obtain rl2 s2 where f: "rl_find_cursor (rl\<lparr>rl_cursor := line_len rl\<rparr>, s1) = (rl2, s2)" by force
  have line: "rl_line rl2 = l @ r" "\<not> buf_null rl2" "length (rl_line rl2) < buf_len rl2"
    using rl_find_cursor_same(1)[OF f] assms by (auto simp: same_line_def editing_def)
  let ?s3 = "tty_printn (rl_tty rl2) [10] (rl_set_cursor rl2 s2)"
  have "kept s1 ?s3" by (intro kept_printn kept_rl_set_cursor rl_find_cursor_same(2)[OF f])
  then have "ttys.more ?s3 = ttys.more s1" by (simp add: kept_def)
  then have "alloc_ok ?s3 = alloc_ok s1" by (cases ?s3; cases s1) simp
  then show ?thesis using s1 f line by (simp add: rl_enter_def Let_def)
qed

lemma dispatch_editing:
  assumes "editing t l r (rl, s)" "plain_key c" "length (l @ r) + 400 < 2 ^ 31"
  shows "case ed_key c l r of
      Ed l1 r1 \<Rightarrow> \<exists>m st. rl_dispatch mr c (rl, s) = Some (Edit m st) \<and> editing t l1 r1 st
    | EdLine u \<Rightarrow> \<exists>rl' s'. rl_dispatch mr c (rl, s) = Some (Finished False (rl', s')) \<and> rl_line rl' = u \<and> \<not> buf_null rl'
        \<and> alloc_ok s' = (\<lambda>_. True)
    | EdQuit \<Rightarrow> \<exists>st. rl_dispatch mr c (rl, s) = Some (Finished True st)"
proof -
  note e = assms(1)[unfolded editing_def prod.case]
  have d: "rl_dispatch mr c (rl, s) = rl_plain_key mr c (rl, s)" using e by (simp add: rl_dispatch_def)
  have arg: "PREFIX_ARG rl = 1" using e by (simp add: PREFIX_ARG_def)
  have beep: "editing t l r (rl, tty_beep s)" by (rule editing_kept[OF assms(1) kept_beep[OF kept_refl]])
  have move: "editing t l1 r1 (rl\<lparr>rl_cursor := int (length l1)\<rparr>, s1)" if "l1 @ r1 = l @ r" "s1 = s \<or> s1 = tty_beep s" for l1 r1 s1
    using assms(1) beep that by (auto simp: editing_def)
  have len: "line_len rl = int (length l) + int (length r)" using e by simp
  consider "c = 0x06" | "c = 0x02" | "c = 0x01" | "c = 0x05" | "c = 0x04" | "c = 0x7f" | "c = 0x0d \<or> c = 0x0a" | "c = 0x0c" | "c = 0"
    | "c \<notin> {0x06, 0x02, 0x01, 0x05, 0x04, 0x7f, 0x0d, 0x0a, 0x0c, 0}" by blast
  then show ?thesis
  proof cases
    case 1
    show ?thesis
    proof (cases r)
      case Nil
      then have "rl_plain_key mr c (rl, s) = Some (Edit True (rl\<lparr>rl_cursor := int (length l)\<rparr>, tty_beep s))"
        using 1 e arg by (simp add: rl_plain_key_def Let_def rl_forward_char_def)
      then show ?thesis unfolding d using 1 Nil move[of l r] by (auto simp: ed_key_def)
    next
      case (Cons x q)
      then have "rl_plain_key mr c (rl, s) = Some (Edit True (rl\<lparr>rl_cursor := int (length (l @ [x]))\<rparr>, s))"
        using 1 e arg by (simp add: rl_plain_key_def Let_def rl_forward_char_def)
      then show ?thesis unfolding d using 1 Cons move[of "l @ [x]" q] by (auto simp: ed_key_def)
    qed
  next
    case 2
    show ?thesis
    proof (cases l rule: rev_cases)
      case Nil
      then have "rl_plain_key mr c (rl, s) = Some (Edit True (rl\<lparr>rl_cursor := int (length l)\<rparr>, tty_beep s))"
        using 2 e arg by (simp add: rl_plain_key_def Let_def rl_forward_char_def)
      then show ?thesis unfolding d using 2 Nil move[of l r] by (auto simp: ed_key_def)
    next
      case (snoc q x)
      then have "rl_plain_key mr c (rl, s) = Some (Edit True (rl\<lparr>rl_cursor := int (length q)\<rparr>, s))"
        using 2 e arg by (simp add: rl_plain_key_def Let_def rl_forward_char_def)
      then show ?thesis unfolding d using 2 snoc move[of q "x # r"] by (auto simp: ed_key_def)
    qed
  next
    case 3
    then have "rl_plain_key mr c (rl, s) = Some (Edit True (rl\<lparr>rl_cursor := int (length ([] :: u8 list))\<rparr>, s))"
      by (simp add: rl_plain_key_def Let_def rl_beginning_of_line_def)
    then show ?thesis unfolding d using 3 move[of "[]" "l @ r"] by (auto simp: ed_key_def)
  next
    case 4
    then have "rl_plain_key mr c (rl, s) = Some (Edit True (rl\<lparr>rl_cursor := int (length (l @ r))\<rparr>, s))"
      using e by (simp add: rl_plain_key_def Let_def rl_end_of_line_def)
    then show ?thesis unfolding d using 4 move[of "l @ r" "[]"] by (auto simp: ed_key_def)
  next
    case 5
    show ?thesis
    proof (cases r)
      case Nil
      then have "rl_plain_key mr c (rl, s) = Some (Finished (l = []) (rl, s))"
        using 5 e by (simp add: rl_plain_key_def Let_def)
      then show ?thesis using 5 Nil e unfolding d by (auto simp: ed_key_def ready_def)
    next
      case (Cons x q)
      obtain st where st: "rl_delete (int (length l)) 1 (rl, s) = Some st" "editing t l q st"
        using delete_editing[OF assms(1), of l x q] Cons assms(3) by auto
      then have "rl_plain_key mr c (rl, s) = Some (Edit False st)"
        using 5 e arg Cons by (simp add: rl_plain_key_def Let_def)
      then show ?thesis unfolding d using 5 Cons st(2) by (auto simp: ed_key_def)
    qed
  next
    case 6
    show ?thesis
    proof (cases l rule: rev_cases)
      case Nil
      obtain st where st0: "rl_delete 0 0 (rl, s) = Some st" and st: "editing t l r st"
        using delete_nothing[OF assms(1) Nil] by blast
      have "rl_plain_key mr c (rl, s) = Some (Edit True st)"
        using st0 Nil 6 e arg by (simp add: rl_plain_key_def rl_backward_delete_char_def Let_def)
      then show ?thesis unfolding d using 6 Nil st by (auto simp: ed_key_def)
    next
      case (snoc q x)
      obtain st where st: "rl_delete (int (length q)) 1 (rl, s) = Some st" "editing t q r st"
        using delete_editing[OF assms(1), of q x r] snoc assms(3) by auto
      then have "rl_plain_key mr c (rl, s) = Some (Edit True st)"
        using 6 e arg snoc by (simp add: rl_plain_key_def rl_backward_delete_char_def Let_def)
      then show ?thesis unfolding d using 6 snoc st(2) by (auto simp: ed_key_def)
    qed
  next
    case 7
    then have "rl_plain_key mr c (rl, s) = rl_enter (rl, s)" by (auto simp: rl_plain_key_def Let_def)
    moreover have "ed_key c l r = EdLine (l @ r @ [10])" using 7 by (auto simp: ed_key_def)
    ultimately show ?thesis unfolding d using enter_editing[OF assms(1)] by simp
  next
    case 8
    have nb: "\<not> buf_null rl" using e by simp
    obtain s1 where s1: "rl_redisplay rl s = Some s1" "kept s s1" using rl_redisplay_some[OF nb] by blast
    have "rl_plain_key mr c (rl, s) = Some (Edit False (rl, s1))" using 8 s1(1) by (simp add: rl_plain_key_def Let_def)
    then show ?thesis unfolding d using 8 editing_kept[OF assms(1) s1(2)] by (auto simp: ed_key_def)
  next
    case 9
    then have "rl_plain_key mr c (rl, s) = Some (Edit mr (rl\<lparr>mark_pos := rl_cursor rl\<rparr>, s))"
      by (simp add: rl_plain_key_def Let_def rl_set_mark_def)
    moreover have "editing t l r (rl\<lparr>mark_pos := rl_cursor rl\<rparr>, s)" using assms(1) by (simp add: editing_def)
    ultimately show ?thesis unfolding d using 9 by (auto simp: ed_key_def)
  next
    case 10
    obtain st where st: "rl_insert [c] (rl, s) = Some (True, st)" "editing t (l @ [c]) r st"
      using insert_editing[OF assms(1,3)] by blast
    have "rl_plain_key mr c (rl, s) = Some (Edit True st)"
      using 10 assms(2) st(1) by (simp add: rl_plain_key_def plain_key_def Let_def rl_self_insert_def)
    moreover have "ed_key c l r = Ed (l @ [c]) r" using 10 by (auto simp: ed_key_def)
    ultimately show ?thesis unfolding d using st(2) by auto
  qed
qed

lemma key_editing:
  assumes "editing t l r (rl, s)" "plain_key c" "length (l @ r) + 400 < 2 ^ 31"
  shows "case ed_key c l r of
      Ed l1 r1 \<Rightarrow> \<exists>m st. rl_key mr c (rl, s) = Some (Edit m st) \<and> editing t l1 r1 st
    | EdLine u \<Rightarrow> \<exists>rl' s'. rl_key mr c (rl, s) = Some (Finished False (rl', s')) \<and> rl_line rl' = u \<and> \<not> buf_null rl'
        \<and> alloc_ok s' = (\<lambda>_. True)
    | EdQuit \<Rightarrow> \<exists>st. rl_key mr c (rl, s) = Some (Finished True st)"
proof -
  let ?rl = "rl\<lparr>current_prefix_arg := next_prefix_arg rl, valid_current_arg := valid_next_arg rl, valid_next_arg := False\<rparr>"
  have ed: "editing t l r (?rl, s)" using assms(1) by (simp add: editing_def)
  have k: "rl_key mr c (rl, s) = (case rl_dispatch mr c (?rl, s) of None \<Rightarrow> None
      | Some (Finished q st) \<Rightarrow> Some (Finished q st)
      | Some (Edit m st) \<Rightarrow> Some (if m then case rl_find_cursor st of (rl1, s1) \<Rightarrow> Edit False (rl1, rl_set_cursor rl1 s1) else Edit False st))"
    by (simp add: rl_key_def split: option.split rl_step.split)
  have step: "\<exists>m' st'. rl_key mr c (rl, s) = Some (Edit m' st') \<and> editing t l1 r1 st'"
    if "rl_dispatch mr c (?rl, s) = Some (Edit m st)" "editing t l1 r1 st" for m st l1 r1
  proof -
    obtain rl1 s1 where f: "rl_find_cursor st = (rl1, s1)" by force
    have "editing t l1 r1 (rl1, rl_set_cursor rl1 s1)"
      using editing_find[OF that(2)] f by (auto intro: editing_kept kept_rl_set_cursor kept_refl)
    then show ?thesis using that f by (cases m) (auto simp: k)
  qed
  show ?thesis
  proof (cases "ed_key c l r")
    case (Ed l1 r1)
    then show ?thesis using dispatch_editing[OF ed assms(2,3), of mr] step by force
  next
    case (EdLine u)
    then show ?thesis using dispatch_editing[OF ed assms(2,3), of mr] by (auto simp: k)
  next
    case EdQuit
    then show ?thesis using dispatch_editing[OF ed assms(2,3), of mr] by (auto simp: k)
  qed
qed

lemma ed_key_length: "ed_key c l r = Ed l1 r1 \<Longrightarrow> length (l1 @ r1) \<le> Suc (length (l @ r))"
  by (auto simp: ed_key_def split: if_splits)

definition rl_answer :: "'a rl_result \<Rightarrow> ed_result" where
  "rl_answer res = (case res of
      Reading (rl, s) \<Rightarrow> Typing (take (nat (rl_cursor rl)) (rl_line rl)) (drop (nat (rl_cursor rl)) (rl_line rl))
    | Line None n s \<Rightarrow> Abandoned (keys s)
    | Line (Some u) n s \<Rightarrow> Entered u (keys s))"

definition loop_answer :: "'a rl_outcome option \<Rightarrow> 'a rl_result option" where
  "loop_answer out = (case out of None \<Rightarrow> None | Some (Waiting st) \<Rightarrow> Some (Reading st) | Some (Stopped q st) \<Rightarrow> rl_finish q st)"

lemma loop_edits:
  "editing t l r st \<Longrightarrow> \<forall>c\<in>List.set ks. plain_key c \<Longrightarrow> length (l @ r) + length ks + 400 < 2 ^ 31 \<Longrightarrow>
   map_option rl_answer (loop_answer (rl_loop mr ks st)) = Some (edit ks l r)"
proof (induction ks arbitrary: l r st)
  case Nil
  then show ?case by (cases st) (simp add: loop_answer_def rl_answer_def editing_def)
next
  case (Cons c ks)
  obtain rl s where st: "st = (rl, s)" by force
  have pre: "editing t l r (rl, s)" "plain_key c" "length (l @ r) + 400 < 2 ^ 31" using Cons.prems st by simp_all
  note key = key_editing[OF pre, of mr]
  show ?case
  proof (cases "ed_key c l r")
    case (Ed l1 r1)
    then obtain m st1 where k: "rl_key mr c (rl, s) = Some (Edit m st1)" "editing t l1 r1 st1" using key by auto
    have "map_option rl_answer (loop_answer (rl_loop mr ks st1)) = Some (edit ks l1 r1)"
      by (rule Cons.IH[OF k(2)]) (use Cons.prems ed_key_length[OF Ed] in simp_all)
    then show ?thesis using k(1) Ed st by simp
  next
    case (EdLine u)
    then obtain rl' s' where k: "rl_key mr c (rl, s) = Some (Finished False (rl', s'))" "rl_line rl' = u" "\<not> buf_null rl'"
        "alloc_ok s' = (\<lambda>_. True)" using key by auto
    then show ?thesis using EdLine st by (simp add: loop_answer_def rl_finish_def try_alloc_def rl_answer_def)
  next
    case EdQuit
    then obtain st1 where "rl_key mr c (rl, s) = Some (Finished True st1)" using key by auto
    then show ?thesis using EdQuit st by (simp add: loop_answer_def rl_finish_def rl_answer_def)
  qed
qed

text \<open>
  C21: With the plain editing keys (no ESC, no C-x, no history keys) and memory for its
  allocations, \<open>readline\<close> never fails, whatever the screen is like, and is the
  abstract editor: the line it returns, whether it returns one, the keys it leaves unread and, when
  the keys are used up, the text before and behind the cursor are those of the editor.
\<close>
theorem readline_refines_editor:
  assumes "kbd_type (ttys s t) = Cooked" "ready t s" "\<forall>c\<in>List.set (keys s). plain_key c" "length (keys s) + 400 < 2 ^ 31"
  shows "map_option rl_answer (readline mr mark t s) = Some (edit (keys s) [] [])"
proof -
  obtain rl0 s0 where r0: "rl_realloc_buf 0 (rl_start t mark s) = (True, rl0, s0)"
    using assms(2) by (simp add: rl_realloc_buf_def rl_start_def try_alloc_def ready_def)
  have ks0: "keys s0 = keys s" "kbd_type (ttys s0 t) = Cooked" and e0: "editing t [] [] (rl0, s0)"
    using r0 assms(1,2) by (auto simp: rl_realloc_buf_def rl_start_def try_alloc_def editing_def ready_def hist_ok_def round_to_def)
  obtain rl1 s1 where f: "rl_find_cursor (rl0, s0) = (rl1, s1)" by force
  let ?s2 = "rl_set_cursor rl1 s1"
  have k: "kept s0 ?s2" using rl_find_cursor_same(2)[OF f] by (rule kept_rl_set_cursor)
  then have "ttys.more ?s2 = ttys.more s0" by (simp add: kept_def)
  then have ks: "keys ?s2 = keys s" using ks0 by (cases ?s2; cases s0) simp
  have kt: "kbd_type (ttys ?s2 t) = Cooked" using k ks0(2) by (simp add: kept_def)
  have e2: "editing t [] [] (rl1, ?s2)"
    using editing_find[OF e0] f by (auto intro: editing_kept kept_rl_set_cursor kept_refl)
  have "readline mr mark t s = loop_answer (rl_loop mr (keys s) (rl1, ?s2))"
    unfolding readline_def r0 prod.case using f ks kt by (simp add: Let_def loop_answer_def)
  then show ?thesis using loop_edits[OF e2 assms(3), of mr] assms(4) by simp
qed

text \<open>The keys a, C-b, b, RETURN give the line ba.\<close>

definition demo_rls :: rls where
  "demo_rls = ttys.extend demo_ttys \<lparr>hist_store = Map.empty, hist_next = 0, alloc_ok = (\<lambda>_. True), alloc_count = 0,
     keys = [0x61, 0x02, 0x62, 0x0d]\<rparr>"

lemma demo_rls_simps: "ttys demo_rls t = demo_tty" "keys demo_rls = [0x61, 0x02, 0x62, 0x0d]" "alloc_ok demo_rls = (\<lambda>_. True)"
  by (simp_all add: demo_rls_def demo_ttys_def ttys.defs vids.defs)

lemma readline_refines_editor_witness:
  "map_option rl_answer (readline False 0 0 demo_rls) = Some (Entered [0x62, 0x61, 0x0a] [])"
proof -
  have "map_option rl_answer (readline False 0 0 demo_rls) = Some (edit (keys demo_rls) [] [])"
    by (rule readline_refines_editor)
      (simp_all add: demo_rls_simps demo_tty_def ready_def hist_ok_def plain_key_def)
  then show ?thesis by (simp add: demo_rls_simps ed_key_def)
qed

section \<open>A full history\<close>

lemma trim_full:
  assumes "hist rl s = h @ [p]" "rl_history_size (ttys s (rl_tty rl)) = 50" "hist_store s p \<noteq> None" "p \<notin> List.set h" "current_item rl = None"
  shows "\<exists>s'. rl_trim_history None (rl, s) = Some (None, rl, s') \<and> hist_store s' p = None \<and> hist_next s' = hist_next s"
proof -
  let ?s = "add_hist_size rl (- 1) ((set_hist rl (removeAll p (h @ [p])) s)\<lparr>hist_store := (hist_store s)(p := None)\<rparr>)"
  have "rl_free_history rl p s = Some ((set_hist rl (removeAll p (h @ [p])) s)\<lparr>hist_store := (hist_store s)(p := None)\<rparr>)"
    using assms(1,3) by (simp add: rl_free_history_def)
  then have "rl_trim_history None (rl, s) = rl_trim_history None (rl, ?s)"
    using assms(1,2,5) by (simp add: rl_trim_history.simps[of None rl s] rl_history_max_def Let_def)
  moreover have "rl_history_size (ttys ?s (rl_tty rl)) < rl_history_max"
    using assms(2) by (simp add: rl_history_max_def add_hist_size_def set_hist_def tty_upd_def)
  then have "rl_trim_history None (rl, ?s) = Some (None, rl, ?s)" by (subst rl_trim_history.simps) (simp only: not_le[symmetric] if_False)
  ultimately show ?thesis by (simp add: add_hist_size_def set_hist_def tty_upd_def)
qed

lemma trim_alloc: "rl_trim_history item (rl, s) = Some (item', rl', s') \<Longrightarrow> alloc_ok s' = alloc_ok s"
proof (induction item "(rl, s)" arbitrary: rl s rule: rl_trim_history.induct)
  case (1 item rl s)
  show ?case
  proof (cases "rl_history_size (ttys s (rl_tty rl)) \<ge> rl_history_max")
    case True
    note e = 1(2)[unfolded rl_trim_history.simps[of item rl s], simplified True Let_def if_True]
    then obtain s1 where h: "hist rl s \<noteq> []" and s1: "rl_free_history rl (last (hist rl s)) s = Some s1"
      by (auto split: if_splits option.splits)
    have "alloc_ok s' = alloc_ok (add_hist_size rl (- 1) s1)" using 1(1)[OF True h refl s1] e h s1 by simp
    then show ?thesis using s1 by (auto simp: rl_free_history_def add_hist_size_def set_hist_def tty_upd_def split: if_splits)
  qed (use 1(2) in \<open>simp add: rl_trim_history.simps[of item rl s]\<close>)
qed

text \<open>
  Going to the beginning of a history that is full follows a pointer to freed memory: the entry
  to be shown is the oldest one, and to make room for the line being edited just that entry is freed
  first.
\<close>
theorem full_history_use_after_free:
  assumes "hist rl s = h @ [p]" "rl_history_size (ttys s (rl_tty rl)) = rl_history_max" "hist_store s p \<noteq> None" "p \<notin> List.set h"
    "current_item rl = None" "\<not> buf_null rl" "alloc_ok s = (\<lambda>_. True)" "p < hist_next s"
  shows "rl_beginning_of_history (rl, s) = None"
proof -
  obtain s1 where s1: "rl_trim_history None (rl, s) = Some (None, rl, s1)" "hist_store s1 p = None" "hist_next s1 = hist_next s"
    using trim_full[OF assms(1) _ assms(3,4,5)] assms(2) by (auto simp: rl_history_max_def)
  have al: "alloc_ok s1 = (\<lambda>_. True)" using trim_alloc[OF s1(1)] assms(7) by simp
  obtain st where add: "rl_add_history None (rl, s) = Some (True, st)" "hist_store (snd st) p = None"
    using s1 al assms(6,8) by (simp add: rl_add_history_def rl_alloc_history_def try_alloc_def add_hist_size_def set_hist_def tty_upd_def)
  then have "rl_load_history p st = None" by (cases st) (simp add: rl_load_history_def)
  then show ?thesis using assms(1,5) add(1) by (simp add: rl_beginning_of_history_def rl_use_history_def)
qed

definition demo_full :: rls where
  "demo_full = demo_rls\<lparr>ttys := (\<lambda>_. demo_tty\<lparr>rl_history := [0..<50], rl_history_size := 50\<rparr>),
     hist_store := (\<lambda>p. if p < 50 then Some \<lparr>h_line = [0x61], h_cursor = 0\<rparr> else None), hist_next := 50\<rparr>"

lemma full_history_use_after_free_witness:
  "rl_beginning_of_history ((fst (rl_start 0 0 demo_full))\<lparr>buf_null := False, buf_len := 248\<rparr>, demo_full) = None"
proof (rule full_history_use_after_free)
  show "hist ((fst (rl_start 0 0 demo_full))\<lparr>buf_null := False, buf_len := 248\<rparr>) demo_full = [0..<49] @ [49]"
    using upt_Suc_append[of 0 49] by (simp add: hist_def rl_start_def demo_full_def)
qed (simp_all add: rl_start_def demo_full_def demo_rls_simps rl_history_max_def)

end
