(* ===== verification/BlkDev.thy ===== *)
theory BlkDev
  imports Memory
begin

text \<open>
  The requests of the block device drivers (vmm/blkdev.h).  A request is named by an index into
  \<open>requests\<close>, the structures on the stacks of the waiting tasks; \<open>kmem\<close> is the
  kernel's memory, where the buffers are.  Only one task waits on the semaphore of a request, so
  the semaphore is the flag \<open>r_blocked\<close>: a task that waits sleeps while it is set.
\<close>

unbundle bit_operations_syntax

record blkreq =
  r_dev :: nat
  r_buf :: u32
  r_block :: u32
  r_nblocks :: u32
  r_command :: u32
  r_result :: int
  r_retries :: u8
  r_completed :: bool
  r_blocked :: bool

text \<open>\<open>Fake_req\<close> is the constant \<open>FAKE_REQ\<close>, an address where there is no request.\<close>

datatype req_ptr = Req nat | Fake_req

record blkdevs =
  kmem :: memory
  requests :: "nat \<Rightarrow> blkreq"
  req_list :: "nat list"
  current_req :: "req_ptr option"

definition req_upd :: "nat \<Rightarrow> (blkreq \<Rightarrow> blkreq) \<Rightarrow> 'a blkdevs_scheme \<Rightarrow> 'a blkdevs_scheme" where
  "req_upd r f s = s\<lparr>requests := (requests s)(r := f (requests s r))\<rparr>"

text \<open>\<open>None\<close> is a write through \<open>FAKE_REQ\<close>.\<close>

definition end_request :: "int \<Rightarrow> 'a blkdevs_scheme \<Rightarrow> 'a blkdevs_scheme option" where
  "end_request result s =
     (case current_req s of
        None \<Rightarrow> Some s
      | Some Fake_req \<Rightarrow> None
      | Some (Req r) \<Rightarrow> Some ((req_upd r (\<lambda>q. q\<lparr>r_completed := True, r_result := result, r_blocked := False\<rparr>) s)
          \<lparr>current_req := None\<rparr>))"

text \<open>
  \<open>sync_request\<close> up to the wait, over the driver's \<open>do_request\<close>; what it
  returns when the wait is over.
\<close>

definition sync_request_with ::
  "(nat option \<Rightarrow> 'a blkdevs_scheme \<Rightarrow> 'a blkdevs_scheme option) \<Rightarrow> nat \<Rightarrow> 'a blkdevs_scheme \<Rightarrow> 'a blkdevs_scheme option" where
  "sync_request_with do_req r s =
     do_req (Some r) (req_upd r (\<lambda>q. q\<lparr>r_blocked := True, r_completed := False, r_retries := 0\<rparr>) s)"

definition sync_result :: "nat \<Rightarrow> 'a blkdevs_scheme \<Rightarrow> bool option" where
  "sync_result r s = (if r_blocked (requests s r) then None else Some (r_result (requests s r) = 0))"

text \<open>\<open>memcpy\<close> of a block of bytes into memory, and the bytes of a range.\<close>

definition put_mem :: "u32 \<Rightarrow> u8 list \<Rightarrow> memory \<Rightarrow> memory" where
  "put_mem a bs m = fold (\<lambda>k m. m(a + of_nat k := bs ! k)) [0..<length bs] m"

definition get_mem :: "memory \<Rightarrow> u32 \<Rightarrow> nat \<Rightarrow> u8 list" where
  "get_mem m a n = map (\<lambda>k. m (a + of_nat k)) [0..<n]"

end
