(* ===== verification/IdeDriver.thy ===== *)
theory IdeDriver
  imports BlkDev
begin

text \<open>
  The IDE hard disk driver, drivers/physical/hd/ide.c: a queue of requests, the interrupt
  handlers that carry on the current one, and the retries, resets and recalibrations after an
  error.  The controller is reached through its ports: \<open>io_log\<close> lists the accesses, the
  last one first; what a port and the data register answer may depend on all accesses before.
  The disk answers by interrupts, which are steps of their own; the driver's code runs with
  interrupts masked where it matters, so a step is not interrupted.
\<close>

unbundle bit_operations_syntax

section \<open>The controller\<close>

datatype ide_io = IdeIn u16 | IdeOut u16 u8 | IdeInSect | IdeOutSect "u8 list"

datatype intr_fn = Read_intr | Write_intr | Recal_intr

record ide_dev =
  heads :: u32
  cylinders :: u32
  sectors :: u32
  hd_total :: u32
  ide_ctl :: u8
  ide_select :: u8
  recalibrate :: bool

record ides = blkdevs +
  ide_devs :: "nat \<Rightarrow> ide_dev"
  ide_intr :: "intr_fn option"
  reset_pending :: bool
  io_log :: "ide_io list"
  io_in :: "ide_io list \<Rightarrow> u16 \<Rightarrow> u8"
  io_sect :: "ide_io list \<Rightarrow> nat \<Rightarrow> u8"

definition dev_set :: "nat \<Rightarrow> (ide_dev \<Rightarrow> ide_dev) \<Rightarrow> ides \<Rightarrow> ides" where
  "dev_set d f s = s\<lparr>ide_devs := (ide_devs s)(d := f (ide_devs s d))\<rparr>"

definition HD_ERROR :: u16 where "HD_ERROR = 0x1f1"
definition HD_NSECTOR :: u16 where "HD_NSECTOR = 0x1f2"
definition HD_SECTOR :: u16 where "HD_SECTOR = 0x1f3"
definition HD_LCYL :: u16 where "HD_LCYL = 0x1f4"
definition HD_HCYL :: u16 where "HD_HCYL = 0x1f5"
definition HD_CURRENT :: u16 where "HD_CURRENT = 0x1f6"
definition HD_STATUS :: u16 where "HD_STATUS = 0x1f7"
definition HD_COMMAND :: u16 where "HD_COMMAND = HD_STATUS"
definition HD_DEVCTRL :: u16 where "HD_DEVCTRL = 0x3f6"

definition HD_STAT_ERR :: u8 where "HD_STAT_ERR = 0x01"
definition HD_STAT_DRQ :: u8 where "HD_STAT_DRQ = 0x08"
definition HD_STAT_DSC :: u8 where "HD_STAT_DSC = 0x10"
definition HD_STAT_DWF :: u8 where "HD_STAT_DWF = 0x20"
definition HD_STAT_DRDY :: u8 where "HD_STAT_DRDY = 0x40"
definition HD_STAT_BSY :: u8 where "HD_STAT_BSY = 0x80"

definition HD_CMD_RECAL :: u8 where "HD_CMD_RECAL = 0x10"
definition HD_CMD_READ :: u8 where "HD_CMD_READ = 0x20"
definition HD_CMD_WRITE :: u8 where "HD_CMD_WRITE = 0x30"
definition HD_SRST :: u8 where "HD_SRST = 0x04"

definition BAD_RW_STAT :: u8 where "BAD_RW_STAT = HD_STAT_BSY OR HD_STAT_ERR OR HD_STAT_DWF"
definition DRV_RDY_STAT :: u8 where "DRV_RDY_STAT = HD_STAT_DRDY OR HD_STAT_DSC"
definition DATA_RDY_STAT :: u8 where "DATA_RDY_STAT = DRV_RDY_STAT OR HD_STAT_DRQ"

lemmas ide_consts = HD_ERROR_def HD_NSECTOR_def HD_SECTOR_def HD_LCYL_def HD_HCYL_def HD_CURRENT_def
  HD_STATUS_def HD_COMMAND_def HD_DEVCTRL_def HD_STAT_ERR_def HD_STAT_DRQ_def HD_STAT_DSC_def
  HD_STAT_DWF_def HD_STAT_DRDY_def HD_STAT_BSY_def HD_CMD_RECAL_def HD_CMD_READ_def
  HD_CMD_WRITE_def HD_SRST_def BAD_RW_STAT_def DRV_RDY_STAT_def DATA_RDY_STAT_def

definition MAX_RETRIES :: int where "MAX_RETRIES = 16"
definition RESET_FREQ :: nat where "RESET_FREQ = 8"
definition RECAL_FREQ :: nat where "RECAL_FREQ = 4"

definition ide_outb :: "u8 \<Rightarrow> u16 \<Rightarrow> ides \<Rightarrow> ides" where
  "ide_outb b port s = s\<lparr>io_log := IdeOut port b # io_log s\<rparr>"

definition ide_inb :: "u16 \<Rightarrow> ides \<Rightarrow> u8 \<times> ides" where
  "ide_inb port s = (io_in s (io_log s) port, s\<lparr>io_log := IdeIn port # io_log s\<rparr>)"

definition GET_STAT :: "ides \<Rightarrow> u8 \<times> ides" where
  "GET_STAT = ide_inb HD_STATUS"

definition GET_ERR :: "ides \<Rightarrow> u8 \<times> ides" where
  "GET_ERR = ide_inb HD_ERROR"

text \<open>\<open>insw\<close> and \<open>outsw\<close> of 256 words.\<close>

definition IN_SECT :: "u32 \<Rightarrow> ides \<Rightarrow> ides" where
  "IN_SECT a s = s\<lparr>kmem := put_mem a (map (io_sect s (io_log s)) [0..<512]) (kmem s), io_log := IdeInSect # io_log s\<rparr>"

definition OUT_SECT :: "u32 \<Rightarrow> ides \<Rightarrow> ides" where
  "OUT_SECT a s = s\<lparr>io_log := IdeOutSect (get_mem (kmem s) a 512) # io_log s\<rparr>"

section \<open>Status\<close>

definition test_stat :: "u8 \<Rightarrow> u8 \<Rightarrow> u8 \<Rightarrow> bool" where
  "test_stat stat good bad \<longleftrightarrow> stat AND (good OR bad) = good"

definition dump_stat :: "ides \<Rightarrow> ides" where
  "dump_stat s = (case GET_STAT s of (stat, s1) \<Rightarrow>
     if test_mask stat HD_STAT_ERR then snd (GET_ERR s1) else s1)"

text \<open>
  The part of \<open>wait_stat\<close> that polls the status: at most \<open>retries\<close> reads show a busy drive.
\<close>

primrec busy_loop :: "nat \<Rightarrow> ides \<Rightarrow> bool \<times> ides" where
  "busy_loop 0 s = (case GET_STAT s of (stat, s1) \<Rightarrow> (\<not> test_mask stat HD_STAT_BSY, s1))"
| "busy_loop (Suc n) s = (case GET_STAT s of (stat, s1) \<Rightarrow>
     if test_mask stat HD_STAT_BSY then busy_loop n s1 else (True, s1))"

definition poll_stat :: "u8 \<Rightarrow> u8 \<Rightarrow> nat \<Rightarrow> ides \<Rightarrow> bool \<times> ides" where
  "poll_stat good bad retries s =
     (case busy_loop (retries - 1) s of
        (False, s1) \<Rightarrow> (False, s1)
      | (True, s1) \<Rightarrow> (case GET_STAT s1 of (stat, s2) \<Rightarrow> (test_stat stat good bad, s2)))"

text \<open>
  \<open>handle_error\<close>; it always ends, \<open>None\<close> is a read through \<open>FAKE_REQ\<close>
  (\<open>handle_error_returns\<close>).  That address is current only while the interrupt of a
  recalibration is waited for, when nothing calls \<open>handle_error\<close>; in
  \<open>do_request\<close> below \<open>None\<close> is a call that does not return.
\<close>

definition handle_error :: "ides \<Rightarrow> ides option" where
  "handle_error s =
     (case current_req s of
        None \<Rightarrow> Some s
      | Some Fake_req \<Rightarrow> None
      | Some (Req r) \<Rightarrow>
          (let s1 = (dump_stat s)\<lparr>ide_intr := None\<rparr>;
               old = r_retries (requests s1 r);
               new = old + 1;
               s2 = req_upd r (\<lambda>q. q\<lparr>r_retries := new\<rparr>) s1;
               d = r_dev (requests s2 r)
           in if sint old < MAX_RETRIES
              then (let s3 = (if unat new mod RESET_FREQ = 0 then s2\<lparr>reset_pending := True\<rparr> else s2);
                        s4 = (if unat new mod RECAL_FREQ = 0 then dev_set d (\<lambda>v. v\<lparr>recalibrate := True\<rparr>) s3 else s3)
                    in Some (s4\<lparr>req_list := r # req_list s4, current_req := None\<rparr>))
              else end_request (-1) (dev_set d (\<lambda>v. v\<lparr>recalibrate := True\<rparr>) (s2\<lparr>reset_pending := True\<rparr>))))"

text \<open>\<open>wait_stat\<close> with a caller's name, over the driver's \<open>do_request(NULL)\<close>.\<close>

definition wait_stat_with ::
  "(ides \<Rightarrow> ides option) \<Rightarrow> u8 \<Rightarrow> u8 \<Rightarrow> nat \<Rightarrow> ides \<Rightarrow> (bool \<times> ides) option" where
  "wait_stat_with do_req good bad retries s =
     (case poll_stat good bad retries s of
        (True, s1) \<Rightarrow> Some (True, s1)
      | (False, s1) \<Rightarrow> Option.bind (handle_error s1) (\<lambda>s2. Option.bind (do_req s2) (\<lambda>s3. Some (False, s3))))"

section \<open>Recalibration and reset\<close>

definition recalibrate_drive_with :: "(ides \<Rightarrow> ides option) \<Rightarrow> nat \<Rightarrow> ides \<Rightarrow> ides option" where
  "recalibrate_drive_with do_req d s =
     Option.bind (wait_stat_with do_req HD_STAT_DRDY (HD_STAT_BSY OR HD_STAT_DRQ) 100000
         (ide_outb (ide_select (ide_devs s d)) HD_CURRENT s))
       (\<lambda>(ok, s1). if ok
          then Some (ide_outb HD_CMD_RECAL HD_COMMAND
                 ((dev_set d (\<lambda>v. v\<lparr>recalibrate := False\<rparr>)
                     ((ide_outb (ide_ctl (ide_devs s1 d)) HD_DEVCTRL s1)\<lparr>ide_intr := Some Recal_intr\<rparr>))
                    \<lparr>current_req := Some Fake_req\<rparr>))
          else Some s1)"

definition reset_controller :: "ides \<Rightarrow> ides" where
  "reset_controller s =
     (let s1 = s\<lparr>reset_pending := False, current_req := Some Fake_req\<rparr>;
          s2 = ide_outb (ide_ctl (ide_devs s1 0)) HD_DEVCTRL (ide_outb HD_SRST HD_DEVCTRL s1);
          (ok, s3) = poll_stat DRV_RDY_STAT HD_STAT_BSY 500000 s2;
          s4 = (if ok then s3 else dump_stat s3)
      in (snd (GET_ERR s4))\<lparr>current_req := None\<rparr>)"

section \<open>The queue\<close>

lemma wait_stat_with_mono [partial_function_mono]:
  assumes "\<And>t. mono_option (\<lambda>f. K f t)"
  shows "mono_option (\<lambda>f. wait_stat_with (K f) good bad retries s)"
proof (cases "poll_stat good bad retries s")
  case (Pair b t)
  then show ?thesis by (cases b) (auto simp: wait_stat_with_def intro!: bind_mono option.const_mono assms)
qed

lemma recalibrate_drive_with_mono [partial_function_mono]:
  assumes "\<And>t. mono_option (\<lambda>f. K f t)"
  shows "mono_option (\<lambda>f. recalibrate_drive_with (K f) d s)"
  unfolding recalibrate_drive_with_def split_def
  by (intro bind_mono wait_stat_with_mono assms option.const_mono)

definition enqueue_req :: "nat option \<Rightarrow> ides \<Rightarrow> ides" where
  "enqueue_req req s = (case req of None \<Rightarrow> s | Some r \<Rightarrow> s\<lparr>req_list := req_list s @ [r]\<rparr>)"

text \<open>The request to process next: the one given or the first of the queue.\<close>

definition next_req :: "nat option \<Rightarrow> ides \<Rightarrow> nat option \<times> ides" where
  "next_req req s = (case req of Some r \<Rightarrow> (Some r, s)
     | None \<Rightarrow> (case req_list s of [] \<Rightarrow> (None, s) | r # rs \<Rightarrow> (Some r, s\<lparr>req_list := rs\<rparr>)))"

text \<open>The sector's address for the drive.\<close>

definition req_track :: "nat \<Rightarrow> ides \<Rightarrow> u32" where
  "req_track r s = r_block (requests s r) div sectors (ide_devs s (r_dev (requests s r)))"

definition set_registers :: "nat \<Rightarrow> ides \<Rightarrow> ides" where
  "set_registers r s =
     (let q = requests s r; dev = ide_devs s (r_dev q); track = req_track r s;
          sect = r_block q mod sectors dev + 1; head = track mod heads dev; cyl = track div heads dev
      in ide_outb (ide_select dev OR ucast head) HD_CURRENT
           (ide_outb (ucast (drop_bit 8 cyl)) HD_HCYL
             (ide_outb (ucast cyl) HD_LCYL
               (ide_outb (ucast sect) HD_SECTOR
                 (ide_outb (ucast (r_nblocks q)) HD_NSECTOR
                   (ide_outb (ide_ctl dev) HD_DEVCTRL s))))))"

text \<open>The part of \<open>do_request\<close> that gives a request to the drive, over \<open>do_request(NULL)\<close>.\<close>

definition start_request_with :: "(ides \<Rightarrow> ides option) \<Rightarrow> nat \<Rightarrow> ides \<Rightarrow> ides option" where
  "start_request_with do_req r s =
     (let s3 = s\<lparr>current_req := Some (Req r)\<rparr>;
          dev = ide_devs s3 (r_dev (requests s3 r))
      in if r_block (requests s3 r) \<ge> hd_total dev
         then Option.bind (end_request (-1) s3) do_req
         else Option.bind (wait_stat_with do_req HD_STAT_DRDY (HD_STAT_BSY OR HD_STAT_DRQ) 100000
                 (ide_outb (ide_select dev) HD_CURRENT s3))
           (\<lambda>(ok, s4). if \<not> ok then Some s4
              else (let s5 = set_registers r s4; cmd = r_command (requests s5 r) in
                if cmd = ucast HD_CMD_READ
                then Some (ide_outb HD_CMD_READ HD_COMMAND (s5\<lparr>ide_intr := Some Read_intr\<rparr>))
                else if cmd = ucast HD_CMD_WRITE
                then Option.bind (wait_stat_with do_req HD_STAT_DRQ BAD_RW_STAT 100000
                       (ide_outb HD_CMD_WRITE HD_COMMAND (s5\<lparr>ide_intr := Some Write_intr\<rparr>)))
                     (\<lambda>(ok, s6). Some (if ok then OUT_SECT (r_buf (requests s6 r)) s6 else s6))
                else Option.bind (end_request (-1) s5) do_req)))"

lemma start_request_with_mono [partial_function_mono]:
  assumes "\<And>t. mono_option (\<lambda>f. K f t)"
  shows "mono_option (\<lambda>f. start_request_with (K f) r s)"
  unfolding start_request_with_def split_def Let_def
  by (intro if_mono bind_mono wait_stat_with_mono assms option.const_mono)

partial_function (option) do_request :: "nat option \<Rightarrow> ides \<Rightarrow> ides option" where
  "do_request req s =
     (if current_req s \<noteq> None then Some (enqueue_req req s)
      else (let s1 = (if reset_pending s then reset_controller s else s) in
        if recalibrate (ide_devs s1 0)
        then Option.bind (recalibrate_drive_with (do_request None) 0 s1) (\<lambda>s2. Some (enqueue_req req s2))
        else if recalibrate (ide_devs s1 1)
        then Option.bind (recalibrate_drive_with (do_request None) 1 s1) (\<lambda>s2. Some (enqueue_req req s2))
        else (case next_req req s1 of
            (None, s2) \<Rightarrow> Some s2
          | (Some r, s2) \<Rightarrow> start_request_with (do_request None) r s2)))"

definition wait_stat :: "u8 \<Rightarrow> u8 \<Rightarrow> nat \<Rightarrow> ides \<Rightarrow> (bool \<times> ides) option" where
  "wait_stat = wait_stat_with (do_request None)"

definition recalibrate_drive :: "nat \<Rightarrow> ides \<Rightarrow> ides option" where
  "recalibrate_drive = recalibrate_drive_with (do_request None)"

section \<open>Interrupts\<close>

text \<open>An error in a handler: \<open>handle_error\<close>, then \<open>do_request(NULL)\<close>.\<close>

definition retry_request :: "ides \<Rightarrow> ides option" where
  "retry_request s = Option.bind (handle_error s) (do_request None)"

definition finish_request :: "ides \<Rightarrow> ides option" where
  "finish_request s = Option.bind (end_request 0 s) (do_request None)"

text \<open>The request moves on to its next sector.\<close>

definition next_sector :: "nat \<Rightarrow> ides \<Rightarrow> ides" where
  "next_sector r s = req_upd r (\<lambda>q. q\<lparr>r_block := r_block q + 1, r_nblocks := r_nblocks q - 1,
     r_buf := r_buf q + 512, r_retries := 0\<rparr>) s"

definition read_intr :: "ides \<Rightarrow> ides option" where
  "read_intr s =
     (case current_req s of None \<Rightarrow> Some s
      | Some Fake_req \<Rightarrow> None
      | Some (Req r) \<Rightarrow>
          (case GET_STAT s of (stat, s1) \<Rightarrow>
             if \<not> test_stat stat DATA_RDY_STAT BAD_RW_STAT then retry_request s1
             else (let s2 = IN_SECT (r_buf (requests s1 r)) s1 in
               if sint (r_nblocks (requests s2 r)) > 1
               then Some ((next_sector r s2)\<lparr>ide_intr := Some Read_intr\<rparr>)
               else finish_request s2)))"

definition write_intr :: "ides \<Rightarrow> ides option" where
  "write_intr s =
     (case current_req s of None \<Rightarrow> Some s
      | Some Fake_req \<Rightarrow> None
      | Some (Req r) \<Rightarrow>
          (case GET_STAT s of (stat, s1) \<Rightarrow>
             if \<not> test_stat stat DRV_RDY_STAT BAD_RW_STAT then retry_request s1
             else if sint (r_nblocks (requests s1 r)) > 1
             then Option.bind (wait_stat HD_STAT_DRQ BAD_RW_STAT 100000 (next_sector r s1))
               (\<lambda>(ok, s2). Some (if ok then (OUT_SECT (r_buf (requests s2 r)) s2)\<lparr>ide_intr := Some Write_intr\<rparr> else s2))
             else finish_request s1))"

definition recal_intr :: "ides \<Rightarrow> ides option" where
  "recal_intr s = (case GET_STAT s of (stat, s1) \<Rightarrow> do_request None (dump_stat (s1\<lparr>current_req := None\<rparr>)))"

definition ide_int_handler :: "ides \<Rightarrow> ides option" where
  "ide_int_handler s =
     (let s1 = s\<lparr>ide_intr := None\<rparr> in
      case ide_intr s of None \<Rightarrow> Some s
      | Some Read_intr \<Rightarrow> read_intr s1
      | Some Write_intr \<Rightarrow> write_intr s1
      | Some Recal_intr \<Rightarrow> recal_intr s1)"

section \<open>Transfers\<close>

text \<open>
  \<open>ide_read_blocks\<close> and \<open>ide_write_blocks\<close> up to the wait for the request
  \<open>r\<close>, the structure on their stack, whose remaining fields are set by \<open>sync_request\<close>.
\<close>

definition ide_transfer :: "u8 \<Rightarrow> nat \<Rightarrow> nat \<Rightarrow> u32 \<Rightarrow> u32 \<Rightarrow> u32 \<Rightarrow> ides \<Rightarrow> ides option" where
  "ide_transfer cmd r dev buf block count s =
     sync_request_with do_request r
       (req_upd r (\<lambda>q. q\<lparr>r_buf := buf, r_command := ucast cmd, r_block := block, r_nblocks := count, r_dev := dev\<rparr>) s)"

definition ide_read_blocks :: "nat \<Rightarrow> nat \<Rightarrow> u32 \<Rightarrow> u32 \<Rightarrow> u32 \<Rightarrow> ides \<Rightarrow> ides option" where
  "ide_read_blocks = ide_transfer HD_CMD_READ"

definition ide_write_blocks :: "nat \<Rightarrow> nat \<Rightarrow> u32 \<Rightarrow> u32 \<Rightarrow> u32 \<Rightarrow> ides \<Rightarrow> ides option" where
  "ide_write_blocks = ide_transfer HD_CMD_WRITE"

text \<open>
  \<open>ide_init\<close>, when the interrupt has been allocated: \<open>disks\<close> are the heads,
  cylinders, sectors and drive options of the two disks in the boot cookie.  The result is also the list
  of devices that \<open>hd_add_dev\<close> is called for.
\<close>

definition ide_init_dev :: "(u32 \<times> u32 \<times> u32 \<times> u8) \<Rightarrow> nat \<Rightarrow> ides \<Rightarrow> bool \<times> ides" where
  "ide_init_dev disk i s =
     (case disk of (hds, cyls, sects, opts) \<Rightarrow>
      case poll_stat HD_STAT_DRDY HD_STAT_BSY 100000 (ide_outb (0xa0 OR push_bit 4 (of_nat i)) HD_CURRENT s) of
        (False, s1) \<Rightarrow> (False, s1)
      | (True, s1) \<Rightarrow> (True, dev_set i (\<lambda>v. v\<lparr>heads := hds, cylinders := cyls, sectors := sects,
          ide_ctl := (if opts > 8 then 8 else 0), ide_select := 0xa0 OR push_bit 4 (of_nat i),
          hd_total := hds * sects * cyls\<rparr>) s1))"

definition ide_init :: "(nat \<Rightarrow> u32 \<times> u32 \<times> u32 \<times> u8) \<Rightarrow> ides \<Rightarrow> nat list \<times> ides" where
  "ide_init disks s =
     (case ide_init_dev (disks 0) 0 (s\<lparr>req_list := []\<rparr>) of
        (ok0, s1) \<Rightarrow> (case ide_init_dev (disks 1) 1 s1 of
          (ok1, s2) \<Rightarrow> ((if ok0 then [0] else []) @ (if ok1 then [1] else []), s2)))"

end
