(* ===== verification/IdeDriverProps.thy ===== *)
theory IdeDriverProps
  imports IdeDriver
begin

text \<open>
  The IDE driver: no request is lost, a drive that answers delivers the sectors asked for, a
  drive that stays busy hangs the kernel.
\<close>

unbundle bit_operations_syntax

section \<open>What polling the status leaves alone\<close>

text \<open>Two states that differ in the log of port accesses only.\<close>

definition same_but_log :: "ides \<Rightarrow> ides \<Rightarrow> bool" where
  "same_but_log s t \<longleftrightarrow> (\<exists>l. t = s\<lparr>io_log := l\<rparr>)"

lemma same_refl [simp]: "same_but_log s s"
  unfolding same_but_log_def by (rule exI[of _ "io_log s"]) simp

lemma same_trans: "same_but_log s t \<Longrightarrow> same_but_log t u \<Longrightarrow> same_but_log s u"
  by (auto simp: same_but_log_def)

lemma same_inb: "same_but_log s t \<Longrightarrow> same_but_log s (snd (ide_inb p t))"
  by (auto simp: same_but_log_def ide_inb_def)

lemma same_outb: "same_but_log s t \<Longrightarrow> same_but_log s (ide_outb b p t)"
  by (auto simp: same_but_log_def ide_outb_def)

lemma same_busy_loop: "same_but_log s t \<Longrightarrow> same_but_log s (snd (busy_loop n t))"
proof (induction n arbitrary: t)
  case 0 then show ?case using same_inb[of s t HD_STATUS] by (simp add: GET_STAT_def split_def)
next
  case (Suc n)
  have "same_but_log s (snd (GET_STAT t))" using Suc.prems by (simp add: GET_STAT_def same_inb)
  then show ?case using Suc.IH[of "snd (GET_STAT t)"] by (simp add: split_def)
qed

lemma same_poll: "same_but_log s t \<Longrightarrow> same_but_log s (snd (poll_stat g b n t))"
proof -
  assume "same_but_log s t"
  then have b: "same_but_log s (snd (busy_loop (n - 1) t))" by (rule same_busy_loop)
  obtain ok u where u: "busy_loop (n - 1) t = (ok, u)" by fastforce
  have "same_but_log s (snd (GET_STAT u))" using b u by (simp add: GET_STAT_def same_inb)
  then show ?thesis using b u by (cases ok) (simp_all add: poll_stat_def split_def)
qed

lemma same_dump: "same_but_log s t \<Longrightarrow> same_but_log s (dump_stat t)"
proof -
  assume "same_but_log s t"
  then have "same_but_log s (snd (GET_STAT t))" by (simp add: GET_STAT_def same_inb)
  moreover from this have "same_but_log s (snd (GET_ERR (snd (GET_STAT t))))" by (simp add: GET_ERR_def same_inb)
  ultimately show ?thesis by (simp add: dump_stat_def split_def)
qed

lemma same_registers: "same_but_log s t \<Longrightarrow> same_but_log s (set_registers r t)"
  by (auto simp: set_registers_def Let_def intro!: same_outb)

lemmas same_intros = same_outb same_inb same_poll same_dump same_registers

lemma same_fields:
  assumes "same_but_log s t"
  shows "kmem t = kmem s" "requests t = requests s" "req_list t = req_list s" "current_req t = current_req s"
    "ide_devs t = ide_devs s" "ide_intr t = ide_intr s" "reset_pending t = reset_pending s" "io_in t = io_in s"
    "io_sect t = io_sect s"
  using assms by (auto simp: same_but_log_def)

lemma sect_fields [simp]:
  "requests (IN_SECT a s) = requests s" "req_list (IN_SECT a s) = req_list s" "current_req (IN_SECT a s) = current_req s"
  "ide_devs (IN_SECT a s) = ide_devs s" "ide_intr (IN_SECT a s) = ide_intr s" "io_in (IN_SECT a s) = io_in s"
  "reset_pending (IN_SECT a s) = reset_pending s" "io_log (IN_SECT a s) = IdeInSect # io_log s" "io_sect (IN_SECT a s) = io_sect s"
  "requests (OUT_SECT a s) = requests s" "req_list (OUT_SECT a s) = req_list s" "current_req (OUT_SECT a s) = current_req s"
  "ide_devs (OUT_SECT a s) = ide_devs s" "ide_intr (OUT_SECT a s) = ide_intr s" "io_in (OUT_SECT a s) = io_in s"
  "reset_pending (OUT_SECT a s) = reset_pending s"
  by (simp_all add: IN_SECT_def OUT_SECT_def)

lemma poll_fields:
  assumes "poll_stat g b n t = (ok, u)" shows "same_but_log t u"
  using same_poll[of t t g b n] assms by simp

text \<open>A reset leaves the driver's data as it was, but for the flag.\<close>

lemma reset_fields:
  "\<exists>l. reset_controller s = s\<lparr>reset_pending := False, current_req := None, io_log := l\<rparr>"
proof -
  let ?s1 = "s\<lparr>reset_pending := False, current_req := Some Fake_req\<rparr>"
  obtain ok t where t: "poll_stat DRV_RDY_STAT HD_STAT_BSY 500000
      (ide_outb (ide_ctl (ide_devs ?s1 0)) HD_DEVCTRL (ide_outb HD_SRST HD_DEVCTRL ?s1)) = (ok, t)" by fastforce
  have "same_but_log ?s1 (snd (poll_stat DRV_RDY_STAT HD_STAT_BSY 500000
      (ide_outb (ide_ctl (ide_devs ?s1 0)) HD_DEVCTRL (ide_outb HD_SRST HD_DEVCTRL ?s1))))"
    by (intro same_intros same_refl)
  then have "same_but_log ?s1 t" by (simp only: t snd_conv)
  then have "same_but_log ?s1 (snd (GET_ERR (if ok then t else dump_stat t)))"
    by (auto simp: GET_ERR_def intro!: same_intros)
  then obtain l where l: "snd (GET_ERR (if ok then t else dump_stat t)) = ?s1\<lparr>io_log := l\<rparr>"
    by (auto simp: same_but_log_def)
  have "reset_controller s = (snd (GET_ERR (if ok then t else dump_stat t)))\<lparr>current_req := None\<rparr>"
    unfolding reset_controller_def Let_def t prod.case ..
  then show ?thesis unfolding l by (intro exI[of _ l]) simp
qed

definition maybe_reset :: "ides \<Rightarrow> ides" where
  "maybe_reset s = (if reset_pending s then reset_controller s else s)"

lemma maybe_reset_fields:
  assumes "current_req s = None"
  shows "\<exists>l. maybe_reset s = s\<lparr>reset_pending := False, io_log := l\<rparr>"
proof (cases "reset_pending s")
  case True
  obtain l where "reset_controller s = s\<lparr>reset_pending := False, current_req := None, io_log := l\<rparr>"
    using reset_fields[of s] by auto
  then show ?thesis using True assms by (intro exI[of _ l]) (simp add: maybe_reset_def)
next
  case False
  then show ?thesis by (intro exI[of _ "io_log s"]) (simp add: maybe_reset_def)
qed

section \<open>No request is lost\<close>

text \<open>
  The requests the driver has: the one it works on and those in the queue.  \<open>waiting\<close>: the
  task of a request still sleeps; \<open>finished\<close>: it has been woken up with a result.
\<close>

definition members :: "ides \<Rightarrow> nat list" where
  "members s = (case current_req s of Some (Req r) \<Rightarrow> [r] | _ \<Rightarrow> []) @ req_list s"

definition waiting :: "ides \<Rightarrow> nat \<Rightarrow> bool" where
  "waiting s r \<longleftrightarrow> r_blocked (requests s r) \<and> \<not> r_completed (requests s r)"

definition finished :: "ides \<Rightarrow> nat \<Rightarrow> bool" where
  "finished s r \<longleftrightarrow> \<not> r_blocked (requests s r) \<and> r_completed (requests s r)"

definition intr_ok :: "ides \<Rightarrow> bool" where
  "intr_ok s \<longleftrightarrow> (current_req s = None \<longrightarrow> ide_intr s = None)
     \<and> (current_req s = Some Fake_req \<longrightarrow> ide_intr s = Some Recal_intr)
     \<and> (\<forall>r. current_req s = Some (Req r) \<longrightarrow> ide_intr s = Some Read_intr \<or> ide_intr s = Some Write_intr)"

definition settled :: "ides \<Rightarrow> bool" where
  "settled s \<longleftrightarrow> distinct (members s) \<and> (\<forall>r\<in>set (members s). waiting s r) \<and> intr_ok s
     \<and> (current_req s = None \<longrightarrow> req_list s = [])"

text \<open>A state in which \<open>do_request\<close> may start a request, and what it makes of it.\<close>

definition can_start :: "nat option \<Rightarrow> ides \<Rightarrow> bool" where
  "can_start req s \<longleftrightarrow> current_req s = None \<and> ide_intr s = None \<and> distinct (req_list s)
     \<and> (\<forall>r\<in>set (req_list s). waiting s r) \<and> (\<forall>r. req = Some r \<longrightarrow> r \<notin> set (req_list s) \<and> waiting s r)"

definition accounted :: "nat set \<Rightarrow> ides \<Rightarrow> ides \<Rightarrow> bool" where
  "accounted A s s' \<longleftrightarrow> set (members s') \<subseteq> A \<and> (\<forall>r\<in>A. r \<in> set (members s') \<or> finished s' r)
     \<and> (\<forall>r. r \<notin> A \<longrightarrow> requests s' r = requests s r)"

lemma accounted_step:
  assumes "accounted A s t" "accounted (set (members t)) t u"
  shows "accounted A s u"
proof -
  have "finished u r" if "finished t r" "r \<notin> set (members t)" for r
    using assms(2) that by (simp add: accounted_def finished_def)
  then show ?thesis using assms unfolding accounted_def by (metis subset_iff)
qed

definition any_recal :: "ides \<Rightarrow> bool" where
  "any_recal s \<longleftrightarrow> recalibrate (ide_devs s 0) \<or> recalibrate (ide_devs s 1)"

definition keeps :: "nat option \<Rightarrow> ides \<Rightarrow> ides \<Rightarrow> bool" where
  "keeps req s s' \<longleftrightarrow> (can_start req s \<longrightarrow> settled s' \<and> accounted (set_option req \<union> set (req_list s)) s s'
     \<and> (any_recal s \<longrightarrow> current_req s' \<noteq> None))"

lemma same_defs:
  assumes "same_but_log s t"
  shows "members t = members s" "waiting t = waiting s" "finished t = finished s" "intr_ok t = intr_ok s"
    "settled t = settled s" "can_start req t = can_start req s" "any_recal t = any_recal s"
    "accounted A s' t = accounted A s' s"
  by (simp_all add: members_def waiting_def finished_def intr_ok_def settled_def can_start_def any_recal_def
      accounted_def fun_eq_iff same_fields[OF assms])

text \<open>After an error the request is at the head of the queue again, or finished.\<close>

lemma handle_error_current:
  assumes "current_req s = Some (Req r)" "distinct (r # req_list s)" "\<forall>q\<in>set (r # req_list s). waiting s q"
    and "handle_error s = Some t"
  shows "can_start None t" "accounted (set (r # req_list s)) s t" "any_recal s \<Longrightarrow> any_recal t"
proof -
  obtain l where d: "dump_stat s = s\<lparr>io_log := l\<rparr>"
    using same_dump[OF same_refl, of s] by (auto simp: same_but_log_def)
  note defs = handle_error_def req_upd_def dev_set_def end_request_def can_start_def accounted_def members_def
    waiting_def finished_def any_recal_def
  show "can_start None t" using assms
    by (auto simp: defs d Let_def split: if_splits)
  show "accounted (set (r # req_list s)) s t" using assms
    by (auto simp: defs d Let_def split: if_splits)
  show "any_recal s \<Longrightarrow> any_recal t" using assms
    by (auto simp: defs d Let_def split: if_splits)
qed

lemma wait_stat_cases:
  assumes "wait_stat_with K g b n s = Some (ok, s')"
  obtains "ok" "same_but_log s s'"
  | t u where "\<not> ok" "same_but_log s t" "handle_error t = Some u" "K u = Some s'"
proof -
  obtain ok' t where t: "poll_stat g b n s = (ok', t)" by fastforce
  have "same_but_log s t" using poll_fields[OF t] .
  then show thesis using assms t that(1) that(2)[of t]
    by (cases ok') (auto simp: wait_stat_with_def bind_eq_Some_conv)
qed

lemma keeps_then:
  assumes "can_start None t" "accounted A s t" "keeps None t s'"
  shows "settled s'" "accounted A s s'" "any_recal t \<Longrightarrow> current_req s' \<noteq> None"
proof -
  have "set (members t) = set (req_list t)" using assms(1) by (simp add: can_start_def members_def)
  then have k: "settled s'" "accounted (set (members t)) t s'" "any_recal t \<Longrightarrow> current_req s' \<noteq> None"
    using assms(1,3) by (simp_all add: keeps_def)
  show "settled s'" "any_recal t \<Longrightarrow> current_req s' \<noteq> None" using k by simp_all
  show "accounted A s s'" using accounted_step[OF assms(2) k(2)] .
qed

text \<open>An error while a request is being started: it is dealt with by what comes next.\<close>

lemma error_then:
  assumes K: "\<And>t u. K t = Some u \<Longrightarrow> keeps None t u"
    and "current_req s = Some (Req r)" "distinct (r # req_list s)" "\<forall>q\<in>set (r # req_list s). waiting s q"
    and "same_but_log s t" "handle_error t = Some u" "K u = Some s'"
  shows "settled s'" "accounted (set (r # req_list s)) s s'" "any_recal s \<Longrightarrow> current_req s' \<noteq> None"
proof -
  note f = same_fields[OF assms(5)] same_defs[OF assms(5)]
  have t: "current_req t = Some (Req r)" "distinct (r # req_list t)" "\<forall>q\<in>set (r # req_list t). waiting t q"
    using assms(2-4) by (simp_all only: f)
  note h = handle_error_current[OF t assms(6)]
  have "accounted (set (r # req_list s)) s u" using h(2) by (simp add: accounted_def f)
  note k = keeps_then[OF h(1) this K[OF assms(7)]]
  show "settled s'" "accounted (set (r # req_list s)) s s'" using k by simp_all
  show "current_req s' \<noteq> None" if "any_recal s" using that k(3) h(3) by (simp add: f)
qed

lemma end_then:
  assumes K: "\<And>t u. K t = Some u \<Longrightarrow> keeps None t u"
    and "current_req s = Some (Req r)" "distinct (r # req_list s)" "\<forall>q\<in>set (r # req_list s). waiting s q"
    "ide_intr s = None" and "Option.bind (end_request rc s) K = Some s'"
  shows "settled s'" "accounted (set (r # req_list s)) s s'"
proof -
  obtain u where u: "end_request rc s = Some u" "K u = Some s'" using assms(6) by (auto simp: bind_eq_Some_conv)
  have "can_start None u" "accounted (set (r # req_list s)) s u" using u(1) assms(2-5)
    by (auto simp: end_request_def req_upd_def can_start_def accounted_def members_def waiting_def finished_def split: if_splits)
  from keeps_then[OF this K[OF u(2)]] show "settled s'" "accounted (set (r # req_list s)) s s'" by simp_all
qed

lemma working_on:
  assumes "current_req s = Some (Req r)" "distinct (r # req_list s)" "\<forall>q\<in>set (r # req_list s). waiting s q"
    "ide_intr s = Some Read_intr \<or> ide_intr s = Some Write_intr"
  shows "settled s" "accounted (set (r # req_list s)) t s \<longleftrightarrow> (\<forall>q. q \<notin> set (r # req_list s) \<longrightarrow> requests s q = requests t q)"
  using assms by (auto simp: settled_def members_def intr_ok_def accounted_def)

lemma start_request_keeps:
  assumes K: "\<And>t u. K t = Some u \<Longrightarrow> keeps None t u"
    and c: "current_req s = None" "distinct (r # req_list s)" "\<forall>q\<in>set (r # req_list s). waiting s q" "ide_intr s = None"
    and S: "start_request_with K r s = Some s'"
  shows "settled s' \<and> accounted (set (r # req_list s)) s s'"
proof -
  let ?s3 = "s\<lparr>current_req := Some (Req r)\<rparr>"
  let ?dev = "ide_devs ?s3 (r_dev (requests ?s3 r))"
  have w: "waiting ?s3 = waiting s" by (simp add: waiting_def fun_eq_iff)
  have a: "accounted A ?s3 = accounted A s" for A by (simp add: accounted_def fun_eq_iff)
  have s3: "current_req ?s3 = Some (Req r)" "distinct (r # req_list ?s3)" "\<forall>q\<in>set (r # req_list ?s3). waiting ?s3 q"
    "ide_intr ?s3 = None" using c by (simp_all add: w)
  show ?thesis
  proof (cases "r_block (requests ?s3 r) \<ge> hd_total ?dev")
    case True
    then have "Option.bind (end_request (-1) ?s3) K = Some s'" using S by (simp add: start_request_with_def Let_def)
    from end_then[of K, OF K s3 this] show ?thesis by (simp add: a)
  next
    case False
    let ?t = "ide_outb (ide_select ?dev) HD_CURRENT ?s3"
    have t: "same_but_log ?s3 ?t" by (intro same_intros same_refl)
    obtain ok s4 where ws: "wait_stat_with K HD_STAT_DRDY (HD_STAT_BSY OR HD_STAT_DRQ) 100000 ?t = Some (ok, s4)"
      and R: "(if \<not> ok then Some s4
              else (let s5 = set_registers r s4; cmd = r_command (requests s5 r) in
                if cmd = ucast HD_CMD_READ
                then Some (ide_outb HD_CMD_READ HD_COMMAND (s5\<lparr>ide_intr := Some Read_intr\<rparr>))
                else if cmd = ucast HD_CMD_WRITE
                then Option.bind (wait_stat_with K HD_STAT_DRQ BAD_RW_STAT 100000
                       (ide_outb HD_CMD_WRITE HD_COMMAND (s5\<lparr>ide_intr := Some Write_intr\<rparr>)))
                     (\<lambda>(ok, s6). Some (if ok then OUT_SECT (r_buf (requests s6 r)) s6 else s6))
                else Option.bind (end_request (-1) s5) K)) = Some s'"
      using S False by (auto simp: start_request_with_def Let_def bind_eq_Some_conv)
    from ws show ?thesis
    proof (cases rule: wait_stat_cases)
      case (2 u v)
      have "same_but_log ?s3 u" using same_trans[OF t 2(2)] .
      from error_then[of K, OF K s3(1-3) this 2(3,4)] R 2(1) show ?thesis by (simp add: a)
    next
      case 1
      let ?s5 = "set_registers r s4"
      have s5: "same_but_log ?s3 ?s5" by (intro same_registers same_trans[OF t 1(2)])
      note f = same_fields[OF s5] same_defs[OF s5]
      have q5: "current_req ?s5 = Some (Req r)" "distinct (r # req_list ?s5)" "\<forall>q\<in>set (r # req_list ?s5). waiting ?s5 q"
        "ide_intr ?s5 = None" using s3 by (simp_all only: f)
      have acc: "accounted (set (r # req_list s)) s x \<longleftrightarrow> accounted (set (r # req_list ?s5)) ?s5 x" for x
        by (simp add: accounted_def f)
      consider (rd) "r_command (requests ?s5 r) = ucast HD_CMD_READ"
        | (wr) "r_command (requests ?s5 r) \<noteq> ucast HD_CMD_READ" "r_command (requests ?s5 r) = ucast HD_CMD_WRITE"
        | (other) "r_command (requests ?s5 r) \<noteq> ucast HD_CMD_READ" "r_command (requests ?s5 r) \<noteq> ucast HD_CMD_WRITE"
        by blast
      then show ?thesis
      proof cases
        case rd
        then have s': "s' = ide_outb HD_CMD_READ HD_COMMAND (?s5\<lparr>ide_intr := Some Read_intr\<rparr>)"
          using R 1(1) by (simp add: Let_def)
        have "current_req s' = Some (Req r)" "distinct (r # req_list s')" "\<forall>q\<in>set (r # req_list s'). waiting s' q"
          "ide_intr s' = Some Read_intr \<or> ide_intr s' = Some Write_intr"
          using q5 by (simp_all add: s' ide_outb_def waiting_def)
        from working_on(1)[OF this] working_on(2)[OF this, of s] f show ?thesis by (simp add: s' ide_outb_def)
      next
        case wr
        let ?v = "ide_outb HD_CMD_WRITE HD_COMMAND (?s5\<lparr>ide_intr := Some Write_intr\<rparr>)"
        obtain ok6 s6 where w6: "wait_stat_with K HD_STAT_DRQ BAD_RW_STAT 100000 ?v = Some (ok6, s6)"
          and s': "s' = (if ok6 then OUT_SECT (r_buf (requests s6 r)) s6 else s6)"
          using R 1(1) wr by (auto simp: Let_def bind_eq_Some_conv)
        have v: "current_req ?v = Some (Req r)" "distinct (r # req_list ?v)" "\<forall>q\<in>set (r # req_list ?v). waiting ?v q"
          "ide_intr ?v = Some Read_intr \<or> ide_intr ?v = Some Write_intr"
          using q5 by (simp_all add: ide_outb_def waiting_def)
        have accv: "accounted (set (r # req_list ?v)) ?v x \<longleftrightarrow> accounted (set (r # req_list s)) s x" for x
          by (simp add: acc) (simp add: accounted_def ide_outb_def f)
        from w6 show ?thesis
        proof (cases rule: wait_stat_cases)
          case (2 x y)
          from error_then[of K, OF K v(1-3) 2(2-4)] s' 2(1) show ?thesis by (simp only: accv) simp
        next
          case w: 1
          then have "same_but_log ?v s'" unfolding s' OUT_SECT_def by (auto simp: same_but_log_def)
          note g = same_fields[OF this] same_defs[OF this]
          have q': "current_req s' = Some (Req r)" "distinct (r # req_list s')" "\<forall>q\<in>set (r # req_list s'). waiting s' q"
            "ide_intr s' = Some Read_intr \<or> ide_intr s' = Some Write_intr" using v by (simp_all only: g)
          from working_on(1)[OF q'] working_on(2)[OF q', of s] g(2,3) f show ?thesis
            by (simp add: ide_outb_def)
        qed
      next
        case other
        then have "Option.bind (end_request (-1) ?s5) K = Some s'" using R 1(1) by (simp add: Let_def)
        from end_then[of K, OF K q5 this] show ?thesis by (simp only: acc)
      qed
    qed
  qed
qed

lemma enqueue_keeps:
  assumes "settled t" "current_req t \<noteq> None" "accounted A s t" "\<And>r. req = Some r \<Longrightarrow> r \<notin> A \<and> waiting s r"
  shows "settled (enqueue_req req t) \<and> accounted (set_option req \<union> A) s (enqueue_req req t)"
proof (cases req)
  case None then show ?thesis using assms by (simp add: enqueue_req_def)
next
  case (Some r)
  then have r: "r \<notin> A" "waiting s r" using assms(4) by simp_all
  then have "r \<notin> set (members t)" "requests t r = requests s r" using assms(3) by (auto simp: accounted_def)
  moreover from this(2) have "waiting t r" using r(2) by (simp add: waiting_def)
  ultimately show ?thesis using assms(1-3) Some
    by (auto simp: settled_def accounted_def enqueue_req_def members_def intr_ok_def waiting_def finished_def)
qed

lemma recalibrate_keeps:
  assumes K: "\<And>t u. K t = Some u \<Longrightarrow> keeps None t u"
    and c: "can_start None s" "any_recal s" and R: "recalibrate_drive_with K d s = Some s'"
  shows "settled s' \<and> accounted (set (req_list s)) s s' \<and> current_req s' \<noteq> None"
proof -
  let ?t = "ide_outb (ide_select (ide_devs s d)) HD_CURRENT s"
  have t: "same_but_log s ?t" by (intro same_intros same_refl)
  obtain ok s1 where ws: "wait_stat_with K HD_STAT_DRDY (HD_STAT_BSY OR HD_STAT_DRQ) 100000 ?t = Some (ok, s1)"
    and s': "s' = (if ok
          then ide_outb HD_CMD_RECAL HD_COMMAND
                 ((dev_set d (\<lambda>v. v\<lparr>recalibrate := False\<rparr>)
                     ((ide_outb (ide_ctl (ide_devs s1 d)) HD_DEVCTRL s1)\<lparr>ide_intr := Some Recal_intr\<rparr>))
                    \<lparr>current_req := Some Fake_req\<rparr>)
          else s1)"
  proof -
    from R obtain p where p: "wait_stat_with K HD_STAT_DRDY (HD_STAT_BSY OR HD_STAT_DRQ) 100000 ?t = Some p"
      unfolding recalibrate_drive_with_def by (auto simp: bind_eq_Some_conv simp del: split_paired_Ex)
    then show thesis using that[of "fst p" "snd p"] R
      by (simp add: recalibrate_drive_with_def split_def split: if_splits)
  qed
  from ws show ?thesis
  proof (cases rule: wait_stat_cases)
    case 1
    note f = same_fields[OF same_trans[OF t 1(2)]]
    show ?thesis using c 1(1) f
      by (auto simp: s' ide_outb_def dev_set_def settled_def accounted_def can_start_def members_def intr_ok_def waiting_def)
  next
    case (2 u v)
    note f = same_fields[OF same_trans[OF t 2(2)]] same_defs[OF same_trans[OF t 2(2)]]
    have u: "can_start None u" "any_recal u" using c by (simp_all only: f)
    then have "v = u" using 2(3) by (simp add: handle_error_def can_start_def)
    then have k: "keeps None u s'" using K[OF 2(4)] s' 2(1) by simp
    have a: "accounted (set (req_list s)) s u"
      using u(1) by (simp add: accounted_def f) (simp add: can_start_def members_def f)
    from keeps_then[OF u(1) a k] u(2) show ?thesis by simp
  qed
qed

lemma do_request_keeps:
  assumes "do_request req s = Some s'" shows "keeps req s s'"
proof (rule do_request.raw_induct[where P = keeps, OF _ assms])
  fix dr req s s'
  assume 1: "\<And>req s s'. dr req s = Some s' \<Longrightarrow> keeps req s s'"
    "(if current_req s \<noteq> None then Some (enqueue_req req s)
      else (let s1 = (if reset_pending s then reset_controller s else s) in
        if recalibrate (ide_devs s1 0)
        then Option.bind (recalibrate_drive_with (dr None) 0 s1) (\<lambda>s2. Some (enqueue_req req s2))
        else if recalibrate (ide_devs s1 1)
        then Option.bind (recalibrate_drive_with (dr None) 1 s1) (\<lambda>s2. Some (enqueue_req req s2))
        else (case next_req req s1 of
            (None, s2) \<Rightarrow> Some s2
          | (Some r, s2) \<Rightarrow> start_request_with (dr None) r s2))) = Some s'"
  have K: "keeps None t u" if "dr None t = Some u" for t u using 1(1)[OF that] .
  show "keeps req s s'" unfolding keeps_def
  proof (intro impI)
    assume c: "can_start req s"
    define s1 where "s1 = maybe_reset s"
    have cur: "current_req s = None" using c by (simp add: can_start_def)
    obtain l where l: "s1 = s\<lparr>reset_pending := False, io_log := l\<rparr>"
      using maybe_reset_fields[OF cur] by (auto simp: s1_def)
    have e: "can_start req s1" "any_recal s1 = any_recal s" "req_list s1 = req_list s" "requests s1 = requests s"
      using c by (simp_all add: l can_start_def any_recal_def waiting_def)
    have acc: "accounted A s x \<longleftrightarrow> accounted A s1 x" for A x by (simp add: accounted_def e)
    have cn: "can_start None s1" using e(1) by (simp add: can_start_def)
    have en: "settled x \<and> accounted (set (req_list s)) s x \<and> current_req x \<noteq> None \<Longrightarrow> s' = enqueue_req req x \<Longrightarrow>
        settled s' \<and> accounted (set_option req \<union> set (req_list s)) s s' \<and> (any_recal s \<longrightarrow> current_req s' \<noteq> None)" for x
      using enqueue_keeps[of x "set (req_list s)" s req] c
      by (auto simp: can_start_def enqueue_req_def split: option.splits)
    have D: "(if recalibrate (ide_devs s1 0)
        then Option.bind (recalibrate_drive_with (dr None) 0 s1) (\<lambda>s2. Some (enqueue_req req s2))
        else if recalibrate (ide_devs s1 1)
        then Option.bind (recalibrate_drive_with (dr None) 1 s1) (\<lambda>s2. Some (enqueue_req req s2))
        else (case next_req req s1 of
            (None, s2) \<Rightarrow> Some s2
          | (Some r, s2) \<Rightarrow> start_request_with (dr None) r s2)) = Some s'"
      using 1(2) unfolding cur s1_def maybe_reset_def Let_def by (simp only: simp_thms if_False)
    consider (recal) d x where "any_recal s1" "recalibrate_drive_with (dr None) d s1 = Some x" "s' = enqueue_req req x"
      | (nothing) "\<not> any_recal s1" "req = None" "req_list s1 = []" "s' = s1"
      | (start) r rs s2 where "\<not> any_recal s1" "set (r # rs) = set_option req \<union> set (req_list s1)" "s2 = s1\<lparr>req_list := rs\<rparr>"
          "distinct (r # rs)" "start_request_with (dr None) r s2 = Some s'"
    proof -
      show thesis
      proof (cases "any_recal s1")
        case True
        then show thesis using D that(1) by (auto simp: any_recal_def bind_eq_Some_conv split: if_splits)
      next
        case False
        then have N: "(case next_req req s1 of (None, s2) \<Rightarrow> Some s2 | (Some r, s2) \<Rightarrow> start_request_with (dr None) r s2) = Some s'"
          using D by (simp add: any_recal_def)
        show thesis
        proof (cases req)
          case (Some r)
          then show thesis using that(3)[of r "req_list s1" s1] False N e(1)
            by (auto simp: next_req_def can_start_def)
        next
          case None
          show thesis
          proof (cases "req_list s1")
            case Nil then show thesis using that(2) None False N by (auto simp: next_req_def)
          next
            case (Cons r rs)
            then show thesis using that(3)[of r rs "s1\<lparr>req_list := rs\<rparr>"] None False N e(1)
              by (auto simp: next_req_def can_start_def)
          qed
        qed
      qed
    qed
    then show "settled s' \<and> accounted (set_option req \<union> set (req_list s)) s s' \<and> (any_recal s \<longrightarrow> current_req s' \<noteq> None)"
    proof cases
      case recal
      from recalibrate_keeps[of "dr None", OF K cn recal(1,2)]
      have "settled x \<and> accounted (set (req_list s)) s x \<and> current_req x \<noteq> None" by (simp add: acc e)
      then show ?thesis using recal(3) by (rule en)
    next
      case nothing
      then show ?thesis using e(1,2)
        by (auto simp: settled_def members_def accounted_def can_start_def intr_ok_def e)
    next
      case start
      have w: "\<forall>q\<in>set (r # req_list s2). waiting s2 q"
      proof
        fix q assume "q \<in> set (r # req_list s2)"
        then have "q \<in> set (r # rs)" using start(3) by simp
        then have "q \<in> set_option req \<union> set (req_list s1)" by (simp only: start(2))
        then have "waiting s1 q" using e(1) by (auto simp: can_start_def)
        then show "waiting s2 q" by (simp add: waiting_def start(3))
      qed
      have s2: "current_req s2 = None" "distinct (r # req_list s2)" "ide_intr s2 = None"
        using e(1) start(3,4) by (simp_all add: can_start_def)
      from start_request_keeps[of "dr None", OF K s2(1,2) w s2(3) start(5)]
      have "settled s'" "accounted (set (r # rs)) s s'" by (simp_all add: start(3) accounted_def e)
      then show ?thesis using start(1,2) e by simp
    qed
  qed
qed

text \<open>The interrupt handlers and the calls of the tasks.\<close>

lemma settled_current:
  assumes "settled s" "current_req s = Some (Req r)"
  shows "distinct (r # req_list s)" "\<forall>q\<in>set (r # req_list s). waiting s q" "set (members s) = set (r # req_list s)"
  using assms by (simp_all add: settled_def members_def)

lemma do_request_K: "do_request None t = Some u \<Longrightarrow> keeps None t u"
  by (rule do_request_keeps)

lemma retry_keeps:
  assumes "current_req s = Some (Req r)" "distinct (r # req_list s)" "\<forall>q\<in>set (r # req_list s). waiting s q"
    and "retry_request s = Some s'"
  shows "settled s' \<and> accounted (set (r # req_list s)) s s'"
proof -
  obtain u where "handle_error s = Some u" "do_request None u = Some s'"
    using assms(4) by (auto simp: retry_request_def bind_eq_Some_conv)
  from error_then[of "do_request None", OF do_request_K assms(1-3) same_refl this] show ?thesis by simp
qed

lemma finish_keeps:
  assumes "current_req s = Some (Req r)" "distinct (r # req_list s)" "\<forall>q\<in>set (r # req_list s). waiting s q"
    "ide_intr s = None" and "finish_request s = Some s'"
  shows "settled s' \<and> accounted (set (r # req_list s)) s s'"
  using end_then[of "do_request None", OF do_request_K assms(1-4), of 0 s'] assms(5) by (simp add: finish_request_def)

lemma read_intr_keeps:
  assumes c: "current_req s = Some (Req r)" "distinct (r # req_list s)" "\<forall>q\<in>set (r # req_list s). waiting s q"
    "ide_intr s = None" and R: "read_intr s = Some s'"
  shows "settled s' \<and> accounted (set (r # req_list s)) s s'"
proof -
  obtain stat s1 where g: "GET_STAT s = (stat, s1)" by fastforce
  have "same_but_log s s1" using same_inb[OF same_refl, of s HD_STATUS] g by (simp add: GET_STAT_def)
  note f = same_fields[OF this] same_defs[OF this]
  have s1: "current_req s1 = Some (Req r)" "distinct (r # req_list s1)" "\<forall>q\<in>set (r # req_list s1). waiting s1 q"
    "ide_intr s1 = None" using c by (simp_all only: f)
  have a: "accounted (set (r # req_list s)) s x \<longleftrightarrow> accounted (set (r # req_list s1)) s1 x" for x
    by (simp add: accounted_def f)
  let ?s2 = "IN_SECT (r_buf (requests s1 r)) s1"
  have s2: "current_req ?s2 = Some (Req r)" "distinct (r # req_list ?s2)" "\<forall>q\<in>set (r # req_list ?s2). waiting ?s2 q"
    "ide_intr ?s2 = None" using s1 by (simp_all add: waiting_def)
  have a2: "accounted (set (r # req_list s)) s x \<longleftrightarrow> accounted (set (r # req_list ?s2)) ?s2 x" for x
    unfolding a by (simp add: accounted_def)
  consider (err) "\<not> test_stat stat DATA_RDY_STAT BAD_RW_STAT" "retry_request s1 = Some s'"
    | (more) "s' = (next_sector r ?s2)\<lparr>ide_intr := Some Read_intr\<rparr>" | (last) "finish_request ?s2 = Some s'"
  proof -
    have "(if \<not> test_stat stat DATA_RDY_STAT BAD_RW_STAT then retry_request s1
        else if sint (r_nblocks (requests ?s2 r)) > 1 then Some ((next_sector r ?s2)\<lparr>ide_intr := Some Read_intr\<rparr>)
        else finish_request ?s2) = Some s'"
      using R unfolding read_intr_def c(1) g Let_def by (simp only: option.case req_ptr.case prod.case)
    then show thesis
      by (metis that option.inject)
  qed
  then show ?thesis
  proof cases
    case err then show ?thesis using retry_keeps[OF s1(1-3)] by (simp only: a)
  next
    case last then show ?thesis using finish_keeps[OF s2] by (simp only: a2)
  next
    case more
    have m: "current_req s' = Some (Req r)" "distinct (r # req_list s')" "\<forall>q\<in>set (r # req_list s'). waiting s' q"
      "ide_intr s' = Some Read_intr \<or> ide_intr s' = Some Write_intr"
      using s2 by (auto simp: more next_sector_def req_upd_def waiting_def)
    from working_on(1)[OF m] working_on(2)[OF m, of s] show ?thesis
      by (simp add: more next_sector_def req_upd_def f)
  qed
qed

lemma write_intr_keeps:
  assumes c: "current_req s = Some (Req r)" "distinct (r # req_list s)" "\<forall>q\<in>set (r # req_list s). waiting s q"
    "ide_intr s = None" and R: "write_intr s = Some s'"
  shows "settled s' \<and> accounted (set (r # req_list s)) s s'"
proof -
  obtain stat s1 where g: "GET_STAT s = (stat, s1)" by fastforce
  have "same_but_log s s1" using same_inb[OF same_refl, of s HD_STATUS] g by (simp add: GET_STAT_def)
  note f = same_fields[OF this] same_defs[OF this]
  have s1: "current_req s1 = Some (Req r)" "distinct (r # req_list s1)" "\<forall>q\<in>set (r # req_list s1). waiting s1 q"
    "ide_intr s1 = None" using c by (simp_all only: f)
  have a: "accounted (set (r # req_list s)) s x \<longleftrightarrow> accounted (set (r # req_list s1)) s1 x" for x
    by (simp add: accounted_def f)
  let ?s2 = "next_sector r s1"
  have s2: "current_req ?s2 = Some (Req r)" "distinct (r # req_list ?s2)" "\<forall>q\<in>set (r # req_list ?s2). waiting ?s2 q"
    using s1 by (auto simp: next_sector_def req_upd_def waiting_def)
  have a2: "accounted (set (r # req_list ?s2)) ?s2 x \<Longrightarrow> accounted (set (r # req_list s)) s x" for x
    unfolding a by (auto simp: accounted_def next_sector_def req_upd_def)
  consider (err) "retry_request s1 = Some s'" | (last) "finish_request s1 = Some s'"
    | (more) ok t where "wait_stat HD_STAT_DRQ BAD_RW_STAT 100000 ?s2 = Some (ok, t)"
        "s' = (if ok then (OUT_SECT (r_buf (requests t r)) t)\<lparr>ide_intr := Some Write_intr\<rparr> else t)"
  proof -
    define W where "W = wait_stat HD_STAT_DRQ BAD_RW_STAT 100000 ?s2"
    have "(if \<not> test_stat stat DRV_RDY_STAT BAD_RW_STAT then retry_request s1
        else if sint (r_nblocks (requests s1 r)) > 1
        then Option.bind W (\<lambda>(ok, s2). Some (if ok then (OUT_SECT (r_buf (requests s2 r)) s2)\<lparr>ide_intr := Some Write_intr\<rparr> else s2))
        else finish_request s1) = Some s'"
      using R unfolding write_intr_def c(1) g W_def by (simp only: option.case req_ptr.case prod.case)
    then show thesis using that(1,2) that(3)[of "fst (the W)" "snd (the W)"] unfolding W_def[symmetric]
      by (cases W) (auto simp: split_def split: if_splits)
  qed
  then show ?thesis
  proof cases
    case err then show ?thesis using retry_keeps[OF s1(1-3)] by (simp only: a)
  next
    case last then show ?thesis using finish_keeps[OF s1] by (simp only: a)
  next
    case more
    from more(1)[unfolded wait_stat_def] show ?thesis
    proof (cases rule: wait_stat_cases)
      case (2 x y)
      from error_then[of "do_request None", OF do_request_K s2 2(2-4)] more(2) 2(1) a2[of s'] show ?thesis by simp
    next
      case 1
      note h = same_fields[OF 1(2)] same_defs[OF 1(2)]
      have m: "current_req s' = Some (Req r)" "distinct (r # req_list s')" "\<forall>q\<in>set (r # req_list s'). waiting s' q"
        "ide_intr s' = Some Read_intr \<or> ide_intr s' = Some Write_intr"
        using s2 h 1(1) by (simp_all add: more(2) waiting_def)
      from working_on(1)[OF m] working_on(2)[OF m, of s] show ?thesis
        using 1(1) by (simp add: more(2) h) (simp add: next_sector_def req_upd_def f)
    qed
  qed
qed

lemma int_handler_keeps:
  assumes s: "settled s" and R: "ide_int_handler s = Some s'"
  shows "settled s' \<and> accounted (set (members s)) s s'"
proof (cases "ide_intr s")
  case None
  then show ?thesis using assms by (simp add: ide_int_handler_def accounted_def)
next
  case (Some h)
  let ?s1 = "s\<lparr>ide_intr := None\<rparr>"
  have a: "accounted A s x \<longleftrightarrow> accounted A ?s1 x" for A x by (simp add: accounted_def)
  consider (rw) r where "current_req s = Some (Req r)" "h = Read_intr \<or> h = Write_intr"
    | (rc) "current_req s = Some Fake_req" "h = Recal_intr"
    using s Some by (cases "current_req s"; cases "the (current_req s)") (auto simp: settled_def intr_ok_def)
  then show ?thesis
  proof cases
    case rw
    note m = settled_current[OF s rw(1)]
    have c: "current_req ?s1 = Some (Req r)" "distinct (r # req_list ?s1)" "\<forall>q\<in>set (r # req_list ?s1). waiting ?s1 q"
      "ide_intr ?s1 = None" using rw(1) m(1,2) by (simp_all add: waiting_def)
    have "settled s' \<and> accounted (set (r # req_list ?s1)) ?s1 s'"
      using read_intr_keeps[OF c] write_intr_keeps[OF c] rw(2) R Some by (auto simp: ide_int_handler_def)
    then show ?thesis unfolding a m(3) by simp
  next
    case rc
    obtain stat t where g: "GET_STAT ?s1 = (stat, t)" by fastforce
    have "same_but_log ?s1 t" using same_inb[OF same_refl, of ?s1 HD_STATUS] g by (simp add: GET_STAT_def)
    note f = same_fields[OF this]
    let ?u = "dump_stat (t\<lparr>current_req := None\<rparr>)"
    have u: "same_but_log (t\<lparr>current_req := None\<rparr>) ?u" by (intro same_intros same_refl)
    note h = same_fields[OF u]
    have "can_start None ?u" using s rc(1)
      by (simp add: can_start_def h f settled_def members_def waiting_def)
    moreover have "do_request None ?u = Some s'" using R Some rc g by (simp add: ide_int_handler_def recal_intr_def)
    ultimately show ?thesis using do_request_keeps[of None ?u s'] rc(1)
      by (simp add: keeps_def h f accounted_def members_def)
  qed
qed

lemma transfer_keeps:
  assumes s: "settled s" and r: "r \<notin> set (members s)" and R: "ide_transfer cmd r dev buf block n s = Some s'"
  shows "settled s' \<and> accounted (insert r (set (members s))) s s'"
proof -
  define t where "t = req_upd r (\<lambda>q. q\<lparr>r_blocked := True, r_completed := False, r_retries := 0\<rparr>)
    (req_upd r (\<lambda>q. q\<lparr>r_buf := buf, r_command := ucast cmd, r_block := block, r_nblocks := n, r_dev := dev\<rparr>) s)"
  have D: "do_request (Some r) t = Some s'" using R by (simp add: ide_transfer_def sync_request_with_def t_def)
  have f: "members t = members s" "current_req t = current_req s" "ide_intr t = ide_intr s" "req_list t = req_list s"
    "waiting t r" "q \<noteq> r \<Longrightarrow> requests t q = requests s q" for q
    by (simp_all add: t_def req_upd_def members_def waiting_def)
  have w: "waiting t q" if "q \<in> set (members s)" for q
    using s r that f(6)[of q] by (cases "q = r") (auto simp: settled_def waiting_def)
  have t: "settled t" using s w by (simp add: settled_def f(1-4) intr_ok_def)
  have fin: "accounted (insert r (set (members s))) t s' \<Longrightarrow> accounted (insert r (set (members s))) s s'"
    by (simp add: accounted_def f(6))
  show ?thesis
  proof (cases "current_req s")
    case None
    then have m: "req_list s = []" "members s = []" using s by (simp_all add: settled_def members_def)
    have "can_start (Some r) t" using None m t f by (simp add: can_start_def settled_def intr_ok_def)
    then show ?thesis using do_request_keeps[OF D] fin m by (simp add: keeps_def f)
  next
    case (Some c)
    then have "s' = enqueue_req (Some r) t" using D f(2) by (simp add: do_request.simps)
    moreover have "accounted (set (members s)) t t" by (simp add: accounted_def f)
    ultimately show ?thesis using enqueue_keeps[OF t, of "set (members s)" t "Some r"] Some f(2,5) r fin by simp
  qed
qed

text \<open>
  The driver over time.  \<open>ide_run s A\<close>: the state \<open>s\<close> is reached by calls of tasks
  and interrupts in any order, on any hardware; \<open>A\<close> are the requests whose tasks still wait.
\<close>

inductive ide_run :: "ides \<Rightarrow> nat set \<Rightarrow> bool" where
  start: "req_list s = [] \<Longrightarrow> current_req s = None \<Longrightarrow> ide_intr s = None \<Longrightarrow> ide_run s {}"
| transfer: "ide_run s A \<Longrightarrow> r \<notin> A \<Longrightarrow> ide_transfer cmd r dev buf block n s = Some s' \<Longrightarrow>
    ide_run s' {q \<in> insert r A. r_blocked (requests s' q)}"
| interrupt: "ide_run s A \<Longrightarrow> ide_int_handler s = Some s' \<Longrightarrow> ide_run s' {q \<in> A. r_blocked (requests s' q)}"

lemma accounted_waiting:
  assumes "settled s'" "accounted A s s'"
  shows "{q \<in> A. r_blocked (requests s' q)} = set (members s')"
  using assms by (auto simp: settled_def accounted_def waiting_def finished_def)

lemma ide_run_settled: "ide_run s A \<Longrightarrow> settled s \<and> A = set (members s)"
proof (induction rule: ide_run.induct)
  case (start s)
  then show ?case by (simp add: settled_def members_def intr_ok_def)
next
  case (transfer s A r cmd dev buf block n s')
  then show ?case using transfer_keeps[of s r cmd dev buf block n s'] accounted_waiting by metis
next
  case (interrupt s A s')
  then show ?case using int_handler_keeps[of s s'] accounted_waiting by metis
qed

text \<open>
  C6: Whatever the hardware answers and in whatever order tasks call the driver and interrupts
  arrive, the requests that tasks still wait for are exactly the one in progress and those in the
  queue, each once, and the driver is never idle while one is waiting: a request in progress awaits an
  interrupt that moves it on, a recalibration awaits its own, and otherwise the queue is empty.
\<close>

theorem ide_requests_conserved:
  assumes "ide_run s A"
  shows "A = {r. current_req s = Some (Req r)} \<union> set (req_list s) \<and> distinct (req_list s)
    \<and> (\<forall>r. current_req s = Some (Req r) \<longrightarrow> r \<notin> set (req_list s) \<and> ide_intr s \<in> {Some Read_intr, Some Write_intr})
    \<and> (current_req s = Some Fake_req \<longrightarrow> ide_intr s = Some Recal_intr)
    \<and> (current_req s = None \<longrightarrow> req_list s = [] \<and> ide_intr s = None)"
  using ide_run_settled[OF assms]
  by (cases "current_req s"; cases "the (current_req s)") (auto simp: settled_def members_def intr_ok_def)

section \<open>A drive that stays busy\<close>

text \<open>The status register shows a busy drive whenever it is read.\<close>

definition always_busy :: "ides \<Rightarrow> bool" where
  "always_busy s \<longleftrightarrow> (\<forall>l. test_mask (io_in s l HD_STATUS) HD_STAT_BSY)"

lemma busy_loop_busy: "always_busy s \<Longrightarrow> \<exists>t. busy_loop n s = (False, t)"
proof (induction n arbitrary: s)
  case 0 then show ?case by (simp add: GET_STAT_def ide_inb_def always_busy_def)
next
  case (Suc n)
  have "always_busy (s\<lparr>io_log := IdeIn HD_STATUS # io_log s\<rparr>)" using Suc.prems by (simp add: always_busy_def)
  from Suc.IH[OF this] show ?case using Suc.prems by (simp add: GET_STAT_def ide_inb_def always_busy_def)
qed

lemma wait_stat_busy:
  assumes "always_busy s" "wait_stat_with K g b n s = Some (ok, s')"
  shows "\<exists>t u. same_but_log s t \<and> handle_error t = Some u \<and> K u = Some s'"
  using assms(2)
proof (cases rule: wait_stat_cases)
  case 1
  obtain t where "busy_loop (n - 1) s = (False, t)" using busy_loop_busy[OF assms(1), of "n - 1"] by auto
  then have "poll_stat g b n s = (False, t)" by (simp add: poll_stat_def)
  then show ?thesis using assms(2) 1(1) by (auto simp: wait_stat_with_def bind_eq_Some_conv)
next
  case (2 t u) then show ?thesis by auto
qed

definition devs_ok :: "ides \<Rightarrow> bool" where
  "devs_ok s \<longleftrightarrow> (\<forall>r. r_dev (requests s r) < 2)"

definition block_exists :: "ides \<Rightarrow> nat \<Rightarrow> bool" where
  "block_exists s r \<longleftrightarrow> r_block (requests s r) < hd_total (ide_devs s (r_dev (requests s r)))"

text \<open>
  What \<open>do_request\<close> returns from with such a drive: nothing to recalibrate and no request for
  a block the disk has.
\<close>

definition only_trivial :: "nat option \<Rightarrow> ides \<Rightarrow> bool" where
  "only_trivial req s \<longleftrightarrow> (always_busy s \<longrightarrow> devs_ok s \<longrightarrow> current_req s = None \<longrightarrow>
     \<not> any_recal s \<and> (\<forall>r \<in> set_option req \<union> set (req_list s). \<not> block_exists s r))"

lemma same_busy:
  assumes "same_but_log s t"
  shows "always_busy t = always_busy s" "devs_ok t = devs_ok s" "block_exists t = block_exists s"
  by (simp_all add: always_busy_def devs_ok_def block_exists_def fun_eq_iff same_fields[OF assms])

text \<open>
  An error leaves the request in the queue or asks for a recalibration, so that there is no way out.
\<close>

lemma error_is_endless:
  assumes K: "\<And>t u. K t = Some u \<Longrightarrow> only_trivial None t"
    and s: "always_busy s" "devs_ok s" "current_req s = Some (Req r)" "block_exists s r" and "handle_error s = Some t"
  shows "K t = None"
proof (rule ccontr)
  assume "K t \<noteq> None"
  then have triv: "only_trivial None t" using K by auto
  obtain l where d: "dump_stat s = s\<lparr>io_log := l\<rparr>"
    using same_dump[OF same_refl, of s] by (auto simp: same_but_log_def)
  note defs = handle_error_def req_upd_def dev_set_def end_request_def
  have dev: "r_dev (requests s r) = 0 \<or> r_dev (requests s r) = 1" using s(2) unfolding devs_ok_def
    by (metis less_2_cases One_nat_def)
  have b: "always_busy t" "devs_ok t" "current_req t = None" using s assms(6)
    by (auto simp: defs d Let_def always_busy_def devs_ok_def split: if_splits)
  show False
  proof (cases "sint (r_retries (requests s r)) < MAX_RETRIES")
    case True
    then have "r \<in> set (req_list t)" "block_exists t r" using s(3,4) assms(6)
      by (auto simp: defs d Let_def block_exists_def split: if_splits)
    then show False using triv b by (auto simp: only_trivial_def)
  next
    case False
    then have "any_recal t" using s(3) assms(6) dev by (auto simp: defs d Let_def any_recal_def split: if_splits)
    then show False using triv b by (auto simp: only_trivial_def)
  qed
qed

lemma start_busy:
  assumes K: "\<And>t u. K t = Some u \<Longrightarrow> only_trivial None t"
    and s: "always_busy s" "devs_ok s" "start_request_with K r s = Some s'"
  shows "\<not> block_exists s r \<and> (\<not> any_recal s \<longrightarrow> (\<forall>q\<in>set (req_list s). \<not> block_exists s q))"
proof (cases "block_exists s r")
  case False
  let ?s3 = "s\<lparr>current_req := Some (Req r)\<rparr>"
  have "Option.bind (end_request (-1) ?s3) K = Some s'"
    using s(3) False by (simp add: start_request_with_def Let_def block_exists_def not_less)
  then obtain u where u: "end_request (-1) ?s3 = Some u" "K u = Some s'" by (auto simp: bind_eq_Some_conv)
  have f: "always_busy u" "devs_ok u" "current_req u = None" "req_list u = req_list s" "block_exists u = block_exists s"
    using s u(1) by (auto simp: end_request_def req_upd_def always_busy_def devs_ok_def block_exists_def fun_eq_iff split: if_splits)
  then show ?thesis using K[OF u(2)] False by (simp add: only_trivial_def)
next
  case True
  let ?s3 = "s\<lparr>current_req := Some (Req r)\<rparr>"
  let ?t = "ide_outb (ide_select (ide_devs ?s3 (r_dev (requests ?s3 r)))) HD_CURRENT ?s3"
  have t: "same_but_log ?s3 ?t" by (intro same_intros same_refl)
  have b: "always_busy ?s3" "devs_ok ?s3" "block_exists ?s3 r" "current_req ?s3 = Some (Req r)"
    using s True by (simp_all add: always_busy_def devs_ok_def block_exists_def)
  have "wait_stat_with K HD_STAT_DRDY (HD_STAT_BSY OR HD_STAT_DRQ) 100000 ?t \<noteq> None"
  proof
    assume "wait_stat_with K HD_STAT_DRDY (HD_STAT_BSY OR HD_STAT_DRQ) 100000 ?t = None"
    then have "start_request_with K r s = None"
      using True by (auto simp: start_request_with_def Let_def block_exists_def dest: leD)
    then show False using s(3) by simp
  qed
  then obtain ok s4 where "wait_stat_with K HD_STAT_DRDY (HD_STAT_BSY OR HD_STAT_DRQ) 100000 ?t = Some (ok, s4)" by auto
  moreover have "always_busy ?t" using b(1) same_busy(1)[OF t] by simp
  ultimately obtain x y where x: "same_but_log ?t x" "handle_error x = Some y" "K y = Some s4"
    using wait_stat_busy[of ?t K] by blast
  note g = same_trans[OF t x(1)]
  have z: "always_busy x" "devs_ok x" "current_req x = Some (Req r)" "block_exists x r"
    using b by (simp_all add: same_busy[OF g] same_fields[OF g])
  have "K y = None" by (rule error_is_endless[OF _ z x(2)]) (erule K)
  then show ?thesis using x(3) by simp
qed

lemma recalibrate_busy:
  assumes K: "\<And>t u. K t = Some u \<Longrightarrow> only_trivial None t"
    and s: "always_busy s" "devs_ok s" "current_req s = None" "any_recal s"
  shows "recalibrate_drive_with K d s = None"
proof (rule ccontr)
  let ?t = "ide_outb (ide_select (ide_devs s d)) HD_CURRENT s"
  have t: "same_but_log s ?t" by (intro same_intros same_refl)
  assume "recalibrate_drive_with K d s \<noteq> None"
  then have "wait_stat_with K HD_STAT_DRDY (HD_STAT_BSY OR HD_STAT_DRQ) 100000 ?t \<noteq> None"
    unfolding recalibrate_drive_with_def by (metis bind.bind_lzero)
  then obtain ok s4 where "wait_stat_with K HD_STAT_DRDY (HD_STAT_BSY OR HD_STAT_DRQ) 100000 ?t = Some (ok, s4)" by auto
  moreover have "always_busy ?t" using s(1) same_busy(1)[OF t] by simp
  ultimately obtain x y where x: "same_but_log ?t x" "handle_error x = Some y" "K y = Some s4"
    using wait_stat_busy[of ?t K] by blast
  note g = same_trans[OF t x(1)]
  have "y = x" using x(2) s(3) by (simp add: handle_error_def same_fields[OF g])
  then show False using K[OF x(3)] s by (simp add: only_trivial_def same_busy[OF g] same_fields[OF g] same_defs[OF g])
qed

lemma do_request_busy:
  assumes "do_request req s = Some s'" shows "only_trivial req s"
proof (rule do_request.raw_induct[where P = "\<lambda>req s _. only_trivial req s", OF _ assms])
  fix dr req s s'
  assume 1: "\<And>req s s'. dr req s = Some s' \<Longrightarrow> only_trivial req s"
    "(if current_req s \<noteq> None then Some (enqueue_req req s)
      else (let s1 = (if reset_pending s then reset_controller s else s) in
        if recalibrate (ide_devs s1 0)
        then Option.bind (recalibrate_drive_with (dr None) 0 s1) (\<lambda>s2. Some (enqueue_req req s2))
        else if recalibrate (ide_devs s1 1)
        then Option.bind (recalibrate_drive_with (dr None) 1 s1) (\<lambda>s2. Some (enqueue_req req s2))
        else (case next_req req s1 of
            (None, s2) \<Rightarrow> Some s2
          | (Some r, s2) \<Rightarrow> start_request_with (dr None) r s2))) = Some s'"
  have K: "only_trivial None t" if "dr None t = Some u" for t u using 1(1)[OF that] .
  show "only_trivial req s" unfolding only_trivial_def
  proof (intro impI)
    assume b: "always_busy s" "devs_ok s" and cur: "current_req s = None"
    define s1 where "s1 = maybe_reset s"
    obtain l where l: "s1 = s\<lparr>reset_pending := False, io_log := l\<rparr>"
      using maybe_reset_fields[OF cur] by (auto simp: s1_def)
    have e: "always_busy s1" "devs_ok s1" "current_req s1 = None" "any_recal s1 = any_recal s" "req_list s1 = req_list s"
      "block_exists s1 = block_exists s"
      using b cur by (simp_all add: l always_busy_def devs_ok_def any_recal_def block_exists_def fun_eq_iff)
    have D: "(if recalibrate (ide_devs s1 0)
        then Option.bind (recalibrate_drive_with (dr None) 0 s1) (\<lambda>s2. Some (enqueue_req req s2))
        else if recalibrate (ide_devs s1 1)
        then Option.bind (recalibrate_drive_with (dr None) 1 s1) (\<lambda>s2. Some (enqueue_req req s2))
        else (case next_req req s1 of
            (None, s2) \<Rightarrow> Some s2
          | (Some r, s2) \<Rightarrow> start_request_with (dr None) r s2)) = Some s'"
      using 1(2) unfolding cur s1_def maybe_reset_def Let_def by (simp only: simp_thms if_False)
    have nr: "\<not> any_recal s1"
    proof
      assume a: "any_recal s1"
      have "recalibrate_drive_with (dr None) d s1 = None" for d
        by (rule recalibrate_busy[OF _ e(1-3) a]) (erule K)
      then show False using D a by (simp add: any_recal_def split: if_splits)
    qed
    then have N: "(case next_req req s1 of (None, s2) \<Rightarrow> Some s2 | (Some r, s2) \<Rightarrow> start_request_with (dr None) r s2) = Some s'"
      using D by (simp add: any_recal_def)
    have S: "\<forall>q\<in>set (r # rs). \<not> block_exists s q"
      if "start_request_with (dr None) r (s1\<lparr>req_list := rs\<rparr>) = Some s'" for r rs
    proof -
      have "always_busy (s1\<lparr>req_list := rs\<rparr>)" "devs_ok (s1\<lparr>req_list := rs\<rparr>)" "\<not> any_recal (s1\<lparr>req_list := rs\<rparr>)"
        using e nr by (simp_all add: always_busy_def devs_ok_def any_recal_def)
      moreover have "block_exists (s1\<lparr>req_list := rs\<rparr>) = block_exists s"
        using e(6) by (simp add: block_exists_def fun_eq_iff)
      ultimately show ?thesis using start_busy[of "dr None", OF K _ _ that] by simp
    qed
    show "\<not> any_recal s \<and> (\<forall>r\<in>set_option req \<union> set (req_list s). \<not> block_exists s r)"
    proof (cases req)
      case (Some r)
      have "\<forall>q\<in>set (r # req_list s1). \<not> block_exists s q"
        using N Some by (intro S) (simp add: next_req_def)
      then show ?thesis using Some nr e by simp
    next
      case None
      show ?thesis
      proof (cases "req_list s1")
        case Nil then show ?thesis using None nr e by simp
      next
        case (Cons r rs)
        have "\<forall>q\<in>set (r # rs). \<not> block_exists s q" using N None Cons by (intro S) (simp add: next_req_def)
        then show ?thesis using None Cons nr e by simp
      qed
    qed
  qed
qed

text \<open>\<open>handle_error\<close> fails only with the fake request as the current one.\<close>

lemma handle_error_returns: "current_req s \<noteq> Some Fake_req \<Longrightarrow> handle_error s \<noteq> None"
  using same_fields(4)[OF same_dump[OF same_refl, of s]]
  by (auto simp: handle_error_def end_request_def req_upd_def dev_set_def Let_def split: option.splits req_ptr.splits)

text \<open>
  C38: A drive that stays busy hangs the kernel: the driver does not report an error after its sixteen
  retries, because after the fourth it wants to recalibrate the drive, and as long as that fails
  \<open>recalibrate_drive\<close> and \<open>do_request\<close> call each other.
\<close>

theorem busy_drive_hangs:
  assumes "\<forall>l. test_mask (io_in s l HD_STATUS) HD_STAT_BSY" "current_req s = None" "\<forall>q. r_dev (requests s q) < 2"
    and "d < 2" "block < hd_total (ide_devs s d)"
  shows "ide_read_blocks r d buf block n s = None"
proof (rule ccontr)
  assume "ide_read_blocks r d buf block n s \<noteq> None"
  then obtain s' where "do_request (Some r) (req_upd r (\<lambda>q. q\<lparr>r_blocked := True, r_completed := False, r_retries := 0\<rparr>)
      (req_upd r (\<lambda>q. q\<lparr>r_buf := buf, r_command := ucast HD_CMD_READ, r_block := block, r_nblocks := n, r_dev := d\<rparr>) s)) = Some s'"
    by (auto simp: ide_read_blocks_def ide_transfer_def sync_request_with_def)
  from do_request_busy[OF this] show False
    using assms by (auto simp: only_trivial_def always_busy_def devs_ok_def req_upd_def block_exists_def split: if_splits)
qed

end
