(* ===== verification/IdeTransfer.thy ===== *)
theory IdeTransfer
  imports IdeDriverProps
begin

text \<open>
  Reading from a drive that answers.  \<open>ata\<close> is what the drive makes of the accesses to its
  registers: the number of sectors it has still to deliver and the number of the next one.
\<close>

unbundle bit_operations_syntax

section \<open>Blocks of memory\<close>

lemma put_mem_Nil [simp]: "put_mem a [] m = m"
  by (simp add: put_mem_def)

lemma put_mem_append: "put_mem a (xs @ ys) m = put_mem (a + of_nat (length xs)) ys (put_mem a xs m)"
proof -
  have "fold (\<lambda>k m. m(a + of_nat k := (xs @ ys) ! k)) [0..<length xs] m' = fold (\<lambda>k m. m(a + of_nat k := xs ! k)) [0..<length xs] m'" for m'
    by (rule fold_cong) (simp_all add: nth_append)
  moreover have "fold (\<lambda>k m. m(a + of_nat k := (xs @ ys) ! k)) [length xs..<length xs + length ys] m'
      = fold (\<lambda>k m. m(a + of_nat (length xs) + of_nat k := ys ! k)) [0..<length ys] m'" for m'
  proof -
    have "[length xs..<length xs + length ys] = map (\<lambda>k. length xs + k) [0..<length ys]"
      using map_add_upt[of "length xs" "length ys"] by (simp add: add.commute)
    then show ?thesis by (simp add: fold_map o_def add.assoc)
  qed
  ultimately show ?thesis by (simp add: put_mem_def upt_add_eq_append[of 0 "length xs" "length ys"])
qed

lemma put_mem_at:
  assumes "length bs \<le> 2 ^ 32"
  shows "k < length bs \<Longrightarrow> put_mem a bs m (a + of_nat k) = bs ! k"
    and "(\<forall>k < length bs. b \<noteq> a + of_nat k) \<Longrightarrow> put_mem a bs m b = m b"
  using assms
proof (induction bs rule: rev_induct)
  case Nil { case 1 then show ?case by simp next case 2 then show ?case by simp }
next
  case (snoc x xs)
  have p: "put_mem a (xs @ [x]) m = (put_mem a xs m)(a + of_nat (length xs) := x)"
    unfolding put_mem_append by (simp add: put_mem_def)
  {
    case 1
    have ne: "(of_nat k :: u32) \<noteq> of_nat (length xs)" if "k < length xs"
      using that 1(2) by (intro of_nat_u32_inj) simp_all
    show ?case using 1 snoc.IH(1) ne by (cases "k = length xs") (simp_all add: p nth_append)
  next
    case 2 then show ?case using snoc.IH(2) by (simp add: p)
  }
qed

lemma get_put_mem: "length bs \<le> 2 ^ 32 \<Longrightarrow> get_mem (put_mem a bs m) a (length bs) = bs"
  by (rule nth_equalityI) (simp_all add: get_mem_def put_mem_at)

section \<open>The drive\<close>

primrec last_out :: "u16 \<Rightarrow> ide_io list \<Rightarrow> u8" where
  "last_out p [] = 0"
| "last_out p (e # l) = (case e of IdeOut q v \<Rightarrow> if q = p then v else last_out p l | _ \<Rightarrow> last_out p l)"

definition lba :: "nat \<Rightarrow> nat \<Rightarrow> ide_io list \<Rightarrow> nat" where
  "lba h k l = ((unat (last_out HD_LCYL l) + 256 * unat (last_out HD_HCYL l)) * h
     + unat (last_out HD_CURRENT l AND 0xf)) * k + unat (last_out HD_SECTOR l) - 1"

primrec ata :: "nat \<Rightarrow> nat \<Rightarrow> ide_io list \<Rightarrow> nat \<times> nat" where
  "ata h k [] = (0, 0)"
| "ata h k (e # l) =
     (case e of
        IdeInSect \<Rightarrow> (fst (ata h k l) - 1, snd (ata h k l) + 1)
      | IdeOut p v \<Rightarrow>
          if p = HD_COMMAND
          then if v = HD_CMD_READ
               then (let n = unat (last_out HD_NSECTOR l) in if n = 0 then 256 else n, lba h k l)
               else (0, 0)
          else ata h k l
      | _ \<Rightarrow> ata h k l)"

text \<open>A drive of \<open>h\<close> heads and \<open>k\<close> sectors per track that holds \<open>disk\<close> and is ready at once.\<close>

definition answers :: "nat \<Rightarrow> nat \<Rightarrow> (nat \<Rightarrow> nat \<Rightarrow> u8) \<Rightarrow> ides \<Rightarrow> bool" where
  "answers h k disk s \<longleftrightarrow> (\<forall>l. io_in s l HD_STATUS = (if fst (ata h k l) > 0 then DATA_RDY_STAT else DRV_RDY_STAT)
     \<and> (fst (ata h k l) > 0 \<longrightarrow> io_sect s l = disk (snd (ata h k l))))"

lemma ports_differ:
  "HD_COMMAND \<noteq> HD_NSECTOR" "HD_COMMAND \<noteq> HD_SECTOR" "HD_COMMAND \<noteq> HD_LCYL" "HD_COMMAND \<noteq> HD_HCYL"
  "HD_COMMAND \<noteq> HD_CURRENT" "HD_COMMAND \<noteq> HD_DEVCTRL" "HD_NSECTOR \<noteq> HD_COMMAND" "HD_SECTOR \<noteq> HD_COMMAND"
  "HD_LCYL \<noteq> HD_COMMAND" "HD_HCYL \<noteq> HD_COMMAND" "HD_CURRENT \<noteq> HD_COMMAND" "HD_DEVCTRL \<noteq> HD_COMMAND"
  "HD_NSECTOR \<noteq> HD_SECTOR" "HD_SECTOR \<noteq> HD_LCYL" "HD_LCYL \<noteq> HD_HCYL" "HD_HCYL \<noteq> HD_CURRENT"
  "HD_HCYL \<noteq> HD_LCYL" "HD_CURRENT \<noteq> HD_LCYL" "HD_CURRENT \<noteq> HD_HCYL" "HD_CURRENT \<noteq> HD_SECTOR" "HD_HCYL \<noteq> HD_SECTOR"
  "HD_LCYL \<noteq> HD_SECTOR" "HD_CURRENT \<noteq> HD_NSECTOR" "HD_HCYL \<noteq> HD_NSECTOR" "HD_LCYL \<noteq> HD_NSECTOR" "HD_SECTOR \<noteq> HD_NSECTOR"
  by (simp_all add: ide_consts)

lemma ready_stats:
  "test_stat DRV_RDY_STAT HD_STAT_DRDY (HD_STAT_BSY OR HD_STAT_DRQ)" "test_stat DATA_RDY_STAT DATA_RDY_STAT BAD_RW_STAT"
  "DRV_RDY_STAT AND HD_STAT_BSY = 0" "DATA_RDY_STAT AND HD_STAT_BSY = 0"
  by (simp_all add: ide_consts test_stat_def)

lemma poll_ready:
  assumes "io_in s (io_log s) HD_STATUS AND HD_STAT_BSY = 0" "io_in s (IdeIn HD_STATUS # io_log s) HD_STATUS = st"
  shows "poll_stat g b n s = (test_stat st g b, s\<lparr>io_log := IdeIn HD_STATUS # IdeIn HD_STATUS # io_log s\<rparr>)"
proof -
  have "busy_loop m s = (True, s\<lparr>io_log := IdeIn HD_STATUS # io_log s\<rparr>)" for m
    using assms(1) by (cases m) (simp_all add: GET_STAT_def ide_inb_def)
  then show ?thesis using assms(2) by (simp add: poll_stat_def GET_STAT_def ide_inb_def)
qed

section \<open>Cylinders, heads and sectors\<close>

definition geometry_ok :: "ide_dev \<Rightarrow> bool" where
  "geometry_ok v \<longleftrightarrow> 1 \<le> unat (heads v) \<and> unat (heads v) \<le> 16 \<and> 1 \<le> unat (sectors v) \<and> unat (sectors v) \<le> 255
     \<and> unat (cylinders v) \<le> 65536 \<and> unat (hd_total v) = unat (heads v) * unat (sectors v) * unat (cylinders v)
     \<and> ide_select v AND 0xf = 0"

lemma unat_ucast8: "unat (ucast (w :: u32) :: u8) = unat w mod 256"
  by (simp add: unsigned_ucast_eq take_bit_eq_mod)

lemma unat_ucast_small: "unat (w :: u32) < 256 \<Longrightarrow> unat (ucast w :: u8) = unat w"
  by (simp add: unat_ucast8)

text \<open>The registers that \<open>do_request\<close> writes name the block of the request.\<close>

lemma chs_names_block:
  fixes b :: u32
  assumes g: "geometry_ok v" and b: "unat b < unat (hd_total v)"
  defines "track \<equiv> b div sectors v"
  defines "cyl \<equiv> track div heads v"
  shows "((unat (ucast cyl :: u8) + 256 * unat (ucast (drop_bit 8 cyl) :: u8)) * unat (heads v)
      + unat ((ide_select v OR ucast (track mod heads v)) AND 0xf)) * unat (sectors v)
      + unat (ucast (b mod sectors v + 1) :: u8) - 1 = unat b"
proof -
  let ?h = "unat (heads v)" and ?k = "unat (sectors v)"
  have h: "1 \<le> ?h" "?h \<le> 16" "1 \<le> ?k" "?k \<le> 255" using g by (simp_all add: geometry_ok_def)
  have t: "unat track = unat b div ?k" "unat cyl = unat b div ?k div ?h" "unat (track mod heads v) = unat b div ?k mod ?h"
    "unat (b mod sectors v) = unat b mod ?k"
    by (simp_all add: track_def cyl_def unat_div unat_mod)
  have "unat b div ?k div ?h < unat (cylinders v)"
    using g b h by (simp add: geometry_ok_def div_mult2_eq[symmetric] less_mult_imp_div_less mult.commute mult.left_commute)
  then have c: "unat cyl < 65536" using g t(2) by (simp add: geometry_ok_def)
  have "unat (ucast cyl :: u8) = unat cyl mod 256" by (rule unat_ucast8)
  moreover have "unat (drop_bit 8 cyl) = unat cyl div 256"
    by (simp only: unat_drop_bit_eq) (simp add: drop_bit_eq_div)
  then have "unat (ucast (drop_bit 8 cyl) :: u8) = unat cyl div 256" using c by (simp add: unat_ucast_small)
  ultimately have cyl: "unat (ucast cyl :: u8) + 256 * unat (ucast (drop_bit 8 cyl) :: u8) = unat cyl" by simp
  have hd: "unat (track mod heads v) < 16" using t(3) h by (simp add: less_le_trans[OF mod_less_divisor])
  have "(ide_select v OR ucast (track mod heads v)) AND 0xf = (ide_select v AND 0xf) OR (ucast (track mod heads v) AND 0xf)"
    by (rule bit_word_eqI) (auto simp: bit_simps)
  also have "\<dots> = take_bit 4 (ucast (track mod heads v) :: u8)"
    using g by (simp add: geometry_ok_def take_bit_eq_mask mask_eq_exp_minus_1)
  finally have "unat ((ide_select v OR ucast (track mod heads v)) AND 0xf) = unat (ucast (track mod heads v) :: u8) mod 16"
    by (simp add: unsigned_take_bit_eq take_bit_eq_mod unat_mod)
  then have head: "unat ((ide_select v OR ucast (track mod heads v)) AND 0xf) = unat b div ?k mod ?h"
    using hd t(3) by (simp add: unat_ucast_small)
  have m: "unat b mod ?k < ?k" using h by simp
  then have small: "unat b mod ?k + 1 < 256" using h(4) by linarith
  then have "unat (b mod sectors v + 1) = unat b mod ?k + 1"
    using t(4) by (simp add: unat_word_ariths(1))
  then have sect: "unat (ucast (b mod sectors v + 1) :: u8) = unat b mod ?k + 1"
    using small by (simp add: unat_ucast_small)
  have "unat b div ?k div ?h * ?h + unat b div ?k mod ?h = unat b div ?k" by simp
  then show ?thesis unfolding cyl head sect t(2) by simp
qed

section \<open>Reading\<close>

primrec interrupts :: "nat \<Rightarrow> ides \<Rightarrow> ides option" where
  "interrupts 0 s = Some s"
| "interrupts (Suc n) s = Option.bind (ide_int_handler s) (interrupts n)"

definition sectors_at :: "(nat \<Rightarrow> nat \<Rightarrow> u8) \<Rightarrow> nat \<Rightarrow> nat \<Rightarrow> u8 list" where
  "sectors_at disk b n = concat (map (\<lambda>i. map (disk (b + i)) [0..<512]) [0..<n])"

lemma sectors_at_Suc: "sectors_at disk b (Suc n) = sectors_at disk b n @ map (disk (b + n)) [0..<512]"
  by (simp add: sectors_at_def)

lemma length_sectors_at [simp]: "length (sectors_at disk b n) = 512 * n"
proof (induction n)
  case (Suc n)
  have "length (map (disk (b + n)) [0..<512]) = 512" by (simp only: length_map length_upt)
  then show ?case using Suc by (simp only: sectors_at_Suc length_append) simp
qed (simp add: sectors_at_def)

text \<open>The driver has nothing to do.\<close>

definition idle :: "ides \<Rightarrow> bool" where
  "idle s \<longleftrightarrow> current_req s = None \<and> ide_intr s = None \<and> req_list s = [] \<and> \<not> reset_pending s \<and> \<not> any_recal s"

text \<open>\<open>i\<close> of \<open>n\<close> sectors from \<open>b\<close> on have been read.\<close>

definition reading :: "nat \<Rightarrow> nat \<Rightarrow> nat \<Rightarrow> (nat \<Rightarrow> nat \<Rightarrow> u8) \<Rightarrow> nat \<Rightarrow> u32 \<Rightarrow> memory \<Rightarrow> nat \<Rightarrow> nat \<Rightarrow> nat \<Rightarrow> ides \<Rightarrow> bool" where
  "reading h k r disk b buf m n i j s \<longleftrightarrow> current_req s = Some (Req r) \<and> ide_intr s = Some Read_intr \<and> req_list s = []
     \<and> \<not> reset_pending s \<and> \<not> any_recal s \<and> r_nblocks (requests s r) = of_nat j \<and> n = i + j \<and> 0 < j \<and> j \<le> 256
     \<and> r_buf (requests s r) = buf + of_nat (512 * i) \<and> ata h k (io_log s) = (j, b + i)
     \<and> kmem s = put_mem buf (sectors_at disk b i) m \<and> answers h k disk s"

lemma do_request_idle:
  assumes "current_req s = None" "req_list s = []" "\<not> reset_pending s" "\<not> any_recal s"
  shows "do_request None s = Some s"
  using assms by (subst do_request.simps) (simp add: any_recal_def next_req_def)

lemma answers_same: "io_in t = io_in s \<Longrightarrow> io_sect t = io_sect s \<Longrightarrow> answers h k disk t = answers h k disk s"
  by (simp add: answers_def)

lemma reading_step:
  assumes R: "reading h k r disk b buf m n i j s"
  shows "\<exists>s'. ide_int_handler s = Some s' \<and>
    (if j = 1 then idle s' \<and> requests s' r = (requests s r)\<lparr>r_completed := True, r_result := 0, r_blocked := False\<rparr>
        \<and> kmem s' = put_mem buf (sectors_at disk b n) m
     else reading h k r disk b buf m n (Suc i) (j - 1) s')"
proof -
  note f = R[unfolded reading_def]
  let ?s1 = "s\<lparr>ide_intr := None\<rparr>"
  let ?s2 = "?s1\<lparr>io_log := IdeIn HD_STATUS # io_log s\<rparr>"
  let ?s3 = "IN_SECT (r_buf (requests ?s2 r)) ?s2"
  have g: "GET_STAT ?s1 = (DATA_RDY_STAT, ?s2)"
    using f by (simp add: GET_STAT_def ide_inb_def answers_def)
  have a2: "ata h k (io_log ?s2) = (j, b + i)" using f by simp
  have a3: "ata h k (io_log ?s3) = (j - 1, b + Suc i)" using f by simp
  have io: "io_sect ?s2 (io_log ?s2) = disk (b + i)" using f a2 by (simp add: answers_def)
  have m3: "kmem ?s3 = put_mem buf (sectors_at disk b (Suc i)) m"
  proof -
    have "kmem ?s3 = put_mem (buf + of_nat (512 * i)) (map (disk (b + i)) [0..<512]) (kmem s)"
      using f io by (simp only: IN_SECT_def) (simp del: upt_rec_numeral)
    also have "\<dots> = put_mem (buf + of_nat (length (sectors_at disk b i))) (map (disk (b + i)) [0..<512]) (put_mem buf (sectors_at disk b i) m)"
      using f by (simp del: upt_rec_numeral)
    finally show ?thesis by (simp only: sectors_at_Suc put_mem_append)
  qed
  have q3: "requests ?s3 = requests s" "current_req ?s3 = Some (Req r)" "ide_intr ?s3 = None" "req_list ?s3 = []"
    "\<not> reset_pending ?s3" "\<not> any_recal ?s3" "answers h k disk ?s3"
    using f by (simp_all add: any_recal_def answers_def)
  have H: "ide_int_handler s = (if sint (r_nblocks (requests s r)) > 1
      then Some ((next_sector r ?s3)\<lparr>ide_intr := Some Read_intr\<rparr>) else finish_request ?s3)"
    using f ready_stats(2) unfolding ide_int_handler_def Let_def
    by (simp add: read_intr_def g Let_def q3(1) del: fun_upd_apply)
  have "sint (of_nat j :: u32) = int j" using f by (simp add: signed_of_nat signed_take_bit_int_eq_self)
  then have sj: "sint (r_nblocks (requests s r)) > 1 \<longleftrightarrow> j \<noteq> 1" using f by auto
  show ?thesis
  proof (cases "j = 1")
    case True
    let ?s4 = "(req_upd r (\<lambda>q. q\<lparr>r_completed := True, r_result := 0, r_blocked := False\<rparr>) ?s3)\<lparr>current_req := None\<rparr>"
    have "end_request 0 ?s3 = Some ?s4" using q3 by (simp add: end_request_def)
    moreover have "do_request None ?s4 = Some ?s4"
      using q3 by (intro do_request_idle) (simp_all add: req_upd_def any_recal_def)
    ultimately have "ide_int_handler s = Some ?s4" using H sj True by (simp add: finish_request_def)
    moreover have "idle ?s4" using q3 by (simp add: idle_def req_upd_def any_recal_def)
    ultimately show ?thesis using True m3 f q3(1) by (simp add: req_upd_def)
  next
    case False
    let ?s4 = "(next_sector r ?s3)\<lparr>ide_intr := Some Read_intr\<rparr>"
    have "reading h k r disk b buf m n (Suc i) (j - 1) ?s4"
      unfolding reading_def
    proof (intro conjI)
      show "r_nblocks (requests ?s4 r) = of_nat (j - 1)" using f False by (simp add: next_sector_def req_upd_def)
      show "r_buf (requests ?s4 r) = buf + of_nat (512 * Suc i)"
        using f by (simp add: next_sector_def req_upd_def algebra_simps)
      show "kmem ?s4 = put_mem buf (sectors_at disk b (Suc i)) m" using m3 by (simp add: next_sector_def req_upd_def)
      show "ata h k (io_log ?s4) = (j - 1, b + Suc i)" using a3 by (simp add: next_sector_def req_upd_def)
      show "answers h k disk ?s4" using q3(7) by (simp add: answers_def next_sector_def req_upd_def)
    qed (use f False q3 in \<open>auto simp: next_sector_def req_upd_def any_recal_def\<close>)
    then show ?thesis using H sj False by simp
  qed
qed

lemma reading_all:
  "reading h k r disk b buf m n i j s \<Longrightarrow> \<exists>s'. interrupts j s = Some s' \<and> idle s' \<and> sync_result r s' = Some True
     \<and> kmem s' = put_mem buf (sectors_at disk b n) m"
proof (induction j arbitrary: i s)
  case 0 then show ?case by (simp add: reading_def)
next
  case (Suc j)
  obtain s' where s': "ide_int_handler s = Some s'"
    "if Suc j = 1 then idle s' \<and> requests s' r = (requests s r)\<lparr>r_completed := True, r_result := 0, r_blocked := False\<rparr>
        \<and> kmem s' = put_mem buf (sectors_at disk b n) m
     else reading h k r disk b buf m n (Suc i) (Suc j - 1) s'"
    using reading_step[OF Suc.prems] by auto
  show ?case
  proof (cases "j = 0")
    case True then show ?thesis using s' by (simp add: sync_result_def)
  next
    case False then show ?thesis using s' Suc.IH[of "Suc i" s'] by simp
  qed
qed

text \<open>The read command, for a drive that is ready.\<close>

lemma read_starts:
  fixes n block :: u32
  assumes A: "answers h k disk s" "idle s" "fst (ata h k (io_log s)) = 0"
    and g: "geometry_ok (ide_devs s d)" "h = unat (heads (ide_devs s d))" "k = unat (sectors (ide_devs s d))"
    and n: "1 \<le> unat n" "unat n \<le> 256" and b: "unat block < unat (hd_total (ide_devs s d))"
  shows "\<exists>s'. ide_read_blocks r d buf block n s = Some s' \<and> reading h k r disk (unat block) buf (kmem s) (unat n) 0 (unat n) s'"
proof -
  let ?v = "ide_devs s d"
  define t where "t = req_upd r (\<lambda>q. q\<lparr>r_blocked := True, r_completed := False, r_retries := 0\<rparr>)
    (req_upd r (\<lambda>q. q\<lparr>r_buf := buf, r_command := ucast HD_CMD_READ, r_block := block, r_nblocks := n, r_dev := d\<rparr>) s)"
  have q: "r_dev (requests t r) = d" "r_block (requests t r) = block" "r_nblocks (requests t r) = n" "r_buf (requests t r) = buf"
    "r_command (requests t r) = ucast HD_CMD_READ" "ide_devs t = ide_devs s" "io_log t = io_log s" "kmem t = kmem s"
    "io_in t = io_in s" "io_sect t = io_sect s"
    by (simp_all add: t_def req_upd_def)
  have it: "current_req t = None" "ide_intr t = None" "req_list t = []" "\<not> reset_pending t" "\<not> any_recal t"
    using A(2) by (simp_all add: idle_def t_def req_upd_def any_recal_def)
  let ?t3 = "t\<lparr>current_req := Some (Req r)\<rparr>"
  let ?t4 = "ide_outb (ide_select ?v) HD_CURRENT ?t3"
  let ?l = "IdeIn HD_STATUS # IdeIn HD_STATUS # IdeOut HD_CURRENT (ide_select ?v) # io_log s"
  let ?t5 = "t\<lparr>current_req := Some (Req r), io_log := ?l\<rparr>"
  have st: "io_in s (IdeOut HD_CURRENT x # io_log s) HD_STATUS = DRV_RDY_STAT"
    "io_in s (IdeIn HD_STATUS # IdeOut HD_CURRENT x # io_log s) HD_STATUS = DRV_RDY_STAT" for x
    using A(1,3) by (simp_all add: answers_def ports_differ)
  have "poll_stat HD_STAT_DRDY (HD_STAT_BSY OR HD_STAT_DRQ) 100000 ?t4 = (True, ?t5)"
    using poll_ready[of ?t4 DRV_RDY_STAT] st ready_stats(1,3)
    by (simp add: ide_outb_def q)
  then have w: "wait_stat_with K HD_STAT_DRDY (HD_STAT_BSY OR HD_STAT_DRQ) 100000 ?t4 = Some (True, ?t5)" for K
    by (simp add: wait_stat_with_def)
  let ?trk = "block div sectors ?v"
  let ?sl = "IdeOut HD_CURRENT (ide_select ?v OR ucast (?trk mod heads ?v)) # IdeOut HD_HCYL (ucast (drop_bit 8 (?trk div heads ?v)))
    # IdeOut HD_LCYL (ucast (?trk div heads ?v)) # IdeOut HD_SECTOR (ucast (block mod sectors ?v + 1)) # IdeOut HD_NSECTOR (ucast n)
    # IdeOut HD_DEVCTRL (ide_ctl ?v) # ?l"
  have sr: "set_registers r ?t5 = t\<lparr>current_req := Some (Req r), io_log := ?sl\<rparr>"
    by (simp add: set_registers_def Let_def req_track_def ide_outb_def q)
  let ?t6 = "t\<lparr>current_req := Some (Req r), ide_intr := Some Read_intr, io_log := IdeOut HD_COMMAND HD_CMD_READ # ?sl\<rparr>"
  have nb: "\<not> hd_total ?v \<le> block" using b by (simp add: not_le word_less_nat_alt)
  have "do_request (Some r) t = start_request_with (do_request None) r t"
    using it by (subst do_request.simps) (simp add: any_recal_def next_req_def)
  also have "\<dots> = Some ?t6"
    unfolding start_request_with_def Let_def
    using nb w by (simp add: q sr Let_def ide_outb_def)
  finally have D: "ide_read_blocks r d buf block n s = Some ?t6"
    by (simp add: ide_read_blocks_def ide_transfer_def sync_request_with_def t_def)
  have cnt: "(let c = unat (ucast n :: u8) in if c = 0 then 256 else c) = unat n"
    using n by (cases "unat n = 256") (simp_all add: unat_ucast8)
  have lb: "lba h k ?sl = unat block"
    using chs_names_block[OF g(1) b] by (simp add: lba_def ports_differ g(2,3))
  have "ata h k (io_log ?t6) = (unat n, unat block)"
    using cnt lb by (simp add: ports_differ Let_def)
  then have "reading h k r disk (unat block) buf (kmem s) (unat n) 0 (unat n) ?t6"
    using n it A(1) by (simp add: reading_def q any_recal_def answers_def sectors_at_def)
  then show ?thesis using D by blast
qed

text \<open>
  C5: A drive that is ready delivers what was asked for: \<open>ide_read_blocks\<close>, followed by one
  interrupt per sector, wakes the task with success, the buffer holds the blocks asked for, in order, and
  no other memory has changed.  The drive is described by the registers it has: the command register
  starts a transfer of as many sectors as the sector count says from the cylinder, head and sector
  that are set.
\<close>

theorem ide_read_delivers:
  fixes n block buf :: u32
  assumes "answers h k disk s" "idle s" "fst (ata h k (io_log s)) = 0"
    and "geometry_ok (ide_devs s d)" "h = unat (heads (ide_devs s d))" "k = unat (sectors (ide_devs s d))"
    and "1 \<le> unat n" "unat n \<le> 256" "unat block + unat n \<le> unat (hd_total (ide_devs s d))"
  shows "\<exists>s'. Option.bind (ide_read_blocks r d buf block n s) (interrupts (unat n)) = Some s'
    \<and> sync_result r s' = Some True \<and> idle s'
    \<and> get_mem (kmem s') buf (512 * unat n) = sectors_at disk (unat block) (unat n)
    \<and> (\<forall>a. (\<forall>i < 512 * unat n. a \<noteq> buf + of_nat i) \<longrightarrow> kmem s' a = kmem s a)"
proof -
  have "unat block < unat (hd_total (ide_devs s d))" using assms(7,9) by simp
  from read_starts[OF assms(1-8) this]
  obtain t where t: "ide_read_blocks r d buf block n s = Some t"
    "reading h k r disk (unat block) buf (kmem s) (unat n) 0 (unat n) t" by blast
  obtain s' where s': "interrupts (unat n) t = Some s'" "idle s'" "sync_result r s' = Some True"
    "kmem s' = put_mem buf (sectors_at disk (unat block) (unat n)) (kmem s)"
    using reading_all[OF t(2)] by blast
  have len: "length (sectors_at disk (unat block) (unat n)) \<le> 2 ^ 32" using assms(8) by simp
  from get_put_mem[OF len, of buf "kmem s"] put_mem_at(2)[OF len, of _ buf "kmem s"] s' t(1)
  show ?thesis by (intro exI[of _ s']) simp
qed

section \<open>Concrete drives\<close>

text \<open>A disk of ten cylinders, four heads and eight sectors per track; byte \<open>i\<close> of block \<open>b\<close> is \<open>b + i\<close>.\<close>

definition demo_disk :: "nat \<Rightarrow> nat \<Rightarrow> u8" where
  "demo_disk b i = of_nat (b + i)"

definition demo_drive :: "(ide_io list \<Rightarrow> u16 \<Rightarrow> u8) \<Rightarrow> ides" where
  "demo_drive inp = \<lparr>kmem = (\<lambda>_. 0),
     requests = (\<lambda>_. \<lparr>r_dev = 0, r_buf = 0, r_block = 0, r_nblocks = 0, r_command = 0, r_result = 0, r_retries = 0,
       r_completed = False, r_blocked = False\<rparr>),
     req_list = [], current_req = None,
     ide_devs = (\<lambda>_. \<lparr>heads = 4, cylinders = 10, sectors = 8, hd_total = 320, ide_ctl = 0, ide_select = 0xa0, recalibrate = False\<rparr>),
     ide_intr = None, reset_pending = False, io_log = [], io_in = inp,
     io_sect = (\<lambda>l. demo_disk (snd (ata 4 8 l)))\<rparr>"

definition ready_drive :: ides where
  "ready_drive = demo_drive (\<lambda>l p. if fst (ata 4 8 l) > 0 then DATA_RDY_STAT else DRV_RDY_STAT)"

lemma ready_drive_answers: "answers 4 8 demo_disk ready_drive"
  by (simp add: answers_def ready_drive_def demo_drive_def)

lemma ready_drive_ok:
  "idle ready_drive" "fst (ata 4 8 (io_log ready_drive)) = 0" "geometry_ok (ide_devs ready_drive 0)"
  "4 = unat (heads (ide_devs ready_drive 0))" "8 = unat (sectors (ide_devs ready_drive 0))"
  "unat (hd_total (ide_devs ready_drive 0)) = 320"
  by (simp_all add: ready_drive_def demo_drive_def idle_def any_recal_def geometry_ok_def)

theorem ide_read_delivers_witness:
  "\<exists>s'. Option.bind (ide_read_blocks 7 0 0x1000 37 2 ready_drive) (interrupts 2) = Some s'
    \<and> sync_result 7 s' = Some True \<and> get_mem (kmem s') 0x1000 1024 = sectors_at demo_disk 37 2"
  using ide_read_delivers[OF ready_drive_answers ready_drive_ok(1-5), of 2 37 7 "0x1000"] ready_drive_ok(6) by auto

theorem ide_requests_conserved_witness:
  "\<exists>s'. ide_read_blocks 7 0 0x1000 37 2 ready_drive = Some s' \<and> current_req s' = Some (Req 7) \<and>
    ide_intr s' \<in> {Some Read_intr, Some Write_intr} \<and> {q \<in> {7}. r_blocked (requests s' q)} = {7} \<union> set (req_list s')"
proof -
  obtain s' where s': "ide_read_blocks 7 0 0x1000 37 2 ready_drive = Some s'"
    "reading 4 8 7 demo_disk 37 0x1000 (kmem ready_drive) 2 0 2 s'"
    using read_starts[OF ready_drive_answers ready_drive_ok(1-5), of 2 37 7 "0x1000"] ready_drive_ok(6) by auto
  have "ide_run ready_drive {}" by (rule ide_run.start) (simp_all add: ready_drive_def demo_drive_def)
  then have "ide_run s' {q \<in> {7}. r_blocked (requests s' q)}"
    by (rule ide_run.transfer[where r = 7 and A = "{}", OF _ _ s'(1)[unfolded ide_read_blocks_def]]) simp
  from ide_requests_conserved[OF this] s' show ?thesis by (auto simp: reading_def)
qed

theorem busy_drive_hangs_witness:
  "ide_read_blocks 7 0 0x1000 37 2 (demo_drive (\<lambda>_ _. HD_STAT_BSY)) = None"
  by (rule busy_drive_hangs) (simp_all add: demo_drive_def ide_consts)

end
