(* ===== verification/HardDisk.thy ===== *)
theory HardDisk
  imports FsModule Printf
begin

text \<open>
  Generic hard disks (drivers/physical/hd/generic.c): the pool and list of partitions, the
  partition tables, transfers to a partition, and partitions as devices of the file system.  A
  disk is what its driver transfers: \<open>hd_sector\<close> is the contents of its blocks of 512 bytes,
  \<open>hd_ok\<close> tells which transfers (first block, number of blocks) succeed.
\<close>

unbundle bit_operations_syntax

section \<open>Disks and partitions\<close>

record hd_dev =
  hd_name :: cstr
  hd_blocks :: u32
  hd_sector :: "u32 \<Rightarrow> u8 list"
  hd_ok :: "u32 \<Rightarrow> u32 \<Rightarrow> bool"

record hd_partition =
  p_start :: u32
  p_size :: u32
  p_hd :: nat
  p_name :: cstr

record hds =
  hd_devs :: "nat \<Rightarrow> hd_dev"
  hd_list :: "nat list"
  partition_pool :: "nat \<Rightarrow> hd_partition"
  free_partitions :: "nat list"
  partition_list :: "nat list"
  hd_fs :: fsys

definition NR_PARTITIONS :: nat where "NR_PARTITIONS = 32"
definition PARTN_NAME_MAX :: nat where "PARTN_NAME_MAX = 8"

definition add_hd :: "nat \<Rightarrow> hds \<Rightarrow> hds" where
  "add_hd h s = s\<lparr>hd_list := h # hd_list s\<rparr>"

definition init_partitions :: "hds \<Rightarrow> hds" where
  "init_partitions s = s\<lparr>free_partitions := [0..<NR_PARTITIONS], partition_list := []\<rparr>"

definition alloc_partition :: "hds \<Rightarrow> nat option \<times> hds" where
  "alloc_partition s = (case free_partitions s of [] \<Rightarrow> (None, s)
     | p # ps \<Rightarrow> (Some p, s\<lparr>free_partitions := ps\<rparr>))"

definition free_partition :: "nat \<Rightarrow> hds \<Rightarrow> hds" where
  "free_partition p s = s\<lparr>free_partitions := p # free_partitions s\<rparr>"

definition add_partition :: "nat \<Rightarrow> hds \<Rightarrow> hds" where
  "add_partition p s = s\<lparr>partition_list := p # partition_list s\<rparr>"

definition remove_partition :: "nat \<Rightarrow> hds \<Rightarrow> hds" where
  "remove_partition p s = s\<lparr>partition_list := remove1 p (partition_list s)\<rparr>"

definition hd_find_partition :: "cstr \<Rightarrow> hds \<Rightarrow> nat option" where
  "hd_find_partition name s = List.find (\<lambda>p. p_name (partition_pool s p) = name) (partition_list s)"

section \<open>Transfers\<close>

text \<open>The driver's \<open>read_blocks\<close> and \<open>write_blocks\<close>.\<close>

definition dev_read :: "hd_dev \<Rightarrow> u32 \<Rightarrow> u32 \<Rightarrow> u8 list option" where
  "dev_read v block count =
     (if hd_ok v block count then Some (concat (map (\<lambda>i. hd_sector v (block + of_nat i)) [0..<unat count])) else None)"

definition dev_write :: "hd_dev \<Rightarrow> u32 \<Rightarrow> u32 \<Rightarrow> u8 list \<Rightarrow> hd_dev option" where
  "dev_write v block count bs =
     (if hd_ok v block count
      then Some (v\<lparr>hd_sector := fold (\<lambda>i f. f(block + of_nat i := take 512 (drop (512 * i) bs))) [0..<unat count] (hd_sector v)\<rparr>)
      else None)"

text \<open>
  The check of the range: the sum is one of 32 bits.  \<open>None\<close> is the result \<open>FALSE\<close>.
\<close>

definition hd_read_blocks :: "nat \<Rightarrow> u32 \<Rightarrow> u32 \<Rightarrow> hds \<Rightarrow> u8 list option" where
  "hd_read_blocks p block count s =
     (let q = partition_pool s p in
      if block + count > p_size q then None
      else dev_read (hd_devs s (p_hd q)) (block + p_start q) count)"

definition hd_write_blocks :: "nat \<Rightarrow> u32 \<Rightarrow> u32 \<Rightarrow> u8 list \<Rightarrow> hds \<Rightarrow> bool \<times> hds" where
  "hd_write_blocks p block count bs s =
     (let q = partition_pool s p in
      if block + count > p_size q then (False, s)
      else (case dev_write (hd_devs s (p_hd q)) (block + p_start q) count bs of
          None \<Rightarrow> (False, s)
        | Some v \<Rightarrow> (True, s\<lparr>hd_devs := (hd_devs s)(p_hd q := v)\<rparr>)))"

text \<open>Blocks of the file system are two blocks of the disk.\<close>

definition hd_fs_read_blocks :: "nat \<Rightarrow> u32 \<Rightarrow> u32 \<Rightarrow> hds \<Rightarrow> int \<times> u8 list option" where
  "hd_fs_read_blocks p block count s =
     (case hd_read_blocks p (block * 2) (count * 2) s of Some bs \<Rightarrow> (1, Some bs) | None \<Rightarrow> (E_IO, None))"

definition hd_fs_write_blocks :: "nat \<Rightarrow> u32 \<Rightarrow> u32 \<Rightarrow> u8 list \<Rightarrow> hds \<Rightarrow> int \<times> hds" where
  "hd_fs_write_blocks p block count bs s =
     (case hd_write_blocks p (block * 2) (count * 2) bs s of (ok, s1) \<Rightarrow> (if ok then 1 else E_IO, s1))"

section \<open>Partitions and the file system\<close>

text \<open>
  A partition as the driver of a device of the file system: the blocks \<open>hd_fs_read_blocks\<close>
  delivers one at a time.
\<close>

definition part_good :: "nat \<Rightarrow> hds \<Rightarrow> u32 \<Rightarrow> bool" where
  "part_good p s blk \<longleftrightarrow> snd (hd_fs_read_blocks p blk 1 s) \<noteq> None"

definition part_medium :: "nat \<Rightarrow> hds \<Rightarrow> u32 \<Rightarrow> u8 list" where
  "part_medium p s blk =
     (let q = partition_pool s p; v = hd_devs s (p_hd q)
      in hd_sector v (blk * 2 + p_start q) @ hd_sector v (blk * 2 + p_start q + 1))"

definition part_device :: "nat \<Rightarrow> bool \<Rightarrow> hds \<Rightarrow> fs_device \<Rightarrow> fs_device" where
  "part_device p ro s v = v\<lparr>dev_name := p_name (partition_pool s p), medium := part_medium p s,
     good_block := part_good p s, media_code := None, read_only := ro\<rparr>"

definition hd_mount_partition :: "nat \<Rightarrow> bool \<Rightarrow> hds \<Rightarrow> bool \<times> hds" where
  "hd_mount_partition p ro s =
     (case get_device (p_name (partition_pool s p)) (hd_fs s) of
        (Some d, f1) \<Rightarrow> (False, s\<lparr>hd_fs := release_device d f1\<rparr>)
      | (None, f1) \<Rightarrow>
          (case alloc_device f1 of
             (None, f2) \<Rightarrow> (False, s\<lparr>hd_fs := f2\<rparr>)
           | (Some d, f2) \<Rightarrow>
               (case add_device d (dev_upd d (part_device p ro s) f2) of
                  (True, f3) \<Rightarrow> (True, s\<lparr>hd_fs := f3\<rparr>)
                | (False, f3) \<Rightarrow> (False, s\<lparr>hd_fs := snd (remove_device d f3)\<rparr>))))"

text \<open>What the file system has written to the medium of a device reaches the disk.\<close>

definition part_write_back :: "nat \<Rightarrow> (u32 \<Rightarrow> u8 list) \<Rightarrow> hds \<Rightarrow> hds" where
  "part_write_back p med s =
     (let q = partition_pool s p; v = hd_devs s (p_hd q)
      in s\<lparr>hd_devs := (hd_devs s)(p_hd q := v\<lparr>hd_sector := (\<lambda>sec. let off = sec - p_start q
            in if off < p_size q \<and> part_good p s (off div 2)
               then (if even off then take 512 else drop 512) (med (off div 2)) else hd_sector v sec)\<rparr>)\<rparr>)"

definition hd_mkfs_partition :: "u8 list \<Rightarrow> nat \<Rightarrow> u32 \<Rightarrow> hds \<Rightarrow> bool \<times> hds" where
  "hd_mkfs_partition boot_code p reserved s =
     (case get_device (p_name (partition_pool s p)) (hd_fs s) of
        (Some d, f1) \<Rightarrow> (False, s\<lparr>hd_fs := release_device d f1\<rparr>)
      | (None, f1) \<Rightarrow>
          (case alloc_device f1 of
             (None, f2) \<Rightarrow> (False, s\<lparr>hd_fs := f2\<rparr>)
           | (Some d, f2) \<Rightarrow>
               (case mkfs boot_code d (p_size (partition_pool s p) div 2) reserved (dev_upd d (part_device p False s) f2) of
                  (rc, f3) \<Rightarrow> (rc, part_write_back p (medium (devices f3 d)) (s\<lparr>hd_fs := f3\<rparr>)))))"

section \<open>Partition tables\<close>

text \<open>An entry of a partition table of which the code uses three fields.\<close>

record msdos_partition =
  mp_system :: u8
  mp_start :: u32
  mp_total :: u32

definition table_entry :: "u8 list \<Rightarrow> nat \<Rightarrow> msdos_partition" where
  "table_entry blk i =
     (let off = 0x1be + 16 * i
      in \<lparr>mp_system = blk ! (off + 4), mp_start = get_long blk (off + 8), mp_total = get_long blk (off + 12)\<rparr>)"

definition TEST_SIG :: "u8 list \<Rightarrow> bool" where
  "TEST_SIG blk \<longleftrightarrow> blk ! 510 = 0x55 \<and> blk ! 511 = 0xaa"

definition VMM_SYS :: u8 where "VMM_SYS = 0x30"
definition EXT_SYS :: u8 where "EXT_SYS = 5"

text \<open>
  \<open>ksprintf(par->name, "%s%d", hd->name, minor)\<close>, which does return for this format; the first
  argument is the address of the name, any that is not 0.  The name of a partition is an
  array of \<open>PARTN_NAME_MAX\<close> bytes at the end of an entry of the pool and nothing bounds what
  is printed into it: \<open>name_fits\<close> tells whether the name and its 0 stay inside.
\<close>

definition part_name :: "cstr \<Rightarrow> nat \<Rightarrow> cstr" where
  "part_name name minor = (case ksprintf (\<lambda>_. name) (ascii ''%s%d'') [1, of_nat minor] of Some n \<Rightarrow> n | None \<Rightarrow> [])"

definition name_fits :: "cstr \<Rightarrow> nat \<Rightarrow> bool" where
  "name_fits name minor \<longleftrightarrow> length (part_name name minor) < PARTN_NAME_MAX"

text \<open>
  The result is \<open>None\<close> when the name runs over the end of the entry, into the next one of
  the pool: what the code does after that is not defined.
\<close>

definition new_partition :: "msdos_partition \<Rightarrow> nat \<Rightarrow> nat \<Rightarrow> u32 \<Rightarrow> u32 \<Rightarrow> hds \<Rightarrow> hds option" where
  "new_partition e minor h start sz s =
     (case alloc_partition s of
        (None, s1) \<Rightarrow> Some s1
      | (Some p, s1) \<Rightarrow>
          if \<not> name_fits (hd_name (hd_devs s1 h)) minor then None
          else Some (let s2 = s1\<lparr>partition_pool := (partition_pool s1)(p :=
                 \<lparr>p_start = start, p_size = sz, p_hd = h, p_name = part_name (hd_name (hd_devs s1 h)) minor\<rparr>)\<rparr>;
               s3 = add_partition p s2
           in if mp_system e = VMM_SYS then snd (hd_mount_partition p False s3) else s3))"

text \<open>
  The chain of tables of an extended partition; the result is the next minor number.  Of
  this and the next two definitions \<open>None\<close> is a chain that does not end, \<open>Some None\<close> a
  partition whose name does not fit.
\<close>

partial_function (option) extended_chain :: "nat \<Rightarrow> u32 \<Rightarrow> u32 \<Rightarrow> nat \<Rightarrow> hds \<Rightarrow> (nat \<times> hds) option option" where
  "extended_chain h ext_start curr_start ext s =
     (case dev_read (hd_devs s h) curr_start 1 of
        None \<Rightarrow> Some (Some (ext, s))
      | Some embr \<Rightarrow>
          if \<not> TEST_SIG embr then Some (Some (ext, s))
          else (let e = table_entry embr 0; l = table_entry embr 1
                in case new_partition e ext h (mp_start e + curr_start) (mp_total e) s of
                     None \<Rightarrow> Some None
                   | Some s1 \<Rightarrow>
                       if mp_system l \<noteq> EXT_SYS then Some (Some (ext + 1, s1))
                       else extended_chain h ext_start (ext_start + mp_start l) (ext + 1) s1))"

primrec primary_entries :: "nat \<Rightarrow> u8 list \<Rightarrow> nat list \<Rightarrow> nat \<Rightarrow> hds \<Rightarrow> hds option option" where
  "primary_entries h mbr [] ext s = Some (Some s)"
| "primary_entries h mbr (i # is) ext s =
     (let e = table_entry mbr i in
      if mp_system e = 0 \<or> mp_total e = 0 then primary_entries h mbr is ext s
      else (case new_partition e (i + 1) h (mp_start e) (mp_total e) s of
          None \<Rightarrow> Some None
        | Some s1 \<Rightarrow>
            if mp_system e = EXT_SYS
            then Option.bind (extended_chain h (mp_start e) (mp_start e) ext s1)
              (\<lambda>r. case r of None \<Rightarrow> Some None | Some (ext1, s2) \<Rightarrow> primary_entries h mbr is ext1 s2)
            else primary_entries h mbr is ext s1))"

definition hd_add_dev :: "nat \<Rightarrow> hds \<Rightarrow> (bool \<times> hds) option option" where
  "hd_add_dev h s =
     (let v = hd_devs s h in
      if length (hd_name v) > PARTN_NAME_MAX - 2 then Some (Some (False, s))
      else (case alloc_partition s of
          (None, s1) \<Rightarrow> Some (Some (False, s1))
        | (Some p, s1) \<Rightarrow>
            (let s2 = add_partition p (s1\<lparr>partition_pool := (partition_pool s1)(p :=
                   \<lparr>p_start = 0, p_size = hd_blocks v, p_hd = h, p_name = hd_name v\<rparr>)\<rparr>)
             in Option.bind
                  (case dev_read (hd_devs s2 h) 0 1 of
                     None \<Rightarrow> Some (Some s2)
                   | Some mbr \<Rightarrow> if TEST_SIG mbr then primary_entries h mbr [0, 1, 2, 3] 5 s2 else Some (Some s2))
                  (\<lambda>r. Some (map_option (\<lambda>s3. (True, add_hd h s3)) r)))))"

definition hd_remove_dev :: "nat \<Rightarrow> hds \<Rightarrow> bool \<times> hds" where
  "hd_remove_dev h s = (False, s)"

end
