(* ===== verification/HardDiskProps.thy ===== *)
theory HardDiskProps
  imports HardDisk FsCacheProps KernelLibProps
begin

text \<open>
  Partitions: a transfer that passes the check of its range stays inside its partition unless the
  sum of block and count wraps; the partition tables are turned into the partitions they
  describe, unless the links of an extended partition form a circle or a name does not fit in
  its eight bytes.
\<close>

unbundle bit_operations_syntax

section \<open>Transfers\<close>


lemma write_fold:
  assumes "n \<le> 2 ^ 32"
  shows "k < n \<Longrightarrow> fold (\<lambda>i f. f((b::u32) + of_nat i := c i)) [0..<n] f (b + of_nat k) = c k"
    and "(\<forall>k < n. x \<noteq> b + of_nat k) \<Longrightarrow> fold (\<lambda>i f. f(b + of_nat i := c i)) [0..<n] f x = f x"
  using assms
proof (induction n)
  case 0 { case 1 then show ?case by simp next case 2 then show ?case by simp }
next
  case (Suc n)
  { case 1
    have "(of_nat k :: u32) \<noteq> of_nat n" if "k < n" using that 1 by (intro of_nat_u32_inj) simp_all
    then show ?case using 1 Suc.IH(1) by (cases "k = n") simp_all
  next
    case 2 then show ?case using Suc.IH(2) by simp }
qed

text \<open>What a transfer writes: the blocks of the range, and nothing else.\<close>

lemma dev_write_sectors:
  assumes "dev_write v block count bs = Some v'"
  shows "i < unat count \<Longrightarrow> hd_sector v' (block + of_nat i) = take 512 (drop (512 * i) bs)"
    and "(\<forall>i < unat count. x \<noteq> block + of_nat i) \<Longrightarrow> hd_sector v' x = hd_sector v x"
proof -
  have n: "unat count \<le> 2 ^ 32" using unat_u32_lt[of count] by simp
  have v: "hd_sector v' = fold (\<lambda>i f. f(block + of_nat i := take 512 (drop (512 * i) bs))) [0..<unat count] (hd_sector v)"
    using assms by (auto simp: dev_write_def split: if_splits)
  show "i < unat count \<Longrightarrow> hd_sector v' (block + of_nat i) = take 512 (drop (512 * i) bs)"
    unfolding v by (rule write_fold(1)[OF n])
  show "(\<forall>i < unat count. x \<noteq> block + of_nat i) \<Longrightarrow> hd_sector v' x = hd_sector v x"
    unfolding v by (rule write_fold(2)[OF n])
qed









text \<open>
  The check of the range can be passed by: \<open>block + count\<close> is a sum of 32 bits, so the
  \<open>k\<close> blocks before a partition can be written through it.
\<close>

theorem partition_check_wraps:
  fixes k :: u32
  assumes "0 < k" "k \<le> p_start (partition_pool s p)"
    and "hd_ok (hd_devs s (p_hd (partition_pool s p))) (p_start (partition_pool s p) - k) k"
  shows "\<exists>s'. hd_write_blocks p (- k) k bs s = (True, s')
    \<and> (\<forall>i < unat k. hd_sector (hd_devs s' (p_hd (partition_pool s p))) (p_start (partition_pool s p) - k + of_nat i)
          = take 512 (drop (512 * i) bs))"
proof -
  let ?q = "partition_pool s p"
  have st: "- k + p_start ?q = p_start ?q - k" by simp
  obtain v where v: "dev_write (hd_devs s (p_hd ?q)) (p_start ?q - k) k bs = Some v"
    using assms(3) by (simp add: dev_write_def)
  then have "hd_write_blocks p (- k) k bs s = (True, s\<lparr>hd_devs := (hd_devs s)(p_hd ?q := v)\<rparr>)"
    by (simp add: hd_write_blocks_def Let_def st)
  then show ?thesis using dev_write_sectors(1)[OF v] by (intro exI[of _ "s\<lparr>hd_devs := (hd_devs s)(p_hd ?q := v)\<rparr>"]) simp
qed

section \<open>Partition tables\<close>

text \<open>Mounting a partition changes the file system only.\<close>

lemma mount_fields: "\<exists>f. snd (hd_mount_partition p ro s) = s\<lparr>hd_fs := f\<rparr>"
  by (auto simp: hd_mount_partition_def split: option.splits prod.splits bool.splits)

definition parts :: "hds \<Rightarrow> hd_partition list" where
  "parts s = map (partition_pool s) (partition_list s)"

definition pool_ok :: "hds \<Rightarrow> bool" where
  "pool_ok s \<longleftrightarrow> distinct (free_partitions s @ partition_list s)"

definition logical :: "nat \<Rightarrow> cstr \<Rightarrow> nat \<times> u32 \<times> u32 \<Rightarrow> hd_partition" where
  "logical h name = (\<lambda>(minor, start, sz). \<lparr>p_start = start, p_size = sz, p_hd = h, p_name = part_name name minor\<rparr>)"

lemma map_upd_fresh: "p \<notin> set xs \<Longrightarrow> map (f(p := y)) xs = map f xs"
  by (induction xs) auto

text \<open>The name of a partition: that of the disk and the minor number in decimal.\<close>

lemma part_name_digits:
  assumes "0 < minor" "minor < 2 ^ 31"
  shows "part_name name minor = name @ rev (digits_rev (ascii ''0123456789'') 10 (of_nat minor))"
proof -
  have "unat (of_nat minor :: u32) = minor" using assms(2) by (simp add: unat_u32)
  then have "of_nat minor \<noteq> (0 :: u32)" "\<not> sint (of_nat minor :: u32) < 0"
    using assms by (auto simp: sint_small)
  moreover have "ascii ''%s%d'' = [0x25, 0x73, 0x25, 0x64]" by (simp add: ascii_def)
  ultimately show ?thesis by (simp add: part_name_def run_format do_string_def do_number_signed)
qed

lemma name_fits_digits:
  assumes "0 < minor" "minor < 100"
  shows "name_fits name minor \<longleftrightarrow> length name + (if minor < 10 then 1 else 2) < 8"
proof -
  have n: "unat (of_nat minor :: u32) = minor" using assms(2) by (simp add: unat_u32)
  have one: "length (digits_rev D 10 w) = 1" if "0 < unat w" "unat w < 10" for D w
  proof -
    have "unat (w div 10) = 0" using that by (simp add: unat_div)
    then have "w div 10 = 0" by (simp only: unat_eq_zero)
    then show ?thesis using that by (auto simp: digits_rev.simps[of D 10 w] digits_rev.simps[of D 10 0])
  qed
  have d: "length (digits_rev D 10 (of_nat minor)) = (if minor < 10 then 1 else 2)" for D
  proof (cases "minor < 10")
    case True then show ?thesis using one assms n by simp
  next
    case False
    have "unat ((of_nat minor :: u32) div 10) = minor div 10" by (simp add: unat_div n)
    then have "length (digits_rev D 10 (of_nat minor div 10)) = 1" using False assms by (intro one) auto
    moreover have "(of_nat minor :: u32) \<noteq> 0" using n assms(1) by auto
    ultimately show ?thesis using False by (simp add: digits_rev.simps[of D 10 "of_nat minor"])
  qed
  show ?thesis using assms by (simp add: name_fits_def PARTN_NAME_MAX_def part_name_digits d)
qed

lemma new_partition_adds:
  assumes "pool_ok s" "free_partitions s \<noteq> []" "name_fits (hd_name (hd_devs s h)) minor"
  obtains t where "new_partition e minor h start sz s = Some t"
    "parts t = logical h (hd_name (hd_devs s h)) (minor, start, sz) # parts s" "pool_ok t"
    "free_partitions t = drop 1 (free_partitions s)" "hd_devs t = hd_devs s" "hd_list t = hd_list s"
proof -
  obtain p ps where p: "free_partitions s = p # ps" using assms(2) by (cases "free_partitions s") auto
  then have fresh: "p \<notin> set (partition_list s)" using assms(1) by (simp add: pool_ok_def)
  let ?t = "s\<lparr>free_partitions := ps, partition_pool := (partition_pool s)(p := logical h (hd_name (hd_devs s h)) (minor, start, sz)),
    partition_list := p # partition_list s\<rparr>"
  obtain f where f: "snd (hd_mount_partition p False ?t) = ?t\<lparr>hd_fs := f\<rparr>" using mount_fields by blast
  have "\<exists>f. new_partition e minor h start sz s = Some (?t\<lparr>hd_fs := f\<rparr>)"
  proof (cases "mp_system e = VMM_SYS")
    case True then show ?thesis using p f assms(3)
      by (intro exI[of _ f]) (simp add: new_partition_def alloc_partition_def add_partition_def Let_def logical_def)
  next
    case False then show ?thesis using p assms(3)
      by (intro exI[of _ "hd_fs s"]) (simp add: new_partition_def alloc_partition_def add_partition_def Let_def logical_def)
  qed
  then obtain g where g: "new_partition e minor h start sz s = Some (?t\<lparr>hd_fs := g\<rparr>)" by blast
  show thesis
    by (rule that[OF g]) (use assms(1) p fresh in \<open>auto simp: parts_def map_upd_fresh pool_ok_def\<close>)
qed

text \<open>A name that is too long stops the search; without a free partition no name is printed.\<close>

lemma new_partition_overflow:
  "free_partitions s \<noteq> [] \<Longrightarrow> \<not> name_fits (hd_name (hd_devs s h)) minor \<Longrightarrow> new_partition e minor h start sz s = None"
  by (cases "free_partitions s") (simp_all add: new_partition_def alloc_partition_def)

lemma new_partition_devs:
  assumes "free_partitions s \<noteq> [] \<Longrightarrow> name_fits (hd_name (hd_devs s h)) minor"
  obtains t where "new_partition e minor h start sz s = Some t" "hd_devs t = hd_devs s"
    "length (free_partitions t) = length (free_partitions s) - 1"
proof (cases "free_partitions s")
  case Nil show thesis by (rule that[of s]) (use Nil in \<open>simp_all add: new_partition_def alloc_partition_def\<close>)
next
  case (Cons p ps)
  obtain f where "snd (hd_mount_partition p False (add_partition p (s\<lparr>free_partitions := ps, partition_pool := (partition_pool s)(p :=
      \<lparr>p_start = start, p_size = sz, p_hd = h, p_name = part_name (hd_name (hd_devs s h)) minor\<rparr>)\<rparr>)))
    = add_partition p (s\<lparr>free_partitions := ps, partition_pool := (partition_pool s)(p :=
      \<lparr>p_start = start, p_size = sz, p_hd = h, p_name = part_name (hd_name (hd_devs s h)) minor\<rparr>)\<rparr>)\<lparr>hd_fs := f\<rparr>"
    using mount_fields by blast
  then have "\<exists>t. new_partition e minor h start sz s = Some t \<and> hd_devs t = hd_devs s \<and> length (free_partitions t) = length ps"
    using Cons assms by (simp add: new_partition_def alloc_partition_def add_partition_def Let_def)
  then show thesis using that Cons by auto
qed

text \<open>
  What the tables describe, as a list of minor number, first block and size: \<open>logicals\<close>
  for the chain of an extended partition, \<open>primaries\<close> for entries of the first table.
\<close>

inductive logicals :: "hd_dev \<Rightarrow> u32 \<Rightarrow> u32 \<Rightarrow> nat \<Rightarrow> (nat \<times> u32 \<times> u32) list \<Rightarrow> bool" for v ext_start where
  unreadable: "dev_read v cur 1 = None \<Longrightarrow> logicals v ext_start cur n []"
| unsigned: "dev_read v cur 1 = Some b \<Longrightarrow> \<not> TEST_SIG b \<Longrightarrow> logicals v ext_start cur n []"
| last_one: "dev_read v cur 1 = Some b \<Longrightarrow> TEST_SIG b \<Longrightarrow> mp_system (table_entry b 1) \<noteq> EXT_SYS \<Longrightarrow>
    logicals v ext_start cur n [(n, mp_start (table_entry b 0) + cur, mp_total (table_entry b 0))]"
| link: "dev_read v cur 1 = Some b \<Longrightarrow> TEST_SIG b \<Longrightarrow> mp_system (table_entry b 1) = EXT_SYS \<Longrightarrow>
    logicals v ext_start (ext_start + mp_start (table_entry b 1)) (n + 1) L \<Longrightarrow>
    logicals v ext_start cur n ((n, mp_start (table_entry b 0) + cur, mp_total (table_entry b 0)) # L)"

definition unused :: "msdos_partition \<Rightarrow> bool" where
  "unused e \<longleftrightarrow> mp_system e = 0 \<or> mp_total e = 0"

inductive primaries :: "hd_dev \<Rightarrow> u8 list \<Rightarrow> nat list \<Rightarrow> nat \<Rightarrow> (nat \<times> u32 \<times> u32) list \<Rightarrow> bool" for v mbr where
  none: "primaries v mbr [] n []"
| skip: "unused (table_entry mbr i) \<Longrightarrow> primaries v mbr is n L \<Longrightarrow> primaries v mbr (i # is) n L"
| plain: "\<not> unused (table_entry mbr i) \<Longrightarrow> mp_system (table_entry mbr i) \<noteq> EXT_SYS \<Longrightarrow> primaries v mbr is n L \<Longrightarrow>
    primaries v mbr (i # is) n ((i + 1, mp_start (table_entry mbr i), mp_total (table_entry mbr i)) # L)"
| extended: "\<not> unused (table_entry mbr i) \<Longrightarrow> mp_system (table_entry mbr i) = EXT_SYS \<Longrightarrow>
    logicals v (mp_start (table_entry mbr i)) (mp_start (table_entry mbr i)) n K \<Longrightarrow> primaries v mbr is (n + length K) L \<Longrightarrow>
    primaries v mbr (i # is) n ((i + 1, mp_start (table_entry mbr i), mp_total (table_entry mbr i)) # K @ L)"

text \<open>\<open>grown L s t\<close>: the partitions of \<open>L\<close> have been added in this order.\<close>

definition grown :: "nat \<Rightarrow> (nat \<times> u32 \<times> u32) list \<Rightarrow> hds \<Rightarrow> hds \<Rightarrow> bool" where
  "grown h L s t \<longleftrightarrow> parts t = rev (map (logical h (hd_name (hd_devs s h))) L) @ parts s \<and> pool_ok t
     \<and> free_partitions t = drop (length L) (free_partitions s) \<and> hd_devs t = hd_devs s \<and> hd_list t = hd_list s"

lemma grown_Nil: "pool_ok s \<Longrightarrow> grown h [] s s"
  by (simp add: grown_def)

lemma grown_new:
  assumes "pool_ok s" "free_partitions s \<noteq> []" "name_fits (hd_name (hd_devs s h)) minor"
  obtains t where "new_partition e minor h start sz s = Some t" "grown h [(minor, start, sz)] s t"
  by (rule new_partition_adds[OF assms]) (use that in \<open>auto simp: grown_def\<close>)

lemma grown_append: "grown h K s t \<Longrightarrow> grown h L t u \<Longrightarrow> grown h (K @ L) s u"
  by (simp add: grown_def add.commute)

lemma grown_pool: "grown h L s t \<Longrightarrow> pool_ok t" "grown h L s t \<Longrightarrow> hd_devs t = hd_devs s"
  "grown h L s t \<Longrightarrow> length (free_partitions t) = length (free_partitions s) - length L"
  by (simp_all add: grown_def)

abbreviation names_fit :: "hd_dev \<Rightarrow> (nat \<times> u32 \<times> u32) list \<Rightarrow> bool" where
  "names_fit v L \<equiv> \<forall>(minor, start, sz)\<in>set L. name_fits (hd_name v) minor"

lemma extended_chain_reads:
  assumes "logicals v ext_start cur n L" "hd_devs s h = v" "pool_ok s" "length L \<le> length (free_partitions s)" "names_fit v L"
  shows "\<exists>t. extended_chain h ext_start cur n s = Some (Some (n + length L, t)) \<and> grown h L s t"
  using assms
proof (induction cur n L arbitrary: s rule: logicals.induct)
  case (unreadable cur n)
  then show ?case by (subst extended_chain.simps) (simp add: grown_Nil)
next
  case (unsigned cur b n)
  then show ?case by (subst extended_chain.simps) (simp add: grown_Nil)
next
  case (last_one cur b n)
  then have "free_partitions s \<noteq> []" "name_fits (hd_name (hd_devs s h)) n" by auto
  from grown_new[OF last_one.prems(2) this] obtain t where
    "new_partition (table_entry b 0) n h (mp_start (table_entry b 0) + cur) (mp_total (table_entry b 0)) s = Some t"
    "grown h [(n, mp_start (table_entry b 0) + cur, mp_total (table_entry b 0))] s t" by metis
  with last_one.hyps last_one.prems(1) show ?case by (subst extended_chain.simps) (simp add: Let_def)
next
  case (link cur b n L)
  have "free_partitions s \<noteq> []" "name_fits (hd_name (hd_devs s h)) n" using link.prems(1,3,4) by auto
  from grown_new[OF link.prems(2) this] obtain t where
    t: "new_partition (table_entry b 0) n h (mp_start (table_entry b 0) + cur) (mp_total (table_entry b 0)) s = Some t" and
    g: "grown h [(n, mp_start (table_entry b 0) + cur, mp_total (table_entry b 0))] s t" by metis
  have le: "length L \<le> length (free_partitions t)" using grown_pool(3)[OF g] link.prems(3) by auto
  obtain u where u: "extended_chain h ext_start (ext_start + mp_start (table_entry b 1)) (n + 1) t = Some (Some (n + 1 + length L, u))"
    "grown h L t u"
    using link.IH[of t] grown_pool(1,2)[OF g] le link.prems(1,4) by auto
  show ?case using link.hyps(1-3) link.prems(1) u(1) t grown_append[OF g u(2)]
    by (subst extended_chain.simps) (simp add: Let_def)
qed

lemma primary_entries_read:
  assumes "primaries v mbr is n L" "hd_devs s h = v" "pool_ok s" "length L \<le> length (free_partitions s)" "names_fit v L"
  shows "\<exists>t. primary_entries h mbr is n s = Some (Some t) \<and> grown h L s t"
  using assms
proof (induction "is" n L arbitrary: s rule: primaries.induct)
  case none then show ?case by (simp add: grown_Nil)
next
  case (skip i "is" n L)
  then show ?case by (auto simp: unused_def Let_def)
next
  case (plain i "is" n L)
  let ?e = "table_entry mbr i"
  have "free_partitions s \<noteq> []" "name_fits (hd_name (hd_devs s h)) (i + 1)" using plain.prems(1,3,4) by auto
  from grown_new[OF plain.prems(2) this] obtain t where
    t: "new_partition ?e (i + 1) h (mp_start ?e) (mp_total ?e) s = Some t" and
    g: "grown h [(i + 1, mp_start ?e, mp_total ?e)] s t" by metis
  have le: "length L \<le> length (free_partitions t)" using grown_pool(3)[OF g] plain.prems(3) by auto
  obtain u where "primary_entries h mbr is n t = Some (Some u)" "grown h L t u"
    using plain.IH[of t] grown_pool(1,2)[OF g] le plain.prems(1,4) by auto
  then show ?case using plain.hyps(1,2) t grown_append[OF g, of L u] by (simp add: unused_def Let_def)
next
  case (extended i n K "is" L)
  let ?e = "table_entry mbr i"
  have "free_partitions s \<noteq> []" "name_fits (hd_name (hd_devs s h)) (i + 1)" using extended.prems(1,3,4) by auto
  from grown_new[OF extended.prems(2) this] obtain t where
    t: "new_partition ?e (i + 1) h (mp_start ?e) (mp_total ?e) s = Some t" and
    g: "grown h [(i + 1, mp_start ?e, mp_total ?e)] s t" by metis
  have le: "length K + length L \<le> length (free_partitions t)" using grown_pool(3)[OF g] extended.prems(3) by auto
  obtain w where w: "extended_chain h (mp_start ?e) (mp_start ?e) n t = Some (Some (n + length K, w))" "grown h K t w"
    using extended_chain_reads[OF extended.hyps(3), of t h] grown_pool(1,2)[OF g] le extended.prems(1,4) by auto
  have le2: "length L \<le> length (free_partitions w)" using grown_pool(3)[OF w(2)] le by auto
  obtain u where "primary_entries h mbr is (n + length K) w = Some (Some u)" "grown h L w u"
    using extended.IH[of w] grown_pool(1,2)[OF g] grown_pool(1,2)[OF w(2)] le2 extended.prems(1,4) by auto
  then show ?case using extended.hyps(1,2) t w(1) grown_append[OF g grown_append[OF w(2), of L u]]
    by (simp add: unused_def Let_def)
qed

text \<open>
  C8: Adding a disk makes a partition for the whole disk and one for every entry of its partition
  table and of the chain of tables of an extended partition, with the start and size the tables
  give and the name of the disk followed by the minor number, provided the pool has enough of them
  and every name fits in the eight bytes of an entry with its 0: at most six characters before a
  number of one digit, five before one of two (\<open>name_fits_digits\<close>).  The pool and the list stay
  disjoint.
\<close>

theorem disk_partitions_found:
  assumes "primaries (hd_devs s h) mbr [0, 1, 2, 3] 5 L" "dev_read (hd_devs s h) 0 1 = Some mbr" "TEST_SIG mbr"
    and "length (hd_name (hd_devs s h)) \<le> 6" "pool_ok s" "length L < length (free_partitions s)"
    and "\<forall>(minor, start, sz)\<in>set L. name_fits (hd_name (hd_devs s h)) minor"
  shows "\<exists>t. hd_add_dev h s = Some (Some (True, t))
    \<and> parts t = rev (\<lparr>p_start = 0, p_size = hd_blocks (hd_devs s h), p_hd = h, p_name = hd_name (hd_devs s h)\<rparr>
         # map (logical h (hd_name (hd_devs s h))) L) @ parts s
    \<and> hd_list t = h # hd_list s \<and> pool_ok t"
proof -
  let ?v = "hd_devs s h"
  obtain p ps where p: "free_partitions s = p # ps" using assms(6) by (cases "free_partitions s") auto
  let ?w = "\<lparr>p_start = 0, p_size = hd_blocks ?v, p_hd = h, p_name = hd_name ?v\<rparr>"
  let ?t = "s\<lparr>free_partitions := ps, partition_pool := (partition_pool s)(p := ?w), partition_list := p # partition_list s\<rparr>"
  have fresh: "p \<notin> set (partition_list s)" using assms(5) p by (simp add: pool_ok_def)
  have t: "pool_ok ?t" "parts ?t = ?w # parts s" "hd_devs ?t h = ?v" "length L \<le> length (free_partitions ?t)"
    using assms(5,6) p fresh by (auto simp: pool_ok_def parts_def map_upd_fresh)
  obtain u where u: "primary_entries h mbr [0, 1, 2, 3] 5 ?t = Some (Some u)" "grown h L ?t u"
    using primary_entries_read[OF assms(1) t(3,1,4) assms(7)] by blast
  have "hd_add_dev h s = Some (Some (True, add_hd h u))"
    using assms(2-4) u(1) p
    by (simp add: hd_add_dev_def Let_def PARTN_NAME_MAX_def alloc_partition_def add_partition_def del: primary_entries.simps)
  moreover have "parts (add_hd h u) = parts u" "pool_ok (add_hd h u) = pool_ok u" "hd_list (add_hd h u) = h # hd_list u"
    by (simp_all add: add_hd_def parts_def pool_ok_def)
  ultimately show ?thesis using u(2) t(2) by (intro exI[of _ "add_hd h u"]) (simp add: grown_def)
qed

section \<open>A circle of tables\<close>

abbreviation minors_fit :: "hd_dev \<Rightarrow> nat \<Rightarrow> hds \<Rightarrow> bool" where
  "minors_fit v n s \<equiv> \<forall>m. n \<le> m \<and> m < n + length (free_partitions s) \<longrightarrow> name_fits (hd_name v) m"

lemma circle_endless:
  assumes "extended_chain h ext_start cur n s = Some r"
    and C: "\<forall>c\<in>C. \<exists>b. dev_read v c 1 = Some b \<and> TEST_SIG b \<and> mp_system (table_entry b 1) = EXT_SYS
      \<and> ext_start + mp_start (table_entry b 1) \<in> C"
  shows "hd_devs s h = v \<longrightarrow> ext_start = ext_start \<longrightarrow> minors_fit v n s \<longrightarrow> cur \<notin> C"
proof (rule extended_chain.raw_induct[where P = "\<lambda>h e cur n s _. hd_devs s h = v \<longrightarrow> e = ext_start \<longrightarrow> minors_fit v n s \<longrightarrow> cur \<notin> C",
      OF _ assms(1)])
  fix ec h e cur n s r
  assume IH: "\<And>h e cur n s r. ec h e cur n s = Some r \<Longrightarrow> hd_devs s h = v \<longrightarrow> e = ext_start \<longrightarrow> minors_fit v n s \<longrightarrow> cur \<notin> C"
    and R: "(case dev_read (hd_devs s h) cur 1 of None \<Rightarrow> Some (Some (n, s))
      | Some embr \<Rightarrow> if \<not> TEST_SIG embr then Some (Some (n, s))
          else (let e0 = table_entry embr 0; l = table_entry embr 1
                in case new_partition e0 n h (mp_start e0 + cur) (mp_total e0) s of None \<Rightarrow> Some None
                   | Some s1 \<Rightarrow> if mp_system l \<noteq> EXT_SYS then Some (Some (n + 1, s1))
                       else ec h e (e + mp_start l) (n + 1) s1)) = Some r"
  show "hd_devs s h = v \<longrightarrow> e = ext_start \<longrightarrow> minors_fit v n s \<longrightarrow> cur \<notin> C"
  proof (intro impI notI)
    assume v: "hd_devs s h = v" "e = ext_start" and f: "minors_fit v n s" and "cur \<in> C"
    then obtain b where b: "dev_read v cur 1 = Some b" "TEST_SIG b" "mp_system (table_entry b 1) = EXT_SYS"
      "ext_start + mp_start (table_entry b 1) \<in> C" using C by blast
    have "free_partitions s \<noteq> [] \<Longrightarrow> name_fits (hd_name (hd_devs s h)) n" using f v(1) by (cases "free_partitions s") auto
    then obtain t where t: "new_partition (table_entry b 0) n h (mp_start (table_entry b 0) + cur) (mp_total (table_entry b 0)) s = Some t"
      "hd_devs t = hd_devs s" "length (free_partitions t) = length (free_partitions s) - 1" by (rule new_partition_devs)
    have "ec h e (e + mp_start (table_entry b 1)) (n + 1) t = Some r" using R b(1-3) v(1) t(1) by (simp add: Let_def)
    moreover have "minors_fit v (n + 1) t" using f t(3) by auto
    ultimately show False using IH[of h e "e + mp_start (table_entry b 1)" "n + 1" t r] v b(4) t(2) by simp
  qed
qed

text \<open>
  An extended partition whose tables are linked in a circle hangs the kernel: adding the disk
  never returns.  (\<open>C\<close> are the blocks of the tables.)  The names of the partitions that are
  made until the pool is empty have to fit; then the search goes on without making any.
\<close>

theorem cyclic_tables_hang:
  fixes v :: hd_dev
  assumes "hd_devs s h = v" "length (hd_name v) \<le> 6" "free_partitions s \<noteq> []"
    and "dev_read v 0 1 = Some mbr" "TEST_SIG mbr" "\<not> unused (table_entry mbr 0)" "mp_system (table_entry mbr 0) = EXT_SYS"
    and "mp_start (table_entry mbr 0) \<in> C"
    and "\<forall>c\<in>C. \<exists>b. dev_read v c 1 = Some b \<and> TEST_SIG b \<and> mp_system (table_entry b 1) = EXT_SYS
      \<and> mp_start (table_entry mbr 0) + mp_start (table_entry b 1) \<in> C"
    and "\<forall>m. 0 < m \<and> m < 5 + length (free_partitions s) \<longrightarrow> name_fits (hd_name v) m"
  shows "hd_add_dev h s = None"
proof -
  let ?e = "table_entry mbr 0"
  have "extended_chain h (mp_start ?e) (mp_start ?e) 5 t = None" if "hd_devs t h = v" "minors_fit v 5 t" for t
    using circle_endless[of h "mp_start ?e" "mp_start ?e" 5 t _ C v] assms(8,9) that by (meson not_Some_eq)
  moreover have "\<exists>u. new_partition ?e 1 h (mp_start ?e) (mp_total ?e) t = Some u \<and> hd_devs u h = v \<and> minors_fit v 5 u"
    if "hd_devs t h = v" "length (free_partitions t) < length (free_partitions s)" for t
    by (rule new_partition_devs[of t h 1]) (use that assms(10) in auto)
  ultimately have "primary_entries h mbr [0, 1, 2, 3] 5 t = None"
    if "hd_devs t h = v" "length (free_partitions t) < length (free_partitions s)" for t
    using that assms(6,7) by (fastforce simp: unused_def Let_def)
  then show ?thesis using assms(1-5)
    by (cases "free_partitions s")
       (simp_all add: hd_add_dev_def Let_def PARTN_NAME_MAX_def alloc_partition_def add_partition_def del: primary_entries.simps)
qed

section \<open>A concrete disk\<close>

text \<open>
  A disk of 1000 blocks with one primary partition and an extended one of two logical partitions,
  and one whose extended partition's table is linked to itself.
\<close>

definition entry_bytes :: "msdos_partition \<Rightarrow> u8 list" where
  "entry_bytes e = [0, 0, 0, 0, mp_system e, 0, 0, 0] @ long_bytes (mp_start e) @ long_bytes (mp_total e)"

definition table_block :: "msdos_partition \<Rightarrow> msdos_partition \<Rightarrow> u8 list" where
  "table_block e l = replicate 446 0 @ entry_bytes e @ entry_bytes l @ replicate 32 0 @ [0x55, 0xaa]"

definition demo_disk_dev :: "u32 \<Rightarrow> hd_dev" where
  "demo_disk_dev next = \<lparr>hd_name = ascii ''hda'', hd_blocks = 1000,
     hd_sector = (\<lambda>b. if b = 0 then table_block \<lparr>mp_system = 6, mp_start = 63, mp_total = 100\<rparr> \<lparr>mp_system = 5, mp_start = 200, mp_total = 300\<rparr>
       else if b = 200 then table_block \<lparr>mp_system = 6, mp_start = 1, mp_total = 50\<rparr> \<lparr>mp_system = 5, mp_start = next, mp_total = 60\<rparr>
       else if b = 300 then table_block \<lparr>mp_system = 6, mp_start = 1, mp_total = 59\<rparr> \<lparr>mp_system = 0, mp_start = 0, mp_total = 0\<rparr>
       else replicate 512 0),
     hd_ok = (\<lambda>b n. unat b + unat n \<le> 1000)\<rparr>"

lemma table_block_sig: "TEST_SIG (table_block e l)"
  by (simp add: TEST_SIG_def table_block_def entry_bytes_def long_bytes_def nth_append)

lemma long_of_bytes:
  "ucast (ucast v :: u8) OR push_bit 8 (ucast (ucast (drop_bit 8 v) :: u8)) OR push_bit 16 (ucast (ucast (drop_bit 16 v) :: u8))
     OR push_bit 24 (ucast (ucast (drop_bit 24 v) :: u8)) = (v :: u32)"
  using load32_store32_same[of "\<lambda>_. 0" 0 v] by (simp add: load32_def store32_def)

lemma table_block_entries:
  "table_entry (table_block e l) 0 = e" "table_entry (table_block e l) (Suc 0) = l"
  "mp_system (table_entry (table_block e l) 2) = 0" "mp_system (table_entry (table_block e l) 3) = 0"
  by (simp_all add: table_entry_def table_block_def entry_bytes_def long_bytes_def nth_append get_long_def Let_def long_of_bytes)

lemma demo_read:
  "dev_read (demo_disk_dev next) b 1 = (if b = 2 ^ 32 - 1 \<or> unat b + 1 > 1000 then None else Some (hd_sector (demo_disk_dev next) b))"
  by (auto simp: dev_read_def demo_disk_dev_def)

definition demo_hds :: "u32 \<Rightarrow> hds" where
  "demo_hds next = \<lparr>hd_devs = (\<lambda>_. demo_disk_dev next), hd_list = [], partition_pool = (\<lambda>i.
       \<lparr>p_start = of_nat (100 * i), p_size = 100, p_hd = 0, p_name = []\<rparr>),
     free_partitions = [0..<NR_PARTITIONS], partition_list = [], hd_fs = blank_fs (disk_dev (\<lambda>_. []) 0)\<rparr>"

lemma demo_tables:
  "hd_sector (demo_disk_dev next) 0 = table_block \<lparr>mp_system = 6, mp_start = 63, mp_total = 100\<rparr> \<lparr>mp_system = 5, mp_start = 200, mp_total = 300\<rparr>"
  "hd_sector (demo_disk_dev next) 200 = table_block \<lparr>mp_system = 6, mp_start = 1, mp_total = 50\<rparr> \<lparr>mp_system = 5, mp_start = next, mp_total = 60\<rparr>"
  "hd_sector (demo_disk_dev next) 300 = table_block \<lparr>mp_system = 6, mp_start = 1, mp_total = 59\<rparr> \<lparr>mp_system = 0, mp_start = 0, mp_total = 0\<rparr>"
  by (simp_all add: demo_disk_dev_def)

lemma demo_logicals: "logicals (demo_disk_dev 100) 200 200 5 [(5, 201, 50), (6, 301, 59)]"
proof -
  let ?v = "demo_disk_dev 100"
  have "logicals ?v 200 300 6 [(6, mp_start (table_entry (hd_sector ?v 300) 0) + 300, mp_total (table_entry (hd_sector ?v 300) 0))]"
    by (rule logicals.last_one) (simp_all add: demo_read demo_tables table_block_sig table_block_entries EXT_SYS_def)
  then have "logicals ?v 200 (200 + mp_start (table_entry (hd_sector ?v 200) 1)) (5 + 1) [(6, 301, 59)]"
    by (simp add: demo_tables table_block_entries)
  then have "logicals ?v 200 200 5 ((5, mp_start (table_entry (hd_sector ?v 200) 0) + 200, mp_total (table_entry (hd_sector ?v 200) 0)) # [(6, 301, 59)])"
    by (rule logicals.link[rotated 3]) (simp_all add: demo_read demo_tables table_block_sig table_block_entries EXT_SYS_def)
  then show ?thesis by (simp add: demo_tables table_block_entries)
qed

lemma demo_primaries:
  "primaries (demo_disk_dev 100) (hd_sector (demo_disk_dev 100) 0) [0, 1, 2, 3] 5 [(1, 63, 100), (2, 200, 300), (5, 201, 50), (6, 301, 59)]"
proof -
  let ?v = "demo_disk_dev 100" and ?m = "hd_sector (demo_disk_dev 100) 0"
  have r: "primaries ?v ?m [2, 3] 7 []"
    by (intro primaries.skip primaries.none) (simp_all add: unused_def demo_tables table_block_entries)
  have "primaries ?v ?m (1 # [2, 3]) 5
      ((1 + 1, mp_start (table_entry ?m 1), mp_total (table_entry ?m 1)) # [(5, 201, 50), (6, 301, 59)] @ [])"
    by (rule primaries.extended) (use r demo_logicals in \<open>simp_all add: unused_def demo_tables table_block_entries EXT_SYS_def\<close>)
  then have "primaries ?v ?m (0 # [1, 2, 3]) 5
      ((0 + 1, mp_start (table_entry ?m 0), mp_total (table_entry ?m 0)) # (1 + 1, mp_start (table_entry ?m 1), mp_total (table_entry ?m 1))
        # [(5, 201, 50), (6, 301, 59)] @ [])"
    by (rule primaries.plain[rotated 2]) (simp_all add: unused_def demo_tables table_block_entries EXT_SYS_def)
  moreover have "(1 + 1 :: nat) = 2" by simp
  ultimately show ?thesis by (simp only: append_Nil2 demo_tables table_block_entries One_nat_def add_0) (simp add: numeral_2_eq_2)
qed

lemma demo_state:
  "hd_devs (demo_hds next) h = demo_disk_dev next" "hd_name (demo_disk_dev next) = ascii ''hda''" "length (ascii ''hda'') = 3"
  "pool_ok (demo_hds next)" "length (free_partitions (demo_hds next)) = 32" "parts (demo_hds next) = []" "hd_list (demo_hds next) = []"
  "partition_pool (demo_hds next) i = \<lparr>p_start = of_nat (100 * i), p_size = 100, p_hd = 0, p_name = []\<rparr>"
  by (simp_all add: demo_hds_def demo_disk_dev_def pool_ok_def parts_def NR_PARTITIONS_def ascii_def)

lemma hda_names:
  "0 < m \<Longrightarrow> m < 100 \<Longrightarrow> name_fits (ascii ''hda'') m"
  "part_name (ascii ''hda'') 1 = ascii ''hda1''" "part_name (ascii ''hda'') 6 = ascii ''hda6''"
  by (auto simp: name_fits_digits demo_state part_name_digits digits_rev.simps ascii_def)

theorem disk_partitions_found_witness:
  "\<exists>t. hd_add_dev 0 (demo_hds 100) = Some (Some (True, t)) \<and> length (parts t) = 5 \<and>
    map (\<lambda>q. (p_start q, p_size q)) (parts t) = [(301, 59), (201, 50), (200, 300), (63, 100), (0, 1000)]
    \<and> p_name (parts t ! 0) = ascii ''hda6'' \<and> p_name (parts t ! 3) = ascii ''hda1''"
proof -
  obtain t where t: "hd_add_dev 0 (demo_hds 100) = Some (Some (True, t))"
    "parts t = rev (\<lparr>p_start = 0, p_size = hd_blocks (demo_disk_dev 100), p_hd = 0, p_name = ascii ''hda''\<rparr>
         # map (logical 0 (ascii ''hda'')) [(1, 63, 100), (2, 200, 300), (5, 201, 50), (6, 301, 59)])"
    using disk_partitions_found[where s = "demo_hds 100" and h = 0 and mbr = "hd_sector (demo_disk_dev 100) 0"
      and L = "[(1, 63, 100), (2, 200, 300), (5, 201, 50), (6, 301, 59)]"] demo_primaries
    by (auto simp: demo_state demo_read demo_tables table_block_sig hda_names(1))
  moreover have "hd_blocks (demo_disk_dev 100) = 1000" by (simp add: demo_disk_dev_def)
  ultimately show ?thesis by (intro exI[of _ t]) (simp add: logical_def hda_names hda_names(2)[unfolded One_nat_def])
qed

text \<open>
  The test of the length of a disk's name in \<open>hd_add_dev\<close> lets six characters pass, for which a minor
  number of two digits does not fit.
\<close>

lemma long_disk_name_overflows:
  assumes "length (hd_name (hd_devs s h)) = PARTN_NAME_MAX - 2" "free_partitions s \<noteq> []" "10 \<le> minor" "minor < 100"
  shows "new_partition e minor h start sz s = None"
  using assms by (intro new_partition_overflow) (simp_all add: name_fits_digits PARTN_NAME_MAX_def)

text \<open>A disk on which every block is the same table, whose second entry leads back to the first table.\<close>

definition circle_dev :: hd_dev where
  "circle_dev = (demo_disk_dev 0)\<lparr>hd_sector := (\<lambda>_. table_block \<lparr>mp_system = 5, mp_start = 200, mp_total = 300\<rparr>
     \<lparr>mp_system = 5, mp_start = 0, mp_total = 60\<rparr>)\<rparr>"

theorem cyclic_tables_hang_witness: "hd_add_dev 0 ((demo_hds 0)\<lparr>hd_devs := (\<lambda>_. circle_dev)\<rparr>) = None"
proof -
  have r: "dev_read circle_dev b 1 = Some (table_block \<lparr>mp_system = 5, mp_start = 200, mp_total = 300\<rparr>
     \<lparr>mp_system = 5, mp_start = 0, mp_total = 60\<rparr>)" if "unat b + 1 \<le> 1000" for b
    using that by (simp add: dev_read_def circle_dev_def demo_disk_dev_def)
  have n: "length (hd_name circle_dev) \<le> 6" by (simp add: circle_dev_def demo_disk_dev_def ascii_def)
  have f: "name_fits (hd_name circle_dev) m" if "0 < m" "m < 37" for m
    using hda_names(1)[of m] that by (simp add: circle_dev_def demo_disk_dev_def)
  show ?thesis
    by (rule cyclic_tables_hang[where v = circle_dev and C = "{200}" and mbr = "table_block
        \<lparr>mp_system = 5, mp_start = 200, mp_total = 300\<rparr> \<lparr>mp_system = 5, mp_start = 0, mp_total = 60\<rparr>"])
       (simp_all add: r n f table_block_sig table_block_entries unused_def EXT_SYS_def demo_hds_def NR_PARTITIONS_def)
qed

theorem partition_check_wraps_witness:
  "\<exists>s'. hd_write_blocks 2 (- 5) 5 (replicate 2560 7) (demo_hds 0) = (True, s')
    \<and> hd_sector (hd_devs s' 0) 195 = replicate 512 7"
proof -
  have p: "p_start (partition_pool (demo_hds 0) 2) = 200" "p_hd (partition_pool (demo_hds 0) 2) = 0"
    by (simp_all add: demo_state)
  have "\<exists>s'. hd_write_blocks 2 (- 5) 5 (replicate 2560 7) (demo_hds 0) = (True, s')
    \<and> (\<forall>i < unat (5 :: u32). hd_sector (hd_devs s' (p_hd (partition_pool (demo_hds 0) 2)))
          (p_start (partition_pool (demo_hds 0) 2) - 5 + of_nat i) = take 512 (drop (512 * i) (replicate 2560 7)))"
    by (rule partition_check_wraps) (simp_all add: p demo_state demo_disk_dev_def)
  then obtain s' where "hd_write_blocks 2 (- 5) 5 (replicate 2560 7) (demo_hds 0) = (True, s')"
    "\<forall>i < unat (5 :: u32). hd_sector (hd_devs s' 0) (200 - 5 + of_nat i) = take 512 (drop (512 * i) (replicate 2560 7))"
    unfolding p by blast
  then show ?thesis by (intro exI[of _ s']) (auto dest: spec[of _ 0])
qed


end
