(* ===== verification/UserMem.thy ===== *)
theory UserMem
  imports VIde
begin

text \<open>
  Bulk accesses to the memory of the virtual machine (vmm/segment.h): string instructions through
  the segment register \<open>fs\<close>.  Every element is an access of its own, which faults until the page is
  there; \<open>None\<close> as for the single accesses of \<open>VmCore\<close>.
\<close>

unbundle bit_operations_syntax

section \<open>Filling\<close>

primrec memset_user :: "u32 \<Rightarrow> u8 \<Rightarrow> nat \<Rightarrow> 'a vmach_scheme \<Rightarrow> 'a vmach_scheme option" where
  "memset_user p c 0 = Some"
| "memset_user p c (Suc n) = (\<lambda>s. Option.bind (put_user_byte c p s) (memset_user (p + 1) c n))"

primrec memsetw_user :: "u32 \<Rightarrow> u16 \<Rightarrow> nat \<Rightarrow> 'a vmach_scheme \<Rightarrow> 'a vmach_scheme option" where
  "memsetw_user p w 0 = Some"
| "memsetw_user p w (Suc n) = (\<lambda>s. Option.bind (put_user_short w p s) (memsetw_user (p + 2) w n))"

primrec memsetl_user :: "u32 \<Rightarrow> u32 \<Rightarrow> nat \<Rightarrow> 'a vmach_scheme \<Rightarrow> 'a vmach_scheme option" where
  "memsetl_user p l 0 = Some"
| "memsetl_user p l (Suc n) = (\<lambda>s. Option.bind (put_user_long l p s) (memsetl_user (p + 4) l n))"

section \<open>Copying\<close>

text \<open>One step of \<open>movsb\<close>, \<open>movsw\<close> and \<open>movsl\<close> with both pointers in user memory.\<close>

definition movsb_user :: "u32 \<Rightarrow> u32 \<Rightarrow> 'a vmach_scheme \<Rightarrow> 'a vmach_scheme option" where
  "movsb_user d p s = Option.bind (get_user_byte p s) (\<lambda>(b, s1). put_user_byte b d s1)"

definition movsw_user :: "u32 \<Rightarrow> u32 \<Rightarrow> 'a vmach_scheme \<Rightarrow> 'a vmach_scheme option" where
  "movsw_user d p s = Option.bind (get_user_short p s) (\<lambda>(w, s1). put_user_short w d s1)"

definition movsl_user :: "u32 \<Rightarrow> u32 \<Rightarrow> 'a vmach_scheme \<Rightarrow> 'a vmach_scheme option" where
  "movsl_user d p s = Option.bind (get_user_long p s) (\<lambda>(l, s1). put_user_long l d s1)"

primrec rep_movsl :: "u32 \<Rightarrow> u32 \<Rightarrow> nat \<Rightarrow> 'a vmach_scheme \<Rightarrow> 'a vmach_scheme option" where
  "rep_movsl d p 0 = Some"
| "rep_movsl d p (Suc n) = (\<lambda>s. Option.bind (movsl_user d p s) (rep_movsl (d + 4) (p + 4) n))"

definition memcpy_user :: "u32 \<Rightarrow> u32 \<Rightarrow> u32 \<Rightarrow> 'a vmach_scheme \<Rightarrow> 'a vmach_scheme option" where
  "memcpy_user d p n s =
     (let k = n div 4; odd1 = (if bit n 0 then 1 else 0)
      in Option.bind (rep_movsl d p (unat k) s) (\<lambda>s1.
         Option.bind (if bit n 0 then movsb_user (d + 4 * k) (p + 4 * k) s1 else Some s1) (\<lambda>s2.
         if bit n 1 then movsw_user (d + 4 * k + odd1) (p + 4 * k + odd1) s2 else Some s2)))"

end
