(* ===== verification/VFloppy.thy ===== *)
theory VFloppy
  imports Tty UserMem FsDir
begin

text \<open>
  The virtual floppy disk, drivers/virtual/vfloppy/vfloppy.c: a file of the file system that holds
  the image of a disk of two heads and eighty tracks.  The state carries the file system the
  kernel of the host runs (\<open>host_fs\<close>).
\<close>

unbundle bit_operations_syntax

section \<open>State\<close>

record vfloppy =
  got_disk :: bool
  fl_is_file :: bool
  fl_file :: "nat option"
  fl_blocks :: u32
  sectors_per_track :: u32
  last_stat :: u16
  fl_status :: u16
  fl_error :: u16

record vfls = ttys +
  slot_vfloppy :: "vfloppy option"
  vfloppy_open_count :: int
  host_fs :: fsys

definition delete_vfloppy_fn :: kill_fn where "delete_vfloppy_fn = other_kill_fn 1"

definition upd_floppy :: "(vfloppy \<Rightarrow> vfloppy) \<Rightarrow> 'a vfls_scheme \<Rightarrow> 'a vfls_scheme" where
  "upd_floppy f s = s\<lparr>slot_vfloppy := map_option f (slot_vfloppy s)\<rparr>"

section \<open>Creation, change of the disk, deletion\<close>

definition delete_vfloppy :: "'a vfls_scheme \<Rightarrow> 'a vfls_scheme" where
  "delete_vfloppy s =
     (case slot_vfloppy s of None \<Rightarrow> s
      | Some v \<Rightarrow>
          s\<lparr>slot_vfloppy := None,
            host_fs := (if fl_is_file v then close_file (fl_file v) (host_fs s) else host_fs s),
            vfloppy_open_count := vfloppy_open_count s - 1\<rparr>)"

definition kill_vfloppy :: "'a vfls_scheme \<Rightarrow> 'a vfls_scheme" where
  "kill_vfloppy s =
     (case slot_vfloppy s of None \<Rightarrow> s
      | Some v \<Rightarrow>
          (case fl_file v of None \<Rightarrow> s
           | Some f \<Rightarrow> s\<lparr>slot_vfloppy := Some (v\<lparr>fl_file := None\<rparr>), host_fs := close_file (Some f) (host_fs s)\<rparr>))"

text \<open>The file is opened before the test for a floppy drive, and stays open without one.\<close>

definition change_vfloppy :: "cstr \<Rightarrow> 'a vfls_scheme \<Rightarrow> bool \<times> 'a vfls_scheme" where
  "change_vfloppy new_file s =
     (case open_file new_file F_READ (host_fs s) of (f, fs1) \<Rightarrow>
        (case slot_vfloppy s of
           None \<Rightarrow> (False, s\<lparr>host_fs := fs1\<rparr>)
         | Some v \<Rightarrow>
             (case f of
                None \<Rightarrow> (False, s\<lparr>host_fs := fs1, slot_vfloppy := Some (v\<lparr>got_disk := False\<rparr>)\<rparr>)
              | Some n \<Rightarrow>
                  (let fs2 = (if fl_file v \<noteq> None then close_file (fl_file v) fs1 else fs1)
                   in (True, s\<lparr>host_fs := fs2, slot_vfloppy := Some (v\<lparr>fl_file := Some n,
                        sectors_per_track := fsize (file_inode fs2 n) div (512 * 160),
                        last_stat := 0, got_disk := True, fl_is_file := True\<rparr>)\<rparr>)))))"

text \<open>\<open>create_vfloppy\<close>; \<open>arg\<close> is the name of the image if there is an argument, \<open>mem_ok\<close> the result of \<open>calloc\<close>.\<close>

definition create_vfloppy :: "bool \<Rightarrow> cstr option \<Rightarrow> 'a vfls_scheme \<Rightarrow> bool \<times> 'a vfls_scheme" where
  "create_vfloppy mem_ok arg s =
     (if \<not> mem_ok then (False, s)
      else (let v = \<lparr>got_disk = False, fl_is_file = False, fl_file = None, fl_blocks = 0,
                  sectors_per_track = 0, last_stat = 0, fl_status = 0, fl_error = 0\<rparr>;
                s1 = (add_vm_kill_handler delete_vfloppy_fn s)\<lparr>slot_vfloppy := Some v,
                       vfloppy_open_count := vfloppy_open_count s + 1\<rparr>
            in (True, case arg of None \<Rightarrow> s1 | Some nm \<Rightarrow> snd (change_vfloppy nm s1))))"

section \<open>Block access for the BIOS\<close>

definition set_last_stat :: "u16 \<Rightarrow> 'a vfls_scheme \<Rightarrow> 'a vfls_scheme" where
  "set_last_stat e = upd_floppy (\<lambda>v. v\<lparr>last_stat := e\<rparr>)"

text \<open>The loop over the blocks; \<open>n\<close> is how many are still to do, \<open>i\<close> how many are done.\<close>

fun floppy_loop :: "nat \<Rightarrow> u32 \<Rightarrow> int \<Rightarrow> 'a vfls_scheme \<Rightarrow> (int \<times> 'a vfls_scheme) option" where
  "floppy_loop 0 buf i s = Some (i, set_last_stat 0 s)"
| "floppy_loop (Suc n) buf i s =
     (case read_file 512 (fl_file (the (slot_vfloppy s))) (host_fs s) of (got, data, fs1) \<Rightarrow>
        (let s1 = s\<lparr>host_fs := fs1\<rparr>
         in if got \<noteq> 512 then Some (i, set_last_stat 0x0c s1)
            else Option.bind (memcpy_to_user buf data s1) (floppy_loop n (buf + 512) (i + 1))))"

definition floppy_blkno :: "vfloppy \<Rightarrow> u32 \<Rightarrow> u32 \<Rightarrow> u32 \<Rightarrow> u32" where
  "floppy_blkno v hdno track sec = (sec - 1) + hdno * sectors_per_track v + track * 2 * sectors_per_track v"

definition vfloppy_read_sectors ::
    "u32 \<Rightarrow> u32 \<Rightarrow> u32 \<Rightarrow> u32 \<Rightarrow> int \<Rightarrow> u32 \<Rightarrow> 'a vfls_scheme \<Rightarrow> (int \<times> 'a vfls_scheme) option" where
  "vfloppy_read_sectors drvno hdno track sec count buf s =
     (case slot_vfloppy s of
        None \<Rightarrow> Some (0, s)
      | Some v \<Rightarrow>
          (if \<not> got_disk v then Some (0, set_last_stat 0x80 s)
           else if hdno \<ge> 2 \<or> track \<ge> 80 \<or> sec - 1 \<ge> sectors_per_track v then Some (0, set_last_stat 0x04 s)
           else (case seek_file (fl_file v) (floppy_blkno v hdno track sec * 512) SEEK_ABS (host_fs s) of (r, fs1) \<Rightarrow>
                   (let s1 = s\<lparr>host_fs := fs1\<rparr>
                    in if r < 0 then Some (0, set_last_stat 0x04 s1)
                       else floppy_loop (nat count) buf 0 s1))))"

text \<open>\<open>status\<close> and \<open>error\<close>, not \<open>last_stat\<close>.\<close>

definition vfloppy_get_status :: "'a vfls_scheme \<Rightarrow> (u8 \<times> u8) option" where
  "vfloppy_get_status s = map_option (\<lambda>v. (ucast (fl_status v), ucast (fl_error v))) (slot_vfloppy s)"

definition vfloppy_init :: "bool \<Rightarrow> bool \<Rightarrow> 'a vfls_scheme \<Rightarrow> (int \<times> bool) \<times> 'a vfls_scheme" where
  "vfloppy_init fs_ok vm_ok s =
     (if fs_ok \<and> vm_ok then (let (slot, s1) = alloc_vm_slot s in ((slot, slot \<ge> 0), s1)) else ((-1, False), s))"

definition vfloppy_expunge :: "int \<Rightarrow> 'a vfls_scheme \<Rightarrow> bool \<times> 'a vfls_scheme" where
  "vfloppy_expunge slot s =
     (if vfloppy_open_count s = 0 then (True, free_vm_slot slot s) else (False, s))"

end
