(* ===== verification/VBios.thy ===== *)
theory VBios
  imports VFloppy
begin

text \<open>
  The virtual BIOS: the video services INT 10 (drivers/virtual/vbios/video.c).  The handlers take and
  return the registers of the virtual machine and the state; \<open>None\<close>: the service never returns.
  The terminal of the virtual machine is number \<open>vm_video\<close>.
\<close>

unbundle bit_operations_syntax

text \<open>A loop that does \<open>f\<close> for every number of a list.\<close>

primrec each :: "('i \<Rightarrow> 's \<Rightarrow> 's option) \<Rightarrow> 'i list \<Rightarrow> 's \<Rightarrow> 's option" where
  "each f [] = Some"
| "each f (i # xs) = (\<lambda>s. Option.bind (f i s) (each f xs))"

section \<open>The BIOS data area\<close>

definition BIOS_DATA :: u32 where "BIOS_DATA = 0x400"
definition KBD_BUF :: u16 where "KBD_BUF = 0x1e"
definition lpt1_base_p :: u32 where "lpt1_base_p = 0x408"
definition equipment_data_p :: u32 where "equipment_data_p = 0x410"
definition low_memory_p :: u32 where "low_memory_p = 0x413"
definition kbd_buf_head_p :: u32 where "kbd_buf_head_p = 0x41a"
definition kbd_buf_tail_p :: u32 where "kbd_buf_tail_p = 0x41c"
definition drive_status_p :: u32 where "drive_status_p = 0x441"
definition display_mode_p :: u32 where "display_mode_p = 0x449"
definition display_cols_p :: u32 where "display_cols_p = 0x44a"
definition display_buf_size_p :: u32 where "display_buf_size_p = 0x44c"
definition display_buf_start_p :: u32 where "display_buf_start_p = 0x44e"
definition cursor_pos_p :: "u32 \<Rightarrow> u32" where "cursor_pos_p pg = 0x450 + 2 * pg"
definition cursor_type_p :: u32 where "cursor_type_p = 0x460"
definition active_page_p :: u32 where "active_page_p = 0x462"
definition crt_base_p :: u32 where "crt_base_p = 0x463"
definition timer_counter_p :: u32 where "timer_counter_p = 0x46c"
definition timer_overflow_p :: u32 where "timer_overflow_p = 0x470"
definition fixed_disk_status_p :: u32 where "fixed_disk_status_p = 0x474"
definition kbd_buf_start_p :: u32 where "kbd_buf_start_p = 0x480"
definition kbd_buf_end_p :: u32 where "kbd_buf_end_p = 0x482"
definition display_rows_p :: u32 where "display_rows_p = 0x484"
definition video_control_states_p :: u32 where "video_control_states_p = 0x487"

section \<open>The screen\<close>

definition vt_cols :: "nat \<Rightarrow> 'a ttys_scheme \<Rightarrow> u32" where "vt_cols t s = mi_cols (v_mi (videos s t))"
definition vt_rows :: "nat \<Rightarrow> 'a ttys_scheme \<Rightarrow> u32" where "vt_rows t s = mi_rows (v_mi (videos s t))"
definition vt_buf :: "nat \<Rightarrow> 'a ttys_scheme \<Rightarrow> u32" where "vt_buf t s = mi_buffer (v_mi (videos s t))"

definition bios_find_page :: "nat \<Rightarrow> u32 \<Rightarrow> 'a ttys_scheme \<Rightarrow> u32" where
  "bios_find_page t pageno s = vt_buf t s + TTY_PAGE_SIZE t s * pageno"

definition bios_scroll_up_one :: "nat \<Rightarrow> u32 \<Rightarrow> 'a ttys_scheme \<Rightarrow> 'a ttys_scheme option" where
  "bios_scroll_up_one t pg s =
     (let buf = bios_find_page t pg s; c = vt_cols t s; r = vt_rows t s
      in Option.bind (memcpy_user buf (buf + c * 2) (c * 2 * (r - 1)) s)
           (memsetw_user (buf + c * 2 * (r - 1)) 0x0720 (unat c)))"

section \<open>Printing\<close>

text \<open>
  Where the characters come from: a string of the kernel, which must be long enough, or the
  memory of the virtual machine.
\<close>

datatype bios_src = Kernel_str "u8 list" | User_str u32

definition next_char :: "bios_src \<Rightarrow> 'a ttys_scheme \<Rightarrow> (u8 \<times> bios_src \<times> 'a ttys_scheme) option" where
  "next_char src s =
     (case src of
        Kernel_str [] \<Rightarrow> None
      | Kernel_str (c # rest) \<Rightarrow> Some (c, Kernel_str rest, s)
      | User_str p \<Rightarrow> map_option (\<lambda>(c, s1). (c, User_str (p + 1), s1)) (get_user_byte p s))"

text \<open>\<open>UPDATE_POINT\<close>\<close>

definition bios_point :: "nat \<Rightarrow> u32 \<Rightarrow> int \<Rightarrow> int \<Rightarrow> 'a ttys_scheme \<Rightarrow> u32" where
  "bios_point t pg col row s = bios_find_page t pg s + (of_int row * vt_cols t s + of_int col) * 2"

text \<open>\<open>if (++row >= TTY_ROWS) { row--; bios_scroll_up_one }\<close>, an unsigned comparison.\<close>

definition bios_next_row :: "nat \<Rightarrow> u32 \<Rightarrow> int \<Rightarrow> 'a ttys_scheme \<Rightarrow> (int \<times> 'a ttys_scheme) option" where
  "bios_next_row t pg row s =
     (let r1 = short (row + 1)
      in if of_int r1 \<ge> vt_rows t s then map_option (\<lambda>s1. (short (r1 - 1), s1)) (bios_scroll_up_one t pg s)
         else Some (r1, s))"

text \<open>One turn of the loop; the state of the loop is the pointer, the column, the row and the source.\<close>

definition bios_put :: "nat \<Rightarrow> u32 \<Rightarrow> u8 \<Rightarrow> u8 \<Rightarrow> u8 \<Rightarrow> u32 \<times> int \<times> int \<times> bios_src \<times> 'a ttys_scheme
    \<Rightarrow> (u32 \<times> int \<times> int \<times> bios_src \<times> 'a ttys_scheme) option" where
  "bios_put t pg ty att c = (\<lambda>(pt, col, row, src, s).
     (if c = 0x08
      then (let c1 = short (col - 1); r1 = short (row - 1);
                (col', row') = (if c1 < 0 then (if r1 < 0 then (0, 0) else (short (uint (vt_cols t s - 1)), r1)) else (c1, row))
            in Some (bios_point t pg col' row' s, col', row', src, s))
      else if c = 0x0d then Some (bios_point t pg 0 row s, 0, row, src, s)
      else if c = 0x0a
      then map_option (\<lambda>(row', s1). (bios_point t pg 0 row' s1, 0, row', src, s1)) (bios_next_row t pg row s)
      else if c = 0x07 then Some (pt, col, row, src, s)
      else Option.bind
             (if of_int (short (col + 1)) \<ge> vt_cols t s
              then map_option (\<lambda>(row', s1). (bios_point t pg 0 row' s1, 0, row', s1)) (bios_next_row t pg row s)
              else Some (pt, short (col + 1), row, s))
             (\<lambda>(pt1, col1, row1, s1).
                Option.bind (put_user_byte c pt1 s1) (\<lambda>s2.
                Option.bind (if ty AND 2 \<noteq> 0 then next_char src s2 else Some (att, src, s2)) (\<lambda>(a, src', s3).
                map_option (\<lambda>s4. (pt1 + 2, col1, row1, src', s4)) (put_user_byte a (pt1 + 1) s3))))))"

primrec bios_print_loop :: "nat \<Rightarrow> nat \<Rightarrow> u32 \<Rightarrow> u8 \<Rightarrow> u8 \<Rightarrow> u32 \<times> int \<times> int \<times> bios_src \<times> 'a ttys_scheme
    \<Rightarrow> (u32 \<times> int \<times> int \<times> bios_src \<times> 'a ttys_scheme) option" where
  "bios_print_loop 0 t pg ty att st = Some st"
| "bios_print_loop (Suc n) t pg ty att st =
     (case st of (pt, col, row, src, s) \<Rightarrow>
        Option.bind (next_char src s) (\<lambda>(c, src1, s1).
        Option.bind (bios_put t pg ty att c (pt, col, row, src1, s1)) (bios_print_loop n t pg ty att)))"

definition bios_print :: "nat \<Rightarrow> bios_src \<Rightarrow> nat \<Rightarrow> u8 \<Rightarrow> u8 \<Rightarrow> int \<Rightarrow> int \<Rightarrow> u32 \<Rightarrow> 'a ttys_scheme \<Rightarrow> 'a ttys_scheme option" where
  "bios_print t src len ty att col row pg s =
     (if pg \<ge> TTY_NUM_PAGES t s then Some s
      else Option.bind (bios_print_loop len t pg ty att (bios_point t pg col row s, col, row, src, s))
        (\<lambda>(pt, col', row', src', s1).
           if ty AND 1 = 0 then Some s1
           else (let s2 = (if ucast (current_page (ttys s1 t)) = pg then tty_set_cursor t col' row' s1 else s1)
                 in if pg < 8 then put_user_short (of_int col' OR push_bit 8 (of_int row')) (cursor_pos_p pg) s2
                    else Some s2)))"

section \<open>Scrolling\<close>

text \<open>
  \<open>TTY_VMEM + (left_col * 2) + (i * TTY_COLS(vmtty) * 2)\<close>, the filling of a row between the columns and
  the copy of one row to another.
\<close>

definition scroll_addr :: "nat \<Rightarrow> u32 \<Rightarrow> u32 \<Rightarrow> 'a ttys_scheme \<Rightarrow> u32" where
  "scroll_addr t left_col i s =
     vt_buf t s + ucast (current_page (ttys s t)) * TTY_PAGE_SIZE t s + left_col * 2 + i * vt_cols t s * 2"

definition blank_row :: "nat \<Rightarrow> u8 \<Rightarrow> u32 \<Rightarrow> u32 \<Rightarrow> u32 \<Rightarrow> 'a ttys_scheme \<Rightarrow> 'a ttys_scheme option" where
  "blank_row t att left_col right_col i s =
     memsetw_user (scroll_addr t left_col i s) (push_bit 8 (ucast att)) (unat (right_col - left_col + 1)) s"

definition copy_row :: "nat \<Rightarrow> u32 \<Rightarrow> u32 \<Rightarrow> u32 \<Rightarrow> u32 \<Rightarrow> 'a ttys_scheme \<Rightarrow> 'a ttys_scheme option" where
  "copy_row t left_col right_col i j s =
     memcpy_user (scroll_addr t left_col i s) (scroll_addr t left_col j s) ((right_col - left_col + 1) * 2) s"

text \<open>\<open>rows a b\<close>: the values of \<open>for (i = a; i <= b; i++)\<close>, for rows that fit a byte.\<close>

definition rows :: "u32 \<Rightarrow> u32 \<Rightarrow> u32 list" where
  "rows a b = map of_nat [unat a..<Suc (unat b)]"

definition bios_scroll_up ::
    "nat \<Rightarrow> u32 \<Rightarrow> u8 \<Rightarrow> u32 \<Rightarrow> u32 \<Rightarrow> u32 \<Rightarrow> u32 \<Rightarrow> 'a ttys_scheme \<Rightarrow> 'a ttys_scheme option" where
  "bios_scroll_up t num_lines att left_col left_row right_col right_row s =
     (let blank = blank_row t att left_col right_col
      in if left_col \<ge> right_col \<or> left_row \<ge> right_row then Some s
         else if num_lines > right_row - left_row \<or> num_lines = 0 then each blank (rows left_row right_row) s
         else Option.bind (each (\<lambda>i. copy_row t left_col right_col i (i - num_lines))
                             (rows (left_row + num_lines) right_row) s)
                (each blank (rows (right_row - num_lines) right_row)))"

text \<open>\<open>for (i = ...; i >= left_row; i--)\<close> on an unsigned number.\<close>

partial_function (option) scroll_down_loop ::
    "nat \<Rightarrow> u32 \<Rightarrow> u32 \<Rightarrow> u32 \<Rightarrow> u32 \<Rightarrow> u32 \<Rightarrow> 'a ttys_scheme \<Rightarrow> 'a ttys_scheme option" where
  "scroll_down_loop t num_lines left_col right_col left_row i s =
     (if i \<ge> left_row
      then Option.bind (copy_row t left_col right_col i (i - num_lines) s)
             (scroll_down_loop t num_lines left_col right_col left_row (i - 1))
      else Some s)"

definition bios_scroll_down ::
    "nat \<Rightarrow> u32 \<Rightarrow> u8 \<Rightarrow> u32 \<Rightarrow> u32 \<Rightarrow> u32 \<Rightarrow> u32 \<Rightarrow> 'a ttys_scheme \<Rightarrow> 'a ttys_scheme option" where
  "bios_scroll_down t num_lines att left_col left_row right_col right_row s =
     (let blank = blank_row t att left_col right_col
      in if left_col \<ge> right_col \<or> left_row \<ge> right_row then Some s
         else if num_lines > right_row - left_row \<or> num_lines = 0 then each blank (rows left_row right_row) s
         else Option.bind (scroll_down_loop t num_lines left_col right_col left_row (right_row - num_lines) s)
                (each blank (rows left_row (left_row + num_lines - 1))))"

section \<open>INT 10\<close>

text \<open>The position of the cursor of a page, as an offset of its text.\<close>

definition cursor_cell :: "nat \<Rightarrow> u32 \<Rightarrow> u16 \<Rightarrow> 'a ttys_scheme \<Rightarrow> u32" where
  "cursor_cell t pg cursor s =
     bios_find_page t pg s + (ucast (drop_bit 8 cursor) * vt_cols t s + ucast (cursor AND 255)) * 2"

primrec put_chars :: "u8 \<Rightarrow> nat \<Rightarrow> u32 \<Rightarrow> 'a ttys_scheme \<Rightarrow> 'a ttys_scheme option" where
  "put_chars c 0 buf = Some"
| "put_chars c (Suc n) buf = (\<lambda>s. Option.bind (put_user_byte c buf s) (put_chars c n (buf + 2)))"

definition int10_set_mode :: "u32 \<Rightarrow> 'a ttys_scheme \<Rightarrow> 'a ttys_scheme option" where
  "int10_set_mode al s =
     (let t = vm_video s; s1 = snd (video_set_mode t (al AND 0x7f) s);
          v = videos s1 t; mi = v_mi v
      in each (\<lambda>f. f)
           [if al AND 0x80 = 0 then memsetl_user (mi_buffer mi) 0 (unat (mi_page_size mi * mi_pages mi div 4)) else Some,
            put_user_byte (v_mode v) display_mode_p,
            put_user_short (ucast (mi_cols mi)) display_cols_p,
            put_user_byte (ucast (mi_rows mi - 1)) display_rows_p,
            put_user_short (ucast (mi_page_size mi)) display_buf_size_p,
            put_user_short 0 display_buf_start_p,
            memsetw_user (cursor_pos_p 0) 0 8,
            put_user_byte 0 active_page_p,
            put_user_short (crt_i (v_vga v)) crt_base_p] s1)"

definition int10_select_page :: "u32 \<Rightarrow> 'a ttys_scheme \<Rightarrow> 'a ttys_scheme option" where
  "int10_select_page al s =
     (let t = vm_video s; s1 = tty_set_page t al s; pg = ucast (current_page (ttys s1 t))
      in Option.bind (put_user_short (ucast (TTY_PAGE_SIZE t s1 * pg)) display_buf_start_p s1) (\<lambda>s2.
         Option.bind (put_user_byte (current_page (ttys s2 t)) active_page_p s2) (\<lambda>s3.
         if pg < 8
         then map_option (\<lambda>(off, s4). tty_set_cursor t (uint (off AND 255)) (uint (drop_bit 8 off)) s4)
                (get_user_short (cursor_pos_p pg) s3)
         else Some s3)))"

text \<open>The services that change nothing but the state.\<close>

definition int10_state :: "vm86_regs \<Rightarrow> 'a ttys_scheme \<Rightarrow> 'a ttys_scheme option" where
  "int10_state regs s =
     (let t = vm_video s; func = GET8H (eax regs); al = GET8 (eax regs); pg = GET8H (ebx regs)
      in if func = 0 then int10_set_mode al s
         else if func = 1
         then put_user_short (push_bit 8 (ucast (GET8H (ecx regs))) OR ucast (GET8 (ecx regs))) cursor_type_p
                (put_crt t 11 (ucast (GET8 (ecx regs))) (put_crt t 10 (ucast (GET8H (ecx regs))) s))
         else if func = 2
         then map_option (\<lambda>s1. if pg = ucast (current_page (ttys s1 t))
                  then tty_set_cursor t (uint (GET8 (edx regs))) (uint (GET8H (edx regs))) s1 else s1)
                (put_user_short (ucast (GET16 (edx regs))) (cursor_pos_p pg) s)
         else if func = 5 then int10_select_page al s
         else if func = 6
         then bios_scroll_up t al (ucast pg) (GET8 (ecx regs)) (GET8H (ecx regs)) (GET8 (edx regs)) (GET8H (edx regs)) s
         else if func = 7
         then bios_scroll_down t al (ucast pg) (GET8 (ecx regs)) (GET8H (ecx regs)) (GET8 (edx regs)) (GET8H (edx regs)) s
         else if func = 9
         then Option.bind (get_user_short (cursor_pos_p pg) s) (\<lambda>(cursor, s1).
                memset_user (cursor_cell t pg cursor s1) (ucast al) (unat (GET16 (ecx regs))) s1)
         else if func = 10
         then Option.bind (get_user_short (cursor_pos_p pg) s) (\<lambda>(cursor, s1).
                put_chars (ucast al) (unat (GET16 (ecx regs))) (cursor_cell t pg cursor s1) s1)
         else if func = 14
         then bios_print t (Kernel_str [ucast al]) 1 1 0x07 (tty_x (ttys s t)) (tty_y (ttys s t)) pg s
         else if func = 19
         then bios_print t (User_str (seg_off (es regs) (GET16 (ebp regs)))) (unat (GET16 (ecx regs))) (ucast al)
                (ucast (GET8 (ebx regs))) (uint (GET8 (edx regs))) (uint (GET8H (edx regs))) pg s
         else Some s)"

definition vbios_video_handler ::
    "vm86_regs \<times> 'a ttys_scheme \<Rightarrow> (vm86_regs \<times> 'a ttys_scheme) option" where
  "vbios_video_handler = (\<lambda>(regs, s).
     (let t = vm_video s; func = GET8H (eax regs); pg = GET8H (ebx regs)
      in if func = 3
         then Option.bind (get_user_short cursor_type_p s) (\<lambda>(ty, s1).
              Option.bind (get_user_byte active_page_p s1) (\<lambda>(ap, s2).
              map_option (\<lambda>(pos, s3). (regs\<lparr>ecx := SET16 (ecx regs) (ucast ty), edx := SET16 (edx regs) (ucast pos)\<rparr>, s3))
                (get_user_short (cursor_pos_p (ucast ap)) s2)))
         else if func = 4 then Some (regs\<lparr>eax := SET8H (eax regs) 0\<rparr>, s)
         else if func = 8
         then Option.bind (get_user_short (cursor_pos_p pg) s) (\<lambda>(cursor, s1).
              map_option (\<lambda>(w, s2). (regs\<lparr>eax := SET16 (eax regs) (ucast w)\<rparr>, s2))
                (get_user_short (cursor_cell t pg cursor s1) s1))
         else if func = 15
         then map_option (\<lambda>(m, s1). (regs\<lparr>eax := SET16 (eax regs) (ucast m OR push_bit 8 (vt_cols t s1)),
                ebx := SET8H (ebx regs) 0\<rparr>, s1)) (get_user_byte display_mode_p s)
         else if func = 26
         then Some (if GET8 (eax regs) = 0
                    then regs\<lparr>eax := SET8 (eax regs) 26,
                           ebx := SET16 (ebx regs) (if ops_name (v_ops (videos s t)) = ops_name Mda then 1 else 2)\<rparr>
                    else regs, s)
         else map_option (Pair regs) (int10_state regs s)))"

end
