(* ===== verification/VBiosSys.thy ===== *)
theory VBiosSys
  imports VBios
begin

text \<open>
  The other services of the virtual BIOS (drivers/virtual/vbios): the disks, INT 13 (disk.c), the
  serial and parallel ports, the clock and the system services (misc.c), and the creation of the
  BIOS with its data area (vbios.c).  The message of \<open>unimplemented\<close> is not part of the state.
  The three printer functions of the BIOS are in no file of the repository: they are the argument
  \<open>prn\<close>, by the number of the service.
\<close>

unbundle bit_operations_syntax

record vbios =
  vb_code :: u32
  vb_timer :: timer_id

text \<open>\<open>vprinter_ptr\<close>, \<open>vcmos_ptr\<close>: whether the pointers to the modules are set.\<close>

record vbioss = vfls +
  slot_vbios :: "vbios option"
  vprinter_ptr :: bool
  vcmos_ptr :: bool
  vbios_open_count :: int

section \<open>INT 13: the status\<close>

definition bios_disk_stat :: "(u8 \<times> u8) option \<Rightarrow> u32" where
  "bios_disk_stat st =
     (case st of None \<Rightarrow> 0xBB
      | Some (stat, err) \<Rightarrow>
          (if stat AND 0x01 \<noteq> 0
           then (if err AND 0x01 \<noteq> 0 then 0x02
                 else if err AND 0x10 \<noteq> 0 then 0x04
                 else if err AND 0x40 \<noteq> 0 then 0x11 else 0x20)
           else 0))"

definition put_disk_stat :: "u32 \<Rightarrow> vm86_regs \<Rightarrow> vm86_regs" where
  "put_disk_stat bstat regs =
     (let r1 = regs\<lparr>eax := SET8H (eax regs) bstat\<rparr> in if bstat = 0 then CLC r1 else STC r1)"

definition get_hd_stat :: "vm86_regs \<times> 'a vfls_scheme \<Rightarrow> vm86_regs \<times> 'a vfls_scheme" where
  "get_hd_stat = (\<lambda>(regs, s). (put_disk_stat (bios_disk_stat (vide_get_status s)) regs, s))"

definition get_fd_stat :: "vm86_regs \<times> 'a vfls_scheme \<Rightarrow> vm86_regs \<times> 'a vfls_scheme" where
  "get_fd_stat = (\<lambda>(regs, s). (put_disk_stat (bios_disk_stat (vfloppy_get_status s)) regs, s))"

section \<open>INT 13: the services\<close>

text \<open>The arguments of a transfer: head, cylinder, sector, count and buffer.\<close>

definition chs_args :: "vm86_regs \<Rightarrow> u32 \<times> u32 \<times> u32 \<times> int \<times> u32" where
  "chs_args regs =
     (GET8H (edx regs), GET8H (ecx regs) OR push_bit 2 (GET8 (ecx regs) AND 0xc0), GET8 (ecx regs) AND 0x3f,
      uint (GET8 (eax regs)), seg_off (es regs) (GET16 (ebx regs)))"

definition floppy_service :: "vm86_regs \<times> 'a vfls_scheme \<Rightarrow> (vm86_regs \<times> 'a vfls_scheme) option" where
  "floppy_service = (\<lambda>(regs, s).
     (let func = GET8H (eax regs)
      in if edx regs AND 0x7f \<noteq> 0 \<and> func \<noteq> 8 then Some (STC (regs\<lparr>eax := SET8H (eax regs) 0xff\<rparr>), s)
         else if func = 1 then Some (get_fd_stat (regs, s))
         else if func = 2
         then (case chs_args regs of (hdno, cyl, sec, count, buf) \<Rightarrow>
                 map_option (\<lambda>(n, s1). get_fd_stat (regs, s1)) (vfloppy_read_sectors 0 hdno cyl sec count buf s))
         else if func = 3 \<or> func = 4 then Some (STC (regs\<lparr>eax := SET16 (eax regs) 0x0300\<rparr>), s)
         else if func = 5 then Some (STC (regs\<lparr>eax := SET8H (eax regs) 0x03\<rparr>), s)
         else if func = 8
         then (if edx regs AND 0x7f = 0
               then Option.bind (get_user_short (0x1e * 4) s) (\<lambda>(off, s1).
                    map_option (\<lambda>(sg, s2). (CLC (regs\<lparr>eax := SET16 (eax regs) 0, ebx := SET16 (ebx regs) 4,
                        ecx := SET16 (ecx regs) 0x5012, edx := SET16 (edx regs) 0x0201,
                        edi := SET16 (edi regs) (ucast off), es := sg\<rparr>), s2))
                      (get_user_short (0x1e * 4 + 4) s1))
               else Some (CLC (regs\<lparr>eax := SET16 (eax regs) 0, ebx := SET16 (ebx regs) 0,
                        ecx := SET16 (ecx regs) 0, edx := SET16 (edx regs) 0\<rparr>), s))
         else Some (STC (regs\<lparr>eax := SET8H (eax regs) 0x01\<rparr>), s)))"

text \<open>\<open>put_user_short (i, &buf[i])\<close> for all sectors of a track.\<close>

definition format_track :: "vm86_regs \<Rightarrow> 'a vfls_scheme \<Rightarrow> 'a vfls_scheme option" where
  "format_track regs s =
     (case vide_get_geom s of None \<Rightarrow> Some s
      | Some (hs, cyls, sects) \<Rightarrow>
          each (\<lambda>i. put_user_short (of_nat i) (seg_off (es regs) (GET16 (ebx regs)) + 2 * of_nat i)) [0..<unat sects] s)"

text \<open>\<open>uninit\<close> is what the uninitialised variables of service 21 hold when there is no disk.\<close>

definition hd_params :: "vm86_regs \<Rightarrow> 'a vfls_scheme \<Rightarrow> vm86_regs" where
  "hd_params regs s =
     (case vide_get_geom s of None \<Rightarrow> regs\<lparr>edx := SET16 (edx regs) 0\<rparr>
      | Some (hs, cyls, sects) \<Rightarrow>
          regs\<lparr>edx := SET16 (edx regs) (1 OR push_bit 8 (hs - 1)),
               ecx := SET16 (ecx regs) (push_bit 8 ((cyls - 1) AND 0xff) OR (sects AND 0x3f)
                        OR drop_bit 2 ((cyls - 1) AND 0x0300))\<rparr>)"

definition hd_type :: "u32 \<times> u32 \<times> u32 \<Rightarrow> vm86_regs \<Rightarrow> 'a vfls_scheme \<Rightarrow> vm86_regs" where
  "hd_type uninit regs s =
     (if edx regs AND 1 \<noteq> 0 then regs\<lparr>eax := SET8H (eax regs) 0\<rparr>
      else (case (case vide_get_geom s of None \<Rightarrow> uninit | Some g \<Rightarrow> g) of (hs, cyls, sects) \<Rightarrow>
              regs\<lparr>eax := SET8H (eax regs) 3, ecx := SET16 (ecx regs) (drop_bit 16 (hs * cyls * sects)),
                   edx := SET16 (edx regs) (hs * cyls * sects)\<rparr>))"

definition hd_service :: "u32 \<times> u32 \<times> u32 \<Rightarrow> vm86_regs \<times> 'a vfls_scheme \<Rightarrow> (vm86_regs \<times> 'a vfls_scheme) option" where
  "hd_service uninit = (\<lambda>(regs, s).
     (let func = GET8H (eax regs); ok = CLC (regs\<lparr>eax := SET8H (eax regs) 0\<rparr>)
      in if func = 1 \<or> func = 20 then Some (get_hd_stat (regs, s))
         else if func = 2 \<or> func = 3
         then (case chs_args regs of (hdno, cyl, sec, count, buf) \<Rightarrow>
                 map_option (\<lambda>(n, s1). get_hd_stat (regs, s1))
                   (if func = 2 then read_user_blocks 0 hdno cyl sec count buf s
                    else write_user_blocks 0 hdno cyl sec count buf s))
         else if func = 5 then map_option (Pair ok) (format_track regs s)
         else if func \<in> {4, 6, 7, 12, 13, 16, 17, 25} then Some (ok, s)
         else if func = 8 then Some (hd_params regs s, s)
         else if func = 9 then Some (regs, s)
         else if func = 21 then Some (hd_type uninit regs s, s)
         else Some (STC (regs\<lparr>eax := SET8H (eax regs) 1\<rparr>), s)))"

definition vbios_disk_handler ::
    "u32 \<times> u32 \<times> u32 \<Rightarrow> vm86_regs \<times> 'a vfls_scheme \<Rightarrow> (vm86_regs \<times> 'a vfls_scheme) option" where
  "vbios_disk_handler uninit = (\<lambda>(regs, s).
     (let func = GET8H (eax regs);
          note_stat = (\<lambda>adr (r, s1). map_option (Pair r) (put_user_byte (ucast (GET8H (eax r))) adr s1))
      in if func = 0 then Some (CLC (regs\<lparr>eax := SET8H (eax regs) 0\<rparr>), s)
         else if edx regs AND 0x80 = 0
         then Option.bind (floppy_service (regs, s)) (note_stat drive_status_p)
         else if edx regs AND 0x7f \<noteq> 0 \<and> func \<noteq> 21 then Some (STC (regs\<lparr>eax := SET8H (eax regs) 0xff\<rparr>), s)
         else Option.bind (hd_service uninit (regs, s)) (note_stat fixed_disk_status_p)))"

section \<open>INT 14, INT 17\<close>

definition vbios_ser_handler :: "vm86_regs \<Rightarrow> vm86_regs" where
  "vbios_ser_handler regs =
     (let func = GET8H (eax regs)
      in if func = 0 \<or> func = 3 then regs\<lparr>eax := SET16 (eax regs) 0x8000\<rparr>
         else if func = 1 \<or> func = 2 then regs\<lparr>eax := SET8H (eax regs) 0x80\<rparr> else regs)"

definition vbios_par_handler ::
    "(u32 \<Rightarrow> vm86_regs \<times> 'a vbioss_scheme \<Rightarrow> vm86_regs \<times> 'a vbioss_scheme) \<Rightarrow>
     vm86_regs \<times> 'a vbioss_scheme \<Rightarrow> vm86_regs \<times> 'a vbioss_scheme" where
  "vbios_par_handler prn = (\<lambda>(regs, s).
     (let func = GET8H (eax regs)
      in if func > 2 then (regs, s)
         else if vprinter_ptr s then prn func (regs, s)
         else (regs\<lparr>eax := SET8H (eax regs) 0x01\<rparr>, s)))"

section \<open>INT 1A\<close>

text \<open>The clock of the hardware, \<open>CMOS_READ\<close>.\<close>

definition CMOS_READ :: "nat \<Rightarrow> 'a vids_scheme \<Rightarrow> u8 \<times> 'a vids_scheme" where
  "CMOS_READ r s = inb 0x71 (outb (of_nat r OR 0x80) 0x70 s)"

text \<open>
  Three registers of the hardware, converted if the clock is in binary mode.  The two
  services read them in the same way.
\<close>

definition read_rtc3 :: "nat \<Rightarrow> nat \<Rightarrow> nat \<Rightarrow> 'a vids_scheme \<Rightarrow> (u8 \<times> u8 \<times> u8) \<times> 'a vids_scheme" where
  "read_rtc3 i j k s =
     (case CMOS_READ i s of (a, s1) \<Rightarrow> (case CMOS_READ j s1 of (b, s2) \<Rightarrow> (case CMOS_READ k s2 of (c, s3) \<Rightarrow>
      (case CMOS_READ RTC_CONTROL s3 of (ctl, s4) \<Rightarrow>
         (if test_mask ctl RTC_DM_BINARY then (BIN_TO_BCD a, BIN_TO_BCD b, BIN_TO_BCD c) else (a, b, c), s4)))))"

definition host_time :: "vm86_regs \<times> 'a vids_scheme \<Rightarrow> vm86_regs \<times> 'a vids_scheme" where
  "host_time = (\<lambda>(regs, s).
     (case read_rtc3 RTC_HOURS RTC_MINUTES RTC_SECONDS s of ((h, m, sec), s1) \<Rightarrow>
        (case CMOS_READ RTC_CONTROL s1 of (ctl, s2) \<Rightarrow>
           (CLC (regs\<lparr>ecx := SET8 (SET8H (ecx regs) (ucast h)) (ucast m),
                 edx := SET8 (SET8H (edx regs) (ucast sec)) (if test_mask ctl RTC_DST_EN then 0 else 1)\<rparr>), s2))))"

definition host_date :: "vm86_regs \<times> 'a vids_scheme \<Rightarrow> vm86_regs \<times> 'a vids_scheme" where
  "host_date = (\<lambda>(regs, s).
     (case read_rtc3 RTC_YEAR RTC_MONTH RTC_DAY_OF_MONTH s of ((y, m, d), s1) \<Rightarrow>
        (case CMOS_READ 0x32 s1 of (cent, s2) \<Rightarrow>
           (CLC (regs\<lparr>ecx := SET8 (SET8H (ecx regs) (ucast cent)) (ucast y),
                 edx := SET8 (SET8H (edx regs) (ucast m)) (ucast d)\<rparr>), s2))))"

text \<open>Service 0 takes the high half of \<open>edx\<close> from \<open>ecx\<close> and of \<open>ecx\<close> from the new \<open>edx\<close>.\<close>

definition read_ticks :: "u32 \<Rightarrow> u8 \<Rightarrow> vm86_regs \<Rightarrow> vm86_regs" where
  "read_ticks ticks overflow regs =
     (let r1 = regs\<lparr>edx := SET16 (ecx regs) ticks\<rparr>;
          r2 = r1\<lparr>ecx := SET16 (edx r1) (drop_bit 16 ticks)\<rparr>
      in r2\<lparr>eax := SET8 (eax r2) (ucast overflow)\<rparr>)"

definition vbios_timer_handler ::
    "bool \<Rightarrow> vm86_regs \<times> 'a vbioss_scheme \<Rightarrow> (vm86_regs \<times> 'a vbioss_scheme) option" where
  "vbios_timer_handler vpic_ok = (\<lambda>(regs, s).
     (let func = GET8H (eax regs)
      in if func = 0
         then Option.bind (get_user_long timer_counter_p s) (\<lambda>(ticks, s1).
              map_option (\<lambda>(ov, s2). (read_ticks ticks ov regs, s2)) (get_user_byte timer_overflow_p s1))
         else if func = 1
         then map_option (Pair regs)
                (put_user_long (GET16 (edx regs) OR push_bit 16 (GET16 (ecx regs))) timer_counter_p s)
         else if func = 2 then Some (if vcmos_ptr s then get_bcd_time (regs, s) else host_time (regs, s))
         else if func = 3 then Some (if vcmos_ptr s then set_bcd_time (regs, s) else (regs, s))
         else if func = 4 then Some (if vcmos_ptr s then get_bcd_date (regs, s) else host_date (regs, s))
         else if func = 5 then Some (if vcmos_ptr s then set_bcd_date (regs, s) else (regs, s))
         else if func = 6 then Some (if vcmos_ptr s then set_alarm vpic_ok (regs, s) else (regs, s))
         else if func = 7 then Some (regs, if vcmos_ptr s then reset_alarm s else s)
         else if func = 0xA
         then map_option (\<lambda>(d, s1). (CLC (regs\<lparr>ecx := SET16 (ecx regs) (ucast d)\<rparr>), s1)) (get_user_short 0x467 s)
         else if func = 0xB then map_option (Pair regs) (put_user_short (ucast (GET16 (ecx regs))) 0x467 s)
         else Some (regs, s)))"

section \<open>INT 15\<close>

text \<open>Service 134 up to the switch to another task; \<open>adr\<close> is the task list entry on the stack.\<close>

definition bios_wait :: "u32 \<Rightarrow> vm86_regs \<Rightarrow> 'a vbioss_scheme \<Rightarrow> 'a vbioss_scheme" where
  "bios_wait adr regs s =
     (let r = vb_timer (the (slot_vbios s));
          s1 = add_timer r (set_timer_sem r (GET16 (ecx regs) + push_bit 16 (GET16 (edx regs))) s)
      in (case action (timer_reqs s1 r) of
            TIMER_TASK sem \<Rightarrow> (let (sem', s2) = wait adr sem s1 in upd_req r (\<lambda>q. q\<lparr>action := TIMER_TASK sem'\<rparr>) s2)
          | TIMER_FUNC _ \<Rightarrow> s1))"

text \<open>The base address of a descriptor, and of the two of the table at \<open>es:si\<close>.\<close>

definition desc_base :: "u32 \<Rightarrow> u32 \<Rightarrow> u32" where
  "desc_base low high = drop_bit 16 low OR push_bit 16 (high AND 0xff) OR (high AND 0xff000000)"

definition read_desc :: "u32 \<Rightarrow> 'a vmach_scheme \<Rightarrow> (u32 \<times> 'a vmach_scheme) option" where
  "read_desc p s =
     Option.bind (get_user_long p s) (\<lambda>(low, s1).
     map_option (\<lambda>(high, s2). (desc_base low high, s2)) (get_user_long (p + 4) s1))"

definition move_block :: "vm86_regs \<times> 'a vmach_scheme \<Rightarrow> (vm86_regs \<times> 'a vmach_scheme) option" where
  "move_block = (\<lambda>(regs, s).
     (let old = a20_state s; gdt = seg_off (es regs) (GET16 (esi regs))
      in Option.bind (read_desc (gdt + 16) s) (\<lambda>(src, s1).
         Option.bind (read_desc (gdt + 24) s1) (\<lambda>(dst, s2).
         map_option (\<lambda>s4. (regs\<lparr>eax := SET8H (eax regs) 0,
                eflags := (eflags regs AND NOT FLAGS_CF) OR 0x40\<rparr>, set_gate_a20 old s4))
           (memcpy_user dst src (GET16 (ecx regs) * 2) (if \<not> old then set_gate_a20 True s2 else s2))))))"

definition vbios_sys_handler ::
    "u32 \<Rightarrow> vm86_regs \<times> 'a vbioss_scheme \<Rightarrow> (vm86_regs \<times> 'a vbioss_scheme) option" where
  "vbios_sys_handler adr = (\<lambda>(regs, s).
     (let func = GET8H (eax regs)
      in if func = 134 then Some (CLC regs, bios_wait adr regs s)
         else if func = 135 then move_block (regs, s)
         else if func = 136 then Some (CLC (regs\<lparr>eax := SET16 (eax regs) (ucast (extended_mem s))\<rparr>), s)
         else if func = 192
         then Some (CLC (regs\<lparr>es := 0xfffe, ebx := SET16 (ebx regs) 0, eax := SET8H (eax regs) 0\<rparr>), s)
         else Some (STC regs, s)))"

section \<open>The data area\<close>

text \<open>\<open>struct hd_info\<close> of a disk: everything but the geometry is zero.\<close>

definition hd_info_bytes :: "u32 \<times> u32 \<times> u32 \<Rightarrow> u8 list" where
  "hd_info_bytes = (\<lambda>(c, h, sec).
     [ucast c, ucast (drop_bit 8 c), ucast h, 0, 0, 0, 0, 0, 0, 0, 0, 0, 0, 0, ucast sec, 0])"

definition init_hdinfo :: "u32 \<Rightarrow> u8 list \<Rightarrow> 'a vmach_scheme \<Rightarrow> 'a vmach_scheme option" where
  "init_hdinfo vector info s =
     Option.bind (get_user_short (vector * 4) s) (\<lambda>(off, s1).
     Option.bind (get_user_short (vector * 4 + 2) s1) (\<lambda>(sg, s2).
     memcpy_to_user (ucast off + push_bit 4 (ucast sg)) info s2))"

definition word_bytes :: "u16 list \<Rightarrow> u8 list" where
  "word_bytes ws = concat (map (\<lambda>w. [ucast w, ucast (drop_bit 8 w)]) ws)"

text \<open>
  Service 15: setting up the BIOS data area; \<open>mod_ok\<close> tells which module can be opened.  The
  second disk, which no module sets up, has an information of zeros.
\<close>

definition init_bios_data :: "(bool \<Rightarrow> bool) \<Rightarrow> 'a vbioss_scheme \<Rightarrow> 'a vbioss_scheme option" where
  "init_bios_data mod_ok s =
     (let t = vm_video s; v = videos s t; mi = v_mi v; pg = current_page (ttys s t)
      in map_option (\<lambda>s1. s1\<lparr>vprinter_ptr := vprinter_ptr s1 \<or> (lprports s1 ! 0 \<noteq> 0 \<and> mod_ok True),
                            vcmos_ptr := vcmos_ptr s1 \<or> (got_cmos s1 \<and> mod_ok False)\<rparr>)
       (each (\<lambda>f. f)
         [memset_user BIOS_DATA 0 0x100,
          put_user_short 0x0030 equipment_data_p,
          put_user_short (base_mem s) low_memory_p,
          put_user_short KBD_BUF kbd_buf_head_p,
          put_user_short KBD_BUF kbd_buf_tail_p,
          put_user_byte (v_mode v) display_mode_p,
          put_user_short (ucast (mi_cols mi)) display_cols_p,
          put_user_short (ucast (mi_page_size mi * mi_pages mi)) display_buf_size_p,
          put_user_short (ucast (mi_page_size mi * ucast pg)) display_buf_start_p,
          put_user_byte pg active_page_p,
          put_user_short (crt_i (v_vga v)) crt_base_p,
          put_user_short KBD_BUF kbd_buf_start_p,
          put_user_short (KBD_BUF + 32) kbd_buf_end_p,
          put_user_byte (ucast (mi_rows mi - 1)) display_rows_p,
          if strcaseeq (ops_name (v_ops v)) (ops_name Mda) then put_user_byte 0x02 video_control_states_p else Some,
          if total_hdisks s > 0 then init_hdinfo 0x41 (hd_info_bytes (hdisk0 s)) else Some,
          if total_hdisks s > 1 then init_hdinfo 0x46 (replicate 16 0) else Some,
          memcpy_to_user lpt1_base_p (word_bytes (lprports s))] s))"

section \<open>The dispatcher and the module\<close>

definition vbios_arpl_handler ::
    "(u32 \<Rightarrow> vm86_regs \<times> 'a vbioss_scheme \<Rightarrow> vm86_regs \<times> 'a vbioss_scheme) \<Rightarrow> (bool \<Rightarrow> bool) \<Rightarrow> bool \<Rightarrow> u32 \<Rightarrow>
     u32 \<times> u32 \<times> u32 \<Rightarrow> u16 \<Rightarrow> vm86_regs \<times> 'a vbioss_scheme \<Rightarrow> (vm86_regs \<times> 'a vbioss_scheme) option" where
  "vbios_arpl_handler prn mod_ok vpic_ok adr uninit num = (\<lambda>(regs, s).
     (let get_ax = (\<lambda>p. map_option (\<lambda>(w, s1). (regs\<lparr>eax := SET16 (eax regs) (ucast w)\<rparr>, s1)) (get_user_short p s))
      in if num = 0x0f then map_option (Pair regs) (init_bios_data mod_ok s)
         else if num = 0x10 then vbios_video_handler (regs, s)
         else if num = 0x11 then get_ax equipment_data_p
         else if num = 0x12 then get_ax low_memory_p
         else if num = 0x13 then vbios_disk_handler uninit (regs, s)
         else if num = 0x14 then Some (vbios_ser_handler regs, s)
         else if num = 0x15 then vbios_sys_handler adr (regs, s)
         else if num = 0x17 then Some (vbios_par_handler prn (regs, s))
         else if num = 0x1A then vbios_timer_handler vpic_ok (regs, s)
         else Some (regs, s)))"

definition top32_bytes :: "u8 list" where
  "top32_bytes =
     [10, 0, 252, 1, 0, 224, 0, 0, 0, 0, 0, 0, 0, 0, 0, 0, 234, 0, 0, 0, 255,
      0x30, 0x32, 0x2f, 0x32, 0x36, 0x2f, 0x39, 0x35, 0, 252, 0]"

definition delete_vbios_fn :: kill_fn where "delete_vbios_fn = other_kill_fn 2"

definition delete_vbios :: "'a vbioss_scheme \<Rightarrow> 'a vbioss_scheme" where
  "delete_vbios s =
     (case slot_vbios s of None \<Rightarrow> s
      | Some v \<Rightarrow> (free_page (vb_code v) s)\<lparr>slot_vbios := None, vbios_open_count := vbios_open_count s - 1\<rparr>)"

text \<open>
  \<open>create_vbios\<close>: \<open>tm\<close> is the timer of the structure that \<open>calloc\<close> delivered, if it did, \<open>code16\<close> the
  assembled 16-bit code.  The code's page is mapped at the four last pages of the first megabyte.
\<close>

definition create_vbios :: "timer_id option \<Rightarrow> u8 list \<Rightarrow> 'a vbioss_scheme \<Rightarrow> bool \<times> 'a vbioss_scheme" where
  "create_vbios tm code16 s =
     (case tm of None \<Rightarrow> (False, s)
      | Some r \<Rightarrow>
          (case alloc_page s of (code, s1) \<Rightarrow>
             if code = 0 then (False, s1)
             else (let s2 = s1\<lparr>slot_vbios := Some \<lparr>vb_code = code, vb_timer = r\<rparr>,
                              mem := store_bytes (store_bytes (mem s1) code code16) (code + (4096 - 32)) top32_bytes\<rparr>;
                       s3 = fold (\<lambda>x s. map_page (vm_pd s) code x (PTE_USER OR PTE_PRESENT) s)
                              [0xfc000, 0xfd000, 0xfe000, 0xff000] s2
                   in (True, (add_vm_kill_handler delete_vbios_fn s3)\<lparr>vbios_open_count := vbios_open_count s + 1\<rparr>))))"

text \<open>The handlers of the services, the last one added first.\<close>

definition vbios_arpls :: "arpl_handler list" where
  "vbios_arpls = [\<lparr>arpl_name = 3, arpl_low = 0x1a, arpl_high = 0x1a\<rparr>,
     \<lparr>arpl_name = 2, arpl_low = 0x17, arpl_high = 0x18\<rparr>, \<lparr>arpl_name = 1, arpl_low = 0x0f, arpl_high = 0x15\<rparr>]"

definition vbios_init :: "bool \<Rightarrow> 'a vbioss_scheme \<Rightarrow> bool \<times> 'a vbioss_scheme" where
  "vbios_init mods_ok s =
     (if \<not> mods_ok then (False, s)
      else (case alloc_vm_slot s of (slot, s1) \<Rightarrow>
              if slot < 0 then (False, s1) else (True, fold add_arpl_handler (rev vbios_arpls) s1)))"

definition vbios_expunge :: "int \<Rightarrow> 'a vbioss_scheme \<Rightarrow> bool \<times> 'a vbioss_scheme" where
  "vbios_expunge slot s =
     (if vbios_open_count s = 0 then (True, free_vm_slot slot (fold remove_arpl_handler vbios_arpls s)) else (False, s))"

end
