(* ===== verification/UserMemProps.thy ===== *)
theory UserMemProps
  imports UserMem VideoProps VmTraps
begin

text \<open>
  Accesses to the memory of the virtual machine where its pages are present: on a page of the first
  four megabytes that is mapped at the physical page \<open>P\<close>, each of them is the access of the kernel's
  own memory at \<open>P\<close>, and leaves the page, and every other such page, mapped.
\<close>

unbundle bit_operations_syntax

section \<open>A page that is present\<close>

definition user_page :: "'a sched_scheme \<Rightarrow> u32 \<Rightarrow> u32 \<Rightarrow> bool" where
  "user_page s B P \<longleftrightarrow> window s (t_page_dir (tasks s (current_task s))) B P \<and> page_dir_offset B = 0"

lemma user_page_window: "user_page s B P \<Longrightarrow> window s (t_page_dir (tasks s (current_task s))) B P"
  by (simp add: user_page_def)

text \<open>A change of the memory of such a page leaves the mapping of every such page.\<close>

lemma user_page_mem:
  assumes "user_page s B P" "user_page s B' P'" "\<And>b. page_base b \<noteq> P' \<Longrightarrow> m b = mem s b"
  shows "user_page (s\<lparr>mem := m\<rparr>) B P"
proof -
  let ?pd = "t_page_dir (tasks s (current_task s))" and ?s = "s\<lparr>mem := m\<rparr>"
  have w: "window s ?pd B P" and z: "page_dir_offset B = 0" using assms(1) by (simp_all only: user_page_def)
  have w': "P' \<noteq> ?pd" "P' \<noteq> table_page s ?pd 0" using assms(2) unfolding user_page_def window_def by auto
  have pd: "page_aligned ?pd" using w by (simp add: window_def)
  have e: "entry ?s q i = entry s q i" if "page_aligned q" "q \<noteq> P'" "i < 1024" for q i
    by (rule entry_page_cong[OF that(1,3)]) (use assms(3) that(2) in auto)
  have d: "entry ?s ?pd 0 = entry s ?pd 0" using pd w'(1) by (intro e) auto
  then have t: "table_page ?s ?pd 0 = table_page s ?pd 0" by (simp add: table_page_def)
  have g: "get_pte ?s ?pd B = get_pte s ?pd B"
    using w'(2) z e[of "table_page s ?pd 0" "page_table_offset B"] by (auto simp: get_pte_at pte_at_def d t)
  then have "window ?s ?pd B P" using w unfolding window_def z g t by blast
  then show ?thesis using z by (simp add: user_page_def)
qed

lemma user_page_aligned: "user_page s B P \<Longrightarrow> page_aligned B" "user_page s B P \<Longrightarrow> page_aligned P"
  by (auto simp: user_page_def window_def pte_get_addr_aligned)

lemma user_page_base: "user_page s B P \<Longrightarrow> i < 4096 \<Longrightarrow> page_base (B + of_nat i) = B"
  and user_page_phys: "user_page s B P \<Longrightarrow> i < 4096 \<Longrightarrow> page_base (P + of_nat i) = P"
  using user_page_aligned[of s B P] by (auto intro!: page_base_add simp: unat_of_nat)

section \<open>Single accesses\<close>

lemma user_page_touch:
  assumes "user_page s B P" "i < 4096"
  shows "touch (B + of_nat i) s = Some s" "user_addr s (B + of_nat i) = P + of_nat i"
proof -
  note w = user_page_window[OF assms(1)] and b = user_page_base[OF assms]
  show "touch (B + of_nat i) s = Some s" by (rule window_touch[OF w b refl])
  show "user_addr s (B + of_nat i) = P + of_nat i" using window_phys(3)[OF w b] by (simp add: user_addr_def)
qed

lemma user_get8: "user_page s B P \<Longrightarrow> i < 4096 \<Longrightarrow> get_user_byte (B + of_nat i) s = Some (mem s (P + of_nat i), s)"
  by (simp add: get_user_byte_def user_page_touch load8_def)

lemma user_put8:
  "user_page s B P \<Longrightarrow> i < 4096 \<Longrightarrow> put_user_byte v (B + of_nat i) s = Some (s\<lparr>mem := store8 (mem s) (P + of_nat i) v\<rparr>)"
  by (simp add: put_user_byte_def user_page_touch)

lemma user_page_put8:
  assumes "user_page s B P" "user_page s B' P'" "i < 4096"
  shows "user_page (s\<lparr>mem := store8 (mem s) (P' + of_nat i) v\<rparr>) B P"
  by (rule user_page_mem[OF assms(1,2)]) (use user_page_phys[OF assms(2,3)] in \<open>auto simp: store8_def\<close>)

text \<open>Successive bytes: \<open>i + 1\<close> as an offset.\<close>

lemma of_nat_step:
  "(p :: u32) + of_nat i + 1 = p + of_nat (i + 1)" "p + of_nat i + 2 = p + of_nat (i + 2)"
  "p + of_nat i + 3 = p + of_nat (i + 3)" "p + of_nat i + 4 = p + of_nat (i + 4)"
  by simp_all

lemma user_get16:
  assumes "user_page s B P" "i + 1 < 4096"
  shows "get_user_short (B + of_nat i) s = Some (load16 (mem s) (P + of_nat i), s)"
  using user_get8[OF assms(1), of i] user_get8[OF assms] assms(2)
  by (simp add: get_user_short_def load16_def of_nat_step(1) del: of_nat_add)

lemma user_put16:
  assumes "user_page s B P" "i + 1 < 4096"
  shows "put_user_short v (B + of_nat i) s = Some (s\<lparr>mem := store16 (mem s) (P + of_nat i) v\<rparr>)"
  using user_put8[OF assms(1), of i] user_put8[OF user_page_put8[OF assms(1,1), of i] assms(2)] assms(2)
  by (simp add: put_user_short_def of_nat_step(1) store16_as_store8 del: of_nat_add)

lemma user_page_put16:
  assumes "user_page s B P" "user_page s B' P'" "i + 1 < 4096"
  shows "user_page (s\<lparr>mem := store16 (mem s) (P' + of_nat i) v\<rparr>) B P"
  by (rule user_page_mem[OF assms(1,2)])
    (use user_page_phys[OF assms(2), of i] user_page_phys[OF assms(2), of "i + 1"] assms(3) in
      \<open>auto simp: store16_def of_nat_step(1) simp del: of_nat_add\<close>)

lemma load32_halves: "(ucast (load16 m a) OR push_bit 16 (ucast (load16 m (a + 2))) :: u32) = load32 m a"
proof (rule bit_word_eqI)
  have three: "a + 2 + 1 = a + 3" by simp
  fix n assume "n < LENGTH(32)"
  then have "n < 8 \<or> 8 \<le> n \<and> n < 16 \<or> 16 \<le> n \<and> n < 24 \<or> 24 \<le> n \<and> n < 32" by auto
  then show "bit (ucast (load16 m a) OR push_bit 16 (ucast (load16 m (a + 2))) :: u32) n = bit (load32 m a) n"
    unfolding load16_def load32_def three by (elim disjE conjE) (auto simp: bit_simps dest: bit_imp_le_length)
qed

lemma store32_halves: "store32 m a v = store16 (store16 m a (ucast v)) (a + 2) (ucast (drop_bit 16 v))"
proof -
  have "(ucast (drop_bit 8 (ucast v :: u16)) :: u8) = ucast (drop_bit 8 v)" "(ucast (ucast v :: u16) :: u8) = ucast v"
    "(ucast (drop_bit 8 (ucast (drop_bit 16 v) :: u16)) :: u8) = ucast (drop_bit 24 v)"
    "(ucast (ucast (drop_bit 16 v) :: u16) :: u8) = ucast (drop_bit 16 v)"
    by (rule bit_word_eqI; simp add: bit_simps)+
  moreover have "a + 2 + 1 = a + 3" by simp
  ultimately show ?thesis unfolding store32_def store16_def by (simp only:)
qed

lemma user_get32:
  assumes "user_page s B P" "i + 3 < 4096"
  shows "get_user_long (B + of_nat i) s = Some (load32 (mem s) (P + of_nat i), s)"
  using user_get16[OF assms(1), of i] user_get16[OF assms(1), of "i + 2"] assms(2)
  by (simp add: get_user_long_def of_nat_step(2) load32_halves[symmetric] del: of_nat_add)

lemma user_put32:
  assumes "user_page s B P" "i + 3 < 4096"
  shows "put_user_long v (B + of_nat i) s = Some (s\<lparr>mem := store32 (mem s) (P + of_nat i) v\<rparr>)"
  using user_put16[OF assms(1), of i] user_put16[OF user_page_put16[OF assms(1,1), of i], of "i + 2"] assms(2)
  by (simp add: put_user_long_def of_nat_step(2) store32_halves del: of_nat_add)

lemma user_page_put32:
  assumes "user_page s B P" "user_page s B' P'" "i + 3 < 4096"
  shows "user_page (s\<lparr>mem := store32 (mem s) (P' + of_nat i) v\<rparr>) B P"
  using user_page_put16[OF user_page_put16[OF assms(1,2), of i] user_page_put16[OF assms(2,2), of i], of "i + 2"] assms(3)
  by (simp add: store32_halves of_nat_step(2) del: of_nat_add)

section \<open>Bulk accesses within a page\<close>

lemma user_fillw:
  assumes "user_page s B P" "i + 2 * n \<le> 4096"
  shows "memsetw_user (B + of_nat i) w n s = Some (s\<lparr>mem := memsetw (mem s) (P + of_nat i) w n\<rparr>)"
  using assms
proof (induction n arbitrary: i s)
  case (Suc n)
  then have "i + 1 < 4096" "i + 2 + 2 * n \<le> 4096" by simp_all
  note i = this and IH = Suc.IH[OF user_page_put16[OF Suc.prems(1,1) i(1)] i(2)]
  show ?case
    unfolding memsetw_user.simps memsetw.simps user_put16[OF Suc.prems(1) i(1)] Option.bind.bind_lunit of_nat_step(2) IH
    by simp
qed simp

lemma user_movsl:
  assumes "user_page s B P" "d + 4 * n \<le> 4096" "p + 4 * n \<le> 4096"
  shows "rep_movsl (B + of_nat d) (B + of_nat p) n s = Some (s\<lparr>mem := memcpyl (mem s) (P + of_nat d) (P + of_nat p) n\<rparr>)"
  using assms
proof (induction n arbitrary: d p s)
  case (Suc n)
  then have "d + 3 < 4096" "p + 3 < 4096" "d + 4 + 4 * n \<le> 4096" "p + 4 + 4 * n \<le> 4096" by simp_all
  note i = this and IH = Suc.IH[OF user_page_put32[OF Suc.prems(1,1) i(1)] i(3,4)]
  show ?case
    unfolding rep_movsl.simps memcpyl.simps movsl_user_def user_get32[OF Suc.prems(1) i(2)] Option.bind.bind_lunit prod.case
      user_put32[OF Suc.prems(1) i(1)] of_nat_step(4) IH by simp
qed simp

lemma longs_of_bytes:
  assumes "4 * n \<le> 4096"
  shows "unat (of_nat (4 * n) div 4 :: u32) = n" "\<not> bit (of_nat (4 * n) :: u32) 0" "\<not> bit (of_nat (4 * n) :: u32) 1"
proof -
  have "unat (of_nat (4 * n) :: u32) = 4 * n" using assms by (simp add: unat_of_nat del: of_nat_mult)
  then show "unat (of_nat (4 * n) div 4 :: u32) = n" by (simp add: unat_div)
  have "(of_nat (4 * n) :: u32) = push_bit 2 (of_nat n)" by (simp add: push_bit_eq_mult)
  then show "\<not> bit (of_nat (4 * n) :: u32) 0" "\<not> bit (of_nat (4 * n) :: u32) 1"
    by (simp_all only: bit_push_bit_iff) simp_all
qed

lemma memcpy_longs: "4 * n \<le> 4096 \<Longrightarrow> memcpy m d p (of_nat (4 * n)) = memcpyl m d p n"
  using longs_of_bytes[of n] by (simp add: memcpy_def Let_def)

lemma user_copy:
  assumes "user_page s B P" "d + 4 * n \<le> 4096" "p + 4 * n \<le> 4096"
  shows "memcpy_user (B + of_nat d) (B + of_nat p) (of_nat (4 * n)) s =
     Some (s\<lparr>mem := memcpy (mem s) (P + of_nat d) (P + of_nat p) (of_nat (4 * n))\<rparr>)"
proof -
  have "4 * n \<le> 4096" using assms(2) by simp
  then have "memcpy_user (B + of_nat d) (B + of_nat p) (of_nat (4 * n)) s = rep_movsl (B + of_nat d) (B + of_nat p) n s"
    unfolding memcpy_user_def Let_def using longs_of_bytes by simp
  then show ?thesis using user_movsl[OF assms] memcpy_longs[OF \<open>4 * n \<le> 4096\<close>] by simp
qed

text \<open>They leave every such page mapped.\<close>

lemma user_page_fillw:
  assumes "user_page s B P" "user_page s B' P'" "i + 2 * n \<le> 4096"
  shows "user_page (s\<lparr>mem := memsetw (mem s) (P' + of_nat i) w n\<rparr>) B P"
  using assms
proof (induction n arbitrary: i s)
  case (Suc n)
  then have "i + 1 < 4096" "i + 2 + 2 * n \<le> 4096" by simp_all
  note i = this and u = user_page_put16[OF Suc.prems(1,2) this(1)] user_page_put16[OF Suc.prems(2,2) this(1)]
  show ?case using Suc.IH[OF u i(2)] unfolding memsetw.simps of_nat_step(2) by simp
qed simp

lemma user_page_copy:
  assumes "user_page s B P" "user_page s B' P'" "d + 4 * n \<le> 4096"
  shows "user_page (s\<lparr>mem := memcpy (mem s) (P' + of_nat d) p (of_nat (4 * n))\<rparr>) B P"
proof -
  have "user_page (s\<lparr>mem := memcpyl (mem s) (P' + of_nat d) p n\<rparr>) B P"
    using assms
  proof (induction n arbitrary: d p s)
    case (Suc n)
    then have "d + 3 < 4096" "d + 4 + 4 * n \<le> 4096" by simp_all
    note i = this and u = user_page_put32[OF Suc.prems(1,2) this(1)] user_page_put32[OF Suc.prems(2,2) this(1)]
    show ?case using Suc.IH[OF u i(2)] unfolding memcpyl.simps of_nat_step(4) by simp
  qed simp
  then show ?thesis using memcpy_longs assms(3) by simp
qed

end
