(* ===== verification/VBiosProps.thy ===== *)
theory VBiosProps
  imports VBiosSys UserMemProps TtyProps IdeProps FsBitmapProps
begin

text \<open>
  What the services of the virtual BIOS do: the teletype output of INT 10, the scrolling services and
  the status the disk services report.
\<close>

unbundle bit_operations_syntax

section \<open>Scrolling by one line\<close>

lemma even_lines: "even (C::nat) \<Longrightarrow> 2 * C * k = 4 * (C div 2 * k)"
  by (auto elim!: evenE)

lemma bios_scroll_up_one_page:
  assumes pg: "user_page s B P" "B = bios_find_page t pg s"
    and "vt_cols t s = of_nat C" "vt_rows t s = of_nat R" "even C" "1 \<le> R" "2 * (C * R) \<le> 4096"
  shows "bios_scroll_up_one t pg s = Some (s\<lparr>mem := memsetw (memcpy (mem s) P (P + of_nat (2 * C)) (of_nat (2 * C * (R - 1))))
     (P + of_nat (2 * (C * (R - 1)))) 0x0720 C\<rparr>)"
proof -
  obtain r where r: "R = Suc r" using assms(6) by (cases R) auto
  define n where "n = C div 2 * r"
  have n: "2 * C * r = 4 * n" using even_lines[OF assms(5)] by (simp add: n_def)
  have b: "4 * n \<le> 4096" "2 * C + 4 * n \<le> 4096" "2 * C * r + 2 * C \<le> 4096" using assms(7) n by (simp_all add: r)
  let ?m = "memcpy (mem s) (P + of_nat 0) (P + of_nat (2 * C)) (of_nat (4 * n))" and ?s = "s\<lparr>mem := memcpy (mem s) (P + of_nat 0) (P + of_nat (2 * C)) (of_nat (4 * n))\<rparr>"
  have cp: "memcpy_user (B + of_nat 0) (B + of_nat (2 * C)) (of_nat (4 * n)) s = Some ?s"
    by (rule user_copy[OF pg(1)]) (use b in simp_all)
  have "user_page ?s B P" by (rule user_page_copy[OF pg(1,1)]) (use b in simp)
  then have fl: "memsetw_user (B + of_nat (2 * C * r)) 0x0720 C ?s = Some (?s\<lparr>mem := memsetw (mem ?s) (P + of_nat (2 * C * r)) 0x0720 C\<rparr>)"
    by (rule user_fillw) (use b in simp)
  have w: "vt_cols t s * 2 = of_nat (2 * C)" "of_nat (2 * C) * (vt_rows t s - 1) = (of_nat (4 * n) :: u32)" "unat (vt_cols t s) = C"
    using b by (simp_all add: assms(3,4) r unat_of_nat n[symmetric])
  have e: "2 * C * (R - 1) = 4 * n" "2 * (C * (R - 1)) = 4 * n" using n by (simp_all add: r)
  show ?thesis unfolding bios_scroll_up_one_def Let_def pg(2)[symmetric] w e
    using cp fl unfolding n by simp
qed

section \<open>Changes within a page\<close>

lemma user_page_cong:
  "mem s' = mem s \<Longrightarrow> tasks s' = tasks s \<Longrightarrow> current_task s' = current_task s \<Longrightarrow> user_page s' B P = user_page s B P"
  by (simp add: user_page_def window_def get_pte_def entry_def table_page_def)

definition page_edit :: "u32 \<Rightarrow> 'a pmem_scheme \<Rightarrow> 'a pmem_scheme \<Rightarrow> bool" where
  "page_edit P s s' \<longleftrightarrow> (\<exists>m. s' = s\<lparr>mem := m\<rparr> \<and> (\<forall>a. page_base a \<noteq> P \<longrightarrow> m a = mem s a))"

lemma page_editI: "(\<And>a. page_base a \<noteq> P \<Longrightarrow> m a = mem s a) \<Longrightarrow> page_edit P s (s\<lparr>mem := m\<rparr>)"
  unfolding page_edit_def by (rule exI[of _ m]) simp

lemma page_edit_refl: "page_edit P s s"
  unfolding page_edit_def by (rule exI[of _ "mem s"]) simp

lemma page_edit_trans: "page_edit P s s1 \<Longrightarrow> page_edit P s1 s2 \<Longrightarrow> page_edit P s s2"
  unfolding page_edit_def
proof (elim exE conjE)
  fix m m' assume "s1 = s\<lparr>mem := m\<rparr>" "\<forall>a. page_base a \<noteq> P \<longrightarrow> m a = mem s a" "s2 = s1\<lparr>mem := m'\<rparr>"
    "\<forall>a. page_base a \<noteq> P \<longrightarrow> m' a = mem s1 a"
  then have "s2 = s\<lparr>mem := m'\<rparr> \<and> (\<forall>a. page_base a \<noteq> P \<longrightarrow> m' a = mem s a)" by simp
  then show "\<exists>m. s2 = s\<lparr>mem := m\<rparr> \<and> (\<forall>a. page_base a \<noteq> P \<longrightarrow> m a = mem s a)" by blast
qed

lemma page_edit_user:
  assumes "page_edit P' s s'" "user_page s B P" "user_page s B' P'"
  shows "user_page s' B P"
proof -
  obtain m where m: "s' = s\<lparr>mem := m\<rparr>" "\<And>a. page_base a \<noteq> P' \<Longrightarrow> m a = mem s a"
    using assms(1) unfolding page_edit_def by blast
  show ?thesis unfolding m(1) by (rule user_page_mem[OF assms(2,3) m(2)])
qed

lemma off_page: "page_aligned P \<Longrightarrow> page_base a \<noteq> P \<Longrightarrow> 4096 \<le> unat (a - P)"
  using page_base_add[of P "a - P"] by (force simp: not_le)

lemma fill_off_page:
  assumes "page_aligned P" "2 * (p + k) \<le> 4096" "page_base a \<noteq> P"
  shows "memsetw m (P + of_nat (2 * p)) w k a = m a"
  by (rule outside_fill[of p k 2048]) (use off_page[OF assms(1,3)] assms(2) in simp_all)

lemma copy_off_page:
  assumes "page_aligned P" "4 \<le> d" "d + 4 * n \<le> 4096" "page_base a \<noteq> P"
  shows "memcpy m P (P + of_nat d) (of_nat (4 * n)) a = m a"
proof -
  define i where "i = unat (a - P)"
  have a: "a = P + of_nat i" "i < 2 ^ 32" "4096 \<le> i" using off_page[OF assms(1,4)] unat_u32_lt[of "a - P"] by (simp_all add: i_def)
  show ?thesis unfolding a(1) using memcpy_up[of d n i m P] assms a by simp
qed

lemma glyph_off_page:
  assumes "page_aligned P" "p < 2048" "page_base a \<noteq> P"
  shows "store8 (store8 m (P + of_nat (2 * p)) c) (P + of_nat (2 * p) + 1) d a = m a"
  by (rule outside_store[of p 2048]) (use off_page[OF assms(1,3)] assms(2) in simp_all)

section \<open>The teletype service\<close>

text \<open>The screen of the virtual machine's terminal: both its text and the BIOS data area are mapped.\<close>

definition bios_text :: "nat \<Rightarrow> nat \<Rightarrow> u32 \<Rightarrow> u32 \<Rightarrow> u32 \<Rightarrow> nat \<Rightarrow> 'a ttys_scheme \<Rightarrow> bool" where
  "bios_text C R B P P0 t s \<longleftrightarrow> text_tty C R t s \<and> crt_ports t s \<and> user_page s B P \<and> user_page s 0 P0 \<and> P \<noteq> P0
     \<and> B = bios_find_page t (ucast (current_page (ttys s t))) s \<and> current_page (ttys s t) < 8
     \<and> ucast (current_page (ttys s t)) < TTY_NUM_PAGES t s \<and> 2 * (C * R) \<le> 4096"

lemma bios_text_pages:
  assumes "bios_text C R B P P0 t s"
  shows "text_tty C R t s" "crt_ports t s" "user_page s B P" "user_page s 0 P0" "P \<noteq> P0" "2 * (C * R) \<le> 4096"
    "B = bios_find_page t (ucast (current_page (ttys s t))) s" "current_page (ttys s t) < 8"
    "ucast (current_page (ttys s t)) < TTY_NUM_PAGES t s"
  using assms unfolding bios_text_def by blast+

lemma bios_text_dims:
  assumes "bios_text C R B P P0 t s"
  shows "vt_cols t s = of_nat C" "vt_rows t s = of_nat R" "even C" "2 \<le> C" "1 \<le> R" "C \<le> 2048" "R \<le> 2048" "C < 2 ^ 14" "R < 2 ^ 14"
proof -
  have d: "text_tty C R t s" "2 * (C * R) \<le> 4096" using assms by (simp_all add: bios_text_def)
  then have i: "uint (vt_cols t s) = int C" "uint (vt_rows t s) = int R"
    by (simp_all add: text_tty_def TTY_COLS_def TTY_ROWS_def vt_cols_def vt_rows_def)
  show "vt_cols t s = of_nat C" "vt_rows t s = of_nat R"
    using i by (metis of_int_of_nat_eq word_of_int_uint)+
  show c: "2 \<le> C" "1 \<le> R" "C < 2 ^ 14" "R < 2 ^ 14" using d(1) by (simp_all add: text_tty_def)
  show "even C" using d(1) by (auto simp: text_tty_def elim!: dvdE)
  have "C * 1 \<le> C * R" "1 * R \<le> C * R" using c by (intro mult_le_mono; simp)+
  then show "C \<le> 2048" "R \<le> 2048" using d(2) by linarith+
qed

text \<open>Moving to the next row, on the screen at \<open>P\<close>.\<close>

lemma bios_next_row_page:
  assumes b: "bios_text C R B P P0 t s" and y: "y < R" and pg: "B = bios_find_page t pg s"
  obtains s1 y1 cells1 where "bios_next_row t pg (int y) s = Some (int y1, s1)" "page_edit P s s1" "y1 < R"
    "term_line C R (x, y, screen_at P (C * R) (mem s)) = (0, y1, cells1)" "screen_at P (C * R) (mem s1) = cells1"
proof -
  note d = bios_text_dims[OF b]
  have u: "user_page s B P" "2 * (C * R) \<le> 4096" and al: "page_aligned P"
    using b user_page_aligned(2) by (auto simp: bios_text_def)
  have r: "short (int y + 1) = int (Suc y)" "short (int (Suc y) - 1) = int y" using d(9) y by (simp_all add: short_small)
  have ge: "(of_int (int (Suc y)) :: u32) \<ge> vt_rows t s \<longleftrightarrow> R \<le> Suc y"
    using y d(7) by (simp add: d(2) word_le_nat_alt unat_of_nat del: of_nat_Suc)
  show thesis
  proof (cases "Suc y = R")
    case True
    let ?m = "memsetw (memcpy (mem s) P (P + of_nat (2 * C)) (of_nat (2 * C * (R - 1)))) (P + of_nat (2 * (C * (R - 1)))) 0x0720 C"
    have "bios_next_row t pg (int y) s = Some (int y, s\<lparr>mem := ?m\<rparr>)"
    proof -
      have "vt_rows t s \<le> of_int (int (Suc y))" using ge True by simp
      then show ?thesis unfolding bios_next_row_def Let_def r(1)
        by (simp only: if_True bios_scroll_up_one_page[OF u(1) pg d(1,2,3,5) u(2)] option.map r(2))
    qed
    moreover have "page_edit P s (s\<lparr>mem := ?m\<rparr>)"
    proof (rule page_editI)
      fix a :: u32 assume a: "page_base a \<noteq> P"
      have n: "2 * C * (R - 1) = 4 * (C div 2 * (R - 1))" by (rule even_lines[OF d(3)])
      have e: "C * (R - 1) + C = C * R" using d(5) by (cases R) auto
      have "2 * C * (R - 1) + 2 * C \<le> 4096" using u(2) e by (simp only: mult.assoc distrib_left[symmetric])
      then show "?m a = mem s a"
        using fill_off_page[OF al _ a, of "C * (R - 1)" C] copy_off_page[OF al _ _ a, of "2 * C" "C div 2 * (R - 1)"] d(4) e u(2)
        unfolding n by simp
    qed
    moreover have "screen_at P (C * R) ?m = drop C (screen_at P (C * R) (mem s)) @ blanks C"
      by (rule screen_scroll) (use d u(2) in auto)
    ultimately show ?thesis using that[of y "s\<lparr>mem := ?m\<rparr>"] True y by simp
  next
    case False
    then have "bios_next_row t pg (int y) s = Some (int (Suc y), s)"
      using y ge by (simp add: bios_next_row_def Let_def r(1) del: of_nat_Suc)
    then show ?thesis by (rule that[OF _ page_edit_refl]) (use False y in simp_all)
  qed
qed

text \<open>
  The abstract teletype: a character that would land in the last column goes to the first one of the
  next row instead, and leaves the cursor there.
\<close>

fun tele_char :: "nat \<Rightarrow> nat \<Rightarrow> u8 \<Rightarrow> term_state \<Rightarrow> term_state" where
  "tele_char C R c (x, y, cells) =
     (if c = 8 then (if 0 < x then (x - 1, y, cells) else if 0 < y then (C - 1, y - 1, cells) else (0, 0, cells))
      else if c = 13 then (0, y, cells)
      else if c = 10 then term_line C R (x, y, cells)
      else if c = 7 then (x, y, cells)
      else if C \<le> Suc x
      then (case term_line C R (x, y, cells) of (x1, y1, cells1) \<Rightarrow> (x1, y1, cells1[y1 * C + x1 := (c, 7)]))
      else (Suc x, y, cells[y * C + x := (c, 7)]))"

lemma bios_point_cell:
  assumes "bios_text C R B P P0 t s" "B = bios_find_page t pg s"
  shows "bios_point t pg (int x) (int y) s = B + of_nat (2 * (y * C + x))"
  using bios_text_dims(1)[OF assms(1)] by (simp add: bios_point_def assms(2)[symmetric] algebra_simps)

lemma put_glyph_page:
  assumes "user_page s B P" "p < n" "2 * n \<le> 4096"
  obtains s1 where "put_user_byte c (B + of_nat (2 * p)) s \<bind> put_user_byte 7 (B + of_nat (2 * p) + 1) = Some s1"
    "page_edit P s s1" "screen_at P n (mem s1) = (screen_at P n (mem s))[p := (c, 7)]"
proof -
  let ?s1 = "s\<lparr>mem := store8 (mem s) (P + of_nat (2 * p)) c\<rparr>"
  let ?m = "store8 (store8 (mem s) (P + of_nat (2 * p)) c) (P + of_nat (2 * p) + 1) 7"
  have i: "2 * p < 4096" "2 * p + 1 < 4096" "p < 2048" using assms(2,3) by linarith+
  have n: "2 * n \<le> 2 ^ 32" using assms(3) by simp
  have "user_page ?s1 B P" by (rule user_page_put8[OF assms(1,1) i(1)])
  then have "put_user_byte 7 (B + of_nat (2 * p + 1)) ?s1 = Some (?s1\<lparr>mem := store8 (mem ?s1) (P + of_nat (2 * p + 1)) 7\<rparr>)"
    by (rule user_put8) (rule i(2))
  then have "put_user_byte c (B + of_nat (2 * p)) s \<bind> put_user_byte 7 (B + of_nat (2 * p) + 1) = Some (s\<lparr>mem := ?m\<rparr>)"
    unfolding of_nat_step user_put8[OF assms(1) i(1)] by simp
  moreover have "page_edit P s (s\<lparr>mem := ?m\<rparr>)"
    by (rule page_editI) (rule glyph_off_page[OF user_page_aligned(2)[OF assms(1)] i(3)])
  moreover have "screen_at P n (mem (s\<lparr>mem := ?m\<rparr>)) = (screen_at P n (mem s))[p := (c, 7)]"
    using screen_glyph[OF assms(2) n] by simp
  ultimately show thesis by (rule that)
qed

lemma bios_text_edit:
  assumes "bios_text C R B P P0 t s" "page_edit Q s s'" "Q = P \<or> Q = P0"
  shows "bios_text C R B P P0 t s'"
proof -
  obtain m where m: "s' = s\<lparr>mem := m\<rparr>" using assms(2) unfolding page_edit_def by blast
  note u = bios_text_pages(3,4)[OF assms(1)]
  have "user_page s' B P" "user_page s' 0 P0"
    using page_edit_user[OF assms(2) u(1)] page_edit_user[OF assms(2) u(2)] u assms(3) by auto
  then show ?thesis using assms(1)
    by (simp add: m bios_text_def text_tty_def crt_ports_def TTY_COLS_def TTY_ROWS_def bios_find_page_def vt_buf_def
        TTY_PAGE_SIZE_def TTY_NUM_PAGES_def)
qed

lemma bios_find_page_edit: "page_edit P s s' \<Longrightarrow> bios_find_page t pg s' = bios_find_page t pg s"
  by (auto simp: page_edit_def bios_find_page_def vt_buf_def TTY_PAGE_SIZE_def)

lemma bios_put_page:
  assumes b: "bios_text C R B P P0 t s" and xy: "x \<le> C" "y < R" and pg: "B = bios_find_page t pg s"
  obtains pt1 s1 x1 y1 cells1
  where "bios_put t pg 1 7 c (B + of_nat (2 * (y * C + x)), int x, int y, src, s) = Some (pt1, int x1, int y1, src, s1)"
    "page_edit P s s1" "x1 \<le> C" "y1 < R" "tele_char C R c (x, y, screen_at P (C * R) (mem s)) = (x1, y1, cells1)"
    "screen_at P (C * R) (mem s1) = cells1"
proof -
  note d = bios_text_dims[OF b]
  have u: "user_page s B P" "2 * (C * R) \<le> 4096" using b by (auto simp: bios_text_def)
  let ?cells = "screen_at P (C * R) (mem s)" and ?pt = "B + of_nat (2 * (y * C + x)) :: u32"
  note ret = that
  consider "c = 8" | "c = 13" | "c = 10" | "c = 7" | "c \<noteq> 8" "c \<noteq> 13" "c \<noteq> 10" "c \<noteq> 7" by blast
  then show thesis
  proof cases
    case 1
    define x1 y1 where "x1 = (if 0 < x then x - 1 else if 0 < y then C - 1 else 0)" and "y1 = (if 0 < x then y else y - 1)"
    have lt: "x1 \<le> C" "y1 < R" using xy d(4) by (auto simp: x1_def y1_def)
    have c1: "short (uint (vt_cols t s - 1)) = int (C - 1)"
    proof -
      have "vt_cols t s - 1 = of_nat (C - 1)" using d(4) by (simp add: d(1) of_nat_diff)
      then show ?thesis using d(6) by (simp add: uint_nat unat_of_nat short_small)
    qed
    have sx: "0 < x \<Longrightarrow> short (int x - 1) = int (x - 1)" "0 < y \<Longrightarrow> short (int y - 1) = int (y - 1)" "short (- 1) = - 1"
      using xy d(8,9) by (simp_all add: short_small of_nat_diff) (simp add: short_def)
    have "bios_put t pg 1 7 c (?pt, int x, int y, src, s) = Some (bios_point t pg (int x1) (int y1) s, int x1, int y1, src, s)"
      using 1 sx c1 by (auto simp: bios_put_def Let_def x1_def y1_def)
    moreover have "tele_char C R c (x, y, ?cells) = (x1, y1, ?cells)" using 1 by (auto simp: x1_def y1_def)
    ultimately show ?thesis using ret page_edit_refl lt by blast
  next
    case 2
    then have "bios_put t pg 1 7 c (?pt, int x, int y, src, s) = Some (bios_point t pg 0 (int y) s, int 0, int y, src, s)"
      "tele_char C R c (x, y, ?cells) = (0, y, ?cells)" by (simp_all add: bios_put_def)
    then show ?thesis using ret[OF _ page_edit_refl _ xy(2) _ refl] by simp
  next
    case 3
    obtain s1 y1 cells1 where n: "bios_next_row t pg (int y) s = Some (int y1, s1)" "page_edit P s s1" "y1 < R"
      "term_line C R (x, y, ?cells) = (0, y1, cells1)" "screen_at P (C * R) (mem s1) = cells1"
      by (rule bios_next_row_page[OF b xy(2) pg])
    then have "bios_put t pg 1 7 c (?pt, int x, int y, src, s) = Some (bios_point t pg 0 (int y1) s1, int 0, int y1, src, s1)"
      "tele_char C R c (x, y, ?cells) = (0, y1, cells1)" using 3 by (simp_all add: bios_put_def del: term_line.simps)
    then show ?thesis using ret[OF _ n(2) _ n(3) _ n(5)] by simp
  next
    case 4
    then have p: "bios_put t pg 1 7 c (?pt, int x, int y, src, s) = Some (?pt, int x, int y, src, s)"
      "tele_char C R c (x, y, ?cells) = (x, y, ?cells)" by (simp_all add: bios_put_def)
    then show ?thesis using ret[OF p(1) page_edit_refl xy p(2) refl] by simp
  next
    case 5
    have col: "short (int x + 1) = int (Suc x)" using xy(1) d(8) by (simp add: short_small)
    have ge: "(of_int (int (Suc x)) :: u32) \<ge> vt_cols t s \<longleftrightarrow> C \<le> Suc x"
      using xy(1) d(6) by (simp add: d(1) word_le_nat_alt unat_of_nat del: of_nat_Suc)
    show ?thesis
    proof (cases "C \<le> Suc x")
      case True
      obtain s1 y1 cells1 where n: "bios_next_row t pg (int y) s = Some (int y1, s1)" "page_edit P s s1" "y1 < R"
        "term_line C R (x, y, ?cells) = (0, y1, cells1)" "screen_at P (C * R) (mem s1) = cells1"
        by (rule bios_next_row_page[OF b xy(2) pg])
      note b1 = bios_text_edit[OF b n(2) disjI1[OF refl]] and pg1 = pg[folded bios_find_page_edit[OF n(2), of t pg]]
      have pt: "bios_point t pg 0 (int y1) s1 = B + of_nat (2 * (y1 * C))"
        using bios_point_cell[OF b1 pg1, of 0 y1] by simp
      have "y1 * C + 0 < C * R" by (rule cell_less) (use d(4) n(3) in auto)
      then have p: "y1 * C < C * R" by simp
      have "user_page s1 B P" by (rule bios_text_pages(3)[OF b1])
      then obtain s2 where g: "put_user_byte c (B + of_nat (2 * (y1 * C))) s1 \<bind> put_user_byte 7 (B + of_nat (2 * (y1 * C)) + 1) = Some s2"
        "page_edit P s1 s2" "screen_at P (C * R) (mem s2) = cells1[y1 * C := (c, 7)]"
        using p u(2) n(5) by (metis put_glyph_page)
      have "bios_put t pg 1 7 c (?pt, int x, int y, src, s) = Some (B + of_nat (2 * (y1 * C)) + 2, int 0, int y1, src, s2)"
        using g(1) True ge unfolding bios_put_def by (auto simp: 5 n(1) pt col bind_eq_Some_conv)
      moreover have "tele_char C R c (x, y, ?cells) = (0, y1, cells1[y1 * C := (c, 7)])" using 5 True n(4) by simp
      ultimately show ?thesis
        using ret[OF _ page_edit_trans[OF n(2) g(2)] _ n(3) _ g(3), of _ 0] d(4) by simp
    next
      case False
      then have p: "y * C + x < C * R" using cell_less[of x C y R] xy(2) by simp
      obtain s2 where g: "put_user_byte c ?pt s \<bind> put_user_byte 7 (?pt + 1) = Some s2"
        "page_edit P s s2" "screen_at P (C * R) (mem s2) = ?cells[y * C + x := (c, 7)]"
        by (rule put_glyph_page[OF u(1) p u(2)])
      have "bios_put t pg 1 7 c (?pt, int x, int y, src, s) = Some (?pt + 2, int (Suc x), int y, src, s2)"
        using g(1) False ge unfolding bios_put_def by (auto simp: 5 col bind_eq_Some_conv)
      moreover have "tele_char C R c (x, y, ?cells) = (Suc x, y, ?cells[y * C + x := (c, 7)])" using 5 False by simp
      ultimately show ?thesis using ret[OF _ g(2) _ xy(2) _ g(3), of _ "Suc x"] False by simp
    qed
  qed
qed

text \<open>The cursor: only the display and the ports are written.\<close>

definition video_only :: "'a vids_scheme \<Rightarrow> 'a vids_scheme \<Rightarrow> bool" where
  "video_only s s' \<longleftrightarrow> (\<exists>vs l. s' = s\<lparr>videos := vs, port_log := l\<rparr>)"

lemma video_only_refl: "video_only s s"
  unfolding video_only_def by (intro exI[of _ "videos s"] exI[of _ "port_log s"]) simp

lemma video_only_trans: "video_only s s1 \<Longrightarrow> video_only s1 s2 \<Longrightarrow> video_only s s2"
  unfolding video_only_def by fastforce

lemma video_only_upd: "video_only s (vid_upd v f s)" "video_only s (outb b port s)"
  unfolding video_only_def vid_upd_def outb_def
  by (intro exI[of _ "(videos s)(v := f (videos s v))"] exI[of _ "port_log s"], simp)
    (intro exI[of _ "videos s"] exI[of _ "POut port b # port_log s"], simp)

lemma video_only_crt_reg: "video_only s (set_crt_reg v i b s)"
  unfolding set_crt_reg_def Let_def
  by (auto intro: video_only_refl video_only_upd video_only_trans[OF video_only_trans[OF video_only_upd(2) video_only_upd(2)] video_only_upd(1)])

lemma video_only_outb:
  assumes "port = 0x3b4 \<or> port = 0x3b5 \<or> port = 0x3d4 \<or> port = 0x3d5"
  shows "video_only s (video_outb v b port s)"
proof -
  note chain = video_only_trans[OF video_only_trans[OF video_only_upd(1) video_only_upd(1)] video_only_crt_reg]
  have "video_only s (mda_outb v b port s)" "video_only s (cga_outb v b port s)"
    unfolding mda_outb_def cga_outb_def upd_mda_def upd_cga_def Let_def using assms
    by (auto intro: video_only_refl video_only_upd chain)
  then show ?thesis by (simp add: video_outb_def split: video_ops.split)
qed

lemma video_only_put_crt:
  assumes "crt_ports t s" shows "video_only s (put_crt t i b s)"
proof -
  let ?s1 = "video_outb t i (TTY_CRT_I t s) s"
  have p: "TTY_CRT_I t s = 0x3b4 \<or> TTY_CRT_I t s = 0x3b5 \<or> TTY_CRT_I t s = 0x3d4 \<or> TTY_CRT_I t s = 0x3d5"
    using assms by (auto simp: crt_ports_def TTY_CRT_I_def)
  have "same_page t s ?s1" by (rule same_page_outb[OF p])
  then have "crt_d (v_vga (videos ?s1 t)) = crt_d (v_vga (videos s t))" by (simp add: same_page_def)
  then have "TTY_CRT_D t ?s1 = 0x3b4 \<or> TTY_CRT_D t ?s1 = 0x3b5 \<or> TTY_CRT_D t ?s1 = 0x3d4 \<or> TTY_CRT_D t ?s1 = 0x3d5"
    using assms by (auto simp: crt_ports_def TTY_CRT_D_def)
  then have "video_only ?s1 (video_outb t b (TTY_CRT_D t ?s1) ?s1)" by (rule video_only_outb)
  then show ?thesis unfolding put_crt_def Let_def using video_only_trans[OF video_only_outb[OF p]] by blast
qed

lemma crt_ports_same: "same_page t s s' \<Longrightarrow> crt_ports t s \<Longrightarrow> crt_ports t s'"
  by (simp add: same_page_def crt_ports_def)

lemma set_cursor_effect:
  assumes b: "bios_text C R B P P0 t s" and xy: "x \<le> C" "y < R"
  defines "s' \<equiv> tty_set_cursor t (int x) (int y) s"
  shows "bios_text C R B P P0 t s'" "mem s' = mem s" "tty_x (ttys s' t) = int x" "tty_y (ttys s' t) = int y"
    "current_page (ttys s' t) = current_page (ttys s t)" "vm_video s' = vm_video s"
proof -
  let ?s1 = "tty_upd t (\<lambda>r. r\<lparr>tty_x := int x, tty_y := int y\<rparr>) s"
  note p = bios_text_pages[OF b]
  let ?off = "(of_int (int x + int y * TTY_COLS t s) :: u16)"
  let ?s2 = "put_crt t 14 (ucast (drop_bit 8 ?off)) ?s1"
  have n: "\<not> (int x > TTY_COLS t s \<or> int y > TTY_ROWS t s)" using p(1) xy by (simp add: text_tty_def)
  have e: "s' = put_crt t 15 (ucast (?off AND 255)) ?s2"
    unfolding s'_def tty_set_cursor_def using n by (simp add: Let_def)
  have c1: "crt_ports t ?s1" using p(2) by (simp add: crt_ports_def tty_upd_def)
  have sp: "same_page t ?s1 ?s2" by (rule same_page_put_crt[OF c1])
  have c2: "crt_ports t ?s2" by (rule crt_ports_same[OF sp c1])
  have same: "same_page t ?s1 s'" unfolding e by (rule same_page_trans[OF sp same_page_put_crt[OF c2]])
  have "video_only ?s1 s'" unfolding e by (rule video_only_trans[OF video_only_put_crt[OF c1] video_only_put_crt[OF c2]])
  then obtain vs l where v: "s' = ?s1\<lparr>videos := vs, port_log := l\<rparr>" unfolding video_only_def by blast
  show m: "mem s' = mem s" "tty_x (ttys s' t) = int x" "tty_y (ttys s' t) = int y"
    "current_page (ttys s' t) = current_page (ttys s t)" "vm_video s' = vm_video s"
    by (simp_all add: v tty_upd_def)
  have u: "user_page s' q r = user_page s q r" for q r
    by (rule user_page_cong) (simp_all add: v tty_upd_def)
  have mi: "v_mi (videos s' t) = v_mi (videos s t)" using same by (simp add: same_page_def tty_upd_def)
  have "text_tty C R t s'" using p(1) xy by (simp add: text_tty_def TTY_COLS_def TTY_ROWS_def mi m)
  moreover have "B = bios_find_page t (ucast (current_page (ttys s' t))) s'"
    using p(7) by (simp add: bios_find_page_def vt_buf_def TTY_PAGE_SIZE_def mi m)
  moreover have "crt_ports t s'" by (rule crt_ports_same[OF same c1])
  ultimately show "bios_text C R B P P0 t s'"
    using p(3-6,8,9) unfolding bios_text_def by (simp add: u m TTY_NUM_PAGES_def mi)
qed

definition bios_screen :: "nat \<Rightarrow> nat \<Rightarrow> u32 \<Rightarrow> nat \<Rightarrow> 'a ttys_scheme \<Rightarrow> term_state" where
  "bios_screen C R P t s = (nat (tty_x (ttys s t)), nat (tty_y (ttys s t)), screen_at P (C * R) (mem s))"

lemma bios_text_cursor:
  assumes "bios_text C R B P P0 t s"
  obtains x y where "tty_x (ttys s t) = int x" "tty_y (ttys s t) = int y" "x \<le> C" "y < R"
proof -
  have "0 \<le> tty_x (ttys s t)" "0 \<le> tty_y (ttys s t)" "tty_x (ttys s t) \<le> int C" "tty_y (ttys s t) < int R"
    using bios_text_pages(1)[OF assms] by (simp_all add: text_tty_def)
  then show thesis using that[of "nat (tty_x (ttys s t))" "nat (tty_y (ttys s t))"] by simp
qed

lemma screen_at_cong:
  assumes "page_aligned P" "2 * n \<le> 4096" "\<And>a. page_base a = P \<Longrightarrow> m a = m' a"
  shows "screen_at P n m = screen_at P n m'"
proof -
  have "page_base (P + of_nat j) = P" if "j < 4096" for j
    using page_base_add[OF assms(1), of "of_nat j"] that by (simp add: unat_of_nat)
  then show ?thesis using assms(2) by (auto simp: screen_at_def intro!: assms(3) simp del: of_nat_mult of_nat_add of_nat_Suc)
qed

lemma teletype_step:
  assumes b: "bios_text C R B P P0 (vm_video s) s" and f: "GET8H (eax regs) = 14"
    and pg: "GET8H (ebx regs) = ucast (current_page (ttys s (vm_video s)))"
  shows "\<exists>s'. vbios_video_handler (regs, s) = Some (regs, s') \<and> bios_text C R B P P0 (vm_video s) s'
     \<and> bios_screen C R P (vm_video s) s' = tele_char C R (ucast (GET8 (eax regs))) (bios_screen C R P (vm_video s) s)
     \<and> vm_video s' = vm_video s \<and> current_page (ttys s' (vm_video s)) = current_page (ttys s (vm_video s))"
proof -
  let ?t = "vm_video s" and ?c = "ucast (GET8 (eax regs)) :: u8"
  let ?pg = "ucast (current_page (ttys s ?t)) :: u32"
  note p = bios_text_pages[OF b]
  obtain x y where xy: "tty_x (ttys s ?t) = int x" "tty_y (ttys s ?t) = int y" "x \<le> C" "y < R"
    by (rule bios_text_cursor[OF b])
  obtain pt1 s1 x1 y1 cells1 where st: "bios_put ?t ?pg 1 7 ?c (B + of_nat (2 * (y * C + x)), int x, int y, Kernel_str [], s)
      = Some (pt1, int x1, int y1, Kernel_str [], s1)" "page_edit P s s1" "x1 \<le> C" "y1 < R"
      "tele_char C R ?c (x, y, screen_at P (C * R) (mem s)) = (x1, y1, cells1)" "screen_at P (C * R) (mem s1) = cells1"
    by (rule bios_put_page[OF b xy(3,4) p(7)])
  have e1: "ttys s1 = ttys s" "vm_video s1 = vm_video s" using st(2) by (auto simp: page_edit_def)
  note b1 = bios_text_edit[OF b st(2) disjI1[OF refl]]
  define s2 where "s2 = tty_set_cursor ?t (int x1) (int y1) s1"
  note c = set_cursor_effect[OF b1 st(3,4), folded s2_def]
  define k where "k = 0x450 + 2 * unat (current_page (ttys s ?t))"
  have k: "k + 1 < 4096" using p(8) by (simp add: k_def word_less_nat_alt)
  have kp: "cursor_pos_p ?pg = 0 + of_nat k" by (simp add: cursor_pos_p_def k_def)
  define s3 where "s3 = s2\<lparr>mem := store16 (mem s2) (P0 + of_nat k) (of_int (int x1) OR push_bit 8 (of_int (int y1)))\<rparr>"
  have put: "put_user_short (of_int (int x1) OR push_bit 8 (of_int (int y1))) (cursor_pos_p ?pg) s2 = Some s3"
    unfolding kp s3_def by (rule user_put16[OF bios_text_pages(4)[OF c(1)] k])
  have "?pg < 8" using p(8) by (simp add: word_less_nat_alt unsigned_ucast_eq le_less_trans[OF take_bit_nat_less_eq_self])
  then have "bios_print ?t (Kernel_str [?c]) 1 1 7 (int x) (int y) ?pg s = Some s3"
    using p(9) st(1) put bios_point_cell[OF b p(7), of x y] e1
    by (simp add: bios_print_def next_char_def s2_def[symmetric] not_le[symmetric])
  then have run: "vbios_video_handler (regs, s) = Some (regs, s3)"
    unfolding vbios_video_handler_def int10_state_def Let_def prod.case f pg xy(1,2) by simp
  have ed: "page_edit P0 s2 s3" unfolding s3_def
    by (rule page_editI)
      (use user_page_phys[OF bios_text_pages(4)[OF c(1)], of k] user_page_phys[OF bios_text_pages(4)[OF c(1)], of "k + 1"] k in
        \<open>auto simp: store16_def of_nat_step(1) simp del: of_nat_add\<close>)
  have e3: "ttys s3 = ttys s2" "vm_video s3 = vm_video s2" by (simp_all add: s3_def)
  have "screen_at P (C * R) (mem s3) = screen_at P (C * R) (mem s2)"
    by (rule screen_at_cong[OF user_page_aligned(2)[OF p(3)] p(6)]) (use ed p(5) in \<open>auto simp: page_edit_def\<close>)
  then have "bios_screen C R P ?t s3 = (x1, y1, cells1)" using st(6) c(2-4) by (simp add: bios_screen_def e3)
  moreover have "bios_screen C R P ?t s = (x, y, screen_at P (C * R) (mem s))" by (simp add: bios_screen_def xy)
  ultimately show ?thesis
    using run bios_text_edit[OF c(1) ed disjI2[OF refl]] st(5) c(5,6) e1 e3 by auto
qed

section \<open>Strings\<close>

lemma byte_masks: "(0xff :: u32) = semiring_bit_operations_class.mask 8" "(0xff00 :: u32) = push_bit 8 (semiring_bit_operations_class.mask 8)"
    "(0xffff00ff :: u32) = NOT (push_bit 8 (semiring_bit_operations_class.mask 8))" "(0xffffff00 :: u32) = NOT (semiring_bit_operations_class.mask 8)"
  by (simp_all add: mask_eq_exp_minus_1 push_bit_eq_mult)

lemma GET_SET [simp]: "GET8H (SET8H x v) = v AND 0xff" "GET8 (SET8H x v) = GET8 x" "GET8 (SET8 x v) = v AND 0xff"
  "GET8H (SET8 x v) = GET8H x"
  unfolding GET8H_def SET8H_def GET8_def SET8_def byte_masks
  by (rule bit_word_eqI; auto simp: bit_simps)+

lemma GET8_byte: "GET8 (ucast (c :: u8)) = ucast c" "ucast (GET8 x) = (ucast x :: u8)" "(ucast (c :: u8) :: u32) AND 0xff = ucast c"
    "ucast (ucast (c :: u8) :: u32) = c"
  unfolding GET8_def byte_masks by (rule bit_word_eqI; auto simp: bit_simps dest: bit_imp_le_length)+

text \<open>The registers for the output of a character on a page, and the call with them.\<close>

definition teletype_regs :: "u8 \<Rightarrow> u8 \<Rightarrow> vm86_regs \<Rightarrow> vm86_regs" where
  "teletype_regs pg c regs = regs\<lparr>eax := SET8H (ucast c) 14, ebx := SET8H (ebx regs) (ucast pg)\<rparr>"

definition teletype :: "u8 \<Rightarrow> vm86_regs \<Rightarrow> u8 \<Rightarrow> 'a ttys_scheme \<Rightarrow> 'a ttys_scheme option" where
  "teletype pg regs c s = map_option snd (vbios_video_handler (teletype_regs pg c regs, s))"

lemma teletype_run:
  assumes "bios_text C R B P P0 (vm_video s) s"
  shows "\<exists>s'. each (teletype (current_page (ttys s (vm_video s))) regs) us s = Some s'
     \<and> bios_screen C R P (vm_video s) s' = fold (tele_char C R) us (bios_screen C R P (vm_video s) s)
     \<and> bios_text C R B P P0 (vm_video s) s'"
  using assms
proof (induction us arbitrary: s)
  case (Cons c us)
  let ?pg = "current_page (ttys s (vm_video s))" and ?r = "teletype_regs (current_page (ttys s (vm_video s))) c regs"
  have r: "GET8H (eax ?r) = 14" "GET8H (ebx ?r) = ucast ?pg" "ucast (GET8 (eax ?r)) = c"
    by (simp_all add: teletype_regs_def GET8_byte)
  obtain s1 where s1: "vbios_video_handler (?r, s) = Some (?r, s1)" "bios_text C R B P P0 (vm_video s) s1"
      "bios_screen C R P (vm_video s) s1 = tele_char C R c (bios_screen C R P (vm_video s) s)"
      "vm_video s1 = vm_video s" "current_page (ttys s1 (vm_video s)) = ?pg"
    using teletype_step[OF Cons.prems r(1,2)] unfolding r(3) by blast
  then show ?case using Cons.IH[of s1] by (simp add: teletype_def)
qed simp

text \<open>
  C22: The teletype service of the BIOS refines an abstract teletype: a string sent character by character
  gives the cells and the cursor of the abstract screen, on the page that is shown and mapped.
\<close>
theorem teletype_refines:
  assumes "bios_text C R B P P0 (vm_video s) s"
  shows "\<exists>s'. each (teletype (current_page (ttys s (vm_video s))) regs) us s = Some s'
     \<and> bios_screen C R P (vm_video s) s' = fold (tele_char C R) us (bios_screen C R P (vm_video s) s)
     \<and> bios_text C R B P P0 (vm_video s) s'"
  using teletype_run[OF assms] by blast

text \<open>
  A character that reaches the right margin is lost: it is put into the first column of the next row
  and the cursor stays on it, so that the next character overwrites it.
\<close>
theorem margin_character_lost:
  assumes "bios_text C R B P P0 (vm_video s) s" "tty_x (ttys s (vm_video s)) = int (C - 1)"
    "tty_y (ttys s (vm_video s)) = int y" "Suc y < R" "c \<notin> {7, 8, 10, 13}" "d \<notin> {7, 8, 10, 13}"
  shows "\<exists>s'. each (teletype (current_page (ttys s (vm_video s))) regs) [c, d] s = Some s'
     \<and> bios_screen C R P (vm_video s) s' = (1, Suc y, (screen_at P (C * R) (mem s))[Suc y * C := (d, 7)])"
proof -
  obtain s' where r: "each (teletype (current_page (ttys s (vm_video s))) regs) [c, d] s = Some s'"
      "bios_screen C R P (vm_video s) s' = fold (tele_char C R) [c, d] (bios_screen C R P (vm_video s) s)"
    using teletype_run[OF assms(1)] by blast
  have "2 \<le> C" by (rule bios_text_dims(4)[OF assms(1)])
  then have "fold (tele_char C R) [c, d] (bios_screen C R P (vm_video s) s)
      = (1, Suc y, (screen_at P (C * R) (mem s))[Suc y * C := (d, 7)])"
    using assms(2-6) by (auto simp: bios_screen_def)
  then show ?thesis using r by auto
qed

section \<open>Scrolling up\<close>

lemma each_append: "each f (xs @ ys) s = Option.bind (each f xs s) (each f ys)"
proof (induction xs arbitrary: s)
  case (Cons i xs)
  then have "each f (xs @ ys) = (\<lambda>s. Option.bind (each f xs s) (each f ys))" by blast
  then show ?case by simp
qed simp

lemma scroll_addr_row:
  assumes "bios_text C R B P P0 t s"
  shows "scroll_addr t 0 (of_nat i) s = B + of_nat (2 * (C * i))"
  using bios_text_dims(1)[OF assms] bios_text_pages(7)[OF assms]
  by (simp add: scroll_addr_def bios_find_page_def algebra_simps)

lemma row_in_page:
  assumes "bios_text C R B P P0 t s" "i < R" shows "2 * (C * i) + 2 * C \<le> 4096"
proof -
  have "C * Suc i \<le> C * R" using assms(2) by (intro mult_le_mono2) simp
  then show ?thesis using bios_text_pages(6)[OF assms(1)] by simp
qed

text \<open>A row copied from one above, and a row filled, both over the whole width.\<close>

lemma copy_row_page:
  assumes b: "bios_text C R B P P0 t s" and i: "i < R" "j < i"
  obtains s1 where "copy_row t 0 (of_nat (C - 1)) (of_nat i) (of_nat j) s = Some s1" "page_edit P s s1"
    "\<forall>q < C * R. screen_at P (C * R) (mem s1) ! q
       = screen_at P (C * R) (mem s) ! (if C * i \<le> q \<and> q < C * i + C then q - C * i + C * j else q)"
proof -
  note d = bios_text_dims[OF b] and p = bios_text_pages[OF b]
  define n where "n = C div 2"
  have n: "2 * C = 4 * n" using d(3) by (auto simp: n_def)
  have ji: "C * j + C \<le> C * i" using mult_le_mono2[of "Suc j" i C] i(2) by simp
  have lim: "2 * (C * i) + 4 * n \<le> 4096" "2 * (C * j) + 4 * n \<le> 2 * (C * i)" "4 * n \<le> 4096" "2 * (C * j) + 4 * n \<le> 4096"
    using row_in_page[OF b i(1)] ji n by linarith+
  have w: "(of_nat (C - 1) - 0 + 1) * 2 = (of_nat (4 * n) :: u32)" using d(4) unfolding n[symmetric] by (simp add: of_nat_diff)
  let ?m = "memcpy (mem s) (P + of_nat (2 * (C * i))) (P + of_nat (2 * (C * j))) (of_nat (4 * n))"
  have m: "?m (P + of_nat k) = (if 2 * (C * i) \<le> k \<and> k < 2 * (C * i) + 4 * n then mem s (P + of_nat (k - 2 * (C * i) + 2 * (C * j)))
      else mem s (P + of_nat k))" if "k < 2 ^ 32" for k
    unfolding memcpy_longs[OF lim(3)] by (rule memcpyl_down) (use lim that in auto)
  show thesis
  proof (rule that)
    show "copy_row t 0 (of_nat (C - 1)) (of_nat i) (of_nat j) s = Some (s\<lparr>mem := ?m\<rparr>)"
      unfolding copy_row_def w scroll_addr_row[OF b] by (rule user_copy[OF p(3)]) (use lim in auto)
    show "page_edit P s (s\<lparr>mem := ?m\<rparr>)"
    proof (rule page_editI)
      fix a assume "page_base a \<noteq> P"
      then have o: "4096 \<le> unat (a - P)" by (rule off_page[OF user_page_aligned(2)[OF p(3)]])
      have "P + of_nat (unat (a - P)) = a" by simp
      then show "?m a = mem s a" using m[of "unat (a - P)"] o lim(1) unat_u32_lt[of "a - P"] by simp
    qed
    have mm: "mem (s\<lparr>mem := ?m\<rparr>) = ?m" by simp
    have "screen_at P (C * R) (mem (s\<lparr>mem := ?m\<rparr>)) ! q
      = screen_at P (C * R) (mem s) ! (if C * i \<le> q \<and> q < C * i + C then q - C * i + C * j else q)" if q: "q < C * R" for q
    proof -
    have k: "2 * q < 2 ^ 32" "2 * q + 1 < 2 ^ 32"
      using q p(6) by simp_all
    show ?thesis
    proof (cases "C * i \<le> q \<and> q < C * i + C")
      case True
      then obtain x where x: "q = C * i + x" using le_Suc_ex by blast
      have e: "2 * q - 2 * (C * i) + 2 * (C * j) = 2 * (q - C * i + C * j)"
        "2 * q + 1 - 2 * (C * i) + 2 * (C * j) = 2 * (q - C * i + C * j) + 1" by (simp_all add: x)
      have lt: "q - C * i + C * j < C * R" using True ji q by linarith
      have r: "2 * (C * i) \<le> 2 * q \<and> 2 * q < 2 * (C * i) + 4 * n" "2 * (C * i) \<le> 2 * q + 1 \<and> 2 * q + 1 < 2 * (C * i) + 4 * n"
        using True n by linarith+
      show ?thesis unfolding if_P[OF True] nth_screen_at[OF q] nth_screen_at[OF lt] mm
        m[OF k(1)] m[OF k(2)] if_P[OF r(1)] if_P[OF r(2)] e ..
    next
      case False
      then have r: "\<not> (2 * (C * i) \<le> 2 * q \<and> 2 * q < 2 * (C * i) + 4 * n)" "\<not> (2 * (C * i) \<le> 2 * q + 1 \<and> 2 * q + 1 < 2 * (C * i) + 4 * n)"
        using n by linarith+
      show ?thesis unfolding if_not_P[OF False] nth_screen_at[OF q] mm
        m[OF k(1)] m[OF k(2)] if_not_P[OF r(1)] if_not_P[OF r(2)] ..
    qed
    qed
    then show "\<forall>q < C * R. screen_at P (C * R) (mem (s\<lparr>mem := ?m\<rparr>)) ! q
      = screen_at P (C * R) (mem s) ! (if C * i \<le> q \<and> q < C * i + C then q - C * i + C * j else q)" by blast
  qed
qed

lemma blank_row_page:
  assumes b: "bios_text C R B P P0 t s" and i: "i < R"
  obtains s1 where "blank_row t att 0 (of_nat (C - 1)) (of_nat i) s = Some s1" "page_edit P s s1"
    "\<forall>q < C * i. screen_at P (C * R) (mem s1) ! q = screen_at P (C * R) (mem s) ! q"
proof -
  note d = bios_text_dims[OF b] and p = bios_text_pages[OF b] and lim = row_in_page[OF b i]
  let ?w = "push_bit 8 (ucast att) :: u16"
  let ?m = "memsetw (mem s) (P + of_nat (2 * (C * i))) ?w C"
  have w: "unat (of_nat (C - 1) - 0 + 1 :: u32) = C" using d(4,6) by (simp add: of_nat_diff unat_of_nat)
  show thesis
  proof (rule that)
    show "blank_row t att 0 (of_nat (C - 1)) (of_nat i) s = Some (s\<lparr>mem := ?m\<rparr>)"
      unfolding blank_row_def w scroll_addr_row[OF b] by (rule user_fillw[OF p(3)]) (use lim in simp)
    show "page_edit P s (s\<lparr>mem := ?m\<rparr>)"
      by (rule page_editI) (use lim fill_off_page[OF user_page_aligned(2)[OF p(3)], of "C * i" C] in auto)
    have mm: "mem (s\<lparr>mem := ?m\<rparr>) = ?m" by simp
    have "screen_at P (C * R) (mem (s\<lparr>mem := ?m\<rparr>)) ! q = screen_at P (C * R) (mem s) ! q" if q: "q < C * i" for q
    proof -
    have lt: "q < C * R" using q mult_le_mono2[OF less_imp_le[OF i], of C] by linarith
    have k: "2 * q < 2 ^ 32" "2 * q + 1 < 2 ^ 32" "2 * (C * i) + 2 * C \<le> 2 ^ 32" using lt p(6) lim by simp_all
    have r: "\<not> (2 * (C * i) \<le> 2 * q \<and> 2 * q < 2 * (C * i) + 2 * C)" "\<not> (2 * (C * i) \<le> 2 * q + 1 \<and> 2 * q + 1 < 2 * (C * i) + 2 * C)"
      using q by linarith+
    show ?thesis
      unfolding nth_screen_at[OF lt] mm memsetw_at[OF k(3,1)] memsetw_at[OF k(3,2)] if_not_P[OF r(1)] if_not_P[OF r(2)] ..
    qed
    then show "\<forall>q < C * i. screen_at P (C * R) (mem (s\<lparr>mem := ?m\<rparr>)) ! q = screen_at P (C * R) (mem s) ! q" by blast
  qed
qed

text \<open>The two loops: the copies repeat the first row, the filling leaves the rows above.\<close>

lemma copy_rows_repeat:
  assumes b: "bios_text C R B P P0 t s" and "k < R"
  shows "\<exists>s1. each (\<lambda>i. copy_row t 0 (of_nat (C - 1)) i (i - 1)) (map of_nat [1..<Suc k]) s = Some s1 \<and> page_edit P s s1
     \<and> (\<forall>q < C * Suc k. screen_at P (C * R) (mem s1) ! q = screen_at P (C * R) (mem s) ! (q mod C))"
  using assms(2)
proof (induction k)
  case 0
  then show ?case using page_edit_refl[of P s] by auto
next
  case (Suc k)
  then obtain s1 where s1: "each (\<lambda>i. copy_row t 0 (of_nat (C - 1)) i (i - 1)) (map of_nat [1..<Suc k]) s = Some s1"
      "page_edit P s s1" "\<And>q. q < C * Suc k \<Longrightarrow> screen_at P (C * R) (mem s1) ! q = screen_at P (C * R) (mem s) ! (q mod C)"
    by auto
  note b1 = bios_text_edit[OF b s1(2) disjI1[OF refl]]
  obtain s2 where s2: "copy_row t 0 (of_nat (C - 1)) (of_nat (Suc k)) (of_nat k) s1 = Some s2" "page_edit P s1 s2"
      "\<forall>q < C * R. screen_at P (C * R) (mem s2) ! q = screen_at P (C * R) (mem s1) !
         (if C * Suc k \<le> q \<and> q < C * Suc k + C then q - C * Suc k + C * k else q)"
    by (rule copy_row_page[OF b1 Suc.prems lessI])
  have "[1..<Suc (Suc k)] = [1..<Suc k] @ [Suc k]" by simp
  then have "each (\<lambda>i. copy_row t 0 (of_nat (C - 1)) i (i - 1)) (map of_nat [1..<Suc (Suc k)]) s = Some s2"
    using s1(1) s2(1) by (simp add: each_append del: upt_Suc)
  moreover have "page_edit P s s2" by (rule page_edit_trans[OF s1(2) s2(2)])
  moreover have "screen_at P (C * R) (mem s2) ! q = screen_at P (C * R) (mem s) ! (q mod C)" if q: "q < C * Suc (Suc k)" for q
  proof -
    have lt: "q < C * R" using q mult_le_mono2[of "Suc (Suc k)" R C] Suc.prems by linarith
    show ?thesis
    proof (cases "C * Suc k \<le> q")
      case True
      then obtain x where x: "q = C * Suc k + x" using le_Suc_ex by blast
      then have "x < C" using q by simp
      then have c: "C * Suc k \<le> q \<and> q < C * Suc k + C" "q - C * Suc k + C * k = C * k + x" "C * k + x < C * Suc k"
        using True x by simp_all
      have "q mod C = (C * k + x) mod C" unfolding x by (simp only: mod_mult_self4 mult.commute[of C] mod_mult_self3)
      then show ?thesis using s2(3)[rule_format, OF lt] s1(3)[OF c(3)] unfolding if_P[OF c(1)] c(2) by simp
    next
      case False
      then show ?thesis using s2(3)[rule_format, OF lt] s1(3)[of q] by simp
    qed
  qed
  ultimately show ?case by blast
qed

lemma blank_rows_above:
  assumes "bios_text C R B P P0 t s" "set is \<subseteq> {r..<R}"
  shows "\<exists>s1. each (blank_row t att 0 (of_nat (C - 1))) (map of_nat is) s = Some s1 \<and> page_edit P s s1
     \<and> (\<forall>q < C * r. screen_at P (C * R) (mem s1) ! q = screen_at P (C * R) (mem s) ! q)"
  using assms
proof (induction "is" arbitrary: s)
  case Nil
  then show ?case using page_edit_refl[of P s] by auto
next
  case (Cons i xs)
  then obtain s1 where s1: "blank_row t att 0 (of_nat (C - 1)) (of_nat i) s = Some s1" "page_edit P s s1"
      "\<forall>q < C * i. screen_at P (C * R) (mem s1) ! q = screen_at P (C * R) (mem s) ! q"
    using blank_row_page[OF Cons.prems(1), of i att] by auto
  obtain s2 where s2: "each (blank_row t att 0 (of_nat (C - 1))) (map of_nat xs) s1 = Some s2" "page_edit P s1 s2"
      "\<forall>q < C * r. screen_at P (C * R) (mem s2) ! q = screen_at P (C * R) (mem s1) ! q"
    using Cons.IH[OF bios_text_edit[OF Cons.prems(1) s1(2) disjI1[OF refl]]] Cons.prems(2) by auto
  have "C * r \<le> C * i" using Cons.prems(2) by (intro mult_le_mono2) simp
  then have "\<forall>q < C * r. screen_at P (C * R) (mem s2) ! q = screen_at P (C * R) (mem s) ! q"
    using s1(3) s2(3) by (metis order.strict_trans2)
  then show ?case using s1(1) s2(1) page_edit_trans[OF s1(2) s2(2)] by (intro exI[of _ s2]) simp
qed

text \<open>
  The service that should scroll the whole screen up by one line copies the rows in the wrong direction:
  afterwards every row above the last two holds what the first row held, and the other rows are lost.
\<close>
theorem scroll_up_repeats_first_row:
  assumes b: "bios_text C R B P P0 (vm_video s) s" and f: "GET8H (eax regs) = 6" "GET8 (eax regs) = 1"
    and w: "GET8 (ecx regs) = 0" "GET8H (ecx regs) = 0" "GET8 (edx regs) = of_nat (C - 1)" "GET8H (edx regs) = of_nat (R - 1)"
    and R: "2 \<le> R"
  shows "\<exists>s'. vbios_video_handler (regs, s) = Some (regs, s')
     \<and> (\<forall>q < C * (R - 2). screen_at P (C * R) (mem s') ! q = screen_at P (C * R) (mem s) ! (q mod C))"
proof -
  let ?t = "vm_video s" and ?att = "ucast (GET8H (ebx regs)) :: u8"
  note d = bios_text_dims[OF b]
  have lt: "(0 :: u32) < of_nat (C - 1)" "(0 :: u32) < of_nat (R - 1)" "\<not> (of_nat (R - 1) < (1 :: u32))"
    using d(4,6,7) R by (simp_all add: word_less_nat_alt unat_of_nat del: of_nat_diff)
  have r1: "rows (0 + 1) (of_nat (R - 1)) = map of_nat [1..<Suc (R - 1)]"
    using d(7) R by (simp add: rows_def unat_of_nat del: upt_Suc of_nat_diff)
  have "(of_nat (R - 1) - 1 :: u32) = of_nat (R - 2)" using R by (simp add: of_nat_diff)
  then have "unat (of_nat (R - 1) - 1 :: u32) = R - 2" using d(7) by (simp add: unat_of_nat del: of_nat_diff)
  then have r2: "rows (of_nat (R - 1) - 1) (of_nat (R - 1)) = map of_nat [R - 2..<R]"
  proof -
    have "unat (of_nat (R - 1) :: u32) = R - 1" using d(7) by (simp add: unat_of_nat del: of_nat_diff)
    moreover assume "unat (of_nat (R - 1) - 1 :: u32) = R - 2"
    ultimately show ?thesis using R by (simp only: rows_def) simp
  qed
  obtain s1 where s1: "each (\<lambda>i. copy_row ?t 0 (of_nat (C - 1)) i (i - 1)) (map of_nat [1..<Suc (R - 1)]) s = Some s1" "page_edit P s s1"
      "\<forall>q < C * Suc (R - 1). screen_at P (C * R) (mem s1) ! q = screen_at P (C * R) (mem s) ! (q mod C)"
    using copy_rows_repeat[OF b, of "R - 1"] R by auto
  obtain s2 where s2: "each (blank_row ?t ?att 0 (of_nat (C - 1))) (map of_nat [R - 2..<R]) s1 = Some s2"
      "\<forall>q < C * (R - 2). screen_at P (C * R) (mem s2) ! q = screen_at P (C * R) (mem s1) ! q"
    using blank_rows_above[OF bios_text_edit[OF b s1(2) disjI1[OF refl]], of "[R - 2..<R]" "R - 2" ?att] by auto
  have "bios_scroll_up ?t 1 ?att 0 0 (of_nat (C - 1)) (of_nat (R - 1)) s = Some s2"
    unfolding bios_scroll_up_def Let_def r1 r2 using lt s1(1) s2(1) by (simp add: not_le del: upt_Suc)
  then have "vbios_video_handler (regs, s) = Some (regs, s2)"
    unfolding vbios_video_handler_def int10_state_def Let_def prod.case f w by simp
  moreover have "C * (R - 2) \<le> C * Suc (R - 1)" by (intro mult_le_mono2) simp
  ultimately show ?thesis using s1(3) s2(2) by (intro exI[of _ s2]) auto
qed

section \<open>Scrolling down\<close>

lemma scroll_down_loop_none: "scroll_down_loop t n lc rc 0 i s = None"
proof (rule ccontr)
  assume "scroll_down_loop t n lc rc 0 i s \<noteq> None"
  then obtain s' where "scroll_down_loop t n lc rc 0 i s = Some s'" by blast
  then have "(0 :: u32) \<noteq> 0"
  proof (rule scroll_down_loop.raw_induct[where P = "\<lambda>t n lc rc lr i s s'. lr \<noteq> 0", rotated])
    fix K t n lc rc lr i and s s' :: "'a ttys_scheme"
    assume IH: "\<And>t n lc rc lr i s s'. K t n lc rc lr i s = Some s' \<Longrightarrow> lr \<noteq> 0"
      and r: "(if lr \<le> i then Option.bind (copy_row t lc rc i (i - n) s) (K t n lc rc lr (i - 1)) else Some s) = Some s'"
    show "lr \<noteq> 0"
    proof
      assume z: "lr = 0"
      then obtain y where "K t n lc rc 0 (i - 1) y = Some s'" using r by (auto simp: bind_eq_Some_conv)
      from IH[OF this] show False by simp
    qed
  qed
  then show False by simp
qed

text \<open>
  C35: The call that scrolls a window down (AH = 7) never ends, whatever the state and the video mode, when
  the window begins in the top row (CH = 0) and has at least two columns (CL < DL), and the number of lines AL
  is neither 0 nor above the bottom row DH: the counter of the rows is unsigned and compared with 0.  With
  AL = 0 or above DH the code clears the window instead, with one column it returns at once, and a window that
  begins below the top row is scrolled.
\<close>
theorem scroll_down_hangs:
  assumes "GET8H (eax regs) = 7" "GET8H (ecx regs) = 0" "GET8 (ecx regs) < GET8 (edx regs)"
    "0 < GET8 (eax regs)" "GET8 (eax regs) \<le> GET8H (edx regs)"
  shows "vbios_video_handler (regs, s) = None"
proof -
  have "bios_scroll_down t (GET8 (eax regs)) att (GET8 (ecx regs)) 0 (GET8 (edx regs)) (GET8H (edx regs)) s = None" for t att
    using assms(3-5) by (auto simp: bios_scroll_down_def Let_def scroll_down_loop_none not_less[symmetric] word_gt_0
        dest: order.strict_trans2)
  then show ?thesis unfolding vbios_video_handler_def int10_state_def Let_def prod.case assms(1,2) by simp
qed

section \<open>The status of the disks\<close>

lemma put_disk_stat_ok: "put_disk_stat (bios_disk_stat (Some (0, e))) regs = CLC (regs\<lparr>eax := SET8H (eax regs) 0\<rparr>)"
  by (simp add: put_disk_stat_def bios_disk_stat_def Let_def)

lemma GET8H_CLC: "GET8H (eax (CLC (regs\<lparr>eax := SET8H (eax regs) 0\<rparr>))) = 0"
  by (simp add: CLC_def)

text \<open>
  C34: A request for a hard disk that is out of range is reported as a success: the handler clears AH and the
  carry flag, although nothing was transferred.
\<close>
theorem disk_errors_lost:
  assumes "user_page s 0 P0" "slot_vide s = Some v" "GET8H (eax regs) = 2 \<or> GET8H (eax regs) = 3"
    "edx regs AND 0x80 \<noteq> 0" "edx regs AND 0x7f = 0"
    "chs_args regs = (hdno, cyl, sec, count, buf)" "bad_request v 0 hdno cyl sec count"
  shows "vbios_disk_handler g (regs, s) = Some (CLC (regs\<lparr>eax := SET8H (eax regs) 0\<rparr>),
     (upd_vide (set_stat False False HD_ERR_IDNF) s)\<lparr>mem := store8 (mem s) (P0 + 0x474) 0\<rparr>)"
proof -
  let ?s1 = "upd_vide (set_stat False False HD_ERR_IDNF) s"
  have "user_page ?s1 0 P0" using user_page_cong[of ?s1 s 0 P0] assms(1) by (simp add: upd_vide_def)
  from user_put8[OF this, of "0x474" 0] have p: "put_user_byte 0 fixed_disk_status_p ?s1 = Some (?s1\<lparr>mem := store8 (mem s) (P0 + 0x474) 0\<rparr>)"
    by (simp add: fixed_disk_status_p_def upd_vide_def)
  have st: "vide_get_status ?s1 = Some (0, HD_ERR_IDNF)"
    using assms(2) by (simp add: vide_get_status_def upd_vide_def set_stat_def)
  have r: "read_user_blocks 0 hdno cyl sec count buf s = Some (-1, ?s1)" "write_user_blocks 0 hdno cyl sec count buf s = Some (-1, ?s1)"
    using assms(2,7) by (simp_all add: read_user_blocks_def write_user_blocks_def)
  have "hd_service g (regs, s) = Some (CLC (regs\<lparr>eax := SET8H (eax regs) 0\<rparr>), ?s1)"
    using assms(3) by (auto simp: hd_service_def Let_def assms(6) r get_hd_stat_def st put_disk_stat_ok)
  then show ?thesis unfolding vbios_disk_handler_def Let_def prod.case
    using assms(3-5) p by (auto simp: GET8H_CLC)
qed

text \<open>
  The same for a floppy drive without a disk; \<open>fl_status\<close> has the value 0 that the creation of the
  drive gives it, no operation assigns it.
\<close>
lemma floppy_errors_lost:
  assumes "user_page s 0 P0" "slot_vfloppy s = Some v" "\<not> got_disk v" "fl_status v = 0" "GET8H (eax regs) = 2"
    "edx regs AND 0x80 = 0" "edx regs AND 0x7f = 0"
  shows "vbios_disk_handler g (regs, s) = Some (CLC (regs\<lparr>eax := SET8H (eax regs) 0\<rparr>),
     (set_last_stat 0x80 s)\<lparr>mem := store8 (mem s) (P0 + 0x441) 0\<rparr>)"
proof -
  let ?s1 = "set_last_stat 0x80 s"
  have "user_page ?s1 0 P0" using user_page_cong[of ?s1 s 0 P0] assms(1) by (simp add: set_last_stat_def upd_floppy_def)
  from user_put8[OF this, of "0x441" 0] have p: "put_user_byte 0 drive_status_p ?s1 = Some (?s1\<lparr>mem := store8 (mem s) (P0 + 0x441) 0\<rparr>)"
    by (simp add: drive_status_p_def set_last_stat_def upd_floppy_def)
  have st: "vfloppy_get_status ?s1 = Some (0, ucast (fl_error v))"
    using assms(2,4) by (simp add: vfloppy_get_status_def set_last_stat_def upd_floppy_def)
  have "floppy_service (regs, s) = Some (CLC (regs\<lparr>eax := SET8H (eax regs) 0\<rparr>), ?s1)"
    using assms(2,3,5,7) by (simp add: floppy_service_def Let_def vfloppy_read_sectors_def get_fd_stat_def st put_disk_stat_ok
        split: prod.split)
  then show ?thesis unfolding vbios_disk_handler_def Let_def prod.case
    using assms(5,6) p by (simp add: GET8H_CLC)
qed

section \<open>A concrete machine\<close>

text \<open>
  The first example display with the first page of memory mapped too, the cursor in the last column
  of the fourth row, and the example disk.
\<close>

definition demo_bios :: vfls where
  "demo_bios = ttys.extend (demo_ttys\<lparr>mem := store32 demo_pages 0x901000 0x130007, slot_vide := Some demo_vide,
       ttys := (\<lambda>_. demo_tty\<lparr>tty_x := 79, tty_y := 3\<rparr>)\<rparr>)
     \<lparr>slot_vfloppy = None, vfloppy_open_count = 0, host_fs = demo_bitmap\<rparr>"

lemma demo_bios_simps [simp]:
  "mem demo_bios = store32 demo_pages 0x901000 0x130007" "slot_vide demo_bios = Some demo_vide"
  "ttys demo_bios t = demo_tty\<lparr>tty_x := 79, tty_y := 3\<rparr>" "videos demo_bios = videos demo_vids" "vm_video demo_bios = 0"
  "current_task demo_bios = 0" "t_page_dir (tasks demo_bios 0) = 0x900000"
  by (simp_all add: demo_bios_def demo_ttys_def demo_vids_def vids.defs ttys.defs vports.defs)

lemma demo_bios_entries:
  "entry demo_bios 0x900000 0 = 0x101007" "entry demo_bios 0x901000 0 = 0x130007" "entry demo_bios 0x901000 0xb0 = 0x120007"
  by (simp_all add: entry_def demo_pages_def load32_store32_aligned aligned4_def)

lemma demo_bios_pages: "user_page demo_bios 0xb0000 0x920000" "user_page demo_bios 0 0x930000"
  by (simp_all add: user_page_def window_def get_pte_def table_page_def demo_bios_entries page_dir_offset_def
      page_table_offset_def pte_get_addr_def to_logical_def page_aligned_def)

lemma demo_bios_text: "bios_text 80 25 0xb0000 0x920000 0x930000 (vm_video demo_bios) demo_bios"
  using demo_bios_pages
  by (simp add: bios_text_def text_tty_def crt_ports_def TTY_COLS_def TTY_ROWS_def TTY_NUM_PAGES_def bios_find_page_def vt_buf_def
      TTY_PAGE_SIZE_def demo_tty_def demo_video_def mode7_info_def)

lemma teletype_refines_witness:
  "\<exists>s'. each (teletype (current_page (ttys demo_bios (vm_video demo_bios))) demo_regs) [0x48, 13] demo_bios = Some s'
     \<and> bios_text 80 25 0xb0000 0x920000 0x930000 (vm_video demo_bios) s'"
  using teletype_refines[OF demo_bios_text, of demo_regs "[0x48, 13]"] by blast

lemma margin_character_lost_witness:
  "\<exists>s'. each (teletype (current_page (ttys demo_bios (vm_video demo_bios))) demo_regs) [0x41, 0x42] demo_bios = Some s'
     \<and> fst (bios_screen 80 25 0x920000 (vm_video demo_bios) s') = 1"
  using margin_character_lost[OF demo_bios_text, of 3 "0x41" "0x42" demo_regs] by force

lemma scroll_up_repeats_first_row_witness:
  "\<exists>s'. vbios_video_handler (demo_regs\<lparr>eax := 0x0601, ecx := 0, edx := 0x184f\<rparr>, demo_bios)
     = Some (demo_regs\<lparr>eax := 0x0601, ecx := 0, edx := 0x184f\<rparr>, s')"
  using scroll_up_repeats_first_row[OF demo_bios_text, of "demo_regs\<lparr>eax := 0x0601, ecx := 0, edx := 0x184f\<rparr>"]
  by (auto simp: GET8H_def GET8_def)

lemma scroll_down_hangs_witness:
  "vbios_video_handler (demo_regs\<lparr>eax := 0x0701, ecx := 0, edx := 0x184f\<rparr>, demo_bios) = None"
  by (rule scroll_down_hangs) (simp_all add: GET8H_def GET8_def)

lemma disk_errors_lost_witness:
  "vbios_disk_handler (0, 0, 0) (demo_regs\<lparr>eax := 0x0201, ecx := 0xff01, edx := 0x80\<rparr>, demo_bios) \<noteq> None"
  using disk_errors_lost[OF demo_bios_pages(2), of demo_vide "demo_regs\<lparr>eax := 0x0201, ecx := 0xff01, edx := 0x80\<rparr>"]
  by (auto simp: GET8H_def GET8_def chs_args_def bad_request_def demo_vide_def)

end
