(* ===== verification/RamDisk.thy ===== *)
theory RamDisk
  imports HardDisk BlkDev KernelLib
begin

text \<open>
  The RAM disk driver (drivers/physical/ramdisk/ramdisk.c): requests that are carried out at once by
  copying between a buffer and the memory of the disk, which \<open>rd_ram\<close> points to, the
  creation and removal of disks, and the disks as devices of the file system \<open>rd_fs\<close>.
  Structures are named by indices; which one a \<open>malloc\<close> returns, or that it fails, is an
  argument.  Messages are not part of the state.
\<close>

record rd_dev =
  rd_name :: cstr
  rd_drvno :: nat
  rd_blocks :: u32
  rd_ram :: u32

record rds = blkdevs +
  rd_devs :: "nat \<Rightarrow> rd_dev"
  rd_dev_list :: "nat list"
  nextdrv :: nat
  rd_fs :: fsys

definition RD_CMD_READ :: u32 where "RD_CMD_READ = 1"
definition RD_CMD_WRITE :: u32 where "RD_CMD_WRITE = 2"

section \<open>Requests\<close>

text \<open>
  The addresses and lengths of the copies: the products come first, then the division by two, which
  is unsigned for the block and signed for the number of blocks.
\<close>

definition rd_addr :: "rd_dev \<Rightarrow> u32 \<Rightarrow> u32" where
  "rd_addr v block = rd_ram v + block * 1024 div 2"

definition rd_len :: "u32 \<Rightarrow> u32" where
  "rd_len nblocks = signed_drop_bit 1 (nblocks * 1024)"

text \<open>From \<open>current_req = req\<close> to the \<open>goto top\<close>.\<close>

definition rd_execute :: "nat \<Rightarrow> rds \<Rightarrow> rds option" where
  "rd_execute r s =
     (let s1 = s\<lparr>current_req := Some (Req r)\<rparr>; q = requests s1 r; v = rd_devs s1 (r_dev q)
      in if r_block q \<ge> rd_blocks v then end_request (-1) s1
         else if r_command q = RD_CMD_READ
         then end_request 0 (s1\<lparr>kmem := memcpy (kmem s1) (r_buf q) (rd_addr v (r_block q)) (rd_len (r_nblocks q))\<rparr>)
         else if r_command q = RD_CMD_WRITE
         then end_request 0 (s1\<lparr>kmem := memcpy (kmem s1) (rd_addr v (r_block q)) (r_buf q) (rd_len (r_nblocks q))\<rparr>)
         else end_request (-1) s1)"

lemma rd_execute_list: "rd_execute r s = Some t \<Longrightarrow> req_list t = req_list s"
  by (auto simp: rd_execute_def Let_def end_request_def req_upd_def split: if_splits option.splits)

text \<open>The request to carry out: the one given or the first of the queue.\<close>

definition rd_next :: "nat option \<Rightarrow> rds \<Rightarrow> nat option \<times> rds" where
  "rd_next req s = (case req of Some r \<Rightarrow> (Some r, s)
     | None \<Rightarrow> (case req_list s of [] \<Rightarrow> (None, s) | r # rs \<Rightarrow> (Some r, s\<lparr>req_list := rs\<rparr>)))"

function rd_do_request :: "nat option \<Rightarrow> rds \<Rightarrow> rds option" where
  "rd_do_request req s =
     (if current_req s \<noteq> None
      then Some (case req of None \<Rightarrow> s | Some r \<Rightarrow> s\<lparr>req_list := req_list s @ [r]\<rparr>)
      else (case rd_next req s of
          (None, s1) \<Rightarrow> Some s1
        | (Some r, s1) \<Rightarrow> (case rd_execute r s1 of None \<Rightarrow> None | Some s2 \<Rightarrow> rd_do_request None s2)))"
  by pat_completeness auto

termination
  by (relation "measure (\<lambda>(req, s). length (req_list s) + (if req = None then 0 else 1))")
    (auto simp: rd_next_def dest!: rd_execute_list split: option.splits list.splits)

declare rd_do_request.simps [simp del]

text \<open>
  A transfer by a task: it fills in the request \<open>r\<close>, the structure on its stack, and waits.
  \<open>None\<close> is a wait that does not end in this call.
\<close>

definition rd_transfer :: "u32 \<Rightarrow> nat \<Rightarrow> u32 \<Rightarrow> u32 \<Rightarrow> u32 \<Rightarrow> nat \<Rightarrow> rds \<Rightarrow> (bool \<times> rds) option" where
  "rd_transfer cmd rd buf block count r s =
     Option.bind (sync_request_with rd_do_request r
         (req_upd r (\<lambda>q. q\<lparr>r_buf := buf, r_command := cmd, r_block := block, r_nblocks := count, r_dev := rd\<rparr>) s))
       (\<lambda>t. map_option (\<lambda>ok. (ok, t)) (sync_result r t))"

definition ramdisk_read_blocks :: "nat \<Rightarrow> u32 \<Rightarrow> u32 \<Rightarrow> u32 \<Rightarrow> nat \<Rightarrow> rds \<Rightarrow> (bool \<times> rds) option" where
  "ramdisk_read_blocks = rd_transfer RD_CMD_READ"

definition ramdisk_write_blocks :: "nat \<Rightarrow> u32 \<Rightarrow> u32 \<Rightarrow> u32 \<Rightarrow> nat \<Rightarrow> rds \<Rightarrow> (bool \<times> rds) option" where
  "ramdisk_write_blocks = rd_transfer RD_CMD_WRITE"

definition ramdisk_fs_read_blocks :: "nat \<Rightarrow> u32 \<Rightarrow> u32 \<Rightarrow> u32 \<Rightarrow> nat \<Rightarrow> rds \<Rightarrow> (int \<times> rds) option" where
  "ramdisk_fs_read_blocks rd block buf count r s =
     map_option (\<lambda>(ok, t). (if ok then 1 else E_IO, t)) (ramdisk_read_blocks rd buf (block * 2) (count * 2) r s)"

definition ramdisk_fs_write_blocks :: "nat \<Rightarrow> u32 \<Rightarrow> u32 \<Rightarrow> u32 \<Rightarrow> nat \<Rightarrow> rds \<Rightarrow> (int \<times> rds) option" where
  "ramdisk_fs_write_blocks rd block buf count r s =
     map_option (\<lambda>(ok, t). (if ok then 1 else E_IO, t)) (ramdisk_write_blocks rd buf (block * 2) (count * 2) r s)"

section \<open>Disks and the file system\<close>

text \<open>
  A disk as a device of the file system: the blocks \<open>ramdisk_fs_read_blocks\<close> delivers one at a
  time, and the way back of what the file system has written.
\<close>

definition rd_good :: "rd_dev \<Rightarrow> u32 \<Rightarrow> bool" where
  "rd_good v blk \<longleftrightarrow> blk * 2 < rd_blocks v"

definition rd_device :: "nat \<Rightarrow> rds \<Rightarrow> fs_device \<Rightarrow> fs_device" where
  "rd_device rd s dev = (let v = rd_devs s rd in dev\<lparr>dev_name := rd_name v,
     medium := (\<lambda>blk. get_mem (kmem s) (rd_addr v (blk * 2)) 1024), good_block := rd_good v, media_code := None\<rparr>)"

definition rd_write_back :: "nat \<Rightarrow> (u32 \<Rightarrow> u8 list) \<Rightarrow> rds \<Rightarrow> rds" where
  "rd_write_back rd med s =
     (let v = rd_devs s rd
      in s\<lparr>kmem := (\<lambda>a. let blk = (a - rd_ram v) div 1024
            in if rd_good v blk then med blk ! unat ((a - rd_ram v) mod 1024) else kmem s a)\<rparr>)"

definition ramdisk_mount_disk :: "nat \<Rightarrow> rds \<Rightarrow> bool \<times> rds" where
  "ramdisk_mount_disk rd s =
     (case alloc_device (rd_fs s) of
        (None, f1) \<Rightarrow> (True, s\<lparr>rd_fs := f1\<rparr>)
      | (Some d, f1) \<Rightarrow>
          (case add_device d (dev_upd d (rd_device rd s) f1) of
             (True, f2) \<Rightarrow> (True, s\<lparr>rd_fs := f2\<rparr>)
           | (False, f2) \<Rightarrow> (False, s\<lparr>rd_fs := snd (remove_device d f2)\<rparr>)))"

definition ramdisk_mkfs_disk :: "u8 list \<Rightarrow> nat \<Rightarrow> u32 \<Rightarrow> rds \<Rightarrow> bool \<times> rds" where
  "ramdisk_mkfs_disk boot_code rd reserved s =
     (case get_device (rd_name (rd_devs s rd)) (rd_fs s) of
        (Some d, f1) \<Rightarrow> (False, s\<lparr>rd_fs := release_device d f1\<rparr>)
      | (None, f1) \<Rightarrow>
          (case alloc_device f1 of
             (None, f2) \<Rightarrow> (False, s\<lparr>rd_fs := f2\<rparr>)
           | (Some d, f2) \<Rightarrow>
               (case mkfs boot_code d (rd_blocks (rd_devs s rd) div 2) reserved
                       (dev_upd d (\<lambda>v. (rd_device rd s v)\<lparr>read_only := False\<rparr>) f2) of
                  (rc, f3) \<Rightarrow> (rc, rd_write_back rd (medium (devices f3 d)) (s\<lparr>rd_fs := f3\<rparr>)))))"

section \<open>Creation and removal\<close>

text \<open>\<open>ksprintf(new->name, "%s%d", "rd", nextdrv)\<close>.\<close>

definition BLKDEV_NAME :: cstr where "BLKDEV_NAME = ascii ''rd''"

text \<open>\<open>new\<close> and \<open>ram\<close> are the results of the two calls of \<open>malloc\<close>.\<close>

definition create_ramdisk :: "u8 list \<Rightarrow> nat option \<Rightarrow> u32 option \<Rightarrow> u32 \<Rightarrow> rds \<Rightarrow> nat option \<times> rds" where
  "create_ramdisk boot_code new ram nblk s =
     (case (new, ram) of
        (Some n, Some a) \<Rightarrow>
          (let s1 = s\<lparr>rd_devs := (rd_devs s)(n := \<lparr>rd_name = part_name BLKDEV_NAME (nextdrv s), rd_drvno = nextdrv s,
                 rd_blocks = nblk, rd_ram = a\<rparr>), nextdrv := nextdrv s + 1\<rparr>
           in case ramdisk_mkfs_disk boot_code n 0 s1 of
                (False, s2) \<Rightarrow> (None, s2)
              | (True, s2) \<Rightarrow>
                  (case ramdisk_mount_disk n (s2\<lparr>rd_dev_list := rd_dev_list s2 @ [n]\<rparr>) of
                     (ok, s3) \<Rightarrow> (if ok then Some n else None, s3)))
      | _ \<Rightarrow> (None, s))"

definition delete_ramdisk :: "nat \<Rightarrow> rds \<Rightarrow> bool \<times> rds" where
  "delete_ramdisk rd s =
     (case get_device (rd_name (rd_devs s rd)) (rd_fs s) of
        (None, f1) \<Rightarrow> (False, s\<lparr>rd_fs := f1\<rparr>)
      | (Some d, f1) \<Rightarrow>
          (case remove_device d f1 of
             (False, f2) \<Rightarrow> (False, s\<lparr>rd_fs := release_device d f2\<rparr>)
           | (True, f2) \<Rightarrow>
               (let s1 = s\<lparr>rd_fs := release_device d f2\<rparr>
                in if rd \<in> set (rd_dev_list s1) then (True, s1\<lparr>rd_dev_list := remove1 rd (rd_dev_list s1)\<rparr>)
                   else (False, s1))))"

definition ramdisk_init :: "u8 list \<Rightarrow> nat option \<Rightarrow> u32 option \<Rightarrow> rds \<Rightarrow> bool \<times> rds" where
  "ramdisk_init boot_code new ram s =
     (case create_ramdisk boot_code new ram 1440 (s\<lparr>req_list := [], rd_dev_list := []\<rparr>) of
        (None, s1) \<Rightarrow> (False, s1) | (Some _, s1) \<Rightarrow> (True, s1))"

definition ramdisk_add_dev :: bool where "ramdisk_add_dev = False"
definition ramdisk_remove_dev :: bool where "ramdisk_remove_dev = False"

end
