(* ===== verification/RamDiskProps.thy ===== *)
theory RamDiskProps
  imports RamDisk TtyProps FsBitmapProps
begin

text \<open>
  A RAM disk is a sequence of bytes: a transfer inside the disk reads and writes that sequence and
  is finished when the call returns.  A transfer is checked only at its first block: one that starts
  inside the disk and ends behind it is carried out.
\<close>

unbundle bit_operations_syntax

section \<open>Copying between ranges that are apart\<close>

lemma memcpyl_apart:
  assumes d: "unat d + 4 * n \<le> 2 ^ 32" and s: "unat s + 4 * n \<le> 2 ^ 32"
    and apart: "unat d + 4 * n \<le> unat s \<or> unat s + 4 * n \<le> unat d"
  shows "memcpyl m d s n a =
    (if unat d \<le> unat a \<and> unat a < unat d + 4 * n then m (s + (a - d)) else m a)"
proof (cases "n = 0")
  case False
  have a: "unat a < 2 ^ 32" using unat_u32_lt[of a] by simp
  have src: "(of_nat (unat a - unat d + unat s) :: u32) = s + (a - d)" if "unat d \<le> unat a"
    using that by (simp add: of_nat_diff)
  show ?thesis
  proof (cases "unat d < unat s")
    case True
    then have up: "4 \<le> unat s - unat d" "unat d + (unat s - unat d) + 4 * n \<le> 2 ^ 32" "unat d + (unat s - unat d) = unat s"
      using apart False s by auto
    show ?thesis using memcpyl_up[OF up(1,2) a, of m 0] up(3) src True by (simp add: algebra_simps)
  next
    case False
    then have "unat s + 4 * n \<le> unat d" using apart \<open>n \<noteq> 0\<close> by auto
    then show ?thesis using memcpyl_down[of "unat s" n "unat d" "unat a" m 0] d a src by (simp add: algebra_simps)
  qed
qed auto

lemma memcpy_apart:
  assumes "unat d + 4 * n \<le> 2 ^ 32" "unat s + 4 * n \<le> 2 ^ 32"
    "unat d + 4 * n \<le> unat s \<or> unat s + 4 * n \<le> unat d" "4 * n < 2 ^ 32"
  shows "memcpy m d s (of_nat (4 * n)) a =
    (if unat d \<le> unat a \<and> unat a < unat d + 4 * n then m (s + (a - d)) else m a)"
proof -
  have n: "unat (of_nat (4 * n) :: u32) = 4 * n" using assms(4) by (simp add: unat_of_nat del: of_nat_mult)
  then have q: "unat (of_nat (4 * n) div 4 :: u32) = n" by (simp add: unat_div)
  have "(of_nat (4 * n) :: u32) = push_bit 2 (of_nat n)" by (simp add: push_bit_eq_mult)
  then have "\<not> bit (of_nat (4 * n) :: u32) 0" "\<not> bit (of_nat (4 * n) :: u32) 1" by (simp_all only: bit_push_bit_iff) simp_all
  then have "memcpy m d s (of_nat (4 * n)) = memcpyl m d s n"
    unfolding memcpy_def Let_def using q by simp
  then show ?thesis using memcpyl_apart[OF assms(1-3)] by simp
qed

lemma length_get_mem [simp]: "length (get_mem m a n) = n" by (simp add: get_mem_def)
lemma nth_get_mem: "i < n \<Longrightarrow> get_mem m a n ! i = m (a + of_nat i)" by (simp add: get_mem_def)

section \<open>One transfer\<close>

definition rd_idle :: "rds \<Rightarrow> bool" where
  "rd_idle s \<longleftrightarrow> current_req s = None \<and> req_list s = []"

lemma rd_do_request_none: "current_req s = None \<Longrightarrow> req_list s = [] \<Longrightarrow> rd_do_request None s = Some s"
  by (simp add: rd_do_request.simps[of None] rd_next_def)

lemmas rd_step_defs = rd_transfer_def sync_request_with_def rd_execute_def end_request_def req_upd_def
  sync_result_def rd_next_def Let_def

lemma rd_transfer_idle:
  assumes "rd_idle s" "block < rd_blocks (rd_devs s rd)"
  shows "\<exists>t. ramdisk_read_blocks rd buf block count r s = Some (True, t) \<and> rd_idle t \<and> rd_devs t = rd_devs s \<and>
      kmem t = memcpy (kmem s) buf (rd_addr (rd_devs s rd) block) (rd_len count)"
    and "\<exists>t. ramdisk_write_blocks rd buf block count r s = Some (True, t) \<and> rd_idle t \<and> rd_devs t = rd_devs s \<and>
      kmem t = memcpy (kmem s) (rd_addr (rd_devs s rd) block) buf (rd_len count)"
proof -
  have c: "current_req s = None" "req_list s = []" using assms(1) by (simp_all add: rd_idle_def)
  have b: "\<not> rd_blocks (rd_devs s rd) \<le> block" using assms(2) by simp
  show "\<exists>t. ramdisk_read_blocks rd buf block count r s = Some (True, t) \<and> rd_idle t \<and> rd_devs t = rd_devs s \<and>
      kmem t = memcpy (kmem s) buf (rd_addr (rd_devs s rd) block) (rd_len count)"
    using c b by (simp add: ramdisk_read_blocks_def rd_step_defs rd_do_request.simps[of "Some r"] rd_do_request_none rd_idle_def)
  show "\<exists>t. ramdisk_write_blocks rd buf block count r s = Some (True, t) \<and> rd_idle t \<and> rd_devs t = rd_devs s \<and>
      kmem t = memcpy (kmem s) (rd_addr (rd_devs s rd) block) buf (rd_len count)"
    using c b by (simp add: ramdisk_write_blocks_def rd_step_defs rd_do_request.simps[of "Some r"] rd_do_request_none rd_idle_def
        RD_CMD_READ_def RD_CMD_WRITE_def)
qed

text \<open>A block that does not exist: the transfer fails and no byte is copied.\<close>

lemma ramdisk_bad_block:
  assumes "rd_idle s" "rd_blocks (rd_devs s rd) \<le> block"
  shows "\<exists>t. rd_transfer cmd rd buf block count r s = Some (False, t) \<and> rd_idle t \<and> kmem t = kmem s"
  using assms by (simp add: rd_idle_def rd_step_defs rd_do_request.simps[of "Some r"] rd_do_request_none)

section \<open>The disk as a sequence of bytes\<close>

definition rd_sound :: "rd_dev \<Rightarrow> bool" where
  "rd_sound v \<longleftrightarrow> unat (rd_blocks v) < 2 ^ 21 \<and> unat (rd_ram v) + 512 * unat (rd_blocks v) \<le> 2 ^ 32"

definition rd_apart :: "rd_dev \<Rightarrow> u32 \<Rightarrow> nat \<Rightarrow> bool" where
  "rd_apart v buf n \<longleftrightarrow> unat buf + n \<le> 2 ^ 32 \<and>
     (unat buf + n \<le> unat (rd_ram v) \<or> unat (rd_ram v) + 512 * unat (rd_blocks v) \<le> unat buf)"

definition rd_bytes :: "rd_dev \<Rightarrow> memory \<Rightarrow> u8 list" where
  "rd_bytes v m = get_mem m (rd_ram v) (512 * unat (rd_blocks v))"

lemma rd_addr_unat:
  assumes "rd_sound v" "unat block < unat (rd_blocks v)"
  shows "rd_addr v block = rd_ram v + of_nat (512 * unat block)"
    and "unat (rd_addr v block) = unat (rd_ram v) + 512 * unat block"
proof -
  have b: "unat block < 2 ^ 21" using assms by (simp add: rd_sound_def)
  then have k: "unat (block * 1024) = unat block * 1024" by (simp add: unat_word_ariths(2))
  have u: "unat (block * 1024 div 2) = 512 * unat block" by (simp add: unat_div k)
  then have "block * 1024 div 2 = of_nat (512 * unat block)" using b by (simp add: word_unat_eq_iff unat_of_nat del: of_nat_mult)
  then show "rd_addr v block = rd_ram v + of_nat (512 * unat block)" by (simp add: rd_addr_def)
  show "unat (rd_addr v block) = unat (rd_ram v) + 512 * unat block"
    unfolding rd_addr_def using u assms by (simp add: unat_word_ariths(1) rd_sound_def)
qed

lemma rd_len_nat:
  assumes "unat count < 2 ^ 21"
  shows "rd_len count = of_nat (512 * unat count)"
proof -
  have "count * 1024 = of_nat (1024 * unat count)" by (simp add: mult.commute)
  moreover have "sint (of_nat (1024 * unat count) :: u32) = int (1024 * unat count)" by (rule sint_u32) (use assms in simp)
  ultimately have "sint (count * 1024) = int (1024 * unat count)" by (simp only:)
  then have "sint (rd_len count) = int (512 * unat count)" by (simp add: rd_len_def sint_signed_drop_bit_eq drop_bit_eq_div)
  moreover have "sint (of_nat (512 * unat count) :: u32) = int (512 * unat count)" by (rule sint_u32) (use assms in simp)
  ultimately show ?thesis by (metis word_eq_iff_signed)
qed

lemma disk_address:
  assumes "rd_sound v" "i < 512 * unat (rd_blocks v)"
  shows "unat (rd_ram v + of_nat i) = unat (rd_ram v) + i"
  using assms by (simp add: rd_sound_def unat_word_ariths(1) unat_of_nat)

lemma buffer_address:
  assumes "unat (buf :: u32) + n \<le> 2 ^ 32" "i < n"
  shows "unat (buf + of_nat i) = unat buf + i"
  using assms by (simp add: unat_word_ariths(1) unat_of_nat)

text \<open>A transfer that stays inside the disk, with a buffer apart from it.\<close>

definition rd_inside :: "rd_dev \<Rightarrow> u32 \<Rightarrow> u32 \<Rightarrow> u32 \<Rightarrow> bool" where
  "rd_inside v buf block count \<longleftrightarrow> rd_sound v \<and> block < rd_blocks v \<and>
     unat block + unat count \<le> unat (rd_blocks v) \<and> rd_apart v buf (512 * unat count)"

lemma rd_copies:
  assumes "rd_inside v buf block count"
  shows "memcpy m (rd_addr v block) buf (rd_len count) a =
      (if unat (rd_ram v) + 512 * unat block \<le> unat a \<and> unat a < unat (rd_ram v) + 512 * (unat block + unat count)
       then m (buf + (a - rd_addr v block)) else m a)"
    and "memcpy m buf (rd_addr v block) (rd_len count) a =
      (if unat buf \<le> unat a \<and> unat a < unat buf + 512 * unat count then m (rd_addr v block + (a - buf)) else m a)"
proof -
  have h: "rd_sound v" "unat block < unat (rd_blocks v)" "unat block + unat count \<le> unat (rd_blocks v)"
    "rd_apart v buf (512 * unat count)"
    using assms by (simp_all add: rd_inside_def word_less_nat_alt)
  have c: "unat count < 2 ^ 21" using h(1,3) by (simp add: rd_sound_def)
  have len: "rd_len count = of_nat (4 * (128 * unat count))" using rd_len_nat[OF c] by simp
  note ua = rd_addr_unat(2)[OF h(1,2)]
  have fit: "unat (rd_addr v block) + 4 * (128 * unat count) \<le> 2 ^ 32" "unat buf + 4 * (128 * unat count) \<le> 2 ^ 32"
    "unat (rd_addr v block) + 4 * (128 * unat count) \<le> unat buf \<or> unat buf + 4 * (128 * unat count) \<le> unat (rd_addr v block)"
    "4 * (128 * unat count) < 2 ^ 32"
    using h c ua by (auto simp: rd_sound_def rd_apart_def)
  show "memcpy m (rd_addr v block) buf (rd_len count) a =
      (if unat (rd_ram v) + 512 * unat block \<le> unat a \<and> unat a < unat (rd_ram v) + 512 * (unat block + unat count)
       then m (buf + (a - rd_addr v block)) else m a)"
    unfolding len memcpy_apart[OF fit] ua by (simp add: algebra_simps)
  show "memcpy m buf (rd_addr v block) (rd_len count) a =
      (if unat buf \<le> unat a \<and> unat a < unat buf + 512 * unat count then m (rd_addr v block + (a - buf)) else m a)"
    unfolding len memcpy_apart[OF fit(2,1) fit(3)[THEN disj_commute[THEN iffD1]] fit(4)] by simp
qed

lemma rd_bytes_written:
  assumes i: "rd_inside v buf block count" and m: "n = memcpy m (rd_addr v block) buf (rd_len count)"
  shows "rd_bytes v n = take (512 * unat block) (rd_bytes v m) @ get_mem m buf (512 * unat count) @
      drop (512 * (unat block + unat count)) (rd_bytes v m)"
    (is "_ = ?D")
proof (rule nth_equalityI)
  have h: "rd_sound v" "unat block < unat (rd_blocks v)" "unat block + unat count \<le> unat (rd_blocks v)"
    using i by (simp_all add: rd_inside_def word_less_nat_alt)
  show "length (rd_bytes v n) = length ?D" using h by (simp add: rd_bytes_def)
  fix k assume "k < length (rd_bytes v n)"
  then have k: "k < 512 * unat (rd_blocks v)" by (simp add: rd_bytes_def)
  have e: "buf + (rd_ram v + of_nat k - rd_addr v block) = buf + of_nat (k - 512 * unat block)" if "512 * unat block \<le> k"
    unfolding rd_addr_unat(1)[OF h(1,2)] using that by (simp add: of_nat_diff del: of_nat_mult)
  have "rd_bytes v n ! k = (if 512 * unat block \<le> k \<and> k < 512 * (unat block + unat count)
      then m (buf + of_nat (k - 512 * unat block)) else m (rd_ram v + of_nat k))"
    unfolding m rd_bytes_def nth_get_mem[OF k] rd_copies(1)[OF i] disk_address[OF h(1) k]
    by (rule if_cong) (auto simp only: e)
  also have "\<dots> = ?D ! k" using k h by (auto simp: nth_append rd_bytes_def nth_get_mem)
  finally show "rd_bytes v n ! k = ?D ! k" .
qed

lemma rd_bytes_read:
  assumes i: "rd_inside v buf block count" and m: "n = memcpy m buf (rd_addr v block) (rd_len count)"
  shows "get_mem n buf (512 * unat count) = take (512 * unat count) (drop (512 * unat block) (rd_bytes v m))"
    and "rd_bytes v n = rd_bytes v m"
proof -
  have h: "rd_sound v" "unat block < unat (rd_blocks v)" "unat block + unat count \<le> unat (rd_blocks v)"
    "rd_apart v buf (512 * unat count)"
    using i by (simp_all add: rd_inside_def word_less_nat_alt)
  have b: "unat buf + 512 * unat count \<le> 2 ^ 32" using h(4) by (simp add: rd_apart_def)
  show "get_mem n buf (512 * unat count) = take (512 * unat count) (drop (512 * unat block) (rd_bytes v m))"
  proof (rule nth_equalityI)
    fix k assume "k < length (get_mem n buf (512 * unat count))"
    then have k: "k < 512 * unat count" by simp
    have "n (buf + of_nat k) = m (rd_addr v block + of_nat k)"
      unfolding m rd_copies(2)[OF i] using buffer_address[OF b k] k by simp
    then show "get_mem n buf (512 * unat count) ! k = take (512 * unat count) (drop (512 * unat block) (rd_bytes v m)) ! k"
      using k h(3) by (simp add: nth_get_mem rd_bytes_def rd_addr_unat(1)[OF h(1,2)] add.assoc)
  qed (use h in \<open>simp add: rd_bytes_def\<close>)
  have "n (rd_ram v + of_nat k) = m (rd_ram v + of_nat k)" if "k < 512 * unat (rd_blocks v)" for k
    unfolding m rd_copies(2)[OF i] using disk_address[OF h(1) that] that h(4) by (auto simp: rd_apart_def)
  then show "rd_bytes v n = rd_bytes v m" by (simp add: rd_bytes_def get_mem_def)
qed

section \<open>Transfers\<close>

text \<open>
  C25: a transfer between an idle RAM disk and a buffer apart from it, which stays inside the disk,
  is finished when the call returns, and the driver is idle again.  Writing replaces the bytes of the
  blocks in the disk's sequence of bytes by those of the buffer and leaves the other bytes and every
  address outside the disk alone; reading puts the bytes of the blocks into the buffer and leaves the
  disk and every address outside the buffer alone.
\<close>
theorem ramdisk_transfers:
  assumes "rd_idle s" "v = rd_devs s rd" "rd_inside v buf block count"
  shows "(\<exists>t. ramdisk_write_blocks rd buf block count r s = Some (True, t) \<and> rd_idle t \<and> rd_devs t = rd_devs s \<and>
        rd_bytes v (kmem t) = take (512 * unat block) (rd_bytes v (kmem s)) @ get_mem (kmem s) buf (512 * unat count) @
          drop (512 * (unat block + unat count)) (rd_bytes v (kmem s)) \<and>
        (\<forall>a. unat a < unat (rd_ram v) \<or> unat (rd_ram v) + 512 * unat (rd_blocks v) \<le> unat a \<longrightarrow> kmem t a = kmem s a)) \<and>
      (\<exists>t. ramdisk_read_blocks rd buf block count r s = Some (True, t) \<and> rd_idle t \<and> rd_devs t = rd_devs s \<and>
        get_mem (kmem t) buf (512 * unat count) = take (512 * unat count) (drop (512 * unat block) (rd_bytes v (kmem s))) \<and>
        rd_bytes v (kmem t) = rd_bytes v (kmem s) \<and>
        (\<forall>a. unat a < unat buf \<or> unat buf + 512 * unat count \<le> unat a \<longrightarrow> kmem t a = kmem s a))"
proof (intro conjI)
  have b: "block < rd_blocks (rd_devs s rd)" and n: "unat block + unat count \<le> unat (rd_blocks v)"
    using assms(2,3) by (simp_all add: rd_inside_def)
  obtain t where t: "ramdisk_write_blocks rd buf block count r s = Some (True, t)" "rd_idle t" "rd_devs t = rd_devs s"
    and k: "kmem t = memcpy (kmem s) (rd_addr v block) buf (rd_len count)"
    using rd_transfer_idle(2)[OF assms(1) b] assms(2) by blast
  have "kmem t a = kmem s a" if "unat a < unat (rd_ram v) \<or> unat (rd_ram v) + 512 * unat (rd_blocks v) \<le> unat a" for a
    unfolding k rd_copies(1)[OF assms(3)] using that n by auto
  then show "\<exists>t. ramdisk_write_blocks rd buf block count r s = Some (True, t) \<and> rd_idle t \<and> rd_devs t = rd_devs s \<and>
        rd_bytes v (kmem t) = take (512 * unat block) (rd_bytes v (kmem s)) @ get_mem (kmem s) buf (512 * unat count) @
          drop (512 * (unat block + unat count)) (rd_bytes v (kmem s)) \<and>
        (\<forall>a. unat a < unat (rd_ram v) \<or> unat (rd_ram v) + 512 * unat (rd_blocks v) \<le> unat a \<longrightarrow> kmem t a = kmem s a)"
    using t rd_bytes_written[OF assms(3) k] by blast
  obtain u where u: "ramdisk_read_blocks rd buf block count r s = Some (True, u)" "rd_idle u" "rd_devs u = rd_devs s"
    and ku: "kmem u = memcpy (kmem s) buf (rd_addr v block) (rd_len count)"
    using rd_transfer_idle(1)[OF assms(1) b] assms(2) by blast
  have "kmem u a = kmem s a" if "unat a < unat buf \<or> unat buf + 512 * unat count \<le> unat a" for a
    unfolding ku rd_copies(2)[OF assms(3)] using that by auto
  then show "\<exists>t. ramdisk_read_blocks rd buf block count r s = Some (True, t) \<and> rd_idle t \<and> rd_devs t = rd_devs s \<and>
        get_mem (kmem t) buf (512 * unat count) = take (512 * unat count) (drop (512 * unat block) (rd_bytes v (kmem s))) \<and>
        rd_bytes v (kmem t) = rd_bytes v (kmem s) \<and>
        (\<forall>a. unat a < unat buf \<or> unat buf + 512 * unat count \<le> unat a \<longrightarrow> kmem t a = kmem s a)"
    using u rd_bytes_read[OF assms(3) ku] by blast
qed

text \<open>
  Only the first block of a transfer is compared with the size of the disk: a write that starts in
  the last block writes the memory behind the disk and succeeds.
\<close>

theorem ramdisk_write_overruns:
  assumes "rd_idle s" "v = rd_devs s rd" "rd_sound v" "0 < rd_blocks v"
    "unat buf + 1024 \<le> unat (rd_ram v)" "unat (rd_ram v) + 512 * unat (rd_blocks v) + 512 \<le> 2 ^ 32"
  shows "\<exists>t. ramdisk_write_blocks rd buf (rd_blocks v - 1) 2 r s = Some (True, t) \<and>
    (\<forall>i < 512. kmem t (rd_ram v + of_nat (512 * unat (rd_blocks v) + i)) = kmem s (buf + of_nat (512 + i)))"
proof -
  have nz: "rd_blocks v \<noteq> 0" using assms(4) by auto
  have ub: "unat (rd_blocks v - 1) = unat (rd_blocks v) - 1" "0 < unat (rd_blocks v)"
    using nz by (simp_all add: unat_minus_one unat_gt_0)
  then have last: "rd_blocks v - 1 < rd_blocks v" by (simp add: word_less_nat_alt)
  have ul: "unat (rd_blocks v - 1) < unat (rd_blocks v)" using last by (simp add: word_less_nat_alt)
  obtain t where t: "ramdisk_write_blocks rd buf (rd_blocks v - 1) 2 r s = Some (True, t)"
    and k: "kmem t = memcpy (kmem s) (rd_addr v (rd_blocks v - 1)) buf (rd_len 2)"
    using rd_transfer_idle(2)[OF assms(1), of "rd_blocks v - 1" rd buf 2 r] last assms(2) by blast
  note addr = rd_addr_unat[OF assms(3) ul]
  have "rd_len 2 = of_nat (4 * 256)" using rd_len_nat[of 2] by simp
  then have copy: "kmem t a = (if unat (rd_addr v (rd_blocks v - 1)) \<le> unat a \<and> unat a < unat (rd_addr v (rd_blocks v - 1)) + 4 * 256
      then kmem s (buf + (a - rd_addr v (rd_blocks v - 1))) else kmem s a)" for a
    unfolding k by (simp only: memcpy_apart[of _ 256] addr(2) ub(1)) (subst memcpy_apart, use assms(5,6) addr(2) ub in auto)
  have "kmem t (rd_ram v + of_nat (512 * unat (rd_blocks v) + i)) = kmem s (buf + of_nat (512 + i))" if "i < 512" for i
  proof -
    have u: "unat (rd_ram v + of_nat (512 * unat (rd_blocks v) + i)) = unat (rd_ram v) + (512 * unat (rd_blocks v) + i)"
      by (rule buffer_address[where n = "512 * unat (rd_blocks v) + 512"]) (use assms(6) that in simp_all)
    have o: "512 * unat (rd_blocks v) + i = 512 * (unat (rd_blocks v) - 1) + (512 + i)" using ub(2) by (simp add: diff_mult_distrib2)
    have e: "rd_ram v + of_nat (512 * unat (rd_blocks v) + i) - rd_addr v (rd_blocks v - 1) = of_nat (512 + i)"
      unfolding addr(1) ub(1) o by (simp only: of_nat_add) simp
    have inside: "unat (rd_ram v) + 512 * (unat (rd_blocks v) - 1) \<le> unat (rd_ram v) + (512 * unat (rd_blocks v) + i) \<and>
        unat (rd_ram v) + (512 * unat (rd_blocks v) + i) < unat (rd_ram v) + 512 * (unat (rd_blocks v) - 1) + 4 * 256"
      using o that by linarith
    show ?thesis unfolding copy u e addr(2) ub(1) using inside by (simp only: simp_thms if_True)
  qed
  then show ?thesis using t by blast
qed

section \<open>A disk of four blocks\<close>

definition demo_rds :: rds where
  "demo_rds = \<lparr>kmem = (\<lambda>a. if a < 0x10000 then 1 else 2), requests = (\<lambda>_. \<lparr>r_dev = 0, r_buf = 0, r_block = 0, r_nblocks = 0, r_command = 0,
       r_result = 0, r_retries = 0, r_completed = False, r_blocked = False\<rparr>), req_list = [], current_req = None,
     rd_devs = (\<lambda>_. \<lparr>rd_name = BLKDEV_NAME, rd_drvno = 0, rd_blocks = 4, rd_ram = 0x10000\<rparr>), rd_dev_list = [0], nextdrv = 1,
     rd_fs = demo_bitmap\<rparr>"

lemma demo_rds_ok:
  "rd_idle demo_rds" "rd_inside (rd_devs demo_rds 0) 0 1 2" "rd_sound (rd_devs demo_rds 0)"
  "rd_blocks (rd_devs demo_rds 0) = 4" "rd_ram (rd_devs demo_rds 0) = 0x10000"
  by (simp_all add: demo_rds_def rd_idle_def rd_inside_def rd_sound_def rd_apart_def)

theorem ramdisk_transfers_witness:
  "(\<exists>t. ramdisk_write_blocks 0 0 1 2 0 demo_rds = Some (True, t) \<and>
      rd_bytes (rd_devs demo_rds 0) (kmem t) ! 511 = 2 \<and> rd_bytes (rd_devs demo_rds 0) (kmem t) ! 512 = 1) \<and>
   (\<exists>t. ramdisk_read_blocks 0 0 1 2 0 demo_rds = Some (True, t) \<and> kmem t 1024 = 1)"
proof -
  note w = ramdisk_transfers[of demo_rds "rd_devs demo_rds 0" 0 0 1 2 0, OF demo_rds_ok(1) refl demo_rds_ok(2)]
  obtain t where t: "ramdisk_write_blocks 0 0 1 2 0 demo_rds = Some (True, t)"
    and b: "rd_bytes (rd_devs demo_rds 0) (kmem t) = take 512 (rd_bytes (rd_devs demo_rds 0) (kmem demo_rds)) @
        get_mem (kmem demo_rds) 0 1024 @ drop 1536 (rd_bytes (rd_devs demo_rds 0) (kmem demo_rds))"
    using w by auto
  have l: "length (rd_bytes (rd_devs demo_rds 0) (kmem demo_rds)) = 2048" by (simp add: rd_bytes_def demo_rds_ok)
  have "rd_bytes (rd_devs demo_rds 0) (kmem t) ! 511 = 2" "rd_bytes (rd_devs demo_rds 0) (kmem t) ! 512 = 1"
    unfolding b using l by (simp_all add: nth_append rd_bytes_def nth_get_mem demo_rds_ok) (simp_all add: demo_rds_def)
  moreover obtain u where "ramdisk_read_blocks 0 0 1 2 0 demo_rds = Some (True, u)" "kmem u 1024 = kmem demo_rds 1024" using w by auto
  moreover have "kmem demo_rds 1024 = 1" by (simp add: demo_rds_def)
  ultimately show ?thesis using t by auto
qed

theorem ramdisk_write_overruns_witness:
  "\<exists>t. ramdisk_write_blocks 0 0 3 2 0 demo_rds = Some (True, t) \<and> kmem t 0x10800 = 1"
proof -
  obtain t where t: "ramdisk_write_blocks 0 0 3 2 0 demo_rds = Some (True, t)"
    "\<forall>i < 512. kmem t (0x10000 + of_nat (512 * 4 + i)) = kmem demo_rds (0 + of_nat (512 + i))"
    using ramdisk_write_overruns[of demo_rds "rd_devs demo_rds 0" 0 0 0, OF demo_rds_ok(1) refl demo_rds_ok(3)] demo_rds_ok(4,5)
    by auto
  have "kmem t 0x10800 = kmem demo_rds 512" using spec[OF t(2), of 0] by simp
  then show ?thesis using t(1) by (simp add: demo_rds_def)
qed

end
